(* ===== verification/Prelude.thy ===== *)
theory Prelude
  imports Main "HOL-Library.Word" "HOL-Library.Monad_Syntax"
begin

text \<open>
  Shared ground of the SylixOS kernel development: the machine types of the C sources at
  their widths (the 64-bit configuration, where \<^verbatim>\<open>ULONG\<close> is 64 bits wide), the fact
  collections the component theories fill and use, and the generic facts on words, lists and
  functions that several components need.
\<close>

section \<open>Machine types\<close>

type_synonym u8 = "8 word"
type_synonym u16 = "16 word"
type_synonym u32 = "32 word"
type_synonym ulong = "64 word"

section \<open>Fact collections\<close>

named_theorems frame_simps \<open>what an operation leaves unchanged\<close>
named_theorems kernel_defs \<open>unfolding rules of small kernel accessors\<close>

unbundle bit_operations_syntax

section \<open>Words\<close>

text \<open>The position of the lowest set bit of a word, as a specification.\<close>

definition is_lsb :: "'a::len word \<Rightarrow> nat \<Rightarrow> bool" where
  "is_lsb w n \<longleftrightarrow> bit w n \<and> (\<forall>j<n. \<not> bit w j)"

lemma is_lsb_unique: "is_lsb w m \<Longrightarrow> is_lsb w n \<Longrightarrow> m = n"
  unfolding is_lsb_def by (metis linorder_neqE_nat)

lemma word_nonzero_has_bit: "(w :: 'a::len word) \<noteq> 0 \<longleftrightarrow> (\<exists>n. bit w n)"
  by (metis bit_eqI bit_0_eq bot_apply bot_bool_def)

lemma word_and_single_bit: "(w :: 'a::len word) AND 2 ^ n \<noteq> 0 \<longleftrightarrow> bit w n"
  by (simp add: word_nonzero_has_bit bit_simps) (use bit_imp_le_length in fastforce)

lemma word_or_and_not_self [simp]:
  "((s :: 'a::len word) OR m) AND NOT m = s AND NOT m"
  by (auto simp: bit_eq_iff bit_simps)

lemma u8_le_255 [simp]: "unat (p :: u8) < 256"
  using unsigned_less [of p] by simp

lemma unat_dec:
  assumes "(w :: 'a::len word) \<noteq> 0"
  shows "unat (w - 1) = unat w - 1"
  using assms by (rule unat_minus_one)

lemma unat_inc_lt:
  assumes "(w :: 'a::len word) < v"
  shows "unat (w + 1) = unat w + 1"
proof -
  have "unat w + 1 \<le> unat v"
    using assms by (simp add: word_less_nat_alt)
  also have "unat v < 2 ^ LENGTH('a)"
    by (rule unsigned_less)
  finally show ?thesis
    by (simp add: unat_word_ariths)
qed

section \<open>Lists\<close>

lemma remove1_append_other [simp]: "x \<notin> set xs \<Longrightarrow> remove1 x (xs @ ys) = xs @ remove1 x ys"
  by (simp add: remove1_append)

lemma distinct_remove1_set [simp]:
  "distinct xs \<Longrightarrow> set (remove1 x xs) = set xs - {x}"
  by (rule set_remove1_eq)

lemma sorted_wrt_remove1: "sorted_wrt R xs \<Longrightarrow> sorted_wrt R (remove1 x xs)"
  by (induction xs) (auto dest: notin_set_remove1 set_mp [OF set_remove1_subset])

lemma length_remove1_mem: "x \<in> set xs \<Longrightarrow> length (remove1 x xs) = length xs - 1"
  by (simp add: length_remove1)

end
