(* ===== verification/ListLink.thy ===== *)
theory ListLink
  imports Prelude
begin

text \<open>
  The intrusive lists of \<^verbatim>\<open>kernel/list\<close>: the doubly linked ring, the doubly linked line
  and the singly linked resource chain (\<^verbatim>\<open>listType.h\<close>, \<^verbatim>\<open>listOp.h\<close>,
  \<^verbatim>\<open>listLink.c\<close>), at the level of the pointers the C code writes. A memory maps each node
  to its link fields; \<open>None\<close> is \<^verbatim>\<open>LW_NULL\<close>. An operation that would dereference
  \<^verbatim>\<open>LW_NULL\<close> returns \<open>None\<close>. The representation relations \<open>ring_rep\<close>,
  \<open>line_rep\<close> and \<open>mono_rep\<close> say which list of nodes a header stands for, and the
  lemmas show that each routine is the list operation the rest of the development uses.
\<close>

section \<open>Definitions: rings\<close>

record 'n ring_mem =
  RING_plistNext :: "'n \<Rightarrow> 'n option"
  RING_plistPrev :: "'n \<Rightarrow> 'n option"

definition ring_set_next :: "'n \<Rightarrow> 'n option \<Rightarrow> 'n ring_mem \<Rightarrow> 'n ring_mem" where
  "ring_set_next n v m = m\<lparr>RING_plistNext := (RING_plistNext m)(n := v)\<rparr>"

definition ring_set_prev :: "'n \<Rightarrow> 'n option \<Rightarrow> 'n ring_mem \<Rightarrow> 'n ring_mem" where
  "ring_set_prev n v m = m\<lparr>RING_plistPrev := (RING_plistPrev m)(n := v)\<rparr>"

definition INIT_LIST_RING_HEAD :: "'n \<Rightarrow> 'n ring_mem \<Rightarrow> 'n ring_mem" where
  "INIT_LIST_RING_HEAD n m = ring_set_prev n None (ring_set_next n None m)"

definition list_ring_get_next :: "'n ring_mem \<Rightarrow> 'n \<Rightarrow> 'n option" where
  "list_ring_get_next m pring = RING_plistNext m pring"

definition list_ring_get_prev :: "'n ring_mem \<Rightarrow> 'n \<Rightarrow> 'n option" where
  "list_ring_get_prev m pring = RING_plistPrev m pring"

text \<open>\<^verbatim>\<open>_list_ring_next\<close>: move a header to the next node.\<close>

definition list_ring_next :: "'n option \<Rightarrow> 'n ring_mem \<Rightarrow> 'n option option" where
  "list_ring_next hdr m = do { h \<leftarrow> hdr; Some (RING_plistNext m h) }"

definition List_Ring_Add_Ahead ::
  "'n \<Rightarrow> 'n option \<Rightarrow> 'n ring_mem \<Rightarrow> ('n ring_mem \<times> 'n option) option" where
  "List_Ring_Add_Ahead pringNew hdr m =
     (case hdr of
        Some pringHeader \<Rightarrow> do {
          let m = ring_set_next pringNew (Some pringHeader) m;
          let m = ring_set_prev pringNew (RING_plistPrev m pringHeader) m;
          p \<leftarrow> RING_plistPrev m pringHeader;
          let m = ring_set_next p (Some pringNew) m;
          let m = ring_set_prev pringHeader (Some pringNew) m;
          Some (m, Some pringNew) }
      | None \<Rightarrow> do {
          let m = ring_set_prev pringNew (Some pringNew) m;
          let m = ring_set_next pringNew (Some pringNew) m;
          Some (m, Some pringNew) })"

definition List_Ring_Add_Front ::
  "'n \<Rightarrow> 'n option \<Rightarrow> 'n ring_mem \<Rightarrow> ('n ring_mem \<times> 'n option) option" where
  "List_Ring_Add_Front pringNew hdr m =
     (case hdr of
        Some pringHeader \<Rightarrow> do {
          let m = ring_set_prev pringNew (Some pringHeader) m;
          let m = ring_set_next pringNew (RING_plistNext m pringHeader) m;
          n \<leftarrow> RING_plistNext m pringHeader;
          let m = ring_set_prev n (Some pringNew) m;
          let m = ring_set_next pringHeader (Some pringNew) m;
          Some (m, hdr) }
      | None \<Rightarrow> do {
          let m = ring_set_prev pringNew (Some pringNew) m;
          let m = ring_set_next pringNew (Some pringNew) m;
          Some (m, Some pringNew) })"

definition List_Ring_Add_Last ::
  "'n \<Rightarrow> 'n option \<Rightarrow> 'n ring_mem \<Rightarrow> ('n ring_mem \<times> 'n option) option" where
  "List_Ring_Add_Last pringNew hdr m =
     (case hdr of
        Some pringHeader \<Rightarrow> do {
          p \<leftarrow> RING_plistPrev m pringHeader;
          let m = ring_set_next p (Some pringNew) m;
          let m = ring_set_prev pringNew (RING_plistPrev m pringHeader) m;
          let m = ring_set_next pringNew (Some pringHeader) m;
          let m = ring_set_prev pringHeader (Some pringNew) m;
          Some (m, hdr) }
      | None \<Rightarrow> do {
          let m = ring_set_prev pringNew (Some pringNew) m;
          let m = ring_set_next pringNew (Some pringNew) m;
          Some (m, Some pringNew) })"

definition List_Ring_Del ::
  "'n \<Rightarrow> 'n option \<Rightarrow> 'n ring_mem \<Rightarrow> ('n ring_mem \<times> 'n option) option" where
  "List_Ring_Del pringDel hdr m =
     (if RING_plistNext m pringDel = Some pringDel then
        Some (INIT_LIST_RING_HEAD pringDel m, None)
      else do {
        hdr \<leftarrow> (if hdr = Some pringDel then list_ring_next hdr m else Some hdr);
        p \<leftarrow> RING_plistPrev m pringDel;
        let m = ring_set_next p (RING_plistNext m pringDel) m;
        n \<leftarrow> RING_plistNext m pringDel;
        let m = ring_set_prev n (Some p) m;
        Some (INIT_LIST_RING_HEAD pringDel m, hdr) })"

section \<open>Definitions: lines\<close>

record 'n line_mem =
  LINE_plistNext :: "'n \<Rightarrow> 'n option"
  LINE_plistPrev :: "'n \<Rightarrow> 'n option"

definition line_set_next :: "'n \<Rightarrow> 'n option \<Rightarrow> 'n line_mem \<Rightarrow> 'n line_mem" where
  "line_set_next n v m = m\<lparr>LINE_plistNext := (LINE_plistNext m)(n := v)\<rparr>"

definition line_set_prev :: "'n \<Rightarrow> 'n option \<Rightarrow> 'n line_mem \<Rightarrow> 'n line_mem" where
  "line_set_prev n v m = m\<lparr>LINE_plistPrev := (LINE_plistPrev m)(n := v)\<rparr>"

definition list_line_get_next :: "'n line_mem \<Rightarrow> 'n \<Rightarrow> 'n option" where
  "list_line_get_next m pline = LINE_plistNext m pline"

definition list_line_get_prev :: "'n line_mem \<Rightarrow> 'n \<Rightarrow> 'n option" where
  "list_line_get_prev m pline = LINE_plistPrev m pline"

definition List_Line_Add_Ahead :: "'n \<Rightarrow> 'n option \<Rightarrow> 'n line_mem \<Rightarrow> 'n line_mem \<times> 'n option" where
  "List_Line_Add_Ahead plineNew hdr m =
     (let m = line_set_next plineNew hdr m;
          m = line_set_prev plineNew None m;
          m = (case hdr of Some h \<Rightarrow> line_set_prev h (Some plineNew) m | None \<Rightarrow> m)
      in (m, Some plineNew))"

definition List_Line_Add_Tail :: "'n \<Rightarrow> 'n option \<Rightarrow> 'n line_mem \<Rightarrow> 'n line_mem \<times> 'n option" where
  "List_Line_Add_Tail plineNew hdr m =
     (case hdr of
        Some h \<Rightarrow>
          (case LINE_plistNext m h of
             Some n \<Rightarrow>
               (let m = line_set_next plineNew (Some n) m;
                    m = line_set_prev plineNew (Some h) m;
                    m = line_set_prev n (Some plineNew) m;
                    m = line_set_next h (Some plineNew) m
                in (m, hdr))
           | None \<Rightarrow>
               (let m = line_set_next h (Some plineNew) m;
                    m = line_set_prev plineNew (Some h) m;
                    m = line_set_next plineNew None m
                in (m, hdr)))
      | None \<Rightarrow>
          (let m = line_set_prev plineNew None m;
               m = line_set_next plineNew None m
           in (m, Some plineNew)))"

definition List_Line_Add_Left :: "'n \<Rightarrow> 'n \<Rightarrow> 'n line_mem \<Rightarrow> 'n line_mem" where
  "List_Line_Add_Left plineNew plineRight m =
     (let plineLeft = LINE_plistPrev m plineRight;
          m = line_set_next plineNew (Some plineRight) m;
          m = line_set_prev plineNew plineLeft m;
          m = (case plineLeft of Some l \<Rightarrow> line_set_next l (Some plineNew) m | None \<Rightarrow> m)
      in line_set_prev plineRight (Some plineNew) m)"

definition List_Line_Add_Right :: "'n \<Rightarrow> 'n \<Rightarrow> 'n line_mem \<Rightarrow> 'n line_mem" where
  "List_Line_Add_Right plineNew plineLeft m =
     (let plineRight = LINE_plistNext m plineLeft;
          m = line_set_next plineNew plineRight m;
          m = line_set_prev plineNew (Some plineLeft) m;
          m = (case plineRight of Some r \<Rightarrow> line_set_prev r (Some plineNew) m | None \<Rightarrow> m)
      in line_set_next plineLeft (Some plineNew) m)"

definition List_Line_Del :: "'n \<Rightarrow> 'n option \<Rightarrow> 'n line_mem \<Rightarrow> 'n line_mem \<times> 'n option" where
  "List_Line_Del plineDel hdr m =
     (let (m, hdr) = (case LINE_plistPrev m plineDel of
                        None \<Rightarrow> (m, LINE_plistNext m plineDel)
                      | Some p \<Rightarrow> (line_set_next p (LINE_plistNext m plineDel) m, hdr));
          m = (case LINE_plistNext m plineDel of
                 Some n \<Rightarrow> line_set_prev n (LINE_plistPrev m plineDel) m
               | None \<Rightarrow> m)
      in (m, hdr))"

section \<open>Definitions: resource chains\<close>

type_synonym 'n mono_mem = "'n \<Rightarrow> 'n option"

definition list_mono_allocate :: "'n option \<Rightarrow> 'n mono_mem \<Rightarrow> ('n \<times> 'n option) option" where
  "list_mono_allocate phead m = do { pallo \<leftarrow> phead; Some (pallo, m pallo) }"

definition list_mono_free :: "'n option \<Rightarrow> 'n \<Rightarrow> 'n mono_mem \<Rightarrow> 'n option \<times> 'n mono_mem" where
  "list_mono_free phead pfree m = (let m = m(pfree := phead) in (Some pfree, m))"

definition list_mono_allocate_seq ::
  "'n option \<Rightarrow> 'n option \<Rightarrow> 'n mono_mem \<Rightarrow> ('n \<times> 'n option \<times> 'n option) option" where
  "list_mono_allocate_seq phead ptail m = do {
     pallo \<leftarrow> phead;
     let ptail = (if ptail = phead then m pallo else ptail);
     Some (pallo, m pallo, ptail) }"

definition list_mono_free_seq ::
  "'n option \<Rightarrow> 'n option \<Rightarrow> 'n \<Rightarrow> 'n mono_mem \<Rightarrow> 'n option \<times> 'n option \<times> 'n mono_mem" where
  "list_mono_free_seq phead ptail pfree m =
     (let m = m(pfree := None);
          (m, phead) = (case ptail of Some t \<Rightarrow> (m(t := Some pfree), phead) | None \<Rightarrow> (m, Some pfree))
      in (phead, Some pfree, m))"

section \<open>Definitions: what a ring stands for\<close>

text \<open>
  The list of a ring starts at the node the header points to and follows the next pointers.
\<close>

fun ring_chain :: "'n ring_mem \<Rightarrow> 'n list \<Rightarrow> bool" where
  "ring_chain m (x # y # zs) \<longleftrightarrow>
     RING_plistNext m x = Some y \<and> RING_plistPrev m y = Some x \<and> ring_chain m (y # zs)"
| "ring_chain m _ \<longleftrightarrow> True"

definition ring_cyc :: "'n ring_mem \<Rightarrow> 'n list \<Rightarrow> bool" where
  "ring_cyc m xs \<longleftrightarrow> xs = [] \<or> ring_chain m (xs @ [hd xs])"

definition head_of :: "'n list \<Rightarrow> 'n option" where
  "head_of xs = (case xs of [] \<Rightarrow> None | x # _ \<Rightarrow> Some x)"

definition ring_rep :: "'n ring_mem \<Rightarrow> 'n option \<Rightarrow> 'n list \<Rightarrow> bool" where
  "ring_rep m hdr xs \<longleftrightarrow> distinct xs \<and> hdr = head_of xs \<and> ring_cyc m xs"

definition ring_same :: "'n set \<Rightarrow> 'n ring_mem \<Rightarrow> 'n ring_mem \<Rightarrow> bool" where
  "ring_same A m m' \<longleftrightarrow>
     (\<forall>n. n \<notin> A \<longrightarrow> RING_plistNext m' n = RING_plistNext m n \<and> RING_plistPrev m' n = RING_plistPrev m n)"

fun line_seg :: "'n line_mem \<Rightarrow> 'n option \<Rightarrow> 'n list \<Rightarrow> bool" where
  "line_seg m p [] \<longleftrightarrow> True"
| "line_seg m p (x # xs) \<longleftrightarrow>
     LINE_plistPrev m x = p \<and> LINE_plistNext m x = head_of xs \<and> line_seg m (Some x) xs"

definition line_rep :: "'n line_mem \<Rightarrow> 'n option \<Rightarrow> 'n list \<Rightarrow> bool" where
  "line_rep m hdr xs \<longleftrightarrow> distinct xs \<and> hdr = head_of xs \<and> line_seg m None xs"

fun mono_seg :: "'n mono_mem \<Rightarrow> 'n option \<Rightarrow> 'n list \<Rightarrow> bool" where
  "mono_seg m p [] \<longleftrightarrow> p = None"
| "mono_seg m p (x # xs) \<longleftrightarrow> p = Some x \<and> mono_seg m (m x) xs"

definition mono_rep :: "'n mono_mem \<Rightarrow> 'n option \<Rightarrow> 'n list \<Rightarrow> bool" where
  "mono_rep m hdr xs \<longleftrightarrow> distinct xs \<and> mono_seg m hdr xs"

definition last_of :: "'n list \<Rightarrow> 'n option" where
  "last_of xs = (if xs = [] then None else Some (last xs))"

text \<open>The list operations the routines stand for.\<close>

definition ring_add_ahead :: "'n \<Rightarrow> 'n list \<Rightarrow> 'n list" where
  "ring_add_ahead x xs = x # xs"

definition ring_add_front :: "'n \<Rightarrow> 'n list \<Rightarrow> 'n list" where
  "ring_add_front x xs = (case xs of [] \<Rightarrow> [x] | h # t \<Rightarrow> h # x # t)"

definition ring_add_last :: "'n \<Rightarrow> 'n list \<Rightarrow> 'n list" where
  "ring_add_last x xs = xs @ [x]"

definition ring_del :: "'n \<Rightarrow> 'n list \<Rightarrow> 'n list" where
  "ring_del x xs = remove1 x xs"

definition ring_next :: "'n list \<Rightarrow> 'n list" where
  "ring_next xs = rotate1 xs"

section \<open>Rings: lemmas\<close>

lemma head_of_simps [simp]: "head_of [] = None" "head_of (x # xs) = Some x"
  by (simp_all add: head_of_def)

lemma head_of_Some: "head_of xs = Some x \<longleftrightarrow> xs \<noteq> [] \<and> hd xs = x"
  by (cases xs) auto

lemma head_of_None [simp]: "head_of xs = None \<longleftrightarrow> xs = []"
  by (cases xs) auto

lemma ring_set_sel [simp]:
  "RING_plistNext (ring_set_next n v m) = (RING_plistNext m)(n := v)"
  "RING_plistPrev (ring_set_next n v m) = RING_plistPrev m"
  "RING_plistNext (ring_set_prev n v m) = RING_plistNext m"
  "RING_plistPrev (ring_set_prev n v m) = (RING_plistPrev m)(n := v)"
  by (simp_all add: ring_set_next_def ring_set_prev_def)

lemma ring_chain_append:
  "ring_chain m (xs @ a # ys) \<longleftrightarrow> ring_chain m (xs @ [a]) \<and> ring_chain m (a # ys)"
  by (induction xs rule: induct_list012) auto

lemma ring_chain_set_next [simp]:
  "u \<notin> set (butlast zs) \<Longrightarrow> ring_chain (ring_set_next u v m) zs \<longleftrightarrow> ring_chain m zs"
  by (induction zs rule: induct_list012) auto

lemma ring_chain_set_prev [simp]:
  "u \<notin> set (tl zs) \<Longrightarrow> ring_chain (ring_set_prev u v m) zs \<longleftrightarrow> ring_chain m zs"
  by (induction zs rule: induct_list012) auto

lemma ring_cyc_rotate: "ring_cyc m (xs @ ys) \<longleftrightarrow> ring_cyc m (ys @ xs)"
proof (cases "xs = [] \<or> ys = []")
  case False
  then obtain x xs' y ys' where eq: "xs = x # xs'" "ys = y # ys'" by (auto simp: neq_Nil_conv)
  have "ring_cyc m (xs @ ys) \<longleftrightarrow> ring_chain m (xs @ [y]) \<and> ring_chain m (ys @ [x])"
    using ring_chain_append [of m "x # xs'" y "ys' @ [x]"] by (simp add: ring_cyc_def eq)
  also have "\<dots> \<longleftrightarrow> ring_cyc m (ys @ xs)"
    using ring_chain_append [of m "y # ys'" x "xs' @ [y]"] by (auto simp: ring_cyc_def eq)
  finally show ?thesis .
qed auto

lemma ring_cyc_last_hd:
  assumes "ring_cyc m xs" and "xs \<noteq> []"
  shows "RING_plistNext m (last xs) = Some (hd xs)" and "RING_plistPrev m (hd xs) = Some (last xs)"
proof -
  obtain ys l where xs: "xs = ys @ [l]" using assms(2) by (cases xs rule: rev_cases) auto
  have "ring_chain m (ys @ l # [hd xs])" using assms by (simp add: ring_cyc_def xs)
  then have "ring_chain m (l # [hd xs])" using ring_chain_append [of m ys l "[hd xs]"] by blast
  then show "RING_plistNext m (last xs) = Some (hd xs)" "RING_plistPrev m (hd xs) = Some (last xs)"
    by (simp_all add: xs)
qed

text \<open>Linking a new node between the last and the first node; unlinking the first node.\<close>

definition ring_insert :: "'n \<Rightarrow> 'n \<Rightarrow> 'n \<Rightarrow> 'n ring_mem \<Rightarrow> 'n ring_mem" where
  "ring_insert a b x m =
     ring_set_next a (Some x) (ring_set_next x (Some b) (ring_set_prev b (Some x) (ring_set_prev x (Some a) m)))"

definition ring_unlink :: "'n \<Rightarrow> 'n \<Rightarrow> 'n \<Rightarrow> 'n ring_mem \<Rightarrow> 'n ring_mem" where
  "ring_unlink a b x m = INIT_LIST_RING_HEAD x (ring_set_prev b (Some a) (ring_set_next a (Some b) m))"

lemma ring_cyc_insert:
  assumes "ring_cyc m xs" and "xs \<noteq> []" and "distinct xs" and "x \<notin> set xs"
  shows "ring_cyc (ring_insert (last xs) (hd xs) x m) (x # xs)"
proof -
  obtain ys l where xs: "xs = ys @ [l]" using assms(2) by (cases xs rule: rev_cases) auto
  let ?m = "ring_insert l (hd xs) x m"
  have "ring_chain m (ys @ [l])"
    using assms(1,2) ring_chain_append [of m ys l "[hd xs]"] by (simp add: ring_cyc_def xs)
  then have "ring_chain ?m (ys @ [l])"
    using assms(3,4) by (cases ys) (auto simp: xs ring_insert_def butlast_append)
  moreover have "RING_plistNext ?m l = Some x" "RING_plistPrev ?m x = Some l"
    "RING_plistNext ?m x = Some (hd xs)" "RING_plistPrev ?m (hd xs) = Some x"
    using assms(2,4) hd_in_set [OF assms(2)] by (auto simp: ring_insert_def xs)
  ultimately show ?thesis
    using ring_chain_append [of ?m ys l "[x]"] assms(2)
    by (cases ys) (auto simp: ring_cyc_def xs)
qed


lemma ring_cyc_unlink:
  assumes "ring_cyc m (x # xs)" and "xs \<noteq> []" and "distinct (x # xs)"
  shows "ring_cyc (ring_unlink (last xs) (hd xs) x m) xs"
proof -
  obtain ys l where xs: "xs = ys @ [l]" using assms(2) by (cases xs rule: rev_cases) auto
  let ?m = "ring_unlink l (hd xs) x m"
  have "ring_chain m (x # ys @ [l])"
    using assms(1) ring_chain_append [of m "x # ys" l "[x]"] by (simp add: ring_cyc_def xs)
  then have "ring_chain m (ys @ [l])" by (cases ys) auto
  then have "ring_chain ?m (ys @ [l])"
    using assms(3) by (cases ys) (auto simp: xs ring_unlink_def INIT_LIST_RING_HEAD_def butlast_append)
  moreover have "RING_plistNext ?m l = Some (hd xs)" "RING_plistPrev ?m (hd xs) = Some l"
    using assms(2,3) hd_in_set [OF assms(2)] by (auto simp: ring_unlink_def INIT_LIST_RING_HEAD_def xs)
  ultimately show ?thesis
    using ring_chain_append [of ?m ys l "[hd xs]"] assms(2) by (auto simp: ring_cyc_def xs)
qed

lemma ring_same_insert: "{a, b, x} \<subseteq> A \<Longrightarrow> ring_same A m (ring_insert a b x m)"
  by (auto simp: ring_same_def ring_insert_def)

lemma ring_mem_eqI:
  "RING_plistNext m = RING_plistNext m' \<Longrightarrow> RING_plistPrev m = RING_plistPrev m' \<Longrightarrow>
     (m :: 'n ring_mem) = m'"
  by simp

text \<open>Each insertion routine writes the links of \<open>ring_insert\<close> at its place.\<close>

lemma ring_rep_cases:
  assumes "ring_rep m hdr xs"
  obtains (empty) "xs = []" "hdr = None"
  | (cons) h t where "xs = h # t" "hdr = Some h" "distinct (h # t)" "ring_cyc m (h # t)"
      "RING_plistPrev m h = Some (last xs)"
  using assms ring_cyc_last_hd [of m xs] by (cases xs) (auto simp: ring_rep_def)

lemma ring_single: "ring_rep (ring_set_next x (Some x) (ring_set_prev x (Some x) m)) (Some x) [x]"
  by (simp add: ring_rep_def ring_cyc_def)

lemma Add_Ahead_eq:
  assumes "RING_plistPrev m h = Some l" and "x \<noteq> h" and "x \<noteq> l"
  shows "List_Ring_Add_Ahead x (Some h) m = Some (ring_insert l h x m, Some x)"
  using assms by (auto simp: List_Ring_Add_Ahead_def ring_insert_def Let_def intro!: ring_mem_eqI)

lemma Add_Last_eq:
  assumes "RING_plistPrev m h = Some l" and "x \<noteq> h" and "x \<noteq> l"
  shows "List_Ring_Add_Last x (Some h) m = Some (ring_insert l h x m, Some h)"
  using assms by (auto simp: List_Ring_Add_Last_def ring_insert_def Let_def intro!: ring_mem_eqI)

lemma Add_Front_eq:
  assumes "RING_plistNext m h = Some n" and "x \<noteq> h" and "x \<noteq> n"
  shows "List_Ring_Add_Front x (Some h) m = Some (ring_insert h n x m, Some h)"
  using assms by (auto simp: List_Ring_Add_Front_def ring_insert_def Let_def intro!: ring_mem_eqI)

lemma List_Ring_Add_Ahead_rep:
  assumes "ring_rep m hdr xs" and "x \<notin> set xs"
  obtains m' where "List_Ring_Add_Ahead x hdr m = Some (m', Some x)"
    "ring_rep m' (Some x) (ring_add_ahead x xs)" "ring_same (insert x (set xs)) m m'"
  using assms(1)
proof (cases rule: ring_rep_cases)
  case empty
  then show ?thesis
    by (intro that [of "ring_set_next x (Some x) (ring_set_prev x (Some x) m)"])
      (simp_all add: List_Ring_Add_Ahead_def ring_single ring_add_ahead_def ring_same_def)
next
  case (cons h t)
  let ?m = "ring_insert (last (h # t)) h x m"
  have l: "last (h # t) \<in> set (h # t)" by (rule last_in_set) simp
  with cons assms(2) have "List_Ring_Add_Ahead x hdr m = Some (?m, Some x)"
    by (auto intro!: Add_Ahead_eq)
  moreover have "ring_rep ?m (Some x) (ring_add_ahead x xs)"
    using ring_cyc_insert [of m "h # t" x] cons assms(2) by (simp add: ring_rep_def ring_add_ahead_def)
  moreover have "ring_same (insert x (set xs)) m ?m"
    using l cons by (intro ring_same_insert) auto
  ultimately show ?thesis by (rule that)
qed

lemma List_Ring_Add_Last_rep:
  assumes "ring_rep m hdr xs" and "x \<notin> set xs"
  obtains m' where "List_Ring_Add_Last x hdr m = Some (m', head_of (ring_add_last x xs))"
    "ring_rep m' (head_of (ring_add_last x xs)) (ring_add_last x xs)" "ring_same (insert x (set xs)) m m'"
  using assms(1)
proof (cases rule: ring_rep_cases)
  case empty
  then show ?thesis
    by (intro that [of "ring_set_next x (Some x) (ring_set_prev x (Some x) m)"])
      (simp_all add: List_Ring_Add_Last_def ring_single ring_add_last_def ring_same_def)
next
  case (cons h t)
  let ?m = "ring_insert (last (h # t)) h x m"
  have l: "last (h # t) \<in> set (h # t)" by (rule last_in_set) simp
  with cons assms(2) have "List_Ring_Add_Last x hdr m = Some (?m, Some h)"
    by (auto intro!: Add_Last_eq)
  moreover have "ring_cyc ?m ((h # t) @ [x])"
    using ring_cyc_insert [of m "h # t" x] ring_cyc_rotate [of ?m "[x]" "h # t"] cons assms(2) by simp
  then have "ring_rep ?m (Some h) (ring_add_last x xs)"
    using cons assms(2) by (auto simp: ring_rep_def ring_add_last_def)
  moreover have "ring_same (insert x (set xs)) m ?m"
    using l cons by (intro ring_same_insert) auto
  ultimately show ?thesis using cons by (intro that) (simp_all add: ring_add_last_def)
qed


lemma List_Ring_Add_Front_rep:
  assumes "ring_rep m hdr xs" and "x \<notin> set xs"
  obtains m' where "List_Ring_Add_Front x hdr m = Some (m', head_of (ring_add_front x xs))"
    "ring_rep m' (head_of (ring_add_front x xs)) (ring_add_front x xs)" "ring_same (insert x (set xs)) m m'"
  using assms(1)
proof (cases rule: ring_rep_cases)
  case empty
  then show ?thesis
    by (intro that [of "ring_set_next x (Some x) (ring_set_prev x (Some x) m)"])
      (simp_all add: List_Ring_Add_Front_def ring_single ring_add_front_def ring_same_def)
next
  case (cons h t)
  let ?n = "hd (t @ [h])"
  let ?m = "ring_insert h ?n x m"
  have n: "?n \<in> set (h # t)" by (cases t) auto
  have c: "ring_cyc m (t @ [h])" using cons ring_cyc_rotate [of m "[h]" t] by simp
  from ring_cyc_last_hd [OF c] have "RING_plistNext m h = Some ?n" by simp
  with n cons assms(2) have "List_Ring_Add_Front x hdr m = Some (?m, Some h)"
    by (auto intro!: Add_Front_eq)
  moreover have "ring_cyc ?m (h # x # t)"
    using ring_cyc_insert [OF c, of x] ring_cyc_rotate [of ?m "[h]" "x # t"] cons assms(2) by auto
  then have "ring_rep ?m (Some h) (ring_add_front x xs)"
    using cons assms(2) by (auto simp: ring_rep_def ring_add_front_def)
  moreover have "ring_same (insert x (set xs)) m ?m"
    using n cons by (intro ring_same_insert) auto
  ultimately show ?thesis using cons by (intro that) (simp_all add: ring_add_front_def)
qed

lemma List_Ring_Del_rep:
  assumes "ring_rep m hdr xs" and "x \<in> set xs"
  obtains m' where "List_Ring_Del x hdr m = Some (m', head_of (ring_del x xs))"
    "ring_rep m' (head_of (ring_del x xs)) (ring_del x xs)" "ring_same (set xs) m m'"
    "RING_plistNext m' x = None" "RING_plistPrev m' x = None"
proof -
  from assms obtain as bs where xs: "xs = as @ x # bs" by (auto dest: split_list)
  with assms have d: "distinct (x # bs @ as)" and c: "ring_cyc m (x # bs @ as)" and h: "hdr = head_of xs"
    using ring_cyc_rotate [of m as "x # bs"] by (auto simp: ring_rep_def)
  have rem: "ring_del x xs = as @ bs" using d by (simp add: ring_del_def xs)
  show ?thesis
  proof (cases "bs @ as = []")
    case True
    with c have "RING_plistNext m x = Some x" by (simp add: ring_cyc_def)
    then have "List_Ring_Del x hdr m = Some (INIT_LIST_RING_HEAD x m, head_of (ring_del x xs))"
      using True by (simp add: List_Ring_Del_def rem)
    with True show ?thesis
      by (intro that) (auto simp: ring_del_def ring_rep_def ring_cyc_def ring_same_def INIT_LIST_RING_HEAD_def xs)
  next
    case False
    let ?a = "last (bs @ as)" and ?b = "hd (bs @ as)"
    let ?m = "ring_unlink ?a ?b x m"
    have ab: "?a \<in> set (bs @ as)" "?b \<in> set (bs @ as)"
      using last_in_set [OF False] hd_in_set [OF False] by simp_all
    from ring_cyc_last_hd(2) [OF c] have P: "RING_plistPrev m x = Some ?a"
      using last_ConsR [OF False, of x] by simp
    from c False have N: "RING_plistNext m x = Some ?b" 
      by (cases "bs @ as") (auto simp: ring_cyc_def)
    have hd': "(if hdr = Some x then Some ?b else hdr) = head_of (as @ bs)"
      using d False by (cases as; cases bs) (auto simp: h xs)
    have "List_Ring_Del x hdr m = Some (?m, head_of (ring_del x xs))"
      using P N ab d hd' by (auto simp: List_Ring_Del_def ring_unlink_def list_ring_next_def Let_def rem
          split: if_splits intro!: ring_mem_eqI)
    moreover have "ring_cyc ?m (as @ bs)"
      using ring_cyc_unlink [OF c False d] ring_cyc_rotate [of ?m bs as] by simp
    then have "ring_rep ?m (head_of (ring_del x xs)) (ring_del x xs)"
      using d by (auto simp: ring_rep_def rem)
    moreover have "ring_same (set xs) m ?m"
      using ab by (auto simp: ring_same_def ring_unlink_def INIT_LIST_RING_HEAD_def xs)
    moreover have "RING_plistNext ?m x = None" "RING_plistPrev ?m x = None"
      by (simp_all add: ring_unlink_def INIT_LIST_RING_HEAD_def)
    ultimately show ?thesis by (rule that)
  qed
qed

lemma list_ring_next_rep:
  assumes "ring_rep m hdr xs" and "xs \<noteq> []"
  shows "list_ring_next hdr m = Some (head_of (ring_next xs)) \<and> ring_rep m (head_of (ring_next xs)) (ring_next xs)"
proof -
  from assms obtain h t where xs: "xs = h # t" and r: "hdr = Some h" "distinct (h # t)" "ring_cyc m (h # t)"
    by (cases rule: ring_rep_cases) auto
  from r(3) have c: "ring_cyc m (t @ [h])" using ring_cyc_rotate [of m "[h]" t] by simp
  from ring_cyc_last_hd(1) [OF c] have "RING_plistNext m h = Some (hd (t @ [h]))" by simp
  with c r show ?thesis by (cases t) (auto simp: list_ring_next_def ring_next_def xs ring_rep_def)
qed

section \<open>Lines: lemmas\<close>

lemma line_set_sel [simp]:
  "LINE_plistNext (line_set_next n v m) = (LINE_plistNext m)(n := v)"
  "LINE_plistPrev (line_set_next n v m) = LINE_plistPrev m"
  "LINE_plistNext (line_set_prev n v m) = LINE_plistNext m"
  "LINE_plistPrev (line_set_prev n v m) = (LINE_plistPrev m)(n := v)"
  by (simp_all add: line_set_next_def line_set_prev_def)

lemma line_seg_cong:
  "(\<And>n. n \<in> set xs \<Longrightarrow> LINE_plistNext m' n = LINE_plistNext m n \<and> LINE_plistPrev m' n = LINE_plistPrev m n) \<Longrightarrow>
     line_seg m' p xs \<longleftrightarrow> line_seg m p xs"
  by (induction xs arbitrary: p) auto

lemma last_of_simps [simp]: "last_of [] = None" "last_of (xs @ [x]) = Some x"
  by (simp_all add: last_of_def)

text \<open>A segment with an explicit right neighbour, so that segments can be cut and joined.\<close>

fun line_part :: "'n line_mem \<Rightarrow> 'n option \<Rightarrow> 'n list \<Rightarrow> 'n option \<Rightarrow> bool" where
  "line_part m p [] q \<longleftrightarrow> True"
| "line_part m p (x # xs) q \<longleftrightarrow>
     LINE_plistPrev m x = p \<and> LINE_plistNext m x = (if xs = [] then q else Some (hd xs)) \<and>
     line_part m (Some x) xs q"

lemma line_seg_part: "line_seg m p xs \<longleftrightarrow> line_part m p xs None"
  by (induction xs arbitrary: p) (auto simp: neq_Nil_conv head_of_def split: list.splits)

lemma line_part_append:
  "line_part m p (xs @ y # ys) q \<longleftrightarrow>
     line_part m p xs (Some y) \<and> line_part m (if xs = [] then p else Some (last xs)) (y # ys) q"
  by (induction xs arbitrary: p) (auto simp: hd_append)

lemma line_part_cong:
  "(\<And>n. n \<in> set xs \<Longrightarrow> LINE_plistNext m' n = LINE_plistNext m n) \<Longrightarrow>
   (\<And>n. n \<in> set xs \<Longrightarrow> LINE_plistPrev m' n = LINE_plistPrev m n) \<Longrightarrow>
     line_part m' p xs q \<longleftrightarrow> line_part m p xs q"
  by (induction xs arbitrary: p) auto

text \<open>Changing the outer neighbour of a segment changes one link of one node.\<close>

lemma line_part_relast:
  assumes "line_part m p (xs @ [l]) q" and "distinct (xs @ [l])"
  shows "line_part (line_set_next l q' m) p (xs @ [l]) q'"
proof -
  have "line_part (line_set_next l q' m) p xs (Some l)"
    using assms line_part_append [of m p xs l "[]" q]
    by (subst line_part_cong [where m = m]) auto
  then show ?thesis
    using assms line_part_append [of m p xs l "[]" q]
      line_part_append [of "line_set_next l q' m" p xs l "[]" q'] by simp
qed

lemma line_part_rehead:
  assumes "line_part m p (x # xs) q" and "x \<notin> set xs"
  shows "line_part (line_set_prev x p' m) p' (x # xs) q"
proof -
  have "line_part (line_set_prev x p' m) (Some x) xs q"
    using assms by (subst line_part_cong [where m = m]) auto
  with assms show ?thesis by simp
qed

lemma line_part_other:
  "n \<notin> set xs \<Longrightarrow> line_part (line_set_next n v m) p xs q \<longleftrightarrow> line_part m p xs q"
  "n \<notin> set xs \<Longrightarrow> line_part (line_set_prev n v m) p xs q \<longleftrightarrow> line_part m p xs q"
  by (rule line_part_cong; auto)+

definition opt_next :: "'n option \<Rightarrow> 'n option \<Rightarrow> 'n line_mem \<Rightarrow> 'n line_mem" where
  "opt_next l v m = (case l of Some n \<Rightarrow> line_set_next n v m | None \<Rightarrow> m)"

definition opt_prev :: "'n option \<Rightarrow> 'n option \<Rightarrow> 'n line_mem \<Rightarrow> 'n line_mem" where
  "opt_prev r v m = (case r of Some n \<Rightarrow> line_set_prev n v m | None \<Rightarrow> m)"

text \<open>Linking a new node between two segments, and taking one out.\<close>

lemma line_link:
  assumes "line_part m None (as @ bs) None" and "distinct (as @ x # bs)"
  shows "line_part (opt_prev (head_of bs) (Some x) (opt_next (last_of as) (Some x)
            (line_set_prev x (last_of as) (line_set_next x (head_of bs) m)))) None (as @ x # bs) None"
proof -
  let ?k = "line_set_prev x (last_of as) (line_set_next x (head_of bs) m)"
  let ?m = "opt_prev (head_of bs) (Some x) (opt_next (last_of as) (Some x) ?k)"
  have A: "line_part ?m None as (Some x)"
  proof (cases as rule: rev_cases)
    case (snoc as' l)
    have "line_part m None as (head_of bs)"
      using assms(1) line_part_append [of m None as "hd bs" "tl bs" None]
      by (cases bs) (auto simp: snoc)
    then have "line_part ?k None (as' @ [l]) (head_of bs)"
      using assms(2) by (auto simp: line_part_other snoc)
    then have "line_part (line_set_next l (Some x) ?k) None (as' @ [l]) (Some x)"
      by (rule line_part_relast) (use assms(2) snoc in auto)
    then have "line_part (opt_next (last_of as) (Some x) ?k) None as (Some x)"
      by (simp add: opt_next_def snoc)
    then show ?thesis
      using assms(2) by (cases bs) (auto simp: opt_prev_def line_part_other)
  qed simp
  have B: "line_part ?m (Some x) bs None"
  proof (cases bs)
    case (Cons b bs')
    have "line_part m (last_of as) bs None"
      using assms(1) line_part_append [of m None as b bs' None] by (auto simp: Cons last_of_def)
    then have "line_part (opt_next (last_of as) (Some x) ?k) (last_of as) (b # bs') None"
      using assms(2) by (cases as rule: rev_cases) (auto simp: line_part_other Cons opt_next_def)
    then have "line_part (line_set_prev b (Some x) (opt_next (last_of as) (Some x) ?k)) (Some x) (b # bs') None"
      by (rule line_part_rehead) (use assms(2) Cons in auto)
    then show ?thesis by (simp add: Cons opt_prev_def)
  qed simp
  have "LINE_plistPrev ?m x = last_of as" "LINE_plistNext ?m x = head_of bs"
    using assms(2) by (cases as rule: rev_cases; cases bs; auto simp: opt_next_def opt_prev_def)+
  with A B show ?thesis
    by (cases as rule: rev_cases; cases bs) (simp_all add: line_part_append)
qed

text \<open>The routines on lines, as list operations on the nodes before and after the place.\<close>

lemma line_repI:
  "distinct xs \<Longrightarrow> hdr = head_of xs \<Longrightarrow> line_part m None xs None \<Longrightarrow> line_rep m hdr xs"
  by (simp add: line_rep_def line_seg_part)

lemma line_mem_eqI:
  "LINE_plistNext m = LINE_plistNext m' \<Longrightarrow> LINE_plistPrev m = LINE_plistPrev m' \<Longrightarrow>
     (m :: 'n line_mem) = m'"
  by simp

lemma line_rep_split:
  assumes "line_rep m hdr (as @ x # bs)"
  shows "LINE_plistPrev m x = last_of as \<and> LINE_plistNext m x = head_of bs"
  using assms by (cases bs) (auto simp: line_rep_def line_seg_part line_part_append last_of_def)

lemma List_Line_Add_Ahead_rep:
  assumes "line_rep m hdr xs" and "x \<notin> set xs"
  shows "case List_Line_Add_Ahead x hdr m of (m', hdr') \<Rightarrow> hdr' = Some x \<and> line_rep m' hdr' (x # xs)"
  using assms line_link [of m "[]" xs x]
  by (auto simp: List_Line_Add_Ahead_def Let_def line_rep_def line_seg_part opt_prev_def opt_next_def
      split: option.splits)

lemma List_Line_Add_Right_rep:
  assumes "line_rep m hdr (as @ l # bs)" and "x \<notin> set (as @ l # bs)"
  shows "line_rep (List_Line_Add_Right x l m) hdr (as @ l # x # bs)"
proof -
  let ?m = "opt_prev (head_of bs) (Some x) (opt_next (Some l) (Some x)
            (line_set_prev x (Some l) (line_set_next x (head_of bs) m)))"
  have "List_Line_Add_Right x l m = ?m"
    using line_rep_split [OF assms(1)] assms
    by (cases bs) (auto simp: List_Line_Add_Right_def Let_def opt_prev_def opt_next_def line_rep_def
        intro!: line_mem_eqI)
  moreover have "line_part ?m None (as @ l # x # bs) None"
    using line_link [of m "as @ [l]" bs x] assms by (auto simp: line_rep_def line_seg_part)
  ultimately show ?thesis
    using assms by (cases as) (auto simp: line_rep_def line_seg_part)
qed

lemma List_Line_Add_Left_rep:
  assumes "line_rep m hdr (as @ r # bs)" and "x \<notin> set (as @ r # bs)"
  shows "line_rep (List_Line_Add_Left x r m) (if as = [] then Some x else hdr) (as @ x # r # bs)"
proof -
  let ?m = "opt_prev (Some r) (Some x) (opt_next (last_of as) (Some x)
            (line_set_prev x (last_of as) (line_set_next x (Some r) m)))"
  have "List_Line_Add_Left x r m = ?m"
    using line_rep_split [OF assms(1)] assms
    by (cases as rule: rev_cases) (auto simp: List_Line_Add_Left_def Let_def opt_prev_def opt_next_def
        line_rep_def intro!: line_mem_eqI)
  moreover have "line_part ?m None (as @ x # r # bs) None"
    using line_link [of m as "r # bs" x] assms by (simp add: line_rep_def line_seg_part)
  ultimately show ?thesis
    using assms by (cases as) (auto simp: line_rep_def line_seg_part)
qed

lemma List_Line_Add_Tail_rep:
  assumes "line_rep m hdr xs" and "x \<notin> set xs"
  shows "case List_Line_Add_Tail x hdr m of (m', hdr') \<Rightarrow>
           line_rep m' hdr' (case xs of [] \<Rightarrow> [x] | h # t \<Rightarrow> h # x # t)"
proof (cases xs)
  case Nil
  with assms show ?thesis by (simp add: List_Line_Add_Tail_def line_rep_def)
next
  case (Cons h t)
  with assms have r: "line_rep m (Some h) (h # t)" and hdr: "hdr = Some h" by (auto simp: line_rep_def)
  then have "LINE_plistNext m h = head_of t" using line_rep_split [of m hdr "[]" h t] by simp
  with assms(2) have "List_Line_Add_Tail x hdr m = (List_Line_Add_Right x h m, hdr)"
    by (cases t) (auto simp: List_Line_Add_Tail_def List_Line_Add_Right_def hdr Cons Let_def
        intro!: line_mem_eqI)
  then show ?thesis
    using List_Line_Add_Right_rep [of m "Some h" "[]" h t x] r assms(2) by (simp add: Cons hdr)
qed

lemma line_unlink:
  assumes "line_part m None (as @ x # bs) None" and "distinct (as @ x # bs)"
  shows "line_part (opt_prev (head_of bs) (last_of as) (opt_next (last_of as) (head_of bs) m))
           None (as @ bs) None"
    (is "line_part ?m _ _ _")
proof -
  from assms(1) have a: "line_part m None as (Some x)" and b: "line_part m (Some x) bs None"
    by (auto simp: line_part_append)
  have A: "line_part ?m None as (head_of bs)"
  proof (cases as rule: rev_cases)
    case (snoc as' l)
    from line_part_relast [of m None as' l "Some x" "head_of bs"] a assms(2)
    have "line_part (opt_next (last_of as) (head_of bs) m) None as (head_of bs)"
      by (simp add: snoc opt_next_def)
    then show ?thesis
      using assms(2) by (cases bs) (auto simp: opt_prev_def line_part_other)
  qed simp
  have B: "line_part ?m (last_of as) bs None"
  proof (cases bs)
    case (Cons y ys)
    have "line_part (opt_next (last_of as) (head_of bs) m) (Some x) (y # ys) None"
      using b assms(2) by (cases as rule: rev_cases) (auto simp: opt_next_def line_part_other Cons)
    then show ?thesis
      using line_part_rehead [of _ "Some x" y ys None "last_of as"] assms(2) by (simp add: Cons opt_prev_def)
  qed simp
  show ?thesis
  proof (cases bs)
    case (Cons y ys)
    then show ?thesis using A B by (auto simp: line_part_append last_of_def)
  qed (use A in simp)
qed

lemma List_Line_Del_rep:
  assumes "line_rep m hdr (as @ x # bs)"
  shows "case List_Line_Del x hdr m of (m', hdr') \<Rightarrow> line_rep m' hdr' (as @ bs)"
proof -
  let ?m = "opt_prev (head_of bs) (last_of as) (opt_next (last_of as) (head_of bs) m)"
  have d: "distinct (as @ x # bs)" and h: "hdr = head_of (as @ x # bs)" using assms by (auto simp: line_rep_def)
  have pn: "LINE_plistPrev m x = last_of as" "LINE_plistNext m x = head_of bs"
    using line_rep_split [OF assms] by simp_all
  have "List_Line_Del x hdr m = (?m, head_of (as @ bs))"
  proof (cases as rule: rev_cases)
    case Nil
    then show ?thesis using pn by (cases bs) (auto simp: List_Line_Del_def opt_prev_def opt_next_def)
  next
    case (snoc as' l)
    then have "l \<noteq> x" "hdr = head_of (as @ bs)" using d h by (cases as'; auto)+
    then show ?thesis using pn by (cases bs) (auto simp: List_Line_Del_def opt_prev_def opt_next_def snoc)
  qed
  with assms line_unlink [of m as x bs] show ?thesis
    by (auto simp: line_rep_def line_seg_part)
qed

section \<open>Resource chains: lemmas\<close>

lemma mono_seg_cong: "(\<And>n. n \<in> set xs \<Longrightarrow> m' n = m n) \<Longrightarrow> mono_seg m' p xs \<longleftrightarrow> mono_seg m p xs"
  by (induction xs arbitrary: p) auto

lemma mono_seg_head: "mono_seg m p xs \<Longrightarrow> p = head_of xs"
  by (cases xs) auto

lemma mono_rep_Cons: "mono_rep m hdr (x # xs) \<longleftrightarrow>
    hdr = Some x \<and> x \<notin> set xs \<and> m x = head_of xs \<and> mono_rep m (head_of xs) xs"
  using mono_seg_head [of m "m x" xs] by (auto simp: mono_rep_def)

lemma list_mono_allocate_rep:
  assumes "mono_rep m hdr xs"
  shows "list_mono_allocate hdr m =
           (case xs of [] \<Rightarrow> None | x # t \<Rightarrow> Some (x, head_of t)) \<and>
         (xs \<noteq> [] \<longrightarrow> mono_rep m (head_of (tl xs)) (tl xs))"
  using assms
  by (cases xs) (simp_all add: mono_rep_Cons list_mono_allocate_def, simp add: mono_rep_def)

lemma list_mono_free_rep:
  assumes "mono_rep m hdr xs" and "x \<notin> set xs"
  shows "case list_mono_free hdr x m of (hdr', m') \<Rightarrow> hdr' = Some x \<and> mono_rep m' hdr' (x # xs)"
proof -
  have "mono_seg (m(x := hdr)) hdr xs"
    using assms by (subst mono_seg_cong [where m = m]) (auto simp: mono_rep_def)
  with assms show ?thesis by (simp add: list_mono_free_def mono_rep_def)
qed

lemma mono_seg_snoc:
  assumes "mono_seg m p (xs @ [t])" and "distinct (xs @ [t, x])"
  shows "mono_seg (m(x := None, t := Some x)) p ((xs @ [t]) @ [x])"
  using assms by (induction xs arbitrary: p) auto

text \<open>The sequential variants keep a tail pointer and take from the front: a queue.\<close>

lemma list_mono_free_seq_rep:
  assumes "mono_rep m phead xs" and "ptail = last_of xs" and "x \<notin> set xs"
  shows "case list_mono_free_seq phead ptail x m of (h', t', m') \<Rightarrow>
           t' = last_of (xs @ [x]) \<and> mono_rep m' h' (xs @ [x])"
proof (cases xs rule: rev_cases)
  case Nil
  with assms show ?thesis by (simp add: list_mono_free_seq_def mono_rep_def last_of_def)
next
  case (snoc ys t)
  have "mono_seg (m(x := None, t := Some x)) phead ((ys @ [t]) @ [x])"
    by (rule mono_seg_snoc) (use assms snoc in \<open>auto simp: mono_rep_def\<close>)
  with assms snoc show ?thesis by (auto simp: list_mono_free_seq_def mono_rep_def last_of_def)
qed

lemma list_mono_allocate_seq_rep:
  assumes "mono_rep m phead (x # xs)" and "ptail = last_of (x # xs)"
  shows "list_mono_allocate_seq phead ptail m = Some (x, head_of xs, last_of xs) \<and> mono_rep m (head_of xs) xs"
  using assms
  by (cases xs rule: rev_cases) (auto simp: mono_rep_Cons list_mono_allocate_seq_def last_of_def Let_def)

section \<open>The interface the kernel queues use\<close>

text \<open>
  What the ready rings and the waiting rings rely on: insertion before and behind the header,
  removal of any node, and the node before the header.
\<close>

locale ring_ops =
  fixes rep :: "'m \<Rightarrow> 'n option \<Rightarrow> 'n list \<Rightarrow> bool"
    and add_ahead :: "'n \<Rightarrow> 'n option \<Rightarrow> 'm \<Rightarrow> ('m \<times> 'n option) option"
    and add_last :: "'n \<Rightarrow> 'n option \<Rightarrow> 'm \<Rightarrow> ('m \<times> 'n option) option"
    and del :: "'n \<Rightarrow> 'n option \<Rightarrow> 'm \<Rightarrow> ('m \<times> 'n option) option"
    and get_prev :: "'m \<Rightarrow> 'n \<Rightarrow> 'n option"
  assumes rep_distinct: "rep m h xs \<Longrightarrow> distinct xs"
    and rep_head: "rep m h xs \<Longrightarrow> h = head_of xs"
    and rep_empty: "rep m None []"
    and rep_add_ahead: "rep m h xs \<Longrightarrow> x \<notin> set xs \<Longrightarrow>
      \<exists>m' h'. add_ahead x h m = Some (m', h') \<and> rep m' h' (x # xs)"
    and rep_add_last: "rep m h xs \<Longrightarrow> x \<notin> set xs \<Longrightarrow>
      \<exists>m' h'. add_last x h m = Some (m', h') \<and> rep m' h' (xs @ [x])"
    and rep_del: "rep m h xs \<Longrightarrow> x \<in> set xs \<Longrightarrow>
      \<exists>m' h'. del x h m = Some (m', h') \<and> rep m' h' (remove1 x xs)"
    and rep_prev: "rep m (Some p) xs \<Longrightarrow> get_prev m p = Some (last xs)"
begin

text \<open>Insert a sequence of nodes one after the other.\<close>

fun add_all :: "'n list \<Rightarrow> 'n option \<Rightarrow> 'm \<Rightarrow> ('m \<times> 'n option) option" where
  "add_all [] h m = Some (m, h)"
| "add_all (x # xs) h m = do { (m, h) \<leftarrow> add_ahead x h m; add_all xs h m }"

text \<open>Take the node before the header out, as the first-in-first-out queues do.\<close>

definition take_oldest :: "'n option \<Rightarrow> 'm \<Rightarrow> ('n \<times> 'm \<times> 'n option) option" where
  "take_oldest h m = do {
     p \<leftarrow> h;
     x \<leftarrow> get_prev m p;
     (m, h) \<leftarrow> del x h m;
     Some (x, m, h) }"

fun take_all :: "nat \<Rightarrow> 'n option \<Rightarrow> 'm \<Rightarrow> 'n list option" where
  "take_all 0 h m = Some []"
| "take_all (Suc n) h m = do {
     (x, m, h) \<leftarrow> take_oldest h m;
     xs \<leftarrow> take_all n h m;
     Some (x # xs) }"

lemma add_all_rep:
  assumes "rep m h ys" and "distinct (xs @ ys)"
  shows "\<exists>m' h'. add_all xs h m = Some (m', h') \<and> rep m' h' (rev xs @ ys)"
  using assms
proof (induction xs arbitrary: m h ys)
  case (Cons x xs)
  from rep_add_ahead [OF Cons.prems(1), of x] Cons.prems(2) obtain m1 h1
    where 1: "add_ahead x h m = Some (m1, h1)" "rep m1 h1 (x # ys)" by auto
  from Cons.IH [OF 1(2)] Cons.prems(2) 1(1) show ?case by auto
qed simp

lemma take_oldest_rep:
  assumes "rep m h (xs @ [x])"
  shows "\<exists>m' h'. take_oldest h m = Some (x, m', h') \<and> rep m' h' xs"
proof -
  from rep_distinct [OF assms] have "remove1 x (xs @ [x]) = xs" by (simp add: remove1_append)
  with rep_del [OF assms, of x] obtain m' h' where 1: "del x h m = Some (m', h')" "rep m' h' xs" by auto
  obtain p where p: "h = Some p" using rep_head [OF assms] by (cases xs) auto
  with rep_prev assms have "get_prev m p = Some x" by fastforce
  with 1 p show ?thesis by (simp add: take_oldest_def)
qed

lemma take_all_rep: "rep m h (rev xs) \<Longrightarrow> take_all (length xs) h m = Some xs"
proof (induction xs arbitrary: m h)
  case (Cons x xs)
  from take_oldest_rep [of m h "rev xs" x] Cons.prems obtain m' h'
    where "take_oldest h m = Some (x, m', h')" "rep m' h' (rev xs)" by auto
  with Cons.IH show ?case by auto
qed simp

lemma fifo:
  assumes "distinct xs"
  shows "\<exists>m' h'. add_all xs None m = Some (m', h') \<and> take_all (length xs) h' m' = Some xs"
  using add_all_rep [OF rep_empty, of xs m] assms take_all_rep by fastforce

end

interpretation ring: ring_ops ring_rep List_Ring_Add_Ahead List_Ring_Add_Last List_Ring_Del list_ring_get_prev
proof unfold_locales
  fix m :: "'a ring_mem" and h :: "'a option" and x :: 'a and xs :: "'a list" and p :: 'a
  show "ring_rep m h xs \<Longrightarrow> distinct xs" "ring_rep m h xs \<Longrightarrow> h = head_of xs"
    by (simp_all add: ring_rep_def)
  show "ring_rep m None []" by (simp add: ring_rep_def ring_cyc_def)
  show "\<exists>m' h'. List_Ring_Add_Ahead x h m = Some (m', h') \<and> ring_rep m' h' (x # xs)"
    if "ring_rep m h xs" "x \<notin> set xs"
    using List_Ring_Add_Ahead_rep [OF that] by (metis ring_add_ahead_def)
  show "\<exists>m' h'. List_Ring_Add_Last x h m = Some (m', h') \<and> ring_rep m' h' (xs @ [x])"
    if "ring_rep m h xs" "x \<notin> set xs"
    using List_Ring_Add_Last_rep [OF that] by (metis ring_add_last_def)
  show "\<exists>m' h'. List_Ring_Del x h m = Some (m', h') \<and> ring_rep m' h' (remove1 x xs)"
    if "ring_rep m h xs" "x \<in> set xs"
    using List_Ring_Del_rep [OF that] by (metis ring_del_def)
  show "list_ring_get_prev m p = Some (last xs)" if "ring_rep m (Some p) xs"
    using that ring_cyc_last_hd(2) [of m xs]
    by (cases xs) (auto simp: ring_rep_def list_ring_get_prev_def)
qed

end
