(* ===== verification/Wakeup.thy ===== *)
theory Wakeup
  imports ListLink
begin

text \<open>
  The wakeup line of \<^verbatim>\<open>kernel/core/_WakeupLine.c\<close>: a line of nodes, each of which holds the
  ticks between its predecessor's expiry and its own. The deadline of a node is the sum of the
  counters up to it. The lemmas show that insertion and removal keep the deadlines of all other
  nodes, up to the time they account for on a line driven by kernel time, and that the line is in
  deadline order; the locale \<open>deadline_queue\<close> states this as
  the interface the delay code uses.
\<close>

section \<open>Definitions\<close>

record wun =
  WUN_bInQ :: bool
  WUN_ulCounter :: ulong

record wakeup =
  WU_plineHeader :: "nat list"
  WU_plineOp :: "nat option"
  WU_i64LastTime :: ulong
  WU_pfuncWakeup :: bool \<comment> \<open>whether a wakeup function is set\<close>

type_synonym wnodes = "nat \<Rightarrow> wun"

definition wun_cnt :: "nat \<Rightarrow> ulong \<Rightarrow> wnodes \<Rightarrow> wnodes" where
  "wun_cnt n v ns = ns(n := (ns n)\<lparr>WUN_ulCounter := v\<rparr>)"

definition wun_inq :: "nat \<Rightarrow> bool \<Rightarrow> wnodes \<Rightarrow> wnodes" where
  "wun_inq n v ns = ns(n := (ns n)\<lparr>WUN_bInQ := v\<rparr>)"

text \<open>
  The search loop of \<^verbatim>\<open>_WakeupAdd\<close>: the nodes passed, the ticks left of the new node, and the
  nodes from the first later one on.
\<close>

fun wakeup_seek :: "wnodes \<Rightarrow> ulong \<Rightarrow> nat list \<Rightarrow> nat list \<times> ulong \<times> nat list" where
  "wakeup_seek ns c [] = ([], c, [])"
| "wakeup_seek ns c (x # xs) =
     (if WUN_ulCounter (ns x) \<le> c then
        (case wakeup_seek ns (c - WUN_ulCounter (ns x)) xs of (p, c', r) \<Rightarrow> (x # p, c', r))
      else ([], c, x # xs))"

text \<open>The time pre-processing of the first node when the line is driven by kernel time.\<close>

definition wakeup_proc_head :: "ulong \<Rightarrow> wakeup \<Rightarrow> wnodes \<Rightarrow> wakeup \<times> wnodes" where
  "wakeup_proc_head i64CurTime wu ns =
     (case WU_plineHeader wu of
        [] \<Rightarrow> (wu, ns)
      | h # _ \<Rightarrow>
          let ulCounter = i64CurTime - WU_i64LastTime wu in
          (wu\<lparr>WU_i64LastTime := i64CurTime\<rparr>,
           wun_cnt h (if WUN_ulCounter (ns h) > ulCounter then WUN_ulCounter (ns h) - ulCounter else 0) ns))"

text \<open>
  \<^verbatim>\<open>_WakeupAdd\<close>; the last component says whether the wakeup function is called.
\<close>

definition WakeupAdd :: "ulong \<Rightarrow> nat \<Rightarrow> bool \<Rightarrow> wakeup \<Rightarrow> wnodes \<Rightarrow> wakeup \<times> wnodes \<times> bool" where
  "WakeupAdd i64CurTime pwun bProcTime wu ns =
     (let (wu, ns) = (if bProcTime \<and> WU_pfuncWakeup wu then wakeup_proc_head i64CurTime wu ns else (wu, ns));
          bSaveTime = (WU_plineHeader wu = []);
          (p, c, r) = wakeup_seek ns (WUN_ulCounter (ns pwun)) (WU_plineHeader wu);
          ns = wun_cnt pwun c ns;
          ns = (case r of [] \<Rightarrow> ns | y # _ \<Rightarrow> wun_cnt y (WUN_ulCounter (ns y) - c) ns);
          wu = wu\<lparr>WU_plineHeader := p @ pwun # r\<rparr>;
          ns = wun_inq pwun True ns
      in if bProcTime \<and> WU_pfuncWakeup wu then
           ((if bSaveTime then wu\<lparr>WU_i64LastTime := i64CurTime\<rparr> else wu), ns, True)
         else (wu, ns, False))"

text \<open>The node right of a node, the node left of it.\<close>

fun line_right :: "nat list \<Rightarrow> nat \<Rightarrow> nat option" where
  "line_right [] n = None"
| "line_right (x # xs) n = (if x = n then head_of xs else line_right xs n)"

definition WakeupDel :: "ulong \<Rightarrow> nat \<Rightarrow> bool \<Rightarrow> wakeup \<Rightarrow> wnodes \<Rightarrow> wakeup \<times> wnodes" where
  "WakeupDel i64CurTime pwun bProcTime wu ns =
     (let plineRight = line_right (WU_plineHeader wu) pwun;
          wu = (if WU_plineOp wu = Some pwun then wu\<lparr>WU_plineOp := plineRight\<rparr> else wu);
          ns = (case plineRight of
                  Some r \<Rightarrow> wun_cnt r (WUN_ulCounter (ns r) + WUN_ulCounter (ns pwun)) ns
                | None \<Rightarrow> ns);
          (wu, ns) =
            (if bProcTime \<and> head_of (WU_plineHeader wu) = Some pwun \<and> WU_pfuncWakeup wu then
               let ulCounter = i64CurTime - WU_i64LastTime wu in
               (wu\<lparr>WU_i64LastTime := i64CurTime\<rparr>,
                (case plineRight of
                   Some r \<Rightarrow> wun_cnt r (if WUN_ulCounter (ns r) > ulCounter then WUN_ulCounter (ns r) - ulCounter else 0) ns
                 | None \<Rightarrow> ns))
             else (wu, ns));
          wu = wu\<lparr>WU_plineHeader := remove1 pwun (WU_plineHeader wu)\<rparr>
      in (wu, wun_inq pwun False ns))"

text \<open>\<^verbatim>\<open>_WakeupStatus\<close>: the ticks left of a node, zero when it is not in the line.\<close>

fun wakeup_sum :: "wnodes \<Rightarrow> nat \<Rightarrow> ulong \<Rightarrow> nat list \<Rightarrow> ulong option" where
  "wakeup_sum ns n c [] = None"
| "wakeup_sum ns n c (x # xs) =
     (if x = n then Some (c + WUN_ulCounter (ns x)) else wakeup_sum ns n (c + WUN_ulCounter (ns x)) xs)"

definition WakeupStatus :: "ulong \<Rightarrow> nat \<Rightarrow> wakeup \<Rightarrow> wnodes \<Rightarrow> ulong" where
  "WakeupStatus i64CurTime pwun wu ns =
     (case wakeup_sum ns pwun 0 (WU_plineHeader wu) of
        Some ulCounter \<Rightarrow>
          if WU_i64LastTime wu \<noteq> 0 then
            let ulDelta = i64CurTime - WU_i64LastTime wu in
            if ulCounter > ulDelta then ulCounter - ulDelta else 0
          else ulCounter
      | None \<Rightarrow> 0)"

section \<open>Deadlines\<close>

fun deadline :: "wnodes \<Rightarrow> nat list \<Rightarrow> nat \<Rightarrow> nat" where
  "deadline ns [] n = 0"
| "deadline ns (x # xs) n = unat (WUN_ulCounter (ns x)) + (if x = n then 0 else deadline ns xs n)"

definition total :: "wnodes \<Rightarrow> nat list \<Rightarrow> nat" where
  "total ns xs = sum_list (map (\<lambda>x. unat (WUN_ulCounter (ns x))) xs)"

text \<open>A line is well formed when its nodes are distinct and no deadline exceeds a word.\<close>

definition wakeup_wf :: "wakeup \<Rightarrow> wnodes \<Rightarrow> bool" where
  "wakeup_wf wu ns \<longleftrightarrow> distinct (WU_plineHeader wu) \<and> total ns (WU_plineHeader wu) < 2 ^ 64"

text \<open>
  The time that has passed since the line was last brought up to date, for a line that is driven by
  kernel time; any other line is moved on by the tick alone.
\<close>

definition wakeup_elapsed :: "ulong \<Rightarrow> bool \<Rightarrow> wakeup \<Rightarrow> nat" where
  "wakeup_elapsed t b wu = (if b \<and> WU_pfuncWakeup wu then unat (t - WU_i64LastTime wu) else 0)"

definition wakeup_first :: "wnodes \<Rightarrow> nat list \<Rightarrow> nat" where
  "wakeup_first ns xs = (case xs of [] \<Rightarrow> 0 | h # _ \<Rightarrow> unat (WUN_ulCounter (ns h)))"

lemma wun_upd_sel [simp]:
  "WUN_ulCounter (wun_cnt n v ns m) = (if m = n then v else WUN_ulCounter (ns m))"
  "WUN_ulCounter (wun_inq n b ns m) = WUN_ulCounter (ns m)"
  "WUN_bInQ (wun_cnt n v ns m) = WUN_bInQ (ns m)"
  "WUN_bInQ (wun_inq n b ns m) = (if m = n then b else WUN_bInQ (ns m))"
  by (simp_all add: wun_cnt_def wun_inq_def)

lemma total_simps [simp]: "total ns [] = 0" "total ns (x # xs) = unat (WUN_ulCounter (ns x)) + total ns xs"
  "total ns (xs @ ys) = total ns xs + total ns ys"
  by (simp_all add: total_def)

lemma total_cong: "(\<And>x. x \<in> set xs \<Longrightarrow> WUN_ulCounter (ns x) = WUN_ulCounter (ns' x)) \<Longrightarrow> total ns xs = total ns' xs"
  by (induction xs) auto

lemma deadline_cong:
  "(\<And>x. x \<in> set xs \<Longrightarrow> WUN_ulCounter (ns x) = WUN_ulCounter (ns' x)) \<Longrightarrow> deadline ns xs n = deadline ns' xs n"
  by (induction xs) auto

lemma deadline_append:
  "deadline ns (xs @ ys) n = (if n \<in> set xs then deadline ns xs n else total ns xs + deadline ns ys n)"
  by (induction xs) auto

lemma deadline_le_total: "deadline ns xs n \<le> total ns xs"
  by (induction xs) auto

text \<open>The search splits the line; what is left of the counter is what the nodes passed did not use.\<close>

lemma wakeup_seek_spec:
  "wakeup_seek ns c xs = (p, c', r) \<Longrightarrow>
     xs = p @ r \<and> unat c = total ns p + unat c' \<and> (r \<noteq> [] \<longrightarrow> unat c' < unat (WUN_ulCounter (ns (hd r))))"
proof (induction ns c xs arbitrary: p c' r rule: wakeup_seek.induct)
  case (2 ns c x xs)
  show ?case
  proof (cases "WUN_ulCounter (ns x) \<le> c")
    case True
    then obtain p' where p: "p = x # p'" "wakeup_seek ns (c - WUN_ulCounter (ns x)) xs = (p', c', r)"
      using 2(2) by (auto split: prod.splits)
    from 2(1) [OF True p(2)] True show ?thesis by (auto simp: p(1) unat_sub word_le_nat_alt)
  next
    case False
    then show ?thesis using 2(2) by (auto simp: word_le_nat_alt)
  qed
qed auto

lemma line_right_append: "n \<notin> set p \<Longrightarrow> line_right (p @ n # r) n = head_of r"
  by (induction p) auto

text \<open>Insertion: the new node gets the deadline asked for, the others keep theirs.\<close>

lemma unat_sub_lt: "unat c < unat (v :: ulong) \<Longrightarrow> unat (v - c) = unat v - unat c"
  by (simp add: unat_sub word_le_nat_alt)

lemma deadline_insert:
  assumes d: "distinct (p @ r)" and n: "n \<notin> set (p @ r)"
    and c: "r \<noteq> [] \<longrightarrow> unat c < unat (WUN_ulCounter (ns (hd r)))"
    and ns': "\<And>x. WUN_ulCounter (ns' x) = (if x = n then c
        else if r \<noteq> [] \<and> x = hd r then WUN_ulCounter (ns (hd r)) - c else WUN_ulCounter (ns x))"
  shows "deadline ns' (p @ n # r) n = total ns p + unat c"
    and "x \<in> set (p @ r) \<Longrightarrow> deadline ns' (p @ n # r) x = deadline ns (p @ r) x"
    and "total ns' (p @ n # r) = max (total ns (p @ r)) (total ns p + unat c)"
proof -
  have p: "total ns' p = total ns p" "deadline ns' p y = deadline ns p y" for y
    using d n by (cases r; auto simp: ns' intro!: total_cong deadline_cong)+
  show "deadline ns' (p @ n # r) n = total ns p + unat c"
    using n by (simp add: deadline_append p ns')
  have R: "unat (WUN_ulCounter (ns' y)) + unat c = unat (WUN_ulCounter (ns y))
      \<and> total ns' ys = total ns ys \<and> deadline ns' ys z = deadline ns ys z" if "r = y # ys" for y ys z
    using that c d n unat_sub_lt [of c "WUN_ulCounter (ns y)"]
    by (auto simp: ns' intro!: total_cong deadline_cong)
  show "deadline ns' (p @ n # r) x = deadline ns (p @ r) x" if "x \<in> set (p @ r)"
  proof (cases r)
    case (Cons y ys)
    show ?thesis using that n R [OF Cons, of x] by (auto simp: Cons deadline_append p ns' split: if_splits)
  qed (use that n in \<open>auto simp: deadline_append p\<close>)
  show "total ns' (p @ n # r) = max (total ns (p @ r)) (total ns p + unat c)"
  proof (cases r)
    case (Cons y ys)
    show ?thesis using n R [OF Cons, of y] by (auto simp: Cons p ns' split: if_splits)
  qed (simp add: p ns')
qed

lemma WakeupAdd_spec:
  assumes wf: "wakeup_wf wu ns" and n: "n \<notin> set (WU_plineHeader wu)"
    and e: "WakeupAdd t n False wu ns = (wu', ns', b)"
  shows "wakeup_wf wu' ns'" "set (WU_plineHeader wu') = insert n (set (WU_plineHeader wu))"
    "deadline ns' (WU_plineHeader wu') n = unat (WUN_ulCounter (ns n))"
    "x \<in> set (WU_plineHeader wu) \<Longrightarrow> deadline ns' (WU_plineHeader wu') x = deadline ns (WU_plineHeader wu) x"
    "WU_plineOp wu' = WU_plineOp wu" "WUN_bInQ (ns' n)" "remove1 n (WU_plineHeader wu') = WU_plineHeader wu"
proof -
  obtain p c r where s: "wakeup_seek ns (WUN_ulCounter (ns n)) (WU_plineHeader wu) = (p, c, r)"
    by (metis prod_cases3)
  note S = wakeup_seek_spec [OF s]
  have l: "WU_plineHeader wu = p @ r" using S by simp
  have d: "distinct (p @ r)" and n': "n \<notin> set (p @ r)" using wf n by (simp_all add: wakeup_wf_def l)
  have wu': "WU_plineHeader wu' = p @ n # r" "WU_plineOp wu' = WU_plineOp wu" and q: "WUN_bInQ (ns' n)"
    and ns': "WUN_ulCounter (ns' x) = (if x = n then c
        else if r \<noteq> [] \<and> x = hd r then WUN_ulCounter (ns (hd r)) - c else WUN_ulCounter (ns x))" for x
    using e n' by (auto simp: WakeupAdd_def Let_def s split: list.splits)
  note D = deadline_insert [OF d n' _ ns']
  have c: "r \<noteq> [] \<longrightarrow> unat c < unat (WUN_ulCounter (ns (hd r)))" and u: "unat (WUN_ulCounter (ns n)) = total ns p + unat c"
    using S by auto
  have "unat (WUN_ulCounter (ns n)) < 2 ^ 64" using unsigned_less [of "WUN_ulCounter (ns n)"] by simp
  then show "wakeup_wf wu' ns'" using D(3) [OF c] wf d n' u by (auto simp: wakeup_wf_def wu' l)
  show "set (WU_plineHeader wu') = insert n (set (WU_plineHeader wu))" by (auto simp: wu' l)
  show "deadline ns' (WU_plineHeader wu') n = unat (WUN_ulCounter (ns n))" using D(1) [OF c] u by (simp add: wu')
  show "deadline ns' (WU_plineHeader wu') x = deadline ns (WU_plineHeader wu) x" if "x \<in> set (WU_plineHeader wu)"
    using D(2) [OF c] that by (simp add: wu' l)
  show "WU_plineOp wu' = WU_plineOp wu" "WUN_bInQ (ns' n)" by fact+
  show "remove1 n (WU_plineHeader wu') = WU_plineHeader wu" using n' by (simp add: wu' l)
qed

lemma WakeupDel_spec:
  assumes wf: "wakeup_wf wu ns" and n: "n \<in> set (WU_plineHeader wu)"
    and e: "WakeupDel t n False wu ns = (wu', ns')"
  shows "wakeup_wf wu' ns'" "WU_plineHeader wu' = remove1 n (WU_plineHeader wu)"
    "x \<in> set (WU_plineHeader wu) \<Longrightarrow> x \<noteq> n \<Longrightarrow> deadline ns' (WU_plineHeader wu') x = deadline ns (WU_plineHeader wu) x"
    "\<not> WUN_bInQ (ns' n)" "WUN_ulCounter (ns' n) = WUN_ulCounter (ns n)"
    "x \<notin> set (WU_plineHeader wu) \<Longrightarrow> ns' x = ns x"
proof -
  from n obtain p r where l: "WU_plineHeader wu = p @ n # r" by (auto dest: split_list)
  have d: "distinct (p @ n # r)" and tot: "total ns (p @ n # r) < 2 ^ 64" using wf by (simp_all add: wakeup_wf_def l)
  have lr: "line_right (p @ n # r) n = head_of r" using d by (intro line_right_append) simp
  have rm: "remove1 n (p @ n # r) = p @ r" using d by simp
  show h: "WU_plineHeader wu' = remove1 n (WU_plineHeader wu)" and "\<not> WUN_bInQ (ns' n)"
    using e by (auto simp: WakeupDel_def Let_def split: option.splits)
  have ns': "WUN_ulCounter (ns' x) = (if r \<noteq> [] \<and> x = hd r then WUN_ulCounter (ns x) + WUN_ulCounter (ns n)
      else WUN_ulCounter (ns x))" for x
    using e lr by (cases r) (auto simp: WakeupDel_def Let_def l)
  show "WUN_ulCounter (ns' n) = WUN_ulCounter (ns n)" using d by (cases r) (auto simp: ns')
  show "ns' x = ns x" if "x \<notin> set (WU_plineHeader wu)"
    using e lr that by (cases r) (auto simp: WakeupDel_def Let_def l wun_cnt_def wun_inq_def)
  have p: "total ns' p = total ns p" "deadline ns' p y = deadline ns p y" for y
    using d by (cases r; auto simp: ns' intro!: total_cong deadline_cong)+
  have R: "unat (WUN_ulCounter (ns' y)) = unat (WUN_ulCounter (ns n)) + unat (WUN_ulCounter (ns y))
      \<and> total ns' ys = total ns ys \<and> deadline ns' ys z = deadline ns ys z" if "r = y # ys" for y ys z
  proof -
    have "unat (WUN_ulCounter (ns y)) + unat (WUN_ulCounter (ns n)) < 2 ^ LENGTH(64)" using tot that by simp
    then have "unat (WUN_ulCounter (ns y) + WUN_ulCounter (ns n)) = unat (WUN_ulCounter (ns y)) + unat (WUN_ulCounter (ns n))"
      by (simp add: unat_word_ariths)
    then show ?thesis using that d by (auto simp: ns' intro!: total_cong deadline_cong)
  qed
  have T: "total ns' (p @ r) \<le> total ns (p @ n # r)" using R by (cases r) (auto simp: p)
  show "wakeup_wf wu' ns'" using T tot d by (auto simp: wakeup_wf_def h l rm)
  show "deadline ns' (WU_plineHeader wu') x = deadline ns (WU_plineHeader wu) x"
    if "x \<in> set (WU_plineHeader wu)" "x \<noteq> n"
    using that d R by (cases r) (auto simp: h l rm deadline_append p)
qed

text \<open>
  The same two operations for a line driven by kernel time: the line is brought up to date first,
  in the insertion before the search, in the removal of the first node before it leaves.
\<close>

lemma clamped_sub: "unat (if v > c then v - c else 0) = unat v - unat (c :: ulong)"
  by (simp add: unat_sub word_le_nat_alt word_less_nat_alt)

text \<open>Bringing the line up to date: every node is due earlier by the time that has passed, but no earlier than now.\<close>

lemma wakeup_proc_head_spec:
  assumes wf: "wakeup_wf wu ns" and e: "wakeup_proc_head t wu ns = (wu', ns')"
  shows "wakeup_wf wu' ns'" "WU_plineHeader wu' = WU_plineHeader wu" "WU_plineOp wu' = WU_plineOp wu" "WU_pfuncWakeup wu' = WU_pfuncWakeup wu"
    "x \<in> set (WU_plineHeader wu) \<Longrightarrow>
       deadline ns' (WU_plineHeader wu) x = deadline ns (WU_plineHeader wu) x - min (unat (t - WU_i64LastTime wu)) (wakeup_first ns (WU_plineHeader wu))"
    "x \<notin> set (WU_plineHeader wu) \<Longrightarrow> ns' x = ns x"
proof -
  show l: "WU_plineHeader wu' = WU_plineHeader wu" and "WU_plineOp wu' = WU_plineOp wu" "WU_pfuncWakeup wu' = WU_pfuncWakeup wu"
    using e by (auto simp: wakeup_proc_head_def Let_def split: list.splits)
  show "x \<notin> set (WU_plineHeader wu) \<Longrightarrow> ns' x = ns x" using e by (auto simp: wakeup_proc_head_def Let_def wun_cnt_def split: list.splits)
  have "wakeup_wf wu' ns' \<and> (x \<in> set (WU_plineHeader wu) \<longrightarrow>
       deadline ns' (WU_plineHeader wu) x = deadline ns (WU_plineHeader wu) x - min (unat (t - WU_i64LastTime wu)) (wakeup_first ns (WU_plineHeader wu)))"
  proof (cases "WU_plineHeader wu")
    case (Cons h hs)
    let ?el = "unat (t - WU_i64LastTime wu)"
    have d: "h \<notin> set hs" using wf by (simp add: wakeup_wf_def Cons)
    have c: "unat (WUN_ulCounter (ns' h)) = unat (WUN_ulCounter (ns h)) - ?el"
      using e clamped_sub [of "t - WU_i64LastTime wu" "WUN_ulCounter (ns h)"] by (auto simp: wakeup_proc_head_def Let_def Cons wun_cnt_def split: if_splits)
    have r: "ns' x = ns x" if "x \<noteq> h" for x using e that by (auto simp: wakeup_proc_head_def Let_def Cons wun_cnt_def)
    have s: "total ns' hs = total ns hs" "deadline ns' hs x = deadline ns hs x" for x
      using d by (intro total_cong deadline_cong; metis r)+
    have "total ns' (h # hs) \<le> total ns (h # hs)" by (simp add: c s)
    moreover have "distinct (h # hs)" "total ns (h # hs) < 2 ^ 64" using wf by (simp_all only: wakeup_wf_def Cons)
    ultimately have "wakeup_wf wu' ns'" unfolding wakeup_wf_def l Cons by linarith
    moreover have "x \<in> set (h # hs) \<longrightarrow> deadline ns' (h # hs) x = deadline ns (h # hs) x - min ?el (wakeup_first ns (h # hs))"
      using c by (auto simp: s wakeup_first_def)
    ultimately show ?thesis by (simp only: Cons)
  qed (use wf e in \<open>auto simp: wakeup_wf_def wakeup_proc_head_def\<close>)
  then show "wakeup_wf wu' ns'" "x \<in> set (WU_plineHeader wu) \<Longrightarrow>
       deadline ns' (WU_plineHeader wu) x = deadline ns (WU_plineHeader wu) x - min (unat (t - WU_i64LastTime wu)) (wakeup_first ns (WU_plineHeader wu))"
    by blast+
qed

lemma WakeupAdd_proc:
  assumes "b" and "WU_pfuncWakeup wu" and "wakeup_proc_head t wu ns = (wu1, ns1)" and "WakeupAdd t n False wu1 ns1 = (wu2, ns2, c)"
  shows "WakeupAdd t n b wu ns = (wu2\<lparr>WU_i64LastTime := t\<rparr>, ns2, True)"
proof -
  have "WU_pfuncWakeup wu1" "WU_plineHeader wu1 = WU_plineHeader wu" "WU_plineHeader wu \<noteq> [] \<Longrightarrow> WU_i64LastTime wu1 = t"
    using assms(2,3) by (auto simp: wakeup_proc_head_def Let_def split: list.splits)
  then show ?thesis using assms by (auto simp: WakeupAdd_def Let_def split: prod.splits list.splits)
qed

lemma WakeupAdd_any:
  assumes wf: "wakeup_wf wu ns" and n: "n \<notin> set (WU_plineHeader wu)" and e: "WakeupAdd t n b wu ns = (wu', ns', w)"
  shows "wakeup_wf wu' ns'" "set (WU_plineHeader wu') = insert n (set (WU_plineHeader wu))"
    "deadline ns' (WU_plineHeader wu') n = unat (WUN_ulCounter (ns n))"
    "x \<in> set (WU_plineHeader wu) \<Longrightarrow> deadline ns' (WU_plineHeader wu') x =
       deadline ns (WU_plineHeader wu) x - min (wakeup_elapsed t b wu) (wakeup_first ns (WU_plineHeader wu))"
    "WU_i64LastTime wu' = (if b \<and> WU_pfuncWakeup wu then t else WU_i64LastTime wu)" "w = (b \<and> WU_pfuncWakeup wu)"
    "WU_pfuncWakeup wu' = WU_pfuncWakeup wu" "WUN_bInQ (ns' n)"
proof -
  consider "b" "WU_pfuncWakeup wu" | "\<not> (b \<and> WU_pfuncWakeup wu)" by blast
  then have "wakeup_wf wu' ns' \<and> set (WU_plineHeader wu') = insert n (set (WU_plineHeader wu)) \<and>
    deadline ns' (WU_plineHeader wu') n = unat (WUN_ulCounter (ns n)) \<and>
    (\<forall>x. x \<in> set (WU_plineHeader wu) \<longrightarrow> deadline ns' (WU_plineHeader wu') x =
       deadline ns (WU_plineHeader wu) x - min (wakeup_elapsed t b wu) (wakeup_first ns (WU_plineHeader wu))) \<and>
    WU_i64LastTime wu' = (if b \<and> WU_pfuncWakeup wu then t else WU_i64LastTime wu) \<and> w = (b \<and> WU_pfuncWakeup wu) \<and>
    WU_pfuncWakeup wu' = WU_pfuncWakeup wu \<and> WUN_bInQ (ns' n)"
  proof cases
    case 1
    obtain wu1 ns1 where h: "wakeup_proc_head t wu ns = (wu1, ns1)" by force
    obtain wu2 ns2 c where a: "WakeupAdd t n False wu1 ns1 = (wu2, ns2, c)" by (metis prod_cases3)
    note H = wakeup_proc_head_spec [OF wf h]
    have "n \<notin> set (WU_plineHeader wu1)" using n by (simp add: H(2))
    note A = WakeupAdd_spec [OF H(1) this a]
    have p: "WU_pfuncWakeup wu2 = WU_pfuncWakeup wu1" using a by (auto simp: WakeupAdd_def Let_def split: prod.splits)
    have "wu' = wu2\<lparr>WU_i64LastTime := t\<rparr>" "ns' = ns2" "w" using WakeupAdd_proc [OF 1 h a] e by simp_all
    then show ?thesis using A(1-4,6) H(5) 1 p H(4) H(6) [OF n] by (simp add: wakeup_wf_def H(2) wakeup_elapsed_def)
  next
    case 2
    then have f: "WakeupAdd t n False wu ns = (wu', ns', w)" using e by (auto simp: WakeupAdd_def Let_def split: prod.splits)
    note A = WakeupAdd_spec [OF wf n f]
    have "WU_i64LastTime wu' = WU_i64LastTime wu" "\<not> w" "WU_pfuncWakeup wu' = WU_pfuncWakeup wu" using f by (auto simp: WakeupAdd_def Let_def split: prod.splits)
    then show ?thesis using A(1-4,6) 2 by (auto simp: wakeup_elapsed_def)
  qed
  then show "wakeup_wf wu' ns'" "set (WU_plineHeader wu') = insert n (set (WU_plineHeader wu))"
    "deadline ns' (WU_plineHeader wu') n = unat (WUN_ulCounter (ns n))"
    "x \<in> set (WU_plineHeader wu) \<Longrightarrow> deadline ns' (WU_plineHeader wu') x =
       deadline ns (WU_plineHeader wu) x - min (wakeup_elapsed t b wu) (wakeup_first ns (WU_plineHeader wu))"
    "WU_i64LastTime wu' = (if b \<and> WU_pfuncWakeup wu then t else WU_i64LastTime wu)" "w = (b \<and> WU_pfuncWakeup wu)"
    "WU_pfuncWakeup wu' = WU_pfuncWakeup wu" "WUN_bInQ (ns' n)" by blast+
qed

lemma WakeupDel_proc:
  assumes "b" and "WU_pfuncWakeup wu" and l: "WU_plineHeader wu = n # r" and d: "n \<notin> set r"
    and "WakeupDel t n False wu ns = (wu1, ns1)" and "wakeup_proc_head t wu1 ns1 = (wu2, ns2)"
  shows "WakeupDel t n b wu ns = (wu2\<lparr>WU_i64LastTime := t\<rparr>, ns2)"
proof (cases r)
  case Nil
  then show ?thesis using assms by (auto simp: WakeupDel_def wakeup_proc_head_def Let_def)
next
  case (Cons y ys)
  then have "y \<noteq> n" using d by auto
  then show ?thesis using assms Cons by (auto simp: WakeupDel_def wakeup_proc_head_def Let_def wun_cnt_def wun_inq_def fun_upd_twist)
qed

lemma WakeupDel_head:
  assumes wf: "wakeup_wf wu ns" and b: "b" "WU_pfuncWakeup wu" and l: "WU_plineHeader wu = n # r" and e: "WakeupDel t n b wu ns = (wu', ns')"
  shows "wakeup_wf wu' ns'" "WU_plineHeader wu' = r" "WU_i64LastTime wu' = t" "\<not> WUN_bInQ (ns' n)"
    "x \<in> set r \<Longrightarrow> deadline ns' r x = deadline ns (n # r) x - min (wakeup_elapsed t b wu) (deadline ns (n # r) (hd r))"
proof -
  obtain wu1 ns1 where a: "WakeupDel t n False wu ns = (wu1, ns1)" by force
  have n: "n \<in> set (WU_plineHeader wu)" and nr: "n \<notin> set r" using wf by (simp_all add: wakeup_wf_def l)
  note D = WakeupDel_spec [OF wf n a]
  have m: "WU_i64LastTime wu1 = WU_i64LastTime wu" using a by (auto simp: WakeupDel_def Let_def split: if_splits)
  obtain wu2 ns2 where h: "wakeup_proc_head t wu1 ns1 = (wu2, ns2)" by force
  note H = wakeup_proc_head_spec [OF D(1) h]
  have E: "wu' = wu2\<lparr>WU_i64LastTime := t\<rparr>" "ns' = ns2" using WakeupDel_proc [OF b l nr a h] e by simp_all
  have r: "WU_plineHeader wu1 = r" using D(2) l by simp
  show "wakeup_wf wu' ns'" using H(1) by (simp add: E wakeup_wf_def)
  show "WU_plineHeader wu' = r" "WU_i64LastTime wu' = t" "\<not> WUN_bInQ (ns' n)" using H(2) H(6) [of n] D(4) nr by (simp_all add: E r)
  show "deadline ns' r x = deadline ns (n # r) x - min (wakeup_elapsed t b wu) (deadline ns (n # r) (hd r))" if xr: "x \<in> set r"
  proof -
    have o: "deadline ns1 r y = deadline ns (n # r) y" if "y \<in> set r" for y
    proof -
      have "y \<in> set (WU_plineHeader wu)" "y \<noteq> n" using that nr l by auto
      from D(3) [OF this] show ?thesis by (simp only: r l)
    qed
    obtain y ys where r2: "r = y # ys" using xr by (cases r) auto
    have "wakeup_first ns1 r = deadline ns (n # r) (hd r)" using o [of y] by (simp add: wakeup_first_def r2)
    moreover have "deadline ns2 r x = deadline ns1 r x - min (unat (t - WU_i64LastTime wu)) (wakeup_first ns1 r)"
      using H(5) [of x] xr by (simp only: r m simp_thms)
    ultimately show ?thesis unfolding E(2) o [OF xr] using b by (simp add: wakeup_elapsed_def)
  qed
qed

lemma WakeupDel_any:
  assumes wf: "wakeup_wf wu ns" and n: "n \<in> set (WU_plineHeader wu)" and e: "WakeupDel t n b wu ns = (wu', ns')"
  shows "wakeup_wf wu' ns'" "WU_plineHeader wu' = remove1 n (WU_plineHeader wu)"
    "x \<in> set (WU_plineHeader wu) \<Longrightarrow> x \<noteq> n \<Longrightarrow> deadline ns' (WU_plineHeader wu') x = deadline ns (WU_plineHeader wu) x -
       (if hd (WU_plineHeader wu) = n then min (wakeup_elapsed t b wu) (deadline ns (WU_plineHeader wu) (hd (WU_plineHeader wu'))) else 0)"
    "WU_i64LastTime wu' = (if b \<and> WU_pfuncWakeup wu \<and> hd (WU_plineHeader wu) = n then t else WU_i64LastTime wu)" "\<not> WUN_bInQ (ns' n)"
proof -
  obtain wu1 ns1 where a: "WakeupDel t n False wu ns = (wu1, ns1)" by force
  note D = WakeupDel_spec [OF wf n a]
  have m: "WU_i64LastTime wu1 = WU_i64LastTime wu" "WU_pfuncWakeup wu1 = WU_pfuncWakeup wu" using a by (auto simp: WakeupDel_def Let_def split: if_splits)
  have "wakeup_wf wu' ns' \<and> WU_plineHeader wu' = remove1 n (WU_plineHeader wu) \<and>
    (\<forall>x. x \<in> set (WU_plineHeader wu) \<longrightarrow> x \<noteq> n \<longrightarrow> deadline ns' (WU_plineHeader wu') x = deadline ns (WU_plineHeader wu) x -
       (if hd (WU_plineHeader wu) = n then min (wakeup_elapsed t b wu) (deadline ns (WU_plineHeader wu) (hd (WU_plineHeader wu'))) else 0)) \<and>
    WU_i64LastTime wu' = (if b \<and> WU_pfuncWakeup wu \<and> hd (WU_plineHeader wu) = n then t else WU_i64LastTime wu) \<and> \<not> WUN_bInQ (ns' n)"
  proof (cases "b \<and> WU_pfuncWakeup wu \<and> hd (WU_plineHeader wu) = n")
    case True
    then obtain r where l: "WU_plineHeader wu = n # r" using n by (cases "WU_plineHeader wu") auto
    have b: "b" "WU_pfuncWakeup wu" using True by simp_all
    note H = WakeupDel_head [OF wf b l e]
    have "x \<in> set (n # r) \<longrightarrow> x \<noteq> n \<longrightarrow> deadline ns' r x = deadline ns (n # r) x - min (wakeup_elapsed t b wu) (deadline ns (n # r) (hd r))" for x
      using H(5) [of x] by simp
    moreover have "remove1 n (n # r) = r" by simp
    ultimately show ?thesis using True H(1,3,4) unfolding H(2) l by (simp only: if_True simp_thms list.sel) blast
  next
    case False
    have "\<not> (b \<and> head_of (WU_plineHeader wu) = Some n \<and> WU_pfuncWakeup wu)" using False by (cases "WU_plineHeader wu") auto
    then have "WakeupDel t n b wu ns = WakeupDel t n False wu ns"
      unfolding WakeupDel_def Let_def by (cases "WU_plineOp wu = Some n") (simp_all, blast+)
    with a have f: "WakeupDel t n b wu ns = (wu1, ns1)" by simp
    then have "wu' = wu1" "ns' = ns1" using e by simp_all
    moreover have "hd (WU_plineHeader wu) = n \<Longrightarrow> wakeup_elapsed t b wu = 0" using False by (auto simp: wakeup_elapsed_def)
    then have "(if hd (WU_plineHeader wu) = n then min (wakeup_elapsed t b wu) v else 0) = 0" for v by simp
    ultimately show ?thesis using D(1-4) m(1) False by simp blast
  qed
  then show "wakeup_wf wu' ns'" "WU_plineHeader wu' = remove1 n (WU_plineHeader wu)"
    "x \<in> set (WU_plineHeader wu) \<Longrightarrow> x \<noteq> n \<Longrightarrow> deadline ns' (WU_plineHeader wu') x = deadline ns (WU_plineHeader wu) x -
       (if hd (WU_plineHeader wu) = n then min (wakeup_elapsed t b wu) (deadline ns (WU_plineHeader wu) (hd (WU_plineHeader wu'))) else 0)"
    "WU_i64LastTime wu' = (if b \<and> WU_pfuncWakeup wu \<and> hd (WU_plineHeader wu) = n then t else WU_i64LastTime wu)" "\<not> WUN_bInQ (ns' n)" by blast+
qed

text \<open>The nodes of the line expire in its order.\<close>

lemma deadline_sorted:
  assumes "distinct xs" and "i < j" and "j < length xs"
  shows "deadline ns xs (xs ! i) \<le> deadline ns xs (xs ! j)"
  using assms
proof (induction xs arbitrary: i j)
  case (Cons x xs)
  then obtain j' where j: "j = Suc j'" "j' < length xs" by (cases j) auto
  then have "x \<noteq> xs ! j'" using Cons.prems(1) by auto
  with Cons j show ?case by (cases i) auto
qed simp

lemma wakeup_sum_deadline:
  assumes "n \<in> set xs" and "unat c + total ns xs < 2 ^ 64"
  shows "\<exists>v. wakeup_sum ns n c xs = Some v \<and> unat v = unat c + deadline ns xs n"
  using assms
proof (induction xs arbitrary: c)
  case (Cons x xs)
  have u: "unat (c + WUN_ulCounter (ns x)) = unat c + unat (WUN_ulCounter (ns x))"
    using Cons.prems(2) by (simp add: unat_word_ariths)
  show ?case
  proof (cases "x = n")
    case False
    with Cons.prems u Cons.IH [of "c + WUN_ulCounter (ns x)"] show ?thesis by (simp add: add.assoc)
  qed (use u in simp)
qed simp

lemma wakeup_sum_None: "n \<notin> set xs \<Longrightarrow> wakeup_sum ns n c xs = None"
  by (induction xs arbitrary: c) auto

section \<open>The interface\<close>

text \<open>
  What the delay code relies on: a queue of nodes with deadlines, in which a node is entered
  with the ticks it asks for and from which any node can be taken.
\<close>

locale deadline_queue =
  fixes invar :: "'s \<Rightarrow> bool"
    and nodes :: "'s \<Rightarrow> nat set"
    and due :: "'s \<Rightarrow> nat \<Rightarrow> nat"
    and asked :: "'s \<Rightarrow> nat \<Rightarrow> nat"
    and add :: "nat \<Rightarrow> 's \<Rightarrow> 's"
    and del :: "nat \<Rightarrow> 's \<Rightarrow> 's"
  assumes invar_add: "invar s \<Longrightarrow> n \<notin> nodes s \<Longrightarrow> invar (add n s)"
    and nodes_add: "invar s \<Longrightarrow> n \<notin> nodes s \<Longrightarrow> nodes (add n s) = insert n (nodes s)"
    and due_add_new: "invar s \<Longrightarrow> n \<notin> nodes s \<Longrightarrow> due (add n s) n = asked s n"
    and due_add_old: "invar s \<Longrightarrow> n \<notin> nodes s \<Longrightarrow> x \<in> nodes s \<Longrightarrow> due (add n s) x = due s x"
    and asked_add: "invar s \<Longrightarrow> n \<notin> nodes s \<Longrightarrow> x \<notin> insert n (nodes s) \<Longrightarrow> asked (add n s) x = asked s x"
    and invar_del: "invar s \<Longrightarrow> n \<in> nodes s \<Longrightarrow> invar (del n s)"
    and nodes_del: "invar s \<Longrightarrow> n \<in> nodes s \<Longrightarrow> nodes (del n s) = nodes s - {n}"
    and due_del: "invar s \<Longrightarrow> n \<in> nodes s \<Longrightarrow> x \<in> nodes s \<Longrightarrow> x \<noteq> n \<Longrightarrow> due (del n s) x = due s x"
begin

lemma add_del: "invar s \<Longrightarrow> n \<notin> nodes s \<Longrightarrow> x \<in> nodes s \<Longrightarrow> due (del n (add n s)) x = due s x"
  using due_del [of "add n s" n x] invar_add nodes_add due_add_old by auto

text \<open>However many nodes are entered, each one is due when it asked to be.\<close>

lemma add_all:
  assumes "invar s" and "distinct ns" and "set ns \<inter> nodes s = {}"
  shows "invar (fold add ns s) \<and> nodes (fold add ns s) = nodes s \<union> set ns \<and>
    (\<forall>n \<in> set ns. due (fold add ns s) n = asked s n) \<and> (\<forall>x \<in> nodes s. due (fold add ns s) x = due s x)"
  using assms
proof (induction ns arbitrary: s)
  case (Cons n ns)
  have 1: "invar (add n s)" "nodes (add n s) = insert n (nodes s)"
    using Cons.prems invar_add nodes_add by auto
  with Cons.IH [of "add n s"] Cons.prems
  have IH: "invar (fold add ns (add n s))" "nodes (fold add ns (add n s)) = insert n (nodes s) \<union> set ns"
    "\<forall>m \<in> set ns. due (fold add ns (add n s)) m = asked (add n s) m"
    "\<forall>x \<in> insert n (nodes s). due (fold add ns (add n s)) x = due (add n s) x" by auto
  moreover have "asked (add n s) m = asked s m" if "m \<in> set ns" for m
    using Cons.prems that by (intro asked_add) auto
  ultimately show ?case using Cons.prems due_add_new [of s n] due_add_old [of s n] by auto
qed simp

end

definition wq_add :: "nat \<Rightarrow> wakeup \<times> wnodes \<Rightarrow> wakeup \<times> wnodes" where
  "wq_add n s = (case WakeupAdd 0 n False (fst s) (snd s) of (wu, ns, _) \<Rightarrow> (wu, ns))"

definition wq_del :: "nat \<Rightarrow> wakeup \<times> wnodes \<Rightarrow> wakeup \<times> wnodes" where
  "wq_del n s = WakeupDel 0 n False (fst s) (snd s)"

lemma WakeupAdd_other:
  assumes "WakeupAdd t n False wu ns = (wu', ns', b)" and "x \<notin> insert n (set (WU_plineHeader wu))"
  shows "ns' x = ns x"
proof -
  obtain p c r where s: "wakeup_seek ns (WUN_ulCounter (ns n)) (WU_plineHeader wu) = (p, c, r)"
    by (metis prod_cases3)
  then have "WU_plineHeader wu = p @ r" using wakeup_seek_spec by blast
  with assms s show ?thesis
    by (auto simp: WakeupAdd_def Let_def wun_cnt_def wun_inq_def split: list.splits)
qed

interpretation wline: deadline_queue "\<lambda>s. wakeup_wf (fst s) (snd s)" "\<lambda>s. set (WU_plineHeader (fst s))"
  "\<lambda>s. deadline (snd s) (WU_plineHeader (fst s))" "\<lambda>s n. unat (WUN_ulCounter (snd s n))" wq_add wq_del
proof unfold_locales
  fix s :: "wakeup \<times> wnodes" and n x :: nat
  obtain wu ns where s: "s = (wu, ns)" by force
  obtain wu1 ns1 b where a: "WakeupAdd 0 n False wu ns = (wu1, ns1, b)" by (metis prod_cases3)
  obtain wu2 ns2 where d: "WakeupDel 0 n False wu ns = (wu2, ns2)" by force
  note A = WakeupAdd_spec [OF _ _ a] and D = WakeupDel_spec [OF _ _ d] and E = wq_add_def wq_del_def s a d
  assume wf: "wakeup_wf (fst s) (snd s)"
  show "wakeup_wf (fst (wq_add n s)) (snd (wq_add n s))"
    "set (WU_plineHeader (fst (wq_add n s))) = insert n (set (WU_plineHeader (fst s)))"
    "deadline (snd (wq_add n s)) (WU_plineHeader (fst (wq_add n s))) n = unat (WUN_ulCounter (snd s n))"
    if "n \<notin> set (WU_plineHeader (fst s))" using A(1-3) wf that by (simp_all add: E)
  show "deadline (snd (wq_add n s)) (WU_plineHeader (fst (wq_add n s))) x = deadline (snd s) (WU_plineHeader (fst s)) x"
    if "n \<notin> set (WU_plineHeader (fst s))" "x \<in> set (WU_plineHeader (fst s))" using A(4) wf that by (simp add: E)
  show "unat (WUN_ulCounter (snd (wq_add n s) x)) = unat (WUN_ulCounter (snd s x))"
    if "x \<notin> insert n (set (WU_plineHeader (fst s)))" using WakeupAdd_other [OF a] that by (simp add: E)
  show "wakeup_wf (fst (wq_del n s)) (snd (wq_del n s))"
    "set (WU_plineHeader (fst (wq_del n s))) = set (WU_plineHeader (fst s)) - {n}"
    if "n \<in> set (WU_plineHeader (fst s))" using D(1,2) wf that by (simp_all add: E wakeup_wf_def)
  show "deadline (snd (wq_del n s)) (WU_plineHeader (fst (wq_del n s))) x = deadline (snd s) (WU_plineHeader (fst s)) x"
    if "n \<in> set (WU_plineHeader (fst s))" "x \<in> set (WU_plineHeader (fst s))" "x \<noteq> n" using D(3) wf that by (simp add: E)
qed

end
