(* ===== verification/Bitmap.thy ===== *)
theory Bitmap
  imports Prelude
begin

text \<open>
  The two-level priority bitmap of \<^verbatim>\<open>kernel/core/_BitmapLib.c\<close> and the bit search
  \<^verbatim>\<open>archFindLsb\<close> it rests on (\<^verbatim>\<open>arch/arm/common/armLib.c\<close>). A bitmap stands for
  a set of 8-bit priorities; the locale \<open>prio_table\<close> states what the scheduler relies on,
  and its interpretation discharges those laws for the C routines.
\<close>

section \<open>The bit search of the architecture library\<close>

definition ucLsbBitmap :: "nat list" where
  "ucLsbBitmap = [
    0, 0, 1, 0, 2, 0, 1, 0, 3, 0, 1, 0, 2, 0, 1, 0, 4, 0, 1, 0, 2, 0, 1, 0, 3, 0, 1, 0, 2, 0, 1, 0,
    5, 0, 1, 0, 2, 0, 1, 0, 3, 0, 1, 0, 2, 0, 1, 0, 4, 0, 1, 0, 2, 0, 1, 0, 3, 0, 1, 0, 2, 0, 1, 0,
    6, 0, 1, 0, 2, 0, 1, 0, 3, 0, 1, 0, 2, 0, 1, 0, 4, 0, 1, 0, 2, 0, 1, 0, 3, 0, 1, 0, 2, 0, 1, 0,
    5, 0, 1, 0, 2, 0, 1, 0, 3, 0, 1, 0, 2, 0, 1, 0, 4, 0, 1, 0, 2, 0, 1, 0, 3, 0, 1, 0, 2, 0, 1, 0,
    7, 0, 1, 0, 2, 0, 1, 0, 3, 0, 1, 0, 2, 0, 1, 0, 4, 0, 1, 0, 2, 0, 1, 0, 3, 0, 1, 0, 2, 0, 1, 0,
    5, 0, 1, 0, 2, 0, 1, 0, 3, 0, 1, 0, 2, 0, 1, 0, 4, 0, 1, 0, 2, 0, 1, 0, 3, 0, 1, 0, 2, 0, 1, 0,
    6, 0, 1, 0, 2, 0, 1, 0, 3, 0, 1, 0, 2, 0, 1, 0, 4, 0, 1, 0, 2, 0, 1, 0, 3, 0, 1, 0, 2, 0, 1, 0,
    5, 0, 1, 0, 2, 0, 1, 0, 3, 0, 1, 0, 2, 0, 1, 0, 4, 0, 1, 0, 2, 0, 1, 0, 3, 0, 1, 0, 2, 0, 1, 0]"

definition archFindLsb :: "u32 \<Rightarrow> nat" where
  "archFindLsb ui32 =
     (let usMsw = ucast (drop_bit 16 ui32) :: u16;
          usLsw = ucast (ui32 AND 0xffff) :: u16
      in if ui32 = 0 then 0
         else if usLsw \<noteq> 0 then
           (let ucByte = ucast (usLsw AND 0xff) :: u8
            in if ucByte \<noteq> 0 then ucLsbBitmap ! unat ucByte + 1
               else ucLsbBitmap ! unat (ucast (drop_bit 8 usLsw) :: u8) + 8 + 1)
         else
           (let ucByte = ucast (usMsw AND 0xff) :: u8
            in if ucByte \<noteq> 0 then ucLsbBitmap ! unat ucByte + 16 + 1
               else ucLsbBitmap ! unat (ucast (drop_bit 8 usMsw) :: u8) + 24 + 1))"

section \<open>The priority bitmap\<close>

text \<open>
  \<^verbatim>\<open>LW_CLASS_BMAP\<close>: one summary word and eight sub-words of 32 priorities each. The
  eight sub-words are a function on the index.
\<close>

record bmap =
  BMAP_uiMap :: u32
  BMAP_uiSubMap :: "nat \<Rightarrow> u32"

definition BitmapInit :: bmap where
  "BitmapInit = \<lparr>BMAP_uiMap = 0, BMAP_uiSubMap = (\<lambda>_. 0)\<rparr>"

definition BitmapAdd :: "bmap \<Rightarrow> u8 \<Rightarrow> bmap" where
  "BitmapAdd b ucPriority =
     (let hi = unat (drop_bit 5 ucPriority); lo = unat (ucPriority AND 0x1f);
          b = b\<lparr>BMAP_uiMap := BMAP_uiMap b OR push_bit hi 1\<rparr>
      in b\<lparr>BMAP_uiSubMap := (BMAP_uiSubMap b)(hi := BMAP_uiSubMap b hi OR push_bit lo 1)\<rparr>)"

definition BitmapDel :: "bmap \<Rightarrow> u8 \<Rightarrow> bmap" where
  "BitmapDel b ucPriority =
     (let hi = unat (drop_bit 5 ucPriority); lo = unat (ucPriority AND 0x1f);
          b = b\<lparr>BMAP_uiSubMap := (BMAP_uiSubMap b)(hi := BMAP_uiSubMap b hi AND NOT (push_bit lo 1))\<rparr>
      in if BMAP_uiSubMap b hi = 0
         then b\<lparr>BMAP_uiMap := BMAP_uiMap b AND NOT (push_bit hi 1)\<rparr>
         else b)"

definition BitmapHigh :: "bmap \<Rightarrow> u8" where
  "BitmapHigh b =
     (let uiHigh = of_nat (archFindLsb (BMAP_uiMap b)) :: u32
      in if uiHigh = 0 then 0
         else let uiHigh = uiHigh - 1;
                  uiLow = of_nat (archFindLsb (BMAP_uiSubMap b (unat uiHigh))) - 1 :: u32
              in ucast (push_bit 5 uiHigh OR uiLow))"

definition BitmapIsEmpty :: "bmap \<Rightarrow> bool" where
  "BitmapIsEmpty b \<longleftrightarrow> \<not> (BMAP_uiMap b \<noteq> 0)"

text \<open>The set of priorities a bitmap holds, and its well-formedness.\<close>

definition bmap_set :: "bmap \<Rightarrow> u8 set" where
  "bmap_set b = {p. bit (BMAP_uiSubMap b (unat (drop_bit 5 p))) (unat (p AND 0x1f))}"

definition bmap_wf :: "bmap \<Rightarrow> bool" where
  "bmap_wf b \<longleftrightarrow> (\<forall>i. bit (BMAP_uiMap b) i \<longleftrightarrow> i < 8 \<and> BMAP_uiSubMap b i \<noteq> 0)"

section \<open>Correctness of the bit search\<close>

lemma ucLsbBitmap_all:
  "list_all (\<lambda>(n, l). n mod (2 * 2 ^ l) = (2 ^ l :: nat)) (zip [2..<256] (drop 2 ucLsbBitmap))"
  by (simp add: ucLsbBitmap_def upt_rec_numeral)

lemma ucLsbBitmap_length: "length ucLsbBitmap = 256"
  by (simp add: ucLsbBitmap_def)

lemma list_all_zip_upt:
  "list_all P (zip [a..<b] ys) \<Longrightarrow> length ys = b - a \<Longrightarrow> i < b - a \<Longrightarrow> P (a + i, ys ! i)"
  by (simp add: list_all_length)

lemma nat_lsb_mod:
  assumes "n mod (2 * 2 ^ l) = (2 ^ l :: nat)"
  shows "bit n l \<and> (\<forall>j<l. \<not> bit n j)"
proof -
  have t: "take_bit (Suc l) n = 2 ^ l" using assms by (simp add: take_bit_eq_mod)
  have "bit n j \<longleftrightarrow> j = l" if "j \<le> l" for j
  proof -
    have "bit n j \<longleftrightarrow> bit (take_bit (Suc l) n) j" using that by (simp add: bit_take_bit_iff)
    also have "\<dots> \<longleftrightarrow> j = l" by (simp add: t bit_exp_iff)
    finally show ?thesis .
  qed
  then show ?thesis by auto
qed

lemma ucLsbBitmap_nat:
  assumes "0 < n" and "n < 256"
  shows "bit n (ucLsbBitmap ! n) \<and> (\<forall>j<ucLsbBitmap ! n. \<not> bit n j)"
proof (cases "n = 1")
  case True
  then show ?thesis by (simp add: ucLsbBitmap_def bit_0)
next
  case False
  then have "2 \<le> n" using assms by simp
  then obtain i where i: "n = 2 + i" by (rule less_eqE)
  with list_all_zip_upt [OF ucLsbBitmap_all, of i] assms
  have "n mod (2 * 2 ^ (ucLsbBitmap ! n)) = 2 ^ (ucLsbBitmap ! n)"
    by (simp add: ucLsbBitmap_length)
  then show ?thesis by (rule nat_lsb_mod)
qed

lemma ucLsbBitmap_lsb:
  assumes "(b :: u8) \<noteq> 0"
  shows "is_lsb b (ucLsbBitmap ! unat b)"
proof -
  have "0 < unat b" using assms by (simp add: unsigned_eq_0_iff zero_less_iff_neq_zero)
  then show ?thesis
    using ucLsbBitmap_nat [of "unat b"] by (simp add: is_lsb_def bit_unsigned_iff)
qed

text \<open>A zero low part moves the search to the high part.\<close>

lemma is_lsb_byte:
  assumes "is_lsb (b :: u8) n"
    and "\<And>j. j < 8 \<Longrightarrow> bit b j = bit (w :: u32) (j + k)" and "\<And>j. j < k \<Longrightarrow> \<not> bit w j"
  shows "is_lsb w (n + k)"
proof -
  have n: "n < 8" using assms(1) by (auto simp: is_lsb_def dest: bit_imp_le_length)
  then have "bit w (n + k)" using assms(1,2) by (auto simp: is_lsb_def)
  moreover have "\<not> bit w j" if "j < n + k" for j
  proof (cases "j < k")
    case False
    then have "\<not> bit b (j - k)" using that assms(1) by (auto simp: is_lsb_def)
    then show ?thesis using assms(2) [of "j - k"] False that n by simp
  qed (rule assms(3))
  ultimately show ?thesis by (auto simp: is_lsb_def)
qed

lemma byte_zero_bits:
  fixes w :: u32
  shows "(ucast (w AND 0xffff) :: u16) = 0 \<longleftrightarrow> (\<forall>j<16. \<not> bit w j)"
    and "(ucast ((ucast (w AND 0xffff) :: u16) AND 0xff) :: u8) = 0 \<longleftrightarrow> (\<forall>j<8. \<not> bit w j)"
    and "(ucast ((ucast (drop_bit 16 w) :: u16) AND 0xff) :: u8) = 0 \<longleftrightarrow> (\<forall>j<8. \<not> bit w (j + 16))"
proof -
  have m: "(0xffff :: u32) = mask 16" "(0xff :: u16) = mask 8" by (simp_all add: mask_eq_exp_minus_1)
  show "(ucast (w AND 0xffff) :: u16) = 0 \<longleftrightarrow> (\<forall>j<16. \<not> bit w j)"
    "(ucast ((ucast (w AND 0xffff) :: u16) AND 0xff) :: u8) = 0 \<longleftrightarrow> (\<forall>j<8. \<not> bit w j)"
    "(ucast ((ucast (drop_bit 16 w) :: u16) AND 0xff) :: u8) = 0 \<longleftrightarrow> (\<forall>j<8. \<not> bit w (j + 16))"
    unfolding m by (auto simp: bit_eq_iff bit_simps add.commute)
qed

lemma archFindLsb_lsb:
  assumes "w \<noteq> 0"
  shows "0 < archFindLsb w \<and> is_lsb w (archFindLsb w - 1)"
proof -
  let ?l = "ucast (w AND 0xffff) :: u16" and ?h = "ucast (drop_bit 16 w) :: u16"
  let ?b0 = "ucast (?l AND 0xff) :: u8" and ?b1 = "ucast (drop_bit 8 ?l) :: u8"
  let ?b2 = "ucast (?h AND 0xff) :: u8" and ?b3 = "ucast (drop_bit 8 ?h) :: u8"
  have m: "(0xffff :: u32) = mask 16" "(0xff :: u16) = mask 8" by (simp_all add: mask_eq_exp_minus_1)
  have bits: "\<And>j. j < 8 \<Longrightarrow> bit ?b0 j = bit w (j + 0)" "\<And>j. j < 8 \<Longrightarrow> bit ?b1 j = bit w (j + 8)"
    "\<And>j. j < 8 \<Longrightarrow> bit ?b2 j = bit w (j + 16)" "\<And>j. j < 8 \<Longrightarrow> bit ?b3 j = bit w (j + 24)"
    unfolding m by (auto simp: bit_simps add.commute)
  note step = is_lsb_byte [OF ucLsbBitmap_lsb]
  consider (b0) "?l \<noteq> 0" "?b0 \<noteq> 0" | (b1) "?l \<noteq> 0" "?b0 = 0" | (b2) "?l = 0" "?b2 \<noteq> 0"
    | (b3) "?l = 0" "?b2 = 0" by blast
  then show ?thesis
  proof cases
    case b0
    with step [of ?b0 w 0, OF b0(2) bits(1)] assms show ?thesis by (simp add: archFindLsb_def Let_def add.commute)
  next
    case b1
    then have lo: "\<And>j. j < 8 \<Longrightarrow> \<not> bit w j" by (simp add: byte_zero_bits)
    from b1 have "\<exists>j<16. bit w j" by (simp add: byte_zero_bits)
    with lo have "\<exists>j<8. bit ?b1 j" using bits(2)
      by (metis add.commute le_add_diff_inverse less_diff_conv2 linorder_not_less numeral_Bit0)
    then have "?b1 \<noteq> 0" by auto
    from step [of ?b1 w 8, OF this bits(2) lo] b1 assms show ?thesis by (simp add: archFindLsb_def Let_def add.commute)
  next
    case b2
    then have lo: "\<And>j. j < 16 \<Longrightarrow> \<not> bit w j" by (simp add: byte_zero_bits)
    from step [of ?b2 w 16, OF b2(2) bits(3) lo] b2 assms show ?thesis by (simp add: archFindLsb_def Let_def add.commute)
  next
    case b3
    then have l16: "\<And>j. j < 16 \<Longrightarrow> \<not> bit w j" and l24: "\<And>j. j < 8 \<Longrightarrow> \<not> bit w (j + 16)"
      by (simp_all add: byte_zero_bits)
    have lo: "\<not> bit w j" if "j < 24" for j
      using l16 [of j] l24 [of "j - 16"] that by (cases "j < 16") auto
    from assms obtain n where n: "bit w n" by (auto simp: word_nonzero_has_bit)
    then have "24 \<le> n" "n < 32" using lo by (auto simp: not_less [symmetric] dest: bit_imp_le_length)
    with n bits(4) [of "n - 24"] have "bit ?b3 (n - 24)" by simp
    then have "?b3 \<noteq> 0" by auto
    from step [of ?b3 w 24, OF this bits(4) lo] b3 assms show ?thesis by (simp add: archFindLsb_def Let_def add.commute)
  qed
qed

lemma archFindLsb_zero [simp]: "archFindLsb 0 = 0"
  by (simp add: archFindLsb_def)

lemma archFindLsb_eq_0 [simp]: "archFindLsb w = 0 \<longleftrightarrow> w = 0"
  using archFindLsb_lsb [of w] by (cases "w = 0") auto

lemma archFindLsb_le: "archFindLsb w \<le> 32"
proof (cases "w = 0")
  case False
  from archFindLsb_lsb [OF this] have "bit w (archFindLsb w - 1)" by (simp add: is_lsb_def)
  then have "archFindLsb w - 1 < 32" by (auto dest: bit_imp_le_length)
  then show ?thesis by simp
qed simp

section \<open>The bitmap as a set of priorities\<close>

lemma prio_hi: "unat (drop_bit 5 (p :: u8)) = unat p div 32"
  by (simp add: drop_bit_eq_div unat_div)

lemma prio_lo: "unat ((p :: u8) AND 0x1f) = unat p mod 32"
proof -
  have "p AND 0x1f = take_bit 5 p" by (simp add: take_bit_eq_mask mask_eq_exp_minus_1)
  then show ?thesis by (simp add: take_bit_eq_mod unat_mod)
qed

lemma bmap_set_iff: "p \<in> bmap_set b \<longleftrightarrow> bit (BMAP_uiSubMap b (unat p div 32)) (unat p mod 32)"
  by (simp add: bmap_set_def prio_hi prio_lo)

lemma prio_eq_iff: "(p :: u8) = q \<longleftrightarrow> unat p div 32 = unat q div 32 \<and> unat p mod 32 = unat q mod 32"
  by (metis div_mult_mod_eq word_unat_eq_iff)

lemma prio_div_lt [simp]: "unat (p :: u8) div 32 < 8"
  by (rule less_mult_imp_div_less) simp

lemma bit_or_exp: "k < 32 \<Longrightarrow> bit ((w :: u32) OR 2 ^ k) n \<longleftrightarrow> bit w n \<or> n = k"
  by (auto simp: bit_or_iff bit_exp_iff)

lemma bit_and_not_exp: "bit ((w :: u32) AND NOT (2 ^ k)) n \<longleftrightarrow> bit w n \<and> n \<noteq> k"
  by (auto simp: bit_and_iff bit_not_iff bit_exp_iff dest: bit_imp_le_length)

lemma or_exp_nonzero: "k < 32 \<Longrightarrow> (w :: u32) OR 2 ^ k \<noteq> 0"
  using bit_or_exp [of k w k] by (auto simp: word_nonzero_has_bit)

lemma prio_mod_lt [simp]: "unat (p :: u8) mod 32 < 32"
  by simp

lemma prio_div_lt32 [simp]: "unat (p :: u8) div 32 < 32"
  using prio_div_lt [of p] by linarith

text \<open>The two updates, on the summary word and on the sub-words.\<close>

lemma BitmapAdd_sel:
  "BMAP_uiMap (BitmapAdd b p) = BMAP_uiMap b OR 2 ^ (unat p div 32)"
  "BMAP_uiSubMap (BitmapAdd b p) =
     (BMAP_uiSubMap b)(unat p div 32 := BMAP_uiSubMap b (unat p div 32) OR 2 ^ (unat p mod 32))"
  by (simp_all add: BitmapAdd_def Let_def prio_hi prio_lo)

lemma BitmapDel_sel:
  "BMAP_uiMap (BitmapDel b p) =
     (if BMAP_uiSubMap b (unat p div 32) AND NOT (2 ^ (unat p mod 32)) = 0
      then BMAP_uiMap b AND NOT (2 ^ (unat p div 32)) else BMAP_uiMap b)"
  "BMAP_uiSubMap (BitmapDel b p) =
     (BMAP_uiSubMap b)(unat p div 32 := BMAP_uiSubMap b (unat p div 32) AND NOT (2 ^ (unat p mod 32)))"
  by (simp_all add: BitmapDel_def Let_def prio_hi prio_lo)

lemma bmap_wf_init: "bmap_wf BitmapInit" and bmap_set_init: "bmap_set BitmapInit = {}"
  by (simp_all add: bmap_wf_def BitmapInit_def bmap_set_def)

lemma bmap_set_add: "bmap_set (BitmapAdd b p) = insert p (bmap_set b)"
  by (auto simp: bmap_set_iff BitmapAdd_sel bit_or_exp prio_eq_iff split: if_splits)

lemma bmap_wf_add: "bmap_wf b \<Longrightarrow> bmap_wf (BitmapAdd b p)"
  by (auto simp: bmap_wf_def BitmapAdd_sel bit_or_exp or_exp_nonzero)

lemma bmap_set_del: "bmap_set (BitmapDel b p) = bmap_set b - {p}"
  by (auto simp: bmap_set_iff BitmapDel_sel bit_and_not_exp prio_eq_iff split: if_splits)

lemma bmap_wf_del:
  assumes "bmap_wf b"
  shows "bmap_wf (BitmapDel b p)"
  unfolding bmap_wf_def
proof
  fix i
  let ?s = "BMAP_uiSubMap b (unat p div 32)"
  have "?s \<noteq> 0" if "?s AND NOT (2 ^ (unat p mod 32)) \<noteq> 0" using that by auto
  with assms show "bit (BMAP_uiMap (BitmapDel b p)) i \<longleftrightarrow> i < 8 \<and> BMAP_uiSubMap (BitmapDel b p) i \<noteq> 0"
    by (cases "i = unat p div 32"; cases "?s AND NOT (2 ^ (unat p mod 32)) = 0")
       (simp_all add: BitmapDel_sel bit_and_not_exp bmap_wf_def)
qed

lemma prio_of_parts:
  assumes "i < 8" and "j < 32"
  shows "unat (of_nat (32 * i + j) :: u8) = 32 * i + j"
proof -
  have "32 * i + j < 256" using assms by simp
  then show ?thesis by (simp add: unat_of_nat del: of_nat_add of_nat_mult)
qed

lemma bmap_empty_iff: "bmap_wf b \<Longrightarrow> BitmapIsEmpty b \<longleftrightarrow> bmap_set b = {}"
proof -
  assume wf: "bmap_wf b"
  have "\<exists>p. p \<in> bmap_set b" if i: "bit (BMAP_uiMap b) i" for i
  proof -
    from wf i have "i < 8" "BMAP_uiSubMap b i \<noteq> 0" by (auto simp: bmap_wf_def)
    then obtain j where j: "bit (BMAP_uiSubMap b i) j" by (auto simp: word_nonzero_has_bit)
    then have "j < 32" by (auto dest: bit_imp_le_length)
    with j \<open>i < 8\<close> have "(of_nat (32 * i + j) :: u8) \<in> bmap_set b"
      by (simp add: bmap_set_iff prio_of_parts del: of_nat_add of_nat_mult)
    then show ?thesis ..
  qed
  moreover have "BMAP_uiMap b \<noteq> 0" if "p \<in> bmap_set b" for p
  proof -
    from that have "BMAP_uiSubMap b (unat p div 32) \<noteq> 0" by (auto simp: bmap_set_iff)
    with wf have "bit (BMAP_uiMap b) (unat p div 32)" by (simp add: bmap_wf_def)
    then show ?thesis by auto
  qed
  ultimately show ?thesis by (auto simp: BitmapIsEmpty_def word_nonzero_has_bit)
qed


text \<open>
  The highest priority is the least number: the search in the summary word finds the lowest
  non-empty sub-word, the search in that sub-word its lowest bit.
\<close>

lemma BitmapHigh_parts:
  assumes "bmap_wf b" and "BMAP_uiMap b \<noteq> 0"
  obtains i j where "i < 8" "j < 32" "BitmapHigh b = of_nat (32 * i + j)"
    "is_lsb (BMAP_uiMap b) i" "is_lsb (BMAP_uiSubMap b i) j"
proof
  define i where "i = archFindLsb (BMAP_uiMap b) - 1"
  define j where "j = archFindLsb (BMAP_uiSubMap b i) - 1"
  from archFindLsb_lsb [OF assms(2)] have F: "archFindLsb (BMAP_uiMap b) = Suc i" "is_lsb (BMAP_uiMap b) i"
    by (simp_all add: i_def)
  then have i: "i < 8" "BMAP_uiSubMap b i \<noteq> 0" using assms(1) by (auto simp: bmap_wf_def is_lsb_def)
  from archFindLsb_lsb [OF i(2)] have G: "archFindLsb (BMAP_uiSubMap b i) = Suc j" "is_lsb (BMAP_uiSubMap b i) j"
    by (simp_all add: j_def)
  then have j: "j < 32" by (auto simp: is_lsb_def dest: bit_imp_le_length)
  have ui: "unat (of_nat i :: u32) = i" using i by (simp add: unat_of_nat)
  have S: "(of_nat (Suc i) :: u32) \<noteq> 0" using i by (simp add: word_unat_eq_iff unat_of_nat del: of_nat_Suc)
  have "take_bit 5 j = j" using j by (simp add: take_bit_eq_mod)
  then have jb: "bit j n \<Longrightarrow> n < 5" for n by (metis bit_take_bit_iff)
  have "push_bit 5 (of_nat i :: u32) AND of_nat j = 0"
    by (auto simp: bit_eq_iff bit_simps dest!: jb)
  then have "push_bit 5 (of_nat i :: u32) OR of_nat j = of_nat (32 * i + j)"
    by (simp add: disjunctive_add_eq_or [symmetric] push_bit_eq_mult mult.commute)
  moreover have "(ucast (of_nat (32 * i + j) :: u32) :: u8) = of_nat (32 * i + j)"
    using i j by (simp add: unsigned_of_nat take_bit_eq_mod del: of_nat_add of_nat_mult)
  ultimately show "BitmapHigh b = of_nat (32 * i + j)"
    using F G ui S by (simp add: BitmapHigh_def Let_def del: of_nat_add of_nat_mult)
  show "i < 8" "j < 32" "is_lsb (BMAP_uiMap b) i" "is_lsb (BMAP_uiSubMap b i) j" by fact+
qed


lemma BitmapHigh_in: 
  assumes "bmap_wf b" and "bmap_set b \<noteq> {}"
  shows "BitmapHigh b \<in> bmap_set b"
proof -
  from assms have "BMAP_uiMap b \<noteq> 0" using bmap_empty_iff by (simp add: BitmapIsEmpty_def)
  from BitmapHigh_parts [OF assms(1) this] obtain i j where ij: "i < 8" "j < 32"
    "BitmapHigh b = of_nat (32 * i + j)" "is_lsb (BMAP_uiMap b) i" "is_lsb (BMAP_uiSubMap b i) j" .
  then have "unat (BitmapHigh b) = 32 * i + j" by (simp add: prio_of_parts del: of_nat_add of_nat_mult)
  with ij(2,5) show ?thesis by (simp add: bmap_set_iff is_lsb_def)
qed

lemma parts_le:
  assumes "i \<le> (n :: nat) div 32" and "i = n div 32 \<Longrightarrow> j \<le> n mod 32" and "j < 32"
  shows "32 * i + j \<le> n"
proof (cases "i = n div 32")
  case True
  then show ?thesis using assms(2) mult_div_mod_eq [of 32 n] by linarith
next
  case False
  then have "i + 1 \<le> n div 32" using assms(1) by simp
  then show ?thesis using assms(3) mult_div_mod_eq [of 32 n] by linarith
qed

lemma BitmapHigh_least:
  assumes "bmap_wf b" and q: "q \<in> bmap_set b"
  shows "BitmapHigh b \<le> q"
proof -
  from q have sq: "BMAP_uiSubMap b (unat q div 32) \<noteq> 0" by (auto simp: bmap_set_iff)
  with assms(1) have mq: "bit (BMAP_uiMap b) (unat q div 32)" by (simp add: bmap_wf_def)
  then have "BMAP_uiMap b \<noteq> 0" by auto
  from BitmapHigh_parts [OF assms(1) this] obtain i j where ij: "i < 8" "j < 32"
    "BitmapHigh b = of_nat (32 * i + j)" "is_lsb (BMAP_uiMap b) i" "is_lsb (BMAP_uiSubMap b i) j" .
  from ij(4) mq have "i \<le> unat q div 32" by (meson is_lsb_def not_less)
  moreover have "j \<le> unat q mod 32" if "i = unat q div 32"
    using ij(5) q that by (auto simp: is_lsb_def bmap_set_iff not_less [symmetric])
  ultimately have "32 * i + j \<le> unat q" using ij(2) by (rule parts_le)
  with ij show ?thesis by (simp add: word_le_nat_alt prio_of_parts del: of_nat_add of_nat_mult)
qed

section \<open>The interface the scheduler uses\<close>

text \<open>
  What the ready table and the candidate table rely on: a table of priorities with
  insertion, removal, an emptiness test and the least element.
\<close>

locale prio_table =
  fixes empty :: 't
    and add :: "'t \<Rightarrow> u8 \<Rightarrow> 't"
    and del :: "'t \<Rightarrow> u8 \<Rightarrow> 't"
    and high :: "'t \<Rightarrow> u8"
    and is_empty :: "'t \<Rightarrow> bool"
    and prios :: "'t \<Rightarrow> u8 set"
    and invar :: "'t \<Rightarrow> bool"
  assumes prios_empty: "prios empty = {}"
    and invar_empty: "invar empty"
    and prios_add: "prios (add t p) = insert p (prios t)"
    and invar_add: "invar t \<Longrightarrow> invar (add t p)"
    and prios_del: "prios (del t p) = prios t - {p}"
    and invar_del: "invar t \<Longrightarrow> invar (del t p)"
    and is_empty_iff: "invar t \<Longrightarrow> is_empty t \<longleftrightarrow> prios t = {}"
    and high_in: "invar t \<Longrightarrow> prios t \<noteq> {} \<Longrightarrow> high t \<in> prios t"
    and high_least: "invar t \<Longrightarrow> p \<in> prios t \<Longrightarrow> high t \<le> p"
begin

lemma high_eq_Min: "invar t \<Longrightarrow> prios t \<noteq> {} \<Longrightarrow> high t = Min (prios t)"
  by (rule Min_eqI [symmetric]) (auto intro: high_in high_least)

lemma high_add: "invar t \<Longrightarrow> p \<le> high t \<Longrightarrow> high (add t p) = p"
  by (metis antisym high_in high_least insertCI insertE insert_not_empty invar_add order_trans prios_add)

text \<open>
  The least priority of two tables, looked up one after the other with the first table
  preferred on a tie: what the candidate search does with the local and the global table.
\<close>

lemma high_of_two:
  assumes "invar s" and "invar t" and "prios s \<noteq> {}" and "prios t \<noteq> {}"
    and "p \<in> prios s \<union> prios t"
  shows "(if high s \<le> high t then high s else high t) \<le> p"
  using assms high_least [of s p] high_least [of t p] by auto

end

interpretation bmap: prio_table BitmapInit BitmapAdd BitmapDel BitmapHigh BitmapIsEmpty bmap_set bmap_wf
  by unfold_locales
    (auto simp: bmap_set_init bmap_wf_init bmap_set_add bmap_wf_add bmap_set_del bmap_wf_del
      bmap_empty_iff BitmapHigh_in BitmapHigh_least)

end
