(* ===== verification/MsgBuffer.thy ===== *)
theory MsgBuffer
  imports ListLink Bitmap
begin

text \<open>
  The buffer of a message queue (\<^verbatim>\<open>kernel/core/_MsgQueueLib.c\<close>): the message nodes lie one after
  the other in one heap block, and are chained either in the free chain or in the chain of one of
  eight priorities, which a bitmap marks as used. A node is named by its address; the chains are
  those of \<open>ListLink\<close>, at the level of the pointers the code writes. The lemmas show that the
  buffer is a bounded queue that is first-in first-out within each priority.
\<close>

section \<open>Definitions\<close>

abbreviation EVENT_MSG_Q_PRIO :: nat where "EVENT_MSG_Q_PRIO \<equiv> 8"
abbreviation EVENT_MSG_Q_PRIO_LOW :: nat where "EVENT_MSG_Q_PRIO_LOW \<equiv> 7"
abbreviation sizeof_size_t :: ulong where "sizeof_size_t \<equiv> 8"
abbreviation sizeof_MSGNODE :: ulong where "sizeof_MSGNODE \<equiv> 16"

definition ROUND_UP :: "ulong \<Rightarrow> ulong \<Rightarrow> ulong" where
  "ROUND_UP x align = (x + (align - 1)) AND NOT (align - 1)"

text \<open>
  \<^verbatim>\<open>LW_CLASS_MSGQUEUE\<close>, and the memory of its nodes (\<^verbatim>\<open>LW_CLASS_MSGNODE\<close>): the link and the
  length of a node, and the bytes that follow it.
\<close>

record msgqueue =
  MSGQUEUE_pmonoFree :: "ulong option"
  MSGQUEUE_pmonoHeader :: "nat \<Rightarrow> ulong option"
  MSGQUEUE_pmonoTail :: "nat \<Rightarrow> ulong option"
  MSGQUEUE_uiMap :: u32
  MSGQUEUE_pvBuffer :: ulong
  MSGQUEUE_stMaxBytes :: ulong
  MSGNODE_monoManage :: "ulong mono_mem"
  MSGNODE_stMsgLen :: "ulong \<Rightarrow> ulong"
  MSGNODE_bytes :: "ulong \<Rightarrow> u8 list"

text \<open>\<^verbatim>\<open>memcpy\<close> of \<open>n\<close> bytes over the beginning of an area.\<close>

definition memcpy :: "'b list \<Rightarrow> 'b list \<Rightarrow> ulong \<Rightarrow> 'b list" where
  "memcpy dst src n = take (unat n) src @ drop (unat n) dst"

text \<open>The loop of \<^verbatim>\<open>_MsgQueueClear\<close> over the nodes, from the address \<open>pmsgnode\<close> on.\<close>

fun mq_free_nodes :: "nat \<Rightarrow> ulong \<Rightarrow> ulong \<Rightarrow> msgqueue \<Rightarrow> msgqueue" where
  "mq_free_nodes 0 pmsgnode stMaxByteAlign mq = mq"
| "mq_free_nodes (Suc n) pmsgnode stMaxByteAlign mq =
     (let (h, m) = list_mono_free (MSGQUEUE_pmonoFree mq) pmsgnode (MSGNODE_monoManage mq)
      in mq_free_nodes n (pmsgnode + sizeof_MSGNODE + stMaxByteAlign) stMaxByteAlign
           (mq\<lparr>MSGQUEUE_pmonoFree := h, MSGNODE_monoManage := m\<rparr>))"

definition MsgQueueClear :: "ulong \<Rightarrow> msgqueue \<Rightarrow> msgqueue" where
  "MsgQueueClear ulMsgTotal mq =
     (let mq = mq\<lparr>MSGQUEUE_pmonoFree := None, MSGQUEUE_uiMap := 0\<rparr>;
          mq = mq\<lparr>MSGQUEUE_pmonoHeader := (\<lambda>i. if i < EVENT_MSG_Q_PRIO then None else MSGQUEUE_pmonoHeader mq i),
                  MSGQUEUE_pmonoTail := (\<lambda>i. if i < EVENT_MSG_Q_PRIO then None else MSGQUEUE_pmonoTail mq i)\<rparr>;
          stMaxByteAlign = ROUND_UP (MSGQUEUE_stMaxBytes mq) sizeof_size_t
      in mq_free_nodes (unat ulMsgTotal) (MSGQUEUE_pvBuffer mq) stMaxByteAlign mq)"

text \<open>
  \<^verbatim>\<open>_MsgQueueGet\<close>: the message and its length. With an empty bitmap the index would be
  \<^verbatim>\<open>-1\<close>, and an empty chain would be dereferenced: no result.
\<close>

definition MsgQueueGet :: "ulong \<Rightarrow> msgqueue \<Rightarrow> (u8 list \<times> ulong \<times> msgqueue) option" where
  "MsgQueueGet stMaxByteSize mq = do {
     iQ \<leftarrow> (if MSGQUEUE_uiMap mq = 0 then None else Some (archFindLsb (MSGQUEUE_uiMap mq) - 1));
     (pmsgnode, h, t) \<leftarrow> list_mono_allocate_seq (MSGQUEUE_pmonoHeader mq iQ) (MSGQUEUE_pmonoTail mq iQ) (MSGNODE_monoManage mq);
     let mq = mq\<lparr>MSGQUEUE_pmonoHeader := (MSGQUEUE_pmonoHeader mq)(iQ := h), MSGQUEUE_pmonoTail := (MSGQUEUE_pmonoTail mq)(iQ := t)\<rparr>;
     let mq = (if MSGQUEUE_pmonoHeader mq iQ = None then mq\<lparr>MSGQUEUE_uiMap := MSGQUEUE_uiMap mq AND NOT (push_bit iQ 1)\<rparr> else mq);
     let stMsgLen = (if stMaxByteSize < MSGNODE_stMsgLen mq pmsgnode then stMaxByteSize else MSGNODE_stMsgLen mq pmsgnode);
     let msg = take (unat stMsgLen) (MSGNODE_bytes mq pmsgnode);
     let (f, m) = list_mono_free (MSGQUEUE_pmonoFree mq) pmsgnode (MSGNODE_monoManage mq);
     Some (msg, stMsgLen, mq\<lparr>MSGQUEUE_pmonoFree := f, MSGNODE_monoManage := m\<rparr>) }"

definition MsgQueuePut :: "u8 list \<Rightarrow> ulong \<Rightarrow> nat \<Rightarrow> msgqueue \<Rightarrow> msgqueue option" where
  "MsgQueuePut pvMsgBuffer stMsgLen uiPrio mq = do {
     (pmsgnode, f) \<leftarrow> list_mono_allocate (MSGQUEUE_pmonoFree mq) (MSGNODE_monoManage mq);
     let mq = mq\<lparr>MSGQUEUE_pmonoFree := f\<rparr>;
     let mq = mq\<lparr>MSGNODE_stMsgLen := (MSGNODE_stMsgLen mq)(pmsgnode := stMsgLen)\<rparr>;
     let mq = mq\<lparr>MSGNODE_bytes := (MSGNODE_bytes mq)(pmsgnode := memcpy (MSGNODE_bytes mq pmsgnode) pvMsgBuffer stMsgLen)\<rparr>;
     let mq = (if MSGQUEUE_pmonoHeader mq uiPrio = None then mq\<lparr>MSGQUEUE_uiMap := MSGQUEUE_uiMap mq OR push_bit uiPrio 1\<rparr> else mq);
     let (h, t, m) = list_mono_free_seq (MSGQUEUE_pmonoHeader mq uiPrio) (MSGQUEUE_pmonoTail mq uiPrio) pmsgnode (MSGNODE_monoManage mq);
     Some (mq\<lparr>MSGQUEUE_pmonoHeader := (MSGQUEUE_pmonoHeader mq)(uiPrio := h),
       MSGQUEUE_pmonoTail := (MSGQUEUE_pmonoTail mq)(uiPrio := t), MSGNODE_monoManage := m\<rparr>) }"

definition MsgQueueMsgLen :: "msgqueue \<Rightarrow> ulong option" where
  "MsgQueueMsgLen mq = do {
     iQ \<leftarrow> (if MSGQUEUE_uiMap mq = 0 then None else Some (archFindLsb (MSGQUEUE_uiMap mq) - 1));
     pmsgnode \<leftarrow> MSGQUEUE_pmonoHeader mq iQ;
     Some (MSGNODE_stMsgLen mq pmsgnode) }"

section \<open>The abstract buffer\<close>

text \<open>A queue of messages per priority; the first message is the oldest of the most urgent priority in use.\<close>

type_synonym 'm pqueue = "nat \<Rightarrow> 'm list"

definition pq_put :: "nat \<Rightarrow> 'm \<Rightarrow> 'm pqueue \<Rightarrow> 'm pqueue" where
  "pq_put p m q = q(p := q p @ [m])"

definition pq_first :: "'m pqueue \<Rightarrow> nat option" where
  "pq_first q = find (\<lambda>p. q p \<noteq> []) [0..<EVENT_MSG_Q_PRIO]"

definition pq_get :: "'m pqueue \<Rightarrow> ('m \<times> 'm pqueue) option" where
  "pq_get q = map_option (\<lambda>p. (hd (q p), q(p := tl (q p)))) (pq_first q)"

definition pq_all :: "'m pqueue \<Rightarrow> 'm list" where
  "pq_all q = concat (map q [0..<EVENT_MSG_Q_PRIO])"

lemma pq_all_split: "p < 8 \<Longrightarrow> pq_all q = concat (map q [0..<p]) @ q p @ concat (map q [Suc p..<8])"
proof -
  assume "p < 8"
  then have "[0..<8] = [0..<p] @ p # [Suc p..<8]" by (metis le0 less_imp_le_nat upt_add_eq_append upt_conv_Cons le_add_diff_inverse)
  then show ?thesis unfolding pq_all_def by simp
qed

lemma pq_all_upd: "p < 8 \<Longrightarrow> pq_all (q(p := xs)) = concat (map q [0..<p]) @ xs @ concat (map q [Suc p..<8])"
  by (subst pq_all_split) (auto intro!: arg_cong [where f = concat] map_cong)

lemma pq_len_put: "p < 8 \<Longrightarrow> length (pq_all (pq_put p m q)) = Suc (length (pq_all q))"
  by (simp add: pq_put_def pq_all_upd pq_all_split [of p q])

lemma pq_all_empty [simp]: "pq_all (\<lambda>_. []) = []"
  by (simp add: pq_all_def)

lemma pq_set_put: "p < 8 \<Longrightarrow> set (pq_all (pq_put p m q)) = insert m (set (pq_all q))"
  by (simp add: pq_put_def pq_all_upd pq_all_split [of p q])

lemma pq_first_Some: "pq_first q = Some p \<longleftrightarrow> p < 8 \<and> q p \<noteq> [] \<and> (\<forall>j<p. q j = [])"
  unfolding pq_first_def find_Some_iff by (auto simp: nth_append)

lemma pq_first_None: "pq_first q = None \<longleftrightarrow> pq_all q = []"
  by (auto simp: pq_first_def find_None_iff pq_all_def)

lemma pq_get_all: "pq_get q = (if pq_all q = [] then None else
    Some (hd (pq_all q), q(the (pq_first q) := tl (q (the (pq_first q))))))"
proof (cases "pq_first q")
  case None
  then show ?thesis by (simp add: pq_get_def pq_first_None)
next
  case (Some p)
  then have p: "p < 8" "q p \<noteq> []" "\<And>j. j < p \<Longrightarrow> q j = []" by (simp_all add: pq_first_Some)
  from pq_all_split [OF p(1), of q] p(3) have "pq_all q = q p @ concat (map q [Suc p..<8])" by simp
  with p(2) Some show ?thesis by (simp add: pq_get_def)
qed

text \<open>The messages leave in the order of \<^const>\<open>pq_all\<close>.\<close>

lemma pq_get_tl: "pq_get q = Some (m, q') \<Longrightarrow> pq_all q = m # pq_all q'"
proof -
  assume G: "pq_get q = Some (m, q')"
  then obtain p where P: "pq_first q = Some p" "m = hd (q p)" "q' = q(p := tl (q p))" by (auto simp: pq_get_def)
  then have p: "p < 8" "q p \<noteq> []" "\<And>j. j < p \<Longrightarrow> q j = []" by (simp_all add: pq_first_Some)
  then have e: "concat (map q [0..<p]) = []" by simp
  show ?thesis using p(1,2) P(2,3) by (simp add: pq_all_upd pq_all_split [of p q] e)
qed
section \<open>What a buffer stands for\<close>

definition node_msg :: "msgqueue \<Rightarrow> ulong \<Rightarrow> u8 list" where
  "node_msg mq n = take (unat (MSGNODE_stMsgLen mq n)) (MSGNODE_bytes mq n)"

text \<open>The free nodes and the nodes of each priority: disjoint chains, and the bitmap marks the chains in use.\<close>

definition mq_shape :: "msgqueue \<Rightarrow> ulong list \<Rightarrow> ulong pqueue \<Rightarrow> bool" where
  "mq_shape mq fr qs \<longleftrightarrow> mono_rep (MSGNODE_monoManage mq) (MSGQUEUE_pmonoFree mq) fr \<and>
     (\<forall>p<8. mono_rep (MSGNODE_monoManage mq) (MSGQUEUE_pmonoHeader mq p) (qs p) \<and> MSGQUEUE_pmonoTail mq p = last_of (qs p)) \<and>
     distinct (fr @ pq_all qs) \<and> (\<forall>i. bit (MSGQUEUE_uiMap mq) i \<longleftrightarrow> i < 8 \<and> qs i \<noteq> [])"

text \<open>A buffer of \<open>N\<close> nodes holds the messages \<open>ms\<close>, none longer than the maximum.\<close>

definition mq_rep :: "nat \<Rightarrow> msgqueue \<Rightarrow> u8 list pqueue \<Rightarrow> bool" where
  "mq_rep N mq ms \<longleftrightarrow> (\<exists>fr qs. mq_shape mq fr qs \<and> length fr + length (pq_all qs) = N \<and>
     ms = (\<lambda>p. if p < 8 then map (node_msg mq) (qs p) else []) \<and>
     (\<forall>n \<in> set (pq_all qs). MSGNODE_stMsgLen mq n \<le> MSGQUEUE_stMaxBytes mq \<and> unat (MSGNODE_stMsgLen mq n) \<le> length (MSGNODE_bytes mq n)))"

lemma pq_disjoint:
  assumes "distinct (pq_all qs)" and "p < 8" and "r < 8" and "p \<noteq> r"
  shows "set (qs p) \<inter> set (qs r) = {}"
proof -
  have *: "set (qs r) \<subseteq> set (concat (map qs [0..<p]) @ concat (map qs [Suc p..<8]))" using assms(3,4) by force
  have "set (qs p) \<inter> set (concat (map qs [0..<p]) @ concat (map qs [Suc p..<8])) = {}"
    using assms(1) unfolding pq_all_split [OF assms(2), of qs] by auto
  with * show ?thesis by blast
qed

lemma pq_all_mem: "p < 8 \<Longrightarrow> set (qs p) \<subseteq> set (pq_all qs)"
  by (auto simp: pq_all_def)

lemma mono_rep_same: "mono_rep m h xs \<Longrightarrow> (\<And>n. n \<in> set xs \<Longrightarrow> m' n = m n) \<Longrightarrow> mono_rep m' h xs"
  unfolding mono_rep_def using mono_seg_cong by metis

lemma mono_rep_None [simp]: "mono_rep m h xs \<Longrightarrow> h = None \<longleftrightarrow> xs = []"
  using mono_seg_head [of m h xs] by (cases xs) (auto simp: mono_rep_def head_of_def)

lemma mono_free_seq_frame:
  assumes "list_mono_free_seq h t x m = (h', t', m')" and "t = last_of xs" and "n \<noteq> x" and "n \<notin> set xs"
  shows "m' n = m n"
  using assms by (cases "xs = []") (auto simp: list_mono_free_seq_def last_of_def Let_def)

section \<open>Putting\<close>

lemma mq_shape_put:
  assumes S: "mq_shape mq (x # fr) qs" and p: "p < 8"
  obtains mq' where "MsgQueuePut buf len p mq = Some mq'" "mq_shape mq' fr (pq_put p x qs)"
    "MSGNODE_stMsgLen mq' = (MSGNODE_stMsgLen mq)(x := len)"
    "MSGNODE_bytes mq' = (MSGNODE_bytes mq)(x := memcpy (MSGNODE_bytes mq x) buf len)"
    "MSGQUEUE_stMaxBytes mq' = MSGQUEUE_stMaxBytes mq" "MSGQUEUE_pvBuffer mq' = MSGQUEUE_pvBuffer mq"
proof -
  let ?m = "MSGNODE_monoManage mq" and ?h = "MSGQUEUE_pmonoHeader mq p"
  from S have f: "MSGQUEUE_pmonoFree mq = Some x" "?m x = head_of fr" "mono_rep ?m (head_of fr) fr" "x \<notin> set fr"
    and q: "\<And>r. r < 8 \<Longrightarrow> mono_rep ?m (MSGQUEUE_pmonoHeader mq r) (qs r)" "\<And>r. r < 8 \<Longrightarrow> MSGQUEUE_pmonoTail mq r = last_of (qs r)"
    and d: "distinct (x # fr @ pq_all qs)" and b: "\<And>i. bit (MSGQUEUE_uiMap mq) i \<longleftrightarrow> i < 8 \<and> qs i \<noteq> []"
    by (auto simp: mq_shape_def mono_rep_Cons)
  obtain h t m where F: "list_mono_free_seq ?h (MSGQUEUE_pmonoTail mq p) x ?m = (h, t, m)" by (metis prod_cases3)
  have xq: "x \<notin> set (qs p)" using d pq_all_mem [OF p, of qs] by auto
  from list_mono_free_seq_rep [OF q(1) [OF p] q(2) [OF p] xq] F
  have R: "t = last_of (qs p @ [x])" "mono_rep m h (qs p @ [x])" by auto
  note M = mono_free_seq_frame [OF F q(2) [OF p]]
  define mq' where "mq' = mq\<lparr>MSGQUEUE_pmonoFree := head_of fr, MSGNODE_stMsgLen := (MSGNODE_stMsgLen mq)(x := len),
    MSGNODE_bytes := (MSGNODE_bytes mq)(x := memcpy (MSGNODE_bytes mq x) buf len),
    MSGQUEUE_uiMap := (if ?h = None then MSGQUEUE_uiMap mq OR push_bit p 1 else MSGQUEUE_uiMap mq),
    MSGQUEUE_pmonoHeader := (MSGQUEUE_pmonoHeader mq)(p := h), MSGQUEUE_pmonoTail := (MSGQUEUE_pmonoTail mq)(p := t), MSGNODE_monoManage := m\<rparr>"
  have E: "MsgQueuePut buf len p mq = Some mq'"
    using F by (cases ?h) (simp_all add: MsgQueuePut_def list_mono_allocate_def f(1,2) mq'_def Let_def)
  have "mq_shape mq' fr (pq_put p x qs)"
    unfolding mq_shape_def
  proof (intro conjI allI impI)
    show "mono_rep (MSGNODE_monoManage mq') (MSGQUEUE_pmonoFree mq') fr"
      using mono_rep_same [OF f(3), of m] M d pq_all_mem [OF p, of qs] by (simp add: mq'_def) (metis disjoint_iff subsetD)
    show "distinct (fr @ pq_all (pq_put p x qs))"
      using d p by (simp add: pq_put_def pq_all_upd pq_all_split [OF p, of qs])
    fix r assume r: "r < (8::nat)"
    show "mono_rep (MSGNODE_monoManage mq') (MSGQUEUE_pmonoHeader mq' r) (pq_put p x qs r)"
    proof (cases "r = p")
      case False
      have "m n = ?m n" if "n \<in> set (qs r)" for n
      proof (rule M)
        show "n \<noteq> x" using that d pq_all_mem [OF r, of qs] by auto
        show "n \<notin> set (qs p)" using that pq_disjoint [of qs, OF _ p r] False d by auto
      qed
      with mono_rep_same [OF q(1) [OF r]] False show ?thesis by (simp add: mq'_def pq_put_def)
    qed (use R(2) in \<open>simp add: mq'_def pq_put_def\<close>)
    show "MSGQUEUE_pmonoTail mq' r = last_of (pq_put p x qs r)" using q(2) [OF r] R(1) by (simp add: mq'_def pq_put_def)
  next
    fix i
    have "?h = None \<longleftrightarrow> qs p = []" using q(1) [OF p] by simp
    then show "bit (MSGQUEUE_uiMap mq') i \<longleftrightarrow> i < 8 \<and> pq_put p x qs i \<noteq> []"
      using b [of i] p by (auto simp: mq'_def pq_put_def bit_simps)
  qed
  with E show thesis using that by (simp add: mq'_def)
qed

lemma node_msg_put:
  "unat len \<le> length buf \<Longrightarrow> take (unat len) (memcpy area buf len) = take (unat len) buf"
  by (simp add: memcpy_def)

text \<open>A put with room appends the message at its priority.\<close>

lemma MsgQueuePut_rep:
  assumes R: "mq_rep N mq ms" and room: "length (pq_all ms) < N" and p: "p < 8" and l: "unat len \<le> length buf" "len \<le> MSGQUEUE_stMaxBytes mq"
  obtains mq' where "MsgQueuePut buf len p mq = Some mq'" "mq_rep N mq' (pq_put p (take (unat len) buf) ms)"
    "MSGQUEUE_stMaxBytes mq' = MSGQUEUE_stMaxBytes mq" "MSGQUEUE_pvBuffer mq' = MSGQUEUE_pvBuffer mq"
proof -
  from R obtain fr qs where S: "mq_shape mq fr qs" "length fr + length (pq_all qs) = N"
    and M: "ms = (\<lambda>p. if p < 8 then map (node_msg mq) (qs p) else [])"
    and B: "\<And>n. n \<in> set (pq_all qs) \<Longrightarrow> MSGNODE_stMsgLen mq n \<le> MSGQUEUE_stMaxBytes mq \<and> unat (MSGNODE_stMsgLen mq n) \<le> length (MSGNODE_bytes mq n)"
    unfolding mq_rep_def by blast
  have "pq_all ms = map (node_msg mq) (pq_all qs)" unfolding pq_all_def map_concat M by (intro arg_cong [where f = concat]) simp
  with room S(2) obtain x fr' where fr: "fr = x # fr'" by (cases fr) auto
  obtain mq' where Q: "MsgQueuePut buf len p mq = Some mq'" "mq_shape mq' fr' (pq_put p x qs)"
    "MSGNODE_stMsgLen mq' = (MSGNODE_stMsgLen mq)(x := len)"
    "MSGNODE_bytes mq' = (MSGNODE_bytes mq)(x := memcpy (MSGNODE_bytes mq x) buf len)"
    "MSGQUEUE_stMaxBytes mq' = MSGQUEUE_stMaxBytes mq" "MSGQUEUE_pvBuffer mq' = MSGQUEUE_pvBuffer mq"
    by (rule mq_shape_put [OF S(1) [unfolded fr] p, of buf len])
  have x: "x \<notin> set (pq_all qs)" using S(1) by (simp add: mq_shape_def fr)
  have xq: "x \<notin> set (qs r)" if "r < 8" for r using x pq_all_mem [OF that, of qs] by blast
  have nm: "node_msg mq' n = (if n = x then take (unat len) buf else node_msg mq n)" for n
    using l(1) by (simp add: node_msg_def Q(3,4) node_msg_put)
  have "mq_rep N mq' (pq_put p (take (unat len) buf) ms)"
    unfolding mq_rep_def
  proof (intro exI conjI)
    show "mq_shape mq' fr' (pq_put p x qs)" by (rule Q(2))
    show "length fr' + length (pq_all (pq_put p x qs)) = N" using S(2) p by (simp add: fr pq_len_put)
    show "pq_put p (take (unat len) buf) ms = (\<lambda>r. if r < 8 then map (node_msg mq') (pq_put p x qs r) else [])"
    proof (rule ext)
      fix r
      have "map (node_msg mq') (qs r) = map (node_msg mq) (qs r)" if "r < 8"
        by (rule map_cong [OF refl]) (use xq [OF that] in \<open>auto simp: nm\<close>)
      then show "pq_put p (take (unat len) buf) ms r = (if r < 8 then map (node_msg mq') (pq_put p x qs r) else [])"
        using p by (simp add: M pq_put_def nm)
    qed
    have "length (memcpy (MSGNODE_bytes mq x) buf len) \<ge> unat len" using l(1) by (simp add: memcpy_def)
    then show "\<forall>n \<in> set (pq_all (pq_put p x qs)). MSGNODE_stMsgLen mq' n \<le> MSGQUEUE_stMaxBytes mq' \<and>
        unat (MSGNODE_stMsgLen mq' n) \<le> length (MSGNODE_bytes mq' n)"
      using B l(2) by (simp add: Q(3-5) pq_set_put [OF p])
  qed
  then show thesis by (rule that [OF Q(1) _ Q(5,6)])
qed

section \<open>Getting\<close>

lemma mq_shape_first:
  assumes S: "mq_shape mq fr qs"
  shows "(if MSGQUEUE_uiMap mq = 0 then None else Some (archFindLsb (MSGQUEUE_uiMap mq) - 1)) = pq_first qs"
proof (cases "MSGQUEUE_uiMap mq = 0")
  case True
  have "qs p = []" if "p < 8" for p using S that True unfolding mq_shape_def by simp
  then have "pq_first qs = None" by (simp add: pq_first_def find_None_iff)
  then show ?thesis using True by simp
next
  case False
  let ?i = "archFindLsb (MSGQUEUE_uiMap mq) - 1"
  have b: "bit (MSGQUEUE_uiMap mq) i \<longleftrightarrow> i < 8 \<and> qs i \<noteq> []" for i using S unfolding mq_shape_def by blast
  have "is_lsb (MSGQUEUE_uiMap mq) ?i" using archFindLsb_lsb [OF False] by blast
  then have "?i < 8 \<and> qs ?i \<noteq> [] \<and> (\<forall>j<?i. qs j = [])" unfolding is_lsb_def b by (meson less_trans)
  then have "pq_first qs = Some ?i" using pq_first_Some [of qs ?i] by blast
  with False show ?thesis by simp
qed

lemma mq_shape_get:
  assumes S: "mq_shape mq fr qs" and P: "pq_first qs = Some p" and x: "qs p = x # xs"
  obtains mq' where "MsgQueueGet sz mq = Some (take (unat (min sz (MSGNODE_stMsgLen mq x))) (MSGNODE_bytes mq x), min sz (MSGNODE_stMsgLen mq x), mq')"
    "mq_shape mq' (x # fr) (qs(p := xs))" "MSGNODE_stMsgLen mq' = MSGNODE_stMsgLen mq" "MSGNODE_bytes mq' = MSGNODE_bytes mq"
    "MSGQUEUE_stMaxBytes mq' = MSGQUEUE_stMaxBytes mq" "MSGQUEUE_pvBuffer mq' = MSGQUEUE_pvBuffer mq"
proof -
  let ?m = "MSGNODE_monoManage mq"
  from P have p: "p < 8" by (simp add: pq_first_Some)
  from S have f: "mono_rep ?m (MSGQUEUE_pmonoFree mq) fr"
    and q: "\<And>r. r < 8 \<Longrightarrow> mono_rep ?m (MSGQUEUE_pmonoHeader mq r) (qs r)" "\<And>r. r < 8 \<Longrightarrow> MSGQUEUE_pmonoTail mq r = last_of (qs r)"
    and d: "distinct (fr @ pq_all qs)" and b: "\<And>i. bit (MSGQUEUE_uiMap mq) i \<longleftrightarrow> i < 8 \<and> qs i \<noteq> []"
    by (auto simp: mq_shape_def)
  have xa: "x \<in> set (pq_all qs)" using pq_all_mem [OF p, of qs] x by auto
  then have xf: "x \<notin> set fr" using d by auto
  note A = list_mono_allocate_seq_rep [OF q(1) [OF p, unfolded x] q(2) [OF p, unfolded x]]
  define m where "m = ?m(x := MSGQUEUE_pmonoFree mq)"
  define mq' where "mq' = mq\<lparr>MSGQUEUE_pmonoHeader := (MSGQUEUE_pmonoHeader mq)(p := head_of xs), MSGQUEUE_pmonoTail := (MSGQUEUE_pmonoTail mq)(p := last_of xs),
    MSGQUEUE_uiMap := (if xs = [] then MSGQUEUE_uiMap mq AND NOT (push_bit p 1) else MSGQUEUE_uiMap mq),
    MSGQUEUE_pmonoFree := Some x, MSGNODE_monoManage := m\<rparr>"
  have h: "head_of xs = None \<longleftrightarrow> xs = []" by (cases xs) simp_all
  have mn: "(if sz < MSGNODE_stMsgLen mq x then sz else MSGNODE_stMsgLen mq x) = min sz (MSGNODE_stMsgLen mq x)" by (auto simp: min_def)
  have E: "MsgQueueGet sz mq = Some (take (unat (min sz (MSGNODE_stMsgLen mq x))) (MSGNODE_bytes mq x), min sz (MSGNODE_stMsgLen mq x), mq')"
    using A by (simp add: MsgQueueGet_def mq_shape_first [OF S] P Let_def h list_mono_free_def mq'_def m_def mn)
  have "mq_shape mq' (x # fr) (qs(p := xs))"
    unfolding mq_shape_def
  proof (intro conjI allI impI)
    show "mono_rep (MSGNODE_monoManage mq') (MSGQUEUE_pmonoFree mq') (x # fr)"
      using list_mono_free_rep [OF f xf] by (simp add: list_mono_free_def mq'_def m_def)
    show "distinct ((x # fr) @ pq_all (qs(p := xs)))"
      using d p x by (auto simp: pq_all_upd pq_all_split [OF p, of qs])
    fix r assume r: "r < (8::nat)"
    have xr: "x \<notin> set ((qs(p := xs)) r)"
      using A q(1) [OF p] pq_disjoint [of qs, OF _ p r] d x by (auto simp: mono_rep_def)
    have "mono_rep ?m (MSGQUEUE_pmonoHeader mq' r) ((qs(p := xs)) r)" using A q(1) [OF r] by (simp add: mq'_def)
    then show "mono_rep (MSGNODE_monoManage mq') (MSGQUEUE_pmonoHeader mq' r) ((qs(p := xs)) r)"
      by (rule mono_rep_same) (use xr in \<open>auto simp: mq'_def m_def\<close>)
    show "MSGQUEUE_pmonoTail mq' r = last_of ((qs(p := xs)) r)" using q(2) [OF r] by (simp add: mq'_def)
  next
    fix i
    show "bit (MSGQUEUE_uiMap mq') i \<longleftrightarrow> i < 8 \<and> (qs(p := xs)) i \<noteq> []"
      using b [of i] p x by (auto simp: mq'_def bit_simps)
  qed
  then show thesis by (rule that [OF E]) (simp_all add: mq'_def)
qed

text \<open>A get takes the first message of the most urgent priority, cut to the size of the receiver's buffer.\<close>

lemma MsgQueueGet_rep:
  assumes R: "mq_rep N mq ms" and G: "pq_get ms = Some (msg, ms')"
  obtains mq' where "MsgQueueGet sz mq = Some (take (unat sz) msg, min sz (of_nat (length msg)), mq')" "mq_rep N mq' ms'"
    "MSGQUEUE_stMaxBytes mq' = MSGQUEUE_stMaxBytes mq" "MSGQUEUE_pvBuffer mq' = MSGQUEUE_pvBuffer mq"
    "MsgQueueMsgLen mq = Some (of_nat (length msg))" "length msg \<le> unat (MSGQUEUE_stMaxBytes mq)"
proof -
  from R obtain fr qs where S: "mq_shape mq fr qs" "length fr + length (pq_all qs) = N"
    and M: "ms = (\<lambda>p. if p < 8 then map (node_msg mq) (qs p) else [])"
    and B: "\<And>n. n \<in> set (pq_all qs) \<Longrightarrow> MSGNODE_stMsgLen mq n \<le> MSGQUEUE_stMaxBytes mq \<and> unat (MSGNODE_stMsgLen mq n) \<le> length (MSGNODE_bytes mq n)"
    unfolding mq_rep_def by blast
  from G obtain p where P: "pq_first ms = Some p" "msg = hd (ms p)" "ms' = ms(p := tl (ms p))" by (auto simp: pq_get_def)
  then have p: "p < 8" and Pq: "pq_first qs = Some p" by (auto simp: pq_first_Some M)
  then obtain x xs where x: "qs p = x # xs" by (cases "qs p") (auto simp: pq_first_Some)
  have "mono_rep (MSGNODE_monoManage mq) (MSGQUEUE_pmonoHeader mq p) (qs p)" using S(1) p by (simp add: mq_shape_def)
  then have hdr: "MSGQUEUE_pmonoHeader mq p = Some x" by (simp add: x mono_rep_Cons)
  have xa: "x \<in> set (pq_all qs)" using pq_all_mem [OF p, of qs] x by auto
  have msg: "msg = node_msg mq x" by (simp add: P(2) M p x)
  let ?l = "MSGNODE_stMsgLen mq x"
  have len: "length msg = unat ?l" using B [OF xa] by (simp add: msg node_msg_def)
  obtain mq' where Q: "MsgQueueGet sz mq = Some (take (unat (min sz ?l)) (MSGNODE_bytes mq x), min sz ?l, mq')"
    "mq_shape mq' (x # fr) (qs(p := xs))" "MSGNODE_stMsgLen mq' = MSGNODE_stMsgLen mq" "MSGNODE_bytes mq' = MSGNODE_bytes mq"
    "MSGQUEUE_stMaxBytes mq' = MSGQUEUE_stMaxBytes mq" "MSGQUEUE_pvBuffer mq' = MSGQUEUE_pvBuffer mq"
    by (rule mq_shape_get [OF S(1) Pq x, of sz])
  have nm: "node_msg mq' = node_msg mq" by (simp add: node_msg_def Q(3,4) fun_eq_iff)
  have "mq_rep N mq' ms'"
    unfolding mq_rep_def
  proof (intro exI conjI)
    show "mq_shape mq' (x # fr) (qs(p := xs))" by (rule Q(2))
    show "length (x # fr) + length (pq_all (qs(p := xs))) = N" using S(2) p x by (simp add: pq_all_upd pq_all_split [OF p, of qs])
    show "ms' = (\<lambda>r. if r < 8 then map (node_msg mq') ((qs(p := xs)) r) else [])"
      using p x by (auto simp: P(3) M nm fun_eq_iff)
    have "set (pq_all (qs(p := xs))) \<subseteq> set (pq_all qs)" using p x by (auto simp: pq_all_upd pq_all_split [OF p, of qs])
    then show "\<forall>n\<in>set (pq_all (qs(p := xs))). MSGNODE_stMsgLen mq' n \<le> MSGQUEUE_stMaxBytes mq' \<and>
        unat (MSGNODE_stMsgLen mq' n) \<le> length (MSGNODE_bytes mq' n)" using B by (auto simp: Q(3-5))
  qed
  moreover have "take (unat (min sz ?l)) (MSGNODE_bytes mq x) = take (unat sz) msg"
    by (simp add: msg node_msg_def min_def word_le_nat_alt)
  moreover have "MsgQueueMsgLen mq = Some ?l"
    by (simp add: MsgQueueMsgLen_def mq_shape_first [OF S(1)] Pq hdr)
  moreover have "length msg \<le> unat (MSGQUEUE_stMaxBytes mq)" using B [OF xa] len by (simp add: word_le_nat_alt)
  ultimately show thesis using that [of mq'] Q by (simp add: len)
qed

section \<open>The empty buffer\<close>

definition node_at :: "ulong \<Rightarrow> ulong \<Rightarrow> nat \<Rightarrow> ulong" where
  "node_at base align i = base + of_nat i * (sizeof_MSGNODE + align)"

lemma node_at_step: "node_at (base + (sizeof_MSGNODE + align)) align i = node_at base align (Suc i)"
  by (simp add: node_at_def algebra_simps)

text \<open>The nodes are different as long as the whole block fits in the address space.\<close>

lemma node_at_inj:
  assumes "n * unat (sizeof_MSGNODE + align) \<le> 2 ^ 64" and "0 < unat (sizeof_MSGNODE + align)"
  shows "inj_on (node_at base align) {..<n}"
proof (rule inj_onI)
  fix i j assume i: "i \<in> {..<n}" "j \<in> {..<n}" and e: "node_at base align i = node_at base align j"
  let ?s = "unat (sizeof_MSGNODE + align)"
  have b: "x * ?s < 2 ^ 64" if "x \<in> {..<n}" for x
  proof -
    have "x * ?s < n * ?s" using that assms(2) by simp
    then show ?thesis using assms(1) by linarith
  qed
  have u: "unat (of_nat x * (sizeof_MSGNODE + align)) = x * ?s" if "x \<in> {..<n}" for x
  proof -
    have "of_nat x * (sizeof_MSGNODE + align) = of_nat (x * ?s)" by simp
    then show ?thesis using b [OF that] by (simp add: unat_of_nat del: of_nat_mult)
  qed
  from e have "unat (of_nat i * (sizeof_MSGNODE + align)) = unat (of_nat j * (sizeof_MSGNODE + align))" by (simp add: node_at_def)
  then show "i = j" using u i assms(2) by simp
qed

lemma mq_free_nodes_shape:
  assumes "mq_shape mq fr (\<lambda>_. [])" and "inj_on (node_at base align) {..<n}" and "set fr \<inter> node_at base align ` {..<n} = {}"
  shows "\<exists>fr'. mq_shape (mq_free_nodes n base align mq) fr' (\<lambda>_. []) \<and> length fr' = n + length fr"
  using assms
proof (induction n base align mq arbitrary: fr rule: mq_free_nodes.induct)
  case (2 n base align mq)
  let ?m = "(MSGNODE_monoManage mq)(base := MSGQUEUE_pmonoFree mq)"
  let ?mq = "mq\<lparr>MSGQUEUE_pmonoFree := Some base, MSGNODE_monoManage := ?m\<rparr>"
  have base: "base = node_at base align 0" by (simp add: node_at_def)
  then have nb: "base \<notin> set fr" using "2.prems"(3) by blast
  have S: "mq_shape ?mq (base # fr) (\<lambda>_. [])"
    using "2.prems"(1) nb list_mono_free_rep [of "MSGNODE_monoManage mq" "MSGQUEUE_pmonoFree mq" fr base]
    by (simp add: mq_shape_def list_mono_free_def pq_all_def mono_rep_def)
  have step: "node_at (base + sizeof_MSGNODE + align) align = (\<lambda>i. node_at base align (Suc i))"
    using node_at_step [of base align] by (simp add: add.assoc fun_eq_iff)
  have I: "inj_on (node_at (base + sizeof_MSGNODE + align) align) {..<n}"
    using "2.prems"(2) unfolding step inj_on_def by (metis Suc_inject Suc_mono lessThan_iff)
  have "node_at base align 0 \<noteq> node_at base align (Suc i)" if "i < n" for i
    using "2.prems"(2) that unfolding inj_on_def by (metis Suc_mono lessThan_iff nat.distinct(1) zero_less_Suc)
  then have D: "set (base # fr) \<inter> node_at (base + sizeof_MSGNODE + align) align ` {..<n} = {}"
    using "2.prems"(3) base unfolding step by fastforce
  from "2.IH" [of "(Some base, ?m)" "Some base" ?m, OF _ refl S I D] show ?case by (simp add: list_mono_free_def)
qed (auto intro: exI)

definition mq_fits :: "ulong \<Rightarrow> msgqueue \<Rightarrow> bool" where
  "mq_fits ulMsgTotal mq \<longleftrightarrow>
     unat ulMsgTotal * unat (sizeof_MSGNODE + ROUND_UP (MSGQUEUE_stMaxBytes mq) sizeof_size_t) \<le> 2 ^ 64 \<and>
     sizeof_MSGNODE + ROUND_UP (MSGQUEUE_stMaxBytes mq) sizeof_size_t \<noteq> 0"

lemma mq_free_nodes_sel [simp]:
  "MSGQUEUE_stMaxBytes (mq_free_nodes n a s mq) = MSGQUEUE_stMaxBytes mq" "MSGQUEUE_pvBuffer (mq_free_nodes n a s mq) = MSGQUEUE_pvBuffer mq"
  by (induction n a s mq rule: mq_free_nodes.induct) (simp_all add: list_mono_free_def)

lemma MsgQueueClear_rep:
  assumes "mq_fits n mq"
  shows "mq_rep (unat n) (MsgQueueClear n mq) (\<lambda>_. [])" "MSGQUEUE_stMaxBytes (MsgQueueClear n mq) = MSGQUEUE_stMaxBytes mq"
    "MSGQUEUE_pvBuffer (MsgQueueClear n mq) = MSGQUEUE_pvBuffer mq"
proof -
  define mq0 where "mq0 = mq\<lparr>MSGQUEUE_pmonoFree := None, MSGQUEUE_uiMap := 0,
    MSGQUEUE_pmonoHeader := (\<lambda>i. if i < EVENT_MSG_Q_PRIO then None else MSGQUEUE_pmonoHeader mq i),
    MSGQUEUE_pmonoTail := (\<lambda>i. if i < EVENT_MSG_Q_PRIO then None else MSGQUEUE_pmonoTail mq i)\<rparr>"
  let ?s = "ROUND_UP (MSGQUEUE_stMaxBytes mq) sizeof_size_t"
  have E: "MsgQueueClear n mq = mq_free_nodes (unat n) (MSGQUEUE_pvBuffer mq) ?s mq0" by (simp add: MsgQueueClear_def mq0_def Let_def cong: if_cong)
  have "mq_shape mq0 [] (\<lambda>_. [])" by (simp add: mq_shape_def mq0_def mono_rep_def last_of_def)
  moreover have "inj_on (node_at (MSGQUEUE_pvBuffer mq) ?s) {..<unat n}"
    using assms by (intro node_at_inj) (auto simp: mq_fits_def unat_gt_0)
  ultimately obtain fr where "mq_shape (MsgQueueClear n mq) fr (\<lambda>_. [])" "length fr = unat n"
    using mq_free_nodes_shape [of mq0 "[]" "MSGQUEUE_pvBuffer mq" ?s "unat n"] by (auto simp: E)
  then show "mq_rep (unat n) (MsgQueueClear n mq) (\<lambda>_. [])"
    unfolding mq_rep_def by (intro exI [of _ fr] exI [of _ "\<lambda>_. []"]) (simp add: fun_eq_iff)
  show "MSGQUEUE_stMaxBytes (MsgQueueClear n mq) = MSGQUEUE_stMaxBytes mq" "MSGQUEUE_pvBuffer (MsgQueueClear n mq) = MSGQUEUE_pvBuffer mq"
    by (simp_all add: E mq0_def)
qed

section \<open>The interface of the buffer\<close>

text \<open>
  What the message queues rely on: with room, a message is put behind those of its priority; a get
  takes the first one. \<open>fits\<close> says which messages the buffer takes.
\<close>

locale msg_buffer =
  fixes rep :: "nat \<Rightarrow> 'b \<Rightarrow> 'm pqueue \<Rightarrow> bool"
    and put :: "nat \<Rightarrow> 'm \<Rightarrow> 'b \<Rightarrow> 'b option"
    and get :: "'b \<Rightarrow> ('m \<times> 'b) option"
    and fits :: "'m \<Rightarrow> bool"
  assumes put_rep: "rep N b q \<Longrightarrow> length (pq_all q) < N \<Longrightarrow> p < EVENT_MSG_Q_PRIO \<Longrightarrow> fits m \<Longrightarrow>
      \<exists>b'. put p m b = Some b' \<and> rep N b' (pq_put p m q)"
    and get_rep: "rep N b q \<Longrightarrow> pq_get q = Some (m, q') \<Longrightarrow> \<exists>b'. get b = Some (m, b') \<and> rep N b' q'"
begin

fun put_all :: "(nat \<times> 'm) list \<Rightarrow> 'b \<Rightarrow> 'b option" where
  "put_all [] b = Some b"
| "put_all ((p, m) # xs) b = do { b \<leftarrow> put p m b; put_all xs b }"

fun get_all :: "nat \<Rightarrow> 'b \<Rightarrow> 'm list option" where
  "get_all 0 b = Some []"
| "get_all (Suc n) b = do { (m, b) \<leftarrow> get b; ms \<leftarrow> get_all n b; Some (m # ms) }"

lemma put_all_rep:
  assumes "rep N b q" and "length (pq_all q) + length xs \<le> N" and "\<forall>(p, m) \<in> set xs. p < EVENT_MSG_Q_PRIO \<and> fits m"
  shows "\<exists>b'. put_all xs b = Some b' \<and> rep N b' (\<lambda>p. q p @ map snd (filter (\<lambda>x. fst x = p) xs))"
  using assms
proof (induction xs arbitrary: b q)
  case (Cons x xs)
  obtain p m where x: "x = (p, m)" by (cases x)
  with Cons.prems have p: "p < EVENT_MSG_Q_PRIO" "fits m" "length (pq_all q) < N" by auto
  from put_rep [OF Cons.prems(1) p(3,1,2)] obtain b1 where B: "put p m b = Some b1" "rep N b1 (pq_put p m q)" by blast
  have "length (pq_all (pq_put p m q)) + length xs \<le> N" using Cons.prems(2) p(1) by (simp add: pq_len_put)
  from Cons.IH [OF B(2) this] Cons.prems(3) obtain b' where
    "put_all xs b1 = Some b'" "rep N b' (\<lambda>r. pq_put p m q r @ map snd (filter (\<lambda>x. fst x = r) xs))" by auto
  moreover have "(\<lambda>r. pq_put p m q r @ map snd (filter (\<lambda>x. fst x = r) xs)) = (\<lambda>r. q r @ map snd (filter (\<lambda>y. fst y = r) (x # xs)))"
    by (auto simp: pq_put_def x fun_eq_iff)
  ultimately show ?case using B(1) by (simp add: x)
qed simp

lemma get_all_rep: "rep N b q \<Longrightarrow> get_all (length (pq_all q)) b = Some (pq_all q)"
proof (induction "pq_all q" arbitrary: b q)
  case (Cons m ms)
  then obtain q' where G: "pq_get q = Some (m, q')" using pq_get_all [of q] by (metis list.distinct(1) list.sel(1))
  then have q: "pq_all q = m # pq_all q'" by (rule pq_get_tl)
  from get_rep [OF Cons.prems G] obtain b' where "get b = Some (m, b')" "rep N b' q'" by blast
  with Cons.hyps(1) [of q' b'] q Cons.hyps(2) show ?case by simp
next
  case Nil
  from Nil(1) [symmetric] show ?case by simp
qed

lemma drain:
  assumes "rep N b (\<lambda>_. [])" and "length xs \<le> N" and "\<forall>(p, m) \<in> set xs. p < EVENT_MSG_Q_PRIO \<and> fits m"
  shows "\<exists>b'. put_all xs b = Some b' \<and> get_all (length xs) b' = Some (concat (map (\<lambda>p. map snd (filter (\<lambda>x. fst x = p) xs)) [0..<EVENT_MSG_Q_PRIO]))"
proof -
  let ?q = "\<lambda>p. map snd (filter (\<lambda>x. fst x = p) xs)"
  from put_all_rep [OF assms(1) _ assms(3)] assms(2) obtain b' where B: "put_all xs b = Some b'" "rep N b' ?q" by auto
  have "length (pq_all ?q) = length xs" using assms(3)
  proof (induction xs)
    case (Cons x xs)
    let ?r = "\<lambda>p. map snd (filter (\<lambda>y. fst y = p) xs)"
    have x: "fst x < EVENT_MSG_Q_PRIO" using Cons.prems by auto
    have "(\<lambda>p. map snd (filter (\<lambda>y. fst y = p) (x # xs))) = ?r(fst x := snd x # ?r (fst x))" by auto
    then show ?case using Cons x by (simp add: pq_all_upd pq_all_split [OF x, of ?r] split_beta)
  qed simp
  with get_all_rep [OF B(2)] B(1) show ?thesis by (auto simp: pq_all_def)
qed

end

text \<open>The messages of a queue with the maximal size \<open>S\<close>; the receiver's buffer is as large.\<close>

definition mq_put :: "nat \<Rightarrow> u8 list \<Rightarrow> msgqueue \<Rightarrow> msgqueue option" where
  "mq_put p m = MsgQueuePut m (of_nat (length m)) p"

definition mq_get :: "ulong \<Rightarrow> msgqueue \<Rightarrow> (u8 list \<times> msgqueue) option" where
  "mq_get S mq = map_option (\<lambda>(m, _, mq). (m, mq)) (MsgQueueGet S mq)"

interpretation mqbuf: msg_buffer "\<lambda>N mq q. mq_rep N mq q \<and> MSGQUEUE_stMaxBytes mq = S" mq_put "mq_get S" "\<lambda>m. length m \<le> unat S"
  for S
proof unfold_locales
  fix N mq p and q q' :: "u8 list pqueue" and m :: "u8 list"
  assume R: "mq_rep N mq q \<and> MSGQUEUE_stMaxBytes mq = S"
  show "\<exists>b'. mq_put p m mq = Some b' \<and> mq_rep N b' (pq_put p m q) \<and> MSGQUEUE_stMaxBytes b' = S"
    if "length (pq_all q) < N" "p < EVENT_MSG_Q_PRIO" and l: "length m \<le> unat S"
  proof -
    have "unat S < 2 ^ 64" using unsigned_less [of S] by simp
    with l have "length m < 2 ^ 64" by linarith
    then have u: "unat (of_nat (length m) :: ulong) = length m" by (simp add: unat_of_nat)
    with l have le: "unat (of_nat (length m) :: ulong) \<le> length m" "of_nat (length m) \<le> MSGQUEUE_stMaxBytes mq"
      using R by (simp_all add: word_le_nat_alt)
    show ?thesis
      by (rule MsgQueuePut_rep [OF _ that(1,2) le]) (use R in \<open>auto simp: mq_put_def u\<close>)
  qed
  show "\<exists>b'. mq_get S mq = Some (m, b') \<and> mq_rep N b' q' \<and> MSGQUEUE_stMaxBytes b' = S" if G: "pq_get q = Some (m, q')"
    by (rule MsgQueueGet_rep [OF conjunct1 [OF R] G, of S]) (use R in \<open>auto simp: mq_get_def\<close>)
qed


end
