(* ===== verification/KernelState.thy ===== *)
theory KernelState
  imports Wakeup MsgBuffer
begin

text \<open>
  The state of the kernel: thread control blocks, processors, the ready tables, the event
  control blocks and the kernel's global variables (\<^verbatim>\<open>kernel/include/k_class.h\<close>,
  \<^verbatim>\<open>k_cpu.h\<close>, \<^verbatim>\<open>k_globalvar.h\<close>), with the accessors of the header macros. The
  configuration is the multi-core one (\<^verbatim>\<open>LW_CFG_SMP_EN\<close> on, no hyper-threading, no
  processor shutdown, argument checks on).

  A thread is its index in the buffer of control blocks, a processor its number, an event its
  index in \<^verbatim>\<open>_K_eventBuffer\<close>. A ring is the list of its nodes from the header on; the
  routines of \<open>ListLink\<close> refine the list operations used here. \<open>K_bug\<close> records that a
  \<^verbatim>\<open>_BugHandle\<close> stop or a dereference of a null pointer was reached.
\<close>

section \<open>Constants\<close>

abbreviation LW_THREAD_STATUS_RDY :: u16 where "LW_THREAD_STATUS_RDY \<equiv> 0"
abbreviation LW_THREAD_STATUS_DELAY :: u16 where "LW_THREAD_STATUS_DELAY \<equiv> 0x0001"
abbreviation LW_THREAD_STATUS_SEM :: u16 where "LW_THREAD_STATUS_SEM \<equiv> 0x0002"
abbreviation LW_THREAD_STATUS_MSGQUEUE :: u16 where "LW_THREAD_STATUS_MSGQUEUE \<equiv> 0x0004"
abbreviation LW_THREAD_STATUS_EVENTSET :: u16 where "LW_THREAD_STATUS_EVENTSET \<equiv> 0x0008"
abbreviation LW_THREAD_STATUS_SIGNAL :: u16 where "LW_THREAD_STATUS_SIGNAL \<equiv> 0x0010"
abbreviation LW_THREAD_STATUS_SUSPEND :: u16 where "LW_THREAD_STATUS_SUSPEND \<equiv> 0x0080"
abbreviation LW_THREAD_STATUS_STOP :: u16 where "LW_THREAD_STATUS_STOP \<equiv> 0x0100"
abbreviation LW_THREAD_STATUS_WDEATH :: u16 where "LW_THREAD_STATUS_WDEATH \<equiv> 0x0200"
abbreviation LW_THREAD_STATUS_VUTEX :: u16 where "LW_THREAD_STATUS_VUTEX \<equiv> 0x8000"
abbreviation LW_THREAD_STATUS_PEND_ANY :: u16 where "LW_THREAD_STATUS_PEND_ANY \<equiv> 0x801e"
abbreviation LW_THREAD_STATUS_WSTAT :: u16 where "LW_THREAD_STATUS_WSTAT \<equiv> 0x0400"

abbreviation LW_OPTION_SCHED_RR :: u8 where "LW_OPTION_SCHED_RR \<equiv> 0"
abbreviation LW_OPTION_SCHED_FIFO :: u8 where "LW_OPTION_SCHED_FIFO \<equiv> 1"
abbreviation LW_OPTION_RESPOND_IMMIEDIA :: u8 where "LW_OPTION_RESPOND_IMMIEDIA \<equiv> 0"
abbreviation LW_OPTION_RESPOND_STANDARD :: u8 where "LW_OPTION_RESPOND_STANDARD \<equiv> 1"
abbreviation LW_SCHED_ACT_INTERRUPT :: u8 where "LW_SCHED_ACT_INTERRUPT \<equiv> 0"
abbreviation LW_SCHED_ACT_OTHER :: u8 where "LW_SCHED_ACT_OTHER \<equiv> 1"
abbreviation LW_PRIO_LOWEST :: u8 where "LW_PRIO_LOWEST \<equiv> 255"

abbreviation LW_TCB_REQ_SUSPEND :: u32 where "LW_TCB_REQ_SUSPEND \<equiv> 1"
abbreviation LW_TCB_REQ_STOP :: u32 where "LW_TCB_REQ_STOP \<equiv> 2"
abbreviation LW_TCB_REQ_WDEATH :: u32 where "LW_TCB_REQ_WDEATH \<equiv> 3"

abbreviation ULONG_MAX :: ulong where "ULONG_MAX \<equiv> 0xffffffffffffffff"
abbreviation LW_OPTION_WAIT_INFINITE :: ulong where "LW_OPTION_WAIT_INFINITE \<equiv> 0xffffffffffffffff"
abbreviation LW_OPTION_NOT_WAIT :: ulong where "LW_OPTION_NOT_WAIT \<equiv> 0"
abbreviation LW_WAIT_TIME_OUT :: u8 where "LW_WAIT_TIME_OUT \<equiv> 1"
abbreviation LW_WAIT_TIME_CLEAR :: u8 where "LW_WAIT_TIME_CLEAR \<equiv> 0"
abbreviation LW_EVENT_DELETE :: u8 where "LW_EVENT_DELETE \<equiv> 1"
abbreviation LW_EVENT_EXIST :: u8 where "LW_EVENT_EXIST \<equiv> 0"
abbreviation LW_SIGNAL_EINTR :: int where "LW_SIGNAL_EINTR \<equiv> 1"
abbreviation LW_SIGNAL_RESTART :: int where "LW_SIGNAL_RESTART \<equiv> 2"
abbreviation PX_ERROR :: int where "PX_ERROR \<equiv> -1"
abbreviation EFAULT :: ulong where "EFAULT \<equiv> 14"
abbreviation LW_PHY_ADDR_INVALID :: ulong where "LW_PHY_ADDR_INVALID \<equiv> 0xffffffffffffffff"

abbreviation LW_OPTION_VUTEX_EQU :: int where "LW_OPTION_VUTEX_EQU \<equiv> 0"
abbreviation LW_OPTION_VUTEX_NOT_EQU :: int where "LW_OPTION_VUTEX_NOT_EQU \<equiv> 1"
abbreviation LW_OPTION_VUTEX_LESS :: int where "LW_OPTION_VUTEX_LESS \<equiv> 2"
abbreviation LW_OPTION_VUTEX_LESS_EQU :: int where "LW_OPTION_VUTEX_LESS_EQU \<equiv> 3"
abbreviation LW_OPTION_VUTEX_GREATER :: int where "LW_OPTION_VUTEX_GREATER \<equiv> 4"
abbreviation LW_OPTION_VUTEX_GREATER_EQU :: int where "LW_OPTION_VUTEX_GREATER_EQU \<equiv> 5"
abbreviation LW_OPTION_VUTEX_AND :: int where "LW_OPTION_VUTEX_AND \<equiv> 6"
abbreviation LW_OPTION_VUTEX_OR :: int where "LW_OPTION_VUTEX_OR \<equiv> 7"
abbreviation LW_OPTION_VUTEX_NOT :: int where "LW_OPTION_VUTEX_NOT \<equiv> 8"
abbreviation LW_OPTION_VUTEX_FLAG_WAKEALL :: u32 where "LW_OPTION_VUTEX_FLAG_WAKEALL \<equiv> 1"
abbreviation LW_OPTION_VUTEX_FLAG_DONTSET :: u32 where "LW_OPTION_VUTEX_FLAG_DONTSET \<equiv> 2"
abbreviation LW_OPTION_VUTEX_FLAG_DEEPWAKE :: u32 where "LW_OPTION_VUTEX_FLAG_DEEPWAKE \<equiv> 4"

abbreviation LW_OPTION_WAIT_PRIORITY :: ulong where "LW_OPTION_WAIT_PRIORITY \<equiv> 0x00010000"
abbreviation LW_OPTION_DELETE_SAFE :: ulong where "LW_OPTION_DELETE_SAFE \<equiv> 0x00020000"
abbreviation LW_OPTION_SIGNAL_INTER :: ulong where "LW_OPTION_SIGNAL_INTER \<equiv> 0x00040000"
abbreviation LW_OPTION_INHERIT_PRIORITY :: ulong where "LW_OPTION_INHERIT_PRIORITY \<equiv> 0x00080000"

abbreviation LW_TYPE_EVENT_UNUSED :: u8 where "LW_TYPE_EVENT_UNUSED \<equiv> 0"
abbreviation LW_TYPE_EVENT_MSGQUEUE :: u8 where "LW_TYPE_EVENT_MSGQUEUE \<equiv> 2"
abbreviation LW_TYPE_EVENT_SEMC :: u8 where "LW_TYPE_EVENT_SEMC \<equiv> 3"
abbreviation LW_TYPE_EVENT_MUTEX :: u8 where "LW_TYPE_EVENT_MUTEX \<equiv> 4"
abbreviation LW_TYPE_EVENT_EVENTSET :: u8 where "LW_TYPE_EVENT_EVENTSET \<equiv> 5"
abbreviation LW_TYPE_EVENT_SEMB :: u8 where "LW_TYPE_EVENT_SEMB \<equiv> 6"

abbreviation OBJECT_THREAD :: u8 where "OBJECT_THREAD \<equiv> 1"
abbreviation OBJECT_SEM_C :: u8 where "OBJECT_SEM_C \<equiv> 3"
abbreviation OBJECT_SEM_B :: u8 where "OBJECT_SEM_B \<equiv> 4"
abbreviation OBJECT_SEM_M :: u8 where "OBJECT_SEM_M \<equiv> 5"

abbreviation OBJECT_MSGQUEUE :: u8 where "OBJECT_MSGQUEUE \<equiv> 7"
abbreviation OBJECT_EVENT_SET :: u8 where "OBJECT_EVENT_SET \<equiv> 8"

abbreviation LW_OPTION_EVENTSET_WAIT_CLR_ALL :: u8 where "LW_OPTION_EVENTSET_WAIT_CLR_ALL \<equiv> 0"
abbreviation LW_OPTION_EVENTSET_WAIT_CLR_ANY :: u8 where "LW_OPTION_EVENTSET_WAIT_CLR_ANY \<equiv> 1"
abbreviation LW_OPTION_EVENTSET_WAIT_SET_ALL :: u8 where "LW_OPTION_EVENTSET_WAIT_SET_ALL \<equiv> 2"
abbreviation LW_OPTION_EVENTSET_WAIT_SET_ANY :: u8 where "LW_OPTION_EVENTSET_WAIT_SET_ANY \<equiv> 3"
abbreviation LW_OPTION_EVENTSET_RETURN_ALL :: ulong where "LW_OPTION_EVENTSET_RETURN_ALL \<equiv> 0x40"
abbreviation LW_OPTION_EVENTSET_RESET :: ulong where "LW_OPTION_EVENTSET_RESET \<equiv> 0x80"
abbreviation LW_OPTION_EVENTSET_RESET_ALL :: ulong where "LW_OPTION_EVENTSET_RESET_ALL \<equiv> 0x100"
abbreviation LW_OPTION_EVENTSET_SET :: ulong where "LW_OPTION_EVENTSET_SET \<equiv> 1"
abbreviation LW_OPTION_EVENTSET_CLR :: ulong where "LW_OPTION_EVENTSET_CLR \<equiv> 0"

abbreviation EINTR :: ulong where "EINTR \<equiv> 4"
abbreviation ERROR_NONE :: ulong where "ERROR_NONE \<equiv> 0"
abbreviation ERROR_KERNEL_PNAME_TOO_LONG :: ulong where "ERROR_KERNEL_PNAME_TOO_LONG \<equiv> 302"
abbreviation ERROR_KERNEL_HANDLE_NULL :: ulong where "ERROR_KERNEL_HANDLE_NULL \<equiv> 303"
abbreviation ERROR_KERNEL_IN_ISR :: ulong where "ERROR_KERNEL_IN_ISR \<equiv> 304"
abbreviation ERROR_EVENT_MAX_COUNTER_NULL :: ulong where "ERROR_EVENT_MAX_COUNTER_NULL \<equiv> 1500"
abbreviation ERROR_EVENT_INIT_COUNTER :: ulong where "ERROR_EVENT_INIT_COUNTER \<equiv> 1501"
abbreviation ERROR_EVENT_NULL :: ulong where "ERROR_EVENT_NULL \<equiv> 1502"
abbreviation ERROR_EVENT_FULL :: ulong where "ERROR_EVENT_FULL \<equiv> 1503"
abbreviation ERROR_EVENT_TYPE :: ulong where "ERROR_EVENT_TYPE \<equiv> 1504"
abbreviation ERROR_EVENT_WAS_DELETED :: ulong where "ERROR_EVENT_WAS_DELETED \<equiv> 1505"
abbreviation ERROR_EVENT_NOT_OWN :: ulong where "ERROR_EVENT_NOT_OWN \<equiv> 1506"
abbreviation ERROR_EVENTSET_FULL :: ulong where "ERROR_EVENTSET_FULL \<equiv> 2001"
abbreviation ERROR_EVENTSET_TYPE :: ulong where "ERROR_EVENTSET_TYPE \<equiv> 2002"
abbreviation ERROR_EVENTSET_WAIT_TYPE :: ulong where "ERROR_EVENTSET_WAIT_TYPE \<equiv> 2003"
abbreviation ERROR_EVENTSET_WAS_DELETED :: ulong where "ERROR_EVENTSET_WAS_DELETED \<equiv> 2004"
abbreviation ERROR_EVENTSET_OPTION :: ulong where "ERROR_EVENTSET_OPTION \<equiv> 2005"
abbreviation ERROR_KERNEL_PNAME_NULL :: ulong where "ERROR_KERNEL_PNAME_NULL \<equiv> 301"
abbreviation ERROR_THREAD_WAIT_TIMEOUT :: ulong where "ERROR_THREAD_WAIT_TIMEOUT \<equiv> 506"

abbreviation ERROR_THREAD_NULL :: ulong where "ERROR_THREAD_NULL \<equiv> 507"
abbreviation ERROR_THREAD_NOT_READY :: ulong where "ERROR_THREAD_NOT_READY \<equiv> 514"
abbreviation ERROR_THREAD_OTHER_DELETE :: ulong where "ERROR_THREAD_OTHER_DELETE \<equiv> 516"
abbreviation ERROR_THREAD_NOT_SLEEP :: ulong where "ERROR_THREAD_NOT_SLEEP \<equiv> 520"

abbreviation LW_SYS_STATUS_RUNNING :: u8 where "LW_SYS_STATUS_RUNNING \<equiv> 1"
abbreviation LW_CFG_MAX_THREADS :: nat where "LW_CFG_MAX_THREADS \<equiv> 500"
abbreviation LW_CFG_MAX_EVENTS :: nat where "LW_CFG_MAX_EVENTS \<equiv> 5000"
abbreviation LW_CFG_MAX_EVENTSETS :: nat where "LW_CFG_MAX_EVENTSETS \<equiv> 500"
abbreviation LW_CFG_OBJECT_NAME_SIZE :: nat where "LW_CFG_OBJECT_NAME_SIZE \<equiv> 32"
abbreviation LW_CFG_PROCESSOR_NUMBER :: u16 where "LW_CFG_PROCESSOR_NUMBER \<equiv> 1"
abbreviation LW_OBJECT_HANDLE_INVALID :: ulong where "LW_OBJECT_HANDLE_INVALID \<equiv> 0"
abbreviation EDEADLK :: ulong where "EDEADLK \<equiv> 33"
abbreviation LW_OPTION_NORMAL :: ulong where "LW_OPTION_NORMAL \<equiv> 0x00100000"
abbreviation LW_OPTION_ERRORCHECK :: ulong where "LW_OPTION_ERRORCHECK \<equiv> 0x00200000"
abbreviation ERROR_THREAD_PRIORITY_WRONG :: ulong where "ERROR_THREAD_PRIORITY_WRONG \<equiv> 505"
abbreviation EVENT_Q_SIZE :: nat where "EVENT_Q_SIZE \<equiv> 8"
abbreviation EVENT_Q_SHIFT :: nat where "EVENT_Q_SHIFT \<equiv> 5"
abbreviation EVENT_SEM_Q :: nat where "EVENT_SEM_Q \<equiv> 0"


abbreviation E2BIG :: ulong where "E2BIG \<equiv> 7"
abbreviation ERROR_KERNEL_LOW_MEMORY :: ulong where "ERROR_KERNEL_LOW_MEMORY \<equiv> 308"
abbreviation ERROR_MSGQUEUE_MAX_COUNTER_NULL :: ulong where "ERROR_MSGQUEUE_MAX_COUNTER_NULL \<equiv> 2500"
abbreviation ERROR_MSGQUEUE_MAX_LEN_NULL :: ulong where "ERROR_MSGQUEUE_MAX_LEN_NULL \<equiv> 2501"
abbreviation ERROR_MSGQUEUE_FULL :: ulong where "ERROR_MSGQUEUE_FULL \<equiv> 2502"
abbreviation ERROR_MSGQUEUE_TYPE :: ulong where "ERROR_MSGQUEUE_TYPE \<equiv> 2504"
abbreviation ERROR_MSGQUEUE_WAS_DELETED :: ulong where "ERROR_MSGQUEUE_WAS_DELETED \<equiv> 2505"
abbreviation ERROR_MSGQUEUE_MSG_NULL :: ulong where "ERROR_MSGQUEUE_MSG_NULL \<equiv> 2506"
abbreviation ERROR_MSGQUEUE_MSG_LEN :: ulong where "ERROR_MSGQUEUE_MSG_LEN \<equiv> 2507"
abbreviation ERROR_MSGQUEUE_OPTION :: ulong where "ERROR_MSGQUEUE_OPTION \<equiv> 2508"
abbreviation LW_OPTION_DEFAULT :: ulong where "LW_OPTION_DEFAULT \<equiv> 0"
abbreviation LW_OPTION_URGENT :: ulong where "LW_OPTION_URGENT \<equiv> 1"
abbreviation LW_OPTION_BROADCAST :: ulong where "LW_OPTION_BROADCAST \<equiv> 2"
abbreviation LW_OPTION_NOERROR :: ulong where "LW_OPTION_NOERROR \<equiv> 0x00400000"
abbreviation EVENT_MSG_Q_R :: nat where "EVENT_MSG_Q_R \<equiv> 0"
abbreviation EVENT_MSG_Q_S :: nat where "EVENT_MSG_Q_S \<equiv> 1"
abbreviation LW_CFG_MAX_MSGQUEUES :: nat where "LW_CFG_MAX_MSGQUEUES \<equiv> 500"

section \<open>Control blocks\<close>

type_synonym tid = nat

text \<open>
  \<^verbatim>\<open>LW_CLASS_EVENTSETNODE\<close>: what a thread that waits for an event set waits for. The node
  lives on the stack of the waiting thread, which names it here.
\<close>

record esn =
  EVENTSETNODE_pesEventSet :: nat
  EVENTSETNODE_ulEventSets :: ulong
  EVENTSETNODE_ucWaitType :: u8

text \<open>\<^verbatim>\<open>LW_VUTEX_CONTEXT\<close>; no address is \<^verbatim>\<open>LW_PHY_ADDR_INVALID\<close>.\<close>

record vutex =
  VUTEX_bWakeAll :: bool
  VUTEX_iCompare :: int
  VUTEX_iDesired :: u32 \<comment> \<open>a signed \<^verbatim>\<open>INT32\<close>\<close>
  VUTEX_uiHash :: nat
  VUTEX_phyaddr :: "ulong option"

text \<open>\<^verbatim>\<open>LW_CLASS_TCB\<close>, the fields the modelled code reads or writes.\<close>

record tcb =
  TCB_ulId :: ulong
  TCB_iSchedRet :: int
  TCB_ulLastError :: ulong
  TCB_ulOption :: ulong
  TCB_ulDelay :: ulong \<comment> \<open>\<^verbatim>\<open>TCB_wunDelay.WUN_ulCounter\<close>\<close>
  TCB_bDelayInQ :: bool \<comment> \<open>\<^verbatim>\<open>TCB_wunDelay.WUN_bInQ\<close>\<close>
  TCB_iPendQ :: nat
  TCB_peventPtr :: "nat option"
  TCB_ppringPriorityQueue :: "nat \<times> nat" \<comment> \<open>the wait queue of the event and the index in \<^verbatim>\<open>WL_pringPrio\<close>\<close>
  TCB_bCPULock :: bool
  TCB_ulCPULock :: nat
  TCB_ulCPUId :: nat
  TCB_bIsCand :: bool
  TCB_ptcbWaitStatus :: "tid option"
  TCB_plineStatusReqHeader :: "tid list"
  TCB_uiStatusChangeReq :: u32
  TCB_ulStopNesting :: ulong
  TCB_ucSchedPolicy :: u8
  TCB_ucSchedActivate :: u8
  TCB_ucSchedActivateMode :: u8
  TCB_usSchedSlice :: u16
  TCB_usSchedCounter :: u16
  TCB_ucPriority :: u8
  TCB_usStatus :: u16
  TCB_ucWaitTimeout :: u8
  TCB_ucIsEventDelete :: u8
  TCB_ulSuspendNesting :: ulong
  TCB_iDeleteProcStatus :: int
  TCB_pvMsgBoxMessage :: ulong
  TCB_pesnPtr :: "esn option"
  TCB_ulEventSets :: ulong
  TCB_vutex :: vutex
  TCB_ulThreadLockCounter :: ulong
  TCB_ulThreadSafeCounter :: ulong
  TCB_usIndex :: u16
  TCB_ptcbDeleteMe :: "tid option option" \<comment> \<open>\<open>None\<close> is \<^verbatim>\<open>LW_NULL\<close>, \<open>Some None\<close> the pointer value 1\<close>
  TCB_ptcbDeleteWait :: "tid option"
  TCB_bRestartReq :: bool
  TCB_pvMsgQueueMessage :: "u8 list" \<comment> \<open>the bytes of the receiver's buffer\<close>
  TCB_stMaxByteSize :: ulong
  TCB_pstMsgByteSize :: ulong \<comment> \<open>the receiver's \<^verbatim>\<open>size_t\<close> the pointer leads to\<close>
  TCB_ulRecvOption :: ulong

text \<open>\<^verbatim>\<open>LW_CLASS_PCBBMAP\<close>: a priority bitmap and one ready ring per priority.\<close>

record pcbbmap =
  PCBM_bmap :: bmap
  PCBM_pcb :: "u8 \<Rightarrow> tid list"

record cpu =
  CPU_ptcbTCBCur :: "tid option"
  CPU_ptcbTCBHigh :: "tid option"
  CPU_bIsIntSwitch :: bool
  CAND_ptcbCand :: "tid option"
  CAND_bNeedRotate :: bool
  CPU_iKernelCounter :: nat
  CPU_pcbbmapReady :: pcbbmap
  CPU_bOnlyAffinity :: bool
  CPU_bSchedIpiPend :: bool \<comment> \<open>the \<^verbatim>\<open>LW_IPI_SCHED\<close> bit of \<^verbatim>\<open>CPU_iIPIPend\<close>\<close>
  CPU_bActive :: bool \<comment> \<open>the \<^verbatim>\<open>LW_CPU_STATUS_ACTIVE\<close> bit of \<^verbatim>\<open>CPU_ulStatus\<close>\<close>
  CPU_ulInterNesting :: ulong
  CPU_ulInterError :: "ulong \<Rightarrow> ulong"

text \<open>
  \<^verbatim>\<open>LW_CLASS_WAITQUEUE\<close>: the union of one FIFO ring and eight priority rings (the FIFO ring
  lies over the first priority ring), and the number of waiting threads.
\<close>

record waitq =
  WL_pring :: "nat \<Rightarrow> tid list"
  WQ_usNum :: u16

record event =
  EVENT_ucType :: u8
  EVENT_pvTcbOwn :: "tid option"
  EVENT_ulCounter :: ulong
  EVENT_ulMaxCounter :: ulong
  EVENT_iStatus :: nat
  EVENT_ulOption :: ulong
  EVENT_ucCeilingPriority :: u8
  EVENT_pvPtr :: ulong
  EVENT_wqWaitQ :: "nat \<Rightarrow> waitq"
  EVENT_usIndex :: u16
  EVENT_cEventName :: string

record eventset =
  EVENTSET_ucType :: u8
  EVENTSET_plineWaitList :: "tid list"
  EVENTSET_ulEventSets :: ulong
  EVENTSET_ulOption :: ulong
  EVENTSET_usIndex :: u16
  EVENTSET_cEventSetName :: string

text \<open>\<^verbatim>\<open>LW_CLASS_OBJECT_RESRC\<close>: a pool of free control blocks and its usage.\<close>

record resrc =
  RESRC_free :: "nat list"
  RESRC_uiUsed :: u32
  RESRC_uiMaxUsed :: u32

text \<open>
  \<^verbatim>\<open>LW_CLASS_PARTITION\<close>; the partitions, the pool of their control blocks, and the links in the memory of
  the blocks, by the address of a block (a null link is \<open>None\<close>).
\<close>

record partition =
  PARTITION_ucType :: u8
  PARTITION_pmonoFreeBlockList :: "ulong option"
  PARTITION_stBlockByteSize :: ulong
  PARTITION_ulBlockCounter :: ulong
  PARTITION_ulFreeBlockCounter :: ulong
  PARTITION_usIndex :: u16
  PARTITION_cPatitionName :: string

record parts =
  K_partBuffer :: "nat \<Rightarrow> partition"
  K_resrcPart :: resrc
  PART_link :: "ulong mono_mem"

record kernel =
  K_tcb :: "tid \<Rightarrow> tcb"
  K_cpu :: "nat \<Rightarrow> cpu"
  K_ncpus :: nat
  K_curcpu :: nat
  K_pcbbmapGlobalReady :: pcbbmap
  K_ptcbTCBIdTable :: "nat \<Rightarrow> tid option"
  K_wuDelay :: wakeup
  K_i64KernelTime :: ulong
  K_eventBuffer :: "nat \<Rightarrow> event"
  K_resrcEvent :: resrc
  K_esBuffer :: "nat \<Rightarrow> eventset"
  K_resrcEventSet :: resrc
  k_plineVutexHashHeader :: "nat \<Rightarrow> tid list"
  k_plineVutexOp :: "tid option"
  K_mem :: "ulong \<Rightarrow> u32" \<comment> \<open>the \<^verbatim>\<open>INT\<close> variables of the threads, by address\<close>
  K_ulNotRunError :: ulong
  K_ucSysStatus :: u8
  K_msgqueueBuffer :: "nat \<Rightarrow> msgqueue"
  K_resrcMsgQueue :: resrc
  K_parts :: parts
  K_bug :: bool

section \<open>Accessors\<close>

definition tcb_upd :: "tid \<Rightarrow> (tcb \<Rightarrow> tcb) \<Rightarrow> kernel \<Rightarrow> kernel" where
  "tcb_upd t f k = k\<lparr>K_tcb := (K_tcb k)(t := f (K_tcb k t))\<rparr>"

definition cpu_upd :: "nat \<Rightarrow> (cpu \<Rightarrow> cpu) \<Rightarrow> kernel \<Rightarrow> kernel" where
  "cpu_upd c f k = k\<lparr>K_cpu := (K_cpu k)(c := f (K_cpu k c))\<rparr>"

definition event_upd :: "nat \<Rightarrow> (event \<Rightarrow> event) \<Rightarrow> kernel \<Rightarrow> kernel" where
  "event_upd e f k = k\<lparr>K_eventBuffer := (K_eventBuffer k)(e := f (K_eventBuffer k e))\<rparr>"

definition es_upd :: "nat \<Rightarrow> (eventset \<Rightarrow> eventset) \<Rightarrow> kernel \<Rightarrow> kernel" where
  "es_upd s f k = k\<lparr>K_esBuffer := (K_esBuffer k)(s := f (K_esBuffer k s))\<rparr>"

definition bug :: "kernel \<Rightarrow> kernel" where
  "bug k = k\<lparr>K_bug := True\<rparr>"

text \<open>A ready table: the global one, or that of one processor.\<close>

type_synonym rdy_loc = "nat option"

definition rdy_pcbbmap :: "kernel \<Rightarrow> rdy_loc \<Rightarrow> pcbbmap" where
  "rdy_pcbbmap k l = (case l of None \<Rightarrow> K_pcbbmapGlobalReady k | Some c \<Rightarrow> CPU_pcbbmapReady (K_cpu k c))"

definition rdy_upd :: "rdy_loc \<Rightarrow> (pcbbmap \<Rightarrow> pcbbmap) \<Rightarrow> kernel \<Rightarrow> kernel" where
  "rdy_upd l f k = (case l of
      None \<Rightarrow> k\<lparr>K_pcbbmapGlobalReady := f (K_pcbbmapGlobalReady k)\<rparr>
    | Some c \<Rightarrow> cpu_upd c (\<lambda>p. p\<lparr>CPU_pcbbmapReady := f (CPU_pcbbmapReady p)\<rparr>) k)"

definition rbmap :: "kernel \<Rightarrow> rdy_loc \<Rightarrow> bmap" where
  "rbmap k l = PCBM_bmap (rdy_pcbbmap k l)"

text \<open>\<^verbatim>\<open>LW_CLASS_PCB\<close> pointers: a ready table and a priority.\<close>

type_synonym ppcb = "rdy_loc \<times> u8"

definition rring :: "kernel \<Rightarrow> ppcb \<Rightarrow> tid list" where
  "rring k p = PCBM_pcb (rdy_pcbbmap k (fst p)) (snd p)"

definition rring_upd :: "ppcb \<Rightarrow> (tid list \<Rightarrow> tid list) \<Rightarrow> kernel \<Rightarrow> kernel" where
  "rring_upd p f = rdy_upd (fst p) (\<lambda>b. b\<lparr>PCBM_pcb := (PCBM_pcb b)(snd p := f (PCBM_pcb b (snd p)))\<rparr>)"

definition rbmap_upd :: "rdy_loc \<Rightarrow> (bmap \<Rightarrow> bmap) \<Rightarrow> kernel \<Rightarrow> kernel" where
  "rbmap_upd l f = rdy_upd l (\<lambda>b. b\<lparr>PCBM_bmap := f (PCBM_bmap b)\<rparr>)"

definition LW_CAND_TCB :: "kernel \<Rightarrow> nat \<Rightarrow> tid option" where
  "LW_CAND_TCB k c = CAND_ptcbCand (K_cpu k c)"

definition LW_CAND_ROT :: "kernel \<Rightarrow> nat \<Rightarrow> bool" where
  "LW_CAND_ROT k c = CAND_bNeedRotate (K_cpu k c)"

definition set_cand :: "nat \<Rightarrow> tid option \<Rightarrow> kernel \<Rightarrow> kernel" where
  "set_cand c v = cpu_upd c (\<lambda>p. p\<lparr>CAND_ptcbCand := v\<rparr>)"

definition set_rot :: "nat \<Rightarrow> bool \<Rightarrow> kernel \<Rightarrow> kernel" where
  "set_rot c v = cpu_upd c (\<lambda>p. p\<lparr>CAND_bNeedRotate := v\<rparr>)"

definition prio :: "kernel \<Rightarrow> tid \<Rightarrow> u8" where
  "prio k t = TCB_ucPriority (K_tcb k t)"

definition LW_THREAD_IS_READY :: "kernel \<Rightarrow> tid \<Rightarrow> bool" where
  "LW_THREAD_IS_READY k t \<longleftrightarrow> TCB_usStatus (K_tcb k t) = LW_THREAD_STATUS_RDY"

definition LW_THREAD_IS_RUNNING :: "kernel \<Rightarrow> tid \<Rightarrow> bool" where
  "LW_THREAD_IS_RUNNING k t \<longleftrightarrow> CPU_ptcbTCBCur (K_cpu k (TCB_ulCPUId (K_tcb k t))) = Some t"

text \<open>The thread that runs on the current processor.\<close>

definition LW_TCB_GET_CUR :: "kernel \<Rightarrow> tid" where
  "LW_TCB_GET_CUR k = the (CPU_ptcbTCBCur (K_cpu k (K_curcpu k)))"

definition CpuGetNesting :: "kernel \<Rightarrow> ulong" where
  "CpuGetNesting k = CPU_ulInterNesting (K_cpu k (K_curcpu k))"

definition GetPcbEx :: "kernel \<Rightarrow> tid \<Rightarrow> u8 \<Rightarrow> ppcb" where
  "GetPcbEx k t ucPriority =
     (if TCB_bCPULock (K_tcb k t) then (Some (TCB_ulCPULock (K_tcb k t)), ucPriority)
      else (None, ucPriority))"

definition GetPcb :: "kernel \<Rightarrow> tid \<Rightarrow> ppcb" where
  "GetPcb k t =
     (if TCB_bCPULock (K_tcb k t) then (Some (TCB_ulCPULock (K_tcb k t)), TCB_ucPriority (K_tcb k t))
      else (None, TCB_ucPriority (K_tcb k t)))"

definition PcbIsEmpty :: "kernel \<Rightarrow> ppcb \<Rightarrow> bool" where
  "PcbIsEmpty k p \<longleftrightarrow> rring k p = []"

definition PcbIsOne :: "kernel \<Rightarrow> ppcb \<Rightarrow> bool" where
  "PcbIsOne k p \<longleftrightarrow> (case rring k p of [] \<Rightarrow> False | h # t \<Rightarrow> head_of (t @ [h]) = Some h)"

definition ErrorHandle :: "ulong \<Rightarrow> kernel \<Rightarrow> kernel" where
  "ErrorHandle ulErrorCode k =
     (if ulErrorCode = 0 then k
      else let c = K_curcpu k; n = CPU_ulInterNesting (K_cpu k c) in
        if n \<noteq> 0 then cpu_upd c (\<lambda>p. p\<lparr>CPU_ulInterError := (CPU_ulInterError p)(n := ulErrorCode)\<rparr>) k
        else (case CPU_ptcbTCBCur (K_cpu k c) of
                Some t \<Rightarrow> tcb_upd t (\<lambda>b. b\<lparr>TCB_ulLastError := ulErrorCode\<rparr>) k
              | None \<Rightarrow> k\<lparr>K_ulNotRunError := ulErrorCode\<rparr>))"

section \<open>Object identifiers\<close>

text \<open>
  \<^verbatim>\<open>ucCls << 26\<close> is computed in a 32-bit \<^verbatim>\<open>int\<close> and sign-extended to \<^verbatim>\<open>ULONG\<close>.
\<close>

definition MakeObjectId :: "u8 \<Rightarrow> u16 \<Rightarrow> u16 \<Rightarrow> ulong" where
  "MakeObjectId ucCls usNode usIndex =
     scast (push_bit 26 (ucast ucCls) :: u32) OR scast (push_bit 16 (ucast usNode) :: u32) OR ucast usIndex"

definition ObjectGetIndex :: "ulong \<Rightarrow> u16" where
  "ObjectGetIndex ulId = ucast (ulId AND 0x0000ffff)"

definition ObjectGetNode :: "ulong \<Rightarrow> ulong" where
  "ObjectGetNode ulId = drop_bit 16 ulId AND 0x03ff"

definition ObjectGetClass :: "ulong \<Rightarrow> ulong" where
  "ObjectGetClass ulId = drop_bit 26 ulId AND 0x3f"

definition ObjectClassOK :: "ulong \<Rightarrow> u8 \<Rightarrow> bool" where
  "ObjectClassOK ulId ucClass \<longleftrightarrow> drop_bit 26 ulId AND 0x3f = ucast ucClass"

section \<open>Frame facts\<close>

lemma tcb_upd_sel [simp]:
  "K_tcb (tcb_upd t f k) = (K_tcb k)(t := f (K_tcb k t))"
  "K_cpu (tcb_upd t f k) = K_cpu k" "K_ncpus (tcb_upd t f k) = K_ncpus k"
  "K_curcpu (tcb_upd t f k) = K_curcpu k" "K_pcbbmapGlobalReady (tcb_upd t f k) = K_pcbbmapGlobalReady k"
  "K_wuDelay (tcb_upd t f k) = K_wuDelay k" "K_i64KernelTime (tcb_upd t f k) = K_i64KernelTime k"
  "K_eventBuffer (tcb_upd t f k) = K_eventBuffer k" "K_resrcEvent (tcb_upd t f k) = K_resrcEvent k"
  "K_ptcbTCBIdTable (tcb_upd t f k) = K_ptcbTCBIdTable k" "K_esBuffer (tcb_upd t f k) = K_esBuffer k" "K_resrcEventSet (tcb_upd t f k) = K_resrcEventSet k" "k_plineVutexHashHeader (tcb_upd t f k) = k_plineVutexHashHeader k" "k_plineVutexOp (tcb_upd t f k) = k_plineVutexOp k"
  "K_ulNotRunError (tcb_upd t f k) = K_ulNotRunError k" "K_ucSysStatus (tcb_upd t f k) = K_ucSysStatus k" "K_bug (tcb_upd t f k) = K_bug k"
  by (simp_all add: tcb_upd_def)

lemma cpu_upd_sel [simp]:
  "K_cpu (cpu_upd c f k) = (K_cpu k)(c := f (K_cpu k c))"
  "K_tcb (cpu_upd c f k) = K_tcb k" "K_ncpus (cpu_upd c f k) = K_ncpus k"
  "K_curcpu (cpu_upd c f k) = K_curcpu k" "K_pcbbmapGlobalReady (cpu_upd c f k) = K_pcbbmapGlobalReady k"
  "K_wuDelay (cpu_upd c f k) = K_wuDelay k" "K_i64KernelTime (cpu_upd c f k) = K_i64KernelTime k"
  "K_eventBuffer (cpu_upd c f k) = K_eventBuffer k" "K_resrcEvent (cpu_upd c f k) = K_resrcEvent k"
  "K_ptcbTCBIdTable (cpu_upd c f k) = K_ptcbTCBIdTable k" "K_esBuffer (cpu_upd c f k) = K_esBuffer k" "K_resrcEventSet (cpu_upd c f k) = K_resrcEventSet k" "k_plineVutexHashHeader (cpu_upd c f k) = k_plineVutexHashHeader k" "k_plineVutexOp (cpu_upd c f k) = k_plineVutexOp k"
  "K_ulNotRunError (cpu_upd c f k) = K_ulNotRunError k" "K_ucSysStatus (cpu_upd c f k) = K_ucSysStatus k" "K_bug (cpu_upd c f k) = K_bug k"
  by (simp_all add: cpu_upd_def)

lemma event_upd_sel [simp]:
  "K_eventBuffer (event_upd e f k) = (K_eventBuffer k)(e := f (K_eventBuffer k e))"
  "K_tcb (event_upd e f k) = K_tcb k" "K_cpu (event_upd e f k) = K_cpu k" "K_ncpus (event_upd e f k) = K_ncpus k"
  "K_curcpu (event_upd e f k) = K_curcpu k" "K_pcbbmapGlobalReady (event_upd e f k) = K_pcbbmapGlobalReady k"
  "K_wuDelay (event_upd e f k) = K_wuDelay k" "K_i64KernelTime (event_upd e f k) = K_i64KernelTime k"
  "K_resrcEvent (event_upd e f k) = K_resrcEvent k"
  "K_ptcbTCBIdTable (event_upd e f k) = K_ptcbTCBIdTable k" "K_esBuffer (event_upd e f k) = K_esBuffer k" "K_resrcEventSet (event_upd e f k) = K_resrcEventSet k" "k_plineVutexHashHeader (event_upd e f k) = k_plineVutexHashHeader k" "k_plineVutexOp (event_upd e f k) = k_plineVutexOp k"
  "K_ulNotRunError (event_upd e f k) = K_ulNotRunError k" "K_ucSysStatus (event_upd e f k) = K_ucSysStatus k" "K_bug (event_upd e f k) = K_bug k"
  by (simp_all add: event_upd_def)

lemma es_upd_sel [simp]:
  "K_esBuffer (es_upd e f k) = (K_esBuffer k)(e := f (K_esBuffer k e))"
  "K_tcb (es_upd e f k) = K_tcb k" "K_cpu (es_upd e f k) = K_cpu k" "K_ncpus (es_upd e f k) = K_ncpus k"
  "K_curcpu (es_upd e f k) = K_curcpu k" "K_pcbbmapGlobalReady (es_upd e f k) = K_pcbbmapGlobalReady k"
  "K_wuDelay (es_upd e f k) = K_wuDelay k" "K_i64KernelTime (es_upd e f k) = K_i64KernelTime k"
  "K_resrcEvent (es_upd e f k) = K_resrcEvent k" "K_eventBuffer (es_upd e f k) = K_eventBuffer k"
  "K_ptcbTCBIdTable (es_upd e f k) = K_ptcbTCBIdTable k" "K_resrcEventSet (es_upd e f k) = K_resrcEventSet k"
  "k_plineVutexHashHeader (es_upd e f k) = k_plineVutexHashHeader k" "k_plineVutexOp (es_upd e f k) = k_plineVutexOp k"
  "K_ulNotRunError (es_upd e f k) = K_ulNotRunError k" "K_ucSysStatus (es_upd e f k) = K_ucSysStatus k" "K_bug (es_upd e f k) = K_bug k"
  by (simp_all add: es_upd_def)

lemma rdy_upd_sel [simp]:
  "K_tcb (rdy_upd l f k) = K_tcb k" "K_ncpus (rdy_upd l f k) = K_ncpus k"
  "K_curcpu (rdy_upd l f k) = K_curcpu k"
  "K_wuDelay (rdy_upd l f k) = K_wuDelay k" "K_i64KernelTime (rdy_upd l f k) = K_i64KernelTime k"
  "K_eventBuffer (rdy_upd l f k) = K_eventBuffer k" "K_resrcEvent (rdy_upd l f k) = K_resrcEvent k"
  "K_ptcbTCBIdTable (rdy_upd l f k) = K_ptcbTCBIdTable k" "K_esBuffer (rdy_upd l f k) = K_esBuffer k" "K_resrcEventSet (rdy_upd l f k) = K_resrcEventSet k" "k_plineVutexHashHeader (rdy_upd l f k) = k_plineVutexHashHeader k" "k_plineVutexOp (rdy_upd l f k) = k_plineVutexOp k"
  "K_ulNotRunError (rdy_upd l f k) = K_ulNotRunError k" "K_ucSysStatus (rdy_upd l f k) = K_ucSysStatus k" "K_bug (rdy_upd l f k) = K_bug k"
  by (simp_all add: rdy_upd_def split: option.splits)

lemma mem_sel [simp]:
  "K_mem (tcb_upd t f k) = K_mem k" "K_mem (cpu_upd c g k) = K_mem k" "K_mem (event_upd e h k) = K_mem k"
  "K_mem (es_upd s i k) = K_mem k" "K_mem (rdy_upd l j k) = K_mem k" "K_mem (bug k) = K_mem k"
  by (simp_all add: tcb_upd_def cpu_upd_def event_upd_def es_upd_def rdy_upd_def bug_def split: option.splits)

lemma rdy_upd_cpu [simp]:
  "CPU_ptcbTCBCur (K_cpu (rdy_upd l f k) c) = CPU_ptcbTCBCur (K_cpu k c)"
  "CPU_ptcbTCBHigh (K_cpu (rdy_upd l f k) c) = CPU_ptcbTCBHigh (K_cpu k c)"
  "CPU_bIsIntSwitch (K_cpu (rdy_upd l f k) c) = CPU_bIsIntSwitch (K_cpu k c)"
  "CAND_ptcbCand (K_cpu (rdy_upd l f k) c) = CAND_ptcbCand (K_cpu k c)"
  "CAND_bNeedRotate (K_cpu (rdy_upd l f k) c) = CAND_bNeedRotate (K_cpu k c)"
  "CPU_iKernelCounter (K_cpu (rdy_upd l f k) c) = CPU_iKernelCounter (K_cpu k c)"
  "CPU_bOnlyAffinity (K_cpu (rdy_upd l f k) c) = CPU_bOnlyAffinity (K_cpu k c)"
  "CPU_bSchedIpiPend (K_cpu (rdy_upd l f k) c) = CPU_bSchedIpiPend (K_cpu k c)"
  "CPU_bActive (K_cpu (rdy_upd l f k) c) = CPU_bActive (K_cpu k c)"
  "CPU_ulInterNesting (K_cpu (rdy_upd l f k) c) = CPU_ulInterNesting (K_cpu k c)"
  by (simp_all add: rdy_upd_def split: option.splits)

lemma rdy_pcbbmap_upd [simp]:
  "rdy_pcbbmap (rdy_upd l f k) l' = (if l' = l then f (rdy_pcbbmap k l) else rdy_pcbbmap k l')"
  by (auto simp: rdy_pcbbmap_def rdy_upd_def split: option.splits)

lemma rdy_pcbbmap_tcb [simp]: "rdy_pcbbmap (tcb_upd t f k) l = rdy_pcbbmap k l"
  by (simp add: rdy_pcbbmap_def split: option.splits)

lemma rdy_pcbbmap_event [simp]: "rdy_pcbbmap (event_upd t f k) l = rdy_pcbbmap k l"
  by (simp add: rdy_pcbbmap_def split: option.splits)

lemma rdy_pcbbmap_cpu [simp]:
  "(\<And>p. CPU_pcbbmapReady (f p) = CPU_pcbbmapReady p) \<Longrightarrow> rdy_pcbbmap (cpu_upd c f k) l = rdy_pcbbmap k l"
  by (simp add: rdy_pcbbmap_def split: option.splits)

lemma bug_sel [simp]:
  "K_tcb (bug k) = K_tcb k" "K_cpu (bug k) = K_cpu k" "K_ncpus (bug k) = K_ncpus k"
  "K_curcpu (bug k) = K_curcpu k" "K_eventBuffer (bug k) = K_eventBuffer k" "K_wuDelay (bug k) = K_wuDelay k"
  "K_resrcEvent (bug k) = K_resrcEvent k" "K_i64KernelTime (bug k) = K_i64KernelTime k" "K_bug (bug k)"
  "rdy_pcbbmap (bug k) l = rdy_pcbbmap k l"
  "K_ptcbTCBIdTable (bug k) = K_ptcbTCBIdTable k" "K_esBuffer (bug k) = K_esBuffer k" "K_resrcEventSet (bug k) = K_resrcEventSet k" "k_plineVutexHashHeader (bug k) = k_plineVutexHashHeader k" "k_plineVutexOp (bug k) = k_plineVutexOp k"
  by (simp_all add: bug_def rdy_pcbbmap_def split: option.splits)

lemmas ready_view_defs = rring_def rbmap_def rring_upd_def rbmap_upd_def set_cand_def set_rot_def
  LW_CAND_TCB_def LW_CAND_ROT_def prio_def

lemma msgqueue_frame [simp]:
  "K_msgqueueBuffer (tcb_upd t f k) = K_msgqueueBuffer k" "K_resrcMsgQueue (tcb_upd t f k) = K_resrcMsgQueue k"
  "K_msgqueueBuffer (cpu_upd c g k) = K_msgqueueBuffer k" "K_resrcMsgQueue (cpu_upd c g k) = K_resrcMsgQueue k"
  "K_msgqueueBuffer (event_upd e h k) = K_msgqueueBuffer k" "K_resrcMsgQueue (event_upd e h k) = K_resrcMsgQueue k"
  "K_msgqueueBuffer (es_upd e h1 k) = K_msgqueueBuffer k" "K_resrcMsgQueue (es_upd e h1 k) = K_resrcMsgQueue k"
  "K_msgqueueBuffer (rdy_upd l h2 k) = K_msgqueueBuffer k" "K_resrcMsgQueue (rdy_upd l h2 k) = K_resrcMsgQueue k"
  "K_msgqueueBuffer (bug k) = K_msgqueueBuffer k" "K_resrcMsgQueue (bug k) = K_resrcMsgQueue k"
  by (simp_all add: tcb_upd_def cpu_upd_def event_upd_def es_upd_def rdy_upd_def bug_def split: option.split)

end
