(* ===== verification/CandTable.thy ===== *)
theory CandTable
  imports KernelState
begin

text \<open>
  The ready rings (\<^verbatim>\<open>_ReadyRing.c\<close>), the ready tables (\<^verbatim>\<open>_ReadyTableLib.c\<close>) and the
  table of candidate threads, one per processor (\<^verbatim>\<open>_CandTable.c\<close>). The invariant
  \<open>rdy_inv S\<close> says that exactly the threads of \<open>S\<close> are held by the tables: each one
  either is the candidate of one processor or stands once in the ring of its priority, and
  every bitmap bit says whether its ring is empty.
\<close>

section \<open>Ready rings and ready tables\<close>

definition AddTCBToReadyRing :: "tid \<Rightarrow> ppcb \<Rightarrow> bool \<Rightarrow> kernel \<Rightarrow> kernel" where
  "AddTCBToReadyRing ptcb ppcb bIsHeader k =
     (if bIsHeader then rring_upd ppcb (ring_add_ahead ptcb) k
      else if TCB_ucSchedPolicy (K_tcb k ptcb) = LW_OPTION_SCHED_FIFO then
        rring_upd ppcb (ring_add_last ptcb) k
      else if TCB_ucSchedActivateMode (K_tcb k ptcb) = LW_OPTION_RESPOND_IMMIEDIA then
        rring_upd ppcb (ring_add_front ptcb) k
      else if TCB_ucSchedActivateMode (K_tcb k ptcb) = LW_OPTION_RESPOND_STANDARD then
        rring_upd ppcb (ring_add_last ptcb) k
      else if TCB_ucSchedActivate (K_tcb k ptcb) = LW_SCHED_ACT_OTHER then
        rring_upd ppcb (ring_add_last ptcb) k
      else rring_upd ppcb (ring_add_front ptcb) k)"

definition DelTCBFromReadyRing :: "tid \<Rightarrow> ppcb \<Rightarrow> kernel \<Rightarrow> kernel" where
  "DelTCBFromReadyRing ptcb ppcb k = rring_upd ppcb (ring_del ptcb) k"

definition ReadyTableAdd :: "tid \<Rightarrow> kernel \<Rightarrow> kernel" where
  "ReadyTableAdd ptcb k =
     (let l = (if TCB_bCPULock (K_tcb k ptcb) then Some (TCB_ulCPULock (K_tcb k ptcb)) else None)
      in rbmap_upd l (\<lambda>b. BitmapAdd b (TCB_ucPriority (K_tcb k ptcb))) k)"

definition ReadyTableDel :: "tid \<Rightarrow> kernel \<Rightarrow> kernel" where
  "ReadyTableDel ptcb k =
     (let l = (if TCB_bCPULock (K_tcb k ptcb) then Some (TCB_ulCPULock (K_tcb k ptcb)) else None)
      in rbmap_upd l (\<lambda>b. BitmapDel b (TCB_ucPriority (K_tcb k ptcb))) k)"

section \<open>The candidate table\<close>

definition CandTableSeek :: "nat \<Rightarrow> kernel \<Rightarrow> ppcb option" where
  "CandTableSeek pcpu k =
     (if BitmapIsEmpty (rbmap k (Some pcpu)) then
        if CPU_bOnlyAffinity (K_cpu k pcpu) \<or> BitmapIsEmpty (rbmap k None) then None
        else Some (None, BitmapHigh (rbmap k None))
      else
        let ucPriority = BitmapHigh (rbmap k (Some pcpu)) in
        if CPU_bOnlyAffinity (K_cpu k pcpu) \<or> BitmapIsEmpty (rbmap k None) then Some (Some pcpu, ucPriority)
        else let ucGlobal = BitmapHigh (rbmap k None) in
          if ucPriority \<le> ucGlobal then Some (Some pcpu, ucPriority)
          else Some (None, ucGlobal))"

text \<open>The next thread of a ring; an exhausted time slice is refilled and the ring moves on.\<close>

definition CandTableNext :: "ppcb \<Rightarrow> kernel \<Rightarrow> tid option \<times> kernel" where
  "CandTableNext ppcb k =
     (case rring k ppcb of
        [] \<Rightarrow> (None, bug k)
      | ptcb # _ \<Rightarrow>
          if TCB_usSchedCounter (K_tcb k ptcb) = 0 then
            let k = tcb_upd ptcb (\<lambda>b. b\<lparr>TCB_usSchedCounter := TCB_usSchedSlice b\<rparr>) k;
                k = rring_upd ppcb ring_next k
            in (head_of (rring k ppcb), k)
          else (Some ptcb, k))"

definition CandTableResel :: "nat \<Rightarrow> ppcb \<Rightarrow> kernel \<Rightarrow> kernel" where
  "CandTableResel pcpu ppcb k =
     (case CandTableNext ppcb k of
        (None, k) \<Rightarrow> k
      | (Some ptcb, k) \<Rightarrow>
          let k = set_cand pcpu (Some ptcb) k;
              k = tcb_upd ptcb (\<lambda>b. b\<lparr>TCB_ulCPUId := pcpu\<rparr>) k;
              k = tcb_upd ptcb (\<lambda>b. b\<lparr>TCB_bIsCand := True\<rparr>) k;
              k = DelTCBFromReadyRing ptcb ppcb k
          in if PcbIsEmpty k ppcb then ReadyTableDel ptcb k else k)"

definition CandTableFill :: "nat \<Rightarrow> kernel \<Rightarrow> kernel" where
  "CandTableFill pcpu k =
     (case CandTableSeek pcpu k of
        None \<Rightarrow> bug k
      | Some ppcb \<Rightarrow>
         (case CandTableNext ppcb k of
            (None, k) \<Rightarrow> k
          | (Some ptcb, k) \<Rightarrow>
              let k = set_cand pcpu (Some ptcb) k;
                  k = tcb_upd ptcb (\<lambda>b. b\<lparr>TCB_ulCPUId := pcpu\<rparr>) k;
                  k = tcb_upd ptcb (\<lambda>b. b\<lparr>TCB_bIsCand := True\<rparr>) k;
                  k = DelTCBFromReadyRing ptcb ppcb k
              in if PcbIsEmpty k ppcb then ReadyTableDel ptcb k else k))"

definition CandTableEmpty :: "nat \<Rightarrow> kernel \<Rightarrow> kernel" where
  "CandTableEmpty pcpu k =
     (case LW_CAND_TCB k pcpu of
        None \<Rightarrow> bug k
      | Some ptcb \<Rightarrow>
          let ppcb = GetPcb k ptcb;
              k = tcb_upd ptcb (\<lambda>b. b\<lparr>TCB_bIsCand := False\<rparr>) k;
              k = AddTCBToReadyRing ptcb ppcb True k;
              k = (if PcbIsOne k ppcb then ReadyTableAdd ptcb k else k)
          in set_cand pcpu None k)"

text \<open>
  \<^verbatim>\<open>_CandTableTryAdd\<close>. Its first loop over the other processors stops at one without a
  candidate, which takes the thread, or at one that runs its idle thread unmarked, which is
  marked; its second loop marks every processor whose candidate has a lower priority.
\<close>

datatype try_add = Added | RotIdle | NoCand

definition cand_become :: "nat \<Rightarrow> tid \<Rightarrow> kernel \<Rightarrow> kernel" where
  "cand_become i ptcb k =
     (let k = set_cand i (Some ptcb) k;
          k = tcb_upd ptcb (\<lambda>b. b\<lparr>TCB_ulCPUId := i\<rparr>) k
      in tcb_upd ptcb (\<lambda>b. b\<lparr>TCB_bIsCand := True\<rparr>) k)"

fun tryadd_idle :: "nat list \<Rightarrow> tid \<Rightarrow> kernel \<Rightarrow> try_add \<times> kernel" where
  "tryadd_idle [] ptcb k = (NoCand, k)"
| "tryadd_idle (i # is) ptcb k =
     (if i \<noteq> TCB_ulCPUId (K_tcb k ptcb) \<and> CPU_bActive (K_cpu k i) \<and> \<not> CPU_bOnlyAffinity (K_cpu k i) then
        (case LW_CAND_TCB k i of
           None \<Rightarrow> (Added, cand_become i ptcb k)
         | Some ptcbCand \<Rightarrow>
             if \<not> LW_CAND_ROT k i \<and> LW_PRIO_LOWEST = prio k ptcbCand then (RotIdle, set_rot i True k)
             else tryadd_idle is ptcb k)
      else tryadd_idle is ptcb k)"

fun tryadd_rot :: "nat list \<Rightarrow> tid \<Rightarrow> kernel \<Rightarrow> try_add \<times> kernel" where
  "tryadd_rot [] ptcb k = (NoCand, k)"
| "tryadd_rot (i # is) ptcb k =
     (if CPU_bActive (K_cpu k i) \<and> \<not> CPU_bOnlyAffinity (K_cpu k i) then
        (case LW_CAND_TCB k i of
           None \<Rightarrow> (Added, cand_become i ptcb k)
         | Some ptcbCand \<Rightarrow>
             if prio k ptcb < prio k ptcbCand then tryadd_rot is ptcb (set_rot i True k)
             else tryadd_rot is ptcb k)
      else tryadd_rot is ptcb k)"

definition tryadd_others :: "tid \<Rightarrow> kernel \<Rightarrow> try_add \<times> kernel" where
  "tryadd_others ptcb k =
     (case tryadd_idle [0..<K_ncpus k] ptcb k of
        (NoCand, k) \<Rightarrow> tryadd_rot [0..<K_ncpus k] ptcb k
      | r \<Rightarrow> r)"

definition tryadd_locked :: "tid \<Rightarrow> kernel \<Rightarrow> try_add \<times> kernel" where
  "tryadd_locked ptcb k =
     (let pcpu = TCB_ulCPULock (K_tcb k ptcb) in
      if \<not> CPU_bActive (K_cpu k pcpu) then (NoCand, k)
      else (case LW_CAND_TCB k pcpu of
              None \<Rightarrow> (Added, cand_become pcpu ptcb k)
            | Some ptcbCand \<Rightarrow>
                if prio k ptcb < prio k ptcbCand then (NoCand, set_rot pcpu True k)
                else (NoCand, k)))"

definition tryadd_free :: "tid \<Rightarrow> kernel \<Rightarrow> try_add \<times> kernel" where
  "tryadd_free ptcb k =
     (let pcpu = TCB_ulCPUId (K_tcb k ptcb) in
      if \<not> CPU_bOnlyAffinity (K_cpu k pcpu) then
        (case LW_CAND_TCB k pcpu of
           None \<Rightarrow>
             (Added, tcb_upd ptcb (\<lambda>b. b\<lparr>TCB_bIsCand := True\<rparr>) (set_cand pcpu (Some ptcb) k))
         | Some ptcbCand \<Rightarrow>
             if \<not> LW_CAND_ROT k pcpu \<and> LW_PRIO_LOWEST = prio k ptcbCand
             then (RotIdle, set_rot pcpu True k)
             else tryadd_others ptcb k)
      else tryadd_others ptcb k)"

definition CandTableTryAdd :: "tid \<Rightarrow> ppcb \<Rightarrow> kernel \<Rightarrow> bool \<times> kernel" where
  "CandTableTryAdd ptcb ppcb k =
     (case (if TCB_bCPULock (K_tcb k ptcb) then tryadd_locked ptcb k else tryadd_free ptcb k) of
        (Added, k) \<Rightarrow> (True, k)
      | (_, k) \<Rightarrow> (False, if PcbIsEmpty k ppcb then ReadyTableAdd ptcb k else k))"

definition CandTableTryDel :: "tid \<Rightarrow> ppcb \<Rightarrow> kernel \<Rightarrow> kernel" where
  "CandTableTryDel ptcb ppcb k =
     (let pcpu = TCB_ulCPUId (K_tcb k ptcb) in
      if LW_CAND_TCB k pcpu = Some ptcb then
        let k = tcb_upd ptcb (\<lambda>b. b\<lparr>TCB_bIsCand := False\<rparr>) k;
            k = CandTableFill pcpu k
        in set_rot pcpu False k
      else if PcbIsEmpty k ppcb then ReadyTableDel ptcb k else k)"

text \<open>\<^verbatim>\<open>_CandTableNotify\<close>: mark the processors that the displaced thread could run on.\<close>

fun notify_idle :: "nat list \<Rightarrow> nat \<Rightarrow> kernel \<Rightarrow> bool \<times> kernel" where
  "notify_idle [] ulCPUId k = (False, k)"
| "notify_idle (i # is) ulCPUId k =
     (if i \<noteq> ulCPUId \<and> CPU_bActive (K_cpu k i) \<and> \<not> CPU_bOnlyAffinity (K_cpu k i) then
        (case LW_CAND_TCB k i of
           None \<Rightarrow> if LW_CAND_ROT k i then notify_idle is ulCPUId k else notify_idle is ulCPUId (bug k)
         | Some ptcbOther \<Rightarrow>
             if \<not> LW_CAND_ROT k i \<and> LW_PRIO_LOWEST = prio k ptcbOther then (True, set_rot i True k)
             else notify_idle is ulCPUId k)
      else notify_idle is ulCPUId k)"

fun notify_rot :: "nat list \<Rightarrow> nat \<Rightarrow> tid \<Rightarrow> kernel \<Rightarrow> kernel" where
  "notify_rot [] ulCPUId ptcbCand k = k"
| "notify_rot (i # is) ulCPUId ptcbCand k =
     (if i \<noteq> ulCPUId \<and> CPU_bActive (K_cpu k i) \<and> \<not> CPU_bOnlyAffinity (K_cpu k i) then
        (case LW_CAND_TCB k i of
           None \<Rightarrow> notify_rot is ulCPUId ptcbCand (bug k)
         | Some ptcbOther \<Rightarrow>
             if prio k ptcbCand < prio k ptcbOther then notify_rot is ulCPUId ptcbCand (set_rot i True k)
             else notify_rot is ulCPUId ptcbCand k)
      else notify_rot is ulCPUId ptcbCand k)"

definition CandTableNotify :: "nat \<Rightarrow> tid \<Rightarrow> kernel \<Rightarrow> kernel" where
  "CandTableNotify pcpu ptcbCand k =
     (case notify_idle [0..<K_ncpus k] pcpu k of
        (True, k) \<Rightarrow> k
      | (False, k) \<Rightarrow> notify_rot [0..<K_ncpus k] pcpu ptcbCand k)"

text \<open>\<^verbatim>\<open>bNeedRotate\<close>: whether the candidate has to give way to the priority found.\<close>

definition need_rotate :: "nat \<Rightarrow> tid \<Rightarrow> u8 \<Rightarrow> kernel \<Rightarrow> bool" where
  "need_rotate pcpu ptcbCand ucPriority k =
     (if CPU_bOnlyAffinity (K_cpu k pcpu) \<and> \<not> TCB_bCPULock (K_tcb k ptcbCand) then True
      else if TCB_usSchedCounter (K_tcb k ptcbCand) = 0 then ucPriority \<le> prio k ptcbCand
      else ucPriority < prio k ptcbCand)"

definition CandTableUpdate :: "nat \<Rightarrow> kernel \<Rightarrow> kernel" where
  "CandTableUpdate pcpu k =
     (if \<not> CPU_bActive (K_cpu k pcpu) then k
      else case LW_CAND_TCB k pcpu of
        None \<Rightarrow> set_rot pcpu False (CandTableFill pcpu k)
      | Some ptcbCand \<Rightarrow>
         (case CandTableSeek pcpu k of
            None \<Rightarrow> set_rot pcpu False k
          | Some ppcb \<Rightarrow>
              if need_rotate pcpu ptcbCand (snd ppcb) k then
                let k = CandTableEmpty pcpu k;
                    k = CandTableResel pcpu ppcb k;
                    ptcbNew = LW_CAND_TCB k pcpu;
                    k = (if ptcbNew \<noteq> Some ptcbCand \<and> \<not> TCB_bCPULock (K_tcb k ptcbCand)
                         then CandTableNotify pcpu ptcbCand k else k)
                in set_rot pcpu False k
              else set_rot pcpu False k))"

text \<open>\<^verbatim>\<open>__ADD_TO_READY_RING\<close> and \<^verbatim>\<open>__DEL_FROM_READY_RING\<close> (\<^verbatim>\<open>k_sched.h\<close>).\<close>

definition ADD_TO_READY_RING :: "tid \<Rightarrow> ppcb \<Rightarrow> kernel \<Rightarrow> kernel" where
  "ADD_TO_READY_RING ptcb ppcb k =
     (case CandTableTryAdd ptcb ppcb k of
        (True, k) \<Rightarrow> k
      | (False, k) \<Rightarrow> AddTCBToReadyRing ptcb ppcb False k)"

definition DEL_FROM_READY_RING :: "tid \<Rightarrow> ppcb \<Rightarrow> kernel \<Rightarrow> kernel" where
  "DEL_FROM_READY_RING ptcb ppcb k =
     (let k = (if \<not> TCB_bIsCand (K_tcb k ptcb) then DelTCBFromReadyRing ptcb ppcb k else k)
      in CandTableTryDel ptcb ppcb k)"

section \<open>The invariant of the tables\<close>

definition rdy_inv :: "tid set \<Rightarrow> kernel \<Rightarrow> bool" where
  "rdy_inv S k \<longleftrightarrow>
     (\<forall>l. bmap_wf (rbmap k l)) \<and>
     (\<forall>l p. p \<in> bmap_set (rbmap k l) \<longleftrightarrow> rring k (l, p) \<noteq> []) \<and>
     (\<forall>q. distinct (rring k q)) \<and>
     (\<forall>q. \<forall>t \<in> set (rring k q). GetPcb k t = q \<and> \<not> TCB_bIsCand (K_tcb k t) \<and> t \<in> S) \<and>
     (\<forall>c t. LW_CAND_TCB k c = Some t \<longrightarrow> TCB_bIsCand (K_tcb k t) \<and> TCB_ulCPUId (K_tcb k t) = c \<and> t \<in> S \<and>
        (TCB_bCPULock (K_tcb k t) \<longrightarrow> TCB_ulCPULock (K_tcb k t) = c)) \<and>
     (\<forall>t. TCB_bIsCand (K_tcb k t) \<longrightarrow> LW_CAND_TCB k (TCB_ulCPUId (K_tcb k t)) = Some t) \<and>
     (\<forall>t \<in> S. \<not> TCB_bIsCand (K_tcb k t) \<longrightarrow> t \<in> set (rring k (GetPcb k t)))"

text \<open>The part of the state the invariant looks at.\<close>

definition tview :: "tcb \<Rightarrow> bool \<times> nat \<times> u8 \<times> bool \<times> nat" where
  "tview b = (TCB_bCPULock b, TCB_ulCPULock b, TCB_ucPriority b, TCB_bIsCand b, TCB_ulCPUId b)"

definition sview :: "kernel \<Rightarrow> (rdy_loc \<Rightarrow> pcbbmap) \<times> (nat \<Rightarrow> tid option) \<times> (tid \<Rightarrow> bool \<times> nat \<times> u8 \<times> bool \<times> nat)" where
  "sview k = (rdy_pcbbmap k, LW_CAND_TCB k, \<lambda>t. tview (K_tcb k t))"

lemma sview_eqD:
  assumes "sview k' = sview k"
  shows "rring k' q = rring k q" "rbmap k' l = rbmap k l" "LW_CAND_TCB k' c = LW_CAND_TCB k c"
    "TCB_bIsCand (K_tcb k' t) = TCB_bIsCand (K_tcb k t)" "TCB_ulCPUId (K_tcb k' t) = TCB_ulCPUId (K_tcb k t)"
    "TCB_bCPULock (K_tcb k' t) = TCB_bCPULock (K_tcb k t)" "TCB_ulCPULock (K_tcb k' t) = TCB_ulCPULock (K_tcb k t)"
    "TCB_ucPriority (K_tcb k' t) = TCB_ucPriority (K_tcb k t)" "GetPcb k' t = GetPcb k t"
proof -
  have b: "rdy_pcbbmap k' = rdy_pcbbmap k" "LW_CAND_TCB k' = LW_CAND_TCB k"
    and t: "\<And>t. tview (K_tcb k' t) = tview (K_tcb k t)"
    using assms by (simp_all add: sview_def fun_eq_iff)
  show "rring k' q = rring k q" "rbmap k' l = rbmap k l" "LW_CAND_TCB k' c = LW_CAND_TCB k c"
    by (simp_all add: rring_def rbmap_def b)
  show "TCB_bIsCand (K_tcb k' t) = TCB_bIsCand (K_tcb k t)" "TCB_ulCPUId (K_tcb k' t) = TCB_ulCPUId (K_tcb k t)"
    "TCB_bCPULock (K_tcb k' t) = TCB_bCPULock (K_tcb k t)" "TCB_ulCPULock (K_tcb k' t) = TCB_ulCPULock (K_tcb k t)"
    "TCB_ucPriority (K_tcb k' t) = TCB_ucPriority (K_tcb k t)" "GetPcb k' t = GetPcb k t"
    using t [of t] by (simp_all add: tview_def GetPcb_def)
qed

lemma rdy_inv_sview: "sview k' = sview k \<Longrightarrow> rdy_inv S k' = rdy_inv S k"
  unfolding rdy_inv_def using sview_eqD [of k' k] by simp

lemma sview_tcb [simp]: "(\<And>b. tview (f b) = tview b) \<Longrightarrow> sview (tcb_upd t f k) = sview k"
  by (auto simp: sview_def LW_CAND_TCB_def fun_eq_iff)

lemma sview_cpu [simp]:
  "(\<And>p. CPU_pcbbmapReady (f p) = CPU_pcbbmapReady p) \<Longrightarrow> (\<And>p. CAND_ptcbCand (f p) = CAND_ptcbCand p) \<Longrightarrow>
   sview (cpu_upd c f k) = sview k"
  by (auto simp: sview_def LW_CAND_TCB_def fun_eq_iff)

lemma sview_event [simp]: "sview (event_upd e f k) = sview k"
  by (auto simp: sview_def LW_CAND_TCB_def fun_eq_iff)

lemma sview_bug [simp]: "sview (bug k) = sview k"
  by (auto simp: sview_def LW_CAND_TCB_def fun_eq_iff)

lemma sview_set_rot [simp]: "sview (set_rot c v k) = sview k"
  by (simp add: set_rot_def)

lemma rdy_invD:
  assumes "rdy_inv S k"
  shows "bmap_wf (rbmap k l)" "p \<in> bmap_set (rbmap k l) \<longleftrightarrow> rring k (l, p) \<noteq> []" "distinct (rring k q)"
    "t \<in> set (rring k q) \<Longrightarrow> GetPcb k t = q" "t \<in> set (rring k q) \<Longrightarrow> \<not> TCB_bIsCand (K_tcb k t)"
    "t \<in> set (rring k q) \<Longrightarrow> t \<in> S"
    "LW_CAND_TCB k c = Some t \<Longrightarrow> TCB_bIsCand (K_tcb k t)"
    "LW_CAND_TCB k c = Some t \<Longrightarrow> TCB_ulCPUId (K_tcb k t) = c" "LW_CAND_TCB k c = Some t \<Longrightarrow> t \<in> S"
    "LW_CAND_TCB k c = Some t \<Longrightarrow> TCB_bCPULock (K_tcb k t) \<Longrightarrow> TCB_ulCPULock (K_tcb k t) = c"
    "TCB_bIsCand (K_tcb k t) \<Longrightarrow> LW_CAND_TCB k (TCB_ulCPUId (K_tcb k t)) = Some t"
    "t \<in> S \<Longrightarrow> \<not> TCB_bIsCand (K_tcb k t) \<Longrightarrow> t \<in> set (rring k (GetPcb k t))"
  using assms unfolding rdy_inv_def by blast+

text \<open>What the elementary updates do to the tables.\<close>

lemma rring_upd_view [simp]:
  "rring (rring_upd q f k) q' = (if q' = q then f (rring k q) else rring k q')"
  "rbmap (rring_upd q f k) l = rbmap k l"
  "LW_CAND_TCB (rring_upd q f k) = LW_CAND_TCB k" "LW_CAND_ROT (rring_upd q f k) = LW_CAND_ROT k"
  "K_tcb (rring_upd q f k) = K_tcb k" "K_bug (rring_upd q f k) = K_bug k"
  "K_ncpus (rring_upd q f k) = K_ncpus k" "K_curcpu (rring_upd q f k) = K_curcpu k"
  "K_eventBuffer (rring_upd q f k) = K_eventBuffer k" "K_wuDelay (rring_upd q f k) = K_wuDelay k"
  by (cases q; cases q'; auto simp: ready_view_defs fun_eq_iff)+

lemma rbmap_upd_view [simp]:
  "rring (rbmap_upd l f k) q = rring k q"
  "rbmap (rbmap_upd l f k) l' = (if l' = l then f (rbmap k l) else rbmap k l')"
  "LW_CAND_TCB (rbmap_upd l f k) = LW_CAND_TCB k" "LW_CAND_ROT (rbmap_upd l f k) = LW_CAND_ROT k"
  "K_tcb (rbmap_upd l f k) = K_tcb k" "K_bug (rbmap_upd l f k) = K_bug k"
  "K_ncpus (rbmap_upd l f k) = K_ncpus k" "K_curcpu (rbmap_upd l f k) = K_curcpu k"
  "K_eventBuffer (rbmap_upd l f k) = K_eventBuffer k" "K_wuDelay (rbmap_upd l f k) = K_wuDelay k"
  by (auto simp: ready_view_defs fun_eq_iff)

lemma set_cand_view [simp]:
  "rring (set_cand c v k) q = rring k q" "rbmap (set_cand c v k) l = rbmap k l"
  "LW_CAND_TCB (set_cand c v k) = (LW_CAND_TCB k)(c := v)" "LW_CAND_ROT (set_cand c v k) = LW_CAND_ROT k"
  "K_tcb (set_cand c v k) = K_tcb k" "K_bug (set_cand c v k) = K_bug k"
  "K_ncpus (set_cand c v k) = K_ncpus k" "K_curcpu (set_cand c v k) = K_curcpu k"
  "K_eventBuffer (set_cand c v k) = K_eventBuffer k" "K_wuDelay (set_cand c v k) = K_wuDelay k"
  by (auto simp: ready_view_defs fun_eq_iff)

lemma set_rot_view [simp]:
  "rring (set_rot c v k) q = rring k q" "rbmap (set_rot c v k) l = rbmap k l"
  "LW_CAND_TCB (set_rot c v k) = LW_CAND_TCB k" "LW_CAND_ROT (set_rot c v k) = (LW_CAND_ROT k)(c := v)"
  "K_tcb (set_rot c v k) = K_tcb k" "K_bug (set_rot c v k) = K_bug k"
  "K_ncpus (set_rot c v k) = K_ncpus k" "K_curcpu (set_rot c v k) = K_curcpu k"
  "K_eventBuffer (set_rot c v k) = K_eventBuffer k" "K_wuDelay (set_rot c v k) = K_wuDelay k"
  by (auto simp: ready_view_defs fun_eq_iff)

lemma tcb_upd_view [simp]:
  "rring (tcb_upd t f k) q = rring k q" "rbmap (tcb_upd t f k) l = rbmap k l"
  "LW_CAND_TCB (tcb_upd t f k) = LW_CAND_TCB k" "LW_CAND_ROT (tcb_upd t f k) = LW_CAND_ROT k"
  by (auto simp: ready_view_defs fun_eq_iff)

lemma GetPcb_view [simp]:
  "GetPcb (rring_upd q f k) t = GetPcb k t" "GetPcb (rbmap_upd l g k) t = GetPcb k t"
  "GetPcb (set_cand c v k) t = GetPcb k t" "GetPcb (set_rot c b k) t = GetPcb k t"
  by (simp_all add: GetPcb_def)

lemma GetPcb_tcb_upd [simp]:
  "(\<And>b. TCB_bCPULock (f b) = TCB_bCPULock b) \<Longrightarrow> (\<And>b. TCB_ulCPULock (f b) = TCB_ulCPULock b) \<Longrightarrow>
   (\<And>b. TCB_ucPriority (f b) = TCB_ucPriority b) \<Longrightarrow> GetPcb (tcb_upd u f k) t = GetPcb k t"
  by (simp add: GetPcb_def)

lemma ReadyTable_view:
  "ReadyTableAdd t k = rbmap_upd (fst (GetPcb k t)) (\<lambda>b. BitmapAdd b (snd (GetPcb k t))) k"
  "ReadyTableDel t k = rbmap_upd (fst (GetPcb k t)) (\<lambda>b. BitmapDel b (snd (GetPcb k t))) k"
  by (simp_all add: ReadyTableAdd_def ReadyTableDel_def GetPcb_def Let_def)

lemma AddTCBToReadyRing_view:
  obtains f where "AddTCBToReadyRing t q h k = rring_upd q f k"
    "\<And>xs. distinct (t # xs) \<Longrightarrow> distinct (f xs) \<and> set (f xs) = insert t (set xs) \<and> f xs \<noteq> []"
proof -
  have "\<exists>f. AddTCBToReadyRing t q h k = rring_upd q f k \<and> f \<in> {ring_add_ahead t, ring_add_last t, ring_add_front t}"
    by (auto simp: AddTCBToReadyRing_def)
  then show ?thesis
    by (elim exE conjE, intro that)
      (auto simp: ring_add_ahead_def ring_add_last_def ring_add_front_def split: list.splits)
qed

section \<open>Elementary moves of a thread\<close>

text \<open>
  Every operation is made of four moves: a thread enters a ring, leaves a ring, becomes a
  candidate, or stops being one.
\<close>

definition ring_enter :: "tid \<Rightarrow> ppcb \<Rightarrow> (tid list \<Rightarrow> tid list) \<Rightarrow> kernel \<Rightarrow> kernel" where
  "ring_enter t q f k =
     rring_upd q f (if rring k q = [] then rbmap_upd (fst q) (\<lambda>b. BitmapAdd b (snd q)) k else k)"

definition ring_leave :: "tid \<Rightarrow> ppcb \<Rightarrow> kernel \<Rightarrow> kernel" where
  "ring_leave t q k =
     (let k = rring_upd q (remove1 t) k
      in if rring k q = [] then rbmap_upd (fst q) (\<lambda>b. BitmapDel b (snd q)) k else k)"

definition cand_leave :: "nat \<Rightarrow> tid \<Rightarrow> kernel \<Rightarrow> kernel" where
  "cand_leave c t k = set_cand c None (tcb_upd t (\<lambda>b. b\<lparr>TCB_bIsCand := False\<rparr>) k)"

lemma sview_eqI:
  assumes "\<And>q. rring k' q = rring k q" and "\<And>l. rbmap k' l = rbmap k l" and "\<And>c. LW_CAND_TCB k' c = LW_CAND_TCB k c"
    and "\<And>t. tview (K_tcb k' t) = tview (K_tcb k t)"
  shows "sview k' = sview k"
proof -
  have "rdy_pcbbmap k' l = rdy_pcbbmap k l" for l
    using assms(1) [of "(l, _)"] assms(2) [of l]
    by (intro pcbbmap.equality) (auto simp: rring_def rbmap_def fun_eq_iff)
  with assms show ?thesis by (auto simp: sview_def fun_eq_iff)
qed

lemma rdy_inv_out:
  assumes "rdy_inv S k" and "t \<notin> S"
  shows "\<not> TCB_bIsCand (K_tcb k t)" "t \<notin> set (rring k q)" "LW_CAND_TCB k c \<noteq> Some t"
  using rdy_invD [OF assms(1)] assms(2) by blast+

lemma rdy_inv_enter:
  assumes inv: "rdy_inv S k" and t: "t \<notin> S"
    and f: "\<And>xs. distinct (t # xs) \<Longrightarrow> distinct (f xs) \<and> set (f xs) = insert t (set xs) \<and> f xs \<noteq> []"
  shows "rdy_inv (insert t S) (ring_enter t (GetPcb k t) f k)" (is "rdy_inv _ ?k")
proof -
  let ?q = "GetPcb k t"
  note D = rdy_invD [OF inv] and out = rdy_inv_out [OF inv t]
  have fx: "distinct (f (rring k ?q))" "set (f (rring k ?q)) = insert t (set (rring k ?q))" "f (rring k ?q) \<noteq> []"
    using f [of "rring k ?q"] D(3) out(2) by auto
  have r: "rring ?k q = (if q = ?q then f (rring k ?q) else rring k q)" for q
    by (simp add: ring_enter_def)
  have b: "rbmap ?k l = (if l = fst ?q \<and> rring k ?q = [] then BitmapAdd (rbmap k l) (snd ?q) else rbmap k l)" for l
    by (simp add: ring_enter_def)
  have o: "LW_CAND_TCB ?k = LW_CAND_TCB k" "K_tcb ?k = K_tcb k" "GetPcb ?k = GetPcb k"
    by (simp_all add: ring_enter_def fun_eq_iff)
  show ?thesis
    unfolding rdy_inv_def
  proof (intro conjI allI ballI impI)
    fix l show "bmap_wf (rbmap ?k l)" using D(1) by (simp add: b bmap_wf_add)
  next
    fix l p show "p \<in> bmap_set (rbmap ?k l) \<longleftrightarrow> rring ?k (l, p) \<noteq> []"
      using D(2) [of p l] fx(3) by (auto simp: b r bmap_set_add prod_eq_iff)
  next
    fix q show "distinct (rring ?k q)" using D(3) fx by (simp add: r)
  next
    fix q u assume "u \<in> set (rring ?k q)"
    then have "(q = ?q \<and> u = t) \<or> u \<in> set (rring k q)" using fx(2) by (auto simp: r split: if_splits)
    then show "GetPcb ?k u = q" "\<not> TCB_bIsCand (K_tcb ?k u)" "u \<in> insert t S"
      using D(4,5,6) [of u q] out(1) by (auto simp: o)
  next
    fix c u assume "LW_CAND_TCB ?k c = Some u"
    then show "TCB_bIsCand (K_tcb ?k u)" "TCB_ulCPUId (K_tcb ?k u) = c" "u \<in> insert t S"
      using D(7,8,9) [of c u] by (simp_all add: o)
  next
    fix c u assume "LW_CAND_TCB ?k c = Some u" "TCB_bCPULock (K_tcb ?k u)"
    then show "TCB_ulCPULock (K_tcb ?k u) = c" unfolding o by (rule D(10))
  next
    fix u assume "TCB_bIsCand (K_tcb ?k u)"
    then show "LW_CAND_TCB ?k (TCB_ulCPUId (K_tcb ?k u)) = Some u" unfolding o by (rule D(11))
  next
    fix u assume u: "u \<in> insert t S" "\<not> TCB_bIsCand (K_tcb ?k u)"
    have "u \<in> set (rring k (GetPcb k u))" if "u \<noteq> t" using D(12) [of u] u that by (simp add: o)
    then show "u \<in> set (rring ?k (GetPcb ?k u))" using fx(2) unfolding o r
      by (cases "u = t"; cases "GetPcb k u = ?q") simp_all
  qed
qed

lemma rdy_inv_leave:
  assumes inv: "rdy_inv S k" and t: "t \<in> set (rring k q)"
  shows "rdy_inv (S - {t}) (ring_leave t q k)" (is "rdy_inv _ ?k")
proof -
  note D = rdy_invD [OF inv]
  have q: "GetPcb k t = q" and nc: "\<not> TCB_bIsCand (K_tcb k t)" using D(4,5) t by blast+
  have r: "rring ?k q' = (if q' = q then remove1 t (rring k q) else rring k q')" for q'
    by (simp add: ring_leave_def Let_def)
  have b: "rbmap ?k l = (if l = fst q \<and> remove1 t (rring k q) = [] then BitmapDel (rbmap k l) (snd q) else rbmap k l)" for l
    by (simp add: ring_leave_def Let_def)
  have o: "LW_CAND_TCB ?k = LW_CAND_TCB k" "K_tcb ?k = K_tcb k" "GetPcb ?k = GetPcb k"
    by (simp_all add: ring_leave_def Let_def fun_eq_iff)
  have ne: "rring k q \<noteq> []" using t by auto
  show ?thesis
    unfolding rdy_inv_def
  proof (intro conjI allI ballI impI)
    fix l show "bmap_wf (rbmap ?k l)" using D(1) by (simp add: b bmap_wf_del)
  next
    fix l p show "p \<in> bmap_set (rbmap ?k l) \<longleftrightarrow> rring ?k (l, p) \<noteq> []"
      using D(2) [of p l] ne by (auto simp: b r bmap_set_del prod_eq_iff)
  next
    fix q' show "distinct (rring ?k q')" using D(3) by (simp add: r)
  next
    fix q' u assume "u \<in> set (rring ?k q')"
    then have "u \<in> set (rring k q')" "u \<noteq> t" using D(3) [of q] D(4) [of t q'] q
      by (auto simp: r split: if_splits)
    then show "GetPcb ?k u = q'" "\<not> TCB_bIsCand (K_tcb ?k u)" "u \<in> S - {t}"
      using D(4,5,6) [of u q'] by (auto simp: o)
  next
    fix c u assume c: "LW_CAND_TCB ?k c = Some u"
    then have "u \<noteq> t" using D(7) nc by (auto simp: o)
    then show "TCB_bIsCand (K_tcb ?k u)" "TCB_ulCPUId (K_tcb ?k u) = c" "u \<in> S - {t}"
      using D(7,8,9) [of c u] c by (simp_all add: o)
  next
    fix c u assume "LW_CAND_TCB ?k c = Some u" "TCB_bCPULock (K_tcb ?k u)"
    then show "TCB_ulCPULock (K_tcb ?k u) = c" unfolding o by (rule D(10))
  next
    fix u assume "TCB_bIsCand (K_tcb ?k u)"
    then show "LW_CAND_TCB ?k (TCB_ulCPUId (K_tcb ?k u)) = Some u" unfolding o by (rule D(11))
  next
    fix u assume "u \<in> S - {t}" "\<not> TCB_bIsCand (K_tcb ?k u)"
    then show "u \<in> set (rring ?k (GetPcb ?k u))" using D(12) [of u] D(3) [of q] by (auto simp: o r)
  qed
qed

lemma rdy_inv_cand_leave:
  assumes inv: "rdy_inv S k" and t: "LW_CAND_TCB k c = Some t"
  shows "rdy_inv (S - {t}) (cand_leave c t k)" (is "rdy_inv _ ?k")
proof -
  note D = rdy_invD [OF inv]
  have un: "LW_CAND_TCB k c' = Some t \<Longrightarrow> c' = c" for c' using D(8) t by metis
  have nr: "t \<notin> set (rring k q)" for q using D(5,7) t by blast
  have tc: "TCB_ulCPUId (K_tcb k t) = c" using D(8) t by blast
  have v: "rring ?k q = rring k q" "rbmap ?k l = rbmap k l" "LW_CAND_TCB ?k = (LW_CAND_TCB k)(c := None)"
    "TCB_bIsCand (K_tcb ?k u) \<longleftrightarrow> u \<noteq> t \<and> TCB_bIsCand (K_tcb k u)" "TCB_ulCPUId (K_tcb ?k u) = TCB_ulCPUId (K_tcb k u)"
    "TCB_bCPULock (K_tcb ?k u) = TCB_bCPULock (K_tcb k u)" "TCB_ulCPULock (K_tcb ?k u) = TCB_ulCPULock (K_tcb k u)"
    "GetPcb ?k u = GetPcb k u" for q l u
    by (simp_all add: cand_leave_def)
  show ?thesis
    unfolding rdy_inv_def
  proof (intro conjI allI ballI impI; (unfold v)?)
    fix q u assume "u \<in> set (rring k q)"
    then show "GetPcb k u = q" "\<not> (u \<noteq> t \<and> TCB_bIsCand (K_tcb k u))" "u \<in> S - {t}"
      using D(4,5,6) [of u q] nr [of q] by auto
  next
    fix c' u assume "((LW_CAND_TCB k)(c := None)) c' = Some u"
    then have "LW_CAND_TCB k c' = Some u" "u \<noteq> t" using un by (auto split: if_splits)
    then show "u \<noteq> t \<and> TCB_bIsCand (K_tcb k u)" "TCB_ulCPUId (K_tcb k u) = c'" "u \<in> S - {t}"
      "TCB_bCPULock (K_tcb k u) \<Longrightarrow> TCB_ulCPULock (K_tcb k u) = c'"
      using D(7,8,9,10) by auto
  next
    fix u assume "u \<noteq> t \<and> TCB_bIsCand (K_tcb k u)"
    then have "LW_CAND_TCB k (TCB_ulCPUId (K_tcb k u)) = Some u" "u \<noteq> t" using D(11) by auto
    then show "((LW_CAND_TCB k)(c := None)) (TCB_ulCPUId (K_tcb k u)) = Some u" using t by auto
  qed (use D(1,2,3,12) in auto)
qed

lemma rdy_inv_cand_become:
  assumes inv: "rdy_inv S k" and t: "t \<notin> S" and c: "LW_CAND_TCB k c = None"
    and l: "TCB_bCPULock (K_tcb k t) \<longrightarrow> TCB_ulCPULock (K_tcb k t) = c"
  shows "rdy_inv (insert t S) (cand_become c t k)" (is "rdy_inv _ ?k")
proof -
  note D = rdy_invD [OF inv] and out = rdy_inv_out [OF inv t]
  have v: "rring ?k q = rring k q" "rbmap ?k l = rbmap k l" "LW_CAND_TCB ?k = (LW_CAND_TCB k)(c := Some t)"
    "TCB_bIsCand (K_tcb ?k u) \<longleftrightarrow> u = t \<or> TCB_bIsCand (K_tcb k u)"
    "TCB_ulCPUId (K_tcb ?k u) = (if u = t then c else TCB_ulCPUId (K_tcb k u))"
    "TCB_bCPULock (K_tcb ?k u) = TCB_bCPULock (K_tcb k u)" "TCB_ulCPULock (K_tcb ?k u) = TCB_ulCPULock (K_tcb k u)"
    "GetPcb ?k u = GetPcb k u" for q l u
    by (simp_all add: cand_become_def Let_def)
  show ?thesis
    unfolding rdy_inv_def
  proof (intro conjI allI ballI impI; (unfold v)?)
    fix q u assume "u \<in> set (rring k q)"
    then show "GetPcb k u = q" "\<not> (u = t \<or> TCB_bIsCand (K_tcb k u))" "u \<in> insert t S"
      using D(4,5,6) [of u q] out(2) [of q] by auto
  next
    fix c' u assume "((LW_CAND_TCB k)(c := Some t)) c' = Some u"
    then have "(c' = c \<and> u = t) \<or> (LW_CAND_TCB k c' = Some u \<and> u \<noteq> t)" using out(3) by (auto split: if_splits)
    then show "u = t \<or> TCB_bIsCand (K_tcb k u)" "(if u = t then c else TCB_ulCPUId (K_tcb k u)) = c'"
      "u \<in> insert t S" "TCB_bCPULock (K_tcb k u) \<Longrightarrow> TCB_ulCPULock (K_tcb k u) = c'"
      using D(7,8,9,10) l by auto
  next
    fix u assume "u = t \<or> TCB_bIsCand (K_tcb k u)"
    then show "((LW_CAND_TCB k)(c := Some t)) (if u = t then c else TCB_ulCPUId (K_tcb k u)) = Some u"
      using D(11) [of u] c by auto
  qed (use D(1,2,3,12) in auto)
qed

section \<open>What the operations leave alone\<close>

text \<open>
  The operations of this theory change the ready rings and bitmaps, the candidates with their
  marks, and of a control block only the candidate flag, the processor and the time slice.
  \<open>erase\<close> blanks exactly these parts.
\<close>

definition erase_tcb :: "tcb \<Rightarrow> tcb" where
  "erase_tcb b = b\<lparr>TCB_bIsCand := False, TCB_ulCPUId := 0, TCB_usSchedCounter := 0\<rparr>"

definition pcbbmap0 :: pcbbmap where
  "pcbbmap0 = \<lparr>PCBM_bmap = BitmapInit, PCBM_pcb = (\<lambda>_. [])\<rparr>"

definition erase_cpu :: "cpu \<Rightarrow> cpu" where
  "erase_cpu p = p\<lparr>CAND_ptcbCand := None, CAND_bNeedRotate := False, CPU_pcbbmapReady := pcbbmap0\<rparr>"

definition erase :: "kernel \<Rightarrow> kernel" where
  "erase k = k\<lparr>K_tcb := (\<lambda>t. erase_tcb (K_tcb k t)), K_cpu := (\<lambda>c. erase_cpu (K_cpu k c)),
     K_pcbbmapGlobalReady := pcbbmap0, K_bug := False\<rparr>"

lemma erase_tcb_upd [simp]: "(\<And>b. erase_tcb (f b) = erase_tcb b) \<Longrightarrow> erase (tcb_upd t f k) = erase k"
  by (simp add: erase_def tcb_upd_def fun_eq_iff)

lemma erase_cpu_upd [simp]: "(\<And>b. erase_cpu (f b) = erase_cpu b) \<Longrightarrow> erase (cpu_upd t f k) = erase k"
  by (simp add: erase_def cpu_upd_def fun_eq_iff)

lemma erase_bug [simp]: "erase (bug k) = erase k"
  by (simp add: erase_def bug_def)

lemma erase_rdy_upd [simp]: "erase (rdy_upd l f k) = erase k"
  by (cases l) (simp_all add: rdy_upd_def erase_cpu_def, simp add: erase_def)

lemma erase_moves [simp]:
  "erase (rring_upd q g k) = erase k" "erase (rbmap_upd l h k) = erase k"
  "erase (set_cand c v k) = erase k" "erase (set_rot c w k) = erase k"
  by (simp_all add: rring_upd_def rbmap_upd_def set_cand_def set_rot_def erase_cpu_def)

lemma erase_sel:
  "K_tcb (erase k) t = erase_tcb (K_tcb k t)" "K_cpu (erase k) c = erase_cpu (K_cpu k c)"
  "K_eventBuffer (erase k) = K_eventBuffer k" "K_wuDelay (erase k) = K_wuDelay k" "K_ncpus (erase k) = K_ncpus k"
  "K_curcpu (erase k) = K_curcpu k" "K_i64KernelTime (erase k) = K_i64KernelTime k"
  "K_resrcEvent (erase k) = K_resrcEvent k" "K_ulNotRunError (erase k) = K_ulNotRunError k"
  "TCB_usStatus (erase_tcb b) = TCB_usStatus b" "TCB_bCPULock (erase_tcb b) = TCB_bCPULock b"
  "TCB_ulCPULock (erase_tcb b) = TCB_ulCPULock b" "TCB_ucPriority (erase_tcb b) = TCB_ucPriority b"
  "CPU_bActive (erase_cpu p) = CPU_bActive p" "CPU_bOnlyAffinity (erase_cpu p) = CPU_bOnlyAffinity p"
  "CPU_ptcbTCBCur (erase_cpu p) = CPU_ptcbTCBCur p"
  "K_ptcbTCBIdTable (erase k) = K_ptcbTCBIdTable k"
  "K_esBuffer (erase k) = K_esBuffer k" "K_resrcEventSet (erase k) = K_resrcEventSet k"
  "k_plineVutexHashHeader (erase k) = k_plineVutexHashHeader k"
  "k_plineVutexOp (erase k) = k_plineVutexOp k"
  "K_msgqueueBuffer (erase k) = K_msgqueueBuffer k" "K_resrcMsgQueue (erase k) = K_resrcMsgQueue k"
  by (simp_all add: erase_def erase_tcb_def erase_cpu_def)

lemma erase_eqD:
  assumes "erase k' = erase k"
  shows "TCB_usStatus (K_tcb k' t) = TCB_usStatus (K_tcb k t)"
    "TCB_bCPULock (K_tcb k' t) = TCB_bCPULock (K_tcb k t)" "TCB_ulCPULock (K_tcb k' t) = TCB_ulCPULock (K_tcb k t)"
    "TCB_ucPriority (K_tcb k' t) = TCB_ucPriority (K_tcb k t)"
    "K_eventBuffer k' = K_eventBuffer k" "K_wuDelay k' = K_wuDelay k" "K_ncpus k' = K_ncpus k" "K_curcpu k' = K_curcpu k"
    "CPU_bActive (K_cpu k' c) = CPU_bActive (K_cpu k c)" "CPU_bOnlyAffinity (K_cpu k' c) = CPU_bOnlyAffinity (K_cpu k c)"
    "CPU_ptcbTCBCur (K_cpu k' c) = CPU_ptcbTCBCur (K_cpu k c)"
    "erase_tcb (K_tcb k' t) = erase_tcb (K_tcb k t)" "erase_cpu (K_cpu k' c) = erase_cpu (K_cpu k c)"
    "K_i64KernelTime k' = K_i64KernelTime k" "K_resrcEvent k' = K_resrcEvent k" "K_ulNotRunError k' = K_ulNotRunError k"
    "GetPcb k' t = GetPcb k t"
  by (metis assms erase_sel(1,10), metis assms erase_sel(1,11), metis assms erase_sel(1,12),
      metis assms erase_sel(1,13), metis assms erase_sel(3), metis assms erase_sel(4), metis assms erase_sel(5),
      metis assms erase_sel(6), metis assms erase_sel(2,14), metis assms erase_sel(2,15),
      metis assms erase_sel(2,16), metis assms erase_sel(1), metis assms erase_sel(2), metis assms erase_sel(7),
      metis assms erase_sel(8), metis assms erase_sel(9),
      unfold GetPcb_def, metis assms erase_sel(1,11,12,13))

section \<open>The operations in terms of the moves\<close>

lemma erase_ring_enter [simp]: "erase (ring_enter t q f k) = erase k"
  by (simp add: ring_enter_def)

lemma erase_ring_leave [simp]: "erase (ring_leave t q k) = erase k"
  by (simp add: ring_leave_def Let_def)

lemma erase_cand_leave [simp]: "erase (cand_leave c t k) = erase k"
  by (simp add: cand_leave_def erase_tcb_def)

lemma erase_cand_become [simp]: "erase (cand_become c t k) = erase k"
  by (simp add: cand_become_def Let_def erase_tcb_def)

lemma CandTableEmpty_moves:
  assumes inv: "rdy_inv S k" and c: "LW_CAND_TCB k c = Some t"
  shows "sview (CandTableEmpty c k) = sview (ring_enter t (GetPcb k t) (ring_add_ahead t) (cand_leave c t k))"
    and "erase (CandTableEmpty c k) = erase k" and "K_bug (CandTableEmpty c k) = K_bug k"
    and "K_tcb (CandTableEmpty c k) = (K_tcb k)(t := (K_tcb k t)\<lparr>TCB_bIsCand := False\<rparr>)"
    and "LW_CAND_ROT (CandTableEmpty c k) = LW_CAND_ROT k"
proof -
  have nr: "t \<notin> set (rring k q)" for q using rdy_invD(5,7) [OF inv] c by blast
  have one: "head_of (rring k q @ [t]) = Some t \<longleftrightarrow> rring k q = []" for q
    using nr [of q] by (cases "rring k q") auto
  show "sview (CandTableEmpty c k) = sview (ring_enter t (GetPcb k t) (ring_add_ahead t) (cand_leave c t k))"
    by (rule sview_eqI)
      (auto simp: CandTableEmpty_def c Let_def AddTCBToReadyRing_def PcbIsOne_def ReadyTable_view ring_enter_def
        cand_leave_def ring_add_ahead_def one)
  show "erase (CandTableEmpty c k) = erase k" "K_bug (CandTableEmpty c k) = K_bug k"
    "K_tcb (CandTableEmpty c k) = (K_tcb k)(t := (K_tcb k t)\<lparr>TCB_bIsCand := False\<rparr>)"
    "LW_CAND_ROT (CandTableEmpty c k) = LW_CAND_ROT k"
    by (auto simp: CandTableEmpty_def c Let_def AddTCBToReadyRing_def ReadyTable_view erase_tcb_def)
qed

lemma ring_add_ahead_ok: "distinct (t # xs) \<Longrightarrow>
  distinct (ring_add_ahead t xs) \<and> set (ring_add_ahead t xs) = insert t (set xs) \<and> ring_add_ahead t xs \<noteq> []"
  by (simp add: ring_add_ahead_def)

lemma CandTableEmpty_inv:
  assumes inv: "rdy_inv S k" and c: "LW_CAND_TCB k c = Some t"
  shows "rdy_inv S (CandTableEmpty c k)"
proof -
  have "rdy_inv (insert t (S - {t})) (ring_enter t (GetPcb (cand_leave c t k) t) (ring_add_ahead t) (cand_leave c t k))"
    by (rule rdy_inv_enter [OF rdy_inv_cand_leave [OF inv c]]) (auto simp: ring_add_ahead_def)
  moreover have "GetPcb (cand_leave c t k) t = GetPcb k t" by (simp add: cand_leave_def)
  moreover have "insert t (S - {t}) = S" using rdy_invD(9) [OF inv c] by auto
  ultimately show ?thesis
    using rdy_inv_sview [OF CandTableEmpty_moves(1) [OF inv c]] by simp
qed

lemma rdy_inv_rings:
  assumes inv: "rdy_inv S k" and d: "\<And>q. distinct (rring k' q)" and s: "\<And>q. set (rring k' q) = set (rring k q)"
    and v: "\<And>l. rbmap k' l = rbmap k l" "\<And>c. LW_CAND_TCB k' c = LW_CAND_TCB k c" "\<And>t. tview (K_tcb k' t) = tview (K_tcb k t)"
  shows "rdy_inv S k'"
proof -
  have e: "rring k' q = [] \<longleftrightarrow> rring k q = []" for q using s [of q] by (metis set_empty)
  have t: "TCB_bCPULock (K_tcb k' t) = TCB_bCPULock (K_tcb k t)" "TCB_ulCPULock (K_tcb k' t) = TCB_ulCPULock (K_tcb k t)"
    "TCB_bIsCand (K_tcb k' t) = TCB_bIsCand (K_tcb k t)" "TCB_ulCPUId (K_tcb k' t) = TCB_ulCPUId (K_tcb k t)"
    "GetPcb k' t = GetPcb k t" for t
    using v(3) [of t] by (simp_all add: tview_def GetPcb_def)
  show ?thesis using inv unfolding rdy_inv_def by (simp add: e d s v t)
qed

text \<open>The result of \<^verbatim>\<open>_CandTableNext\<close>: the first node of the ring, which has moved on when its slice was used up.\<close>

definition next_ring :: "ppcb \<Rightarrow> kernel \<Rightarrow> tid list" where
  "next_ring q k = (if TCB_usSchedCounter (K_tcb k (hd (rring k q))) = 0 then rotate1 (rring k q) else rring k q)"

lemma CandTableNext_spec:
  assumes inv: "rdy_inv S k" and ne: "rring k q \<noteq> []"
  obtains k' where "CandTableNext q k = (Some (hd (next_ring q k)), k')" "rdy_inv S k'"
    "\<And>q'. rring k' q' = (if q' = q then next_ring q k else rring k q')"
    "\<And>l. rbmap k' l = rbmap k l" "LW_CAND_TCB k' = LW_CAND_TCB k" "LW_CAND_ROT k' = LW_CAND_ROT k"
    "\<And>t. tview (K_tcb k' t) = tview (K_tcb k t)" "erase k' = erase k" "K_bug k' = K_bug k"
proof -
  obtain t ts where r: "rring k q = t # ts" using ne by (cases "rring k q") auto
  show ?thesis
  proof (cases "TCB_usSchedCounter (K_tcb k t) = 0")
    case True
    let ?k = "rring_upd q ring_next (tcb_upd t (\<lambda>b. b\<lparr>TCB_usSchedCounter := TCB_usSchedSlice b\<rparr>) k)"
    have "rdy_inv S ?k"
      by (rule rdy_inv_rings [OF inv]) (use rdy_invD(3) [OF inv] in \<open>simp_all add: ring_next_def tview_def\<close>)
    with True r show ?thesis
      by (intro that [of ?k]; cases ts) (auto simp: CandTableNext_def Let_def next_ring_def ring_next_def tview_def erase_tcb_def)
  next
    case False
    then show ?thesis using inv r by (intro that [of k]) (auto simp: CandTableNext_def next_ring_def)
  qed
qed

lemma next_ring_set [simp]: "set (next_ring q k) = set (rring k q)"
  by (simp add: next_ring_def)

text \<open>Taking the next thread of a ring as the candidate of an empty slot.\<close>

lemma CandTableResel_spec:
  assumes inv: "rdy_inv S k" and ne: "rring k q \<noteq> []" and c: "LW_CAND_TCB k c = None" and l: "fst q \<in> {None, Some c}"
  defines "t \<equiv> hd (next_ring q k)"
  shows "rdy_inv S (CandTableResel c q k)"
    and "LW_CAND_TCB (CandTableResel c q k) = (LW_CAND_TCB k)(c := Some t)"
    and "rring (CandTableResel c q k) q' = (if q' = q then tl (next_ring q k) else rring k q')"
    and "LW_CAND_ROT (CandTableResel c q k) = LW_CAND_ROT k"
    and "erase (CandTableResel c q k) = erase k" and "K_bug (CandTableResel c q k) = K_bug k"
    and "TCB_ulCPUId (K_tcb (CandTableResel c q k) u) \<in> {TCB_ulCPUId (K_tcb k u), c}"
proof -
  from CandTableNext_spec [OF inv ne] obtain k1 where k1: "CandTableNext q k = (Some t, k1)" "rdy_inv S k1"
    "\<And>q'. rring k1 q' = (if q' = q then next_ring q k else rring k q')"
    "\<And>l. rbmap k1 l = rbmap k l" "LW_CAND_TCB k1 = LW_CAND_TCB k" "LW_CAND_ROT k1 = LW_CAND_ROT k"
    "\<And>t. tview (K_tcb k1 t) = tview (K_tcb k t)" "erase k1 = erase k" "K_bug k1 = K_bug k"
    unfolding t_def by blast
  have nn: "next_ring q k \<noteq> []" using ne next_ring_set [of q k] by (metis set_empty)
  then have tr: "next_ring q k = t # tl (next_ring q k)" by (simp add: t_def)
  then have t: "t \<in> set (rring k1 q)" by (metis k1(3) list.set_intros(1))
  have q: "GetPcb k1 t = q" and tS: "t \<in> S" using rdy_invD(4,6) [OF k1(2) t] .
  let ?m = "cand_become c t (ring_leave t q k1)"
  have rm: "remove1 t (next_ring q k) = tl (next_ring q k)" using tr by (metis remove1.simps(2))
  have "TCB_bCPULock (K_tcb k1 t) \<longrightarrow> TCB_ulCPULock (K_tcb k1 t) = c" using q l by (auto simp: GetPcb_def)
  then have "rdy_inv (insert t (S - {t})) ?m"
    using rdy_inv_leave [OF k1(2) t] c k1(5)
    by (intro rdy_inv_cand_become) (auto simp: ring_leave_def Let_def)
  moreover have "insert t (S - {t}) = S" using tS by auto
  ultimately have I: "rdy_inv S ?m" by simp
  have V: "sview (CandTableResel c q k) = sview ?m"
    by (rule sview_eqI) (auto simp: CandTableResel_def k1(1) Let_def DelTCBFromReadyRing_def PcbIsEmpty_def ring_del_def
        ReadyTable_view q cand_become_def ring_leave_def tview_def)
  then show "rdy_inv S (CandTableResel c q k)" using I rdy_inv_sview by blast
  show "LW_CAND_TCB (CandTableResel c q k) = (LW_CAND_TCB k)(c := Some t)"
    by (rule ext) (simp add: sview_eqD(3) [OF V] cand_become_def ring_leave_def Let_def k1(5))
  show "rring (CandTableResel c q k) q' = (if q' = q then tl (next_ring q k) else rring k q')"
    by (simp add: sview_eqD(1) [OF V] cand_become_def ring_leave_def Let_def k1(3) rm)
  have "TCB_ulCPUId (K_tcb k1 u) = TCB_ulCPUId (K_tcb k u)" using k1(7) [of u] by (simp add: tview_def)
  then show "TCB_ulCPUId (K_tcb (CandTableResel c q k) u) \<in> {TCB_ulCPUId (K_tcb k u), c}"
    by (simp add: sview_eqD(5) [OF V] cand_become_def ring_leave_def Let_def)
  show "LW_CAND_ROT (CandTableResel c q k) = LW_CAND_ROT k"
    and "erase (CandTableResel c q k) = erase k" and "K_bug (CandTableResel c q k) = K_bug k"
    by (auto simp: CandTableResel_def k1(1,6,8,9) Let_def DelTCBFromReadyRing_def ReadyTable_view erase_tcb_def)
qed

text \<open>\<^verbatim>\<open>_CandTableSeek\<close> finds the least priority among the threads the processor may run.\<close>

definition eligible :: "kernel \<Rightarrow> nat \<Rightarrow> rdy_loc \<Rightarrow> bool" where
  "eligible k c l \<longleftrightarrow> l = Some c \<or> (l = None \<and> \<not> CPU_bOnlyAffinity (K_cpu k c))"

lemma CandTableSeek_Some:
  assumes inv: "rdy_inv S k" and s: "CandTableSeek c k = Some (l, p)"
  shows "eligible k c l" "rring k (l, p) \<noteq> []" "eligible k c l' \<Longrightarrow> rring k (l', p') \<noteq> [] \<Longrightarrow> p \<le> p'"
proof -
  note B = rdy_invD(1) [OF inv] and R = rdy_invD(2) [OF inv, symmetric]
  have h: "\<not> BitmapIsEmpty (rbmap k l) \<Longrightarrow> BitmapHigh (rbmap k l) \<in> bmap_set (rbmap k l)"
    "p' \<in> bmap_set (rbmap k l) \<Longrightarrow> BitmapHigh (rbmap k l) \<le> p'"
    "BitmapIsEmpty (rbmap k l) \<longleftrightarrow> bmap_set (rbmap k l) = {}" for l p'
    using bmap.is_empty_iff [OF B [of l]] bmap.high_in [OF B [of l]] bmap.high_least [OF B [of l]] by auto
  show "eligible k c l" using s by (auto simp: CandTableSeek_def eligible_def Let_def split: if_splits)
  show "rring k (l, p) \<noteq> []" using s h(1) by (auto simp: CandTableSeek_def R Let_def split: if_splits)
  assume "eligible k c l'" "rring k (l', p') \<noteq> []"
  then have "p' \<in> bmap_set (rbmap k l')" "l' = Some c \<or> (l' = None \<and> \<not> CPU_bOnlyAffinity (K_cpu k c))"
    by (simp_all add: R eligible_def)
  with s h(2) [of p' "Some c"] h(2) [of p' None] h(3) show "p \<le> p'"
    by (auto simp: CandTableSeek_def Let_def split: if_splits)
qed

lemma CandTableSeek_None:
  assumes inv: "rdy_inv S k" and s: "CandTableSeek c k = None" and "eligible k c l"
  shows "rring k (l, p) = []"
proof -
  have "BitmapIsEmpty (rbmap k l)"
    using s assms(3) by (auto simp: CandTableSeek_def eligible_def Let_def split: if_splits)
  then show ?thesis
    using bmap.is_empty_iff [OF rdy_invD(1) [OF inv], of l] rdy_invD(2) [OF inv, of p l] by auto
qed

section \<open>Refilling a candidate slot\<close>

lemma CandTableFill_Resel:
  "CandTableFill c k = (case CandTableSeek c k of None \<Rightarrow> bug k | Some q \<Rightarrow> CandTableResel c q k)"
  by (simp add: CandTableFill_def CandTableResel_def split: option.split)

lemma CandTableSeek_set_cand [simp]: "CandTableSeek c (set_cand c' v k) = CandTableSeek c k"
  by (simp add: CandTableSeek_def set_cand_def rbmap_def)

lemma CandTableResel_set_cand:
  assumes "rring k q \<noteq> []"
  shows "sview (CandTableResel c q k) = sview (CandTableResel c q (set_cand c v k))"
    "erase (CandTableResel c q k) = erase k" "K_bug (CandTableResel c q k) = K_bug k"
proof -
  obtain t ts where r: "rring k q = t # ts" using assms by (cases "rring k q") auto
  show "sview (CandTableResel c q k) = sview (CandTableResel c q (set_cand c v k))"
    by (cases "TCB_usSchedCounter (K_tcb k t) = 0"; rule sview_eqI; cases ts)
      (auto simp: CandTableResel_def CandTableNext_def r Let_def DelTCBFromReadyRing_def PcbIsEmpty_def
        ReadyTable_view ring_next_def)
  show "erase (CandTableResel c q k) = erase k" "K_bug (CandTableResel c q k) = K_bug k"
    by (cases "TCB_usSchedCounter (K_tcb k t) = 0"; cases ts;
        auto simp: CandTableResel_def CandTableNext_def r Let_def DelTCBFromReadyRing_def ReadyTable_view ring_next_def
        erase_tcb_def)+
qed

text \<open>A processor always has a thread bound to it among the threads of the tables.\<close>

definition has_bound :: "tid set \<Rightarrow> kernel \<Rightarrow> nat \<Rightarrow> bool" where
  "has_bound S k c \<longleftrightarrow> (\<exists>i \<in> S. TCB_bCPULock (K_tcb k i) \<and> TCB_ulCPULock (K_tcb k i) = c)"

lemma has_bound_ring:
  assumes inv: "rdy_inv S k" and "has_bound S k c" and "LW_CAND_TCB k c = None"
  shows "\<exists>p. rring k (Some c, p) \<noteq> []"
proof -
  note D = rdy_invD [OF inv]
  from assms(2) obtain i where i: "i \<in> S" "TCB_bCPULock (K_tcb k i)" "TCB_ulCPULock (K_tcb k i) = c"
    by (auto simp: has_bound_def)
  have "\<not> TCB_bIsCand (K_tcb k i)"
  proof
    assume "TCB_bIsCand (K_tcb k i)"
    from D(11) [OF this] D(10) i assms(3) show False by fastforce
  qed
  from D(12) [OF i(1) this] i have "i \<in> set (rring k (Some c, TCB_ucPriority (K_tcb k i)))" by (simp add: GetPcb_def)
  then show ?thesis by (intro exI [of _ "TCB_ucPriority (K_tcb k i)"]) auto
qed

lemma CandTableFill_spec:
  assumes inv: "rdy_inv S (set_cand c None k)" and b: "has_bound S k c"
  shows "rdy_inv S (CandTableFill c k)" "erase (CandTableFill c k) = erase k" "K_bug (CandTableFill c k) = K_bug k"
    "\<exists>t. LW_CAND_TCB (CandTableFill c k) = (LW_CAND_TCB k)(c := Some t)"
    "TCB_ulCPUId (K_tcb (CandTableFill c k) u) \<in> {TCB_ulCPUId (K_tcb k u), c}"
proof -
  let ?k = "set_cand c None k"
  have "has_bound S ?k c" using b by (simp add: has_bound_def)
  with has_bound_ring [OF inv this] obtain p where p: "rring ?k (Some c, p) \<noteq> []" by auto
  have "CandTableSeek c ?k \<noteq> None"
  proof
    assume "CandTableSeek c ?k = None"
    from CandTableSeek_None [OF inv this, of "Some c" p] p show False by (simp add: eligible_def)
  qed
  then obtain q where q: "CandTableSeek c ?k = Some q" by (cases "CandTableSeek c ?k") auto
  have e: "fst q \<in> {None, Some c}" and ne: "rring ?k q \<noteq> []"
    using CandTableSeek_Some(1,2) [OF inv, of c "fst q" "snd q"] q by (auto simp: eligible_def)
  have F: "CandTableFill c k = CandTableResel c q k" using q by (simp add: CandTableFill_Resel)
  have ne': "rring k q \<noteq> []" using ne by simp
  have V: "sview (CandTableFill c k) = sview (CandTableResel c q ?k)"
    unfolding F by (rule CandTableResel_set_cand(1) [OF ne'])
  note R = CandTableResel_spec [OF inv ne _ e]
  show "rdy_inv S (CandTableFill c k)" using R(1) rdy_inv_sview [OF V] by simp
  show "erase (CandTableFill c k) = erase k" "K_bug (CandTableFill c k) = K_bug k"
    unfolding F by (rule CandTableResel_set_cand [OF ne'])+
  show "TCB_ulCPUId (K_tcb (CandTableFill c k) u) \<in> {TCB_ulCPUId (K_tcb k u), c}"
    using R(7) [of u] sview_eqD(5) [OF V, of u] by simp
  have "LW_CAND_TCB (CandTableFill c k) = (LW_CAND_TCB k)(c := Some (hd (next_ring q ?k)))"
    using sview_eqD(3) [OF V] R(2) by (simp add: fun_eq_iff)
  then show "\<exists>t. LW_CAND_TCB (CandTableFill c k) = (LW_CAND_TCB k)(c := Some t)" by blast
qed

section \<open>Removing a thread\<close>

lemma DEL_FROM_READY_RING_spec:
  assumes inv: "rdy_inv S k" and t: "t \<in> S" 
    and b: "TCB_bIsCand (K_tcb k t) \<Longrightarrow> has_bound (S - {t}) k (TCB_ulCPUId (K_tcb k t))"
  shows "rdy_inv (S - {t}) (DEL_FROM_READY_RING t (GetPcb k t) k)"
    and "erase (DEL_FROM_READY_RING t (GetPcb k t) k) = erase k"
    and "K_bug (DEL_FROM_READY_RING t (GetPcb k t) k) = K_bug k"
    and "LW_CAND_TCB k c' \<noteq> None \<Longrightarrow> LW_CAND_TCB (DEL_FROM_READY_RING t (GetPcb k t) k) c' \<noteq> None"
    and "TCB_ulCPUId (K_tcb (DEL_FROM_READY_RING t (GetPcb k t) k) u) \<in> {TCB_ulCPUId (K_tcb k u), TCB_ulCPUId (K_tcb k t)}"
proof -
  let ?q = "GetPcb k t" and ?c = "TCB_ulCPUId (K_tcb k t)"
  have "rdy_inv (S - {t}) (DEL_FROM_READY_RING t ?q k) \<and> erase (DEL_FROM_READY_RING t ?q k) = erase k \<and>
    K_bug (DEL_FROM_READY_RING t ?q k) = K_bug k \<and>
    (LW_CAND_TCB k c' \<noteq> None \<longrightarrow> LW_CAND_TCB (DEL_FROM_READY_RING t ?q k) c' \<noteq> None) \<and>
    TCB_ulCPUId (K_tcb (DEL_FROM_READY_RING t ?q k) u) \<in> {TCB_ulCPUId (K_tcb k u), ?c}"
  proof (cases "TCB_bIsCand (K_tcb k t)")
    case True
    let ?k = "tcb_upd t (\<lambda>b. b\<lparr>TCB_bIsCand := False\<rparr>) k"
    have c: "LW_CAND_TCB k ?c = Some t" using rdy_invD(11) [OF inv True] .
    have E: "DEL_FROM_READY_RING t ?q k = set_rot ?c False (CandTableFill ?c ?k)"
      using True c by (simp add: DEL_FROM_READY_RING_def CandTableTryDel_def Let_def)
    have "rdy_inv (S - {t}) (set_cand ?c None ?k)"
      using rdy_inv_cand_leave [OF inv c] by (simp add: cand_leave_def)
    moreover have "has_bound (S - {t}) ?k ?c" using b [OF True] by (simp add: has_bound_def)
    ultimately have F: "rdy_inv (S - {t}) (CandTableFill ?c ?k)" "erase (CandTableFill ?c ?k) = erase ?k"
      "K_bug (CandTableFill ?c ?k) = K_bug ?k" "\<exists>t. LW_CAND_TCB (CandTableFill ?c ?k) = (LW_CAND_TCB ?k)(?c := Some t)"
      "TCB_ulCPUId (K_tcb (CandTableFill ?c ?k) u) \<in> {TCB_ulCPUId (K_tcb ?k u), ?c}"
      by (rule CandTableFill_spec)+
    then show ?thesis
      using rdy_inv_sview [of "set_rot ?c False (CandTableFill ?c ?k)" "CandTableFill ?c ?k" "S - {t}"]
      unfolding E by (auto simp: erase_tcb_def)
  next
    case False
    have r: "t \<in> set (rring k ?q)" using rdy_invD(12) [OF inv t False] .
    have nc: "LW_CAND_TCB k ?c \<noteq> Some t" using rdy_invD(7) [OF inv] False by blast
    have V: "sview (DEL_FROM_READY_RING t ?q k) = sview (ring_leave t ?q k)"
      using False nc by (intro sview_eqI)
        (auto simp: DEL_FROM_READY_RING_def DelTCBFromReadyRing_def ring_del_def CandTableTryDel_def Let_def
          PcbIsEmpty_def ring_leave_def ReadyTable_view)
    have "rdy_inv (S - {t}) (DEL_FROM_READY_RING t ?q k)"
      using rdy_inv_leave [OF inv r] rdy_inv_sview [OF V] by simp
    then show ?thesis using False nc
      by (auto simp: DEL_FROM_READY_RING_def DelTCBFromReadyRing_def CandTableTryDel_def Let_def ReadyTable_view)
  qed
  then show "rdy_inv (S - {t}) (DEL_FROM_READY_RING t ?q k)" "erase (DEL_FROM_READY_RING t ?q k) = erase k"
    "K_bug (DEL_FROM_READY_RING t ?q k) = K_bug k"
    "LW_CAND_TCB k c' \<noteq> None \<Longrightarrow> LW_CAND_TCB (DEL_FROM_READY_RING t ?q k) c' \<noteq> None"
    "TCB_ulCPUId (K_tcb (DEL_FROM_READY_RING t ?q k) u) \<in> {TCB_ulCPUId (K_tcb k u), ?c}" by auto
qed

section \<open>Adding a thread\<close>

text \<open>The processor numbers of a control block are those of real processors.\<close>

definition cpuid_ok :: "kernel \<Rightarrow> tid \<Rightarrow> bool" where
  "cpuid_ok k t \<longleftrightarrow> TCB_ulCPUId (K_tcb k t) < K_ncpus k \<and>
     (TCB_bCPULock (K_tcb k t) \<longrightarrow> TCB_ulCPULock (K_tcb k t) < K_ncpus k)"

definition tryadd_ok :: "tid \<Rightarrow> kernel \<Rightarrow> try_add \<times> kernel \<Rightarrow> bool" where
  "tryadd_ok t k r \<longleftrightarrow> erase (snd r) = erase k \<and> K_bug (snd r) = K_bug k \<and>
     (if fst r = Added then
        \<exists>c. LW_CAND_TCB k c = None \<and> (TCB_bCPULock (K_tcb k t) \<longrightarrow> TCB_ulCPULock (K_tcb k t) = c) \<and>
          (cpuid_ok k t \<longrightarrow> c < K_ncpus k) \<and> sview (snd r) = sview (cand_become c t k)
      else sview (snd r) = sview k)"

lemma sview_cand_become:
  assumes "sview k' = sview k"
  shows "sview (cand_become c t k') = sview (cand_become c t k)"
  by (rule sview_eqI)
    (use sview_eqD [OF assms] in \<open>auto simp: cand_become_def Let_def tview_def\<close>)

lemma tryadd_ok_rot:
  "tryadd_ok t (set_rot i v k) r \<Longrightarrow> tryadd_ok t k r"
  using sview_cand_become [OF sview_set_rot [of i v k]] by (auto simp: tryadd_ok_def cpuid_ok_def)

lemma tryadd_ok_become:
  "LW_CAND_TCB k c = None \<Longrightarrow> (TCB_bCPULock (K_tcb k t) \<Longrightarrow> TCB_ulCPULock (K_tcb k t) = c) \<Longrightarrow>
     (cpuid_ok k t \<Longrightarrow> c < K_ncpus k) \<Longrightarrow> tryadd_ok t k (Added, cand_become c t k)"
  by (auto simp: tryadd_ok_def) (auto simp: cand_become_def Let_def)

lemma tryadd_ok_none:
  "r \<noteq> Added \<Longrightarrow> tryadd_ok t k (r, k)" "r \<noteq> Added \<Longrightarrow> tryadd_ok t k (r, set_rot i v k)"
  by (auto simp: tryadd_ok_def)

lemma tryadd_idle_ok: "set is \<subseteq> {..<K_ncpus k} \<Longrightarrow> \<not> TCB_bCPULock (K_tcb k t) \<Longrightarrow> tryadd_ok t k (tryadd_idle is t k)"
  by (induction "is" t k rule: tryadd_idle.induct) (auto simp: tryadd_ok_none intro: tryadd_ok_become split: option.split)

lemma tryadd_rot_ok: "set is \<subseteq> {..<K_ncpus k} \<Longrightarrow> \<not> TCB_bCPULock (K_tcb k t) \<Longrightarrow> tryadd_ok t k (tryadd_rot is t k)"
  by (induction "is" t k rule: tryadd_rot.induct)
    (auto simp: tryadd_ok_none intro: tryadd_ok_rot tryadd_ok_become split: option.split)

lemma tryadd_ok_trans:
  assumes "tryadd_ok t k (r, k1)" and "r \<noteq> Added" and "tryadd_ok t k1 r'"
  shows "tryadd_ok t k r'"
proof -
  have V: "sview k1 = sview k" using assms(1,2) by (simp add: tryadd_ok_def)
  have E: "erase k1 = erase k" using assms(1) by (simp add: tryadd_ok_def)
  show ?thesis using assms(1,3) sview_cand_become [OF V] sview_eqD [OF V] V erase_eqD(7) [OF E]
    by (auto simp: tryadd_ok_def cpuid_ok_def)
qed

lemma tryadd_others_ok: "\<not> TCB_bCPULock (K_tcb k t) \<Longrightarrow> tryadd_ok t k (tryadd_others t k)"
proof -
  assume l: "\<not> TCB_bCPULock (K_tcb k t)"
  obtain r k1 where i: "tryadd_idle [0..<K_ncpus k] t k = (r, k1)" by force
  have ok: "tryadd_ok t k (r, k1)" using tryadd_idle_ok [of "[0..<K_ncpus k]", OF _ l] by (simp add: i lessThan_atLeast0)
  show ?thesis
  proof (cases r)
    case NoCand
    have "sview k1 = sview k" using ok NoCand by (simp add: tryadd_ok_def)
    then have "\<not> TCB_bCPULock (K_tcb k1 t)" using l sview_eqD(6) by blast
    then have "tryadd_ok t k1 (tryadd_rot [0..<K_ncpus k1] t k1)" by (intro tryadd_rot_ok) auto
    from tryadd_ok_trans [OF ok _ this] show ?thesis by (simp add: tryadd_others_def i NoCand)
  qed (use ok i in \<open>simp_all add: tryadd_others_def\<close>)
qed

lemma tryadd_free_ok: "\<not> TCB_bCPULock (K_tcb k t) \<Longrightarrow> tryadd_ok t k (tryadd_free t k)"
proof -
  assume l: "\<not> TCB_bCPULock (K_tcb k t)"
  let ?c = "TCB_ulCPUId (K_tcb k t)"
  have "sview (tcb_upd t (\<lambda>b. b\<lparr>TCB_bIsCand := True\<rparr>) (set_cand ?c (Some t) k)) = sview (cand_become ?c t k)"
    by (rule sview_eqI) (auto simp: cand_become_def Let_def tview_def)
  then have "LW_CAND_TCB k ?c = None \<Longrightarrow>
    tryadd_ok t k (Added, tcb_upd t (\<lambda>b. b\<lparr>TCB_bIsCand := True\<rparr>) (set_cand ?c (Some t) k))"
    using l by (auto simp: tryadd_ok_def erase_tcb_def cpuid_ok_def)
  with l show ?thesis
    by (auto simp: tryadd_free_def Let_def tryadd_ok_none tryadd_others_ok split: option.split)
qed

lemma tryadd_locked_ok: "TCB_bCPULock (K_tcb k t) \<Longrightarrow> tryadd_ok t k (tryadd_locked t k)"
  by (auto simp: tryadd_locked_def Let_def tryadd_ok_none cpuid_ok_def intro: tryadd_ok_become split: option.split)

lemma ADD_TO_READY_RING_spec:
  assumes inv: "rdy_inv S k" and t: "t \<notin> S"
  shows "rdy_inv (insert t S) (ADD_TO_READY_RING t (GetPcb k t) k)"
    and "erase (ADD_TO_READY_RING t (GetPcb k t) k) = erase k"
    and "K_bug (ADD_TO_READY_RING t (GetPcb k t) k) = K_bug k"
    and "LW_CAND_TCB k c' \<noteq> None \<Longrightarrow> LW_CAND_TCB (ADD_TO_READY_RING t (GetPcb k t) k) c' = LW_CAND_TCB k c'"
    and "cpuid_ok k t \<Longrightarrow> TCB_ulCPUId (K_tcb (ADD_TO_READY_RING t (GetPcb k t) k) u) = TCB_ulCPUId (K_tcb k u) \<or>
       TCB_ulCPUId (K_tcb (ADD_TO_READY_RING t (GetPcb k t) k) u) < K_ncpus k"
proof -
  let ?q = "GetPcb k t"
  obtain r k1 where tr: "(if TCB_bCPULock (K_tcb k t) then tryadd_locked t k else tryadd_free t k) = (r, k1)" by force
  have ok: "tryadd_ok t k (r, k1)"
    using tryadd_locked_ok [of k t] tryadd_free_ok [of k t] unfolding tr [symmetric] by simp
  have "rdy_inv (insert t S) (ADD_TO_READY_RING t ?q k) \<and> erase (ADD_TO_READY_RING t ?q k) = erase k \<and>
    K_bug (ADD_TO_READY_RING t ?q k) = K_bug k \<and>
    (LW_CAND_TCB k c' \<noteq> None \<longrightarrow> LW_CAND_TCB (ADD_TO_READY_RING t ?q k) c' = LW_CAND_TCB k c') \<and>
    (cpuid_ok k t \<longrightarrow> TCB_ulCPUId (K_tcb (ADD_TO_READY_RING t ?q k) u) = TCB_ulCPUId (K_tcb k u) \<or>
       TCB_ulCPUId (K_tcb (ADD_TO_READY_RING t ?q k) u) < K_ncpus k)"
  proof (cases "r = Added")
    case True
    then obtain c where c: "LW_CAND_TCB k c = None" "TCB_bCPULock (K_tcb k t) \<longrightarrow> TCB_ulCPULock (K_tcb k t) = c"
      "sview k1 = sview (cand_become c t k)" "cpuid_ok k t \<longrightarrow> c < K_ncpus k" using ok by (auto simp: tryadd_ok_def)
    have "rdy_inv (insert t S) k1"
      using rdy_inv_cand_become [OF inv t c(1,2)] rdy_inv_sview [OF c(3)] by simp
    moreover have "LW_CAND_TCB k1 c' = ((LW_CAND_TCB k)(c := Some t)) c'"
      using sview_eqD(3) [OF c(3)] by (simp add: cand_become_def Let_def)
    moreover have "TCB_ulCPUId (K_tcb k1 u) = (if u = t then c else TCB_ulCPUId (K_tcb k u))"
      using sview_eqD(5) [OF c(3), of u] by (simp add: cand_become_def Let_def)
    ultimately show ?thesis
      using ok c(1,4) True by (auto simp: ADD_TO_READY_RING_def CandTableTryAdd_def tr tryadd_ok_def)
  next
    case False
    then have V: "sview k1 = sview k" using ok by (simp add: tryadd_ok_def)
    let ?k2 = "if PcbIsEmpty k1 ?q then ReadyTableAdd t k1 else k1"
    from AddTCBToReadyRing_view [of t ?q False ?k2] obtain f where f:
      "AddTCBToReadyRing t ?q False ?k2 = rring_upd ?q f ?k2"
      "\<And>xs. distinct (t # xs) \<Longrightarrow> distinct (f xs) \<and> set (f xs) = insert t (set xs) \<and> f xs \<noteq> []" by blast
    have A: "ADD_TO_READY_RING t ?q k = rring_upd ?q f ?k2"
      using False f(1) by (cases r) (simp_all add: ADD_TO_READY_RING_def CandTableTryAdd_def tr)
    have V2: "sview (rring_upd ?q f ?k2) = sview (ring_enter t ?q f k)"
      by (rule sview_eqI) (use sview_eqD [OF V] in
          \<open>auto simp: ring_enter_def PcbIsEmpty_def ReadyTable_view tview_def\<close>)
    have "rdy_inv (insert t S) (rring_upd ?q f ?k2)"
      using rdy_inv_enter [OF inv t f(2)] rdy_inv_sview [OF V2] by blast
    then show ?thesis unfolding A
      using ok False sview_eqD(3,5) [OF V] by (auto simp: tryadd_ok_def ReadyTable_view)
  qed
  then show "rdy_inv (insert t S) (ADD_TO_READY_RING t ?q k)" "erase (ADD_TO_READY_RING t ?q k) = erase k"
    "K_bug (ADD_TO_READY_RING t ?q k) = K_bug k"
    "LW_CAND_TCB k c' \<noteq> None \<Longrightarrow> LW_CAND_TCB (ADD_TO_READY_RING t ?q k) c' = LW_CAND_TCB k c'"
    "cpuid_ok k t \<Longrightarrow> TCB_ulCPUId (K_tcb (ADD_TO_READY_RING t ?q k) u) = TCB_ulCPUId (K_tcb k u) \<or>
       TCB_ulCPUId (K_tcb (ADD_TO_READY_RING t ?q k) u) < K_ncpus k" by auto
qed

end
