(* ===== verification/CandUpdate.thy ===== *)
theory CandUpdate
  imports CandTable
begin

text \<open>
  What \<^verbatim>\<open>_CandTableUpdate\<close> promises: the tables stay consistent, no candidate is lost, and
  afterwards no waiting thread the processor may run has a higher priority than its candidate;
  a candidate whose time slice is used up goes to the end of the ring of its priority.
\<close>

section \<open>Marking other processors\<close>

definition cands_full :: "kernel \<Rightarrow> bool" where
  "cands_full k \<longleftrightarrow> (\<forall>c < K_ncpus k. CPU_bActive (K_cpu k c) \<longrightarrow> LW_CAND_TCB k c \<noteq> None)"

lemma active_set_rot [simp]: "CPU_bActive (K_cpu (set_rot i v k) c) = CPU_bActive (K_cpu k c)"
  by (simp add: set_rot_def)

lemma notify_idle_frame:
  "sview (snd (notify_idle is c k)) = sview k \<and> erase (snd (notify_idle is c k)) = erase k"
  by (induction "is" c k rule: notify_idle.induct) (auto split: option.split)

lemma notify_rot_frame:
  "sview (notify_rot is c t k) = sview k \<and> erase (notify_rot is c t k) = erase k"
  by (induction "is" c t k rule: notify_rot.induct) (auto split: option.split)

lemma notify_idle_tcb: "K_tcb (snd (notify_idle is c k)) = K_tcb k"
  by (induction "is" c k rule: notify_idle.induct) (auto split: option.split)

lemma notify_rot_tcb: "K_tcb (notify_rot is c t k) = K_tcb k"
  by (induction "is" c t k rule: notify_rot.induct) (auto split: option.split)

lemma CandTableNotify_tcb: "K_tcb (CandTableNotify c t k) = K_tcb k"
  using notify_idle_tcb [of "[0..<K_ncpus k]" c k] notify_rot_tcb
  by (auto simp: CandTableNotify_def split: prod.splits bool.splits)

lemma notify_idle_bug:
  "\<forall>i \<in> set is. CPU_bActive (K_cpu k i) \<longrightarrow> LW_CAND_TCB k i \<noteq> None \<Longrightarrow>
     K_bug (snd (notify_idle is c k)) = K_bug k"
  by (induction "is" c k rule: notify_idle.induct) (auto split: option.split)

lemma notify_rot_bug:
  "\<forall>i \<in> set is. CPU_bActive (K_cpu k i) \<longrightarrow> LW_CAND_TCB k i \<noteq> None \<Longrightarrow>
     K_bug (notify_rot is c t k) = K_bug k"
  by (induction "is" c t k rule: notify_rot.induct) (auto split: option.split)

lemma CandTableNotify_frame:
  "sview (CandTableNotify c t k) = sview k" "erase (CandTableNotify c t k) = erase k"
  using notify_idle_frame [of "[0..<K_ncpus k]" c k] notify_rot_frame
  by (auto simp: CandTableNotify_def split: prod.splits bool.splits)

lemma CandTableNotify_bug:
  assumes "cands_full k"
  shows "K_bug (CandTableNotify c t k) = K_bug k"
proof -
  obtain b k1 where n: "notify_idle [0..<K_ncpus k] c k = (b, k1)" by force
  have f: "sview k1 = sview k" "erase k1 = erase k" "K_bug k1 = K_bug k"
    using notify_idle_frame [of "[0..<K_ncpus k]" c k] notify_idle_bug [of "[0..<K_ncpus k]" k c] assms
    by (auto simp: n cands_full_def)
  then have "K_bug (notify_rot [0..<K_ncpus k1] c t k1) = K_bug k1"
    using assms erase_eqD(7,9) [OF f(2)] sview_eqD(3) [OF f(1)]
    by (intro notify_rot_bug) (auto simp: cands_full_def)
  with f(3) show ?thesis by (cases b) (simp_all add: CandTableNotify_def n)
qed

section \<open>Updating a candidate\<close>

lemma eligible_erase: "erase k' = erase k \<Longrightarrow> eligible k' c l = eligible k c l"
  unfolding eligible_def using erase_eqD(10) by metis

lemma CandTableEmpty_view:
  assumes inv: "rdy_inv S k" and c: "LW_CAND_TCB k c = Some t"
  shows "LW_CAND_TCB (CandTableEmpty c k) = (LW_CAND_TCB k)(c := None)"
    and "rring (CandTableEmpty c k) q = (if q = GetPcb k t then t # rring k q else rring k q)"
  using sview_eqD(1,3) [OF CandTableEmpty_moves(1) [OF inv c]]
  by (auto simp: fun_eq_iff ring_enter_def cand_leave_def ring_add_ahead_def)

text \<open>The state after the candidate was put back and the slot refilled.\<close>

lemma Empty_Resel_spec:
  assumes inv: "rdy_inv S k" and c: "LW_CAND_TCB k c = Some t" and s: "CandTableSeek c k = Some q"
  defines "k1 \<equiv> CandTableEmpty c k"
  defines "k2 \<equiv> CandTableResel c q k1"
  shows "rdy_inv S k2" "erase k2 = erase k" "K_bug k2 = K_bug k"
    "LW_CAND_TCB k2 = (LW_CAND_TCB k)(c := Some (hd (next_ring q k1)))"
    "rring k2 q' = (if q' = q then tl (next_ring q k1) else rring k1 q')"
    "rring k1 q \<noteq> []" "TCB_ulCPUId (K_tcb k2 u) \<in> {TCB_ulCPUId (K_tcb k u), c}"
proof -
  have S: "eligible k c (fst q)" "rring k q \<noteq> []" using CandTableSeek_Some(1,2) [OF inv, of c "fst q" "snd q"] s by auto
  have i1: "rdy_inv S k1" unfolding k1_def by (rule CandTableEmpty_inv [OF inv c])
  show ne: "rring k1 q \<noteq> []" using S(2) CandTableEmpty_view(2) [OF inv c] by (simp add: k1_def)
  have c1: "LW_CAND_TCB k1 c = None" using CandTableEmpty_view(1) [OF inv c] by (simp add: k1_def)
  have e: "fst q \<in> {None, Some c}" using S(1) by (auto simp: eligible_def)
  note R = CandTableResel_spec [OF i1 ne c1 e]
  show "rdy_inv S k2" unfolding k2_def by (rule R(1))
  show "erase k2 = erase k" "K_bug k2 = K_bug k"
    using R(5,6) CandTableEmpty_moves(2,3) [OF inv c] by (simp_all add: k2_def k1_def)
  show "LW_CAND_TCB k2 = (LW_CAND_TCB k)(c := Some (hd (next_ring q k1)))"
    using R(2) CandTableEmpty_view(1) [OF inv c] by (simp add: k2_def k1_def)
  show "rring k2 q' = (if q' = q then tl (next_ring q k1) else rring k1 q')" unfolding k2_def by (rule R(3))
  show "TCB_ulCPUId (K_tcb k2 u) \<in> {TCB_ulCPUId (K_tcb k u), c}"
    using R(7) [of u] CandTableEmpty_moves(4) [OF inv c] by (auto simp: k2_def k1_def)
qed

lemma CandTableUpdate_rotate:
  assumes inv: "rdy_inv S k" and a: "CPU_bActive (K_cpu k c)" and c: "LW_CAND_TCB k c = Some t"
    and s: "CandTableSeek c k = Some q" and n: "need_rotate c t (snd q) k"
  shows "sview (CandTableUpdate c k) = sview (CandTableResel c q (CandTableEmpty c k))"
    and "erase (CandTableUpdate c k) = erase k"
    and "cands_full k \<Longrightarrow> K_bug (CandTableUpdate c k) = K_bug k"
proof -
  let ?k2 = "CandTableResel c q (CandTableEmpty c k)"
  note R = Empty_Resel_spec [OF inv c s]
  show "sview (CandTableUpdate c k) = sview ?k2"
    by (simp add: CandTableUpdate_def a c s n Let_def CandTableNotify_frame)
  show "erase (CandTableUpdate c k) = erase k"
    by (simp add: CandTableUpdate_def a c s n Let_def CandTableNotify_frame R(2))
  assume f: "cands_full k"
  have "cands_full ?k2" using f erase_eqD(7,9) [OF R(2)] by (auto simp: cands_full_def R(4))
  then show "K_bug (CandTableUpdate c k) = K_bug k"
    by (simp add: CandTableUpdate_def a c s n Let_def CandTableNotify_bug R(3))
qed

lemma CandTableUpdate_keep:
  assumes "CPU_bActive (K_cpu k c)" and "LW_CAND_TCB k c = Some t"
    and "CandTableSeek c k = None \<or> (\<exists>q. CandTableSeek c k = Some q \<and> \<not> need_rotate c t (snd q) k)"
  shows "CandTableUpdate c k = set_rot c False k"
  using assms by (auto simp: CandTableUpdate_def)

lemma CandTableUpdate_fill:
  assumes "CPU_bActive (K_cpu k c)" and "LW_CAND_TCB k c = None"
  shows "CandTableUpdate c k = set_rot c False (CandTableFill c k)"
  using assms by (simp add: CandTableUpdate_def)

lemma Resel_least:
  assumes inv: "rdy_inv S k" and ne: "rring k q \<noteq> []" and c: "LW_CAND_TCB k c = None" and l: "fst q \<in> {None, Some c}"
    and m: "\<And>l' p'. eligible k c l' \<Longrightarrow> rring k (l', p') \<noteq> [] \<Longrightarrow> snd q \<le> p'"
    and k': "sview k' = sview (CandTableResel c q k)" and u: "u \<in> set (rring k' q')" and e: "eligible k c (fst q')"
  shows "\<exists>t. LW_CAND_TCB k' c = Some t \<and> prio k' t \<le> prio k' u"
proof -
  let ?t = "hd (next_ring q k)"
  note R = CandTableResel_spec [OF inv ne c l]
  have V: "rring k' q' = rring (CandTableResel c q k) q'" "LW_CAND_TCB k' c = Some ?t"
    and P: "\<And>x. GetPcb k' x = GetPcb k x"
    using sview_eqD(1,3,9) [OF k'] R(2) erase_eqD(17) [OF R(5)] by auto
  have nn: "next_ring q k \<noteq> []" using ne next_ring_set [of q k] by (metis set_empty)
  then have "?t \<in> set (rring k q)" using next_ring_set [of q k] hd_in_set by blast
  then have t: "GetPcb k ?t = q" using rdy_invD(4) [OF inv] by blast
  have "u \<in> set (rring k q')"
    using u nn V(1) R(3) [of q'] next_ring_set [of q k] by (auto simp: V(1) dest: list.set_sel(2) split: if_splits)
  then have "GetPcb k u = q'" "rring k (fst q', snd q') \<noteq> []" using rdy_invD(4) [OF inv] by auto
  with m [OF e] t P have "snd (GetPcb k' ?t) \<le> snd (GetPcb k' u)" by auto
  with V(2) show ?thesis by (auto simp: GetPcb_def prio_def split: if_splits)
qed

lemma CandTableUpdate_spec:
  assumes inv: "rdy_inv S k" and b: "has_bound S k c" and a: "CPU_bActive (K_cpu k c)"
  shows "rdy_inv S (CandTableUpdate c k)" "erase (CandTableUpdate c k) = erase k"
    "\<exists>t. LW_CAND_TCB (CandTableUpdate c k) = (LW_CAND_TCB k)(c := Some t)"
    "cands_full k \<Longrightarrow> K_bug (CandTableUpdate c k) = K_bug k"
    "TCB_ulCPUId (K_tcb (CandTableUpdate c k) u) \<in> {TCB_ulCPUId (K_tcb k u), c}"
proof -
  have "rdy_inv S (CandTableUpdate c k) \<and> erase (CandTableUpdate c k) = erase k \<and>
    (\<exists>t. LW_CAND_TCB (CandTableUpdate c k) = (LW_CAND_TCB k)(c := Some t)) \<and>
    (cands_full k \<longrightarrow> K_bug (CandTableUpdate c k) = K_bug k) \<and>
    TCB_ulCPUId (K_tcb (CandTableUpdate c k) u) \<in> {TCB_ulCPUId (K_tcb k u), c}"
  proof (cases "LW_CAND_TCB k c")
    case None
    have "sview (set_cand c None k) = sview k" by (rule sview_eqI) (auto simp: None)
    then have "rdy_inv S (set_cand c None k)" using inv rdy_inv_sview by blast
    note F = CandTableFill_spec [OF this b]
    show ?thesis unfolding CandTableUpdate_fill [OF a None]
      using F(1-4) F(5) [of u] rdy_inv_sview [OF sview_set_rot, of S c False] by auto
  next
    case (Some t)
    show ?thesis
    proof (cases "\<exists>q. CandTableSeek c k = Some q \<and> need_rotate c t (snd q) k")
      case True
      then obtain q where q: "CandTableSeek c k = Some q" "need_rotate c t (snd q) k" by blast
      note U = CandTableUpdate_rotate [OF inv a Some q] and E = Empty_Resel_spec [OF inv Some q(1)]
      have "LW_CAND_TCB (CandTableUpdate c k) = LW_CAND_TCB (CandTableResel c q (CandTableEmpty c k))"
        using sview_eqD(3) [OF U(1)] by blast
      moreover have "TCB_ulCPUId (K_tcb (CandTableUpdate c k) u) \<in> {TCB_ulCPUId (K_tcb k u), c}"
        using E(7) [of u] sview_eqD(5) [OF U(1), of u] by simp
      ultimately show ?thesis using U(2,3) E(1,4) rdy_inv_sview [OF U(1)] by auto
    next
      case False
      then have "CandTableUpdate c k = set_rot c False k"
        by (intro CandTableUpdate_keep [OF a Some]) (cases "CandTableSeek c k", auto)
      then show ?thesis using inv rdy_inv_sview [OF sview_set_rot, of S c False k] Some
        by (auto intro!: exI [of _ t] simp: fun_eq_iff)
    qed
  qed
  then show "rdy_inv S (CandTableUpdate c k)" "erase (CandTableUpdate c k) = erase k"
    "\<exists>t. LW_CAND_TCB (CandTableUpdate c k) = (LW_CAND_TCB k)(c := Some t)"
    "cands_full k \<Longrightarrow> K_bug (CandTableUpdate c k) = K_bug k"
    "TCB_ulCPUId (K_tcb (CandTableUpdate c k) u) \<in> {TCB_ulCPUId (K_tcb k u), c}" by blast+
qed

lemma Empty_least:
  assumes inv: "rdy_inv S k" and c: "LW_CAND_TCB k c = Some t" and s: "CandTableSeek c k = Some q"
    and n: "need_rotate c t (snd q) k" and e: "eligible k c l'" and r: "rring (CandTableEmpty c k) (l', p') \<noteq> []"
  shows "snd q \<le> p'"
proof (cases "rring k (l', p') = []")
  case True
  with r have g: "GetPcb k t = (l', p')" using CandTableEmpty_view(2) [OF inv c] by (simp split: if_splits)
  then have "TCB_bCPULock (K_tcb k t) \<or> \<not> CPU_bOnlyAffinity (K_cpu k c)" using e
    by (auto simp: GetPcb_def eligible_def split: if_splits)
  then have "snd q \<le> prio k t" using n by (auto simp: need_rotate_def split: if_splits)
  with g show ?thesis by (auto simp: GetPcb_def prio_def split: if_splits)
next
  case False
  then show ?thesis using CandTableSeek_Some(3) [OF inv, of c "fst q" "snd q"] s e by auto
qed

lemma CandTableUpdate_least:
  assumes inv: "rdy_inv S k" and b: "has_bound S k c" and a: "CPU_bActive (K_cpu k c)"
    and u: "u \<in> set (rring (CandTableUpdate c k) q')" and e: "eligible k c (fst q')"
  shows "\<exists>t. LW_CAND_TCB (CandTableUpdate c k) c = Some t \<and> prio (CandTableUpdate c k) t \<le> prio (CandTableUpdate c k) u"
proof (cases "LW_CAND_TCB k c")
  case None
  have V: "sview (set_cand c None k) = sview k" by (rule sview_eqI) (auto simp: None)
  have "\<exists>p. rring k (Some c, p) \<noteq> []" by (rule has_bound_ring [OF inv b None])
  then obtain q where q: "CandTableSeek c k = Some q"
    using CandTableSeek_None [OF inv, of c "Some c"] by (cases "CandTableSeek c k") (auto simp: eligible_def)
  note S = CandTableSeek_Some [OF inv, of c "fst q" "snd q", simplified, OF q]
  have "sview (CandTableUpdate c k) = sview (CandTableResel c q k)"
    by (simp add: CandTableUpdate_fill [OF a None] CandTableFill_Resel q)
  from Resel_least [OF inv _ None _ _ this u e] S show ?thesis by (auto simp: eligible_def)
next
  case (Some t)
  show ?thesis
  proof (cases "\<exists>q. CandTableSeek c k = Some q \<and> need_rotate c t (snd q) k")
    case True
    then obtain q where q: "CandTableSeek c k = Some q" "need_rotate c t (snd q) k" by blast
    let ?k1 = "CandTableEmpty c k"
    note S = CandTableSeek_Some [OF inv, of c "fst q" "snd q", simplified, OF q(1)]
    have E: "eligible ?k1 c l = eligible k c l" for l
      using CandTableEmpty_moves(2) [OF inv Some] by (rule eligible_erase)
    show ?thesis
    proof (rule Resel_least [OF CandTableEmpty_inv [OF inv Some] Empty_Resel_spec(6) [OF inv Some q(1)] _ _ _
          CandTableUpdate_rotate(1) [OF inv a Some q] u])
      show "LW_CAND_TCB ?k1 c = None" using CandTableEmpty_view(1) [OF inv Some] by simp
      show "fst q \<in> {None, Some c}" using S(1) by (auto simp: eligible_def)
      show "eligible ?k1 c (fst q')" using e by (simp add: E)
      show "snd q \<le> p'" if "eligible ?k1 c l'" "rring ?k1 (l', p') \<noteq> []" for l' p'
        using Empty_least [OF inv Some q] that by (simp add: E)
    qed
  next
    case False
    then have K: "CandTableUpdate c k = set_rot c False k"
      by (intro CandTableUpdate_keep [OF a Some]) (cases "CandTableSeek c k", auto)
    have u': "u \<in> set (rring k q')" and ne: "rring k (fst q', snd q') \<noteq> []" using u by (auto simp: K)
    have "GetPcb k u = q'" by (rule rdy_invD(4) [OF inv u'])
    then have pu: "prio k u = snd q'" by (auto simp: GetPcb_def prio_def split: if_splits)
    obtain q where q: "CandTableSeek c k = Some q"
      using CandTableSeek_None [OF inv _ e, of "snd q'"] ne by (cases "CandTableSeek c k") auto
    have "snd q \<le> snd q'" using CandTableSeek_Some(3) [OF inv, of c "fst q" "snd q"] q e ne by simp
    moreover have "prio k t \<le> snd q"
      using False q by (auto simp: need_rotate_def not_le not_less split: if_splits)
    ultimately show ?thesis using Some pu by (auto simp: K prio_def)
  qed
qed

text \<open>An exhausted time slice: the candidate goes behind the threads of its priority, with a full slice.\<close>

lemma CandTableUpdate_round_robin:
  assumes inv: "rdy_inv S k" and a: "CPU_bActive (K_cpu k c)" and c: "LW_CAND_TCB k c = Some t"
    and z: "TCB_usSchedCounter (K_tcb k t) = 0" and s: "CandTableSeek c k = Some (GetPcb k t)"
    and r: "rring k (GetPcb k t) = y # ys"
  shows "LW_CAND_TCB (CandTableUpdate c k) c = Some y" "rring (CandTableUpdate c k) (GetPcb k t) = ys @ [t]"
    "TCB_usSchedCounter (K_tcb (CandTableUpdate c k) t) = TCB_usSchedSlice (K_tcb k t)"
proof -
  let ?q = "GetPcb k t" and ?k1 = "CandTableEmpty c k"
  have "snd ?q = prio k t" by (simp add: GetPcb_def prio_def)
  then have n: "need_rotate c t (snd ?q) k" by (simp add: need_rotate_def z)
  note U = CandTableUpdate_rotate [OF inv a c s n] and E = Empty_Resel_spec [OF inv c s]
  have r1: "rring ?k1 ?q = t # y # ys" using CandTableEmpty_view(2) [OF inv c] r by simp
  have z1: "TCB_usSchedCounter (K_tcb ?k1 t) = 0" using CandTableEmpty_moves(4) [OF inv c] z by simp
  have nr: "next_ring ?q ?k1 = y # ys @ [t]" by (simp add: next_ring_def r1 z1)
  show "LW_CAND_TCB (CandTableUpdate c k) c = Some y" using sview_eqD(3) [OF U(1)] E(4) nr by simp
  show "rring (CandTableUpdate c k) ?q = ys @ [t]" using sview_eqD(1) [OF U(1)] E(5) nr by simp
  have ty: "t \<noteq> y" using rdy_invD(5,7) [OF inv] c r by (metis list.set_intros(1))
  have "TCB_usSchedCounter (K_tcb (CandTableResel c ?q ?k1) t) = TCB_usSchedSlice (K_tcb ?k1 t)"
    using ty by (auto simp: CandTableResel_def CandTableNext_def r1 z1 Let_def DelTCBFromReadyRing_def
        ReadyTable_view ring_next_def)
  then show "TCB_usSchedCounter (K_tcb (CandTableUpdate c k) t) = TCB_usSchedSlice (K_tcb k t)"
    using CandTableEmpty_moves(4) [OF inv c]
    by (simp add: CandTableUpdate_def a c s n Let_def CandTableNotify_tcb)
qed

section \<open>The invariant of the scheduler\<close>

text \<open>
  The tables are consistent, every active processor has a candidate, every processor has its
  idle thread (the thread with its number, bound to it), and no bug stop was reached.
\<close>

definition sched_ok :: "tid set \<Rightarrow> kernel \<Rightarrow> bool" where
  "sched_ok S k \<longleftrightarrow> rdy_inv S k \<and> cands_full k \<and> \<not> K_bug k \<and> (\<forall>t. cpuid_ok k t) \<and>
     (\<forall>c < K_ncpus k. c \<in> S \<and> TCB_bCPULock (K_tcb k c) \<and> TCB_ulCPULock (K_tcb k c) = c)"

lemma sched_okD:
  assumes "sched_ok S k"
  shows "rdy_inv S k" "cands_full k" "\<not> K_bug k" "cpuid_ok k t"
    "c < K_ncpus k \<Longrightarrow> c \<in> S \<and> TCB_bCPULock (K_tcb k c) \<and> TCB_ulCPULock (K_tcb k c) = c"
  using assms by (auto simp: sched_ok_def)

lemma sched_okI:
  assumes ok: "sched_ok S k" and E: "erase k' = erase k" and "rdy_inv S' k'" and "K_bug k' = K_bug k"
    and "\<And>c. LW_CAND_TCB k c \<noteq> None \<Longrightarrow> LW_CAND_TCB k' c \<noteq> None"
    and "\<And>u. TCB_ulCPUId (K_tcb k' u) = TCB_ulCPUId (K_tcb k u) \<or> TCB_ulCPUId (K_tcb k' u) < K_ncpus k"
    and "\<And>c. c < K_ncpus k \<Longrightarrow> c \<in> S'"
  shows "sched_ok S' k'"
proof -
  note F = erase_eqD [OF E] and D = sched_okD [OF ok]
  have "cands_full k'" using D(2) assms(5) by (simp add: cands_full_def F)
  moreover have "cpuid_ok k' t" for t using D(4) [of t] assms(6) [of t] by (auto simp: cpuid_ok_def F)
  ultimately show ?thesis using assms D(3,5) by (simp add: sched_ok_def F)
qed

lemma sched_ok_bound: "sched_ok S k \<Longrightarrow> c < K_ncpus k \<Longrightarrow> has_bound S k c"
  using sched_okD(5) by (auto simp: has_bound_def)

lemma sched_ok_add:
  assumes ok: "sched_ok S k" and t: "t \<notin> S"
  shows "sched_ok (insert t S) (ADD_TO_READY_RING t (GetPcb k t) k)"
proof -
  note A = ADD_TO_READY_RING_spec [OF sched_okD(1) [OF ok] t]
  show ?thesis
    by (rule sched_okI [OF ok A(2,1,3)]) (use A(4) A(5) [OF sched_okD(4) [OF ok]] sched_okD(5) [OF ok] in auto)
qed

lemma sched_ok_del:
  assumes ok: "sched_ok S k" and t: "t \<in> S" and n: "K_ncpus k \<le> t"
  shows "sched_ok (S - {t}) (DEL_FROM_READY_RING t (GetPcb k t) k)"
proof -
  have c: "TCB_ulCPUId (K_tcb k t) < K_ncpus k" using sched_okD(4) [OF ok, of t] by (simp add: cpuid_ok_def)
  then have b: "has_bound (S - {t}) k (TCB_ulCPUId (K_tcb k t))"
    using sched_okD(5) [OF ok c] n by (auto simp: has_bound_def)
  note A = DEL_FROM_READY_RING_spec [OF sched_okD(1) [OF ok] t b]
  show ?thesis
  proof (rule sched_okI [OF ok A(2,1,3)])
    let ?k = "DEL_FROM_READY_RING t (GetPcb k t) k"
    show "TCB_ulCPUId (K_tcb ?k u) = TCB_ulCPUId (K_tcb k u) \<or> TCB_ulCPUId (K_tcb ?k u) < K_ncpus k" for u
      using A(5) [of u] c by auto
  qed (use A(4) sched_okD(5) [OF ok] n in auto)
qed

lemma sched_ok_update:
  assumes ok: "sched_ok S k" and c: "c < K_ncpus k" "CPU_bActive (K_cpu k c)"
  shows "sched_ok S (CandTableUpdate c k)"
proof -
  note A = CandTableUpdate_spec [OF sched_okD(1) [OF ok] sched_ok_bound [OF ok c(1)] c(2)]
  show ?thesis
  proof (rule sched_okI [OF ok A(2,1)])
    show "K_bug (CandTableUpdate c k) = K_bug k" using A(4) sched_okD(2) [OF ok] by simp
    show "LW_CAND_TCB (CandTableUpdate c k) c' \<noteq> None" if "LW_CAND_TCB k c' \<noteq> None" for c'
      using A(3) that by auto
    show "TCB_ulCPUId (K_tcb (CandTableUpdate c k) u) = TCB_ulCPUId (K_tcb k u) \<or>
      TCB_ulCPUId (K_tcb (CandTableUpdate c k) u) < K_ncpus k" for u
      using A(5) [of u] c(1) by auto
  qed (use sched_okD(5) [OF ok] in auto)
qed

lemma sched_ok_sview:
  assumes ok: "sched_ok S k" and V: "sview k' = sview k" and "K_bug k' = K_bug k" "K_ncpus k' = K_ncpus k"
    and "\<And>c. CPU_bActive (K_cpu k' c) = CPU_bActive (K_cpu k c)"
  shows "sched_ok S k'"
  using sched_okD [OF ok] rdy_inv_sview [OF V, of S] sview_eqD [OF V] assms(3-)
  by (auto simp: sched_ok_def cands_full_def cpuid_ok_def)

end
