(* ===== verification/Demo.thy ===== *)
theory Demo
  imports CandUpdate
begin

text \<open>
  Initial control blocks and a small running configuration (two processors, their idle threads
  0 and 1, three user threads) at which the properties of the other theories are exercised.
  The configuration is built with the scheduler's own operations, so that its invariant follows
  from their lemmas.
\<close>

definition tcb0 :: tcb where
  "tcb0 = \<lparr>TCB_ulId = 0, TCB_iSchedRet = 0, TCB_ulLastError = 0, TCB_ulOption = 0, TCB_ulDelay = 0,
     TCB_bDelayInQ = False, TCB_iPendQ = 0, TCB_peventPtr = None, TCB_ppringPriorityQueue = (0, 0),
     TCB_bCPULock = False, TCB_ulCPULock = 0, TCB_ulCPUId = 0, TCB_bIsCand = False, TCB_ptcbWaitStatus = None,
     TCB_plineStatusReqHeader = [], TCB_uiStatusChangeReq = 0, TCB_ulStopNesting = 0,
     TCB_ucSchedPolicy = LW_OPTION_SCHED_RR, TCB_ucSchedActivate = LW_SCHED_ACT_OTHER,
     TCB_ucSchedActivateMode = LW_OPTION_RESPOND_STANDARD,
     TCB_usSchedSlice = 10, TCB_usSchedCounter = 10, TCB_ucPriority = 200, TCB_usStatus = LW_THREAD_STATUS_RDY,
     TCB_ucWaitTimeout = 0, TCB_ucIsEventDelete = 0, TCB_ulSuspendNesting = 0, TCB_iDeleteProcStatus = 0,
     TCB_pvMsgBoxMessage = 0, TCB_pesnPtr = None, TCB_ulEventSets = 0,
     TCB_vutex = \<lparr>VUTEX_bWakeAll = False, VUTEX_iCompare = 0, VUTEX_iDesired = 0, VUTEX_uiHash = 0, VUTEX_phyaddr = None\<rparr>,
     TCB_ulThreadLockCounter = 0, TCB_ulThreadSafeCounter = 0,
     TCB_usIndex = 0, TCB_ptcbDeleteMe = None, TCB_ptcbDeleteWait = None, TCB_bRestartReq = False,
     TCB_pvMsgQueueMessage = [], TCB_stMaxByteSize = 0, TCB_pstMsgByteSize = 0, TCB_ulRecvOption = 0\<rparr>"

definition cpu0 :: cpu where
  "cpu0 = \<lparr>CPU_ptcbTCBCur = None, CPU_ptcbTCBHigh = None, CPU_bIsIntSwitch = False, CAND_ptcbCand = None,
     CAND_bNeedRotate = False, CPU_iKernelCounter = 0, CPU_pcbbmapReady = pcbbmap0, CPU_bOnlyAffinity = False,
     CPU_bSchedIpiPend = False, CPU_bActive = True, CPU_ulInterNesting = 0, CPU_ulInterError = (\<lambda>_. 0)\<rparr>"

definition event0 :: event where
  "event0 = \<lparr>EVENT_ucType = 0, EVENT_pvTcbOwn = None, EVENT_ulCounter = 0, EVENT_ulMaxCounter = 0,
     EVENT_iStatus = 0, EVENT_ulOption = 0, EVENT_ucCeilingPriority = 0, EVENT_pvPtr = 0,
     EVENT_wqWaitQ = (\<lambda>_. \<lparr>WL_pring = (\<lambda>_. []), WQ_usNum = 0\<rparr>), EVENT_usIndex = 0, EVENT_cEventName = []\<rparr>"

definition wakeup0 :: wakeup where
  "wakeup0 = \<lparr>WU_plineHeader = [], WU_plineOp = None, WU_i64LastTime = 0, WU_pfuncWakeup = False\<rparr>"

definition eventset0 :: eventset where
  "eventset0 = \<lparr>EVENTSET_ucType = 0, EVENTSET_plineWaitList = [], EVENTSET_ulEventSets = 0, EVENTSET_ulOption = 0,
     EVENTSET_usIndex = 0, EVENTSET_cEventSetName = []\<rparr>"

definition msgqueue0 :: msgqueue where
  "msgqueue0 = \<lparr>MSGQUEUE_pmonoFree = None, MSGQUEUE_pmonoHeader = (\<lambda>_. None), MSGQUEUE_pmonoTail = (\<lambda>_. None), MSGQUEUE_uiMap = 0,
     MSGQUEUE_pvBuffer = 0, MSGQUEUE_stMaxBytes = 0, MSGNODE_monoManage = (\<lambda>_. None), MSGNODE_stMsgLen = (\<lambda>_. 0), MSGNODE_bytes = (\<lambda>_. [])\<rparr>"

definition parts0 :: parts where
  "parts0 = \<lparr>K_partBuffer = (\<lambda>i. \<lparr>PARTITION_ucType = 0, PARTITION_pmonoFreeBlockList = None, PARTITION_stBlockByteSize = 0,
       PARTITION_ulBlockCounter = 0, PARTITION_ulFreeBlockCounter = 0, PARTITION_usIndex = of_nat i, PARTITION_cPatitionName = []\<rparr>),
     K_resrcPart = \<lparr>RESRC_free = [], RESRC_uiUsed = 0, RESRC_uiMaxUsed = 0\<rparr>, PART_link = (\<lambda>_. None)\<rparr>"

definition kernel0 :: "nat \<Rightarrow> kernel" where
  "kernel0 n = \<lparr>K_tcb = (\<lambda>_. tcb0), K_cpu = (\<lambda>_. cpu0), K_ncpus = n, K_curcpu = 0,
     K_pcbbmapGlobalReady = pcbbmap0, K_ptcbTCBIdTable = (\<lambda>_. None), K_wuDelay = wakeup0,
     K_i64KernelTime = 0, K_eventBuffer = (\<lambda>_. event0),
     K_resrcEvent = \<lparr>RESRC_free = [], RESRC_uiUsed = 0, RESRC_uiMaxUsed = 0\<rparr>,
     K_esBuffer = (\<lambda>_. eventset0), K_resrcEventSet = \<lparr>RESRC_free = [], RESRC_uiUsed = 0, RESRC_uiMaxUsed = 0\<rparr>,
     k_plineVutexHashHeader = (\<lambda>_. []), k_plineVutexOp = None, K_mem = (\<lambda>_. 0), K_ulNotRunError = 0,
     K_ucSysStatus = LW_SYS_STATUS_RUNNING, K_msgqueueBuffer = (\<lambda>_. msgqueue0),
     K_resrcMsgQueue = \<lparr>RESRC_free = [], RESRC_uiUsed = 0, RESRC_uiMaxUsed = 0\<rparr>, K_parts = parts0, K_bug = False\<rparr>"

text \<open>Threads 0 and 1 are the idle threads, bound to their processors at the lowest priority; thread 4 is
  bound to processor 0 at that priority.\<close>

definition demo_tcb :: "tid \<Rightarrow> tcb" where
  "demo_tcb t = (if t < 2 then tcb0\<lparr>TCB_bCPULock := True, TCB_ulCPULock := t, TCB_ulCPUId := t, TCB_ucPriority := 255\<rparr>
     else if t = 2 then tcb0\<lparr>TCB_ucPriority := 100\<rparr>
     else if t = 3 then tcb0\<lparr>TCB_ucPriority := 100\<rparr>
     else if t = 4 then tcb0\<lparr>TCB_bCPULock := True, TCB_ulCPULock := 0, TCB_ucPriority := 255\<rparr> else tcb0)"

definition demo_boot :: kernel where
  "demo_boot = (kernel0 2)\<lparr>K_tcb := demo_tcb\<rparr>"

definition demo_add :: "tid \<Rightarrow> kernel \<Rightarrow> kernel" where
  "demo_add t k = ADD_TO_READY_RING t (GetPcb k t) k"

definition demo_idle :: kernel where
  "demo_idle = demo_add 1 (demo_add 0 demo_boot)"

definition demo :: kernel where
  "demo = demo_add 3 (demo_add 2 demo_idle)"

lemma kernel0_inv: "rdy_inv {} demo_boot"
  unfolding rdy_inv_def
  by (auto simp: demo_boot_def kernel0_def rbmap_def rring_def rdy_pcbbmap_def cpu0_def pcbbmap0_def bmap_wf_init
      bmap_set_init LW_CAND_TCB_def demo_tcb_def tcb0_def split: option.split)

lemma demo_add_inv: "rdy_inv S k \<Longrightarrow> t \<notin> S \<Longrightarrow> rdy_inv (insert t S) (demo_add t k)"
  unfolding demo_add_def by (rule ADD_TO_READY_RING_spec)

lemma demo_idle_inv: "rdy_inv {1, 0} demo_idle"
  unfolding demo_idle_def by (intro demo_add_inv kernel0_inv) auto

lemma demo_inv: "rdy_inv {3, 2, 1, 0} demo"
  unfolding demo_def by (intro demo_add_inv demo_idle_inv) auto

lemma demo_evals:
  "LW_CAND_TCB demo 0 = Some 0" "LW_CAND_TCB demo 1 = Some 1" "LW_CAND_ROT demo 0"
  "rring demo (None, 100) = [2, 3]"
  by code_simp+

text \<open>The invariant of the scheduler holds in the configuration with the idle threads, and is kept from there on.\<close>

lemma demo_add_frame:
  "rdy_inv S k \<Longrightarrow> t \<notin> S \<Longrightarrow> erase (demo_add t k) = erase k"
  "rdy_inv S k \<Longrightarrow> t \<notin> S \<Longrightarrow> K_bug (demo_add t k) = K_bug k"
  unfolding demo_add_def using ADD_TO_READY_RING_spec(2,3) by blast+

lemma demo_idle_frame: "erase demo_idle = erase demo_boot" "K_bug demo_idle = K_bug demo_boot"
  unfolding demo_idle_def
  using demo_add_frame [OF kernel0_inv, of 0] demo_add_frame [OF demo_add_inv [OF kernel0_inv, of 0], of 1] by simp_all

lemma demo_idle_cpuid: "TCB_ulCPUId (K_tcb demo_idle t) < 2"
proof -
  have b: "cpuid_ok demo_boot u" for u
    by (auto simp: cpuid_ok_def demo_boot_def kernel0_def demo_tcb_def tcb0_def)
  note A = ADD_TO_READY_RING_spec(5) [OF kernel0_inv, of 0, folded demo_add_def, OF _ b]
  have 1: "TCB_ulCPUId (K_tcb (demo_add 0 demo_boot) u) < 2" for u
    using A [of u] b [of u] by (auto simp: cpuid_ok_def demo_boot_def kernel0_def)
  have E: "erase (demo_add 0 demo_boot) = erase demo_boot" by (rule demo_add_frame [OF kernel0_inv]) simp
  have n: "K_ncpus (demo_add 0 demo_boot) = 2" using erase_eqD(7) [OF E] by (simp add: demo_boot_def kernel0_def)
  have c: "cpuid_ok (demo_add 0 demo_boot) u" for u
    using b [of u] 1 [of u] erase_eqD(2,3,7) [OF E] by (auto simp: cpuid_ok_def n)
  from ADD_TO_READY_RING_spec(5) [OF demo_add_inv [OF kernel0_inv, of 0], of 1 t, folded demo_add_def, OF _ _ c] 1 [of t] n
  show ?thesis by (auto simp: demo_idle_def)
qed

lemma demo_idle_ok: "sched_ok {1, 0} demo_idle"
proof -
  note F = erase_eqD [OF demo_idle_frame(1)]
  have n: "K_ncpus demo_idle = 2" by (simp add: F demo_boot_def kernel0_def)
  have "LW_CAND_TCB demo_idle 0 = Some 0" "LW_CAND_TCB demo_idle 1 = Some 1" by code_simp+
  then have "cands_full demo_idle" by (auto simp: cands_full_def n less_2_cases_iff)
  moreover have "cpuid_ok demo_idle t" for t
    using demo_idle_cpuid [of t] by (auto simp: cpuid_ok_def n F demo_boot_def demo_tcb_def tcb0_def)
  moreover have "\<not> K_bug demo_idle" by (simp add: demo_idle_frame demo_boot_def kernel0_def)
  ultimately show ?thesis
    using demo_idle_inv by (auto simp: sched_ok_def n F demo_boot_def demo_tcb_def tcb0_def)
qed

lemma demo_add_ok: "sched_ok S k \<Longrightarrow> t \<notin> S \<Longrightarrow> sched_ok (insert t S) (demo_add t k)"
  unfolding demo_add_def by (rule sched_ok_add)

lemma demo_ok: "sched_ok {3, 2, 1, 0} demo"
  unfolding demo_def by (intro demo_add_ok demo_idle_ok) auto

end
