(* ===== verification/Sched.thy ===== *)
theory Sched
  imports CandUpdate
begin

text \<open>
  The scheduler (\<^verbatim>\<open>_SchedCand.c\<close>, \<^verbatim>\<open>_Sched.c\<close>), entering and leaving the kernel
  (\<^verbatim>\<open>_KernelStatus.c\<close>) and the changes of a thread's status (\<^verbatim>\<open>_ThreadStatus.c\<close>,
  \<^verbatim>\<open>_ThreadSafeLib.c\<close>, \<^verbatim>\<open>_ThreadMiscLib.c\<close>).

  A context switch takes the processor away from the calling thread; when the thread runs
  again, other threads and interrupts have changed the kernel. The argument \<open>env\<close> lists what
  happens to the kernel during each such absence of the calling thread, the first entry being
  the next absence; a thread that is switched out with no entry left never returns, and the
  result is \<open>None\<close>. The spinlock and interrupt masking that make a kernel section atomic
  are not part of the state: a section is one function here.
\<close>

type_synonym env = "(kernel \<Rightarrow> kernel) list"

section \<open>Candidates\<close>

definition cur_of :: "kernel \<Rightarrow> nat \<Rightarrow> tid" where
  "cur_of k c = the (CPU_ptcbTCBCur (K_cpu k c))"

definition can_preemptive :: "nat \<Rightarrow> ulong \<Rightarrow> kernel \<Rightarrow> bool" where
  "can_preemptive pcpu ulMaxLockCounter k =
     (if CPU_ulInterNesting (K_cpu k pcpu) \<noteq> 0 \<or> CPU_iKernelCounter (K_cpu k pcpu) \<noteq> 0 then False
      else if TCB_ulThreadLockCounter (K_tcb k (cur_of k pcpu)) > ulMaxLockCounter \<and>
              LW_THREAD_IS_READY k (cur_of k pcpu) then False
      else True)"

definition SchedGetCand :: "nat \<Rightarrow> ulong \<Rightarrow> kernel \<Rightarrow> tid option \<times> kernel" where
  "SchedGetCand pcpuCur ulCurMaxLock k =
     (if \<not> can_preemptive pcpuCur ulCurMaxLock k then (CPU_ptcbTCBCur (K_cpu k pcpuCur), k)
      else
        let k = cpu_upd pcpuCur (\<lambda>p. p\<lparr>CPU_bSchedIpiPend := False\<rparr>) k;
            k = (if LW_CAND_ROT k pcpuCur then CandTableUpdate pcpuCur k else k)
        in (LW_CAND_TCB k pcpuCur, k))"

definition sched_tick_cpu :: "nat \<Rightarrow> kernel \<Rightarrow> kernel" where
  "sched_tick_cpu i k =
     (if CPU_bActive (K_cpu k i) then
        let ptcb = cur_of k i in
        if TCB_ucSchedPolicy (K_tcb k ptcb) = LW_OPTION_SCHED_RR then
          if TCB_usSchedCounter (K_tcb k ptcb) = 0 then set_rot i True k
          else tcb_upd ptcb (\<lambda>b. b\<lparr>TCB_usSchedCounter := TCB_usSchedCounter b - 1\<rparr>) k
        else k
      else k)"

definition SchedTick :: "kernel \<Rightarrow> kernel" where
  "SchedTick k = fold sched_tick_cpu [0..<K_ncpus k] k"

definition SchedYield :: "tid \<Rightarrow> kernel \<Rightarrow> kernel" where
  "SchedYield ptcb k =
     (if LW_THREAD_IS_RUNNING k ptcb then
        let pcpu = TCB_ulCPUId (K_tcb k ptcb);
            k = tcb_upd ptcb (\<lambda>b. b\<lparr>TCB_usSchedCounter := 0\<rparr>) k
        in set_rot pcpu True k
      else k)"

section \<open>Changing a thread's status\<close>

text \<open>The loop of \<^verbatim>\<open>_ThreadStatusChangeCur\<close> over the threads that asked for a change.\<close>

fun status_reqs :: "tid list \<Rightarrow> tid \<Rightarrow> kernel \<Rightarrow> kernel" where
  "status_reqs [] ptcbCur k = k"
| "status_reqs (ptcb # reqs) ptcbCur k =
     (let req = TCB_uiStatusChangeReq (K_tcb k ptcb);
          k = (if req = LW_TCB_REQ_SUSPEND then
                 tcb_upd ptcbCur (\<lambda>b. b\<lparr>TCB_ulSuspendNesting := TCB_ulSuspendNesting b + 1,
                   TCB_usStatus := TCB_usStatus b OR LW_THREAD_STATUS_SUSPEND\<rparr>) k
               else if req = LW_TCB_REQ_STOP then
                 tcb_upd ptcbCur (\<lambda>b. b\<lparr>TCB_ulStopNesting := TCB_ulStopNesting b + 1,
                   TCB_usStatus := TCB_usStatus b OR LW_THREAD_STATUS_STOP\<rparr>) k
               else if req = LW_TCB_REQ_WDEATH then
                 tcb_upd ptcbCur (\<lambda>b. b\<lparr>TCB_usStatus := TCB_usStatus b OR LW_THREAD_STATUS_WDEATH\<rparr>) k
               else k);
          k = tcb_upd ptcb (\<lambda>b. b\<lparr>TCB_ptcbWaitStatus := None, TCB_uiStatusChangeReq := 0\<rparr>) k;
          k = tcb_upd ptcbCur (\<lambda>b. b\<lparr>TCB_plineStatusReqHeader := reqs\<rparr>) k;
          k = (if \<not> LW_THREAD_IS_READY k ptcb then
                 let k = tcb_upd ptcb (\<lambda>b. b\<lparr>TCB_usStatus := TCB_usStatus b AND NOT LW_THREAD_STATUS_WSTAT\<rparr>) k in
                 if LW_THREAD_IS_READY k ptcb then
                   let k = tcb_upd ptcb (\<lambda>b. b\<lparr>TCB_ucSchedActivate := LW_SCHED_ACT_INTERRUPT\<rparr>) k
                   in ADD_TO_READY_RING ptcb (GetPcb k ptcb) k
                 else k
               else k)
      in status_reqs reqs ptcbCur k)"

definition ThreadStatusChangeCur :: "nat \<Rightarrow> kernel \<Rightarrow> kernel" where
  "ThreadStatusChangeCur pcpuCur k =
     (let ptcbCur = cur_of k pcpuCur in
      if TCB_plineStatusReqHeader (K_tcb k ptcbCur) \<noteq> [] then
        let k = (if LW_THREAD_IS_READY k ptcbCur then DEL_FROM_READY_RING ptcbCur (GetPcb k ptcbCur) k else k)
        in status_reqs (TCB_plineStatusReqHeader (K_tcb k ptcbCur)) ptcbCur k
      else k)"

definition ThreadWaitStatus :: "tid \<Rightarrow> tid \<Rightarrow> u32 \<Rightarrow> kernel \<Rightarrow> kernel" where
  "ThreadWaitStatus ptcbCur ptcbDest uiStatusReq k =
     (let k = (if LW_THREAD_IS_READY k ptcbCur then DEL_FROM_READY_RING ptcbCur (GetPcb k ptcbCur) k else k);
          k = tcb_upd ptcbCur (\<lambda>b. b\<lparr>TCB_ptcbWaitStatus := Some ptcbDest, TCB_uiStatusChangeReq := uiStatusReq,
                TCB_usStatus := TCB_usStatus b OR LW_THREAD_STATUS_WSTAT\<rparr>) k
      in tcb_upd ptcbDest (\<lambda>b. b\<lparr>TCB_plineStatusReqHeader := ptcbCur # TCB_plineStatusReqHeader b\<rparr>) k)"

fun unwait_reqs :: "tid list \<Rightarrow> tid \<Rightarrow> kernel \<Rightarrow> kernel" where
  "unwait_reqs [] ptcb k = k"
| "unwait_reqs (ptcbWait # reqs) ptcb k =
     (let k = tcb_upd ptcbWait (\<lambda>b. b\<lparr>TCB_ptcbWaitStatus := None\<rparr>) k;
          k = tcb_upd ptcb (\<lambda>b. b\<lparr>TCB_plineStatusReqHeader := reqs\<rparr>) k;
          k = (if \<not> LW_THREAD_IS_READY k ptcbWait then
                 let k = tcb_upd ptcbWait (\<lambda>b. b\<lparr>TCB_usStatus := TCB_usStatus b AND NOT LW_THREAD_STATUS_WSTAT\<rparr>) k in
                 if LW_THREAD_IS_READY k ptcbWait then
                   let k = tcb_upd ptcbWait (\<lambda>b. b\<lparr>TCB_ucSchedActivate := LW_SCHED_ACT_INTERRUPT\<rparr>) k
                   in ADD_TO_READY_RING ptcbWait (GetPcb k ptcbWait) k
                 else k
               else k)
      in unwait_reqs reqs ptcb k)"

definition ThreadUnwaitStatus :: "tid \<Rightarrow> kernel \<Rightarrow> kernel" where
  "ThreadUnwaitStatus ptcb k =
     (let k = (case TCB_ptcbWaitStatus (K_tcb k ptcb) of
                 Some ptcbDest \<Rightarrow>
                   let k = tcb_upd ptcbDest
                         (\<lambda>b. b\<lparr>TCB_plineStatusReqHeader := remove1 ptcb (TCB_plineStatusReqHeader b)\<rparr>) k
                   in tcb_upd ptcb (\<lambda>b. b\<lparr>TCB_ptcbWaitStatus := None, TCB_uiStatusChangeReq := 0\<rparr>) k
               | None \<Rightarrow> k)
      in unwait_reqs (TCB_plineStatusReqHeader (K_tcb k ptcb)) ptcb k)"

text \<open>The part after \<^verbatim>\<open>__change2\<close>.\<close>

definition status_change2 :: "tid \<Rightarrow> u32 \<Rightarrow> kernel \<Rightarrow> kernel" where
  "status_change2 ptcb uiStatusReq k =
     (let k = tcb_upd (LW_TCB_GET_CUR k) (\<lambda>b. b\<lparr>TCB_uiStatusChangeReq := 0\<rparr>) k in
      if uiStatusReq = LW_TCB_REQ_SUSPEND then
        tcb_upd ptcb (\<lambda>b. b\<lparr>TCB_ulSuspendNesting := TCB_ulSuspendNesting b + 1,
          TCB_usStatus := TCB_usStatus b OR LW_THREAD_STATUS_SUSPEND\<rparr>) k
      else if uiStatusReq = LW_TCB_REQ_STOP then
        tcb_upd ptcb (\<lambda>b. b\<lparr>TCB_ulStopNesting := TCB_ulStopNesting b + 1,
          TCB_usStatus := TCB_usStatus b OR LW_THREAD_STATUS_STOP\<rparr>) k
      else if uiStatusReq = LW_TCB_REQ_WDEATH then
        tcb_upd ptcb (\<lambda>b. b\<lparr>TCB_usStatus := TCB_usStatus b OR LW_THREAD_STATUS_WDEATH\<rparr>) k
      else k)"

definition ThreadStatusChange :: "tid \<Rightarrow> u32 \<Rightarrow> kernel \<Rightarrow> ulong \<times> kernel" where
  "ThreadStatusChange ptcb uiStatusReq k =
     (let ptcbCur = LW_TCB_GET_CUR k in
      if ptcb = ptcbCur then
        let k = (if LW_THREAD_IS_READY k ptcb then DEL_FROM_READY_RING ptcb (GetPcb k ptcb) k else k)
        in (ERROR_NONE, status_change2 ptcb uiStatusReq k)
      else if \<not> LW_THREAD_IS_READY k ptcb then (ERROR_NONE, status_change2 ptcb uiStatusReq k)
      else if CpuGetNesting k \<noteq> 0 then (ERROR_KERNEL_IN_ISR, k)
      else if \<not> LW_THREAD_IS_RUNNING k ptcb then
        (ERROR_NONE, status_change2 ptcb uiStatusReq (DEL_FROM_READY_RING ptcb (GetPcb k ptcb) k))
      else (ERROR_NONE, ThreadWaitStatus ptcbCur ptcb uiStatusReq k))"

definition ThreadSafeSuspend :: "tid \<Rightarrow> kernel \<Rightarrow> kernel" where
  "ThreadSafeSuspend ptcbCur k =
     (let k = tcb_upd ptcbCur (\<lambda>b. b\<lparr>TCB_ulSuspendNesting := TCB_ulSuspendNesting b + 1\<rparr>) k;
          k = DEL_FROM_READY_RING ptcbCur (GetPcb k ptcbCur) k
      in tcb_upd ptcbCur (\<lambda>b. b\<lparr>TCB_usStatus := TCB_usStatus b OR LW_THREAD_STATUS_SUSPEND\<rparr>) k)"

definition ThreadSafeResume :: "tid \<Rightarrow> kernel \<Rightarrow> kernel" where
  "ThreadSafeResume ptcb k =
     (if TCB_ulSuspendNesting (K_tcb k ptcb) \<noteq> 0 then
        let k = tcb_upd ptcb (\<lambda>b. b\<lparr>TCB_ulSuspendNesting := TCB_ulSuspendNesting b - 1\<rparr>) k in
        if TCB_ulSuspendNesting (K_tcb k ptcb) \<noteq> 0 then k
        else
          let k = tcb_upd ptcb (\<lambda>b. b\<lparr>TCB_usStatus := TCB_usStatus b AND NOT LW_THREAD_STATUS_SUSPEND\<rparr>) k in
          if LW_THREAD_IS_READY k ptcb then
            let k = tcb_upd ptcb (\<lambda>b. b\<lparr>TCB_ucSchedActivate := LW_SCHED_ACT_INTERRUPT\<rparr>) k
            in ADD_TO_READY_RING ptcb (GetPcb k ptcb) k
          else k
      else k)"

definition ThreadStop :: "tid \<Rightarrow> kernel \<Rightarrow> ulong \<times> kernel" where
  "ThreadStop ptcb k = ThreadStatusChange ptcb LW_TCB_REQ_STOP k"

definition ThreadContinue :: "tid \<Rightarrow> bool \<Rightarrow> kernel \<Rightarrow> ulong \<times> kernel" where
  "ThreadContinue ptcb bForce k =
     (if TCB_usStatus (K_tcb k ptcb) AND LW_THREAD_STATUS_STOP = 0 then (ERROR_NONE, k)
      else if TCB_ulStopNesting (K_tcb k ptcb) \<noteq> 0 then
        let k = tcb_upd ptcb (\<lambda>b. b\<lparr>TCB_ulStopNesting := TCB_ulStopNesting b - 1\<rparr>) k in
        if TCB_ulStopNesting (K_tcb k ptcb) = 0 \<or> bForce then
          let k = tcb_upd ptcb (\<lambda>b. b\<lparr>TCB_ulStopNesting := 0,
                    TCB_usStatus := TCB_usStatus b AND NOT LW_THREAD_STATUS_STOP\<rparr>) k in
          if LW_THREAD_IS_READY k ptcb then
            let k = tcb_upd ptcb (\<lambda>b. b\<lparr>TCB_ucSchedActivate := LW_SCHED_ACT_INTERRUPT\<rparr>) k
            in (ERROR_NONE, ADD_TO_READY_RING ptcb (GetPcb k ptcb) k)
          else (ERROR_NONE, k)
        else (ERROR_NONE, k)
      else (ERROR_NONE, k))"

section \<open>The scheduler\<close>

definition SmpSendIpi :: "nat \<Rightarrow> kernel \<Rightarrow> kernel" where
  "SmpSendIpi ulCPUId k =
     (if \<not> CPU_bActive (K_cpu k ulCPUId) then k
      else cpu_upd ulCPUId (\<lambda>p. p\<lparr>CPU_bSchedIpiPend := True\<rparr>) k)"

definition smp_notify_cpu :: "nat \<Rightarrow> nat \<Rightarrow> kernel \<Rightarrow> kernel" where
  "smp_notify_cpu ulCPUIdCur i k =
     (if i \<noteq> ulCPUIdCur \<and> CPU_bActive (K_cpu k i) then
        if LW_CAND_ROT k i \<and> \<not> CPU_bSchedIpiPend (K_cpu k i) \<and> CPU_ulInterNesting (K_cpu k i) = 0
        then SmpSendIpi i k else k
      else k)"

definition SchedSmpNotify :: "nat \<Rightarrow> kernel \<Rightarrow> kernel" where
  "SchedSmpNotify ulCPUIdCur k = fold (smp_notify_cpu ulCPUIdCur) [0..<K_ncpus k] k"

definition SchedSwp :: "nat \<Rightarrow> kernel \<Rightarrow> kernel" where
  "SchedSwp pcpuCur k =
     (let k = SchedSmpNotify pcpuCur k
      in cpu_upd pcpuCur (\<lambda>p. p\<lparr>CPU_ptcbTCBCur := CPU_ptcbTCBHigh p\<rparr>) k)"

definition status_change_en :: "tid \<Rightarrow> nat \<Rightarrow> kernel \<Rightarrow> bool" where
  "status_change_en ptcb pcpu k \<longleftrightarrow>
     CPU_ulInterNesting (K_cpu k pcpu) = 0 \<and> TCB_ulThreadLockCounter (K_tcb k ptcb) \<le> 1"

definition Schedule :: "env \<Rightarrow> kernel \<Rightarrow> (int \<times> env \<times> kernel) option" where
  "Schedule env k =
     (let ulCPUId = K_curcpu k;
          ptcbCur = LW_TCB_GET_CUR k;
          k = (if TCB_plineStatusReqHeader (K_tcb k ptcbCur) \<noteq> [] \<and> status_change_en ptcbCur ulCPUId k
               then ThreadStatusChangeCur ulCPUId k else k);
          (ptcbCand, k) = SchedGetCand ulCPUId 1 k
      in if ptcbCand \<noteq> Some ptcbCur then
           let k = cpu_upd ulCPUId (\<lambda>p. p\<lparr>CPU_bIsIntSwitch := False, CPU_ptcbTCBHigh := ptcbCand\<rparr>) k;
               k = SchedSwp ulCPUId k
           in (case env of
                 [] \<Rightarrow> None
               | step # env' \<Rightarrow>
                   let k = step k;
                       ptcbCur = LW_TCB_GET_CUR k;
                       iRetVal = TCB_iSchedRet (K_tcb k ptcbCur);
                       k = tcb_upd ptcbCur (\<lambda>b. b\<lparr>TCB_iSchedRet := 0\<rparr>) k
                   in Some (iRetVal, env', k))
         else Some (0, env, SchedSmpNotify ulCPUId k))"

definition ScheduleInt :: "nat \<Rightarrow> kernel \<Rightarrow> kernel" where
  "ScheduleInt pcpuCur k =
     (let ptcbCur = cur_of k pcpuCur;
          k = (if status_change_en ptcbCur pcpuCur k \<and> TCB_plineStatusReqHeader (K_tcb k ptcbCur) \<noteq> []
               then ThreadStatusChangeCur pcpuCur k else k);
          (ptcbCand, k) = SchedGetCand pcpuCur 1 k
      in if ptcbCand \<noteq> Some ptcbCur then
           let k = cpu_upd pcpuCur (\<lambda>p. p\<lparr>CPU_bIsIntSwitch := True, CPU_ptcbTCBHigh := ptcbCand\<rparr>) k
           in SchedSwp pcpuCur k
         else SchedSmpNotify pcpuCur k)"

definition SchedSetRet :: "int \<Rightarrow> kernel \<Rightarrow> kernel" where
  "SchedSetRet iSchedSetRet k =
     (let ptcbCur = LW_TCB_GET_CUR k in
      if TCB_iSchedRet (K_tcb k ptcbCur) = 0
      then tcb_upd ptcbCur (\<lambda>b. b\<lparr>TCB_iSchedRet := iSchedSetRet\<rparr>) k else k)"

definition SchedSetPrio :: "tid \<Rightarrow> u8 \<Rightarrow> kernel \<Rightarrow> kernel" where
  "SchedSetPrio ptcb ucPriority k =
     (let ppcbFrom = GetPcb k ptcb;
          ppcbTo = GetPcbEx k ptcb ucPriority
      in if LW_THREAD_IS_READY k ptcb then
           if TCB_bIsCand (K_tcb k ptcb) then
             let k = set_rot (TCB_ulCPUId (K_tcb k ptcb)) True k
             in tcb_upd ptcb (\<lambda>b. b\<lparr>TCB_ucPriority := ucPriority\<rparr>) k
           else
             let k = DEL_FROM_READY_RING ptcb ppcbFrom k;
                 k = tcb_upd ptcb (\<lambda>b. b\<lparr>TCB_ucPriority := ucPriority\<rparr>) k
             in ADD_TO_READY_RING ptcb ppcbTo k
         else tcb_upd ptcb (\<lambda>b. b\<lparr>TCB_ucPriority := ucPriority\<rparr>) k)"

section \<open>Entering and leaving the kernel\<close>

definition kernelEnter :: "kernel \<Rightarrow> kernel" where
  "kernelEnter k = cpu_upd (K_curcpu k) (\<lambda>p. p\<lparr>CPU_iKernelCounter := CPU_iKernelCounter p + 1\<rparr>) k"

definition kernelEnterIrq :: "kernel \<Rightarrow> kernel" where
  "kernelEnterIrq k = cpu_upd (K_curcpu k) (\<lambda>p. p\<lparr>CPU_iKernelCounter := CPU_iKernelCounter p + 1\<rparr>) k"

definition kernelExit :: "env \<Rightarrow> kernel \<Rightarrow> (int \<times> env \<times> kernel) option" where
  "kernelExit env k =
     (if CPU_iKernelCounter (K_cpu k (K_curcpu k)) \<noteq> 0 then
        let k = cpu_upd (K_curcpu k) (\<lambda>p. p\<lparr>CPU_iKernelCounter := CPU_iKernelCounter p - 1\<rparr>) k in
        if CPU_iKernelCounter (K_cpu k (K_curcpu k)) = 0 then Schedule env k else Some (0, env, k)
      else Some (0, env, k))"

definition kernelExitIrq :: "env \<Rightarrow> kernel \<Rightarrow> (int \<times> env \<times> kernel) option" where
  "kernelExitIrq env k =
     (if CPU_iKernelCounter (K_cpu k (K_curcpu k)) \<noteq> 0 then
        let k = cpu_upd (K_curcpu k) (\<lambda>p. p\<lparr>CPU_iKernelCounter := CPU_iKernelCounter p - 1\<rparr>) k in
        if CPU_iKernelCounter (K_cpu k (K_curcpu k)) = 0 then Schedule env k else Some (0, env, k)
      else Some (0, env, k))"

definition kernelIsEnter :: "kernel \<Rightarrow> bool" where
  "kernelIsEnter k \<longleftrightarrow> CPU_iKernelCounter (K_cpu k (K_curcpu k)) \<noteq> 0"

definition kernelSched :: "env \<Rightarrow> kernel \<Rightarrow> (int \<times> env \<times> kernel) option" where
  "kernelSched env k = Schedule env k"

definition kernelSchedInt :: "nat \<Rightarrow> kernel \<Rightarrow> kernel" where
  "kernelSchedInt pcpuCur k = ScheduleInt pcpuCur k"

end
