(* ===== verification/SchedInv.thy ===== *)
theory SchedInv
  imports Sched
begin

text \<open>
  The invariant \<open>kern_ok T\<close> of the running kernel with the created threads \<open>T\<close>: the
  tables hold exactly the threads of \<open>T\<close> that are ready. The lemmas show that each operation
  of the scheduler keeps it.
\<close>

definition rdyset :: "tid set \<Rightarrow> kernel \<Rightarrow> tid set" where
  "rdyset T k = {t \<in> T. LW_THREAD_IS_READY k t}"

definition kern_ok :: "tid set \<Rightarrow> kernel \<Rightarrow> bool" where
  "kern_ok T k \<longleftrightarrow> sched_ok (rdyset T k) k"

section \<open>Updates that do not matter\<close>

lemma rdyset_sel [simp]:
  "rdyset T (cpu_upd c g k) = rdyset T k" "rdyset T (event_upd e h k) = rdyset T k" "rdyset T (set_rot c v k) = rdyset T k"
  by (simp_all add: rdyset_def LW_THREAD_IS_READY_def set_rot_def)

lemma rdyset_erase: "erase k' = erase k \<Longrightarrow> rdyset T k' = rdyset T k"
  unfolding rdyset_def LW_THREAD_IS_READY_def using erase_eqD(1) by metis

lemma kern_ok_set_rot [simp]: "kern_ok T (set_rot c v k) = kern_ok T k"
proof -
  have "sched_ok S (set_rot c v k) = sched_ok S k" for S
    using rdy_inv_sview [of "set_rot c v k" k S]
    by (auto simp: sched_ok_def cands_full_def cpuid_ok_def set_rot_def LW_CAND_TCB_def)
  then show ?thesis by (simp add: kern_ok_def)
qed

lemma kern_ok_cpu:
  assumes "kern_ok T k" and "\<And>p. CPU_pcbbmapReady (f p) = CPU_pcbbmapReady p"
    and "\<And>p. CAND_ptcbCand (f p) = CAND_ptcbCand p" and "\<And>p. CPU_bActive (f p) = CPU_bActive p"
  shows "kern_ok T (cpu_upd c f k)"
  using assms unfolding kern_ok_def rdyset_sel by (elim sched_ok_sview) simp_all

lemma kern_ok_event [simp]: "kern_ok T k \<Longrightarrow> kern_ok T (event_upd e f k)"
  unfolding kern_ok_def rdyset_sel by (elim sched_ok_sview) simp_all

lemma rdyset_tcb:
  "(TCB_usStatus (f (K_tcb k t)) = 0 \<longleftrightarrow> TCB_usStatus (K_tcb k t) = 0) \<Longrightarrow> rdyset T (tcb_upd t f k) = rdyset T k"
  by (auto simp: rdyset_def LW_THREAD_IS_READY_def)

lemma kern_ok_tcb:
  assumes "kern_ok T k" and "\<And>b. tview (f b) = tview b"
    and "TCB_usStatus (f (K_tcb k t)) = 0 \<longleftrightarrow> TCB_usStatus (K_tcb k t) = 0"
  shows "kern_ok T (tcb_upd t f k)"
proof -
  have "rdyset T (tcb_upd t f k) = rdyset T k" by (rule rdyset_tcb) (rule assms(3))
  then show ?thesis using assms(1) unfolding kern_ok_def by (auto elim!: sched_ok_sview simp: assms(2))
qed

section \<open>Blocking and unblocking\<close>

text \<open>A ready thread leaves the tables and gets a status that is not ready.\<close>

lemma kern_ok_del:
  assumes "kern_ok T k" and "t \<in> T" and "LW_THREAD_IS_READY k t" and "K_ncpus k \<le> t"
  shows "sched_ok (rdyset T k - {t}) (DEL_FROM_READY_RING t (GetPcb k t) k)"
  using assms sched_ok_del [of "rdyset T k" k t] by (simp add: kern_ok_def rdyset_def)

lemma DEL_erase:
  assumes "kern_ok T k" and "t \<in> T" and "LW_THREAD_IS_READY k t"
  shows "erase (DEL_FROM_READY_RING t (GetPcb k t) k) = erase k"
proof -
  have ok: "sched_ok (rdyset T k) k" and t: "t \<in> rdyset T k" using assms by (simp_all add: kern_ok_def rdyset_def)
  show ?thesis
  proof (cases "TCB_bIsCand (K_tcb k t)")
    case False
    from DEL_FROM_READY_RING_spec(2) [OF sched_okD(1) [OF ok] t] False show ?thesis by blast
  next
    case True
    then have c: "LW_CAND_TCB k (TCB_ulCPUId (K_tcb k t)) = Some t" using rdy_invD(11) [OF sched_okD(1) [OF ok]] by blast
    have F: "erase (CandTableFill c k') = erase k'" for c k'
      unfolding CandTableFill_Resel using CandTableResel_set_cand(2) [of k']
      by (auto split: option.split simp: CandTableResel_def CandTableNext_def Let_def DelTCBFromReadyRing_def
          ReadyTable_view ring_next_def erase_tcb_def split: list.splits)
    show ?thesis using True c
      by (simp add: DEL_FROM_READY_RING_def CandTableTryDel_def Let_def F erase_tcb_def)
  qed
qed

lemma kern_ok_block:
  assumes "sched_ok (rdyset T k - {t}) k1" and "erase k1 = erase k" and "TCB_usStatus (f (K_tcb k1 t)) \<noteq> 0"
    and "\<And>b. tview (f b) = tview b"
  shows "kern_ok T (tcb_upd t f k1)"
proof -
  have "rdyset T (tcb_upd t f k1) = rdyset T k - {t}"
    using assms(3) erase_eqD(1) [OF assms(2)] by (auto simp: rdyset_def LW_THREAD_IS_READY_def)
  moreover have "sched_ok (rdyset T k - {t}) (tcb_upd t f k1)"
    by (rule sched_ok_sview [OF assms(1)]) (simp_all add: assms(4))
  ultimately show ?thesis by (simp add: kern_ok_def)
qed

lemma kern_ok_unblock:
  assumes ok: "kern_ok T k" and t: "t \<in> T" and n: "\<not> LW_THREAD_IS_READY k t"
    and f: "\<And>b. tview (f b) = tview b" and z: "TCB_usStatus (f (K_tcb k t)) = 0"
  defines "k1 \<equiv> tcb_upd t f k"
  shows "kern_ok T (ADD_TO_READY_RING t (GetPcb k1 t) k1)"
proof -
  have out: "t \<notin> rdyset T k" using n by (simp add: rdyset_def)
  have s: "sched_ok (rdyset T k) k1"
    using ok unfolding kern_ok_def k1_def by (elim sched_ok_sview) (simp_all add: f)
  note A = sched_ok_add [OF s out]
  have "rdyset T (ADD_TO_READY_RING t (GetPcb k1 t) k1) = rdyset T k1"
    by (rule rdyset_erase [OF ADD_TO_READY_RING_spec(2) [OF sched_okD(1) [OF s] out]])
  also have "rdyset T k1 = insert t (rdyset T k)"
    using t z by (auto simp: rdyset_def LW_THREAD_IS_READY_def k1_def)
  finally have "rdyset T (ADD_TO_READY_RING t (GetPcb k1 t) k1) = insert t (rdyset T k)" .
  with A show ?thesis by (simp add: kern_ok_def)
qed

lemma kern_ok_idle: "kern_ok T k \<Longrightarrow> c < K_ncpus k \<Longrightarrow> LW_THREAD_IS_READY k c \<and> c \<in> T"
  using sched_okD(5) by (auto simp: kern_ok_def rdyset_def)

section \<open>Changing a priority\<close>

lemma rdy_inv_setprio:
  assumes inv: "rdy_inv S k" and t: "TCB_bIsCand (K_tcb k t) \<or> t \<notin> S"
  shows "rdy_inv S (tcb_upd t (\<lambda>b. b\<lparr>TCB_ucPriority := p\<rparr>) k)" (is "rdy_inv S ?k")
proof -
  note D = rdy_invD [OF inv]
  have nr: "t \<notin> set (rring k q)" for q using D(5,6) t by blast
  have G: "GetPcb ?k u = GetPcb k u" if "u \<noteq> t" for u using that by (simp add: GetPcb_def)
  have v: "TCB_bIsCand (K_tcb ?k u) = TCB_bIsCand (K_tcb k u)" "TCB_ulCPUId (K_tcb ?k u) = TCB_ulCPUId (K_tcb k u)"
    "TCB_bCPULock (K_tcb ?k u) = TCB_bCPULock (K_tcb k u)" "TCB_ulCPULock (K_tcb ?k u) = TCB_ulCPULock (K_tcb k u)" for u
    by simp_all
  show ?thesis
    unfolding rdy_inv_def v tcb_upd_view
  proof (intro conjI allI ballI impI)
    fix q u assume u: "u \<in> set (rring k q)"
    then have "u \<noteq> t" using nr by blast
    with u show "GetPcb ?k u = q" "\<not> TCB_bIsCand (K_tcb k u)" "u \<in> S" using D(4,5,6) G by blast+
  next
    fix u assume u: "u \<in> S" "\<not> TCB_bIsCand (K_tcb k u)"
    then have "u \<noteq> t" using t by auto
    with D(12) [OF u] G show "u \<in> set (rring k (GetPcb ?k u))" by simp
  qed (use D in blast)+
qed

lemma sched_ok_setprio:
  assumes ok: "sched_ok S k" and t: "TCB_bIsCand (K_tcb k t) \<or> t \<notin> S"
  shows "sched_ok S (tcb_upd t (\<lambda>b. b\<lparr>TCB_ucPriority := p\<rparr>) k)"
  using rdy_inv_setprio [OF sched_okD(1) [OF ok] t] sched_okD(2-5) [OF ok]
  by (auto simp: sched_ok_def cands_full_def cpuid_ok_def)

lemma SchedSetPrio_ok:
  assumes ok: "kern_ok T k" and t: "t \<in> T" and n: "K_ncpus k \<le> t"
  shows "kern_ok T (SchedSetPrio t p k)"
proof -
  let ?f = "\<lambda>b. b\<lparr>TCB_ucPriority := p\<rparr>"
  have R: "rdyset T (tcb_upd t ?f k') = rdyset T k'" for k' by (rule rdyset_tcb) simp
  show ?thesis
  proof (cases "LW_THREAD_IS_READY k t \<and> \<not> TCB_bIsCand (K_tcb k t)")
    case False
    then have "TCB_bIsCand (K_tcb k t) \<or> t \<notin> rdyset T k" by (auto simp: rdyset_def)
    then have "sched_ok (rdyset T k) (tcb_upd t ?f k)" using ok by (auto simp: kern_ok_def intro: sched_ok_setprio)
    then have K: "kern_ok T (tcb_upd t ?f k)" by (simp add: kern_ok_def R)
    have "tcb_upd t ?f (set_rot c v k) = set_rot c v (tcb_upd t ?f k)" for c v
      by (simp add: tcb_upd_def set_rot_def cpu_upd_def)
    with False K show ?thesis by (auto simp: SchedSetPrio_def Let_def)
  next
    case True
    let ?k1 = "DEL_FROM_READY_RING t (GetPcb k t) k"
    let ?k2 = "tcb_upd t ?f ?k1"
    have s: "sched_ok (rdyset T k - {t}) ?k1" and E: "erase ?k1 = erase k"
      using kern_ok_del [OF ok t _ n] DEL_erase [OF ok t] True by auto
    have s2: "sched_ok (rdyset T k - {t}) ?k2" using s by (intro sched_ok_setprio) auto
    have G: "GetPcbEx k t p = GetPcb ?k2 t"
      using erase_eqD(2,3) [OF E, of t] unfolding GetPcbEx_def GetPcb_def [of ?k2] by simp
    note A = sched_ok_add [OF s2, of t]
    have "rdyset T (ADD_TO_READY_RING t (GetPcb ?k2 t) ?k2) = rdyset T k"
      using rdyset_erase [OF ADD_TO_READY_RING_spec(2) [OF sched_okD(1) [OF s2], of t], of T] R [of ?k1]
        rdyset_erase [OF E, of T] by simp
    moreover have "insert t (rdyset T k - {t}) = rdyset T k" using True t by (auto simp: rdyset_def)
    ultimately show ?thesis using True A G by (simp add: SchedSetPrio_def Let_def kern_ok_def)
  qed
qed

section \<open>Choosing and switching\<close>

lemma kern_ok_erase:
  "erase k' = erase k \<Longrightarrow> sched_ok (rdyset T k) k' \<Longrightarrow> kern_ok T k'"
  unfolding kern_ok_def using rdyset_erase [of k' k T] by simp

lemma kern_ok_cand:
  assumes "kern_ok T k" and "LW_CAND_TCB k c = Some t"
  shows "LW_THREAD_IS_READY k t" "t \<in> T" "TCB_bIsCand (K_tcb k t)" "TCB_ulCPUId (K_tcb k t) = c"
  using assms rdy_invD(7,8,9) [OF sched_okD(1), of "rdyset T k" k c t] by (auto simp: kern_ok_def rdyset_def)

lemma SchedGetCand_spec:
  assumes ok: "kern_ok T k" and c: "c < K_ncpus k" "CPU_bActive (K_cpu k c)" and p: "can_preemptive c m k"
  obtains t k' where "SchedGetCand c m k = (Some t, k')" "kern_ok T k'" "LW_CAND_TCB k' c = Some t"
    "erase k' = erase (cpu_upd c (\<lambda>p. p\<lparr>CPU_bSchedIpiPend := False\<rparr>) k)"
    "LW_CAND_ROT k c \<Longrightarrow> eligible k c (fst q) \<Longrightarrow> u \<in> set (rring k' q) \<Longrightarrow> prio k' t \<le> prio k' u"
proof -
  let ?k1 = "cpu_upd c (\<lambda>p. p\<lparr>CPU_bSchedIpiPend := False\<rparr>) k"
  let ?k2 = "if LW_CAND_ROT ?k1 c then CandTableUpdate c ?k1 else ?k1"
  have ok1: "kern_ok T ?k1" by (rule kern_ok_cpu [OF ok]) simp_all
  then have s1: "sched_ok (rdyset T ?k1) ?k1" by (simp add: kern_ok_def)
  have c1: "c < K_ncpus ?k1" "CPU_bActive (K_cpu ?k1 c)" using c by simp_all
  note U = CandTableUpdate_spec [OF sched_okD(1) [OF s1] sched_ok_bound [OF s1 c1(1)] c1(2)]
  have ok2: "kern_ok T ?k2" using kern_ok_erase [OF U(2) sched_ok_update [OF s1 c1]] ok1 by simp
  have E: "erase ?k2 = erase ?k1" using U(2) by simp
  obtain t where t: "LW_CAND_TCB ?k2 c = Some t"
    using U(3) sched_okD(2) [OF s1] c1 by (cases "LW_CAND_ROT ?k1 c") (auto simp: cands_full_def)
  have "prio ?k2 t \<le> prio ?k2 u" if h: "LW_CAND_ROT k c" "eligible k c (fst q)" "u \<in> set (rring ?k2 q)"
  proof -
    have r: "LW_CAND_ROT ?k1 c" using h(1) by (simp add: LW_CAND_ROT_def)
    have "eligible ?k1 c (fst q)" using h(2) by (simp add: eligible_def)
    from CandTableUpdate_least [OF sched_okD(1) [OF s1] sched_ok_bound [OF s1 c1(1)] c1(2) _ this, of u] h(3) t r
    show ?thesis by auto
  qed
  moreover have "SchedGetCand c m k = (Some t, ?k2)" using p t by (simp add: SchedGetCand_def Let_def)
  ultimately show ?thesis using ok2 t E by (intro that [of t ?k2]) auto
qed

lemma smp_notify_frame:
  "sview (fold (smp_notify_cpu c) xs k) = sview k" "K_tcb (fold (smp_notify_cpu c) xs k) = K_tcb k"
  "K_bug (fold (smp_notify_cpu c) xs k) = K_bug k" "K_ncpus (fold (smp_notify_cpu c) xs k) = K_ncpus k"
  "CPU_bActive (K_cpu (fold (smp_notify_cpu c) xs k) i) = CPU_bActive (K_cpu k i)"
  "CPU_ptcbTCBCur (K_cpu (fold (smp_notify_cpu c) xs k) i) = CPU_ptcbTCBCur (K_cpu k i)"
  "CPU_ptcbTCBHigh (K_cpu (fold (smp_notify_cpu c) xs k) i) = CPU_ptcbTCBHigh (K_cpu k i)"
  "K_eventBuffer (fold (smp_notify_cpu c) xs k) = K_eventBuffer k"
  by (induction xs arbitrary: k; simp add: smp_notify_cpu_def SmpSendIpi_def)+

lemma rdyset_K_tcb: "K_tcb k' = K_tcb k \<Longrightarrow> rdyset T k' = rdyset T k"
  by (simp add: rdyset_def LW_THREAD_IS_READY_def)

lemma SchedSmpNotify_ok: "kern_ok T k \<Longrightarrow> kern_ok T (SchedSmpNotify c k)"
  unfolding kern_ok_def SchedSmpNotify_def rdyset_K_tcb [OF smp_notify_frame(2)]
  by (elim sched_ok_sview) (simp_all add: smp_notify_frame)

lemma SchedSwp_ok: "kern_ok T k \<Longrightarrow> kern_ok T (SchedSwp c k)"
  unfolding SchedSwp_def Let_def by (rule kern_ok_cpu [OF SchedSmpNotify_ok]) simp_all

text \<open>
  An interrupt exit that may preempt: the processor then runs its candidate, which is ready.
\<close>

lemma SchedGetCand_cases:
  assumes ok: "kern_ok T k" and c: "c < K_ncpus k" "CPU_bActive (K_cpu k c)"
  obtains t k' where "SchedGetCand c m k = (t, k')" "kern_ok T k'"
    "\<And>i. CPU_ptcbTCBCur (K_cpu k' i) = CPU_ptcbTCBCur (K_cpu k i)"
    "can_preemptive c m k \<Longrightarrow> LW_CAND_TCB k' c = t \<and> t \<noteq> None \<and> (if LW_CAND_ROT k c
       then \<forall>q. eligible k c (fst q) \<longrightarrow> (\<forall>u \<in> set (rring k' q). prio k' (the t) \<le> prio k' u) else LW_CAND_TCB k c = t)"
    "\<not> can_preemptive c m k \<Longrightarrow> t = CPU_ptcbTCBCur (K_cpu k c) \<and> k' = k"
proof (cases "can_preemptive c m k")
  case p: True
  obtain t k' where H: "SchedGetCand c m k = (Some t, k')" "kern_ok T k'" "LW_CAND_TCB k' c = Some t"
    "erase k' = erase (cpu_upd c (\<lambda>p. p\<lparr>CPU_bSchedIpiPend := False\<rparr>) k)"
    by (rule SchedGetCand_spec [OF ok c p])
  have "prio k' t \<le> prio k' u" if "LW_CAND_ROT k c" "eligible k c (fst q)" "u \<in> set (rring k' q)" for q u
    by (rule SchedGetCand_spec [OF ok c p, of q u]) (use H that in auto)
  moreover have "LW_CAND_TCB k c = Some t" if "\<not> LW_CAND_ROT k c"
    using H(1) that p by (auto simp: SchedGetCand_def Let_def LW_CAND_ROT_def LW_CAND_TCB_def)
  moreover have "CPU_ptcbTCBCur (K_cpu k' i) = CPU_ptcbTCBCur (K_cpu k i)" for i using erase_eqD(11) [OF H(4), of i] by simp
  ultimately show ?thesis using H p by (intro that [of "Some t" k']) auto
next
  case False
  then show ?thesis using ok by (intro that [of "CPU_ptcbTCBCur (K_cpu k c)" k]) (simp_all add: SchedGetCand_def)
qed

text \<open>
  The exit from an interrupt, from the state in which the pending requests to change the status of
  the interrupted thread have been served.
\<close>

definition reqs_served :: "nat \<Rightarrow> kernel \<Rightarrow> kernel" where
  "reqs_served c k = (if status_change_en (cur_of k c) c k \<and> TCB_plineStatusReqHeader (K_tcb k (cur_of k c)) \<noteq> []
     then ThreadStatusChangeCur c k else k)"

lemma ScheduleInt_spec:
  assumes ok: "kern_ok T k0" and k0: "k0 = reqs_served c k" and c: "c < K_ncpus k0" "CPU_bActive (K_cpu k0 c)"
    and cur: "CPU_ptcbTCBCur (K_cpu k0 c) = Some (cur_of k c)"
  shows "kern_ok T (ScheduleInt c k)"
    "can_preemptive c 1 k0 \<Longrightarrow> \<exists>t. CPU_ptcbTCBCur (K_cpu (ScheduleInt c k) c) = Some t \<and> LW_CAND_TCB (ScheduleInt c k) c = Some t \<and>
       LW_THREAD_IS_READY (ScheduleInt c k) t \<and>
       (if LW_CAND_ROT k0 c then \<forall>q. eligible k0 c (fst q) \<longrightarrow>
          (\<forall>u \<in> set (rring (ScheduleInt c k) q). prio (ScheduleInt c k) t \<le> prio (ScheduleInt c k) u)
        else LW_CAND_TCB k0 c = Some t)"
    "\<not> can_preemptive c 1 k0 \<Longrightarrow> CPU_ptcbTCBCur (K_cpu (ScheduleInt c k) c) = Some (cur_of k c) \<and>
       LW_CAND_TCB (ScheduleInt c k) = LW_CAND_TCB k0 \<and> rring (ScheduleInt c k) = rring k0"
proof -
  obtain t k' where G: "SchedGetCand c 1 k0 = (t, k')" "kern_ok T k'"
    "\<And>i. CPU_ptcbTCBCur (K_cpu k' i) = CPU_ptcbTCBCur (K_cpu k0 i)"
    "can_preemptive c 1 k0 \<Longrightarrow> LW_CAND_TCB k' c = t \<and> t \<noteq> None \<and> (if LW_CAND_ROT k0 c
       then \<forall>q. eligible k0 c (fst q) \<longrightarrow> (\<forall>u \<in> set (rring k' q). prio k' (the t) \<le> prio k' u) else LW_CAND_TCB k0 c = t)"
    "\<not> can_preemptive c 1 k0 \<Longrightarrow> t = CPU_ptcbTCBCur (K_cpu k0 c) \<and> k' = k0"
    using SchedGetCand_cases [OF ok c, of 1] by blast
  define k1 where "k1 = (if t \<noteq> Some (cur_of k c)
    then SchedSwp c (cpu_upd c (\<lambda>p. p\<lparr>CPU_bIsIntSwitch := True, CPU_ptcbTCBHigh := t\<rparr>) k') else SchedSmpNotify c k')"
  have S: "ScheduleInt c k = k1" using G(1) unfolding k0 reqs_served_def by (simp add: ScheduleInt_def Let_def k1_def)
  have V: "sview k1 = sview k'" and K: "K_tcb k1 = K_tcb k'"
    by (simp_all add: k1_def SchedSwp_def SchedSmpNotify_def smp_notify_frame)
  have C: "CPU_ptcbTCBCur (K_cpu k1 c) = t"
    using cur by (auto simp: k1_def SchedSwp_def SchedSmpNotify_def smp_notify_frame Let_def G(3))
  have P: "prio k1 u = prio k' u" for u by (simp add: prio_def K)
  show ok1: "kern_ok T (ScheduleInt c k)"
    unfolding S k1_def by (auto intro!: SchedSwp_ok SchedSmpNotify_ok kern_ok_cpu G(2))
  show "\<not> can_preemptive c 1 k0 \<Longrightarrow> CPU_ptcbTCBCur (K_cpu (ScheduleInt c k) c) = Some (cur_of k c) \<and>
       LW_CAND_TCB (ScheduleInt c k) = LW_CAND_TCB k0 \<and> rring (ScheduleInt c k) = rring k0"
    using G(5) C cur sview_eqD(1,3) [OF V] unfolding S by (auto simp: fun_eq_iff)
  show "\<exists>t. CPU_ptcbTCBCur (K_cpu (ScheduleInt c k) c) = Some t \<and> LW_CAND_TCB (ScheduleInt c k) c = Some t \<and>
       LW_THREAD_IS_READY (ScheduleInt c k) t \<and>
       (if LW_CAND_ROT k0 c then \<forall>q. eligible k0 c (fst q) \<longrightarrow>
          (\<forall>u \<in> set (rring (ScheduleInt c k) q). prio (ScheduleInt c k) t \<le> prio (ScheduleInt c k) u)
        else LW_CAND_TCB k0 c = Some t)" if p: "can_preemptive c 1 k0"
  proof -
    from G(4) [OF p] obtain u where u: "t = Some u" by auto
    have "LW_CAND_TCB (ScheduleInt c k) c = Some u" using G(4) [OF p] sview_eqD(3) [OF V] by (simp add: S u)
    with G(4) [OF p] kern_ok_cand(1) [OF ok1 this] show ?thesis
      unfolding S using C sview_eqD(1) [OF V] by (intro exI [of _ u], cases "LW_CAND_ROT k0 c") (simp_all add: u P)
  qed
qed

end
