(* ===== verification/SchedProps.thy ===== *)
theory SchedProps
  imports Demo SchedInv
begin

text \<open>
  The properties of the candidate table and the scheduler, each with a configuration at which its
  hypotheses hold.
\<close>

section \<open>Choosing the thread to run\<close>

text \<open>
  C2: after \<^verbatim>\<open>_CandTableUpdate\<close> no thread that waits in a ready ring the processor may serve
  (its own table, and the global one unless the processor runs bound threads only) has a higher
  priority than the candidate of the processor.
\<close>

theorem sched_update_highest:
  assumes "sched_ok S k" and "c < K_ncpus k" and "CPU_bActive (K_cpu k c)"
  shows "\<exists>t. LW_CAND_TCB (CandTableUpdate c k) c = Some t \<and>
     (\<forall>q. eligible k c (fst q) \<longrightarrow>
        (\<forall>u \<in> set (rring (CandTableUpdate c k) q). prio (CandTableUpdate c k) t \<le> prio (CandTableUpdate c k) u))"
proof -
  note L = CandTableUpdate_least [OF sched_okD(1) [OF assms(1)] sched_ok_bound [OF assms(1,2)] assms(3)]
  from CandTableUpdate_spec(3) [OF sched_okD(1) [OF assms(1)] sched_ok_bound [OF assms(1,2)] assms(3)]
  obtain t where "LW_CAND_TCB (CandTableUpdate c k) c = Some t" by auto
  with L show ?thesis by fastforce
qed

theorem sched_update_highest_witness:
  "\<exists>t. LW_CAND_TCB (CandTableUpdate 0 demo) 0 = Some t \<and>
     (\<forall>q. eligible demo 0 (fst q) \<longrightarrow>
        (\<forall>u \<in> set (rring (CandTableUpdate 0 demo) q). prio (CandTableUpdate 0 demo) t \<le> prio (CandTableUpdate 0 demo) u))"
proof (rule sched_update_highest [OF demo_ok])
  show "0 < K_ncpus demo" "CPU_bActive (K_cpu demo 0)" by code_simp+
qed

text \<open>
  An update keeps the scheduler's invariant: the tables stay consistent, every active
  processor keeps a candidate, and no bug stop is reached.
\<close>

theorem sched_update_ok:
  assumes "sched_ok S k" and "c < K_ncpus k" and "CPU_bActive (K_cpu k c)"
  shows "sched_ok S (CandTableUpdate c k)"
  by (rule sched_ok_update [OF assms])

theorem sched_update_ok_witness: "sched_ok {3, 2, 1, 0} (CandTableUpdate 0 demo)"
proof (rule sched_update_ok [OF demo_ok])
  show "0 < K_ncpus demo" "CPU_bActive (K_cpu demo 0)" by code_simp+
qed






section \<open>Changing a priority\<close>

lemma demo_kern: "kern_ok {0, 1, 2, 3} demo"
proof -
  have E: "erase demo = erase demo_boot"
    using demo_add_frame(1) [OF demo_add_inv [OF demo_idle_inv, of 2], of 3] demo_add_frame(1) [OF demo_idle_inv, of 2]
      demo_idle_frame(1) by (simp add: demo_def)
  have "rdyset {0, 1, 2, 3} demo = {3, 2, 1, 0}"
    using erase_eqD(1) [OF E] by (auto simp: rdyset_def LW_THREAD_IS_READY_def demo_boot_def demo_tcb_def tcb0_def)
  then show "kern_ok {0, 1, 2, 3} demo" using demo_ok by (simp add: kern_ok_def)
qed

text \<open>
  \<^verbatim>\<open>_SchedSetPrio\<close> keeps the kernel's invariant for every thread but the idle threads: a ready
  thread that is not a candidate moves to the ring of its new priority, a candidate stays one and
  its processor reconsiders it, a thread that is not ready only changes its priority.
\<close>

theorem set_prio_ok:
  assumes "kern_ok T k" and "t \<in> T" and "K_ncpus k \<le> t"
  shows "kern_ok T (SchedSetPrio t p k)"
  by (rule SchedSetPrio_ok [OF assms])

theorem set_prio_ok_witness: "kern_ok {0, 1, 2, 3} (SchedSetPrio 3 7 demo)"
proof (rule set_prio_ok [OF demo_kern])
  show "K_ncpus demo \<le> 3" by code_simp
qed simp

end
