(* ===== verification/Frame.thy ===== *)
theory Frame
  imports SchedInv
begin

text \<open>
  What the ready-table operations leave alone: \<open>erase\<close> hides the ready tables, the candidates and
  the fields the tables keep in a control block, and no operation on the tables changes
  anything else. The event, delay and resource components rest on these facts.
\<close>

section \<open>Table operations\<close>

lemma erase_table_ops [simp]:
  "erase (AddTCBToReadyRing t q b k) = erase k" "erase (DelTCBFromReadyRing t q k) = erase k"
  "erase (ReadyTableAdd t k) = erase k" "erase (ReadyTableDel t k) = erase k"
  by (simp_all add: AddTCBToReadyRing_def DelTCBFromReadyRing_def ReadyTableAdd_def ReadyTableDel_def Let_def)

lemma erase_CandTableNext [simp]: "CandTableNext q k = (r, k') \<Longrightarrow> erase k' = erase k"
  by (auto simp: CandTableNext_def Let_def erase_tcb_def split: list.splits if_splits)

lemma erase_CandTableResel [simp]: "erase (CandTableResel c q k) = erase k"
  by (auto simp: CandTableResel_def Let_def erase_tcb_def split: prod.splits option.splits)

lemma erase_CandTableFill [simp]: "erase (CandTableFill c k) = erase k"
  by (auto simp: CandTableFill_def Let_def erase_tcb_def split: prod.splits option.splits)

lemma erase_tryadd_idle: "tryadd_idle is t k = (r, k') \<Longrightarrow> erase k' = erase k"
  by (induction "is" t k rule: tryadd_idle.induct) (auto split: if_splits option.splits)

lemma erase_tryadd_rot: "tryadd_rot is t k = (r, k') \<Longrightarrow> erase k' = erase k"
  by (induction "is" t k arbitrary: r k' rule: tryadd_rot.induct) (auto split: if_splits option.splits)

lemma erase_tryadd:
  "tryadd_locked t k = (r, k') \<Longrightarrow> erase k' = erase k" "tryadd_free t k = (r, k') \<Longrightarrow> erase k' = erase k"
proof -
  have O: "erase k' = erase k" if "tryadd_others t k = (r, k')"
    using that by (auto simp: tryadd_others_def split: prod.splits try_add.splits dest!: erase_tryadd_idle erase_tryadd_rot)
  show "tryadd_locked t k = (r, k') \<Longrightarrow> erase k' = erase k"
    by (auto simp: tryadd_locked_def Let_def split: if_splits option.splits)
  show "tryadd_free t k = (r, k') \<Longrightarrow> erase k' = erase k"
    using O by (auto simp: tryadd_free_def Let_def erase_tcb_def split: if_splits option.splits)
qed

lemma erase_CandTableTryAdd: "CandTableTryAdd t q k = (b, k') \<Longrightarrow> erase k' = erase k"
  by (auto simp: CandTableTryAdd_def split: prod.splits try_add.splits if_splits dest: erase_tryadd)

lemma erase_ADD [simp]: "erase (ADD_TO_READY_RING t q k) = erase k"
  by (auto simp: ADD_TO_READY_RING_def split: prod.splits bool.splits dest: erase_CandTableTryAdd)

lemma erase_DEL [simp]: "erase (DEL_FROM_READY_RING t q k) = erase k"
  by (simp add: DEL_FROM_READY_RING_def CandTableTryDel_def Let_def erase_tcb_def)

section \<open>What \<open>erase\<close> keeps\<close>

lemma erase_kernelD:
  assumes "erase k' = erase k"
  shows "K_eventBuffer k' = K_eventBuffer k" "K_wuDelay k' = K_wuDelay k" "K_ncpus k' = K_ncpus k"
    "K_curcpu k' = K_curcpu k" "K_i64KernelTime k' = K_i64KernelTime k" "K_resrcEvent k' = K_resrcEvent k"
    "K_ptcbTCBIdTable k' = K_ptcbTCBIdTable k" "K_esBuffer k' = K_esBuffer k" "K_resrcEventSet k' = K_resrcEventSet k"
    "k_plineVutexHashHeader k' = k_plineVutexHashHeader k" "k_plineVutexOp k' = k_plineVutexOp k"
    "K_ulNotRunError k' = K_ulNotRunError k" "K_msgqueueBuffer k' = K_msgqueueBuffer k" "K_resrcMsgQueue k' = K_resrcMsgQueue k"
  using arg_cong [OF assms, of K_eventBuffer] arg_cong [OF assms, of K_wuDelay] arg_cong [OF assms, of K_ncpus]
    arg_cong [OF assms, of K_curcpu] arg_cong [OF assms, of K_i64KernelTime] arg_cong [OF assms, of K_resrcEvent]
    arg_cong [OF assms, of K_ptcbTCBIdTable] arg_cong [OF assms, of K_esBuffer] arg_cong [OF assms, of K_resrcEventSet]
    arg_cong [OF assms, of k_plineVutexHashHeader] arg_cong [OF assms, of k_plineVutexOp]
    arg_cong [OF assms, of K_ulNotRunError] arg_cong [OF assms, of K_msgqueueBuffer] arg_cong [OF assms, of K_resrcMsgQueue]
  by (simp_all add: erase_sel)

lemma erase_tcb_fields:
  assumes "erase_tcb b' = erase_tcb b"
  shows "TCB_ulId b' = TCB_ulId b" "TCB_iSchedRet b' = TCB_iSchedRet b" "TCB_ulLastError b' = TCB_ulLastError b"
    "TCB_ulOption b' = TCB_ulOption b" "TCB_ulDelay b' = TCB_ulDelay b" "TCB_bDelayInQ b' = TCB_bDelayInQ b"
    "TCB_iPendQ b' = TCB_iPendQ b" "TCB_peventPtr b' = TCB_peventPtr b"
    "TCB_ppringPriorityQueue b' = TCB_ppringPriorityQueue b" "TCB_bCPULock b' = TCB_bCPULock b"
    "TCB_ulCPULock b' = TCB_ulCPULock b" "TCB_ptcbWaitStatus b' = TCB_ptcbWaitStatus b"
    "TCB_plineStatusReqHeader b' = TCB_plineStatusReqHeader b" "TCB_uiStatusChangeReq b' = TCB_uiStatusChangeReq b"
    "TCB_ulStopNesting b' = TCB_ulStopNesting b" "TCB_ucSchedPolicy b' = TCB_ucSchedPolicy b"
    "TCB_ucSchedActivate b' = TCB_ucSchedActivate b" "TCB_ucSchedActivateMode b' = TCB_ucSchedActivateMode b"
    "TCB_usSchedSlice b' = TCB_usSchedSlice b" "TCB_ucPriority b' = TCB_ucPriority b" "TCB_usStatus b' = TCB_usStatus b"
    "TCB_ucWaitTimeout b' = TCB_ucWaitTimeout b" "TCB_ucIsEventDelete b' = TCB_ucIsEventDelete b"
    "TCB_ulSuspendNesting b' = TCB_ulSuspendNesting b" "TCB_iDeleteProcStatus b' = TCB_iDeleteProcStatus b"
    "TCB_pvMsgBoxMessage b' = TCB_pvMsgBoxMessage b" "TCB_pesnPtr b' = TCB_pesnPtr b"
    "TCB_ulEventSets b' = TCB_ulEventSets b" "TCB_vutex b' = TCB_vutex b"
    "TCB_ulThreadLockCounter b' = TCB_ulThreadLockCounter b" "TCB_ulThreadSafeCounter b' = TCB_ulThreadSafeCounter b"
    "TCB_pvMsgQueueMessage b' = TCB_pvMsgQueueMessage b" "TCB_stMaxByteSize b' = TCB_stMaxByteSize b"
    "TCB_pstMsgByteSize b' = TCB_pstMsgByteSize b" "TCB_ulRecvOption b' = TCB_ulRecvOption b"
  using assms by (cases b; cases b'; simp add: erase_tcb_def)+

lemmas erase_tcbD = erase_tcb_fields [OF erase_eqD(12)]

lemma erase_cpu_fields:
  assumes "erase_cpu p' = erase_cpu p"
  shows "CPU_ptcbTCBCur p' = CPU_ptcbTCBCur p" "CPU_ptcbTCBHigh p' = CPU_ptcbTCBHigh p"
    "CPU_bIsIntSwitch p' = CPU_bIsIntSwitch p" "CPU_iKernelCounter p' = CPU_iKernelCounter p"
    "CPU_bOnlyAffinity p' = CPU_bOnlyAffinity p" "CPU_bSchedIpiPend p' = CPU_bSchedIpiPend p"
    "CPU_bActive p' = CPU_bActive p" "CPU_ulInterNesting p' = CPU_ulInterNesting p"
    "CPU_ulInterError p' = CPU_ulInterError p"
  using assms by (cases p; cases p'; simp add: erase_cpu_def)+

lemmas erase_cpuD = erase_cpu_fields [OF erase_eqD(13)]

text \<open>The two operations every blocking and waking routine uses.\<close>

lemmas ADD_frame [simp] = erase_kernelD [OF erase_ADD] erase_tcbD [OF erase_ADD] erase_cpuD [OF erase_ADD]

lemmas DEL_frame [simp] = erase_kernelD [OF erase_DEL] erase_tcbD [OF erase_DEL] erase_cpuD [OF erase_DEL]

lemma erase_tcb_upd_comm:
  "(\<And>b. erase_tcb (f b) = f (erase_tcb b)) \<Longrightarrow> erase (tcb_upd t f k) = tcb_upd t f (erase k)"
  by (simp add: erase_def tcb_upd_def fun_eq_iff)

end
