(* ===== verification/Delay.thy ===== *)
theory Delay
  imports Frame
begin

text \<open>
  The delay line of the kernel: the wakeup nodes are fields of the thread control blocks, the
  line is \<open>K_wuDelay\<close>. \<open>__ADD_TO_WAKEUP_LINE\<close> and \<open>__DEL_FROM_WAKEUP_LINE\<close>
  (\<^verbatim>\<open>k_scanlink.h\<close>) pair the line with the delay bit of the thread's status. Sleeping
  (\<^verbatim>\<open>TimeSleep.c\<close>) enters the line and blocks.
\<close>

section \<open>The line in the kernel\<close>

definition delay_nodes :: "kernel \<Rightarrow> wnodes" where
  "delay_nodes k = (\<lambda>t. \<lparr>WUN_bInQ = TCB_bDelayInQ (K_tcb k t), WUN_ulCounter = TCB_ulDelay (K_tcb k t)\<rparr>)"

definition put_delay :: "wakeup \<Rightarrow> wnodes \<Rightarrow> kernel \<Rightarrow> kernel" where
  "put_delay wu ns k = k\<lparr>K_wuDelay := wu,
     K_tcb := (\<lambda>t. (K_tcb k t)\<lparr>TCB_ulDelay := WUN_ulCounter (ns t), TCB_bDelayInQ := WUN_bInQ (ns t)\<rparr>)\<rparr>"

definition ADD_TO_WAKEUP_LINE :: "tid \<Rightarrow> kernel \<Rightarrow> kernel" where
  "ADD_TO_WAKEUP_LINE ptcb k =
     (let k = tcb_upd ptcb (\<lambda>b. b\<lparr>TCB_usStatus := TCB_usStatus b OR LW_THREAD_STATUS_DELAY\<rparr>) k;
          (wu, ns, _) = WakeupAdd (K_i64KernelTime k) ptcb False (K_wuDelay k) (delay_nodes k)
      in put_delay wu ns k)"

definition DEL_FROM_WAKEUP_LINE :: "tid \<Rightarrow> kernel \<Rightarrow> kernel" where
  "DEL_FROM_WAKEUP_LINE ptcb k =
     (let k = tcb_upd ptcb (\<lambda>b. b\<lparr>TCB_usStatus := TCB_usStatus b AND NOT LW_THREAD_STATUS_DELAY\<rparr>) k;
          (wu, ns) = WakeupDel (K_i64KernelTime k) ptcb False (K_wuDelay k) (delay_nodes k)
      in put_delay wu ns k)"

text \<open>\<^verbatim>\<open>_sigTimeoutRecalc\<close>: the ticks left of a wait that a signal interrupted.\<close>

definition sigTimeoutRecalc :: "ulong \<Rightarrow> ulong \<Rightarrow> kernel \<Rightarrow> ulong" where
  "sigTimeoutRecalc ulOrgKernelTime ulOrgTimeout k =
     (if ulOrgTimeout = LW_OPTION_WAIT_INFINITE then ulOrgTimeout
      else
        let ulKernelTime = K_i64KernelTime k;
            ulTimeRun = (if ulKernelTime \<ge> ulOrgKernelTime then ulKernelTime - ulOrgKernelTime
                         else ulKernelTime + (ULONG_MAX - ulOrgKernelTime) + 1)
        in if ulTimeRun \<ge> ulOrgTimeout then 0 else ulOrgTimeout - ulTimeRun)"

section \<open>Sleeping\<close>

text \<open>The kernel section of a sleep, up to \<^verbatim>\<open>__KERNEL_EXIT_IRQ\<close>.\<close>

definition sleep_enter :: "tid \<Rightarrow> ulong \<Rightarrow> kernel \<Rightarrow> kernel" where
  "sleep_enter ptcbCur ulTick k =
     (let k = kernelEnterIrq k;
          k = DEL_FROM_READY_RING ptcbCur (GetPcb k ptcbCur) k;
          k = tcb_upd ptcbCur (\<lambda>b. b\<lparr>TCB_ulDelay := ulTick\<rparr>) k
      in ADD_TO_WAKEUP_LINE ptcbCur k)"

text \<open>
  The loop of a sleep. A signal that wakes the thread is a switch that returned, so each round
  uses up an entry of \<open>env\<close>; a round that does not is the kernel exit that returned zero.
\<close>

function sleep_loop :: "env \<Rightarrow> tid \<Rightarrow> ulong \<Rightarrow> bool \<Rightarrow> kernel \<Rightarrow> (ulong \<times> env \<times> kernel) option" where
  "sleep_loop env ptcbCur ulTick bSigRet k =
     (if ulTick = 0 then Some (ERROR_NONE, env, k)
      else
        let k = sleep_enter ptcbCur ulTick k;
            ulKernelTime = K_i64KernelTime k
        in (case kernelExitIrq env k of
              None \<Rightarrow> None
            | Some (iRet, env', k) \<Rightarrow>
                if iRet \<noteq> 0 then
                  if bSigRet then Some (EINTR, env', ErrorHandle EINTR k)
                  else if length env' < length env then
                    sleep_loop env' ptcbCur (sigTimeoutRecalc ulKernelTime ulTick k) bSigRet k
                  else None
                else Some (ERROR_NONE, env', k)))"
  by pat_completeness auto
termination by (relation "measure (\<lambda>(env, _). length env)") auto

definition TimeSleepEx :: "env \<Rightarrow> ulong \<Rightarrow> bool \<Rightarrow> kernel \<Rightarrow> (ulong \<times> env \<times> kernel) option" where
  "TimeSleepEx env ulTick bSigRet k =
     (if CpuGetNesting k \<noteq> 0 then Some (ERROR_KERNEL_IN_ISR, env, ErrorHandle ERROR_KERNEL_IN_ISR k)
      else sleep_loop env (LW_TCB_GET_CUR k) ulTick bSigRet k)"

definition TimeSleep :: "env \<Rightarrow> ulong \<Rightarrow> kernel \<Rightarrow> (env \<times> kernel) option" where
  "TimeSleep env ulTick k =
     (if CpuGetNesting k \<noteq> 0 then Some (env, ErrorHandle ERROR_KERNEL_IN_ISR k)
      else map_option snd (sleep_loop env (LW_TCB_GET_CUR k) ulTick False k))"

text \<open>A kernel exit that returns a signal has switched, and used up an entry.\<close>

lemma Schedule_env:
  "Schedule env k = Some (r, env', k') \<Longrightarrow> env' = env \<and> r = 0 \<or> env = hd env # env'"
  by (auto simp: Schedule_def Let_def split: prod.splits if_splits list.splits)

lemma kernelExit_env:
  "kernelExit env k = Some (r, env', k') \<Longrightarrow> r \<noteq> 0 \<Longrightarrow> length env' < length env"
  "kernelExitIrq env k = Some (r, env', k') \<Longrightarrow> r \<noteq> 0 \<Longrightarrow> length env' < length env"
proof -
  have S: "length env' < length env" if "Schedule env k1 = Some (r, env', k')" "r \<noteq> 0" for k1
    using Schedule_env [OF that(1)] that(2) by (cases env) auto
  show "kernelExit env k = Some (r, env', k') \<Longrightarrow> r \<noteq> 0 \<Longrightarrow> length env' < length env"
    by (auto simp: kernelExit_def Let_def split: if_splits intro: S)
  show "kernelExitIrq env k = Some (r, env', k') \<Longrightarrow> r \<noteq> 0 \<Longrightarrow> length env' < length env"
    by (auto simp: kernelExitIrq_def Let_def split: if_splits intro: S)
qed

text \<open>So the guard on the length that makes the loop a recursion never stops a sleep.\<close>

lemma sleep_loop_eq:
  "sleep_loop env ptcbCur ulTick bSigRet k =
     (if ulTick = 0 then Some (ERROR_NONE, env, k)
      else
        let k = sleep_enter ptcbCur ulTick k;
            ulKernelTime = K_i64KernelTime k
        in (case kernelExitIrq env k of
              None \<Rightarrow> None
            | Some (iRet, env', k) \<Rightarrow>
                if iRet \<noteq> 0 then
                  if bSigRet then Some (EINTR, env', ErrorHandle EINTR k)
                  else sleep_loop env' ptcbCur (sigTimeoutRecalc ulKernelTime ulTick k) bSigRet k
                else Some (ERROR_NONE, env', k)))"
proof -
  let ?k = "sleep_enter ptcbCur ulTick k"
  have "length env' < length env" if "kernelExitIrq env ?k = Some (r, env', k')" "r \<noteq> 0" for r env' k'
    using kernelExit_env(2) that by blast
  then show ?thesis
    by (cases "kernelExitIrq env ?k") (auto simp: sleep_loop.simps [of env ptcbCur ulTick bSigRet k] Let_def)
qed

declare sleep_loop.simps [simp del]

section \<open>The invariant of the line\<close>

definition dline :: "kernel \<Rightarrow> tid list" where
  "dline k = WU_plineHeader (K_wuDelay k)"

definition due :: "kernel \<Rightarrow> tid \<Rightarrow> nat" where
  "due k t = deadline (delay_nodes k) (dline k) t"

definition delayed :: "kernel \<Rightarrow> tid \<Rightarrow> bool" where
  "delayed k t \<longleftrightarrow> TCB_usStatus (K_tcb k t) AND LW_THREAD_STATUS_DELAY \<noteq> 0"

definition delay_ok :: "kernel \<Rightarrow> bool" where
  "delay_ok k \<longleftrightarrow> wakeup_wf (K_wuDelay k) (delay_nodes k) \<and> (\<forall>t. t \<in> set (dline k) \<longleftrightarrow> delayed k t)"

lemma put_delay_sel [simp]:
  "K_cpu (put_delay wu ns k) = K_cpu k" "K_ncpus (put_delay wu ns k) = K_ncpus k"
  "K_curcpu (put_delay wu ns k) = K_curcpu k" "K_pcbbmapGlobalReady (put_delay wu ns k) = K_pcbbmapGlobalReady k"
  "K_wuDelay (put_delay wu ns k) = wu" "K_i64KernelTime (put_delay wu ns k) = K_i64KernelTime k"
  "K_eventBuffer (put_delay wu ns k) = K_eventBuffer k" "K_resrcEvent (put_delay wu ns k) = K_resrcEvent k"
  "K_ptcbTCBIdTable (put_delay wu ns k) = K_ptcbTCBIdTable k" "K_esBuffer (put_delay wu ns k) = K_esBuffer k"
  "K_resrcEventSet (put_delay wu ns k) = K_resrcEventSet k" "K_msgqueueBuffer (put_delay wu ns k) = K_msgqueueBuffer k"
  "K_resrcMsgQueue (put_delay wu ns k) = K_resrcMsgQueue k"
  "k_plineVutexHashHeader (put_delay wu ns k) = k_plineVutexHashHeader k"
  "k_plineVutexOp (put_delay wu ns k) = k_plineVutexOp k" "K_bug (put_delay wu ns k) = K_bug k"
  "K_tcb (put_delay wu ns k) t = (K_tcb k t)\<lparr>TCB_ulDelay := WUN_ulCounter (ns t), TCB_bDelayInQ := WUN_bInQ (ns t)\<rparr>"
  "delay_nodes (put_delay wu ns k) = ns"
  by (simp_all add: put_delay_def delay_nodes_def fun_eq_iff)

lemma put_delay_view [simp]:
  "rdy_pcbbmap (put_delay wu ns k) = rdy_pcbbmap k" "LW_CAND_TCB (put_delay wu ns k) = LW_CAND_TCB k"
  "sview (put_delay wu ns k) = sview k"
  by (auto simp: rdy_pcbbmap_def LW_CAND_TCB_def sview_def fun_eq_iff tview_def split: option.splits)

text \<open>What the line operations change: the line, the delays, and one bit of one status.\<close>

definition delay_erase :: "tcb \<Rightarrow> tcb" where
  "delay_erase b = b\<lparr>TCB_ulDelay := 0, TCB_bDelayInQ := False\<rparr>"

lemma WAKEUP_LINE_tcb:
  "delay_erase (K_tcb (ADD_TO_WAKEUP_LINE t k) u) = delay_erase (if u = t then
      (K_tcb k t)\<lparr>TCB_usStatus := TCB_usStatus (K_tcb k t) OR LW_THREAD_STATUS_DELAY\<rparr> else K_tcb k u)"
  "delay_erase (K_tcb (DEL_FROM_WAKEUP_LINE t k) u) = delay_erase (if u = t then
      (K_tcb k t)\<lparr>TCB_usStatus := TCB_usStatus (K_tcb k t) AND NOT LW_THREAD_STATUS_DELAY\<rparr> else K_tcb k u)"
  by (auto simp: ADD_TO_WAKEUP_LINE_def DEL_FROM_WAKEUP_LINE_def Let_def delay_erase_def split: prod.splits)

lemma WAKEUP_LINE_kernel [simp]:
  "K_cpu (ADD_TO_WAKEUP_LINE t k) = K_cpu k" "K_cpu (DEL_FROM_WAKEUP_LINE t k) = K_cpu k"
  "K_ncpus (ADD_TO_WAKEUP_LINE t k) = K_ncpus k" "K_ncpus (DEL_FROM_WAKEUP_LINE t k) = K_ncpus k"
  "K_curcpu (ADD_TO_WAKEUP_LINE t k) = K_curcpu k" "K_curcpu (DEL_FROM_WAKEUP_LINE t k) = K_curcpu k"
  "K_i64KernelTime (ADD_TO_WAKEUP_LINE t k) = K_i64KernelTime k" "K_i64KernelTime (DEL_FROM_WAKEUP_LINE t k) = K_i64KernelTime k"
  "K_eventBuffer (ADD_TO_WAKEUP_LINE t k) = K_eventBuffer k" "K_eventBuffer (DEL_FROM_WAKEUP_LINE t k) = K_eventBuffer k"
  "K_resrcEvent (ADD_TO_WAKEUP_LINE t k) = K_resrcEvent k" "K_resrcEvent (DEL_FROM_WAKEUP_LINE t k) = K_resrcEvent k"
  "sview (ADD_TO_WAKEUP_LINE t k) = sview k" "sview (DEL_FROM_WAKEUP_LINE t k) = sview k"
  "K_bug (ADD_TO_WAKEUP_LINE t k) = K_bug k" "K_bug (DEL_FROM_WAKEUP_LINE t k) = K_bug k"
  by (simp_all add: ADD_TO_WAKEUP_LINE_def DEL_FROM_WAKEUP_LINE_def Let_def sview_def fun_eq_iff tview_def split: prod.splits)

lemma delay_erase_fields:
  assumes "delay_erase b' = delay_erase b"
  shows "TCB_ulId b' = TCB_ulId b" "TCB_iSchedRet b' = TCB_iSchedRet b" "TCB_ulLastError b' = TCB_ulLastError b"
    "TCB_iPendQ b' = TCB_iPendQ b" "TCB_peventPtr b' = TCB_peventPtr b"
    "TCB_ppringPriorityQueue b' = TCB_ppringPriorityQueue b" "TCB_ucPriority b' = TCB_ucPriority b"
    "TCB_usStatus b' = TCB_usStatus b" "TCB_ucWaitTimeout b' = TCB_ucWaitTimeout b"
    "TCB_ucIsEventDelete b' = TCB_ucIsEventDelete b" "TCB_pvMsgBoxMessage b' = TCB_pvMsgBoxMessage b"
    "TCB_pesnPtr b' = TCB_pesnPtr b" "TCB_vutex b' = TCB_vutex b" "TCB_iDeleteProcStatus b' = TCB_iDeleteProcStatus b"
    "TCB_ucSchedActivate b' = TCB_ucSchedActivate b" "TCB_plineStatusReqHeader b' = TCB_plineStatusReqHeader b"
    "TCB_ulThreadLockCounter b' = TCB_ulThreadLockCounter b" "TCB_ulThreadSafeCounter b' = TCB_ulThreadSafeCounter b"
    "tview b' = tview b"
  using assms by (cases b; cases b'; simp add: delay_erase_def tview_def)+

lemma WAKEUP_LINE_fields [simp]:
  "TCB_peventPtr (K_tcb (ADD_TO_WAKEUP_LINE t k) u) = TCB_peventPtr (K_tcb k u)"
  "TCB_peventPtr (K_tcb (DEL_FROM_WAKEUP_LINE t k) u) = TCB_peventPtr (K_tcb k u)"
  "TCB_iPendQ (K_tcb (ADD_TO_WAKEUP_LINE t k) u) = TCB_iPendQ (K_tcb k u)"
  "TCB_iPendQ (K_tcb (DEL_FROM_WAKEUP_LINE t k) u) = TCB_iPendQ (K_tcb k u)"
  "TCB_ppringPriorityQueue (K_tcb (ADD_TO_WAKEUP_LINE t k) u) = TCB_ppringPriorityQueue (K_tcb k u)"
  "TCB_ppringPriorityQueue (K_tcb (DEL_FROM_WAKEUP_LINE t k) u) = TCB_ppringPriorityQueue (K_tcb k u)"
  "TCB_ucPriority (K_tcb (ADD_TO_WAKEUP_LINE t k) u) = TCB_ucPriority (K_tcb k u)"
  "TCB_ucPriority (K_tcb (DEL_FROM_WAKEUP_LINE t k) u) = TCB_ucPriority (K_tcb k u)"
  "TCB_ucWaitTimeout (K_tcb (ADD_TO_WAKEUP_LINE t k) u) = TCB_ucWaitTimeout (K_tcb k u)"
  "TCB_ucWaitTimeout (K_tcb (DEL_FROM_WAKEUP_LINE t k) u) = TCB_ucWaitTimeout (K_tcb k u)"
  "TCB_pvMsgBoxMessage (K_tcb (ADD_TO_WAKEUP_LINE t k) u) = TCB_pvMsgBoxMessage (K_tcb k u)"
  "TCB_pvMsgBoxMessage (K_tcb (DEL_FROM_WAKEUP_LINE t k) u) = TCB_pvMsgBoxMessage (K_tcb k u)"
  "TCB_ucIsEventDelete (K_tcb (ADD_TO_WAKEUP_LINE t k) u) = TCB_ucIsEventDelete (K_tcb k u)"
  "TCB_ucIsEventDelete (K_tcb (DEL_FROM_WAKEUP_LINE t k) u) = TCB_ucIsEventDelete (K_tcb k u)"
  "TCB_pesnPtr (K_tcb (DEL_FROM_WAKEUP_LINE t k) u) = TCB_pesnPtr (K_tcb k u)"
  "TCB_vutex (K_tcb (DEL_FROM_WAKEUP_LINE t k) u) = TCB_vutex (K_tcb k u)"
  using delay_erase_fields [OF WAKEUP_LINE_tcb(1), of t k u] delay_erase_fields [OF WAKEUP_LINE_tcb(2), of t k u]
  by (simp_all split: if_splits)

lemma WAKEUP_LINE_status [simp]:
  "TCB_usStatus (K_tcb (ADD_TO_WAKEUP_LINE t k) u) =
     (if u = t then TCB_usStatus (K_tcb k t) OR LW_THREAD_STATUS_DELAY else TCB_usStatus (K_tcb k u))"
  "TCB_usStatus (K_tcb (DEL_FROM_WAKEUP_LINE t k) u) =
     (if u = t then TCB_usStatus (K_tcb k t) AND NOT LW_THREAD_STATUS_DELAY else TCB_usStatus (K_tcb k u))"
  using delay_erase_fields(8) [OF WAKEUP_LINE_tcb(1), of t k u] delay_erase_fields(8) [OF WAKEUP_LINE_tcb(2), of t k u]
  by (simp_all split: if_splits)

lemma delay_nodes_status [simp]:
  "delay_nodes (tcb_upd t (\<lambda>b. b\<lparr>TCB_usStatus := v b\<rparr>) k) = delay_nodes k"
  by (simp add: delay_nodes_def fun_eq_iff)

lemma delay_bit [simp]:
  "(s OR LW_THREAD_STATUS_DELAY) AND LW_THREAD_STATUS_DELAY \<noteq> 0"
  "(s AND NOT LW_THREAD_STATUS_DELAY) AND LW_THREAD_STATUS_DELAY = 0"
  "(s AND - 2) AND LW_THREAD_STATUS_DELAY = 0"
  using word_and_single_bit [of "s OR LW_THREAD_STATUS_DELAY" 0] word_and_single_bit [of "s AND NOT LW_THREAD_STATUS_DELAY" 0]
  by (simp_all add: bit_simps and.assoc)

lemma ADD_TO_WAKEUP_LINE_spec:
  assumes ok: "delay_ok k" and t: "\<not> delayed k t"
  defines "k' \<equiv> ADD_TO_WAKEUP_LINE t k"
  shows "delay_ok k'" "set (dline k') = insert t (set (dline k))" "due k' t = unat (TCB_ulDelay (K_tcb k t))"
    "u \<in> set (dline k) \<Longrightarrow> due k' u = due k u" "remove1 t (dline k') = dline k"
    "WU_plineOp (K_wuDelay k') = WU_plineOp (K_wuDelay k)"
proof -
  have nt: "t \<notin> set (dline k)" using ok t by (simp add: delay_ok_def)
  obtain wu ns b where a: "WakeupAdd (K_i64KernelTime k) t False (K_wuDelay k) (delay_nodes k) = (wu, ns, b)"
    by (metis prod_cases3)
  have wf: "wakeup_wf (K_wuDelay k) (delay_nodes k)" using ok by (simp add: delay_ok_def)
  note S = WakeupAdd_spec [OF wf nt [unfolded dline_def] a]
  have k': "K_wuDelay k' = wu" "delay_nodes k' = ns"
    by (simp_all add: k'_def ADD_TO_WAKEUP_LINE_def Let_def a)
  show set: "set (dline k') = insert t (set (dline k))" using S(2) by (simp add: dline_def k')
  have "delayed k' u \<longleftrightarrow> u = t \<or> delayed k u" for u by (simp add: delayed_def k'_def)
  then show "delay_ok k'" using S(1) set ok unfolding delay_ok_def k' by auto
  show "due k' t = unat (TCB_ulDelay (K_tcb k t))" using S(3) by (simp add: due_def dline_def k') (simp add: delay_nodes_def)
  show "u \<in> set (dline k) \<Longrightarrow> due k' u = due k u" using S(4) [of u] by (simp add: due_def dline_def k')
  show "remove1 t (dline k') = dline k" "WU_plineOp (K_wuDelay k') = WU_plineOp (K_wuDelay k)"
    using S(5,7) by (simp_all add: dline_def k')
qed

lemma DEL_FROM_WAKEUP_LINE_spec:
  assumes ok: "delay_ok k" and t: "delayed k t"
  defines "k' \<equiv> DEL_FROM_WAKEUP_LINE t k"
  shows "delay_ok k'" "dline k' = remove1 t (dline k)" "u \<in> set (dline k) \<Longrightarrow> u \<noteq> t \<Longrightarrow> due k' u = due k u"
    "TCB_ulDelay (K_tcb k' t) = TCB_ulDelay (K_tcb k t)" "\<not> delayed k' t"
proof -
  have nt: "t \<in> set (dline k)" using ok t by (simp add: delay_ok_def)
  obtain wu ns where a: "WakeupDel (K_i64KernelTime k) t False (K_wuDelay k) (delay_nodes k) = (wu, ns)"
    by fastforce
  have wf: "wakeup_wf (K_wuDelay k) (delay_nodes k)" using ok by (simp add: delay_ok_def)
  note S = WakeupDel_spec [OF wf nt [unfolded dline_def] a]
  have k': "K_wuDelay k' = wu" "delay_nodes k' = ns"
    by (simp_all add: k'_def DEL_FROM_WAKEUP_LINE_def Let_def a)
  show l: "dline k' = remove1 t (dline k)" using S(2) by (simp add: dline_def k')
  have D: "delayed k' u \<longleftrightarrow> u \<noteq> t \<and> delayed k u" for u by (simp add: delayed_def k'_def)
  then show "\<not> delayed k' t" by simp
  have "distinct (dline k)" using wf by (simp add: wakeup_wf_def dline_def)
  with D l S(1) ok show "delay_ok k'" unfolding delay_ok_def k' by auto
  show "u \<in> set (dline k) \<Longrightarrow> u \<noteq> t \<Longrightarrow> due k' u = due k u" using S(3) [of u] by (simp add: due_def dline_def k')
  show "TCB_ulDelay (K_tcb k' t) = TCB_ulDelay (K_tcb k t)"
    using S(5) arg_cong [OF k'(2), of "\<lambda>n. WUN_ulCounter (n t)"] by (simp add: delay_nodes_def)
qed

end
