(* ===== verification/EventQueue.thy ===== *)
theory EventQueue
  imports Delay
begin

text \<open>
  The wait queues of the event objects: \<^verbatim>\<open>_EventQueue.c\<close>, the selection macros of
  \<^verbatim>\<open>inlSearchEventQueue.h\<close>, and the blocking and waking routines of
  \<^verbatim>\<open>_EventHighLevel.c\<close>. A queue is served first-in first-out, or by priority over eight
  rings of 32 priorities each. The locale \<open>wait_queue\<close> is the contract of both: the order in
  which the waiters are served.
\<close>

section \<open>Queues\<close>

text \<open>A \<^verbatim>\<open>PLW_LIST_RING *\<close> into an event: a wait queue and the index of a ring in it.\<close>

type_synonym pring = "nat \<times> nat"

definition ev_ring :: "kernel \<Rightarrow> nat \<Rightarrow> pring \<Rightarrow> tid list" where
  "ev_ring k e p = WL_pring (EVENT_wqWaitQ (K_eventBuffer k e) (fst p)) (snd p)"

definition wq_ring_upd :: "nat \<Rightarrow> (tid list \<Rightarrow> tid list) \<Rightarrow> waitq \<Rightarrow> waitq" where
  "wq_ring_upd i f w = w\<lparr>WL_pring := (WL_pring w)(i := f (WL_pring w i))\<rparr>"

definition ev_wq_upd :: "nat \<Rightarrow> nat \<Rightarrow> (waitq \<Rightarrow> waitq) \<Rightarrow> kernel \<Rightarrow> kernel" where
  "ev_wq_upd e q f = event_upd e (\<lambda>v. v\<lparr>EVENT_wqWaitQ := (EVENT_wqWaitQ v)(q := f (EVENT_wqWaitQ v q))\<rparr>)"

definition AddTCBToEventFifo :: "tid \<Rightarrow> nat \<Rightarrow> pring \<Rightarrow> kernel \<Rightarrow> kernel" where
  "AddTCBToEventFifo ptcb pevent ppringList k =
     (let k = ev_wq_upd pevent (fst ppringList) (wq_ring_upd (snd ppringList) (ring_add_ahead ptcb)) k
      in ev_wq_upd pevent (TCB_iPendQ (K_tcb k ptcb)) (\<lambda>w. w\<lparr>WQ_usNum := WQ_usNum w + 1\<rparr>) k)"

definition DelTCBFromEventFifo :: "tid \<Rightarrow> nat \<Rightarrow> pring \<Rightarrow> kernel \<Rightarrow> kernel" where
  "DelTCBFromEventFifo ptcb pevent ppringList k =
     (let k = ev_wq_upd pevent (fst ppringList) (wq_ring_upd (snd ppringList) (ring_del ptcb)) k
      in ev_wq_upd pevent (TCB_iPendQ (K_tcb k ptcb)) (\<lambda>w. w\<lparr>WQ_usNum := WQ_usNum w - 1\<rparr>) k)"

text \<open>
  The search of \<^verbatim>\<open>_AddTCBToEventPriority\<close> behind the header: the thread enters before the
  first one of lower priority, or at the end.
\<close>

fun prio_insert :: "(tid \<Rightarrow> u8) \<Rightarrow> tid \<Rightarrow> u8 \<Rightarrow> tid list \<Rightarrow> tid list" where
  "prio_insert pr ptcb ucPriority [] = [ptcb]"
| "prio_insert pr ptcb ucPriority (ptcbTemp # pringList) =
     (if ucPriority < pr ptcbTemp then ptcb # ptcbTemp # pringList
      else ptcbTemp # prio_insert pr ptcb ucPriority pringList)"

definition ring_add_prio :: "(tid \<Rightarrow> u8) \<Rightarrow> tid \<Rightarrow> tid list \<Rightarrow> tid list" where
  "ring_add_prio pr ptcb pring =
     (case pring of
        [] \<Rightarrow> ring_add_ahead ptcb pring
      | pringListHeader # pringList \<Rightarrow>
          if pr ptcb < pr pringListHeader then ring_add_ahead ptcb pring
          else pringListHeader # prio_insert pr ptcb (pr ptcb) pringList)"

definition AddTCBToEventPriority :: "tid \<Rightarrow> nat \<Rightarrow> pring \<Rightarrow> kernel \<Rightarrow> kernel" where
  "AddTCBToEventPriority ptcb pevent ppringList k =
     (let k = ev_wq_upd pevent (fst ppringList) (wq_ring_upd (snd ppringList) (ring_add_prio (prio k) ptcb)) k
      in ev_wq_upd pevent (TCB_iPendQ (K_tcb k ptcb)) (\<lambda>w. w\<lparr>WQ_usNum := WQ_usNum w + 1\<rparr>) k)"

definition DelTCBFromEventPriority :: "tid \<Rightarrow> nat \<Rightarrow> pring \<Rightarrow> kernel \<Rightarrow> kernel" where
  "DelTCBFromEventPriority ptcb pevent ppringList k =
     (let k = ev_wq_upd pevent (fst ppringList) (wq_ring_upd (snd ppringList) (ring_del ptcb)) k
      in ev_wq_upd pevent (TCB_iPendQ (K_tcb k ptcb)) (\<lambda>w. w\<lparr>WQ_usNum := WQ_usNum w - 1\<rparr>) k)"

text \<open>The selection macros.\<close>

definition EVENT_INDEX_Q_PRIORITY :: "u8 \<Rightarrow> nat" where
  "EVENT_INDEX_Q_PRIORITY ucPriority = unat (drop_bit EVENT_Q_SHIFT ucPriority)"

definition EVENT_DEL_Q_PRIORITY :: "kernel \<Rightarrow> nat \<Rightarrow> nat \<Rightarrow> pring" where
  "EVENT_DEL_Q_PRIORITY k pevent iQ = (iQ, length (takeWhile (\<lambda>i. ev_ring k pevent (iQ, i) = []) [0..<EVENT_Q_SIZE]))"

definition EventWaitNum :: "nat \<Rightarrow> nat \<Rightarrow> kernel \<Rightarrow> u16" where
  "EventWaitNum iQ pevent k = WQ_usNum (EVENT_wqWaitQ (K_eventBuffer k pevent) iQ)"

definition EventQGetTcbFifo :: "kernel \<Rightarrow> nat \<Rightarrow> pring \<Rightarrow> tid option" where
  "EventQGetTcbFifo k pevent ppringList = last_of (ev_ring k pevent ppringList)"

definition EventQGetTcbPriority :: "kernel \<Rightarrow> nat \<Rightarrow> pring \<Rightarrow> tid option" where
  "EventQGetTcbPriority k pevent ppringList = head_of (ev_ring k pevent ppringList)"

section \<open>Waiting and waking\<close>

definition EventWaitFifo :: "nat \<Rightarrow> pring \<Rightarrow> kernel \<Rightarrow> kernel" where
  "EventWaitFifo pevent ppringList k =
     (let ptcbCur = LW_TCB_GET_CUR k;
          k = tcb_upd ptcbCur (\<lambda>b. b\<lparr>TCB_peventPtr := Some pevent\<rparr>) k;
          k = DEL_FROM_READY_RING ptcbCur (GetPcb k ptcbCur) k;
          k = AddTCBToEventFifo ptcbCur pevent ppringList k;
          k = (if TCB_ulDelay (K_tcb k ptcbCur) \<noteq> 0 then ADD_TO_WAKEUP_LINE ptcbCur k else k)
      in tcb_upd ptcbCur (\<lambda>b. b\<lparr>TCB_ucIsEventDelete := LW_EVENT_EXIST\<rparr>) k)"

definition EventWaitPriority :: "nat \<Rightarrow> pring \<Rightarrow> kernel \<Rightarrow> kernel" where
  "EventWaitPriority pevent ppringList k =
     (let ptcbCur = LW_TCB_GET_CUR k;
          k = tcb_upd ptcbCur (\<lambda>b. b\<lparr>TCB_peventPtr := Some pevent\<rparr>) k;
          k = DEL_FROM_READY_RING ptcbCur (GetPcb k ptcbCur) k;
          k = AddTCBToEventPriority ptcbCur pevent ppringList k;
          k = (if TCB_ulDelay (K_tcb k ptcbCur) \<noteq> 0 then ADD_TO_WAKEUP_LINE ptcbCur k else k)
      in tcb_upd ptcbCur (\<lambda>b. b\<lparr>TCB_ucIsEventDelete := LW_EVENT_EXIST\<rparr>) k)"

definition leave_wakeup_line :: "tid \<Rightarrow> kernel \<Rightarrow> kernel" where
  "leave_wakeup_line ptcb k =
     (if TCB_usStatus (K_tcb k ptcb) AND LW_THREAD_STATUS_DELAY \<noteq> 0 then
        tcb_upd ptcb (\<lambda>b. b\<lparr>TCB_ulDelay := 0\<rparr>) (DEL_FROM_WAKEUP_LINE ptcb k)
      else k)"

text \<open>An empty ring has no thread to wake: the routines would follow a null pointer.\<close>

definition EventReadyFifoLowLevel :: "nat \<Rightarrow> ulong \<Rightarrow> pring \<Rightarrow> kernel \<Rightarrow> tid option \<times> kernel" where
  "EventReadyFifoLowLevel pevent pvMsgBoxMessage ppringList k =
     (case EventQGetTcbFifo k pevent ppringList of
        None \<Rightarrow> (None, bug k)
      | Some ptcb \<Rightarrow>
          let k = DelTCBFromEventFifo ptcb pevent ppringList k;
              k = tcb_upd ptcb (\<lambda>b. b\<lparr>TCB_pvMsgBoxMessage := pvMsgBoxMessage\<rparr>) k
          in (Some ptcb, leave_wakeup_line ptcb k))"

definition EventReadyPriorityLowLevel :: "nat \<Rightarrow> ulong \<Rightarrow> pring \<Rightarrow> kernel \<Rightarrow> tid option \<times> kernel" where
  "EventReadyPriorityLowLevel pevent pvMsgBoxMessage ppringList k =
     (case EventQGetTcbPriority k pevent ppringList of
        None \<Rightarrow> (None, bug k)
      | Some ptcb \<Rightarrow>
          let k = DelTCBFromEventPriority ptcb pevent ppringList k;
              k = tcb_upd ptcb (\<lambda>b. b\<lparr>TCB_pvMsgBoxMessage := pvMsgBoxMessage\<rparr>) k
          in (Some ptcb, leave_wakeup_line ptcb k))"

definition EventReadyHighLevel :: "tid \<Rightarrow> u16 \<Rightarrow> u8 \<Rightarrow> kernel \<Rightarrow> kernel" where
  "EventReadyHighLevel ptcb usWaitType ucSchedActivate k =
     (let k = tcb_upd ptcb (\<lambda>b. b\<lparr>TCB_peventPtr := None\<rparr>) k in
      if TCB_ucWaitTimeout (K_tcb k ptcb) \<noteq> 0 then
        tcb_upd ptcb (\<lambda>b. b\<lparr>TCB_ucWaitTimeout := LW_WAIT_TIME_CLEAR\<rparr>) k
      else
        let k = tcb_upd ptcb (\<lambda>b. b\<lparr>TCB_usStatus := TCB_usStatus b AND NOT usWaitType\<rparr>) k in
        if LW_THREAD_IS_READY k ptcb then
          let k = tcb_upd ptcb (\<lambda>b. b\<lparr>TCB_ucSchedActivate := ucSchedActivate\<rparr>) k
          in ADD_TO_READY_RING ptcb (GetPcb k ptcb) k
        else k)"

definition EventPrioTryBoost :: "nat \<Rightarrow> tid \<Rightarrow> kernel \<Rightarrow> kernel" where
  "EventPrioTryBoost pevent ptcbCur k =
     (case EVENT_pvTcbOwn (K_eventBuffer k pevent) of
        None \<Rightarrow> bug k
      | Some ptcbOwner \<Rightarrow>
          if TCB_iDeleteProcStatus (K_tcb k ptcbOwner) \<noteq> 0 then k
          else if prio k ptcbCur < prio k ptcbOwner then
            if EVENT_ulOption (K_eventBuffer k pevent) AND LW_OPTION_INHERIT_PRIORITY \<noteq> 0 then
              SchedSetPrio ptcbOwner (prio k ptcbCur) k
            else if EVENT_ucCeilingPriority (K_eventBuffer k pevent) < prio k ptcbOwner then
              SchedSetPrio ptcbOwner (EVENT_ucCeilingPriority (K_eventBuffer k pevent)) k
            else k
          else k)"

definition EventPrioTryResume :: "nat \<Rightarrow> tid \<Rightarrow> kernel \<Rightarrow> kernel" where
  "EventPrioTryResume pevent ptcbCur k =
     (let ucPriorityOld = ucast (EVENT_ulMaxCounter (K_eventBuffer k pevent)) in
      if prio k ptcbCur \<noteq> ucPriorityOld then SchedSetPrio ptcbCur ucPriorityOld k else k)"

definition EventUnQueue :: "tid \<Rightarrow> kernel \<Rightarrow> kernel" where
  "EventUnQueue ptcb k =
     (case TCB_peventPtr (K_tcb k ptcb) of
        None \<Rightarrow> bug k
      | Some pevent \<Rightarrow>
          let k = (if EVENT_ulOption (K_eventBuffer k pevent) AND LW_OPTION_WAIT_PRIORITY \<noteq> 0
                   then DelTCBFromEventPriority ptcb pevent (TCB_ppringPriorityQueue (K_tcb k ptcb)) k
                   else DelTCBFromEventFifo ptcb pevent (TCB_iPendQ (K_tcb k ptcb), 0) k)
          in tcb_upd ptcb (\<lambda>b. b\<lparr>TCB_peventPtr := None\<rparr>) k)"

text \<open>
  The passage every pending call has in common: enter the wait queue of the event that its
  options ask for.
\<close>

definition ev_wait :: "nat \<Rightarrow> nat \<Rightarrow> kernel \<Rightarrow> kernel" where
  "ev_wait pevent iQ k =
     (let ptcbCur = LW_TCB_GET_CUR k in
      if EVENT_ulOption (K_eventBuffer k pevent) AND LW_OPTION_WAIT_PRIORITY \<noteq> 0 then
        let ppringList = (iQ, EVENT_INDEX_Q_PRIORITY (prio k ptcbCur));
            k = tcb_upd ptcbCur (\<lambda>b. b\<lparr>TCB_ppringPriorityQueue := ppringList\<rparr>) k
        in EventWaitPriority pevent ppringList k
      else EventWaitFifo pevent (iQ, 0) k)"

text \<open>The passage every posting call has in common: take the next waiter off the queue.\<close>

definition ev_ready_low :: "nat \<Rightarrow> nat \<Rightarrow> ulong \<Rightarrow> kernel \<Rightarrow> tid option \<times> kernel" where
  "ev_ready_low pevent iQ pvMsg k =
     (if EVENT_ulOption (K_eventBuffer k pevent) AND LW_OPTION_WAIT_PRIORITY \<noteq> 0
      then EventReadyPriorityLowLevel pevent pvMsg (EVENT_DEL_Q_PRIORITY k pevent iQ) k
      else EventReadyFifoLowLevel pevent pvMsg (iQ, 0) k)"

end
