(* ===== verification/WaitQueue.thy ===== *)
theory WaitQueue
  imports EventQueue
begin

text \<open>
  The contract of the wait queues. \<open>wq_order\<close> is the order in which the waiters of a queue
  are served; the locale \<open>wait_queue\<close> says how the operations act on it and is interpreted
  on the first-in first-out queue and on the priority queue.
\<close>

section \<open>The order of service\<close>

definition wq_order :: "bool \<Rightarrow> waitq \<Rightarrow> tid list" where
  "wq_order b w = (if b then concat (map (WL_pring w) [0..<EVENT_Q_SIZE]) else rev (WL_pring w 0))"

definition wq_ok :: "bool \<Rightarrow> waitq \<Rightarrow> bool" where
  "wq_ok b w \<longleftrightarrow> distinct (wq_order b w) \<and> set (wq_order b w) \<subseteq> {..<LW_CFG_MAX_THREADS} \<and>
     WQ_usNum w = of_nat (length (wq_order b w))"

definition prio_ok :: "(tid \<Rightarrow> u8) \<Rightarrow> waitq \<Rightarrow> bool" where
  "prio_ok pr w \<longleftrightarrow> (\<forall>i < EVENT_Q_SIZE. sorted_wrt (\<lambda>u v. pr u \<le> pr v) (WL_pring w i) \<and>
     (\<forall>u \<in> set (WL_pring w i). EVENT_INDEX_Q_PRIORITY (pr u) = i))"

definition fifo_enq :: "tid \<Rightarrow> waitq \<Rightarrow> waitq" where
  "fifo_enq t w = (wq_ring_upd 0 (ring_add_ahead t) w)\<lparr>WQ_usNum := WQ_usNum w + 1\<rparr>"

definition prio_enq :: "(tid \<Rightarrow> u8) \<Rightarrow> tid \<Rightarrow> waitq \<Rightarrow> waitq" where
  "prio_enq pr t w = (wq_ring_upd (EVENT_INDEX_Q_PRIORITY (pr t)) (ring_add_prio pr t) w)\<lparr>WQ_usNum := WQ_usNum w + 1\<rparr>"

definition wq_del_at :: "nat \<Rightarrow> tid \<Rightarrow> waitq \<Rightarrow> waitq" where
  "wq_del_at i t w = (wq_ring_upd i (ring_del t) w)\<lparr>WQ_usNum := WQ_usNum w - 1\<rparr>"

definition wq_first :: "bool \<Rightarrow> waitq \<Rightarrow> tid option" where
  "wq_first b w = (if b then head_of (WL_pring w (length (takeWhile (\<lambda>i. WL_pring w i = []) [0..<EVENT_Q_SIZE])))
     else last_of (WL_pring w 0))"

lemma wq_ring_upd_sel [simp]:
  "WL_pring (wq_ring_upd i f w) j = (if j = i then f (WL_pring w i) else WL_pring w j)"
  "WQ_usNum (wq_ring_upd i f w) = WQ_usNum w"
  by (simp_all add: wq_ring_upd_def)

lemma num_sel [simp]: "wq_order b (w\<lparr>WQ_usNum := n\<rparr>) = wq_order b w"
  by (simp add: wq_order_def)

lemma length_wq_order: "wq_ok b w \<Longrightarrow> length (wq_order b w) \<le> LW_CFG_MAX_THREADS"
  unfolding wq_ok_def by (metis card_mono distinct_card finite_lessThan card_lessThan)

lemma wq_num: "wq_ok b w \<Longrightarrow> unat (WQ_usNum w) = length (wq_order b w)"
proof -
  assume ok: "wq_ok b w"
  have "length (wq_order b w) < 2 ^ LENGTH(16)" using length_wq_order [OF ok] by simp
  then show ?thesis using ok by (simp add: wq_ok_def unat_of_nat)
qed

lemma wq_num_zero: "wq_ok b w \<Longrightarrow> WQ_usNum w = 0 \<longleftrightarrow> wq_order b w = []"
  using wq_num [of b w] by (metis length_0_conv unat_eq_zero)

lemma wq_okI_enq:
  assumes "wq_ok b w" and "t \<notin> set (wq_order b w)" and "t < LW_CFG_MAX_THREADS"
    and "remove1 t (wq_order b w') = wq_order b w" and "t \<in> set (wq_order b w')" and "WQ_usNum w' = WQ_usNum w + 1"
  shows "wq_ok b w'"
proof -
  obtain p r where o: "wq_order b w' = p @ t # r" "t \<notin> set p" using assms(5) by (meson split_list_first)
  then have "wq_order b w = p @ r" using assms(4) by simp
  then show ?thesis using assms o by (auto simp: wq_ok_def)
qed

lemma wq_okI_del:
  assumes "wq_ok b w" and "t \<in> set (wq_order b w)" and "wq_order b w' = remove1 t (wq_order b w)"
    and "WQ_usNum w' = WQ_usNum w - 1"
  shows "wq_ok b w'"
proof -
  obtain p r where o: "wq_order b w = p @ t # r" "t \<notin> set p" using assms(2) by (meson split_list_first)
  then have "wq_order b w' = p @ r" using assms(3) by simp
  then show ?thesis using assms o by (auto simp: wq_ok_def)
qed

section \<open>First-in first-out\<close>

lemma last_of_rev: "last_of xs = head_of (rev xs)"
  by (cases xs rule: rev_cases) simp_all

lemma fifo_order:
  "wq_order False (fifo_enq t w) = wq_order False w @ [t]" "wq_first False w = head_of (wq_order False w)"
  "distinct (wq_order False w) \<Longrightarrow> wq_order False (wq_del_at 0 t w) = remove1 t (wq_order False w)"
  by (simp_all add: wq_order_def fifo_enq_def wq_first_def wq_del_at_def last_of_rev ring_add_ahead_def ring_del_def
      distinct_remove1_removeAll removeAll_filter_not_eq rev_filter)

section \<open>By priority\<close>

lemma prio_index_div: "EVENT_INDEX_Q_PRIORITY p = unat p div 32"
  by (simp add: EVENT_INDEX_Q_PRIORITY_def drop_bit_eq_div unat_div)

lemma prio_index_less: "EVENT_INDEX_Q_PRIORITY p < EVENT_INDEX_Q_PRIORITY q \<Longrightarrow> p < q"
  by (metis prio_index_div div_le_mono linorder_not_less word_le_nat_alt)

lemma prio_index_bound [simp]: "EVENT_INDEX_Q_PRIORITY p < EVENT_Q_SIZE"
  using u8_le_255 [of p] by (simp add: prio_index_div)

lemma upt_split: "i < n \<Longrightarrow> [0..<n] = [0..<i] @ i # [Suc i..<n]"
  using upt_add_eq_append [of 0 i "n - i"] upt_conv_Cons [of i n] by simp

lemma prio_order_split:
  "i < EVENT_Q_SIZE \<Longrightarrow> wq_order True w =
     concat (map (WL_pring w) [0..<i]) @ WL_pring w i @ concat (map (WL_pring w) [Suc i..<EVENT_Q_SIZE])"
  by (simp add: wq_order_def upt_split)

lemma prio_order_upd:
  assumes "i < EVENT_Q_SIZE"
  shows "wq_order True (wq_ring_upd i f w) =
     concat (map (WL_pring w) [0..<i]) @ f (WL_pring w i) @ concat (map (WL_pring w) [Suc i..<EVENT_Q_SIZE])"
proof -
  have "map (WL_pring (wq_ring_upd i f w)) [0..<i] = map (WL_pring w) [0..<i]"
    "map (WL_pring (wq_ring_upd i f w)) [Suc i..<EVENT_Q_SIZE] = map (WL_pring w) [Suc i..<EVENT_Q_SIZE]" by auto
  then show ?thesis unfolding prio_order_split [OF assms, of "wq_ring_upd i f w"] by (simp only: wq_ring_upd_sel refl if_True)
qed

lemma prio_insert_filter:
  assumes "sorted_wrt (\<lambda>u v. pr u \<le> pr v) xs" and "p = pr t"
  shows "prio_insert pr t p xs = filter (\<lambda>u. pr u \<le> pr t) xs @ t # filter (\<lambda>u. pr t < pr u) xs"
  using assms
proof (induction xs)
  case (Cons x xs)
  show ?case
  proof (cases "pr t < pr x")
    case True
    then have "\<forall>u \<in> set xs. pr t < pr u" using Cons.prems(1) by auto
    with True show ?thesis using Cons.prems(2) by (auto simp: not_less [symmetric] filter_empty_conv)
  qed (use Cons in \<open>simp add: not_less\<close>)
qed simp

lemma ring_add_prio_filter:
  assumes "sorted_wrt (\<lambda>u v. pr u \<le> pr v) xs"
  shows "ring_add_prio pr t xs = filter (\<lambda>u. pr u \<le> pr t) xs @ t # filter (\<lambda>u. pr t < pr u) xs"
proof (cases xs)
  case (Cons x ys)
  show ?thesis
  proof (cases "pr t < pr x")
    case True
    then have "\<forall>u \<in> set ys. pr t < pr u" using assms Cons by auto
    with True Cons show ?thesis by (auto simp: ring_add_prio_def ring_add_ahead_def not_less [symmetric] filter_empty_conv)
  next
    case False
    with assms Cons show ?thesis by (simp add: ring_add_prio_def prio_insert_filter linorder_not_less [symmetric])
  qed
qed (simp add: ring_add_prio_def ring_add_ahead_def)

text \<open>A waiter is served after those of its priority or higher, and before all others.\<close>

lemma prio_enq_order:
  assumes "prio_ok pr w"
  shows "wq_order True (prio_enq pr t w) =
    filter (\<lambda>u. pr u \<le> pr t) (wq_order True w) @ t # filter (\<lambda>u. pr t < pr u) (wq_order True w)"
proof -
  let ?i = "EVENT_INDEX_Q_PRIORITY (pr t)"
  let ?L = "concat (map (WL_pring w) [0..<?i])" and ?U = "concat (map (WL_pring w) [Suc ?i..<EVENT_Q_SIZE])"
  have b: "?i < EVENT_Q_SIZE" by simp
  have i: "EVENT_INDEX_Q_PRIORITY (pr u) = j" if "u \<in> set (WL_pring w j)" "j < EVENT_Q_SIZE" for u j
    using assms that by (auto simp: prio_ok_def)
  have L: "pr u < pr t" if "u \<in> set ?L" for u
  proof (rule prio_index_less)
    from that obtain j where "j < ?i" "u \<in> set (WL_pring w j)" by auto
    with i [of u j] b show "EVENT_INDEX_Q_PRIORITY (pr u) < ?i" by simp
  qed
  have U: "pr t < pr u" if "u \<in> set ?U" for u
  proof (rule prio_index_less)
    from that obtain j where "Suc ?i \<le> j" "j < EVENT_Q_SIZE" "u \<in> set (WL_pring w j)" by auto
    with i [of u j] show "?i < EVENT_INDEX_Q_PRIORITY (pr u)" by simp
  qed
  have f: "filter (\<lambda>u. pr u \<le> pr t) ?L = ?L" "filter (\<lambda>u. pr t < pr u) ?L = []"
    "filter (\<lambda>u. pr u \<le> pr t) ?U = []" "filter (\<lambda>u. pr t < pr u) ?U = ?U"
    unfolding filter_id_conv filter_empty_conv using L U by (meson less_imp_le not_less)+
  have s: "sorted_wrt (\<lambda>u v. pr u \<le> pr v) (WL_pring w ?i)" using assms b by (auto simp: prio_ok_def)
  show ?thesis
    unfolding prio_enq_def num_sel prio_order_upd [OF b] prio_order_split [OF b, of w] ring_add_prio_filter [OF s]
      filter_append f by simp
qed

lemma prio_order_sorted:
  assumes "prio_ok pr w"
  shows "sorted_wrt (\<lambda>u v. pr u \<le> pr v) (wq_order True w)"
proof -
  have "n \<le> EVENT_Q_SIZE \<Longrightarrow> sorted_wrt (\<lambda>u v. pr u \<le> pr v) (concat (map (WL_pring w) [0..<n])) \<and>
      (\<forall>u \<in> set (concat (map (WL_pring w) [0..<n])). EVENT_INDEX_Q_PRIORITY (pr u) < n)" for n
  proof (induction n)
    case (Suc n)
    then have IH: "sorted_wrt (\<lambda>u v. pr u \<le> pr v) (concat (map (WL_pring w) [0..<n]))"
      "\<forall>u \<in> set (concat (map (WL_pring w) [0..<n])). EVENT_INDEX_Q_PRIORITY (pr u) < n" by simp_all
    have R: "sorted_wrt (\<lambda>u v. pr u \<le> pr v) (WL_pring w n)" "\<forall>u \<in> set (WL_pring w n). EVENT_INDEX_Q_PRIORITY (pr u) = n"
      using assms Suc.prems by (auto simp: prio_ok_def)
    have "pr u \<le> pr v" if "u \<in> set (concat (map (WL_pring w) [0..<n]))" "v \<in> set (WL_pring w n)" for u v
      using IH(2) R(2) that prio_index_less [of "pr u" "pr v"] by (metis less_imp_le)
    with IH R show ?case by (auto simp: sorted_wrt_append less_Suc_eq)
  qed simp
  then show ?thesis by (simp add: wq_order_def)
qed

lemma prio_ok_enq:
  assumes "prio_ok pr w" shows "prio_ok pr (prio_enq pr t w)"
proof -
  have "sorted_wrt (\<lambda>u v. pr u \<le> pr v) (ring_add_prio pr t xs)" if "sorted_wrt (\<lambda>u v. pr u \<le> pr v) xs" for xs
    using that by (auto simp: ring_add_prio_filter [OF that] sorted_wrt_append sorted_wrt_filter)
  moreover have "set (ring_add_prio pr t xs) = insert t (set xs)" if "sorted_wrt (\<lambda>u v. pr u \<le> pr v) xs" for xs
    by (auto simp: ring_add_prio_filter [OF that])
  ultimately show ?thesis using assms by (auto simp: prio_ok_def prio_enq_def)
qed

lemma prio_ok_del: "prio_ok pr w \<Longrightarrow> prio_ok pr (wq_del_at i t w)"
  using notin_set_remove1 by (fastforce simp: prio_ok_def wq_del_at_def ring_del_def sorted_wrt_remove1)

lemma first_ring:
  "concat (map f is) \<noteq> [] \<Longrightarrow> length (takeWhile (\<lambda>i. f i = []) is) < length is \<and>
     head_of (f (is ! length (takeWhile (\<lambda>i. f i = []) is))) = head_of (concat (map f is))"
proof (induction "is")
  case (Cons i "is")
  then show ?case by (cases "f i") auto
qed simp

lemma prio_first: "wq_order True w \<noteq> [] \<Longrightarrow> wq_first True w = head_of (wq_order True w)"
proof -
  let ?n = "length (takeWhile (\<lambda>i. WL_pring w i = []) [0..<EVENT_Q_SIZE])"
  assume "wq_order True w \<noteq> []"
  then have F: "?n < length [0..<EVENT_Q_SIZE]"
    "head_of (WL_pring w ([0..<EVENT_Q_SIZE] ! ?n)) = head_of (concat (map (WL_pring w) [0..<EVENT_Q_SIZE]))"
    using first_ring [of "WL_pring w" "[0..<EVENT_Q_SIZE]"] unfolding wq_order_def if_True by blast+
  then have "[0..<EVENT_Q_SIZE] ! ?n = ?n" by (simp only: length_upt diff_zero nth_upt add_0)
  then show ?thesis using F(2) unfolding wq_first_def wq_order_def if_True by metis
qed

lemma prio_del_order:
  assumes "prio_ok pr w" and "distinct (wq_order True w)"
  shows "wq_order True (wq_del_at (EVENT_INDEX_Q_PRIORITY (pr t)) t w) = remove1 t (wq_order True w)"
proof -
  let ?i = "EVENT_INDEX_Q_PRIORITY (pr t)"
  have i: "?i < EVENT_Q_SIZE" by simp
  have n: "t \<notin> set (WL_pring w j)" if "j < EVENT_Q_SIZE" "j \<noteq> ?i" for j
    using assms(1) that unfolding prio_ok_def by metis
  have "t \<notin> set (concat (map (WL_pring w) [0..<?i]))" "t \<notin> set (concat (map (WL_pring w) [Suc ?i..<EVENT_Q_SIZE]))"
    unfolding set_concat set_map UN_iff image_iff set_upt using n less_trans [OF _ i] by auto
  then show ?thesis
    unfolding wq_del_at_def num_sel prio_order_upd [OF i] prio_order_split [OF i, of w]
    by (simp add: ring_del_def remove1_append remove1_idem)
qed

section \<open>The contract\<close>

text \<open>
  \<open>order\<close> is the order of service. A new waiter does not change the order of the others, the
  next one served is the first of the order, and a waiter can leave from any place.
\<close>

locale wait_queue =
  fixes ok :: "'q \<Rightarrow> bool"
    and order :: "'q \<Rightarrow> tid list"
    and enq :: "tid \<Rightarrow> 'q \<Rightarrow> 'q"
    and first :: "'q \<Rightarrow> tid option"
    and del :: "tid \<Rightarrow> 'q \<Rightarrow> 'q"
    and num :: "'q \<Rightarrow> u16"
  assumes ok_enq: "ok q \<Longrightarrow> t \<notin> set (order q) \<Longrightarrow> t < LW_CFG_MAX_THREADS \<Longrightarrow> ok (enq t q)"
    and mem_enq: "ok q \<Longrightarrow> t \<notin> set (order q) \<Longrightarrow> t \<in> set (order (enq t q))"
    and order_enq: "ok q \<Longrightarrow> t \<notin> set (order q) \<Longrightarrow> remove1 t (order (enq t q)) = order q"
    and first_order: "ok q \<Longrightarrow> order q \<noteq> [] \<Longrightarrow> first q = Some (hd (order q))"
    and ok_del: "ok q \<Longrightarrow> t \<in> set (order q) \<Longrightarrow> ok (del t q)"
    and order_del: "ok q \<Longrightarrow> t \<in> set (order q) \<Longrightarrow> order (del t q) = remove1 t (order q)"
    and num_order: "ok q \<Longrightarrow> unat (num q) = length (order q)"
begin

text \<open>Serve \<open>n\<close> waiters.\<close>

fun serve :: "nat \<Rightarrow> 'q \<Rightarrow> tid list" where
  "serve 0 q = []"
| "serve (Suc n) q = (case first q of None \<Rightarrow> [] | Some t \<Rightarrow> t # serve n (del t q))"

lemma serve_order: "ok q \<Longrightarrow> n \<le> unat (num q) \<Longrightarrow> serve n q = take n (order q)"
proof (induction n arbitrary: q)
  case (Suc n)
  obtain t ts where o: "order q = t # ts" using Suc.prems num_order [of q] by (cases "order q") auto
  then have "first q = Some t" "order (del t q) = ts" "ok (del t q)"
    using first_order [of q] order_del [of q t] ok_del [of q t] Suc.prems by auto
  then show ?case using Suc.IH [of "del t q"] Suc.prems num_order o by simp
qed simp

lemma serve_all: "ok q \<Longrightarrow> serve (unat (num q)) q = order q"
  using serve_order [of q "unat (num q)"] num_order by simp

text \<open>A thread that enters the queue and gives up leaves it as it was.\<close>

lemma enq_del:
  assumes "ok q" and "t \<notin> set (order q)" and "t < LW_CFG_MAX_THREADS"
  shows "order (del t (enq t q)) = order q"
  using assms order_del [of "enq t q" t] ok_enq mem_enq order_enq by simp

end

interpretation fifoq: wait_queue "wq_ok False" "wq_order False" fifo_enq "wq_first False" "wq_del_at 0" WQ_usNum
proof unfold_locales
  fix w t assume ok: "wq_ok False w"
  have d: "distinct (wq_order False w)" using ok by (simp add: wq_ok_def)
  show r: "remove1 t (wq_order False (fifo_enq t w)) = wq_order False w" if "t \<notin> set (wq_order False w)"
    using that by (simp add: fifo_order)
  show m: "t \<in> set (wq_order False (fifo_enq t w))" by (simp add: fifo_order)
  show "wq_ok False (fifo_enq t w)" if "t \<notin> set (wq_order False w)" "t < LW_CFG_MAX_THREADS"
    by (rule wq_okI_enq [OF ok that r [OF that(1)] m]) (simp add: fifo_enq_def)
  show "wq_first False w = Some (hd (wq_order False w))" if "wq_order False w \<noteq> []"
    using that by (simp add: fifo_order(2) head_of_Some)
  show o: "wq_order False (wq_del_at 0 t w) = remove1 t (wq_order False w)" using d by (rule fifo_order(3))
  show "wq_ok False (wq_del_at 0 t w)" if "t \<in> set (wq_order False w)"
    by (rule wq_okI_del [OF ok that o]) (simp add: wq_del_at_def)
  show "unat (WQ_usNum w) = length (wq_order False w)" by (rule wq_num [OF ok])
qed

interpretation prioq: wait_queue "\<lambda>w. wq_ok True w \<and> prio_ok pr w" "wq_order True" "prio_enq pr" "wq_first True"
  "\<lambda>t. wq_del_at (EVENT_INDEX_Q_PRIORITY (pr t)) t" WQ_usNum for pr
proof unfold_locales
  fix w t assume "wq_ok True w \<and> prio_ok pr w"
  then have ok: "wq_ok True w" and p: "prio_ok pr w" by simp_all
  have d: "distinct (wq_order True w)" using ok by (simp add: wq_ok_def)
  show m: "t \<in> set (wq_order True (prio_enq pr t w))" by (simp add: prio_enq_order [OF p])
  show r: "remove1 t (wq_order True (prio_enq pr t w)) = wq_order True w" if "t \<notin> set (wq_order True w)"
  proof -
    have "filter (\<lambda>u. pr u \<le> pr t) xs @ filter (\<lambda>u. pr t < pr u) xs = xs" if "sorted_wrt (\<lambda>u v. pr u \<le> pr v) xs" for xs
      using that
    proof (induction xs)
      case (Cons x xs)
      show ?case
      proof (cases "pr t < pr x")
        case True
        then have "\<forall>u \<in> set xs. pr t < pr u" using Cons.prems by (auto intro: less_le_trans)
        then have "filter (\<lambda>u. pr u \<le> pr t) xs = []" "filter (\<lambda>u. pr t < pr u) xs = xs"
          by (auto simp: filter_empty_conv filter_id_conv)
        with True show ?thesis by simp
      qed (use Cons in auto)
    qed simp
    from this [OF prio_order_sorted [OF p]] that show ?thesis by (simp add: prio_enq_order [OF p] remove1_append)
  qed
  show "wq_ok True (prio_enq pr t w) \<and> prio_ok pr (prio_enq pr t w)" if "t \<notin> set (wq_order True w)" "t < LW_CFG_MAX_THREADS"
    using wq_okI_enq [OF ok that r [OF that(1)] m] prio_ok_enq [OF p] by (simp add: prio_enq_def)
  show "wq_first True w = Some (hd (wq_order True w))" if "wq_order True w \<noteq> []"
    using prio_first [OF that] that by (simp add: head_of_Some)
  show o: "wq_order True (wq_del_at (EVENT_INDEX_Q_PRIORITY (pr t)) t w) = remove1 t (wq_order True w)"
    by (rule prio_del_order [OF p d])
  show "wq_ok True (wq_del_at (EVENT_INDEX_Q_PRIORITY (pr t)) t w) \<and> prio_ok pr (wq_del_at (EVENT_INDEX_Q_PRIORITY (pr t)) t w)"
    if "t \<in> set (wq_order True w)"
    using wq_okI_del [OF ok that o] prio_ok_del [OF p] by (simp add: wq_del_at_def)
  show "unat (WQ_usNum w) = length (wq_order True w)" by (rule wq_num [OF ok])
qed

end
