(* ===== verification/EventInv.thy ===== *)
theory EventInv
  imports WaitQueue
begin

text \<open>
  The invariant of the blocked threads: a thread waits in a queue of an event exactly when its
  control block says so, it then has a pending status and belongs to the created threads. The
  lemmas show what blocking (\<open>ev_wait\<close>), waking (\<open>ev_wake\<close>) and giving up
  (\<open>EventUnQueue\<close>) do to the queues, the delay line and the ready tables.
\<close>

section \<open>The invariant\<close>

definition by_prio :: "kernel \<Rightarrow> nat \<Rightarrow> bool" where
  "by_prio k e \<longleftrightarrow> EVENT_ulOption (K_eventBuffer k e) AND LW_OPTION_WAIT_PRIORITY \<noteq> 0"

definition wq :: "kernel \<Rightarrow> nat \<Rightarrow> nat \<Rightarrow> waitq" where
  "wq k e q = EVENT_wqWaitQ (K_eventBuffer k e) q"

text \<open>The waiters of a queue in the order in which they are served.\<close>

definition waiters :: "kernel \<Rightarrow> nat \<Rightarrow> nat \<Rightarrow> tid list" where
  "waiters k e q = wq_order (by_prio k e) (wq k e q)"

definition pending :: "kernel \<Rightarrow> tid \<Rightarrow> bool" where
  "pending k t \<longleftrightarrow> TCB_usStatus (K_tcb k t) AND LW_THREAD_STATUS_PEND_ANY \<noteq> 0"

definition waits_in :: "kernel \<Rightarrow> tid \<Rightarrow> nat \<Rightarrow> nat \<Rightarrow> bool" where
  "waits_in k t e q \<longleftrightarrow> TCB_peventPtr (K_tcb k t) = Some e \<and> TCB_iPendQ (K_tcb k t) = q"

definition wait_ok :: "tid set \<Rightarrow> kernel \<Rightarrow> bool" where
  "wait_ok T k \<longleftrightarrow>
     (\<forall>e q. wq_ok (by_prio k e) (wq k e q)) \<and>
     (\<forall>t e q. t \<in> set (waiters k e q) \<longleftrightarrow> waits_in k t e q) \<and>
     (\<forall>t e q i. by_prio k e \<longrightarrow> i < EVENT_Q_SIZE \<longrightarrow> t \<in> set (WL_pring (wq k e q) i) \<longrightarrow>
        TCB_ppringPriorityQueue (K_tcb k t) = (q, i)) \<and>
     (\<forall>t. TCB_peventPtr (K_tcb k t) \<noteq> None \<longrightarrow> pending k t \<and> TCB_ucWaitTimeout (K_tcb k t) = 0 \<and> t \<in> T)"

definition ipc_ok :: "tid set \<Rightarrow> kernel \<Rightarrow> bool" where
  "ipc_ok T k \<longleftrightarrow> kern_ok T k \<and> delay_ok k \<and> wait_ok T k \<and> T \<subseteq> {..<LW_CFG_MAX_THREADS}"

lemma wait_okD:
  assumes "wait_ok T k"
  shows "wq_ok (by_prio k e) (wq k e q)" "t \<in> set (waiters k e q) \<longleftrightarrow> waits_in k t e q"
    "by_prio k e \<Longrightarrow> i < EVENT_Q_SIZE \<Longrightarrow> t \<in> set (WL_pring (wq k e q) i) \<Longrightarrow> TCB_ppringPriorityQueue (K_tcb k t) = (q, i)"
    "TCB_peventPtr (K_tcb k t) = Some e \<Longrightarrow> pending k t \<and> TCB_ucWaitTimeout (K_tcb k t) = 0 \<and> t \<in> T"
    "distinct (waiters k e q)" "unat (EventWaitNum q e k) = length (waiters k e q)"
  using assms wq_num [of "by_prio k e" "wq k e q"] unfolding wait_ok_def waiters_def EventWaitNum_def wq_def wq_ok_def
  by blast+

lemma ipc_okD:
  assumes "ipc_ok T k"
  shows "kern_ok T k" "delay_ok k" "wait_ok T k" "t \<in> T \<Longrightarrow> t < LW_CFG_MAX_THREADS"
  using assms by (auto simp: ipc_ok_def)

lemma pending_not_ready: "pending k t \<Longrightarrow> \<not> LW_THREAD_IS_READY k t"
  by (auto simp: pending_def LW_THREAD_IS_READY_def)

lemma delayed_not_ready: "delayed k t \<Longrightarrow> \<not> LW_THREAD_IS_READY k t"
  by (auto simp: delayed_def LW_THREAD_IS_READY_def)

section \<open>What the queue operations change\<close>

lemma ev_wq_upd_sel [simp]:
  "K_tcb (ev_wq_upd e q f k) = K_tcb k" "K_cpu (ev_wq_upd e q f k) = K_cpu k"
  "K_ncpus (ev_wq_upd e q f k) = K_ncpus k" "K_curcpu (ev_wq_upd e q f k) = K_curcpu k"
  "K_wuDelay (ev_wq_upd e q f k) = K_wuDelay k" "K_i64KernelTime (ev_wq_upd e q f k) = K_i64KernelTime k"
  "K_resrcEvent (ev_wq_upd e q f k) = K_resrcEvent k" "K_bug (ev_wq_upd e q f k) = K_bug k"
  "sview (ev_wq_upd e q f k) = sview k" "K_ptcbTCBIdTable (ev_wq_upd e q f k) = K_ptcbTCBIdTable k"
  "EVENT_ulOption (K_eventBuffer (ev_wq_upd e q f k) e') = EVENT_ulOption (K_eventBuffer k e')"
  "EVENT_ulCounter (K_eventBuffer (ev_wq_upd e q f k) e') = EVENT_ulCounter (K_eventBuffer k e')"
  "EVENT_ulMaxCounter (K_eventBuffer (ev_wq_upd e q f k) e') = EVENT_ulMaxCounter (K_eventBuffer k e')"
  "EVENT_ucType (K_eventBuffer (ev_wq_upd e q f k) e') = EVENT_ucType (K_eventBuffer k e')"
  "EVENT_pvTcbOwn (K_eventBuffer (ev_wq_upd e q f k) e') = EVENT_pvTcbOwn (K_eventBuffer k e')"
  "EVENT_pvPtr (K_eventBuffer (ev_wq_upd e q f k) e') = EVENT_pvPtr (K_eventBuffer k e')"
  "EVENT_wqWaitQ (K_eventBuffer (ev_wq_upd e q f k) e') q' =
     (if e' = e \<and> q' = q then f (EVENT_wqWaitQ (K_eventBuffer k e) q) else EVENT_wqWaitQ (K_eventBuffer k e') q')"
  by (simp_all add: ev_wq_upd_def sview_def fun_eq_iff LW_CAND_TCB_def)

lemma ev_wq_upd_ok [simp]:
  "delay_ok (ev_wq_upd e q f k) = delay_ok k" "dline (ev_wq_upd e q f k) = dline k" "due (ev_wq_upd e q f k) = due k"
  "kern_ok T k \<Longrightarrow> kern_ok T (ev_wq_upd e q f k)"
proof -
  show l: "dline (ev_wq_upd e q f k) = dline k" by (simp add: dline_def)
  have n: "delay_nodes (ev_wq_upd e q f k) = delay_nodes k" by (simp add: delay_nodes_def)
  show "due (ev_wq_upd e q f k) = due k" by (simp add: due_def l n fun_eq_iff)
  show "delay_ok (ev_wq_upd e q f k) = delay_ok k" by (simp add: delay_ok_def l n delayed_def)
  show "kern_ok T k \<Longrightarrow> kern_ok T (ev_wq_upd e q f k)" by (simp add: ev_wq_upd_def)
qed

lemma ev_wq_upd_upd:
  "ev_wq_upd e q g (ev_wq_upd e q f k) = ev_wq_upd e q (\<lambda>w. g (f w)) k"
  by (simp add: ev_wq_upd_def event_upd_def)

text \<open>In terms of the queue operations, when the ring is one of the queue the thread names.\<close>

lemma queue_ops:
  "TCB_iPendQ (K_tcb k t) = q \<Longrightarrow> AddTCBToEventFifo t e (q, 0) k = ev_wq_upd e q (fifo_enq t) k"
  "TCB_iPendQ (K_tcb k t) = q \<Longrightarrow>
     AddTCBToEventPriority t e (q, EVENT_INDEX_Q_PRIORITY (prio k t)) k = ev_wq_upd e q (prio_enq (prio k) t) k"
  "TCB_iPendQ (K_tcb k t) = q \<Longrightarrow> DelTCBFromEventFifo t e (q, i) k = ev_wq_upd e q (wq_del_at i t) k"
  "TCB_iPendQ (K_tcb k t) = q \<Longrightarrow> DelTCBFromEventPriority t e (q, i) k = ev_wq_upd e q (wq_del_at i t) k"
  by (simp_all add: AddTCBToEventFifo_def AddTCBToEventPriority_def DelTCBFromEventFifo_def DelTCBFromEventPriority_def
      ev_wq_upd_upd fifo_enq_def [abs_def] prio_enq_def [abs_def] wq_del_at_def [abs_def])

lemma ev_wq_upd_wq [simp]:
  "wq (ev_wq_upd e q f k) e' q' = (if e' = e \<and> q' = q then f (wq k e q) else wq k e' q')"
  "by_prio (ev_wq_upd e q f k) e' = by_prio k e'" "pending (ev_wq_upd e q f k) t = pending k t"
  "waits_in (ev_wq_upd e q f k) t e' q' = waits_in k t e' q'"
  by (auto simp: wq_def by_prio_def pending_def waits_in_def)

lemma waiters_upd: "waiters (ev_wq_upd e q f k) e' q' =
  (if e' = e \<and> q' = q then wq_order (by_prio k e) (f (wq k e q)) else waiters k e' q')"
  by (simp add: waiters_def)

lemma tcb_upd_wq [simp]: "wq (tcb_upd t f k) = wq k" "by_prio (tcb_upd t f k) = by_prio k" "waiters (tcb_upd t f k) = waiters k"
  by (simp_all add: wq_def by_prio_def waiters_def fun_eq_iff)

lemma ADD_DEL_wq [simp]:
  "wq (ADD_TO_READY_RING t q k) = wq k" "by_prio (ADD_TO_READY_RING t q k) = by_prio k" "waiters (ADD_TO_READY_RING t q k) = waiters k"
  "wq (DEL_FROM_READY_RING t q k) = wq k" "by_prio (DEL_FROM_READY_RING t q k) = by_prio k" "waiters (DEL_FROM_READY_RING t q k) = waiters k"
  "wq (ADD_TO_WAKEUP_LINE t k) = wq k" "by_prio (ADD_TO_WAKEUP_LINE t k) = by_prio k" "waiters (ADD_TO_WAKEUP_LINE t k) = waiters k"
  "wq (DEL_FROM_WAKEUP_LINE t k) = wq k" "by_prio (DEL_FROM_WAKEUP_LINE t k) = by_prio k" "waiters (DEL_FROM_WAKEUP_LINE t k) = waiters k"
  by (simp_all add: wq_def by_prio_def waiters_def fun_eq_iff)

section \<open>Taking the next waiter\<close>

lemma ev_first:
  "EventQGetTcbPriority k e (EVENT_DEL_Q_PRIORITY k e q) = wq_first True (wq k e q)"
  "EventQGetTcbFifo k e (q, 0) = wq_first False (wq k e q)"
  by (simp_all add: EventQGetTcbPriority_def EventQGetTcbFifo_def EVENT_DEL_Q_PRIORITY_def wq_first_def ev_ring_def wq_def)

text \<open>The ring the next waiter is taken from.\<close>

definition first_index :: "kernel \<Rightarrow> nat \<Rightarrow> nat \<Rightarrow> nat" where
  "first_index k e q = (if by_prio k e then snd (EVENT_DEL_Q_PRIORITY k e q) else 0)"

lemma wq_del_order:
  assumes d: "distinct (wq_order b w)" and t: "t \<in> set (WL_pring w i)" and i: "if b then i < EVENT_Q_SIZE else i = 0"
  shows "wq_order b (wq_del_at i t w) = remove1 t (wq_order b w)" "t \<in> set (wq_order b w)"
proof -
  have "wq_order b (wq_del_at i t w) = remove1 t (wq_order b w) \<and> t \<in> set (wq_order b w)"
  proof (cases b)
    case True
    then have i: "i < EVENT_Q_SIZE" and d: "distinct (wq_order True w)" using i d by simp_all
    have "t \<notin> set (concat (map (WL_pring w) [0..<i]))"
      using d t unfolding prio_order_split [OF i] by auto
    then have "wq_order True (wq_del_at i t w) = remove1 t (wq_order True w) \<and> t \<in> set (wq_order True w)" using t
      unfolding wq_del_at_def num_sel prio_order_upd [OF i] prio_order_split [OF i, of w]
      by (simp add: ring_del_def remove1_append)
    with True show ?thesis by simp
  next
    case False
    with i d t fifo_order(3) [of w t] show ?thesis by (simp add: wq_order_def)
  qed
  then show "wq_order b (wq_del_at i t w) = remove1 t (wq_order b w)" "t \<in> set (wq_order b w)" by simp_all
qed

lemma first_index_mem:
  assumes "waiters k e q = t # ts"
  shows "t \<in> set (WL_pring (wq k e q) (first_index k e q))"
    "if by_prio k e then first_index k e q < EVENT_Q_SIZE else first_index k e q = 0"
    "wq_first (by_prio k e) (wq k e q) = Some t"
proof -
  let ?w = "wq k e q"
  show F: "wq_first (by_prio k e) ?w = Some t"
    using assms prio_first [of ?w] fifo_order(2) [of ?w] by (cases "by_prio k e") (auto simp: waiters_def)
  have "head_of xs = Some t \<Longrightarrow> t \<in> set xs" for xs by (auto simp: head_of_Some)
  moreover have "last_of xs = Some t \<Longrightarrow> t \<in> set xs" for xs by (auto simp: last_of_rev head_of_Some) (metis hd_in_set rev_is_Nil_conv set_rev)
  ultimately show "t \<in> set (WL_pring ?w (first_index k e q))"
    using F by (auto simp: first_index_def wq_first_def EVENT_DEL_Q_PRIORITY_def ev_ring_def wq_def split: if_splits)
  have "concat (map (WL_pring ?w) [0..<EVENT_Q_SIZE]) \<noteq> []" if "by_prio k e"
    using assms that unfolding waiters_def wq_order_def by auto
  from first_ring [OF this] show "if by_prio k e then first_index k e q < EVENT_Q_SIZE else first_index k e q = 0"
    unfolding first_index_def EVENT_DEL_Q_PRIORITY_def ev_ring_def fst_conv snd_conv wq_def by (cases "by_prio k e") simp_all
qed

lemma ev_ready_low_eq:
  assumes ok: "wait_ok T k" and w: "waiters k e q = t # ts"
  shows "ev_ready_low e q msg k = (Some t, leave_wakeup_line t
     (tcb_upd t (\<lambda>b. b\<lparr>TCB_pvMsgBoxMessage := msg\<rparr>) (ev_wq_upd e q (wq_del_at (first_index k e q) t) k)))"
proof -
  have q: "TCB_iPendQ (K_tcb k t) = q" using wait_okD(2) [OF ok, of t e q] w by (simp add: waits_in_def)
  have p: "EVENT_DEL_Q_PRIORITY k e q = (q, first_index k e q)" if "by_prio k e"
    using that by (simp add: first_index_def EVENT_DEL_Q_PRIORITY_def)
  show ?thesis
  proof (cases "by_prio k e")
    case True
    have "EventQGetTcbPriority k e (q, first_index k e q) = Some t"
      using ev_first(1) [of k e q] first_index_mem(3) [OF w] True by (simp add: p)
    then show ?thesis using True queue_ops(4) [OF q]
      by (simp add: ev_ready_low_def by_prio_def [symmetric] EventReadyPriorityLowLevel_def Let_def p)
  next
    case False
    have "EventQGetTcbFifo k e (q, 0) = Some t"
      using ev_first(2) [of k e q] first_index_mem(3) [OF w] False by simp
    then show ?thesis using False queue_ops(3) [OF q]
      by (simp add: ev_ready_low_def by_prio_def [symmetric] EventReadyFifoLowLevel_def Let_def first_index_def)
  qed
qed

section \<open>Waking\<close>

text \<open>
  The whole passage of a posting call: take the next waiter off the queue, mark it when
  the event is being deleted, and make it ready.
\<close>

definition ev_wake :: "nat \<Rightarrow> nat \<Rightarrow> ulong \<Rightarrow> bool \<Rightarrow> u16 \<Rightarrow> u8 \<Rightarrow> kernel \<Rightarrow> tid option \<times> kernel" where
  "ev_wake pevent iQ pvMsg bDelete usWaitType ucSchedActivate k =
     (case ev_ready_low pevent iQ pvMsg k of
        (None, k) \<Rightarrow> (None, k)
      | (Some ptcb, k) \<Rightarrow> 
          let k = (if bDelete then tcb_upd ptcb (\<lambda>b. b\<lparr>TCB_ucIsEventDelete := LW_EVENT_DELETE\<rparr>) k else k)
          in (Some ptcb, EventReadyHighLevel ptcb usWaitType ucSchedActivate k))"

lemma leave_wakeup_line_sel [simp]:
  "K_cpu (leave_wakeup_line t k) = K_cpu k" "K_ncpus (leave_wakeup_line t k) = K_ncpus k"
  "K_curcpu (leave_wakeup_line t k) = K_curcpu k" "K_eventBuffer (leave_wakeup_line t k) = K_eventBuffer k"
  "K_resrcEvent (leave_wakeup_line t k) = K_resrcEvent k" "K_bug (leave_wakeup_line t k) = K_bug k"
  "K_i64KernelTime (leave_wakeup_line t k) = K_i64KernelTime k"
  "wq (leave_wakeup_line t k) = wq k" "by_prio (leave_wakeup_line t k) = by_prio k" "waiters (leave_wakeup_line t k) = waiters k"
  "TCB_peventPtr (K_tcb (leave_wakeup_line t k) u) = TCB_peventPtr (K_tcb k u)"
  "TCB_iPendQ (K_tcb (leave_wakeup_line t k) u) = TCB_iPendQ (K_tcb k u)"
  "TCB_ppringPriorityQueue (K_tcb (leave_wakeup_line t k) u) = TCB_ppringPriorityQueue (K_tcb k u)"
  "TCB_ucPriority (K_tcb (leave_wakeup_line t k) u) = TCB_ucPriority (K_tcb k u)"
  "TCB_ucWaitTimeout (K_tcb (leave_wakeup_line t k) u) = TCB_ucWaitTimeout (K_tcb k u)"
  "TCB_pvMsgBoxMessage (K_tcb (leave_wakeup_line t k) u) = TCB_pvMsgBoxMessage (K_tcb k u)"
  "TCB_ucIsEventDelete (K_tcb (leave_wakeup_line t k) u) = TCB_ucIsEventDelete (K_tcb k u)"
  by (simp_all add: leave_wakeup_line_def wq_def by_prio_def waiters_def fun_eq_iff)

lemma and_not_bit: "(s :: 'a::len word) AND m = 0 \<Longrightarrow> s AND NOT m = s"
proof -
  assume h: "s AND m = 0"
  have "bit (s AND m) n = bit (0 :: 'a word) n" for n by (simp add: h)
  then show ?thesis by (intro bit_word_eqI) (auto simp: bit_simps)
qed

lemma leave_wakeup_line_status [simp]:
  "TCB_usStatus (K_tcb (leave_wakeup_line t k) u) =
     (if u = t then TCB_usStatus (K_tcb k t) AND NOT LW_THREAD_STATUS_DELAY else TCB_usStatus (K_tcb k u))"
  using and_not_bit [of "TCB_usStatus (K_tcb k t)" LW_THREAD_STATUS_DELAY]
  by (simp add: leave_wakeup_line_def)

lemma sview_delay [simp]:
  "sview (tcb_upd t (\<lambda>b. b\<lparr>TCB_ulDelay := v\<rparr>) k) = sview k"
  by (simp add: sview_def fun_eq_iff tview_def LW_CAND_TCB_def)

lemma sview_leave [simp]: "sview (leave_wakeup_line t k) = sview k"
  by (simp add: leave_wakeup_line_def)

text \<open>Clearing the counter of a thread that left the line is invisible to it.\<close>

lemma delay_ok_off:
  assumes ok: "delay_ok k" and t: "\<not> delayed k t" and s: "TCB_usStatus (f (K_tcb k t)) AND LW_THREAD_STATUS_DELAY = 0"
  shows "delay_ok (tcb_upd t f k)" "u \<in> set (dline k) \<Longrightarrow> due (tcb_upd t f k) u = due k u" "dline (tcb_upd t f k) = dline k"
proof -
  have nt: "t \<notin> set (dline k)" using ok t by (simp add: delay_ok_def)
  show l: "dline (tcb_upd t f k) = dline k" by (simp add: dline_def)
  have c: "WUN_ulCounter (delay_nodes (tcb_upd t f k) x) = WUN_ulCounter (delay_nodes k x)" if "x \<in> set (dline k)" for x
    using that nt by (auto simp: delay_nodes_def)
  show "due (tcb_upd t f k) u = due k u" if "u \<in> set (dline k)"
    unfolding due_def l by (rule deadline_cong) (rule c)
  have "total (delay_nodes (tcb_upd t f k)) (dline k) = total (delay_nodes k) (dline k)" by (rule total_cong) (rule c)
  moreover have "delayed (tcb_upd t f k) x = delayed k x" for x using s t by (auto simp: delayed_def)
  ultimately show "delay_ok (tcb_upd t f k)"
    using ok unfolding delay_ok_def l wakeup_wf_def dline_def by simp
qed

lemma delay_ok_same:
  assumes "delay_ok k" and "\<And>b. TCB_ulDelay (f b) = TCB_ulDelay b" and "\<And>b. TCB_bDelayInQ (f b) = TCB_bDelayInQ b"
    and "\<And>b. TCB_usStatus (f b) AND LW_THREAD_STATUS_DELAY = TCB_usStatus b AND LW_THREAD_STATUS_DELAY"
  shows "delay_ok (tcb_upd t f k)" "due (tcb_upd t f k) = due k" "dline (tcb_upd t f k) = dline k"
proof -
  show l: "dline (tcb_upd t f k) = dline k" by (simp add: dline_def)
  have n: "delay_nodes (tcb_upd t f k) = delay_nodes k" using assms(2,3) by (auto simp: delay_nodes_def fun_eq_iff)
  show "due (tcb_upd t f k) = due k" by (simp add: due_def l n fun_eq_iff)
  show "delay_ok (tcb_upd t f k)" using assms(1,4) by (auto simp: delay_ok_def l n delayed_def)
qed

lemma delay_ok_erase:
  assumes "erase k' = erase k"
  shows "delay_ok k' = delay_ok k" "dline k' = dline k" "due k' = due k"
proof -
  show l: "dline k' = dline k" by (simp add: dline_def erase_kernelD [OF assms])
  have n: "delay_nodes k' = delay_nodes k" by (simp add: delay_nodes_def erase_tcbD [OF assms])
  show "due k' = due k" by (simp add: due_def l n fun_eq_iff)
  show "delay_ok k' = delay_ok k" by (simp add: delay_ok_def l n delayed_def erase_tcbD [OF assms] erase_kernelD [OF assms])
qed

lemma leave_wakeup_line_ok:
  assumes ok: "delay_ok k"
  shows "delay_ok (leave_wakeup_line t k)" "\<not> delayed (leave_wakeup_line t k) t"
    "dline (leave_wakeup_line t k) = remove1 t (dline k)"
    "u \<in> set (dline k) \<Longrightarrow> u \<noteq> t \<Longrightarrow> due (leave_wakeup_line t k) u = due k u"
proof -
  let ?f = "\<lambda>b :: tcb. b\<lparr>TCB_ulDelay := 0\<rparr>"
  have "delay_ok (leave_wakeup_line t k) \<and> \<not> delayed (leave_wakeup_line t k) t \<and>
    dline (leave_wakeup_line t k) = remove1 t (dline k) \<and>
    (u \<in> set (dline k) \<longrightarrow> u \<noteq> t \<longrightarrow> due (leave_wakeup_line t k) u = due k u)"
  proof (cases "delayed k t")
    case True
    note D = DEL_FROM_WAKEUP_LINE_spec [OF ok True]
    have s: "TCB_usStatus (?f (K_tcb (DEL_FROM_WAKEUP_LINE t k) t)) AND LW_THREAD_STATUS_DELAY = 0" by simp
    note F = delay_ok_off [where f = ?f, OF D(1,5) s]
    have eq: "leave_wakeup_line t k = tcb_upd t ?f (DEL_FROM_WAKEUP_LINE t k)"
      using True by (simp add: leave_wakeup_line_def delayed_def)
    have "distinct (dline k)" using ok by (simp add: delay_ok_def wakeup_wf_def dline_def)
    then show ?thesis unfolding eq using F D(2,3) by (auto simp: delayed_def)
  next
    case False
    then have "leave_wakeup_line t k = k" "t \<notin> set (dline k)" using ok
      by (auto simp: leave_wakeup_line_def delayed_def delay_ok_def)
    with ok False show ?thesis by (simp add: remove1_idem)
  qed
  then show "delay_ok (leave_wakeup_line t k)" "\<not> delayed (leave_wakeup_line t k) t"
    "dline (leave_wakeup_line t k) = remove1 t (dline k)"
    "u \<in> set (dline k) \<Longrightarrow> u \<noteq> t \<Longrightarrow> due (leave_wakeup_line t k) u = due k u" by blast+
qed

section \<open>Entering and leaving a queue\<close>

text \<open>What the invariant of the waiters reads of a control block.\<close>

definition wview :: "tcb \<Rightarrow> nat option \<times> nat \<times> (nat \<times> nat) \<times> bool \<times> u8" where
  "wview b = (TCB_peventPtr b, TCB_iPendQ b, TCB_ppringPriorityQueue b,
     TCB_usStatus b AND LW_THREAD_STATUS_PEND_ANY \<noteq> 0, TCB_ucWaitTimeout b)"

lemma wviewD:
  assumes "wview (K_tcb k' u) = wview (K_tcb k u)"
  shows "TCB_peventPtr (K_tcb k' u) = TCB_peventPtr (K_tcb k u)" "waits_in k' u e q = waits_in k u e q"
    "TCB_ppringPriorityQueue (K_tcb k' u) = TCB_ppringPriorityQueue (K_tcb k u)" "pending k' u = pending k u"
    "TCB_ucWaitTimeout (K_tcb k' u) = TCB_ucWaitTimeout (K_tcb k u)"
  using assms by (simp_all add: wview_def waits_in_def pending_def)

lemma wait_ok_cong:
  assumes "wait_ok T k" and "\<And>e. by_prio k' e = by_prio k e" and "\<And>e q. wq k' e q = wq k e q"
    and "\<And>u. wview (K_tcb k' u) = wview (K_tcb k u)"
  shows "wait_ok T k'"
  using assms(1) wviewD [OF assms(4)] unfolding wait_ok_def waiters_def assms(2,3) by simp

lemma wait_ok_leave:
  assumes ok: "wait_ok T k" and t: "t \<in> set (WL_pring (wq k e q) i)" "if by_prio k e then i < EVENT_Q_SIZE else i = 0"
    and p: "\<And>e. by_prio k' e = by_prio k e"
    and w: "\<And>e' q'. wq k' e' q' = (if e' = e \<and> q' = q then wq_del_at i t (wq k e q) else wq k e' q')"
    and n: "TCB_peventPtr (K_tcb k' t) = None" and o: "\<And>u. u \<noteq> t \<Longrightarrow> wview (K_tcb k' u) = wview (K_tcb k u)"
  shows "wait_ok T k'" "waiters k' e' q' = (if e' = e \<and> q' = q then remove1 t (waiters k e q) else waiters k e' q')"
proof -
  note D = wait_okD [OF ok]
  note O = wq_del_order [OF D(5) [of e q, unfolded waiters_def] t]
  show W: "waiters k' e' q' = (if e' = e \<and> q' = q then remove1 t (waiters k e q) else waiters k e' q')" for e' q'
    using O(1) by (simp add: waiters_def p w)
  have ti: "waits_in k t e q" using O(2) D(2) by (simp add: waiters_def)
  have r: "u \<in> set (WL_pring (wq k' e' q') j) \<Longrightarrow> u \<in> set (WL_pring (wq k e' q') j) \<and>
      (j = i \<longrightarrow> e' = e \<longrightarrow> q' = q \<longrightarrow> u \<in> set (remove1 t (WL_pring (wq k e q) i)))" for u e' q' j
    by (auto simp: w wq_del_at_def ring_del_def dest: set_remove1_subset [THEN subsetD] split: if_splits)
  have nt: "t \<notin> set (waiters k' e' q')" for e' q'
    using W [of e' q'] D(5) [of e q] D(2) [of t e' q'] ti by (auto simp: waits_in_def)
  show "wait_ok T k'" unfolding wait_ok_def
  proof (intro conjI allI impI)
    fix e' q'
    show "wq_ok (by_prio k' e') (wq k' e' q')"
      using wq_okI_del [OF D(1) [of e q] O(2) O(1)] D(1) [of e' q'] by (auto simp: p w wq_del_at_def)
  next
    fix u e' q'
    show "u \<in> set (waiters k' e' q') \<longleftrightarrow> waits_in k' u e' q'"
    proof (cases "u = t")
      case True
      with nt n show ?thesis by (simp add: waits_in_def)
    next
      case False
      have "u \<in> set (waiters k' e' q') \<longleftrightarrow> u \<in> set (waiters k e' q')" using W [of e' q'] D(5) [of e q] False by auto
      with D(2) wviewD(2) [OF o [OF False]] show ?thesis by simp
    qed
  next
    fix u e' q' j assume b: "by_prio k' e'" "j < EVENT_Q_SIZE" and u: "u \<in> set (WL_pring (wq k' e' q') j)"
    have "u \<in> set (waiters k' e' q')" using b u by (force simp: waiters_def wq_order_def)
    then have "u \<noteq> t" using nt by blast
    then show "TCB_ppringPriorityQueue (K_tcb k' u) = (q', j)"
      using wviewD(3) [OF o] D(3) b r [OF u] by (simp add: p)
  next
    fix u assume "TCB_peventPtr (K_tcb k' u) \<noteq> None"
    then show "pending k' u" "TCB_ucWaitTimeout (K_tcb k' u) = 0" "u \<in> T"
      using n o [of u] D(4) [of u] wviewD [of k' u k] by (cases "u = t"; auto)+
  qed
qed

lemma wait_ok_enter:
  assumes ok: "wait_ok T k" and t: "TCB_peventPtr (K_tcb k t) = None" "t < LW_CFG_MAX_THREADS" "t \<in> T"
    and i: "if by_prio k e then i < EVENT_Q_SIZE else i = 0"
    and p: "\<And>e. by_prio k' e = by_prio k e"
    and w: "\<And>e' q'. wq k' e' q' = (if e' = e \<and> q' = q then w' else wq k e' q')"
    and w': "\<And>j. set (WL_pring w' j) = (if j = i then insert t (set (WL_pring (wq k e q) i)) else set (WL_pring (wq k e q) j))"
      "remove1 t (wq_order (by_prio k e) w') = wq_order (by_prio k e) (wq k e q)" "WQ_usNum w' = WQ_usNum (wq k e q) + 1"
    and n: "waits_in k' t e q" "by_prio k e \<Longrightarrow> TCB_ppringPriorityQueue (K_tcb k' t) = (q, i)" "pending k' t"
      "TCB_ucWaitTimeout (K_tcb k' t) = 0"
    and o: "\<And>u. u \<noteq> t \<Longrightarrow> wview (K_tcb k' u) = wview (K_tcb k u)"
  shows "wait_ok T k'"
proof -
  note D = wait_okD [OF ok]
  have nt: "t \<notin> set (waiters k e' q')" for e' q' using D(2) t(1) by (simp add: waits_in_def)
  have m: "t \<in> set (wq_order (by_prio k e) w')"
    using i w'(1) [of i] by (force simp: wq_order_def split: if_splits)
  have S: "set (wq_order (by_prio k e) w') = insert t (set (waiters k e q))"
  proof -
    obtain a b where "wq_order (by_prio k e) w' = a @ t # b" "t \<notin> set a" using m by (meson split_list_first)
    moreover from this have "waiters k e q = a @ b" using w'(2) by (simp add: waiters_def)
    ultimately show ?thesis by simp
  qed
  have W: "set (waiters k' e' q') = (if e' = e \<and> q' = q then insert t (set (waiters k e q)) else set (waiters k e' q'))" for e' q'
    using S by (simp add: waiters_def p w)
  show ?thesis unfolding wait_ok_def
  proof (intro conjI allI impI)
    fix e' q'
    show "wq_ok (by_prio k' e') (wq k' e' q')"
      using wq_okI_enq [OF D(1) [of e q] nt [of e q, unfolded waiters_def] t(2) w'(2) m w'(3)] D(1) [of e' q']
      by (auto simp: p w)
  next
    fix u e' q'
    show "u \<in> set (waiters k' e' q') \<longleftrightarrow> waits_in k' u e' q'"
      using W [of e' q'] n(1) nt [of e' q'] D(2) [of u e' q'] o [of u] wviewD(2) [of k' u k e' q']
      by (cases "u = t") (auto simp: waits_in_def)
  next
    fix u e' q' j assume b: "by_prio k' e'" "j < EVENT_Q_SIZE" and u: "u \<in> set (WL_pring (wq k' e' q') j)"
    show "TCB_ppringPriorityQueue (K_tcb k' u) = (q', j)"
    proof (cases "u = t")
      case True
      have "t \<notin> set (WL_pring (wq k e' q') j)" using nt [of e' q'] b by (force simp: waiters_def wq_order_def p)
      with True u b n(2) w'(1) show ?thesis by (auto simp: p w split: if_splits)
    next
      case False
      then have "u \<in> set (WL_pring (wq k e' q') j)" using u w'(1) by (auto simp: w split: if_splits)
      with D(3) [of e' j u q'] b False o wviewD(3) [of k' u k] show ?thesis by (simp add: p)
    qed
  next
    fix u assume "TCB_peventPtr (K_tcb k' u) \<noteq> None"
    then show "pending k' u" "TCB_ucWaitTimeout (K_tcb k' u) = 0" "u \<in> T"
      using n t o [of u] D(4) [of u] wviewD [of k' u k] by (cases "u = t"; auto)+
  qed
qed

end
