(* ===== verification/EventOps.thy ===== *)
theory EventOps
  imports EventInv
begin

text \<open>
  The blocking and waking passages keep the invariant \<open>ipc_ok\<close> and have the effect the
  callers rely on: a post makes exactly the first waiter leave its queue, a pend enters the
  caller in its queue and takes it off the ready tables, a timeout takes a thread out of the
  middle of a queue.
\<close>

section \<open>Making a thread ready\<close>

lemma tcb_upd_upd: "tcb_upd t g (tcb_upd t f k) = tcb_upd t (\<lambda>b. g (f b)) k"
  by (simp add: tcb_upd_def)

lemma High_frame [simp]:
  "K_eventBuffer (EventReadyHighLevel t ty a k) = K_eventBuffer k" "K_ncpus (EventReadyHighLevel t ty a k) = K_ncpus k"
  "K_curcpu (EventReadyHighLevel t ty a k) = K_curcpu k" "K_resrcEvent (EventReadyHighLevel t ty a k) = K_resrcEvent k"
  "K_wuDelay (EventReadyHighLevel t ty a k) = K_wuDelay k"
  "K_i64KernelTime (EventReadyHighLevel t ty a k) = K_i64KernelTime k"
  "wq (EventReadyHighLevel t ty a k) = wq k" "by_prio (EventReadyHighLevel t ty a k) = by_prio k"
  "CPU_ptcbTCBCur (K_cpu (EventReadyHighLevel t ty a k) c) = CPU_ptcbTCBCur (K_cpu k c)"
  "CPU_iKernelCounter (K_cpu (EventReadyHighLevel t ty a k) c) = CPU_iKernelCounter (K_cpu k c)"
  by (simp_all add: EventReadyHighLevel_def Let_def wq_def by_prio_def fun_eq_iff)

lemma High_tcb:
  "erase_tcb (K_tcb (EventReadyHighLevel t ty a k) u) = erase_tcb (if u = t then
     (if TCB_ucWaitTimeout (K_tcb k t) \<noteq> 0 then (K_tcb k t)\<lparr>TCB_peventPtr := None, TCB_ucWaitTimeout := 0\<rparr>
      else (K_tcb k t)\<lparr>TCB_peventPtr := None, TCB_usStatus := TCB_usStatus (K_tcb k t) AND NOT ty,
        TCB_ucSchedActivate := (if TCB_usStatus (K_tcb k t) AND NOT ty = 0 then a else TCB_ucSchedActivate (K_tcb k t))\<rparr>)
     else K_tcb k u)"
proof -
  have A: "erase_tcb (K_tcb (ADD_TO_READY_RING s p k') v) = erase_tcb (K_tcb k' v)" for s p k' v
    using erase_eqD(12) [OF erase_ADD] by blast
  show ?thesis by (simp add: EventReadyHighLevel_def Let_def A LW_THREAD_IS_READY_def)
qed

lemma High_fields [simp]:
  "TCB_peventPtr (K_tcb (EventReadyHighLevel t ty a k) u) = (if u = t then None else TCB_peventPtr (K_tcb k u))"
  "TCB_iPendQ (K_tcb (EventReadyHighLevel t ty a k) u) = TCB_iPendQ (K_tcb k u)"
  "TCB_ppringPriorityQueue (K_tcb (EventReadyHighLevel t ty a k) u) = TCB_ppringPriorityQueue (K_tcb k u)"
  "TCB_pvMsgBoxMessage (K_tcb (EventReadyHighLevel t ty a k) u) = TCB_pvMsgBoxMessage (K_tcb k u)"
  "TCB_ucIsEventDelete (K_tcb (EventReadyHighLevel t ty a k) u) = TCB_ucIsEventDelete (K_tcb k u)"
  "TCB_ucPriority (K_tcb (EventReadyHighLevel t ty a k) u) = TCB_ucPriority (K_tcb k u)"
  "TCB_ulDelay (K_tcb (EventReadyHighLevel t ty a k) u) = TCB_ulDelay (K_tcb k u)"
  "TCB_bDelayInQ (K_tcb (EventReadyHighLevel t ty a k) u) = TCB_bDelayInQ (K_tcb k u)"
  "TCB_ucWaitTimeout (K_tcb (EventReadyHighLevel t ty a k) u) = (if u = t then 0 else TCB_ucWaitTimeout (K_tcb k u))"
proof -
  note H = erase_tcb_fields [OF High_tcb, of t ty a k u]
  show "TCB_peventPtr (K_tcb (EventReadyHighLevel t ty a k) u) = (if u = t then None else TCB_peventPtr (K_tcb k u))" using H(8) by simp
  show "TCB_iPendQ (K_tcb (EventReadyHighLevel t ty a k) u) = TCB_iPendQ (K_tcb k u)" using H(7) by simp
  show "TCB_ppringPriorityQueue (K_tcb (EventReadyHighLevel t ty a k) u) = TCB_ppringPriorityQueue (K_tcb k u)" using H(9) by simp
  show "TCB_pvMsgBoxMessage (K_tcb (EventReadyHighLevel t ty a k) u) = TCB_pvMsgBoxMessage (K_tcb k u)" using H(26) by simp
  show "TCB_ucIsEventDelete (K_tcb (EventReadyHighLevel t ty a k) u) = TCB_ucIsEventDelete (K_tcb k u)" using H(23) by simp
  show "TCB_ucPriority (K_tcb (EventReadyHighLevel t ty a k) u) = TCB_ucPriority (K_tcb k u)" using H(20) by simp
  show "TCB_ulDelay (K_tcb (EventReadyHighLevel t ty a k) u) = TCB_ulDelay (K_tcb k u)" using H(5) by simp
  show "TCB_bDelayInQ (K_tcb (EventReadyHighLevel t ty a k) u) = TCB_bDelayInQ (K_tcb k u)" using H(6) by simp
  show "TCB_ucWaitTimeout (K_tcb (EventReadyHighLevel t ty a k) u) = (if u = t then 0 else TCB_ucWaitTimeout (K_tcb k u))" using H(22) by simp
qed

lemma High_status:
  "TCB_ucWaitTimeout (K_tcb k t) = 0 \<Longrightarrow> TCB_usStatus (K_tcb (EventReadyHighLevel t ty a k) u) =
     (if u = t then TCB_usStatus (K_tcb k t) AND NOT ty else TCB_usStatus (K_tcb k u))"
  using erase_tcb_fields(21) [OF High_tcb, of t ty a k u] by (simp split: if_splits)

lemma High_kern_ok:
  assumes ok: "kern_ok T k" and t: "t \<in> T" "\<not> LW_THREAD_IS_READY k t" "TCB_ucWaitTimeout (K_tcb k t) = 0"
  shows "kern_ok T (EventReadyHighLevel t ty a k)"
proof (cases "TCB_usStatus (K_tcb k t) AND NOT ty = 0")
  case True
  let ?f = "\<lambda>b. b\<lparr>TCB_peventPtr := None, TCB_usStatus := TCB_usStatus b AND NOT ty, TCB_ucSchedActivate := a\<rparr>"
  have "kern_ok T (ADD_TO_READY_RING t (GetPcb (tcb_upd t ?f k) t) (tcb_upd t ?f k))"
    by (rule kern_ok_unblock [OF ok t(1,2)]) (simp_all add: tview_def True)
  with True t(3) show ?thesis by (simp add: EventReadyHighLevel_def Let_def LW_THREAD_IS_READY_def tcb_upd_upd)
next
  case False
  let ?f = "\<lambda>b. b\<lparr>TCB_peventPtr := None, TCB_usStatus := TCB_usStatus b AND NOT ty\<rparr>"
  have "kern_ok T (tcb_upd t ?f k)"
    by (rule kern_ok_tcb [OF ok]) (use t(2) False in \<open>simp_all add: tview_def LW_THREAD_IS_READY_def\<close>)
  with False t(3) show ?thesis by (simp add: EventReadyHighLevel_def Let_def LW_THREAD_IS_READY_def tcb_upd_upd)
qed

lemma High_delay:
  assumes ok: "delay_ok k" and t: "\<not> delayed k t" "TCB_ucWaitTimeout (K_tcb k t) = 0"
  shows "delay_ok (EventReadyHighLevel t ty a k)" "dline (EventReadyHighLevel t ty a k) = dline k"
    "due (EventReadyHighLevel t ty a k) = due k"
proof -
  let ?k = "EventReadyHighLevel t ty a k"
  show l: "dline ?k = dline k" by (simp add: dline_def)
  have n: "delay_nodes ?k = delay_nodes k" by (simp add: delay_nodes_def)
  show "due ?k = due k" by (simp add: due_def l n fun_eq_iff)
  have "(s AND NOT ty) AND LW_THREAD_STATUS_DELAY = 0" if "s AND LW_THREAD_STATUS_DELAY = 0" for s
  proof -
    have "(s AND NOT ty) AND LW_THREAD_STATUS_DELAY = (s AND LW_THREAD_STATUS_DELAY) AND NOT ty"
      by (simp only: and.assoc and.commute [of "NOT ty"])
    with that show ?thesis by simp
  qed
  then have "delayed ?k u = delayed k u" for u using t by (simp add: delayed_def High_status)
  then show "delay_ok ?k" using ok by (simp add: delay_ok_def l n)
qed

section \<open>Waking\<close>

lemma kern_ok_sview:
  assumes "kern_ok T k" and "sview k' = sview k" and "\<And>c. CPU_bActive (K_cpu k' c) = CPU_bActive (K_cpu k c)"
    and "K_ncpus k' = K_ncpus k" and "K_bug k' = K_bug k" and "rdyset T k' = rdyset T k"
  shows "kern_ok T k'"
  using assms unfolding kern_ok_def by (auto elim!: sched_ok_sview)

lemma pend_not_delay: "(s AND NOT LW_THREAD_STATUS_DELAY) AND LW_THREAD_STATUS_PEND_ANY = s AND LW_THREAD_STATUS_PEND_ANY"
  by (simp add: and.assoc)

lemma ev_wake_spec:
  assumes ok: "ipc_ok T k" and w: "waiters k e q = t # ts"
  obtains k' where "ev_wake e q msg d ty a k = (Some t, k')" "ipc_ok T k'"
    "\<And>e' q'. waiters k' e' q' = (if e' = e \<and> q' = q then ts else waiters k e' q')"
    "TCB_usStatus (K_tcb k' t) = (TCB_usStatus (K_tcb k t) AND NOT LW_THREAD_STATUS_DELAY) AND NOT ty"
    "\<And>u. u \<noteq> t \<Longrightarrow> TCB_usStatus (K_tcb k' u) = TCB_usStatus (K_tcb k u)"
    "TCB_peventPtr (K_tcb k' t) = None" "TCB_pvMsgBoxMessage (K_tcb k' t) = msg"
    "\<And>u. TCB_ucIsEventDelete (K_tcb k' u) = (if u = t \<and> d then LW_EVENT_DELETE else TCB_ucIsEventDelete (K_tcb k u))"
    "K_eventBuffer k' = K_eventBuffer (ev_wq_upd e q (wq_del_at (first_index k e q) t) k)"
    "dline k' = remove1 t (dline k)" "\<And>u. u \<in> set (dline k) \<Longrightarrow> u \<noteq> t \<Longrightarrow> due k' u = due k u"
    "\<And>u. TCB_ucPriority (K_tcb k' u) = TCB_ucPriority (K_tcb k u)" "K_ncpus k' = K_ncpus k"
    "K_resrcEvent k' = K_resrcEvent k" "\<And>u. TCB_ucWaitTimeout (K_tcb k' u) = TCB_ucWaitTimeout (K_tcb k u)"
proof -
  note O = ipc_okD [OF ok] and D = wait_okD [OF ipc_okD(3) [OF ok]]
  let ?i = "first_index k e q"
  have ti: "waits_in k t e q" using D(2) [of t e q] w by simp
  then have P: "pending k t" "TCB_ucWaitTimeout (K_tcb k t) = 0" "t \<in> T" using D(4) [of t e] by (auto simp: waits_in_def)
  define k2 where "k2 = tcb_upd t (\<lambda>b. b\<lparr>TCB_pvMsgBoxMessage := msg\<rparr>) (ev_wq_upd e q (wq_del_at ?i t) k)"
  define k3 where "k3 = leave_wakeup_line t k2"
  define k4 where "k4 = (if d then tcb_upd t (\<lambda>b. b\<lparr>TCB_ucIsEventDelete := LW_EVENT_DELETE\<rparr>) k3 else k3)"
  define k' where "k' = EventReadyHighLevel t ty a k4"
  have R: "ev_wake e q msg d ty a k = (Some t, k')"
    by (simp add: ev_wake_def ev_ready_low_eq [OF O(3) w] k'_def k4_def k3_def k2_def)
  have d2: "delay_ok k2" "due k2 = due k" "dline k2 = dline k"
    using delay_ok_same [of "ev_wq_upd e q (wq_del_at ?i t) k" "\<lambda>b. b\<lparr>TCB_pvMsgBoxMessage := msg\<rparr>" t] O(2) by (simp_all add: k2_def)
  note L = leave_wakeup_line_ok [OF d2(1), where t = t, folded k3_def]
  have d4: "delay_ok k4" "due k4 = due k3" "dline k4 = dline k3"
    using delay_ok_same [of k3 "\<lambda>b. b\<lparr>TCB_ucIsEventDelete := LW_EVENT_DELETE\<rparr>" t] L(1) by (simp_all add: k4_def)
  have T4: "TCB_ucWaitTimeout (K_tcb k4 u) = TCB_ucWaitTimeout (K_tcb k u)"
    "TCB_usStatus (K_tcb k4 u) = (if u = t then TCB_usStatus (K_tcb k t) AND NOT LW_THREAD_STATUS_DELAY else TCB_usStatus (K_tcb k u))"
    "TCB_peventPtr (K_tcb k4 u) = TCB_peventPtr (K_tcb k u)" "TCB_iPendQ (K_tcb k4 u) = TCB_iPendQ (K_tcb k u)"
    "TCB_ppringPriorityQueue (K_tcb k4 u) = TCB_ppringPriorityQueue (K_tcb k u)"
    "TCB_ucPriority (K_tcb k4 u) = TCB_ucPriority (K_tcb k u)"
    "TCB_pvMsgBoxMessage (K_tcb k4 t) = msg"
    "TCB_ucIsEventDelete (K_tcb k4 u) = (if u = t \<and> d then LW_EVENT_DELETE else TCB_ucIsEventDelete (K_tcb k u))" for u
    by (simp_all add: k4_def k3_def k2_def)
  have E4: "K_eventBuffer k4 = K_eventBuffer (ev_wq_upd e q (wq_del_at ?i t) k)" by (simp add: k4_def k3_def k2_def)
  have nd: "\<not> delayed k4 t" by (simp add: delayed_def T4)
  have nr: "\<not> LW_THREAD_IS_READY k4 t"
    using P(1) pend_not_delay [of "TCB_usStatus (K_tcb k t)"] by (auto simp: LW_THREAD_IS_READY_def T4 pending_def)
  have "kern_ok T k4"
  proof (rule kern_ok_sview [OF O(1)])
    show "sview k4 = sview k" by (simp add: k4_def k3_def k2_def tview_def)
    have "LW_THREAD_IS_READY k4 u = LW_THREAD_IS_READY k u" for u
      using nr pending_not_ready [OF P(1)] T4(2) [of u] by (cases "u = t") (simp_all add: LW_THREAD_IS_READY_def)
    then show "rdyset T k4 = rdyset T k" by (simp add: rdyset_def)
  qed (simp_all add: k4_def k3_def k2_def)
  have K: "kern_ok T k'" unfolding k'_def by (rule High_kern_ok [OF \<open>kern_ok T k4\<close> P(3) nr]) (simp add: T4 P(2))
  note H = High_delay [OF d4(1) nd, of ty a, folded k'_def]
  have S: "TCB_usStatus (K_tcb k' u) = (if u = t then TCB_usStatus (K_tcb k4 t) AND NOT ty else TCB_usStatus (K_tcb k4 u))" for u
    unfolding k'_def by (rule High_status) (simp add: T4 P(2))
  have W: "wait_ok T k'" "waiters k' e' q' = (if e' = e \<and> q' = q then remove1 t (waiters k e q) else waiters k e' q')" for e' q'
  proof -
    have b: "by_prio k' e' = by_prio k e'" for e' by (simp add: k'_def by_prio_def E4)
    have v: "wview (K_tcb k' u) = wview (K_tcb k u)" if "u \<noteq> t" for u
      using that by (simp add: wview_def S T4) (simp add: k'_def T4)
    have w4: "wq k' e' q' = (if e' = e \<and> q' = q then wq_del_at ?i t (wq k e q) else wq k e' q')" for e' q'
      by (simp add: k'_def wq_def E4)
    note X = wait_ok_leave [OF O(3) first_index_mem(1,2) [OF w] b w4 _ v]
    show "wait_ok T k'" "waiters k' e' q' = (if e' = e \<and> q' = q then remove1 t (waiters k e q) else waiters k e' q')"
      using X by (simp_all add: k'_def)
  qed
  have I: "ipc_ok T k'" using K H(1) W(1) ok P(2) by (simp add: ipc_ok_def T4)
  show thesis
  proof (rule that [OF R I])
    show "waiters k' e' q' = (if e' = e \<and> q' = q then ts else waiters k e' q')" for e' q' using W(2) w by simp
    show "due k' u = due k u" if "u \<in> set (dline k)" "u \<noteq> t" for u using H(3) L(4) d4(2) d2 P(2) that by (simp add: T4)
    show "dline k' = remove1 t (dline k)" using H(2) L(3) d4(3) d2(3) P(2) by (simp add: T4)
    show "TCB_usStatus (K_tcb k' t) = (TCB_usStatus (K_tcb k t) AND NOT LW_THREAD_STATUS_DELAY) AND NOT ty"
      "u \<noteq> t \<Longrightarrow> TCB_usStatus (K_tcb k' u) = TCB_usStatus (K_tcb k u)" for u unfolding S T4 by simp_all
    show "TCB_peventPtr (K_tcb k' t) = None" "TCB_pvMsgBoxMessage (K_tcb k' t) = msg"
      "TCB_ucIsEventDelete (K_tcb k' u) = (if u = t \<and> d then LW_EVENT_DELETE else TCB_ucIsEventDelete (K_tcb k u))"
      "TCB_ucPriority (K_tcb k' u) = TCB_ucPriority (K_tcb k u)" for u
      unfolding k'_def High_fields T4 by simp_all
    show "TCB_ucWaitTimeout (K_tcb k' u) = TCB_ucWaitTimeout (K_tcb k u)" for u
      unfolding k'_def High_fields T4 using P(2) by simp
    show "K_eventBuffer k' = K_eventBuffer (ev_wq_upd e q (wq_del_at ?i t) k)" unfolding k'_def High_frame E4 ..
    show "K_ncpus k' = K_ncpus k" "K_resrcEvent k' = K_resrcEvent k"
      unfolding k'_def High_frame by (simp_all add: k4_def k3_def k2_def)
  qed
qed

section \<open>Blocking\<close>

text \<open>
  The passage of a pending call from the waiting status to the queue; \<open>usWaitType\<close> is the
  status bit of the kind of event.
\<close>

definition ev_block :: "nat \<Rightarrow> nat \<Rightarrow> u16 \<Rightarrow> ulong \<Rightarrow> kernel \<Rightarrow> kernel" where
  "ev_block pevent iQ usWaitType ulTimeout k =
     (let ptcbCur = LW_TCB_GET_CUR k;
          k = tcb_upd ptcbCur (\<lambda>b. b\<lparr>TCB_iPendQ := iQ, TCB_usStatus := TCB_usStatus b OR usWaitType,
                TCB_ucWaitTimeout := LW_WAIT_TIME_CLEAR\<rparr>) k;
          k = (if ulTimeout = LW_OPTION_WAIT_INFINITE
               then tcb_upd ptcbCur (\<lambda>b. b\<lparr>TCB_ulDelay := 0\<rparr>) k
               else tcb_upd ptcbCur (\<lambda>b. b\<lparr>TCB_ulDelay := ulTimeout\<rparr>) k)
      in ev_wait pevent iQ k)"

lemma prio_insert_mem:
  "set (prio_insert pr t p xs) = insert t (set xs)" "t \<notin> set xs \<Longrightarrow> remove1 t (prio_insert pr t p xs) = xs"
  by (induction xs) auto

lemma ring_add_prio_mem:
  "set (ring_add_prio pr t xs) = insert t (set xs)" "t \<notin> set xs \<Longrightarrow> remove1 t (ring_add_prio pr t xs) = xs"
  by (auto simp: ring_add_prio_def ring_add_ahead_def prio_insert_mem split: list.splits)

definition enq :: "bool \<Rightarrow> (tid \<Rightarrow> u8) \<Rightarrow> tid \<Rightarrow> waitq \<Rightarrow> waitq" where
  "enq b pr t w = (if b then prio_enq pr t w else fifo_enq t w)"

definition enq_index :: "bool \<Rightarrow> (tid \<Rightarrow> u8) \<Rightarrow> tid \<Rightarrow> nat" where
  "enq_index b pr t = (if b then EVENT_INDEX_Q_PRIORITY (pr t) else 0)"

lemma enq_mem:
  assumes "t \<notin> set (wq_order b w)"
  shows "set (WL_pring (enq b pr t w) j) =
      (if j = enq_index b pr t then insert t (set (WL_pring w (enq_index b pr t))) else set (WL_pring w j))"
    "remove1 t (wq_order b (enq b pr t w)) = wq_order b w" "WQ_usNum (enq b pr t w) = WQ_usNum w + 1"
    "if b then enq_index b pr t < EVENT_Q_SIZE else enq_index b pr t = 0"
proof -
  show "set (WL_pring (enq b pr t w) j) =
      (if j = enq_index b pr t then insert t (set (WL_pring w (enq_index b pr t))) else set (WL_pring w j))"
    "WQ_usNum (enq b pr t w) = WQ_usNum w + 1" "if b then enq_index b pr t < EVENT_Q_SIZE else enq_index b pr t = 0"
    by (simp_all add: enq_def enq_index_def prio_enq_def fifo_enq_def ring_add_prio_mem ring_add_ahead_def)
  let ?i = "EVENT_INDEX_Q_PRIORITY (pr t)"
  have i: "?i < EVENT_Q_SIZE" by simp
  show "remove1 t (wq_order b (enq b pr t w)) = wq_order b w"
  proof (cases b)
    case True
    then have "t \<notin> set (wq_order True w)" using assms by simp
    then have n: "t \<notin> set (concat (map (WL_pring w) [0..<?i]))" "t \<notin> set (WL_pring w ?i)"
      unfolding prio_order_split [OF i] set_append by blast+
    have "remove1 t (wq_order True (prio_enq pr t w)) = wq_order True w"
      unfolding prio_enq_def num_sel prio_order_upd [OF i] prio_order_split [OF i, of w]
      using n ring_add_prio_mem [where xs = "WL_pring w ?i" and pr = pr and t = t] by (simp add: remove1_append del: set_concat)
    with True show ?thesis by (simp add: enq_def)
  next
    case False
    with assms show ?thesis by (simp add: enq_def fifo_order(1) remove1_append)
  qed
qed

text \<open>The kernel after the passage.\<close>

lemma ev_block_eq:
  fixes e q :: nat and ty :: u16 and to :: ulong
  assumes "LW_TCB_GET_CUR k = c"
  defines "k1 \<equiv> tcb_upd c (\<lambda>b. b\<lparr>TCB_iPendQ := q, TCB_usStatus := TCB_usStatus b OR ty, TCB_ucWaitTimeout := 0,
      TCB_ulDelay := (if to = LW_OPTION_WAIT_INFINITE then 0 else to),
      TCB_ppringPriorityQueue := (if by_prio k e then (q, EVENT_INDEX_Q_PRIORITY (prio k c)) else TCB_ppringPriorityQueue b),
      TCB_peventPtr := Some e\<rparr>) k"
  defines "k2 \<equiv> ev_wq_upd e q (enq (by_prio k e) (prio k) c) (DEL_FROM_READY_RING c (GetPcb k1 c) k1)"
  shows "ev_block e q ty to k = tcb_upd c (\<lambda>b. b\<lparr>TCB_ucIsEventDelete := LW_EVENT_EXIST\<rparr>)
     (if to = LW_OPTION_WAIT_INFINITE \<or> to = 0 then k2 else ADD_TO_WAKEUP_LINE c k2)"
proof -
  have G: "LW_TCB_GET_CUR (tcb_upd t f k') = LW_TCB_GET_CUR k'" for t f k' by (simp add: LW_TCB_GET_CUR_def)
  have P: "prio (tcb_upd t f k') c' = prio k' c'" if "\<And>b. TCB_ucPriority (f b) = TCB_ucPriority b" for t f k' c'
    using that by (simp add: prio_def)
  have D: "prio (DEL_FROM_READY_RING t p k') = prio k'" for t p k' by (simp add: prio_def fun_eq_iff)
  have Q: "TCB_iPendQ (K_tcb (DEL_FROM_READY_RING c p k1) c) = q" for p by (simp add: k1_def)
  have O: "EVENT_ulOption (K_eventBuffer (tcb_upd t f k') e) = EVENT_ulOption (K_eventBuffer k' e)" for t f k' by simp
  have p1: "prio k1 = prio k" by (simp add: k1_def prio_def fun_eq_iff)
  have dl: "TCB_ulDelay (K_tcb k2 c) = (if to = LW_OPTION_WAIT_INFINITE then 0 else to)" by (simp add: k2_def k1_def)
  show ?thesis
  proof (cases "by_prio k e")
    case True
    have "ev_block e q ty to k = tcb_upd c (\<lambda>b. b\<lparr>TCB_ucIsEventDelete := LW_EVENT_EXIST\<rparr>)
       (let k = AddTCBToEventPriority c e (q, EVENT_INDEX_Q_PRIORITY (prio k c)) (DEL_FROM_READY_RING c (GetPcb k1 c) k1)
        in if TCB_ulDelay (K_tcb k c) \<noteq> 0 then ADD_TO_WAKEUP_LINE c k else k)"
      using True by (simp add: ev_block_def ev_wait_def EventWaitPriority_def Let_def G O P assms(1) by_prio_def [symmetric] tcb_upd_upd k1_def)
    also have "AddTCBToEventPriority c e (q, EVENT_INDEX_Q_PRIORITY (prio k c)) (DEL_FROM_READY_RING c (GetPcb k1 c) k1) = k2"
      using queue_ops(2) [OF Q, of e "GetPcb k1 c"] True by (simp add: D p1 k2_def enq_def [abs_def])
    finally show ?thesis unfolding Let_def dl by simp
  next
    case False
    have "ev_block e q ty to k = tcb_upd c (\<lambda>b. b\<lparr>TCB_ucIsEventDelete := LW_EVENT_EXIST\<rparr>)
       (let k = AddTCBToEventFifo c e (q, 0) (DEL_FROM_READY_RING c (GetPcb k1 c) k1)
        in if TCB_ulDelay (K_tcb k c) \<noteq> 0 then ADD_TO_WAKEUP_LINE c k else k)"
      using False by (simp add: ev_block_def ev_wait_def EventWaitFifo_def Let_def G O P assms(1) by_prio_def [symmetric] tcb_upd_upd k1_def)
    also have "AddTCBToEventFifo c e (q, 0) (DEL_FROM_READY_RING c (GetPcb k1 c) k1) = k2"
      using queue_ops(1) [OF Q, of e "GetPcb k1 c"] False by (simp add: k2_def enq_def [abs_def])
    finally show ?thesis unfolding Let_def dl by simp
  qed
qed

lemma erase_wview: "erase k' = erase k \<Longrightarrow> wview (K_tcb k' u) = wview (K_tcb k u)"
  by (simp add: wview_def erase_tcbD [of k' k])

lemma kern_ok_block_cur:
  assumes ok: "kern_ok T k" and c: "c \<in> T" "K_ncpus k \<le> c" "LW_THREAD_IS_READY k c"
    and f: "\<And>b. tview (f b) = tview b" "TCB_usStatus (f (K_tcb k c)) \<noteq> 0"
  shows "kern_ok T (DEL_FROM_READY_RING c (GetPcb (tcb_upd c f k) c) (tcb_upd c f k))"
proof -
  let ?k = "tcb_upd c f k"
  have "sched_ok (rdyset T k) ?k" using ok unfolding kern_ok_def by (elim sched_ok_sview) (simp_all add: f)
  then have "sched_ok (rdyset T k - {c}) (DEL_FROM_READY_RING c (GetPcb ?k c) ?k)"
    using c by (intro sched_ok_del) (simp_all add: rdyset_def)
  moreover have "rdyset T (DEL_FROM_READY_RING c (GetPcb ?k c) ?k) = rdyset T k - {c}"
    using f(2) by (auto simp: rdyset_def LW_THREAD_IS_READY_def)
  ultimately show ?thesis by (simp add: kern_ok_def)
qed

lemma ev_block_spec:
  fixes e q :: nat and to :: ulong
  assumes ok: "ipc_ok T k" and c: "LW_TCB_GET_CUR k = c" "c \<in> T" "K_ncpus k \<le> c" "LW_THREAD_IS_READY k c"
    and ty: "ty AND LW_THREAD_STATUS_PEND_ANY \<noteq> 0" "ty AND LW_THREAD_STATUS_DELAY = 0"
  defines "k' \<equiv> ev_block e q ty to k"
  shows "ipc_ok T k'" "\<And>e' q'. waiters k' e' q' = (if e' = e \<and> q' = q
      then wq_order (by_prio k e) (enq (by_prio k e) (prio k) c (wq k e q)) else waiters k e' q')"
    "TCB_usStatus (K_tcb k' c) = (if to = LW_OPTION_WAIT_INFINITE \<or> to = 0 then ty else ty OR LW_THREAD_STATUS_DELAY)"
    "\<And>u. u \<noteq> c \<Longrightarrow> TCB_usStatus (K_tcb k' u) = TCB_usStatus (K_tcb k u)"
    "waits_in k' c e q" "K_eventBuffer k' = K_eventBuffer (ev_wq_upd e q (enq (by_prio k e) (prio k) c) k)"
    "to \<noteq> LW_OPTION_WAIT_INFINITE \<Longrightarrow> to \<noteq> 0 \<Longrightarrow> delayed k' c \<and> due k' c = unat to"
    "\<And>u. u \<in> set (dline k) \<Longrightarrow> u \<noteq> c \<and> due k' u = due k u" "K_ncpus k' = K_ncpus k"
    "TCB_ucIsEventDelete (K_tcb k' c) = LW_EVENT_EXIST" "K_resrcEvent k' = K_resrcEvent k"
proof -
  note O = ipc_okD [OF ok] and D = wait_okD [OF ipc_okD(3) [OF ok]]
  let ?b = "by_prio k e" and ?fin = "\<not> (to = LW_OPTION_WAIT_INFINITE \<or> to = 0)"
  let ?f = "\<lambda>b. b\<lparr>TCB_iPendQ := q, TCB_usStatus := TCB_usStatus b OR ty, TCB_ucWaitTimeout := 0,
      TCB_ulDelay := (if to = LW_OPTION_WAIT_INFINITE then 0 else to),
      TCB_ppringPriorityQueue := (if ?b then (q, EVENT_INDEX_Q_PRIORITY (prio k c)) else TCB_ppringPriorityQueue b),
      TCB_peventPtr := Some e\<rparr>"
  define k1 where "k1 = DEL_FROM_READY_RING c (GetPcb (tcb_upd c ?f k) c) (tcb_upd c ?f k)"
  define k2 where "k2 = ev_wq_upd e q (enq ?b (prio k) c) k1"
  define k3 where "k3 = (if ?fin then ADD_TO_WAKEUP_LINE c k2 else k2)"
  have k': "k' = tcb_upd c (\<lambda>b. b\<lparr>TCB_ucIsEventDelete := LW_EVENT_EXIST\<rparr>) k3"
    using ev_block_eq [OF c(1), of e q ty to] by (auto simp: k'_def k3_def k2_def k1_def)
  have z: "TCB_usStatus (K_tcb k c) = 0" using c(4) by (simp add: LW_THREAD_IS_READY_def)
  have np: "TCB_peventPtr (K_tcb k c) = None" using D(4) [of c] pending_not_ready c(4) by (cases "TCB_peventPtr (K_tcb k c)") auto
  have nd: "\<not> delayed k c" by (simp add: delayed_def z)
  have ty0: "ty \<noteq> 0" using ty(1) by auto
  have K1: "kern_ok T k1" unfolding k1_def by (rule kern_ok_block_cur [OF O(1) c(2-4)]) (simp_all add: tview_def z ty0)
  have E1: "erase k1 = erase (tcb_upd c ?f k)" by (simp add: k1_def)
  have d0: "delay_ok (tcb_upd c ?f k)" "dline (tcb_upd c ?f k) = dline k" "u \<in> set (dline k) \<Longrightarrow> due (tcb_upd c ?f k) u = due k u" for u
    using delay_ok_off [OF O(2) nd, of ?f] ty(2) by (simp_all add: z)
  have d2: "delay_ok k2" "dline k2 = dline k" "u \<in> set (dline k) \<Longrightarrow> due k2 u = due k u" for u
    using d0 delay_ok_erase [OF E1] by (simp_all add: k2_def)
  have T2: "TCB_usStatus (K_tcb k2 u) = (if u = c then ty else TCB_usStatus (K_tcb k u))"
    "TCB_ulDelay (K_tcb k2 c) = (if to = LW_OPTION_WAIT_INFINITE then 0 else to)"
    "wview (K_tcb k2 u) = (if u = c then wview (?f (K_tcb k c)) else wview (K_tcb k u))" for u
    using erase_wview [OF E1, of u] by (simp_all add: k2_def k1_def z)
  have n2: "\<not> delayed k2 c" using ty(2) by (simp add: delayed_def T2)
  note A = ADD_TO_WAKEUP_LINE_spec [OF d2(1) n2]
  have d3: "delay_ok k3" using A(1) d2(1) by (simp add: k3_def)
  have T3: "TCB_usStatus (K_tcb k3 c) = (if ?fin then ty OR LW_THREAD_STATUS_DELAY else ty)"
    "u \<noteq> c \<Longrightarrow> TCB_usStatus (K_tcb k3 u) = TCB_usStatus (K_tcb k u)" for u
    by (simp_all add: k3_def T2)
  have pd: "(ty OR LW_THREAD_STATUS_DELAY) AND LW_THREAD_STATUS_PEND_ANY = ty AND LW_THREAD_STATUS_PEND_ANY"
    by (simp add: bit.conj_disj_distrib2)
  have V: "wview (K_tcb k' u) = wview (K_tcb k2 u)" for u
    using pd T2(1) [of c] by (cases "u = c") (simp_all add: k' k3_def wview_def)
  note S = delay_ok_same [OF d3, of "\<lambda>b. b\<lparr>TCB_ucIsEventDelete := LW_EVENT_EXIST\<rparr>" c, folded k']
  have tz: "TCB_usStatus (K_tcb k3 c) \<noteq> 0" using pd ty(1) T3(1) by (auto split: if_splits)
  have K2: "kern_ok T k2" unfolding k2_def by (rule ev_wq_upd_ok(4) [OF K1])
  have K3: "kern_ok T k3"
  proof (cases ?fin)
    case True
    have r: "rdyset T (ADD_TO_WAKEUP_LINE c k2) = rdyset T k2"
      using tz ty0 True by (auto simp: rdyset_def LW_THREAD_IS_READY_def T2 k3_def)
    have "kern_ok T (ADD_TO_WAKEUP_LINE c k2)" by (rule kern_ok_sview [OF K2 _ _ _ _ r]) simp_all
    with True show ?thesis by (simp add: k3_def)
  qed (use K2 in \<open>auto simp: k3_def\<close>)
  have K': "kern_ok T k'" unfolding k' by (rule kern_ok_tcb [OF K3]) (simp_all add: tview_def)
  show Ev: "K_eventBuffer k' = K_eventBuffer (ev_wq_upd e q (enq ?b (prio k) c) k)"
    by (simp add: k' k3_def k2_def k1_def ev_wq_upd_def)
  have w: "wq k' e' q' = (if e' = e \<and> q' = q then enq ?b (prio k) c (wq k e q) else wq k e' q')" "by_prio k' e' = by_prio k e'" for e' q'
    by (simp_all add: wq_def by_prio_def Ev)
  show "waiters k' e' q' = (if e' = e \<and> q' = q then wq_order ?b (enq ?b (prio k) c (wq k e q)) else waiters k e' q')" for e' q'
    by (simp add: waiters_def w)
  have n: "c \<notin> set (wq_order ?b (wq k e q))" using D(2) [of c e q] np by (simp add: waiters_def waits_in_def)
  note M = enq_mem [OF n, of "prio k"]
  have Vc: "wview (K_tcb k' c) = wview (?f (K_tcb k c))" unfolding V T2(3) by simp
  have Vo: "wview (K_tcb k' u) = wview (K_tcb k u)" if "u \<noteq> c" for u using that unfolding V T2(3) by simp
  have vc: "waits_in k' c e q" "?b \<Longrightarrow> TCB_ppringPriorityQueue (K_tcb k' c) = (q, enq_index ?b (prio k) c)"
    "pending k' c" "TCB_ucWaitTimeout (K_tcb k' c) = 0"
    using Vc ty(1) by (simp_all add: wview_def pending_def waits_in_def enq_index_def z)
  then show "waits_in k' c e q" by simp
  have "wait_ok T k'"
    by (rule wait_ok_enter [OF O(3) np O(4) [OF c(2)] c(2) M(4) w(2,1) M(1-3) vc(1) vc(2) vc(3,4) Vo])
  then show "ipc_ok T k'" using K' S(1) ok by (simp add: ipc_ok_def)
  show "TCB_usStatus (K_tcb k' c) = (if to = LW_OPTION_WAIT_INFINITE \<or> to = 0 then ty else ty OR LW_THREAD_STATUS_DELAY)"
    using T3(1) by (auto simp: k')
  show "TCB_usStatus (K_tcb k' u) = TCB_usStatus (K_tcb k u)" if "u \<noteq> c" for u using T3(2) [OF that] that by (simp add: k')
  show "delayed k' c \<and> due k' c = unat to" if "to \<noteq> LW_OPTION_WAIT_INFINITE" "to \<noteq> 0"
  proof
    have "TCB_usStatus (K_tcb k' c) = ty OR LW_THREAD_STATUS_DELAY" using T3(1) that by (simp add: k')
    then show "delayed k' c" by (simp add: delayed_def)
    show "due k' c = unat to" using that A(3) S(2) by (simp add: k3_def T2)
  qed
  show "u \<noteq> c \<and> due k' u = due k u" if "u \<in> set (dline k)" for u
    using that A(4) d2(2) d2(3) [of u] S(2) nd O(2) by (auto simp: k3_def delay_ok_def)
  show "K_ncpus k' = K_ncpus k" "TCB_ucIsEventDelete (K_tcb k' c) = LW_EVENT_EXIST" "K_resrcEvent k' = K_resrcEvent k"
    by (simp_all add: k' k3_def k2_def k1_def)
qed

end
