(* ===== verification/EventPool.thy ===== *)
theory EventPool
  imports EventOps
begin

text \<open>
  The pool of event control blocks (\<^verbatim>\<open>kernel/list/listEvent.c\<close>, \<^verbatim>\<open>_EventInit.c\<close>) and the frame
  that every call on an event has: the checks of the handle, the entry to the kernel, the check
  of the event's type, the body, the exit from the kernel and the error code of the thread.
\<close>

section \<open>The pool\<close>

definition Allocate_Event_Object :: "kernel \<Rightarrow> nat option \<times> kernel" where
  "Allocate_Event_Object k =
     (case RESRC_free (K_resrcEvent k) of
        [] \<Rightarrow> (None, k)
      | peventFree # pmonoFree \<Rightarrow>
          let r = (K_resrcEvent k)\<lparr>RESRC_free := pmonoFree, RESRC_uiUsed := RESRC_uiUsed (K_resrcEvent k) + 1\<rparr>;
              r = (if RESRC_uiUsed r > RESRC_uiMaxUsed r then r\<lparr>RESRC_uiMaxUsed := RESRC_uiUsed r\<rparr> else r)
          in (Some peventFree, k\<lparr>K_resrcEvent := r\<rparr>))"

definition Free_Event_Object :: "nat \<Rightarrow> kernel \<Rightarrow> kernel" where
  "Free_Event_Object pevent k = k\<lparr>K_resrcEvent :=
     (K_resrcEvent k)\<lparr>RESRC_free := RESRC_free (K_resrcEvent k) @ [pevent], RESRC_uiUsed := RESRC_uiUsed (K_resrcEvent k) - 1\<rparr>\<rparr>"

text \<open>\<^verbatim>\<open>_EventInit\<close>: every block is unused, has its index, and is in the free list in order.\<close>

definition event_init_at :: "nat \<Rightarrow> kernel \<Rightarrow> kernel" where
  "event_init_at ulI k = event_upd ulI (\<lambda>v. v\<lparr>EVENT_ucType := LW_TYPE_EVENT_UNUSED, EVENT_usIndex := of_nat ulI\<rparr>) k"

definition EventInit :: "kernel \<Rightarrow> kernel" where
  "EventInit k =
     (let k = fold event_init_at [0..<LW_CFG_MAX_EVENTS] k
      in k\<lparr>K_resrcEvent := \<lparr>RESRC_free = [0..<LW_CFG_MAX_EVENTS], RESRC_uiUsed = 0, RESRC_uiMaxUsed = 0\<rparr>\<rparr>)"

section \<open>Checks\<close>

definition Event_Index_Invalid :: "nat \<Rightarrow> bool" where
  "Event_Index_Invalid usIndex \<longleftrightarrow> usIndex \<ge> LW_CFG_MAX_EVENTS"

definition Event_Type_Invalid :: "nat \<Rightarrow> u8 \<Rightarrow> kernel \<Rightarrow> bool" where
  "Event_Type_Invalid usIndex ucType k \<longleftrightarrow> EVENT_ucType (K_eventBuffer k usIndex) \<noteq> ucType"

text \<open>A name is a string, or none for a null pointer.\<close>

definition Object_Name_Invalid :: "string option \<Rightarrow> bool" where
  "Object_Name_Invalid pcName = (case pcName of None \<Rightarrow> False | Some s \<Rightarrow> min (length s) LW_CFG_OBJECT_NAME_SIZE \<ge> LW_CFG_OBJECT_NAME_SIZE)"

section \<open>The frame of a call\<close>

text \<open>
  \<open>body\<close> is the part between the type check and the exit from the kernel; it returns the error
  code, the values written through the caller's pointers and the kernel, or nothing when a loop in
  it does not end. \<open>out\<close> is what the pointers hold when the call fails before the body.
\<close>

definition event_section ::
  "u8 \<Rightarrow> u8 \<Rightarrow> ulong \<Rightarrow> 'a \<Rightarrow> (nat \<Rightarrow> kernel \<Rightarrow> (ulong \<times> 'a \<times> kernel) option) \<Rightarrow> env \<Rightarrow> kernel \<Rightarrow>
     (ulong \<times> 'a \<times> env \<times> kernel) option" where
  "event_section cls ucType ulId out body env k =
     (let usIndex = unat (ObjectGetIndex ulId) in
      if \<not> ObjectClassOK ulId cls then Some (ERROR_KERNEL_HANDLE_NULL, out, env, ErrorHandle ERROR_KERNEL_HANDLE_NULL k)
      else if Event_Index_Invalid usIndex then Some (ERROR_KERNEL_HANDLE_NULL, out, env, ErrorHandle ERROR_KERNEL_HANDLE_NULL k)
      else
        let k = kernelEnterIrq k in
        case (if Event_Type_Invalid usIndex ucType k then Some (ERROR_EVENT_TYPE, out, k) else body usIndex k) of
          None \<Rightarrow> None
        | Some (ulError, out, k) \<Rightarrow>
            (case kernelExitIrq env k of
               None \<Rightarrow> None
             | Some (_, env, k) \<Rightarrow> Some (ulError, out, env, ErrorHandle ulError k)))"

text \<open>
  The creation of an event: a control block is taken in the kernel, and initialised after the
  kernel was left; \<open>init\<close> is what the kind of event sets.
\<close>

definition event_create ::
  "u8 \<Rightarrow> string option \<Rightarrow> (event \<Rightarrow> event) \<Rightarrow> env \<Rightarrow> kernel \<Rightarrow> (ulong \<times> env \<times> kernel) option" where
  "event_create cls pcName init env k =
     (if Object_Name_Invalid pcName then
        Some (LW_OBJECT_HANDLE_INVALID, env, ErrorHandle ERROR_KERNEL_PNAME_TOO_LONG k)
      else
        let k = kernelEnter k;
            (pevent, k) = Allocate_Event_Object k
        in case kernelExit env k of
             None \<Rightarrow> None
           | Some (_, env, k) \<Rightarrow>
              (case pevent of
                 None \<Rightarrow> Some (LW_OBJECT_HANDLE_INVALID, env, ErrorHandle ERROR_EVENT_FULL k)
               | Some e \<Rightarrow>
                   let k = event_upd e (\<lambda>v. v\<lparr>EVENT_cEventName := (case pcName of Some s \<Rightarrow> s | None \<Rightarrow> [])\<rparr>) k;
                       k = event_upd e init k;
                       k = event_upd e (\<lambda>v. v\<lparr>EVENT_pvPtr := 0, EVENT_pvTcbOwn := None,
                             EVENT_wqWaitQ := (\<lambda>q. if q < 2 then (EVENT_wqWaitQ v q)\<lparr>WQ_usNum := 0,
                                WL_pring := (\<lambda>i. if i < EVENT_Q_SIZE then [] else WL_pring (EVENT_wqWaitQ v q) i)\<rparr>
                               else EVENT_wqWaitQ v q)\<rparr>) k
                   in Some (MakeObjectId cls LW_CFG_PROCESSOR_NUMBER (EVENT_usIndex (K_eventBuffer k e)), env, k)))"

text \<open>The loop of a flush or a deletion: wake waiters while the queue counts any.\<close>

partial_function (option) ev_wake_all :: "nat \<Rightarrow> nat \<Rightarrow> bool \<Rightarrow> u16 \<Rightarrow> u8 \<Rightarrow> kernel \<Rightarrow> kernel option" where
  [code]: "ev_wake_all pevent iQ bDelete usWaitType ucSchedActivate k =
     (if EventWaitNum iQ pevent k = 0 then Some k
      else ev_wake_all pevent iQ bDelete usWaitType ucSchedActivate
             (snd (ev_wake pevent iQ 0 bDelete usWaitType ucSchedActivate k)))"

end
