(* ===== verification/Sem.thy ===== *)
theory Sem
  imports EventPool
begin

text \<open>
  Binary and counting semaphores (\<^verbatim>\<open>kernel/interface/SemaphoreB*.c\<close>, \<^verbatim>\<open>SemaphoreC*.c\<close>). The two
  kinds share their control block and their waiting; a binary semaphore holds zero or one and can
  pass a message, a counting one holds up to its maximum. Each call is an \<open>event_section\<close> (or
  the pending loop) around a body; output parameters are results.
\<close>

section \<open>Taking a semaphore\<close>

text \<open>What a kind of semaphore is: its class, its type, and how a unit is taken.\<close>

record semkind =
  SK_class :: u8
  SK_type :: u8
  SK_take :: "ulong \<Rightarrow> ulong"

definition semB :: semkind where
  "semB = \<lparr>SK_class = OBJECT_SEM_B, SK_type = LW_TYPE_EVENT_SEMB, SK_take = (\<lambda>_. 0)\<rparr>"

definition semC :: semkind where
  "semC = \<lparr>SK_class = OBJECT_SEM_C, SK_type = LW_TYPE_EVENT_SEMC, SK_take = (\<lambda>n. n - 1)\<rparr>"

definition set_counter :: "nat \<Rightarrow> ulong \<Rightarrow> kernel \<Rightarrow> kernel" where
  "set_counter pevent v = event_upd pevent (\<lambda>e. e\<lparr>EVENT_ulCounter := v\<rparr>)"

text \<open>What the thread finds when it runs again after the wait: timeout, success or deletion.\<close>

definition pend_result :: "tid \<Rightarrow> kernel \<Rightarrow> ulong" where
  "pend_result ptcbCur k =
     (if TCB_ucWaitTimeout (K_tcb k ptcbCur) = LW_WAIT_TIME_OUT then ERROR_THREAD_WAIT_TIMEOUT
      else if TCB_ucIsEventDelete (K_tcb k ptcbCur) = LW_EVENT_EXIST then ERROR_NONE
      else ERROR_EVENT_WAS_DELETED)"

text \<open>
  The loop from \<^verbatim>\<open>__wait_again\<close>. The message is the one of the event when a unit was there, the
  one handed to the thread when it waited. A signal leads back to the start with the ticks left.
\<close>

function sem_pend :: "semkind \<Rightarrow> ulong \<Rightarrow> tid \<Rightarrow> ulong \<Rightarrow> env \<Rightarrow> kernel \<Rightarrow>
    (ulong \<times> ulong option \<times> env \<times> kernel) option" where
  "sem_pend sk ulId ptcbCur ulTimeout env k =
     (let usIndex = unat (ObjectGetIndex ulId) in
      if \<not> ObjectClassOK ulId (SK_class sk) then Some (ERROR_KERNEL_HANDLE_NULL, None, env, ErrorHandle ERROR_KERNEL_HANDLE_NULL k)
      else if Event_Index_Invalid usIndex then Some (ERROR_KERNEL_HANDLE_NULL, None, env, ErrorHandle ERROR_KERNEL_HANDLE_NULL k)
      else
        let k = kernelEnterIrq k in
        if Event_Type_Invalid usIndex (SK_type sk) k then
          map_option (\<lambda>(_, env, k). (ERROR_EVENT_TYPE, None, env, ErrorHandle ERROR_EVENT_TYPE k)) (kernelExitIrq env k)
        else if EVENT_ulCounter (K_eventBuffer k usIndex) \<noteq> 0 then
          let pvMsgPtr = EVENT_pvPtr (K_eventBuffer k usIndex);
              k = set_counter usIndex (SK_take sk (EVENT_ulCounter (K_eventBuffer k usIndex))) k
          in map_option (\<lambda>(_, env, k). (ERROR_NONE, Some pvMsgPtr, env, k)) (kernelExitIrq env k)
        else if ulTimeout = LW_OPTION_NOT_WAIT then
          map_option (\<lambda>(_, env, k). (ERROR_THREAD_WAIT_TIMEOUT, None, env, ErrorHandle ERROR_THREAD_WAIT_TIMEOUT k))
            (kernelExitIrq env k)
        else
          let ulTimeSave = K_i64KernelTime k;
              k = ev_block usIndex EVENT_SEM_Q LW_THREAD_STATUS_SEM ulTimeout k;
              ulEventOption = EVENT_ulOption (K_eventBuffer k usIndex)
          in (case kernelExit env k of
                None \<Rightarrow> None
              | Some (iSchedRet, env', k) \<Rightarrow>
                  if iSchedRet \<noteq> 0 then
                    if iSchedRet = LW_SIGNAL_EINTR \<and> ulEventOption AND LW_OPTION_SIGNAL_INTER \<noteq> 0 then
                      Some (EINTR, None, env', ErrorHandle EINTR k)
                    else
                      let ulTimeout = sigTimeoutRecalc ulTimeSave ulTimeout k in
                      if ulTimeout = LW_OPTION_NOT_WAIT then
                        Some (ERROR_THREAD_WAIT_TIMEOUT, None, env', ErrorHandle ERROR_THREAD_WAIT_TIMEOUT k)
                      else if length env' < length env then sem_pend sk ulId ptcbCur ulTimeout env' k
                      else None
                  else
                    let ulError = pend_result ptcbCur k in
                    Some (ulError, if ulError = ERROR_NONE then Some (TCB_pvMsgBoxMessage (K_tcb k ptcbCur)) else None,
                      env', ErrorHandle ulError k)))"
  by pat_completeness auto
termination by (relation "measure (\<lambda>(_, _, _, _, env, _). length env)") auto

declare sem_pend.simps [simp del]

definition sem_pend_api :: "semkind \<Rightarrow> ulong \<Rightarrow> ulong \<Rightarrow> env \<Rightarrow> kernel \<Rightarrow> (ulong \<times> ulong option \<times> env \<times> kernel) option" where
  "sem_pend_api sk ulId ulTimeout env k =
     (if CpuGetNesting k \<noteq> 0 then Some (ERROR_KERNEL_IN_ISR, None, env, ErrorHandle ERROR_KERNEL_IN_ISR k)
      else sem_pend sk ulId (LW_TCB_GET_CUR k) ulTimeout env k)"

definition SemaphoreBPendEx :: "ulong \<Rightarrow> ulong \<Rightarrow> env \<Rightarrow> kernel \<Rightarrow> (ulong \<times> ulong option \<times> env \<times> kernel) option" where
  "SemaphoreBPendEx = sem_pend_api semB"

definition SemaphoreBPend :: "ulong \<Rightarrow> ulong \<Rightarrow> env \<Rightarrow> kernel \<Rightarrow> (ulong \<times> env \<times> kernel) option" where
  "SemaphoreBPend ulId ulTimeout env k = map_option (\<lambda>(r, _, env, k). (r, env, k)) (sem_pend_api semB ulId ulTimeout env k)"

definition SemaphoreCPend :: "ulong \<Rightarrow> ulong \<Rightarrow> env \<Rightarrow> kernel \<Rightarrow> (ulong \<times> env \<times> kernel) option" where
  "SemaphoreCPend ulId ulTimeout env k = map_option (\<lambda>(r, _, env, k). (r, env, k)) (sem_pend_api semC ulId ulTimeout env k)"

definition sem_trypend :: "semkind \<Rightarrow> nat \<Rightarrow> kernel \<Rightarrow> (ulong \<times> unit \<times> kernel) option" where
  "sem_trypend sk pevent k =
     (if EVENT_ulCounter (K_eventBuffer k pevent) \<noteq> 0
      then Some (ERROR_NONE, (), set_counter pevent (SK_take sk (EVENT_ulCounter (K_eventBuffer k pevent))) k)
      else Some (ERROR_THREAD_WAIT_TIMEOUT, (), k))"

definition SemaphoreBTryPend :: "ulong \<Rightarrow> env \<Rightarrow> kernel \<Rightarrow> (ulong \<times> unit \<times> env \<times> kernel) option" where
  "SemaphoreBTryPend ulId = event_section OBJECT_SEM_B LW_TYPE_EVENT_SEMB ulId () (sem_trypend semB)"

definition SemaphoreCTryPend :: "ulong \<Rightarrow> env \<Rightarrow> kernel \<Rightarrow> (ulong \<times> unit \<times> env \<times> kernel) option" where
  "SemaphoreCTryPend ulId = event_section OBJECT_SEM_C LW_TYPE_EVENT_SEMC ulId () (sem_trypend semC)"

section \<open>Giving a semaphore\<close>

text \<open>The bodies return the woken thread, if there is one.\<close>

definition semB_post :: "ulong \<Rightarrow> nat \<Rightarrow> kernel \<Rightarrow> (ulong \<times> tid option \<times> kernel) option" where
  "semB_post pvMsg pevent k =
     (if EventWaitNum EVENT_SEM_Q pevent k \<noteq> 0 then
        let (ptcb, k) = ev_wake pevent EVENT_SEM_Q pvMsg False LW_THREAD_STATUS_SEM LW_SCHED_ACT_INTERRUPT k
        in Some (ERROR_NONE, ptcb, k)
      else if EVENT_ulCounter (K_eventBuffer k pevent) = 0 then Some (ERROR_NONE, None, set_counter pevent 1 k)
      else Some (ERROR_EVENT_FULL, None, k))"

definition semB_postEx :: "ulong \<Rightarrow> nat \<Rightarrow> kernel \<Rightarrow> (ulong \<times> tid option \<times> kernel) option" where
  "semB_postEx pvMsgPtr pevent k =
     (if EventWaitNum EVENT_SEM_Q pevent k \<noteq> 0 then
        let (ptcb, k) = ev_wake pevent EVENT_SEM_Q pvMsgPtr False LW_THREAD_STATUS_SEM LW_SCHED_ACT_INTERRUPT k
        in Some (ERROR_NONE, ptcb, k)
      else if EVENT_ulCounter (K_eventBuffer k pevent) = 0 then
        let k = set_counter pevent 1 k
        in Some (ERROR_NONE, None, event_upd pevent (\<lambda>e. e\<lparr>EVENT_pvPtr := pvMsgPtr\<rparr>) k)
      else Some (ERROR_EVENT_FULL, None, k))"

definition semC_post :: "nat \<Rightarrow> kernel \<Rightarrow> (ulong \<times> tid option \<times> kernel) option" where
  "semC_post pevent k =
     (if EventWaitNum EVENT_SEM_Q pevent k \<noteq> 0 then
        let (ptcb, k) = ev_wake pevent EVENT_SEM_Q 0 False LW_THREAD_STATUS_SEM LW_SCHED_ACT_INTERRUPT k
        in Some (ERROR_NONE, ptcb, k)
      else if EVENT_ulCounter (K_eventBuffer k pevent) < EVENT_ulMaxCounter (K_eventBuffer k pevent) then
        Some (ERROR_NONE, None, set_counter pevent (EVENT_ulCounter (K_eventBuffer k pevent) + 1) k)
      else Some (ERROR_EVENT_FULL, None, k))"

definition drop_out :: "(ulong \<times> 'a \<times> env \<times> kernel) option \<Rightarrow> (ulong \<times> env \<times> kernel) option" where
  "drop_out = map_option (\<lambda>(r, _, env, k). (r, env, k))"

definition SemaphoreBPost :: "ulong \<Rightarrow> env \<Rightarrow> kernel \<Rightarrow> (ulong \<times> env \<times> kernel) option" where
  "SemaphoreBPost ulId env k = drop_out (event_section OBJECT_SEM_B LW_TYPE_EVENT_SEMB ulId None (semB_post 0) env k)"

text \<open>\<^verbatim>\<open>*pulId\<close> is the handle of the woken thread.\<close>

definition SemaphoreBPost2 :: "ulong \<Rightarrow> env \<Rightarrow> kernel \<Rightarrow> (ulong \<times> ulong \<times> env \<times> kernel) option" where
  "SemaphoreBPost2 ulId env k =
     event_section OBJECT_SEM_B LW_TYPE_EVENT_SEMB ulId LW_OBJECT_HANDLE_INVALID
       (\<lambda>e k. map_option (\<lambda>(r, t, k). (r, (case t of Some t \<Rightarrow> TCB_ulId (K_tcb k t) | None \<Rightarrow> LW_OBJECT_HANDLE_INVALID), k))
          (semB_post 0 e k)) env k"

definition SemaphoreBPostEx :: "ulong \<Rightarrow> ulong \<Rightarrow> env \<Rightarrow> kernel \<Rightarrow> (ulong \<times> env \<times> kernel) option" where
  "SemaphoreBPostEx ulId pvMsgPtr env k =
     drop_out (event_section OBJECT_SEM_B LW_TYPE_EVENT_SEMB ulId None (semB_postEx pvMsgPtr) env k)"

definition SemaphoreBPostEx2 :: "ulong \<Rightarrow> ulong \<Rightarrow> env \<Rightarrow> kernel \<Rightarrow> (ulong \<times> ulong \<times> env \<times> kernel) option" where
  "SemaphoreBPostEx2 ulId pvMsgPtr env k =
     event_section OBJECT_SEM_B LW_TYPE_EVENT_SEMB ulId LW_OBJECT_HANDLE_INVALID
       (\<lambda>e k. map_option (\<lambda>(r, t, k). (r, (case t of Some t \<Rightarrow> TCB_ulId (K_tcb k t) | None \<Rightarrow> LW_OBJECT_HANDLE_INVALID), k))
          (semB_postEx pvMsgPtr e k)) env k"

definition SemaphoreCPost :: "ulong \<Rightarrow> env \<Rightarrow> kernel \<Rightarrow> (ulong \<times> env \<times> kernel) option" where
  "SemaphoreCPost ulId env k = drop_out (event_section OBJECT_SEM_C LW_TYPE_EVENT_SEMC ulId None semC_post env k)"

text \<open>The loops of \<^verbatim>\<open>API_SemaphoreBRelease\<close> and \<^verbatim>\<open>API_SemaphoreCRelease\<close>.\<close>

fun semB_release :: "nat \<Rightarrow> nat \<Rightarrow> kernel \<Rightarrow> ulong \<times> kernel" where
  "semB_release 0 pevent k = (ERROR_NONE, k)"
| "semB_release (Suc n) pevent k =
     (if EventWaitNum EVENT_SEM_Q pevent k \<noteq> 0 then
        semB_release n pevent (snd (ev_wake pevent EVENT_SEM_Q 0 False LW_THREAD_STATUS_SEM LW_SCHED_ACT_OTHER k))
      else if EVENT_ulCounter (K_eventBuffer k pevent) = 0 then semB_release n pevent (set_counter pevent 1 k)
      else (ERROR_EVENT_FULL, k))"

fun semC_release :: "nat \<Rightarrow> nat \<Rightarrow> kernel \<Rightarrow> ulong \<times> kernel" where
  "semC_release 0 pevent k = (ERROR_NONE, k)"
| "semC_release (Suc n) pevent k =
     (if EventWaitNum EVENT_SEM_Q pevent k \<noteq> 0 then
        semC_release n pevent (snd (ev_wake pevent EVENT_SEM_Q 0 False LW_THREAD_STATUS_SEM LW_SCHED_ACT_OTHER k))
      else if EVENT_ulCounter (K_eventBuffer k pevent) < EVENT_ulMaxCounter (K_eventBuffer k pevent) then
        semC_release n pevent (set_counter pevent (EVENT_ulCounter (K_eventBuffer k pevent) + 1) k)
      else (ERROR_EVENT_FULL, k))"

text \<open>The second result is the previous value, \<open>None\<close> where the call fails before it is read.\<close>

definition SemaphoreBRelease :: "ulong \<Rightarrow> ulong \<Rightarrow> env \<Rightarrow> kernel \<Rightarrow> (ulong \<times> u32 option \<times> env \<times> kernel) option" where
  "SemaphoreBRelease ulId ulReleaseCounter env k =
     (if ulReleaseCounter = 0 then Some (ERROR_EVENT_NULL, None, env, ErrorHandle ERROR_EVENT_NULL k)
      else event_section OBJECT_SEM_B LW_TYPE_EVENT_SEMB ulId None
        (\<lambda>e k. let b = ucast (EVENT_ulCounter (K_eventBuffer k e));
                   (r, k) = semB_release (unat ulReleaseCounter) e k
               in Some (r, Some b, k)) env k)"

definition SemaphoreCRelease :: "ulong \<Rightarrow> ulong \<Rightarrow> env \<Rightarrow> kernel \<Rightarrow> (ulong \<times> ulong option \<times> env \<times> kernel) option" where
  "SemaphoreCRelease ulId ulReleaseCounter env k =
     (if ulReleaseCounter = 0 then Some (ERROR_EVENT_NULL, None, env, ErrorHandle ERROR_EVENT_NULL k)
      else event_section OBJECT_SEM_C LW_TYPE_EVENT_SEMC ulId None
        (\<lambda>e k. let v = EVENT_ulCounter (K_eventBuffer k e);
                   (r, k) = semC_release (unat ulReleaseCounter) e k
               in Some (r, Some v, k)) env k)"

section \<open>The other calls\<close>

definition sem_clear :: "nat \<Rightarrow> kernel \<Rightarrow> (ulong \<times> unit \<times> kernel) option" where
  "sem_clear pevent k = Some (ERROR_NONE, (), set_counter pevent 0 k)"

definition SemaphoreBClear :: "ulong \<Rightarrow> env \<Rightarrow> kernel \<Rightarrow> (ulong \<times> unit \<times> env \<times> kernel) option" where
  "SemaphoreBClear ulId = event_section OBJECT_SEM_B LW_TYPE_EVENT_SEMB ulId () sem_clear"

definition SemaphoreCClear :: "ulong \<Rightarrow> env \<Rightarrow> kernel \<Rightarrow> (ulong \<times> unit \<times> env \<times> kernel) option" where
  "SemaphoreCClear ulId = event_section OBJECT_SEM_C LW_TYPE_EVENT_SEMC ulId () sem_clear"

text \<open>A flush wakes every waiter and tells how many there were.\<close>

definition sem_flush :: "nat \<Rightarrow> kernel \<Rightarrow> (ulong \<times> u16 option \<times> kernel) option" where
  "sem_flush pevent k =
     (let n = EventWaitNum EVENT_SEM_Q pevent k in
      map_option (\<lambda>k. (ERROR_NONE, Some n, k))
        (ev_wake_all pevent EVENT_SEM_Q False LW_THREAD_STATUS_SEM LW_SCHED_ACT_OTHER k))"

definition SemaphoreBFlush :: "ulong \<Rightarrow> env \<Rightarrow> kernel \<Rightarrow> (ulong \<times> u16 option \<times> env \<times> kernel) option" where
  "SemaphoreBFlush ulId = event_section OBJECT_SEM_B LW_TYPE_EVENT_SEMB ulId None sem_flush"

definition SemaphoreCFlush :: "ulong \<Rightarrow> env \<Rightarrow> kernel \<Rightarrow> (ulong \<times> u16 option \<times> env \<times> kernel) option" where
  "SemaphoreCFlush ulId = event_section OBJECT_SEM_C LW_TYPE_EVENT_SEMC ulId None sem_flush"

text \<open>A deletion also marks the waiters and gives the control block back; the handle becomes zero.\<close>

definition sem_delete :: "nat \<Rightarrow> kernel \<Rightarrow> (ulong \<times> ulong \<times> kernel) option" where
  "sem_delete pevent k =
     (let k = event_upd pevent (\<lambda>e. e\<lparr>EVENT_ucType := LW_TYPE_EVENT_UNUSED\<rparr>) k in
      map_option (\<lambda>k.
          let k = event_upd pevent (\<lambda>e. e\<lparr>EVENT_pvTcbOwn := None\<rparr>) k
          in (ERROR_NONE, 0, Free_Event_Object pevent k))
        (ev_wake_all pevent EVENT_SEM_Q True LW_THREAD_STATUS_SEM LW_SCHED_ACT_OTHER k))"

definition SemaphoreBDelete :: "ulong \<Rightarrow> env \<Rightarrow> kernel \<Rightarrow> (ulong \<times> ulong \<times> env \<times> kernel) option" where
  "SemaphoreBDelete pulId env k =
     (if CpuGetNesting k \<noteq> 0 then Some (ERROR_KERNEL_IN_ISR, pulId, env, ErrorHandle ERROR_KERNEL_IN_ISR k)
      else event_section OBJECT_SEM_B LW_TYPE_EVENT_SEMB pulId pulId sem_delete env k)"

definition SemaphoreCDelete :: "ulong \<Rightarrow> env \<Rightarrow> kernel \<Rightarrow> (ulong \<times> ulong \<times> env \<times> kernel) option" where
  "SemaphoreCDelete pulId env k =
     (if CpuGetNesting k \<noteq> 0 then Some (ERROR_KERNEL_IN_ISR, pulId, env, ErrorHandle ERROR_KERNEL_IN_ISR k)
      else event_section OBJECT_SEM_C LW_TYPE_EVENT_SEMC pulId pulId sem_delete env k)"

text \<open>A \<^verbatim>\<open>BOOL\<close> is a C \<^verbatim>\<open>int\<close>. Value (or counter), options, number of waiters, and for \<^verbatim>\<open>StatusEx\<close> the maximum.\<close>

definition SemaphoreBStatus :: "ulong \<Rightarrow> env \<Rightarrow> kernel \<Rightarrow> (ulong \<times> (u32 \<times> ulong \<times> u16) option \<times> env \<times> kernel) option" where
  "SemaphoreBStatus ulId = event_section OBJECT_SEM_B LW_TYPE_EVENT_SEMB ulId None
     (\<lambda>e k. Some (ERROR_NONE, Some (ucast (EVENT_ulCounter (K_eventBuffer k e)), EVENT_ulOption (K_eventBuffer k e),
        EventWaitNum EVENT_SEM_Q e k), k))"

definition SemaphoreCStatus :: "ulong \<Rightarrow> env \<Rightarrow> kernel \<Rightarrow> (ulong \<times> (ulong \<times> ulong \<times> u16) option \<times> env \<times> kernel) option" where
  "SemaphoreCStatus ulId = event_section OBJECT_SEM_C LW_TYPE_EVENT_SEMC ulId None
     (\<lambda>e k. Some (ERROR_NONE, Some (EVENT_ulCounter (K_eventBuffer k e), EVENT_ulOption (K_eventBuffer k e),
        EventWaitNum EVENT_SEM_Q e k), k))"

definition SemaphoreCStatusEx :: "ulong \<Rightarrow> env \<Rightarrow> kernel \<Rightarrow> (ulong \<times> (ulong \<times> ulong \<times> u16 \<times> ulong) option \<times> env \<times> kernel) option" where
  "SemaphoreCStatusEx ulId = event_section OBJECT_SEM_C LW_TYPE_EVENT_SEMC ulId None
     (\<lambda>e k. Some (ERROR_NONE, Some (EVENT_ulCounter (K_eventBuffer k e), EVENT_ulOption (K_eventBuffer k e),
        EventWaitNum EVENT_SEM_Q e k, EVENT_ulMaxCounter (K_eventBuffer k e)), k))"

definition SemaphoreBCreate :: "string option \<Rightarrow> u32 \<Rightarrow> ulong \<Rightarrow> env \<Rightarrow> kernel \<Rightarrow> (ulong \<times> env \<times> kernel) option" where
  "SemaphoreBCreate pcName bInitValue ulOption env k =
     (if CpuGetNesting k \<noteq> 0 then Some (LW_OBJECT_HANDLE_INVALID, env, ErrorHandle ERROR_KERNEL_IN_ISR k)
      else event_create OBJECT_SEM_B pcName
        (\<lambda>v. v\<lparr>EVENT_ucType := LW_TYPE_EVENT_SEMB, EVENT_ulCounter := scast bInitValue, EVENT_ulMaxCounter := 1,
           EVENT_ulOption := ulOption\<rparr>) env k)"

definition SemaphoreCCreate :: "string option \<Rightarrow> ulong \<Rightarrow> ulong \<Rightarrow> ulong \<Rightarrow> env \<Rightarrow> kernel \<Rightarrow> (ulong \<times> env \<times> kernel) option" where
  "SemaphoreCCreate pcName ulInitCounter ulMaxCounter ulOption env k =
     (if CpuGetNesting k \<noteq> 0 then Some (LW_OBJECT_HANDLE_INVALID, env, ErrorHandle ERROR_KERNEL_IN_ISR k)
      else if ulMaxCounter = 0 then Some (LW_OBJECT_HANDLE_INVALID, env, ErrorHandle ERROR_EVENT_MAX_COUNTER_NULL k)
      else if ulInitCounter > ulMaxCounter then Some (LW_OBJECT_HANDLE_INVALID, env, ErrorHandle ERROR_EVENT_INIT_COUNTER k)
      else event_create OBJECT_SEM_C pcName
        (\<lambda>v. v\<lparr>EVENT_ucType := LW_TYPE_EVENT_SEMC, EVENT_ulCounter := ulInitCounter, EVENT_ulMaxCounter := ulMaxCounter,
           EVENT_ulOption := ulOption\<rparr>) env k)"

end
