(* ===== verification/MsgQueue.thy ===== *)
theory MsgQueue
  imports Sem
begin

text \<open>
  Message queues (\<^verbatim>\<open>kernel/interface/MsgQueue*.c\<close>, \<^verbatim>\<open>kernel/list/listMsgQueue.c\<close>,
  \<^verbatim>\<open>_MsgQueueInit.c\<close>). The event of a queue counts the messages and has two wait queues, one for
  the receivers and one for the senders; \<^verbatim>\<open>EVENT_pvPtr\<close> names the queue's control block, here its
  index in \<^verbatim>\<open>_K_msgqueueBuffer\<close>. A message is passed as the bytes of the caller's buffer (\<open>None\<close>
  for a null pointer) and a length. A receiver's buffer and its length variable are passed with their
  contents and returned; while the receiver waits, they are found in its control block, where a
  sender writes them. The kernel heap is an argument of the creation.
\<close>

section \<open>The control blocks\<close>

definition Allocate_MsgQueue_Object :: "kernel \<Rightarrow> nat option \<times> kernel" where
  "Allocate_MsgQueue_Object k =
     (case RESRC_free (K_resrcMsgQueue k) of
        [] \<Rightarrow> (None, k)
      | pmsgqueueFree # pmonoFree \<Rightarrow>
          let r = (K_resrcMsgQueue k)\<lparr>RESRC_free := pmonoFree, RESRC_uiUsed := RESRC_uiUsed (K_resrcMsgQueue k) + 1\<rparr>;
              r = (if RESRC_uiUsed r > RESRC_uiMaxUsed r then r\<lparr>RESRC_uiMaxUsed := RESRC_uiUsed r\<rparr> else r)
          in (Some pmsgqueueFree, k\<lparr>K_resrcMsgQueue := r\<rparr>))"

definition Free_MsgQueue_Object :: "nat \<Rightarrow> kernel \<Rightarrow> kernel" where
  "Free_MsgQueue_Object pmsgqueue k = k\<lparr>K_resrcMsgQueue :=
     (K_resrcMsgQueue k)\<lparr>RESRC_free := RESRC_free (K_resrcMsgQueue k) @ [pmsgqueue], RESRC_uiUsed := RESRC_uiUsed (K_resrcMsgQueue k) - 1\<rparr>\<rparr>"

definition MsgQueueInit :: "kernel \<Rightarrow> kernel" where
  "MsgQueueInit k = k\<lparr>K_resrcMsgQueue := \<lparr>RESRC_free = [0..<LW_CFG_MAX_MSGQUEUES], RESRC_uiUsed = 0, RESRC_uiMaxUsed = 0\<rparr>\<rparr>"

definition mq_idx :: "kernel \<Rightarrow> nat \<Rightarrow> nat" where
  "mq_idx k pevent = unat (EVENT_pvPtr (K_eventBuffer k pevent))"

definition mq_of :: "kernel \<Rightarrow> nat \<Rightarrow> msgqueue" where
  "mq_of k pevent = K_msgqueueBuffer k (mq_idx k pevent)"

definition mq_set :: "nat \<Rightarrow> msgqueue \<Rightarrow> kernel \<Rightarrow> kernel" where
  "mq_set pevent mq k = k\<lparr>K_msgqueueBuffer := (K_msgqueueBuffer k)(mq_idx k pevent := mq)\<rparr>"

section \<open>The frame of a call\<close>

text \<open>As \<^const>\<open>event_section\<close>, with the queue's own error for a wrong type.\<close>

definition mq_section ::
  "ulong \<Rightarrow> 'a \<Rightarrow> (nat \<Rightarrow> kernel \<Rightarrow> (ulong \<times> 'a \<times> kernel) option) \<Rightarrow> env \<Rightarrow> kernel \<Rightarrow> (ulong \<times> 'a \<times> env \<times> kernel) option" where
  "mq_section ulId out body env k =
     (let usIndex = unat (ObjectGetIndex ulId) in
      if \<not> ObjectClassOK ulId OBJECT_MSGQUEUE then Some (ERROR_KERNEL_HANDLE_NULL, out, env, ErrorHandle ERROR_KERNEL_HANDLE_NULL k)
      else if Event_Index_Invalid usIndex then Some (ERROR_KERNEL_HANDLE_NULL, out, env, ErrorHandle ERROR_KERNEL_HANDLE_NULL k)
      else
        let k = kernelEnterIrq k in
        case (if Event_Type_Invalid usIndex LW_TYPE_EVENT_MSGQUEUE k then Some (ERROR_MSGQUEUE_TYPE, out, k) else body usIndex k) of
          None \<Rightarrow> None
        | Some (ulError, out, k) \<Rightarrow>
            (case kernelExitIrq env k of
               None \<Rightarrow> None
             | Some (_, env, k) \<Rightarrow> Some (ulError, out, env, ErrorHandle ulError k)))"

section \<open>Sending\<close>

text \<open>
  What a sender writes to the receiver it has taken off the queue: nothing but a zero length and size
  when the message does not fit and the receiver does not want it cut, and then the send is repeated.
\<close>

definition mq_deliver :: "u8 list \<Rightarrow> ulong \<Rightarrow> tid \<Rightarrow> kernel \<Rightarrow> bool \<times> kernel" where
  "mq_deliver pvMsgBuffer stMsgLen ptcb k =
     (let stMaxByteSize = TCB_stMaxByteSize (K_tcb k ptcb) in
      if stMsgLen > stMaxByteSize \<and> TCB_ulRecvOption (K_tcb k ptcb) AND LW_OPTION_NOERROR = 0 then
        (False, tcb_upd ptcb (\<lambda>b. b\<lparr>TCB_pstMsgByteSize := 0, TCB_stMaxByteSize := 0\<rparr>) k)
      else
        let stRealLen = (if stMsgLen < stMaxByteSize then stMsgLen else stMaxByteSize)
        in (True, tcb_upd ptcb (\<lambda>b. b\<lparr>TCB_pstMsgByteSize := stRealLen,
              TCB_pvMsgQueueMessage := memcpy (TCB_pvMsgQueueMessage b) pvMsgBuffer stRealLen\<rparr>) k))"

definition mq_wake_reader :: "u8 list \<Rightarrow> ulong \<Rightarrow> u8 \<Rightarrow> nat \<Rightarrow> kernel \<Rightarrow> bool \<times> kernel" where
  "mq_wake_reader pvMsgBuffer stMsgLen ucSchedActivate pevent k =
     (case ev_ready_low pevent EVENT_MSG_Q_R 0 k of
        (None, k) \<Rightarrow> (True, k)
      | (Some ptcb, k) \<Rightarrow>
          let (bSendOk, k) = mq_deliver pvMsgBuffer stMsgLen ptcb k
          in (bSendOk, EventReadyHighLevel ptcb LW_THREAD_STATUS_MSGQUEUE ucSchedActivate k))"

text \<open>The outcome of the part of a send that does not wait.\<close>

datatype sent = Sent | Resend | Bad_Prio | Full

definition mq_try_send :: "u8 list \<Rightarrow> ulong \<Rightarrow> nat \<Rightarrow> nat \<Rightarrow> kernel \<Rightarrow> sent \<times> kernel" where
  "mq_try_send pvMsgBuffer stMsgLen uiPrio pevent k =
     (if EventWaitNum EVENT_MSG_Q_R pevent k \<noteq> 0 then
        let (bSendOk, k) = mq_wake_reader pvMsgBuffer stMsgLen LW_SCHED_ACT_INTERRUPT pevent k
        in (if bSendOk then Sent else Resend, k)
      else if uiPrio > EVENT_MSG_Q_PRIO_LOW then (Bad_Prio, k)
      else if EVENT_ulCounter (K_eventBuffer k pevent) < EVENT_ulMaxCounter (K_eventBuffer k pevent) then
        let k = set_counter pevent (EVENT_ulCounter (K_eventBuffer k pevent) + 1) k
        in (case MsgQueuePut pvMsgBuffer stMsgLen uiPrio (mq_of k pevent) of
              None \<Rightarrow> (Sent, bug k)
            | Some mq \<Rightarrow> (Sent, mq_set pevent mq k))
      else (Full, k))"

text \<open>
  The loop from \<^verbatim>\<open>__re_send\<close>, of \<^verbatim>\<open>API_MsgQueueSend2\<close> (where the priority is the lowest one) and of
  the urgent branch of \<^verbatim>\<open>API_MsgQueueSendEx2\<close>.
\<close>

partial_function (option) mq_send ::
  "u8 list option \<Rightarrow> ulong \<Rightarrow> nat \<Rightarrow> ulong \<Rightarrow> ulong \<Rightarrow> env \<Rightarrow> kernel \<Rightarrow> (ulong \<times> env \<times> kernel) option" where
  [code]: "mq_send pvMsgBuffer stMsgLen uiPrio ulId ulTimeout env k =
     (let usIndex = unat (ObjectGetIndex ulId) in
      if pvMsgBuffer = None then Some (ERROR_MSGQUEUE_MSG_NULL, env, ErrorHandle ERROR_MSGQUEUE_MSG_NULL k)
      else if stMsgLen = 0 then Some (ERROR_MSGQUEUE_MSG_LEN, env, ErrorHandle ERROR_MSGQUEUE_MSG_LEN k)
      else if \<not> ObjectClassOK ulId OBJECT_MSGQUEUE then Some (ERROR_KERNEL_HANDLE_NULL, env, ErrorHandle ERROR_KERNEL_HANDLE_NULL k)
      else if Event_Index_Invalid usIndex then Some (ERROR_KERNEL_HANDLE_NULL, env, ErrorHandle ERROR_KERNEL_HANDLE_NULL k)
      else
        let k = kernelEnterIrq k in
        if Event_Type_Invalid usIndex LW_TYPE_EVENT_MSGQUEUE k then
          do { (_, env, k) \<leftarrow> kernelExitIrq env k; Some (ERROR_MSGQUEUE_TYPE, env, ErrorHandle ERROR_MSGQUEUE_TYPE k) }
        else if stMsgLen > MSGQUEUE_stMaxBytes (mq_of k usIndex) then
          do { (_, env, k) \<leftarrow> kernelExitIrq env k; Some (ERROR_MSGQUEUE_MSG_LEN, env, ErrorHandle ERROR_MSGQUEUE_MSG_LEN k) }
        else
          let (outcome, k) = mq_try_send (the pvMsgBuffer) stMsgLen uiPrio usIndex k in
          if outcome = Sent then do { (_, env, k) \<leftarrow> kernelExitIrq env k; Some (ERROR_NONE, env, k) }
          else if outcome = Resend then
            do { (_, env, k) \<leftarrow> kernelExit env k; mq_send pvMsgBuffer stMsgLen uiPrio ulId ulTimeout env k }
          else if outcome = Bad_Prio then
            do { (_, env, k) \<leftarrow> kernelExitIrq env k; Some (ERROR_MSGQUEUE_OPTION, env, ErrorHandle ERROR_MSGQUEUE_OPTION k) }
          else if ulTimeout = LW_OPTION_NOT_WAIT \<or> CpuGetNesting k \<noteq> 0 then
            do { (_, env, k) \<leftarrow> kernelExitIrq env k; Some (ERROR_MSGQUEUE_FULL, env, ErrorHandle ERROR_MSGQUEUE_FULL k) }
          else
            let ptcbCur = LW_TCB_GET_CUR k;
                ulTimeSave = K_i64KernelTime k;
                k = ev_block usIndex EVENT_MSG_Q_S LW_THREAD_STATUS_MSGQUEUE ulTimeout k;
                ulEventOption = EVENT_ulOption (K_eventBuffer k usIndex)
            in do {
              (iSchedRet, env, k) \<leftarrow> kernelExit env k;
              if iSchedRet \<noteq> 0 then
                if iSchedRet = LW_SIGNAL_EINTR \<and> ulEventOption AND LW_OPTION_SIGNAL_INTER \<noteq> 0 then
                  Some (EINTR, env, ErrorHandle EINTR k)
                else
                  let ulTimeout = sigTimeoutRecalc ulTimeSave ulTimeout k in
                  if ulTimeout = LW_OPTION_NOT_WAIT then
                    Some (ERROR_THREAD_WAIT_TIMEOUT, env, ErrorHandle ERROR_THREAD_WAIT_TIMEOUT k)
                  else mq_send pvMsgBuffer stMsgLen uiPrio ulId ulTimeout env k
              else if TCB_ucWaitTimeout (K_tcb k ptcbCur) = LW_WAIT_TIME_OUT then
                Some (ERROR_THREAD_WAIT_TIMEOUT, env, ErrorHandle ERROR_THREAD_WAIT_TIMEOUT k)
              else if TCB_ucIsEventDelete (K_tcb k ptcbCur) = LW_EVENT_EXIST then
                mq_send pvMsgBuffer stMsgLen uiPrio ulId ulTimeout env k
              else Some (ERROR_MSGQUEUE_WAS_DELETED, env, ErrorHandle ERROR_MSGQUEUE_WAS_DELETED k) })"

definition MsgQueueSend2 :: "ulong \<Rightarrow> u8 list option \<Rightarrow> ulong \<Rightarrow> ulong \<Rightarrow> env \<Rightarrow> kernel \<Rightarrow> (ulong \<times> env \<times> kernel) option" where
  "MsgQueueSend2 ulId pvMsgBuffer stMsgLen ulTimeout = mq_send pvMsgBuffer stMsgLen EVENT_MSG_Q_PRIO_LOW ulId ulTimeout"

definition MsgQueueSend :: "ulong \<Rightarrow> u8 list option \<Rightarrow> ulong \<Rightarrow> env \<Rightarrow> kernel \<Rightarrow> (ulong \<times> env \<times> kernel) option" where
  "MsgQueueSend ulId pvMsgBuffer stMsgLen = MsgQueueSend2 ulId pvMsgBuffer stMsgLen LW_OPTION_NOT_WAIT"

text \<open>The broadcast: every waiting receiver gets the message, and none is buffered.\<close>

partial_function (option) mq_broadcast :: "u8 list \<Rightarrow> ulong \<Rightarrow> nat \<Rightarrow> kernel \<Rightarrow> kernel option" where
  [code]: "mq_broadcast pvMsgBuffer stMsgLen pevent k =
     (if EventWaitNum EVENT_MSG_Q_R pevent k = 0 then Some k
      else mq_broadcast pvMsgBuffer stMsgLen pevent (snd (mq_wake_reader pvMsgBuffer stMsgLen LW_SCHED_ACT_OTHER pevent k)))"

definition mq_sendEx_other :: "u8 list \<Rightarrow> ulong \<Rightarrow> ulong \<Rightarrow> nat \<Rightarrow> kernel \<Rightarrow> (ulong \<times> unit \<times> kernel) option" where
  "mq_sendEx_other pvMsgBuffer stMsgLen ulOption pevent k =
     (if stMsgLen > MSGQUEUE_stMaxBytes (mq_of k pevent) then Some (ERROR_MSGQUEUE_MSG_LEN, (), k)
      else if ulOption AND LW_OPTION_BROADCAST \<noteq> 0 then
        map_option (\<lambda>k. (ERROR_NONE, (), k)) (mq_broadcast pvMsgBuffer stMsgLen pevent k)
      else Some (ERROR_MSGQUEUE_OPTION, (), k))"

definition MsgQueueSendEx2 ::
  "ulong \<Rightarrow> u8 list option \<Rightarrow> ulong \<Rightarrow> ulong \<Rightarrow> ulong \<Rightarrow> env \<Rightarrow> kernel \<Rightarrow> (ulong \<times> env \<times> kernel) option" where
  "MsgQueueSendEx2 ulId pvMsgBuffer stMsgLen ulTimeout ulOption env k =
     (if ulOption = LW_OPTION_DEFAULT then MsgQueueSend2 ulId pvMsgBuffer stMsgLen ulTimeout env k
      else if ulOption AND LW_OPTION_URGENT \<noteq> 0 then
        mq_send pvMsgBuffer stMsgLen (unat (drop_bit 4 ulOption AND 0xf)) ulId ulTimeout env k
      else (case pvMsgBuffer of
              None \<Rightarrow> Some (ERROR_MSGQUEUE_MSG_NULL, env, ErrorHandle ERROR_MSGQUEUE_MSG_NULL k)
            | Some buf \<Rightarrow>
                if stMsgLen = 0 then Some (ERROR_MSGQUEUE_MSG_LEN, env, ErrorHandle ERROR_MSGQUEUE_MSG_LEN k)
                else drop_out (mq_section ulId () (mq_sendEx_other buf stMsgLen ulOption) env k)))"

definition MsgQueueSendEx :: "ulong \<Rightarrow> u8 list option \<Rightarrow> ulong \<Rightarrow> ulong \<Rightarrow> env \<Rightarrow> kernel \<Rightarrow> (ulong \<times> env \<times> kernel) option" where
  "MsgQueueSendEx ulId pvMsgBuffer stMsgLen ulOption = MsgQueueSendEx2 ulId pvMsgBuffer stMsgLen LW_OPTION_NOT_WAIT ulOption"

section \<open>Receiving\<close>

text \<open>Take the first message and let the first waiting sender go on: the buffer, the length, the kernel.\<close>

definition mq_take :: "ulong \<Rightarrow> u8 list \<Rightarrow> ulong \<Rightarrow> nat \<Rightarrow> kernel \<Rightarrow> (u8 list \<times> ulong) \<times> kernel" where
  "mq_take stMaxByteSize pvMsgBuffer pstMsgLen pevent k =
     (let k = set_counter pevent (EVENT_ulCounter (K_eventBuffer k pevent) - 1) k in
      case MsgQueueGet stMaxByteSize (mq_of k pevent) of
        None \<Rightarrow> ((pvMsgBuffer, pstMsgLen), bug k)
      | Some (msg, stMsgLen, mq) \<Rightarrow>
          let k = mq_set pevent mq k;
              k = (if EventWaitNum EVENT_MSG_Q_S pevent k \<noteq> 0
                   then snd (ev_wake pevent EVENT_MSG_Q_S 0 False LW_THREAD_STATUS_MSGQUEUE LW_SCHED_ACT_INTERRUPT k) else k)
          in ((memcpy pvMsgBuffer msg stMsgLen, stMsgLen), k))"

text \<open>
  The loop from \<^verbatim>\<open>__wait_again\<close>; \<open>ex\<close> says whether it is that of \<^verbatim>\<open>API_MsgQueueReceiveEx\<close>, which
  refuses a message that does not fit unless the option \<^verbatim>\<open>LW_OPTION_NOERROR\<close> is given.
\<close>

definition mq_too_big :: "bool \<Rightarrow> ulong \<Rightarrow> ulong \<Rightarrow> nat \<Rightarrow> kernel \<Rightarrow> bool" where
  "mq_too_big ex ulOption stMaxByteSize pevent k \<longleftrightarrow> ex \<and> ulOption AND LW_OPTION_NOERROR = 0 \<and>
     (case MsgQueueMsgLen (mq_of k pevent) of None \<Rightarrow> False | Some stMsgLenInBuffer \<Rightarrow> stMsgLenInBuffer > stMaxByteSize)"

definition mq_recv_block :: "tid \<Rightarrow> ulong \<Rightarrow> u8 list \<Rightarrow> ulong \<Rightarrow> ulong \<Rightarrow> nat \<Rightarrow> kernel \<Rightarrow> kernel" where
  "mq_recv_block ptcbCur stMaxByteSize pvMsgBuffer pstMsgLen ulTimeout pevent k =
     (let k = tcb_upd ptcbCur (\<lambda>b. b\<lparr>TCB_pstMsgByteSize := pstMsgLen, TCB_stMaxByteSize := stMaxByteSize, TCB_pvMsgQueueMessage := pvMsgBuffer\<rparr>) k
      in ev_block pevent EVENT_MSG_Q_R LW_THREAD_STATUS_MSGQUEUE ulTimeout k)"

definition mq_recv_result :: "bool \<Rightarrow> tid \<Rightarrow> kernel \<Rightarrow> ulong" where
  "mq_recv_result ex ptcbCur k =
     (if TCB_ucWaitTimeout (K_tcb k ptcbCur) = LW_WAIT_TIME_OUT then ERROR_THREAD_WAIT_TIMEOUT
      else if TCB_ucIsEventDelete (K_tcb k ptcbCur) = LW_EVENT_EXIST then
        (if ex \<and> TCB_pstMsgByteSize (K_tcb k ptcbCur) = 0 \<and> TCB_stMaxByteSize (K_tcb k ptcbCur) = 0 then E2BIG else ERROR_NONE)
      else ERROR_MSGQUEUE_WAS_DELETED)"

definition recv_vars :: "tid \<Rightarrow> kernel \<Rightarrow> u8 list \<times> ulong" where
  "recv_vars ptcbCur k = (TCB_pvMsgQueueMessage (K_tcb k ptcbCur), TCB_pstMsgByteSize (K_tcb k ptcbCur))"

partial_function (option) mq_receive ::
  "bool \<Rightarrow> ulong \<Rightarrow> tid \<Rightarrow> ulong \<Rightarrow> ulong \<Rightarrow> u8 list option \<Rightarrow> ulong \<Rightarrow> ulong \<Rightarrow> env \<Rightarrow> kernel \<Rightarrow>
     (ulong \<times> (u8 list option \<times> ulong) \<times> env \<times> kernel) option" where
  [code]: "mq_receive ex ulOption ptcbCur ulId stMaxByteSize pvMsgBuffer pstMsgLen ulTimeout env k =
     (let usIndex = unat (ObjectGetIndex ulId); out = (pvMsgBuffer, pstMsgLen) in
      if pvMsgBuffer = None \<or> stMaxByteSize = 0 then Some (ERROR_MSGQUEUE_MSG_NULL, out, env, ErrorHandle ERROR_MSGQUEUE_MSG_NULL k)
      else if \<not> ObjectClassOK ulId OBJECT_MSGQUEUE then Some (ERROR_KERNEL_HANDLE_NULL, out, env, ErrorHandle ERROR_KERNEL_HANDLE_NULL k)
      else if Event_Index_Invalid usIndex then Some (ERROR_KERNEL_HANDLE_NULL, out, env, ErrorHandle ERROR_KERNEL_HANDLE_NULL k)
      else
        let k = kernelEnterIrq k in
        if Event_Type_Invalid usIndex LW_TYPE_EVENT_MSGQUEUE k then
          do { (_, env, k) \<leftarrow> kernelExitIrq env k; Some (ERROR_MSGQUEUE_TYPE, out, env, ErrorHandle ERROR_MSGQUEUE_TYPE k) }
        else
          let k = tcb_upd ptcbCur (\<lambda>b. b\<lparr>TCB_ulRecvOption := ulOption\<rparr>) k in
          if EVENT_ulCounter (K_eventBuffer k usIndex) \<noteq> 0 then
            if mq_too_big ex ulOption stMaxByteSize usIndex k then
              do { (_, env, k) \<leftarrow> kernelExitIrq env k; Some (E2BIG, out, env, ErrorHandle E2BIG k) }
            else
              let ((buf, len), k) = mq_take stMaxByteSize (the pvMsgBuffer) pstMsgLen usIndex k
              in do { (_, env, k) \<leftarrow> kernelExitIrq env k; Some (ERROR_NONE, (Some buf, len), env, k) }
          else if ulTimeout = LW_OPTION_NOT_WAIT then
            do { (_, env, k) \<leftarrow> kernelExitIrq env k; Some (ERROR_THREAD_WAIT_TIMEOUT, out, env, ErrorHandle ERROR_THREAD_WAIT_TIMEOUT k) }
          else
            let ulTimeSave = K_i64KernelTime k;
                k = mq_recv_block ptcbCur stMaxByteSize (the pvMsgBuffer) pstMsgLen ulTimeout usIndex k;
                ulEventOption = EVENT_ulOption (K_eventBuffer k usIndex)
            in do {
              (iSchedRet, env, k) \<leftarrow> kernelExit env k;
              let (buf, len) = recv_vars ptcbCur k;
              if iSchedRet \<noteq> 0 then
                if iSchedRet = LW_SIGNAL_EINTR \<and> ulEventOption AND LW_OPTION_SIGNAL_INTER \<noteq> 0 then
                  Some (EINTR, (Some buf, len), env, ErrorHandle EINTR k)
                else
                  let ulTimeout = sigTimeoutRecalc ulTimeSave ulTimeout k in
                  if ulTimeout = LW_OPTION_NOT_WAIT then
                    Some (ERROR_THREAD_WAIT_TIMEOUT, (Some buf, len), env, ErrorHandle ERROR_THREAD_WAIT_TIMEOUT k)
                  else mq_receive ex ulOption ptcbCur ulId stMaxByteSize (Some buf) len ulTimeout env k
              else
                let ulError = mq_recv_result ex ptcbCur k
                in Some (ulError, (Some buf, len), env, ErrorHandle ulError k) })"

definition mq_receive_api ::
  "bool \<Rightarrow> ulong \<Rightarrow> ulong \<Rightarrow> u8 list option \<Rightarrow> ulong \<Rightarrow> ulong \<Rightarrow> ulong \<Rightarrow> env \<Rightarrow> kernel \<Rightarrow>
     (ulong \<times> (u8 list option \<times> ulong) \<times> env \<times> kernel) option" where
  "mq_receive_api ex ulOption ulId pvMsgBuffer stMaxByteSize pstMsgLen ulTimeout env k =
     (if CpuGetNesting k \<noteq> 0 then Some (ERROR_KERNEL_IN_ISR, (pvMsgBuffer, pstMsgLen), env, ErrorHandle ERROR_KERNEL_IN_ISR k)
      else mq_receive ex ulOption (LW_TCB_GET_CUR k) ulId stMaxByteSize pvMsgBuffer pstMsgLen ulTimeout env k)"

definition MsgQueueReceive ::
  "ulong \<Rightarrow> u8 list option \<Rightarrow> ulong \<Rightarrow> ulong \<Rightarrow> ulong \<Rightarrow> env \<Rightarrow> kernel \<Rightarrow> (ulong \<times> (u8 list option \<times> ulong) \<times> env \<times> kernel) option" where
  "MsgQueueReceive ulId pvMsgBuffer stMaxByteSize pstMsgLen ulTimeout =
     mq_receive_api False LW_OPTION_NOERROR ulId pvMsgBuffer stMaxByteSize pstMsgLen ulTimeout"

definition MsgQueueReceiveEx ::
  "ulong \<Rightarrow> u8 list option \<Rightarrow> ulong \<Rightarrow> ulong \<Rightarrow> ulong \<Rightarrow> ulong \<Rightarrow> env \<Rightarrow> kernel \<Rightarrow> (ulong \<times> (u8 list option \<times> ulong) \<times> env \<times> kernel) option" where
  "MsgQueueReceiveEx ulId pvMsgBuffer stMaxByteSize pstMsgLen ulTimeout ulOption =
     mq_receive_api True ulOption ulId pvMsgBuffer stMaxByteSize pstMsgLen ulTimeout"

definition MsgQueueTryReceive ::
  "ulong \<Rightarrow> u8 list option \<Rightarrow> ulong \<Rightarrow> ulong \<Rightarrow> env \<Rightarrow> kernel \<Rightarrow> (ulong \<times> (u8 list option \<times> ulong) \<times> env \<times> kernel) option" where
  "MsgQueueTryReceive ulId pvMsgBuffer stMaxByteSize pstMsgLen env k =
     (case pvMsgBuffer of
        None \<Rightarrow> Some (ERROR_MSGQUEUE_MSG_NULL, (None, pstMsgLen), env, ErrorHandle ERROR_MSGQUEUE_MSG_NULL k)
      | Some buf \<Rightarrow> mq_section ulId (Some buf, pstMsgLen)
          (\<lambda>e k. if EVENT_ulCounter (K_eventBuffer k e) \<noteq> 0 then
               let ((buf, len), k) = mq_take stMaxByteSize buf pstMsgLen e k in Some (ERROR_NONE, (Some buf, len), k)
             else Some (ERROR_THREAD_WAIT_TIMEOUT, (Some buf, pstMsgLen), k)) env k)"

section \<open>The other calls\<close>

definition mq_clear :: "nat \<Rightarrow> kernel \<Rightarrow> (ulong \<times> unit \<times> kernel) option" where
  "mq_clear pevent k =
     (let k = mq_set pevent (MsgQueueClear (EVENT_ulMaxCounter (K_eventBuffer k pevent)) (mq_of k pevent)) k;
          k = set_counter pevent 0 k
      in map_option (\<lambda>k. (ERROR_NONE, (), k)) (ev_wake_all pevent EVENT_MSG_Q_S False LW_THREAD_STATUS_MSGQUEUE LW_SCHED_ACT_OTHER k))"

definition MsgQueueClearApi :: "ulong \<Rightarrow> env \<Rightarrow> kernel \<Rightarrow> (ulong \<times> unit \<times> env \<times> kernel) option" where
  "MsgQueueClearApi ulId = mq_section ulId () mq_clear"

definition mq_flush_send :: "nat \<Rightarrow> kernel \<Rightarrow> (ulong \<times> ulong \<times> kernel) option" where
  "mq_flush_send pevent k =
     (let n = ucast (EventWaitNum EVENT_MSG_Q_S pevent k) in
      map_option (\<lambda>k. (ERROR_NONE, n, k)) (ev_wake_all pevent EVENT_MSG_Q_S False LW_THREAD_STATUS_MSGQUEUE LW_SCHED_ACT_OTHER k))"

text \<open>A flushed receiver finds the length zero.\<close>

definition mq_flush_one :: "nat \<Rightarrow> kernel \<Rightarrow> kernel" where
  "mq_flush_one pevent k =
     (case ev_ready_low pevent EVENT_MSG_Q_R 0 k of
        (None, k) \<Rightarrow> k
      | (Some ptcb, k) \<Rightarrow>
          EventReadyHighLevel ptcb LW_THREAD_STATUS_MSGQUEUE LW_SCHED_ACT_OTHER (tcb_upd ptcb (\<lambda>b. b\<lparr>TCB_pstMsgByteSize := 0\<rparr>) k))"

partial_function (option) mq_flush_readers :: "nat \<Rightarrow> kernel \<Rightarrow> kernel option" where
  [code]: "mq_flush_readers pevent k =
     (if EventWaitNum EVENT_MSG_Q_R pevent k = 0 then Some k else mq_flush_readers pevent (mq_flush_one pevent k))"

definition mq_flush_receive :: "nat \<Rightarrow> kernel \<Rightarrow> (ulong \<times> ulong \<times> kernel) option" where
  "mq_flush_receive pevent k =
     (let n = ucast (EventWaitNum EVENT_MSG_Q_R pevent k) in map_option (\<lambda>k. (ERROR_NONE, n, k)) (mq_flush_readers pevent k))"

definition MsgQueueFlushSend :: "ulong \<Rightarrow> ulong \<Rightarrow> env \<Rightarrow> kernel \<Rightarrow> (ulong \<times> ulong \<times> env \<times> kernel) option" where
  "MsgQueueFlushSend ulId pulThreadUnblockNum = mq_section ulId pulThreadUnblockNum mq_flush_send"

definition MsgQueueFlushReceive :: "ulong \<Rightarrow> ulong \<Rightarrow> env \<Rightarrow> kernel \<Rightarrow> (ulong \<times> ulong \<times> env \<times> kernel) option" where
  "MsgQueueFlushReceive ulId pulThreadUnblockNum = mq_section ulId pulThreadUnblockNum mq_flush_receive"

definition MsgQueueFlush :: "ulong \<Rightarrow> ulong \<Rightarrow> env \<Rightarrow> kernel \<Rightarrow> (ulong \<times> ulong \<times> env \<times> kernel) option" where
  "MsgQueueFlush ulId pulThreadUnblockNum env k = do {
     (ulError, ulSend, env, k) \<leftarrow> MsgQueueFlushSend ulId 0 env k;
     if ulError \<noteq> 0 then Some (ulError, pulThreadUnblockNum, env, k)
     else do {
       (ulError, ulReceive, env, k) \<leftarrow> MsgQueueFlushReceive ulId 0 env k;
       if ulError \<noteq> 0 then Some (ulError, pulThreadUnblockNum, env, k)
       else Some (ERROR_NONE, ulSend + ulReceive, env, k) } }"

text \<open>
  The deletion also tells what is left to free: the cleared handle and \<^verbatim>\<open>pvFreeLowAddr\<close>, the address
  that is handed to \<^verbatim>\<open>__KHEAP_FREE\<close> after the kernel has been left (nothing on an error).
\<close>

definition mq_delete :: "nat \<Rightarrow> kernel \<Rightarrow> (ulong \<times> (ulong \<times> ulong option) \<times> kernel) option" where
  "mq_delete pevent k = do {
     let k = event_upd pevent (\<lambda>e. e\<lparr>EVENT_ucType := LW_TYPE_EVENT_UNUSED\<rparr>) k;
     k \<leftarrow> ev_wake_all pevent EVENT_MSG_Q_R True LW_THREAD_STATUS_MSGQUEUE LW_SCHED_ACT_OTHER k;
     k \<leftarrow> ev_wake_all pevent EVENT_MSG_Q_S True LW_THREAD_STATUS_MSGQUEUE LW_SCHED_ACT_OTHER k;
     let k = event_upd pevent (\<lambda>e. e\<lparr>EVENT_pvTcbOwn := None\<rparr>) k;
     let pmsgqueue = mq_idx k pevent;
     let pvFreeLowAddr = MSGQUEUE_pvBuffer (K_msgqueueBuffer k pmsgqueue);
     let k = Free_Event_Object pevent k;
     Some (ERROR_NONE, (0, Some pvFreeLowAddr), Free_MsgQueue_Object pmsgqueue k) }"

definition MsgQueueDelete :: "ulong \<Rightarrow> env \<Rightarrow> kernel \<Rightarrow> (ulong \<times> (ulong \<times> ulong option) \<times> env \<times> kernel) option" where
  "MsgQueueDelete pulId env k =
     (if CpuGetNesting k \<noteq> 0 then Some (ERROR_KERNEL_IN_ISR, (pulId, None), env, ErrorHandle ERROR_KERNEL_IN_ISR k)
      else mq_section pulId (pulId, None) mq_delete env k)"

text \<open>Maximum, counter, length of the first message, options, waiting threads; for \<^verbatim>\<open>StatusEx\<close> also the maximal length.\<close>

definition mq_status :: "nat \<Rightarrow> kernel \<Rightarrow> (ulong \<times> (ulong \<times> ulong \<times> ulong \<times> ulong \<times> ulong \<times> ulong) option \<times> kernel) option" where
  "mq_status pevent k =
     (let v = K_eventBuffer k pevent;
          stMsgLen = (if EVENT_ulCounter v \<noteq> 0 then MsgQueueMsgLen (mq_of k pevent) else Some 0);
          n = ucast (EventWaitNum EVENT_MSG_Q_R pevent k) + ucast (EventWaitNum EVENT_MSG_Q_S pevent k)
      in case stMsgLen of
           None \<Rightarrow> Some (ERROR_NONE, None, bug k)
         | Some len \<Rightarrow> Some (ERROR_NONE,
             Some (EVENT_ulMaxCounter v, EVENT_ulCounter v, len, EVENT_ulOption v, n, MSGQUEUE_stMaxBytes (mq_of k pevent)), k))"

definition MsgQueueStatusEx ::
  "ulong \<Rightarrow> env \<Rightarrow> kernel \<Rightarrow> (ulong \<times> (ulong \<times> ulong \<times> ulong \<times> ulong \<times> ulong \<times> ulong) option \<times> env \<times> kernel) option" where
  "MsgQueueStatusEx ulId = mq_section ulId None mq_status"

definition MsgQueueStatus ::
  "ulong \<Rightarrow> env \<Rightarrow> kernel \<Rightarrow> (ulong \<times> (ulong \<times> ulong \<times> ulong \<times> ulong \<times> ulong) option \<times> env \<times> kernel) option" where
  "MsgQueueStatus ulId env k = map_option (\<lambda>(r, out, env, k). (r, map_option (\<lambda>(m, c, l, opt, n, _). (m, c, l, opt, n)) out, env, k))
     (mq_section ulId None mq_status env k)"

definition MsgQueueGetName :: "ulong \<Rightarrow> bool \<Rightarrow> env \<Rightarrow> kernel \<Rightarrow> (ulong \<times> string option \<times> env \<times> kernel) option" where
  "MsgQueueGetName ulId pcName env k =
     (let usIndex = unat (ObjectGetIndex ulId) in
      if CpuGetNesting k \<noteq> 0 then Some (ERROR_KERNEL_IN_ISR, None, env, ErrorHandle ERROR_KERNEL_IN_ISR k)
      else if \<not> pcName then Some (ERROR_KERNEL_PNAME_NULL, None, env, ErrorHandle ERROR_KERNEL_PNAME_NULL k)
      else if Event_Index_Invalid usIndex then Some (ERROR_KERNEL_HANDLE_NULL, None, env, ErrorHandle ERROR_KERNEL_HANDLE_NULL k)
      else
        let k = kernelEnter k in
        if EVENT_ucType (K_eventBuffer k usIndex) \<noteq> LW_TYPE_EVENT_MSGQUEUE then
          map_option (\<lambda>(_, env, k). (ERROR_MSGQUEUE_TYPE, None, env, ErrorHandle ERROR_MSGQUEUE_TYPE k)) (kernelExit env k)
        else
          let name = EVENT_cEventName (K_eventBuffer k usIndex)
          in map_option (\<lambda>(_, env, k). (ERROR_NONE, Some name, env, k)) (kernelExit env k))"

text \<open>The number of bytes the creation asks the kernel heap for.\<close>

definition mq_heap_bytes :: "ulong \<Rightarrow> ulong \<Rightarrow> ulong" where
  "mq_heap_bytes ulMaxMsgCounter stMaxMsgByteSize =
     (let stMaxMsgByteSizeReal = ROUND_UP stMaxMsgByteSize sizeof_size_t + sizeof_MSGNODE
      in ulMaxMsgCounter * stMaxMsgByteSizeReal)"

text \<open>\<^verbatim>\<open>__KERNEL_MODE_PROC\<close> around an operation with a result.\<close>

definition kernel_mode_proc :: "(kernel \<Rightarrow> 'a \<times> kernel) \<Rightarrow> env \<Rightarrow> kernel \<Rightarrow> ('a \<times> env \<times> kernel) option" where
  "kernel_mode_proc f env k = (let (x, k) = f (kernelEnter k) in map_option (\<lambda>(_, env, k). (x, env, k)) (kernelExit env k))"

definition mq_setup :: "string option \<Rightarrow> ulong \<Rightarrow> ulong \<Rightarrow> ulong \<Rightarrow> ulong \<Rightarrow> nat \<Rightarrow> nat \<Rightarrow> kernel \<Rightarrow> kernel" where
  "mq_setup pcName ulMaxMsgCounter stMaxMsgByteSize ulOption pvMemAllocate pmsgqueue pevent k =
     (let k = event_upd pevent (\<lambda>v. v\<lparr>EVENT_cEventName := (case pcName of Some s \<Rightarrow> s | None \<Rightarrow> [])\<rparr>) k;
          mq = (K_msgqueueBuffer k pmsgqueue)\<lparr>MSGQUEUE_pvBuffer := pvMemAllocate, MSGQUEUE_stMaxBytes := stMaxMsgByteSize\<rparr>;
          k = k\<lparr>K_msgqueueBuffer := (K_msgqueueBuffer k)(pmsgqueue := MsgQueueClear ulMaxMsgCounter mq)\<rparr>
      in event_upd pevent (\<lambda>v. v\<lparr>EVENT_ucType := LW_TYPE_EVENT_MSGQUEUE, EVENT_pvTcbOwn := None, EVENT_ulCounter := 0,
           EVENT_ulMaxCounter := ulMaxMsgCounter, EVENT_ulOption := ulOption, EVENT_pvPtr := of_nat pmsgqueue,
           EVENT_wqWaitQ := (\<lambda>q. if q < 2 then (EVENT_wqWaitQ v q)\<lparr>WQ_usNum := 0,
                  WL_pring := (\<lambda>i. if i < EVENT_Q_SIZE then [] else WL_pring (EVENT_wqWaitQ v q) i)\<rparr>
                else EVENT_wqWaitQ v q)\<rparr>) k)"

definition MsgQueueCreate ::
  "(ulong \<Rightarrow> ulong option) \<Rightarrow> string option \<Rightarrow> ulong \<Rightarrow> ulong \<Rightarrow> ulong \<Rightarrow> env \<Rightarrow> kernel \<Rightarrow> (ulong \<times> env \<times> kernel) option" where
  "MsgQueueCreate kheap_alloc pcName ulMaxMsgCounter stMaxMsgByteSize ulOption env k =
     (if CpuGetNesting k \<noteq> 0 then Some (LW_OBJECT_HANDLE_INVALID, env, ErrorHandle ERROR_KERNEL_IN_ISR k)
      else if ulMaxMsgCounter = 0 then Some (LW_OBJECT_HANDLE_INVALID, env, ErrorHandle ERROR_MSGQUEUE_MAX_COUNTER_NULL k)
      else if stMaxMsgByteSize = 0 then Some (LW_OBJECT_HANDLE_INVALID, env, ErrorHandle ERROR_MSGQUEUE_MAX_LEN_NULL k)
      else if Object_Name_Invalid pcName then Some (LW_OBJECT_HANDLE_INVALID, env, ErrorHandle ERROR_KERNEL_PNAME_TOO_LONG k)
      else do {
        (pmsgqueue, env, k) \<leftarrow> kernel_mode_proc Allocate_MsgQueue_Object env k;
        (case pmsgqueue of
           None \<Rightarrow> Some (LW_OBJECT_HANDLE_INVALID, env, ErrorHandle ERROR_MSGQUEUE_FULL k)
         | Some pmsgqueue \<Rightarrow> do {
             (pevent, env, k) \<leftarrow> kernel_mode_proc Allocate_Event_Object env k;
             (case pevent of
                None \<Rightarrow> do {
                  (_, env, k) \<leftarrow> kernel_mode_proc (\<lambda>k. ((), Free_MsgQueue_Object pmsgqueue k)) env k;
                  Some (LW_OBJECT_HANDLE_INVALID, env, ErrorHandle ERROR_KERNEL_LOW_MEMORY k) }
              | Some pevent \<Rightarrow>
                  (case kheap_alloc (mq_heap_bytes ulMaxMsgCounter stMaxMsgByteSize) of
                     None \<Rightarrow> do {
                       (_, env, k) \<leftarrow> kernel_mode_proc (\<lambda>k. ((), Free_Event_Object pevent (Free_MsgQueue_Object pmsgqueue k))) env k;
                       Some (LW_OBJECT_HANDLE_INVALID, env, ErrorHandle ERROR_KERNEL_LOW_MEMORY k) }
                   | Some pvMemAllocate \<Rightarrow>
                       let k = mq_setup pcName ulMaxMsgCounter stMaxMsgByteSize ulOption pvMemAllocate pmsgqueue pevent k
                       in Some (MakeObjectId OBJECT_MSGQUEUE LW_CFG_PROCESSOR_NUMBER (EVENT_usIndex (K_eventBuffer k pevent)), env, k))) }) })"

end
