(* ===== verification/Ready.thy ===== *)
theory Ready
  imports EventOps
begin

text \<open>
  Changes of a thread's status outside the event queues: a thread that stops being ready leaves the
  ready tables, a thread whose last reason not to run goes away enters them. The lemmas say once for
  all callers (suspension, requests between processors, resumption) that this keeps the
  invariant of the kernel.
\<close>

section \<open>Updates the queues and the delay line do not see\<close>

text \<open>What the tables, the delay line and the wait queues read of a control block.\<close>

definition iview :: "tcb \<Rightarrow> (bool \<times> nat \<times> u8 \<times> bool \<times> nat) \<times> (ulong \<times> bool \<times> u16) \<times> nat option \<times> nat \<times> (nat \<times> nat) \<times> u8" where
  "iview b = (tview b, (TCB_ulDelay b, TCB_bDelayInQ b, TCB_usStatus b AND LW_THREAD_STATUS_DELAY),
     TCB_peventPtr b, TCB_iPendQ b, TCB_ppringPriorityQueue b, TCB_ucWaitTimeout b)"

definition pend_bit :: "tcb \<Rightarrow> bool" where
  "pend_bit b \<longleftrightarrow> TCB_usStatus b AND LW_THREAD_STATUS_PEND_ANY \<noteq> 0"

text \<open>An update is quiet when it changes none of this, and the pending bits of no waiting thread.\<close>

definition quiet :: "(tcb \<Rightarrow> tcb) \<Rightarrow> bool" where
  "quiet f \<longleftrightarrow> (\<forall>b. iview (f b) = iview b \<and> (TCB_peventPtr b \<noteq> None \<longrightarrow> pend_bit (f b) = pend_bit b))"

lemmas quiet_defs = quiet_def iview_def tview_def pend_bit_def

lemma quietD:
  assumes "quiet f"
  shows "tview (f b) = tview b" "TCB_ulDelay (f b) = TCB_ulDelay b" "TCB_bDelayInQ (f b) = TCB_bDelayInQ b"
    "TCB_usStatus (f b) AND LW_THREAD_STATUS_DELAY = TCB_usStatus b AND LW_THREAD_STATUS_DELAY"
    "TCB_peventPtr (f b) = TCB_peventPtr b" "TCB_iPendQ (f b) = TCB_iPendQ b"
    "TCB_ppringPriorityQueue (f b) = TCB_ppringPriorityQueue b" "TCB_ucWaitTimeout (f b) = TCB_ucWaitTimeout b"
    "TCB_peventPtr b \<noteq> None \<Longrightarrow> pend_bit (f b) = pend_bit b"
  using assms unfolding quiet_def iview_def by blast+

lemma quiet_comp: "quiet f \<Longrightarrow> quiet g \<Longrightarrow> quiet (\<lambda>b. g (f b))"
  unfolding quiet_def by (simp add: iview_def)

lemma wait_ok_quiet:
  assumes ok: "wait_ok T k" and q: "\<And>e. by_prio k' e = by_prio k e" "\<And>e q. wq k' e q = wq k e q"
    and v: "\<And>u. TCB_peventPtr (K_tcb k' u) = TCB_peventPtr (K_tcb k u)" "\<And>u. TCB_iPendQ (K_tcb k' u) = TCB_iPendQ (K_tcb k u)"
      "\<And>u. TCB_ppringPriorityQueue (K_tcb k' u) = TCB_ppringPriorityQueue (K_tcb k u)"
      "\<And>u. TCB_ucWaitTimeout (K_tcb k' u) = TCB_ucWaitTimeout (K_tcb k u)"
      "\<And>u. TCB_peventPtr (K_tcb k u) \<noteq> None \<Longrightarrow> pending k' u = pending k u"
  shows "wait_ok T k'"
  using ok v(5) unfolding wait_ok_def waiters_def waits_in_def q v(1-4) by blast

lemma quiet_frame:
  assumes "quiet f"
  shows "wait_ok T k \<Longrightarrow> wait_ok T (tcb_upd t f k)" "delay_ok k \<Longrightarrow> delay_ok (tcb_upd t f k)"
    "due (tcb_upd t f k) = due k" "dline (tcb_upd t f k) = dline k" "sview (tcb_upd t f k) = sview k"
proof -
  note Q = quietD [OF assms]
  show "wait_ok T k \<Longrightarrow> wait_ok T (tcb_upd t f k)"
    by (erule wait_ok_quiet) (use Q(9) in \<open>auto simp: Q(1-8) pending_def pend_bit_def\<close>)
  show l: "dline (tcb_upd t f k) = dline k" by (simp add: dline_def)
  have n: "delay_nodes (tcb_upd t f k) = delay_nodes k" using Q(2,3) by (auto simp: delay_nodes_def fun_eq_iff)
  show "due (tcb_upd t f k) = due k" by (simp add: due_def l n fun_eq_iff)
  show "delay_ok k \<Longrightarrow> delay_ok (tcb_upd t f k)" using Q(4) by (auto simp: delay_ok_def l n delayed_def)
  show "sview (tcb_upd t f k) = sview k" by (simp add: Q(1))
qed

lemma ipc_ok_quiet:
  assumes ok: "ipc_ok T k" and q: "quiet f" and r: "TCB_usStatus (f (K_tcb k t)) = 0 \<longleftrightarrow> TCB_usStatus (K_tcb k t) = 0"
  shows "ipc_ok T (tcb_upd t f k)"
  using kern_ok_tcb [where f = f, OF ipc_okD(1) [OF ok] _ r] quietD(1) [OF q] quiet_frame(1,2) [OF q] ok by (auto simp: ipc_ok_def)

lemma wait_ok_erase: "erase k' = erase k \<Longrightarrow> wait_ok T k' = wait_ok T k"
proof -
  have "wait_ok T b" if E: "erase b = erase a" and "wait_ok T a" for a b
    by (rule wait_ok_quiet [OF that(2)])
      (simp_all add: by_prio_def wq_def pending_def erase_kernelD [OF E] erase_tcbD [OF E])
  then show "erase k' = erase k \<Longrightarrow> wait_ok T k' = wait_ok T k" by metis
qed

text \<open>A change of the processors only.\<close>

lemma ipc_ok_same:
  assumes "ipc_ok T k" and "kern_ok T k'" and K: "K_tcb k' = K_tcb k" "K_eventBuffer k' = K_eventBuffer k" "K_wuDelay k' = K_wuDelay k"
  shows "ipc_ok T k'"
proof -
  have "delay_ok k' = delay_ok k" by (simp add: delay_ok_def dline_def delay_nodes_def delayed_def K)
  moreover have "wait_ok T k'"
    by (rule wait_ok_quiet [OF ipc_okD(3) [OF assms(1)]]) (simp_all add: by_prio_def wq_def pending_def K)
  ultimately show ?thesis using assms(1,2) by (simp add: ipc_ok_def)
qed

section \<open>Becoming ready, ceasing to be ready\<close>

definition make_ready :: "tid \<Rightarrow> u8 \<Rightarrow> kernel \<Rightarrow> kernel" where
  "make_ready ptcb ucSchedActivate k =
     (if LW_THREAD_IS_READY k ptcb then
        let k = tcb_upd ptcb (\<lambda>b. b\<lparr>TCB_ucSchedActivate := ucSchedActivate\<rparr>) k
        in ADD_TO_READY_RING ptcb (GetPcb k ptcb) k
      else k)"

lemma ipc_ok_make_ready:
  assumes ok: "ipc_ok T k" and t: "t \<in> T" "\<not> LW_THREAD_IS_READY k t" and q: "quiet f"
  shows "ipc_ok T (make_ready t a (tcb_upd t f k))"
proof (cases "TCB_usStatus (f (K_tcb k t)) = 0")
  case True
  let ?g = "\<lambda>b. (f b)\<lparr>TCB_ucSchedActivate := a\<rparr>"
  have g: "quiet ?g" using q by (simp add: quiet_defs)
  let ?k1 = "tcb_upd t ?g k"
  have "kern_ok T (ADD_TO_READY_RING t (GetPcb ?k1 t) ?k1)"
    by (rule kern_ok_unblock [OF ipc_okD(1) [OF ok] t]) (simp_all add: quietD(1) [OF g] True)
  moreover have "make_ready t a (tcb_upd t f k) = ADD_TO_READY_RING t (GetPcb ?k1 t) ?k1"
    using True by (simp add: make_ready_def LW_THREAD_IS_READY_def tcb_upd_upd Let_def)
  ultimately show ?thesis
    using quiet_frame(1,2) [OF g] ok by (auto simp: ipc_ok_def delay_ok_erase [OF erase_ADD] wait_ok_erase [OF erase_ADD])
next
  case False
  then have "make_ready t a (tcb_upd t f k) = tcb_upd t f k" by (simp add: make_ready_def LW_THREAD_IS_READY_def)
  then show ?thesis using ipc_ok_quiet [OF ok q, of t] False t(2) by (simp add: LW_THREAD_IS_READY_def)
qed

lemma ipc_ok_unready:
  assumes ok: "ipc_ok T k" and t: "t \<in> T" "K_ncpus k \<le> t" "LW_THREAD_IS_READY k t" and q: "quiet f"
    and n: "\<And>b. TCB_usStatus (f b) \<noteq> 0"
  shows "ipc_ok T (tcb_upd t f (DEL_FROM_READY_RING t (GetPcb k t) k))"
proof -
  let ?k1 = "DEL_FROM_READY_RING t (GetPcb k t) k"
  have s: "sched_ok (rdyset T k - {t}) ?k1" by (rule kern_ok_del [OF ipc_okD(1) [OF ok] t(1,3,2)])
  have "kern_ok T (tcb_upd t f ?k1)" by (rule kern_ok_block [OF s erase_DEL n]) (rule quietD(1) [OF q])
  moreover have "wait_ok T ?k1" "delay_ok ?k1" using ok by (simp_all add: ipc_ok_def delay_ok_erase [OF erase_DEL] wait_ok_erase [OF erase_DEL])
  ultimately show ?thesis using quiet_frame(1,2) [OF q] ok by (auto simp: ipc_ok_def)
qed

end
