(* ===== verification/EventSet.thy ===== *)
theory EventSet
  imports EventPool
begin

text \<open>
  Event sets (\<^verbatim>\<open>kernel/core/_EventSet*.c\<close>, \<^verbatim>\<open>kernel/list/listEventSet.c\<close>,
  \<^verbatim>\<open>kernel/interface/EventSet*.c\<close>): a word of flags that threads wait on, for all or any of some
  flags to be set or clear. The node that links a waiting thread into the list of its event set is
  named by the thread: \<open>EVENTSET_plineWaitList\<close> is a list of threads, and the data of a node is
  in \<open>TCB_pesnPtr\<close> of its thread.
\<close>

section \<open>The pool\<close>

definition Allocate_EventSet_Object :: "kernel \<Rightarrow> nat option \<times> kernel" where
  "Allocate_EventSet_Object k =
     (case RESRC_free (K_resrcEventSet k) of
        [] \<Rightarrow> (None, k)
      | pesFree # pmonoFree \<Rightarrow>
          let r = (K_resrcEventSet k)\<lparr>RESRC_free := pmonoFree, RESRC_uiUsed := RESRC_uiUsed (K_resrcEventSet k) + 1\<rparr>;
              r = (if RESRC_uiUsed r > RESRC_uiMaxUsed r then r\<lparr>RESRC_uiMaxUsed := RESRC_uiUsed r\<rparr> else r)
          in (Some pesFree, k\<lparr>K_resrcEventSet := r\<rparr>))"

definition Free_EventSet_Object :: "nat \<Rightarrow> kernel \<Rightarrow> kernel" where
  "Free_EventSet_Object pesFree k = k\<lparr>K_resrcEventSet :=
     (K_resrcEventSet k)\<lparr>RESRC_free := RESRC_free (K_resrcEventSet k) @ [pesFree], RESRC_uiUsed := RESRC_uiUsed (K_resrcEventSet k) - 1\<rparr>\<rparr>"

definition eventset_init_at :: "nat \<Rightarrow> kernel \<Rightarrow> kernel" where
  "eventset_init_at ulI k = es_upd ulI (\<lambda>v. v\<lparr>EVENTSET_ucType := LW_TYPE_EVENT_UNUSED, EVENTSET_plineWaitList := [],
     EVENTSET_usIndex := of_nat ulI\<rparr>) k"

definition EventSetInit :: "kernel \<Rightarrow> kernel" where
  "EventSetInit k =
     (let k = fold eventset_init_at [0..<LW_CFG_MAX_EVENTSETS] k
      in k\<lparr>K_resrcEventSet := \<lparr>RESRC_free = [0..<LW_CFG_MAX_EVENTSETS], RESRC_uiUsed = 0, RESRC_uiMaxUsed = 0\<rparr>\<rparr>)"

definition EventSet_Index_Invalid :: "nat \<Rightarrow> bool" where
  "EventSet_Index_Invalid usIndex \<longleftrightarrow> usIndex \<ge> LW_CFG_MAX_EVENTSETS"

definition EventSet_Type_Invalid :: "nat \<Rightarrow> u8 \<Rightarrow> kernel \<Rightarrow> bool" where
  "EventSet_Type_Invalid usIndex ucType k \<longleftrightarrow> EVENTSET_ucType (K_esBuffer k usIndex) \<noteq> ucType"

section \<open>Blocking and waking\<close>

definition EventSetBlock :: "nat \<Rightarrow> ulong \<Rightarrow> u8 \<Rightarrow> ulong \<Rightarrow> kernel \<Rightarrow> kernel" where
  "EventSetBlock pes ulEvents ucWaitType ulWaitTime k =
     (let ptcbCur = LW_TCB_GET_CUR k;
          k = tcb_upd ptcbCur (\<lambda>b. b\<lparr>TCB_usStatus := TCB_usStatus b OR LW_THREAD_STATUS_EVENTSET,
                TCB_ucWaitTimeout := LW_WAIT_TIME_CLEAR, TCB_ucIsEventDelete := LW_EVENT_EXIST\<rparr>) k;
          k = tcb_upd ptcbCur (\<lambda>b. b\<lparr>TCB_ulDelay := ulWaitTime\<rparr>) k;
          k = (if ulWaitTime \<noteq> 0 then ADD_TO_WAKEUP_LINE ptcbCur k else k);
          pesn = \<lparr>EVENTSETNODE_pesEventSet = pes, EVENTSETNODE_ulEventSets = ulEvents, EVENTSETNODE_ucWaitType = ucWaitType\<rparr>;
          k = tcb_upd ptcbCur (\<lambda>b. b\<lparr>TCB_pesnPtr := Some pesn\<rparr>) k;
          k = es_upd pes (\<lambda>v. v\<lparr>EVENTSET_plineWaitList := ptcbCur # EVENTSET_plineWaitList v\<rparr>) k
      in DEL_FROM_READY_RING ptcbCur (GetPcb k ptcbCur) k)"

text \<open>The node is the one of its thread \<open>ptcb\<close> (\<^verbatim>\<open>EVENTSETNODE_ptcbMe\<close>).\<close>

definition EventSetUnQueue :: "tid \<Rightarrow> kernel \<Rightarrow> kernel" where
  "EventSetUnQueue ptcb k =
     (case TCB_pesnPtr (K_tcb k ptcb) of
        None \<Rightarrow> bug k
      | Some pesn \<Rightarrow>
          let k = es_upd (EVENTSETNODE_pesEventSet pesn) (\<lambda>v. v\<lparr>EVENTSET_plineWaitList := remove1 ptcb (EVENTSET_plineWaitList v)\<rparr>) k
          in tcb_upd ptcb (\<lambda>b. b\<lparr>TCB_pesnPtr := None\<rparr>) k)"

definition EventSetDeleteReady :: "tid \<Rightarrow> kernel \<Rightarrow> kernel" where
  "EventSetDeleteReady ptcb k =
     (let k = tcb_upd ptcb (\<lambda>b. b\<lparr>TCB_ucIsEventDelete := LW_EVENT_DELETE\<rparr>) k;
          k = (if TCB_usStatus (K_tcb k ptcb) AND LW_THREAD_STATUS_DELAY \<noteq> 0 then DEL_FROM_WAKEUP_LINE ptcb k else k);
          k = tcb_upd ptcb (\<lambda>b. b\<lparr>TCB_ulDelay := 0, TCB_ulEventSets := 0,
                TCB_usStatus := TCB_usStatus b AND NOT LW_THREAD_STATUS_EVENTSET\<rparr>) k;
          k = (if LW_THREAD_IS_READY k ptcb then
                 let k = tcb_upd ptcb (\<lambda>b. b\<lparr>TCB_ucSchedActivate := LW_SCHED_ACT_INTERRUPT\<rparr>) k
                 in ADD_TO_READY_RING ptcb (GetPcb k ptcb) k
               else k)
      in EventSetUnQueue ptcb k)"

definition EventSetThreadReady :: "tid \<Rightarrow> ulong \<Rightarrow> kernel \<Rightarrow> kernel" where
  "EventSetThreadReady ptcb ulEventsReady k =
     (let k = (if TCB_usStatus (K_tcb k ptcb) AND LW_THREAD_STATUS_DELAY \<noteq> 0 then DEL_FROM_WAKEUP_LINE ptcb k else k);
          k = tcb_upd ptcb (\<lambda>b. b\<lparr>TCB_ulDelay := 0, TCB_ulEventSets := ulEventsReady,
                TCB_usStatus := TCB_usStatus b AND NOT LW_THREAD_STATUS_EVENTSET\<rparr>) k;
          k = (if LW_THREAD_IS_READY k ptcb then
                 let k = tcb_upd ptcb (\<lambda>b. b\<lparr>TCB_ucSchedActivate := LW_SCHED_ACT_INTERRUPT\<rparr>) k
                 in ADD_TO_READY_RING ptcb (GetPcb k ptcb) k
               else k)
      in EventSetUnQueue ptcb k)"

section \<open>The condition\<close>

text \<open>The flags that satisfy a wait, \<open>None\<close> when it is not satisfied (or of no known kind).\<close>

definition es_ready :: "u8 \<Rightarrow> ulong \<Rightarrow> ulong \<Rightarrow> ulong option" where
  "es_ready ucWaitType ulEvent ulEventSets =
     (if ucWaitType = LW_OPTION_EVENTSET_WAIT_SET_ALL then
        let ulEventRdy = ulEvent AND ulEventSets in if ulEventRdy = ulEvent then Some ulEventRdy else None
      else if ucWaitType = LW_OPTION_EVENTSET_WAIT_CLR_ALL then
        let ulEventRdy = ulEvent AND NOT ulEventSets in if ulEventRdy = ulEvent then Some ulEventRdy else None
      else if ucWaitType = LW_OPTION_EVENTSET_WAIT_SET_ANY then
        let ulEventRdy = ulEvent AND ulEventSets in if ulEventRdy \<noteq> 0 then Some ulEventRdy else None
      else if ucWaitType = LW_OPTION_EVENTSET_WAIT_CLR_ANY then
        let ulEventRdy = ulEvent AND NOT ulEventSets in if ulEventRdy \<noteq> 0 then Some ulEventRdy else None
      else None)"

definition es_wait_type_ok :: "u8 \<Rightarrow> bool" where
  "es_wait_type_ok ucWaitType \<longleftrightarrow> ucWaitType \<in> {LW_OPTION_EVENTSET_WAIT_SET_ALL, LW_OPTION_EVENTSET_WAIT_CLR_ALL,
     LW_OPTION_EVENTSET_WAIT_SET_ANY, LW_OPTION_EVENTSET_WAIT_CLR_ANY}"

text \<open>The flags after a satisfied wait, by the reset options of the call.\<close>

definition es_reset :: "ulong \<Rightarrow> u8 \<Rightarrow> ulong \<Rightarrow> ulong \<Rightarrow> ulong" where
  "es_reset ulOption ucWaitType ulEventRdy ulEventSets =
     (if ucWaitType \<in> {LW_OPTION_EVENTSET_WAIT_SET_ALL, LW_OPTION_EVENTSET_WAIT_SET_ANY} then
        if ulOption AND LW_OPTION_EVENTSET_RESET \<noteq> 0 then ulEventSets AND NOT ulEventRdy
        else if ulOption AND LW_OPTION_EVENTSET_RESET_ALL \<noteq> 0 then 0
        else ulEventSets
      else
        if ulOption AND LW_OPTION_EVENTSET_RESET \<noteq> 0 then ulEventSets OR ulEventRdy
        else if ulOption AND LW_OPTION_EVENTSET_RESET_ALL \<noteq> 0 then ULONG_MAX
        else ulEventSets)"

text \<open>\<^verbatim>\<open>__EVENTSET_SAVE_RET\<close>.\<close>

definition es_save_ret :: "ulong \<Rightarrow> nat \<Rightarrow> ulong \<Rightarrow> kernel \<Rightarrow> ulong" where
  "es_save_ret ulOption pes ulEventRdy k =
     (if ulOption AND LW_OPTION_EVENTSET_RETURN_ALL \<noteq> 0 then EVENTSET_ulEventSets (K_esBuffer k pes) else ulEventRdy)"

section \<open>The calls\<close>

text \<open>The frame of a call on an event set, as \<open>event_section\<close> is that of a call on an event.\<close>

definition es_section ::
  "ulong \<Rightarrow> 'a \<Rightarrow> (nat \<Rightarrow> kernel \<Rightarrow> ulong \<times> 'a \<times> kernel) \<Rightarrow> env \<Rightarrow> kernel \<Rightarrow> (ulong \<times> 'a \<times> env \<times> kernel) option" where
  "es_section ulId out body env k =
     (let usIndex = unat (ObjectGetIndex ulId) in
      if \<not> ObjectClassOK ulId OBJECT_EVENT_SET then Some (ERROR_KERNEL_HANDLE_NULL, out, env, ErrorHandle ERROR_KERNEL_HANDLE_NULL k)
      else if EventSet_Index_Invalid usIndex then Some (ERROR_KERNEL_HANDLE_NULL, out, env, ErrorHandle ERROR_KERNEL_HANDLE_NULL k)
      else
        let k = kernelEnterIrq k;
            (ulError, out, k) = (if EventSet_Type_Invalid usIndex LW_TYPE_EVENT_EVENTSET k then (ERROR_EVENTSET_TYPE, out, k)
                                 else body usIndex k)
        in map_option (\<lambda>(_, env, k). (ulError, out, env, ErrorHandle ulError k)) (kernelExitIrq env k))"

text \<open>
  The loop of \<^verbatim>\<open>API_EventSetSet\<close>. A removed node keeps its next pointer (\<^verbatim>\<open>_List_Line_Del\<close>),
  and the kernel is locked, so the loop visits every node of the list it started with.
\<close>

definition es_wake_one :: "nat \<Rightarrow> tid \<Rightarrow> kernel \<Rightarrow> kernel" where
  "es_wake_one pes ptcb k =
     (case TCB_pesnPtr (K_tcb k ptcb) of
        None \<Rightarrow> bug k
      | Some pesn \<Rightarrow>
          (case es_ready (EVENTSETNODE_ucWaitType pesn) (EVENTSETNODE_ulEventSets pesn) (EVENTSET_ulEventSets (K_esBuffer k pes)) of
             None \<Rightarrow> k
           | Some ulEventRdy \<Rightarrow> EventSetThreadReady ptcb ulEventRdy k))"

definition es_set :: "ulong \<Rightarrow> ulong \<Rightarrow> nat \<Rightarrow> kernel \<Rightarrow> ulong \<times> unit \<times> kernel" where
  "es_set ulEvent ulOption pes k =
     (if ulOption = LW_OPTION_EVENTSET_CLR \<or> ulOption = LW_OPTION_EVENTSET_SET then
        let k = es_upd pes (\<lambda>v. v\<lparr>EVENTSET_ulEventSets :=
                  (if ulOption = LW_OPTION_EVENTSET_CLR then EVENTSET_ulEventSets v AND NOT ulEvent
                   else EVENTSET_ulEventSets v OR ulEvent)\<rparr>) k
        in (ERROR_NONE, (), fold (es_wake_one pes) (EVENTSET_plineWaitList (K_esBuffer k pes)) k)
      else (ERROR_EVENTSET_OPTION, (), k))"

definition EventSetSet :: "ulong \<Rightarrow> ulong \<Rightarrow> ulong \<Rightarrow> env \<Rightarrow> kernel \<Rightarrow> (ulong \<times> unit \<times> env \<times> kernel) option" where
  "EventSetSet ulId ulEvent ulOption = es_section ulId () (es_set ulEvent ulOption)"

text \<open>A satisfied wait; the thread takes note of the flags.\<close>

definition es_take :: "ulong \<Rightarrow> u8 \<Rightarrow> ulong \<Rightarrow> nat \<Rightarrow> kernel \<Rightarrow> kernel" where
  "es_take ulOption ucWaitType ulEventRdy pes k =
     (let k = es_upd pes (\<lambda>v. v\<lparr>EVENTSET_ulEventSets := es_reset ulOption ucWaitType ulEventRdy (EVENTSET_ulEventSets v)\<rparr>) k
      in tcb_upd (LW_TCB_GET_CUR k) (\<lambda>b. b\<lparr>TCB_ulEventSets := ulEventRdy\<rparr>) k)"

definition es_tryget :: "ulong \<Rightarrow> ulong \<Rightarrow> nat \<Rightarrow> kernel \<Rightarrow> ulong \<times> ulong option \<times> kernel" where
  "es_tryget ulEvent ulOption pes k =
     (let ucWaitType = ucast (ulOption AND 0x0F) in
      if \<not> es_wait_type_ok ucWaitType then (ERROR_EVENTSET_WAIT_TYPE, None, k)
      else (case es_ready ucWaitType ulEvent (EVENTSET_ulEventSets (K_esBuffer k pes)) of
              None \<Rightarrow> (ERROR_THREAD_WAIT_TIMEOUT, None, k)
            | Some ulEventRdy \<Rightarrow>
                (ERROR_NONE, Some (es_save_ret ulOption pes ulEventRdy k), es_take ulOption ucWaitType ulEventRdy pes k)))"

definition EventSetTryGetEx :: "ulong \<Rightarrow> ulong \<Rightarrow> ulong \<Rightarrow> env \<Rightarrow> kernel \<Rightarrow> (ulong \<times> ulong option \<times> env \<times> kernel) option" where
  "EventSetTryGetEx ulId ulEvent ulOption = es_section ulId None (es_tryget ulEvent ulOption)"

definition EventSetTryGet :: "ulong \<Rightarrow> ulong \<Rightarrow> ulong \<Rightarrow> env \<Rightarrow> kernel \<Rightarrow> (ulong \<times> env \<times> kernel) option" where
  "EventSetTryGet ulId ulEvent ulOption env k =
     map_option (\<lambda>(r, _, env, k). (r, env, k)) (EventSetTryGetEx ulId ulEvent ulOption env k)"

text \<open>The end of \<^verbatim>\<open>API_EventSetGetEx\<close>, when the thread runs again.\<close>

definition es_resume :: "tid \<Rightarrow> ulong \<Rightarrow> nat \<Rightarrow> env \<Rightarrow> kernel \<Rightarrow> (ulong \<times> ulong option \<times> env \<times> kernel) option" where
  "es_resume ptcbCur ulOption pes env k =
     (let k = kernelEnterIrq k;
          ulEventRdy = TCB_ulEventSets (K_tcb k ptcbCur);
          (ulError, out, k) =
            (if TCB_ucWaitTimeout (K_tcb k ptcbCur) = LW_WAIT_TIME_OUT then (ERROR_THREAD_WAIT_TIMEOUT, None, k)
             else if TCB_ucIsEventDelete (K_tcb k ptcbCur) = LW_EVENT_EXIST then
               (ERROR_NONE, Some (es_save_ret ulOption pes ulEventRdy k),
                es_upd pes (\<lambda>v. v\<lparr>EVENTSET_ulEventSets :=
                  es_reset ulOption (ucast (ulOption AND 0x0F)) ulEventRdy (EVENTSET_ulEventSets v)\<rparr>) k)
             else (ERROR_EVENTSET_WAS_DELETED, None, k))
      in map_option (\<lambda>(_, env, k). (ulError, out, env, ErrorHandle ulError k)) (kernelExitIrq env k))"

text \<open>The loop from \<^verbatim>\<open>__wait_again\<close>.\<close>

function es_get :: "ulong \<Rightarrow> tid \<Rightarrow> ulong \<Rightarrow> ulong \<Rightarrow> ulong \<Rightarrow> env \<Rightarrow> kernel \<Rightarrow>
    (ulong \<times> ulong option \<times> env \<times> kernel) option" where
  "es_get ulId ptcbCur ulEvent ulOption ulTimeout env k =
     (let usIndex = unat (ObjectGetIndex ulId);
          ucWaitType = ucast (ulOption AND 0x0F);
          ulWaitTime = (if ulTimeout = LW_OPTION_WAIT_INFINITE then 0 else ulTimeout)
      in
      if \<not> ObjectClassOK ulId OBJECT_EVENT_SET then Some (ERROR_KERNEL_HANDLE_NULL, None, env, ErrorHandle ERROR_KERNEL_HANDLE_NULL k)
      else if EventSet_Index_Invalid usIndex then Some (ERROR_KERNEL_HANDLE_NULL, None, env, ErrorHandle ERROR_KERNEL_HANDLE_NULL k)
      else
        let k = kernelEnterIrq k in
        if EventSet_Type_Invalid usIndex LW_TYPE_EVENT_EVENTSET k then
          map_option (\<lambda>(_, env, k). (ERROR_EVENTSET_TYPE, None, env, ErrorHandle ERROR_EVENTSET_TYPE k)) (kernelExitIrq env k)
        else if \<not> es_wait_type_ok ucWaitType then
          map_option (\<lambda>(_, env, k). (ERROR_EVENTSET_WAIT_TYPE, None, env, ErrorHandle ERROR_EVENTSET_WAIT_TYPE k)) (kernelExitIrq env k)
        else (case es_ready ucWaitType ulEvent (EVENTSET_ulEventSets (K_esBuffer k usIndex)) of
           Some ulEventRdy \<Rightarrow>
             map_option (\<lambda>(_, env, k'). (ERROR_NONE, Some (es_save_ret ulOption usIndex ulEventRdy k), env, k'))
               (kernelExitIrq env (es_take ulOption ucWaitType ulEventRdy usIndex k))
         | None \<Rightarrow>
             if ulTimeout = LW_OPTION_NOT_WAIT then
               map_option (\<lambda>(_, env, k). (ERROR_THREAD_WAIT_TIMEOUT, None, env, ErrorHandle ERROR_THREAD_WAIT_TIMEOUT k))
                 (kernelExitIrq env k)
             else
               let ulTimeSave = K_i64KernelTime k;
                   k = EventSetBlock usIndex ulEvent ucWaitType ulWaitTime k;
                   ulEventSetOption = EVENTSET_ulOption (K_esBuffer k usIndex)
               in (case kernelExit env k of
                     None \<Rightarrow> None
                   | Some (iSchedRet, env', k) \<Rightarrow>
                       if iSchedRet \<noteq> 0 then
                         if iSchedRet = LW_SIGNAL_EINTR \<and> ulEventSetOption AND LW_OPTION_SIGNAL_INTER \<noteq> 0 then
                           Some (EINTR, None, env', ErrorHandle EINTR k)
                         else
                           let ulTimeout = sigTimeoutRecalc ulTimeSave ulTimeout k in
                           if ulTimeout = LW_OPTION_NOT_WAIT then
                             Some (ERROR_THREAD_WAIT_TIMEOUT, None, env', ErrorHandle ERROR_THREAD_WAIT_TIMEOUT k)
                           else if length env' < length env then es_get ulId ptcbCur ulEvent ulOption ulTimeout env' k
                           else None
                       else es_resume ptcbCur ulOption usIndex env' k)))"
  by pat_completeness auto
termination by (relation "measure (\<lambda>(_, _, _, _, _, env, _). length env)") auto

declare es_get.simps [simp del]

definition EventSetGetEx :: "ulong \<Rightarrow> ulong \<Rightarrow> ulong \<Rightarrow> ulong \<Rightarrow> env \<Rightarrow> kernel \<Rightarrow> (ulong \<times> ulong option \<times> env \<times> kernel) option" where
  "EventSetGetEx ulId ulEvent ulOption ulTimeout env k =
     (if CpuGetNesting k \<noteq> 0 then Some (ERROR_KERNEL_IN_ISR, None, env, ErrorHandle ERROR_KERNEL_IN_ISR k)
      else es_get ulId (LW_TCB_GET_CUR k) ulEvent ulOption ulTimeout env k)"

definition EventSetGet :: "ulong \<Rightarrow> ulong \<Rightarrow> ulong \<Rightarrow> ulong \<Rightarrow> env \<Rightarrow> kernel \<Rightarrow> (ulong \<times> env \<times> kernel) option" where
  "EventSetGet ulId ulEvent ulOption ulTimeout env k =
     map_option (\<lambda>(r, _, env, k). (r, env, k)) (EventSetGetEx ulId ulEvent ulOption ulTimeout env k)"

definition EventSetStatus :: "ulong \<Rightarrow> env \<Rightarrow> kernel \<Rightarrow> (ulong \<times> (ulong \<times> ulong) option \<times> env \<times> kernel) option" where
  "EventSetStatus ulId = es_section ulId None
     (\<lambda>pes k. (ERROR_NONE, Some (EVENTSET_ulEventSets (K_esBuffer k pes), 0), k))"

definition EventSetGetName :: "ulong \<Rightarrow> env \<Rightarrow> kernel \<Rightarrow> (ulong \<times> string option \<times> env \<times> kernel) option" where
  "EventSetGetName ulId env k =
     (let usIndex = unat (ObjectGetIndex ulId) in
      if CpuGetNesting k \<noteq> 0 then Some (ERROR_KERNEL_IN_ISR, None, env, ErrorHandle ERROR_KERNEL_IN_ISR k)
      else if \<not> ObjectClassOK ulId OBJECT_EVENT_SET then Some (ERROR_KERNEL_HANDLE_NULL, None, env, ErrorHandle ERROR_KERNEL_HANDLE_NULL k)
      else if EventSet_Index_Invalid usIndex then Some (ERROR_KERNEL_HANDLE_NULL, None, env, ErrorHandle ERROR_KERNEL_HANDLE_NULL k)
      else
        let k = kernelEnter k in
        if EventSet_Type_Invalid usIndex LW_TYPE_EVENT_EVENTSET k then
          map_option (\<lambda>(_, env, k). (ERROR_EVENTSET_TYPE, None, env, ErrorHandle ERROR_EVENTSET_TYPE k)) (kernelExit env k)
        else map_option (\<lambda>(_, env, k'). (ERROR_NONE, Some (EVENTSET_cEventSetName (K_esBuffer k usIndex)), env, k')) (kernelExit env k))"

text \<open>The deletion wakes every waiter; the handle becomes zero.\<close>

definition es_delete :: "nat \<Rightarrow> kernel \<Rightarrow> ulong \<times> ulong \<times> kernel" where
  "es_delete pes k =
     (let k = fold EventSetDeleteReady (EVENTSET_plineWaitList (K_esBuffer k pes)) k;
          k = es_upd pes (\<lambda>v. v\<lparr>EVENTSET_ucType := LW_TYPE_EVENT_UNUSED, EVENTSET_plineWaitList := []\<rparr>) k
      in (ERROR_NONE, 0, Free_EventSet_Object pes k))"

definition EventSetDelete :: "ulong \<Rightarrow> env \<Rightarrow> kernel \<Rightarrow> (ulong \<times> ulong \<times> env \<times> kernel) option" where
  "EventSetDelete pulId env k =
     (if CpuGetNesting k \<noteq> 0 then Some (ERROR_KERNEL_IN_ISR, pulId, env, ErrorHandle ERROR_KERNEL_IN_ISR k)
      else es_section pulId pulId es_delete env k)"

definition EventSetCreate :: "string option \<Rightarrow> ulong \<Rightarrow> ulong \<Rightarrow> env \<Rightarrow> kernel \<Rightarrow> (ulong \<times> env \<times> kernel) option" where
  "EventSetCreate pcName ulInitEvent ulOption env k =
     (if CpuGetNesting k \<noteq> 0 then Some (LW_OBJECT_HANDLE_INVALID, env, ErrorHandle ERROR_KERNEL_IN_ISR k)
      else if Object_Name_Invalid pcName then
        Some (LW_OBJECT_HANDLE_INVALID, env, ErrorHandle ERROR_KERNEL_PNAME_TOO_LONG k)
      else
        let k = kernelEnter k;
            (pes, k) = Allocate_EventSet_Object k
        in case kernelExit env k of
             None \<Rightarrow> None
           | Some (_, env, k) \<Rightarrow>
              (case pes of
                 None \<Rightarrow> Some (LW_OBJECT_HANDLE_INVALID, env, ErrorHandle ERROR_EVENTSET_FULL k)
               | Some s \<Rightarrow>
                   let k = es_upd s (\<lambda>v. v\<lparr>EVENTSET_cEventSetName := (case pcName of Some n \<Rightarrow> n | None \<Rightarrow> []),
                             EVENTSET_ucType := LW_TYPE_EVENT_EVENTSET, EVENTSET_plineWaitList := [],
                             EVENTSET_ulEventSets := ulInitEvent, EVENTSET_ulOption := ulOption\<rparr>) k
                   in Some (MakeObjectId OBJECT_EVENT_SET LW_CFG_PROCESSOR_NUMBER (EVENTSET_usIndex (K_esBuffer k s)), env, k)))"

end
