(* ===== verification/Vutex.thy ===== *)
theory Vutex
  imports EventPool
begin

text \<open>
  Waiting for the value of a variable (\<^verbatim>\<open>kernel/vutex/vutexLib.c\<close>, \<^verbatim>\<open>vutex.c\<close>). A waiting thread
  is in a hash bucket chosen by the physical address of the variable. The variables are in \<open>K_mem\<close>;
  the translation of addresses (\<^verbatim>\<open>__vmmLibVirtualToPhysical\<close>) is the parameter \<open>vtop\<close>, which is
  \<open>None\<close> where the translation fails. A signed \<^verbatim>\<open>INT\<close> is a 32-bit word read with \<open>sint\<close>.
\<close>

section \<open>The wait queues\<close>

definition VutexHash :: "ulong \<Rightarrow> nat" where
  "VutexHash phyaddr =
     (let uiTemp = ucast (drop_bit 2 phyaddr) :: u32
      in unat ((uiTemp AND 0xff) + (drop_bit 8 uiTemp AND 0xff) + (drop_bit 16 uiTemp AND 0xff) + (drop_bit 24 uiTemp AND 0xff) AND 0x3ff))"

definition VutexWakeIsMatch :: "u32 \<Rightarrow> int \<Rightarrow> u32 \<Rightarrow> bool" where
  "VutexWakeIsMatch iValue iCompare iDesired =
     (if iCompare = LW_OPTION_VUTEX_EQU then iValue = iDesired
      else if iCompare = LW_OPTION_VUTEX_NOT_EQU then iValue \<noteq> iDesired
      else if iCompare = LW_OPTION_VUTEX_LESS then sint iValue < sint iDesired
      else if iCompare = LW_OPTION_VUTEX_LESS_EQU then sint iValue \<le> sint iDesired
      else if iCompare = LW_OPTION_VUTEX_GREATER then sint iValue > sint iDesired
      else if iCompare = LW_OPTION_VUTEX_GREATER_EQU then sint iValue \<ge> sint iDesired
      else if iCompare = LW_OPTION_VUTEX_AND then iValue AND iDesired = iDesired
      else if iCompare = LW_OPTION_VUTEX_NOT then iValue AND iDesired = 0
      else if iCompare = LW_OPTION_VUTEX_OR then iValue AND iDesired \<noteq> 0
      else False)"

definition VutexWakeIsAll :: "tid \<Rightarrow> kernel \<Rightarrow> bool" where
  "VutexWakeIsAll ptcb k = VUTEX_bWakeAll (TCB_vutex (K_tcb k ptcb))"

definition VUTEX_IS_WAITING :: "kernel \<Rightarrow> tid \<Rightarrow> bool" where
  "VUTEX_IS_WAITING k ptcb \<longleftrightarrow> VUTEX_phyaddr (TCB_vutex (K_tcb k ptcb)) \<noteq> None"

definition vutex_upd :: "tid \<Rightarrow> (vutex \<Rightarrow> vutex) \<Rightarrow> kernel \<Rightarrow> kernel" where
  "vutex_upd t f = tcb_upd t (\<lambda>b. b\<lparr>TCB_vutex := f (TCB_vutex b)\<rparr>)"

definition vutex_line :: "nat \<Rightarrow> (tid list \<Rightarrow> tid list) \<Rightarrow> kernel \<Rightarrow> kernel" where
  "vutex_line h f k = k\<lparr>k_plineVutexHashHeader := (k_plineVutexHashHeader k)(h := f (k_plineVutexHashHeader k h))\<rparr>"

definition VutexInitCtx :: "tid \<Rightarrow> kernel \<Rightarrow> kernel" where
  "VutexInitCtx ptcb = vutex_upd ptcb (\<lambda>v. v\<lparr>VUTEX_phyaddr := None\<rparr>)"

definition VutexWaitQueue :: "tid \<Rightarrow> ulong \<Rightarrow> u32 \<Rightarrow> int \<Rightarrow> kernel \<Rightarrow> kernel" where
  "VutexWaitQueue ptcbCur phyaddr iDesired iCompare k =
     (let k = vutex_upd ptcbCur (\<lambda>v. v\<lparr>VUTEX_phyaddr := Some phyaddr\<rparr>) k;
          k = DEL_FROM_READY_RING ptcbCur (GetPcb k ptcbCur) k;
          k = vutex_upd ptcbCur (\<lambda>v. v\<lparr>VUTEX_bWakeAll := False, VUTEX_iCompare := iCompare, VUTEX_iDesired := iDesired,
                VUTEX_uiHash := VutexHash phyaddr\<rparr>) k;
          k = vutex_line (VutexHash phyaddr) (\<lambda>l. ptcbCur # l) k
      in if TCB_ulDelay (K_tcb k ptcbCur) \<noteq> 0 then ADD_TO_WAKEUP_LINE ptcbCur k else k)"

text \<open>A matching waiter is taken off its bucket and the delay line and made ready.\<close>

definition vutex_wake_one :: "nat \<Rightarrow> u32 \<Rightarrow> tid \<Rightarrow> kernel \<Rightarrow> kernel" where
  "vutex_wake_one uiHash iFlags ptcb k =
     (let k = vutex_line uiHash (remove1 ptcb) k;
          k = vutex_upd ptcb (\<lambda>v. v\<lparr>VUTEX_phyaddr := None, VUTEX_bWakeAll := (iFlags AND LW_OPTION_VUTEX_FLAG_WAKEALL \<noteq> 0)\<rparr>) k;
          k = (if TCB_usStatus (K_tcb k ptcb) AND LW_THREAD_STATUS_DELAY \<noteq> 0 then
                 tcb_upd ptcb (\<lambda>b. b\<lparr>TCB_ulDelay := 0\<rparr>) (DEL_FROM_WAKEUP_LINE ptcb k)
               else k)
      in if TCB_ucWaitTimeout (K_tcb k ptcb) \<noteq> 0 then
           tcb_upd ptcb (\<lambda>b. b\<lparr>TCB_ucWaitTimeout := LW_WAIT_TIME_CLEAR\<rparr>) k
         else
           let k = tcb_upd ptcb (\<lambda>b. b\<lparr>TCB_usStatus := TCB_usStatus b AND NOT LW_THREAD_STATUS_VUTEX\<rparr>) k in
           if LW_THREAD_IS_READY k ptcb then
             let k = tcb_upd ptcb (\<lambda>b. b\<lparr>TCB_ucSchedActivate := LW_SCHED_ACT_INTERRUPT\<rparr>) k
             in ADD_TO_READY_RING ptcb (GetPcb k ptcb) k
           else k)"

definition vutex_match :: "ulong \<Rightarrow> u32 \<Rightarrow> u32 \<Rightarrow> vutex \<Rightarrow> bool" where
  "vutex_match phyaddr iValue iFlags pvutex \<longleftrightarrow>
     VUTEX_phyaddr pvutex = Some phyaddr \<and>
     (iFlags AND LW_OPTION_VUTEX_FLAG_WAKEALL \<noteq> 0 \<or> VutexWakeIsMatch iValue (VUTEX_iCompare pvutex) (VUTEX_iDesired pvutex))"

text \<open>
  The loop over the nodes of the bucket; \<open>_k_plineVutexOp\<close> is the cursor, which \<open>VutexUnQueue\<close>
  moves on when it removes the node the cursor is at. The kernel is locked, so the cursor visits
  the nodes of the list the loop started with.
\<close>

fun vutex_wake_scan :: "ulong \<Rightarrow> nat \<Rightarrow> u32 \<Rightarrow> u32 \<Rightarrow> tid list \<Rightarrow> kernel \<Rightarrow> int \<times> kernel" where
  "vutex_wake_scan phyaddr uiHash iValue iFlags [] k = (0, k\<lparr>k_plineVutexOp := None\<rparr>)"
| "vutex_wake_scan phyaddr uiHash iValue iFlags (ptcb # ts) k =
     (let k = k\<lparr>k_plineVutexOp := head_of ts\<rparr> in
      if vutex_match phyaddr iValue iFlags (TCB_vutex (K_tcb k ptcb)) then
        case vutex_wake_scan phyaddr uiHash iValue iFlags ts (vutex_wake_one uiHash iFlags ptcb k) of
          (iWakeCnt, k) \<Rightarrow> (iWakeCnt + 1, k)
      else vutex_wake_scan phyaddr uiHash iValue iFlags ts k)"

definition VutexWakeQueue :: "ulong \<Rightarrow> u32 \<Rightarrow> u32 \<Rightarrow> kernel \<Rightarrow> int \<times> kernel" where
  "VutexWakeQueue phyaddr iValue iFlags k =
     (let uiHash = VutexHash phyaddr
      in vutex_wake_scan phyaddr uiHash iValue iFlags (k_plineVutexHashHeader k uiHash) k)"

definition VutexUnQueue :: "tid \<Rightarrow> kernel \<Rightarrow> kernel" where
  "VutexUnQueue ptcb k =
     (let h = VUTEX_uiHash (TCB_vutex (K_tcb k ptcb));
          k = (if k_plineVutexOp k = Some ptcb then k\<lparr>k_plineVutexOp := line_right (k_plineVutexHashHeader k h) ptcb\<rparr> else k);
          k = vutex_line h (remove1 ptcb) k
      in vutex_upd ptcb (\<lambda>v. v\<lparr>VUTEX_uiHash := 0, VUTEX_phyaddr := None\<rparr>) k)"

section \<open>The calls\<close>

text \<open>The passage of \<^verbatim>\<open>API_VutexPendEx\<close> in which the thread begins to wait.\<close>

definition vutex_block :: "tid \<Rightarrow> ulong \<Rightarrow> u32 \<Rightarrow> int \<Rightarrow> ulong \<Rightarrow> kernel \<Rightarrow> kernel" where
  "vutex_block ptcbCur phyaddr iDesired iCompare ulTimeout k =
     (let k = tcb_upd ptcbCur (\<lambda>b. b\<lparr>TCB_usStatus := TCB_usStatus b OR LW_THREAD_STATUS_VUTEX,
                TCB_ucWaitTimeout := LW_WAIT_TIME_CLEAR\<rparr>) k;
          k = tcb_upd ptcbCur (\<lambda>b. b\<lparr>TCB_ulDelay := (if ulTimeout = LW_OPTION_WAIT_INFINITE then 0 else ulTimeout)\<rparr>) k
      in VutexWaitQueue ptcbCur phyaddr iDesired iCompare k)"

text \<open>
  Results are the returned \<^verbatim>\<open>INT\<close>: \<open>PX_ERROR\<close>, or 0 or 1. A null pointer is address zero. After a
  restartable signal with no time left the call falls through to its normal return.
\<close>

function vutex_pend :: "(ulong \<Rightarrow> ulong option) \<Rightarrow> ulong \<Rightarrow> int \<Rightarrow> u32 \<Rightarrow> ulong \<Rightarrow> env \<Rightarrow> kernel \<Rightarrow> (int \<times> env \<times> kernel) option" where
  "vutex_pend vtop piVar iCompare iDesired ulTimeout env k =
     (if VutexWakeIsMatch (K_mem k piVar) iCompare iDesired then Some (0, env, k)
      else if ulTimeout = LW_OPTION_NOT_WAIT then Some (PX_ERROR, env, ErrorHandle ERROR_THREAD_WAIT_TIMEOUT k)
      else
        let k = kernelEnter k in
        if VutexWakeIsMatch (K_mem k piVar) iCompare iDesired then
          map_option (\<lambda>(_, env, k). (0, env, k)) (kernelExit env k)
        else case vtop piVar of
          None \<Rightarrow> map_option (\<lambda>(_, env, k). (PX_ERROR, env, k)) (kernelExit env k)
        | Some phyaddr \<Rightarrow>
            if phyaddr = LW_PHY_ADDR_INVALID then map_option (\<lambda>(_, env, k). (PX_ERROR, env, ErrorHandle EFAULT k)) (kernelExit env k)
            else
              let ptcbCur = LW_TCB_GET_CUR k;
                  ulTimeSave = K_i64KernelTime k;
                  k = vutex_block ptcbCur phyaddr iDesired iCompare ulTimeout k
              in (case kernelExitIrq env k of
                    None \<Rightarrow> None
                  | Some (iSchedRet, env', k) \<Rightarrow>
                      if iSchedRet = LW_SIGNAL_EINTR then Some (PX_ERROR, env', ErrorHandle EINTR k)
                      else if iSchedRet = LW_SIGNAL_RESTART then
                        let ulTimeout = sigTimeoutRecalc ulTimeSave ulTimeout k in
                        if ulTimeout \<noteq> LW_OPTION_NOT_WAIT then
                          if length env' < length env then vutex_pend vtop piVar iCompare iDesired ulTimeout env' k else None
                        else Some (if VutexWakeIsAll ptcbCur k then 1 else 0, env', k)
                      else if TCB_ucWaitTimeout (K_tcb k ptcbCur) = LW_WAIT_TIME_OUT then
                        Some (PX_ERROR, env', ErrorHandle ERROR_THREAD_WAIT_TIMEOUT k)
                      else Some (if VutexWakeIsAll ptcbCur k then 1 else 0, env', k)))"
  by pat_completeness auto
termination by (relation "measure (\<lambda>(_, _, _, _, _, env, _). length env)") auto

declare vutex_pend.simps [simp del]

definition VutexPendEx :: "(ulong \<Rightarrow> ulong option) \<Rightarrow> ulong \<Rightarrow> int \<Rightarrow> u32 \<Rightarrow> ulong \<Rightarrow> env \<Rightarrow> kernel \<Rightarrow> (int \<times> env \<times> kernel) option" where
  "VutexPendEx vtop piVar iCompare iDesired ulTimeout env k =
     (if piVar = 0 then Some (PX_ERROR, env, ErrorHandle EFAULT k)
      else if CpuGetNesting k \<noteq> 0 then Some (PX_ERROR, env, ErrorHandle ERROR_KERNEL_IN_ISR k)
      else vutex_pend vtop piVar iCompare iDesired ulTimeout env k)"

definition VutexPend :: "(ulong \<Rightarrow> ulong option) \<Rightarrow> ulong \<Rightarrow> u32 \<Rightarrow> ulong \<Rightarrow> env \<Rightarrow> kernel \<Rightarrow> (int \<times> env \<times> kernel) option" where
  "VutexPend vtop piVar iDesired ulTimeout = VutexPendEx vtop piVar LW_OPTION_VUTEX_EQU iDesired ulTimeout"

definition VUTEX_POST_CHECK_VALUE :: "u32 \<Rightarrow> bool" where
  "VUTEX_POST_CHECK_VALUE flags \<longleftrightarrow> flags AND LW_OPTION_VUTEX_FLAG_WAKEALL = 0 \<and> flags AND LW_OPTION_VUTEX_FLAG_DEEPWAKE = 0"

definition VutexPostEx :: "(ulong \<Rightarrow> ulong option) \<Rightarrow> ulong \<Rightarrow> u32 \<Rightarrow> u32 \<Rightarrow> env \<Rightarrow> kernel \<Rightarrow> (int \<times> env \<times> kernel) option" where
  "VutexPostEx vtop piVar iValue iFlags env k =
     (if piVar = 0 then Some (PX_ERROR, env, ErrorHandle EFAULT k)
      else if CpuGetNesting k \<noteq> 0 then Some (PX_ERROR, env, ErrorHandle ERROR_KERNEL_IN_ISR k)
      else if VUTEX_POST_CHECK_VALUE iFlags \<and> K_mem k piVar = iValue then Some (0, env, k)
      else
        let k = kernelEnter k in
        if VUTEX_POST_CHECK_VALUE iFlags \<and> K_mem k piVar = iValue then
          map_option (\<lambda>(_, env, k). (0, env, k)) (kernelExit env k)
        else case vtop piVar of
          None \<Rightarrow> map_option (\<lambda>(_, env, k). (PX_ERROR, env, k)) (kernelExit env k)
        | Some phyaddr \<Rightarrow>
            if phyaddr = LW_PHY_ADDR_INVALID then map_option (\<lambda>(_, env, k). (PX_ERROR, env, ErrorHandle EFAULT k)) (kernelExit env k)
            else
              let k = (if iFlags AND LW_OPTION_VUTEX_FLAG_DONTSET = 0 then k\<lparr>K_mem := (K_mem k)(piVar := iValue)\<rparr> else k);
                  (iWakeCnt, k) = VutexWakeQueue phyaddr iValue iFlags k
              in map_option (\<lambda>(_, env, k). (iWakeCnt, env, k)) (kernelExit env k))"

definition VutexPost :: "(ulong \<Rightarrow> ulong option) \<Rightarrow> ulong \<Rightarrow> u32 \<Rightarrow> env \<Rightarrow> kernel \<Rightarrow> (int \<times> env \<times> kernel) option" where
  "VutexPost vtop piVar iValue = VutexPostEx vtop piVar iValue 0"

end
