(* ===== verification/Threads.thy ===== *)
theory Threads
  imports Ready EventSet Vutex
begin

text \<open>
  The tick of the delay line (\<^verbatim>\<open>kernel/core/_TimeTick.c\<close>) and the calls on threads that change
  whether a thread may run (\<^verbatim>\<open>kernel/interface/ThreadSuspend.c\<close>, \<^verbatim>\<open>ThreadResume.c\<close>,
  \<^verbatim>\<open>ThreadForceResume.c\<close>, \<^verbatim>\<open>ThreadStop.c\<close>, \<^verbatim>\<open>ThreadWakeup.c\<close>, \<^verbatim>\<open>ThreadYield.c\<close>,
  \<^verbatim>\<open>ThreadSetPriority.c\<close>). \<open>make_ready\<close> is the passage that puts a thread back into the ready
  table when nothing keeps it from running any more.
\<close>

section \<open>The end of a wait\<close>

text \<open>A wait that is given up: the thread leaves whatever it waits for, and finds a timeout.\<close>

definition unpend :: "tid \<Rightarrow> kernel \<Rightarrow> kernel" where
  "unpend ptcb k =
     (let k = tcb_upd ptcb (\<lambda>b. b\<lparr>TCB_usStatus := TCB_usStatus b AND NOT LW_THREAD_STATUS_PEND_ANY,
                TCB_ucWaitTimeout := LW_WAIT_TIME_OUT\<rparr>) k in
      if TCB_peventPtr (K_tcb k ptcb) \<noteq> None then EventUnQueue ptcb k
      else if TCB_pesnPtr (K_tcb k ptcb) \<noteq> None then EventSetUnQueue ptcb k
      else if VUTEX_IS_WAITING k ptcb then VutexUnQueue ptcb k
      else k)"

text \<open>What the tick does with a thread whose time has come.\<close>

definition expire :: "tid \<Rightarrow> kernel \<Rightarrow> kernel" where
  "expire ptcb k =
     (let k = DEL_FROM_WAKEUP_LINE ptcb k;
          k = (if TCB_usStatus (K_tcb k ptcb) AND LW_THREAD_STATUS_PEND_ANY \<noteq> 0 then unpend ptcb k
               else tcb_upd ptcb (\<lambda>b. b\<lparr>TCB_ucWaitTimeout := LW_WAIT_TIME_CLEAR\<rparr>) k)
      in make_ready ptcb LW_SCHED_ACT_OTHER k)"

section \<open>The tick\<close>

definition wu_op :: "nat option \<Rightarrow> kernel \<Rightarrow> kernel" where
  "wu_op n k = k\<lparr>K_wuDelay := (K_wuDelay k)\<lparr>WU_plineOp := n\<rparr>\<rparr>"

text \<open>
  The loop of \<^verbatim>\<open>__WAKEUP_PASS_FIRST\<close>, \<^verbatim>\<open>__WAKEUP_PASS_SECOND\<close> and \<^verbatim>\<open>__WAKEUP_PASS_END\<close> around the
  body of \<^verbatim>\<open>_ThreadTick\<close>: the cursor \<open>WU_plineOp\<close> is at the next node, and the loop stops at a
  node that is not due.
\<close>

partial_function (option) wakeup_pass :: "ulong \<Rightarrow> kernel \<Rightarrow> kernel option" where
  [code]: "wakeup_pass ulCounter k =
     (case WU_plineOp (K_wuDelay k) of
        None \<Rightarrow> Some k
      | Some pwun \<Rightarrow>
          let k = wu_op (line_right (WU_plineHeader (K_wuDelay k)) pwun) k in
          if TCB_ulDelay (K_tcb k pwun) > ulCounter then
            Some (tcb_upd pwun (\<lambda>b. b\<lparr>TCB_ulDelay := TCB_ulDelay b - ulCounter\<rparr>) k)
          else
            let ulCounter = ulCounter - TCB_ulDelay (K_tcb k pwun);
                k = tcb_upd pwun (\<lambda>b. b\<lparr>TCB_ulDelay := 0\<rparr>) k
            in wakeup_pass ulCounter (expire pwun k))"

definition thread_tick :: "kernel \<Rightarrow> kernel option" where
  "thread_tick k = wakeup_pass 1 (wu_op (head_of (WU_plineHeader (K_wuDelay k))) k)"

definition ThreadTick :: "env \<Rightarrow> kernel \<Rightarrow> (env \<times> kernel) option" where
  "ThreadTick env k =
     (case thread_tick (kernelEnterIrq k) of
        None \<Rightarrow> None
      | Some k \<Rightarrow> map_option (\<lambda>(_, env, k). (env, k)) (kernelExitIrq env k))"

section \<open>Calls on threads\<close>

definition Thread_Invalid :: "nat \<Rightarrow> kernel \<Rightarrow> bool" where
  "Thread_Invalid usIndex k \<longleftrightarrow> K_ptcbTCBIdTable k usIndex = None"

definition Thread_Index_Invalid :: "nat \<Rightarrow> kernel \<Rightarrow> bool" where
  "Thread_Index_Invalid usIndex k \<longleftrightarrow> usIndex \<ge> LW_CFG_MAX_THREADS \<or> usIndex < K_ncpus k"

text \<open>
  The frame of a call on a thread: the checks of the handle, the entry to the kernel, the look-up
  of the control block, the body and the exit.
\<close>

definition thread_section :: "(nat \<Rightarrow> kernel \<Rightarrow> bool) \<Rightarrow> ulong \<Rightarrow> (tid \<Rightarrow> kernel \<Rightarrow> ulong \<times> kernel) \<Rightarrow> env \<Rightarrow> kernel \<Rightarrow>
    (ulong \<times> env \<times> kernel) option" where
  "thread_section invalid ulId body env k =
     (let usIndex = unat (ObjectGetIndex ulId) in
      if \<not> ObjectClassOK ulId OBJECT_THREAD then Some (ERROR_KERNEL_HANDLE_NULL, env, ErrorHandle ERROR_KERNEL_HANDLE_NULL k)
      else if invalid usIndex k then Some (ERROR_THREAD_NULL, env, ErrorHandle ERROR_THREAD_NULL k)
      else
        let k = kernelEnter k;
            (ulError, k) = (case K_ptcbTCBIdTable k usIndex of None \<Rightarrow> (ERROR_THREAD_NULL, k) | Some ptcb \<Rightarrow> body ptcb k)
        in map_option (\<lambda>(_, env, k). (ulError, env, ErrorHandle ulError k)) (kernelExit env k))"

definition ThreadSuspend :: "ulong \<Rightarrow> env \<Rightarrow> kernel \<Rightarrow> (ulong \<times> env \<times> kernel) option" where
  "ThreadSuspend ulId = thread_section Thread_Index_Invalid ulId (\<lambda>ptcb k. ThreadStatusChange ptcb LW_TCB_REQ_SUSPEND k)"

definition thread_resume :: "tid \<Rightarrow> kernel \<Rightarrow> ulong \<times> kernel" where
  "thread_resume ptcb k =
     (if TCB_iDeleteProcStatus (K_tcb k ptcb) \<noteq> 0 then (ERROR_THREAD_OTHER_DELETE, k)
      else if TCB_ulSuspendNesting (K_tcb k ptcb) = 0 then (ERROR_NONE, k)
      else
        let k = tcb_upd ptcb (\<lambda>b. b\<lparr>TCB_ulSuspendNesting := TCB_ulSuspendNesting b - 1\<rparr>) k in
        if TCB_ulSuspendNesting (K_tcb k ptcb) = 0 then
          let k = tcb_upd ptcb (\<lambda>b. b\<lparr>TCB_usStatus := TCB_usStatus b AND NOT LW_THREAD_STATUS_SUSPEND\<rparr>) k
          in (ERROR_NONE, make_ready ptcb LW_SCHED_ACT_INTERRUPT k)
        else (ERROR_NONE, k))"

definition ThreadResume :: "ulong \<Rightarrow> env \<Rightarrow> kernel \<Rightarrow> (ulong \<times> env \<times> kernel) option" where
  "ThreadResume ulId = thread_section Thread_Index_Invalid ulId thread_resume"

definition thread_force_resume :: "tid \<Rightarrow> kernel \<Rightarrow> ulong \<times> kernel" where
  "thread_force_resume ptcb k =
     (if TCB_iDeleteProcStatus (K_tcb k ptcb) \<noteq> 0 then (ERROR_THREAD_OTHER_DELETE, k)
      else if TCB_ulSuspendNesting (K_tcb k ptcb) = 0 then (ERROR_NONE, k)
      else
        let k = tcb_upd ptcb (\<lambda>b. b\<lparr>TCB_ulSuspendNesting := 0\<rparr>) k;
            k = tcb_upd ptcb (\<lambda>b. b\<lparr>TCB_usStatus := TCB_usStatus b AND NOT LW_THREAD_STATUS_SUSPEND\<rparr>) k
        in (ERROR_NONE, make_ready ptcb LW_SCHED_ACT_INTERRUPT k))"

definition ThreadForceResume :: "ulong \<Rightarrow> env \<Rightarrow> kernel \<Rightarrow> (ulong \<times> env \<times> kernel) option" where
  "ThreadForceResume ulId = thread_section Thread_Index_Invalid ulId thread_force_resume"

definition thread_wakeup :: "bool \<Rightarrow> tid \<Rightarrow> kernel \<Rightarrow> ulong \<times> kernel" where
  "thread_wakeup bWithInfPend ptcb k =
     (if LW_THREAD_IS_READY k ptcb then (ERROR_THREAD_NOT_SLEEP, k)
      else if \<not> bWithInfPend \<and> TCB_usStatus (K_tcb k ptcb) AND LW_THREAD_STATUS_DELAY = 0 then (ERROR_THREAD_NOT_SLEEP, k)
      else
        let k = leave_wakeup_line ptcb k;
            k = (if TCB_usStatus (K_tcb k ptcb) AND LW_THREAD_STATUS_PEND_ANY \<noteq> 0 then unpend ptcb k else k)
        in (ERROR_NONE, make_ready ptcb LW_SCHED_ACT_OTHER k))"

definition ThreadWakeupEx :: "ulong \<Rightarrow> bool \<Rightarrow> env \<Rightarrow> kernel \<Rightarrow> (ulong \<times> env \<times> kernel) option" where
  "ThreadWakeupEx ulId bWithInfPend = thread_section Thread_Index_Invalid ulId (thread_wakeup bWithInfPend)"

definition ThreadWakeup :: "ulong \<Rightarrow> env \<Rightarrow> kernel \<Rightarrow> (ulong \<times> env \<times> kernel) option" where
  "ThreadWakeup ulId = ThreadWakeupEx ulId False"

text \<open>\<^verbatim>\<open>API_ThreadStop\<close> accepts the idle threads; a request that was not served tells that the thread is gone.\<close>

definition Stop_Index_Invalid :: "nat \<Rightarrow> kernel \<Rightarrow> bool" where
  "Stop_Index_Invalid usIndex k \<longleftrightarrow> usIndex \<ge> LW_CFG_MAX_THREADS"

definition ThreadStopApi :: "ulong \<Rightarrow> env \<Rightarrow> kernel \<Rightarrow> (ulong \<times> env \<times> kernel) option" where
  "ThreadStopApi ulId env k =
     (let usIndex = unat (ObjectGetIndex ulId) in
      if \<not> ObjectClassOK ulId OBJECT_THREAD then Some (ERROR_KERNEL_HANDLE_NULL, env, ErrorHandle ERROR_KERNEL_HANDLE_NULL k)
      else if Stop_Index_Invalid usIndex k then Some (ERROR_THREAD_NULL, env, ErrorHandle ERROR_THREAD_NULL k)
      else
        let k = kernelEnter k in
        case K_ptcbTCBIdTable k usIndex of
          None \<Rightarrow> map_option (\<lambda>(_, env, k). (ERROR_THREAD_NULL, env, ErrorHandle ERROR_THREAD_NULL k)) (kernelExit env k)
        | Some ptcb \<Rightarrow>
            if TCB_iDeleteProcStatus (K_tcb k ptcb) \<noteq> 0 then
              map_option (\<lambda>(_, env, k). (ERROR_THREAD_NULL, env, ErrorHandle ERROR_THREAD_NULL k)) (kernelExit env k)
            else
              let (ulError, k) = ThreadStop ptcb k in
              map_option (\<lambda>(_, env, k).
                  let ptcbCur = LW_TCB_GET_CUR k;
                      (ulError, k) = (if TCB_uiStatusChangeReq (K_tcb k ptcbCur) \<noteq> 0
                        then (ERROR_THREAD_NULL, tcb_upd ptcbCur (\<lambda>b. b\<lparr>TCB_uiStatusChangeReq := 0\<rparr>) k) else (ulError, k))
                  in (ulError, env, ErrorHandle ulError k)) (kernelExit env k))"

definition ThreadContinueApi :: "ulong \<Rightarrow> env \<Rightarrow> kernel \<Rightarrow> (ulong \<times> env \<times> kernel) option" where
  "ThreadContinueApi ulId = thread_section Stop_Index_Invalid ulId (\<lambda>ptcb k. ThreadContinue ptcb False k)"

definition ThreadYield :: "ulong \<Rightarrow> env \<Rightarrow> kernel \<Rightarrow> (ulong \<times> env \<times> kernel) option" where
  "ThreadYield ulId env k =
     (if CpuGetNesting k \<noteq> 0 then Some (ERROR_KERNEL_IN_ISR, env, ErrorHandle ERROR_KERNEL_IN_ISR k)
      else thread_section Thread_Index_Invalid ulId
        (\<lambda>ptcb k. if LW_THREAD_IS_READY k ptcb then (ERROR_NONE, SchedYield ptcb k) else (ERROR_THREAD_NOT_READY, k)) env k)"

definition thread_set_priority :: "u8 \<Rightarrow> tid \<Rightarrow> kernel \<Rightarrow> ulong \<times> kernel" where
  "thread_set_priority ucPriority ptcb k =
     (if TCB_iDeleteProcStatus (K_tcb k ptcb) \<noteq> 0 then (ERROR_THREAD_OTHER_DELETE, k)
      else if TCB_ucPriority (K_tcb k ptcb) = ucPriority then (ERROR_NONE, k)
      else (ERROR_NONE, SchedSetPrio ptcb ucPriority k))"

text \<open>The lowest priority is the one of the idle threads only.\<close>

definition PriorityCheck :: "u8 \<Rightarrow> bool" where
  "PriorityCheck ucPriority \<longleftrightarrow> ucPriority \<ge> LW_PRIO_LOWEST"

definition ThreadSetPriority :: "ulong \<Rightarrow> u8 \<Rightarrow> env \<Rightarrow> kernel \<Rightarrow> (ulong \<times> env \<times> kernel) option" where
  "ThreadSetPriority ulId ucPriority env k =
     (if CpuGetNesting k \<noteq> 0 then Some (ERROR_KERNEL_IN_ISR, env, ErrorHandle ERROR_KERNEL_IN_ISR k)
      else if \<not> ObjectClassOK ulId OBJECT_THREAD then Some (ERROR_KERNEL_HANDLE_NULL, env, ErrorHandle ERROR_KERNEL_HANDLE_NULL k)
      else if PriorityCheck ucPriority then Some (ERROR_THREAD_PRIORITY_WRONG, env, ErrorHandle ERROR_THREAD_PRIORITY_WRONG k)
      else thread_section Thread_Index_Invalid ulId (thread_set_priority ucPriority) env k)"

end
