(* ===== verification/Mutex.thy ===== *)
theory Mutex
  imports Threads Sem
begin

text \<open>
  Mutexes (\<^verbatim>\<open>kernel/interface/SemaphoreM*.c\<close>) and the safe mode of threads they set
  (\<^verbatim>\<open>kernel/core/_ThreadSafeLib.c\<close>, \<^verbatim>\<open>ThreadSafe.c\<close>, \<^verbatim>\<open>ThreadUnsafe.c\<close>, \<^verbatim>\<open>ThreadIsSafe.c\<close>), and the calls that choose
  the kind of semaphore by the class of the handle (\<^verbatim>\<open>SemaphorePend.c\<close> and its neighbours). A mutex
  is an event: \<open>EVENT_ulCounter\<close> says that it is free, \<open>EVENT_pvTcbOwn\<close> who owns it, \<open>EVENT_pvPtr\<close> how often
  the owner has taken it again, and \<open>EVENT_ulMaxCounter\<close> is the priority the owner had.
\<close>

section \<open>The safe mode\<close>

definition ThreadSafeInKern :: "tid \<Rightarrow> kernel \<Rightarrow> kernel" where
  "ThreadSafeInKern ptcbDes = tcb_upd ptcbDes (\<lambda>b. b\<lparr>TCB_ulThreadSafeCounter := TCB_ulThreadSafeCounter b + 1\<rparr>)"

definition ThreadSafeInternal :: "env \<Rightarrow> kernel \<Rightarrow> (env \<times> kernel) option" where
  "ThreadSafeInternal env k =
     (let k = kernelEnterIrq k;
          k = tcb_upd (LW_TCB_GET_CUR k) (\<lambda>b. b\<lparr>TCB_ulThreadSafeCounter := TCB_ulThreadSafeCounter b + 1\<rparr>) k
      in map_option (\<lambda>(_, env, k). (env, k)) (kernelExitIrq env k))"

text \<open>
  A thread that leaves the safe mode may have to carry out what was asked of it meanwhile: the call
  of \<^verbatim>\<open>API_ThreadDelete\<close> or \<^verbatim>\<open>API_ThreadRestart\<close> that follows is the first result.
\<close>

datatype unsafe_next = Unsafe_Done | Unsafe_Delete tid | Unsafe_Restart tid

definition ThreadUnsafeInternalEx :: "tid \<Rightarrow> env \<Rightarrow> kernel \<Rightarrow> (unsafe_next \<times> env \<times> kernel) option" where
  "ThreadUnsafeInternalEx ptcbDes env k =
     (let k = kernelEnterIrq k in
      if TCB_ulThreadSafeCounter (K_tcb k ptcbDes) = 0 then
        map_option (\<lambda>(_, env, k). (Unsafe_Done, env, k)) (kernelExitIrq env k)
      else
        let k = tcb_upd ptcbDes (\<lambda>b. b\<lparr>TCB_ulThreadSafeCounter := TCB_ulThreadSafeCounter b - 1\<rparr>) k in
        if TCB_ulThreadSafeCounter (K_tcb k ptcbDes) \<noteq> 0 then
          map_option (\<lambda>(_, env, k). (Unsafe_Done, env, k)) (kernelExitIrq env k)
        else
          (case TCB_ptcbDeleteMe (K_tcb k ptcbDes) of
             Some ptcbResume \<Rightarrow>
               let k = tcb_upd ptcbDes (\<lambda>b. b\<lparr>TCB_ptcbDeleteMe := None\<rparr>) k;
                   k = (case ptcbResume of
                          None \<Rightarrow> k
                        | Some t \<Rightarrow>
                            if t \<noteq> ptcbDes \<and> \<not> Thread_Invalid (unat (ObjectGetIndex (TCB_ulId (K_tcb k t)))) k
                            then ThreadSafeResume t (tcb_upd t (\<lambda>b. b\<lparr>TCB_ptcbDeleteWait := None\<rparr>) k)
                            else k)
               in map_option (\<lambda>(_, env, k). (Unsafe_Delete ptcbDes, env, k)) (kernelExitIrq env k)
           | None \<Rightarrow>
               if TCB_bRestartReq (K_tcb k ptcbDes)
               then map_option (\<lambda>(_, env, k). (Unsafe_Restart ptcbDes, env, k)) (kernelExitIrq env k)
               else map_option (\<lambda>(_, env, k). (Unsafe_Done, env, k)) (kernelExitIrq env k)))"

definition ThreadUnsafeInternal :: "env \<Rightarrow> kernel \<Rightarrow> (unsafe_next \<times> env \<times> kernel) option" where
  "ThreadUnsafeInternal env k = ThreadUnsafeInternalEx (LW_TCB_GET_CUR k) env k"

definition ThreadSafe :: "env \<Rightarrow> kernel \<Rightarrow> (ulong \<times> env \<times> kernel) option" where
  "ThreadSafe env k =
     (if CpuGetNesting k \<noteq> 0 then Some (ERROR_KERNEL_IN_ISR, env, ErrorHandle ERROR_KERNEL_IN_ISR k)
      else map_option (\<lambda>(env, k). (ERROR_NONE, env, k)) (ThreadSafeInternal env k))"

definition ThreadUnsafe :: "env \<Rightarrow> kernel \<Rightarrow> (ulong \<times> unsafe_next \<times> env \<times> kernel) option" where
  "ThreadUnsafe env k =
     (if CpuGetNesting k \<noteq> 0 then Some (ERROR_KERNEL_IN_ISR, Unsafe_Done, env, ErrorHandle ERROR_KERNEL_IN_ISR k)
      else map_option (\<lambda>(n, env, k). (ERROR_NONE, n, env, k)) (ThreadUnsafeInternal env k))"

definition ThreadIsSafe :: "ulong \<Rightarrow> env \<Rightarrow> kernel \<Rightarrow> (bool \<times> env \<times> kernel) option" where
  "ThreadIsSafe ulId env k =
     (let usIndex = unat (ObjectGetIndex ulId) in
      if \<not> ObjectClassOK ulId OBJECT_THREAD then Some (False, env, ErrorHandle ERROR_KERNEL_HANDLE_NULL k)
      else if Thread_Index_Invalid usIndex k then Some (False, env, ErrorHandle ERROR_THREAD_NULL k)
      else
        let k = kernelEnter k in
        (case K_ptcbTCBIdTable k usIndex of
           None \<Rightarrow> map_option (\<lambda>(_, env, k). (False, env, ErrorHandle ERROR_THREAD_NULL k)) (kernelExit env k)
         | Some ptcb \<Rightarrow>
             let bIsInSafeMode = (TCB_ulThreadSafeCounter (K_tcb k ptcb) \<noteq> 0)
             in map_option (\<lambda>(_, env, k). (bIsInSafeMode, env, k)) (kernelExit env k)))"

section \<open>Taking a mutex\<close>

text \<open>The part of \<^verbatim>\<open>API_SemaphoreMPend\<close> that does not wait; no result means that the thread has to.\<close>

definition semM_try :: "nat \<Rightarrow> tid \<Rightarrow> ulong \<Rightarrow> kernel \<Rightarrow> (ulong \<times> kernel) option" where
  "semM_try pevent ptcbCur ulTimeout k =
     (let ulOption = EVENT_ulOption (K_eventBuffer k pevent) in
      if EVENT_ulCounter (K_eventBuffer k pevent) \<noteq> 0 then
        let k = event_upd pevent (\<lambda>v. v\<lparr>EVENT_ulCounter := 0, EVENT_ulMaxCounter := ucast (prio k ptcbCur),
                  EVENT_pvTcbOwn := Some ptcbCur\<rparr>) k
        in Some (ERROR_NONE, if ulOption AND LW_OPTION_DELETE_SAFE \<noteq> 0 then ThreadSafeInKern ptcbCur k else k)
      else if ulOption AND LW_OPTION_NORMAL = 0 \<and> EVENT_pvTcbOwn (K_eventBuffer k pevent) = Some ptcbCur then
        if ulOption AND LW_OPTION_ERRORCHECK \<noteq> 0 then Some (EDEADLK, k)
        else Some (ERROR_NONE, event_upd pevent (\<lambda>v. v\<lparr>EVENT_pvPtr := EVENT_pvPtr v + 1\<rparr>) k)
      else if ulTimeout = LW_OPTION_NOT_WAIT then Some (ERROR_THREAD_WAIT_TIMEOUT, k)
      else None)"

definition semM_block :: "nat \<Rightarrow> tid \<Rightarrow> ulong \<Rightarrow> kernel \<Rightarrow> kernel" where
  "semM_block pevent ptcbCur ulTimeout k =
     ev_block pevent EVENT_SEM_Q LW_THREAD_STATUS_SEM ulTimeout (EventPrioTryBoost pevent ptcbCur k)"

text \<open>The loop from \<^verbatim>\<open>__wait_again\<close>; each round uses up an absence of the thread.\<close>

function semM_pend :: "ulong \<Rightarrow> tid \<Rightarrow> ulong \<Rightarrow> env \<Rightarrow> kernel \<Rightarrow> (ulong \<times> env \<times> kernel) option" where
  "semM_pend ulId ptcbCur ulTimeout env k =
     (let usIndex = unat (ObjectGetIndex ulId) in
      if \<not> ObjectClassOK ulId OBJECT_SEM_M then Some (ERROR_KERNEL_HANDLE_NULL, env, ErrorHandle ERROR_KERNEL_HANDLE_NULL k)
      else if Event_Index_Invalid usIndex then Some (ERROR_KERNEL_HANDLE_NULL, env, ErrorHandle ERROR_KERNEL_HANDLE_NULL k)
      else if K_ucSysStatus k \<noteq> LW_SYS_STATUS_RUNNING then Some (ERROR_NONE, env, k)
      else
        let k = kernelEnter k in
        if Event_Type_Invalid usIndex LW_TYPE_EVENT_MUTEX k then
          map_option (\<lambda>(_, env, k). (ERROR_EVENT_TYPE, env, ErrorHandle ERROR_EVENT_TYPE k)) (kernelExit env k)
        else
          (case semM_try usIndex ptcbCur ulTimeout k of
             Some (ulError, k) \<Rightarrow> map_option (\<lambda>(_, env, k). (ulError, env, ErrorHandle ulError k)) (kernelExit env k)
           | None \<Rightarrow>
               let ulTimeSave = K_i64KernelTime k;
                   k = semM_block usIndex ptcbCur ulTimeout k;
                   ulEventOption = EVENT_ulOption (K_eventBuffer k usIndex)
               in (case kernelExit env k of
                     None \<Rightarrow> None
                   | Some (iSchedRet, env', k) \<Rightarrow>
                       if iSchedRet \<noteq> 0 then
                         if iSchedRet = LW_SIGNAL_EINTR \<and> ulEventOption AND LW_OPTION_SIGNAL_INTER \<noteq> 0 then
                           Some (EINTR, env', ErrorHandle EINTR k)
                         else
                           let ulTimeout = sigTimeoutRecalc ulTimeSave ulTimeout k in
                           if ulTimeout = LW_OPTION_NOT_WAIT then
                             Some (ERROR_THREAD_WAIT_TIMEOUT, env', ErrorHandle ERROR_THREAD_WAIT_TIMEOUT k)
                           else if length env' < length env then semM_pend ulId ptcbCur ulTimeout env' k
                           else None
                       else
                         let ulError = pend_result ptcbCur k
                         in Some (ulError, env', ErrorHandle ulError k))))"
  by pat_completeness auto
termination by (relation "measure (\<lambda>(_, _, _, env, _). length env)") auto

declare semM_pend.simps [simp del]

definition SemaphoreMPend :: "ulong \<Rightarrow> ulong \<Rightarrow> env \<Rightarrow> kernel \<Rightarrow> (ulong \<times> env \<times> kernel) option" where
  "SemaphoreMPend ulId ulTimeout env k =
     (if CpuGetNesting k \<noteq> 0 then Some (ERROR_KERNEL_IN_ISR, env, ErrorHandle ERROR_KERNEL_IN_ISR k)
      else semM_pend ulId (LW_TCB_GET_CUR k) ulTimeout env k)"

section \<open>Giving a mutex back\<close>

text \<open>
  The body of \<^verbatim>\<open>API_SemaphoreMPost\<close>: the error code, whether the caller has let go of the mutex (and
  leaves the safe mode after the kernel), and the kernel.
\<close>

definition semM_post :: "nat \<Rightarrow> tid \<Rightarrow> kernel \<Rightarrow> ulong \<times> bool \<times> kernel" where
  "semM_post pevent ptcbCur k =
     (if EVENT_pvTcbOwn (K_eventBuffer k pevent) \<noteq> Some ptcbCur then (ERROR_EVENT_NOT_OWN, False, k)
      else if EVENT_pvPtr (K_eventBuffer k pevent) \<noteq> 0 then
        (ERROR_NONE, False, event_upd pevent (\<lambda>v. v\<lparr>EVENT_pvPtr := EVENT_pvPtr v - 1\<rparr>) k)
      else if EventWaitNum EVENT_SEM_Q pevent k \<noteq> 0 then
        (case ev_ready_low pevent EVENT_SEM_Q 0 k of
           (None, k) \<Rightarrow> (ERROR_NONE, True, k)
         | (Some ptcb, k) \<Rightarrow>
             let k = EventPrioTryResume pevent ptcbCur k;
                 k = event_upd pevent (\<lambda>v. v\<lparr>EVENT_ulMaxCounter := ucast (prio k ptcb), EVENT_pvTcbOwn := Some ptcb\<rparr>) k;
                 k = EventReadyHighLevel ptcb LW_THREAD_STATUS_SEM LW_SCHED_ACT_INTERRUPT k
             in (ERROR_NONE, True,
                 if EVENT_ulOption (K_eventBuffer k pevent) AND LW_OPTION_DELETE_SAFE \<noteq> 0 then ThreadSafeInKern ptcb k else k))
      else if EVENT_ulCounter (K_eventBuffer k pevent) = 0 then
        (ERROR_NONE, True, event_upd pevent (\<lambda>v. v\<lparr>EVENT_ulCounter := 1, EVENT_ulMaxCounter := ucast LW_PRIO_LOWEST, EVENT_pvTcbOwn := None\<rparr>) k)
      else (ERROR_EVENT_FULL, False, k))"

definition SemaphoreMPost :: "ulong \<Rightarrow> env \<Rightarrow> kernel \<Rightarrow> (ulong \<times> unsafe_next \<times> env \<times> kernel) option" where
  "SemaphoreMPost ulId env k =
     (let usIndex = unat (ObjectGetIndex ulId); ptcbCur = LW_TCB_GET_CUR k in
      if CpuGetNesting k \<noteq> 0 then Some (ERROR_KERNEL_IN_ISR, Unsafe_Done, env, ErrorHandle ERROR_KERNEL_IN_ISR k)
      else if \<not> ObjectClassOK ulId OBJECT_SEM_M then Some (ERROR_KERNEL_HANDLE_NULL, Unsafe_Done, env, ErrorHandle ERROR_KERNEL_HANDLE_NULL k)
      else if Event_Index_Invalid usIndex then Some (ERROR_KERNEL_HANDLE_NULL, Unsafe_Done, env, ErrorHandle ERROR_KERNEL_HANDLE_NULL k)
      else if K_ucSysStatus k \<noteq> LW_SYS_STATUS_RUNNING then Some (ERROR_NONE, Unsafe_Done, env, k)
      else
        let k = kernelEnter k;
            (ulError, released, k) = (if Event_Type_Invalid usIndex LW_TYPE_EVENT_MUTEX k then (ERROR_EVENT_TYPE, False, k)
                                      else semM_post usIndex ptcbCur k)
        in (case kernelExit env k of
              None \<Rightarrow> None
            | Some (_, env, k) \<Rightarrow>
                if released \<and> EVENT_ulOption (K_eventBuffer k usIndex) AND LW_OPTION_DELETE_SAFE \<noteq> 0
                then map_option (\<lambda>(n, env, k). (ERROR_NONE, n, env, k)) (ThreadUnsafeInternal env k)
                else Some (ulError, Unsafe_Done, env, ErrorHandle ulError k)))"

section \<open>Creating, deleting and asking\<close>

text \<open>The body of \<^verbatim>\<open>API_SemaphoreMDelete\<close>; its result is the owner, if there is one that still exists.\<close>

definition semM_delete :: "nat \<Rightarrow> kernel \<Rightarrow> (tid option \<times> kernel) option" where
  "semM_delete pevent k =
     (let k = event_upd pevent (\<lambda>e. e\<lparr>EVENT_ucType := LW_TYPE_EVENT_UNUSED\<rparr>) k in
      map_option (\<lambda>k.
          let own = EVENT_pvTcbOwn (K_eventBuffer k pevent);
              k = event_upd pevent (\<lambda>e. e\<lparr>EVENT_pvTcbOwn := None\<rparr>) k;
              own = (case own of None \<Rightarrow> None
                     | Some ptcb \<Rightarrow> if K_ptcbTCBIdTable k (unat (TCB_usIndex (K_tcb k ptcb))) = Some ptcb then Some ptcb else None);
              k = (case own of None \<Rightarrow> k
                   | Some ptcb \<Rightarrow>
                       let ucPriority = ucast (EVENT_ulMaxCounter (K_eventBuffer k pevent)) in
                       if ucPriority \<noteq> prio k ptcb then SchedSetPrio ptcb ucPriority k else k)
          in (own, Free_Event_Object pevent k))
        (ev_wake_all pevent EVENT_SEM_Q True LW_THREAD_STATUS_SEM LW_SCHED_ACT_OTHER k))"

definition SemaphoreMDelete :: "ulong \<Rightarrow> env \<Rightarrow> kernel \<Rightarrow> (ulong \<times> ulong \<times> unsafe_next \<times> env \<times> kernel) option" where
  "SemaphoreMDelete pulId env k =
     (let usIndex = unat (ObjectGetIndex pulId) in
      if CpuGetNesting k \<noteq> 0 then Some (ERROR_KERNEL_IN_ISR, pulId, Unsafe_Done, env, ErrorHandle ERROR_KERNEL_IN_ISR k)
      else if \<not> ObjectClassOK pulId OBJECT_SEM_M then Some (ERROR_KERNEL_HANDLE_NULL, pulId, Unsafe_Done, env, ErrorHandle ERROR_KERNEL_HANDLE_NULL k)
      else if Event_Index_Invalid usIndex then Some (ERROR_KERNEL_HANDLE_NULL, pulId, Unsafe_Done, env, ErrorHandle ERROR_KERNEL_HANDLE_NULL k)
      else
        let k = kernelEnterIrq k in
        if Event_Type_Invalid usIndex LW_TYPE_EVENT_MUTEX k then
          map_option (\<lambda>(_, env, k). (ERROR_EVENT_TYPE, pulId, Unsafe_Done, env, ErrorHandle ERROR_EVENT_TYPE k)) (kernelExitIrq env k)
        else
          (case semM_delete usIndex k of
             None \<Rightarrow> None
           | Some (own, k) \<Rightarrow>
               let ulOptionTemp = EVENT_ulOption (K_eventBuffer k usIndex) in
               (case kernelExit env k of
                  None \<Rightarrow> None
                | Some (_, env, k) \<Rightarrow>
                    (case own of
                       Some ptcb \<Rightarrow>
                         if ulOptionTemp AND LW_OPTION_DELETE_SAFE \<noteq> 0
                         then map_option (\<lambda>(n, env, k). (ERROR_NONE, 0, n, env, k)) (ThreadUnsafeInternalEx ptcb env k)
                         else Some (ERROR_NONE, 0, Unsafe_Done, env, k)
                     | None \<Rightarrow> Some (ERROR_NONE, 0, Unsafe_Done, env, k)))))"

text \<open>The frame of the calls that only read; the section is \<open>event_section\<close>, entered with \<^verbatim>\<open>__KERNEL_ENTER\<close>.\<close>

definition SemaphoreMStatus :: "ulong \<Rightarrow> env \<Rightarrow> kernel \<Rightarrow> (ulong \<times> (u32 \<times> ulong \<times> u16) option \<times> env \<times> kernel) option" where
  "SemaphoreMStatus ulId = event_section OBJECT_SEM_M LW_TYPE_EVENT_MUTEX ulId None
     (\<lambda>e k. Some (ERROR_NONE, Some (ucast (EVENT_ulCounter (K_eventBuffer k e)), EVENT_ulOption (K_eventBuffer k e),
        EventWaitNum EVENT_SEM_Q e k), k))"

definition SemaphoreMStatusEx :: "ulong \<Rightarrow> env \<Rightarrow> kernel \<Rightarrow> (ulong \<times> (u32 \<times> ulong \<times> u16 \<times> ulong) option \<times> env \<times> kernel) option" where
  "SemaphoreMStatusEx ulId = event_section OBJECT_SEM_M LW_TYPE_EVENT_MUTEX ulId None
     (\<lambda>e k. if EVENT_ulCounter (K_eventBuffer k e) \<noteq> 0 then
          Some (ERROR_NONE, Some (ucast (EVENT_ulCounter (K_eventBuffer k e)), EVENT_ulOption (K_eventBuffer k e),
            EventWaitNum EVENT_SEM_Q e k, 0), k)
        else (case EVENT_pvTcbOwn (K_eventBuffer k e) of
           None \<Rightarrow> Some (ERROR_NONE, None, bug k)
         | Some t \<Rightarrow> Some (ERROR_NONE, Some (ucast (EVENT_ulCounter (K_eventBuffer k e)), EVENT_ulOption (K_eventBuffer k e),
             EventWaitNum EVENT_SEM_Q e k, TCB_ulId (K_tcb k t)), k)))"

definition SemaphoreMCreate :: "string option \<Rightarrow> u8 \<Rightarrow> ulong \<Rightarrow> env \<Rightarrow> kernel \<Rightarrow> (ulong \<times> env \<times> kernel) option" where
  "SemaphoreMCreate pcName ucCeilingPriority ulOption env k =
     (if CpuGetNesting k \<noteq> 0 then Some (LW_OBJECT_HANDLE_INVALID, env, ErrorHandle ERROR_KERNEL_IN_ISR k)
      else if PriorityCheck ucCeilingPriority then Some (LW_OBJECT_HANDLE_INVALID, env, ErrorHandle ERROR_THREAD_PRIORITY_WRONG k)
      else event_create OBJECT_SEM_M pcName
        (\<lambda>v. v\<lparr>EVENT_ucType := LW_TYPE_EVENT_MUTEX, EVENT_ulCounter := 1, EVENT_ulMaxCounter := ucast LW_PRIO_LOWEST,
           EVENT_ucCeilingPriority := ucCeilingPriority, EVENT_ulOption := ulOption\<rparr>) env k)"

section \<open>Calls on any semaphore\<close>

text \<open>
  The class of the handle selects the call. Binary, counting and mutual exclusion semaphores are
  served; the read-write semaphores have no common waiting call and are refused like any other
  handle.
\<close>

definition SemaphorePend :: "ulong \<Rightarrow> ulong \<Rightarrow> env \<Rightarrow> kernel \<Rightarrow> (ulong \<times> env \<times> kernel) option" where
  "SemaphorePend ulId ulTimeout env k =
     (let ulObjectClass = ObjectGetClass ulId in
      if ulObjectClass = ucast OBJECT_SEM_B then SemaphoreBPend ulId ulTimeout env k
      else if ulObjectClass = ucast OBJECT_SEM_C then SemaphoreCPend ulId ulTimeout env k
      else if ulObjectClass = ucast OBJECT_SEM_M then SemaphoreMPend ulId ulTimeout env k
      else Some (ERROR_KERNEL_HANDLE_NULL, env, ErrorHandle ERROR_KERNEL_HANDLE_NULL k))"

definition SemaphoreFlush :: "ulong \<Rightarrow> env \<Rightarrow> kernel \<Rightarrow> (ulong \<times> u16 option \<times> env \<times> kernel) option" where
  "SemaphoreFlush ulId env k =
     (let ulObjectClass = ObjectGetClass ulId in
      if ulObjectClass = ucast OBJECT_SEM_B then SemaphoreBFlush ulId env k
      else if ulObjectClass = ucast OBJECT_SEM_C then SemaphoreCFlush ulId env k
      else Some (ERROR_KERNEL_HANDLE_NULL, None, env, ErrorHandle ERROR_KERNEL_HANDLE_NULL k))"

end
