(* ===== verification/OtherWait.thy ===== *)
theory OtherWait
  imports EventOps EventSet Vutex
begin

text \<open>
  The invariant of the threads that wait for an event set or for the value of a variable: the list
  of an event set and the buckets of the vutexes hold exactly the threads whose control blocks say
  so, each once, and such a thread waits for nothing else; and only threads that exist are delayed.
\<close>

definition es_of :: "kernel \<Rightarrow> tid \<Rightarrow> nat option" where
  "es_of k t = map_option EVENTSETNODE_pesEventSet (TCB_pesnPtr (K_tcb k t))"

abbreviation es_waiters :: "kernel \<Rightarrow> nat \<Rightarrow> tid list" where
  "es_waiters k s \<equiv> EVENTSET_plineWaitList (K_esBuffer k s)"

definition vutex_in :: "kernel \<Rightarrow> tid \<Rightarrow> nat \<Rightarrow> bool" where
  "vutex_in k t h \<longleftrightarrow> VUTEX_IS_WAITING k t \<and> VUTEX_uiHash (TCB_vutex (K_tcb k t)) = h"

definition oth_ok :: "tid set \<Rightarrow> kernel \<Rightarrow> bool" where
  "oth_ok T k \<longleftrightarrow>
     (\<forall>s. distinct (es_waiters k s)) \<and> (\<forall>s t. t \<in> set (es_waiters k s) \<longleftrightarrow> es_of k t = Some s) \<and>
     (\<forall>h. distinct (k_plineVutexHashHeader k h)) \<and> (\<forall>h t. t \<in> set (k_plineVutexHashHeader k h) \<longleftrightarrow> vutex_in k t h) \<and>
     (\<forall>t. TCB_pesnPtr (K_tcb k t) \<noteq> None \<longrightarrow> TCB_usStatus (K_tcb k t) AND LW_THREAD_STATUS_EVENTSET \<noteq> 0 \<and> \<not> VUTEX_IS_WAITING k t) \<and>
     (\<forall>t. VUTEX_IS_WAITING k t \<longrightarrow> TCB_usStatus (K_tcb k t) AND LW_THREAD_STATUS_VUTEX \<noteq> 0 \<and>
        VUTEX_uiHash (TCB_vutex (K_tcb k t)) = VutexHash (the (VUTEX_phyaddr (TCB_vutex (K_tcb k t))))) \<and>
     (\<forall>t. TCB_pesnPtr (K_tcb k t) \<noteq> None \<or> VUTEX_IS_WAITING k t \<longrightarrow>
        t \<in> T \<and> TCB_ucWaitTimeout (K_tcb k t) = 0 \<and> TCB_peventPtr (K_tcb k t) = None) \<and> set (dline k) \<subseteq> T"

lemma oth_okD:
  assumes "oth_ok T k"
  shows "distinct (es_waiters k s)" "t \<in> set (es_waiters k s) \<longleftrightarrow> es_of k t = Some s"
    "distinct (k_plineVutexHashHeader k h)" "t \<in> set (k_plineVutexHashHeader k h) \<longleftrightarrow> vutex_in k t h"
    "TCB_pesnPtr (K_tcb k t) \<noteq> None \<Longrightarrow> TCB_usStatus (K_tcb k t) AND LW_THREAD_STATUS_EVENTSET \<noteq> 0"
    "TCB_pesnPtr (K_tcb k t) \<noteq> None \<Longrightarrow> \<not> VUTEX_IS_WAITING k t"
    "VUTEX_IS_WAITING k t \<Longrightarrow> TCB_usStatus (K_tcb k t) AND LW_THREAD_STATUS_VUTEX \<noteq> 0"
    "VUTEX_IS_WAITING k t \<Longrightarrow> VUTEX_uiHash (TCB_vutex (K_tcb k t)) = VutexHash (the (VUTEX_phyaddr (TCB_vutex (K_tcb k t))))"
    "TCB_pesnPtr (K_tcb k t) \<noteq> None \<or> VUTEX_IS_WAITING k t \<Longrightarrow> t \<in> T"
    "TCB_pesnPtr (K_tcb k t) \<noteq> None \<or> VUTEX_IS_WAITING k t \<Longrightarrow> TCB_ucWaitTimeout (K_tcb k t) = 0"
    "TCB_pesnPtr (K_tcb k t) \<noteq> None \<or> VUTEX_IS_WAITING k t \<Longrightarrow> TCB_peventPtr (K_tcb k t) = None"
    "set (dline k) \<subseteq> T"
  using assms unfolding oth_ok_def by blast+

text \<open>What the invariant reads of a control block: nothing of a thread that waits for neither.\<close>

definition oview :: "tcb \<Rightarrow> (esn option \<times> vutex \<times> bool \<times> bool \<times> u8 \<times> nat option) option" where
  "oview b = (if TCB_pesnPtr b = None \<and> VUTEX_phyaddr (TCB_vutex b) = None then None
     else Some (TCB_pesnPtr b, TCB_vutex b, TCB_usStatus b AND LW_THREAD_STATUS_EVENTSET \<noteq> 0,
       TCB_usStatus b AND LW_THREAD_STATUS_VUTEX \<noteq> 0, TCB_ucWaitTimeout b, TCB_peventPtr b))"

lemma oview_none: "oview b = None \<longleftrightarrow> TCB_pesnPtr b = None \<and> VUTEX_phyaddr (TCB_vutex b) = None"
  by (simp add: oview_def)

lemma oviewD:
  assumes "oview b' = oview b"
  shows "TCB_pesnPtr b' = TCB_pesnPtr b" "VUTEX_phyaddr (TCB_vutex b') = VUTEX_phyaddr (TCB_vutex b)"
    "VUTEX_phyaddr (TCB_vutex b) \<noteq> None \<Longrightarrow> TCB_vutex b' = TCB_vutex b"
    "oview b \<noteq> None \<Longrightarrow> TCB_usStatus b' AND LW_THREAD_STATUS_EVENTSET \<noteq> 0 \<longleftrightarrow> TCB_usStatus b AND LW_THREAD_STATUS_EVENTSET \<noteq> 0"
    "oview b \<noteq> None \<Longrightarrow> TCB_usStatus b' AND LW_THREAD_STATUS_VUTEX \<noteq> 0 \<longleftrightarrow> TCB_usStatus b AND LW_THREAD_STATUS_VUTEX \<noteq> 0"
    "oview b \<noteq> None \<Longrightarrow> TCB_ucWaitTimeout b' = TCB_ucWaitTimeout b" "oview b \<noteq> None \<Longrightarrow> TCB_peventPtr b' = TCB_peventPtr b"
  using assms by (auto simp: oview_def split: if_splits)

lemma oth_ok_cong:
  assumes ok: "oth_ok T k" and v: "\<And>u. oview (K_tcb k' u) = oview (K_tcb k u)"
    and q: "\<And>s. es_waiters k' s = es_waiters k s" "k_plineVutexHashHeader k' = k_plineVutexHashHeader k"
    and d: "set (dline k') \<subseteq> T"
  shows "oth_ok T k'"
proof -
  note V = oviewD [OF v]
  have W: "VUTEX_IS_WAITING k' t = VUTEX_IS_WAITING k t" for t by (simp add: VUTEX_IS_WAITING_def V(2))
  have I: "vutex_in k' t h = vutex_in k t h" for t h
    using V(3) [of t] by (auto simp: vutex_in_def W) (simp_all add: VUTEX_IS_WAITING_def)
  have E: "es_of k' t = es_of k t" for t by (simp add: es_of_def V(1))
  note D = oth_okD [OF ok]
  have n: "oview (K_tcb k t) \<noteq> None" if "TCB_pesnPtr (K_tcb k t) \<noteq> None \<or> VUTEX_IS_WAITING k t" for t
    using that by (auto simp: oview_none VUTEX_IS_WAITING_def)
  show ?thesis unfolding oth_ok_def q I E W V(1)
  proof (intro conjI allI impI)
    fix t assume w: "VUTEX_IS_WAITING k t"
    then have "TCB_vutex (K_tcb k' t) = TCB_vutex (K_tcb k t)" using V(3) [of t] by (simp add: VUTEX_IS_WAITING_def)
    then show "VUTEX_uiHash (TCB_vutex (K_tcb k' t)) = VutexHash (the (VUTEX_phyaddr (TCB_vutex (K_tcb k' t))))" using D(8) [OF w] by simp
    show "TCB_usStatus (K_tcb k' t) AND LW_THREAD_STATUS_VUTEX \<noteq> 0" using V(5) [of t] n [of t] D(7) [OF w] w by blast
  next
    fix t assume w: "TCB_pesnPtr (K_tcb k t) \<noteq> None"
    then show "TCB_usStatus (K_tcb k' t) AND LW_THREAD_STATUS_EVENTSET \<noteq> 0" using V(4) [of t] n [of t] D(5) [OF w] by blast
  next
    fix t assume w: "TCB_pesnPtr (K_tcb k t) \<noteq> None \<or> VUTEX_IS_WAITING k t"
    show "TCB_ucWaitTimeout (K_tcb k' t) = 0" "TCB_peventPtr (K_tcb k' t) = None"
      using V(6,7) [of t] n [OF w] D(10,11) [OF w] by simp_all
  qed (use D d in blast)+
qed

lemma oth_ok_tcb: "oth_ok T k \<Longrightarrow> (\<And>b. oview (f b) = oview b) \<Longrightarrow> oth_ok T (tcb_upd t f k)"
  using oth_ok_cong [of T k "tcb_upd t f k"] oth_okD(12) [of T k] by (simp add: dline_def)

lemma oth_ok_erase: "erase k' = erase k \<Longrightarrow> oth_ok T k' = oth_ok T k"
proof -
  have "oth_ok T b" if E: "erase b = erase a" and "oth_ok T a" for a b
    by (rule oth_ok_cong [OF that(2)])
      (simp_all add: oview_def erase_kernelD [OF E] erase_tcbD [OF E] delay_ok_erase(2) [OF E] oth_okD(12) [OF that(2)])
  then show "erase k' = erase k \<Longrightarrow> oth_ok T k' = oth_ok T k" by metis
qed

text \<open>A thread that is ready, or waits for an event, waits for neither.\<close>

lemma oth_ok_ready: "oth_ok T k \<Longrightarrow> LW_THREAD_IS_READY k t \<Longrightarrow> oview (K_tcb k t) = None"
  using oth_okD(5,7) [of T k t] by (auto simp: oview_none LW_THREAD_IS_READY_def VUTEX_IS_WAITING_def simp del: not_None_eq)

lemma oth_ok_event: "oth_ok T k \<Longrightarrow> TCB_peventPtr (K_tcb k t) \<noteq> None \<Longrightarrow> oview (K_tcb k t) = None"
  using oth_okD(11) [of T k t] by (auto simp: oview_none VUTEX_IS_WAITING_def simp del: not_None_eq)

end
