(* ===== verification/Requests.thy ===== *)
theory Requests
  imports Ready OtherWait
begin

text \<open>
  Requests to change the status of a thread that runs on another processor
  (\<^verbatim>\<open>_ThreadStatus.c\<close>): the asking thread waits (\<^verbatim>\<open>LW_THREAD_STATUS_WSTAT\<close>) in a list of the
  target, which serves the list at its next scheduling point. The lemmas show that asking, serving
  and giving up keep the invariant of the kernel, and with it the scheduler keeps it: whatever
  happens while a thread is switched out, as long as it keeps the invariant, the thread finds the
  invariant when it runs again.
\<close>

section \<open>The invariant of the requests\<close>

definition req_ok :: "tid set \<Rightarrow> kernel \<Rightarrow> bool" where
  "req_ok T k \<longleftrightarrow>
     (\<forall>t. distinct (TCB_plineStatusReqHeader (K_tcb k t))) \<and>
     (\<forall>t u. u \<in> set (TCB_plineStatusReqHeader (K_tcb k t)) \<longleftrightarrow> TCB_ptcbWaitStatus (K_tcb k u) = Some t) \<and>
     (\<forall>t u. TCB_ptcbWaitStatus (K_tcb k u) = Some t \<longrightarrow> u \<in> T \<and> t \<in> T \<and> u \<noteq> t \<and> K_ncpus k \<le> t \<and>
        TCB_usStatus (K_tcb k u) AND LW_THREAD_STATUS_WSTAT \<noteq> 0 \<and>
        TCB_uiStatusChangeReq (K_tcb k u) \<in> {LW_TCB_REQ_SUSPEND, LW_TCB_REQ_STOP, LW_TCB_REQ_WDEATH})"

definition base_ok :: "tid set \<Rightarrow> kernel \<Rightarrow> bool" where
  "base_ok T k \<longleftrightarrow> ipc_ok T k \<and> req_ok T k"

lemma req_okD:
  assumes "req_ok T k"
  shows "distinct (TCB_plineStatusReqHeader (K_tcb k t))"
    "u \<in> set (TCB_plineStatusReqHeader (K_tcb k t)) \<longleftrightarrow> TCB_ptcbWaitStatus (K_tcb k u) = Some t"
    "TCB_ptcbWaitStatus (K_tcb k u) = Some t \<Longrightarrow> u \<in> T" "TCB_ptcbWaitStatus (K_tcb k u) = Some t \<Longrightarrow> t \<in> T"
    "TCB_ptcbWaitStatus (K_tcb k u) = Some t \<Longrightarrow> u \<noteq> t" "TCB_ptcbWaitStatus (K_tcb k u) = Some t \<Longrightarrow> K_ncpus k \<le> t"
    "TCB_ptcbWaitStatus (K_tcb k u) = Some t \<Longrightarrow> TCB_usStatus (K_tcb k u) AND LW_THREAD_STATUS_WSTAT \<noteq> 0"
    "TCB_ptcbWaitStatus (K_tcb k u) = Some t \<Longrightarrow>
       TCB_uiStatusChangeReq (K_tcb k u) \<in> {LW_TCB_REQ_SUSPEND, LW_TCB_REQ_STOP, LW_TCB_REQ_WDEATH}"
  using assms unfolding req_ok_def by blast+

text \<open>What the invariant of the requests reads of a control block.\<close>

definition rview :: "tcb \<Rightarrow> tid list \<times> tid option \<times> u32 \<times> u16" where
  "rview b = (TCB_plineStatusReqHeader b, TCB_ptcbWaitStatus b, TCB_uiStatusChangeReq b, TCB_usStatus b AND LW_THREAD_STATUS_WSTAT)"

lemma req_ok_cong:
  assumes "req_ok T k" and "\<And>u. rview (K_tcb k' u) = rview (K_tcb k u)" and "K_ncpus k' = K_ncpus k"
  shows "req_ok T k'"
  using assms unfolding req_ok_def rview_def by simp

lemma req_ok_tcb: "req_ok T k \<Longrightarrow> (\<And>b. rview (f b) = rview b) \<Longrightarrow> req_ok T (tcb_upd t f k)"
  by (erule req_ok_cong) simp_all

lemma req_ok_erase: "erase k' = erase k \<Longrightarrow> req_ok T k' = req_ok T k"
proof -
  have "req_ok T b" if E: "erase b = erase a" and "req_ok T a" for a b
    by (rule req_ok_cong [OF that(2)]) (simp_all add: rview_def erase_kernelD [OF E] erase_tcbD [OF E])
  then show "erase k' = erase k \<Longrightarrow> req_ok T k' = req_ok T k" by metis
qed

lemma make_ready_frame [simp]:
  "TCB_plineStatusReqHeader (K_tcb (make_ready t a k) u) = TCB_plineStatusReqHeader (K_tcb k u)"
  "TCB_ptcbWaitStatus (K_tcb (make_ready t a k) u) = TCB_ptcbWaitStatus (K_tcb k u)"
  "TCB_uiStatusChangeReq (K_tcb (make_ready t a k) u) = TCB_uiStatusChangeReq (K_tcb k u)"
  "TCB_usStatus (K_tcb (make_ready t a k) u) = TCB_usStatus (K_tcb k u)"
  "K_ncpus (make_ready t a k) = K_ncpus k" "K_curcpu (make_ready t a k) = K_curcpu k"
  "CPU_ptcbTCBCur (K_cpu (make_ready t a k) c) = CPU_ptcbTCBCur (K_cpu k c)"
  "rview (K_tcb (make_ready t a k) u) = rview (K_tcb k u)"
  by (simp_all add: make_ready_def Let_def rview_def)

section \<open>Serving the requests\<close>

text \<open>One round of \<open>status_reqs\<close>.\<close>

definition req_effect :: "u32 \<Rightarrow> tcb \<Rightarrow> tcb" where
  "req_effect req b =
     (if req = LW_TCB_REQ_SUSPEND then b\<lparr>TCB_ulSuspendNesting := TCB_ulSuspendNesting b + 1, TCB_usStatus := TCB_usStatus b OR LW_THREAD_STATUS_SUSPEND\<rparr>
      else if req = LW_TCB_REQ_STOP then b\<lparr>TCB_ulStopNesting := TCB_ulStopNesting b + 1, TCB_usStatus := TCB_usStatus b OR LW_THREAD_STATUS_STOP\<rparr>
      else if req = LW_TCB_REQ_WDEATH then b\<lparr>TCB_usStatus := TCB_usStatus b OR LW_THREAD_STATUS_WDEATH\<rparr>
      else b)"

definition req_release :: "tid \<Rightarrow> kernel \<Rightarrow> kernel" where
  "req_release p k = (if \<not> LW_THREAD_IS_READY k p
     then make_ready p LW_SCHED_ACT_INTERRUPT (tcb_upd p (\<lambda>b. b\<lparr>TCB_usStatus := TCB_usStatus b AND NOT LW_THREAD_STATUS_WSTAT\<rparr>) k) else k)"

definition req_round :: "tid \<Rightarrow> tid list \<Rightarrow> tid \<Rightarrow> kernel \<Rightarrow> kernel" where
  "req_round p rs c k =
     (let k = tcb_upd c (req_effect (TCB_uiStatusChangeReq (K_tcb k p))) k;
          k = tcb_upd p (\<lambda>b. b\<lparr>TCB_ptcbWaitStatus := None, TCB_uiStatusChangeReq := 0\<rparr>) k;
          k = tcb_upd c (\<lambda>b. b\<lparr>TCB_plineStatusReqHeader := rs\<rparr>) k
      in req_release p k)"

lemma status_reqs_round: "status_reqs (p # rs) c k = status_reqs rs c (req_round p rs c k)"
proof -
  have E: "(if req = LW_TCB_REQ_SUSPEND then
                 tcb_upd c (\<lambda>b. b\<lparr>TCB_ulSuspendNesting := TCB_ulSuspendNesting b + 1,
                   TCB_usStatus := TCB_usStatus b OR LW_THREAD_STATUS_SUSPEND\<rparr>) k
               else if req = LW_TCB_REQ_STOP then
                 tcb_upd c (\<lambda>b. b\<lparr>TCB_ulStopNesting := TCB_ulStopNesting b + 1,
                   TCB_usStatus := TCB_usStatus b OR LW_THREAD_STATUS_STOP\<rparr>) k
               else if req = LW_TCB_REQ_WDEATH then
                 tcb_upd c (\<lambda>b. b\<lparr>TCB_usStatus := TCB_usStatus b OR LW_THREAD_STATUS_WDEATH\<rparr>) k
               else k) = tcb_upd c (req_effect req) k" for req k
    by (simp add: req_effect_def tcb_upd_def)
  show ?thesis
    unfolding status_reqs.simps Let_def E req_round_def req_release_def make_ready_def ..
qed

declare status_reqs.simps [simp del] unwait_reqs.simps [simp del]

lemma wstat_bits:
  "(s AND NOT LW_THREAD_STATUS_WSTAT) AND LW_THREAD_STATUS_DELAY = s AND LW_THREAD_STATUS_DELAY"
  "(s AND NOT LW_THREAD_STATUS_WSTAT) AND LW_THREAD_STATUS_PEND_ANY = s AND LW_THREAD_STATUS_PEND_ANY"
  by (simp_all add: and.assoc)

lemma or_bits:
  "(s OR m) AND n = s AND n" if "m AND n = 0" for s m n :: u16
  using that by (simp add: bit.conj_disj_distrib2)

lemma or_nonzero: "(m :: 'a::len word) \<noteq> 0 \<Longrightarrow> s OR m \<noteq> 0"
  by (metis bit.conj_cancel_right or_eq_0_iff)

lemma req_effect_quiet: "quiet (req_effect req)"
  by (auto simp: quiet_defs req_effect_def or_bits)

lemma req_effect_status:
  "req \<in> {LW_TCB_REQ_SUSPEND, LW_TCB_REQ_STOP, LW_TCB_REQ_WDEATH} \<Longrightarrow> TCB_usStatus (req_effect req b) \<noteq> 0"
  "TCB_usStatus b \<noteq> 0 \<Longrightarrow> TCB_usStatus (req_effect req b) \<noteq> 0"
  "rview (req_effect req b) = rview b"
  by (auto simp: req_effect_def or_nonzero or_bits rview_def or_eq_0_iff)


text \<open>
  The state in which a round starts: the invariant holds and the target is not ready, or the target
  was ready and has just been taken off the tables.
\<close>

definition served :: "tid set \<Rightarrow> tid \<Rightarrow> kernel \<Rightarrow> bool" where
  "served T c k \<longleftrightarrow> c \<in> T \<and> (ipc_ok T k \<and> \<not> LW_THREAD_IS_READY k c \<or>
     (\<exists>k0. ipc_ok T k0 \<and> LW_THREAD_IS_READY k0 c \<and> K_ncpus k0 \<le> c \<and> k = DEL_FROM_READY_RING c (GetPcb k0 c) k0))"

lemma served_effect:
  assumes s: "served T c k" and f: "quiet f" "\<And>b. TCB_usStatus (f b) \<noteq> 0"
  shows "ipc_ok T (tcb_upd c f k)" "\<not> LW_THREAD_IS_READY (tcb_upd c f k) c"
proof -
  show "ipc_ok T (tcb_upd c f k)"
    using s ipc_ok_unready [OF _ _ _ _ f] ipc_ok_quiet [OF _ f(1), of T k c] f(2)
    by (auto simp: served_def LW_THREAD_IS_READY_def)
  show "\<not> LW_THREAD_IS_READY (tcb_upd c f k) c" using f(2) by (simp add: LW_THREAD_IS_READY_def)
qed

lemma req_release_ok:
  assumes "ipc_ok T k" and "p \<in> T"
  shows "ipc_ok T (req_release p k)"
proof -
  have q: "quiet (\<lambda>b. b\<lparr>TCB_usStatus := TCB_usStatus b AND NOT LW_THREAD_STATUS_WSTAT\<rparr>)"
    by (simp add: quiet_defs and.assoc)
  show ?thesis
    using ipc_ok_make_ready [OF assms(1,2) _ q] assms(1) by (simp add: req_release_def)
qed

lemma req_release_frame [simp]:
  "TCB_plineStatusReqHeader (K_tcb (req_release p k) u) = TCB_plineStatusReqHeader (K_tcb k u)"
  "TCB_ptcbWaitStatus (K_tcb (req_release p k) u) = TCB_ptcbWaitStatus (K_tcb k u)"
  "TCB_uiStatusChangeReq (K_tcb (req_release p k) u) = TCB_uiStatusChangeReq (K_tcb k u)"
  "K_ncpus (req_release p k) = K_ncpus k" "K_curcpu (req_release p k) = K_curcpu k"
  "CPU_ptcbTCBCur (K_cpu (req_release p k) c) = CPU_ptcbTCBCur (K_cpu k c)"
  "u \<noteq> p \<Longrightarrow> TCB_usStatus (K_tcb (req_release p k) u) = TCB_usStatus (K_tcb k u)"
  by (simp_all add: req_release_def)

lemma req_ok_serve:
  assumes ok: "req_ok T k" and h: "TCB_plineStatusReqHeader (K_tcb k c) = p # rs" and n: "K_ncpus k' = K_ncpus k"
    and H: "\<And>u. TCB_plineStatusReqHeader (K_tcb k' u) = (if u = c then rs else TCB_plineStatusReqHeader (K_tcb k u))"
    and W: "\<And>u. TCB_ptcbWaitStatus (K_tcb k' u) = (if u = p then None else TCB_ptcbWaitStatus (K_tcb k u))"
    and R: "\<And>u. u \<noteq> p \<Longrightarrow> TCB_uiStatusChangeReq (K_tcb k' u) = TCB_uiStatusChangeReq (K_tcb k u)"
      "\<And>u. u \<noteq> p \<Longrightarrow> TCB_usStatus (K_tcb k' u) AND LW_THREAD_STATUS_WSTAT = TCB_usStatus (K_tcb k u) AND LW_THREAD_STATUS_WSTAT"
  shows "req_ok T k'"
proof -
  note D = req_okD [OF ok]
  have p: "TCB_ptcbWaitStatus (K_tcb k p) = Some c" using D(2) [of p c] h by simp
  have d: "distinct (p # rs)" using D(1) [of c] h by simp
  show ?thesis unfolding req_ok_def
  proof (intro conjI allI impI)
    show "distinct (TCB_plineStatusReqHeader (K_tcb k' t))" for t using D(1) [of t] d by (simp add: H)
    show "u \<in> set (TCB_plineStatusReqHeader (K_tcb k' t)) \<longleftrightarrow> TCB_ptcbWaitStatus (K_tcb k' u) = Some t" for t u
      using D(2) [of u t] D(2) [of u c] d h p by (auto simp: H W)
  next
    fix t u assume "TCB_ptcbWaitStatus (K_tcb k' u) = Some t"
    then have u: "u \<noteq> p" "TCB_ptcbWaitStatus (K_tcb k u) = Some t" by (auto simp: W split: if_splits)
    show "u \<in> T" "t \<in> T" "u \<noteq> t" "K_ncpus k' \<le> t" using D(3-6) [OF u(2)] n by simp_all
    show "TCB_usStatus (K_tcb k' u) AND LW_THREAD_STATUS_WSTAT \<noteq> 0" using D(7) [OF u(2)] R(2) [OF u(1)] by simp
    show "TCB_uiStatusChangeReq (K_tcb k' u) \<in> {LW_TCB_REQ_SUSPEND, LW_TCB_REQ_STOP, LW_TCB_REQ_WDEATH}"
      using D(8) [OF u(2)] R(1) [OF u(1)] by simp
  qed
qed

lemma req_round_ok:
  assumes s: "served T c k" and r: "req_ok T k" and h: "TCB_plineStatusReqHeader (K_tcb k c) = p # rs"
  shows "ipc_ok T (req_round p rs c k)" "\<not> LW_THREAD_IS_READY (req_round p rs c k) c" "req_ok T (req_round p rs c k)"
    "TCB_plineStatusReqHeader (K_tcb (req_round p rs c k) c) = rs"
proof -
  note D = req_okD [OF r]
  have p: "TCB_ptcbWaitStatus (K_tcb k p) = Some c" using D(2) [of p c] h by simp
  have pT: "p \<in> T" "p \<noteq> c" using D(3,5) [OF p] by simp_all
  let ?req = "TCB_uiStatusChangeReq (K_tcb k p)"
  let ?k1 = "tcb_upd c (req_effect ?req) k"
  let ?k2 = "tcb_upd p (\<lambda>b. b\<lparr>TCB_ptcbWaitStatus := None, TCB_uiStatusChangeReq := 0\<rparr>) ?k1"
  let ?k3 = "tcb_upd c (\<lambda>b. b\<lparr>TCB_plineStatusReqHeader := rs\<rparr>) ?k2"
  have E: "TCB_usStatus (req_effect ?req b) \<noteq> 0" for b using req_effect_status(1) D(8) [OF p] by blast
  note S = served_effect [OF s req_effect_quiet [of ?req] E]
  have "ipc_ok T ?k2" by (rule ipc_ok_quiet [OF S(1)]) (simp_all add: quiet_defs)
  then have ok3: "ipc_ok T ?k3" by (rule ipc_ok_quiet) (simp_all add: quiet_defs)
  have R: "req_round p rs c k = req_release p ?k3" by (simp add: req_round_def Let_def)
  show "ipc_ok T (req_round p rs c k)" unfolding R by (rule req_release_ok [OF ok3 pT(1)])
  show "\<not> LW_THREAD_IS_READY (req_round p rs c k) c"
    unfolding R using E pT(2) by (simp add: LW_THREAD_IS_READY_def)
  show "TCB_plineStatusReqHeader (K_tcb (req_round p rs c k) c) = rs" unfolding R by simp
  have v: "TCB_plineStatusReqHeader (req_effect r b) = TCB_plineStatusReqHeader b"
    "TCB_ptcbWaitStatus (req_effect r b) = TCB_ptcbWaitStatus b" "TCB_uiStatusChangeReq (req_effect r b) = TCB_uiStatusChangeReq b"
    "TCB_usStatus (req_effect r b) AND LW_THREAD_STATUS_WSTAT = TCB_usStatus b AND LW_THREAD_STATUS_WSTAT" for r b
    using req_effect_status(3) [of r b] by (simp_all add: rview_def)
  show "req_ok T (req_round p rs c k)" unfolding R
    by (rule req_ok_serve [OF r h]) (use pT(2) in \<open>simp_all add: v\<close>)
qed

lemma status_reqs_ok:
  assumes "served T c k" and "req_ok T k" and "TCB_plineStatusReqHeader (K_tcb k c) = p # rs"
  shows "base_ok T (status_reqs (p # rs) c k) \<and> \<not> LW_THREAD_IS_READY (status_reqs (p # rs) c k) c"
  using assms
proof (induction rs arbitrary: p k)
  case Nil
  from req_round_ok [OF Nil.prems] show ?case unfolding status_reqs_round by (simp add: base_ok_def status_reqs.simps(1))
next
  case (Cons p' rs)
  note R = req_round_ok [OF Cons.prems]
  have "c \<in> T" using Cons.prems(1) by (simp add: served_def)
  then have "served T c (req_round p (p' # rs) c k)" using R(1,2) by (simp add: served_def)
  from Cons.IH [OF this R(3,4)] show ?case unfolding status_reqs_round [of p "p' # rs" c k] .
qed

lemma ThreadStatusChangeCur_ok:
  assumes ok: "base_ok T k"
  shows "base_ok T (ThreadStatusChangeCur i k)"
proof (cases "TCB_plineStatusReqHeader (K_tcb k (cur_of k i))")
  case Nil
  then show ?thesis using ok by (simp add: ThreadStatusChangeCur_def)
next
  case (Cons p rs)
  let ?c = "cur_of k i"
  let ?k = "if LW_THREAD_IS_READY k ?c then DEL_FROM_READY_RING ?c (GetPcb k ?c) k else k"
  have r: "req_ok T k" and i: "ipc_ok T k" using ok by (simp_all add: base_ok_def)
  have p: "TCB_ptcbWaitStatus (K_tcb k p) = Some ?c" using req_okD(2) [OF r, of p ?c] Cons by simp
  have "?c \<in> T" "K_ncpus k \<le> ?c" using req_okD(4,6) [OF r p] by simp_all
  then have "served T ?c ?k" using i by (auto simp: served_def)
  moreover have "req_ok T ?k" using r by (simp add: req_ok_erase [OF erase_DEL])
  moreover have "TCB_plineStatusReqHeader (K_tcb ?k ?c) = p # rs" using Cons by simp
  ultimately have "base_ok T (status_reqs (p # rs) ?c ?k)" using status_reqs_ok by blast
  then show ?thesis using Cons by (simp add: ThreadStatusChangeCur_def Let_def split: if_splits)
qed

section \<open>Asking and giving up\<close>

lemma req_ok_upd:
  assumes r: "req_ok T k" and n: "K_ncpus k' = K_ncpus k" and v: "\<And>u. u \<noteq> t \<Longrightarrow> rview (K_tcb k' u) = rview (K_tcb k u)"
    and t: "TCB_ptcbWaitStatus (K_tcb k t) = None" "TCB_ptcbWaitStatus (K_tcb k' t) = None"
      "TCB_plineStatusReqHeader (K_tcb k' t) = TCB_plineStatusReqHeader (K_tcb k t)"
  shows "req_ok T k'"
proof -
  have H: "TCB_plineStatusReqHeader (K_tcb k' u) = TCB_plineStatusReqHeader (K_tcb k u)"
    "TCB_ptcbWaitStatus (K_tcb k' u) = TCB_ptcbWaitStatus (K_tcb k u)" for u
    using v [of u] t by (cases "u = t"; simp add: rview_def)+
  have S: "TCB_uiStatusChangeReq (K_tcb k' u) = TCB_uiStatusChangeReq (K_tcb k u) \<and>
      TCB_usStatus (K_tcb k' u) AND LW_THREAD_STATUS_WSTAT = TCB_usStatus (K_tcb k u) AND LW_THREAD_STATUS_WSTAT"
    if "TCB_ptcbWaitStatus (K_tcb k u) = Some x" for u x using v [of u] t(1) that by (cases "u = t") (simp_all add: rview_def)
  show ?thesis using req_okD [OF r] S unfolding req_ok_def H n by (metis (no_types, lifting))
qed

text \<open>A running thread asks for a change of a thread that runs on another processor.\<close>

lemma ThreadWaitStatus_ok:
  assumes ok: "base_ok T k" and c: "c \<in> T" "K_ncpus k \<le> c" "LW_THREAD_IS_READY k c"
    and d: "d \<in> T" "K_ncpus k \<le> d" "d \<noteq> c" and r: "req \<in> {LW_TCB_REQ_SUSPEND, LW_TCB_REQ_STOP, LW_TCB_REQ_WDEATH}"
  shows "base_ok T (ThreadWaitStatus c d req k)"
proof -
  have i: "ipc_ok T k" and R: "req_ok T k" using ok by (simp_all add: base_ok_def)
  note D = req_okD [OF R]
  let ?f = "\<lambda>b. b\<lparr>TCB_ptcbWaitStatus := Some d, TCB_uiStatusChangeReq := req, TCB_usStatus := TCB_usStatus b OR LW_THREAD_STATUS_WSTAT\<rparr>"
  let ?g = "\<lambda>b. b\<lparr>TCB_plineStatusReqHeader := c # TCB_plineStatusReqHeader b\<rparr>"
  let ?k1 = "tcb_upd c ?f (DEL_FROM_READY_RING c (GetPcb k c) k)"
  have W: "ThreadWaitStatus c d req k = tcb_upd d ?g ?k1" using c(3) by (simp add: ThreadWaitStatus_def)
  have "ipc_ok T ?k1" by (rule ipc_ok_unready [OF i c]) (simp_all add: quiet_defs or_bits or_nonzero)
  then have I: "ipc_ok T (tcb_upd d ?g ?k1)" by (rule ipc_ok_quiet) (simp_all add: quiet_defs)
  have nc: "TCB_ptcbWaitStatus (K_tcb k c) = None"
    using D(7) [of c] c(3) by (cases "TCB_ptcbWaitStatus (K_tcb k c)") (auto simp: LW_THREAD_IS_READY_def)
  have "req_ok T (tcb_upd d ?g ?k1)" unfolding req_ok_def
  proof (intro conjI allI impI)
    let ?k = "tcb_upd d ?g ?k1"
    have H: "TCB_plineStatusReqHeader (K_tcb ?k u) = (if u = d then c # TCB_plineStatusReqHeader (K_tcb k d) else TCB_plineStatusReqHeader (K_tcb k u))"
      "TCB_ptcbWaitStatus (K_tcb ?k u) = (if u = c then Some d else TCB_ptcbWaitStatus (K_tcb k u))" for u
      using d(3) by simp_all
    show "distinct (TCB_plineStatusReqHeader (K_tcb ?k t))" for t
      unfolding H using D(1) [of t] D(1) [of d] D(2) [of c d] nc by auto
    show "u \<in> set (TCB_plineStatusReqHeader (K_tcb ?k t)) \<longleftrightarrow> TCB_ptcbWaitStatus (K_tcb ?k u) = Some t" for t u
      unfolding H using D(2) [of u t] nc by auto
    fix t u assume "TCB_ptcbWaitStatus (K_tcb ?k u) = Some t"
    then have u: "u = c \<and> t = d \<or> u \<noteq> c \<and> TCB_ptcbWaitStatus (K_tcb k u) = Some t" unfolding H by (auto split: if_splits)
    then show "u \<in> T" "t \<in> T" "u \<noteq> t" "K_ncpus ?k \<le> t" "TCB_usStatus (K_tcb ?k u) AND LW_THREAD_STATUS_WSTAT \<noteq> 0"
      "TCB_uiStatusChangeReq (K_tcb ?k u) \<in> {LW_TCB_REQ_SUSPEND, LW_TCB_REQ_STOP, LW_TCB_REQ_WDEATH}"
      using D(3-8) [of u t] c d r by (auto simp: bit.conj_disj_distrib2 or_eq_0_iff)
  qed
  with I W show ?thesis by (simp add: base_ok_def)
qed


lemma tcb_upd_comm: "t \<noteq> u \<Longrightarrow> tcb_upd t f (tcb_upd u g k) = tcb_upd u g (tcb_upd t f k)"
  by (simp add: tcb_upd_def fun_upd_twist)

lemma status_change2_effect:
  assumes "req \<in> {LW_TCB_REQ_SUSPEND, LW_TCB_REQ_STOP, LW_TCB_REQ_WDEATH}"
  shows "status_change2 p req k = tcb_upd p (req_effect req) (tcb_upd (LW_TCB_GET_CUR k) (\<lambda>b. b\<lparr>TCB_uiStatusChangeReq := 0\<rparr>) k)"
  using assms by (auto simp: status_change2_def req_effect_def [abs_def] Let_def)

text \<open>The change made at once, of a thread that is not ready or that was just taken off the tables.\<close>

lemma status_change2_ok:
  assumes s: "served T p k" and r: "req_ok T k" and n: "TCB_ptcbWaitStatus (K_tcb k (LW_TCB_GET_CUR k)) = None"
    and req: "req \<in> {LW_TCB_REQ_SUSPEND, LW_TCB_REQ_STOP, LW_TCB_REQ_WDEATH}"
  shows "base_ok T (status_change2 p req k)" "\<not> LW_THREAD_IS_READY (status_change2 p req k) p"
proof -
  let ?c = "LW_TCB_GET_CUR k" and ?f = "\<lambda>b :: tcb. b\<lparr>TCB_uiStatusChangeReq := 0\<rparr>" and ?g = "req_effect req"
  have f: "quiet ?f" by (simp add: quiet_defs)
  have g: "quiet ?g" "TCB_usStatus (?g b) \<noteq> 0" for b using req_effect_quiet req_effect_status(1) [OF req] by blast+
  note E = status_change2_effect [OF req, of p k]
  have "ipc_ok T (status_change2 p req k)"
  proof (cases "?c = p")
    case True
    have "quiet (\<lambda>b. ?g (?f b))" by (rule quiet_comp [OF f g(1)])
    from served_effect(1) [OF s this] g(2) True show ?thesis by (simp add: E tcb_upd_upd)
  next
    case False
    have "ipc_ok T (tcb_upd ?c ?f (tcb_upd p ?g k))"
      by (rule ipc_ok_quiet [OF served_effect(1) [OF s g]]) (use f in simp_all)
    then show ?thesis unfolding E using tcb_upd_comm [OF False] by metis
  qed
  moreover have "req_ok T (status_change2 p req k)"
  proof -
    have "req_ok T (tcb_upd ?c ?f k)" by (rule req_ok_upd [OF r, of _ ?c]) (use n in simp_all)
    then show ?thesis unfolding E by (rule req_ok_tcb) (rule req_effect_status(3))
  qed
  ultimately show "base_ok T (status_change2 p req k)" by (simp add: base_ok_def)
  show "\<not> LW_THREAD_IS_READY (status_change2 p req k) p" using g(2) by (simp add: E LW_THREAD_IS_READY_def)
qed

lemma DEL_cur [simp]: "LW_TCB_GET_CUR (DEL_FROM_READY_RING t q k) = LW_TCB_GET_CUR k"
  by (simp add: LW_TCB_GET_CUR_def)

lemma ThreadStatusChange_ok:
  assumes ok: "base_ok T k" and p: "p \<in> T" "K_ncpus k \<le> p"
    and c: "LW_TCB_GET_CUR k \<in> T" "K_ncpus k \<le> LW_TCB_GET_CUR k" "LW_THREAD_IS_READY k (LW_TCB_GET_CUR k)"
    and req: "req \<in> {LW_TCB_REQ_SUSPEND, LW_TCB_REQ_STOP, LW_TCB_REQ_WDEATH}"
  shows "base_ok T (snd (ThreadStatusChange p req k))"
    "fst (ThreadStatusChange p req k) = ERROR_NONE \<Longrightarrow> \<not> LW_THREAD_IS_READY (snd (ThreadStatusChange p req k)) p \<or>
       TCB_ptcbWaitStatus (K_tcb (snd (ThreadStatusChange p req k)) (LW_TCB_GET_CUR k)) = Some p"
proof -
  have i: "ipc_ok T k" and r: "req_ok T k" using ok by (simp_all add: base_ok_def)
  let ?c = "LW_TCB_GET_CUR k"
  have n: "TCB_ptcbWaitStatus (K_tcb k ?c) = None"
    using req_okD(7) [OF r, of ?c] c(3) by (cases "TCB_ptcbWaitStatus (K_tcb k ?c)") (auto simp: LW_THREAD_IS_READY_def)
  let ?k = "if LW_THREAD_IS_READY k p then DEL_FROM_READY_RING p (GetPcb k p) k else k"
  have s: "served T p ?k" using i p by (auto simp: served_def)
  have r': "req_ok T ?k" using r by (simp add: req_ok_erase [OF erase_DEL])
  have n': "TCB_ptcbWaitStatus (K_tcb ?k (LW_TCB_GET_CUR ?k)) = None" using n by simp
  note S = status_change2_ok [OF s r' n' req]
  have W: "base_ok T (ThreadWaitStatus ?c p req k)" if "p \<noteq> ?c" by (rule ThreadWaitStatus_ok [OF ok c p that req])
  have w: "TCB_ptcbWaitStatus (K_tcb (ThreadWaitStatus ?c p req k) ?c) = Some p" if "p \<noteq> ?c"
    using that by (simp add: ThreadWaitStatus_def)
  show "base_ok T (snd (ThreadStatusChange p req k))"
    using S(1) W ok c(3) by (auto simp: ThreadStatusChange_def Let_def split: if_splits)
  show "\<not> LW_THREAD_IS_READY (snd (ThreadStatusChange p req k)) p \<or>
       TCB_ptcbWaitStatus (K_tcb (snd (ThreadStatusChange p req k)) ?c) = Some p" if "fst (ThreadStatusChange p req k) = ERROR_NONE"
    using that S(2) w c(3) by (auto simp: ThreadStatusChange_def Let_def split: if_splits)
qed

section \<open>Suspending and resuming\<close>

lemma base_ok_make_ready:
  assumes ok: "base_ok T k" and t: "t \<in> T" "\<not> LW_THREAD_IS_READY k t" and q: "quiet f" and v: "\<And>b. rview (f b) = rview b"
  shows "base_ok T (make_ready t a (tcb_upd t f k))"
proof -
  have "req_ok T (make_ready t a (tcb_upd t f k))"
    by (rule req_ok_cong [of T "tcb_upd t f k"]) (use ok req_ok_tcb [OF _ v] in \<open>simp_all add: base_ok_def\<close>)
  then show ?thesis using ipc_ok_make_ready [OF _ t q, of a] ok by (simp add: base_ok_def)
qed

lemma base_ok_quiet:
  assumes "base_ok T k" and "quiet f" and "TCB_usStatus (f (K_tcb k t)) = 0 \<longleftrightarrow> TCB_usStatus (K_tcb k t) = 0" and "\<And>b. rview (f b) = rview b"
  shows "base_ok T (tcb_upd t f k)"
  using ipc_ok_quiet [OF _ assms(2,3)] req_ok_tcb [OF _ assms(4)] assms(1) by (simp add: base_ok_def)

lemma ThreadSafeResume_ok:
  assumes ok: "base_ok T k" and t: "t \<in> T" "\<not> LW_THREAD_IS_READY k t"
  shows "base_ok T (ThreadSafeResume t k)"
proof -
  let ?n = "TCB_ulSuspendNesting (K_tcb k t)"
  let ?f = "\<lambda>b :: tcb. b\<lparr>TCB_ulSuspendNesting := TCB_ulSuspendNesting b - 1\<rparr>"
  let ?g = "\<lambda>b :: tcb. (?f b)\<lparr>TCB_usStatus := TCB_usStatus b AND NOT LW_THREAD_STATUS_SUSPEND\<rparr>"
  have 1: "base_ok T (tcb_upd t ?f k)" by (rule base_ok_quiet [OF ok]) (simp_all add: quiet_defs rview_def)
  have 2: "base_ok T (make_ready t LW_SCHED_ACT_INTERRUPT (tcb_upd t ?g k))"
    by (rule base_ok_make_ready [OF ok t]) (simp_all add: quiet_defs rview_def and.assoc)
  have "ThreadSafeResume t k = (if ?n = 0 then k else if ?n - 1 \<noteq> 0 then tcb_upd t ?f k
      else make_ready t LW_SCHED_ACT_INTERRUPT (tcb_upd t ?g k))"
    by (simp add: ThreadSafeResume_def make_ready_def Let_def tcb_upd_upd)
  then show ?thesis using ok 1 2 by simp
qed

lemma ThreadContinue_ok:
  assumes ok: "base_ok T k" and t: "t \<in> T"
  shows "base_ok T (snd (ThreadContinue t b k))"
proof (cases "TCB_usStatus (K_tcb k t) AND LW_THREAD_STATUS_STOP = 0 \<or> TCB_ulStopNesting (K_tcb k t) = 0")
  case True
  then show ?thesis using ok by (auto simp: ThreadContinue_def)
next
  case False
  then have nr: "\<not> LW_THREAD_IS_READY k t" by (auto simp: LW_THREAD_IS_READY_def)
  let ?f = "\<lambda>b :: tcb. b\<lparr>TCB_ulStopNesting := TCB_ulStopNesting b - 1\<rparr>"
  let ?g = "\<lambda>b :: tcb. b\<lparr>TCB_ulStopNesting := 0, TCB_usStatus := TCB_usStatus b AND NOT LW_THREAD_STATUS_STOP\<rparr>"
  have 1: "base_ok T (tcb_upd t ?f k)" by (rule base_ok_quiet [OF ok]) (simp_all add: quiet_defs rview_def)
  have 2: "base_ok T (make_ready t LW_SCHED_ACT_INTERRUPT (tcb_upd t ?g k))"
    by (rule base_ok_make_ready [OF ok t nr]) (simp_all add: quiet_defs rview_def and.assoc)
  have "snd (ThreadContinue t b k) = (if TCB_ulStopNesting (K_tcb k t) - 1 = 0 \<or> b then
      make_ready t LW_SCHED_ACT_INTERRUPT (tcb_upd t ?g k) else tcb_upd t ?f k)"
    using False by (simp add: ThreadContinue_def make_ready_def Let_def tcb_upd_upd)
  then show ?thesis using 1 2 by simp
qed


section \<open>The invariant of the system\<close>

text \<open>What the invariant of the threads that wait for event sets and vutexes reads.\<close>

definition okern :: "kernel \<Rightarrow> (tid \<Rightarrow> (esn option \<times> vutex \<times> bool \<times> bool \<times> u8 \<times> nat option) option) \<times>
    (nat \<Rightarrow> eventset) \<times> (nat \<Rightarrow> tid list) \<times> tid list" where
  "okern k = (\<lambda>u. oview (K_tcb k u), K_esBuffer k, k_plineVutexHashHeader k, dline k)"

definition sys_ok :: "tid set \<Rightarrow> kernel \<Rightarrow> bool" where
  "sys_ok T k \<longleftrightarrow> ipc_ok T k \<and> req_ok T k \<and> oth_ok T k"

lemma sys_ok_base: "sys_ok T k \<longleftrightarrow> base_ok T k \<and> oth_ok T k"
  by (simp add: sys_ok_def base_ok_def)

lemma oth_ok_okern: "okern k' = okern k \<Longrightarrow> oth_ok T k \<Longrightarrow> oth_ok T k'"
  using oth_ok_cong [of T k k'] oth_okD(12) [of T k] by (simp add: okern_def fun_eq_iff)

lemma sys_okI: "sys_ok T k \<Longrightarrow> base_ok T k' \<Longrightarrow> okern k' = okern k \<Longrightarrow> sys_ok T k'"
  using oth_ok_okern by (auto simp: sys_ok_base)

lemma okern_erase: "erase k' = erase k \<Longrightarrow> okern k' = okern k"
proof -
  assume E: "erase k' = erase k"
  show ?thesis by (simp add: okern_def oview_def fun_eq_iff erase_kernelD [OF E] erase_tcbD [OF E] delay_ok_erase(2) [OF E])
qed

lemma okern_tcb: "oview (f (K_tcb k t)) = oview (K_tcb k t) \<Longrightarrow> okern (tcb_upd t f k) = okern k"
  by (simp add: okern_def fun_eq_iff dline_def)

lemma okern_frame [simp]:
  "okern (ADD_TO_READY_RING t q k) = okern k" "okern (DEL_FROM_READY_RING t q k) = okern k"
  "okern (cpu_upd c f k) = okern k" "okern (event_upd e g k) = okern k" "okern (make_ready t a k) = okern k"
proof -
  show A: "okern (ADD_TO_READY_RING t q k) = okern k" for t q k by (rule okern_erase) simp
  show "okern (DEL_FROM_READY_RING t q k) = okern k" by (rule okern_erase) simp
  show "okern (cpu_upd c f k) = okern k" "okern (event_upd e g k) = okern k" by (simp_all add: okern_def dline_def)
  show "okern (make_ready t a k) = okern k" by (simp add: make_ready_def Let_def A okern_tcb oview_def)
qed

lemma oview_req [simp]: "oview (req_effect r b) = oview b"
  by (auto simp: oview_def req_effect_def or_bits)

lemma okern_requests [simp]:
  "okern (req_release p k) = okern k" "okern (req_round p rs c k) = okern k" "okern (ThreadWaitStatus c d req k) = okern k"
  "okern (status_change2 p req k) = okern k"
proof -
  show R: "okern (req_release p k) = okern k" for p k
    unfolding req_release_def by (simp add: okern_tcb oview_def and.assoc)
  show "okern (req_round p rs c k) = okern k"
  proof -
    have "okern (tcb_upd c (\<lambda>b. b\<lparr>TCB_plineStatusReqHeader := rs\<rparr>) k') = okern k'" for k' by (rule okern_tcb) (simp add: oview_def)
    moreover have "okern (tcb_upd p (\<lambda>b. b\<lparr>TCB_ptcbWaitStatus := None, TCB_uiStatusChangeReq := 0\<rparr>) k') = okern k'" for k'
      by (rule okern_tcb) (simp add: oview_def)
    moreover have "okern (tcb_upd c (req_effect r) k) = okern k" for r by (rule okern_tcb) simp
    ultimately show ?thesis unfolding req_round_def Let_def R by presburger
  qed
  show "okern (ThreadWaitStatus c d req k) = okern k" by (simp add: ThreadWaitStatus_def Let_def okern_tcb oview_def or_bits)
  show "okern (status_change2 p req k) = okern k" by (simp add: status_change2_def Let_def okern_tcb oview_def or_bits)
qed

lemma okern_status_reqs [simp]: "okern (status_reqs rs c k) = okern k"
  by (induction rs arbitrary: k) (simp_all add: status_reqs_round status_reqs.simps(1))

lemma okern_threads [simp]:
  "okern (ThreadStatusChangeCur i k) = okern k" "okern (snd (ThreadStatusChange p req k)) = okern k"
  "okern (ThreadSafeResume t k) = okern k" "okern (snd (ThreadContinue t b k)) = okern k"
  by (simp_all add: ThreadStatusChangeCur_def ThreadStatusChange_def ThreadSafeResume_def ThreadContinue_def Let_def
      okern_tcb oview_def and.assoc)

section \<open>The scheduler keeps the invariant\<close>

lemma sys_ok_same:
  assumes "sys_ok T k" and "kern_ok T k'" and "K_tcb k' = K_tcb k" "K_eventBuffer k' = K_eventBuffer k" "K_wuDelay k' = K_wuDelay k"
    "K_ncpus k' = K_ncpus k" "okern k' = okern k"
  shows "sys_ok T k'"
  using assms ipc_ok_same [OF _ assms(2-5)] req_ok_cong [of T k k'] oth_ok_okern [of k' k T] by (simp add: sys_ok_def)

lemma sys_ok_erase:
  assumes "sys_ok T k" and "erase k' = erase k" and "kern_ok T k'"
  shows "sys_ok T k'"
  using assms by (simp add: sys_ok_def ipc_ok_def delay_ok_erase [OF assms(2)] wait_ok_erase [OF assms(2)] req_ok_erase [OF assms(2)] oth_ok_erase [OF assms(2)])

lemma sys_ok_quiet:
  assumes "sys_ok T k" and "quiet f" and "TCB_usStatus (f (K_tcb k t)) = 0 \<longleftrightarrow> TCB_usStatus (K_tcb k t) = 0" and "\<And>b. rview (f b) = rview b"
    and "\<And>b. oview (f b) = oview b"
  shows "sys_ok T (tcb_upd t f k)"
  using base_ok_quiet [where f = f, OF _ assms(2-4)] okern_tcb [where f = f, OF assms(5)] assms(1) sys_okI [OF assms(1)] by (simp add: sys_ok_base)

lemma sys_ok_thread:
  assumes "sys_ok T k" and "base_ok T k \<Longrightarrow> base_ok T k'" and "okern k' = okern k"
  shows "sys_ok T k'"
  using assms sys_okI [OF assms(1)] by (simp add: sys_ok_base)

lemma sys_ok_kern: "sys_ok T k \<Longrightarrow> kern_ok T k"
  by (simp add: sys_ok_def ipc_ok_def)

lemma sys_ok_cpu:
  assumes "sys_ok T k" and "\<And>p. CPU_pcbbmapReady (f p) = CPU_pcbbmapReady p"
    and "\<And>p. CAND_ptcbCand (f p) = CAND_ptcbCand p" and "\<And>p. CPU_bActive (f p) = CPU_bActive p"
  shows "sys_ok T (cpu_upd c f k)"
  by (rule sys_ok_same [OF assms(1) kern_ok_cpu [OF sys_ok_kern [OF assms(1)] assms(2-4)]]) simp_all

lemma smp_notify_delay: "K_wuDelay (fold (smp_notify_cpu c) xs k) = K_wuDelay k"
  by (induction xs arbitrary: k) (simp_all add: smp_notify_cpu_def SmpSendIpi_def)

lemma smp_notify_okern: "okern (fold (smp_notify_cpu c) xs k) = okern k"
  by (induction xs arbitrary: k) (simp_all add: smp_notify_cpu_def SmpSendIpi_def)

lemma sys_ok_notify: "sys_ok T k \<Longrightarrow> sys_ok T (SchedSmpNotify c k)"
  by (rule sys_ok_same, assumption, rule SchedSmpNotify_ok [OF sys_ok_kern], assumption)
    (simp_all add: SchedSmpNotify_def smp_notify_frame smp_notify_delay smp_notify_okern)

lemma sys_ok_swp: "sys_ok T k \<Longrightarrow> sys_ok T (SchedSwp c k)"
  unfolding SchedSwp_def Let_def by (rule sys_ok_cpu [OF sys_ok_notify]) simp_all

lemma SchedGetCand_sys:
  assumes ok: "sys_ok T k" and c: "c < K_ncpus k" "CPU_bActive (K_cpu k c)"
  shows "sys_ok T (snd (SchedGetCand c m k))"
proof (cases "can_preemptive c m k")
  case True
  let ?k1 = "cpu_upd c (\<lambda>p. p\<lparr>CPU_bSchedIpiPend := False\<rparr>) k"
  have ok1: "sys_ok T ?k1" by (rule sys_ok_cpu [OF ok]) simp_all
  obtain t k' where G: "SchedGetCand c m k = (Some t, k')" "kern_ok T k'" "erase k' = erase ?k1"
    using SchedGetCand_spec [OF sys_ok_kern [OF ok] c True] by metis
  from sys_ok_erase [OF ok1 G(3,2)] G(1) show ?thesis by simp
qed (use ok in \<open>simp add: SchedGetCand_def\<close>)

lemma status_reqs_cpu: "CPU_bActive (K_cpu (status_reqs rs c k) i) = CPU_bActive (K_cpu k i) \<and> K_ncpus (status_reqs rs c k) = K_ncpus k \<and>
    K_curcpu (status_reqs rs c k) = K_curcpu k \<and> CPU_ptcbTCBCur (K_cpu (status_reqs rs c k) i) = CPU_ptcbTCBCur (K_cpu k i)"
proof (induction rs arbitrary: k)
  case (Cons p rs)
  have "CPU_bActive (K_cpu (req_round p rs c k) i) = CPU_bActive (K_cpu k i) \<and> K_ncpus (req_round p rs c k) = K_ncpus k \<and>
    K_curcpu (req_round p rs c k) = K_curcpu k \<and> CPU_ptcbTCBCur (K_cpu (req_round p rs c k) i) = CPU_ptcbTCBCur (K_cpu k i)"
    by (simp add: req_round_def req_release_def make_ready_def Let_def)
  with Cons show ?case by (simp add: status_reqs_round)
qed (simp add: status_reqs.simps)

lemma ThreadStatusChangeCur_cpu:
  "CPU_bActive (K_cpu (ThreadStatusChangeCur j k) i) = CPU_bActive (K_cpu k i)" "K_ncpus (ThreadStatusChangeCur j k) = K_ncpus k"
  "K_curcpu (ThreadStatusChangeCur j k) = K_curcpu k" "CPU_ptcbTCBCur (K_cpu (ThreadStatusChangeCur j k) i) = CPU_ptcbTCBCur (K_cpu k i)"
  by (simp_all add: ThreadStatusChangeCur_def Let_def status_reqs_cpu)

text \<open>What other threads do while a thread is switched out keeps the invariant.\<close>

definition rely :: "tid set \<Rightarrow> env \<Rightarrow> bool" where
  "rely T env \<longleftrightarrow> (\<forall>f \<in> set env. \<forall>k. sys_ok T k \<longrightarrow> sys_ok T (f k))"

lemma Schedule_ok:
  assumes ok: "sys_ok T k" and r: "rely T env" and c: "K_curcpu k < K_ncpus k" "CPU_bActive (K_cpu k (K_curcpu k))"
    and s: "Schedule env k = Some (i, env', k')"
  shows "sys_ok T k'" "rely T env'"
proof -
  let ?i = "K_curcpu k"
  define k1 where "k1 = (if TCB_plineStatusReqHeader (K_tcb k (LW_TCB_GET_CUR k)) \<noteq> [] \<and> status_change_en (LW_TCB_GET_CUR k) ?i k
    then ThreadStatusChangeCur ?i k else k)"
  have ok1: "sys_ok T k1" using sys_ok_thread [OF ok ThreadStatusChangeCur_ok okern_threads(1)] ok by (simp add: k1_def)
  have c1: "?i < K_ncpus k1" "CPU_bActive (K_cpu k1 ?i)" using c by (simp_all add: k1_def ThreadStatusChangeCur_cpu)
  obtain t k2 where G: "SchedGetCand ?i 1 k1 = (t, k2)" by force
  have ok2: "sys_ok T k2" using SchedGetCand_sys [OF ok1 c1, of 1] G by simp
  show "rely T env'" using Schedule_env [OF s] r by (auto simp: rely_def) (metis list.set_intros(2))
  show "sys_ok T k'"
  proof (cases "t = Some (LW_TCB_GET_CUR k)")
    case True
    then have "k' = SchedSmpNotify ?i k2" using s G by (simp add: Schedule_def Let_def k1_def)
    then show ?thesis using sys_ok_notify [OF ok2] by simp
  next
    case False
    let ?k3 = "SchedSwp ?i (cpu_upd ?i (\<lambda>p. p\<lparr>CPU_bIsIntSwitch := False, CPU_ptcbTCBHigh := t\<rparr>) k2)"
    have ok3: "sys_ok T ?k3" by (intro sys_ok_swp sys_ok_cpu ok2) simp_all
    obtain f es where e: "env = f # es" using s G False by (cases env) (simp_all add: Schedule_def Let_def k1_def)
    have "sys_ok T (f ?k3)" using r ok3 by (simp add: rely_def e)
    moreover have "k' = tcb_upd (LW_TCB_GET_CUR (f ?k3)) (\<lambda>b. b\<lparr>TCB_iSchedRet := 0\<rparr>) (f ?k3)"
      using s G False by (simp add: Schedule_def Let_def k1_def e)
    ultimately show ?thesis by (auto intro!: sys_ok_quiet simp: quiet_defs rview_def oview_def)
  qed
qed

lemma ScheduleInt_sys:
  assumes ok: "sys_ok T k" and c: "c < K_ncpus k" "CPU_bActive (K_cpu k c)"
  shows "sys_ok T (reqs_served c k)" "sys_ok T (ScheduleInt c k)"
proof -
  show ok1: "sys_ok T (reqs_served c k)"
    using sys_ok_thread [OF ok ThreadStatusChangeCur_ok okern_threads(1)] ok by (simp add: reqs_served_def)
  have c1: "c < K_ncpus (reqs_served c k)" "CPU_bActive (K_cpu (reqs_served c k) c)"
    using c by (simp_all add: reqs_served_def ThreadStatusChangeCur_cpu)
  obtain t k2 where G: "SchedGetCand c 1 (reqs_served c k) = (t, k2)" by force
  have ok2: "sys_ok T k2" using SchedGetCand_sys [OF ok1 c1, of 1] G by simp
  have "ScheduleInt c k = (if t \<noteq> Some (cur_of k c)
    then SchedSwp c (cpu_upd c (\<lambda>p. p\<lparr>CPU_bIsIntSwitch := True, CPU_ptcbTCBHigh := t\<rparr>) k2) else SchedSmpNotify c k2)"
    using G by (simp add: ScheduleInt_def reqs_served_def Let_def)
  moreover have "sys_ok T (SchedSwp c (cpu_upd c (\<lambda>p. p\<lparr>CPU_bIsIntSwitch := True, CPU_ptcbTCBHigh := t\<rparr>) k2))"
    by (intro sys_ok_swp sys_ok_cpu ok2) simp_all
  ultimately show "sys_ok T (ScheduleInt c k)" using sys_ok_notify [OF ok2] by simp
qed

text \<open>Leaving the kernel.\<close>

lemma kernelExit_ok:
  assumes ok: "sys_ok T k" and r: "rely T env" and c: "K_curcpu k < K_ncpus k" "CPU_bActive (K_cpu k (K_curcpu k))"
    and s: "kernelExit env k = Some (i, env', k') \<or> kernelExitIrq env k = Some (i, env', k')"
  shows "sys_ok T k'" "rely T env'"
proof -
  let ?f = "\<lambda>p :: cpu. p\<lparr>CPU_iKernelCounter := CPU_iKernelCounter p - 1\<rparr>"
  let ?k = "cpu_upd (K_curcpu k) ?f k"
  have ok1: "sys_ok T ?k" by (rule sys_ok_cpu [OF ok]) simp_all
  have "k' = k \<and> env' = env \<or> k' = ?k \<and> env' = env \<or> Schedule env ?k = Some (i, env', k')"
    using s by (auto simp: kernelExit_def kernelExitIrq_def Let_def split: if_splits)
  moreover have "sys_ok T k'" "rely T env'" if "Schedule env ?k = Some (i, env', k')"
    using Schedule_ok [OF ok1 r _ _ that] c by simp_all
  ultimately show "sys_ok T k'" "rely T env'" using ok ok1 r by auto
qed

end
