(* ===== verification/Waiting.thy ===== *)
theory Waiting
  imports Requests Threads
begin

text \<open>
  The end and the beginning of a wait, for every kind of wait: the general lemmas on a thread that
  becomes ready or stops being ready (whatever else changed with it), and on giving up a wait
  (\<open>unpend\<close>), on which the tick, the event sets and the vutexes rest.
\<close>

section \<open>Becoming ready and ceasing to be ready\<close>

text \<open>The scheduler sees of a change only the tables and who is ready.\<close>

definition same_sched :: "kernel \<Rightarrow> kernel \<Rightarrow> bool" where
  "same_sched k k' \<longleftrightarrow> sview k' = sview k \<and> (\<forall>c. CPU_bActive (K_cpu k' c) = CPU_bActive (K_cpu k c)) \<and>
     K_ncpus k' = K_ncpus k \<and> K_bug k' = K_bug k"

lemma sched_ok_same: "sched_ok S k \<Longrightarrow> same_sched k k' \<Longrightarrow> sched_ok S k'"
  by (erule sched_ok_sview) (simp_all add: same_sched_def)

lemma same_sched_trans: "same_sched k k' \<Longrightarrow> same_sched k' k'' \<Longrightarrow> same_sched k k''"
  by (simp add: same_sched_def)

lemma kern_ok_ready:
  assumes ok: "kern_ok T k" and t: "t \<in> T" "\<not> LW_THREAD_IS_READY k t" and v: "same_sched k k1"
    and s: "\<And>u. u \<noteq> t \<Longrightarrow> LW_THREAD_IS_READY k1 u = LW_THREAD_IS_READY k u"
  shows "kern_ok T (make_ready t a k1)"
proof -
  have out: "t \<notin> rdyset T k" using t(2) by (simp add: rdyset_def)
  show ?thesis
  proof (cases "LW_THREAD_IS_READY k1 t")
    case True
    let ?k2 = "tcb_upd t (\<lambda>b. b\<lparr>TCB_ucSchedActivate := a\<rparr>) k1"
    have "sched_ok (rdyset T k) k1" using ok v by (auto simp: kern_ok_def intro: sched_ok_same)
    then have s2: "sched_ok (rdyset T k) ?k2" by (elim sched_ok_sview) (simp_all add: tview_def)
    have "LW_THREAD_IS_READY k1 u \<longleftrightarrow> u = t \<or> LW_THREAD_IS_READY k u" for u using s True by (cases "u = t") auto
    then have "rdyset T k1 = insert t (rdyset T k)" using t(1) by (auto simp: rdyset_def)
    moreover have "rdyset T ?k2 = rdyset T k1" by (auto simp: rdyset_def LW_THREAD_IS_READY_def)
    ultimately have "rdyset T (ADD_TO_READY_RING t (GetPcb ?k2 t) ?k2) = insert t (rdyset T k)"
      using rdyset_erase [OF erase_ADD] by simp
    with sched_ok_add [OF s2 out] True show ?thesis by (simp add: kern_ok_def make_ready_def Let_def)
  next
    case False
    then have "LW_THREAD_IS_READY k1 u = LW_THREAD_IS_READY k u" for u using s t(2) by (cases "u = t") auto
    then have "rdyset T k1 = rdyset T k" by (simp add: rdyset_def)
    then have "kern_ok T k1" using ok v by (auto simp: kern_ok_def intro: sched_ok_same)
    with False show ?thesis by (simp add: make_ready_def)
  qed
qed

lemma kern_ok_unready:
  assumes ok: "kern_ok T k" and c: "c \<in> T" "K_ncpus k \<le> c" "LW_THREAD_IS_READY k c" and v: "same_sched k k1"
    and s: "\<And>u. LW_THREAD_IS_READY k1 u \<longleftrightarrow> u \<noteq> c \<and> LW_THREAD_IS_READY k u"
  shows "kern_ok T (DEL_FROM_READY_RING c (GetPcb k1 c) k1)"
proof -
  have "sched_ok (rdyset T k) k1" using ok v by (auto simp: kern_ok_def intro: sched_ok_same)
  then have "sched_ok (rdyset T k - {c}) (DEL_FROM_READY_RING c (GetPcb k1 c) k1)"
    using c v by (intro sched_ok_del) (simp_all add: rdyset_def same_sched_def)
  moreover have "rdyset T (DEL_FROM_READY_RING c (GetPcb k1 c) k1) = rdyset T k - {c}"
    using rdyset_erase [OF erase_DEL, of T c "GetPcb k1 c" k1] s by (auto simp: rdyset_def)
  ultimately show ?thesis by (simp add: kern_ok_def)
qed

lemma make_ready_keeps [simp]:
  "delay_ok (make_ready t a k) = delay_ok k" "dline (make_ready t a k) = dline k" "due (make_ready t a k) = due k"
  "wait_ok T (make_ready t a k) = wait_ok T k" "req_ok T (make_ready t a k) = req_ok T k" "oth_ok T (make_ready t a k) = oth_ok T k"
proof -
  let ?f = "\<lambda>b :: tcb. b\<lparr>TCB_ucSchedActivate := a\<rparr>"
  let ?k = "tcb_upd t ?f k"
  have n: "delay_nodes ?k = delay_nodes k" by (simp add: delay_nodes_def fun_eq_iff)
  have l: "dline ?k = dline k" by (simp add: dline_def)
  have "delayed ?k u = delayed k u" for u by (simp add: delayed_def)
  then have d: "delay_ok ?k = delay_ok k" "due ?k = due k" by (simp_all add: delay_ok_def due_def n l fun_eq_iff)
  have w: "wait_ok T ?k = wait_ok T k"
    using wait_ok_cong [of T k ?k] wait_ok_cong [of T ?k k] by (auto simp: wview_def)
  have r: "req_ok T ?k = req_ok T k" "oth_ok T ?k = oth_ok T k"
    using req_ok_cong [of T k ?k] req_ok_cong [of T ?k k] oth_ok_cong [of T k ?k] oth_ok_cong [of T ?k k]
      oth_okD(12) [of T k] oth_okD(12) [of T ?k] by (auto simp: rview_def oview_def l)
  have E: "erase (ADD_TO_READY_RING t q ?k) = erase ?k" for q by simp
  show "delay_ok (make_ready t a k) = delay_ok k" "dline (make_ready t a k) = dline k" "due (make_ready t a k) = due k"
    "wait_ok T (make_ready t a k) = wait_ok T k" "req_ok T (make_ready t a k) = req_ok T k" "oth_ok T (make_ready t a k) = oth_ok T k"
    by (simp_all add: make_ready_def Let_def delay_ok_erase [OF E] wait_ok_erase [OF E] req_ok_erase [OF E] oth_ok_erase [OF E] d l w r)
qed

text \<open>A thread becomes ready: the tables were right before, the rest is right after.\<close>

lemma sys_ok_ready:
  assumes ok: "sys_ok T k" and t: "t \<in> T" "\<not> LW_THREAD_IS_READY k t" and v: "same_sched k k1"
    and s: "\<And>u. u \<noteq> t \<Longrightarrow> TCB_usStatus (K_tcb k1 u) = TCB_usStatus (K_tcb k u)"
    and i: "delay_ok k1" "wait_ok T k1" "req_ok T k1" "oth_ok T k1"
  shows "sys_ok T (make_ready t a k1)"
proof -
  have "kern_ok T (make_ready t a k1)"
    by (rule kern_ok_ready [OF sys_ok_kern [OF ok] t v]) (simp add: LW_THREAD_IS_READY_def s)
  then show ?thesis using ok i by (simp add: sys_ok_def ipc_ok_def)
qed

section \<open>Updates of a thread that waits for nothing\<close>

lemma wait_ok_free:
  assumes ok: "wait_ok T k" and q: "\<And>e. by_prio k' e = by_prio k e" "\<And>e q. wq k' e q = wq k e q"
    and v: "\<And>u. u \<noteq> t \<Longrightarrow> wview (K_tcb k' u) = wview (K_tcb k u)"
    and t: "TCB_peventPtr (K_tcb k t) = None" "TCB_peventPtr (K_tcb k' t) = None"
  shows "wait_ok T k'"
proof -
  note D = wait_okD [OF ok]
  have W: "waits_in k' u e q = waits_in k u e q" for u e q using wviewD(2) [OF v] t by (cases "u = t") (auto simp: waits_in_def)
  have n: "x \<noteq> t" if "by_prio k e" "i < EVENT_Q_SIZE" "x \<in> set (WL_pring (wq k e q) i)" for x e q i
  proof -
    have "x \<in> set (waiters k e q)" using that unfolding waiters_def by (simp add: prio_order_split [OF that(2)])
    then show ?thesis using D(2) [of x e q] t(1) by (auto simp: waits_in_def)
  qed
  have w: "waiters k' = waiters k" by (simp add: waiters_def q fun_eq_iff)
  show ?thesis unfolding wait_ok_def w W q
  proof (intro conjI allI impI)
    fix x e q i assume a: "by_prio k e" "i < EVENT_Q_SIZE" "x \<in> set (WL_pring (wq k e q) i)"
    show "TCB_ppringPriorityQueue (K_tcb k' x) = (q, i)" using D(3) [OF a] wviewD(3) [OF v [OF n [OF a]]] by simp
  next
    fix x assume "TCB_peventPtr (K_tcb k' x) \<noteq> None"
    then have "x \<noteq> t" "TCB_peventPtr (K_tcb k x) \<noteq> None" using t(2) wviewD(1) [OF v, of x] by (cases "x = t"; simp)+
    then show "pending k' x" "TCB_ucWaitTimeout (K_tcb k' x) = 0" "x \<in> T" using D(4) [of x] wviewD(4,5) [OF v, of x] by auto
  qed (use D in auto)
qed

lemma oth_ok_upd:
  assumes ok: "oth_ok T k" and v: "\<And>u. u \<noteq> t \<Longrightarrow> oview (K_tcb k' u) = oview (K_tcb k u)"
    and t: "oview (K_tcb k t) = None" "oview (K_tcb k' t) = None"
    and q: "\<And>s. es_waiters k' s = es_waiters k s" "k_plineVutexHashHeader k' = k_plineVutexHashHeader k"
    and d: "set (dline k') \<subseteq> T"
  shows "oth_ok T k'"
proof (rule oth_ok_cong [OF ok _ q d])
  show "oview (K_tcb k' u) = oview (K_tcb k u)" for u using v [of u] t by (cases "u = t") simp_all
qed

section \<open>Leaving and entering the lists\<close>

lemma oth_ok_leave:
  assumes ok: "oth_ok T k" and v: "\<And>u. u \<noteq> t \<Longrightarrow> oview (K_tcb k' u) = oview (K_tcb k u)" and t: "oview (K_tcb k' t) = None"
    and q: "\<And>s. es_waiters k' s = (if es_of k t = Some s then remove1 t (es_waiters k s) else es_waiters k s)"
      "\<And>h. k_plineVutexHashHeader k' h = (if vutex_in k t h then remove1 t (k_plineVutexHashHeader k h) else k_plineVutexHashHeader k h)"
    and d: "set (dline k') \<subseteq> T"
  shows "oth_ok T k'"
proof -
  note D = oth_okD [OF ok]
  have n: "TCB_pesnPtr (K_tcb k' t) = None" "\<not> VUTEX_IS_WAITING k' t" using t by (auto simp: oview_none VUTEX_IS_WAITING_def)
  have V: "TCB_pesnPtr (K_tcb k' u) = (if u = t then None else TCB_pesnPtr (K_tcb k u))"
    "VUTEX_IS_WAITING k' u \<longleftrightarrow> u \<noteq> t \<and> VUTEX_IS_WAITING k u" for u
    using n oviewD(1,2) [OF v, of u] by (cases "u = t"; simp add: VUTEX_IS_WAITING_def)+
  have I: "vutex_in k' u h \<longleftrightarrow> u \<noteq> t \<and> vutex_in k u h" "es_of k' u = (if u = t then None else es_of k u)" for u h
    using V(1) [of u] V(2) [of u] oviewD(3) [OF v, of u] by (auto simp: vutex_in_def es_of_def VUTEX_IS_WAITING_def)
  have o: "oview (K_tcb k u) \<noteq> None" if "TCB_pesnPtr (K_tcb k u) \<noteq> None \<or> VUTEX_IS_WAITING k u" for u
    using that by (auto simp: oview_none VUTEX_IS_WAITING_def)
  show ?thesis unfolding oth_ok_def
  proof (intro conjI allI impI)
    show "distinct (es_waiters k' s)" "distinct (k_plineVutexHashHeader k' s)" for s using D(1,3) [of s] by (simp_all add: q)
    show "u \<in> set (es_waiters k' s) \<longleftrightarrow> es_of k' u = Some s" for u s using D(1) [of s] D(2) [of u s] D(2) [of t s] by (auto simp: q I)
    show "u \<in> set (k_plineVutexHashHeader k' h) \<longleftrightarrow> vutex_in k' u h" for u h
      using D(3) [of h] D(4) [of u h] D(4) [of t h] by (auto simp: q I)
  next
    fix u assume "TCB_pesnPtr (K_tcb k' u) \<noteq> None"
    then have u: "u \<noteq> t" "TCB_pesnPtr (K_tcb k u) \<noteq> None" by (auto simp: V(1) split: if_splits)
    then show "TCB_usStatus (K_tcb k' u) AND LW_THREAD_STATUS_EVENTSET \<noteq> 0" "\<not> VUTEX_IS_WAITING k' u"
      using D(5,6) [of u] oviewD(4) [OF v [OF u(1)]] o [of u] by (auto simp: V(2))
  next
    fix u assume "VUTEX_IS_WAITING k' u"
    then have u: "u \<noteq> t" "VUTEX_IS_WAITING k u" by (auto simp: V(2))
    then show "TCB_usStatus (K_tcb k' u) AND LW_THREAD_STATUS_VUTEX \<noteq> 0"
      "VUTEX_uiHash (TCB_vutex (K_tcb k' u)) = VutexHash (the (VUTEX_phyaddr (TCB_vutex (K_tcb k' u))))"
      using D(7,8) [of u] oviewD(5) [OF v [OF u(1)]] oviewD(3) [OF v [OF u(1)]] o [of u] by (auto simp: VUTEX_IS_WAITING_def)
  next
    fix u assume "TCB_pesnPtr (K_tcb k' u) \<noteq> None \<or> VUTEX_IS_WAITING k' u"
    then have u: "u \<noteq> t" "TCB_pesnPtr (K_tcb k u) \<noteq> None \<or> VUTEX_IS_WAITING k u" by (auto simp: V split: if_splits)
    then show "u \<in> T" "TCB_ucWaitTimeout (K_tcb k' u) = 0" "TCB_peventPtr (K_tcb k' u) = None"
      using D(9-11) [OF u(2)] oviewD(6,7) [OF v [OF u(1)]] o [OF u(2)] by simp_all
  qed (rule d)
qed

section \<open>Giving up a wait\<close>

lemma waits_ring:
  assumes ok: "wait_ok T k" and w: "waits_in k t e q"
  obtains i where "t \<in> set (WL_pring (wq k e q) i)" "if by_prio k e then i < EVENT_Q_SIZE else i = 0"
    "by_prio k e \<Longrightarrow> TCB_ppringPriorityQueue (K_tcb k t) = (q, i)"
proof -
  note D = wait_okD [OF ok]
  have m: "t \<in> set (waiters k e q)" using D(2) w by simp
  show thesis
  proof (cases "by_prio k e")
    case True
    then obtain i where i: "i < EVENT_Q_SIZE" "t \<in> set (WL_pring (wq k e q) i)" using m by (auto simp: waiters_def wq_order_def)
    show thesis by (rule that [of i]) (use i True D(3) [OF True i] in auto)
  next
    case False
    then have "t \<in> set (WL_pring (wq k e q) 0)" using m by (simp add: waiters_def wq_order_def)
    with False show thesis by (intro that [of 0]) auto
  qed
qed

text \<open>The control block afterwards: no wait is left, and the timeout is noted.\<close>

definition unpend_tcb :: "tcb \<Rightarrow> tcb" where
  "unpend_tcb b = b\<lparr>TCB_usStatus := TCB_usStatus b AND NOT LW_THREAD_STATUS_PEND_ANY, TCB_ucWaitTimeout := LW_WAIT_TIME_OUT,
     TCB_peventPtr := None, TCB_pesnPtr := None,
     TCB_vutex := (if VUTEX_phyaddr (TCB_vutex b) = None then TCB_vutex b else (TCB_vutex b)\<lparr>VUTEX_uiHash := 0, VUTEX_phyaddr := None\<rparr>)\<rparr>"

lemma vutex_line_sel [simp]:
  "K_tcb (vutex_line h f k) = K_tcb k" "K_cpu (vutex_line h f k) = K_cpu k" "K_ncpus (vutex_line h f k) = K_ncpus k"
  "K_curcpu (vutex_line h f k) = K_curcpu k" "K_wuDelay (vutex_line h f k) = K_wuDelay k" "K_eventBuffer (vutex_line h f k) = K_eventBuffer k"
  "K_esBuffer (vutex_line h f k) = K_esBuffer k" "K_bug (vutex_line h f k) = K_bug k" "K_i64KernelTime (vutex_line h f k) = K_i64KernelTime k"
  "K_pcbbmapGlobalReady (vutex_line h f k) = K_pcbbmapGlobalReady k" "K_resrcEvent (vutex_line h f k) = K_resrcEvent k"
  "k_plineVutexHashHeader (vutex_line h f k) = (k_plineVutexHashHeader k)(h := f (k_plineVutexHashHeader k h))"
  by (simp_all add: vutex_line_def)

lemma sview_other [simp]:
  "sview (es_upd e f k) = sview k" "sview (vutex_line h g k) = sview k" "sview (k\<lparr>k_plineVutexOp := x\<rparr>) = sview k"
  by (auto simp: sview_def rdy_pcbbmap_def LW_CAND_TCB_def fun_eq_iff split: option.splits)

lemma unpend_eq:
  assumes w: "wait_ok T k" and o: "oth_ok T k"
  shows "K_tcb (unpend t k) = (K_tcb k)(t := unpend_tcb (K_tcb k t))"
    "es_waiters (unpend t k) s = (if es_of k t = Some s then remove1 t (es_waiters k s) else es_waiters k s)"
    "k_plineVutexHashHeader (unpend t k) h =
       (if vutex_in k t h then remove1 t (k_plineVutexHashHeader k h) else k_plineVutexHashHeader k h)"
    "K_cpu (unpend t k) = K_cpu k" "K_ncpus (unpend t k) = K_ncpus k" "K_curcpu (unpend t k) = K_curcpu k"
    "K_wuDelay (unpend t k) = K_wuDelay k" "K_bug (unpend t k) = K_bug k" "sview (unpend t k) = sview k"
    "\<exists>i. TCB_peventPtr (K_tcb k t) = Some e \<longrightarrow> t \<in> set (WL_pring (wq k e (TCB_iPendQ (K_tcb k t))) i) \<and>
       (if by_prio k e then i < EVENT_Q_SIZE else i = 0) \<and>
       K_eventBuffer (unpend t k) = K_eventBuffer (ev_wq_upd e (TCB_iPendQ (K_tcb k t)) (wq_del_at i t) k)"
    "TCB_peventPtr (K_tcb k t) = None \<Longrightarrow> K_eventBuffer (unpend t k) = K_eventBuffer k"
    "K_resrcEvent (unpend t k) = K_resrcEvent k"
proof -
  let ?g = "\<lambda>b. b\<lparr>TCB_usStatus := TCB_usStatus b AND NOT LW_THREAD_STATUS_PEND_ANY, TCB_ucWaitTimeout := LW_WAIT_TIME_OUT\<rparr>"
  let ?k = "tcb_upd t ?g k"
  let ?G = "K_tcb (unpend t k) = (K_tcb k)(t := unpend_tcb (K_tcb k t)) \<and>
    es_waiters (unpend t k) s = (if es_of k t = Some s then remove1 t (es_waiters k s) else es_waiters k s) \<and>
    k_plineVutexHashHeader (unpend t k) h =
       (if vutex_in k t h then remove1 t (k_plineVutexHashHeader k h) else k_plineVutexHashHeader k h) \<and>
    K_cpu (unpend t k) = K_cpu k \<and> K_ncpus (unpend t k) = K_ncpus k \<and> K_curcpu (unpend t k) = K_curcpu k \<and>
    K_wuDelay (unpend t k) = K_wuDelay k \<and> K_bug (unpend t k) = K_bug k \<and> sview (unpend t k) = sview k \<and>
    (\<exists>i. TCB_peventPtr (K_tcb k t) = Some e \<longrightarrow> t \<in> set (WL_pring (wq k e (TCB_iPendQ (K_tcb k t))) i) \<and>
       (if by_prio k e then i < EVENT_Q_SIZE else i = 0) \<and>
       K_eventBuffer (unpend t k) = K_eventBuffer (ev_wq_upd e (TCB_iPendQ (K_tcb k t)) (wq_del_at i t) k)) \<and>
    (TCB_peventPtr (K_tcb k t) = None \<longrightarrow> K_eventBuffer (unpend t k) = K_eventBuffer k) \<and> K_resrcEvent (unpend t k) = K_resrcEvent k"
  have ?G
  proof (cases "TCB_peventPtr (K_tcb k t)")
    case (Some e')
    let ?q = "TCB_iPendQ (K_tcb k t)"
    have n: "TCB_pesnPtr (K_tcb k t) = None" "VUTEX_phyaddr (TCB_vutex (K_tcb k t)) = None"
      using oth_ok_event [OF o, of t] Some by (auto simp: oview_none)
    have "waits_in k t e' ?q" using Some by (simp add: waits_in_def)
    from waits_ring [OF w this] obtain i where i: "t \<in> set (WL_pring (wq k e' ?q) i)"
      "if by_prio k e' then i < EVENT_Q_SIZE else i = 0" "by_prio k e' \<Longrightarrow> TCB_ppringPriorityQueue (K_tcb k t) = (?q, i)" by metis
    have U: "unpend t k = tcb_upd t (\<lambda>b. b\<lparr>TCB_peventPtr := None\<rparr>) (ev_wq_upd e' ?q (wq_del_at i t) ?k)"
      using Some i(2,3) queue_ops(3,4) [of ?k t ?q e' i]
      by (auto simp: unpend_def EventUnQueue_def Let_def by_prio_def [symmetric])
    show ?thesis using n Some i(1,2) unfolding U
      by (auto simp: unpend_tcb_def ev_wq_upd_def es_of_def vutex_in_def VUTEX_IS_WAITING_def tview_def intro!: exI [of _ i])
  next
    case None
    note e = this
    show ?thesis
    proof (cases "TCB_pesnPtr (K_tcb k t)")
      case (Some n)
      then have v: "VUTEX_phyaddr (TCB_vutex (K_tcb k t)) = None" using oth_okD(6) [OF o, of t] by (simp add: VUTEX_IS_WAITING_def)
      show ?thesis using Some e v
        by (auto simp: unpend_def EventSetUnQueue_def Let_def unpend_tcb_def es_of_def vutex_in_def VUTEX_IS_WAITING_def tview_def)
    next
      case None
      then show ?thesis using e
        by (auto simp: unpend_def VutexUnQueue_def vutex_upd_def Let_def unpend_tcb_def es_of_def vutex_in_def VUTEX_IS_WAITING_def tview_def)
    qed
  qed
  then show "K_tcb (unpend t k) = (K_tcb k)(t := unpend_tcb (K_tcb k t))"
    "es_waiters (unpend t k) s = (if es_of k t = Some s then remove1 t (es_waiters k s) else es_waiters k s)"
    "k_plineVutexHashHeader (unpend t k) h =
       (if vutex_in k t h then remove1 t (k_plineVutexHashHeader k h) else k_plineVutexHashHeader k h)"
    "K_cpu (unpend t k) = K_cpu k" "K_ncpus (unpend t k) = K_ncpus k" "K_curcpu (unpend t k) = K_curcpu k"
    "K_wuDelay (unpend t k) = K_wuDelay k" "K_bug (unpend t k) = K_bug k" "sview (unpend t k) = sview k"
    "\<exists>i. TCB_peventPtr (K_tcb k t) = Some e \<longrightarrow> t \<in> set (WL_pring (wq k e (TCB_iPendQ (K_tcb k t))) i) \<and>
       (if by_prio k e then i < EVENT_Q_SIZE else i = 0) \<and>
       K_eventBuffer (unpend t k) = K_eventBuffer (ev_wq_upd e (TCB_iPendQ (K_tcb k t)) (wq_del_at i t) k)"
    "TCB_peventPtr (K_tcb k t) = None \<Longrightarrow> K_eventBuffer (unpend t k) = K_eventBuffer k"
    "K_resrcEvent (unpend t k) = K_resrcEvent k" by blast+
qed

lemma unpend_ok:
  assumes w: "wait_ok T k" and o: "oth_ok T k"
  shows "wait_ok T (unpend t k)" "waiters (unpend t k) e q = remove1 t (waiters k e q)" "oth_ok T (unpend t k)"
    "same_sched k (unpend t k)" "delay_ok (unpend t k) = delay_ok k" "dline (unpend t k) = dline k" "due (unpend t k) = due k"
proof -
  note U = unpend_eq [OF w o]
  show "same_sched k (unpend t k)" by (simp add: same_sched_def U)
  show l: "dline (unpend t k) = dline k" by (simp add: dline_def U)
  have n: "delay_nodes (unpend t k) = delay_nodes k" by (simp add: delay_nodes_def U unpend_tcb_def fun_eq_iff)
  show "due (unpend t k) = due k" by (simp add: due_def l n fun_eq_iff)
  have "delayed (unpend t k) u = delayed k u" for u by (simp add: delayed_def U unpend_tcb_def and.assoc)
  then show "delay_ok (unpend t k) = delay_ok k" by (simp add: delay_ok_def l n U)
  have nt: "TCB_peventPtr (K_tcb (unpend t k) t) = None" by (simp add: U unpend_tcb_def)
  have v: "u \<noteq> t \<Longrightarrow> wview (K_tcb (unpend t k) u) = wview (K_tcb k u)" for u by (simp add: U)
  show "oth_ok T (unpend t k)"
    by (rule oth_ok_leave [OF o _ _ U(2,3)]) (simp_all add: U oview_def unpend_tcb_def l oth_okD(12) [OF o])
  have "wait_ok T (unpend t k) \<and> waiters (unpend t k) e q = remove1 t (waiters k e q)"
  proof (cases "TCB_peventPtr (K_tcb k t)")
    case None
    have b: "by_prio (unpend t k) = by_prio k" "wq (unpend t k) = wq k"
      by (simp_all add: by_prio_def wq_def U(11) [OF None] fun_eq_iff)
    have "t \<notin> set (waiters k e q)" using wait_okD(2) [OF w, of t e q] None by (simp add: waits_in_def)
    then show ?thesis using wait_ok_free [OF w _ _ v None nt] b by (simp add: waiters_def remove1_idem)
  next
    case (Some e0)
    let ?q = "TCB_iPendQ (K_tcb k t)"
    from U(10) [of t e0] Some obtain i where i: "t \<in> set (WL_pring (wq k e0 ?q) i)" "if by_prio k e0 then i < EVENT_Q_SIZE else i = 0"
      and E: "K_eventBuffer (unpend t k) = K_eventBuffer (ev_wq_upd e0 ?q (wq_del_at i t) k)" by blast
    have b: "by_prio (unpend t k) e' = by_prio k e'"
      "wq (unpend t k) e' q' = (if e' = e0 \<and> q' = ?q then wq_del_at i t (wq k e0 ?q) else wq k e' q')" for e' q'
      using ev_wq_upd_wq(1,2) [of e0 ?q "wq_del_at i t" k e'] by (simp_all add: by_prio_def wq_def E)
    have "t \<notin> set (waiters k e q)" if "\<not> (e = e0 \<and> q = ?q)" using wait_okD(2) [OF w, of t e q] Some that by (auto simp: waits_in_def)
    then show ?thesis using wait_ok_leave [OF w i b nt v] by (auto simp: remove1_idem)
  qed
  then show "wait_ok T (unpend t k)" "waiters (unpend t k) e q = remove1 t (waiters k e q)" by blast+
qed

end
