(* ===== verification/Tick.thy ===== *)
theory Tick
  imports Waiting
begin

text \<open>
  The tick of the delay line keeps the invariant of the system, ends, and is exact: the threads
  whose time has come leave the line and whatever they waited for, every other thread is due one
  tick earlier.
\<close>

section \<open>One thread expires\<close>

lemma WAKEUP_DEL_form:
  "\<exists>x y. K_tcb (DEL_FROM_WAKEUP_LINE t k) u = (K_tcb k u)\<lparr>
     TCB_usStatus := (if u = t then TCB_usStatus (K_tcb k u) AND NOT LW_THREAD_STATUS_DELAY else TCB_usStatus (K_tcb k u)),
     TCB_ulDelay := x, TCB_bDelayInQ := y\<rparr>"
  by (auto simp: DEL_FROM_WAKEUP_LINE_def Let_def split: prod.splits)

lemma WAKEUP_DEL_other [simp]:
  "K_esBuffer (DEL_FROM_WAKEUP_LINE t k) = K_esBuffer k"
  "k_plineVutexHashHeader (DEL_FROM_WAKEUP_LINE t k) = k_plineVutexHashHeader k"
  by (simp_all add: DEL_FROM_WAKEUP_LINE_def Let_def split: prod.splits)

lemma WAKEUP_DEL_views:
  "rview (K_tcb (DEL_FROM_WAKEUP_LINE t k) u) = rview (K_tcb k u)"
  "oview (K_tcb (DEL_FROM_WAKEUP_LINE t k) u) = oview (K_tcb k u)"
  "wview (K_tcb (DEL_FROM_WAKEUP_LINE t k) u) = wview (K_tcb k u)"
  using WAKEUP_DEL_form [of t k u] by (auto simp: rview_def oview_def wview_def and.assoc)

lemma WAKEUP_DEL_op:
  "WU_plineOp (K_wuDelay k) \<noteq> Some t \<Longrightarrow> WU_plineOp (K_wuDelay (DEL_FROM_WAKEUP_LINE t k)) = WU_plineOp (K_wuDelay k)"
  by (auto simp: DEL_FROM_WAKEUP_LINE_def WakeupDel_def Let_def split: option.splits)

lemma WAKEUP_DEL_keeps:
  assumes "wait_ok T k" and "req_ok T k" and "oth_ok T k" and "delay_ok k" and "delayed k t"
  shows "wait_ok T (DEL_FROM_WAKEUP_LINE t k)" "req_ok T (DEL_FROM_WAKEUP_LINE t k)" "oth_ok T (DEL_FROM_WAKEUP_LINE t k)"
    "same_sched k (DEL_FROM_WAKEUP_LINE t k)"
proof -
  show "wait_ok T (DEL_FROM_WAKEUP_LINE t k)" by (rule wait_ok_cong [OF assms(1)]) (simp_all add: WAKEUP_DEL_views)
  show "req_ok T (DEL_FROM_WAKEUP_LINE t k)" by (rule req_ok_cong [OF assms(2)]) (simp_all add: WAKEUP_DEL_views)
  show "oth_ok T (DEL_FROM_WAKEUP_LINE t k)"
    by (rule oth_ok_cong [OF assms(3)]) (use oth_okD(12) [OF assms(3)] set_remove1_subset [of t "dline k"] in
      \<open>auto simp: WAKEUP_DEL_views DEL_FROM_WAKEUP_LINE_spec(2) [OF assms(4,5)]\<close>)
  show "same_sched k (DEL_FROM_WAKEUP_LINE t k)" by (simp add: same_sched_def)
qed

lemma make_ready_fields [simp]:
  "TCB_ucWaitTimeout (K_tcb (make_ready t a k) u) = TCB_ucWaitTimeout (K_tcb k u)"
  "TCB_ucIsEventDelete (K_tcb (make_ready t a k) u) = TCB_ucIsEventDelete (K_tcb k u)"
  "TCB_peventPtr (K_tcb (make_ready t a k) u) = TCB_peventPtr (K_tcb k u)"
  "K_wuDelay (make_ready t a k) = K_wuDelay k" "waiters (make_ready t a k) = waiters k"
  "K_eventBuffer (make_ready t a k) = K_eventBuffer k" "K_esBuffer (make_ready t a k) = K_esBuffer k"
  by (simp_all add: make_ready_def Let_def)

lemma wait_ok_timeout:
  assumes "wait_ok T k" and "\<not> pending k t"
  shows "wait_ok T (tcb_upd t (\<lambda>b. b\<lparr>TCB_ucWaitTimeout := v\<rparr>) k)"
proof -
  have "TCB_peventPtr (K_tcb k t) = None" using wait_okD(4) [OF assms(1), of t] assms(2) by (cases "TCB_peventPtr (K_tcb k t)") auto
  then show ?thesis by (intro wait_ok_free [OF assms(1), of _ t]) simp_all
qed

lemma oth_ok_timeout:
  assumes "oth_ok T k" and "\<not> pending k t"
  shows "oth_ok T (tcb_upd t (\<lambda>b. b\<lparr>TCB_ucWaitTimeout := v\<rparr>) k)"
proof -
  have p: "s AND LW_THREAD_STATUS_PEND_ANY = 0 \<Longrightarrow> s AND LW_THREAD_STATUS_EVENTSET = 0 \<and> s AND LW_THREAD_STATUS_VUTEX = 0" for s :: u16
  proof -
    assume z: "s AND LW_THREAD_STATUS_PEND_ANY = 0"
    have "s AND LW_THREAD_STATUS_EVENTSET = (s AND LW_THREAD_STATUS_PEND_ANY) AND LW_THREAD_STATUS_EVENTSET"
      "s AND LW_THREAD_STATUS_VUTEX = (s AND LW_THREAD_STATUS_PEND_ANY) AND LW_THREAD_STATUS_VUTEX" by (simp_all add: and.assoc)
    then show ?thesis by (simp add: z)
  qed
  have n: "oview (K_tcb k t) = None"
    using oth_okD(5,7) [OF assms(1), of t] assms(2) p [of "TCB_usStatus (K_tcb k t)"]
    by (auto simp: oview_none pending_def VUTEX_IS_WAITING_def simp del: not_None_eq)
  show ?thesis
  proof (rule oth_ok_upd [OF assms(1), of t])
    show "oview (K_tcb (tcb_upd t (\<lambda>b. b\<lparr>TCB_ucWaitTimeout := v\<rparr>) k) t) = None" using n by (simp add: oview_none)
  qed (use n oth_okD(12) [OF assms(1)] in \<open>simp_all add: dline_def\<close>)
qed

text \<open>The state before the thread is made ready.\<close>

definition expire1 :: "tid \<Rightarrow> kernel \<Rightarrow> kernel" where
  "expire1 t k = (let k = DEL_FROM_WAKEUP_LINE t k in
     if TCB_usStatus (K_tcb k t) AND LW_THREAD_STATUS_PEND_ANY \<noteq> 0 then unpend t k
     else tcb_upd t (\<lambda>b. b\<lparr>TCB_ucWaitTimeout := LW_WAIT_TIME_CLEAR\<rparr>) k)"

lemma expire_eq: "expire t k = make_ready t LW_SCHED_ACT_OTHER (expire1 t k)"
  by (simp add: expire_def expire1_def Let_def)

lemma pend_any_idem: "s AND LW_THREAD_STATUS_PEND_ANY = 0 \<Longrightarrow> s AND NOT LW_THREAD_STATUS_PEND_ANY = (s :: u16)"
  by (rule and_not_bit)

text \<open>What a state after the end of the wait of \<open>t\<close> has of the one before.\<close>

definition ended :: "tid set \<Rightarrow> tid \<Rightarrow> kernel \<Rightarrow> kernel \<Rightarrow> bool" where
  "ended T t k k' \<longleftrightarrow> delay_ok k' \<and> wait_ok T k' \<and> req_ok T k' \<and> oth_ok T k' \<and> dline k' = remove1 t (dline k) \<and>
     (\<forall>u \<in> set (dline k). u \<noteq> t \<longrightarrow> due k' u = due k u) \<and> (\<forall>e q. waiters k' e q = remove1 t (waiters k e q)) \<and>
     (\<forall>u. TCB_usStatus (K_tcb k' u) = (if u = t then (TCB_usStatus (K_tcb k t) AND NOT LW_THREAD_STATUS_DELAY)
       AND NOT LW_THREAD_STATUS_PEND_ANY else TCB_usStatus (K_tcb k u))) \<and>
     (\<forall>u. TCB_ucWaitTimeout (K_tcb k' u) = (if u = t then (if pending k t then LW_WAIT_TIME_OUT else 0) else TCB_ucWaitTimeout (K_tcb k u))) \<and>
     (WU_plineOp (K_wuDelay k) \<noteq> Some t \<longrightarrow> WU_plineOp (K_wuDelay k') = WU_plineOp (K_wuDelay k)) \<and>
     K_curcpu k' = K_curcpu k \<and> K_ncpus k' = K_ncpus k \<and> (\<forall>c. CPU_ptcbTCBCur (K_cpu k' c) = CPU_ptcbTCBCur (K_cpu k c)) \<and>
     (\<forall>c. CPU_bActive (K_cpu k' c) = CPU_bActive (K_cpu k c))"

lemma expire1_ok:
  assumes ok: "sys_ok T k" and d: "delayed k t"
  shows "ended T t k (expire1 t k) \<and> same_sched k (expire1 t k)"
proof -
  let ?k = "DEL_FROM_WAKEUP_LINE t k"
  have i: "wait_ok T k" "req_ok T k" "oth_ok T k" "delay_ok k" using ok by (simp_all add: sys_ok_def ipc_ok_def)
  note K = WAKEUP_DEL_keeps [OF i d] and S = DEL_FROM_WAKEUP_LINE_spec [OF i(4) d]
  have p: "pending ?k t = pending k t" by (simp add: pending_def and.assoc)
  show ?thesis
  proof (cases "pending k t")
    case True
    then have e: "expire1 t k = unpend t ?k" using p by (simp add: expire1_def pending_def Let_def)
    note U = unpend_eq [OF K(1,3), of t] and O = unpend_ok [OF K(1,3), of t]
    have r: "req_ok T (unpend t ?k)"
      by (rule req_ok_cong [OF K(2)]) (simp_all add: U unpend_tcb_def rview_def and.assoc)
    show ?thesis unfolding e ended_def using O S r same_sched_trans [OF K(4) O(4)] True
      by (simp add: U unpend_tcb_def WAKEUP_DEL_op)
  next
    case False
    let ?f = "\<lambda>b :: tcb. b\<lparr>TCB_ucWaitTimeout := LW_WAIT_TIME_CLEAR\<rparr>"
    have e: "expire1 t k = tcb_upd t ?f ?k" using p False by (simp add: expire1_def pending_def Let_def)
    have np: "\<not> pending ?k t" using p False by simp
    have "TCB_usStatus (K_tcb ?k t) AND NOT LW_THREAD_STATUS_PEND_ANY = TCB_usStatus (K_tcb ?k t)"
      using np by (intro pend_any_idem) (simp add: pending_def)
    then have s: "(TCB_usStatus (K_tcb k t) AND NOT LW_THREAD_STATUS_DELAY) AND NOT LW_THREAD_STATUS_PEND_ANY =
      TCB_usStatus (K_tcb k t) AND NOT LW_THREAD_STATUS_DELAY" by (simp only: WAKEUP_LINE_status if_True simp_thms)
    have "t \<notin> set (waiters k e q)" for e q using wait_okD(2) [OF i(1), of t e q] wait_okD(4) [OF i(1), of t] False by (auto simp: waits_in_def)
    moreover note delay_ok_same [OF S(1), of ?f t]
    moreover have "req_ok T (tcb_upd t ?f ?k)" by (rule req_ok_tcb [OF K(2)]) (simp add: rview_def)
    moreover have "same_sched k (tcb_upd t ?f ?k)" by (simp add: same_sched_def tview_def)
    ultimately show ?thesis unfolding e ended_def s using wait_ok_timeout [OF K(1) np] oth_ok_timeout [OF K(3) np] S False
      by (simp add: WAKEUP_DEL_op remove1_idem)
  qed
qed

lemma ended_make_ready: "ended T t k (make_ready t a k') = ended T t k k'"
  by (simp add: ended_def) (simp add: make_ready_def Let_def)

lemma delayed_thread:
  assumes "sys_ok T k" and "delayed k t"
  shows "t \<in> T" "t \<in> set (dline k)" "\<not> LW_THREAD_IS_READY k t"
proof -
  show l: "t \<in> set (dline k)" using assms by (simp add: sys_ok_def ipc_ok_def delay_ok_def)
  then show "t \<in> T" using oth_okD(12) [of T k] assms(1) by (auto simp: sys_ok_def)
  show "\<not> LW_THREAD_IS_READY k t" by (rule delayed_not_ready [OF assms(2)])
qed

lemma expire_ok:
  assumes ok: "sys_ok T k" and d: "delayed k t"
  shows "sys_ok T (expire t k)" "ended T t k (expire t k)"
proof -
  have E: "ended T t k (expire1 t k)" "same_sched k (expire1 t k)" using expire1_ok [OF ok d] by simp_all
  show "sys_ok T (expire t k)" unfolding expire_eq
    by (rule sys_ok_ready [OF ok delayed_thread(1,3) [OF ok d] E(2)]) (use E(1) in \<open>simp_all add: ended_def\<close>)
  show "ended T t k (expire t k)" using E(1) by (simp add: expire_eq ended_make_ready)
qed

section \<open>The pass over the line\<close>

lemma wu_op_sel [simp]:
  "K_tcb (wu_op n k) = K_tcb k" "K_cpu (wu_op n k) = K_cpu k" "K_ncpus (wu_op n k) = K_ncpus k" "K_curcpu (wu_op n k) = K_curcpu k"
  "K_eventBuffer (wu_op n k) = K_eventBuffer k" "K_esBuffer (wu_op n k) = K_esBuffer k" "K_bug (wu_op n k) = K_bug k"
  "k_plineVutexHashHeader (wu_op n k) = k_plineVutexHashHeader k" "WU_plineOp (K_wuDelay (wu_op n k)) = n"
  "WU_plineHeader (K_wuDelay (wu_op n k)) = WU_plineHeader (K_wuDelay k)" "sview (wu_op n k) = sview k"
  "waiters (wu_op n k) = waiters k" "dline (wu_op n k) = dline k" "due (wu_op n k) = due k" "delay_nodes (wu_op n k) = delay_nodes k"
  by (auto simp: wu_op_def sview_def rdy_pcbbmap_def LW_CAND_TCB_def waiters_def wq_def by_prio_def dline_def due_def delay_nodes_def
      fun_eq_iff split: option.splits)

lemma sys_ok_wu_op [simp]: "sys_ok T (wu_op n k) = sys_ok T k"
proof -
  have k: "kern_ok T (wu_op n k) = kern_ok T k"
    using kern_ok_sview [of T k "wu_op n k"] kern_ok_sview [of T "wu_op n k" k] by (auto simp: rdyset_def LW_THREAD_IS_READY_def)
  have d: "delay_ok (wu_op n k) = delay_ok k" by (simp add: delay_ok_def wakeup_wf_def delayed_def)
  have w: "wait_ok T (wu_op n k) = wait_ok T k" by (simp add: wait_ok_def wq_def by_prio_def waits_in_def pending_def)
  have r: "req_ok T (wu_op n k) = req_ok T k" by (simp add: req_ok_def)
  have o: "oth_ok T (wu_op n k) = oth_ok T k" by (simp add: oth_ok_def es_of_def vutex_in_def VUTEX_IS_WAITING_def)
  show ?thesis by (simp add: sys_ok_def ipc_ok_def k d w r o)
qed

text \<open>Time passes for the whole line when it passes for its first node.\<close>

definition pass_head :: "tid \<Rightarrow> ulong \<Rightarrow> kernel \<Rightarrow> kernel" where
  "pass_head x c = tcb_upd x (\<lambda>b. b\<lparr>TCB_ulDelay := TCB_ulDelay b - c\<rparr>)"

lemma pass_head_ok:
  assumes ok: "sys_ok T k" and l: "dline k = x # xs" and c: "c \<le> TCB_ulDelay (K_tcb k x)"
  shows "sys_ok T (pass_head x c k)" "dline (pass_head x c k) = dline k"
    "u \<in> set (dline k) \<Longrightarrow> due (pass_head x c k) u = due k u - unat c"
proof -
  let ?f = "\<lambda>b. b\<lparr>TCB_ulDelay := TCB_ulDelay b - c\<rparr>"
  let ?k = "tcb_upd x ?f k"
  have d: "delay_ok k" using ok by (simp add: sys_ok_def ipc_ok_def)
  have L: "dline ?k = dline k" by (simp add: dline_def)
  then show "dline (pass_head x c k) = dline k" by (simp add: pass_head_def)
  have dist: "distinct (x # xs)" "total (delay_nodes k) (x # xs) < 2 ^ 64" using d l by (simp_all add: delay_ok_def wakeup_wf_def dline_def)
  have C: "WUN_ulCounter (delay_nodes ?k y) = (if y = x then TCB_ulDelay (K_tcb k x) - c else WUN_ulCounter (delay_nodes k y))" for y
    by (simp add: delay_nodes_def)
  have t: "total (delay_nodes ?k) xs = total (delay_nodes k) xs" by (rule total_cong) (use dist in \<open>auto simp: C\<close>)
  have s: "unat (TCB_ulDelay (K_tcb k x) - c) = unat (TCB_ulDelay (K_tcb k x)) - unat c" using c by (rule unat_sub)
  have cx: "unat c \<le> unat (TCB_ulDelay (K_tcb k x))" using c by (simp add: word_le_nat_alt)
  have dl: "deadline (delay_nodes ?k) xs u = deadline (delay_nodes k) xs u" for u by (rule deadline_cong) (use dist in \<open>auto simp: C\<close>)
  have W: "WUN_ulCounter (delay_nodes k x) = TCB_ulDelay (K_tcb k x)" by (simp add: delay_nodes_def)
  show "u \<in> set (dline k) \<Longrightarrow> due (pass_head x c k) u = due k u - unat c"
  proof -
    have "due ?k u = unat (TCB_ulDelay (K_tcb k x) - c) + (if x = u then 0 else deadline (delay_nodes k) xs u)"
      unfolding due_def L l deadline.simps dl C by (simp only: simp_thms if_True)
    moreover have "due k u = unat (TCB_ulDelay (K_tcb k x)) + (if x = u then 0 else deadline (delay_nodes k) xs u)"
      unfolding due_def l deadline.simps W ..
    ultimately show ?thesis using cx s by (simp add: pass_head_def)
  qed
  have "delay_ok ?k"
  proof -
    have "delayed ?k u = delayed k u" for u by (simp add: delayed_def)
    moreover have "total (delay_nodes ?k) (dline k) \<le> total (delay_nodes k) (dline k)"
      unfolding l total_simps t C W by (simp add: s)
    ultimately show ?thesis using d dist unfolding delay_ok_def wakeup_wf_def dline_def [symmetric] L l by simp
  qed
  moreover have "kern_ok T ?k" by (rule kern_ok_tcb [OF sys_ok_kern [OF ok]]) (simp_all add: tview_def)
  moreover have i: "wait_ok T k" "req_ok T k" "oth_ok T k" using ok by (simp_all add: sys_ok_def ipc_ok_def)
  have "wait_ok T ?k" by (rule wait_ok_cong [OF i(1)]) (simp_all add: wview_def)
  moreover have "req_ok T ?k" by (rule req_ok_tcb [OF i(2)]) (simp add: rview_def)
  moreover have "oth_ok T ?k" by (rule oth_ok_tcb [OF i(3)]) (simp add: oview_def)
  ultimately show "sys_ok T (pass_head x c k)" using ok by (simp add: sys_ok_def ipc_ok_def pass_head_def)
qed

text \<open>The threads whose time has come after \<open>c\<close> ticks, and the state after the pass.\<close>

definition fired :: "nat \<Rightarrow> kernel \<Rightarrow> tid \<Rightarrow> bool" where
  "fired c k t \<longleftrightarrow> delayed k t \<and> due k t \<le> c"

definition passed :: "tid set \<Rightarrow> nat \<Rightarrow> kernel \<Rightarrow> kernel \<Rightarrow> bool" where
  "passed T c k k' \<longleftrightarrow> sys_ok T k' \<and> dline k' = filter (\<lambda>t. \<not> fired c k t) (dline k) \<and>
     (\<forall>t \<in> set (dline k'). due k' t = due k t - c) \<and> (\<forall>e q. waiters k' e q = filter (\<lambda>t. \<not> fired c k t) (waiters k e q)) \<and>
     (\<forall>t. TCB_usStatus (K_tcb k' t) = (if fired c k t then (TCB_usStatus (K_tcb k t) AND NOT LW_THREAD_STATUS_DELAY)
        AND NOT LW_THREAD_STATUS_PEND_ANY else TCB_usStatus (K_tcb k t))) \<and>
     (\<forall>t. TCB_ucWaitTimeout (K_tcb k' t) = (if fired c k t then (if pending k t then LW_WAIT_TIME_OUT else 0) else TCB_ucWaitTimeout (K_tcb k t))) \<and>
     K_curcpu k' = K_curcpu k \<and> K_ncpus k' = K_ncpus k \<and> (\<forall>i. CPU_ptcbTCBCur (K_cpu k' i) = CPU_ptcbTCBCur (K_cpu k i)) \<and>
     (\<forall>i. CPU_bActive (K_cpu k' i) = CPU_bActive (K_cpu k i))"

lemma pass_head_frame [simp]:
  "TCB_usStatus (K_tcb (pass_head x c k) u) = TCB_usStatus (K_tcb k u)"
  "TCB_ucWaitTimeout (K_tcb (pass_head x c k) u) = TCB_ucWaitTimeout (K_tcb k u)"
  "waiters (pass_head x c k) = waiters k" "K_cpu (pass_head x c k) = K_cpu k" "K_ncpus (pass_head x c k) = K_ncpus k"
  "K_curcpu (pass_head x c k) = K_curcpu k" "K_wuDelay (pass_head x c k) = K_wuDelay k"
  "delayed (pass_head x c k) = delayed k" "pending (pass_head x c k) = pending k"
  by (simp_all add: pass_head_def delayed_def pending_def fun_eq_iff)

lemma delayed_wu_op [simp]: "delayed (wu_op n k) = delayed k" "pending (wu_op n k) = pending k"
  by (simp_all add: delayed_def pending_def fun_eq_iff)

lemma dline_delayed: "sys_ok T k \<Longrightarrow> t \<in> set (dline k) \<longleftrightarrow> delayed k t"
  by (simp add: sys_ok_def ipc_ok_def delay_ok_def)

text \<open>The loop stops at a node that is not due.\<close>

lemma passed_stop:
  assumes ok: "sys_ok T k" and l: "dline k = x # xs" and c: "c < TCB_ulDelay (K_tcb k x)"
  shows "passed T (unat c) k (pass_head x c (wu_op n k))"
proof -
  have ok': "sys_ok T (wu_op n k)" and l': "dline (wu_op n k) = x # xs" and c': "c \<le> TCB_ulDelay (K_tcb (wu_op n k) x)"
    using ok l c by simp_all
  note P = pass_head_ok [OF ok' l' c']
  have "due k u \<ge> unat (TCB_ulDelay (K_tcb k x))" for u by (simp add: due_def l delay_nodes_def)
  moreover have "unat c < unat (TCB_ulDelay (K_tcb k x))" using c by (simp add: word_less_nat_alt)
  ultimately have nf: "\<not> fired (unat c) k u" for u using le_less_trans not_le by (metis fired_def)
  show ?thesis unfolding passed_def using P by (simp add: nf l)
qed

lemma passed_next:
  assumes ok: "sys_ok T k" and l: "dline k = x # xs" and c: "TCB_ulDelay (K_tcb k x) \<le> c"
  defines "k1 \<equiv> expire x (pass_head x (TCB_ulDelay (K_tcb k x)) (wu_op (head_of xs) k))"
  shows "sys_ok T k1" "dline k1 = xs" "WU_plineOp (K_wuDelay k1) = head_of xs"
    "passed T (unat (c - TCB_ulDelay (K_tcb k x))) k1 k' \<Longrightarrow> passed T (unat c) k k'"
proof -
  let ?d = "TCB_ulDelay (K_tcb k x)" and ?k0 = "wu_op (head_of xs) k"
  have ok0: "sys_ok T ?k0" and l0: "dline ?k0 = x # xs" and c0: "?d \<le> TCB_ulDelay (K_tcb ?k0 x)" using ok l by simp_all
  note P = pass_head_ok [OF ok0 l0 c0]
  have dist: "distinct (x # xs)" using ok l by (simp add: sys_ok_def ipc_ok_def delay_ok_def wakeup_wf_def dline_def)
  have dx: "delayed k x" using dline_delayed [OF ok, of x] l by simp
  have E: "sys_ok T k1" "ended T x (pass_head x ?d ?k0) k1" using expire_ok [OF P(1), of x] dx by (simp_all add: k1_def)
  show "sys_ok T k1" by (rule E(1))
  show l1: "dline k1 = xs" using E(2) P(2) l by (simp add: ended_def)
  have "head_of xs \<noteq> Some x" using dist by (cases xs) auto
  then show "WU_plineOp (K_wuDelay k1) = head_of xs" using E(2) by (simp add: ended_def)
  assume R: "passed T (unat (c - ?d)) k1 k'"
  have du: "unat (c - ?d) = unat c - unat ?d" "unat ?d \<le> unat c" using c by (simp_all add: unat_sub word_le_nat_alt)
  have D: "due k1 u = due k u - unat ?d" if "u \<in> set xs" for u
    using E(2) that P(3) [of u] dist l by (auto simp: ended_def P(2))
  have ge: "due k u \<ge> unat ?d" for u by (simp add: due_def l delay_nodes_def)
  have x: "due k x = unat ?d" by (simp add: due_def l delay_nodes_def)
  have F: "fired (unat c) k u \<longleftrightarrow> u = x \<or> fired (unat c - unat ?d) k1 u" for u
  proof (cases "u \<in> set xs")
    case True
    then have "delayed k u" "delayed k1 u" "u \<noteq> x" using dline_delayed [OF ok, of u] dline_delayed [OF E(1), of u] l l1 dist by auto
    then show ?thesis using D [OF True] ge [of u] du by (auto simp: fired_def)
  next
    case False
    then have "\<not> delayed k1 u" "delayed k u \<longleftrightarrow> u = x" using dline_delayed [OF ok, of u] dline_delayed [OF E(1), of u] l l1 by auto
    then show ?thesis using x du(2) by (auto simp: fired_def)
  qed
  have nx: "\<not> fired (unat c - unat ?d) k1 x" using dline_delayed [OF E(1), of x] l1 dist by (auto simp: fired_def)
  have dw: "distinct (waiters k e q)" for e q using ok wait_okD(5) by (auto simp: sys_ok_def ipc_ok_def)
  have p1: "pending k1 u = pending k u" if "u \<noteq> x" for u using E(2) that by (simp add: ended_def pending_def)
  show "passed T (unat c) k k'"
    unfolding passed_def
  proof (intro conjI allI ballI)
    show "sys_ok T k'" using R by (simp add: passed_def)
    show "dline k' = filter (\<lambda>t. \<not> fired (unat c) k t) (dline k)"
      using R dist by (auto simp: passed_def F l l1 du nx intro: filter_cong)
    show "due k' t = due k t - unat c" if "t \<in> set (dline k')" for t
    proof -
      have "t \<in> set xs" "due k' t = due k1 t - (unat c - unat ?d)" using R that by (auto simp: passed_def l1 du)
      then show ?thesis using D ge [of t] du(2) by simp
    qed
    show "waiters k' e q = filter (\<lambda>t. \<not> fired (unat c) k t) (waiters k e q)" for e q
      using R E(2) distinct_remove1_removeAll [OF dw] by (auto simp: passed_def ended_def F du removeAll_filter_not_eq intro: filter_cong)
    show "TCB_usStatus (K_tcb k' t) = (if fired (unat c) k t then (TCB_usStatus (K_tcb k t) AND NOT LW_THREAD_STATUS_DELAY)
        AND NOT LW_THREAD_STATUS_PEND_ANY else TCB_usStatus (K_tcb k t))" for t
      using R E(2) nx by (cases "t = x") (simp_all add: passed_def ended_def F du)
    show "TCB_ucWaitTimeout (K_tcb k' t) = (if fired (unat c) k t then (if pending k t then LW_WAIT_TIME_OUT else 0) else TCB_ucWaitTimeout (K_tcb k t))" for t
      using R E(2) nx p1 [of t] by (cases "t = x") (simp_all add: passed_def ended_def F du)
  qed (use R E(2) in \<open>simp_all add: passed_def ended_def\<close>)
qed

lemma wakeup_pass_step:
  assumes "WU_plineOp (K_wuDelay k) = head_of (dline k)" and "dline k = x # xs"
  shows "wakeup_pass c k = (if TCB_ulDelay (K_tcb k x) > c then Some (pass_head x c (wu_op (head_of xs) k))
    else wakeup_pass (c - TCB_ulDelay (K_tcb k x)) (expire x (pass_head x (TCB_ulDelay (K_tcb k x)) (wu_op (head_of xs) k))))"
proof -
  have h: "WU_plineHeader (K_wuDelay k) = x # xs" "WU_plineOp (K_wuDelay k) = Some x" using assms by (simp_all add: dline_def)
  have z: "tcb_upd x (\<lambda>b. b\<lparr>TCB_ulDelay := 0\<rparr>) k1 = pass_head x (TCB_ulDelay (K_tcb k1 x)) k1" for k1
    by (simp add: pass_head_def tcb_upd_def)
  have p: "tcb_upd x (\<lambda>b. b\<lparr>TCB_ulDelay := TCB_ulDelay b - d\<rparr>) k1 = pass_head x d k1" for k1 d by (simp add: pass_head_def)
  show ?thesis by (subst wakeup_pass.simps) (simp add: h Let_def z p)
qed

lemma wakeup_pass_ok:
  assumes "sys_ok T k" and "WU_plineOp (K_wuDelay k) = head_of (dline k)"
  shows "\<exists>k'. wakeup_pass c k = Some k' \<and> passed T (unat c) k k'"
  using assms
proof (induction "dline k" arbitrary: k c)
  case Nil
  then have "\<not> fired n k u" for n u using dline_delayed [OF Nil.prems(1), of u] by (auto simp: fired_def)
  then have "passed T (unat c) k k" using Nil by (simp add: passed_def)
  moreover have "wakeup_pass c k = Some k" using Nil by (subst wakeup_pass.simps) (simp add: Nil.hyps [symmetric])
  ultimately show ?case by blast
next
  case (Cons x xs)
  note l = Cons.hyps(2) [symmetric]
  note S = wakeup_pass_step [OF Cons.prems(2) l]
  show ?case
  proof (cases "TCB_ulDelay (K_tcb k x) > c")
    case True
    then show ?thesis using S passed_stop [OF Cons.prems(1) l True] by auto
  next
    case False
    then have c: "TCB_ulDelay (K_tcb k x) \<le> c" by simp
    note N = passed_next [OF Cons.prems(1) l c]
    from Cons.hyps(1) [OF N(2) [symmetric] N(1)] N(3) obtain k' where
      "wakeup_pass (c - TCB_ulDelay (K_tcb k x)) (expire x (pass_head x (TCB_ulDelay (K_tcb k x)) (wu_op (head_of xs) k))) = Some k'"
      "passed T (unat (c - TCB_ulDelay (K_tcb k x))) (expire x (pass_head x (TCB_ulDelay (K_tcb k x)) (wu_op (head_of xs) k))) k'"
      using N(2) by metis
    then show ?thesis using S False N(4) by auto
  qed
qed

lemma thread_tick_ok:
  assumes ok: "sys_ok T k"
  obtains k' where "thread_tick k = Some k'" "passed T 1 k k'"
proof -
  let ?k = "wu_op (head_of (WU_plineHeader (K_wuDelay k))) k"
  have "sys_ok T ?k" "WU_plineOp (K_wuDelay ?k) = head_of (dline ?k)" using ok by (simp_all add: dline_def)
  from wakeup_pass_ok [OF this, of 1] obtain k' where "thread_tick k = Some k'" "passed T 1 ?k k'"
    by (auto simp: thread_tick_def)
  moreover have "passed T 1 k k'" if "passed T 1 ?k k'" using that by (simp add: passed_def fired_def)
  ultimately show thesis using that by blast
qed

end
