(* ===== verification/SemInv.thy ===== *)
theory SemInv
  imports Sem
begin

text \<open>
  Semaphores against their specification. The abstract state of a semaphore is its count, its
  maximum and the threads that wait for it in the order they will be served; the bodies of the
  calls implement the abstract operations and keep the kernel's invariant.
\<close>

section \<open>The abstract semaphore\<close>

record sem_spec =
  ss_count :: ulong
  ss_max :: ulong
  ss_wait :: "tid list"

definition sem_abs :: "kernel \<Rightarrow> nat \<Rightarrow> sem_spec" where
  "sem_abs k e = \<lparr>ss_count = EVENT_ulCounter (K_eventBuffer k e), ss_max = EVENT_ulMaxCounter (K_eventBuffer k e),
     ss_wait = waiters k e EVENT_SEM_Q\<rparr>"

text \<open>
  Giving \<open>n\<close> units to a counting semaphore: the first waiters take theirs, the others are
  counted as long as there is room.
\<close>

definition spec_give :: "nat \<Rightarrow> sem_spec \<Rightarrow> ulong \<times> sem_spec" where
  "spec_give n s =
     (let w = min n (length (ss_wait s));
          room = unat (ss_max s) - unat (ss_count s);
          m = min (n - w) room
      in (if n - w \<le> room then ERROR_NONE else ERROR_EVENT_FULL,
          s\<lparr>ss_count := ss_count s + of_nat m, ss_wait := drop w (ss_wait s)\<rparr>))"

text \<open>The invariant of a semaphore: never above the maximum, and nobody waits while units are left.\<close>

definition sem_inv :: "sem_spec \<Rightarrow> bool" where
  "sem_inv s \<longleftrightarrow> ss_count s \<le> ss_max s \<and> (ss_wait s \<noteq> [] \<longrightarrow> ss_count s = 0)"

lemma sem_abs_sel [simp]:
  "ss_count (sem_abs k e) = EVENT_ulCounter (K_eventBuffer k e)" "ss_max (sem_abs k e) = EVENT_ulMaxCounter (K_eventBuffer k e)"
  "ss_wait (sem_abs k e) = waiters k e EVENT_SEM_Q"
  by (simp_all add: sem_abs_def)

section \<open>The kernel invariant under changes of an event\<close>

lemma event_upd_wait:
  assumes "\<And>v. EVENT_ulOption (f v) = EVENT_ulOption v" and "\<And>v. EVENT_wqWaitQ (f v) = EVENT_wqWaitQ v"
  shows "wq (event_upd e f k) = wq k" "by_prio (event_upd e f k) = by_prio k" "waiters (event_upd e f k) = waiters k"
    "EventWaitNum q e' (event_upd e f k) = EventWaitNum q e' k"
  using assms by (auto simp: wq_def by_prio_def waiters_def EventWaitNum_def fun_eq_iff)

lemma event_upd_delay [simp]:
  "delay_ok (event_upd e f k) = delay_ok k" "dline (event_upd e f k) = dline k" "due (event_upd e f k) = due k"
proof -
  show l: "dline (event_upd e f k) = dline k" by (simp add: dline_def)
  have n: "delay_nodes (event_upd e f k) = delay_nodes k" by (simp add: delay_nodes_def)
  show "due (event_upd e f k) = due k" by (simp add: due_def l n fun_eq_iff)
  show "delay_ok (event_upd e f k) = delay_ok k" by (simp add: delay_ok_def l n delayed_def)
qed

lemma ipc_ok_event:
  assumes "ipc_ok T k" and "\<And>v. EVENT_ulOption (f v) = EVENT_ulOption v" and "\<And>v. EVENT_wqWaitQ (f v) = EVENT_wqWaitQ v"
  shows "ipc_ok T (event_upd e f k)"
proof -
  have "wait_ok T (event_upd e f k)"
    by (rule wait_ok_cong [OF ipc_okD(3) [OF assms(1)]]) (simp_all add: event_upd_wait [of f, OF assms(2,3)])
  then show ?thesis using assms(1) by (simp add: ipc_ok_def)
qed

lemma set_counter_ipc [simp]: "ipc_ok T k \<Longrightarrow> ipc_ok T (set_counter e v k)"
  unfolding set_counter_def by (erule ipc_ok_event) simp_all

lemma set_counter_sel [simp]:
  "waiters (set_counter e v k) = waiters k" "K_tcb (set_counter e v k) = K_tcb k" "EventWaitNum q e' (set_counter e v k) = EventWaitNum q e' k"
  "EVENT_ulCounter (K_eventBuffer (set_counter e v k) e') = (if e' = e then v else EVENT_ulCounter (K_eventBuffer k e'))"
  "EVENT_ulMaxCounter (K_eventBuffer (set_counter e v k) e') = EVENT_ulMaxCounter (K_eventBuffer k e')"
  "EVENT_pvPtr (K_eventBuffer (set_counter e v k) e') = EVENT_pvPtr (K_eventBuffer k e')"
  "EVENT_ucType (K_eventBuffer (set_counter e v k) e') = EVENT_ucType (K_eventBuffer k e')"
  "dline (set_counter e v k) = dline k" "due (set_counter e v k) = due k"
  by (auto simp: set_counter_def event_upd_wait)

lemma sem_abs_set_counter: "sem_abs (set_counter e v k) e = (sem_abs k e)\<lparr>ss_count := v\<rparr>"
  by (simp add: sem_abs_def)

lemma wait_num: "ipc_ok T k \<Longrightarrow> EventWaitNum q e k = 0 \<longleftrightarrow> waiters k e q = []"
  using wait_okD(6) [OF ipc_okD(3), of T k q e] by (metis length_0_conv unat_eq_zero)

section \<open>Waking the first waiter\<close>

text \<open>The facts about a wake that the semaphores use, in terms of the abstract state.\<close>

lemma wake_sem:
  assumes ok: "ipc_ok T k" and w: "waiters k e EVENT_SEM_Q = t # ts"
  obtains k' where "ev_wake e EVENT_SEM_Q msg d LW_THREAD_STATUS_SEM a k = (Some t, k')" "ipc_ok T k'"
    "sem_abs k' e = (sem_abs k e)\<lparr>ss_wait := ts\<rparr>"
    "\<And>e' q'. (e', q') \<noteq> (e, EVENT_SEM_Q) \<Longrightarrow> waiters k' e' q' = waiters k e' q'"
    "TCB_usStatus (K_tcb k' t) = (TCB_usStatus (K_tcb k t) AND NOT LW_THREAD_STATUS_DELAY) AND NOT LW_THREAD_STATUS_SEM"
    "\<And>u. u \<noteq> t \<Longrightarrow> TCB_usStatus (K_tcb k' u) = TCB_usStatus (K_tcb k u)"
    "TCB_peventPtr (K_tcb k' t) = None" "TCB_pvMsgBoxMessage (K_tcb k' t) = msg"
    "\<And>u. TCB_ucIsEventDelete (K_tcb k' u) = (if u = t \<and> d then LW_EVENT_DELETE else TCB_ucIsEventDelete (K_tcb k u))"
    "\<And>u. TCB_ucWaitTimeout (K_tcb k' u) = TCB_ucWaitTimeout (K_tcb k u)"
    "\<And>e'. EVENT_ulCounter (K_eventBuffer k' e') = EVENT_ulCounter (K_eventBuffer k e')"
    "\<And>e'. EVENT_ulMaxCounter (K_eventBuffer k' e') = EVENT_ulMaxCounter (K_eventBuffer k e')"
    "\<And>e'. EVENT_ucType (K_eventBuffer k' e') = EVENT_ucType (K_eventBuffer k e')"
    "\<And>e'. EVENT_pvPtr (K_eventBuffer k' e') = EVENT_pvPtr (K_eventBuffer k e')" "K_resrcEvent k' = K_resrcEvent k"
proof (rule ev_wake_spec [OF ok w, of msg d LW_THREAD_STATUS_SEM a])
  fix k' assume R: "ev_wake e EVENT_SEM_Q msg d LW_THREAD_STATUS_SEM a k = (Some t, k')" "ipc_ok T k'"
    and W: "\<And>e' q'. waiters k' e' q' = (if e' = e \<and> q' = EVENT_SEM_Q then ts else waiters k e' q')"
    and S: "TCB_usStatus (K_tcb k' t) = (TCB_usStatus (K_tcb k t) AND NOT LW_THREAD_STATUS_DELAY) AND NOT LW_THREAD_STATUS_SEM"
      "\<And>u. u \<noteq> t \<Longrightarrow> TCB_usStatus (K_tcb k' u) = TCB_usStatus (K_tcb k u)"
      "TCB_peventPtr (K_tcb k' t) = None" "TCB_pvMsgBoxMessage (K_tcb k' t) = msg"
      "\<And>u. TCB_ucIsEventDelete (K_tcb k' u) = (if u = t \<and> d then LW_EVENT_DELETE else TCB_ucIsEventDelete (K_tcb k u))"
    and E: "K_eventBuffer k' = K_eventBuffer (ev_wq_upd e EVENT_SEM_Q (wq_del_at (first_index k e EVENT_SEM_Q) t) k)"
    and F: "K_resrcEvent k' = K_resrcEvent k" "\<And>u. TCB_ucWaitTimeout (K_tcb k' u) = TCB_ucWaitTimeout (K_tcb k u)"
  show thesis
    by (rule that [OF R _ _ S F(2) _ _ _ _ F(1)]) (auto simp: E W sem_abs_def w)
qed

text \<open>After a wake the thread is ready unless something else holds it.\<close>

lemma woken_ready:
  assumes "TCB_usStatus (K_tcb k t) = LW_THREAD_STATUS_SEM \<or> TCB_usStatus (K_tcb k t) = LW_THREAD_STATUS_SEM OR LW_THREAD_STATUS_DELAY"
    and "TCB_usStatus (K_tcb k' t) = (TCB_usStatus (K_tcb k t) AND NOT LW_THREAD_STATUS_DELAY) AND NOT LW_THREAD_STATUS_SEM"
  shows "LW_THREAD_IS_READY k' t"
  using assms by (auto simp: LW_THREAD_IS_READY_def)

section \<open>Release\<close>

lemma spec_give_Suc_wait:
  "ss_wait s = t # ts \<Longrightarrow> spec_give (Suc n) s = spec_give n (s\<lparr>ss_wait := ts\<rparr>)"
  by (simp add: spec_give_def Let_def)

lemma spec_give_Suc_room:
  assumes "ss_wait s = []" and "ss_count s < ss_max s"
  shows "spec_give (Suc n) s = spec_give n (s\<lparr>ss_count := ss_count s + 1\<rparr>)"
proof -
  have u: "unat (ss_count s + 1) = unat (ss_count s) + 1" by (rule unat_inc_lt [OF assms(2)])
  have l: "unat (ss_count s) < unat (ss_max s)" using assms(2) by (simp add: word_less_nat_alt)
  then have "min (Suc n) (unat (ss_max s) - unat (ss_count s)) = Suc (min n (unat (ss_max s) - unat (ss_count s + 1)))"
    by (simp add: u)
  with assms(1) l show ?thesis by (auto simp: spec_give_def Let_def u)
qed

lemma spec_give_full:
  "ss_wait s = [] \<Longrightarrow> \<not> ss_count s < ss_max s \<Longrightarrow> spec_give (Suc n) s = (ERROR_EVENT_FULL, s)"
  by (simp add: spec_give_def Let_def word_less_nat_alt)

lemma semC_release_refines:
  assumes "ipc_ok T k" and "semC_release n e k = (r, k')"
  shows "ipc_ok T k' \<and> (r, sem_abs k' e) = spec_give n (sem_abs k e)"
  using assms
proof (induction n e k rule: semC_release.induct)
  case (1 e k)
  then show ?case by (simp add: spec_give_def)
next
  case (2 n e k)
  note ok = "2.prems"(1)
  show ?case
  proof (cases "waiters k e EVENT_SEM_Q")
    case (Cons t ts)
    obtain k1 where W: "ev_wake e EVENT_SEM_Q 0 False LW_THREAD_STATUS_SEM LW_SCHED_ACT_OTHER k = (Some t, k1)" "ipc_ok T k1"
      "sem_abs k1 e = (sem_abs k e)\<lparr>ss_wait := ts\<rparr>" by (rule wake_sem [OF ok Cons])
    have n: "EventWaitNum EVENT_SEM_Q e k \<noteq> 0" using wait_num [OF ok] Cons by simp
    with "2.prems"(2) W(1) have "semC_release n e k1 = (r, k')" by simp
    with "2.IH"(1) [OF n] W have "ipc_ok T k' \<and> (r, sem_abs k' e) = spec_give n (sem_abs k1 e)" by simp
    then show ?thesis using spec_give_Suc_wait [of "sem_abs k e"] Cons W(3) by simp
  next
    case Nil
    then have n: "\<not> EventWaitNum EVENT_SEM_Q e k \<noteq> 0" using wait_num [OF ok] by simp
    show ?thesis
    proof (cases "EVENT_ulCounter (K_eventBuffer k e) < EVENT_ulMaxCounter (K_eventBuffer k e)")
      case True
      let ?k = "set_counter e (EVENT_ulCounter (K_eventBuffer k e) + 1) k"
      have "semC_release n e ?k = (r, k')" using "2.prems"(2) n True by simp
      with "2.IH"(2) [OF n True] ok have "ipc_ok T k' \<and> (r, sem_abs k' e) = spec_give n (sem_abs ?k e)" by simp
      then show ?thesis using spec_give_Suc_room [of "sem_abs k e" n] Nil True by (simp add: sem_abs_set_counter)
    next
      case False
      with "2.prems" n Nil spec_give_full [of "sem_abs k e" n] show ?thesis by auto
    qed
  qed
qed

lemma spec_give_inv: "sem_inv s \<Longrightarrow> sem_inv (snd (spec_give n s))"
proof -
  assume inv: "sem_inv s"
  let ?w = "min n (length (ss_wait s))" and ?room = "unat (ss_max s) - unat (ss_count s)"
  let ?m = "min (n - ?w) ?room"
  have le: "unat (ss_count s) \<le> unat (ss_max s)" using inv by (simp add: sem_inv_def word_le_nat_alt)
  then have b: "unat (ss_count s) + ?m \<le> unat (ss_max s)" by simp
  also have "unat (ss_max s) < 2 ^ 64" using unsigned_less [of "ss_max s"] by simp
  finally have lt: "unat (ss_count s) + ?m < 2 ^ 64" .
  then have "unat (ss_count s + of_nat ?m) = unat (ss_count s) + ?m"
    by (simp add: unat_word_ariths unat_of_nat)
  with b have "ss_count s + of_nat ?m \<le> ss_max s" by (simp add: word_le_nat_alt)
  moreover have "ss_count s + of_nat ?m = 0" if "drop ?w (ss_wait s) \<noteq> []"
  proof -
    have "n < length (ss_wait s)" using that by (auto simp: min_def split: if_splits)
    then show ?thesis using inv by (auto simp: sem_inv_def)
  qed
  ultimately show ?thesis by (simp add: sem_inv_def spec_give_def Let_def)
qed

section \<open>Flush and delete\<close>

lemma ev_wake_all_spec:
  assumes "ipc_ok T k" and "waiters k e EVENT_SEM_Q = ws"
  shows "\<exists>k'. ev_wake_all e EVENT_SEM_Q d LW_THREAD_STATUS_SEM a k = Some k' \<and> ipc_ok T k' \<and>
     sem_abs k' e = (sem_abs k e)\<lparr>ss_wait := []\<rparr> \<and>
     (\<forall>e' q'. (e', q') \<noteq> (e, EVENT_SEM_Q) \<longrightarrow> waiters k' e' q' = waiters k e' q') \<and>
     (\<forall>u. TCB_usStatus (K_tcb k' u) = (if u \<in> set ws
        then (TCB_usStatus (K_tcb k u) AND NOT LW_THREAD_STATUS_DELAY) AND NOT LW_THREAD_STATUS_SEM else TCB_usStatus (K_tcb k u))) \<and>
     (\<forall>u. TCB_ucIsEventDelete (K_tcb k' u) = (if u \<in> set ws \<and> d then LW_EVENT_DELETE else TCB_ucIsEventDelete (K_tcb k u))) \<and>
     (\<forall>u. TCB_ucWaitTimeout (K_tcb k' u) = TCB_ucWaitTimeout (K_tcb k u)) \<and>
     K_resrcEvent k' = K_resrcEvent k \<and> (\<forall>e'. EVENT_ucType (K_eventBuffer k' e') = EVENT_ucType (K_eventBuffer k e'))"
  using assms
proof (induction ws arbitrary: k)
  case Nil
  then have "EventWaitNum EVENT_SEM_Q e k = 0" using wait_num by simp
  then have "ev_wake_all e EVENT_SEM_Q d LW_THREAD_STATUS_SEM a k = Some k" by (subst ev_wake_all.simps) simp
  with Nil show ?case by (auto simp: sem_abs_def)
next
  case (Cons t ts)
  from Cons.prems obtain k1 where W: "ev_wake e EVENT_SEM_Q 0 d LW_THREAD_STATUS_SEM a k = (Some t, k1)" "ipc_ok T k1"
    "sem_abs k1 e = (sem_abs k e)\<lparr>ss_wait := ts\<rparr>"
    "\<And>e' q'. (e', q') \<noteq> (e, EVENT_SEM_Q) \<Longrightarrow> waiters k1 e' q' = waiters k e' q'"
    "TCB_usStatus (K_tcb k1 t) = (TCB_usStatus (K_tcb k t) AND NOT LW_THREAD_STATUS_DELAY) AND NOT LW_THREAD_STATUS_SEM"
    "\<And>u. u \<noteq> t \<Longrightarrow> TCB_usStatus (K_tcb k1 u) = TCB_usStatus (K_tcb k u)"
    "\<And>u. TCB_ucIsEventDelete (K_tcb k1 u) = (if u = t \<and> d then LW_EVENT_DELETE else TCB_ucIsEventDelete (K_tcb k u))"
    "\<And>u. TCB_ucWaitTimeout (K_tcb k1 u) = TCB_ucWaitTimeout (K_tcb k u)"
    "\<And>e'. EVENT_ucType (K_eventBuffer k1 e') = EVENT_ucType (K_eventBuffer k e')" "K_resrcEvent k1 = K_resrcEvent k"
    using wake_sem [OF Cons.prems, of 0 d a] by metis
  have w1: "waiters k1 e EVENT_SEM_Q = ts" using arg_cong [OF W(3), of ss_wait] by simp
  have t: "t \<notin> set ts" using wait_okD(5) [OF ipc_okD(3) [OF Cons.prems(1)], of e EVENT_SEM_Q] Cons.prems(2) by simp
  have "EventWaitNum EVENT_SEM_Q e k \<noteq> 0" using wait_num [OF Cons.prems(1)] Cons.prems(2) by simp
  then have S: "ev_wake_all e EVENT_SEM_Q d LW_THREAD_STATUS_SEM a k = ev_wake_all e EVENT_SEM_Q d LW_THREAD_STATUS_SEM a k1"
    by (subst ev_wake_all.simps) (simp add: W(1))
  from Cons.IH [OF W(2) w1] obtain k' where K: "ev_wake_all e EVENT_SEM_Q d LW_THREAD_STATUS_SEM a k1 = Some k'" "ipc_ok T k'"
    "sem_abs k' e = (sem_abs k1 e)\<lparr>ss_wait := []\<rparr>"
    "\<forall>e' q'. (e', q') \<noteq> (e, EVENT_SEM_Q) \<longrightarrow> waiters k' e' q' = waiters k1 e' q'"
    "\<And>u. TCB_usStatus (K_tcb k' u) = (if u \<in> set ts
        then (TCB_usStatus (K_tcb k1 u) AND NOT LW_THREAD_STATUS_DELAY) AND NOT LW_THREAD_STATUS_SEM else TCB_usStatus (K_tcb k1 u))"
    "\<And>u. TCB_ucIsEventDelete (K_tcb k' u) = (if u \<in> set ts \<and> d then LW_EVENT_DELETE else TCB_ucIsEventDelete (K_tcb k1 u))"
    "\<And>u. TCB_ucWaitTimeout (K_tcb k' u) = TCB_ucWaitTimeout (K_tcb k1 u)"
    "K_resrcEvent k' = K_resrcEvent k1" "\<forall>e'. EVENT_ucType (K_eventBuffer k' e') = EVENT_ucType (K_eventBuffer k1 e')"
    by blast
  show ?case
  proof (intro exI [of _ k'] conjI allI impI)
    show "ev_wake_all e EVENT_SEM_Q d LW_THREAD_STATUS_SEM a k = Some k'" "ipc_ok T k'" using S K(1,2) by simp_all
    show "sem_abs k' e = (sem_abs k e)\<lparr>ss_wait := []\<rparr>" using K(3) W(3) by simp
    show "TCB_usStatus (K_tcb k' u) = (if u \<in> set (t # ts)
        then (TCB_usStatus (K_tcb k u) AND NOT LW_THREAD_STATUS_DELAY) AND NOT LW_THREAD_STATUS_SEM else TCB_usStatus (K_tcb k u))" for u
      using K(5) [of u] W(5) W(6) [of u] t by (cases "u = t") auto
    show "TCB_ucIsEventDelete (K_tcb k' u) = (if u \<in> set (t # ts) \<and> d then LW_EVENT_DELETE else TCB_ucIsEventDelete (K_tcb k u))" for u
      using K(6) [of u] W(7) [of u] by auto
    show "waiters k' e' q' = waiters k e' q'" if "(e', q') \<noteq> (e, EVENT_SEM_Q)" for e' q'
      using K(4) W(4) [OF that] that by simp
  qed (use K(7-9) W(8-10) in simp_all)
qed

end
