(* ===== verification/DemoIpc.thy ===== *)
theory DemoIpc
  imports Demo SemInv
begin

text \<open>
  A running configuration with a counting semaphore (event 0, first-in first-out, at most five
  units), a binary one (event 1, by priority) and thread 2 on processor 0; and the same after
  thread 2 has blocked on the counting semaphore. The invariant of the whole kernel holds in both.
\<close>

definition demo_sem :: kernel where
  "demo_sem =
     event_upd 1 (\<lambda>v. v\<lparr>EVENT_ucType := LW_TYPE_EVENT_SEMB, EVENT_ulMaxCounter := 1, EVENT_ulOption := LW_OPTION_WAIT_PRIORITY\<rparr>)
      (event_upd 0 (\<lambda>v. v\<lparr>EVENT_ucType := LW_TYPE_EVENT_SEMC, EVENT_ulMaxCounter := 5\<rparr>)
        (cpu_upd 0 (\<lambda>p. p\<lparr>CPU_ptcbTCBCur := Some 2\<rparr>) demo))"

definition demo_wait :: kernel where
  "demo_wait = ev_block 0 EVENT_SEM_Q LW_THREAD_STATUS_SEM 10 demo_sem"

lemma demo_erase: "erase demo = erase demo_boot"
  by (simp add: demo_def demo_idle_def demo_add_def)

lemma demo_tcb_status: "TCB_usStatus (K_tcb demo t) = 0" "TCB_peventPtr (K_tcb demo t) = None"
    "TCB_ulDelay (K_tcb demo t) = 0"
  using erase_tcbD [OF demo_erase, of t] by (auto simp: demo_boot_def demo_tcb_def tcb0_def)

lemma demo_kernel: "K_eventBuffer demo = (\<lambda>_. event0)" "K_wuDelay demo = wakeup0" "K_ncpus demo = 2" "K_curcpu demo = 0"
    "K_resrcEvent demo = \<lparr>RESRC_free = [], RESRC_uiUsed = 0, RESRC_uiMaxUsed = 0\<rparr>" "K_i64KernelTime demo = 0"
  using erase_kernelD [OF demo_erase] by (simp_all add: demo_boot_def kernel0_def)

lemma demo_kern_ok: "kern_ok {0, 1, 2, 3} demo"
proof -
  have "rdyset {0, 1, 2, 3} demo = {3, 2, 1, 0}"
    by (auto simp: rdyset_def LW_THREAD_IS_READY_def demo_tcb_status)
  then show ?thesis using demo_ok by (simp add: kern_ok_def)
qed

lemma wq_order_empty: "(\<And>i. WL_pring w i = []) \<Longrightarrow> wq_order b w = []"
  by (simp add: wq_order_def)

lemma demo_sem_ok: "ipc_ok {0, 1, 2, 3} demo_sem"
proof -
  have "kern_ok {0, 1, 2, 3} demo_sem"
    unfolding demo_sem_def by (intro kern_ok_event kern_ok_cpu demo_kern_ok) simp_all
  moreover have "delay_ok demo_sem"
    by (simp add: demo_sem_def delay_ok_def wakeup_wf_def dline_def delayed_def demo_kernel wakeup0_def demo_tcb_status)
  moreover have "waiters demo_sem e q = []" "wq_ok (by_prio demo_sem e) (wq demo_sem e q)" "WL_pring (wq demo_sem e q) i = []" for e q i
    by (simp_all add: demo_sem_def waiters_def wq_ok_def wq_order_empty wq_def demo_kernel event0_def)
  then have "wait_ok {0, 1, 2, 3} demo_sem"
    unfolding wait_ok_def by (simp add: waits_in_def) (simp add: demo_sem_def demo_tcb_status)
  ultimately show ?thesis by (simp add: ipc_ok_def)
qed

lemma demo_sem_cur: "LW_TCB_GET_CUR demo_sem = 2" "2 \<in> {0::tid, 1, 2, 3}" "K_ncpus demo_sem \<le> 2" "LW_THREAD_IS_READY demo_sem 2"
  by (simp_all add: demo_sem_def LW_TCB_GET_CUR_def demo_kernel LW_THREAD_IS_READY_def demo_tcb_status)

lemma demo_sem_events:
  "waiters demo_sem e q = []" "EVENT_ulCounter (K_eventBuffer demo_sem e) = 0"
  "EVENT_ulMaxCounter (K_eventBuffer demo_sem 0) = 5" "EVENT_ulMaxCounter (K_eventBuffer demo_sem 1) = 1"
  "EVENT_ucType (K_eventBuffer demo_sem 0) = LW_TYPE_EVENT_SEMC" "EVENT_ucType (K_eventBuffer demo_sem 1) = LW_TYPE_EVENT_SEMB"
  by (simp_all add: demo_sem_def demo_kernel event0_def waiters_def wq_order_empty wq_def)

lemmas demo_wait_spec = ev_block_spec [OF demo_sem_ok demo_sem_cur, where e = 0 and q = EVENT_SEM_Q and
  ty = LW_THREAD_STATUS_SEM and to = 10, folded demo_wait_def]

lemma demo_wait_ok: "ipc_ok {0, 1, 2, 3} demo_wait"
  using demo_wait_spec(1) by simp

lemma demo_wait_waiters: "waiters demo_wait 0 EVENT_SEM_Q = [2]"
proof -
  have w: "waiters demo_sem 0 EVENT_SEM_Q = []" by (rule demo_sem_events)
  have b: "\<not> by_prio demo_sem 0" by (simp add: by_prio_def demo_sem_def demo_kernel event0_def)
  have "wq_order False (wq demo_sem 0 EVENT_SEM_Q) = []" using w b by (simp add: waiters_def)
  then show ?thesis using demo_wait_spec(2) [of 0 EVENT_SEM_Q] b by (simp add: enq_def fifo_order)
qed

lemma demo_wait_events:
  "EVENT_ulCounter (K_eventBuffer demo_wait e) = 0" "EVENT_ulMaxCounter (K_eventBuffer demo_wait 0) = 5"
  "EVENT_ucType (K_eventBuffer demo_wait 0) = LW_TYPE_EVENT_SEMC"
  using demo_wait_spec(6) by (simp_all add: demo_sem_events)


lemma demo_sem_nesting: "CpuGetNesting demo_sem = 0"
proof -
  have "CPU_ulInterNesting (K_cpu demo 0) = 0"
    using erase_cpuD(8) [OF demo_erase, of 0] by (simp add: demo_boot_def kernel0_def cpu0_def)
  then show ?thesis by (simp add: CpuGetNesting_def demo_sem_def demo_kernel)
qed

lemma demo_wait_cpu: "CpuGetNesting demo_wait = CpuGetNesting demo_sem"
  by (simp add: demo_wait_def ev_block_def ev_wait_def EventWaitFifo_def EventWaitPriority_def Let_def CpuGetNesting_def
      AddTCBToEventFifo_def AddTCBToEventPriority_def)

end
