(* ===== verification/SysOps.thy ===== *)
theory SysOps
  imports Tick DemoIpc
begin

text \<open>
  The invariant of the system under the operations that block and wake threads, and the states of
  the demonstration for which it holds.
\<close>

section \<open>Many ticks\<close>

text \<open>\<open>n\<close> ticks with nothing else in between.\<close>

primrec ticks :: "nat \<Rightarrow> kernel \<Rightarrow> kernel option" where
  "ticks 0 k = Some k"
| "ticks (Suc n) k = Option.bind (thread_tick k) (ticks n)"

lemma passedD:
  assumes "passed T c k k'"
  shows "sys_ok T k'" "dline k' = filter (\<lambda>t. \<not> fired c k t) (dline k)" "t \<in> set (dline k') \<Longrightarrow> due k' t = due k t - c"
    "waiters k' e q = filter (\<lambda>t. \<not> fired c k t) (waiters k e q)"
    "TCB_usStatus (K_tcb k' t) = (if fired c k t then (TCB_usStatus (K_tcb k t) AND NOT LW_THREAD_STATUS_DELAY)
        AND NOT LW_THREAD_STATUS_PEND_ANY else TCB_usStatus (K_tcb k t))"
    "TCB_ucWaitTimeout (K_tcb k' t) = (if fired c k t then (if pending k t then LW_WAIT_TIME_OUT else 0) else TCB_ucWaitTimeout (K_tcb k t))"
    "K_curcpu k' = K_curcpu k" "K_ncpus k' = K_ncpus k" "CPU_ptcbTCBCur (K_cpu k' i) = CPU_ptcbTCBCur (K_cpu k i)"
    "CPU_bActive (K_cpu k' i) = CPU_bActive (K_cpu k i)"
  using assms unfolding passed_def by blast+

lemma passed_trans:
  assumes ok: "sys_ok T k" and p: "passed T m k k1" "passed T n k1 k2"
  shows "passed T (m + n) k k2"
proof -
  note A = passedD [OF p(1)] and B = passedD [OF p(2)]
  have l: "delayed k t \<longleftrightarrow> t \<in> set (dline k)" "delayed k1 t \<longleftrightarrow> t \<in> set (dline k1)" for t
    using dline_delayed [OF ok] dline_delayed [OF A(1)] by blast+
  have F: "fired (m + n) k t \<longleftrightarrow> fired m k t \<or> fired n k1 t" and x: "\<not> (fired m k t \<and> fired n k1 t)" for t
  proof -
    have "fired n k1 t \<longleftrightarrow> delayed k t \<and> \<not> fired m k t \<and> due k t \<le> m + n"
      using A(3) [of t] by (auto simp: fired_def l A(2))
    then show "fired (m + n) k t \<longleftrightarrow> fired m k t \<or> fired n k1 t" "\<not> (fired m k t \<and> fired n k1 t)" by (auto simp: fired_def)
  qed
  have P: "pending k1 t = pending k t" if "fired n k1 t" for t using A(5) [of t] x [of t] that by (simp add: pending_def)
  show ?thesis unfolding passed_def
  proof (intro conjI allI ballI)
    fix t assume t: "t \<in> set (dline k2)"
    then have "t \<in> set (dline k1)" using B(2) by simp
    then show "due k2 t = due k t - (m + n)" using A(3) [of t] B(3) [OF t] by simp
  next
    fix t show "TCB_ucWaitTimeout (K_tcb k2 t) = (if fired (m + n) k t then (if pending k t then LW_WAIT_TIME_OUT else 0)
        else TCB_ucWaitTimeout (K_tcb k t))"
      using x [of t] P [of t] by (auto simp: F A(6) B(6))
  next
    fix t show "TCB_usStatus (K_tcb k2 t) = (if fired (m + n) k t then (TCB_usStatus (K_tcb k t) AND NOT LW_THREAD_STATUS_DELAY)
        AND NOT LW_THREAD_STATUS_PEND_ANY else TCB_usStatus (K_tcb k t))"
      using x [of t] by (simp add: F A(5) B(5))
  qed (simp_all add: A(2,4,7-10) B(1,2,4,7-10) F conj_commute)
qed

lemma ticks_ok:
  assumes "sys_ok T k"
  shows "\<exists>k'. ticks (Suc n) k = Some k' \<and> passed T (Suc n) k k'"
  using assms
proof (induction n arbitrary: k)
  case 0
  from thread_tick_ok [OF 0] obtain k' where "thread_tick k = Some k'" "passed T 1 k k'" by metis
  then show ?case by (simp add: fun_eq_iff)
next
  case (Suc n)
  from thread_tick_ok [OF Suc.prems] obtain k1 where 1: "thread_tick k = Some k1" "passed T 1 k k1" by metis
  from Suc.IH [OF passedD(1) [OF 1(2)]] obtain k' where 2: "ticks (Suc n) k1 = Some k'" "passed T (Suc n) k1 k'" by metis
  from passed_trans [OF Suc.prems 1(2) 2(2)] 1(1) 2(1) show ?case by simp
qed

section \<open>Blocking on an event\<close>

lemma rview_upd [simp]:
  "rview (b\<lparr>TCB_iPendQ := x1\<rparr>) = rview b" "rview (b\<lparr>TCB_ucWaitTimeout := x2\<rparr>) = rview b" "rview (b\<lparr>TCB_ulDelay := x3\<rparr>) = rview b"
  "rview (b\<lparr>TCB_ppringPriorityQueue := x4\<rparr>) = rview b" "rview (b\<lparr>TCB_peventPtr := x5\<rparr>) = rview b"
  "rview (b\<lparr>TCB_ucIsEventDelete := x6\<rparr>) = rview b" "rview (b\<lparr>TCB_pesnPtr := x7\<rparr>) = rview b" "rview (b\<lparr>TCB_vutex := x8\<rparr>) = rview b"
  "rview (b\<lparr>TCB_ulEventSets := x9\<rparr>) = rview b"
  "s AND LW_THREAD_STATUS_WSTAT = TCB_usStatus b AND LW_THREAD_STATUS_WSTAT \<Longrightarrow> rview (b\<lparr>TCB_usStatus := s\<rparr>) = rview b"
  by (simp_all add: rview_def)

lemma oview_upd [simp]:
  "oview (b\<lparr>TCB_iPendQ := x1\<rparr>) = oview b" "oview (b\<lparr>TCB_ulDelay := x2\<rparr>) = oview b" "oview (b\<lparr>TCB_ppringPriorityQueue := x3\<rparr>) = oview b"
  "oview (b\<lparr>TCB_ucIsEventDelete := x4\<rparr>) = oview b" "oview (b\<lparr>TCB_ulEventSets := x5\<rparr>) = oview b"
  "oview (b\<lparr>TCB_ucWaitTimeout := x6\<rparr>) = None \<longleftrightarrow> oview b = None" "oview (b\<lparr>TCB_peventPtr := x7\<rparr>) = None \<longleftrightarrow> oview b = None"
  "oview (b\<lparr>TCB_usStatus := x8\<rparr>) = None \<longleftrightarrow> oview b = None"
  by (simp_all add: oview_def)

lemma DEL_READY_views [simp]:
  "rview (K_tcb (DEL_FROM_READY_RING t p k) u) = rview (K_tcb k u)" "oview (K_tcb (DEL_FROM_READY_RING t p k) u) = oview (K_tcb k u)"
  "rview (K_tcb (ADD_TO_READY_RING t p k) u) = rview (K_tcb k u)" "oview (K_tcb (ADD_TO_READY_RING t p k) u) = oview (K_tcb k u)"
  "K_esBuffer (DEL_FROM_READY_RING t p k) = K_esBuffer k" "k_plineVutexHashHeader (DEL_FROM_READY_RING t p k) = k_plineVutexHashHeader k"
  "K_esBuffer (ADD_TO_READY_RING t p k) = K_esBuffer k" "k_plineVutexHashHeader (ADD_TO_READY_RING t p k) = k_plineVutexHashHeader k"
  "wview (K_tcb (DEL_FROM_READY_RING t p k) u) = wview (K_tcb k u)" "wview (K_tcb (ADD_TO_READY_RING t p k) u) = wview (K_tcb k u)"
  by (simp_all add: rview_def oview_def wview_def erase_kernelD [OF erase_DEL] erase_kernelD [OF erase_ADD])

lemma ev_wq_upd_other [simp]:
  "K_esBuffer (ev_wq_upd e q f k) = K_esBuffer k" "k_plineVutexHashHeader (ev_wq_upd e q f k) = k_plineVutexHashHeader k"
  by (simp_all add: ev_wq_upd_def)

lemma ADD_WAKEUP_views [simp]:
  "rview (K_tcb (ADD_TO_WAKEUP_LINE t k) u) = rview (K_tcb k u)" "K_esBuffer (ADD_TO_WAKEUP_LINE t k) = K_esBuffer k"
  "k_plineVutexHashHeader (ADD_TO_WAKEUP_LINE t k) = k_plineVutexHashHeader k"
  "oview (K_tcb (ADD_TO_WAKEUP_LINE t k) u) = oview (K_tcb k u)"
  by (simp_all add: ADD_TO_WAKEUP_LINE_def Let_def rview_def oview_def or_bits split: prod.splits)

lemma ev_block_sys:
  fixes e q :: nat and to :: ulong
  assumes ok: "sys_ok T k" and c: "LW_TCB_GET_CUR k = c" "c \<in> T" "K_ncpus k \<le> c" "LW_THREAD_IS_READY k c"
    and ty: "ty AND LW_THREAD_STATUS_PEND_ANY \<noteq> 0" "ty AND LW_THREAD_STATUS_DELAY = 0" "ty AND LW_THREAD_STATUS_WSTAT = 0"
  shows "sys_ok T (ev_block e q ty to k)"
proof -
  let ?k = "ev_block e q ty to k"
  have o: "oth_ok T k" and r: "req_ok T k" and i: "ipc_ok T k" using ok by (simp_all add: sys_ok_def)
  note B = ev_block_eq [OF c(1), of e q ty to] and S = ev_block_spec [OF i c ty(1,2), where e = e and q = q and to = to]
  have "rview (K_tcb ?k u) = rview (K_tcb k u)" for u unfolding B by (simp add: or_bits [OF ty(3)])
  moreover have "K_ncpus ?k = K_ncpus k" by (rule S(9))
  ultimately have "req_ok T ?k" by (rule req_ok_cong [OF r])
  moreover have "oth_ok T ?k"
  proof (rule oth_ok_upd [OF o, of c])
    show n: "oview (K_tcb k c) = None" by (rule oth_ok_ready [OF o c(4)])
    show "oview (K_tcb ?k c) = None" unfolding B by (simp add: n)
    show "oview (K_tcb ?k u) = oview (K_tcb k u)" if "u \<noteq> c" for u unfolding B using that by simp
    show "es_waiters ?k s = es_waiters k s" "k_plineVutexHashHeader ?k = k_plineVutexHashHeader k" for s unfolding B by simp_all
    have "delay_ok k" "delay_ok ?k" using i S(1) by (simp_all add: ipc_ok_def)
    then have "u \<in> set (dline ?k) \<Longrightarrow> u = c \<or> u \<in> set (dline k)" for u
      using S(4) [of u] by (cases "u = c") (simp_all add: delay_ok_def delayed_def)
    then show "set (dline ?k) \<subseteq> T" using oth_okD(12) [OF o] c(2) by auto
  qed
  ultimately show ?thesis using S(1) by (simp add: sys_ok_def)
qed

section \<open>Blocking on an event set or a variable\<close>

lemma oth_ok_enter:
  assumes ok: "oth_ok T k" and v: "\<And>u. u \<noteq> t \<Longrightarrow> oview (K_tcb k' u) = oview (K_tcb k u)" and n: "oview (K_tcb k t) = None"
    and q: "\<And>s. es_waiters k' s = (if es_of k' t = Some s then t # es_waiters k s else es_waiters k s)"
      "\<And>h. k_plineVutexHashHeader k' h = (if vutex_in k' t h then t # k_plineVutexHashHeader k h else k_plineVutexHashHeader k h)"
    and e: "TCB_pesnPtr (K_tcb k' t) \<noteq> None \<Longrightarrow> TCB_usStatus (K_tcb k' t) AND LW_THREAD_STATUS_EVENTSET \<noteq> 0 \<and> \<not> VUTEX_IS_WAITING k' t"
    and x: "VUTEX_IS_WAITING k' t \<Longrightarrow> TCB_usStatus (K_tcb k' t) AND LW_THREAD_STATUS_VUTEX \<noteq> 0 \<and>
      VUTEX_uiHash (TCB_vutex (K_tcb k' t)) = VutexHash (the (VUTEX_phyaddr (TCB_vutex (K_tcb k' t))))"
    and t: "t \<in> T" "TCB_ucWaitTimeout (K_tcb k' t) = 0" "TCB_peventPtr (K_tcb k' t) = None" and d: "set (dline k') \<subseteq> T"
  shows "oth_ok T k'"
proof -
  note D = oth_okD [OF ok]
  have V: "TCB_pesnPtr (K_tcb k' u) = TCB_pesnPtr (K_tcb k u)" "VUTEX_IS_WAITING k' u \<longleftrightarrow> VUTEX_IS_WAITING k u" if "u \<noteq> t" for u
    using oviewD(1,2) [OF v [OF that]] by (simp_all add: VUTEX_IS_WAITING_def)
  have I: "vutex_in k' u h \<longleftrightarrow> vutex_in k u h" "es_of k' u = es_of k u" if "u \<noteq> t" for u h
    using V [OF that] oviewD(3) [OF v [OF that]] by (auto simp: vutex_in_def es_of_def VUTEX_IS_WAITING_def)
  have o: "oview (K_tcb k u) \<noteq> None" if "TCB_pesnPtr (K_tcb k u) \<noteq> None \<or> VUTEX_IS_WAITING k u" for u
    using that by (auto simp: oview_none VUTEX_IS_WAITING_def)
  have nt: "t \<notin> set (es_waiters k s)" "t \<notin> set (k_plineVutexHashHeader k s)" for s
    using n by (simp_all add: D(2,4) es_of_def vutex_in_def VUTEX_IS_WAITING_def oview_none)
  show ?thesis unfolding oth_ok_def
  proof (intro conjI allI impI)
    show "distinct (es_waiters k' s)" "distinct (k_plineVutexHashHeader k' s)" for s using D(1,3) [of s] nt by (simp_all add: q)
    show "u \<in> set (es_waiters k' s) \<longleftrightarrow> es_of k' u = Some s" for u s using D(2) [of u s] nt(1) [of s] I(2) [of u] by (cases "u = t") (auto simp: q)
    show "u \<in> set (k_plineVutexHashHeader k' h) \<longleftrightarrow> vutex_in k' u h" for u h
      using D(4) [of u h] nt(2) [of h] I(1) [of u h] by (cases "u = t") (auto simp: q)
  next
    fix u assume a: "TCB_pesnPtr (K_tcb k' u) \<noteq> None"
    then have "TCB_usStatus (K_tcb k' u) AND LW_THREAD_STATUS_EVENTSET \<noteq> 0 \<and> \<not> VUTEX_IS_WAITING k' u"
      using e D(5,6) [of u] V [of u] oviewD(4) [OF v, of u] o [of u] by (cases "u = t") auto
    then show "TCB_usStatus (K_tcb k' u) AND LW_THREAD_STATUS_EVENTSET \<noteq> 0" "\<not> VUTEX_IS_WAITING k' u" by blast+
  next
    fix u assume a: "VUTEX_IS_WAITING k' u"
    have "TCB_usStatus (K_tcb k' u) AND LW_THREAD_STATUS_VUTEX \<noteq> 0 \<and>
      VUTEX_uiHash (TCB_vutex (K_tcb k' u)) = VutexHash (the (VUTEX_phyaddr (TCB_vutex (K_tcb k' u))))"
    proof (cases "u = t")
      case False
      with a have w: "VUTEX_IS_WAITING k u" using V(2) by simp
      then show ?thesis using D(7,8) [OF w] oviewD(3,5) [OF v [OF False]] o [of u] by (simp add: VUTEX_IS_WAITING_def)
    qed (use a x in blast)
    then show "TCB_usStatus (K_tcb k' u) AND LW_THREAD_STATUS_VUTEX \<noteq> 0"
      "VUTEX_uiHash (TCB_vutex (K_tcb k' u)) = VutexHash (the (VUTEX_phyaddr (TCB_vutex (K_tcb k' u))))" by blast+
  next
    fix u assume a: "TCB_pesnPtr (K_tcb k' u) \<noteq> None \<or> VUTEX_IS_WAITING k' u"
    have "u \<in> T \<and> TCB_ucWaitTimeout (K_tcb k' u) = 0 \<and> TCB_peventPtr (K_tcb k' u) = None"
    proof (cases "u = t")
      case False
      with a have w: "TCB_pesnPtr (K_tcb k u) \<noteq> None \<or> VUTEX_IS_WAITING k u" using V by simp
      then show ?thesis using D(9-11) [OF w] oviewD(6,7) [OF v [OF False]] o [OF w] by simp
    qed (use t in blast)
    then show "u \<in> T" "TCB_ucWaitTimeout (K_tcb k' u) = 0" "TCB_peventPtr (K_tcb k' u) = None" by blast+
  qed (rule d)
qed

text \<open>A ready thread that begins to wait for an event set or a variable.\<close>

lemma sys_ok_wait:
  assumes ok: "sys_ok T k" and c: "c \<in> T" "LW_THREAD_IS_READY k c" and kd: "kern_ok T k'" "delay_ok k'"
    and f: "\<And>u. rview (K_tcb k' u) = rview (K_tcb k u)" "K_ncpus k' = K_ncpus k" "K_eventBuffer k' = K_eventBuffer k"
    and u: "\<And>u. u \<noteq> c \<Longrightarrow> TCB_usStatus (K_tcb k' u) = TCB_usStatus (K_tcb k u)"
      "\<And>u. u \<noteq> c \<Longrightarrow> wview (K_tcb k' u) = wview (K_tcb k u)" "\<And>u. u \<noteq> c \<Longrightarrow> oview (K_tcb k' u) = oview (K_tcb k u)"
    and q: "\<And>s. es_waiters k' s = (if es_of k' c = Some s then c # es_waiters k s else es_waiters k s)"
      "\<And>h. k_plineVutexHashHeader k' h = (if vutex_in k' c h then c # k_plineVutexHashHeader k h else k_plineVutexHashHeader k h)"
    and e: "TCB_pesnPtr (K_tcb k' c) \<noteq> None \<Longrightarrow> TCB_usStatus (K_tcb k' c) AND LW_THREAD_STATUS_EVENTSET \<noteq> 0 \<and> \<not> VUTEX_IS_WAITING k' c"
    and x: "VUTEX_IS_WAITING k' c \<Longrightarrow> TCB_usStatus (K_tcb k' c) AND LW_THREAD_STATUS_VUTEX \<noteq> 0 \<and>
      VUTEX_uiHash (TCB_vutex (K_tcb k' c)) = VutexHash (the (VUTEX_phyaddr (TCB_vutex (K_tcb k' c))))"
    and t: "TCB_ucWaitTimeout (K_tcb k' c) = 0" "TCB_peventPtr (K_tcb k' c) = TCB_peventPtr (K_tcb k c)"
  shows "sys_ok T k'"
proof -
  have S: "kern_ok T k" "delay_ok k" "wait_ok T k" "req_ok T k" "oth_ok T k" "T \<subseteq> {..<LW_CFG_MAX_THREADS}"
    using ok by (simp_all add: sys_ok_def ipc_ok_def)
  have np: "TCB_peventPtr (K_tcb k c) = None"
    using wait_okD(4) [OF S(3), of c] pending_not_ready c(2) by (cases "TCB_peventPtr (K_tcb k c)") auto
  then have np': "TCB_peventPtr (K_tcb k' c) = None" using t(2) by simp
  have b: "by_prio k' = by_prio k" "wq k' = wq k" by (simp_all add: by_prio_def wq_def f fun_eq_iff)
  have w: "wait_ok T k'" by (rule wait_ok_free [OF S(3) _ _ u(2) np np']) (simp_all add: b)
  have "u \<in> set (dline k') \<Longrightarrow> u = c \<or> u \<in> set (dline k)" for u
    using S(2) kd(2) u(1) [of u] by (cases "u = c") (simp_all add: delay_ok_def delayed_def)
  then have "set (dline k') \<subseteq> T" using oth_okD(12) [OF S(5)] c(1) by auto
  then have "oth_ok T k'" using oth_ok_enter [OF S(5) u(3) oth_ok_ready [OF S(5) c(2)] q e x c(1) t(1) np'] by blast
  moreover have "req_ok T k'" by (rule req_ok_cong [OF S(4) f(1,2)])
  ultimately show ?thesis using kd w S(6) by (simp add: sys_ok_def ipc_ok_def)
qed

lemma ADD_WAKEUP_fields [simp]:
  "TCB_pesnPtr (K_tcb (ADD_TO_WAKEUP_LINE t k) u) = TCB_pesnPtr (K_tcb k u)" "TCB_vutex (K_tcb (ADD_TO_WAKEUP_LINE t k) u) = TCB_vutex (K_tcb k u)"
  "u \<noteq> t \<Longrightarrow> wview (K_tcb (ADD_TO_WAKEUP_LINE t k) u) = wview (K_tcb k u)"
  by (simp_all add: ADD_TO_WAKEUP_LINE_def Let_def wview_def split: prod.splits)

lemma EventSetBlock_sys:
  assumes ok: "sys_ok T k" and c: "LW_TCB_GET_CUR k = c" "c \<in> T" "K_ncpus k \<le> c" "LW_THREAD_IS_READY k c"
  shows "sys_ok T (EventSetBlock pes ev ty to k)"
proof -
  have S: "kern_ok T k" "delay_ok k" "oth_ok T k" using ok by (simp_all add: sys_ok_def ipc_ok_def)
  have z: "TCB_usStatus (K_tcb k c) = 0" using c(4) by (simp add: LW_THREAD_IS_READY_def)
  have nv: "VUTEX_phyaddr (TCB_vutex (K_tcb k c)) = None" using oth_ok_ready [OF S(3) c(4)] by (simp add: oview_none)
  let ?f = "\<lambda>b. b\<lparr>TCB_usStatus := TCB_usStatus b OR LW_THREAD_STATUS_EVENTSET, TCB_ucWaitTimeout := LW_WAIT_TIME_CLEAR,
     TCB_ucIsEventDelete := LW_EVENT_EXIST, TCB_ulDelay := to\<rparr>"
  let ?n = "\<lparr>EVENTSETNODE_pesEventSet = pes, EVENTSETNODE_ulEventSets = ev, EVENTSETNODE_ucWaitType = ty\<rparr>"
  let ?g = "\<lambda>b :: tcb. b\<lparr>TCB_pesnPtr := Some ?n\<rparr>"
  define k1 where "k1 = tcb_upd c ?f k"
  define k2 where "k2 = (if to \<noteq> 0 then ADD_TO_WAKEUP_LINE c k1 else k1)"
  define k3 where "k3 = es_upd pes (\<lambda>v. v\<lparr>EVENTSET_plineWaitList := c # EVENTSET_plineWaitList v\<rparr>) (tcb_upd c ?g k2)"
  have E: "EventSetBlock pes ev ty to k = DEL_FROM_READY_RING c (GetPcb k3 c) k3"
    unfolding EventSetBlock_def Let_def c(1) tcb_upd_upd k3_def k2_def k1_def by simp
  have z1: "TCB_usStatus (K_tcb k1 u) = (if u = c then LW_THREAD_STATUS_EVENTSET else TCB_usStatus (K_tcb k u))" for u by (simp add: k1_def z)
  have d1: "delay_ok k1" using delay_ok_off(1) [where f = ?f and t = c, OF S(2)] z by (simp add: k1_def delayed_def)
  have n1: "\<not> delayed k1 c" by (simp add: delayed_def z1)
  have d2: "delay_ok k2" using d1 ADD_TO_WAKEUP_LINE_spec(1) [OF d1 n1] by (simp add: k2_def)
  have s2: "TCB_usStatus (K_tcb k2 c) AND LW_THREAD_STATUS_EVENTSET \<noteq> 0" "TCB_usStatus (K_tcb k2 c) \<noteq> 0"
    "u \<noteq> c \<Longrightarrow> TCB_usStatus (K_tcb k2 u) = TCB_usStatus (K_tcb k u)" for u
    by (simp_all add: k2_def z1)
  have "delay_ok (tcb_upd c ?g k2)" using delay_ok_same(1) [where f = ?g, OF d2] by simp
  then have d3: "delay_ok k3" by (simp add: k3_def delay_ok_def dline_def delayed_def delay_nodes_def)
  have v: "same_sched k k3" by (simp add: same_sched_def k3_def k2_def k1_def tview_def)
  have r: "LW_THREAD_IS_READY k3 u \<longleftrightarrow> u \<noteq> c \<and> LW_THREAD_IS_READY k u" for u
    using s2(2) s2(3) [of u] by (cases "u = c") (simp_all add: LW_THREAD_IS_READY_def k3_def)
  let ?k = "DEL_FROM_READY_RING c (GetPcb k3 c) k3"
  have D: "delay_ok ?k" using d3 delay_ok_erase(1) [OF erase_DEL] by blast
  have nw: "\<not> VUTEX_IS_WAITING ?k c" by (simp add: k3_def k2_def k1_def VUTEX_IS_WAITING_def nv)
  show ?thesis unfolding E
  proof (rule sys_ok_wait [OF ok c(2,4) kern_ok_unready [OF S(1) c(2-4) v r] D])
    show "rview (K_tcb ?k u) = rview (K_tcb k u)" for u by (simp add: k3_def k2_def k1_def or_bits)
    show "TCB_usStatus (K_tcb ?k u) = TCB_usStatus (K_tcb k u)" if "u \<noteq> c" for u using s2(3) [OF that] that by (simp add: k3_def)
    show "TCB_usStatus (K_tcb ?k c) AND LW_THREAD_STATUS_EVENTSET \<noteq> 0 \<and> \<not> VUTEX_IS_WAITING ?k c"
      using s2(1) nw by (simp add: k3_def)
    show "TCB_usStatus (K_tcb ?k c) AND LW_THREAD_STATUS_VUTEX \<noteq> 0 \<and>
      VUTEX_uiHash (TCB_vutex (K_tcb ?k c)) = VutexHash (the (VUTEX_phyaddr (TCB_vutex (K_tcb ?k c))))" if "VUTEX_IS_WAITING ?k c"
      using that nw by simp
  qed (simp_all add: k3_def k2_def k1_def es_of_def vutex_in_def VUTEX_IS_WAITING_def nv)
qed

lemma vutex_block_sys:
  fixes to :: ulong
  assumes ok: "sys_ok T k" and c: "c \<in> T" "K_ncpus k \<le> c" "LW_THREAD_IS_READY k c"
  shows "sys_ok T (vutex_block c p d cmp to k)"
proof -
  have S: "kern_ok T k" "delay_ok k" "oth_ok T k" using ok by (simp_all add: sys_ok_def ipc_ok_def)
  have z: "TCB_usStatus (K_tcb k c) = 0" using c(3) by (simp add: LW_THREAD_IS_READY_def)
  have ne: "TCB_pesnPtr (K_tcb k c) = None" using oth_ok_ready [OF S(3) c(3)] by (simp add: oview_none)
  let ?to = "if to = LW_OPTION_WAIT_INFINITE then 0 else to"
  let ?f = "\<lambda>b. b\<lparr>TCB_usStatus := TCB_usStatus b OR LW_THREAD_STATUS_VUTEX, TCB_ucWaitTimeout := LW_WAIT_TIME_CLEAR,
     TCB_ulDelay := ?to, TCB_vutex := (TCB_vutex b)\<lparr>VUTEX_phyaddr := Some p\<rparr>\<rparr>"
  let ?g = "\<lambda>b. b\<lparr>TCB_vutex := (TCB_vutex b)\<lparr>VUTEX_bWakeAll := False, VUTEX_iCompare := cmp, VUTEX_iDesired := d, VUTEX_uiHash := VutexHash p\<rparr>\<rparr>"
  define k1 where "k1 = tcb_upd c ?f k"
  define k2 where "k2 = tcb_upd c ?g (DEL_FROM_READY_RING c (GetPcb k1 c) k1)"
  define k3 where "k3 = vutex_line (VutexHash p) (\<lambda>l. c # l) k2"
  define k4 where "k4 = (if ?to \<noteq> 0 then ADD_TO_WAKEUP_LINE c k3 else k3)"
  have E: "vutex_block c p d cmp to k = k4"
    unfolding vutex_block_def VutexWaitQueue_def vutex_upd_def Let_def tcb_upd_upd k4_def k3_def k2_def k1_def by simp
  have z1: "TCB_usStatus (K_tcb k1 u) = (if u = c then LW_THREAD_STATUS_VUTEX else TCB_usStatus (K_tcb k u))" for u by (simp add: k1_def z)
  have d1: "delay_ok k1" using delay_ok_off(1) [where f = ?f and t = c, OF S(2)] z by (simp add: k1_def delayed_def)
  then have "delay_ok (DEL_FROM_READY_RING c (GetPcb k1 c) k1)" using delay_ok_erase(1) [OF erase_DEL] by blast
  then have "delay_ok k2" unfolding k2_def by (rule delay_ok_same(1)) simp_all
  then have d3: "delay_ok k3" by (simp add: k3_def delay_ok_def dline_def delayed_def delay_nodes_def)
  have z3: "TCB_usStatus (K_tcb k3 u) = (if u = c then LW_THREAD_STATUS_VUTEX else TCB_usStatus (K_tcb k u))" for u by (simp add: k3_def k2_def z1)
  have n3: "\<not> delayed k3 c" by (simp add: delayed_def z3)
  have d4: "delay_ok k4" using d3 ADD_TO_WAKEUP_LINE_spec(1) [OF d3 n3] by (simp add: k4_def)
  have s4: "TCB_usStatus (K_tcb k4 c) AND LW_THREAD_STATUS_VUTEX \<noteq> 0" "u \<noteq> c \<Longrightarrow> TCB_usStatus (K_tcb k4 u) = TCB_usStatus (K_tcb k u)" for u
    by (simp_all add: k4_def z3)
  have v: "same_sched k k1" by (simp add: same_sched_def k1_def tview_def)
  have "LW_THREAD_IS_READY k1 u \<longleftrightarrow> u \<noteq> c \<and> LW_THREAD_IS_READY k u" for u by (simp add: LW_THREAD_IS_READY_def z1)
  then have "kern_ok T (DEL_FROM_READY_RING c (GetPcb k1 c) k1)" by (rule kern_ok_unready [OF S(1) c v])
  then have "kern_ok T k2" unfolding k2_def by (rule kern_ok_tcb) (simp_all add: tview_def)
  moreover have "TCB_usStatus (K_tcb k4 u) = 0 \<longleftrightarrow> TCB_usStatus (K_tcb k2 u) = 0" for u
    by (cases "u = c") (simp_all add: k4_def k3_def or_eq_0_iff k2_def z1)
  then have "rdyset T k4 = rdyset T k2" by (auto simp: rdyset_def LW_THREAD_IS_READY_def)
  ultimately have K: "kern_ok T k4" by (elim kern_ok_sview) (simp_all add: k4_def k3_def)
  have nc: "TCB_pesnPtr (K_tcb k4 c) = None" by (simp add: k4_def k3_def k2_def k1_def ne)
  show ?thesis unfolding E
  proof (rule sys_ok_wait [OF ok c(1,3) K d4])
    show "rview (K_tcb k4 u) = rview (K_tcb k u)" for u by (simp add: k4_def k3_def k2_def k1_def or_bits)
    show "TCB_usStatus (K_tcb k4 u) = TCB_usStatus (K_tcb k u)" if "u \<noteq> c" for u using s4(2) [OF that] .
    show "TCB_usStatus (K_tcb k4 c) AND LW_THREAD_STATUS_VUTEX \<noteq> 0 \<and>
      VUTEX_uiHash (TCB_vutex (K_tcb k4 c)) = VutexHash (the (VUTEX_phyaddr (TCB_vutex (K_tcb k4 c))))"
      using s4(1) by (simp add: k4_def k3_def k2_def k1_def)
    show "TCB_usStatus (K_tcb k4 c) AND LW_THREAD_STATUS_EVENTSET \<noteq> 0 \<and> \<not> VUTEX_IS_WAITING k4 c" if "TCB_pesnPtr (K_tcb k4 c) \<noteq> None"
      using that nc by simp
  qed (simp_all add: ne k4_def k3_def k2_def k1_def es_of_def vutex_in_def VUTEX_IS_WAITING_def)
qed

section \<open>Waking from an event set or a variable\<close>

lemma sys_ok_wake:
  assumes ok: "sys_ok T k" and t: "oview (K_tcb k t) \<noteq> None" and kd: "kern_ok T k'" "delay_ok k'"
    and f: "\<And>u. rview (K_tcb k' u) = rview (K_tcb k u)" "K_ncpus k' = K_ncpus k" "K_eventBuffer k' = K_eventBuffer k"
    and u: "\<And>u. u \<noteq> t \<Longrightarrow> TCB_usStatus (K_tcb k' u) = TCB_usStatus (K_tcb k u)"
      "\<And>u. u \<noteq> t \<Longrightarrow> wview (K_tcb k' u) = wview (K_tcb k u)" "\<And>u. u \<noteq> t \<Longrightarrow> oview (K_tcb k' u) = oview (K_tcb k u)"
    and o: "oview (K_tcb k' t) = None" "TCB_peventPtr (K_tcb k' t) = TCB_peventPtr (K_tcb k t)"
    and q: "\<And>s. es_waiters k' s = (if es_of k t = Some s then remove1 t (es_waiters k s) else es_waiters k s)"
      "\<And>h. k_plineVutexHashHeader k' h = (if vutex_in k t h then remove1 t (k_plineVutexHashHeader k h) else k_plineVutexHashHeader k h)"
  shows "sys_ok T k'"
proof -
  have S: "delay_ok k" "wait_ok T k" "req_ok T k" "oth_ok T k" "T \<subseteq> {..<LW_CFG_MAX_THREADS}"
    using ok by (simp_all add: sys_ok_def ipc_ok_def)
  have w: "TCB_pesnPtr (K_tcb k t) \<noteq> None \<or> VUTEX_IS_WAITING k t" using t by (auto simp: oview_none VUTEX_IS_WAITING_def)
  have np: "TCB_peventPtr (K_tcb k t) = None" by (rule oth_okD(11) [OF S(4) w])
  then have np': "TCB_peventPtr (K_tcb k' t) = None" using o(2) by simp
  have b: "by_prio k' = by_prio k" "wq k' = wq k" by (simp_all add: by_prio_def wq_def f fun_eq_iff)
  have wo: "wait_ok T k'" by (rule wait_ok_free [OF S(2) _ _ u(2) np np']) (simp_all add: b)
  have "u \<in> set (dline k') \<Longrightarrow> u = t \<or> u \<in> set (dline k)" for u
    using S(1) kd(2) u(1) [of u] by (cases "u = t") (simp_all add: delay_ok_def delayed_def)
  then have "set (dline k') \<subseteq> T" using oth_okD(9) [OF S(4) w] oth_okD(12) [OF S(4)] by auto
  then have "oth_ok T k'" using oth_ok_leave [OF S(4) u(3) o(1) q] by blast
  moreover have "req_ok T k'" by (rule req_ok_cong [OF S(3) f(1,2)])
  ultimately show ?thesis using kd wo S(5) by (simp add: sys_ok_def ipc_ok_def)
qed

text \<open>Leaving the delay line, if the thread is in it.\<close>

definition undelay :: "tid \<Rightarrow> kernel \<Rightarrow> kernel" where
  "undelay t k = (if TCB_usStatus (K_tcb k t) AND LW_THREAD_STATUS_DELAY \<noteq> 0 then DEL_FROM_WAKEUP_LINE t k else k)"

lemma undelay_frame [simp]:
  "TCB_usStatus (K_tcb (undelay t k) u) = (if u = t then TCB_usStatus (K_tcb k t) AND NOT LW_THREAD_STATUS_DELAY else TCB_usStatus (K_tcb k u))"
  "rview (K_tcb (undelay t k) u) = rview (K_tcb k u)" "oview (K_tcb (undelay t k) u) = oview (K_tcb k u)"
  "wview (K_tcb (undelay t k) u) = wview (K_tcb k u)" "K_esBuffer (undelay t k) = K_esBuffer k" "K_eventBuffer (undelay t k) = K_eventBuffer k"
  "k_plineVutexHashHeader (undelay t k) = k_plineVutexHashHeader k" "TCB_pesnPtr (K_tcb (undelay t k) u) = TCB_pesnPtr (K_tcb k u)"
  "TCB_vutex (K_tcb (undelay t k) u) = TCB_vutex (K_tcb k u)" "TCB_ucWaitTimeout (K_tcb (undelay t k) u) = TCB_ucWaitTimeout (K_tcb k u)"
  "TCB_peventPtr (K_tcb (undelay t k) u) = TCB_peventPtr (K_tcb k u)" "K_ncpus (undelay t k) = K_ncpus k" "K_curcpu (undelay t k) = K_curcpu k"
  "K_cpu (undelay t k) = K_cpu k" "sview (undelay t k) = sview k" "K_bug (undelay t k) = K_bug k"
  "TCB_ulEventSets (K_tcb (undelay t k) u) = TCB_ulEventSets (K_tcb k u)" "TCB_ucIsEventDelete (K_tcb (undelay t k) u) = TCB_ucIsEventDelete (K_tcb k u)"
proof -
  have z: "TCB_usStatus (K_tcb k t) AND LW_THREAD_STATUS_DELAY = 0 \<Longrightarrow> TCB_usStatus (K_tcb k t) AND NOT LW_THREAD_STATUS_DELAY = TCB_usStatus (K_tcb k t)"
    by (rule and_not_bit)
  obtain x y where F: "K_tcb (DEL_FROM_WAKEUP_LINE t k) u = (K_tcb k u)\<lparr>
     TCB_usStatus := (if u = t then TCB_usStatus (K_tcb k u) AND NOT LW_THREAD_STATUS_DELAY else TCB_usStatus (K_tcb k u)),
     TCB_ulDelay := x, TCB_bDelayInQ := y\<rparr>" using WAKEUP_DEL_form [of t k u] by blast
  show "TCB_usStatus (K_tcb (undelay t k) u) = (if u = t then TCB_usStatus (K_tcb k t) AND NOT LW_THREAD_STATUS_DELAY else TCB_usStatus (K_tcb k u))"
    using z by (auto simp: undelay_def)
  show "TCB_pesnPtr (K_tcb (undelay t k) u) = TCB_pesnPtr (K_tcb k u)"
    "TCB_vutex (K_tcb (undelay t k) u) = TCB_vutex (K_tcb k u)"
    "TCB_ulEventSets (K_tcb (undelay t k) u) = TCB_ulEventSets (K_tcb k u)" by (simp_all add: undelay_def F)
qed (simp_all add: undelay_def WAKEUP_DEL_views)

lemma undelay_ok:
  assumes d: "delay_ok k"
  shows "delay_ok (undelay t k)" "dline (undelay t k) = remove1 t (dline k)" "\<not> delayed (undelay t k) t"
    "u \<in> set (dline k) \<Longrightarrow> u \<noteq> t \<Longrightarrow> due (undelay t k) u = due k u"
proof -
  have "t \<notin> set (dline k)" if "\<not> delayed k t" using d that by (simp add: delay_ok_def)
  then show "delay_ok (undelay t k)" "dline (undelay t k) = remove1 t (dline k)"
    "u \<in> set (dline k) \<Longrightarrow> u \<noteq> t \<Longrightarrow> due (undelay t k) u = due k u"
    using DEL_FROM_WAKEUP_LINE_spec [OF d, of t] d by (auto simp: undelay_def remove1_idem delayed_def)
  show "\<not> delayed (undelay t k) t" by (simp add: delayed_def)
qed

lemma leave_eq: "leave_wakeup_line t k = tcb_upd t (\<lambda>b. if delayed k t then b\<lparr>TCB_ulDelay := 0\<rparr> else b) (undelay t k)"
  by (simp add: leave_wakeup_line_def undelay_def delayed_def tcb_upd_def)

lemma leave_ok:
  assumes d: "delay_ok k"
  shows "delay_ok (leave_wakeup_line t k)" "dline (leave_wakeup_line t k) = remove1 t (dline k)" "\<not> delayed (leave_wakeup_line t k) t"
    "u \<in> set (dline k) \<Longrightarrow> u \<noteq> t \<Longrightarrow> due (leave_wakeup_line t k) u = due k u"
proof -
  let ?f = "\<lambda>b. if delayed k t then b\<lparr>TCB_ulDelay := 0\<rparr> else b"
  note U = undelay_ok [OF d, where t = t]
  note L = delay_ok_off [where f = ?f and t = t, OF U(1,3), folded leave_eq]
  have z: "TCB_usStatus (?f (K_tcb (undelay t k) t)) AND LW_THREAD_STATUS_DELAY = 0" by simp
  show "delay_ok (leave_wakeup_line t k)" "dline (leave_wakeup_line t k) = remove1 t (dline k)" using L(1,3) [OF z] U(2) by simp_all
  show "\<not> delayed (leave_wakeup_line t k) t" by (simp add: leave_eq delayed_def)
  assume u: "u \<in> set (dline k)" "u \<noteq> t"
  then have "u \<in> set (dline (undelay t k))" by (simp add: U(2))
  then show "due (leave_wakeup_line t k) u = due k u" using L(2) [OF z] U(4) [OF u] by simp
qed

lemma EventSetDeleteReady_eq: "EventSetDeleteReady t k = EventSetThreadReady t 0 (tcb_upd t (\<lambda>b. b\<lparr>TCB_ucIsEventDelete := LW_EVENT_DELETE\<rparr>) k)"
  by (simp add: EventSetDeleteReady_def EventSetThreadReady_def Let_def)

lemma make_ready_views [simp]:
  "oview (K_tcb (make_ready t a k) u) = oview (K_tcb k u)" "wview (K_tcb (make_ready t a k) u) = wview (K_tcb k u)"
  "TCB_pesnPtr (K_tcb (make_ready t a k) u) = TCB_pesnPtr (K_tcb k u)" "TCB_vutex (K_tcb (make_ready t a k) u) = TCB_vutex (K_tcb k u)"
  "TCB_ulEventSets (K_tcb (make_ready t a k) u) = TCB_ulEventSets (K_tcb k u)"
  "k_plineVutexHashHeader (make_ready t a k) = k_plineVutexHashHeader k"
  by (simp_all add: make_ready_def Let_def oview_def wview_def)

lemma EventSetThreadReady_ok:
  fixes ev :: ulong
  assumes ok: "sys_ok T k" and w: "es_of k t = Some s"
  defines "k' \<equiv> EventSetThreadReady t ev k"
  shows "sys_ok T k'" "es_waiters k' s' = (if s' = s then remove1 t (es_waiters k s) else es_waiters k s')"
    "TCB_usStatus (K_tcb k' u) = (if u = t then (TCB_usStatus (K_tcb k t) AND NOT LW_THREAD_STATUS_DELAY) AND NOT LW_THREAD_STATUS_EVENTSET
       else TCB_usStatus (K_tcb k u))"
    "TCB_ulEventSets (K_tcb k' t) = ev" "TCB_ucWaitTimeout (K_tcb k' u) = TCB_ucWaitTimeout (K_tcb k u)"
    "u \<noteq> t \<Longrightarrow> TCB_pesnPtr (K_tcb k' u) = TCB_pesnPtr (K_tcb k u)" "u \<noteq> t \<Longrightarrow> TCB_ulEventSets (K_tcb k' u) = TCB_ulEventSets (K_tcb k u)"
    "EVENTSET_ulEventSets (K_esBuffer k' s') = EVENTSET_ulEventSets (K_esBuffer k s')"
    "TCB_ucIsEventDelete (K_tcb k' u) = TCB_ucIsEventDelete (K_tcb k u)"
proof -
  have S: "kern_ok T k" "delay_ok k" "oth_ok T k" using ok by (simp_all add: sys_ok_def ipc_ok_def)
  obtain n where n: "TCB_pesnPtr (K_tcb k t) = Some n" "EVENTSETNODE_pesEventSet n = s" using w by (auto simp: es_of_def)
  note O = oth_okD [OF S(3)]
  have tT: "t \<in> T" "TCB_ucWaitTimeout (K_tcb k t) = 0" "TCB_usStatus (K_tcb k t) AND LW_THREAD_STATUS_EVENTSET \<noteq> 0" "\<not> VUTEX_IS_WAITING k t"
    using O(9,10) [of t] O(5,6) [of t] n(1) by auto
  let ?f = "\<lambda>b. b\<lparr>TCB_ulDelay := 0, TCB_ulEventSets := ev, TCB_usStatus := TCB_usStatus b AND NOT LW_THREAD_STATUS_EVENTSET\<rparr>"
  let ?g = "\<lambda>b :: tcb. b\<lparr>TCB_pesnPtr := None\<rparr>"
  define k2 where "k2 = tcb_upd t ?f (undelay t k)"
  define k3 where "k3 = make_ready t LW_SCHED_ACT_INTERRUPT k2"
  have E: "k' = tcb_upd t ?g (es_upd s (\<lambda>v. v\<lparr>EVENTSET_plineWaitList := remove1 t (EVENTSET_plineWaitList v)\<rparr>) k3)"
    unfolding k'_def EventSetThreadReady_def Let_def undelay_def [symmetric] make_ready_def [unfolded Let_def, symmetric] k2_def [symmetric] k3_def [symmetric]
    by (simp add: EventSetUnQueue_def k3_def k2_def n Let_def)
  have s2: "TCB_usStatus (K_tcb k2 u) = (if u = t then (TCB_usStatus (K_tcb k t) AND NOT LW_THREAD_STATUS_DELAY) AND NOT LW_THREAD_STATUS_EVENTSET
    else TCB_usStatus (K_tcb k u))" for u by (simp add: k2_def)
  have nr: "\<not> LW_THREAD_IS_READY k t" using tT(3) by (auto simp: LW_THREAD_IS_READY_def)
  have v: "same_sched k k2" by (simp add: same_sched_def k2_def tview_def)
  have K3: "kern_ok T k3" unfolding k3_def by (rule kern_ok_ready [OF S(1) tT(1) nr v]) (simp add: LW_THREAD_IS_READY_def s2)
  have d2: "delay_ok k2" using delay_ok_off(1) [where f = ?f and t = t, OF undelay_ok(1,3) [OF S(2)]] by (simp add: k2_def and.assoc)
  then have d3: "delay_ok k3" by (simp add: k3_def)
  have "kern_ok T (es_upd s g k3)" for g by (rule kern_ok_sview [OF K3]) (simp_all add: rdyset_def LW_THREAD_IS_READY_def)
  then have K: "kern_ok T k'" unfolding E by (rule kern_ok_tcb) (simp_all add: tview_def)
  have "delay_ok (es_upd s g k3)" for g using d3 by (simp add: delay_ok_def dline_def delayed_def delay_nodes_def)
  then have D: "delay_ok k'" unfolding E by (rule delay_ok_same(1)) simp_all
  show "es_waiters k' s' = (if s' = s then remove1 t (es_waiters k s) else es_waiters k s')" for s'
    by (simp add: E k3_def k2_def)
  show "sys_ok T k'"
  proof (rule sys_ok_wake [OF ok _ K D])
    show "oview (K_tcb k t) \<noteq> None" using n(1) by (simp add: oview_none)
    show "oview (K_tcb k' t) = None" using tT(4) by (simp add: oview_none E k3_def k2_def VUTEX_IS_WAITING_def)
  qed (use w tT(4) in \<open>simp_all add: E k3_def k2_def and.assoc vutex_in_def\<close>)
  show "TCB_usStatus (K_tcb k' u) = (if u = t then (TCB_usStatus (K_tcb k t) AND NOT LW_THREAD_STATUS_DELAY) AND NOT LW_THREAD_STATUS_EVENTSET
       else TCB_usStatus (K_tcb k u))" by (simp add: E k3_def s2)
  show "TCB_ulEventSets (K_tcb k' t) = ev" "TCB_ucWaitTimeout (K_tcb k' u) = TCB_ucWaitTimeout (K_tcb k u)"
    "u \<noteq> t \<Longrightarrow> TCB_pesnPtr (K_tcb k' u) = TCB_pesnPtr (K_tcb k u)" "u \<noteq> t \<Longrightarrow> TCB_ulEventSets (K_tcb k' u) = TCB_ulEventSets (K_tcb k u)"
    "EVENTSET_ulEventSets (K_esBuffer k' s') = EVENTSET_ulEventSets (K_esBuffer k s')"
    "TCB_ucIsEventDelete (K_tcb k' u) = TCB_ucIsEventDelete (K_tcb k u)" using tT(2) by (simp_all add: E k3_def k2_def)
qed

lemma vutex_wake_one_ok:
  fixes fl :: u32
  assumes ok: "sys_ok T k" and w: "vutex_in k t h"
  defines "k' \<equiv> vutex_wake_one h fl t k"
  shows "sys_ok T k'" "k_plineVutexHashHeader k' h' = (if h' = h then remove1 t (k_plineVutexHashHeader k h) else k_plineVutexHashHeader k h')"
    "TCB_usStatus (K_tcb k' u) = (if u = t then (TCB_usStatus (K_tcb k t) AND NOT LW_THREAD_STATUS_DELAY) AND NOT LW_THREAD_STATUS_VUTEX
       else TCB_usStatus (K_tcb k u))"
    "VutexWakeIsAll t k' \<longleftrightarrow> fl AND LW_OPTION_VUTEX_FLAG_WAKEALL \<noteq> 0" "TCB_ucWaitTimeout (K_tcb k' u) = TCB_ucWaitTimeout (K_tcb k u)"
    "u \<noteq> t \<Longrightarrow> TCB_vutex (K_tcb k' u) = TCB_vutex (K_tcb k u)" "\<not> VUTEX_IS_WAITING k' t"
proof -
  have S: "kern_ok T k" "delay_ok k" "oth_ok T k" using ok by (simp_all add: sys_ok_def ipc_ok_def)
  have x: "VUTEX_IS_WAITING k t" "VUTEX_uiHash (TCB_vutex (K_tcb k t)) = h" using w by (simp_all add: vutex_in_def)
  note O = oth_okD [OF S(3)]
  have tT: "t \<in> T" "TCB_ucWaitTimeout (K_tcb k t) = 0" "TCB_usStatus (K_tcb k t) AND LW_THREAD_STATUS_VUTEX \<noteq> 0" "TCB_pesnPtr (K_tcb k t) = None"
    using O(9,10) [of t] O(7) [OF x(1)] O(6) [of t] x(1) by (auto simp del: not_None_eq)
  let ?v = "\<lambda>b. b\<lparr>TCB_vutex := (TCB_vutex b)\<lparr>VUTEX_phyaddr := None, VUTEX_bWakeAll := (fl AND LW_OPTION_VUTEX_FLAG_WAKEALL \<noteq> 0)\<rparr>\<rparr>"
  let ?d = "\<lambda>b :: tcb. b\<lparr>TCB_ulDelay := 0\<rparr>"
  let ?s = "\<lambda>b. b\<lparr>TCB_usStatus := TCB_usStatus b AND NOT LW_THREAD_STATUS_VUTEX\<rparr>"
  define k1 where "k1 = tcb_upd t ?v (vutex_line h (remove1 t) k)"
  define k2 where "k2 = leave_wakeup_line t k1"
  define k3 where "k3 = tcb_upd t ?s k2"
  have n2: "TCB_ucWaitTimeout (K_tcb k2 t) = 0" using tT(2) by (simp add: k2_def k1_def leave_eq)
  have d1: "delay_ok k1"
  proof -
    have "delay_ok (vutex_line h (remove1 t) k)" using S(2) by (simp add: delay_ok_def dline_def delayed_def delay_nodes_def)
    then show ?thesis unfolding k1_def by (rule delay_ok_same(1)) simp_all
  qed
  have d3: "delay_ok k3" using delay_ok_off(1) [where f = ?s and t = t, OF leave_ok(1,3) [OF d1]] leave_ok(3) [OF d1, of t]
    by (simp add: k3_def k2_def delayed_def and.assoc) 
  have s3: "TCB_usStatus (K_tcb k3 u) = (if u = t then (TCB_usStatus (K_tcb k t) AND NOT LW_THREAD_STATUS_DELAY) AND NOT LW_THREAD_STATUS_VUTEX
       else TCB_usStatus (K_tcb k u))" for u by (simp add: k3_def k2_def k1_def leave_eq)
  have nr: "\<not> LW_THREAD_IS_READY k t" using tT(3) by (auto simp: LW_THREAD_IS_READY_def)
  have v: "same_sched k k3" by (simp add: same_sched_def k3_def k2_def k1_def leave_eq tview_def)
  have E: "k' = make_ready t LW_SCHED_ACT_INTERRUPT k3"
    unfolding k'_def vutex_wake_one_def vutex_upd_def Let_def leave_wakeup_line_def [symmetric] k1_def [symmetric] k2_def [symmetric]
      make_ready_def [unfolded Let_def, symmetric] k3_def [symmetric]
    using n2 by simp
  have K: "kern_ok T k'" unfolding E by (rule kern_ok_ready [OF S(1) tT(1) nr v]) (simp add: LW_THREAD_IS_READY_def s3)
  have D: "delay_ok k'" using d3 by (simp add: E)
  show "sys_ok T k'"
  proof (rule sys_ok_wake [OF ok _ K D])
    show "oview (K_tcb k t) \<noteq> None" using x(1) by (simp add: oview_none VUTEX_IS_WAITING_def)
    show "oview (K_tcb k' t) = None" using tT(4) by (simp add: oview_none E k3_def k2_def k1_def leave_eq)
    show "TCB_usStatus (K_tcb k' u) = TCB_usStatus (K_tcb k u)" if "u \<noteq> t" for u using that by (simp add: E s3)
  qed (use w tT(4) in \<open>auto simp add: E k3_def k2_def k1_def leave_eq and.assoc vutex_in_def es_of_def\<close>)
  show "k_plineVutexHashHeader k' h' = (if h' = h then remove1 t (k_plineVutexHashHeader k h) else k_plineVutexHashHeader k h')" by (simp add: E k3_def k2_def k1_def leave_eq)
  show   "TCB_usStatus (K_tcb k' u) = (if u = t then (TCB_usStatus (K_tcb k t) AND NOT LW_THREAD_STATUS_DELAY) AND NOT LW_THREAD_STATUS_VUTEX
       else TCB_usStatus (K_tcb k u))"
    "VutexWakeIsAll t k' \<longleftrightarrow> fl AND LW_OPTION_VUTEX_FLAG_WAKEALL \<noteq> 0" "TCB_ucWaitTimeout (K_tcb k' u) = TCB_ucWaitTimeout (K_tcb k u)"
    "u \<noteq> t \<Longrightarrow> TCB_vutex (K_tcb k' u) = TCB_vutex (K_tcb k u)" "\<not> VUTEX_IS_WAITING k' t"
    by (simp_all add: E s3) (simp_all add: VutexWakeIsAll_def VUTEX_IS_WAITING_def k3_def k2_def k1_def leave_eq)
qed

section \<open>Waking from an event\<close>

lemma High_views:
  "ty AND LW_THREAD_STATUS_WSTAT = 0 \<Longrightarrow> rview (K_tcb (EventReadyHighLevel t ty a k) u) = rview (K_tcb k u)"
  "u \<noteq> t \<Longrightarrow> oview (K_tcb (EventReadyHighLevel t ty a k) u) = oview (K_tcb k u)"
  "oview (K_tcb k t) = None \<Longrightarrow> oview (K_tcb (EventReadyHighLevel t ty a k) t) = None"
  "es_waiters (EventReadyHighLevel t ty a k) s = es_waiters k s"
  "k_plineVutexHashHeader (EventReadyHighLevel t ty a k) = k_plineVutexHashHeader k"
proof -
  let ?k = "tcb_upd t (\<lambda>b. b\<lparr>TCB_peventPtr := None\<rparr>) k"
  have E: "EventReadyHighLevel t ty a k = (if TCB_ucWaitTimeout (K_tcb ?k t) \<noteq> 0 then tcb_upd t (\<lambda>b. b\<lparr>TCB_ucWaitTimeout := LW_WAIT_TIME_CLEAR\<rparr>) ?k
      else make_ready t a (tcb_upd t (\<lambda>b. b\<lparr>TCB_usStatus := TCB_usStatus b AND NOT ty\<rparr>) ?k))"
    unfolding EventReadyHighLevel_def Let_def make_ready_def ..
  show "rview (K_tcb (EventReadyHighLevel t ty a k) u) = rview (K_tcb k u)" if "ty AND LW_THREAD_STATUS_WSTAT = 0"
  proof -
    have "LW_THREAD_STATUS_WSTAT AND NOT ty = LW_THREAD_STATUS_WSTAT" using that by (intro and_not_bit) (simp add: and.commute)
    then have "(s AND NOT ty) AND LW_THREAD_STATUS_WSTAT = s AND LW_THREAD_STATUS_WSTAT" for s
      unfolding and.assoc by (subst and.commute [of "NOT ty"]) simp
    then show ?thesis unfolding E by simp
  qed
  show "u \<noteq> t \<Longrightarrow> oview (K_tcb (EventReadyHighLevel t ty a k) u) = oview (K_tcb k u)" unfolding E by simp
  show "oview (K_tcb k t) = None \<Longrightarrow> oview (K_tcb (EventReadyHighLevel t ty a k) t) = None" unfolding E by simp
  show "es_waiters (EventReadyHighLevel t ty a k) s = es_waiters k s"
    "k_plineVutexHashHeader (EventReadyHighLevel t ty a k) = k_plineVutexHashHeader k" unfolding E by simp_all
qed

lemma ev_wake_sys:
  assumes ok: "sys_ok T k" and w: "waiters k e q = t # ts" and ty: "ty AND LW_THREAD_STATUS_WSTAT = 0"
  shows "sys_ok T (snd (ev_wake e q msg d ty a k))"
proof -
  have i: "ipc_ok T k" and r: "req_ok T k" and o: "oth_ok T k" using ok by (simp_all add: sys_ok_def)
  let ?k' = "snd (ev_wake e q msg d ty a k)"
  from ev_wake_spec [OF i w, where msg = msg and d = d and ty = ty and a = a] obtain k'
    where S: "?k' = k'" "ipc_ok T k'" "dline k' = remove1 t (dline k)" "K_ncpus k' = K_ncpus k" by (metis snd_conv)
  define k2 where "k2 = tcb_upd t (\<lambda>b. b\<lparr>TCB_pvMsgBoxMessage := msg\<rparr>) (ev_wq_upd e q (wq_del_at (first_index k e q) t) k)"
  define k4 where "k4 = (if d then tcb_upd t (\<lambda>b. b\<lparr>TCB_ucIsEventDelete := LW_EVENT_DELETE\<rparr>) (leave_wakeup_line t k2) else leave_wakeup_line t k2)"
  have K: "k' = EventReadyHighLevel t ty a k4" using S(1)
    by (auto simp: ev_wake_def ev_ready_low_eq [OF ipc_okD(3) [OF i] w] k4_def k2_def)
  have m: "rview (b\<lparr>TCB_pvMsgBoxMessage := msg\<rparr>) = rview b" "oview (b\<lparr>TCB_pvMsgBoxMessage := msg\<rparr>) = oview b" for b by (simp_all add: rview_def oview_def)
  have V: "rview (K_tcb k4 u) = rview (K_tcb k u)" "oview (K_tcb k4 u) = oview (K_tcb k u)" for u
    by (simp_all add: k4_def k2_def leave_eq m)
  have "req_ok T k'" by (rule req_ok_cong [OF r]) (use S(4) in \<open>simp_all add: K V High_views(1) [OF ty]\<close>)
  moreover have "oth_ok T k'"
  proof (rule oth_ok_upd [OF o, of t])
    have "t \<in> set (waiters k e q)" using w by simp
    then have "TCB_peventPtr (K_tcb k t) \<noteq> None" using wait_okD(2) [OF ipc_okD(3) [OF i], of t e q] by (simp add: waits_in_def)
    then show n: "oview (K_tcb k t) = None" by (rule oth_ok_event [OF o])
    show "oview (K_tcb k' t) = None" using High_views(3) [of k4 t ty a] V(2) [of t] n by (simp add: K)
    show "oview (K_tcb k' u) = oview (K_tcb k u)" if "u \<noteq> t" for u using High_views(2) [OF that] V(2) by (simp add: K)
    show "es_waiters k' s = es_waiters k s" "k_plineVutexHashHeader k' = k_plineVutexHashHeader k" for s
      by (simp_all add: K High_views k4_def k2_def leave_eq)
    show "set (dline k') \<subseteq> T" using oth_okD(12) [OF o] set_remove1_subset [of t "dline k"] by (simp add: S(3))
  qed
  ultimately show ?thesis using S(1,2) by (simp add: sys_ok_def)
qed

end
