(* ===== verification/Sweep.thy ===== *)
theory Sweep
  imports SysOps
begin

text \<open>
  The loops that go through a list of waiting threads and wake those whose condition holds
  (\<^verbatim>\<open>API_EventSetSet\<close>, \<^verbatim>\<open>API_EventSetDelete\<close>, \<^verbatim>\<open>_VutexWakeQueue\<close>). What they have in common is
  proved once, for any operation that takes a thread off the list and leaves the conditions of the
  others alone.
\<close>

locale wake_sweep =
  fixes ok :: "'k \<Rightarrow> bool" and waiting :: "'k \<Rightarrow> 't list" and sat :: "'k \<Rightarrow> 't \<Rightarrow> bool" and wake :: "'t \<Rightarrow> 'k \<Rightarrow> 'k"
    and mark :: "'t option \<Rightarrow> 'k \<Rightarrow> 'k" and obs :: "'k \<Rightarrow> 't \<Rightarrow> 'o" and res :: "'k \<Rightarrow> 't \<Rightarrow> 'o"
  assumes waiting_distinct: "ok k \<Longrightarrow> distinct (waiting k)"
    and wake_ok: "ok k \<Longrightarrow> t \<in> set (waiting k) \<Longrightarrow> sat k t \<Longrightarrow> ok (wake t k)"
    and wake_waiting: "ok k \<Longrightarrow> t \<in> set (waiting k) \<Longrightarrow> sat k t \<Longrightarrow> waiting (wake t k) = remove1 t (waiting k)"
    and wake_others: "ok k \<Longrightarrow> t \<in> set (waiting k) \<Longrightarrow> sat k t \<Longrightarrow> u \<noteq> t \<Longrightarrow> sat (wake t k) u = sat k u \<and> res (wake t k) u = res k u"
    and wake_obs: "ok k \<Longrightarrow> t \<in> set (waiting k) \<Longrightarrow> sat k t \<Longrightarrow> obs (wake t k) u = (if u = t then res k t else obs k u)"
    and mark_keeps: "ok (mark m k) = ok k" "waiting (mark m k) = waiting k" "sat (mark m k) = sat k" "obs (mark m k) = obs k" "res (mark m k) = res k"
begin

fun sweep :: "'t list \<Rightarrow> 'k \<Rightarrow> 'k" where
  "sweep [] k = mark None k"
| "sweep (t # ts) k = (let k = mark (head_of ts) k in sweep ts (if sat k t then wake t k else k))"

lemma sweep_spec:
  assumes "ok k" and "distinct xs" and "set xs \<subseteq> set (waiting k)"
  shows "ok (sweep xs k) \<and> waiting (sweep xs k) = filter (\<lambda>t. \<not> (t \<in> set xs \<and> sat k t)) (waiting k) \<and>
    (\<forall>u. obs (sweep xs k) u = (if u \<in> set xs \<and> sat k u then res k u else obs k u))"
  using assms
proof (induction xs arbitrary: k)
  case (Cons t ts)
  let ?k = "mark (head_of ts) k"
  have p: "ok ?k" "t \<in> set (waiting ?k)" "set ts \<subseteq> set (waiting ?k)" "distinct ts" "t \<notin> set ts"
    using Cons.prems by (simp_all add: mark_keeps)
  show ?case
  proof (cases "sat k t")
    case True
    then have s: "sat ?k t" by (simp add: mark_keeps)
    note W = wake_ok [OF p(1,2) s] wake_waiting [OF p(1,2) s] wake_others [OF p(1,2) s] wake_obs [OF p(1,2) s]
    have d: "distinct (waiting ?k)" by (rule waiting_distinct [OF p(1)])
    have "set ts \<subseteq> set (waiting (wake t ?k))" using p d by (auto simp: W(2))
    note IH = Cons.IH [OF W(1) p(4) this]
    have sat: "sat (wake t ?k) u = sat k u" "res (wake t ?k) u = res k u" if "u \<in> set ts" for u
      using W(3) [of u] that p(5) by (auto simp: mark_keeps)
    have "filter (\<lambda>u. \<not> (u \<in> set ts \<and> sat (wake t ?k) u)) (remove1 t (waiting ?k)) = filter (\<lambda>u. \<not> (u \<in> set (t # ts) \<and> sat k u)) (waiting k)"
      using d True sat by (auto simp: distinct_remove1_removeAll removeAll_filter_not_eq mark_keeps intro!: filter_cong)
    moreover have "obs (sweep ts (wake t ?k)) u = (if u \<in> set (t # ts) \<and> sat k u then res k u else obs k u)" for u
      using IH W(4) [of u] sat [of u] True p(5) by (auto simp: mark_keeps)
    ultimately show ?thesis using IH s by (simp add: Let_def W(2))
  next
    case False
    have "filter (\<lambda>u. \<not> (u \<in> set ts \<and> sat k u)) (waiting k) = filter (\<lambda>u. \<not> (u \<in> set (t # ts) \<and> sat k u)) (waiting k)"
      using False by (auto intro: filter_cong)
    then show ?thesis using Cons.IH [OF p(1,4,3)] False by (auto simp: Let_def mark_keeps)
  qed
qed (simp add: mark_keeps)

lemma sweep_waiting:
  assumes "ok k"
  shows "ok (sweep (waiting k) k)" "waiting (sweep (waiting k) k) = filter (\<lambda>t. \<not> sat k t) (waiting k)"
    "obs (sweep (waiting k) k) u = (if u \<in> set (waiting k) \<and> sat k u then res k u else obs k u)"
  using sweep_spec [OF assms waiting_distinct [OF assms] subset_refl] by (auto intro: filter_cong)

lemma sweep_unmarked:
  assumes "\<And>m k. mark m k = k"
  shows "sweep xs k = fold (\<lambda>t k. if sat k t then wake t k else k) xs k"
  by (induction xs arbitrary: k) (simp_all add: assms Let_def)

end

end
