(* ===== verification/EventSetInv.thy ===== *)
theory EventSetInv
  imports Sweep
begin

text \<open>
  Setting the flags of an event set and deleting one: exactly the threads whose condition holds are
  woken, and the invariant of the system is kept.
\<close>

section \<open>Setting flags\<close>

text \<open>Whether the wait of a thread is satisfied by the flags of the set \<open>s\<close>, and the flags it gets.\<close>

definition es_flags :: "kernel \<Rightarrow> nat \<Rightarrow> tid \<Rightarrow> ulong option" where
  "es_flags k s t = (case TCB_pesnPtr (K_tcb k t) of None \<Rightarrow> Some 0
     | Some n \<Rightarrow> es_ready (EVENTSETNODE_ucWaitType n) (EVENTSETNODE_ulEventSets n) (EVENTSET_ulEventSets (K_esBuffer k s)))"

definition es_obs :: "kernel \<Rightarrow> tid \<Rightarrow> u16 \<times> ulong \<times> u8 \<times> u8" where
  "es_obs k t = (TCB_usStatus (K_tcb k t), TCB_ulEventSets (K_tcb k t), TCB_ucWaitTimeout (K_tcb k t), TCB_ucIsEventDelete (K_tcb k t))"

definition es_woken :: "kernel \<Rightarrow> tid \<Rightarrow> ulong \<Rightarrow> u8 \<Rightarrow> u16 \<times> ulong \<times> u8 \<times> u8" where
  "es_woken k t ev d = ((TCB_usStatus (K_tcb k t) AND NOT LW_THREAD_STATUS_DELAY) AND NOT LW_THREAD_STATUS_EVENTSET, ev,
     TCB_ucWaitTimeout (K_tcb k t), d)"

lemma es_wake_one_eq: "es_wake_one s t k = (if es_flags k s t \<noteq> None then es_wake_one s t k else k)"
  by (simp add: es_wake_one_def es_flags_def split: option.splits)

lemma es_wake_one_ready:
  "es_of k t = Some s \<Longrightarrow> es_flags k s t = Some ev \<Longrightarrow> es_wake_one s t k = EventSetThreadReady t ev k"
  by (auto simp: es_wake_one_def es_flags_def es_of_def)

interpretation ess: wake_sweep "\<lambda>k. sys_ok T k \<and> EVENTSET_ulEventSets (K_esBuffer k s) = fl" "\<lambda>k. es_waiters k s" "\<lambda>k t. es_flags k s t \<noteq> None"
  "es_wake_one s" "\<lambda>_ k. k" es_obs "\<lambda>k t. es_woken k t (the (es_flags k s t)) (TCB_ucIsEventDelete (K_tcb k t))" for T s fl
proof
  fix k t
  assume ok: "sys_ok T k \<and> EVENTSET_ulEventSets (K_esBuffer k s) = fl" and t: "t \<in> set (es_waiters k s)" and sat: "es_flags k s t \<noteq> None"
  have e: "es_of k t = Some s" using oth_okD(2) [of T k t s] ok t by (simp add: sys_ok_def)
  obtain ev where ev: "es_flags k s t = Some ev" using sat by blast
  note R = EventSetThreadReady_ok [OF conjunct1 [OF ok] e, where ev = ev] and E = es_wake_one_ready [OF e ev]
  show "sys_ok T (es_wake_one s t k) \<and> EVENTSET_ulEventSets (K_esBuffer (es_wake_one s t k) s) = fl"
    using R(1) R(8) [of s] ok by (simp add: E)
  show "es_waiters (es_wake_one s t k) s = remove1 t (es_waiters k s)" using R(2) [of s] by (simp add: E)
  show "es_obs (es_wake_one s t k) u = (if u = t then es_woken k t (the (es_flags k s t)) (TCB_ucIsEventDelete (K_tcb k t)) else es_obs k u)" for u
    using R(3) [of u] R(4,5,7,9) by (simp add: E ev es_obs_def es_woken_def)
  show "(es_flags (es_wake_one s t k) s u \<noteq> None) = (es_flags k s u \<noteq> None) \<and>
    es_woken (es_wake_one s t k) u (the (es_flags (es_wake_one s t k) s u)) (TCB_ucIsEventDelete (K_tcb (es_wake_one s t k) u)) =
    es_woken k u (the (es_flags k s u)) (TCB_ucIsEventDelete (K_tcb k u))" if "u \<noteq> t" for u
  proof -
    have "es_flags (EventSetThreadReady t ev k) s u = es_flags k s u" unfolding es_flags_def R(6) [OF that] R(8) ..
    then show ?thesis using R(3) [of u] R(5) [of u] R(9) [of u] that by (simp add: E es_woken_def)
  qed
qed (auto simp: sys_ok_def dest: oth_okD(1))

lemma sys_ok_flags:
  assumes "sys_ok T k" and "EVENTSET_plineWaitList (f (K_esBuffer k s)) = es_waiters k s"
  shows "sys_ok T (es_upd s f k)"
proof -
  have i: "kern_ok T k" "delay_ok k" "wait_ok T k" "req_ok T k" "oth_ok T k" "T \<subseteq> {..<LW_CFG_MAX_THREADS}"
    using assms(1) by (simp_all add: sys_ok_def ipc_ok_def)
  have "kern_ok T (es_upd s f k)" by (rule kern_ok_sview [OF i(1)]) (simp_all add: rdyset_def LW_THREAD_IS_READY_def)
  moreover have "delay_ok (es_upd s f k)" using i(2) by (simp add: delay_ok_def dline_def delayed_def delay_nodes_def)
  moreover have "wait_ok T (es_upd s f k)" by (rule wait_ok_cong [OF i(3)]) (simp_all add: by_prio_def wq_def)
  moreover have "req_ok T (es_upd s f k)" by (rule req_ok_cong [OF i(4)]) simp_all
  moreover have "oth_ok T (es_upd s f k)" using oth_okD(12) [OF i(5)] by (intro oth_ok_cong [OF i(5)]) (simp_all add: assms(2) dline_def)
  ultimately show ?thesis using i(6) by (simp add: sys_ok_def ipc_ok_def)
qed

text \<open>The flags after the call, and the threads it satisfies.\<close>

definition es_new :: "ulong \<Rightarrow> ulong \<Rightarrow> ulong \<Rightarrow> ulong" where
  "es_new op ev fl = (if op = LW_OPTION_EVENTSET_CLR then fl AND NOT ev else fl OR ev)"

definition es_hit :: "kernel \<Rightarrow> ulong \<Rightarrow> tid \<Rightarrow> ulong option" where
  "es_hit k fl t = Option.bind (TCB_pesnPtr (K_tcb k t)) (\<lambda>n. es_ready (EVENTSETNODE_ucWaitType n) (EVENTSETNODE_ulEventSets n) fl)"

lemma es_set_ok:
  assumes ok: "sys_ok T k" and o: "op = LW_OPTION_EVENTSET_SET \<or> op = LW_OPTION_EVENTSET_CLR"
    and fl: "fl = es_new op ev (EVENTSET_ulEventSets (K_esBuffer k s))"
  obtains k' where "es_set ev op s k = (ERROR_NONE, (), k')" "sys_ok T k'" "EVENTSET_ulEventSets (K_esBuffer k' s) = fl"
    "es_waiters k' s = filter (\<lambda>t. es_hit k fl t = None) (es_waiters k s)"
    "\<And>t. es_obs k' t = (if t \<in> set (es_waiters k s) \<and> es_hit k fl t \<noteq> None
       then es_woken k t (the (es_hit k fl t)) (TCB_ucIsEventDelete (K_tcb k t)) else es_obs k t)"
proof -
  let ?f = "\<lambda>v. v\<lparr>EVENTSET_ulEventSets := (if op = LW_OPTION_EVENTSET_CLR then EVENTSET_ulEventSets v AND NOT ev else EVENTSET_ulEventSets v OR ev)\<rparr>"
  let ?k = "es_upd s ?f k"
  have ok1: "sys_ok T ?k \<and> EVENTSET_ulEventSets (K_esBuffer ?k s) = fl" using sys_ok_flags [where f = ?f and s = s, OF ok] by (simp add: fl es_new_def)
  have l: "es_waiters ?k s = es_waiters k s" by simp
  define k' where "k' = fold (es_wake_one s) (es_waiters k s) ?k"
  have F: "fold (\<lambda>t k. if es_flags k s t \<noteq> None then es_wake_one s t k else k) xs a = fold (es_wake_one s) xs a" for xs a
    using es_wake_one_eq [of s] by (intro fold_cong) (simp_all add: fun_eq_iff)
  have W: "ess.sweep s (es_waiters ?k s) ?k = k'" unfolding k'_def ess.sweep_unmarked [OF refl] F l ..
  note P = ess.sweep_waiting [OF ok1, unfolded W]
  have s1: "es_flags ?k s t = es_hit k fl t" if "t \<in> set (es_waiters k s)" for t
  proof -
    have "TCB_pesnPtr (K_tcb k t) \<noteq> None" using oth_okD(2) [of T k t s] ok that by (auto simp: sys_ok_def es_of_def)
    then show ?thesis using conjunct2 [OF ok1] by (auto simp: es_flags_def es_hit_def)
  qed
  show thesis
  proof (rule that [of k'])
    show "es_set ev op s k = (ERROR_NONE, (), k')" using o by (auto simp: es_set_def Let_def k'_def)
    show "sys_ok T k'" "EVENTSET_ulEventSets (K_esBuffer k' s) = fl" using P(1) by simp_all
    show "es_waiters k' s = filter (\<lambda>t. es_hit k fl t = None) (es_waiters k s)" using P(2) s1 by (auto intro: filter_cong)
    show "es_obs k' t = (if t \<in> set (es_waiters k s) \<and> es_hit k fl t \<noteq> None
       then es_woken k t (the (es_hit k fl t)) (TCB_ucIsEventDelete (K_tcb k t)) else es_obs k t)" for t
      using P(3) [of t] s1 [of t] by (auto simp: es_obs_def es_woken_def)
  qed
qed

section \<open>Deletion\<close>

lemma EventSetDeleteReady_ok:
  assumes ok: "sys_ok T k" and w: "es_of k t = Some s"
  defines "k' \<equiv> EventSetDeleteReady t k"
  shows "sys_ok T k'" "es_waiters k' s = remove1 t (es_waiters k s)"
    "es_obs k' u = (if u = t then es_woken k t 0 LW_EVENT_DELETE else es_obs k u)"
    "u \<noteq> t \<Longrightarrow> es_woken k' u 0 LW_EVENT_DELETE = es_woken k u 0 LW_EVENT_DELETE"
proof -
  let ?f = "\<lambda>b :: tcb. b\<lparr>TCB_ucIsEventDelete := LW_EVENT_DELETE\<rparr>"
  let ?k = "tcb_upd t ?f k"
  have ok1: "sys_ok T ?k" by (rule sys_ok_quiet [OF ok]) (auto simp: quiet_defs)
  have w1: "es_of ?k t = Some s" using w by (simp add: es_of_def)
  note R = EventSetThreadReady_ok [OF ok1 w1, where ev = 0, folded EventSetDeleteReady_eq k'_def]
  show "sys_ok T k'" by (rule R(1))
  show "es_waiters k' s = remove1 t (es_waiters k s)" using R(2) [of s] by simp
  show "es_obs k' u = (if u = t then es_woken k t 0 LW_EVENT_DELETE else es_obs k u)" for u
    using R(3) [of u] R(4) R(5) [of u] R(7) [of u] R(9) [of u] by (simp add: es_obs_def es_woken_def)
  show "u \<noteq> t \<Longrightarrow> es_woken k' u 0 LW_EVENT_DELETE = es_woken k u 0 LW_EVENT_DELETE" for u
    using R(3) [of u] R(5) [of u] by (simp add: es_woken_def)
qed

interpretation esd: wake_sweep "sys_ok T" "\<lambda>k. es_waiters k s" "\<lambda>_ _. True" EventSetDeleteReady "\<lambda>_ k. k" es_obs "\<lambda>k t. es_woken k t 0 LW_EVENT_DELETE"
  for T s
proof
  fix k t u
  assume ok: "sys_ok T k" and t: "t \<in> set (es_waiters k s)"
  have e: "es_of k t = Some s" using oth_okD(2) [of T k t s] ok t by (simp add: sys_ok_def)
  note R = EventSetDeleteReady_ok [OF ok e]
  show "sys_ok T (EventSetDeleteReady t k)" "es_waiters (EventSetDeleteReady t k) s = remove1 t (es_waiters k s)" by (rule R)+
  show "es_obs (EventSetDeleteReady t k) u = (if u = t then es_woken k t 0 LW_EVENT_DELETE else es_obs k u)" by (rule R)
  show "u \<noteq> t \<Longrightarrow> True = True \<and> es_woken (EventSetDeleteReady t k) u 0 LW_EVENT_DELETE = es_woken k u 0 LW_EVENT_DELETE" using R(4) by simp
qed (auto simp: sys_ok_def dest: oth_okD(1))

lemma sys_ok_resrc:
  assumes "sys_ok T k"
  shows "sys_ok T (k\<lparr>K_resrcEventSet := r\<rparr>)"
proof (rule sys_ok_same [OF assms])
  show "kern_ok T (k\<lparr>K_resrcEventSet := r\<rparr>)" by (rule kern_ok_sview [OF sys_ok_kern [OF assms]])
    (auto simp: rdyset_def LW_THREAD_IS_READY_def sview_def rdy_pcbbmap_def LW_CAND_TCB_def fun_eq_iff split: option.splits)
qed (simp_all add: okern_def dline_def)

lemma EventSetDeleteReady_pool [simp]: "K_resrcEventSet (EventSetDeleteReady t k) = K_resrcEventSet k"
  by (simp add: EventSetDeleteReady_def EventSetUnQueue_def bug_def Let_def DEL_FROM_WAKEUP_LINE_def erase_kernelD [OF erase_ADD] split: option.splits prod.splits)

lemma es_delete_ok:
  assumes ok: "sys_ok T k"
  obtains k' where "es_delete s k = (ERROR_NONE, 0, k')" "sys_ok T k'" "es_waiters k' s = []"
    "EVENTSET_ucType (K_esBuffer k' s) = LW_TYPE_EVENT_UNUSED" "RESRC_free (K_resrcEventSet k') = RESRC_free (K_resrcEventSet k) @ [s]"
    "\<And>t. es_obs k' t = (if t \<in> set (es_waiters k s) then es_woken k t 0 LW_EVENT_DELETE else es_obs k t)"
proof -
  define k1 where "k1 = fold EventSetDeleteReady (es_waiters k s) k"
  have "esd.sweep (es_waiters k s) k = k1" unfolding esd.sweep_unmarked [OF refl] k1_def by simp
  note P = esd.sweep_waiting [OF ok, where s = s, unfolded this]
  let ?f = "\<lambda>v. v\<lparr>EVENTSET_ucType := LW_TYPE_EVENT_UNUSED, EVENTSET_plineWaitList := []\<rparr>"
  have w: "es_waiters k1 s = []" using P(2) by simp
  have "sys_ok T (es_upd s ?f k1)" by (rule sys_ok_flags [OF P(1)]) (simp add: w)
  note F = sys_ok_resrc [OF this]
  have "K_resrcEventSet (fold EventSetDeleteReady xs a) = K_resrcEventSet a" for xs a by (induction xs arbitrary: a) simp_all
  then have p: "K_resrcEventSet k1 = K_resrcEventSet k" by (simp add: k1_def)
  show thesis
  proof (rule that [of "Free_EventSet_Object s (es_upd s ?f k1)"])
    show "es_delete s k = (ERROR_NONE, 0, Free_EventSet_Object s (es_upd s ?f k1))" by (simp add: es_delete_def Let_def k1_def)
  qed (use F P(3) p in \<open>simp_all add: Free_EventSet_Object_def es_obs_def\<close>)
qed

end
