(* ===== verification/VutexInv.thy ===== *)
theory VutexInv
  imports Sweep
begin

text \<open>
  Waking the threads that wait for the value of a variable: exactly those in the bucket that wait
  for this variable and whose comparison holds (or all of them, when the call asks for it).
\<close>

definition vutex_obs :: "kernel \<Rightarrow> tid \<Rightarrow> u16 \<times> bool \<times> u8" where
  "vutex_obs k t = (TCB_usStatus (K_tcb k t), VutexWakeIsAll t k, TCB_ucWaitTimeout (K_tcb k t))"

definition vutex_woken :: "kernel \<Rightarrow> tid \<Rightarrow> u32 \<Rightarrow> u16 \<times> bool \<times> u8" where
  "vutex_woken k t fl = ((TCB_usStatus (K_tcb k t) AND NOT LW_THREAD_STATUS_DELAY) AND NOT LW_THREAD_STATUS_VUTEX,
     fl AND LW_OPTION_VUTEX_FLAG_WAKEALL \<noteq> 0, TCB_ucWaitTimeout (K_tcb k t))"

lemma sys_ok_cursor: "sys_ok T (k\<lparr>k_plineVutexOp := m\<rparr>) = sys_ok T k"
proof -
  have "sys_ok T b" if a: "sys_ok T a" "b = a\<lparr>k_plineVutexOp := x\<rparr>" for a b x
  proof (rule sys_ok_same [OF a(1)])
    show "kern_ok T b" by (rule kern_ok_sview [OF sys_ok_kern [OF a(1)]]) (simp_all add: a(2) rdyset_def LW_THREAD_IS_READY_def)
  qed (simp_all add: a(2) okern_def dline_def)
  from this [of "k\<lparr>k_plineVutexOp := m\<rparr>" k "k_plineVutexOp k"] this [of k _ m] show ?thesis by auto
qed

interpretation vxs: wake_sweep "sys_ok T" "\<lambda>k. k_plineVutexHashHeader k h" "\<lambda>k t. vutex_match p v fl (TCB_vutex (K_tcb k t))" "vutex_wake_one h fl"
  "\<lambda>m k. k\<lparr>k_plineVutexOp := m\<rparr>" vutex_obs "\<lambda>k t. vutex_woken k t fl" for T h p v fl
proof
  fix k t
  assume ok: "sys_ok T k" and t: "t \<in> set (k_plineVutexHashHeader k h)"
  have e: "vutex_in k t h" using oth_okD(4) [of T k t h] ok t by (simp add: sys_ok_def)
  note R = vutex_wake_one_ok [OF ok e, where fl = fl]
  show "sys_ok T (vutex_wake_one h fl t k)" by (rule R)
  show "k_plineVutexHashHeader (vutex_wake_one h fl t k) h = remove1 t (k_plineVutexHashHeader k h)" using R(2) [of h] by simp
  show "vutex_obs (vutex_wake_one h fl t k) u = (if u = t then vutex_woken k t fl else vutex_obs k u)" for u
    using R(3) [of u] R(4) R(5) [of u] R(6) [of u] by (simp add: vutex_obs_def vutex_woken_def VutexWakeIsAll_def)
  show "vutex_match p v fl (TCB_vutex (K_tcb (vutex_wake_one h fl t k) u)) = vutex_match p v fl (TCB_vutex (K_tcb k u)) \<and>
    vutex_woken (vutex_wake_one h fl t k) u fl = vutex_woken k u fl" if "u \<noteq> t" for u
    using R(3) [of u] R(5) [of u] R(6) [OF that] that by (simp add: vutex_woken_def)
qed (auto simp: sys_ok_def sys_ok_cursor [unfolded sys_ok_def] vutex_obs_def vutex_woken_def VutexWakeIsAll_def fun_eq_iff dest: oth_okD(3))

lemma vutex_wake_scan_sweep: "snd (vutex_wake_scan p h v fl ts k) = vxs.sweep p v fl h ts k"
proof (induction ts arbitrary: k)
  case (Cons t ts)
  show ?case using Cons [symmetric] by (simp add: Let_def split_beta)
qed simp

lemma vutex_wake_scan_count:
  assumes "sys_ok T k" and "distinct ts" and "set ts \<subseteq> set (k_plineVutexHashHeader k h)"
  shows "fst (vutex_wake_scan p h v fl ts k) = int (length (filter (\<lambda>t. vutex_match p v fl (TCB_vutex (K_tcb k t))) ts))"
  using assms
proof (induction ts arbitrary: k)
  case (Cons t ts)
  let ?k = "k\<lparr>k_plineVutexOp := head_of ts\<rparr>" and ?m = "\<lambda>k t. vutex_match p v fl (TCB_vutex (K_tcb k t))"
  have p: "sys_ok T ?k" "t \<in> set (k_plineVutexHashHeader ?k h)" "set ts \<subseteq> set (k_plineVutexHashHeader ?k h)" "distinct ts" "t \<notin> set ts"
    using Cons.prems by (simp_all add: sys_ok_cursor)
  show ?case
  proof (cases "?m k t")
    case True
    then have m: "?m ?k t" by simp
    note W = vxs.wake_ok [OF p(1,2) m] vxs.wake_waiting [OF p(1,2) m] vxs.wake_others [OF p(1,2) m]
    have "set ts \<subseteq> set (k_plineVutexHashHeader (vutex_wake_one h fl t ?k) h)" using p vxs.waiting_distinct [OF p(1), of h] by (auto simp: W(2))
    note IH = Cons.IH [OF W(1) p(4) this]
    have "?m (vutex_wake_one h fl t ?k) u = ?m k u" if "u \<in> set ts" for u
    proof -
      have "u \<noteq> t" using that p(5) by blast
      from conjunct1 [OF W(3) [OF this]] show ?thesis by simp
    qed
    then have "filter (?m (vutex_wake_one h fl t ?k)) ts = filter (?m k) ts" by (intro filter_cong) simp_all
    then show ?thesis using IH True by (simp add: Let_def split_beta)
  qed (use Cons.IH [OF p(1,4,3)] in \<open>simp add: Let_def\<close>)
qed simp

lemma VutexWakeQueue_ok:
  assumes ok: "sys_ok T k"
  obtains n k' where "VutexWakeQueue p v fl k = (n, k')" "sys_ok T k'"
    "k_plineVutexHashHeader k' (VutexHash p) = filter (\<lambda>t. \<not> vutex_match p v fl (TCB_vutex (K_tcb k t))) (k_plineVutexHashHeader k (VutexHash p))"
    "n = int (length (filter (\<lambda>t. vutex_match p v fl (TCB_vutex (K_tcb k t))) (k_plineVutexHashHeader k (VutexHash p))))"
    "\<And>t. vutex_obs k' t = (if t \<in> set (k_plineVutexHashHeader k (VutexHash p)) \<and> vutex_match p v fl (TCB_vutex (K_tcb k t))
       then vutex_woken k t fl else vutex_obs k t)"
proof -
  let ?l = "k_plineVutexHashHeader k (VutexHash p)"
  obtain n k' where S: "vutex_wake_scan p (VutexHash p) v fl ?l k = (n, k')" by fastforce
  have k': "vxs.sweep p v fl (VutexHash p) ?l k = k'" using vutex_wake_scan_sweep [of p "VutexHash p" v fl ?l k] S by simp
  note P = vxs.sweep_waiting [OF ok, where h = "VutexHash p" and p = p and v = v and fl = fl, unfolded k']
  have "n = int (length (filter (\<lambda>t. vutex_match p v fl (TCB_vutex (K_tcb k t))) ?l))"
    using vutex_wake_scan_count [OF ok vxs.waiting_distinct [OF ok] subset_refl] S by (metis fst_conv)
  then show thesis using that [of n k'] S P by (simp add: VutexWakeQueue_def Let_def)
qed

text \<open>The variables themselves are not touched.\<close>

lemma erase_mem: "erase k' = erase k \<Longrightarrow> K_mem k' = K_mem k"
proof -
  assume "erase k' = erase k"
  from arg_cong [OF this, of K_mem] show ?thesis by (simp add: erase_def)
qed

lemma VutexWakeQueue_mem: "VutexWakeQueue p v fl k = (n, k') \<Longrightarrow> K_mem k' = K_mem k"
proof -
  have o: "K_mem (vutex_wake_one h fl t k) = K_mem k" for h t k
    by (simp add: vutex_wake_one_def Let_def vutex_upd_def vutex_line_def erase_mem [OF erase_ADD] DEL_FROM_WAKEUP_LINE_def put_delay_def split: prod.splits)
  have "K_mem (snd (vutex_wake_scan p h v fl ts k)) = K_mem k" for h ts k
    by (induction ts arbitrary: k) (simp_all add: Let_def split_beta o)
  from this [of "VutexHash p" "k_plineVutexHashHeader k (VutexHash p)" k] show "VutexWakeQueue p v fl k = (n, k') \<Longrightarrow> K_mem k' = K_mem k"
    by (simp add: VutexWakeQueue_def Let_def)
qed

end
