(* ===== verification/ThreadCalls.thy ===== *)
theory ThreadCalls
  imports SysOps
begin

text \<open>
  The calls on threads keep the invariant of the system: setting a priority, the tick of the time
  slices, resuming, waking, going to sleep, and asking a thread to stop. A call is its body in a section of the kernel; the frame is treated
  once.
\<close>

section \<open>Changes the waits do not see\<close>

lemma sys_ok_cong:
  assumes ok: "sys_ok T k" and K: "kern_ok T k'"
    and v: "\<And>u. rview (K_tcb k' u) = rview (K_tcb k u)" "\<And>u. oview (K_tcb k' u) = oview (K_tcb k u)" "\<And>u. wview (K_tcb k' u) = wview (K_tcb k u)"
      "\<And>u. TCB_ulDelay (K_tcb k' u) = TCB_ulDelay (K_tcb k u)" "\<And>u. TCB_bDelayInQ (K_tcb k' u) = TCB_bDelayInQ (K_tcb k u)"
      "\<And>u. delayed k' u = delayed k u"
    and f: "K_wuDelay k' = K_wuDelay k" "K_eventBuffer k' = K_eventBuffer k" "K_ncpus k' = K_ncpus k" "K_esBuffer k' = K_esBuffer k"
      "k_plineVutexHashHeader k' = k_plineVutexHashHeader k"
  shows "sys_ok T k'"
proof -
  have S: "delay_ok k" "wait_ok T k" "req_ok T k" "oth_ok T k" "T \<subseteq> {..<LW_CFG_MAX_THREADS}"
    using ok by (simp_all add: sys_ok_def ipc_ok_def)
  have l: "dline k' = dline k" by (simp add: dline_def f)
  have "delay_nodes k' = delay_nodes k" by (simp add: delay_nodes_def v fun_eq_iff)
  then have "delay_ok k'" using S(1) by (simp add: delay_ok_def l f v)
  moreover have "wait_ok T k'" by (rule wait_ok_cong [OF S(2)]) (simp_all add: v by_prio_def wq_def f)
  moreover have "req_ok T k'" by (rule req_ok_cong [OF S(3)]) (simp_all add: v f)
  moreover have "oth_ok T k'" by (rule oth_ok_cong [OF S(4)]) (simp_all add: v f l oth_okD(12) [OF S(4)])
  ultimately show ?thesis using K S(5) by (simp add: sys_ok_def ipc_ok_def)
qed

lemma set_rot_sel [simp]:
  "K_tcb (set_rot c v k) = K_tcb k" "K_wuDelay (set_rot c v k) = K_wuDelay k" "K_eventBuffer (set_rot c v k) = K_eventBuffer k"
  "K_ncpus (set_rot c v k) = K_ncpus k" "K_esBuffer (set_rot c v k) = K_esBuffer k" "k_plineVutexHashHeader (set_rot c v k) = k_plineVutexHashHeader k"
  by (simp_all add: set_rot_def)

lemma SchedSetPrio_sys:
  assumes ok: "sys_ok T k" and t: "t \<in> T" "K_ncpus k \<le> t"
  shows "sys_ok T (SchedSetPrio t p k)"
proof (rule sys_ok_cong [OF ok SchedSetPrio_ok [OF sys_ok_kern [OF ok] t]])
  have v: "rview (b\<lparr>TCB_ucPriority := p\<rparr>) = rview b" "oview (b\<lparr>TCB_ucPriority := p\<rparr>) = oview b" "wview (b\<lparr>TCB_ucPriority := p\<rparr>) = wview b" for b
    by (simp_all add: rview_def oview_def wview_def)
  show "rview (K_tcb (SchedSetPrio t p k) u) = rview (K_tcb k u)" "oview (K_tcb (SchedSetPrio t p k) u) = oview (K_tcb k u)"
    "wview (K_tcb (SchedSetPrio t p k) u) = wview (K_tcb k u)" for u by (simp_all add: SchedSetPrio_def Let_def v)
  show "delayed (SchedSetPrio t p k) u = delayed k u" for u by (simp add: SchedSetPrio_def Let_def delayed_def)
qed (simp_all add: SchedSetPrio_def Let_def)

lemma SchedYield_sys: "sys_ok T k \<Longrightarrow> sys_ok T (SchedYield t k)"
proof -
  assume ok: "sys_ok T k"
  let ?k = "tcb_upd t (\<lambda>b. b\<lparr>TCB_usSchedCounter := 0\<rparr>) k"
  have "sys_ok T ?k" by (rule sys_ok_quiet [OF ok]) (simp_all add: quiet_defs rview_def oview_def)
  then have "sys_ok T (set_rot c True ?k)" for c unfolding set_rot_def by (rule sys_ok_cpu) simp_all
  then show ?thesis using ok by (simp add: SchedYield_def Let_def)
qed

lemma sched_tick_cpu_sys:
  assumes ok: "sys_ok T k"
  shows "sys_ok T (sched_tick_cpu i k)"
proof -
  have "sys_ok T (tcb_upd t (\<lambda>b. b\<lparr>TCB_usSchedCounter := TCB_usSchedCounter b - 1\<rparr>) k)" for t
    by (rule sys_ok_quiet [OF ok]) (simp_all add: quiet_defs rview_def oview_def)
  moreover have "sys_ok T (set_rot c True k)" for c unfolding set_rot_def by (rule sys_ok_cpu [OF ok]) simp_all
  ultimately show ?thesis using ok by (simp add: sched_tick_cpu_def Let_def)
qed

lemma SchedTick_sys: "sys_ok T k \<Longrightarrow> sys_ok T (SchedTick k)"
proof -
  have "sys_ok T (fold sched_tick_cpu xs k)" if "sys_ok T k" for xs
    using that by (induction xs arbitrary: k) (simp_all add: sched_tick_cpu_sys)
  then show "sys_ok T k \<Longrightarrow> sys_ok T (SchedTick k)" by (simp add: SchedTick_def)
qed

section \<open>Resuming and waking\<close>

lemma sys_ok_make_ready:
  assumes ok: "sys_ok T k" and t: "t \<in> T" "\<not> LW_THREAD_IS_READY k t" and q: "quiet f" and v: "\<And>b. rview (f b) = rview b" "\<And>b. oview (f b) = oview b"
  shows "sys_ok T (make_ready t a (tcb_upd t f k))"
  by (rule sys_ok_thread [OF ok]) (simp_all add: base_ok_make_ready [OF _ t q v(1)] okern_tcb v(2))

lemma thread_resume_sys:
  assumes ok: "sys_ok T k" and t: "t \<in> T" and s: "TCB_ulSuspendNesting (K_tcb k t) \<noteq> 0 \<Longrightarrow> TCB_usStatus (K_tcb k t) AND LW_THREAD_STATUS_SUSPEND \<noteq> 0"
  shows "sys_ok T (snd (thread_resume t k))" "sys_ok T (snd (thread_force_resume t k))"
proof -
  let ?f = "\<lambda>b :: tcb. b\<lparr>TCB_ulSuspendNesting := TCB_ulSuspendNesting b - 1\<rparr>"
  let ?g = "\<lambda>n. \<lambda>b :: tcb. b\<lparr>TCB_ulSuspendNesting := n b, TCB_usStatus := TCB_usStatus b AND NOT LW_THREAD_STATUS_SUSPEND\<rparr>"
  have 1: "sys_ok T (tcb_upd t ?f k)" by (rule sys_ok_quiet [OF ok]) (simp_all add: quiet_defs rview_def oview_def)
  have 2: "sys_ok T (make_ready t a (tcb_upd t (?g n) k))" if "TCB_ulSuspendNesting (K_tcb k t) \<noteq> 0" for a n
  proof -
    have "\<not> LW_THREAD_IS_READY k t" using s [OF that] by (auto simp: LW_THREAD_IS_READY_def)
    then show ?thesis by (rule sys_ok_make_ready [OF ok t]) (simp_all add: quiet_defs rview_def oview_def and.assoc)
  qed
  show "sys_ok T (snd (thread_resume t k))" using ok 1 2 [where n = "\<lambda>b. TCB_ulSuspendNesting b - 1"]
    by (simp add: thread_resume_def Let_def tcb_upd_upd)
  show "sys_ok T (snd (thread_force_resume t k))" using ok 2 [where n = "\<lambda>_. 0"]
    by (simp add: thread_force_resume_def Let_def tcb_upd_upd)
qed

lemma wview_delay [simp]: "wview (b\<lparr>TCB_ulDelay := d\<rparr>) = wview b"
  by (simp add: wview_def)

lemma leave_keeps:
  fixes t :: tid
  assumes ok: "sys_ok T k"
  defines "k' \<equiv> leave_wakeup_line t k"
  shows "delay_ok k'" "wait_ok T k'" "req_ok T k'" "oth_ok T k'" "same_sched k k'" "K_ncpus k' = K_ncpus k"
proof -
  have S: "delay_ok k" "wait_ok T k" "req_ok T k" "oth_ok T k" using ok by (simp_all add: sys_ok_def ipc_ok_def)
  show "delay_ok k'" using leave_ok(1) [OF S(1)] by (simp add: k'_def)
  have v: "rview (K_tcb k' u) = rview (K_tcb k u)" "oview (K_tcb k' u) = oview (K_tcb k u)" "wview (K_tcb k' u) = wview (K_tcb k u)" for u
    by (simp_all add: k'_def leave_eq)
  have f: "K_eventBuffer k' = K_eventBuffer k" "K_esBuffer k' = K_esBuffer k" "k_plineVutexHashHeader k' = k_plineVutexHashHeader k" "K_ncpus k' = K_ncpus k"
    by (simp_all add: k'_def leave_eq)
  show "K_ncpus k' = K_ncpus k" by (rule f)
  show "wait_ok T k'" by (rule wait_ok_cong [OF S(2)]) (simp_all add: v by_prio_def wq_def f)
  show "req_ok T k'" by (rule req_ok_cong [OF S(3)]) (simp_all add: v f)
  have "set (dline k') \<subseteq> T" using oth_okD(12) [OF S(4)] set_remove1_subset [of t "dline k"] leave_ok(2) [OF S(1), of t] by (auto simp: k'_def)
  then show "oth_ok T k'" by (intro oth_ok_cong [OF S(4)]) (simp_all add: v f)
  show "same_sched k k'" by (simp add: same_sched_def k'_def leave_eq tview_def)
qed

lemma thread_wakeup_sys:
  assumes ok: "sys_ok T k" and t: "t \<in> T"
  shows "sys_ok T (snd (thread_wakeup b t k))"
proof (cases "LW_THREAD_IS_READY k t \<or> \<not> b \<and> TCB_usStatus (K_tcb k t) AND LW_THREAD_STATUS_DELAY = 0")
  case True
  then show ?thesis using ok by (auto simp: thread_wakeup_def)
next
  case False
  then have nr: "\<not> LW_THREAD_IS_READY k t" by blast
  let ?k1 = "leave_wakeup_line t k"
  define k2 where "k2 = (if TCB_usStatus (K_tcb ?k1 t) AND LW_THREAD_STATUS_PEND_ANY \<noteq> 0 then unpend t ?k1 else ?k1)"
  note L = leave_keeps [OF ok, where t = t]
  note U = unpend_ok [OF L(2,4)] and E = unpend_eq [OF L(2,4)]
  have s: "TCB_usStatus (K_tcb k2 u) = TCB_usStatus (K_tcb k u)" if "u \<noteq> t" for u
  proof -
    have "TCB_usStatus (K_tcb ?k1 u) = TCB_usStatus (K_tcb k u)" using that by (simp add: leave_eq)
    then show ?thesis using that by (simp add: k2_def E)
  qed
  have "req_ok T (unpend t ?k1)"
    by (rule req_ok_cong [OF L(3)]) (simp_all add: E unpend_tcb_def and.assoc)
  then have "sys_ok T (make_ready t LW_SCHED_ACT_OTHER k2)"
    using L U(1,3,5) same_sched_trans [OF L(5) U(4)] by (intro sys_ok_ready [OF ok t nr _ s]) (simp_all add: k2_def)
  then show ?thesis using False by (auto simp: thread_wakeup_def Let_def k2_def)
qed

section \<open>Going to sleep\<close>

lemma sleep_enter_sys:
  assumes ok: "sys_ok T k" and c: "c \<in> T" "K_ncpus k \<le> c" "LW_THREAD_IS_READY k c"
  shows "sys_ok T (sleep_enter c n k)"
proof -
  define k0 where "k0 = kernelEnterIrq k"
  have ok0: "sys_ok T k0" unfolding k0_def kernelEnterIrq_def by (rule sys_ok_cpu [OF ok]) simp_all
  have c0: "K_ncpus k0 \<le> c" "LW_THREAD_IS_READY k0 c" using c by (simp_all add: k0_def kernelEnterIrq_def LW_THREAD_IS_READY_def)
  have S: "kern_ok T k0" "delay_ok k0" "oth_ok T k0" using ok0 by (simp_all add: sys_ok_def ipc_ok_def)
  have z: "TCB_usStatus (K_tcb k0 c) = 0" using c0(2) by (simp add: LW_THREAD_IS_READY_def)
  have no: "TCB_pesnPtr (K_tcb k0 c) = None" "VUTEX_phyaddr (TCB_vutex (K_tcb k0 c)) = None"
    using oth_ok_ready [OF S(3) c0(2)] by (simp_all add: oview_none)
  let ?f = "\<lambda>b :: tcb. b\<lparr>TCB_ulDelay := n\<rparr>"
  define k1 where "k1 = DEL_FROM_READY_RING c (GetPcb k0 c) k0"
  define k2 where "k2 = tcb_upd c ?f k1"
  define k3 where "k3 = ADD_TO_WAKEUP_LINE c k2"
  have E: "sleep_enter c n k = k3" by (simp add: sleep_enter_def Let_def k3_def k2_def k1_def k0_def)
  have d1: "delay_ok k1" using S(2) delay_ok_erase(1) [OF erase_DEL] by (simp add: k1_def)
  have "\<not> delayed k1 c" by (simp add: k1_def delayed_def z)
  then have d2: "delay_ok k2" "\<not> delayed k2 c" using delay_ok_off(1) [where f = ?f and t = c, OF d1] by (simp_all add: k2_def delayed_def)
  have d3: "delay_ok k3" unfolding k3_def by (rule ADD_TO_WAKEUP_LINE_spec(1) [OF d2])
  have s: "TCB_usStatus (K_tcb k3 u) = (if u = c then LW_THREAD_STATUS_DELAY else TCB_usStatus (K_tcb k0 u))" for u
    by (simp add: k3_def k2_def k1_def z)
  have "sched_ok (rdyset T k0 - {c}) k1"
    unfolding k1_def using S(1) c(1) c0 by (intro sched_ok_del) (simp_all add: kern_ok_def rdyset_def)
  moreover have "rdyset T k3 = rdyset T k0 - {c}" by (auto simp: rdyset_def LW_THREAD_IS_READY_def s split: if_splits)
  ultimately have K: "kern_ok T k3"
    unfolding kern_ok_def by (simp only:) (elim sched_ok_sview, simp_all add: k3_def k2_def tview_def)
  have W: "wait_ok T k0" "req_ok T k0" "T \<subseteq> {..<LW_CFG_MAX_THREADS}" using ok0 by (simp_all add: sys_ok_def ipc_ok_def)
  have f: "K_eventBuffer k3 = K_eventBuffer k0" "K_esBuffer k3 = K_esBuffer k0" "k_plineVutexHashHeader k3 = k_plineVutexHashHeader k0"
    "K_ncpus k3 = K_ncpus k0" "TCB_peventPtr (K_tcb k3 c) = TCB_peventPtr (K_tcb k0 c)" by (simp_all add: k3_def k2_def k1_def)
  have np: "TCB_peventPtr (K_tcb k0 c) = None"
    using wait_okD(4) [OF W(1), of c] pending_not_ready c0(2) by (cases "TCB_peventPtr (K_tcb k0 c)") auto
  have "wait_ok T k3"
    by (rule wait_ok_free [OF W(1) _ _ _ np, of k3]) (simp_all add: by_prio_def wq_def f fun_eq_iff np, simp add: k3_def k2_def k1_def)
  moreover have "req_ok T k3" by (rule req_ok_cong [OF W(2)]) (simp_all add: k3_def k2_def k1_def or_bits)
  moreover have "u \<in> set (dline k3) \<Longrightarrow> u = c \<or> u \<in> set (dline k0)" for u
    using S(2) d3 s [of u] by (cases "u = c") (simp_all add: delay_ok_def delayed_def)
  then have "set (dline k3) \<subseteq> T" using oth_okD(12) [OF S(3)] c(1) by auto
  then have "oth_ok T k3"
  proof (rule oth_ok_cong [OF S(3), rotated -1])
    show "oview (K_tcb k3 u) = oview (K_tcb k0 u)" for u by (cases "u = c") (simp_all add: oview_def no k3_def k2_def k1_def)
  qed (simp_all add: f)
  ultimately show ?thesis using K d3 W(3) by (simp add: E sys_ok_def ipc_ok_def)
qed

end
