(* ===== verification/Steps.thy ===== *)
theory Steps
  imports EventSetInv VutexInv ThreadCalls
begin

text \<open>
  The system as a transition system: in any order, the processors enter the kernel, block and wake
  threads on every kind of object, take ticks, sleep, change the status and the priorities of threads
  and switch. Every step keeps the invariant of the system, so it holds in every reachable state.
  The bodies of the mutexes, the read-write semaphores and the message queues are interleaved with
  these steps by the relations \<open>mx_step\<close>, \<open>rw_step\<close> and \<open>mq_step\<close> of their own theories.
\<close>

section \<open>The steps\<close>

text \<open>The thread that runs on the processor that acts, and may block.\<close>

definition running :: "tid set \<Rightarrow> kernel \<Rightarrow> tid \<Rightarrow> bool" where
  "running T k c \<longleftrightarrow> LW_TCB_GET_CUR k = c \<and> c \<in> T \<and> K_ncpus k \<le> c \<and> LW_THREAD_IS_READY k c"

definition sched_switch :: "nat \<Rightarrow> kernel \<Rightarrow> kernel" where
  "sched_switch i k = (let (t, k) = SchedGetCand i 1 k in
     SchedSwp i (cpu_upd i (\<lambda>p. p\<lparr>CPU_bIsIntSwitch := False, CPU_ptcbTCBHigh := t\<rparr>) k))"

text \<open>
  The resuming calls look at the nesting of the suspensions only; that a thread with a nesting has
  the suspended bit is what the code that counts the nesting sets up, and a condition of the step.
\<close>

inductive sys_step :: "tid set \<Rightarrow> kernel \<Rightarrow> kernel \<Rightarrow> bool" for T :: "tid set" where
  Cpu: "i < K_ncpus k \<Longrightarrow> sys_step T k (k\<lparr>K_curcpu := i\<rparr>)"
| Enter: "sys_step T k (kernelEnter k)"
| Switch: "i < K_ncpus k \<Longrightarrow> CPU_bActive (K_cpu k i) \<Longrightarrow> sys_step T k (sched_switch i k)"
| EventBlock: "running T k c \<Longrightarrow> ty = LW_THREAD_STATUS_SEM \<or> ty = LW_THREAD_STATUS_MSGQUEUE \<Longrightarrow> sys_step T k (ev_block e q ty to k)"
| EventWake: "waiters k e q \<noteq> [] \<Longrightarrow> ty = LW_THREAD_STATUS_SEM \<or> ty = LW_THREAD_STATUS_MSGQUEUE \<Longrightarrow> sys_step T k (snd (ev_wake e q msg d ty a k))"
| EventCount: "sys_step T k (set_counter e v k)"
| SetBlock: "running T k c \<Longrightarrow> sys_step T k (EventSetBlock s ev wt to k)"
| SetFlags: "es_set ev op s k = (r, u, k') \<Longrightarrow> sys_step T k k'"
| SetDelete: "es_delete s k = (r, h, k') \<Longrightarrow> sys_step T k k'"
| VutexBlock: "running T k c \<Longrightarrow> sys_step T k (vutex_block c p dv cmp to k)"
| VutexWake: "VutexWakeQueue p v fl k = (n, k') \<Longrightarrow> sys_step T k k'"
| Tick: "thread_tick k = Some k' \<Longrightarrow> sys_step T k k'"
| Request: "running T k c \<Longrightarrow> t \<in> T \<Longrightarrow> K_ncpus k \<le> t \<Longrightarrow> req \<in> {LW_TCB_REQ_SUSPEND, LW_TCB_REQ_STOP, LW_TCB_REQ_WDEATH} \<Longrightarrow>
    sys_step T k (snd (ThreadStatusChange t req k))"
| Serve: "sys_step T k (ThreadStatusChangeCur i k)"
| Resume: "t \<in> T \<Longrightarrow> (TCB_ulSuspendNesting (K_tcb k t) \<noteq> 0 \<Longrightarrow> TCB_usStatus (K_tcb k t) AND LW_THREAD_STATUS_SUSPEND \<noteq> 0) \<Longrightarrow>
    thread_resume t k = (r, k') \<Longrightarrow> sys_step T k k'"
| ForceResume: "t \<in> T \<Longrightarrow> (TCB_ulSuspendNesting (K_tcb k t) \<noteq> 0 \<Longrightarrow> TCB_usStatus (K_tcb k t) AND LW_THREAD_STATUS_SUSPEND \<noteq> 0) \<Longrightarrow>
    thread_force_resume t k = (r, k') \<Longrightarrow> sys_step T k k'"
| Continue: "t \<in> T \<Longrightarrow> sys_step T k (snd (ThreadContinue t b k))"
| Wakeup: "t \<in> T \<Longrightarrow> thread_wakeup b t k = (r, k') \<Longrightarrow> sys_step T k k'"
| Priority: "t \<in> T \<Longrightarrow> K_ncpus k \<le> t \<Longrightarrow> sys_step T k (SchedSetPrio t pr k)"
| Yield: "sys_step T k (SchedYield t k)"
| Slice: "sys_step T k (SchedTick k)"
| Sleep: "running T k c \<Longrightarrow> sys_step T k (sleep_enter c n k)"

section \<open>The invariant\<close>

lemma sys_ok_curcpu: "sys_ok T k \<Longrightarrow> sys_ok T (k\<lparr>K_curcpu := i\<rparr>)"
proof (rule sys_ok_same)
  assume ok: "sys_ok T k"
  show "kern_ok T (k\<lparr>K_curcpu := i\<rparr>)" by (rule kern_ok_sview [OF sys_ok_kern [OF ok]])
    (auto simp: rdyset_def LW_THREAD_IS_READY_def sview_def rdy_pcbbmap_def LW_CAND_TCB_def fun_eq_iff split: option.splits)
qed (simp_all add: okern_def dline_def)

lemma sys_ok_switch:
  assumes "sys_ok T k" and "i < K_ncpus k" and "CPU_bActive (K_cpu k i)"
  shows "sys_ok T (sched_switch i k)"
  unfolding sched_switch_def Let_def split_beta
  by (intro sys_ok_swp sys_ok_cpu SchedGetCand_sys assms) simp_all

lemma sys_ok_counter: "sys_ok T k \<Longrightarrow> sys_ok T (set_counter e v k)"
proof (rule sys_ok_thread [of T k])
  show "okern (set_counter e v k) = okern k" by (simp add: set_counter_def)
  show "base_ok T (set_counter e v k)" if "base_ok T k"
    using that req_ok_cong [of T k "set_counter e v k"] by (simp add: base_ok_def) (simp add: set_counter_def)
qed

lemma runningD: "running T k c \<Longrightarrow> LW_TCB_GET_CUR k = c" "running T k c \<Longrightarrow> c \<in> T" "running T k c \<Longrightarrow> K_ncpus k \<le> c"
    "running T k c \<Longrightarrow> LW_THREAD_IS_READY k c"
  by (simp_all add: running_def)

theorem sys_step_ok: "sys_step T k k' \<Longrightarrow> sys_ok T k \<Longrightarrow> sys_ok T k'"
proof (induction rule: sys_step.induct)
  case (Cpu i k)
  show ?case by (rule sys_ok_curcpu [OF Cpu.prems])
next
  case (Enter k)
  show ?case unfolding kernelEnter_def by (rule sys_ok_cpu [OF Enter.prems]) simp_all
next
  case (Switch i k)
  then show ?case by (intro sys_ok_switch)
next
  case (EventBlock k c ty e q to)
  show ?case using ev_block_sys [OF EventBlock.prems runningD [OF EventBlock.hyps(1)], where ty = ty and e = e and q = q and to = to]
      EventBlock.hyps(2) by auto
next
  case (EventWake k e q ty msg d a)
  from EventWake.hyps(1) obtain t ts where w: "waiters k e q = t # ts" by (cases "waiters k e q") auto
  show ?case using ev_wake_sys [OF EventWake.prems w, where ty = ty and msg = msg and d = d and a = a] EventWake.hyps(2) by auto
next
  case (EventCount k e v)
  show ?case by (rule sys_ok_counter [OF EventCount.prems])
next
  case (SetBlock k c s ev wt to)
  show ?case by (rule EventSetBlock_sys [OF SetBlock.prems runningD [OF SetBlock.hyps]])
next
  case (SetFlags ev op s k r u k')
  show ?case
  proof (cases "op = LW_OPTION_EVENTSET_SET \<or> op = LW_OPTION_EVENTSET_CLR")
    case True
    from es_set_ok [OF SetFlags.prems True refl, of ev s] SetFlags.hyps show ?thesis by (metis prod.inject)
  qed (use SetFlags in \<open>auto simp: es_set_def\<close>)
next
  case (SetDelete s k r h k')
  from es_delete_ok [OF SetDelete.prems, of s] SetDelete.hyps show ?case by (metis prod.inject)
next
  case (VutexBlock k c p dv cmp to)
  show ?case by (rule vutex_block_sys [OF VutexBlock.prems runningD(2-4) [OF VutexBlock.hyps]])
next
  case (VutexWake p v fl k n k')
  from VutexWakeQueue_ok [OF VutexWake.prems, of p v fl] VutexWake.hyps show ?case by (metis prod.inject)
next
  case (Tick k k')
  from thread_tick_ok [OF Tick.prems] Tick.hyps show ?case by (metis option.inject passedD(1))
next
  case (Request k c t req)
  show ?case by (rule sys_ok_thread [OF Request.prems ThreadStatusChange_ok(1)])
    (use Request.hyps runningD [OF Request.hyps(1)] in simp_all)
next
  case (Serve k i)
  show ?case by (rule sys_ok_thread [OF Serve.prems ThreadStatusChangeCur_ok]) simp_all
next
  case (Resume t k r k')
  show ?case using thread_resume_sys(1) [OF Resume.prems Resume.hyps(1,2)] Resume.hyps(3) by simp
next
  case (ForceResume t k r k')
  show ?case using thread_resume_sys(2) [OF ForceResume.prems ForceResume.hyps(1,2)] ForceResume.hyps(3) by simp
next
  case (Continue t k b)
  show ?case by (rule sys_ok_thread [OF Continue.prems ThreadContinue_ok]) (use Continue.hyps in simp_all)
next
  case (Wakeup t b k r k')
  show ?case using thread_wakeup_sys [OF Wakeup.prems Wakeup.hyps(1), of b] Wakeup.hyps(2) by simp
next
  case (Priority t k pr)
  show ?case by (rule SchedSetPrio_sys [OF Priority.prems Priority.hyps])
next
  case (Yield k t)
  show ?case by (rule SchedYield_sys [OF Yield.prems])
next
  case (Slice k)
  show ?case by (rule SchedTick_sys [OF Slice.prems])
next
  case (Sleep k c n)
  show ?case by (rule sleep_enter_sys [OF Sleep.prems runningD(2-4) [OF Sleep.hyps]])
qed

lemma sys_steps_ok: "(sys_step T)\<^sup>*\<^sup>* k k' \<Longrightarrow> sys_ok T k \<Longrightarrow> sys_ok T k'"
  by (induction rule: rtranclp_induct) (auto intro: sys_step_ok)

end
