(* ===== verification/MutexInv.thy ===== *)
theory MutexInv
  imports Mutex Steps
begin

text \<open>
  Mutexes keep the invariant of the system and their own: a mutex is free exactly when it has no
  owner, and then nobody waits for it. A waiter takes over between the two halves of waking, while the old
  owner gets its priority back; the thread that is half awake is seen as one that waits for nothing.
\<close>

section \<open>Setting a priority\<close>

lemma SetPrio_tcb:
  "erase_tcb (K_tcb (SchedSetPrio t p k) u) = erase_tcb (if u = t then (K_tcb k t)\<lparr>TCB_ucPriority := p\<rparr> else K_tcb k u)"
proof -
  have A: "erase_tcb (K_tcb (ADD_TO_READY_RING s q k') v) = erase_tcb (K_tcb k' v)" for s q k' v using erase_eqD(12) [OF erase_ADD] by blast
  have D: "erase_tcb (K_tcb (DEL_FROM_READY_RING s q k') v) = erase_tcb (K_tcb k' v)" for s q k' v using erase_eqD(12) [OF erase_DEL] by blast
  have U: "erase_tcb (b\<lparr>TCB_ucPriority := p\<rparr>) = (erase_tcb b)\<lparr>TCB_ucPriority := p\<rparr>" for b by (simp add: erase_tcb_def)
  show ?thesis by (simp add: SchedSetPrio_def Let_def A D U)
qed

lemma SetPrio_fields [simp]:
  "TCB_usStatus (K_tcb (SchedSetPrio t p k) u) = TCB_usStatus (K_tcb k u)"
  "TCB_peventPtr (K_tcb (SchedSetPrio t p k) u) = TCB_peventPtr (K_tcb k u)"
  "TCB_ucWaitTimeout (K_tcb (SchedSetPrio t p k) u) = TCB_ucWaitTimeout (K_tcb k u)"
  "TCB_ucIsEventDelete (K_tcb (SchedSetPrio t p k) u) = TCB_ucIsEventDelete (K_tcb k u)"
  "TCB_iDeleteProcStatus (K_tcb (SchedSetPrio t p k) u) = TCB_iDeleteProcStatus (K_tcb k u)"
  "TCB_plineStatusReqHeader (K_tcb (SchedSetPrio t p k) u) = TCB_plineStatusReqHeader (K_tcb k u)"
  "TCB_iPendQ (K_tcb (SchedSetPrio t p k) u) = TCB_iPendQ (K_tcb k u)"
  "TCB_ppringPriorityQueue (K_tcb (SchedSetPrio t p k) u) = TCB_ppringPriorityQueue (K_tcb k u)"
  "TCB_ulDelay (K_tcb (SchedSetPrio t p k) u) = TCB_ulDelay (K_tcb k u)" "TCB_bDelayInQ (K_tcb (SchedSetPrio t p k) u) = TCB_bDelayInQ (K_tcb k u)"
  "TCB_pesnPtr (K_tcb (SchedSetPrio t p k) u) = TCB_pesnPtr (K_tcb k u)" "TCB_vutex (K_tcb (SchedSetPrio t p k) u) = TCB_vutex (K_tcb k u)"
  "prio (SchedSetPrio t p k) u = (if u = t then p else prio k u)"
  "LW_THREAD_IS_READY (SchedSetPrio t p k) u = LW_THREAD_IS_READY k u"
proof -
  note H = erase_tcb_fields [OF SetPrio_tcb, of t p k u]
  show "TCB_usStatus (K_tcb (SchedSetPrio t p k) u) = TCB_usStatus (K_tcb k u)" using H(21) by simp
  then show "LW_THREAD_IS_READY (SchedSetPrio t p k) u = LW_THREAD_IS_READY k u" by (simp add: LW_THREAD_IS_READY_def)
  show "TCB_peventPtr (K_tcb (SchedSetPrio t p k) u) = TCB_peventPtr (K_tcb k u)" using H(8) by simp
  show "TCB_ucWaitTimeout (K_tcb (SchedSetPrio t p k) u) = TCB_ucWaitTimeout (K_tcb k u)" using H(22) by simp
  show "TCB_ucIsEventDelete (K_tcb (SchedSetPrio t p k) u) = TCB_ucIsEventDelete (K_tcb k u)" using H(23) by simp
  show "TCB_iDeleteProcStatus (K_tcb (SchedSetPrio t p k) u) = TCB_iDeleteProcStatus (K_tcb k u)" using H(25) by simp
  show "TCB_plineStatusReqHeader (K_tcb (SchedSetPrio t p k) u) = TCB_plineStatusReqHeader (K_tcb k u)" using H(13) by simp
  show "TCB_iPendQ (K_tcb (SchedSetPrio t p k) u) = TCB_iPendQ (K_tcb k u)" using H(7) by simp
  show "TCB_ppringPriorityQueue (K_tcb (SchedSetPrio t p k) u) = TCB_ppringPriorityQueue (K_tcb k u)" using H(9) by simp
  show "TCB_ulDelay (K_tcb (SchedSetPrio t p k) u) = TCB_ulDelay (K_tcb k u)" using H(5) by simp
  show "TCB_bDelayInQ (K_tcb (SchedSetPrio t p k) u) = TCB_bDelayInQ (K_tcb k u)" using H(6) by simp
  show "TCB_pesnPtr (K_tcb (SchedSetPrio t p k) u) = TCB_pesnPtr (K_tcb k u)" using H(27) by simp
  show "TCB_vutex (K_tcb (SchedSetPrio t p k) u) = TCB_vutex (K_tcb k u)" using H(29) by simp
  show "prio (SchedSetPrio t p k) u = (if u = t then p else prio k u)" using H(20) by (simp add: prio_def)
qed

lemma SetPrio_frame [simp]:
  "K_eventBuffer (SchedSetPrio t p k) = K_eventBuffer k" "K_ncpus (SchedSetPrio t p k) = K_ncpus k"
  "K_curcpu (SchedSetPrio t p k) = K_curcpu k" "K_wuDelay (SchedSetPrio t p k) = K_wuDelay k"
  "K_i64KernelTime (SchedSetPrio t p k) = K_i64KernelTime k" "K_esBuffer (SchedSetPrio t p k) = K_esBuffer k"
  "K_resrcEvent (SchedSetPrio t p k) = K_resrcEvent k"
  "k_plineVutexHashHeader (SchedSetPrio t p k) = k_plineVutexHashHeader k"
  "CPU_ptcbTCBCur (K_cpu (SchedSetPrio t p k) c) = CPU_ptcbTCBCur (K_cpu k c)"
  "CPU_iKernelCounter (K_cpu (SchedSetPrio t p k) c) = CPU_iKernelCounter (K_cpu k c)"
  "CPU_bActive (K_cpu (SchedSetPrio t p k) c) = CPU_bActive (K_cpu k c)"
  "CPU_ulInterNesting (K_cpu (SchedSetPrio t p k) c) = CPU_ulInterNesting (K_cpu k c)"
  by (simp_all add: SchedSetPrio_def Let_def set_rot_def)

lemma SetPrio_waits [simp]:
  "waiters (SchedSetPrio t p k) = waiters k" "wq (SchedSetPrio t p k) = wq k" "by_prio (SchedSetPrio t p k) = by_prio k"
  "LW_TCB_GET_CUR (SchedSetPrio t p k) = LW_TCB_GET_CUR k" "EventWaitNum q e (SchedSetPrio t p k) = EventWaitNum q e k"
proof -
  show q: "wq (SchedSetPrio t p k) = wq k" "by_prio (SchedSetPrio t p k) = by_prio k" by (simp_all add: wq_def by_prio_def fun_eq_iff)
  then show "waiters (SchedSetPrio t p k) = waiters k" by (simp add: waiters_def fun_eq_iff)
qed (simp_all add: LW_TCB_GET_CUR_def EventWaitNum_def)

section \<open>A thread that is half awake\<close>

definition off :: "tid \<Rightarrow> kernel \<Rightarrow> kernel" where
  "off t = tcb_upd t (\<lambda>b. b\<lparr>TCB_peventPtr := None\<rparr>)"

lemma kern_ok_off: "kern_ok T (off t k) = kern_ok T k"
proof -
  have "kern_ok T (tcb_upd t (\<lambda>b. b\<lparr>TCB_peventPtr := x\<rparr>) k')" if "kern_ok T k'" for x k'
    by (rule kern_ok_tcb [OF that]) (simp_all add: tview_def)
  moreover have "tcb_upd t (\<lambda>b. b\<lparr>TCB_peventPtr := TCB_peventPtr (K_tcb k t)\<rparr>) (off t k) = k" by (simp add: off_def tcb_upd_def)
  ultimately show ?thesis unfolding off_def by metis
qed

lemma sys_ok_event:
  assumes ok: "sys_ok T k" and f: "\<And>v. EVENT_ulOption (f v) = EVENT_ulOption v" "\<And>v. EVENT_wqWaitQ (f v) = EVENT_wqWaitQ v"
  shows "sys_ok T (event_upd e f k)"
proof (rule sys_ok_thread [OF ok])
  show "base_ok T (event_upd e f k)" if "base_ok T k"
    using that ipc_ok_event [of T k f, OF _ f] req_ok_cong [of T k "event_upd e f k"] by (simp add: base_ok_def)
qed (simp add: okern_def dline_def)

lemma half_prio:
  assumes ok: "sys_ok T (off t k)" and c: "c \<in> T" "K_ncpus k \<le> c"
  shows "sys_ok T (off t (SchedSetPrio c p k))"
proof (rule sys_ok_cong [OF ok])
  show "kern_ok T (off t (SchedSetPrio c p k))" unfolding kern_ok_off
    by (rule SchedSetPrio_ok [OF _ c]) (use sys_ok_kern [OF ok] in \<open>simp add: kern_ok_off\<close>)
  have v: "rview (b\<lparr>TCB_ucPriority := p\<rparr>) = rview b" "rview (b\<lparr>TCB_peventPtr := None\<rparr>) = rview b" for b by (simp_all add: rview_def)
  show "rview (K_tcb (off t (SchedSetPrio c p k)) u) = rview (K_tcb (off t k) u)" for u by (simp add: off_def SchedSetPrio_def Let_def v)
  show "oview (K_tcb (off t (SchedSetPrio c p k)) u) = oview (K_tcb (off t k) u)"
    "wview (K_tcb (off t (SchedSetPrio c p k)) u) = wview (K_tcb (off t k) u)" for u by (simp_all add: off_def oview_def wview_def)
  show "delayed (off t (SchedSetPrio c p k)) u = delayed (off t k) u" for u by (simp add: off_def delayed_def)
qed (simp_all add: off_def)

lemma half_event:
  assumes ok: "sys_ok T (off t k)" and f: "\<And>v. EVENT_ulOption (f v) = EVENT_ulOption v" "\<And>v. EVENT_wqWaitQ (f v) = EVENT_wqWaitQ v"
  shows "sys_ok T (off t (event_upd e f k))"
proof -
  have "off t (event_upd e f k) = event_upd e f (off t k)" by (simp add: off_def tcb_upd_def event_upd_def)
  then show ?thesis using sys_ok_event [of T "off t k" f, OF ok f] by simp
qed

text \<open>The first half of waking: the thread has left the queue and the delay line.\<close>

lemma low_half:
  assumes ok: "sys_ok T k" and w: "waiters k e q = t # ts"
  obtains k1 where "ev_ready_low e q msg k = (Some t, k1)" "sys_ok T (off t k1)"
    "\<And>e' q'. waiters k1 e' q' = (if e' = e \<and> q' = q then ts else waiters k e' q')"
    "TCB_usStatus (K_tcb k1 t) = TCB_usStatus (K_tcb k t) AND NOT LW_THREAD_STATUS_DELAY"
    "\<And>u. u \<noteq> t \<Longrightarrow> TCB_usStatus (K_tcb k1 u) = TCB_usStatus (K_tcb k u)" "\<not> LW_THREAD_IS_READY k1 t" "\<not> LW_THREAD_IS_READY k t" "t \<in> T"
    "\<And>u. TCB_ucIsEventDelete (K_tcb k1 u) = TCB_ucIsEventDelete (K_tcb k u)" "TCB_ucWaitTimeout (K_tcb k1 t) = 0"
    "K_eventBuffer k1 = K_eventBuffer (ev_wq_upd e q (wq_del_at (first_index k e q) t) k)"
    "\<And>u. prio k1 u = prio k u" "K_ncpus k1 = K_ncpus k" "oview (K_tcb k1 t) = None" "LW_TCB_GET_CUR k1 = LW_TCB_GET_CUR k"
proof -
  have i: "ipc_ok T k" and o: "oth_ok T k" using ok by (simp_all add: sys_ok_def)
  note D = wait_okD [OF ipc_okD(3) [OF i]]
  have "waits_in k t e q" using D(2) [of t e q] w by simp
  then have P: "pending k t" "TCB_ucWaitTimeout (K_tcb k t) = 0" "t \<in> T" "TCB_peventPtr (K_tcb k t) \<noteq> None" using D(4) [of t e] by (auto simp: waits_in_def)
  define k1 where "k1 = leave_wakeup_line t (tcb_upd t (\<lambda>b. b\<lparr>TCB_pvMsgBoxMessage := msg\<rparr>) (ev_wq_upd e q (wq_del_at (first_index k e q) t) k))"
  have L: "ev_ready_low e q msg k = (Some t, k1)" by (simp add: ev_ready_low_eq [OF ipc_okD(3) [OF i] w] k1_def)
  have s: "TCB_usStatus (K_tcb k1 u) = (if u = t then TCB_usStatus (K_tcb k t) AND NOT LW_THREAD_STATUS_DELAY else TCB_usStatus (K_tcb k u))"
    "TCB_ucWaitTimeout (K_tcb k1 u) = TCB_ucWaitTimeout (K_tcb k u)" for u by (simp_all add: k1_def)
  have nr: "\<not> LW_THREAD_IS_READY k1 t"
    using P(1) pend_not_delay [of "TCB_usStatus (K_tcb k t)"] by (auto simp: LW_THREAD_IS_READY_def s pending_def)
  have H: "EventReadyHighLevel t 0 a k1 = off t k1" for a
    using nr s(2) P(2) by (simp add: EventReadyHighLevel_def Let_def off_def LW_THREAD_IS_READY_def tcb_upd_def)
  have W: "ev_wake e q msg False 0 a k = (Some t, off t k1)" for a by (simp add: ev_wake_def L H)
  have "sys_ok T (off t k1)" using ev_wake_sys [OF ok w, where ty = 0 and msg = msg and d = False and a = 0] by (simp add: W)
  moreover have "waiters (off t k1) = waiters k1" by (simp add: off_def)
  moreover from ev_wake_spec [OF i w, where msg = msg and d = False and ty = 0 and a = 0]
  have "waiters (off t k1) e' q' = (if e' = e \<and> q' = q then ts else waiters k e' q')" for e' q' unfolding W by (metis prod.inject)
  moreover have "K_eventBuffer k1 = K_eventBuffer (ev_wq_upd e q (wq_del_at (first_index k e q) t) k)" "prio k1 u = prio k u"
    "K_ncpus k1 = K_ncpus k" "LW_TCB_GET_CUR k1 = LW_TCB_GET_CUR k" "TCB_ucIsEventDelete (K_tcb k1 u) = TCB_ucIsEventDelete (K_tcb k u)" for u
    by (simp_all add: k1_def LW_TCB_GET_CUR_def prio_def)
  moreover have "oview (K_tcb k1 t) = None"
  proof -
    have "oview (b\<lparr>TCB_pvMsgBoxMessage := msg\<rparr>) = oview b" for b by (simp add: oview_def)
    then show ?thesis using oth_ok_event [OF o P(4)] by (simp add: k1_def leave_eq)
  qed
  ultimately show thesis using that [OF L] s nr P(2,3) pending_not_ready [OF P(1)] by simp
qed

text \<open>The second half.\<close>

lemma half_ready:
  assumes ok: "sys_ok T (off t k)" and t: "t \<in> T" "\<not> LW_THREAD_IS_READY k t" "TCB_ucWaitTimeout (K_tcb k t) = 0" "oview (K_tcb k t) = None"
    and ty: "ty AND LW_THREAD_STATUS_WSTAT = 0" "ty AND LW_THREAD_STATUS_DELAY = 0"
  shows "sys_ok T (EventReadyHighLevel t ty a k)"
proof -
  let ?f = "\<lambda>b. b\<lparr>TCB_usStatus := TCB_usStatus b AND NOT ty\<rparr>"
  have E: "EventReadyHighLevel t ty a k = make_ready t a (tcb_upd t ?f (off t k))"
    using t(3) by (simp add: EventReadyHighLevel_def Let_def make_ready_def off_def)
  have S: "delay_ok (off t k)" "wait_ok T (off t k)" "req_ok T (off t k)" "oth_ok T (off t k)" using ok by (simp_all add: sys_ok_def ipc_ok_def)
  have B: "(s AND NOT ty) AND m = s AND m" if "ty AND m = 0" for s m :: u16
  proof -
    have "m AND NOT ty = m" using that by (intro and_not_bit) (simp add: and.commute)
    then show ?thesis unfolding and.assoc by (subst and.commute [of "NOT ty"]) simp
  qed
  let ?k1 = "tcb_upd t ?f (off t k)"
  have o: "oview (b\<lparr>TCB_peventPtr := None\<rparr>) = None" "oview (?f b) = None" if "oview b = None" for b using that by (simp_all add: oview_none)
  show ?thesis unfolding E
  proof (rule sys_ok_ready [OF ok t(1)])
    show "\<not> LW_THREAD_IS_READY (off t k) t" using t(2) by (simp add: off_def LW_THREAD_IS_READY_def)
    show "same_sched (off t k) ?k1" by (simp add: same_sched_def tview_def)
    have "delay_nodes ?k1 = delay_nodes (off t k)" by (simp add: delay_nodes_def fun_eq_iff)
    moreover have "delayed ?k1 u = delayed (off t k) u" for u by (simp add: delayed_def B [OF ty(2)])
    ultimately show "delay_ok ?k1" using S(1) by (simp add: delay_ok_def dline_def)
    show "wait_ok T ?k1" by (rule wait_ok_free [OF S(2), of _ t]) (simp_all add: off_def by_prio_def wq_def)
    show "req_ok T ?k1" by (rule req_ok_cong [OF S(3)]) (simp_all add: B [OF ty(1)])
    show "oth_ok T ?k1" by (rule oth_ok_upd [OF S(4), of t]) (simp_all add: off_def o t(4) dline_def oth_okD(12) [OF S(4), unfolded off_def dline_def, simplified])
  qed simp
qed
section \<open>The abstract mutex\<close>

record mutex_spec =
  mx_own :: "tid option"
  mx_depth :: ulong
  mx_wait :: "tid list"

definition mutex_abs :: "kernel \<Rightarrow> nat \<Rightarrow> mutex_spec" where
  "mutex_abs k e = \<lparr>mx_own = EVENT_pvTcbOwn (K_eventBuffer k e), mx_depth = EVENT_pvPtr (K_eventBuffer k e), mx_wait = waiters k e EVENT_SEM_Q\<rparr>"

text \<open>Letting go: an inner taking is undone, or the first waiter becomes the owner, or the mutex is free.\<close>

definition spec_unlock :: "tid \<Rightarrow> mutex_spec \<Rightarrow> ulong \<times> mutex_spec" where
  "spec_unlock c m =
     (if mx_own m \<noteq> Some c then (ERROR_EVENT_NOT_OWN, m)
      else if mx_depth m \<noteq> 0 then (ERROR_NONE, m\<lparr>mx_depth := mx_depth m - 1\<rparr>)
      else case mx_wait m of
        [] \<Rightarrow> (ERROR_NONE, m\<lparr>mx_own := None\<rparr>)
      | t # ts \<Rightarrow> (ERROR_NONE, m\<lparr>mx_own := Some t, mx_wait := ts\<rparr>))"

definition mutex_ok :: "tid set \<Rightarrow> kernel \<Rightarrow> nat \<Rightarrow> bool" where
  "mutex_ok T k e \<longleftrightarrow>
     (EVENT_ulCounter (K_eventBuffer k e) = 0 \<longleftrightarrow> mx_own (mutex_abs k e) \<noteq> None) \<and>
     (mx_own (mutex_abs k e) = None \<longrightarrow> mx_depth (mutex_abs k e) = 0 \<and> mx_wait (mutex_abs k e) = []) \<and>
     (\<forall>t. mx_own (mutex_abs k e) = Some t \<longrightarrow> t \<in> T \<and> K_ncpus k \<le> t) \<and>
     (\<forall>t \<in> set (mx_wait (mutex_abs k e)). K_ncpus k \<le> t)"

lemma mutex_abs_sel [simp]:
  "mx_own (mutex_abs k e) = EVENT_pvTcbOwn (K_eventBuffer k e)" "mx_depth (mutex_abs k e) = EVENT_pvPtr (K_eventBuffer k e)"
  "mx_wait (mutex_abs k e) = waiters k e EVENT_SEM_Q"
  by (simp_all add: mutex_abs_def)

lemma mutex_okD:
  assumes "mutex_ok T k e"
  shows "EVENT_pvTcbOwn (K_eventBuffer k e) = Some t \<Longrightarrow> t \<in> T" "EVENT_pvTcbOwn (K_eventBuffer k e) = Some t \<Longrightarrow> K_ncpus k \<le> t"
    "EVENT_pvTcbOwn (K_eventBuffer k e) = Some t \<Longrightarrow> EVENT_ulCounter (K_eventBuffer k e) = 0"
    "t \<in> set (waiters k e EVENT_SEM_Q) \<Longrightarrow> K_ncpus k \<le> t" "EVENT_ulCounter (K_eventBuffer k e) \<noteq> 0 \<Longrightarrow> EVENT_pvTcbOwn (K_eventBuffer k e) = None"
    "EVENT_pvTcbOwn (K_eventBuffer k e) = None \<Longrightarrow> EVENT_pvPtr (K_eventBuffer k e) = 0 \<and> waiters k e EVENT_SEM_Q = []"
    "EVENT_ulCounter (K_eventBuffer k e) = 0 \<Longrightarrow> \<exists>t. EVENT_pvTcbOwn (K_eventBuffer k e) = Some t"
  using assms by (auto simp: mutex_ok_def)

lemma event_upd_queues:
  assumes "\<And>v. EVENT_ulOption (f v) = EVENT_ulOption v" "\<And>v. EVENT_wqWaitQ (f v) = EVENT_wqWaitQ v"
  shows "waiters (event_upd e f k) = waiters k"
  by (rule event_upd_wait(3) [of f, OF assms])

lemma sys_ok_safe: "sys_ok T k \<Longrightarrow> sys_ok T (ThreadSafeInKern t k)"
  unfolding ThreadSafeInKern_def by (erule sys_ok_quiet) (simp_all add: quiet_defs rview_def oview_def)

lemma safe_sel [simp]:
  "K_eventBuffer (ThreadSafeInKern t k) = K_eventBuffer k" "K_ncpus (ThreadSafeInKern t k) = K_ncpus k" "waiters (ThreadSafeInKern t k) = waiters k"
  "TCB_usStatus (K_tcb (ThreadSafeInKern t k) u) = TCB_usStatus (K_tcb k u)" "prio (ThreadSafeInKern t k) u = prio k u"
  "LW_THREAD_IS_READY (ThreadSafeInKern t k) u = LW_THREAD_IS_READY k u" "LW_TCB_GET_CUR (ThreadSafeInKern t k) = LW_TCB_GET_CUR k"
  "TCB_ucIsEventDelete (K_tcb (ThreadSafeInKern t k) u) = TCB_ucIsEventDelete (K_tcb k u)"
  "TCB_ucWaitTimeout (K_tcb (ThreadSafeInKern t k) u) = TCB_ucWaitTimeout (K_tcb k u)"
  by (simp_all add: ThreadSafeInKern_def prio_def LW_THREAD_IS_READY_def LW_TCB_GET_CUR_def)

lemma prio_keeps [simp]: "prio (EventReadyHighLevel t ty a k) u = prio k u" "prio (event_upd e f k) u = prio k u"
  by (simp_all add: prio_def)

section \<open>Handing over\<close>

text \<open>What the handing over does to the threads: the old owner gets the priority it had when it took the mutex.\<close>

definition handed :: "nat \<Rightarrow> tid \<Rightarrow> tid \<Rightarrow> kernel \<Rightarrow> kernel \<Rightarrow> bool" where
  "handed e c t k k' \<longleftrightarrow>
     TCB_usStatus (K_tcb k' t) = (TCB_usStatus (K_tcb k t) AND NOT LW_THREAD_STATUS_DELAY) AND NOT LW_THREAD_STATUS_SEM \<and>
     (\<forall>u. u \<noteq> t \<longrightarrow> TCB_usStatus (K_tcb k' u) = TCB_usStatus (K_tcb k u)) \<and>
     prio k' c = ucast (EVENT_ulMaxCounter (K_eventBuffer k e)) \<and> (\<forall>u. u \<noteq> c \<longrightarrow> prio k' u = prio k u) \<and>
     EVENT_ulMaxCounter (K_eventBuffer k' e) = ucast (prio k' t) \<and>
     TCB_ucWaitTimeout (K_tcb k' t) = 0 \<and> TCB_ucIsEventDelete (K_tcb k' t) = TCB_ucIsEventDelete (K_tcb k t) \<and>
     (\<forall>e' q'. (e', q') \<noteq> (e, EVENT_SEM_Q) \<longrightarrow> waiters k' e' q' = waiters k e' q')"

lemma post_hands_over:
  assumes ok: "sys_ok T k" and m: "mutex_ok T k e" and c: "EVENT_pvTcbOwn (K_eventBuffer k e) = Some c"
    and d: "EVENT_pvPtr (K_eventBuffer k e) = 0" and w: "waiters k e EVENT_SEM_Q = t # ts"
  obtains k' where "semM_post e c k = (ERROR_NONE, True, k')" "sys_ok T k'" "handed e c t k k'"
    "EVENT_pvTcbOwn (K_eventBuffer k' e) = Some t" "EVENT_pvPtr (K_eventBuffer k' e) = 0" "EVENT_ulCounter (K_eventBuffer k' e) = 0"
    "waiters k' e EVENT_SEM_Q = ts" "K_ncpus k' = K_ncpus k" "t \<in> T"
proof -
  note M = mutex_okD [OF m]
  have i: "ipc_ok T k" using ok by (simp add: sys_ok_def)
  have n: "EventWaitNum EVENT_SEM_Q e k \<noteq> 0" using wait_num [OF i] w by simp
  from low_half [OF ok w, of 0] obtain k1 where L: "ev_ready_low e EVENT_SEM_Q 0 k = (Some t, k1)" and S: "sys_ok T (off t k1)"
    and W: "\<And>e' q'. waiters k1 e' q' = (if e' = e \<and> q' = EVENT_SEM_Q then ts else waiters k e' q')"
    and s: "TCB_usStatus (K_tcb k1 t) = TCB_usStatus (K_tcb k t) AND NOT LW_THREAD_STATUS_DELAY"
      "\<And>u. u \<noteq> t \<Longrightarrow> TCB_usStatus (K_tcb k1 u) = TCB_usStatus (K_tcb k u)" "\<not> LW_THREAD_IS_READY k1 t" "t \<in> T"
    and x: "\<And>u. TCB_ucIsEventDelete (K_tcb k1 u) = TCB_ucIsEventDelete (K_tcb k u)" "TCB_ucWaitTimeout (K_tcb k1 t) = 0"
    and E: "K_eventBuffer k1 = K_eventBuffer (ev_wq_upd e EVENT_SEM_Q (wq_del_at (first_index k e EVENT_SEM_Q) t) k)"
    and p: "\<And>u. prio k1 u = prio k u" "K_ncpus k1 = K_ncpus k" "oview (K_tcb k1 t) = None" by metis
  let ?old = "ucast (EVENT_ulMaxCounter (K_eventBuffer k e)) :: u8"
  define k2 where "k2 = EventPrioTryResume e c k1"
  let ?f = "\<lambda>v. v\<lparr>EVENT_ulMaxCounter := ucast (prio k2 t), EVENT_pvTcbOwn := Some t\<rparr>"
  define k3 where "k3 = event_upd e ?f k2"
  define k4 where "k4 = EventReadyHighLevel t LW_THREAD_STATUS_SEM LW_SCHED_ACT_INTERRUPT k3"
  define k' where "k' = (if EVENT_ulOption (K_eventBuffer k4 e) AND LW_OPTION_DELETE_SAFE \<noteq> 0 then ThreadSafeInKern t k4 else k4)"
  have R: "semM_post e c k = (ERROR_NONE, True, k')"
    using c d n by (simp add: semM_post_def L k'_def k4_def k3_def k2_def Let_def)
  have K2: "k2 = (if prio k1 c \<noteq> ?old then SchedSetPrio c ?old k1 else k1)" by (simp add: k2_def EventPrioTryResume_def Let_def E)
  have S2: "sys_ok T (off t k2)" using half_prio [OF S, of c ?old] M(1,2) [OF c] S p(2) by (simp add: K2)
  have S3: "sys_ok T (off t k3)" unfolding k3_def by (rule half_event [OF S2]) simp_all
  have o3: "oview (K_tcb k3 t) = None" using p(3) by (simp add: k3_def K2 oview_none)
  have f3: "\<And>u. TCB_usStatus (K_tcb k3 u) = TCB_usStatus (K_tcb k1 u)" "TCB_ucWaitTimeout (K_tcb k3 t) = 0" "\<not> LW_THREAD_IS_READY k3 t"
    "\<And>u. TCB_ucIsEventDelete (K_tcb k3 u) = TCB_ucIsEventDelete (K_tcb k1 u)"
    using x(2) s(3) by (simp_all add: k3_def K2 LW_THREAD_IS_READY_def)
  have S4: "sys_ok T k4" unfolding k4_def by (rule half_ready [OF S3 s(4) f3(3,2) o3]) simp_all
  have S': "sys_ok T k'" using S4 sys_ok_safe by (simp add: k'_def)
  have w3: "waiters k3 = waiters k1" unfolding k3_def by (subst event_upd_queues) (simp_all add: K2)
  have "waiters k4 = waiters k3" by (simp add: k4_def waiters_def fun_eq_iff)
  then have w': "waiters k' = waiters k3" by (simp add: k'_def)
  have pr: "prio k' u = (if u = c then ?old else prio k u)" for u by (simp add: k'_def k4_def k3_def K2 p(1))
  show thesis
  proof (rule that [OF R S'])
    show "EVENT_pvTcbOwn (K_eventBuffer k' e) = Some t" "EVENT_pvPtr (K_eventBuffer k' e) = 0" "EVENT_ulCounter (K_eventBuffer k' e) = 0"
      "K_ncpus k' = K_ncpus k" using d M(3) [OF c] by (simp_all add: k'_def k4_def k3_def K2 E p(2))
    show "waiters k' e EVENT_SEM_Q = ts" by (simp add: w' w3 W)
    show "t \<in> T" by (rule s(4))
    show "handed e c t k k'" unfolding handed_def
    proof (intro conjI allI impI)
      have "TCB_usStatus (K_tcb k' u) = TCB_usStatus (K_tcb k4 u)" for u by (simp add: k'_def)
      then have H: "TCB_usStatus (K_tcb k' u) = (if u = t then TCB_usStatus (K_tcb k3 t) AND NOT LW_THREAD_STATUS_SEM else TCB_usStatus (K_tcb k3 u))" for u
        unfolding k4_def High_status [OF f3(2)] .
      show "TCB_usStatus (K_tcb k' t) = (TCB_usStatus (K_tcb k t) AND NOT LW_THREAD_STATUS_DELAY) AND NOT LW_THREAD_STATUS_SEM"
        unfolding H f3(1) s(1) by simp
      show "TCB_usStatus (K_tcb k' u) = TCB_usStatus (K_tcb k u)" if "u \<noteq> t" for u using that unfolding H f3(1) by (simp add: s(2))
      show "prio k' c = ?old" "u \<noteq> c \<Longrightarrow> prio k' u = prio k u" for u by (simp_all add: pr)
      show "EVENT_ulMaxCounter (K_eventBuffer k' e) = ucast (prio k' t)" unfolding pr by (simp add: k'_def k4_def k3_def K2 p(1))
      show "TCB_ucWaitTimeout (K_tcb k' t) = 0" by (simp add: k'_def k4_def)
      show "TCB_ucIsEventDelete (K_tcb k' t) = TCB_ucIsEventDelete (K_tcb k t)" by (simp add: k'_def k4_def f3(4) x(1))
      show "waiters k' e' q' = waiters k e' q'" if "(e', q') \<noteq> (e, EVENT_SEM_Q)" for e' q' using that by (auto simp: w' w3 W)
    qed
  qed
qed
text \<open>Posting implements the abstract operation and keeps both invariants, whoever calls it.\<close>

lemma mutex_ok_own:
  assumes "mutex_ok T k e" and "EVENT_pvTcbOwn (K_eventBuffer k' e) = Some t" "t \<in> T" "K_ncpus k' = K_ncpus k" "K_ncpus k \<le> t"
    and "EVENT_ulCounter (K_eventBuffer k' e) = 0" "\<And>u. u \<in> set (waiters k' e EVENT_SEM_Q) \<Longrightarrow> K_ncpus k \<le> u"
  shows "mutex_ok T k' e"
  using assms by (auto simp: mutex_ok_def)

lemma semM_post_ok:
  assumes ok: "sys_ok T k" and m: "mutex_ok T k e" and R: "semM_post e c k = (r, rel, k')"
  shows "sys_ok T k'" "mutex_ok T k' e" "spec_unlock c (mutex_abs k e) = (r, mutex_abs k' e)" "K_ncpus k' = K_ncpus k"
proof -
  note M = mutex_okD [OF m]
  have i: "ipc_ok T k" using ok by (simp add: sys_ok_def)
  have n: "EventWaitNum EVENT_SEM_Q e k = 0 \<longleftrightarrow> waiters k e EVENT_SEM_Q = []" by (rule wait_num [OF i])
  let ?own = "EVENT_pvTcbOwn (K_eventBuffer k e)" and ?d = "EVENT_pvPtr (K_eventBuffer k e)"
  have "sys_ok T k' \<and> mutex_ok T k' e \<and> spec_unlock c (mutex_abs k e) = (r, mutex_abs k' e) \<and> K_ncpus k' = K_ncpus k"
  proof (cases "?own = Some c")
    case False
    with R ok m show ?thesis by (auto simp: semM_post_def spec_unlock_def)
  next
    case own: True
    show ?thesis
    proof (cases "?d = 0")
      case False
      let ?f = "\<lambda>v. v\<lparr>EVENT_pvPtr := EVENT_pvPtr v - 1\<rparr>"
      have K: "r = ERROR_NONE" "k' = event_upd e ?f k" using R own False by (simp_all add: semM_post_def)
      have "waiters k' = waiters k" unfolding K(2) by (rule event_upd_queues) simp_all
      moreover have "sys_ok T k'" unfolding K(2) by (rule sys_ok_event [OF ok]) simp_all
      moreover from calculation have "mutex_ok T k' e" by (intro mutex_ok_own [OF m, of k' c]) (use own M in \<open>simp_all add: K(2)\<close>)
      ultimately show ?thesis using own False by (simp add: spec_unlock_def K mutex_abs_def)
    next
      case d: True
      show ?thesis
      proof (cases "waiters k e EVENT_SEM_Q")
        case Nil
        let ?f = "\<lambda>v. v\<lparr>EVENT_ulCounter := 1, EVENT_ulMaxCounter := ucast LW_PRIO_LOWEST, EVENT_pvTcbOwn := None\<rparr>"
        have K: "r = ERROR_NONE" "k' = event_upd e ?f k" using R own d Nil n M(3) [OF own] by (simp_all add: semM_post_def)
        have w: "waiters k' = waiters k" unfolding K(2) by (rule event_upd_queues) simp_all
        moreover have "sys_ok T k'" unfolding K(2) by (rule sys_ok_event [OF ok]) simp_all
        moreover have "mutex_ok T k' e" using d Nil by (simp add: mutex_ok_def w) (simp add: K(2))
        ultimately show ?thesis using own d Nil by (simp add: spec_unlock_def K mutex_abs_def)
      next
        case (Cons t ts)
        from post_hands_over [OF ok m own d Cons] R obtain k'' where H: "r = ERROR_NONE" "k' = k''" "sys_ok T k''"
          "EVENT_pvTcbOwn (K_eventBuffer k'' e) = Some t" "EVENT_pvPtr (K_eventBuffer k'' e) = 0" "EVENT_ulCounter (K_eventBuffer k'' e) = 0"
          "waiters k'' e EVENT_SEM_Q = ts" "K_ncpus k'' = K_ncpus k" "t \<in> T" by (metis prod.inject)
        have "mutex_ok T k' e" by (rule mutex_ok_own [OF m, of k' t]) (use H M(4) Cons in \<open>simp_all\<close>)
        then show ?thesis using own d Cons H by (simp add: spec_unlock_def mutex_abs_def)
      qed
    qed
  qed
  then show "sys_ok T k'" "mutex_ok T k' e" "spec_unlock c (mutex_abs k e) = (r, mutex_abs k' e)" "K_ncpus k' = K_ncpus k" by simp_all
qed

section \<open>Taking\<close>

text \<open>The abstract taking; no result means that the thread has to wait.\<close>

definition spec_lock :: "ulong \<Rightarrow> tid \<Rightarrow> ulong \<Rightarrow> mutex_spec \<Rightarrow> (ulong \<times> mutex_spec) option" where
  "spec_lock opt c to m =
     (case mx_own m of
        None \<Rightarrow> Some (ERROR_NONE, m\<lparr>mx_own := Some c\<rparr>)
      | Some o' \<Rightarrow>
          if o' = c \<and> opt AND LW_OPTION_NORMAL = 0 then
            if opt AND LW_OPTION_ERRORCHECK \<noteq> 0 then Some (EDEADLK, m) else Some (ERROR_NONE, m\<lparr>mx_depth := mx_depth m + 1\<rparr>)
          else if to = LW_OPTION_NOT_WAIT then Some (ERROR_THREAD_WAIT_TIMEOUT, m) else None)"

lemma semM_try_ok:
  assumes ok: "sys_ok T k" and m: "mutex_ok T k e" and c: "c \<in> T" "K_ncpus k \<le> c"
  shows "map_option (\<lambda>(r, k'). (r, mutex_abs k' e)) (semM_try e c to k) = spec_lock (EVENT_ulOption (K_eventBuffer k e)) c to (mutex_abs k e)"
    "semM_try e c to k = Some (r, k') \<Longrightarrow> sys_ok T k' \<and> mutex_ok T k' e \<and> K_ncpus k' = K_ncpus k"
proof -
  note M = mutex_okD [OF m]
  let ?f = "\<lambda>v. v\<lparr>EVENT_ulCounter := 0, EVENT_ulMaxCounter := ucast (prio k c), EVENT_pvTcbOwn := Some c\<rparr>"
    and ?g = "\<lambda>v. v\<lparr>EVENT_pvPtr := EVENT_pvPtr v + 1\<rparr>"
  have w: "waiters (event_upd e ?f k) = waiters k" "waiters (event_upd e ?g k) = waiters k" by (rule event_upd_queues; simp)+
  have s: "sys_ok T (event_upd e ?f k)" "sys_ok T (event_upd e ?g k)" by (rule sys_ok_event [OF ok]; simp)+
  show "map_option (\<lambda>(r, k'). (r, mutex_abs k' e)) (semM_try e c to k) = spec_lock (EVENT_ulOption (K_eventBuffer k e)) c to (mutex_abs k e)"
    using M(5-7) by (auto simp: semM_try_def spec_lock_def Let_def mutex_abs_def w split: option.split)
  show "sys_ok T k' \<and> mutex_ok T k' e \<and> K_ncpus k' = K_ncpus k" if R: "semM_try e c to k = Some (r, k')"
  proof (cases "EVENT_ulCounter (K_eventBuffer k e) = 0")
    case False
    define k1 where "k1 = event_upd e ?f k"
    have K: "k' = (if EVENT_ulOption (K_eventBuffer k e) AND LW_OPTION_DELETE_SAFE \<noteq> 0 then ThreadSafeInKern c k1 else k1)"
      using R False by (simp add: semM_try_def Let_def k1_def split: if_splits)
    have f: "K_eventBuffer k' = K_eventBuffer k1" "waiters k' = waiters k1" "K_ncpus k' = K_ncpus k1" by (simp_all add: K)
    have "sys_ok T k'" using s(1) sys_ok_safe by (simp add: K k1_def)
    moreover have "mutex_ok T k' e"
      by (rule mutex_ok_own [OF m, of k' c]) (use f c w(1) M(4) in \<open>simp_all add: k1_def\<close>)
    ultimately show ?thesis using f(3) by (simp add: k1_def)
  next
    case True
    then have "k' = k \<or> k' = event_upd e ?g k \<and> EVENT_pvTcbOwn (K_eventBuffer k e) = Some c"
      using R by (auto simp: semM_try_def Let_def split: if_splits)
    then show ?thesis
    proof
      assume K: "k' = event_upd e ?g k \<and> EVENT_pvTcbOwn (K_eventBuffer k e) = Some c"
      have "mutex_ok T k' e" by (rule mutex_ok_own [OF m, of k' c]) (use K c w(2) M(4) True in \<open>simp_all\<close>)
      then show ?thesis using s(2) K by simp
    qed (use ok m in simp)
  qed
qed

text \<open>
  Waiting for a mutex: the owner is raised to the priority of the caller (inheritance), or to the
  ceiling of the mutex, unless it is being deleted.
\<close>

definition boosted :: "nat \<Rightarrow> tid \<Rightarrow> tid \<Rightarrow> kernel \<Rightarrow> u8" where
  "boosted e c w k =
     (if TCB_iDeleteProcStatus (K_tcb k w) \<noteq> 0 then prio k w
      else if EVENT_ulOption (K_eventBuffer k e) AND LW_OPTION_INHERIT_PRIORITY \<noteq> 0 then min (prio k c) (prio k w)
      else if prio k c < prio k w then min (EVENT_ucCeilingPriority (K_eventBuffer k e)) (prio k w) else prio k w)"

lemma Boost_eq:
  assumes "EVENT_pvTcbOwn (K_eventBuffer k e) = Some w"
  shows "EventPrioTryBoost e c k = (if boosted e c w k = prio k w then k else SchedSetPrio w (boosted e c w k) k)"
  using assms by (auto simp: EventPrioTryBoost_def boosted_def min_def)

lemma ev_block_prio: "prio (ev_block e q ty to k) u = prio k u"
  by (simp add: ev_block_eq [OF refl] prio_def)

lemma semM_block_ok:
  assumes ok: "sys_ok T k" and m: "mutex_ok T k e" and c: "running T k c" and w: "EVENT_pvTcbOwn (K_eventBuffer k e) = Some w"
  shows "sys_ok T (semM_block e c to k)" "mutex_ok T (semM_block e c to k) e"
    "set (waiters (semM_block e c to k) e EVENT_SEM_Q) = insert c (set (waiters k e EVENT_SEM_Q))"
    "EVENT_pvTcbOwn (K_eventBuffer (semM_block e c to k) e) = Some w" "EVENT_pvPtr (K_eventBuffer (semM_block e c to k) e) = EVENT_pvPtr (K_eventBuffer k e)"
    "prio (semM_block e c to k) u = (if u = w then boosted e c w k else prio k u)" "\<not> LW_THREAD_IS_READY (semM_block e c to k) c"
    "EVENT_ulMaxCounter (K_eventBuffer (semM_block e c to k) e) = EVENT_ulMaxCounter (K_eventBuffer k e)"
    "K_ncpus (semM_block e c to k) = K_ncpus k"
proof -
  note M = mutex_okD [OF m] and C = runningD [OF c]
  define k1 where "k1 = EventPrioTryBoost e c k"
  have K1: "k1 = (if boosted e c w k = prio k w then k else SchedSetPrio w (boosted e c w k) k)" unfolding k1_def by (rule Boost_eq [OF w])
  have S: "sys_ok T k1" using SchedSetPrio_sys [OF ok M(1,2) [OF w], of "boosted e c w k"] ok by (simp add: K1)
  have C1: "LW_TCB_GET_CUR k1 = c" "c \<in> T" "K_ncpus k1 \<le> c" "LW_THREAD_IS_READY k1 c" using C by (simp_all add: K1)
  let ?k = "ev_block e EVENT_SEM_Q LW_THREAD_STATUS_SEM to k1"
  have B: "semM_block e c to k = ?k" by (simp add: semM_block_def k1_def)
  have i: "ipc_ok T k1" using S by (simp add: sys_ok_def)
  note E = ev_block_spec [OF i C1, where ty = LW_THREAD_STATUS_SEM and e = e and q = EVENT_SEM_Q and to = to, simplified]
  have e1: "K_eventBuffer k1 = K_eventBuffer k" "waiters k1 = waiters k" "K_ncpus k1 = K_ncpus k" by (simp_all add: K1)
  have f: "EVENT_pvTcbOwn (K_eventBuffer ?k e) = Some w" "EVENT_ulCounter (K_eventBuffer ?k e) = 0"
    "EVENT_pvPtr (K_eventBuffer ?k e) = EVENT_pvPtr (K_eventBuffer k e)" "EVENT_ulMaxCounter (K_eventBuffer ?k e) = EVENT_ulMaxCounter (K_eventBuffer k e)"
    using w M(3) [OF w] by (simp_all add: E(6) e1)
  have n: "c \<notin> set (wq_order (by_prio k1 e) (wq k1 e EVENT_SEM_Q))"
    using wait_okD(2) [OF ipc_okD(3) [OF i], of c e EVENT_SEM_Q] wait_okD(4) [OF ipc_okD(3) [OF i], of c e] C1(4) pending_not_ready by (auto simp: waiters_def waits_in_def)
  note D = wait_okD [OF ipc_okD(3) [OF E(1)]]
  have "remove1 c (waiters ?k e EVENT_SEM_Q) = waiters k e EVENT_SEM_Q" using enq_mem(2) [OF n, of "prio k1"] unfolding e1(2) [symmetric] by (simp add: E(2)) (simp add: waiters_def)
  then have Q: "set (waiters ?k e EVENT_SEM_Q) = insert c (set (waiters k e EVENT_SEM_Q))"
    using set_remove1_eq [OF D(5) [of e EVENT_SEM_Q], of c] D(2) [of c e EVENT_SEM_Q] E(5) by auto
  have np: "K_ncpus ?k = K_ncpus k" by (simp add: E(9) e1)
  show "sys_ok T (semM_block e c to k)" unfolding B by (rule ev_block_sys [OF S C1]) simp_all
  show "mutex_ok T (semM_block e c to k) e" unfolding B
    by (rule mutex_ok_own [OF m f(1) M(1) [OF w] np M(2) [OF w] f(2)]) (use Q M(4) C(3) in auto)
  show "set (waiters (semM_block e c to k) e EVENT_SEM_Q) = insert c (set (waiters k e EVENT_SEM_Q))" unfolding B by (rule Q)
  show "EVENT_pvTcbOwn (K_eventBuffer (semM_block e c to k) e) = Some w" "EVENT_pvPtr (K_eventBuffer (semM_block e c to k) e) = EVENT_pvPtr (K_eventBuffer k e)"
    "EVENT_ulMaxCounter (K_eventBuffer (semM_block e c to k) e) = EVENT_ulMaxCounter (K_eventBuffer k e)" "K_ncpus (semM_block e c to k) = K_ncpus k"
    unfolding B using f np by simp_all
  show "\<not> LW_THREAD_IS_READY (semM_block e c to k) c" unfolding B by (simp add: LW_THREAD_IS_READY_def E(3))
  have "prio ?k u = prio k1 u" by (rule ev_block_prio)
  then show "prio (semM_block e c to k) u = (if u = w then boosted e c w k else prio k u)" unfolding B by (simp add: K1)
qed

end
