(* ===== verification/MsgQueueInv.thy ===== *)
theory MsgQueueInv
  imports MsgQueue MutexInv
begin

text \<open>
  Message queues against their specification: the messages of each priority in their order, the
  receivers and the senders that wait. The bodies of the calls implement the abstract operations,
  keep the kernel's invariant, and write to the receiver what they should.
\<close>

section \<open>Frames\<close>

text \<open>What a receiver's control block says about its receive: buffer, size, length and options.\<close>

definition mview :: "tcb \<Rightarrow> u8 list \<times> ulong \<times> ulong \<times> ulong" where
  "mview b = (TCB_pvMsgQueueMessage b, TCB_stMaxByteSize b, TCB_pstMsgByteSize b, TCB_ulRecvOption b)"

lemma mview_erase: "erase_tcb b' = erase_tcb b \<Longrightarrow> mview b' = mview b"
  using erase_tcb_fields [of b' b] by (simp add: mview_def)

lemma leave_msg [simp]:
  "K_msgqueueBuffer (leave_wakeup_line t k) = K_msgqueueBuffer k" "mview (K_tcb (leave_wakeup_line t k) u) = mview (K_tcb k u)"
  by (simp_all add: leave_wakeup_line_def mview_def DEL_FROM_WAKEUP_LINE_def Let_def split: prod.split)

lemma High_msg [simp]:
  "K_msgqueueBuffer (EventReadyHighLevel t ty a k) = K_msgqueueBuffer k" "mview (K_tcb (EventReadyHighLevel t ty a k) u) = mview (K_tcb k u)"
proof -
  show "K_msgqueueBuffer (EventReadyHighLevel t ty a k) = K_msgqueueBuffer k" by (simp add: EventReadyHighLevel_def Let_def)
  show "mview (K_tcb (EventReadyHighLevel t ty a k) u) = mview (K_tcb k u)"
    using mview_erase [OF High_tcb, of t ty a k u] by (simp add: mview_def)
qed

lemma ev_wq_upd_msg [simp]: "K_msgqueueBuffer (ev_wq_upd e q f k) = K_msgqueueBuffer k"
  by (simp add: ev_wq_upd_def)

text \<open>The fields of the event that a change of a wait queue leaves alone.\<close>

definition evview :: "event \<Rightarrow> u8 \<times> ulong \<times> ulong \<times> ulong \<times> ulong" where
  "evview v = (EVENT_ucType v, EVENT_ulCounter v, EVENT_ulMaxCounter v, EVENT_ulOption v, EVENT_pvPtr v)"

lemma evview_wq [simp]: "evview (K_eventBuffer (ev_wq_upd e q f k) e') = evview (K_eventBuffer k e')"
  by (simp add: ev_wq_upd_def evview_def)

lemma evviewD:
  assumes "evview v' = evview v"
  shows "EVENT_ucType v' = EVENT_ucType v" "EVENT_ulCounter v' = EVENT_ulCounter v" "EVENT_ulMaxCounter v' = EVENT_ulMaxCounter v"
    "EVENT_ulOption v' = EVENT_ulOption v" "EVENT_pvPtr v' = EVENT_pvPtr v"
  using assms by (simp_all add: evview_def)

section \<open>Handing a message to a receiver\<close>

definition accepts :: "ulong \<Rightarrow> tcb \<Rightarrow> bool" where
  "accepts len b \<longleftrightarrow> len \<le> TCB_stMaxByteSize b \<or> TCB_ulRecvOption b AND LW_OPTION_NOERROR \<noteq> 0"

definition delivered :: "u8 list \<Rightarrow> ulong \<Rightarrow> tcb \<Rightarrow> u8 list \<times> ulong \<times> ulong \<times> ulong" where
  "delivered buf len b =
     (if accepts len b then (let n = min len (TCB_stMaxByteSize b) in (memcpy (TCB_pvMsgQueueMessage b) buf n, TCB_stMaxByteSize b, n, TCB_ulRecvOption b))
      else (TCB_pvMsgQueueMessage b, 0, 0, TCB_ulRecvOption b))"

text \<open>The thread has been taken off the queue and woken, with the message or with the refusal.\<close>

definition mq_woken :: "tid \<Rightarrow> u16 \<Rightarrow> nat \<Rightarrow> nat \<Rightarrow> kernel \<Rightarrow> kernel \<Rightarrow> bool" where
  "mq_woken t ty e q k k' \<longleftrightarrow>
     (\<forall>e' q'. waiters k' e' q' = (if e' = e \<and> q' = q then tl (waiters k e q) else waiters k e' q')) \<and>
     TCB_usStatus (K_tcb k' t) = (TCB_usStatus (K_tcb k t) AND NOT LW_THREAD_STATUS_DELAY) AND NOT ty \<and>
     (\<forall>u. u \<noteq> t \<longrightarrow> TCB_usStatus (K_tcb k' u) = TCB_usStatus (K_tcb k u)) \<and>
     (\<forall>u. u \<noteq> t \<longrightarrow> mview (K_tcb k' u) = mview (K_tcb k u)) \<and>
     (\<forall>e'. evview (K_eventBuffer k' e') = evview (K_eventBuffer k e')) \<and> K_msgqueueBuffer k' = K_msgqueueBuffer k \<and> K_ncpus k' = K_ncpus k"

text \<open>An update of the receive variables, of which nothing else depends.\<close>

definition msg_only :: "(tcb \<Rightarrow> tcb) \<Rightarrow> bool" where
  "msg_only g \<longleftrightarrow> (\<forall>b v. g (b\<lparr>TCB_peventPtr := v\<rparr>) = (g b)\<lparr>TCB_peventPtr := v\<rparr>) \<and>
     (\<forall>b. tview (g b) = tview b \<and> rview (g b) = rview b \<and> oview (g b) = oview b \<and> wview (g b) = wview b \<and>
       TCB_usStatus (g b) = TCB_usStatus b \<and> TCB_ulDelay (g b) = TCB_ulDelay b \<and> TCB_bDelayInQ (g b) = TCB_bDelayInQ b \<and>
       TCB_ucWaitTimeout (g b) = TCB_ucWaitTimeout b)"

lemmas msg_only_defs = msg_only_def tview_def rview_def oview_def wview_def

lemma mq_deliver_eq:
  obtains g where "mq_deliver buf len t k = (accepts len (K_tcb k t), tcb_upd t g k)" "mview (g (K_tcb k t)) = delivered buf len (K_tcb k t)" "msg_only g"
proof (cases "accepts len (K_tcb k t)")
  case True
  then have "\<not> (len > TCB_stMaxByteSize (K_tcb k t) \<and> TCB_ulRecvOption (K_tcb k t) AND LW_OPTION_NOERROR = 0)"
    by (auto simp: accepts_def)
  moreover have "(if len < TCB_stMaxByteSize (K_tcb k t) then len else TCB_stMaxByteSize (K_tcb k t)) = min len (TCB_stMaxByteSize (K_tcb k t))"
    by (auto simp: min_def)
  ultimately show ?thesis using True
    by (intro that [of "\<lambda>b. b\<lparr>TCB_pstMsgByteSize := min len (TCB_stMaxByteSize (K_tcb k t)),
          TCB_pvMsgQueueMessage := memcpy (TCB_pvMsgQueueMessage b) buf (min len (TCB_stMaxByteSize (K_tcb k t)))\<rparr>"])
      (simp_all add: mq_deliver_def Let_def delivered_def mview_def msg_only_defs)
next
  case False
  then have "len > TCB_stMaxByteSize (K_tcb k t) \<and> TCB_ulRecvOption (K_tcb k t) AND LW_OPTION_NOERROR = 0"
    by (auto simp: accepts_def)
  with False show ?thesis
    by (intro that [of "\<lambda>b. b\<lparr>TCB_pstMsgByteSize := 0, TCB_stMaxByteSize := 0\<rparr>"])
      (simp_all add: mq_deliver_def Let_def delivered_def mview_def msg_only_defs)
qed

lemma sys_ok_msg: "sys_ok T k \<Longrightarrow> msg_only g \<Longrightarrow> sys_ok T (tcb_upd t g k)"
  by (rule sys_ok_cong) (use kern_ok_tcb [OF sys_ok_kern, of T k g t] in \<open>simp_all add: delayed_def msg_only_def\<close>)

text \<open>Wake the first thread of a queue, with a write to its receive variables on the way.\<close>

definition wake_with :: "tid \<Rightarrow> u8 \<Rightarrow> (tcb \<Rightarrow> tcb) \<Rightarrow> kernel \<Rightarrow> kernel" where
  "wake_with t a g k1 = EventReadyHighLevel t LW_THREAD_STATUS_MSGQUEUE a (tcb_upd t g k1)"

lemma wake_with_ok:
  assumes ok: "sys_ok T k" and w: "waiters k e q = t # ts"
  obtains k1 where "ev_ready_low e q 0 k = (Some t, k1)" "\<And>u. mview (K_tcb k1 u) = mview (K_tcb k u)"
    "\<And>g a. msg_only g \<Longrightarrow> sys_ok T (wake_with t a g k1) \<and> mq_woken t LW_THREAD_STATUS_MSGQUEUE e q k (wake_with t a g k1) \<and>
       mview (K_tcb (wake_with t a g k1) t) = mview (g (K_tcb k1 t))"
proof -
  obtain k1 where L: "ev_ready_low e q 0 k = (Some t, k1)" "sys_ok T (off t k1)"
    "\<And>e' q'. waiters k1 e' q' = (if e' = e \<and> q' = q then ts else waiters k e' q')"
    "TCB_usStatus (K_tcb k1 t) = TCB_usStatus (K_tcb k t) AND NOT LW_THREAD_STATUS_DELAY"
    "\<And>u. u \<noteq> t \<Longrightarrow> TCB_usStatus (K_tcb k1 u) = TCB_usStatus (K_tcb k u)" "\<not> LW_THREAD_IS_READY k1 t" "t \<in> T"
    "TCB_ucWaitTimeout (K_tcb k1 t) = 0" "K_eventBuffer k1 = K_eventBuffer (ev_wq_upd e q (wq_del_at (first_index k e q) t) k)"
    "K_ncpus k1 = K_ncpus k" "oview (K_tcb k1 t) = None"
    using low_half [OF ok w, of 0] by metis
  have i: "ipc_ok T k" using ok by (simp add: sys_ok_def)
  have K1: "k1 = leave_wakeup_line t (tcb_upd t (\<lambda>b. b\<lparr>TCB_pvMsgBoxMessage := 0\<rparr>) (ev_wq_upd e q (wq_del_at (first_index k e q) t) k))"
    using L(1) by (simp add: ev_ready_low_eq [OF ipc_okD(3) [OF i] w])
  have mv: "mview (K_tcb k1 u) = mview (K_tcb k u)" for u by (simp add: K1) (simp add: mview_def)
  have "sys_ok T (wake_with t a g k1) \<and> mq_woken t LW_THREAD_STATUS_MSGQUEUE e q k (wake_with t a g k1) \<and>
     mview (K_tcb (wake_with t a g k1) t) = mview (g (K_tcb k1 t))" if g: "msg_only g" for g a
  proof -
    define k2 where "k2 = tcb_upd t g k1"
    define k' where "k' = EventReadyHighLevel t LW_THREAD_STATUS_MSGQUEUE a k2"
    have v: "TCB_usStatus (g b) = TCB_usStatus b" "oview (g b) = oview b" "TCB_ucWaitTimeout (g b) = TCB_ucWaitTimeout b" for b
      using g by (simp_all add: msg_only_def)
    have "off t k2 = tcb_upd t g (off t k1)" using g by (simp add: k2_def off_def tcb_upd_def msg_only_def)
    then have ok2: "sys_ok T (off t k2)" using sys_ok_msg [OF L(2) g] by simp
    have "sys_ok T k'" unfolding k'_def
      by (rule half_ready [OF ok2 L(7)]) (use L(6,8,11) v in \<open>simp_all add: k2_def LW_THREAD_IS_READY_def\<close>)
    moreover have "mq_woken t LW_THREAD_STATUS_MSGQUEUE e q k k'"
      unfolding mq_woken_def
    proof (intro conjI allI impI)
      have "waiters k' = waiters k1" by (simp add: k'_def k2_def waiters_def fun_eq_iff)
      then show "waiters k' e' q' = (if e' = e \<and> q' = q then tl (waiters k e q) else waiters k e' q')" for e' q' by (simp add: L(3) w)
      show "TCB_usStatus (K_tcb k' t) = (TCB_usStatus (K_tcb k t) AND NOT LW_THREAD_STATUS_DELAY) AND NOT LW_THREAD_STATUS_MSGQUEUE"
        using High_status [of k2 t] L(4,8) v by (simp add: k'_def k2_def)
      show "TCB_usStatus (K_tcb k' u) = TCB_usStatus (K_tcb k u)" if "u \<noteq> t" for u
        using erase_tcb_fields(21) [OF High_tcb, of t LW_THREAD_STATUS_MSGQUEUE a k2 u] L(5) [OF that] that by (simp add: k'_def k2_def)
      show "mview (K_tcb k' u) = mview (K_tcb k u)" if "u \<noteq> t" for u using mv [of u] that by (simp add: k'_def k2_def)
      show "evview (K_eventBuffer k' e') = evview (K_eventBuffer k e')" for e' using L(9) by (simp add: k'_def k2_def)
      show "K_msgqueueBuffer k' = K_msgqueueBuffer k" by (simp add: k'_def k2_def K1)
      show "K_ncpus k' = K_ncpus k" using L(10) by (simp add: k'_def k2_def)
    qed
    moreover have "mview (K_tcb k' t) = mview (g (K_tcb k1 t))" by (simp add: k'_def k2_def)
    ultimately show ?thesis by (simp add: wake_with_def k'_def k2_def)
  qed
  then show thesis using that [OF L(1) mv] by blast
qed

lemma mq_wake_reader_ok:
  assumes ok: "sys_ok T k" and w: "waiters k e EVENT_MSG_Q_R = t # ts"
  obtains k' where "mq_wake_reader buf len a e k = (accepts len (K_tcb k t), k')" "sys_ok T k'"
    "mq_woken t LW_THREAD_STATUS_MSGQUEUE e EVENT_MSG_Q_R k k'" "mview (K_tcb k' t) = delivered buf len (K_tcb k t)"
proof -
  obtain k1 where L: "ev_ready_low e EVENT_MSG_Q_R 0 k = (Some t, k1)" "\<And>u. mview (K_tcb k1 u) = mview (K_tcb k u)"
    and W: "\<And>g a. msg_only g \<Longrightarrow> sys_ok T (wake_with t a g k1) \<and> mq_woken t LW_THREAD_STATUS_MSGQUEUE e EVENT_MSG_Q_R k (wake_with t a g k1) \<and>
       mview (K_tcb (wake_with t a g k1) t) = mview (g (K_tcb k1 t))"
    using wake_with_ok [OF ok w] by blast
  have ad: "accepts len (K_tcb k1 t) = accepts len (K_tcb k t)" "delivered buf len (K_tcb k1 t) = delivered buf len (K_tcb k t)"
    using L(2) [of t] by (simp_all add: mview_def accepts_def delivered_def)
  obtain g where g: "mq_deliver buf len t k1 = (accepts len (K_tcb k1 t), tcb_upd t g k1)" "mview (g (K_tcb k1 t)) = delivered buf len (K_tcb k1 t)" "msg_only g"
    by (rule mq_deliver_eq [of buf len t k1])
  have "mq_wake_reader buf len a e k = (accepts len (K_tcb k t), wake_with t a g k1)"
    using g(1) by (simp add: mq_wake_reader_def L(1) ad wake_with_def)
  then show thesis using that W [OF g(3)] g(2) ad(2) by metis
qed

section \<open>The abstract queue\<close>

record mq_spec =
  qs_msgs :: "u8 list pqueue"
  qs_max :: nat
  qs_size :: nat
  qs_read :: "tid list"
  qs_send :: "tid list"

text \<open>The kernel is in order and the event \<open>e\<close> is a queue in the state \<open>s\<close>.\<close>

definition mq_state :: "tid set \<Rightarrow> kernel \<Rightarrow> nat \<Rightarrow> mq_spec \<Rightarrow> bool" where
  "mq_state T k e s \<longleftrightarrow> sys_ok T k \<and> EVENT_ucType (K_eventBuffer k e) = LW_TYPE_EVENT_MSGQUEUE \<and>
     mq_fits (EVENT_ulMaxCounter (K_eventBuffer k e)) (mq_of k e) \<and> mq_rep (qs_max s) (mq_of k e) (qs_msgs s) \<and>
     unat (EVENT_ulCounter (K_eventBuffer k e)) = length (pq_all (qs_msgs s)) \<and> qs_max s = unat (EVENT_ulMaxCounter (K_eventBuffer k e)) \<and>
     qs_size s = unat (MSGQUEUE_stMaxBytes (mq_of k e)) \<and> qs_read s = waiters k e EVENT_MSG_Q_R \<and> qs_send s = waiters k e EVENT_MSG_Q_S"

text \<open>Never more messages than nodes, and no receiver waits while there are messages.\<close>

definition mq_inv :: "mq_spec \<Rightarrow> bool" where
  "mq_inv s \<longleftrightarrow> length (pq_all (qs_msgs s)) \<le> qs_max s \<and> (qs_read s \<noteq> [] \<longrightarrow> pq_all (qs_msgs s) = [])"

text \<open>A send: the first receiver takes the message or refuses it; otherwise it is buffered while there is room.\<close>

definition spec_send :: "nat \<Rightarrow> u8 list \<Rightarrow> (tid \<Rightarrow> bool) \<Rightarrow> mq_spec \<Rightarrow> sent \<times> mq_spec" where
  "spec_send p m takes s =
     (case qs_read s of
        t # ts \<Rightarrow> (if takes t then Sent else Resend, s\<lparr>qs_read := ts\<rparr>)
      | [] \<Rightarrow> if p > EVENT_MSG_Q_PRIO_LOW then (Bad_Prio, s)
              else if length (pq_all (qs_msgs s)) < qs_max s then (Sent, s\<lparr>qs_msgs := pq_put p m (qs_msgs s)\<rparr>)
              else (Full, s))"

text \<open>A receive: the first message leaves, and the first waiting sender goes on.\<close>

definition spec_take :: "mq_spec \<Rightarrow> (u8 list \<times> mq_spec) option" where
  "spec_take s = map_option (\<lambda>(m, ms). (m, s\<lparr>qs_msgs := ms, qs_send := tl (qs_send s)\<rparr>)) (pq_get (qs_msgs s))"

lemma mq_rep_length: "mq_rep N mq ms \<Longrightarrow> length (pq_all ms) \<le> N"
proof -
  assume "mq_rep N mq ms"
  then obtain fr :: "ulong list" and qs where "length fr + length (pq_all qs) = N" "ms = (\<lambda>p. if p < 8 then map (node_msg mq) (qs p) else [])"
    unfolding mq_rep_def by blast
  moreover from this(2) have "pq_all ms = map (node_msg mq) (pq_all qs)"
    unfolding pq_all_def map_concat by (intro arg_cong [where f = concat]) simp
  ultimately show ?thesis by simp
qed

lemma mq_state_sys: "mq_state T k e s \<Longrightarrow> sys_ok T k" "mq_state T k e s \<Longrightarrow> ipc_ok T k"
  by (simp_all add: mq_state_def sys_ok_def)

lemma mq_state_num:
  assumes "mq_state T k e s"
  shows "EventWaitNum EVENT_MSG_Q_R e k = 0 \<longleftrightarrow> qs_read s = []" "EventWaitNum EVENT_MSG_Q_S e k = 0 \<longleftrightarrow> qs_send s = []"
    "EVENT_ulCounter (K_eventBuffer k e) = 0 \<longleftrightarrow> pq_all (qs_msgs s) = []"
    "EVENT_ulCounter (K_eventBuffer k e) < EVENT_ulMaxCounter (K_eventBuffer k e) \<longleftrightarrow> length (pq_all (qs_msgs s)) < qs_max s"
  using assms wait_num [OF mq_state_sys(2) [OF assms]]
  by (auto simp: mq_state_def word_less_nat_alt unat_eq_zero [symmetric] simp del: unat_eq_zero)

section \<open>Changes that keep the rest\<close>

lemma sys_ok_mq_set: "sys_ok T k \<Longrightarrow> sys_ok T (k\<lparr>K_msgqueueBuffer := m\<rparr>)"
proof (rule sys_ok_same)
  assume ok: "sys_ok T k"
  show "kern_ok T (k\<lparr>K_msgqueueBuffer := m\<rparr>)" by (rule kern_ok_sview [OF sys_ok_kern [OF ok]])
    (auto simp: rdyset_def LW_THREAD_IS_READY_def sview_def rdy_pcbbmap_def LW_CAND_TCB_def fun_eq_iff split: option.splits)
qed (simp_all add: okern_def dline_def)

lemma mq_set_sel [simp]:
  "mq_of (mq_set e mq k) e = mq" "K_tcb (mq_set e mq k) = K_tcb k" "K_eventBuffer (mq_set e mq k) = K_eventBuffer k"
  "waiters (mq_set e mq k) = waiters k" "EventWaitNum q e' (mq_set e mq k) = EventWaitNum q e' k" "K_ncpus (mq_set e mq k) = K_ncpus k"
  "LW_TCB_GET_CUR (mq_set e mq k) = LW_TCB_GET_CUR k"
  by (simp_all add: mq_of_def mq_set_def mq_idx_def waiters_def by_prio_def wq_def EventWaitNum_def fun_eq_iff LW_TCB_GET_CUR_def)

lemma mq_of_counter [simp]: "mq_of (set_counter e v k) e' = mq_of k e'"
  by (simp add: mq_of_def mq_idx_def) (simp add: set_counter_def)

lemma mq_of_cong: "evview (K_eventBuffer k' e) = evview (K_eventBuffer k e) \<Longrightarrow> K_msgqueueBuffer k' = K_msgqueueBuffer k \<Longrightarrow> mq_of k' e = mq_of k e"
  by (simp add: mq_of_def mq_idx_def evview_def)

lemma mq_state_cong:
  assumes "mq_state T k e s" and "sys_ok T k'" and "evview (K_eventBuffer k' e) = evview (K_eventBuffer k e)" and "K_msgqueueBuffer k' = K_msgqueueBuffer k"
  shows "mq_state T k' e (s\<lparr>qs_read := waiters k' e EVENT_MSG_Q_R, qs_send := waiters k' e EVENT_MSG_Q_S\<rparr>)"
proof -
  have m: "mq_of k' e = mq_of k e" by (rule mq_of_cong [OF assms(3,4)])
  show ?thesis using assms(1,2) unfolding mq_state_def m evviewD [OF assms(3)] by (cases s) simp
qed

lemma mq_state_woken:
  assumes "mq_state T k e s" and "sys_ok T k'" and "mq_woken t ty e q k k'"
  shows "q = EVENT_MSG_Q_R \<Longrightarrow> mq_state T k' e (s\<lparr>qs_read := tl (qs_read s)\<rparr>)" "q = EVENT_MSG_Q_S \<Longrightarrow> mq_state T k' e (s\<lparr>qs_send := tl (qs_send s)\<rparr>)"
proof -
  have W: "waiters k' e' q' = (if e' = e \<and> q' = q then tl (waiters k e q) else waiters k e' q')" for e' q' using assms(3) by (simp add: mq_woken_def)
  have S: "mq_state T k' e (s\<lparr>qs_read := waiters k' e EVENT_MSG_Q_R, qs_send := waiters k' e EVENT_MSG_Q_S\<rparr>)"
    by (rule mq_state_cong [OF assms(1,2)]) (use assms(3) in \<open>simp_all add: mq_woken_def\<close>)
  have q: "qs_read s = waiters k e EVENT_MSG_Q_R" "qs_send s = waiters k e EVENT_MSG_Q_S" using assms(1) by (simp_all add: mq_state_def)
  show "mq_state T k' e (s\<lparr>qs_read := tl (qs_read s)\<rparr>)" if "q = EVENT_MSG_Q_R" using S unfolding W that q [symmetric] by simp
  show "mq_state T k' e (s\<lparr>qs_send := tl (qs_send s)\<rparr>)" if "q = EVENT_MSG_Q_S" using S unfolding W that q [symmetric] by simp
qed

text \<open>The buffer and the counter change together.\<close>

lemma mq_state_msgs:
  assumes S: "mq_state T k e s" and R: "mq_rep (qs_max s) mq ms" and z: "MSGQUEUE_stMaxBytes mq = MSGQUEUE_stMaxBytes (mq_of k e)"
    and c: "unat v = length (pq_all ms)"
  shows "mq_state T (mq_set e mq (set_counter e v k)) e (s\<lparr>qs_msgs := ms\<rparr>)"
  using assms sys_ok_mq_set [OF sys_ok_counter [OF mq_state_sys(1) [OF S]]]
  by (simp add: mq_state_def mq_fits_def) (simp add: mq_set_def)


end
