(* ===== verification/WakeLoop.thy ===== *)
theory WakeLoop
  imports Prelude
begin

text \<open>
  The loops of a broadcast, a flush, a deletion and of the readers that are let in: wake the first waiter while the queue counts any.
  \<open>obs\<close> is what is observed of a thread, \<open>res\<close> what it is for a thread that has been woken.
\<close>

locale wake_loop =
  fixes ok :: "'k \<Rightarrow> bool" and queue :: "'k \<Rightarrow> 't list" and busy :: "'k \<Rightarrow> bool" and wake :: "'k \<Rightarrow> 'k"
    and loop :: "'k \<Rightarrow> 'k option" and obs :: "'k \<Rightarrow> 't \<Rightarrow> 'o" and res :: "'k \<Rightarrow> 't \<Rightarrow> 'o"
  assumes loop_eq: "loop k = (if busy k then loop (wake k) else Some k)"
    and busy_queue: "ok k \<Longrightarrow> busy k \<longleftrightarrow> queue k \<noteq> []"
    and queue_distinct: "ok k \<Longrightarrow> distinct (queue k)"
    and wake_ok: "ok k \<Longrightarrow> queue k = t # ts \<Longrightarrow> ok (wake k) \<and> queue (wake k) = ts"
    and wake_obs: "ok k \<Longrightarrow> queue k = t # ts \<Longrightarrow> obs (wake k) u = (if u = t then res k t else obs k u)"
    and wake_res: "ok k \<Longrightarrow> queue k = t # ts \<Longrightarrow> u \<noteq> t \<Longrightarrow> res (wake k) u = res k u"
begin

lemma loop_spec:
  assumes "ok k"
  shows "\<exists>k'. loop k = Some k' \<and> ok k' \<and> queue k' = [] \<and> (\<forall>u. obs k' u = (if u \<in> set (queue k) then res k u else obs k u))"
  using assms
proof (induction "queue k" arbitrary: k)
  case Nil
  from Nil(1) [symmetric] have q: "queue k = []" .
  then have "loop k = Some k" using busy_queue [OF Nil(2)] by (subst loop_eq) simp
  with q Nil(2) show ?case by simp
next
  case (Cons t ts)
  have q: "queue k = t # ts" by (rule Cons.hyps(2) [symmetric])
  note W = wake_ok [OF Cons.prems q] wake_obs [OF Cons.prems q] wake_res [OF Cons.prems q]
  have n: "t \<notin> set ts" using queue_distinct [OF Cons.prems] q by simp
  have L: "loop k = loop (wake k)" using busy_queue [OF Cons.prems] q by (subst loop_eq) simp
  obtain k' where K: "loop (wake k) = Some k'" "ok k'" "queue k' = []"
    "\<And>u. obs k' u = (if u \<in> set ts then res (wake k) u else obs (wake k) u)"
    using Cons.hyps(1) [of "wake k"] W(1) by auto
  have "obs k' u = (if u \<in> set (queue k) then res k u else obs k u)" for u
    using K(4) [of u] W(2,3) [of u] n by (cases "u = t") (simp_all add: q)
  then show ?case using K(1-3) L by simp
qed

end

end
