(* ===== verification/MsgQueueOps.thy ===== *)
theory MsgQueueOps
  imports MsgQueueInv WakeLoop
begin

text \<open>
  The operations of the message queues implement the abstract ones: the part of a send and of a
  receive that does not wait, the waits, and the loops that wake every waiting thread.
\<close>

lemma mq_stateD:
  assumes "mq_state T k e s"
  shows "mq_rep (qs_max s) (mq_of k e) (qs_msgs s)" "unat (EVENT_ulCounter (K_eventBuffer k e)) = length (pq_all (qs_msgs s))"
    "qs_size s = unat (MSGQUEUE_stMaxBytes (mq_of k e))" "qs_read s = waiters k e EVENT_MSG_Q_R" "qs_send s = waiters k e EVENT_MSG_Q_S"
    "EVENT_ucType (K_eventBuffer k e) = LW_TYPE_EVENT_MSGQUEUE" "mq_fits (EVENT_ulMaxCounter (K_eventBuffer k e)) (mq_of k e)"
    "qs_max s = unat (EVENT_ulMaxCounter (K_eventBuffer k e))"
  using assms unfolding mq_state_def by blast+

lemma mview_upd [simp]:
  "mview (b\<lparr>TCB_pvMsgBoxMessage := x\<rparr>) = mview b" "mview (b\<lparr>TCB_ucIsEventDelete := y\<rparr>) = mview b"
  by (simp_all add: mview_def)

section \<open>Sending\<close>

lemma mq_wokenD:
  assumes "mq_woken t ty e q k k'"
  shows "waiters k' e' q' = (if e' = e \<and> q' = q then tl (waiters k e q) else waiters k e' q')"
    "TCB_usStatus (K_tcb k' u) = (if u = t then (TCB_usStatus (K_tcb k t) AND NOT LW_THREAD_STATUS_DELAY) AND NOT ty else TCB_usStatus (K_tcb k u))"
    "u \<noteq> t \<Longrightarrow> mview (K_tcb k' u) = mview (K_tcb k u)" "evview (K_eventBuffer k' e') = evview (K_eventBuffer k e')"
    "K_msgqueueBuffer k' = K_msgqueueBuffer k" "K_ncpus k' = K_ncpus k"
  using assms by (simp_all add: mq_woken_def)

text \<open>What a send does to the receiver it finds.\<close>

definition served :: "u8 list \<Rightarrow> ulong \<Rightarrow> tid \<Rightarrow> kernel \<Rightarrow> kernel \<Rightarrow> bool" where
  "served buf len t k k' \<longleftrightarrow> mview (K_tcb k' t) = delivered buf len (K_tcb k t) \<and>
     TCB_usStatus (K_tcb k' t) = (TCB_usStatus (K_tcb k t) AND NOT LW_THREAD_STATUS_DELAY) AND NOT LW_THREAD_STATUS_MSGQUEUE \<and>
     (\<forall>u. u \<noteq> t \<longrightarrow> mview (K_tcb k' u) = mview (K_tcb k u) \<and> TCB_usStatus (K_tcb k' u) = TCB_usStatus (K_tcb k u))"

lemma mq_try_send_reader:
  assumes S: "mq_state T k e s" and r: "qs_read s = t # ts"
  obtains k' where "mq_try_send buf len p e k = (if accepts len (K_tcb k t) then Sent else Resend, k')"
    "mq_state T k' e (s\<lparr>qs_read := ts\<rparr>)" "served buf len t k k'"
proof -
  have w: "waiters k e EVENT_MSG_Q_R = t # ts" using S r by (simp add: mq_state_def)
  obtain k' where K: "mq_wake_reader buf len LW_SCHED_ACT_INTERRUPT e k = (accepts len (K_tcb k t), k')" "sys_ok T k'"
    "mq_woken t LW_THREAD_STATUS_MSGQUEUE e EVENT_MSG_Q_R k k'" "mview (K_tcb k' t) = delivered buf len (K_tcb k t)"
    by (rule mq_wake_reader_ok [OF mq_state_sys(1) [OF S] w])
  have "EventWaitNum EVENT_MSG_Q_R e k \<noteq> 0" using mq_state_num(1) [OF S] r by simp
  then have "mq_try_send buf len p e k = (if accepts len (K_tcb k t) then Sent else Resend, k')" by (simp add: mq_try_send_def K(1))
  moreover have "mq_state T k' e (s\<lparr>qs_read := ts\<rparr>)" using mq_state_woken(1) [OF S K(2,3)] r by simp
  moreover have "served buf len t k k'" using K(4) mq_wokenD [OF K(3)] by (simp add: served_def)
  ultimately show thesis by (rule that)
qed

lemma unat_inc_counter: "(v :: ulong) < m \<Longrightarrow> unat (v + 1) = unat v + 1"
  by (rule unat_inc_lt)

lemma mq_try_send_room:
  assumes S: "mq_state T k e s" and r: "qs_read s = []" and p: "p \<le> EVENT_MSG_Q_PRIO_LOW" and room: "length (pq_all (qs_msgs s)) < qs_max s"
    and l: "unat len \<le> length buf" "unat len \<le> qs_size s"
  obtains k' where "mq_try_send buf len p e k = (Sent, k')" "mq_state T k' e (s\<lparr>qs_msgs := pq_put p (take (unat len) buf) (qs_msgs s)\<rparr>)" "K_tcb k' = K_tcb k"
proof -
  let ?c = "EVENT_ulCounter (K_eventBuffer k e)"
  have R: "mq_rep (qs_max s) (mq_of k e) (qs_msgs s)" and c: "unat ?c = length (pq_all (qs_msgs s))"
    and z: "len \<le> MSGQUEUE_stMaxBytes (mq_of k e)" using mq_stateD(1-3) [OF S] l(2) by (simp_all add: word_le_nat_alt)
  have p8: "p < 8" using p by simp
  obtain mq where M: "MsgQueuePut buf len p (mq_of k e) = Some mq" "mq_rep (qs_max s) mq (pq_put p (take (unat len) buf) (qs_msgs s))"
    "MSGQUEUE_stMaxBytes mq = MSGQUEUE_stMaxBytes (mq_of k e)" "MSGQUEUE_pvBuffer mq = MSGQUEUE_pvBuffer (mq_of k e)"
    by (rule MsgQueuePut_rep [OF R room p8 l(1) z])
  have lt: "?c < EVENT_ulMaxCounter (K_eventBuffer k e)" using mq_state_num(4) [OF S] room by simp
  have "EventWaitNum EVENT_MSG_Q_R e k = 0" using mq_state_num(1) [OF S] r by simp
  then have "mq_try_send buf len p e k = (Sent, mq_set e mq (set_counter e (?c + 1) k))"
    using lt p M(1) by (simp add: mq_try_send_def Let_def)
  moreover have "unat (?c + 1) = length (pq_all (pq_put p (take (unat len) buf) (qs_msgs s)))"
    using unat_inc_counter [OF lt] c by (simp add: pq_len_put [OF p8])
  ultimately show thesis using that [OF _ mq_state_msgs [OF S M(2,3)]] by simp
qed

text \<open>The whole step against \<^const>\<open>spec_send\<close>.\<close>

lemma mq_try_send_refines:
  assumes S: "mq_state T k e s" and l: "unat len \<le> length buf" "unat len \<le> qs_size s"
  shows "\<exists>k' s'. mq_try_send buf len p e k = (fst (spec_send p (take (unat len) buf) (\<lambda>t. accepts len (K_tcb k t)) s), k') \<and>
     s' = snd (spec_send p (take (unat len) buf) (\<lambda>t. accepts len (K_tcb k t)) s) \<and> mq_state T k' e s' \<and>
     (case qs_read s of t # _ \<Rightarrow> served buf len t k k' | [] \<Rightarrow> K_tcb k' = K_tcb k)"
proof (cases "qs_read s")
  case (Cons t ts)
  obtain k' where "mq_try_send buf len p e k = (if accepts len (K_tcb k t) then Sent else Resend, k')"
    "mq_state T k' e (s\<lparr>qs_read := ts\<rparr>)" "served buf len t k k'" by (rule mq_try_send_reader [OF S Cons])
  then show ?thesis by (simp add: spec_send_def Cons)
next
  case Nil
  have n: "EventWaitNum EVENT_MSG_Q_R e k = 0" using mq_state_num(1) [OF S] Nil by simp
  consider "p > EVENT_MSG_Q_PRIO_LOW" | "p \<le> EVENT_MSG_Q_PRIO_LOW" "length (pq_all (qs_msgs s)) < qs_max s"
    | "p \<le> EVENT_MSG_Q_PRIO_LOW" "\<not> length (pq_all (qs_msgs s)) < qs_max s" by linarith
  then show ?thesis
  proof cases
    case 1
    then show ?thesis using S n by (simp add: mq_try_send_def spec_send_def Nil)
  next
    case 2
    obtain k' where "mq_try_send buf len p e k = (Sent, k')" "mq_state T k' e (s\<lparr>qs_msgs := pq_put p (take (unat len) buf) (qs_msgs s)\<rparr>)" "K_tcb k' = K_tcb k"
      by (rule mq_try_send_room [OF S Nil 2 l])
    then show ?thesis using 2 by (simp add: spec_send_def Nil)
  next
    case 3
    then show ?thesis using S n mq_state_num(4) [OF S] by (simp add: mq_try_send_def spec_send_def Nil)
  qed
qed

section \<open>Receiving\<close>

lemma ev_wake_woken:
  assumes ok: "sys_ok T k" and w: "waiters k e q = t # ts"
  obtains k' where "ev_wake e q msg d LW_THREAD_STATUS_MSGQUEUE a k = (Some t, k')" "sys_ok T k'" "mq_woken t LW_THREAD_STATUS_MSGQUEUE e q k k'"
    "mview (K_tcb k' t) = mview (K_tcb k t)" "TCB_ucIsEventDelete (K_tcb k' u) = (if u = t \<and> d then LW_EVENT_DELETE else TCB_ucIsEventDelete (K_tcb k u))"
    "K_resrcEvent k' = K_resrcEvent k" "TCB_ucWaitTimeout (K_tcb k' u) = TCB_ucWaitTimeout (K_tcb k u)"
proof -
  have i: "ipc_ok T k" using ok by (simp add: sys_ok_def)
  define k2 where "k2 = leave_wakeup_line t (tcb_upd t (\<lambda>b. b\<lparr>TCB_pvMsgBoxMessage := msg\<rparr>) (ev_wq_upd e q (wq_del_at (first_index k e q) t) k))"
  define k' where "k' = EventReadyHighLevel t LW_THREAD_STATUS_MSGQUEUE a (if d then tcb_upd t (\<lambda>b. b\<lparr>TCB_ucIsEventDelete := LW_EVENT_DELETE\<rparr>) k2 else k2)"
  have E: "ev_wake e q msg d LW_THREAD_STATUS_MSGQUEUE a k = (Some t, k')"
    by (simp add: ev_wake_def ev_ready_low_eq [OF ipc_okD(3) [OF i] w] k'_def k2_def)
  have s: "sys_ok T k'" using ev_wake_sys [OF ok w, where ty = LW_THREAD_STATUS_MSGQUEUE and msg = msg and d = d and a = a] by (simp add: E)
  have mv: "mview (K_tcb k' v) = mview (K_tcb k v)" for v by (simp add: k'_def k2_def)
  have mb: "K_msgqueueBuffer k' = K_msgqueueBuffer k" by (simp add: k'_def k2_def)
  from ev_wake_spec [OF i w, where msg = msg and d = d and ty = LW_THREAD_STATUS_MSGQUEUE and a = a]
  have W: "waiters k' e' q' = (if e' = e \<and> q' = q then ts else waiters k e' q')"
    "TCB_usStatus (K_tcb k' t) = (TCB_usStatus (K_tcb k t) AND NOT LW_THREAD_STATUS_DELAY) AND NOT LW_THREAD_STATUS_MSGQUEUE"
    "v \<noteq> t \<Longrightarrow> TCB_usStatus (K_tcb k' v) = TCB_usStatus (K_tcb k v)"
    "TCB_ucIsEventDelete (K_tcb k' v) = (if v = t \<and> d then LW_EVENT_DELETE else TCB_ucIsEventDelete (K_tcb k v))"
    "K_eventBuffer k' = K_eventBuffer (ev_wq_upd e q (wq_del_at (first_index k e q) t) k)" "K_ncpus k' = K_ncpus k"
    "K_resrcEvent k' = K_resrcEvent k" "TCB_ucWaitTimeout (K_tcb k' v) = TCB_ucWaitTimeout (K_tcb k v)" for e' q' v
    unfolding E by (metis prod.inject)+
  have "mq_woken t LW_THREAD_STATUS_MSGQUEUE e q k k'" using W(1-3,5,6) mv mb w by (simp add: mq_woken_def)
  then show thesis using that [OF E s] mv W(4,7,8) by simp
qed

lemma memcpy_len: "unat n = length src \<Longrightarrow> memcpy dst src n = src @ drop (length src) dst"
  by (simp add: memcpy_def)

lemma mq_take_ok:
  assumes S: "mq_state T k e s" and G: "spec_take s = Some (m, s')"
  obtains k' where "mq_take sz buf len e k = ((take (unat sz) m @ drop (min (unat sz) (length m)) buf, min sz (of_nat (length m))), k')"
    "mq_state T k' e s'" "length m \<le> qs_size s"
    "\<And>u. mview (K_tcb k' u) = mview (K_tcb k u)"
    "\<And>u. TCB_usStatus (K_tcb k' u) = (if head_of (qs_send s) = Some u
       then (TCB_usStatus (K_tcb k u) AND NOT LW_THREAD_STATUS_DELAY) AND NOT LW_THREAD_STATUS_MSGQUEUE else TCB_usStatus (K_tcb k u))"
proof -
  let ?c = "EVENT_ulCounter (K_eventBuffer k e)"
  from G obtain ms where P: "pq_get (qs_msgs s) = Some (m, ms)" and s': "s' = s\<lparr>qs_msgs := ms, qs_send := tl (qs_send s)\<rparr>" by (auto simp: spec_take_def)
  have R: "mq_rep (qs_max s) (mq_of k e) (qs_msgs s)" and c: "unat ?c = length (pq_all (qs_msgs s))" by (rule mq_stateD [OF S])+
  obtain mq where M: "MsgQueueGet sz (mq_of k e) = Some (take (unat sz) m, min sz (of_nat (length m)), mq)" "mq_rep (qs_max s) mq ms"
    "MSGQUEUE_stMaxBytes mq = MSGQUEUE_stMaxBytes (mq_of k e)" "MSGQUEUE_pvBuffer mq = MSGQUEUE_pvBuffer (mq_of k e)"
    "MsgQueueMsgLen (mq_of k e) = Some (of_nat (length m))" "length m \<le> unat (MSGQUEUE_stMaxBytes (mq_of k e))"
    by (rule MsgQueueGet_rep [OF R P])
  have "unat (MSGQUEUE_stMaxBytes (mq_of k e)) < 2 ^ 64" using unsigned_less [of "MSGQUEUE_stMaxBytes (mq_of k e)"] by simp
  with M(6) have "length m < 2 ^ 64" by linarith
  then have l64: "unat (of_nat (length m) :: ulong) = length m" by (simp add: unat_of_nat)
  have u: "unat (min sz (of_nat (length m))) = min (unat sz) (length m)" by (simp add: min_def word_le_nat_alt l64)
  have A: "pq_all (qs_msgs s) = m # pq_all ms" by (rule pq_get_tl [OF P])
  then have "?c \<noteq> 0" using c by auto
  then have "unat (?c - 1) = length (pq_all ms)" using c A by (simp add: unat_dec)
  from mq_state_msgs [OF S M(2,3) this]
  have S1: "mq_state T (mq_set e mq (set_counter e (?c - 1) k)) e (s\<lparr>qs_msgs := ms\<rparr>)" .
  define k1 where "k1 = mq_set e mq (set_counter e (?c - 1) k)"
  define k' where "k' = (if EventWaitNum EVENT_MSG_Q_S e k1 \<noteq> 0 then snd (ev_wake e EVENT_MSG_Q_S 0 False LW_THREAD_STATUS_MSGQUEUE LW_SCHED_ACT_INTERRUPT k1) else k1)"
  have mc: "memcpy buf (take (unat sz) m) (min sz (of_nat (length m))) = take (unat sz) m @ drop (min (unat sz) (length m)) buf"
    unfolding memcpy_def u by (simp add: min_def)
  have E: "mq_take sz buf len e k = ((take (unat sz) m @ drop (min (unat sz) (length m)) buf, min sz (of_nat (length m))), k')"
    by (simp add: mq_take_def Let_def M(1) mc k'_def k1_def)
  have q: "qs_send s = waiters k1 e EVENT_MSG_Q_S" using S1 by (simp add: mq_state_def k1_def)
  have t1: "K_tcb k1 = K_tcb k" by (simp add: k1_def)
  have m: "length m \<le> qs_size s" using M(6) S by (simp add: mq_state_def)
  show thesis
  proof (cases "qs_send s")
    case Nil
    then have "EventWaitNum EVENT_MSG_Q_S e k1 = 0" using mq_state_num(2) [OF S1] by (simp add: k1_def)
    then have "k' = k1" by (simp add: k'_def)
    moreover have "s' = s\<lparr>qs_msgs := ms\<rparr>" using Nil by (cases s) (simp add: s')
    ultimately show ?thesis using that [OF E] S1 m t1 Nil by (simp add: k1_def head_of_def)
  next
    case (Cons t ts)
    obtain k2 where K: "ev_wake e EVENT_MSG_Q_S 0 False LW_THREAD_STATUS_MSGQUEUE LW_SCHED_ACT_INTERRUPT k1 = (Some t, k2)" "sys_ok T k2"
      "mq_woken t LW_THREAD_STATUS_MSGQUEUE e EVENT_MSG_Q_S k1 k2" "mview (K_tcb k2 t) = mview (K_tcb k1 t)"
      using ev_wake_woken [OF mq_state_sys(1) [OF S1], folded k1_def, of e EVENT_MSG_Q_S t ts 0 False LW_SCHED_ACT_INTERRUPT] q Cons by metis
    have "EventWaitNum EVENT_MSG_Q_S e k1 \<noteq> 0" using mq_state_num(2) [OF S1] Cons by (simp add: k1_def)
    then have k2: "k' = k2" unfolding k'_def K(1) by simp
    have "mq_state T k2 e s'" using mq_state_woken(2) [OF S1 [folded k1_def] K(2,3)] by (simp add: s')
    moreover have "mview (K_tcb k2 u) = mview (K_tcb k u)" for u using K(4) mq_wokenD(3) [OF K(3), of u] t1 by (cases "u = t") simp_all
    ultimately show ?thesis using that [OF E] m k2 mq_wokenD(2) [OF K(3)] t1 Cons by (simp add: head_of_def)
  qed
qed
section \<open>Waiting\<close>

lemma ADD_WAKEUP_msg [simp]:
  "K_msgqueueBuffer (ADD_TO_WAKEUP_LINE t k) = K_msgqueueBuffer k" "mview (K_tcb (ADD_TO_WAKEUP_LINE t k) u) = mview (K_tcb k u)"
  by (simp_all add: ADD_TO_WAKEUP_LINE_def Let_def mview_def split: prod.split)

lemma DEL_READY_mview [simp]: "mview (K_tcb (DEL_FROM_READY_RING t p k) u) = mview (K_tcb k u)"
  by (rule mview_erase [OF erase_eqD(12) [OF erase_DEL]])

lemma ev_block_msg: "K_msgqueueBuffer (ev_block e q ty to k) = K_msgqueueBuffer k" "mview (K_tcb (ev_block e q ty to k) u) = mview (K_tcb k u)"
proof -
  have m: "mview (b\<lparr>TCB_iPendQ := x1, TCB_usStatus := x2, TCB_ucWaitTimeout := x3, TCB_ulDelay := x4, TCB_ppringPriorityQueue := x5, TCB_peventPtr := x6\<rparr>) = mview b"
    for b x1 x2 x3 x4 x5 x6 by (simp add: mview_def)
  show "K_msgqueueBuffer (ev_block e q ty to k) = K_msgqueueBuffer k" "mview (K_tcb (ev_block e q ty to k) u) = mview (K_tcb k u)"
    by (simp_all add: ev_block_eq [OF refl] m)
qed

text \<open>The caller enters the queue, and the queue of messages stays as it is.\<close>

lemma mq_block_ok:
  fixes q :: nat and to :: ulong
  assumes S: "mq_state T k e s" and c: "running T k c"
  defines "k' \<equiv> ev_block e q LW_THREAD_STATUS_MSGQUEUE to k"
  shows "mq_state T k' e (s\<lparr>qs_read := waiters k' e EVENT_MSG_Q_R, qs_send := waiters k' e EVENT_MSG_Q_S\<rparr>)"
    "remove1 c (waiters k' e q) = waiters k e q" "c \<in> set (waiters k' e q)" "q' \<noteq> q \<Longrightarrow> waiters k' e q' = waiters k e q'"
    "\<not> LW_THREAD_IS_READY k' c" "mview (K_tcb k' u) = mview (K_tcb k u)" "sys_ok T k'" "u \<noteq> c \<Longrightarrow> TCB_usStatus (K_tcb k' u) = TCB_usStatus (K_tcb k u)"
proof -
  note C = runningD [OF c] and i = mq_state_sys(2) [OF S]
  note E = ev_block_spec [OF i C(1-4), where ty = LW_THREAD_STATUS_MSGQUEUE and e = e and q = q and to = to, simplified, folded k'_def]
  show ok: "sys_ok T k'" unfolding k'_def by (rule ev_block_sys [OF mq_state_sys(1) [OF S] C(1-4)]) simp_all
  show "mq_state T k' e (s\<lparr>qs_read := waiters k' e EVENT_MSG_Q_R, qs_send := waiters k' e EVENT_MSG_Q_S\<rparr>)"
  proof (rule mq_state_cong [OF S ok])
    show "evview (K_eventBuffer k' e) = evview (K_eventBuffer k e)" by (simp add: E(6))
    show "K_msgqueueBuffer k' = K_msgqueueBuffer k" by (simp add: k'_def ev_block_msg)
  qed
  have n: "c \<notin> set (wq_order (by_prio k e) (wq k e q))"
    using wait_okD(2) [OF ipc_okD(3) [OF i], of c e q] wait_okD(4) [OF ipc_okD(3) [OF i], of c e] C(4) pending_not_ready by (auto simp: waiters_def waits_in_def)
  show "remove1 c (waiters k' e q) = waiters k e q" using enq_mem(2) [OF n, of "prio k"] by (simp add: E(2)) (simp add: waiters_def)
  show "c \<in> set (waiters k' e q)" using wait_okD(2) [OF ipc_okD(3) [OF E(1)], of c e q] E(5) by simp
  show "q' \<noteq> q \<Longrightarrow> waiters k' e q' = waiters k e q'" by (simp add: E(2))
  show "\<not> LW_THREAD_IS_READY k' c" by (simp add: LW_THREAD_IS_READY_def E(3))
  show "mview (K_tcb k' u) = mview (K_tcb k u)" by (simp add: k'_def ev_block_msg)
  show "u \<noteq> c \<Longrightarrow> TCB_usStatus (K_tcb k' u) = TCB_usStatus (K_tcb k u)" by (rule E(4))
qed

lemma mq_recv_vars_ok:
  fixes len sz :: ulong and buf :: "u8 list"
  assumes S: "mq_state T k e s" and c: "running T k c"
  defines "k1 \<equiv> tcb_upd c (\<lambda>b. b\<lparr>TCB_pstMsgByteSize := len, TCB_stMaxByteSize := sz, TCB_pvMsgQueueMessage := buf\<rparr>) k"
  shows "mq_state T k1 e s" "running T k1 c"
proof -
  have ok: "sys_ok T k1" unfolding k1_def
    by (rule sys_ok_msg [OF mq_state_sys(1) [OF S]]) (simp add: msg_only_defs)
  have q: "waiters k1 = waiters k" by (simp add: k1_def)
  have "mq_state T k1 e (s\<lparr>qs_read := waiters k1 e EVENT_MSG_Q_R, qs_send := waiters k1 e EVENT_MSG_Q_S\<rparr>)"
    by (rule mq_state_cong [OF S ok]) (simp_all add: k1_def)
  then show "mq_state T k1 e s" unfolding q mq_stateD(4,5) [OF S, symmetric] by simp
  show "running T k1 c" using c by (simp add: running_def k1_def LW_TCB_GET_CUR_def LW_THREAD_IS_READY_def)
qed

section \<open>Loops that wake every waiter\<close>

text \<open>What the loops keep: the kernel's invariant, the other queues, the events and the buffers.\<close>

definition mq_keeps :: "tid set \<Rightarrow> nat \<Rightarrow> nat \<Rightarrow> kernel \<Rightarrow> kernel \<Rightarrow> bool" where
  "mq_keeps T e q k0 k \<longleftrightarrow> sys_ok T k \<and> (\<forall>e'. evview (K_eventBuffer k e') = evview (K_eventBuffer k0 e')) \<and>
     K_msgqueueBuffer k = K_msgqueueBuffer k0 \<and> (\<forall>e' q'. (e', q') \<noteq> (e, q) \<longrightarrow> waiters k e' q' = waiters k0 e' q')"

lemma mq_keeps_woken: "mq_keeps T e q k0 k \<Longrightarrow> sys_ok T k' \<Longrightarrow> mq_woken t ty e q k k' \<Longrightarrow> mq_keeps T e q k0 k'"
  unfolding mq_keeps_def using mq_wokenD [of t ty e q k k'] by auto

lemma mq_keeps_queue:
  assumes "mq_keeps T e q k0 k"
  shows "EventWaitNum q e k \<noteq> 0 \<longleftrightarrow> waiters k e q \<noteq> []" "distinct (waiters k e q)"
proof -
  have i: "ipc_ok T k" using assms by (simp add: mq_keeps_def sys_ok_def)
  show "EventWaitNum q e k \<noteq> 0 \<longleftrightarrow> waiters k e q \<noteq> []" using wait_num [OF i] by simp
  show "distinct (waiters k e q)" by (rule wait_okD(5) [OF ipc_okD(3) [OF i]])
qed

definition rdy_bits :: "kernel \<Rightarrow> tid \<Rightarrow> u16" where
  "rdy_bits k t = (TCB_usStatus (K_tcb k t) AND NOT LW_THREAD_STATUS_DELAY) AND NOT LW_THREAD_STATUS_MSGQUEUE"

interpretation bcast: wake_loop "mq_keeps T e EVENT_MSG_Q_R k0" "\<lambda>k. waiters k e EVENT_MSG_Q_R" "\<lambda>k. EventWaitNum EVENT_MSG_Q_R e k \<noteq> 0"
  "\<lambda>k. snd (mq_wake_reader buf len LW_SCHED_ACT_OTHER e k)" "mq_broadcast buf len e"
  "\<lambda>k t. (TCB_usStatus (K_tcb k t), mview (K_tcb k t))" "\<lambda>k t. (rdy_bits k t, delivered buf len (K_tcb k t))"
  for T e k0 buf len
proof unfold_locales
  fix k :: kernel and t u :: tid and ts
  show "mq_broadcast buf len e k = (if EventWaitNum EVENT_MSG_Q_R e k \<noteq> 0
      then mq_broadcast buf len e (snd (mq_wake_reader buf len LW_SCHED_ACT_OTHER e k)) else Some k)"
    by (subst mq_broadcast.simps) simp
  assume K: "mq_keeps T e EVENT_MSG_Q_R k0 k"
  show "(EventWaitNum EVENT_MSG_Q_R e k \<noteq> 0) = (waiters k e EVENT_MSG_Q_R \<noteq> [])" "distinct (waiters k e EVENT_MSG_Q_R)"
    by (rule mq_keeps_queue [OF K])+
  assume w: "waiters k e EVENT_MSG_Q_R = t # ts"
  have ok: "sys_ok T k" using K by (simp add: mq_keeps_def)
  obtain k' where R: "mq_wake_reader buf len LW_SCHED_ACT_OTHER e k = (accepts len (K_tcb k t), k')" "sys_ok T k'"
    "mq_woken t LW_THREAD_STATUS_MSGQUEUE e EVENT_MSG_Q_R k k'" "mview (K_tcb k' t) = delivered buf len (K_tcb k t)"
    by (rule mq_wake_reader_ok [OF ok w])
  note W = mq_wokenD [OF R(3)]
  show "mq_keeps T e EVENT_MSG_Q_R k0 (snd (mq_wake_reader buf len LW_SCHED_ACT_OTHER e k)) \<and>
      waiters (snd (mq_wake_reader buf len LW_SCHED_ACT_OTHER e k)) e EVENT_MSG_Q_R = ts"
    using mq_keeps_woken [OF K R(2,3)] W(1) [of e EVENT_MSG_Q_R] w by (simp add: R(1))
  show "(TCB_usStatus (K_tcb (snd (mq_wake_reader buf len LW_SCHED_ACT_OTHER e k)) u), mview (K_tcb (snd (mq_wake_reader buf len LW_SCHED_ACT_OTHER e k)) u)) =
      (if u = t then (rdy_bits k t, delivered buf len (K_tcb k t)) else (TCB_usStatus (K_tcb k u), mview (K_tcb k u)))"
    using W(2,3) [of u] R(4) by (simp add: R(1) rdy_bits_def)
  assume u: "u \<noteq> t"
  have "mview (K_tcb k' u) = mview (K_tcb k u)" by (rule W(3) [OF u])
  then show "(rdy_bits (snd (mq_wake_reader buf len LW_SCHED_ACT_OTHER e k)) u, delivered buf len (K_tcb (snd (mq_wake_reader buf len LW_SCHED_ACT_OTHER e k)) u)) =
      (rdy_bits k u, delivered buf len (K_tcb k u))"
    using W(2) [of u] u by (simp add: R(1) rdy_bits_def mview_def delivered_def accepts_def)
qed

interpretation wakeall: wake_loop "mq_keeps T e q k0" "\<lambda>k. waiters k e q" "\<lambda>k. EventWaitNum q e k \<noteq> 0"
  "\<lambda>k. snd (ev_wake e q 0 d LW_THREAD_STATUS_MSGQUEUE LW_SCHED_ACT_OTHER k)" "ev_wake_all e q d LW_THREAD_STATUS_MSGQUEUE LW_SCHED_ACT_OTHER"
  "\<lambda>k t. (TCB_usStatus (K_tcb k t), TCB_ucIsEventDelete (K_tcb k t), mview (K_tcb k t))"
  "\<lambda>k t. (rdy_bits k t, if d then LW_EVENT_DELETE else TCB_ucIsEventDelete (K_tcb k t), mview (K_tcb k t))"
  for T e q k0 d
proof unfold_locales
  fix k :: kernel and t u :: tid and ts
  let ?w = "snd (ev_wake e q 0 d LW_THREAD_STATUS_MSGQUEUE LW_SCHED_ACT_OTHER k)"
  show "ev_wake_all e q d LW_THREAD_STATUS_MSGQUEUE LW_SCHED_ACT_OTHER k = (if EventWaitNum q e k \<noteq> 0
      then ev_wake_all e q d LW_THREAD_STATUS_MSGQUEUE LW_SCHED_ACT_OTHER ?w else Some k)"
    by (subst ev_wake_all.simps) simp
  assume K: "mq_keeps T e q k0 k"
  show "(EventWaitNum q e k \<noteq> 0) = (waiters k e q \<noteq> [])" "distinct (waiters k e q)" by (rule mq_keeps_queue [OF K])+
  assume w: "waiters k e q = t # ts"
  have ok: "sys_ok T k" using K by (simp add: mq_keeps_def)
  have "sys_ok T ?w \<and> mq_woken t LW_THREAD_STATUS_MSGQUEUE e q k ?w \<and> mview (K_tcb ?w t) = mview (K_tcb k t) \<and>
    TCB_ucIsEventDelete (K_tcb ?w v) = (if v = t \<and> d then LW_EVENT_DELETE else TCB_ucIsEventDelete (K_tcb k v))" for v
    by (rule ev_wake_woken [OF ok w, of 0 d LW_SCHED_ACT_OTHER v]) simp
  then have R: "sys_ok T ?w" "mq_woken t LW_THREAD_STATUS_MSGQUEUE e q k ?w" "mview (K_tcb ?w t) = mview (K_tcb k t)"
    "\<And>v. TCB_ucIsEventDelete (K_tcb ?w v) = (if v = t \<and> d then LW_EVENT_DELETE else TCB_ucIsEventDelete (K_tcb k v))"
    by blast+
  note W = mq_wokenD [OF R(2)]
  show "mq_keeps T e q k0 ?w \<and> waiters ?w e q = ts" using mq_keeps_woken [OF K R(1,2)] W(1) [of e q] w by simp
  show "(TCB_usStatus (K_tcb ?w u), TCB_ucIsEventDelete (K_tcb ?w u), mview (K_tcb ?w u)) =
      (if u = t then (rdy_bits k t, if d then LW_EVENT_DELETE else TCB_ucIsEventDelete (K_tcb k t), mview (K_tcb k t))
       else (TCB_usStatus (K_tcb k u), TCB_ucIsEventDelete (K_tcb k u), mview (K_tcb k u)))"
    using W(2,3) [of u] R(3) R(4) [of u] by (simp add: rdy_bits_def)
  assume u: "u \<noteq> t"
  then show "(rdy_bits ?w u, if d then LW_EVENT_DELETE else TCB_ucIsEventDelete (K_tcb ?w u), mview (K_tcb ?w u)) =
      (rdy_bits k u, if d then LW_EVENT_DELETE else TCB_ucIsEventDelete (K_tcb k u), mview (K_tcb k u))"
    using W(2,3) [of u] R(4) [of u] by (cases d) (simp_all add: rdy_bits_def)
qed

text \<open>The receive variables of a flushed receiver.\<close>

definition flushed :: "tcb \<Rightarrow> u8 list \<times> ulong \<times> ulong \<times> ulong" where
  "flushed b = (TCB_pvMsgQueueMessage b, TCB_stMaxByteSize b, 0, TCB_ulRecvOption b)"

lemma mq_flush_one_ok:
  assumes ok: "sys_ok T k" and w: "waiters k e EVENT_MSG_Q_R = t # ts"
  shows "sys_ok T (mq_flush_one e k)" "mq_woken t LW_THREAD_STATUS_MSGQUEUE e EVENT_MSG_Q_R k (mq_flush_one e k)"
    "mview (K_tcb (mq_flush_one e k) t) = flushed (K_tcb k t)"
proof -
  let ?g = "\<lambda>b. b\<lparr>TCB_pstMsgByteSize := 0\<rparr>"
  have g: "msg_only ?g" by (simp add: msg_only_defs)
  obtain k1 where L: "ev_ready_low e EVENT_MSG_Q_R 0 k = (Some t, k1)" "\<And>u. mview (K_tcb k1 u) = mview (K_tcb k u)"
    and W: "\<And>g a. msg_only g \<Longrightarrow> sys_ok T (wake_with t a g k1) \<and> mq_woken t LW_THREAD_STATUS_MSGQUEUE e EVENT_MSG_Q_R k (wake_with t a g k1) \<and>
       mview (K_tcb (wake_with t a g k1) t) = mview (g (K_tcb k1 t))"
    using wake_with_ok [OF ok w] by blast
  have E: "mq_flush_one e k = wake_with t LW_SCHED_ACT_OTHER ?g k1" by (simp add: mq_flush_one_def L(1) wake_with_def)
  have "mview (?g (K_tcb k1 t)) = flushed (K_tcb k t)" using L(2) [of t] by (simp add: mview_def flushed_def)
  then show "sys_ok T (mq_flush_one e k)" "mq_woken t LW_THREAD_STATUS_MSGQUEUE e EVENT_MSG_Q_R k (mq_flush_one e k)"
    "mview (K_tcb (mq_flush_one e k) t) = flushed (K_tcb k t)" unfolding E using W [OF g] by simp_all
qed

interpretation flush: wake_loop "mq_keeps T e EVENT_MSG_Q_R k0" "\<lambda>k. waiters k e EVENT_MSG_Q_R" "\<lambda>k. EventWaitNum EVENT_MSG_Q_R e k \<noteq> 0"
  "mq_flush_one e" "mq_flush_readers e"
  "\<lambda>k t. (TCB_usStatus (K_tcb k t), mview (K_tcb k t))" "\<lambda>k t. (rdy_bits k t, flushed (K_tcb k t))"
  for T e k0
proof unfold_locales
  fix k :: kernel and t u :: tid and ts
  show "mq_flush_readers e k = (if EventWaitNum EVENT_MSG_Q_R e k \<noteq> 0 then mq_flush_readers e (mq_flush_one e k) else Some k)"
    by (subst mq_flush_readers.simps) simp
  assume K: "mq_keeps T e EVENT_MSG_Q_R k0 k"
  show "(EventWaitNum EVENT_MSG_Q_R e k \<noteq> 0) = (waiters k e EVENT_MSG_Q_R \<noteq> [])" "distinct (waiters k e EVENT_MSG_Q_R)"
    by (rule mq_keeps_queue [OF K])+
  assume w: "waiters k e EVENT_MSG_Q_R = t # ts"
  have ok: "sys_ok T k" using K by (simp add: mq_keeps_def)
  note R = mq_flush_one_ok [OF ok w]
  note W = mq_wokenD [OF R(2)]
  show "mq_keeps T e EVENT_MSG_Q_R k0 (mq_flush_one e k) \<and> waiters (mq_flush_one e k) e EVENT_MSG_Q_R = ts"
    using mq_keeps_woken [OF K R(1,2)] W(1) [of e EVENT_MSG_Q_R] w by simp
  show "(TCB_usStatus (K_tcb (mq_flush_one e k) u), mview (K_tcb (mq_flush_one e k) u)) =
      (if u = t then (rdy_bits k t, flushed (K_tcb k t)) else (TCB_usStatus (K_tcb k u), mview (K_tcb k u)))"
    using W(2,3) [of u] R(3) by (simp add: rdy_bits_def)
  assume u: "u \<noteq> t"
  have "mview (K_tcb (mq_flush_one e k) u) = mview (K_tcb k u)" by (rule W(3) [OF u])
  then show "(rdy_bits (mq_flush_one e k) u, flushed (K_tcb (mq_flush_one e k) u)) = (rdy_bits k u, flushed (K_tcb k u))"
    using W(2) [of u] u by (simp add: rdy_bits_def mview_def flushed_def)
qed

section \<open>The other calls\<close>

lemma mq_keeps_refl: "sys_ok T k \<Longrightarrow> mq_keeps T e q k k"
  by (simp add: mq_keeps_def)

lemma mq_state_keeps:
  assumes S: "mq_state T k e s" and K: "mq_keeps T e q k k'" and z: "waiters k' e q = []"
  shows "q = EVENT_MSG_Q_R \<Longrightarrow> mq_state T k' e (s\<lparr>qs_read := []\<rparr>)" "q = EVENT_MSG_Q_S \<Longrightarrow> mq_state T k' e (s\<lparr>qs_send := []\<rparr>)"
proof -
  have S': "mq_state T k' e (s\<lparr>qs_read := waiters k' e EVENT_MSG_Q_R, qs_send := waiters k' e EVENT_MSG_Q_S\<rparr>)"
    by (rule mq_state_cong [OF S]) (use K in \<open>simp_all add: mq_keeps_def\<close>)
  have q: "waiters k' e q' = waiters k e q'" if "q' \<noteq> q" for q' using K that by (simp add: mq_keeps_def)
  show "mq_state T k' e (s\<lparr>qs_read := []\<rparr>)" if h: "q = EVENT_MSG_Q_R"
  proof -
    have e: "waiters k' e EVENT_MSG_Q_R = []" "waiters k' e EVENT_MSG_Q_S = qs_send s"
      using z h q [of EVENT_MSG_Q_S] mq_stateD(5) [OF S] by simp_all
    show ?thesis using S' unfolding e by simp
  qed
  show "mq_state T k' e (s\<lparr>qs_send := []\<rparr>)" if h: "q = EVENT_MSG_Q_S"
  proof -
    have e: "waiters k' e EVENT_MSG_Q_S = []" "waiters k' e EVENT_MSG_Q_R = qs_read s"
      using z h q [of EVENT_MSG_Q_R] mq_stateD(4) [OF S] by simp_all
    show ?thesis using S' unfolding e by simp
  qed
qed

lemma mq_broadcast_ok:
  assumes S: "mq_state T k e s"
  obtains k' where "mq_broadcast buf len e k = Some k'" "mq_state T k' e (s\<lparr>qs_read := []\<rparr>)"
    "\<And>u. u \<in> set (qs_read s) \<Longrightarrow> TCB_usStatus (K_tcb k' u) = rdy_bits k u \<and> mview (K_tcb k' u) = delivered buf len (K_tcb k u)"
    "\<And>u. u \<notin> set (qs_read s) \<Longrightarrow> TCB_usStatus (K_tcb k' u) = TCB_usStatus (K_tcb k u) \<and> mview (K_tcb k' u) = mview (K_tcb k u)"
proof -
  note r = mq_stateD(4) [OF S]
  from bcast.loop_spec [OF mq_keeps_refl [OF mq_state_sys(1) [OF S], of e EVENT_MSG_Q_R], of buf len]
  obtain k' where K: "mq_broadcast buf len e k = Some k'" "mq_keeps T e EVENT_MSG_Q_R k k'" "waiters k' e EVENT_MSG_Q_R = []"
    "\<And>u. (TCB_usStatus (K_tcb k' u), mview (K_tcb k' u)) =
      (if u \<in> set (waiters k e EVENT_MSG_Q_R) then (rdy_bits k u, delivered buf len (K_tcb k u)) else (TCB_usStatus (K_tcb k u), mview (K_tcb k u)))" by blast
  have "mq_state T k' e (s\<lparr>qs_read := []\<rparr>)" by (rule mq_state_keeps(1) [OF S K(2,3) refl])
  then show thesis using that [OF K(1)] K(4) unfolding r by (metis prod.inject)
qed

lemma mq_flush_readers_ok:
  assumes S: "mq_state T k e s"
  obtains k' where "mq_flush_readers e k = Some k'" "mq_state T k' e (s\<lparr>qs_read := []\<rparr>)"
    "\<And>u. u \<in> set (qs_read s) \<Longrightarrow> TCB_usStatus (K_tcb k' u) = rdy_bits k u \<and> mview (K_tcb k' u) = flushed (K_tcb k u)"
    "\<And>u. u \<notin> set (qs_read s) \<Longrightarrow> TCB_usStatus (K_tcb k' u) = TCB_usStatus (K_tcb k u) \<and> mview (K_tcb k' u) = mview (K_tcb k u)"
proof -
  note r = mq_stateD(4) [OF S]
  from flush.loop_spec [OF mq_keeps_refl [OF mq_state_sys(1) [OF S], of e EVENT_MSG_Q_R]]
  obtain k' where K: "mq_flush_readers e k = Some k'" "mq_keeps T e EVENT_MSG_Q_R k k'" "waiters k' e EVENT_MSG_Q_R = []"
    "\<And>u. (TCB_usStatus (K_tcb k' u), mview (K_tcb k' u)) =
      (if u \<in> set (waiters k e EVENT_MSG_Q_R) then (rdy_bits k u, flushed (K_tcb k u)) else (TCB_usStatus (K_tcb k u), mview (K_tcb k u)))" by blast
  have "mq_state T k' e (s\<lparr>qs_read := []\<rparr>)" by (rule mq_state_keeps(1) [OF S K(2,3) refl])
  then show thesis using that [OF K(1)] K(4) unfolding r by (metis prod.inject)
qed

text \<open>Waking every sender, as a flush or a clear does.\<close>

lemma mq_wake_senders_ok:
  assumes S: "mq_state T k e s"
  obtains k' where "ev_wake_all e EVENT_MSG_Q_S False LW_THREAD_STATUS_MSGQUEUE LW_SCHED_ACT_OTHER k = Some k'" "mq_state T k' e (s\<lparr>qs_send := []\<rparr>)"
    "\<And>u. TCB_usStatus (K_tcb k' u) = (if u \<in> set (qs_send s) then rdy_bits k u else TCB_usStatus (K_tcb k u))"
    "\<And>u. mview (K_tcb k' u) = mview (K_tcb k u)" "\<And>u. TCB_ucIsEventDelete (K_tcb k' u) = TCB_ucIsEventDelete (K_tcb k u)"
proof -
  note r = mq_stateD(5) [OF S]
  from wakeall.loop_spec [OF mq_keeps_refl [OF mq_state_sys(1) [OF S], of e EVENT_MSG_Q_S], of False]
  obtain k' where K: "ev_wake_all e EVENT_MSG_Q_S False LW_THREAD_STATUS_MSGQUEUE LW_SCHED_ACT_OTHER k = Some k'"
    "mq_keeps T e EVENT_MSG_Q_S k k'" "waiters k' e EVENT_MSG_Q_S = []"
    "\<And>u. (TCB_usStatus (K_tcb k' u), TCB_ucIsEventDelete (K_tcb k' u), mview (K_tcb k' u)) =
      (if u \<in> set (waiters k e EVENT_MSG_Q_S) then (rdy_bits k u, if False then LW_EVENT_DELETE else TCB_ucIsEventDelete (K_tcb k u), mview (K_tcb k u))
       else (TCB_usStatus (K_tcb k u), TCB_ucIsEventDelete (K_tcb k u), mview (K_tcb k u)))" by blast
  have M: "mq_state T k' e (s\<lparr>qs_send := []\<rparr>)" by (rule mq_state_keeps(2) [OF S K(2,3) refl])
  have "TCB_usStatus (K_tcb k' u) = (if u \<in> set (qs_send s) then rdy_bits k u else TCB_usStatus (K_tcb k u))" "mview (K_tcb k' u) = mview (K_tcb k u)"
    "TCB_ucIsEventDelete (K_tcb k' u) = TCB_ucIsEventDelete (K_tcb k u)" for u
    using K(4) [of u] unfolding r by (simp_all split: if_splits)
  then show thesis using that [OF K(1) M] by blast
qed

lemma mq_clear_ok:
  assumes S: "mq_state T k e s"
  obtains k' where "mq_clear e k = Some (ERROR_NONE, (), k')" "mq_state T k' e (s\<lparr>qs_msgs := \<lambda>_. [], qs_send := []\<rparr>)"
    "\<And>u. TCB_usStatus (K_tcb k' u) = (if u \<in> set (qs_send s) then rdy_bits k u else TCB_usStatus (K_tcb k u))"
proof -
  let ?mq = "MsgQueueClear (EVENT_ulMaxCounter (K_eventBuffer k e)) (mq_of k e)"
  note D = mq_stateD [OF S] and C = MsgQueueClear_rep [OF mq_stateD(7) [OF S]]
  define k1 where "k1 = mq_set e ?mq (set_counter e 0 k)"
  have c: "set_counter e 0 (mq_set e ?mq k) = k1"
    by (simp add: k1_def set_counter_def mq_set_def mq_idx_def event_upd_def)
  have S1: "mq_state T k1 e (s\<lparr>qs_msgs := \<lambda>_. []\<rparr>)" unfolding k1_def
  proof (rule mq_state_msgs [OF S])
    show "mq_rep (qs_max s) ?mq (\<lambda>_. [])" unfolding D(8) by (rule C(1))
    show "MSGQUEUE_stMaxBytes ?mq = MSGQUEUE_stMaxBytes (mq_of k e)" by (rule C(2))
  qed simp
  show thesis
  proof (rule mq_wake_senders_ok [OF S1])
    fix k' assume K: "ev_wake_all e EVENT_MSG_Q_S False LW_THREAD_STATUS_MSGQUEUE LW_SCHED_ACT_OTHER k1 = Some k'"
      "mq_state T k' e (s\<lparr>qs_msgs := \<lambda>_. [], qs_send := []\<rparr>)"
      and t: "\<And>u. TCB_usStatus (K_tcb k' u) = (if u \<in> set (qs_send (s\<lparr>qs_msgs := \<lambda>_. []\<rparr>)) then rdy_bits k1 u else TCB_usStatus (K_tcb k1 u))"
    have E: "mq_clear e k = Some (ERROR_NONE, (), k')" unfolding mq_clear_def Let_def c K(1) by simp
    have "K_tcb k1 = K_tcb k" unfolding k1_def mq_set_sel by simp
    then have "TCB_usStatus (K_tcb k' u) = (if u \<in> set (qs_send s) then rdy_bits k u else TCB_usStatus (K_tcb k u))" for u
      using t [of u] by (simp add: rdy_bits_def)
    then show thesis by (rule that [OF E K(2)])
  qed
qed


end
