(* ===== verification/Blocking.thy ===== *)
theory Blocking
  imports Steps
begin

text \<open>
  A thread that has blocked gives up its processor when it leaves the kernel: the processor goes on
  with another thread, which is ready, and the call returns only after the absence.
\<close>

text \<open>The processor that acts is up, inside the kernel once, and not in an interrupt.\<close>

definition in_section :: "kernel \<Rightarrow> bool" where
  "in_section k \<longleftrightarrow> K_curcpu k < K_ncpus k \<and> CPU_bActive (K_cpu k (K_curcpu k)) \<and> CPU_ulInterNesting (K_cpu k (K_curcpu k)) = 0 \<and>
     CPU_iKernelCounter (K_cpu k (K_curcpu k)) = 1"

lemma SchedGetCand_blocked:
  assumes ok: "sys_ok T k" and c: "i < K_ncpus k" "CPU_bActive (K_cpu k i)" "CPU_ulInterNesting (K_cpu k i) = 0" "CPU_iKernelCounter (K_cpu k i) = 0"
    and n: "\<not> LW_THREAD_IS_READY k (cur_of k i)"
  obtains t k' where "SchedGetCand i 1 k = (Some t, k')" "sys_ok T k'" "LW_CAND_TCB k' i = Some t" "LW_THREAD_IS_READY k' t" "t \<noteq> cur_of k i"
    "erase k' = erase (cpu_upd i (\<lambda>p. p\<lparr>CPU_bSchedIpiPend := False\<rparr>) k)"
proof -
  have p: "can_preemptive i 1 k" using c n by (simp add: can_preemptive_def)
  obtain t k' where G: "SchedGetCand i 1 k = (Some t, k')" "kern_ok T k'" "LW_CAND_TCB k' i = Some t"
    "erase k' = erase (cpu_upd i (\<lambda>p. p\<lparr>CPU_bSchedIpiPend := False\<rparr>) k)"
    using SchedGetCand_spec [OF sys_ok_kern [OF ok] c(1,2) p] by metis
  have ok': "sys_ok T k'" using SchedGetCand_sys [OF ok c(1,2), of 1] G(1) by simp
  have r: "LW_THREAD_IS_READY k' t" by (rule kern_ok_cand(1) [OF G(2,3)])
  have "LW_THREAD_IS_READY k' (cur_of k i) = LW_THREAD_IS_READY k (cur_of k i)"
    using erase_tcbD [OF G(4), of "cur_of k i"] by (simp add: LW_THREAD_IS_READY_def)
  then have "t \<noteq> cur_of k i" using r n by auto
  then show thesis using that [OF G(1) ok' G(3) r _ G(4)] by blast
qed

lemma notify_other:
  "K_mem (fold (smp_notify_cpu c) xs k) = K_mem k" "K_i64KernelTime (fold (smp_notify_cpu c) xs k) = K_i64KernelTime k"
  "K_curcpu (fold (smp_notify_cpu c) xs k) = K_curcpu k"
  by (induction xs arbitrary: k; simp add: smp_notify_cpu_def SmpSendIpi_def)+

text \<open>The state in which the thread is away: another thread runs on its processor.\<close>

definition away :: "tid set \<Rightarrow> tid \<Rightarrow> kernel \<Rightarrow> kernel \<Rightarrow> bool" where
  "away T c k k3 \<longleftrightarrow> sys_ok T k3 \<and> K_curcpu k3 = K_curcpu k \<and> K_mem k3 = K_mem k \<and> K_i64KernelTime k3 = K_i64KernelTime k \<and>
     (\<exists>t. CPU_ptcbTCBCur (K_cpu k3 (K_curcpu k)) = Some t \<and> t \<noteq> c \<and> LW_THREAD_IS_READY k3 t) \<and>
     (\<forall>u. TCB_usStatus (K_tcb k3 u) = TCB_usStatus (K_tcb k u)) \<and> (\<forall>u. prio k3 u = prio k u) \<and>
     K_eventBuffer k3 = K_eventBuffer k \<and> K_ncpus k3 = K_ncpus k"

lemma blocked_leaves:
  assumes ok: "sys_ok T k" and s: "in_section k" and c: "LW_TCB_GET_CUR k = c" "\<not> LW_THREAD_IS_READY k c" "TCB_plineStatusReqHeader (K_tcb k c) = []"
  obtains k3 where "away T c k k3" "kernelExit [] k = None"
    "\<And>f env. kernelExit (f # env) k = Some (TCB_iSchedRet (K_tcb (f k3) (LW_TCB_GET_CUR (f k3))), env,
       tcb_upd (LW_TCB_GET_CUR (f k3)) (\<lambda>b. b\<lparr>TCB_iSchedRet := 0\<rparr>) (f k3))"
proof -
  let ?i = "K_curcpu k" and ?f = "\<lambda>p :: cpu. p\<lparr>CPU_iKernelCounter := CPU_iKernelCounter p - 1\<rparr>"
  define k1 where "k1 = cpu_upd ?i ?f k"
  have ok1: "sys_ok T k1" unfolding k1_def by (rule sys_ok_cpu [OF ok]) simp_all
  have c1: "cur_of k1 ?i = c" "LW_TCB_GET_CUR k1 = c" using c(1) by (simp_all add: k1_def cur_of_def LW_TCB_GET_CUR_def)
  have f1: "K_curcpu k1 = ?i" "?i < K_ncpus k1" "CPU_bActive (K_cpu k1 ?i)" "CPU_ulInterNesting (K_cpu k1 ?i) = 0" "CPU_iKernelCounter (K_cpu k1 ?i) = 0"
    "TCB_plineStatusReqHeader (K_tcb k1 c) = []" "K_mem k1 = K_mem k" "K_i64KernelTime k1 = K_i64KernelTime k" "K_eventBuffer k1 = K_eventBuffer k" "K_tcb k1 = K_tcb k" "K_ncpus k1 = K_ncpus k"
    using s c(3) by (simp_all add: k1_def in_section_def)
  have "\<not> LW_THREAD_IS_READY k1 (cur_of k1 ?i)" unfolding c1 using c(2) by (simp add: k1_def LW_THREAD_IS_READY_def)
  from SchedGetCand_blocked [OF ok1 f1(2-5) this] obtain t k2 where G: "SchedGetCand ?i 1 k1 = (Some t, k2)" "sys_ok T k2"
    "LW_CAND_TCB k2 ?i = Some t" "LW_THREAD_IS_READY k2 t" "t \<noteq> c"
    and E: "erase k2 = erase (cpu_upd ?i (\<lambda>p. p\<lparr>CPU_bSchedIpiPend := False\<rparr>) k1)" unfolding c1 by metis
  define k3 where "k3 = SchedSwp ?i (cpu_upd ?i (\<lambda>p. p\<lparr>CPU_bIsIntSwitch := False, CPU_ptcbTCBHigh := Some t\<rparr>) k2)"
  have S: "Schedule env k1 = (case env of [] \<Rightarrow> None | f # env \<Rightarrow> Some (TCB_iSchedRet (K_tcb (f k3) (LW_TCB_GET_CUR (f k3))), env,
       tcb_upd (LW_TCB_GET_CUR (f k3)) (\<lambda>b. b\<lparr>TCB_iSchedRet := 0\<rparr>) (f k3)))" for env
    using G(1,5) by (simp add: Schedule_def Let_def c1(2) f1(1,6) k3_def split: list.split)
  have X: "kernelExit env k = Schedule env k1" for env using s by (simp add: k1_def kernelExit_def in_section_def Let_def)
  have ok3: "sys_ok T k3" unfolding k3_def by (intro sys_ok_swp sys_ok_cpu G(2)) simp_all
  have m: "K_mem k2 = K_mem k" using erase_mem [OF E] f1(7) by simp
  have "away T c k k3"
    unfolding away_def
  proof (intro conjI exI allI)
    show "sys_ok T k3" by (rule ok3)
    show "K_ncpus k3 = K_ncpus k" "K_curcpu k3 = K_curcpu k" "K_i64KernelTime k3 = K_i64KernelTime k" "K_eventBuffer k3 = K_eventBuffer k"
      using erase_kernelD [OF E] f1 by (simp_all add: k3_def SchedSwp_def SchedSmpNotify_def notify_other smp_notify_frame)
    show "K_mem k3 = K_mem k" by (simp add: k3_def SchedSwp_def SchedSmpNotify_def notify_other m)
    show "CPU_ptcbTCBCur (K_cpu k3 ?i) = Some t" by (simp add: k3_def SchedSwp_def SchedSmpNotify_def smp_notify_frame)
    show "t \<noteq> c" by (rule G(5))
    have T3: "K_tcb k3 = K_tcb k2" by (simp add: k3_def SchedSwp_def SchedSmpNotify_def smp_notify_frame)
    show "LW_THREAD_IS_READY k3 t" using G(4) by (simp add: LW_THREAD_IS_READY_def T3)
    show "TCB_usStatus (K_tcb k3 u) = TCB_usStatus (K_tcb k u)" 
      "prio k3 u = prio k u" for u using erase_tcbD [OF E, of u] by (simp_all add: T3 f1(10) prio_def)
  qed
  then show thesis using that [of k3] S X by simp
qed

end
