(* ===== verification/SemProps.thy ===== *)
theory SemProps
  imports SemInv
begin

text \<open>
  The calls on semaphores: what a post, a pend and a try do on every branch, which error a call
  returns and that a failing call leaves the semaphores alone.
\<close>

section \<open>Bodies\<close>

lemma semC_post_give:
  assumes ok: "ipc_ok T k" and r: "semC_post e k = Some (r, t, k')"
  shows "ipc_ok T k'" "(r, sem_abs k' e) = spec_give 1 (sem_abs k e)" "t = head_of (waiters k e EVENT_SEM_Q)"
proof -
  have "ipc_ok T k' \<and> (r, sem_abs k' e) = spec_give 1 (sem_abs k e) \<and> t = head_of (waiters k e EVENT_SEM_Q)"
  proof (cases "waiters k e EVENT_SEM_Q")
    case (Cons u us)
    obtain k1 where W: "ev_wake e EVENT_SEM_Q 0 False LW_THREAD_STATUS_SEM LW_SCHED_ACT_INTERRUPT k = (Some u, k1)" "ipc_ok T k1"
      "sem_abs k1 e = (sem_abs k e)\<lparr>ss_wait := us\<rparr>" by (rule wake_sem [OF ok Cons])
    have "EventWaitNum EVENT_SEM_Q e k \<noteq> 0" using wait_num [OF ok] Cons by simp
    with r W(1) have "r = ERROR_NONE" "t = Some u" "k' = k1" by (simp_all add: semC_post_def)
    with W Cons spec_give_Suc_wait [of "sem_abs k e" u us 0] show ?thesis by (simp add: spec_give_def)
  next
    case Nil
    then have n: "EventWaitNum EVENT_SEM_Q e k = 0" using wait_num [OF ok] by simp
    show ?thesis
    proof (cases "EVENT_ulCounter (K_eventBuffer k e) < EVENT_ulMaxCounter (K_eventBuffer k e)")
      case True
      with r n ok Nil spec_give_Suc_room [of "sem_abs k e" 0] show ?thesis
        by (auto simp: semC_post_def spec_give_def sem_abs_set_counter)
    next
      case False
      with r n ok Nil spec_give_full [of "sem_abs k e" 0] show ?thesis by (auto simp: semC_post_def)
    qed
  qed
  then show "ipc_ok T k'" "(r, sem_abs k' e) = spec_give 1 (sem_abs k e)" "t = head_of (waiters k e EVENT_SEM_Q)" by simp_all
qed

text \<open>A binary semaphore whose count is at most one behaves as a counting one with maximum one.\<close>

lemma semB_post_give:
  assumes ok: "ipc_ok T k" and r: "semB_post msg e k = Some (r, t, k')"
    and m: "EVENT_ulMaxCounter (K_eventBuffer k e) = 1" and c: "EVENT_ulCounter (K_eventBuffer k e) \<le> 1"
  shows "ipc_ok T k'" "(r, sem_abs k' e) = spec_give 1 (sem_abs k e)"
    "waiters k e EVENT_SEM_Q = u # us \<Longrightarrow> t = Some u \<and> TCB_pvMsgBoxMessage (K_tcb k' u) = msg"
proof -
  have "ipc_ok T k' \<and> (r, sem_abs k' e) = spec_give 1 (sem_abs k e) \<and>
      (waiters k e EVENT_SEM_Q = u # us \<longrightarrow> t = Some u \<and> TCB_pvMsgBoxMessage (K_tcb k' u) = msg)"
  proof (cases "waiters k e EVENT_SEM_Q")
    case (Cons v vs)
    obtain k1 where W: "ev_wake e EVENT_SEM_Q msg False LW_THREAD_STATUS_SEM LW_SCHED_ACT_INTERRUPT k = (Some v, k1)" "ipc_ok T k1"
      "sem_abs k1 e = (sem_abs k e)\<lparr>ss_wait := vs\<rparr>" "TCB_pvMsgBoxMessage (K_tcb k1 v) = msg"
      using wake_sem [OF ok Cons, of msg False LW_SCHED_ACT_INTERRUPT] by metis
    have "EventWaitNum EVENT_SEM_Q e k \<noteq> 0" using wait_num [OF ok] Cons by simp
    with r W(1) have R: "r = ERROR_NONE" "t = Some v" "k' = k1" by (simp_all add: semB_post_def)
    have "(ERROR_NONE, sem_abs k1 e) = spec_give 1 (sem_abs k e)"
      using W(3) Cons spec_give_Suc_wait [of "sem_abs k e" v vs 0] by (simp add: spec_give_def)
    then show ?thesis using R W(2,4) Cons by auto
  next
    case Nil
    then have n: "EventWaitNum EVENT_SEM_Q e k = 0" using wait_num [OF ok] by simp
    show ?thesis
    proof (cases "EVENT_ulCounter (K_eventBuffer k e) = 0")
      case True
      with r n have R: "r = ERROR_NONE" "k' = set_counter e 1 k" by (simp_all add: semB_post_def)
      have "(ERROR_NONE, sem_abs (set_counter e 1 k) e) = spec_give 1 (sem_abs k e)"
        using spec_give_Suc_room [of "sem_abs k e" 0] Nil True m by (simp add: spec_give_def sem_abs_set_counter)
      then show ?thesis using R Nil ok by simp
    next
      case False
      with r n have R: "r = ERROR_EVENT_FULL" "k' = k" by (simp_all add: semB_post_def)
      have "spec_give 1 (sem_abs k e) = (ERROR_EVENT_FULL, sem_abs k e)"
        using spec_give_full [of "sem_abs k e" 0] Nil False m by (simp add: word_less_1)
      then show ?thesis using R Nil ok by simp
    qed
  qed
  then show "ipc_ok T k'" "(r, sem_abs k' e) = spec_give 1 (sem_abs k e)"
    "waiters k e EVENT_SEM_Q = u # us \<Longrightarrow> t = Some u \<and> TCB_pvMsgBoxMessage (K_tcb k' u) = msg" by simp_all
qed

lemma sem_delete_spec:
  assumes ok: "ipc_ok T k"
  obtains k' where "sem_delete e k = Some (ERROR_NONE, 0, k')" "waiters k' e EVENT_SEM_Q = []" "ipc_ok T k'"
    "EVENT_ucType (K_eventBuffer k' e) = LW_TYPE_EVENT_UNUSED"
    "RESRC_free (K_resrcEvent k') = RESRC_free (K_resrcEvent k) @ [e]"
    "\<And>t. t \<in> set (waiters k e EVENT_SEM_Q) \<Longrightarrow> pend_result t k' = ERROR_EVENT_WAS_DELETED"
proof -
  let ?k = "event_upd e (\<lambda>e. e\<lparr>EVENT_ucType := LW_TYPE_EVENT_UNUSED\<rparr>) k"
  have ok1: "ipc_ok T ?k" using ok by (rule ipc_ok_event) simp_all
  have w: "waiters ?k e EVENT_SEM_Q = waiters k e EVENT_SEM_Q" by (simp add: event_upd_wait)
  from ev_wake_all_spec [OF ok1 w, of True LW_SCHED_ACT_OTHER] obtain k1 where
    K: "ev_wake_all e EVENT_SEM_Q True LW_THREAD_STATUS_SEM LW_SCHED_ACT_OTHER ?k = Some k1" "ipc_ok T k1"
      "sem_abs k1 e = (sem_abs ?k e)\<lparr>ss_wait := []\<rparr>"
    and D: "\<And>u. TCB_ucIsEventDelete (K_tcb k1 u) = (if u \<in> set (waiters k e EVENT_SEM_Q) \<and> True then LW_EVENT_DELETE else TCB_ucIsEventDelete (K_tcb ?k u))"
      "\<And>u. TCB_ucWaitTimeout (K_tcb k1 u) = TCB_ucWaitTimeout (K_tcb ?k u)"
    and R: "K_resrcEvent k1 = K_resrcEvent ?k" "\<And>e'. EVENT_ucType (K_eventBuffer k1 e') = EVENT_ucType (K_eventBuffer ?k e')"
    by blast
  let ?k2 = "event_upd e (\<lambda>e. e\<lparr>EVENT_pvTcbOwn := None\<rparr>) k1"
  let ?k3 = "Free_Event_Object e ?k2"
  have ok2: "ipc_ok T ?k2" using K(2) by (rule ipc_ok_event) simp_all
  have F: "sview (Free_Event_Object e k') = sview k'" "K_tcb (Free_Event_Object e k') = K_tcb k'"
    "K_eventBuffer (Free_Event_Object e k') = K_eventBuffer k'" "K_cpu (Free_Event_Object e k') = K_cpu k'"
    "K_ncpus (Free_Event_Object e k') = K_ncpus k'" "K_bug (Free_Event_Object e k') = K_bug k'"
    "K_wuDelay (Free_Event_Object e k') = K_wuDelay k'" for k'
    by (auto simp: Free_Event_Object_def sview_def rdy_pcbbmap_def LW_CAND_TCB_def fun_eq_iff split: option.split)
  have ok3: "ipc_ok T ?k3"
  proof -
    have "kern_ok T ?k3" by (rule kern_ok_sview [OF ipc_okD(1) [OF ok2]]) (simp_all add: F rdyset_def LW_THREAD_IS_READY_def)
    moreover have "delay_ok ?k3 = delay_ok ?k2" by (simp add: delay_ok_def dline_def delayed_def delay_nodes_def F)
    moreover have "wait_ok T ?k3" by (rule wait_ok_cong [OF ipc_okD(3) [OF ok2]]) (simp_all add: by_prio_def wq_def F)
    ultimately show ?thesis using ok2 by (simp add: ipc_ok_def)
  qed
  have w1: "waiters k1 e EVENT_SEM_Q = []" using arg_cong [OF K(3), of ss_wait] by simp
  have w3: "waiters ?k3 e EVENT_SEM_Q = waiters ?k2 e EVENT_SEM_Q" by (simp add: waiters_def by_prio_def wq_def F)
  show thesis
  proof (rule that [of ?k3])
    show "sem_delete e k = Some (ERROR_NONE, 0, ?k3)" using K(1) by (simp add: sem_delete_def)
    show "waiters ?k3 e EVENT_SEM_Q = []" using w1 w3 by (simp add: event_upd_wait)
    show "ipc_ok T ?k3" by (rule ok3)
    show "EVENT_ucType (K_eventBuffer ?k3 e) = LW_TYPE_EVENT_UNUSED" using R(2) by (simp add: F)
    show "RESRC_free (K_resrcEvent ?k3) = RESRC_free (K_resrcEvent k) @ [e]" using R(1) by (simp add: Free_Event_Object_def)
    fix t assume t: "t \<in> set (waiters k e EVENT_SEM_Q)"
    then have "TCB_ucWaitTimeout (K_tcb k t) = 0"
      using wait_okD(2,4) [OF ipc_okD(3) [OF ok], of t e] by (auto simp: waits_in_def)
    with t D show "pend_result t ?k3 = ERROR_EVENT_WAS_DELETED" by (simp add: pend_result_def F)
  qed
qed

section \<open>The pending loop\<close>

text \<open>A pend that blocks, followed by a post: the post wakes the blocked thread, which then succeeds.\<close>

lemma block_post:
  assumes ok: "ipc_ok T k" and c: "LW_TCB_GET_CUR k = c" "c \<in> T" "K_ncpus k \<le> c" "LW_THREAD_IS_READY k c"
    and w: "waiters k e EVENT_SEM_Q = []"
  shows "\<exists>k2. semC_post e (ev_block e EVENT_SEM_Q LW_THREAD_STATUS_SEM to k) = Some (ERROR_NONE, Some c, k2) \<and> ipc_ok T k2 \<and>
     LW_THREAD_IS_READY k2 c \<and> pend_result c k2 = ERROR_NONE \<and> sem_abs k2 e = sem_abs k e"
proof -
  let ?k = "ev_block e EVENT_SEM_Q LW_THREAD_STATUS_SEM to k"
  note B = ev_block_spec [OF ok c, where ty = LW_THREAD_STATUS_SEM and e = e and q = EVENT_SEM_Q and to = to]
  have ok1: "ipc_ok T ?k" using B(1) by simp
  have n: "c \<notin> set (wq_order (by_prio k e) (wq k e EVENT_SEM_Q))" using w by (simp add: waiters_def)
  have "remove1 c (waiters ?k e EVENT_SEM_Q) = []"
    using B(2) [of e EVENT_SEM_Q] enq_mem(2) [OF n, of "prio k"] w by (simp add: waiters_def)
  moreover have "c \<in> set (waiters ?k e EVENT_SEM_Q)" using wait_okD(2) [OF ipc_okD(3) [OF ok1]] B(5) by simp
  ultimately have w1: "waiters ?k e EVENT_SEM_Q = [c]" by (cases "waiters ?k e EVENT_SEM_Q") (auto split: if_splits)
  obtain k2 where W: "ev_wake e EVENT_SEM_Q 0 False LW_THREAD_STATUS_SEM LW_SCHED_ACT_INTERRUPT ?k = (Some c, k2)" "ipc_ok T k2"
    "sem_abs k2 e = (sem_abs ?k e)\<lparr>ss_wait := []\<rparr>"
    "TCB_usStatus (K_tcb k2 c) = (TCB_usStatus (K_tcb ?k c) AND NOT LW_THREAD_STATUS_DELAY) AND NOT LW_THREAD_STATUS_SEM"
    "\<And>u. TCB_ucIsEventDelete (K_tcb k2 u) = (if u = c \<and> False then LW_EVENT_DELETE else TCB_ucIsEventDelete (K_tcb ?k u))"
    "\<And>u. TCB_ucWaitTimeout (K_tcb k2 u) = TCB_ucWaitTimeout (K_tcb ?k u)"
    using wake_sem [OF ok1 w1, of 0 False LW_SCHED_ACT_INTERRUPT] by metis
  have "EventWaitNum EVENT_SEM_Q e ?k \<noteq> 0" using wait_num [OF ok1] w1 by simp
  then have "semC_post e ?k = Some (ERROR_NONE, Some c, k2)" by (simp add: semC_post_def W(1))
  moreover have "LW_THREAD_IS_READY k2 c" using B(3) by (intro woken_ready [OF _ W(4)]) simp
  moreover have "TCB_ucWaitTimeout (K_tcb ?k c) = 0" using wait_okD(4) [OF ipc_okD(3) [OF ok1], of c e] B(5) by (simp add: waits_in_def)
  then have "pend_result c k2 = ERROR_NONE" using W(5) [of c] W(6) [of c] B(10) by (simp add: pend_result_def)
  moreover have "sem_abs k2 e = sem_abs k e" using W(3) B(6) w by (simp add: sem_abs_def)
  ultimately show ?thesis using W(2) by blast
qed

text \<open>A signal has always used up an entry of \<open>env\<close>, so the pending loop ends by itself.\<close>

lemma sem_pend_signal:
  assumes "kernelExit env (ev_block (unat (ObjectGetIndex ulId)) EVENT_SEM_Q LW_THREAD_STATUS_SEM to (kernelEnterIrq k)) = Some (i, env', k')"
    and "i \<noteq> 0" and "\<not> (i = LW_SIGNAL_EINTR \<and> EVENT_ulOption (K_eventBuffer (ev_block (unat (ObjectGetIndex ulId)) EVENT_SEM_Q
        LW_THREAD_STATUS_SEM to (kernelEnterIrq k)) (unat (ObjectGetIndex ulId))) AND LW_OPTION_SIGNAL_INTER \<noteq> 0)"
    and "ObjectClassOK ulId (SK_class sk)" and "\<not> Event_Index_Invalid (unat (ObjectGetIndex ulId))"
    and "\<not> Event_Type_Invalid (unat (ObjectGetIndex ulId)) (SK_type sk) (kernelEnterIrq k)"
    and "EVENT_ulCounter (K_eventBuffer (kernelEnterIrq k) (unat (ObjectGetIndex ulId))) = 0" and "to \<noteq> LW_OPTION_NOT_WAIT"
    and "sigTimeoutRecalc (K_i64KernelTime (kernelEnterIrq k)) to k' \<noteq> LW_OPTION_NOT_WAIT"
  shows "sem_pend sk ulId c to env k = sem_pend sk ulId c (sigTimeoutRecalc (K_i64KernelTime (kernelEnterIrq k)) to k') env' k'"
  using kernelExit_env(1) [OF assms(1,2)] assms by (subst sem_pend.simps) (auto simp: Let_def)

end
