(* ===== verification/BaseProps.thy ===== *)
theory BaseProps
  imports KernelState
begin

text \<open>
  The properties of the ground the kernel stands on: the bit search and the priority bitmap, the
  pointer structures, the wakeup line and the object identifiers.
\<close>

section \<open>The priority bitmap\<close>

text \<open>
  C33: the table-driven \<^verbatim>\<open>archFindLsb\<close> returns one plus the position of the lowest set bit of
  every non-zero word, and zero for zero.
\<close>

theorem find_lsb_correct:
  "if w = 0 then archFindLsb w = 0 else 1 \<le> archFindLsb w \<and> archFindLsb w \<le> 32 \<and> bit w (archFindLsb w - 1) \<and>
     (\<forall>j < archFindLsb w - 1. \<not> bit w j)"
  using archFindLsb_lsb [of w] archFindLsb_le [of w] by (auto simp: is_lsb_def Suc_le_eq)

theorem find_lsb_correct_witness:
  "1 \<le> archFindLsb 0x0a0000 \<and> bit (0x0a0000 :: u32) (archFindLsb 0x0a0000 - 1)"
  using find_lsb_correct [of "0x0a0000"] by simp

text \<open>
  C31: after any sequence of insertions (\<^verbatim>\<open>_BitmapAdd\<close>) and removals (\<^verbatim>\<open>_BitmapDel\<close>) from the
  initial bitmap, \<^verbatim>\<open>_BitmapHigh\<close> is the least priority number that was inserted and not removed
  since, and \<^verbatim>\<open>_BitmapIsEmpty\<close> says whether there is none.
\<close>

definition bmap_op :: "bool \<times> u8 \<Rightarrow> bmap \<Rightarrow> bmap" where
  "bmap_op op b = (if fst op then BitmapAdd b (snd op) else BitmapDel b (snd op))"

definition set_op :: "bool \<times> u8 \<Rightarrow> u8 set \<Rightarrow> u8 set" where
  "set_op op s = (if fst op then insert (snd op) s else s - {snd op})"

lemma bmap_ops: "bmap_wf b \<Longrightarrow> bmap_wf (fold bmap_op ops b) \<and> bmap_set (fold bmap_op ops b) = fold set_op ops (bmap_set b)"
  by (induction ops arbitrary: b)
    (auto simp: bmap_op_def set_op_def bmap.invar_add bmap.invar_del bmap.prios_add bmap.prios_del)

theorem bitmap_is_priority_queue:
  "if fold set_op ops {} = {} then BitmapIsEmpty (fold bmap_op ops BitmapInit)
   else \<not> BitmapIsEmpty (fold bmap_op ops BitmapInit) \<and> BitmapHigh (fold bmap_op ops BitmapInit) = Min (fold set_op ops {})"
  using bmap_ops [OF bmap.invar_empty, of ops] bmap.is_empty_iff bmap.high_eq_Min
  by (simp add: bmap.prios_empty)

section \<open>Rings, lines and chains\<close>

text \<open>
  C34: a ring used as the waiting queues use it is first-in first-out: whatever the memory holds,
  entering distinct nodes with \<^verbatim>\<open>_List_Ring_Add_Ahead\<close> and taking the node before the header out
  with \<^verbatim>\<open>_List_Ring_Del\<close> returns them in the order in which they were entered.
\<close>

theorem ring_fifo:
  assumes "distinct xs"
  shows "\<exists>m' h'. ring_ops.add_all List_Ring_Add_Ahead xs None m = Some (m', h') \<and> ring_ops.take_all List_Ring_Del list_ring_get_prev (length xs) h' m' = Some xs"
  using assms by (rule ring.fifo)

theorem ring_fifo_witness:
  "\<exists>m' h'. ring_ops.add_all List_Ring_Add_Ahead [5, 3, 9 :: nat] None \<lparr>RING_plistNext = (\<lambda>_. None), RING_plistPrev = (\<lambda>_. None)\<rparr> = Some (m', h') \<and>
     ring_ops.take_all List_Ring_Del list_ring_get_prev (length [5, 3, 9 :: nat]) h' m' = Some [5, 3, 9]"
  by (rule ring_fifo) simp

text \<open>
  On the doubly linked lines, \<^verbatim>\<open>_List_Line_Add_Ahead\<close>, \<^verbatim>\<open>_List_Line_Add_Left\<close>,
  \<^verbatim>\<open>_List_Line_Add_Right\<close> and \<^verbatim>\<open>_List_Line_Del\<close> do to the pointers what insertion at the
  front, before a node, behind a node and removal do to the list, and a removal undoes an insertion.
\<close>

theorem line_ops_refine:
  assumes r: "line_rep m hdr (as @ y # bs)" and x: "x \<notin> set (as @ y # bs)"
  shows "(case List_Line_Add_Ahead x hdr m of (m', hdr') \<Rightarrow> line_rep m' hdr' (x # as @ y # bs)) \<and>
    line_rep (List_Line_Add_Left x y m) (if as = [] then Some x else hdr) (as @ x # y # bs) \<and>
    line_rep (List_Line_Add_Right x y m) hdr (as @ y # x # bs) \<and>
    (case List_Line_Del y hdr m of (m', hdr') \<Rightarrow> line_rep m' hdr' (as @ bs)) \<and>
    (case List_Line_Del x hdr (List_Line_Add_Right x y m) of (m', hdr') \<Rightarrow> line_rep m' hdr' (as @ y # bs))"
proof (intro conjI)
  show "case List_Line_Add_Ahead x hdr m of (m', hdr') \<Rightarrow> line_rep m' hdr' (x # as @ y # bs)"
    using List_Line_Add_Ahead_rep [OF r x] by (simp split: prod.splits)
  show R: "line_rep (List_Line_Add_Right x y m) hdr (as @ y # x # bs)"
    by (rule List_Line_Add_Right_rep [OF r x])
  show "case List_Line_Del x hdr (List_Line_Add_Right x y m) of (m', hdr') \<Rightarrow> line_rep m' hdr' (as @ y # bs)"
    using List_Line_Del_rep [of "List_Line_Add_Right x y m" hdr "as @ [y]" x bs] R by simp
qed (rule List_Line_Add_Left_rep [OF r x] List_Line_Del_rep [OF r])+

definition demo_line :: "nat line_mem" where
  "demo_line = \<lparr>LINE_plistNext = (\<lambda>n. if n = 1 then Some 2 else None), LINE_plistPrev = (\<lambda>n. if n = 2 then Some 1 else None)\<rparr>"

theorem line_ops_refine_witness:
  "(case List_Line_Add_Ahead 7 (Some 1) demo_line of (m', hdr') \<Rightarrow> line_rep m' hdr' (7 # [] @ 1 # [2])) \<and>
    line_rep (List_Line_Add_Left 7 1 demo_line) (if [] = ([] :: nat list) then Some 7 else Some 1) ([] @ 7 # 1 # [2]) \<and>
    line_rep (List_Line_Add_Right 7 1 demo_line) (Some 1) ([] @ 1 # 7 # [2]) \<and>
    (case List_Line_Del 1 (Some 1) demo_line of (m', hdr') \<Rightarrow> line_rep m' hdr' ([] @ [2])) \<and>
    (case List_Line_Del 7 (Some 1) (List_Line_Add_Right 7 1 demo_line) of (m', hdr') \<Rightarrow> line_rep m' hdr' ([] @ 1 # [2]))"
  by (rule line_ops_refine) (simp_all add: line_rep_def demo_line_def)

text \<open>
  The sequential resource chain is a queue: \<^verbatim>\<open>_list_mono_free_seq\<close> appends a control block
  at the tail, \<^verbatim>\<open>_list_mono_allocate_seq\<close> takes the block at the head, so that a block given
  back is reused last.
\<close>

theorem mono_seq_queue:
  assumes "mono_rep m phead (y # ys)" and "ptail = last_of (y # ys)" and "x \<notin> set (y # ys)"
  shows "case list_mono_free_seq phead ptail x m of (h1, t1, m1) \<Rightarrow>
     list_mono_allocate_seq h1 t1 m1 = Some (y, head_of (ys @ [x]), last_of (ys @ [x])) \<and> mono_rep m1 (head_of (ys @ [x])) (ys @ [x])"
proof -
  obtain h1 t1 m1 where F: "list_mono_free_seq phead ptail x m = (h1, t1, m1)" by (metis prod_cases3)
  with list_mono_free_seq_rep [OF assms] have "t1 = last_of (y # ys @ [x])" "mono_rep m1 h1 (y # ys @ [x])" by simp_all
  from list_mono_allocate_seq_rep [OF this(2,1)] F show ?thesis by simp
qed

definition demo_mono :: "nat mono_mem" where
  "demo_mono = (\<lambda>n. if n = 1 then Some 2 else None)"

theorem mono_seq_queue_witness:
  "case list_mono_free_seq (Some 1) (Some 2) 4 demo_mono of (h1, t1, m1) \<Rightarrow>
     list_mono_allocate_seq h1 t1 m1 = Some (1, head_of ([2] @ [4]), last_of ([2] @ [4])) \<and> mono_rep m1 (head_of ([2] @ [4])) ([2] @ [4])"
  by (rule mono_seq_queue) (simp_all add: mono_rep_def demo_mono_def last_of_def)

section \<open>The wakeup line\<close>

text \<open>
  C30: \<^verbatim>\<open>_WakeupAdd\<close> and \<^verbatim>\<open>_WakeupDel\<close>, whether or not they account for the elapsed time. The node
  entered expires after exactly the ticks it asked for. When the call accounts for time
  (\<^verbatim>\<open>bProcTime\<close>, and the line has a wakeup function) every node of the line is due earlier by the
  time since the last update, but by no more than the first node had left, the time of the last
  update becomes now and the wakeup function is to be called; otherwise every node stays due when
  it was. Removing a node leaves the expiry of all others as it was, except that a removal of the
  first node that accounts for time moves them on by the elapsed time, by no more than the next node
  had left. The line stays in the order of expiry and no sum of counters overflows.
\<close>

theorem wakeup_add_del_deadlines:
  assumes "wakeup_wf wu ns" and "n \<notin> set (WU_plineHeader wu)" and "WakeupAdd t n b wu ns = (wu1, ns1, w)"
    and "y \<in> set (WU_plineHeader wu1)" and "WakeupDel t' y b' wu1 ns1 = (wu2, ns2)"
  shows "wakeup_wf wu1 ns1 \<and> WUN_bInQ (ns1 n) \<and> deadline ns1 (WU_plineHeader wu1) n = unat (WUN_ulCounter (ns n)) \<and>
    set (WU_plineHeader wu1) = insert n (set (WU_plineHeader wu)) \<and>
    (\<forall>x \<in> set (WU_plineHeader wu). deadline ns1 (WU_plineHeader wu1) x =
       deadline ns (WU_plineHeader wu) x - min (wakeup_elapsed t b wu) (wakeup_first ns (WU_plineHeader wu))) \<and>
    WU_i64LastTime wu1 = (if b \<and> WU_pfuncWakeup wu then t else WU_i64LastTime wu) \<and> w = (b \<and> WU_pfuncWakeup wu) \<and>
    wakeup_wf wu2 ns2 \<and> \<not> WUN_bInQ (ns2 y) \<and> WU_plineHeader wu2 = remove1 y (WU_plineHeader wu1) \<and>
    (\<forall>x \<in> set (WU_plineHeader wu1) - {y}. deadline ns2 (WU_plineHeader wu2) x = deadline ns1 (WU_plineHeader wu1) x -
       (if hd (WU_plineHeader wu1) = y
        then min (wakeup_elapsed t' b' wu1) (deadline ns1 (WU_plineHeader wu1) (hd (WU_plineHeader wu2))) else 0)) \<and>
    WU_i64LastTime wu2 = (if b' \<and> WU_pfuncWakeup wu \<and> hd (WU_plineHeader wu1) = y then t' else WU_i64LastTime wu1) \<and>
    sorted (map (deadline ns2 (WU_plineHeader wu2)) (WU_plineHeader wu2))"
proof -
  note A = WakeupAdd_any [OF assms(1-3)]
  note D = WakeupDel_any [OF A(1) assms(4,5)]
  have "sorted (map (deadline ns2 (WU_plineHeader wu2)) (WU_plineHeader wu2))"
    using D(1) deadline_sorted [of "WU_plineHeader wu2"] by (auto simp: sorted_iff_nth_mono_less wakeup_wf_def)
  moreover have "\<forall>x \<in> set (WU_plineHeader wu1) - {y}. deadline ns2 (WU_plineHeader wu2) x = deadline ns1 (WU_plineHeader wu1) x -
       (if hd (WU_plineHeader wu1) = y
        then min (wakeup_elapsed t' b' wu1) (deadline ns1 (WU_plineHeader wu1) (hd (WU_plineHeader wu2))) else 0)"
    using D(3) by blast
  moreover have "\<forall>x \<in> set (WU_plineHeader wu). deadline ns1 (WU_plineHeader wu1) x =
       deadline ns (WU_plineHeader wu) x - min (wakeup_elapsed t b wu) (wakeup_first ns (WU_plineHeader wu))"
    using A(4) by blast
  ultimately show ?thesis using A(1-3,5-8) D(1,2,4,5) by simp
qed

definition demo_wu :: wakeup where
  "demo_wu = \<lparr>WU_plineHeader = [1, 2], WU_plineOp = None, WU_i64LastTime = 0, WU_pfuncWakeup = False\<rparr>"

definition demo_wun :: wnodes where
  "demo_wun = (\<lambda>n. \<lparr>WUN_bInQ = True, WUN_ulCounter = (if n = 1 then 5 else if n = 2 then 7 else if n = 3 then 8 else 0)\<rparr>)"

text \<open>
  The nodes are due at 5 and 12. Two ticks later node 3 asks for 8 ticks; nine ticks after that the
  first node is taken out, so that node 3, due after 8, is overdue.
\<close>

definition demo_wu_timed :: wakeup where
  "demo_wu_timed = demo_wu\<lparr>WU_i64LastTime := 100, WU_pfuncWakeup := True\<rparr>"

theorem wakeup_add_del_deadlines_witness:
  "\<exists>wu1 ns1 w wu2 ns2. WakeupAdd 102 3 True demo_wu_timed demo_wun = (wu1, ns1, w) \<and> w \<and> WakeupDel 111 1 True wu1 ns1 = (wu2, ns2) \<and>
     deadline ns1 (WU_plineHeader wu1) 3 = 8 \<and> deadline ns1 (WU_plineHeader wu1) 1 = 3 \<and> deadline ns1 (WU_plineHeader wu1) 2 = 10 \<and>
     WU_plineHeader wu2 = [3, 2] \<and> deadline ns2 (WU_plineHeader wu2) 3 = 0 \<and> deadline ns2 (WU_plineHeader wu2) 2 = 2"
proof -
  obtain wu1 ns1 w where a: "WakeupAdd 102 3 True demo_wu_timed demo_wun = (wu1, ns1, w)" by (metis prod_cases3)
  obtain wu2 ns2 where d: "WakeupDel 111 1 True wu1 ns1 = (wu2, ns2)" by force
  have wf: "wakeup_wf demo_wu_timed demo_wun" by (simp add: wakeup_wf_def demo_wu_timed_def demo_wu_def demo_wun_def)
  have n: "3 \<notin> set (WU_plineHeader demo_wu_timed)" by (simp add: demo_wu_timed_def demo_wu_def)
  have l: "WU_plineHeader (fst (WakeupAdd 102 3 True demo_wu_timed demo_wun)) = [1, 3, 2]"
    "WU_pfuncWakeup (fst (WakeupAdd 102 3 True demo_wu_timed demo_wun))" by code_simp+
  have l: "WU_plineHeader wu1 = [1, 3, 2]" "WU_pfuncWakeup wu1" using l by (simp_all add: a)
  have m: "1 \<in> set (WU_plineHeader wu1)" by (simp add: l)
  note W = wakeup_add_del_deadlines [OF wf n a m d]
  have A: "deadline ns1 [1, 3, 2] 3 = 8 \<and> deadline ns1 [1, 3, 2] 1 = 3 \<and> deadline ns1 [1, 3, 2] 2 = 10 \<and> w \<and> WU_i64LastTime wu1 = 102"
    using W by (simp add: l demo_wu_timed_def demo_wu_def demo_wun_def wakeup_elapsed_def wakeup_first_def)
  have e: "wakeup_elapsed 111 True wu1 = 9" by (simp add: wakeup_elapsed_def l A)
  have h: "WU_plineHeader wu2 = [3, 2]" using W by (simp add: l)
  have "\<forall>x \<in> set [1, 3, 2] - {1}. deadline ns2 [3, 2] x = deadline ns1 [1, 3, 2] x - min 9 (deadline ns1 [1, 3, 2] 3)"
    using W unfolding l h e list.sel simp_thms if_True by (elim conjE)
  then have "deadline ns2 [3, 2] x = deadline ns1 [1, 3, 2] x - min 9 (deadline ns1 [1, 3, 2] 3)" if "x = 2 \<or> x = 3" for x
    using that by auto
  from this [of 2] this [of 3] A have "deadline ns2 [3, 2] 3 = 0" "deadline ns2 [3, 2] 2 = 2" by simp_all
  with A have "deadline ns1 (WU_plineHeader wu1) 3 = 8" "deadline ns1 (WU_plineHeader wu1) 1 = 3" "deadline ns1 (WU_plineHeader wu1) 2 = 10"
    "w" "deadline ns2 (WU_plineHeader wu2) 3 = 0" "deadline ns2 (WU_plineHeader wu2) 2 = 2" unfolding l h by blast+
  with a d h show ?thesis by blast
qed

text \<open>
  \<^verbatim>\<open>_WakeupStatus\<close> returns the ticks until a node of the line expires, without wrap-around
  although it adds the counters of the nodes before it, and zero for a node that is not in the line.
\<close>

theorem wakeup_status_deadline:
  assumes "wakeup_wf wu ns" and "WU_i64LastTime wu = 0"
  shows "unat (WakeupStatus t n wu ns) = (if n \<in> set (WU_plineHeader wu) then deadline ns (WU_plineHeader wu) n else 0)"
proof (cases "n \<in> set (WU_plineHeader wu)")
  case True
  with wakeup_sum_deadline [of n "WU_plineHeader wu" 0 ns] assms show ?thesis
    by (auto simp: WakeupStatus_def wakeup_wf_def)
qed (simp add: WakeupStatus_def wakeup_sum_None)

theorem wakeup_status_deadline_witness: "unat (WakeupStatus 0 2 demo_wu demo_wun) = 12"
  using wakeup_status_deadline [of demo_wu demo_wun 0 2]
  by (simp add: wakeup_wf_def demo_wu_def demo_wun_def)

section \<open>Object identifiers\<close>

lemma small_word_bit:
  assumes "(w :: 'a::len word) < 2 ^ n" and "n < LENGTH('a)" and "bit w i"
  shows "i < n"
proof -
  have "take_bit n w = w" using assms(1,2) by (simp add: less_mask_eq take_bit_eq_mask)
  then show ?thesis using assms(3) by (metis bit_take_bit_iff)
qed

lemma object_id_bit:
  assumes "cls < 64" and "node < 0x400" and n: "n < 32"
  shows "bit (MakeObjectId cls node index) n \<longleftrightarrow>
    (if n < 16 then bit index n else if n < 26 then bit node (n - 16) else bit cls (n - 26))"
proof -
  have c: "bit cls i \<Longrightarrow> i < 6" and d: "bit node i \<Longrightarrow> i < 10" for i
    using small_word_bit [of cls 6 i] small_word_bit [of node 10 i] assms(1,2) by auto
  have i: "bit index j \<Longrightarrow> j < 16" for j using bit_imp_le_length [of index j] by simp
  show ?thesis
    using n by (auto simp: MakeObjectId_def bit_simps signed_scast_eq dest: c d i)
qed

lemma MakeObjectId_parts:
  assumes "cls < 64" and "node < 0x400"
  shows "ObjectGetIndex (MakeObjectId cls node index) = index \<and> ObjectGetNode (MakeObjectId cls node index) = ucast node \<and>
    ObjectGetClass (MakeObjectId cls node index) = ucast cls \<and> (ObjectClassOK (MakeObjectId cls node index) c \<longleftrightarrow> c = cls)"
proof -
  let ?w = "MakeObjectId cls node index"
  note B = object_id_bit [OF assms, of _ index]
  have m: "(0xffff :: ulong) = mask 16" "(0x3ff :: ulong) = mask 10" "(0x3f :: ulong) = mask 6"
    by (simp_all add: mask_eq_exp_minus_1)
  have s: "bit cls j \<Longrightarrow> j < 6" "bit node j \<Longrightarrow> j < 10" for j
    using small_word_bit [of cls 6 j] small_word_bit [of node 10 j] assms by auto
  have i: "ObjectGetIndex ?w = index"
    by (rule bit_eqI) (auto simp: ObjectGetIndex_def m bit_simps B)
  have n: "ObjectGetNode ?w = ucast node"
  proof (rule bit_eqI)
    show "bit (ObjectGetNode ?w) j \<longleftrightarrow> bit (ucast node :: ulong) j" for j
      using s(2) [of j] by (cases "j < 10") (auto simp: ObjectGetNode_def m bit_simps B)
  qed
  have c: "ObjectGetClass ?w = ucast cls"
  proof (rule bit_eqI)
    show "bit (ObjectGetClass ?w) j \<longleftrightarrow> bit (ucast cls :: ulong) j" for j
      using s(1) [of j] by (cases "j < 6") (auto simp: ObjectGetClass_def m bit_simps B)
  qed
  have t: "take_bit 64 (unat (v :: u8)) = unat v" for v
    by (rule take_bit_nat_eq_self) (rule less_le_trans [OF u8_le_255], simp)
  have u: "(ucast cls :: ulong) = ucast c \<longleftrightarrow> c = cls" by (auto simp: word_unat_eq_iff unsigned_ucast_eq t)
  show ?thesis using i n c u unfolding ObjectClassOK_def ObjectGetClass_def by simp
qed


text \<open>
  C35: a handle made by \<^verbatim>\<open>_MakeObjectId\<close> decodes to its parts: the index of every width, and the
  class and the node where they fit their six and ten bits, also when the class has its top bit set
  and the shift to the left sign-extends. The class check accepts the handle of that class only.
\<close>

theorem object_id_roundtrip:
  assumes "cls < 64" and "node < 0x400"
  shows "ObjectGetIndex (MakeObjectId cls node index) = index \<and> ObjectGetNode (MakeObjectId cls node index) = ucast node \<and>
    ObjectGetClass (MakeObjectId cls node index) = ucast cls \<and> (ObjectClassOK (MakeObjectId cls node index) c \<longleftrightarrow> c = cls)"
  by (rule MakeObjectId_parts [OF assms])

theorem object_id_roundtrip_witness:
  "ObjectGetIndex (MakeObjectId OBJECT_SEM_M LW_CFG_PROCESSOR_NUMBER 4999) = 4999 \<and>
   ObjectGetNode (MakeObjectId OBJECT_SEM_M LW_CFG_PROCESSOR_NUMBER 4999) = ucast LW_CFG_PROCESSOR_NUMBER \<and>
   ObjectGetClass (MakeObjectId OBJECT_SEM_M LW_CFG_PROCESSOR_NUMBER 4999) = ucast OBJECT_SEM_M \<and>
   (ObjectClassOK (MakeObjectId OBJECT_SEM_M LW_CFG_PROCESSOR_NUMBER 4999) OBJECT_SEM_B \<longleftrightarrow> OBJECT_SEM_B = OBJECT_SEM_M)"
  by (rule object_id_roundtrip) simp_all

end
