(* ===== verification/Section.thy ===== *)
theory Section
  imports SemInv BaseProps
begin

text \<open>
  The frame of a call on an event: entering the kernel changes nothing the components rely on, and a
  call with a valid handle is its body between the entry and the exit.
\<close>

section \<open>Entering the kernel\<close>

lemma cpu_upd_wait [simp]:
  "wq (cpu_upd c f k) = wq k" "by_prio (cpu_upd c f k) = by_prio k" "waiters (cpu_upd c f k) = waiters k"
  "sem_abs (cpu_upd c f k) e = sem_abs k e" "waits_in (cpu_upd c f k) = waits_in k" "pending (cpu_upd c f k) = pending k"
  "delay_ok (cpu_upd c f k) = delay_ok k" "dline (cpu_upd c f k) = dline k" "due (cpu_upd c f k) = due k"
  "prio (cpu_upd c f k) = prio k" "pend_result t (cpu_upd c f k) = pend_result t k" "LW_THREAD_IS_READY (cpu_upd c f k) t = LW_THREAD_IS_READY k t"
  "delayed (cpu_upd c f k) t = delayed k t"
proof -
  show q: "wq (cpu_upd c f k) = wq k" "by_prio (cpu_upd c f k) = by_prio k" by (simp_all add: wq_def by_prio_def fun_eq_iff)
  show w: "waiters (cpu_upd c f k) = waiters k" by (simp add: waiters_def q fun_eq_iff)
  show "sem_abs (cpu_upd c f k) e = sem_abs k e" by (simp add: sem_abs_def w)
  show "waits_in (cpu_upd c f k) = waits_in k" "pending (cpu_upd c f k) = pending k" "prio (cpu_upd c f k) = prio k"
    by (simp_all add: waits_in_def pending_def prio_def fun_eq_iff)
  show l: "dline (cpu_upd c f k) = dline k" by (simp add: dline_def)
  have n: "delay_nodes (cpu_upd c f k) = delay_nodes k" by (simp add: delay_nodes_def)
  show "due (cpu_upd c f k) = due k" by (simp add: due_def l n fun_eq_iff)
  show d: "delayed (cpu_upd c f k) t = delayed k t" for t by (simp add: delayed_def)
  show "delay_ok (cpu_upd c f k) = delay_ok k" by (simp add: delay_ok_def l n d)
  show "pend_result t (cpu_upd c f k) = pend_result t k" "LW_THREAD_IS_READY (cpu_upd c f k) t = LW_THREAD_IS_READY k t"
    by (simp_all add: pend_result_def LW_THREAD_IS_READY_def)
qed

lemma ipc_ok_cpu:
  assumes "ipc_ok T k" and "\<And>p. CPU_pcbbmapReady (f p) = CPU_pcbbmapReady p"
    and "\<And>p. CAND_ptcbCand (f p) = CAND_ptcbCand p" and "\<And>p. CPU_bActive (f p) = CPU_bActive p"
  shows "ipc_ok T (cpu_upd c f k)"
proof -
  have "kern_ok T (cpu_upd c f k)" using assms by (intro kern_ok_cpu ipc_okD(1)) auto
  moreover have "wait_ok T (cpu_upd c f k)" using ipc_okD(3) [OF assms(1)] by (simp add: wait_ok_def)
  ultimately show ?thesis using assms(1) by (simp add: ipc_ok_def)
qed

lemma enter_ipc [simp]: "ipc_ok T k \<Longrightarrow> ipc_ok T (kernelEnterIrq k)" "ipc_ok T k \<Longrightarrow> ipc_ok T (kernelEnter k)"
  unfolding kernelEnterIrq_def kernelEnter_def by (rule ipc_ok_cpu; simp)+

lemma enter_view [simp]:
  "K_tcb (kernelEnterIrq k) = K_tcb k" "K_eventBuffer (kernelEnterIrq k) = K_eventBuffer k" "K_ncpus (kernelEnterIrq k) = K_ncpus k"
  "K_curcpu (kernelEnterIrq k) = K_curcpu k" "K_i64KernelTime (kernelEnterIrq k) = K_i64KernelTime k"
  "waiters (kernelEnterIrq k) = waiters k" "sem_abs (kernelEnterIrq k) e = sem_abs k e" "prio (kernelEnterIrq k) = prio k"
  "LW_TCB_GET_CUR (kernelEnterIrq k) = LW_TCB_GET_CUR k" "LW_THREAD_IS_READY (kernelEnterIrq k) t = LW_THREAD_IS_READY k t"
  "EventWaitNum q e (kernelEnterIrq k) = EventWaitNum q e k" "K_resrcEvent (kernelEnterIrq k) = K_resrcEvent k"
  "by_prio (kernelEnterIrq k) = by_prio k" "Event_Type_Invalid i ty (kernelEnterIrq k) = Event_Type_Invalid i ty k"
  by (simp_all add: kernelEnterIrq_def LW_TCB_GET_CUR_def EventWaitNum_def Event_Type_Invalid_def)

section \<open>A call with a valid handle\<close>

text \<open>The handle of the event control block \<open>e\<close> for a class.\<close>

definition handle :: "u8 \<Rightarrow> nat \<Rightarrow> ulong" where
  "handle cls e = MakeObjectId cls LW_CFG_PROCESSOR_NUMBER (of_nat e)"

lemma handle_parts:
  assumes "cls < 64" and "e < LW_CFG_MAX_EVENTS"
  shows "unat (ObjectGetIndex (handle cls e)) = e" "ObjectClassOK (handle cls e) c \<longleftrightarrow> c = cls"
proof -
  have "e < 2 ^ LENGTH(16)" using assms(2) by simp
  then have u: "unat (of_nat e :: u16) = e" by (simp add: unat_of_nat)
  from MakeObjectId_parts [OF assms(1), of LW_CFG_PROCESSOR_NUMBER "of_nat e"] u
  show "unat (ObjectGetIndex (handle cls e)) = e" "ObjectClassOK (handle cls e) c \<longleftrightarrow> c = cls"
    by (simp_all add: handle_def)
qed

definition exit_with :: "ulong \<Rightarrow> 'a \<Rightarrow> env \<Rightarrow> kernel \<Rightarrow> (ulong \<times> 'a \<times> env \<times> kernel) option" where
  "exit_with r out env k = map_option (\<lambda>(_, env, k). (r, out, env, ErrorHandle r k)) (kernelExitIrq env k)"

lemma event_section_eq:
  assumes "cls < 64" and "e < LW_CFG_MAX_EVENTS"
  shows "event_section cls ty (handle cls e) out body env k =
    (if EVENT_ucType (K_eventBuffer k e) \<noteq> ty then exit_with ERROR_EVENT_TYPE out env (kernelEnterIrq k)
     else case body e (kernelEnterIrq k) of None \<Rightarrow> None | Some (r, out, k) \<Rightarrow> exit_with r out env k)"
  using assms handle_parts [of cls e]
  by (auto simp: event_section_def Let_def Event_Index_Invalid_def Event_Type_Invalid_def exit_with_def
      split: option.splits)

lemma event_section_bad:
  assumes "\<not> ObjectClassOK ulId cls \<or> Event_Index_Invalid (unat (ObjectGetIndex ulId))"
  shows "event_section cls ty ulId out body env k =
    Some (ERROR_KERNEL_HANDLE_NULL, out, env, ErrorHandle ERROR_KERNEL_HANDLE_NULL k)"
  using assms by (auto simp: event_section_def Let_def)

end
