(* ===== verification/EventProps.thy ===== *)
theory EventProps
  imports DemoIpc
begin

text \<open>
  The properties of blocking and waking: where a thread enters a wait queue, who is woken, and when
  a thread that waits with a timeout is due.
\<close>

section \<open>Entering a wait queue\<close>

text \<open>The place a thread takes in a wait queue.\<close>

lemma block_place:
  assumes ok: "ipc_ok T k" and c: "LW_TCB_GET_CUR k = c" "c \<in> T" "K_ncpus k \<le> c" "LW_THREAD_IS_READY k c"
  shows "\<exists>us vs. waiters k e q = us @ vs \<and> waiters (ev_block e q LW_THREAD_STATUS_SEM to k) e q = us @ c # vs \<and>
    (\<not> by_prio k e \<longrightarrow> vs = []) \<and>
    (by_prio k e \<and> prio_ok (prio k) (wq k e q) \<longrightarrow> us = filter (\<lambda>u. prio k u \<le> prio k c) (waiters k e q) \<and>
       vs = filter (\<lambda>u. prio k c < prio k u) (waiters k e q) \<and> prio_ok (prio k) (wq (ev_block e q LW_THREAD_STATUS_SEM to k) e q))"
proof -
  let ?k = "ev_block e q LW_THREAD_STATUS_SEM to k" and ?w = "enq (by_prio k e) (prio k) c (wq k e q)"
  note B = ev_block_spec [OF ok c, where ty = LW_THREAD_STATUS_SEM and e = e and q = q and to = to]
  have W: "waiters ?k e q = wq_order (by_prio k e) ?w" using B(2) [of e q] by simp
  have Q: "wq ?k e q = ?w" using B(6) by (simp add: wq_def ev_wq_upd_def)
  have n: "c \<notin> set (waiters k e q)"
    using wait_okD(2,4) [OF ipc_okD(3) [OF ok]] pending_not_ready c(4) by (auto simp: waits_in_def)
  have r: "remove1 c (waiters ?k e q) = waiters k e q" unfolding W using enq_mem(2) n by (simp add: waiters_def)
  have "c \<in> set (waiters ?k e q)" using B(5) wait_okD(2) [OF ipc_okD(3) [OF B(1)]] by simp
  then obtain us vs where s: "waiters ?k e q = us @ c # vs" "c \<notin> set us" by (metis split_list_first)
  then have u: "waiters k e q = us @ vs" using r by (simp add: remove1_append)
  have f: "us = xs \<and> vs = ys" if "us @ c # vs = xs @ c # ys" "c \<notin> set xs" "c \<notin> set ys" for xs ys
    using that s(2) n u by (metis Un_iff append_Cons_eq_iff set_append)
  have "vs = []" if "\<not> by_prio k e"
  proof -
    have "waiters ?k e q = waiters k e q @ [c]" using that W fifo_order(1) [of c "wq k e q"] by (simp add: enq_def waiters_def)
    then show ?thesis using f [of "waiters k e q" "[]"] s(1) n by simp
  qed
  moreover have "us = filter (\<lambda>u. prio k u \<le> prio k c) (waiters k e q) \<and> vs = filter (\<lambda>u. prio k c < prio k u) (waiters k e q) \<and> prio_ok (prio k) (wq ?k e q)"
    if b: "by_prio k e" and o: "prio_ok (prio k) (wq k e q)"
  proof -
    have "us @ c # vs = filter (\<lambda>u. prio k u \<le> prio k c) (waiters k e q) @ c # filter (\<lambda>u. prio k c < prio k u) (waiters k e q)"
      using b W prio_enq_order [OF o, of c] s(1) by (simp add: enq_def waiters_def)
    from f [OF this] n prio_ok_enq [OF o, of c] b Q show ?thesis by (simp add: enq_def)
  qed
  ultimately show ?thesis using u s(1) by blast
qed

text \<open>
  C20: a thread that blocks on an event stops being ready and enters one place of the wait queue, which
  keeps its order besides: the end when the event serves first-in first-out; when it serves by
  priority and the queue is in the order of the present priorities, the place behind the waiters of
  its priority or a higher one and before all others, so that the queue stays in order. The other
  wait queues and the status of the other threads do not change, the delayed threads stay due when
  they were, the thread is due after its timeout if it has a finite one, and the invariant of the
  kernel is kept.
\<close>

theorem block_enters_queue:
  assumes ok: "ipc_ok T k" and c: "LW_TCB_GET_CUR k = c" "c \<in> T" "K_ncpus k \<le> c" "LW_THREAD_IS_READY k c"
  shows "ipc_ok T (ev_block e q LW_THREAD_STATUS_SEM to k) \<and> \<not> LW_THREAD_IS_READY (ev_block e q LW_THREAD_STATUS_SEM to k) c \<and>
    (\<exists>us vs. waiters k e q = us @ vs \<and> waiters (ev_block e q LW_THREAD_STATUS_SEM to k) e q = us @ c # vs \<and>
       (\<not> by_prio k e \<longrightarrow> vs = []) \<and>
       (by_prio k e \<and> prio_ok (prio k) (wq k e q) \<longrightarrow> us = filter (\<lambda>u. prio k u \<le> prio k c) (waiters k e q) \<and>
          vs = filter (\<lambda>u. prio k c < prio k u) (waiters k e q) \<and> prio_ok (prio k) (wq (ev_block e q LW_THREAD_STATUS_SEM to k) e q))) \<and>
    (\<forall>e' q'. (e', q') \<noteq> (e, q) \<longrightarrow> waiters (ev_block e q LW_THREAD_STATUS_SEM to k) e' q' = waiters k e' q') \<and>
    (\<forall>u. u \<noteq> c \<longrightarrow> TCB_usStatus (K_tcb (ev_block e q LW_THREAD_STATUS_SEM to k) u) = TCB_usStatus (K_tcb k u)) \<and>
    (\<forall>u \<in> set (dline k). due (ev_block e q LW_THREAD_STATUS_SEM to k) u = due k u) \<and>
    delayed (ev_block e q LW_THREAD_STATUS_SEM to k) c = (to \<noteq> LW_OPTION_WAIT_INFINITE \<and> to \<noteq> 0) \<and>
    (to \<noteq> LW_OPTION_WAIT_INFINITE \<and> to \<noteq> 0 \<longrightarrow> due (ev_block e q LW_THREAD_STATUS_SEM to k) c = unat to)"
proof -
  let ?k = "ev_block e q LW_THREAD_STATUS_SEM to k"
  note B = ev_block_spec [OF ok c, where ty = LW_THREAD_STATUS_SEM and e = e and q = q and to = to]
  have "\<not> LW_THREAD_IS_READY ?k c" "delayed ?k c = (to \<noteq> LW_OPTION_WAIT_INFINITE \<and> to \<noteq> 0)"
    using B(3) by (simp_all add: LW_THREAD_IS_READY_def delayed_def)
  moreover have "\<forall>e' q'. (e', q') \<noteq> (e, q) \<longrightarrow> waiters ?k e' q' = waiters k e' q'" using B(2) by simp
  ultimately show ?thesis using block_place [OF ok c, of e q to] B(1,4,7,8) by simp
qed

theorem block_enters_queue_witness:
  "ipc_ok {0, 1, 2, 3} (ev_block 1 EVENT_SEM_Q LW_THREAD_STATUS_SEM 10 demo_sem) \<and>
   \<not> LW_THREAD_IS_READY (ev_block 1 EVENT_SEM_Q LW_THREAD_STATUS_SEM 10 demo_sem) 2 \<and>
   waiters (ev_block 1 EVENT_SEM_Q LW_THREAD_STATUS_SEM 10 demo_sem) 1 EVENT_SEM_Q = [2] \<and>
   waiters (ev_block 1 EVENT_SEM_Q LW_THREAD_STATUS_SEM 10 demo_sem) 0 EVENT_SEM_Q = [] \<and>
   due (ev_block 1 EVENT_SEM_Q LW_THREAD_STATUS_SEM 10 demo_sem) 2 = 10"
  using block_enters_queue [OF demo_sem_ok demo_sem_cur, of 1 EVENT_SEM_Q 10] by (auto simp: demo_sem_events)

text \<open>
  A thread that blocks with a finite timeout is due after exactly that many ticks, and the
  threads that were already delayed stay due when they were.
\<close>

theorem block_timeout_due:
  assumes ok: "ipc_ok T k" and c: "LW_TCB_GET_CUR k = c" "c \<in> T" "K_ncpus k \<le> c" "LW_THREAD_IS_READY k c"
    and to: "to \<noteq> LW_OPTION_WAIT_INFINITE" "to \<noteq> 0"
  shows "delayed (ev_block e q LW_THREAD_STATUS_SEM to k) c \<and> due (ev_block e q LW_THREAD_STATUS_SEM to k) c = unat to \<and>
    (\<forall>u \<in> set (dline k). due (ev_block e q LW_THREAD_STATUS_SEM to k) u = due k u)"
  using ev_block_spec(7,8) [OF ok c, where ty = LW_THREAD_STATUS_SEM and e = e and q = q and to = to] to by simp

theorem block_timeout_due_witness:
  "delayed (ev_block 0 0 LW_THREAD_STATUS_SEM 10 demo_sem) 2 \<and> due (ev_block 0 0 LW_THREAD_STATUS_SEM 10 demo_sem) 2 = unat (10 :: ulong)"
  using block_timeout_due [OF demo_sem_ok demo_sem_cur, of 10 0 0] by simp

section \<open>Serving a wait queue\<close>

text \<open>
  Serving a priority queue of threads to its end with \<^verbatim>\<open>_EVENT_DEL_Q_PRIORITY\<close> and
  \<^verbatim>\<open>_DelTCBFromEventPriority\<close> wakes every waiter, highest priority first; the eight rings behave as
  one sorted queue.
\<close>

theorem prio_queue_serves_sorted:
  assumes "wq_ok True w" and "prio_ok pr w"
  shows "prioq.serve pr (unat (WQ_usNum w)) w = wq_order True w \<and>
    sorted_wrt (\<lambda>u v. pr u \<le> pr v) (prioq.serve pr (unat (WQ_usNum w)) w)"
proof -
  have "prioq.serve pr (unat (WQ_usNum w)) w = wq_order True w" using prioq.serve_all [of w pr] assms by simp
  with prio_order_sorted [OF assms(2)] show ?thesis by simp
qed

definition demo_pr :: "tid \<Rightarrow> u8" where
  "demo_pr t = (if t = 2 then 100 else if t = 3 then 40 else 200)"

definition demo_wq :: waitq where
  "demo_wq = prio_enq demo_pr 5 (prio_enq demo_pr 3 (prio_enq demo_pr 2 \<lparr>WL_pring = (\<lambda>_. []), WQ_usNum = 0\<rparr>))"

lemma demo_wq_ok: "wq_ok True demo_wq \<and> prio_ok demo_pr demo_wq"
proof -
  let ?w = "\<lparr>WL_pring = (\<lambda>_. []), WQ_usNum = 0\<rparr>"
  have 0: "wq_ok True ?w \<and> prio_ok demo_pr ?w" by (simp add: wq_ok_def prio_ok_def wq_order_empty)
  have p: "prio_ok demo_pr (prio_enq demo_pr 2 ?w)" "prio_ok demo_pr (prio_enq demo_pr 3 (prio_enq demo_pr 2 ?w))"
    using 0 by (intro prio_ok_enq; simp)+
  have o: "wq_order True (prio_enq demo_pr 2 ?w) = [2]" "wq_order True (prio_enq demo_pr 3 (prio_enq demo_pr 2 ?w)) = [3, 2]"
    using 0 p by (simp_all add: prio_enq_order wq_order_empty demo_pr_def)
  have 1: "wq_ok True (prio_enq demo_pr 2 ?w) \<and> prio_ok demo_pr (prio_enq demo_pr 2 ?w)"
    using prioq.ok_enq [OF 0, of 2] by (simp add: wq_order_empty)
  have 2: "wq_ok True (prio_enq demo_pr 3 (prio_enq demo_pr 2 ?w)) \<and> prio_ok demo_pr (prio_enq demo_pr 3 (prio_enq demo_pr 2 ?w))"
    using prioq.ok_enq [OF 1, of 3] o by simp
  show ?thesis unfolding demo_wq_def using prioq.ok_enq [OF 2, of 5] o by simp
qed

theorem prio_queue_serves_sorted_witness:
  "prioq.serve demo_pr (unat (WQ_usNum demo_wq)) demo_wq = wq_order True demo_wq \<and>
    sorted_wrt (\<lambda>u v. demo_pr u \<le> demo_pr v) (prioq.serve demo_pr (unat (WQ_usNum demo_wq)) demo_wq)"
  using demo_wq_ok by (intro prio_queue_serves_sorted) simp_all

end
