(* ===== verification/SemClaims.thy ===== *)
theory SemClaims
  imports SemProps Section EventProps
begin

text \<open>
  The properties of the semaphore calls, each with a configuration at which its hypotheses hold.
\<close>

section \<open>Giving\<close>

text \<open>
  C3: \<^verbatim>\<open>API_SemaphoreCRelease\<close> of \<open>n\<close> units refines the abstract semaphore: the first waiters in the
  order of service get a unit each, the units left are counted up to the maximum, and the call
  reports \<^verbatim>\<open>ERROR_EVENT_FULL\<close> exactly when not all fit. The previous count is returned, the kernel's
  invariant is kept up to the exit from the kernel, and so is the invariant of the semaphore (the
  count is at most the maximum, and nobody waits while units are left).
\<close>

theorem sem_release_refines:
  assumes "ipc_ok T k" and "e < LW_CFG_MAX_EVENTS" and "EVENT_ucType (K_eventBuffer k e) = LW_TYPE_EVENT_SEMC"
    and "n \<noteq> 0" and "sem_inv (sem_abs k e)"
  shows "\<exists>r k1. ipc_ok T k1 \<and> (r, sem_abs k1 e) = spec_give (unat n) (sem_abs k e) \<and> sem_inv (sem_abs k1 e) \<and>
    SemaphoreCRelease (handle OBJECT_SEM_C e) n env k = exit_with r (Some (ss_count (sem_abs k e))) env k1"
proof -
  obtain r k1 where R: "semC_release (unat n) e (kernelEnterIrq k) = (r, k1)" by force
  have K: "ipc_ok T k1 \<and> (r, sem_abs k1 e) = spec_give (unat n) (sem_abs k e)"
    using semC_release_refines [OF enter_ipc(1) [OF assms(1)] R] by simp
  moreover have "sem_inv (sem_abs k1 e)" using K spec_give_inv [OF assms(5), of "unat n"] by (metis snd_conv)
  ultimately show ?thesis using assms(2-4) R by (auto simp: SemaphoreCRelease_def event_section_eq)
qed

theorem sem_release_refines_witness:
  "\<exists>r k1. ipc_ok {0, 1, 2, 3} k1 \<and> (r, sem_abs k1 0) = spec_give (unat (3 :: ulong)) (sem_abs demo_wait 0) \<and> sem_inv (sem_abs k1 0) \<and>
    SemaphoreCRelease (handle OBJECT_SEM_C 0) 3 [] demo_wait = exit_with r (Some (ss_count (sem_abs demo_wait 0))) [] k1"
  by (rule sem_release_refines [OF demo_wait_ok]) (simp_all add: demo_wait_events sem_inv_def)

text \<open>
  \<^verbatim>\<open>API_SemaphoreBPostEx\<close> hands its message to the first waiter, which gets it in its control block
  and is taken off the queue; without a waiter the message stays with the semaphore, whose count
  becomes one; and a post to a full semaphore reports \<^verbatim>\<open>ERROR_EVENT_FULL\<close> and changes nothing.
\<close>

theorem sem_post_message:
  assumes ok: "ipc_ok T k" and e: "e < LW_CFG_MAX_EVENTS" and ty: "EVENT_ucType (K_eventBuffer k e) = LW_TYPE_EVENT_SEMB"
  shows "\<exists>r k1. SemaphoreBPostEx (handle OBJECT_SEM_B e) msg env k = drop_out (exit_with r (None :: tid option) env k1) \<and> ipc_ok T k1 \<and>
    (case waiters k e EVENT_SEM_Q of
       t # ts \<Rightarrow> r = ERROR_NONE \<and> TCB_pvMsgBoxMessage (K_tcb k1 t) = msg \<and> waiters k1 e EVENT_SEM_Q = ts
     | [] \<Rightarrow> if EVENT_ulCounter (K_eventBuffer k e) = 0
         then r = ERROR_NONE \<and> EVENT_pvPtr (K_eventBuffer k1 e) = msg \<and> EVENT_ulCounter (K_eventBuffer k1 e) = 1
         else r = ERROR_EVENT_FULL \<and> k1 = kernelEnterIrq k)"
proof -
  have D: "drop_out (exit_with r t env k1) = drop_out (exit_with r (None :: tid option) env k1)" for r k1 and t :: "tid option"
    by (auto simp: drop_out_def exit_with_def option.map_comp comp_def split_def)
  let ?k = "kernelEnterIrq k"
  show ?thesis
  proof (cases "waiters k e EVENT_SEM_Q")
    case (Cons t ts)
    then have w: "waiters ?k e EVENT_SEM_Q = t # ts" by simp
    obtain k1 where W: "ev_wake e EVENT_SEM_Q msg False LW_THREAD_STATUS_SEM LW_SCHED_ACT_INTERRUPT ?k = (Some t, k1)" "ipc_ok T k1"
      "sem_abs k1 e = (sem_abs ?k e)\<lparr>ss_wait := ts\<rparr>" "TCB_pvMsgBoxMessage (K_tcb k1 t) = msg"
      using wake_sem [OF enter_ipc(1) [OF ok] w, of msg False LW_SCHED_ACT_INTERRUPT] by metis
    have "EventWaitNum EVENT_SEM_Q e k \<noteq> 0" using wait_num [OF ok] Cons by simp
    moreover have "waiters k1 e EVENT_SEM_Q = ts" using arg_cong [OF W(3), of ss_wait] by simp
    ultimately show ?thesis using W Cons e ty D [of ERROR_NONE "Some t" k1]
      by (auto simp: SemaphoreBPostEx_def event_section_eq semB_postEx_def)
  next
    case Nil
    then have n: "EventWaitNum EVENT_SEM_Q e k = 0" using wait_num [OF ok] by simp
    let ?k1 = "event_upd e (\<lambda>v. v\<lparr>EVENT_pvPtr := msg\<rparr>) (set_counter e 1 ?k)"
    have "ipc_ok T ?k1" by (rule ipc_ok_event) (use ok in simp_all)
    then show ?thesis using n Nil e ty ok
      by (cases "EVENT_ulCounter (K_eventBuffer k e) = 0")
        (auto simp: SemaphoreBPostEx_def event_section_eq semB_postEx_def)
  qed
qed

theorem sem_post_message_witness:
  "\<exists>r k1. SemaphoreBPostEx (handle OBJECT_SEM_B 1) 42 [] demo_sem = drop_out (exit_with r (None :: tid option) [] k1) \<and> ipc_ok {0, 1, 2, 3} k1 \<and>
    r = ERROR_NONE \<and> EVENT_pvPtr (K_eventBuffer k1 1) = 42 \<and> EVENT_ulCounter (K_eventBuffer k1 1) = 1"
  using sem_post_message [OF demo_sem_ok _ demo_sem_events(6), of 42 "[]"] demo_sem_events(1,2) by simp



section \<open>Flush and delete\<close>

text \<open>
  \<^verbatim>\<open>API_SemaphoreCFlush\<close> ends: its loop wakes every waiter, each of which becomes ready or keeps
  only the other reasons it does not run for, the queue is empty afterwards, the count is unchanged,
  and the number reported is the number of threads woken.
\<close>

theorem sem_flush_wakes_all:
  assumes "ipc_ok T k" and "e < LW_CFG_MAX_EVENTS" and "EVENT_ucType (K_eventBuffer k e) = LW_TYPE_EVENT_SEMC"
  shows "\<exists>n k1. SemaphoreCFlush (handle OBJECT_SEM_C e) env k = exit_with ERROR_NONE (Some n) env k1 \<and>
    unat n = length (waiters k e EVENT_SEM_Q) \<and> ipc_ok T k1 \<and> sem_abs k1 e = (sem_abs k e)\<lparr>ss_wait := []\<rparr> \<and>
    (\<forall>u. TCB_usStatus (K_tcb k1 u) = (if u \<in> set (waiters k e EVENT_SEM_Q)
        then (TCB_usStatus (K_tcb k u) AND NOT LW_THREAD_STATUS_DELAY) AND NOT LW_THREAD_STATUS_SEM else TCB_usStatus (K_tcb k u)))"
proof -
  let ?k = "kernelEnterIrq k" and ?n = "EventWaitNum EVENT_SEM_Q e k"
  have ok: "ipc_ok T ?k" using assms(1) by simp
  from ev_wake_all_spec [OF ok refl, of e False LW_SCHED_ACT_OTHER] obtain k1 where
    K: "ev_wake_all e EVENT_SEM_Q False LW_THREAD_STATUS_SEM LW_SCHED_ACT_OTHER ?k = Some k1" "ipc_ok T k1"
      "sem_abs k1 e = (sem_abs ?k e)\<lparr>ss_wait := []\<rparr>"
      "\<forall>u. TCB_usStatus (K_tcb k1 u) = (if u \<in> set (waiters ?k e EVENT_SEM_Q)
        then (TCB_usStatus (K_tcb ?k u) AND NOT LW_THREAD_STATUS_DELAY) AND NOT LW_THREAD_STATUS_SEM else TCB_usStatus (K_tcb ?k u))"
    by blast
  have "unat ?n = length (waiters k e EVENT_SEM_Q)" using wait_okD(6) [OF ipc_okD(3) [OF assms(1)]] by simp
  moreover have "SemaphoreCFlush (handle OBJECT_SEM_C e) env k = exit_with ERROR_NONE (Some ?n) env k1"
    using K(1) assms(2,3) by (simp add: SemaphoreCFlush_def event_section_eq sem_flush_def)
  ultimately show ?thesis using K by (intro exI [of _ ?n] exI [of _ k1]) simp
qed

theorem sem_flush_wakes_all_witness:
  "\<exists>n k1. SemaphoreCFlush (handle OBJECT_SEM_C 0) [] demo_wait = exit_with ERROR_NONE (Some n) [] k1 \<and>
    unat n = length (waiters demo_wait 0 EVENT_SEM_Q) \<and> ipc_ok {0, 1, 2, 3} k1 \<and> sem_abs k1 0 = (sem_abs demo_wait 0)\<lparr>ss_wait := []\<rparr> \<and>
    (\<forall>u. TCB_usStatus (K_tcb k1 u) = (if u \<in> set (waiters demo_wait 0 EVENT_SEM_Q)
        then (TCB_usStatus (K_tcb demo_wait u) AND NOT LW_THREAD_STATUS_DELAY) AND NOT LW_THREAD_STATUS_SEM
        else TCB_usStatus (K_tcb demo_wait u)))"
  by (rule sem_flush_wakes_all [OF demo_wait_ok]) (simp_all add: demo_wait_events)

text \<open>
  C22: \<^verbatim>\<open>API_SemaphoreCDelete\<close> ends and returns \<^verbatim>\<open>ERROR_NONE\<close> with the caller's handle cleared; every
  waiter is woken and finds \<^verbatim>\<open>ERROR_EVENT_WAS_DELETED\<close>, the control block is unused and back at the
  end of the free pool, and a later call with the old handle finds a wrong type.
\<close>

theorem sem_delete_releases:
  assumes "ipc_ok T k" and "e < LW_CFG_MAX_EVENTS" and "EVENT_ucType (K_eventBuffer k e) = LW_TYPE_EVENT_SEMC" and "CpuGetNesting k = 0"
  shows "\<exists>k1. SemaphoreCDelete (handle OBJECT_SEM_C e) env k = exit_with ERROR_NONE 0 env k1 \<and> ipc_ok T k1 \<and>
    waiters k1 e EVENT_SEM_Q = [] \<and> (\<forall>t \<in> set (waiters k e EVENT_SEM_Q). pend_result t k1 = ERROR_EVENT_WAS_DELETED) \<and>
    RESRC_free (K_resrcEvent k1) = RESRC_free (K_resrcEvent k) @ [e] \<and>
    SemaphoreCPost (handle OBJECT_SEM_C e) env' k1 = drop_out (exit_with ERROR_EVENT_TYPE (None :: tid option) env' (kernelEnterIrq k1))"
proof -
  obtain k1 where K: "sem_delete e (kernelEnterIrq k) = Some (ERROR_NONE, 0, k1)" "waiters k1 e EVENT_SEM_Q = []" "ipc_ok T k1"
    "EVENT_ucType (K_eventBuffer k1 e) = LW_TYPE_EVENT_UNUSED"
    "RESRC_free (K_resrcEvent k1) = RESRC_free (K_resrcEvent (kernelEnterIrq k)) @ [e]"
    "\<And>t. t \<in> set (waiters (kernelEnterIrq k) e EVENT_SEM_Q) \<Longrightarrow> pend_result t k1 = ERROR_EVENT_WAS_DELETED"
    using sem_delete_spec [OF enter_ipc(1) [OF assms(1)], of e] by metis
  then show ?thesis using assms(2-)
    by (auto simp: SemaphoreCDelete_def SemaphoreCPost_def event_section_eq)
qed

theorem sem_delete_releases_witness:
  "\<exists>k1. SemaphoreCDelete (handle OBJECT_SEM_C 0) [] demo_wait = exit_with ERROR_NONE 0 [] k1 \<and> ipc_ok {0, 1, 2, 3} k1 \<and>
    waiters k1 0 EVENT_SEM_Q = [] \<and> (\<forall>t \<in> set (waiters demo_wait 0 EVENT_SEM_Q). pend_result t k1 = ERROR_EVENT_WAS_DELETED) \<and>
    RESRC_free (K_resrcEvent k1) = RESRC_free (K_resrcEvent demo_wait) @ [0] \<and>
    SemaphoreCPost (handle OBJECT_SEM_C 0) [] k1 = drop_out (exit_with ERROR_EVENT_TYPE (None :: tid option) [] (kernelEnterIrq k1))"
proof (rule sem_delete_releases [OF demo_wait_ok])
  show "CpuGetNesting demo_wait = 0" by (simp add: demo_wait_cpu demo_sem_nesting)
qed (simp_all add: demo_wait_events)


section \<open>Taking\<close>

text \<open>The pending loop without the bound on its rounds.\<close>

lemma sem_pend_eq:
  "sem_pend sk ulId ptcbCur ulTimeout env k =
     (let usIndex = unat (ObjectGetIndex ulId) in
      if \<not> ObjectClassOK ulId (SK_class sk) then Some (ERROR_KERNEL_HANDLE_NULL, None, env, ErrorHandle ERROR_KERNEL_HANDLE_NULL k)
      else if Event_Index_Invalid usIndex then Some (ERROR_KERNEL_HANDLE_NULL, None, env, ErrorHandle ERROR_KERNEL_HANDLE_NULL k)
      else
        let k = kernelEnterIrq k in
        if Event_Type_Invalid usIndex (SK_type sk) k then
          map_option (\<lambda>(_, env, k). (ERROR_EVENT_TYPE, None, env, ErrorHandle ERROR_EVENT_TYPE k)) (kernelExitIrq env k)
        else if EVENT_ulCounter (K_eventBuffer k usIndex) \<noteq> 0 then
          let pvMsgPtr = EVENT_pvPtr (K_eventBuffer k usIndex);
              k = set_counter usIndex (SK_take sk (EVENT_ulCounter (K_eventBuffer k usIndex))) k
          in map_option (\<lambda>(_, env, k). (ERROR_NONE, Some pvMsgPtr, env, k)) (kernelExitIrq env k)
        else if ulTimeout = LW_OPTION_NOT_WAIT then
          map_option (\<lambda>(_, env, k). (ERROR_THREAD_WAIT_TIMEOUT, None, env, ErrorHandle ERROR_THREAD_WAIT_TIMEOUT k))
            (kernelExitIrq env k)
        else
          let ulTimeSave = K_i64KernelTime k;
              k = ev_block usIndex EVENT_SEM_Q LW_THREAD_STATUS_SEM ulTimeout k;
              ulEventOption = EVENT_ulOption (K_eventBuffer k usIndex)
          in (case kernelExit env k of
                None \<Rightarrow> None
              | Some (iSchedRet, env', k) \<Rightarrow>
                  if iSchedRet \<noteq> 0 then
                    if iSchedRet = LW_SIGNAL_EINTR \<and> ulEventOption AND LW_OPTION_SIGNAL_INTER \<noteq> 0 then
                      Some (EINTR, None, env', ErrorHandle EINTR k)
                    else
                      let ulTimeout = sigTimeoutRecalc ulTimeSave ulTimeout k in
                      if ulTimeout = LW_OPTION_NOT_WAIT then
                        Some (ERROR_THREAD_WAIT_TIMEOUT, None, env', ErrorHandle ERROR_THREAD_WAIT_TIMEOUT k)
                      else sem_pend sk ulId ptcbCur ulTimeout env' k
                  else
                    let ulError = pend_result ptcbCur k in
                    Some (ulError, if ulError = ERROR_NONE then Some (TCB_pvMsgBoxMessage (K_tcb k ptcbCur)) else None,
                      env', ErrorHandle ulError k)))"
proof -
  let ?k = "ev_block (unat (ObjectGetIndex ulId)) EVENT_SEM_Q LW_THREAD_STATUS_SEM ulTimeout (kernelEnterIrq k)"
  have L: "length env' < length env" if "kernelExit env ?k = Some (r, env', k')" "r \<noteq> 0" for r env' k'
    using kernelExit_env(1) that by blast
  show ?thesis
    using L by (cases "kernelExit env ?k") (auto simp: sem_pend.simps [of sk ulId ptcbCur ulTimeout env k] Let_def)
qed

lemma ErrorHandle_0 [simp]: "ErrorHandle 0 k = k"
  by (simp add: ErrorHandle_def)

lemma sem_pend_handle:
  assumes "SK_class sk < 64" and "e < LW_CFG_MAX_EVENTS"
  shows "sem_pend sk (handle (SK_class sk) e) c to env k =
     (if EVENT_ucType (K_eventBuffer k e) \<noteq> SK_type sk then exit_with ERROR_EVENT_TYPE None env (kernelEnterIrq k)
      else if EVENT_ulCounter (K_eventBuffer k e) \<noteq> 0 then
        exit_with ERROR_NONE (Some (EVENT_pvPtr (K_eventBuffer k e))) env
          (set_counter e (SK_take sk (EVENT_ulCounter (K_eventBuffer k e))) (kernelEnterIrq k))
      else if to = LW_OPTION_NOT_WAIT then exit_with ERROR_THREAD_WAIT_TIMEOUT None env (kernelEnterIrq k)
      else
        let k1 = ev_block e EVENT_SEM_Q LW_THREAD_STATUS_SEM to (kernelEnterIrq k) in
        case kernelExit env k1 of
          None \<Rightarrow> None
        | Some (r, env', k2) \<Rightarrow>
            if r = 0 then
              Some (pend_result c k2, if pend_result c k2 = ERROR_NONE then Some (TCB_pvMsgBoxMessage (K_tcb k2 c)) else None,
                env', ErrorHandle (pend_result c k2) k2)
            else if r = LW_SIGNAL_EINTR \<and> EVENT_ulOption (K_eventBuffer k1 e) AND LW_OPTION_SIGNAL_INTER \<noteq> 0 then
              Some (EINTR, None, env', ErrorHandle EINTR k2)
            else if sigTimeoutRecalc (K_i64KernelTime k) to k2 = LW_OPTION_NOT_WAIT then
              Some (ERROR_THREAD_WAIT_TIMEOUT, None, env', ErrorHandle ERROR_THREAD_WAIT_TIMEOUT k2)
            else sem_pend sk (handle (SK_class sk) e) c (sigTimeoutRecalc (K_i64KernelTime k) to k2) env' k2)"
proof -
  have h: "unat (ObjectGetIndex (handle (SK_class sk) e)) = e" "ObjectClassOK (handle (SK_class sk) e) (SK_class sk)"
    and e: "\<not> Event_Index_Invalid e" using handle_parts [OF assms] assms(2) by (simp_all add: Event_Index_Invalid_def)
  show ?thesis
    unfolding sem_pend_eq [of sk "handle (SK_class sk) e" c to env k] using h e
    by (auto simp: Let_def exit_with_def Event_Type_Invalid_def option.map_comp comp_def split_def split: option.splits)
qed

text \<open>
  the pending loop of a semaphore call (from \<^verbatim>\<open>__wait_again\<close>) as the source has it: a thread that a
  signal woke tries again with the ticks that are left, until it gets a unit, its time is up, the
  semaphore is deleted or the signal is to be reported. The recursion of the model is bounded by
  the number of absences of the thread, and the bound never cuts the loop short: a round that
  returns because of a signal has used up an absence.
\<close>

theorem sem_pend_loop:
  assumes "SK_class sk < 64" and "e < LW_CFG_MAX_EVENTS"
  shows "sem_pend sk (handle (SK_class sk) e) c to env k =
     (if EVENT_ucType (K_eventBuffer k e) \<noteq> SK_type sk then exit_with ERROR_EVENT_TYPE None env (kernelEnterIrq k)
      else if EVENT_ulCounter (K_eventBuffer k e) \<noteq> 0 then
        exit_with ERROR_NONE (Some (EVENT_pvPtr (K_eventBuffer k e))) env
          (set_counter e (SK_take sk (EVENT_ulCounter (K_eventBuffer k e))) (kernelEnterIrq k))
      else if to = LW_OPTION_NOT_WAIT then exit_with ERROR_THREAD_WAIT_TIMEOUT None env (kernelEnterIrq k)
      else
        let k1 = ev_block e EVENT_SEM_Q LW_THREAD_STATUS_SEM to (kernelEnterIrq k) in
        case kernelExit env k1 of
          None \<Rightarrow> None
        | Some (r, env', k2) \<Rightarrow>
            if r = 0 then
              Some (pend_result c k2, if pend_result c k2 = ERROR_NONE then Some (TCB_pvMsgBoxMessage (K_tcb k2 c)) else None,
                env', ErrorHandle (pend_result c k2) k2)
            else if r = LW_SIGNAL_EINTR \<and> EVENT_ulOption (K_eventBuffer k1 e) AND LW_OPTION_SIGNAL_INTER \<noteq> 0 then
              Some (EINTR, None, env', ErrorHandle EINTR k2)
            else if sigTimeoutRecalc (K_i64KernelTime k) to k2 = LW_OPTION_NOT_WAIT then
              Some (ERROR_THREAD_WAIT_TIMEOUT, None, env', ErrorHandle ERROR_THREAD_WAIT_TIMEOUT k2)
            else sem_pend sk (handle (SK_class sk) e) c (sigTimeoutRecalc (K_i64KernelTime k) to k2) env' k2)"
  by (rule sem_pend_handle [OF assms])

theorem sem_pend_loop_witness:
  "sem_pend semC (handle OBJECT_SEM_C 0) 2 LW_OPTION_NOT_WAIT [] demo_sem =
     exit_with ERROR_THREAD_WAIT_TIMEOUT None [] (kernelEnterIrq demo_sem)"
  using sem_pend_loop [of semC 0 2 LW_OPTION_NOT_WAIT "[]" demo_sem] by (simp add: semC_def demo_sem_events)

text \<open>
  The errors of \<^verbatim>\<open>API_SemaphoreCPend\<close> that come before the kernel is entered: an interrupt may not
  pend, and a handle of another class or with an index out of range is refused. Nothing changes but
  the last error of the caller.
\<close>

theorem sem_pend_refused:
  assumes "CpuGetNesting k \<noteq> 0 \<or> \<not> ObjectClassOK ulId OBJECT_SEM_C \<or> Event_Index_Invalid (unat (ObjectGetIndex ulId))"
  shows "\<exists>r. r \<in> {ERROR_KERNEL_IN_ISR, ERROR_KERNEL_HANDLE_NULL} \<and> (r = ERROR_KERNEL_IN_ISR \<longleftrightarrow> CpuGetNesting k \<noteq> 0) \<and>
    SemaphoreCPend ulId to env k = Some (r, env, ErrorHandle r k) \<and>
    K_eventBuffer (ErrorHandle r k) = K_eventBuffer k \<and> (\<forall>t. TCB_usStatus (K_tcb (ErrorHandle r k) t) = TCB_usStatus (K_tcb k t))"
proof -
  have P: "sem_pend semC ulId c to env k = Some (ERROR_KERNEL_HANDLE_NULL, None, env, ErrorHandle ERROR_KERNEL_HANDLE_NULL k)"
    if "\<not> ObjectClassOK ulId OBJECT_SEM_C \<or> Event_Index_Invalid (unat (ObjectGetIndex ulId))" for c
    using that by (subst sem_pend_eq) (auto simp: semC_def Let_def)
  have F: "K_eventBuffer (ErrorHandle r k) = K_eventBuffer k" "TCB_usStatus (K_tcb (ErrorHandle r k) t) = TCB_usStatus (K_tcb k t)" for r t
    by (auto simp: ErrorHandle_def Let_def split: option.split)
  show ?thesis using assms P F by (cases "CpuGetNesting k = 0") (auto simp: SemaphoreCPend_def sem_pend_api_def)
qed

theorem sem_pend_refused_witness:
  "\<exists>r. r \<in> {ERROR_KERNEL_IN_ISR, ERROR_KERNEL_HANDLE_NULL} \<and> (r = ERROR_KERNEL_IN_ISR \<longleftrightarrow> CpuGetNesting demo_sem \<noteq> 0) \<and>
    SemaphoreCPend (handle OBJECT_SEM_B 0) 5 [] demo_sem = Some (r, [], ErrorHandle r demo_sem) \<and>
    K_eventBuffer (ErrorHandle r demo_sem) = K_eventBuffer demo_sem \<and>
    (\<forall>t. TCB_usStatus (K_tcb (ErrorHandle r demo_sem) t) = TCB_usStatus (K_tcb demo_sem t))"
  by (rule sem_pend_refused) (simp add: handle_parts)

text \<open>
  C32: \<^verbatim>\<open>_sigTimeoutRecalc\<close>: a wait that a signal interrupts never gets longer, an infinite wait stays
  infinite, and as long as the kernel clock has advanced by less than the timeout, also across a
  wrap-around of the clock, the rest is the timeout less the ticks that have passed.
\<close>

theorem timeout_recalc:
  "(to = LW_OPTION_WAIT_INFINITE \<longrightarrow> sigTimeoutRecalc t0 to k = to) \<and> sigTimeoutRecalc t0 to k \<le> to \<and>
   (to \<noteq> LW_OPTION_WAIT_INFINITE \<longrightarrow> unat (sigTimeoutRecalc t0 to k) = unat to - unat (K_i64KernelTime k - t0))"
proof -
  have "ULONG_MAX = - 1" by code_simp
  then have w: "K_i64KernelTime k + (ULONG_MAX - t0) + 1 = K_i64KernelTime k - t0" by (simp only:) simp
  have u: "unat (to - d) = unat to - unat d" if "d < to" for d using that by (simp add: unat_sub)
  have l: "to - d \<le> to" if "d < to" for d using u [OF that] by (simp add: word_le_nat_alt)
  show ?thesis
    by (auto simp: l sigTimeoutRecalc_def Let_def w u not_le word_le_nat_alt [symmetric] word_less_nat_alt [symmetric])
qed


theorem timeout_recalc_witness: "unat (sigTimeoutRecalc (- 2) 10 demo_sem) = 8"
proof -
  have "K_i64KernelTime demo_sem = 0" by (simp add: demo_sem_def demo_kernel)
  then show ?thesis using timeout_recalc [of 10 "- 2" demo_sem] by simp
qed

section \<open>Creating and the pool of control blocks\<close>

text \<open>
  \<^verbatim>\<open>API_SemaphoreCCreate\<close> takes the first free control block; whatever happens until the thread has
  left the kernel (the block keeps its index), the semaphore then has the counts asked for and no
  waiters, satisfies the invariant of a semaphore, and the handle names the block.
\<close>

theorem sem_create:
  assumes "CpuGetNesting k = 0" and "mx \<noteq> 0" and "init \<le> mx" and "\<not> Object_Name_Invalid name"
    and "RESRC_free (K_resrcEvent k) = e # free"
    and "kernelExit env (snd (Allocate_Event_Object (kernelEnter k))) = Some (i, env', k1)"
    and "EVENT_usIndex (K_eventBuffer k1 e) = of_nat e"
  shows "\<exists>k2. SemaphoreCCreate name init mx opt env k = Some (handle OBJECT_SEM_C e, env', k2) \<and>
    EVENT_ucType (K_eventBuffer k2 e) = LW_TYPE_EVENT_SEMC \<and> EVENT_ulOption (K_eventBuffer k2 e) = opt \<and>
    sem_abs k2 e = \<lparr>ss_count = init, ss_max = mx, ss_wait = []\<rparr> \<and> sem_inv (sem_abs k2 e) \<and>
    (\<forall>e'. e' \<noteq> e \<longrightarrow> K_eventBuffer k2 e' = K_eventBuffer k1 e') \<and> K_tcb k2 = K_tcb k1"
proof -
  have A: "fst (Allocate_Event_Object (kernelEnter k)) = Some e"
    using assms(5) by (simp add: Allocate_Event_Object_def kernelEnter_def Let_def)
  have W: "wq_order b w = []" if "\<And>i. i < EVENT_Q_SIZE \<Longrightarrow> WL_pring w i = []" for b w
    using that by (auto simp: wq_order_def)
  have C: "\<exists>k2. event_create OBJECT_SEM_C name g env k = Some (handle OBJECT_SEM_C e, env', k2) \<and>
      EVENT_ucType (K_eventBuffer k2 e) = LW_TYPE_EVENT_SEMC \<and> EVENT_ulOption (K_eventBuffer k2 e) = opt \<and>
      sem_abs k2 e = \<lparr>ss_count = init, ss_max = mx, ss_wait = []\<rparr> \<and>
      (\<forall>e'. e' \<noteq> e \<longrightarrow> K_eventBuffer k2 e' = K_eventBuffer k1 e') \<and> K_tcb k2 = K_tcb k1"
    if "g = (\<lambda>v. v\<lparr>EVENT_ucType := LW_TYPE_EVENT_SEMC, EVENT_ulCounter := init, EVENT_ulMaxCounter := mx, EVENT_ulOption := opt\<rparr>)" for g
    using assms(4,6,7) A that
    by (auto simp: event_create_def Let_def split_def handle_def sem_abs_def waiters_def wq_def intro!: W)
  have I: "sem_inv \<lparr>ss_count = init, ss_max = mx, ss_wait = []\<rparr>" using assms(3) by (simp add: sem_inv_def)
  show ?thesis using C [OF refl] assms(1-3) I by (auto simp: SemaphoreCCreate_def)
qed

lemma nested_exit:
  assumes "CPU_iKernelCounter (K_cpu k (K_curcpu k)) = Suc n" and "RESRC_free (K_resrcEvent k) = e # free"
  shows "\<exists>k1. kernelExit env (snd (Allocate_Event_Object (kernelEnter k))) = Some (0, env, k1) \<and> K_eventBuffer k1 = K_eventBuffer k"
  using assms by (simp add: kernelEnter_def Allocate_Event_Object_def kernelExit_def Let_def)

definition demo_pool :: kernel where
  "demo_pool = cpu_upd 0 (\<lambda>p. p\<lparr>CPU_iKernelCounter := 1\<rparr>)
     (demo_sem\<lparr>K_resrcEvent := \<lparr>RESRC_free = [0, 8], RESRC_uiUsed = 2, RESRC_uiMaxUsed = 2\<rparr>\<rparr>)"

theorem sem_create_witness:
  "\<exists>(k1 :: kernel) k2. SemaphoreCCreate (Some ''sem'') 1 5 0 [] demo_pool = Some (handle OBJECT_SEM_C 0, [], k2) \<and>
    EVENT_ucType (K_eventBuffer k2 0) = LW_TYPE_EVENT_SEMC \<and> EVENT_ulOption (K_eventBuffer k2 0) = 0 \<and>
    sem_abs k2 0 = \<lparr>ss_count = 1, ss_max = 5, ss_wait = []\<rparr> \<and> sem_inv (sem_abs k2 0) \<and>
    (\<forall>e'. e' \<noteq> 0 \<longrightarrow> K_eventBuffer k2 e' = K_eventBuffer k1 e') \<and> K_tcb k2 = K_tcb k1"
proof -
  have c: "K_curcpu demo_sem = 0" "EVENT_usIndex (K_eventBuffer demo_sem 0) = 0"
    by (simp_all add: demo_sem_def demo_kernel event0_def)
  have p: "CPU_iKernelCounter (K_cpu demo_pool (K_curcpu demo_pool)) = Suc 0" "RESRC_free (K_resrcEvent demo_pool) = [0, 8]"
    "K_eventBuffer demo_pool = K_eventBuffer demo_sem" by (simp_all add: demo_pool_def c)
  obtain k1 where k1: "kernelExit [] (snd (Allocate_Event_Object (kernelEnter demo_pool))) = Some (0, [], k1)"
    "EVENT_usIndex (K_eventBuffer k1 0) = of_nat 0" using nested_exit [OF p(1,2), of "[]"] c(2) p(3) by auto
  have n: "CpuGetNesting demo_pool = 0" using demo_sem_nesting by (simp add: demo_pool_def CpuGetNesting_def c)
  show ?thesis
    by (rule exI [of _ k1], rule sem_create [OF n _ _ _ p(2) k1]) (simp_all add: Object_Name_Invalid_def)
qed

text \<open>
  \<^verbatim>\<open>API_SemaphoreCCreate\<close> refuses, with the right error and without touching the pool, a call from
  an interrupt, a maximum of zero, an initial count above the maximum and a name that does not fit.
\<close>

theorem sem_create_refused:
  assumes "CpuGetNesting k \<noteq> 0 \<or> mx = 0 \<or> init > mx \<or> (\<exists>s. name = Some s \<and> length s \<ge> LW_CFG_OBJECT_NAME_SIZE)"
  shows "SemaphoreCCreate name init mx opt env k = Some (LW_OBJECT_HANDLE_INVALID, env,
    ErrorHandle (if CpuGetNesting k \<noteq> 0 then ERROR_KERNEL_IN_ISR else if mx = 0 then ERROR_EVENT_MAX_COUNTER_NULL
      else if init > mx then ERROR_EVENT_INIT_COUNTER else ERROR_KERNEL_PNAME_TOO_LONG) k)"
  using assms by (auto simp: SemaphoreCCreate_def event_create_def Object_Name_Invalid_def)

theorem sem_create_refused_witness:
  "SemaphoreCCreate None 9 5 0 [] demo_sem = Some (LW_OBJECT_HANDLE_INVALID, [],
    ErrorHandle (if CpuGetNesting demo_sem \<noteq> 0 then ERROR_KERNEL_IN_ISR else if (5 :: ulong) = 0 then ERROR_EVENT_MAX_COUNTER_NULL
      else if (9 :: ulong) > 5 then ERROR_EVENT_INIT_COUNTER else ERROR_KERNEL_PNAME_TOO_LONG) demo_sem)"
  by (rule sem_create_refused) simp

end
