(* ===== verification/SysClaims.thy ===== *)
theory SysClaims
  imports Blocking SemClaims
begin

text \<open>
  The properties of the whole system: what holds in every reachable state, ticks, timeouts, event
  sets, vutexes and the calls on threads; each with a configuration at which its hypotheses hold.
\<close>

section \<open>Configurations\<close>

lemma demo_sem_tcb: "K_tcb demo_sem t = K_tcb demo t" "K_esBuffer demo_sem = K_esBuffer demo" "k_plineVutexHashHeader demo_sem = k_plineVutexHashHeader demo"
    "K_wuDelay demo_sem = K_wuDelay demo" "K_ncpus demo_sem = 2" "K_curcpu demo_sem = 0"
  by (simp_all add: demo_sem_def demo_kernel)

lemma demo_other: "TCB_plineStatusReqHeader (K_tcb demo t) = []" "TCB_ptcbWaitStatus (K_tcb demo t) = None" "TCB_pesnPtr (K_tcb demo t) = None"
    "VUTEX_phyaddr (TCB_vutex (K_tcb demo t)) = None" "EVENTSET_plineWaitList (K_esBuffer demo s) = []" "k_plineVutexHashHeader demo h = []"
proof -
  note E = erase_tcbD [OF demo_erase, of t] and F = erase_kernelD [OF demo_erase]
  show "TCB_plineStatusReqHeader (K_tcb demo t) = []" "TCB_ptcbWaitStatus (K_tcb demo t) = None" "TCB_pesnPtr (K_tcb demo t) = None"
    "VUTEX_phyaddr (TCB_vutex (K_tcb demo t)) = None" unfolding E by (simp_all add: demo_boot_def demo_tcb_def tcb0_def)
  show "EVENTSET_plineWaitList (K_esBuffer demo s) = []" "k_plineVutexHashHeader demo h = []"
    unfolding F by (simp_all add: demo_boot_def kernel0_def eventset0_def)
qed

lemma demo_sem_sys: "sys_ok {0, 1, 2, 3} demo_sem"
proof -
  have "req_ok {0, 1, 2, 3} demo_sem" by (simp add: req_ok_def demo_sem_tcb demo_other)
  moreover have "oth_ok {0, 1, 2, 3} demo_sem"
    by (simp add: oth_ok_def demo_sem_tcb demo_other es_of_def vutex_in_def VUTEX_IS_WAITING_def dline_def demo_kernel wakeup0_def)
  ultimately show ?thesis using demo_sem_ok by (simp add: sys_ok_def)
qed

lemma demo_running: "running {0, 1, 2, 3} demo_sem 2"
  using demo_sem_cur by (simp add: running_def)

section \<open>Reachable states\<close>

text \<open>
  C1: In every state reachable by any sequence of steps of the processors, the invariant of the
  system holds: the bug stop is never hit; a ready thread is the candidate of a processor or in the
  ready ring of its priority, and nowhere else; a thread in a wait queue is not ready, is in that
  queue only, and waits for neither an event set nor a variable; and the delay line holds exactly
  the threads with the delay bit.
\<close>

theorem reachable_consistent:
  assumes "sys_ok T k0" and "(sys_step T)\<^sup>*\<^sup>* k0 k"
  shows "sys_ok T k \<and> \<not> K_bug k \<and>
    (\<forall>t c. LW_CAND_TCB k c = Some t \<longrightarrow> LW_THREAD_IS_READY k t) \<and> (\<forall>t p. t \<in> set (rring k p) \<longrightarrow> LW_THREAD_IS_READY k t \<and> p = GetPcb k t) \<and>
    (\<forall>t. t \<in> T \<and> LW_THREAD_IS_READY k t \<longrightarrow> (\<exists>c. LW_CAND_TCB k c = Some t) \<noteq> (t \<in> set (rring k (GetPcb k t)))) \<and>
    (\<forall>t e q. t \<in> set (waiters k e q) \<longrightarrow> \<not> LW_THREAD_IS_READY k t \<and> (\<forall>e' q'. t \<in> set (waiters k e' q') \<longrightarrow> e' = e \<and> q' = q) \<and>
       (\<forall>s. t \<notin> set (EVENTSET_plineWaitList (K_esBuffer k s))) \<and> (\<forall>h. t \<notin> set (k_plineVutexHashHeader k h))) \<and>
    (\<forall>t. t \<in> set (WU_plineHeader (K_wuDelay k)) \<longleftrightarrow> TCB_usStatus (K_tcb k t) AND LW_THREAD_STATUS_DELAY \<noteq> 0)"
proof -
  have ok: "sys_ok T k" by (rule sys_steps_ok [OF assms(2,1)])
  have S: "sched_ok (rdyset T k) k" "wait_ok T k" "oth_ok T k" "delay_ok k" using ok by (simp_all add: sys_ok_def ipc_ok_def kern_ok_def)
  note R = rdy_invD [OF sched_okD(1) [OF S(1)]]
  have W: "\<not> LW_THREAD_IS_READY k t" "waits_in k t e q" "oview (K_tcb k t) = None" if "t \<in> set (waiters k e q)" for t e q
  proof -
    show w: "waits_in k t e q" using wait_okD(2) [OF S(2)] that by simp
    then have p: "TCB_peventPtr (K_tcb k t) = Some e" by (simp add: waits_in_def)
    then show "\<not> LW_THREAD_IS_READY k t" using wait_okD(4) [OF S(2), of t e] pending_not_ready by blast
    show "oview (K_tcb k t) = None" using oth_ok_event [OF S(3), of t] p by simp
  qed
  have O: "t \<notin> set (es_waiters k s)" "t \<notin> set (k_plineVutexHashHeader k s)" if "oview (K_tcb k t) = None" for t s
    using that by (simp_all add: oth_okD(2,4) [OF S(3)] oview_none es_of_def vutex_in_def VUTEX_IS_WAITING_def)
  have ring: "(\<exists>c. LW_CAND_TCB k c = Some t) \<noteq> (t \<in> set (rring k (GetPcb k t)))" if "t \<in> T" "LW_THREAD_IS_READY k t" for t
    using that R(5) [of t "GetPcb k t"] R(7) [of _ t] R(11) [of t] R(12) [of t] by (auto simp: rdyset_def)
  have cand: "LW_THREAD_IS_READY k t" if "LW_CAND_TCB k c = Some t" for t c using R(9) [OF that] by (simp add: rdyset_def)
  have rr: "LW_THREAD_IS_READY k t \<and> p = GetPcb k t" if "t \<in> set (rring k p)" for t p using R(4,6) [OF that] by (simp add: rdyset_def)
  have "\<forall>t. t \<in> set (WU_plineHeader (K_wuDelay k)) \<longleftrightarrow> TCB_usStatus (K_tcb k t) AND LW_THREAD_STATUS_DELAY \<noteq> 0"
    using S(4) by (simp add: delay_ok_def dline_def delayed_def)
  moreover have "\<forall>t e q. t \<in> set (waiters k e q) \<longrightarrow> \<not> LW_THREAD_IS_READY k t \<and> (\<forall>e' q'. t \<in> set (waiters k e' q') \<longrightarrow> e' = e \<and> q' = q) \<and>
       (\<forall>s. t \<notin> set (es_waiters k s)) \<and> (\<forall>h. t \<notin> set (k_plineVutexHashHeader k h))"
  proof (intro allI impI conjI)
    fix t e q assume a: "t \<in> set (waiters k e q)"
    show "\<not> LW_THREAD_IS_READY k t" "t \<notin> set (es_waiters k s)" "t \<notin> set (k_plineVutexHashHeader k h)" for s h using W(1,3) [OF a] O [of t] by blast+
    show "e' = e" "q' = q" if "t \<in> set (waiters k e' q')" for e' q' using W(2) [OF a] W(2) [OF that] by (simp_all add: waits_in_def)
  qed
  ultimately show ?thesis using ok ring cand rr sched_okD(3) [OF S(1)] by blast
qed

text \<open>Thread 2 blocks on the semaphore for ten ticks, a tick passes, and it is woken.\<close>

theorem reachable_consistent_witness:
  "\<exists>k. (sys_step {0, 1, 2, 3})\<^sup>*\<^sup>* demo_sem k \<and> K_bug k = False \<and> 2 \<in> set (WU_plineHeader (K_wuDelay k))"
proof -
  let ?T = "{0, 1, 2, 3} :: tid set"
  have s: "(sys_step ?T)\<^sup>*\<^sup>* demo_sem demo_wait"
    unfolding demo_wait_def by (intro r_into_rtranclp sys_step.EventBlock [OF demo_running]) simp
  have "delayed demo_wait 2" using demo_wait_spec(7) by simp
  with reachable_consistent [OF demo_sem_sys s] s show ?thesis by (auto simp: delayed_def)
qed

section \<open>The exit from an interrupt\<close>

text \<open>
  C15: At the exit from an interrupt \<^verbatim>\<open>_ScheduleInt\<close> first serves the pending requests to change the
  status of the interrupted thread. If the processor may then be preempted it runs its candidate,
  which is ready: when the candidate was flagged for reconsideration, no ready thread of the rings
  the processor may serve has a higher priority than the thread it runs; without the flag the
  candidate is the one it was. If the processor may not be preempted it goes on with the interrupted
  thread, and the candidates and the ready rings are left alone. The invariant of the system is
  kept.
\<close>

theorem schedule_int_runs_highest:
  assumes "sys_ok T k" and "c < K_ncpus k" and "CPU_bActive (K_cpu k c)" and "CPU_ptcbTCBCur (K_cpu k c) = Some t0"
    and "k0 = (if status_change_en t0 c k \<and> TCB_plineStatusReqHeader (K_tcb k t0) \<noteq> [] then ThreadStatusChangeCur c k else k)"
  shows "sys_ok T (ScheduleInt c k) \<and>
    (if can_preemptive c 1 k0
     then \<exists>t. CPU_ptcbTCBCur (K_cpu (ScheduleInt c k) c) = Some t \<and> LW_CAND_TCB (ScheduleInt c k) c = Some t \<and> LW_THREAD_IS_READY (ScheduleInt c k) t \<and>
       (if LW_CAND_ROT k0 c then \<forall>q. eligible k0 c (fst q) \<longrightarrow>
          (\<forall>u \<in> set (rring (ScheduleInt c k) q). prio (ScheduleInt c k) t \<le> prio (ScheduleInt c k) u)
        else LW_CAND_TCB k0 c = Some t)
     else CPU_ptcbTCBCur (K_cpu (ScheduleInt c k) c) = Some t0 \<and> LW_CAND_TCB (ScheduleInt c k) = LW_CAND_TCB k0 \<and>
       rring (ScheduleInt c k) = rring k0)"
proof -
  have t0: "cur_of k c = t0" using assms(4) by (simp add: cur_of_def)
  have k0: "k0 = reqs_served c k" by (simp add: reqs_served_def t0 assms(5))
  note S = ScheduleInt_sys [OF assms(1-3)]
  have c0: "c < K_ncpus k0" "CPU_bActive (K_cpu k0 c)" "CPU_ptcbTCBCur (K_cpu k0 c) = Some (cur_of k c)"
    using assms(2-4) by (simp_all add: k0 reqs_served_def ThreadStatusChangeCur_cpu t0)
  note I = ScheduleInt_spec [OF sys_ok_kern [OF S(1)] refl, folded k0, OF c0, unfolded t0]
  show ?thesis using S(2) I(2,3) by (cases "can_preemptive c 1 k0") (simp_all only: if_True if_False simp_thms)
qed

text \<open>Thread 2 has yielded the processor, so its candidate is flagged.\<close>

theorem schedule_int_runs_highest_witness:
  "\<exists>t. CPU_ptcbTCBCur (K_cpu (ScheduleInt 0 (set_rot 0 True demo_sem)) 0) = Some t \<and>
     (\<forall>q. eligible demo_sem 0 (fst q) \<longrightarrow>
        (\<forall>u \<in> set (rring (ScheduleInt 0 (set_rot 0 True demo_sem)) q). prio (ScheduleInt 0 (set_rot 0 True demo_sem)) t \<le>
           prio (ScheduleInt 0 (set_rot 0 True demo_sem)) u))"
proof -
  let ?k = "set_rot 0 True demo_sem"
  have ok: "sys_ok {0, 1, 2, 3} ?k" unfolding set_rot_def by (rule sys_ok_cpu [OF demo_sem_sys]) simp_all
  have a: "CPU_bActive (K_cpu demo 0)" "CPU_iKernelCounter (K_cpu demo 0) = 0" "CPU_ulInterNesting (K_cpu demo 0) = 0"
    using erase_cpuD [OF demo_erase, of 0] by (simp_all add: demo_boot_def kernel0_def cpu0_def)
  have l: "TCB_ulThreadLockCounter (K_tcb demo 2) = 0" using erase_tcbD [OF demo_erase, of 2] by (simp add: demo_boot_def demo_tcb_def tcb0_def)
  have c: "0 < K_ncpus ?k" "CPU_bActive (K_cpu ?k 0)" "CPU_ptcbTCBCur (K_cpu ?k 0) = Some 2" "TCB_plineStatusReqHeader (K_tcb ?k 2) = []"
    "LW_CAND_ROT ?k 0" using a by (simp_all add: set_rot_def LW_CAND_ROT_def demo_sem_tcb demo_other) (simp_all add: demo_sem_def)
  have p: "can_preemptive 0 1 ?k" using a l by (simp add: can_preemptive_def cur_of_def set_rot_def demo_sem_def)
  have e: "eligible ?k 0 x = eligible demo_sem 0 x" for x by (simp add: eligible_def set_rot_def)
  show ?thesis using schedule_int_runs_highest [OF ok c(1-3) refl] p c(4,5) by (auto simp: e)
qed

section \<open>Ticks and timeouts\<close>

text \<open>
  C4: A thread that blocks on an event with a finite timeout of \<open>n\<close> ticks is woken by exactly the
  \<open>n\<close>-th tick when nothing else happens: the ticks never get stuck; before the \<open>n\<close>-th the thread
  still waits in the queue and is not ready; from the \<open>n\<close>-th on it has left every wait queue and the
  delay line, is ready, and its call returns \<^verbatim>\<open>ERROR_THREAD_WAIT_TIMEOUT\<close>. The invariant of the
  system holds throughout.
\<close>

theorem timeout_liveness:
  assumes "sys_ok T k" and "running T k c" and "n \<noteq> 0" and "n \<noteq> LW_OPTION_WAIT_INFINITE" and "0 < m"
  shows "\<exists>k'. ticks m (ev_block e q LW_THREAD_STATUS_SEM n k) = Some k' \<and> sys_ok T k' \<and>
    (if m < unat n then c \<in> set (waiters k' e q) \<and> \<not> LW_THREAD_IS_READY k' c
     else (\<forall>e' q'. c \<notin> set (waiters k' e' q')) \<and> c \<notin> set (dline k') \<and> LW_THREAD_IS_READY k' c \<and> pend_result c k' = ERROR_THREAD_WAIT_TIMEOUT)"
proof -
  let ?k = "ev_block e q LW_THREAD_STATUS_SEM n k"
  note r = runningD [OF assms(2)]
  have ok: "sys_ok T ?k" by (rule ev_block_sys [OF assms(1) r]) simp_all
  have i: "ipc_ok T k" using assms(1) by (simp add: sys_ok_def)
  have B: "waits_in ?k c e q" "TCB_usStatus (K_tcb ?k c) = LW_THREAD_STATUS_SEM OR LW_THREAD_STATUS_DELAY" "delayed ?k c" "due ?k c = unat n"
    using ev_block_spec(3,5,7) [OF i r, where e = e and q = q and ty = LW_THREAD_STATUS_SEM and to = n] assms(3,4) by simp_all
  obtain m' where m: "m = Suc m'" using assms(5) by (cases m) auto
  from ticks_ok [OF ok, of m'] obtain k' where k': "ticks m ?k = Some k'" "passed T m ?k k'" by (auto simp: m)
  note P = passedD [OF k'(2)]
  have f: "fired m ?k c \<longleftrightarrow> unat n \<le> m" using B(3,4) by (simp add: fired_def)
  have w: "c \<in> set (waiters ?k e' q') \<longleftrightarrow> e' = e \<and> q' = q" for e' q'
    using wait_okD(2) [of T ?k c e' q'] B(1) ok by (auto simp: sys_ok_def ipc_ok_def waits_in_def)
  show ?thesis
  proof (intro exI conjI, rule k'(1), rule P(1))
    show "if m < unat n then c \<in> set (waiters k' e q) \<and> \<not> LW_THREAD_IS_READY k' c
     else (\<forall>e' q'. c \<notin> set (waiters k' e' q')) \<and> c \<notin> set (dline k') \<and> LW_THREAD_IS_READY k' c \<and> pend_result c k' = ERROR_THREAD_WAIT_TIMEOUT"
      using f w P(2) by (auto simp: P(4-6) LW_THREAD_IS_READY_def B(2) pend_result_def pending_def)
  qed
qed

theorem timeout_liveness_witness:
  "\<exists>k'. ticks 10 demo_wait = Some k' \<and> LW_THREAD_IS_READY k' 2 \<and> pend_result 2 k' = ERROR_THREAD_WAIT_TIMEOUT"
  using timeout_liveness [OF demo_sem_sys demo_running, of 10 10 0 EVENT_SEM_Q] by (auto simp: demo_wait_def)

text \<open>
  C18: A tick always ends and is exact: the threads due at the next tick leave the delay line and every
  wait queue, those of them that were waiting find \<^verbatim>\<open>LW_WAIT_TIME_OUT\<close>; every other delayed thread is
  due one tick earlier and the order of the queues is unchanged; the status of a thread that is not
  due is not touched, the status of a thread that is due keeps only what has nothing to do with the
  wait (suspended, stopped), and the invariant of the system is kept.
\<close>

theorem tick_exact:
  assumes "sys_ok T k"
  shows "\<exists>k'. thread_tick k = Some k' \<and> sys_ok T k' \<and>
    (\<forall>t. delayed k' t = (delayed k t \<and> 1 < due k t)) \<and> (\<forall>t. delayed k' t \<longrightarrow> due k' t = due k t - 1) \<and>
    (\<forall>e q. waiters k' e q = filter (\<lambda>t. \<not> (delayed k t \<and> due k t \<le> 1)) (waiters k e q)) \<and>
    (\<forall>t. TCB_usStatus (K_tcb k' t) = (if delayed k t \<and> due k t \<le> 1
       then (TCB_usStatus (K_tcb k t) AND NOT LW_THREAD_STATUS_DELAY) AND NOT LW_THREAD_STATUS_PEND_ANY else TCB_usStatus (K_tcb k t))) \<and>
    (\<forall>t. delayed k t \<and> due k t \<le> 1 \<and> pending k t \<longrightarrow> TCB_ucWaitTimeout (K_tcb k' t) = LW_WAIT_TIME_OUT)"
proof -
  from thread_tick_ok [OF assms] obtain k' where k': "thread_tick k = Some k'" "passed T 1 k k'" by metis
  note P = passedD [OF k'(2)]
  have d: "delayed k' t \<longleftrightarrow> delayed k t \<and> 1 < due k t" for t
    using dline_delayed [OF P(1), of t] dline_delayed [OF assms, of t] P(2) by (auto simp: fired_def)
  have u: "delayed k' t \<longrightarrow> due k' t = due k t - 1" for t using P(3) [of t] dline_delayed [OF P(1), of t] by blast
  show ?thesis using k'(1) P(1,4-6) d u by (auto simp: fired_def)
qed

theorem tick_exact_witness: "\<exists>k'. thread_tick demo_wait = Some k' \<and> delayed k' 2 \<and> due k' 2 = 9"
proof -
  have "sys_ok {0, 1, 2, 3} demo_wait" unfolding demo_wait_def by (rule ev_block_sys [OF demo_sem_sys demo_sem_cur]) simp_all
  from tick_exact [OF this] show ?thesis using demo_wait_spec(7) by auto
qed

section \<open>Event sets\<close>

lemma es_section_eq:
  assumes "s < LW_CFG_MAX_EVENTSETS"
  shows "es_section (handle OBJECT_EVENT_SET s) out body env k =
    (if EVENTSET_ucType (K_esBuffer k s) \<noteq> LW_TYPE_EVENT_EVENTSET then exit_with ERROR_EVENTSET_TYPE out env (kernelEnterIrq k)
     else case body s (kernelEnterIrq k) of (r, out, k) \<Rightarrow> exit_with r out env k)"
proof -
  have "K_esBuffer (kernelEnterIrq k) = K_esBuffer k" by (simp add: kernelEnterIrq_def)
  then show ?thesis using assms handle_parts [of OBJECT_EVENT_SET s]
    by (auto simp: es_section_def Let_def EventSet_Index_Invalid_def EventSet_Type_Invalid_def exit_with_def split: prod.splits)
qed

lemma sys_ok_enter: "sys_ok T k \<Longrightarrow> sys_ok T (kernelEnterIrq k)" "sys_ok T k \<Longrightarrow> sys_ok T (kernelEnter k)"
  unfolding kernelEnterIrq_def kernelEnter_def by (rule sys_ok_cpu; simp)+

lemma enter_other [simp]: "K_esBuffer (kernelEnterIrq k) = K_esBuffer k" "K_resrcEventSet (kernelEnterIrq k) = K_resrcEventSet k"
    "k_plineVutexHashHeader (kernelEnter k) = k_plineVutexHashHeader k" "K_tcb (kernelEnter k) = K_tcb k" "K_mem (kernelEnter k) = K_mem k"
  by (simp_all add: kernelEnterIrq_def kernelEnter_def)

text \<open>
  C16: \<^verbatim>\<open>API_EventSetSet\<close> sets or clears flags and wakes exactly the threads whose condition then holds:
  they leave the list of the event set in one pass, each gets the flags that satisfied it and loses
  its wait (it is ready unless it is suspended or stopped besides), the others stay in the list in
  their order with nothing changed, and the invariant of the system is kept.
\<close>

theorem event_set_wakes:
  assumes "sys_ok T k" and "s < LW_CFG_MAX_EVENTSETS" and "EVENTSET_ucType (K_esBuffer k s) = LW_TYPE_EVENT_EVENTSET"
    and "op = LW_OPTION_EVENTSET_SET \<or> op = LW_OPTION_EVENTSET_CLR"
    and "fl = (if op = LW_OPTION_EVENTSET_SET then EVENTSET_ulEventSets (K_esBuffer k s) OR ev else EVENTSET_ulEventSets (K_esBuffer k s) AND NOT ev)"
  shows "\<exists>k1. EventSetSet (handle OBJECT_EVENT_SET s) ev op env k = exit_with ERROR_NONE () env k1 \<and> sys_ok T k1 \<and>
    EVENTSET_ulEventSets (K_esBuffer k1 s) = fl \<and>
    EVENTSET_plineWaitList (K_esBuffer k1 s) = filter (\<lambda>t. es_hit k fl t = None) (EVENTSET_plineWaitList (K_esBuffer k s)) \<and>
    (\<forall>t r. t \<in> set (EVENTSET_plineWaitList (K_esBuffer k s)) \<and> es_hit k fl t = Some r \<longrightarrow> TCB_ulEventSets (K_tcb k1 t) = r \<and>
       TCB_usStatus (K_tcb k1 t) = (TCB_usStatus (K_tcb k t) AND NOT LW_THREAD_STATUS_DELAY) AND NOT LW_THREAD_STATUS_EVENTSET) \<and>
    (\<forall>t. t \<notin> set (EVENTSET_plineWaitList (K_esBuffer k s)) \<or> es_hit k fl t = None \<longrightarrow> TCB_usStatus (K_tcb k1 t) = TCB_usStatus (K_tcb k t) \<and>
       TCB_ulEventSets (K_tcb k1 t) = TCB_ulEventSets (K_tcb k t))"
proof -
  let ?k = "kernelEnterIrq k"
  have fl: "fl = es_new op ev (EVENTSET_ulEventSets (K_esBuffer ?k s))" using assms(4,5) by (auto simp: es_new_def)
  have h: "es_hit ?k fl = es_hit k fl" by (simp add: es_hit_def fun_eq_iff)
  from es_set_ok [OF sys_ok_enter(1) [OF assms(1)] assms(4) fl] obtain k1 where K: "es_set ev op s ?k = (ERROR_NONE, (), k1)" "sys_ok T k1"
    "EVENTSET_ulEventSets (K_esBuffer k1 s) = fl" "es_waiters k1 s = filter (\<lambda>t. es_hit ?k fl t = None) (es_waiters ?k s)"
    and O: "\<And>t. es_obs k1 t = (if t \<in> set (es_waiters ?k s) \<and> es_hit ?k fl t \<noteq> None
       then es_woken ?k t (the (es_hit ?k fl t)) (TCB_ucIsEventDelete (K_tcb ?k t)) else es_obs ?k t)" by metis
  have "EventSetSet (handle OBJECT_EVENT_SET s) ev op env k = exit_with ERROR_NONE () env k1"
    using assms(3) K(1) by (simp add: EventSetSet_def es_section_eq [OF assms(2)])
  moreover have "TCB_ulEventSets (K_tcb k1 t) = r \<and>
       TCB_usStatus (K_tcb k1 t) = (TCB_usStatus (K_tcb k t) AND NOT LW_THREAD_STATUS_DELAY) AND NOT LW_THREAD_STATUS_EVENTSET"
    if "t \<in> set (es_waiters k s)" "es_hit k fl t = Some r" for t r using O [of t] that h by (simp add: es_obs_def es_woken_def)
  moreover have "TCB_usStatus (K_tcb k1 t) = TCB_usStatus (K_tcb k t) \<and> TCB_ulEventSets (K_tcb k1 t) = TCB_ulEventSets (K_tcb k t)"
    if "t \<notin> set (es_waiters k s) \<or> es_hit k fl t = None" for t using O [of t] that h by (auto simp: es_obs_def)
  ultimately show ?thesis using K(2-4) h by auto
qed

text \<open>Thread 2 waits for flags 1 and 2 of event set 0, with flag 1 already set.\<close>

definition demo_es :: kernel where
  "demo_es = EventSetBlock 0 3 LW_OPTION_EVENTSET_WAIT_SET_ALL 5
     (es_upd 0 (\<lambda>v. v\<lparr>EVENTSET_ucType := LW_TYPE_EVENT_EVENTSET, EVENTSET_ulEventSets := 1\<rparr>) demo_sem)"

lemma demo_es:
  "sys_ok {0, 1, 2, 3} demo_es" "EVENTSET_ucType (K_esBuffer demo_es 0) = LW_TYPE_EVENT_EVENTSET" "EVENTSET_ulEventSets (K_esBuffer demo_es 0) = 1"
  "es_waiters demo_es 0 = [2]" "TCB_usStatus (K_tcb demo_es 2) = LW_THREAD_STATUS_EVENTSET OR LW_THREAD_STATUS_DELAY"
  "TCB_pesnPtr (K_tcb demo_es 2) = Some \<lparr>EVENTSETNODE_pesEventSet = 0, EVENTSETNODE_ulEventSets = 3, EVENTSETNODE_ucWaitType = LW_OPTION_EVENTSET_WAIT_SET_ALL\<rparr>"
proof -
  let ?k = "es_upd 0 (\<lambda>v. v\<lparr>EVENTSET_ucType := LW_TYPE_EVENT_EVENTSET, EVENTSET_ulEventSets := 1\<rparr>) demo_sem"
  have ok: "sys_ok {0, 1, 2, 3} ?k" by (rule sys_ok_flags [OF demo_sem_sys]) simp
  have c: "LW_TCB_GET_CUR ?k = 2" "K_ncpus ?k \<le> 2" "LW_THREAD_IS_READY ?k 2"
    using demo_sem_cur by (simp_all add: LW_TCB_GET_CUR_def LW_THREAD_IS_READY_def)
  show "sys_ok {0, 1, 2, 3} demo_es" unfolding demo_es_def by (rule EventSetBlock_sys [OF ok c(1) _ c(2,3)]) simp
  have z: "TCB_usStatus (K_tcb demo_sem 2) = 0" using demo_sem_cur(4) by (simp add: LW_THREAD_IS_READY_def)
  have e: "es_waiters demo_sem 0 = []" by (simp add: demo_sem_tcb demo_other)
  show "EVENTSET_ucType (K_esBuffer demo_es 0) = LW_TYPE_EVENT_EVENTSET" "EVENTSET_ulEventSets (K_esBuffer demo_es 0) = 1"
  "es_waiters demo_es 0 = [2]" "TCB_usStatus (K_tcb demo_es 2) = LW_THREAD_STATUS_EVENTSET OR LW_THREAD_STATUS_DELAY"
  "TCB_pesnPtr (K_tcb demo_es 2) = Some \<lparr>EVENTSETNODE_pesEventSet = 0, EVENTSETNODE_ulEventSets = 3, EVENTSETNODE_ucWaitType = LW_OPTION_EVENTSET_WAIT_SET_ALL\<rparr>"
    by (simp_all add: demo_es_def EventSetBlock_def Let_def c e z)
qed

theorem event_set_wakes_witness:
  "\<exists>k1. EventSetSet (handle OBJECT_EVENT_SET 0) 6 LW_OPTION_EVENTSET_SET [] demo_es = exit_with ERROR_NONE () [] k1 \<and> sys_ok {0, 1, 2, 3} k1 \<and>
    EVENTSET_plineWaitList (K_esBuffer k1 0) = [] \<and> TCB_ulEventSets (K_tcb k1 2) = 3 \<and> TCB_usStatus (K_tcb k1 2) = 0"
proof -
  have h: "es_hit demo_es 7 2 = Some 3" by (simp add: es_hit_def demo_es es_ready_def)
  show ?thesis
    using event_set_wakes [OF demo_es(1), of 0 LW_OPTION_EVENTSET_SET 7 6 "[]"] h by (auto simp: demo_es)
qed

text \<open>
  \<^verbatim>\<open>API_EventSetDelete\<close> wakes every waiting thread: each leaves the list, loses its wait, and its
  call finds the event set deleted; the control block goes to the end of the free list, the handle
  becomes zero, and a later call with the old handle reports \<^verbatim>\<open>ERROR_EVENTSET_TYPE\<close>. From an interrupt
  the call is refused and changes nothing but the error number.
\<close>

theorem event_set_delete:
  assumes "sys_ok T k" and "s < LW_CFG_MAX_EVENTSETS" and "EVENTSET_ucType (K_esBuffer k s) = LW_TYPE_EVENT_EVENTSET"
  shows "if CpuGetNesting k \<noteq> 0
    then EventSetDelete (handle OBJECT_EVENT_SET s) env k = Some (ERROR_KERNEL_IN_ISR, handle OBJECT_EVENT_SET s, env, ErrorHandle ERROR_KERNEL_IN_ISR k)
    else \<exists>k1. EventSetDelete (handle OBJECT_EVENT_SET s) env k = exit_with ERROR_NONE 0 env k1 \<and> sys_ok T k1 \<and>
      EVENTSET_plineWaitList (K_esBuffer k1 s) = [] \<and> RESRC_free (K_resrcEventSet k1) = RESRC_free (K_resrcEventSet k) @ [s] \<and>
      (\<forall>t \<in> set (EVENTSET_plineWaitList (K_esBuffer k s)). TCB_ucIsEventDelete (K_tcb k1 t) = LW_EVENT_DELETE \<and> TCB_ulEventSets (K_tcb k1 t) = 0 \<and>
        TCB_usStatus (K_tcb k1 t) = (TCB_usStatus (K_tcb k t) AND NOT LW_THREAD_STATUS_DELAY) AND NOT LW_THREAD_STATUS_EVENTSET) \<and>
      (\<forall>ev op env'. EventSetSet (handle OBJECT_EVENT_SET s) ev op env' k1 = exit_with ERROR_EVENTSET_TYPE () env' (kernelEnterIrq k1))"
proof (cases "CpuGetNesting k = 0")
  case True
  let ?k = "kernelEnterIrq k"
  from es_delete_ok [OF sys_ok_enter(1) [OF assms(1)], of s] obtain k1 where K: "es_delete s ?k = (ERROR_NONE, 0, k1)" "sys_ok T k1" "es_waiters k1 s = []"
    "EVENTSET_ucType (K_esBuffer k1 s) = LW_TYPE_EVENT_UNUSED" "RESRC_free (K_resrcEventSet k1) = RESRC_free (K_resrcEventSet ?k) @ [s]"
    and O: "\<And>t. es_obs k1 t = (if t \<in> set (es_waiters ?k s) then es_woken ?k t 0 LW_EVENT_DELETE else es_obs ?k t)" by metis
  have "EventSetDelete (handle OBJECT_EVENT_SET s) env k = exit_with ERROR_NONE 0 env k1"
    using assms(3) K(1) True by (simp add: EventSetDelete_def es_section_eq [OF assms(2)])
  moreover have "TCB_ucIsEventDelete (K_tcb k1 t) = LW_EVENT_DELETE \<and> TCB_ulEventSets (K_tcb k1 t) = 0 \<and>
        TCB_usStatus (K_tcb k1 t) = (TCB_usStatus (K_tcb k t) AND NOT LW_THREAD_STATUS_DELAY) AND NOT LW_THREAD_STATUS_EVENTSET"
    if "t \<in> set (es_waiters k s)" for t using O [of t] that by (simp add: es_obs_def es_woken_def)
  moreover have "EventSetSet (handle OBJECT_EVENT_SET s) ev op env' k1 = exit_with ERROR_EVENTSET_TYPE () env' (kernelEnterIrq k1)" for ev op env'
    using K(4) by (simp add: EventSetSet_def es_section_eq [OF assms(2)])
  ultimately show ?thesis using True K(2,3,5) by auto
qed (simp add: EventSetDelete_def)

lemma demo_es_nesting: "CpuGetNesting demo_es = 0"
proof -
  have "CpuGetNesting demo_es = CpuGetNesting demo_sem" by (simp add: demo_es_def EventSetBlock_def Let_def CpuGetNesting_def)
  then show ?thesis by (simp add: demo_sem_nesting)
qed

theorem event_set_delete_witness:
  "\<exists>k1. EventSetDelete (handle OBJECT_EVENT_SET 0) [] demo_es = exit_with ERROR_NONE 0 [] k1 \<and> sys_ok {0, 1, 2, 3} k1 \<and>
    TCB_ucIsEventDelete (K_tcb k1 2) = LW_EVENT_DELETE"
  using event_set_delete [OF demo_es(1), of 0 "[]"] by (auto simp: demo_es demo_es_nesting)

text \<open>
  The condition of a wait, against the flags as sets of bits: a thread that waits for all flags to
  be set is satisfied when its flags are among those set, one that waits for any when one is; and
  likewise for clear flags. The flags it gets are the flags it waited for that are set (or clear).
\<close>

theorem es_ready_sets:
  fixes ev fl :: ulong
  shows "es_ready LW_OPTION_EVENTSET_WAIT_SET_ALL ev fl = (if {i. bit ev i} \<subseteq> {i. bit fl i} then Some (ev AND fl) else None) \<and>
    es_ready LW_OPTION_EVENTSET_WAIT_CLR_ALL ev fl = (if {i. bit ev i} \<inter> {i. bit fl i} = {} then Some (ev AND NOT fl) else None) \<and>
    es_ready LW_OPTION_EVENTSET_WAIT_SET_ANY ev fl = (if {i. bit ev i} \<inter> {i. bit fl i} = {} then None else Some (ev AND fl)) \<and>
    es_ready LW_OPTION_EVENTSET_WAIT_CLR_ANY ev fl = (if {i. bit ev i} \<subseteq> {i. bit fl i} then None else Some (ev AND NOT fl)) \<and>
    {i. bit (ev AND fl) i} = {i. bit ev i} \<inter> {i. bit fl i} \<and> {i. bit (ev AND NOT fl) i} = {i. bit ev i} - {i. bit fl i}"
proof -
  let ?E = "{i. bit ev i}" and ?F = "{i. bit fl i}"
  have b: "bit ev i \<Longrightarrow> i < 64" for i using bit_imp_le_length [of ev i] by simp
  have s: "{i. bit (ev AND fl) i} = ?E \<inter> ?F" "{i. bit (ev AND NOT fl) i} = ?E - ?F" using b by (auto simp: bit_and_iff bit_not_iff)
  have w: "x = y \<longleftrightarrow> {i. bit x i} = {i. bit y i}" for x y :: ulong by (metis bit_eqI mem_Collect_eq)
  have a: "ev AND fl = ev \<longleftrightarrow> ?E \<subseteq> ?F" "ev AND fl = 0 \<longleftrightarrow> ?E \<inter> ?F = {}" "ev AND NOT fl = ev \<longleftrightarrow> ?E \<inter> ?F = {}" "ev AND NOT fl = 0 \<longleftrightarrow> ?E \<subseteq> ?F"
    unfolding w [of _ ev] w [of _ 0] s by auto
  show ?thesis using a s by (simp add: es_ready_def Let_def)
qed

section \<open>Vutexes\<close>

text \<open>A thread that waits for the variable at \<open>a\<close>, and that the value \<open>v\<close> (or the wish to wake all) satisfies.\<close>

definition vutex_hit :: "kernel \<Rightarrow> ulong \<Rightarrow> u32 \<Rightarrow> u32 \<Rightarrow> tid \<Rightarrow> bool" where
  "vutex_hit k a v fl t \<longleftrightarrow> VUTEX_phyaddr (TCB_vutex (K_tcb k t)) = Some a \<and> (fl AND LW_OPTION_VUTEX_FLAG_WAKEALL \<noteq> 0 \<or>
     VutexWakeIsMatch v (VUTEX_iCompare (TCB_vutex (K_tcb k t))) (VUTEX_iDesired (TCB_vutex (K_tcb k t))))"

lemma vutex_match_hit: "vutex_match a v fl (TCB_vutex (K_tcb k t)) = vutex_hit k a v fl t"
  by (simp add: vutex_match_def vutex_hit_def)

text \<open>
  C17: \<^verbatim>\<open>API_VutexPostEx\<close> on a variable whose address translates. A post of the value the variable has
  already, with neither \<^verbatim>\<open>LW_OPTION_VUTEX_FLAG_WAKEALL\<close> nor \<^verbatim>\<open>LW_OPTION_VUTEX_FLAG_DEEPWAKE\<close>, does nothing and returns 0,
  whatever the waiting threads compare with. Any other post stores the value (unless told not to)
  and wakes exactly the threads that wait for this variable with a comparison the value satisfies,
  or all threads that wait for it when \<^verbatim>\<open>LW_OPTION_VUTEX_FLAG_WAKEALL\<close> is given: they leave the bucket,
  lose their wait and know which of the two it was; the number of threads woken is returned; threads
  in the same bucket that wait for another variable or value stay; and the invariant of the system
  is kept.
\<close>

theorem vutex_post_wakes:
  assumes "sys_ok T k" and "p \<noteq> 0" and "CpuGetNesting k = 0" and "vtop p = Some a" and "a \<noteq> LW_PHY_ADDR_INVALID"
  shows "if VUTEX_POST_CHECK_VALUE fl \<and> K_mem k p = v then VutexPostEx vtop p v fl env k = Some (0, env, k)
    else \<exists>k1. VutexPostEx vtop p v fl env k = map_option (\<lambda>(_, env, k').
      (int (length (filter (\<lambda>t. vutex_hit k a v fl t) (k_plineVutexHashHeader k (VutexHash a)))), env, k')) (kernelExit env k1) \<and>
    sys_ok T k1 \<and> K_mem k1 p = (if fl AND LW_OPTION_VUTEX_FLAG_DONTSET = 0 then v else K_mem k p) \<and>
    k_plineVutexHashHeader k1 (VutexHash a) =
      filter (\<lambda>t. \<not> vutex_hit k a v fl t) (k_plineVutexHashHeader k (VutexHash a)) \<and>
    (\<forall>t. t \<in> set (k_plineVutexHashHeader k (VutexHash a)) \<and> vutex_hit k a v fl t \<longrightarrow>
      TCB_usStatus (K_tcb k1 t) = (TCB_usStatus (K_tcb k t) AND NOT LW_THREAD_STATUS_DELAY) AND NOT LW_THREAD_STATUS_VUTEX \<and>
      VutexWakeIsAll t k1 = (fl AND LW_OPTION_VUTEX_FLAG_WAKEALL \<noteq> 0)) \<and>
    (\<forall>t. \<not> (t \<in> set (k_plineVutexHashHeader k (VutexHash a)) \<and> vutex_hit k a v fl t) \<longrightarrow>
      TCB_usStatus (K_tcb k1 t) = TCB_usStatus (K_tcb k t))"
proof (cases "VUTEX_POST_CHECK_VALUE fl \<and> K_mem k p = v")
  case True
  then show ?thesis using assms(2,3) by (simp add: VutexPostEx_def)
next
  case changed: False
  note m = vutex_match_hit
  let ?k = "if fl AND LW_OPTION_VUTEX_FLAG_DONTSET = 0 then (kernelEnter k)\<lparr>K_mem := (K_mem (kernelEnter k))(p := v)\<rparr> else kernelEnter k"
  have "sys_ok T ((kernelEnter k)\<lparr>K_mem := m\<rparr>)" for m
  proof (rule sys_ok_same [OF sys_ok_enter(2) [OF assms(1)]])
    show "kern_ok T ((kernelEnter k)\<lparr>K_mem := m\<rparr>)" by (rule kern_ok_sview [OF sys_ok_kern [OF sys_ok_enter(2) [OF assms(1)]]])
      (auto simp: rdyset_def LW_THREAD_IS_READY_def sview_def rdy_pcbbmap_def LW_CAND_TCB_def fun_eq_iff split: option.splits)
  qed (simp_all add: okern_def dline_def)
  then have ok: "sys_ok T ?k" using sys_ok_enter(2) [OF assms(1)] by simp
  have e: "K_tcb ?k = K_tcb k" "k_plineVutexHashHeader ?k = k_plineVutexHashHeader k" "K_mem ?k p = (if fl AND LW_OPTION_VUTEX_FLAG_DONTSET = 0 then v else K_mem k p)"
    by simp_all
  from VutexWakeQueue_ok [OF ok, of a v fl] obtain n k1 where W: "VutexWakeQueue a v fl ?k = (n, k1)" "sys_ok T k1"
    "k_plineVutexHashHeader k1 (VutexHash a) = filter (\<lambda>t. \<not> vutex_hit k a v fl t) (k_plineVutexHashHeader k (VutexHash a))"
    "n = int (length (filter (\<lambda>t. vutex_hit k a v fl t) (k_plineVutexHashHeader k (VutexHash a))))"
    and O: "\<And>t. vutex_obs k1 t = (if t \<in> set (k_plineVutexHashHeader k (VutexHash a)) \<and> vutex_hit k a v fl t
       then vutex_woken ?k t fl else vutex_obs ?k t)" unfolding e m by metis
  have "K_mem k1 p = K_mem ?k p" using VutexWakeQueue_mem [OF W(1)] by simp
  moreover have "VutexPostEx vtop p v fl env k = map_option (\<lambda>(_, env, k'). (n, env, k')) (kernelExit env k1)"
    using assms(2-5) changed W(1) by (auto simp: VutexPostEx_def Let_def)
  moreover have "TCB_usStatus (K_tcb k1 t) = (TCB_usStatus (K_tcb k t) AND NOT LW_THREAD_STATUS_DELAY) AND NOT LW_THREAD_STATUS_VUTEX \<and>
      VutexWakeIsAll t k1 = (fl AND LW_OPTION_VUTEX_FLAG_WAKEALL \<noteq> 0)"
    if "t \<in> set (k_plineVutexHashHeader k (VutexHash a))" "vutex_hit k a v fl t" for t
    using O [of t] that by (simp add: vutex_obs_def vutex_woken_def)
  moreover have "TCB_usStatus (K_tcb k1 t) = TCB_usStatus (K_tcb k t)"
    if "\<not> (t \<in> set (k_plineVutexHashHeader k (VutexHash a)) \<and> vutex_hit k a v fl t)" for t
    using O [of t] that by (auto simp: vutex_obs_def)
  ultimately show ?thesis unfolding if_not_P [OF changed] using W(2-4) e(3) by (intro exI [of _ k1]) (simp only: simp_thms, blast)
qed

text \<open>Thread 2 waits for the variable at address 64 to become 7.\<close>

definition demo_vutex :: kernel where
  "demo_vutex = vutex_block 2 64 7 LW_OPTION_VUTEX_EQU LW_OPTION_WAIT_INFINITE demo_sem"

lemma demo_vutex:
  "sys_ok {0, 1, 2, 3} demo_vutex" "k_plineVutexHashHeader demo_vutex (VutexHash 64) = [2]" "CpuGetNesting demo_vutex = 0"
  "TCB_vutex (K_tcb demo_vutex 2) = \<lparr>VUTEX_bWakeAll = False, VUTEX_iCompare = LW_OPTION_VUTEX_EQU, VUTEX_iDesired = 7,
     VUTEX_uiHash = VutexHash 64, VUTEX_phyaddr = Some 64\<rparr>" "K_mem demo_vutex 64 = 0" "TCB_usStatus (K_tcb demo_vutex 2) = LW_THREAD_STATUS_VUTEX"
proof -
  have z: "TCB_usStatus (K_tcb demo_sem 2) = 0" using demo_sem_cur(4) by (simp add: LW_THREAD_IS_READY_def)
  have l: "k_plineVutexHashHeader demo_sem h = []" for h by (simp add: demo_sem_tcb demo_other)
  have m: "K_mem demo_sem a = 0" for a using arg_cong [OF demo_erase, of K_mem] by (simp add: demo_sem_def demo_boot_def erase_def kernel0_def)
  show "sys_ok {0, 1, 2, 3} demo_vutex" unfolding demo_vutex_def using demo_sem_cur by (intro vutex_block_sys demo_sem_sys) simp_all
  have n: "CpuGetNesting demo_vutex = CpuGetNesting demo_sem"
    by (simp add: demo_vutex_def vutex_block_def VutexWaitQueue_def vutex_upd_def Let_def CpuGetNesting_def)
  then show "CpuGetNesting demo_vutex = 0" by (simp add: demo_sem_nesting)
  show "k_plineVutexHashHeader demo_vutex (VutexHash 64) = [2]" "TCB_usStatus (K_tcb demo_vutex 2) = LW_THREAD_STATUS_VUTEX"
    "TCB_vutex (K_tcb demo_vutex 2) = \<lparr>VUTEX_bWakeAll = False, VUTEX_iCompare = LW_OPTION_VUTEX_EQU, VUTEX_iDesired = 7,
     VUTEX_uiHash = VutexHash 64, VUTEX_phyaddr = Some 64\<rparr>"
    by (simp_all add: demo_vutex_def vutex_block_def VutexWaitQueue_def vutex_upd_def Let_def l z)
  show "K_mem demo_vutex 64 = 0"
    by (simp add: demo_vutex_def vutex_block_def VutexWaitQueue_def vutex_upd_def Let_def m erase_mem [OF erase_DEL] vutex_line_def)
qed

theorem vutex_post_wakes_witness:
  "\<exists>k1. VutexPostEx Some 64 7 0 [] demo_vutex = map_option (\<lambda>(_, env, k'). (1, env, k')) (kernelExit [] k1) \<and>
    sys_ok {0, 1, 2, 3} k1 \<and> K_mem k1 64 = 7 \<and> TCB_usStatus (K_tcb k1 2) = 0"
proof -
  have m: "vutex_hit demo_vutex 64 7 0 2" by (simp add: demo_vutex vutex_hit_def VutexWakeIsMatch_def)
  show ?thesis
    using vutex_post_wakes [OF demo_vutex(1), of 64 Some 64 0 7 "[]"] m by (auto simp: demo_vutex VUTEX_POST_CHECK_VALUE_def)
qed

section \<open>Giving up the processor\<close>

lemma ev_block_cpu:
  "K_curcpu (ev_block e q ty to k) = K_curcpu k" "K_ncpus (ev_block e q ty to k) = K_ncpus k"
  "CPU_bActive (K_cpu (ev_block e q ty to k) i) = CPU_bActive (K_cpu k i)" "CPU_ulInterNesting (K_cpu (ev_block e q ty to k) i) = CPU_ulInterNesting (K_cpu k i)"
  "CPU_iKernelCounter (K_cpu (ev_block e q ty to k) i) = CPU_iKernelCounter (K_cpu k i)" "LW_TCB_GET_CUR (ev_block e q ty to k) = LW_TCB_GET_CUR k"
  unfolding LW_TCB_GET_CUR_def by (simp_all add: ev_block_eq [OF refl])

text \<open>The processor that acts runs the thread \<open>c\<close>, outside the kernel and outside interrupts.\<close>

definition in_thread :: "tid set \<Rightarrow> kernel \<Rightarrow> tid \<Rightarrow> bool" where
  "in_thread T k c \<longleftrightarrow> running T k c \<and> K_curcpu k < K_ncpus k \<and> CPU_bActive (K_cpu k (K_curcpu k)) \<and> CpuGetNesting k = 0 \<and>
     CPU_iKernelCounter (K_cpu k (K_curcpu k)) = 0 \<and> TCB_plineStatusReqHeader (K_tcb k c) = []"

text \<open>
  C19: A thread that calls \<^verbatim>\<open>API_SemaphoreCPend\<close> on an empty semaphore, and may wait, gives up its
  processor: it is in the wait queue and the processor runs another thread, which is ready, before
  the call can return. If the thread is not brought back the call does not return; if it is (and not
  by a signal) the call returns what the thread finds: a timeout, a deletion or a unit.
\<close>

theorem pend_gives_up_processor:
  assumes "sys_ok T k" and "in_thread T k c" and "e < LW_CFG_MAX_EVENTS" and "EVENT_ucType (K_eventBuffer k e) = LW_TYPE_EVENT_SEMC"
    and "EVENT_ulCounter (K_eventBuffer k e) = 0" and "to \<noteq> LW_OPTION_NOT_WAIT"
  shows "\<exists>k3. sys_ok T k3 \<and> c \<in> set (waiters k3 e EVENT_SEM_Q) \<and>
    (\<exists>t. CPU_ptcbTCBCur (K_cpu k3 (K_curcpu k)) = Some t \<and> t \<noteq> c \<and> LW_THREAD_IS_READY k3 t) \<and>
    SemaphoreCPend (handle OBJECT_SEM_C e) to [] k = None \<and>
    (\<forall>f env. LW_TCB_GET_CUR (f k3) = c \<and> TCB_iSchedRet (K_tcb (f k3) c) = 0 \<longrightarrow>
      (\<exists>k4. SemaphoreCPend (handle OBJECT_SEM_C e) to (f # env) k = Some (pend_result c (f k3), env, k4)))"
proof -
  let ?k = "kernelEnterIrq k" and ?h = "handle OBJECT_SEM_C e"
  let ?b = "ev_block e EVENT_SEM_Q LW_THREAD_STATUS_SEM to ?k"
  have I: "running T k c" "K_curcpu k < K_ncpus k" "CPU_bActive (K_cpu k (K_curcpu k))" "CpuGetNesting k = 0"
    "CPU_iKernelCounter (K_cpu k (K_curcpu k)) = 0" "TCB_plineStatusReqHeader (K_tcb k c) = []" using assms(2) by (simp_all add: in_thread_def)
  have r: "LW_TCB_GET_CUR ?k = c" "c \<in> T" "K_ncpus ?k \<le> c" "LW_THREAD_IS_READY ?k c" using runningD [OF I(1)] by simp_all
  have ok1: "sys_ok T ?k" and i1: "ipc_ok T ?k" using sys_ok_enter(1) [OF assms(1)] by (simp_all add: sys_ok_def)
  have okb: "sys_ok T ?b" by (rule ev_block_sys [OF ok1 r]) simp_all
  note B = ev_block_spec [OF i1 r, where e = e and q = EVENT_SEM_Q and ty = LW_THREAD_STATUS_SEM and to = to]
  have nb: "\<not> LW_THREAD_IS_READY ?b c" using B(3) by (simp add: LW_THREAD_IS_READY_def)
  have sb: "in_section ?b" using I by (simp add: in_section_def ev_block_cpu kernelEnterIrq_def CpuGetNesting_def)
  have hb: "TCB_plineStatusReqHeader (K_tcb ?b c) = []"
  proof -
    have "rview (K_tcb ?b c) = rview (K_tcb ?k c)" unfolding ev_block_eq [OF r(1)] by (simp add: or_bits)
    then show ?thesis using I(6) by (simp add: rview_def)
  qed
  have cb: "LW_TCB_GET_CUR ?b = c" using r(1) by (simp add: ev_block_cpu)
  from blocked_leaves [OF okb sb cb nb hb] obtain k3 where A: "away T c ?b k3" "kernelExit [] ?b = None"
    and X: "\<And>f env. kernelExit (f # env) ?b = Some (TCB_iSchedRet (K_tcb (f k3) (LW_TCB_GET_CUR (f k3))), env,
       tcb_upd (LW_TCB_GET_CUR (f k3)) (\<lambda>b. b\<lparr>TCB_iSchedRet := 0\<rparr>) (f k3))" by metis
  have P: "SemaphoreCPend ?h to env k = map_option (\<lambda>(r, _, env, k). (r, env, k)) (sem_pend semC ?h c to env k)" for env
    using I(4) runningD(1) [OF I(1)] by (simp add: SemaphoreCPend_def sem_pend_api_def)
  have L: "sem_pend semC ?h c to env k = (case kernelExit env ?b of None \<Rightarrow> None
      | Some (r, env', k2) \<Rightarrow> if r = 0 then Some (pend_result c k2, if pend_result c k2 = ERROR_NONE then Some (TCB_pvMsgBoxMessage (K_tcb k2 c)) else None,
          env', ErrorHandle (pend_result c k2) k2) else sem_pend semC ?h c to env k)" if "\<And>r env' k2. kernelExit env ?b = Some (r, env', k2) \<Longrightarrow> r = 0" for env
    using that sem_pend_handle [of semC e c to env k] assms(3-6) by (auto simp: semC_def Let_def split: option.splits)
  have w: "c \<in> set (waiters k3 e EVENT_SEM_Q)"
  proof -
    have "c \<in> set (waiters ?b e EVENT_SEM_Q)" using wait_okD(2) [of T ?b c e EVENT_SEM_Q] B(5) okb by (simp add: sys_ok_def ipc_ok_def)
    moreover have "waiters k3 = waiters ?b" using A(1) by (simp add: away_def waiters_def wq_def by_prio_def fun_eq_iff)
    ultimately show ?thesis by simp
  qed
  have "\<exists>k4. SemaphoreCPend ?h to (f # env) k = Some (pend_result c (f k3), env, k4)"
    if "LW_TCB_GET_CUR (f k3) = c" "TCB_iSchedRet (K_tcb (f k3) c) = 0" for f env
  proof -
    have "pend_result c (tcb_upd c (\<lambda>b. b\<lparr>TCB_iSchedRet := 0\<rparr>) (f k3)) = pend_result c (f k3)" by (simp add: pend_result_def)
    then show ?thesis using X [of f env] that L [of "f # env"] by (simp add: P)
  qed
  moreover have "SemaphoreCPend ?h to [] k = None" using A(2) L [of "[]"] by (simp add: P)
  moreover have "sys_ok T k3" "\<exists>t. CPU_ptcbTCBCur (K_cpu k3 (K_curcpu k)) = Some t \<and> t \<noteq> c \<and> LW_THREAD_IS_READY k3 t"
    using A(1) by (simp_all add: away_def ev_block_cpu)
  ultimately show ?thesis using w by blast
qed

lemma demo_sem_thread: "in_thread {0, 1, 2, 3} demo_sem 2"
proof -
  have "CPU_bActive (K_cpu demo 0)" "CPU_iKernelCounter (K_cpu demo 0) = 0"
    using erase_cpuD [OF demo_erase, of 0] by (simp_all add: demo_boot_def kernel0_def cpu0_def)
  then show ?thesis using demo_running demo_sem_nesting by (simp add: in_thread_def demo_sem_tcb demo_other) (simp add: demo_sem_def)
qed

theorem pend_gives_up_processor_witness:
  "\<exists>k3. sys_ok {0, 1, 2, 3} k3 \<and> 2 \<in> set (waiters k3 0 EVENT_SEM_Q) \<and> SemaphoreCPend (handle OBJECT_SEM_C 0) 10 [] demo_sem = None"
  using pend_gives_up_processor [OF demo_sem_sys demo_sem_thread, of 0 10] by (auto simp: demo_sem_events)

section \<open>A signal at the end of the time\<close>

lemma ADD_WAKEUP_mem [simp]: "K_mem (ADD_TO_WAKEUP_LINE t k) = K_mem k"
  by (simp add: ADD_TO_WAKEUP_LINE_def put_delay_def Let_def split: prod.splits)

lemma vutex_line_mem [simp]: "K_mem (vutex_line h f k) = K_mem k"
  by (simp add: vutex_line_def)

lemma vutex_block_frame:
  "K_curcpu (vutex_block c a d cmp to k) = K_curcpu k" "K_ncpus (vutex_block c a d cmp to k) = K_ncpus k"
  "CPU_bActive (K_cpu (vutex_block c a d cmp to k) i) = CPU_bActive (K_cpu k i)"
  "CPU_ulInterNesting (K_cpu (vutex_block c a d cmp to k) i) = CPU_ulInterNesting (K_cpu k i)"
  "CPU_iKernelCounter (K_cpu (vutex_block c a d cmp to k) i) = CPU_iKernelCounter (K_cpu k i)"
  "LW_TCB_GET_CUR (vutex_block c a d cmp to k) = LW_TCB_GET_CUR k" "rview (K_tcb (vutex_block c a d cmp to k) u) = rview (K_tcb k u)"
  "K_mem (vutex_block c a d cmp to k) = K_mem k" "\<not> LW_THREAD_IS_READY (vutex_block c a d cmp to k) c"
  "K_i64KernelTime (vutex_block c a d cmp to k) = K_i64KernelTime k"
  unfolding LW_TCB_GET_CUR_def vutex_block_def VutexWaitQueue_def vutex_upd_def
  by (simp_all add: Let_def or_bits erase_mem [OF erase_DEL] LW_THREAD_IS_READY_def or_eq_0_iff erase_kernelD [OF erase_DEL])

lemma recalc_zero: "to \<noteq> LW_OPTION_WAIT_INFINITE \<Longrightarrow> to \<le> K_i64KernelTime k - t0 \<Longrightarrow> sigTimeoutRecalc t0 to k = 0"
proof -
  have "ULONG_MAX = - 1" by code_simp
  then have w: "K_i64KernelTime k + (ULONG_MAX - t0) + 1 = K_i64KernelTime k - t0" by (simp only:) simp
  show "to \<noteq> LW_OPTION_WAIT_INFINITE \<Longrightarrow> to \<le> K_i64KernelTime k - t0 \<Longrightarrow> sigTimeoutRecalc t0 to k = 0"
    by (simp add: sigTimeoutRecalc_def Let_def w)
qed

lemma kernelExitIrq_eq: "kernelExitIrq = kernelExit"
  by (simp add: kernelExitIrq_def kernelExit_def fun_eq_iff)

text \<open>
  C40: A thread in \<^verbatim>\<open>API_VutexPendEx\<close> whose wait a restartable signal ends when no time is left gets the
  result 0, the one its documentation keeps for a thread woken by the value it waited for, although
  the variable was never written; \<^verbatim>\<open>API_SemaphoreCPend\<close> reports \<^verbatim>\<open>ERROR_THREAD_WAIT_TIMEOUT\<close> in the same
  situation. (The absence \<open>f\<close> leaves the variable alone, lets at least the timeout pass, and brings the
  thread back with \<^verbatim>\<open>LW_SIGNAL_RESTART\<close>.)
\<close>

definition late_signal :: "tid \<Rightarrow> ulong \<Rightarrow> kernel \<Rightarrow> (kernel \<Rightarrow> kernel) \<Rightarrow> bool" where
  "late_signal c to k f \<longleftrightarrow> (\<forall>k'. LW_TCB_GET_CUR (f k') = c \<and> TCB_iSchedRet (K_tcb (f k') c) = LW_SIGNAL_RESTART \<and>
     VUTEX_bWakeAll (TCB_vutex (K_tcb (f k') c)) = False \<and> K_mem (f k') = K_mem k' \<and> to \<le> K_i64KernelTime (f k') - K_i64KernelTime k)"

theorem vutex_late_signal:
  assumes "sys_ok T k" and "in_thread T k c" and "p \<noteq> 0" and "vtop p = Some a" and "a \<noteq> LW_PHY_ADDR_INVALID"
    and "\<not> VutexWakeIsMatch (K_mem k p) cmp d" and "to \<noteq> LW_OPTION_NOT_WAIT" and "to \<noteq> LW_OPTION_WAIT_INFINITE" and "late_signal c to k f"
  shows "\<exists>k'. VutexPendEx vtop p cmp d to (f # env) k = Some (0, env, k') \<and> K_mem k' p = K_mem k p \<and>
    \<not> VutexWakeIsMatch (K_mem k' p) cmp d"
proof -
  let ?k = "kernelEnter k"
  let ?b = "vutex_block c a d cmp to ?k"
  have I: "running T k c" "K_curcpu k < K_ncpus k" "CPU_bActive (K_cpu k (K_curcpu k))" "CpuGetNesting k = 0"
    "CPU_iKernelCounter (K_cpu k (K_curcpu k)) = 0" "TCB_plineStatusReqHeader (K_tcb k c) = []" using assms(2) by (simp_all add: in_thread_def)
  have r: "LW_TCB_GET_CUR ?k = c" "c \<in> T" "K_ncpus ?k \<le> c" "LW_THREAD_IS_READY ?k c"
    using runningD [OF I(1)] by (simp_all add: kernelEnter_def LW_TCB_GET_CUR_def LW_THREAD_IS_READY_def)
  have okb: "sys_ok T ?b" by (rule vutex_block_sys [OF sys_ok_enter(2) [OF assms(1)] r(2-4)])
  have sb: "in_section ?b" using I by (simp add: in_section_def vutex_block_frame kernelEnter_def CpuGetNesting_def)
  have hb: "TCB_plineStatusReqHeader (K_tcb ?b c) = []" using vutex_block_frame(7) [of c a d cmp to ?k c] I(6) by (simp add: rview_def)
  have cb: "LW_TCB_GET_CUR ?b = c" using r(1) by (simp add: vutex_block_frame)
  from blocked_leaves [OF okb sb cb vutex_block_frame(9) hb] obtain k3 where A: "away T c ?b k3"
    and X: "\<And>f env. kernelExit (f # env) ?b = Some (TCB_iSchedRet (K_tcb (f k3) (LW_TCB_GET_CUR (f k3))), env,
       tcb_upd (LW_TCB_GET_CUR (f k3)) (\<lambda>b. b\<lparr>TCB_iSchedRet := 0\<rparr>) (f k3))" by metis
  let ?k' = "tcb_upd c (\<lambda>b. b\<lparr>TCB_iSchedRet := 0\<rparr>) (f k3)"
  have F: "LW_TCB_GET_CUR (f k3) = c" "TCB_iSchedRet (K_tcb (f k3) c) = LW_SIGNAL_RESTART" "\<not> VutexWakeIsAll c ?k'" "K_mem ?k' = K_mem k"
    using assms(9) A by (simp_all add: late_signal_def VutexWakeIsAll_def away_def vutex_block_frame)
  have t: "sigTimeoutRecalc (K_i64KernelTime ?k) to ?k' = 0"
    using recalc_zero [OF assms(8), of ?k' "K_i64KernelTime k"] assms(9) by (simp add: late_signal_def kernelEnter_def)
  have "VutexPendEx vtop p cmp d to (f # env) k = Some (0, env, ?k')"
    using assms(3-7) I(4) r(1) X [of f env] F t
    by (simp add: VutexPendEx_def vutex_pend.simps [of vtop p cmp d to "f # env" k] Let_def kernelExitIrq_eq)
  then show ?thesis using F(4) assms(6) by auto
qed

definition demo_absence :: "kernel \<Rightarrow> kernel" where
  "demo_absence k = (cpu_upd 0 (\<lambda>p. p\<lparr>CPU_ptcbTCBCur := Some 2\<rparr>)
     (tcb_upd 2 (\<lambda>b. b\<lparr>TCB_iSchedRet := LW_SIGNAL_RESTART, TCB_vutex := (TCB_vutex b)\<lparr>VUTEX_bWakeAll := False\<rparr>\<rparr>) k))
       \<lparr>K_curcpu := 0, K_i64KernelTime := 100\<rparr>"

theorem vutex_late_signal_witness:
  "\<exists>k'. VutexPendEx Some 64 LW_OPTION_VUTEX_EQU 7 5 [demo_absence] demo_sem = Some (0, [], k') \<and> K_mem k' 64 = 0"
proof -
  have m: "K_mem demo_sem a = 0" for a using arg_cong [OF demo_erase, of K_mem] by (simp add: demo_sem_def demo_boot_def erase_def kernel0_def)
  have t: "K_i64KernelTime demo_sem = 0" by (simp add: demo_sem_def demo_kernel)
  have l: "late_signal 2 5 demo_sem demo_absence" by (simp add: t late_signal_def demo_absence_def LW_TCB_GET_CUR_def)
  show ?thesis
    using vutex_late_signal [OF demo_sem_sys demo_sem_thread _ _ _ _ _ _ l, of 64 Some 64 LW_OPTION_VUTEX_EQU 7 "[]"]
    by (auto simp: m VutexWakeIsMatch_def)
qed

end
