(* ===== verification/MsgQueueClaims.thy ===== *)
theory MsgQueueClaims
  imports MsgQueueOps SysClaims
begin

text \<open>
  The properties of the message queues, from the creation of a queue to its deletion, and
  configurations at which their hypotheses hold.
\<close>

section \<open>Creation and deletion\<close>

lemma sys_ok_pool:
  assumes ok: "sys_ok T k"
  shows "sys_ok T (k\<lparr>K_resrcEvent := r\<rparr>)" "sys_ok T (k\<lparr>K_resrcMsgQueue := r\<rparr>)"
proof -
  show "sys_ok T (k\<lparr>K_resrcEvent := r\<rparr>)"
  proof (rule sys_ok_same [OF ok])
    show "kern_ok T (k\<lparr>K_resrcEvent := r\<rparr>)" by (rule kern_ok_sview [OF sys_ok_kern [OF ok]])
      (auto simp: rdyset_def LW_THREAD_IS_READY_def sview_def rdy_pcbbmap_def LW_CAND_TCB_def fun_eq_iff split: option.splits)
  qed (simp_all add: okern_def dline_def)
  show "sys_ok T (k\<lparr>K_resrcMsgQueue := r\<rparr>)"
  proof (rule sys_ok_same [OF ok])
    show "kern_ok T (k\<lparr>K_resrcMsgQueue := r\<rparr>)" by (rule kern_ok_sview [OF sys_ok_kern [OF ok]])
      (auto simp: rdyset_def LW_THREAD_IS_READY_def sview_def rdy_pcbbmap_def LW_CAND_TCB_def fun_eq_iff split: option.splits)
  qed (simp_all add: okern_def dline_def)
qed

text \<open>A control block whose wait queues are empty may be set up in any way that leaves them empty.\<close>

definition fresh_event :: "event \<Rightarrow> bool" where
  "fresh_event v \<longleftrightarrow> (\<forall>q. WQ_usNum (EVENT_wqWaitQ v q) = 0 \<and> (\<forall>i. WL_pring (EVENT_wqWaitQ v q) i = []))"

lemma sys_ok_init:
  assumes ok: "sys_ok T k" and v: "fresh_event (K_eventBuffer k e)" and f: "fresh_event (f (K_eventBuffer k e))"
  shows "sys_ok T (event_upd e f k)" "waiters (event_upd e f k) e q = []"
proof -
  let ?k = "event_upd e f k"
  have z: "wq_order b (EVENT_wqWaitQ w q) = []" if "fresh_event w" for b w q
    using that by (simp add: fresh_event_def wq_order_def)
  have W: "waiters ?k x q = waiters k x q" and O: "x \<noteq> e \<Longrightarrow> wq ?k x q = wq k x q \<and> by_prio ?k x = by_prio k x" for x q
    by (cases "x = e"; simp add: waiters_def wq_def by_prio_def z v f)+
  show "waiters ?k e q = []" unfolding W by (simp add: waiters_def wq_def z v)
  have "wait_ok T ?k" if w: "wait_ok T k"
    unfolding wait_ok_def W
  proof (intro conjI allI impI)
    note D = wait_okD [OF w]
    show "wq_ok (by_prio ?k x) (wq ?k x q)" for x q
      using D(1) [of x q] O [of x q] f by (cases "x = e") (simp_all add: wq_ok_def wq_def z [OF f] fresh_event_def)
    show "(t \<in> set (waiters k x q)) = waits_in ?k t x q" for t x q using D(2) [of t x q] by (simp add: waits_in_def)
    show "TCB_ppringPriorityQueue (K_tcb ?k t) = (q, i)" if "by_prio ?k x" "i < EVENT_Q_SIZE" "t \<in> set (WL_pring (wq ?k x q) i)" for t x q i
      using that D(3) [of x i t q] O [of x q] f by (cases "x = e") (auto simp: wq_def fresh_event_def)
    show "pending ?k t" "TCB_ucWaitTimeout (K_tcb ?k t) = 0" "t \<in> T" if "TCB_peventPtr (K_tcb ?k t) \<noteq> None" for t
      using that D(4) [of t] by (auto simp: pending_def)
  qed
  then show "sys_ok T ?k"
  proof (rule_tac sys_ok_thread [OF ok])
    assume "base_ok T k" and "wait_ok T k \<Longrightarrow> wait_ok T ?k"
    then show "base_ok T ?k" using req_ok_cong [of T k ?k] by (simp add: base_ok_def ipc_ok_def)
  qed (simp_all add: okern_def dline_def)
qed
text \<open>The state right after the creation: no message, nobody waiting.\<close>

definition mq_empty :: "ulong \<Rightarrow> ulong \<Rightarrow> mq_spec" where
  "mq_empty n sz = \<lparr>qs_msgs = \<lambda>_. [], qs_max = unat n, qs_size = unat sz, qs_read = [], qs_send = []\<rparr>"

lemma mq_setup_state:
  fixes n sz :: ulong
  assumes ok: "sys_ok T k" and v: "fresh_event (K_eventBuffer k e)" and i: "i < LW_CFG_MAX_MSGQUEUES"
    and fits: "unat n * unat (sizeof_MSGNODE + ROUND_UP sz sizeof_size_t) \<le> 2 ^ 64" "sizeof_MSGNODE + ROUND_UP sz sizeof_size_t \<noteq> 0"
  shows "mq_state T (mq_setup name n sz opt addr i e k) e (mq_empty n sz)"
proof -
  define mq where "mq = (K_msgqueueBuffer k i)\<lparr>MSGQUEUE_pvBuffer := addr, MSGQUEUE_stMaxBytes := sz\<rparr>"
  define k1 where "k1 = event_upd e (\<lambda>v. v\<lparr>EVENT_cEventName := (case name of Some s \<Rightarrow> s | None \<Rightarrow> [])\<rparr>) k"
  define k2 where "k2 = k1\<lparr>K_msgqueueBuffer := (K_msgqueueBuffer k)(i := MsgQueueClear n mq)\<rparr>"
  define f :: "event \<Rightarrow> event" where "f = (\<lambda>v. v\<lparr>EVENT_ucType := LW_TYPE_EVENT_MSGQUEUE, EVENT_pvTcbOwn := None, EVENT_ulCounter := 0,
           EVENT_ulMaxCounter := n, EVENT_ulOption := opt, EVENT_pvPtr := of_nat i,
           EVENT_wqWaitQ := (\<lambda>q. if q < 2 then (EVENT_wqWaitQ v q)\<lparr>WQ_usNum := 0,
                  WL_pring := (\<lambda>i. if i < EVENT_Q_SIZE then [] else WL_pring (EVENT_wqWaitQ v q) i)\<rparr>
                else EVENT_wqWaitQ v q)\<rparr>)"
  have E: "mq_setup name n sz opt addr i e k = event_upd e f k2"
    by (simp add: mq_setup_def Let_def k2_def k1_def mq_def f_def)
  have F: "mq_fits n mq" using fits by (simp add: mq_fits_def mq_def)
  note C = MsgQueueClear_rep [OF F]
  have "sys_ok T k1" unfolding k1_def by (rule sys_ok_event [OF ok]) simp_all
  then have ok2: "sys_ok T k2" unfolding k2_def by (rule sys_ok_mq_set)
  have v2: "fresh_event (K_eventBuffer k2 e)" using v by (simp add: k2_def k1_def fresh_event_def)
  then have fv: "fresh_event (f (K_eventBuffer k2 e))" by (simp add: f_def fresh_event_def)
  note I = sys_ok_init [of T k2 e f, OF ok2 v2 fv]
  have i64: "unat (of_nat i :: ulong) = i" using i by (simp add: unat_of_nat)
  have m: "mq_of (event_upd e f k2) e = MsgQueueClear n mq" by (simp add: mq_of_def mq_idx_def f_def i64 k2_def)
  have c: "EVENT_ucType (K_eventBuffer (event_upd e f k2) e) = LW_TYPE_EVENT_MSGQUEUE" "EVENT_ulCounter (K_eventBuffer (event_upd e f k2) e) = 0"
    "EVENT_ulMaxCounter (K_eventBuffer (event_upd e f k2) e) = n" by (simp_all add: f_def)
  have "mq_fits n (MsgQueueClear n mq)" using F C(2) by (simp add: mq_fits_def)
  moreover have "MSGQUEUE_stMaxBytes (MsgQueueClear n mq) = sz" using C(2) by (simp add: mq_def)
  ultimately show ?thesis unfolding E mq_state_def mq_empty_def m c I(2) using I(1) C(1) by simp
qed

lemma fresh_empty: "fresh_event event0"
  by (simp add: fresh_event_def event0_def)

text \<open>Deletion: every thread of both queues is told and ready, and the block goes back to the pool.\<close>

definition mq_released :: "nat \<Rightarrow> kernel \<Rightarrow> kernel \<Rightarrow> bool" where
  "mq_released e k k' \<longleftrightarrow> (\<forall>q. waiters k' e q = (if q = EVENT_MSG_Q_R \<or> q = EVENT_MSG_Q_S then [] else waiters k e q)) \<and>
     (\<forall>t. TCB_usStatus (K_tcb k' t) = (if t \<in> set (waiters k e EVENT_MSG_Q_R) \<union> set (waiters k e EVENT_MSG_Q_S) then rdy_bits k t else TCB_usStatus (K_tcb k t)) \<and>
          TCB_ucIsEventDelete (K_tcb k' t) = (if t \<in> set (waiters k e EVENT_MSG_Q_R) \<union> set (waiters k e EVENT_MSG_Q_S) then LW_EVENT_DELETE else TCB_ucIsEventDelete (K_tcb k t)))"

lemma mq_wake_all_delete:
  assumes ok: "sys_ok T k"
  obtains k' where "ev_wake_all e q True LW_THREAD_STATUS_MSGQUEUE LW_SCHED_ACT_OTHER k = Some k'" "mq_keeps T e q k k'" "waiters k' e q = []"
    "\<And>u. TCB_usStatus (K_tcb k' u) = (if u \<in> set (waiters k e q) then rdy_bits k u else TCB_usStatus (K_tcb k u))"
    "\<And>u. TCB_ucIsEventDelete (K_tcb k' u) = (if u \<in> set (waiters k e q) then LW_EVENT_DELETE else TCB_ucIsEventDelete (K_tcb k u))"
proof -
  from wakeall.loop_spec [OF mq_keeps_refl [OF ok, of e q], of True]
  obtain k' where K: "ev_wake_all e q True LW_THREAD_STATUS_MSGQUEUE LW_SCHED_ACT_OTHER k = Some k'" "mq_keeps T e q k k'" "waiters k' e q = []"
    "\<And>u. (TCB_usStatus (K_tcb k' u), TCB_ucIsEventDelete (K_tcb k' u), mview (K_tcb k' u)) =
      (if u \<in> set (waiters k e q) then (rdy_bits k u, if True then LW_EVENT_DELETE else TCB_ucIsEventDelete (K_tcb k u), mview (K_tcb k u))
       else (TCB_usStatus (K_tcb k u), TCB_ucIsEventDelete (K_tcb k u), mview (K_tcb k u)))" by blast
  have "TCB_usStatus (K_tcb k' u) = (if u \<in> set (waiters k e q) then rdy_bits k u else TCB_usStatus (K_tcb k u))"
    "TCB_ucIsEventDelete (K_tcb k' u) = (if u \<in> set (waiters k e q) then LW_EVENT_DELETE else TCB_ucIsEventDelete (K_tcb k u))" for u
    using K(4) [of u] by (simp_all split: if_splits)
  then show thesis using that [OF K(1-3)] by blast
qed

lemma rdy_idem: "(((x AND NOT a) AND NOT b) AND NOT a) AND NOT b = (x AND NOT a) AND NOT (b :: u16)"
  by (rule bit_word_eqI) (auto simp: bit_simps)

text \<open>Waking the threads of a queue leaves the pools of control blocks alone.\<close>

definition pools :: "kernel \<Rightarrow> resrc \<times> resrc" where
  "pools k = (K_resrcEvent k, K_resrcMsgQueue k)"

lemma ev_wake_pools: "pools (snd (ev_wake e q msg d ty a k)) = pools k"
proof -
  have l: "pools (leave_wakeup_line t k) = pools k" for t k
    by (simp add: pools_def leave_eq undelay_def DEL_FROM_WAKEUP_LINE_def Let_def split: prod.split)
  have w: "pools (tcb_upd t f k) = pools k" "pools (ev_wq_upd e q g k) = pools k" "pools (bug k) = pools k" for t f e q g k
    by (simp_all add: pools_def ev_wq_upd_def bug_def)
  have a: "pools (ADD_TO_READY_RING t p k) = pools k" for t p k using erase_kernelD(6,14) [OF erase_ADD] by (simp add: pools_def)
  have h: "pools (EventReadyHighLevel t ty a k) = pools k" for t k by (simp add: EventReadyHighLevel_def Let_def w a)
  have r: "pools (snd (ev_ready_low e q msg k)) = pools k"
    by (simp add: ev_ready_low_def EventReadyPriorityLowLevel_def EventReadyFifoLowLevel_def DelTCBFromEventFifo_def DelTCBFromEventPriority_def
      Let_def l w split: option.split)
  show ?thesis using r by (auto simp: ev_wake_def Let_def h w split: prod.split option.split)
qed

lemma ev_wake_all_pools: "ev_wake_all e q d ty a k = Some k' \<Longrightarrow> pools k' = pools k"
proof (rule ev_wake_all.raw_induct [where P = "\<lambda>e q d ty a k k'. pools k' = pools k"])
  fix f :: "nat \<Rightarrow> nat \<Rightarrow> bool \<Rightarrow> u16 \<Rightarrow> u8 \<Rightarrow> kernel \<Rightarrow> kernel option" and e q d ty a k k'
  assume IH: "\<And>e q d ty a k k'. f e q d ty a k = Some k' \<Longrightarrow> pools k' = pools k"
  assume "(if EventWaitNum q e k = 0 then Some k else f e q d ty a (snd (ev_wake e q 0 d ty a k))) = Some k'"
  then show "pools k' = pools k" using IH ev_wake_pools by (metis option.inject)
qed

lemma mq_delete_ok:
  assumes ok: "sys_ok T k"
  obtains k' where "mq_delete e k = Some (ERROR_NONE, (0, Some (MSGQUEUE_pvBuffer (mq_of k e))), k')" "sys_ok T k'"
    "EVENT_ucType (K_eventBuffer k' e) = LW_TYPE_EVENT_UNUSED" "mq_released e k k'"
    "RESRC_free (K_resrcEvent k') = RESRC_free (K_resrcEvent k) @ [e]"
    "RESRC_free (K_resrcMsgQueue k') = RESRC_free (K_resrcMsgQueue k) @ [mq_idx k e]"
proof -
  let ?k0 = "event_upd e (\<lambda>e. e\<lparr>EVENT_ucType := LW_TYPE_EVENT_UNUSED\<rparr>) k"
  have ok0: "sys_ok T ?k0" by (rule sys_ok_event [OF ok]) simp_all
  have w0: "waiters ?k0 = waiters k" by (rule event_upd_queues) simp_all
  show thesis
  proof (rule mq_wake_all_delete [OF ok0, of e EVENT_MSG_Q_R])
    fix k1 assume A: "ev_wake_all e EVENT_MSG_Q_R True LW_THREAD_STATUS_MSGQUEUE LW_SCHED_ACT_OTHER ?k0 = Some k1" "mq_keeps T e EVENT_MSG_Q_R ?k0 k1"
      "waiters k1 e EVENT_MSG_Q_R = []"
      "\<And>u. TCB_usStatus (K_tcb k1 u) = (if u \<in> set (waiters ?k0 e EVENT_MSG_Q_R) then rdy_bits ?k0 u else TCB_usStatus (K_tcb ?k0 u))"
      "\<And>u. TCB_ucIsEventDelete (K_tcb k1 u) = (if u \<in> set (waiters ?k0 e EVENT_MSG_Q_R) then LW_EVENT_DELETE else TCB_ucIsEventDelete (K_tcb ?k0 u))"
    have ok1: "sys_ok T k1" using A(2) by (simp add: mq_keeps_def)
    show thesis
    proof (rule mq_wake_all_delete [OF ok1, of e EVENT_MSG_Q_S])
      fix k2 assume B: "ev_wake_all e EVENT_MSG_Q_S True LW_THREAD_STATUS_MSGQUEUE LW_SCHED_ACT_OTHER k1 = Some k2" "mq_keeps T e EVENT_MSG_Q_S k1 k2"
        "waiters k2 e EVENT_MSG_Q_S = []"
        "\<And>u. TCB_usStatus (K_tcb k2 u) = (if u \<in> set (waiters k1 e EVENT_MSG_Q_S) then rdy_bits k1 u else TCB_usStatus (K_tcb k1 u))"
        "\<And>u. TCB_ucIsEventDelete (K_tcb k2 u) = (if u \<in> set (waiters k1 e EVENT_MSG_Q_S) then LW_EVENT_DELETE else TCB_ucIsEventDelete (K_tcb k1 u))"
      define k3 where "k3 = event_upd e (\<lambda>e. e\<lparr>EVENT_pvTcbOwn := None\<rparr>) k2"
      define k' where "k' = Free_MsgQueue_Object (mq_idx k3 e) (Free_Event_Object e k3)"
      have "sys_ok T k2" using B(2) by (simp add: mq_keeps_def)
      then have "sys_ok T k3" unfolding k3_def by (rule sys_ok_event) simp_all
      then have ok': "sys_ok T k'" unfolding k'_def Free_MsgQueue_Object_def Free_Event_Object_def by (intro sys_ok_pool)
      have T: "K_tcb k' = K_tcb k2" "K_eventBuffer k' = K_eventBuffer k3" by (simp_all add: k'_def k3_def Free_MsgQueue_Object_def Free_Event_Object_def)
      have "waiters k3 = waiters k2" unfolding k3_def by (rule event_upd_queues) simp_all
      then have W: "waiters k' = waiters k2" by (simp add: waiters_def wq_def by_prio_def T fun_eq_iff)
      have q: "waiters k1 e q = (if q = EVENT_MSG_Q_R then [] else waiters k e q)" "waiters k2 e q = (if q = EVENT_MSG_Q_S then [] else waiters k1 e q)" for q
        using A(2,3) B(2,3) w0 by (simp_all add: mq_keeps_def)
      have "evview (K_eventBuffer k1 e) = evview (K_eventBuffer ?k0 e)" "evview (K_eventBuffer k2 e) = evview (K_eventBuffer k1 e)"
        using A(2) B(2) unfolding mq_keeps_def by blast+
      then have ev: "EVENT_ucType (K_eventBuffer k2 e) = EVENT_ucType (K_eventBuffer ?k0 e)" "EVENT_pvPtr (K_eventBuffer k2 e) = EVENT_pvPtr (K_eventBuffer ?k0 e)"
        by (simp_all add: evview_def)
      have i: "mq_idx k3 e = mq_idx k e" using ev(2) by (simp add: mq_idx_def k3_def)
      have "K_msgqueueBuffer k3 = K_msgqueueBuffer k" using A(2) B(2) by (simp add: k3_def mq_keeps_def)
      then have E: "mq_delete e k = Some (ERROR_NONE, (0, Some (MSGQUEUE_pvBuffer (mq_of k e))), k')"
        unfolding mq_delete_def Let_def A(1) bind.bind_lunit B(1) k'_def mq_of_def i [symmetric] k3_def [symmetric] by simp
      have "pools k3 = pools k" using ev_wake_all_pools [OF A(1)] ev_wake_all_pools [OF B(1)] by (simp add: pools_def k3_def)
      then have P: "RESRC_free (K_resrcEvent k') = RESRC_free (K_resrcEvent k) @ [e]"
        "RESRC_free (K_resrcMsgQueue k') = RESRC_free (K_resrcMsgQueue k) @ [mq_idx k e]"
        by (simp_all add: k'_def i Free_MsgQueue_Object_def Free_Event_Object_def pools_def)
      have U: "EVENT_ucType (K_eventBuffer k' e) = LW_TYPE_EVENT_UNUSED" using ev(1) by (simp add: T k3_def)
      have wS: "waiters k1 e EVENT_MSG_Q_S = waiters k e EVENT_MSG_Q_S" unfolding q(1) by simp
      have k0: "K_tcb ?k0 = K_tcb k" by simp
      have r: "rdy_bits ?k0 u = rdy_bits k u" "rdy_bits k1 u = rdy_bits k u" for u
        unfolding rdy_bits_def A(4) w0 k0 by (rule refl) (simp only: rdy_idem split: if_split, simp)
      have S: "TCB_usStatus (K_tcb k' t) = (if t \<in> set (waiters k e EVENT_MSG_Q_R) \<union> set (waiters k e EVENT_MSG_Q_S) then rdy_bits k t else TCB_usStatus (K_tcb k t))" for t
        unfolding T(1) B(4) wS A(4) w0 k0 r by (simp only: Un_iff if_True if_False split: if_split) blast
      have D: "TCB_ucIsEventDelete (K_tcb k' t) = (if t \<in> set (waiters k e EVENT_MSG_Q_R) \<union> set (waiters k e EVENT_MSG_Q_S) then LW_EVENT_DELETE else TCB_ucIsEventDelete (K_tcb k t))" for t
        unfolding T(1) B(5) wS A(5) w0 k0 by (simp only: Un_iff if_True if_False split: if_split) blast
      have "waiters k' e q = (if q = EVENT_MSG_Q_R \<or> q = EVENT_MSG_Q_S then [] else waiters k e q)" for q
        unfolding W q by simp
      with S D have "mq_released e k k'" unfolding mq_released_def by blast
      then show thesis by (rule that [OF E ok' U _ P])
    qed
  qed
qed

section \<open>Histories of a queue\<close>

text \<open>
  The steps on one queue, with what was buffered (\<open>I\<close>, by priority) and what was received (\<open>R\<close>, by
  priority, each with the size of the receiver's buffer) since the queue was created or cleared. A
  received message is booked under the highest priority that has messages left. Whatever else
  happens in the system is a step that leaves the queue alone, but for receivers that give up.
\<close>

type_synonym mq_log = "(nat \<Rightarrow> u8 list list) \<times> (nat \<Rightarrow> (ulong \<times> u8 list) list)"

definition mq_kept :: "nat \<Rightarrow> kernel \<Rightarrow> kernel \<Rightarrow> bool" where
  "mq_kept e k k' \<longleftrightarrow> evview (K_eventBuffer k' e) = evview (K_eventBuffer k e) \<and> K_msgqueueBuffer k' = K_msgqueueBuffer k \<and>
     set (waiters k' e EVENT_MSG_Q_R) \<subseteq> set (waiters k e EVENT_MSG_Q_R)"

definition log_in :: "nat \<Rightarrow> u8 list \<Rightarrow> mq_log \<Rightarrow> mq_log" where
  "log_in p m l = ((fst l)(p := fst l p @ [m]), snd l)"

definition log_out :: "ulong \<Rightarrow> u8 list \<Rightarrow> mq_log \<Rightarrow> mq_log" where
  "log_out sz m l = (case pq_first (\<lambda>p. drop (length (snd l p)) (fst l p)) of
     None \<Rightarrow> l | Some p \<Rightarrow> (fst l, (snd l)(p := snd l p @ [(sz, m)])))"

inductive mq_step :: "tid set \<Rightarrow> nat \<Rightarrow> mq_log \<times> kernel \<Rightarrow> mq_log \<times> kernel \<Rightarrow> bool" for T :: "tid set" and e :: nat where
  Send: "unat len \<le> length buf \<Longrightarrow> len \<le> MSGQUEUE_stMaxBytes (mq_of k e) \<Longrightarrow> mq_try_send buf len p e k = (r, k') \<Longrightarrow>
    mq_step T e (l, k) (if r = Sent \<and> EventWaitNum EVENT_MSG_Q_R e k = 0 then log_in p (take (unat len) buf) l else l, k')"
| Receive: "EVENT_ulCounter (K_eventBuffer k e) \<noteq> 0 \<Longrightarrow> mq_take sz buf len e k = ((buf', n), k') \<Longrightarrow>
    mq_step T e (l, k) (log_out sz (take (unat n) buf') l, k')"
| RecvWait: "running T k c \<Longrightarrow> EVENT_ulCounter (K_eventBuffer k e) = 0 \<Longrightarrow> mq_step T e (l, k) (l, mq_recv_block c sz buf len to e k)"
| SendWait: "running T k c \<Longrightarrow> mq_step T e (l, k) (l, ev_block e EVENT_MSG_Q_S LW_THREAD_STATUS_MSGQUEUE to k)"
| Broadcast: "mq_broadcast buf len e k = Some k' \<Longrightarrow> mq_step T e (l, k) (l, k')"
| Clear: "mq_clear e k = Some (r, u, k') \<Longrightarrow> mq_step T e (l, k) ((\<lambda>_. [], \<lambda>_. []), k')"
| FlushSend: "mq_flush_send e k = Some (r, n, k') \<Longrightarrow> mq_step T e (l, k) (l, k')"
| FlushReceive: "mq_flush_receive e k = Some (r, n, k') \<Longrightarrow> mq_step T e (l, k) (l, k')"
| Other: "sys_step T k k' \<Longrightarrow> mq_kept e k k' \<Longrightarrow> mq_step T e (l, k) (l, k')"

text \<open>What was buffered is what was received, in its order and cut to the receivers' sizes, and then what is left.\<close>

definition mq_logged :: "mq_log \<Rightarrow> u8 list pqueue \<Rightarrow> bool" where
  "mq_logged l q \<longleftrightarrow> (\<forall>p. \<exists>ms. fst l p = ms @ q p \<and> list_all2 (\<lambda>(sz, r) m. r = take (unat sz) m) (snd l p) ms)"

lemma mq_logged_put: "mq_logged l q \<Longrightarrow> mq_logged (log_in p m l) (pq_put p m q)"
  unfolding mq_logged_def log_in_def pq_put_def by fastforce

lemma mq_logged_drop: "mq_logged l q \<Longrightarrow> drop (length (snd l p)) (fst l p) = q p"
  unfolding mq_logged_def by (metis append_eq_conv_conj list_all2_lengthD)

lemma mq_logged_get:
  assumes L: "mq_logged l q" and G: "pq_get q = Some (m, q')"
  shows "mq_logged (log_out sz (take (unat sz) m) l) q'"
proof -
  from G obtain p where p: "pq_first q = Some p" "m = hd (q p)" "q' = q(p := tl (q p))" by (auto simp: pq_get_def)
  then have ne: "q p = m # q' p" using pq_first_Some [of q p] by simp
  have "(\<lambda>p. drop (length (snd l p)) (fst l p)) = q" using mq_logged_drop [OF L] by (simp add: fun_eq_iff)
  then have E: "log_out sz (take (unat sz) m) l = (fst l, (snd l)(p := snd l p @ [(sz, take (unat sz) m)]))" by (simp add: log_out_def p(1))
  show ?thesis unfolding mq_logged_def E
  proof (intro allI)
    fix x
    from L obtain ms where M: "fst l x = ms @ q x" "list_all2 (\<lambda>(sz, r) m. r = take (unat sz) m) (snd l x) ms" unfolding mq_logged_def by blast
    show "\<exists>ms. fst (fst l, (snd l)(p := snd l p @ [(sz, take (unat sz) m)])) x = ms @ q' x \<and>
        list_all2 (\<lambda>(sz, r) m. r = take (unat sz) m) (snd (fst l, (snd l)(p := snd l p @ [(sz, take (unat sz) m)])) x) ms"
    proof (cases "x = p")
      case True
      show ?thesis using M ne unfolding True by (intro exI [of _ "ms @ [m]"]) (simp add: list_all2_appendI)
    next
      case False
      then show ?thesis using M p(3) by (intro exI [of _ ms]) simp
    qed
  qed
qed

definition mq_good :: "tid set \<Rightarrow> nat \<Rightarrow> mq_log \<times> kernel \<Rightarrow> bool" where
  "mq_good T e x \<longleftrightarrow> (\<exists>s. mq_state T (snd x) e s \<and> mq_inv s \<and> mq_logged (fst x) (qs_msgs s))"

lemma mq_goodI: "mq_state T k e s \<Longrightarrow> mq_inv s \<Longrightarrow> mq_logged l (qs_msgs s) \<Longrightarrow> mq_good T e (l, k)"
  by (auto simp: mq_good_def)

lemma mq_inv_len: "mq_state T k e s \<Longrightarrow> length (pq_all (qs_msgs s)) \<le> qs_max s"
  by (rule mq_rep_length [OF mq_stateD(1)])

lemma mq_step_send:
  assumes "mq_good T e (l, k)" and "unat len \<le> length buf" "len \<le> MSGQUEUE_stMaxBytes (mq_of k e)" and E: "mq_try_send buf len p e k = (r, k')"
  shows "mq_good T e (if r = Sent \<and> EventWaitNum EVENT_MSG_Q_R e k = 0 then log_in p (take (unat len) buf) l else l, k')"
proof -
  from assms(1) obtain s where S: "mq_state T k e s" "mq_inv s" "mq_logged l (qs_msgs s)" by (auto simp: mq_good_def)
  have z: "unat len \<le> qs_size s" using assms(3) mq_stateD(3) [OF S(1)] by (simp add: word_le_nat_alt)
  let ?x = "spec_send p (take (unat len) buf) (\<lambda>t. accepts len (K_tcb k t)) s"
  from mq_try_send_refines [OF S(1) assms(2) z, of p] have S': "mq_state T k' e (snd ?x)" "r = fst ?x" by (auto simp: E)
  have n: "EventWaitNum EVENT_MSG_Q_R e k = 0 \<longleftrightarrow> qs_read s = []" by (rule mq_state_num(1) [OF S(1)])
  have i: "mq_inv (snd ?x)" using S(2) mq_inv_len [OF S'(1)] by (auto simp: mq_inv_def spec_send_def split: list.splits)
  have "mq_logged (if r = Sent \<and> EventWaitNum EVENT_MSG_Q_R e k = 0 then log_in p (take (unat len) buf) l else l) (qs_msgs (snd ?x))"
    unfolding n S'(2) using S(3) mq_logged_put [OF S(3)] by (auto simp: spec_send_def split: list.splits)
  then show ?thesis by (rule mq_goodI [OF S'(1) i])
qed

lemma mq_step_receive:
  assumes "mq_good T e (l, k)" and c: "EVENT_ulCounter (K_eventBuffer k e) \<noteq> 0" and E: "mq_take sz buf len e k = ((buf', n), k')"
  shows "mq_good T e (log_out sz (take (unat n) buf') l, k')"
proof -
  from assms(1) obtain s where S: "mq_state T k e s" "mq_inv s" "mq_logged l (qs_msgs s)" by (auto simp: mq_good_def)
  have "pq_all (qs_msgs s) \<noteq> []" using c mq_state_num(3) [OF S(1)] by simp
  then obtain m q where P: "pq_get (qs_msgs s) = Some (m, q)" by (auto simp: pq_get_all)
  have G: "spec_take s = Some (m, s\<lparr>qs_msgs := q, qs_send := tl (qs_send s)\<rparr>)" by (simp add: spec_take_def P)
  obtain k2 where K: "mq_take sz buf len e k = ((take (unat sz) m @ drop (min (unat sz) (length m)) buf, min sz (of_nat (length m))), k2)"
    "mq_state T k2 e (s\<lparr>qs_msgs := q, qs_send := tl (qs_send s)\<rparr>)" "length m \<le> qs_size s" by (rule mq_take_ok [OF S(1) G, of sz buf len])
  have "qs_size s < 2 ^ 64" unfolding mq_stateD(3) [OF S(1)] using unsigned_less [of "MSGQUEUE_stMaxBytes (mq_of k e)"] by simp
  with K(3) have "length m < 2 ^ 64" by linarith
  then have "unat (min sz (of_nat (length m))) = min (unat sz) (length m)" by (simp add: min_def word_le_nat_alt unat_of_nat)
  then have t: "take (unat n) buf' = take (unat sz) m" and k: "k2 = k'" using K(1) E by (auto simp: min_def)
  have "mq_inv (s\<lparr>qs_msgs := q, qs_send := tl (qs_send s)\<rparr>)" using S(2) mq_inv_len [OF K(2)] pq_get_tl [OF P] by (simp add: mq_inv_def)
  from mq_goodI [OF K(2) [unfolded k] this] mq_logged_get [OF S(3) P] show ?thesis by (simp add: t)
qed

lemma mq_good_wait:
  assumes "mq_good T e (l, k)" and c: "running T k c" and r: "q = EVENT_MSG_Q_R \<Longrightarrow> EVENT_ulCounter (K_eventBuffer k e) = 0"
  shows "mq_good T e (l, ev_block e q LW_THREAD_STATUS_MSGQUEUE to k)"
proof -
  let ?k = "ev_block e q LW_THREAD_STATUS_MSGQUEUE to k"
  from assms(1) obtain s where S: "mq_state T k e s" "mq_inv s" "mq_logged l (qs_msgs s)" by (auto simp: mq_good_def)
  note B = mq_block_ok [OF S(1) c, where q = q and to = to]
  have "mq_inv (s\<lparr>qs_read := waiters ?k e EVENT_MSG_Q_R, qs_send := waiters ?k e EVENT_MSG_Q_S\<rparr>)"
  proof (cases "q = EVENT_MSG_Q_R")
    case True
    then have "pq_all (qs_msgs s) = []" using r mq_state_num(3) [OF S(1)] by simp
    then show ?thesis by (simp add: mq_inv_def)
  next
    case False
    then have "waiters ?k e EVENT_MSG_Q_R = qs_read s" using B(4) mq_stateD(4) [OF S(1)] by metis
    then show ?thesis using S(2) unfolding mq_inv_def by simp
  qed
  then show ?thesis by (rule mq_goodI [OF B(1)]) (simp add: S(3))
qed

lemma mq_good_vars:
  assumes "mq_good T e (l, k)" and "running T k c"
  shows "mq_good T e (l, tcb_upd c (\<lambda>b. b\<lparr>TCB_pstMsgByteSize := len, TCB_stMaxByteSize := sz, TCB_pvMsgQueueMessage := buf\<rparr>) k)"
  using assms mq_recv_vars_ok(1) [OF _ assms(2)] by (fastforce simp: mq_good_def)

lemma mq_good_all:
  assumes "mq_good T e (l, k)"
  shows "mq_broadcast buf len e k = Some k' \<Longrightarrow> mq_good T e (l, k')" "mq_clear e k = Some (r, u, k') \<Longrightarrow> mq_good T e ((\<lambda>_. [], \<lambda>_. []), k')"
    "mq_flush_send e k = Some (r, n, k') \<Longrightarrow> mq_good T e (l, k')" "mq_flush_receive e k = Some (r, n, k') \<Longrightarrow> mq_good T e (l, k')"
proof -
  from assms obtain s where S: "mq_state T k e s" "mq_inv s" "mq_logged l (qs_msgs s)" by (auto simp: mq_good_def)
  have i: "mq_inv (s\<lparr>qs_read := []\<rparr>)" "mq_inv (s\<lparr>qs_send := x\<rparr>)" for x using S(2) by (simp_all add: mq_inv_def)
  show "mq_good T e (l, k')" if "mq_broadcast buf len e k = Some k'"
    by (rule mq_broadcast_ok [OF S(1), of buf len]) (use that S(3) in \<open>auto intro!: mq_goodI [OF _ i(1)]\<close>)
  show "mq_good T e ((\<lambda>_. [], \<lambda>_. []), k')" if C: "mq_clear e k = Some (r, u, k')"
  proof (rule mq_clear_ok [OF S(1)])
    fix k1 assume K: "mq_clear e k = Some (ERROR_NONE, (), k1)" "mq_state T k1 e (s\<lparr>qs_msgs := \<lambda>_. [], qs_send := []\<rparr>)"
    have "k1 = k'" using K(1) C by simp
    moreover have "mq_good T e ((\<lambda>_. [], \<lambda>_. []), k1)" by (rule mq_goodI [OF K(2)]) (simp_all add: mq_inv_def mq_logged_def)
    ultimately show ?thesis by simp
  qed
  show "mq_good T e (l, k')" if C: "mq_flush_send e k = Some (r, n, k')"
  proof (rule mq_wake_senders_ok [OF S(1)])
    fix k1 assume K: "ev_wake_all e EVENT_MSG_Q_S False LW_THREAD_STATUS_MSGQUEUE LW_SCHED_ACT_OTHER k = Some k1" "mq_state T k1 e (s\<lparr>qs_send := []\<rparr>)"
    have "k1 = k'" using C unfolding mq_flush_send_def Let_def K(1) by simp
    then show ?thesis using mq_goodI [OF K(2) i(2)] S(3) by simp
  qed
  show "mq_good T e (l, k')" if C: "mq_flush_receive e k = Some (r, n, k')"
  proof (rule mq_flush_readers_ok [OF S(1)])
    fix k1 assume K: "mq_flush_readers e k = Some k1" "mq_state T k1 e (s\<lparr>qs_read := []\<rparr>)"
    have "k1 = k'" using C by (simp add: mq_flush_receive_def K(1))
    then show ?thesis using mq_goodI [OF K(2) i(1)] S(3) by simp
  qed
qed

lemma mq_step_good: "mq_step T e x y \<Longrightarrow> mq_good T e x \<Longrightarrow> mq_good T e y"
proof (induction rule: mq_step.induct)
  case Send then show ?case using mq_step_send by blast
next
  case Receive then show ?case using mq_step_receive by blast
next
  case (RecvWait k c l sz buf len to)
  let ?k = "tcb_upd c (\<lambda>b. b\<lparr>TCB_pstMsgByteSize := len, TCB_stMaxByteSize := sz, TCB_pvMsgQueueMessage := buf\<rparr>) k"
  have "running T ?k c" using RecvWait.hyps(1) by (simp add: running_def LW_TCB_GET_CUR_def LW_THREAD_IS_READY_def)
  moreover have "EVENT_ulCounter (K_eventBuffer ?k e) = 0" using RecvWait.hyps(2) by simp
  ultimately show ?case unfolding mq_recv_block_def Let_def
    using mq_good_wait [OF mq_good_vars [OF RecvWait.prems RecvWait.hyps(1)]] by blast
next
  case SendWait then show ?case using mq_good_wait by (metis zero_neq_one)
next
  case Broadcast then show ?case using mq_good_all(1) by blast
next
  case Clear then show ?case using mq_good_all(2) by blast
next
  case FlushSend then show ?case using mq_good_all(3) by blast
next
  case FlushReceive then show ?case using mq_good_all(4) by blast
next
  case (Other k k' l)
  from Other.prems obtain s where S: "mq_state T k e s" "mq_inv s" "mq_logged l (qs_msgs s)" by (auto simp: mq_good_def)
  have K: "evview (K_eventBuffer k' e) = evview (K_eventBuffer k e)" "K_msgqueueBuffer k' = K_msgqueueBuffer k"
    "set (waiters k' e EVENT_MSG_Q_R) \<subseteq> set (qs_read s)" using Other.hyps(2) mq_stateD(4) [OF S(1)] by (simp_all add: mq_kept_def)
  have "mq_inv (s\<lparr>qs_read := waiters k' e EVENT_MSG_Q_R, qs_send := waiters k' e EVENT_MSG_Q_S\<rparr>)" using S(2) K(3) by (auto simp: mq_inv_def)
  then show ?case by (rule mq_goodI [OF mq_state_cong [OF S(1) sys_step_ok [OF Other.hyps(1) mq_state_sys(1) [OF S(1)]] K(1,2)]]) (simp add: S(3))
qed

lemma mq_steps_good: "(mq_step T e)\<^sup>*\<^sup>* x y \<Longrightarrow> mq_good T e x \<Longrightarrow> mq_good T e y"
  by (induction rule: rtranclp_induct) (auto intro: mq_step_good)

section \<open>Configurations\<close>

text \<open>Event 4 is a queue of two messages of at most eight bytes, served in the order of arrival, just created.\<close>

definition demo_mq :: kernel where
  "demo_mq = mq_setup None 2 8 0 4096 0 4 demo_sem"

lemma demo_mq_state: "mq_state {0, 1, 2, 3} demo_mq 4 (mq_empty 2 8)"
proof -
  have "K_eventBuffer demo_sem 4 = event0" by (simp add: demo_sem_def demo_kernel)
  then have "fresh_event (K_eventBuffer demo_sem 4)" by (simp add: fresh_empty)
  then show ?thesis unfolding demo_mq_def by (rule mq_setup_state [OF demo_sem_sys]) (simp_all add: ROUND_UP_def)
qed

lemma demo_mq_running: "running {0, 1, 2, 3} demo_mq 2"
  using demo_running by (simp add: demo_mq_def mq_setup_def Let_def running_def LW_TCB_GET_CUR_def LW_THREAD_IS_READY_def)

lemma mq_empty_sel [simp]: "qs_msgs (mq_empty n sz) = (\<lambda>_. [])" "qs_max (mq_empty n sz) = unat n" "qs_size (mq_empty n sz) = unat sz"
    "qs_read (mq_empty n sz) = []" "qs_send (mq_empty n sz) = []"
  by (simp_all add: mq_empty_def)

text \<open>The same queue with one message.\<close>

definition demo_msg :: kernel where
  "demo_msg = snd (mq_try_send [1, 2, 3] 3 7 4 demo_mq)"

lemma demo_msg_state: "mq_state {0, 1, 2, 3} demo_msg 4 ((mq_empty 2 8)\<lparr>qs_msgs := pq_put 7 [1, 2, 3] (\<lambda>_. [])\<rparr>)"
proof -
  have "spec_send 7 (take (unat (3 :: ulong)) [1, 2, 3]) (\<lambda>t. accepts 3 (K_tcb demo_mq t)) (mq_empty 2 8) =
      (Sent, (mq_empty 2 8)\<lparr>qs_msgs := pq_put 7 [1, 2, 3] (\<lambda>_. [])\<rparr>)" by (simp add: spec_send_def)
  with mq_try_send_refines [OF demo_mq_state, of 3 "[1, 2, 3]" 7] show ?thesis by (auto simp: demo_msg_def)
qed

section \<open>The frame of the calls\<close>

lemma enter_msg [simp]: "K_msgqueueBuffer (kernelEnterIrq k) = K_msgqueueBuffer k"
  by (simp add: kernelEnterIrq_def)

lemma mq_state_enter: "mq_state T k e s \<Longrightarrow> mq_state T (kernelEnterIrq k) e s"
  unfolding mq_state_def mq_of_def mq_idx_def enter_msg enter_view by (blast intro: sys_ok_enter)

lemma mq_section_eq:
  assumes "e < LW_CFG_MAX_EVENTS" and "EVENT_ucType (K_eventBuffer k e) = LW_TYPE_EVENT_MSGQUEUE"
  shows "mq_section (handle OBJECT_MSGQUEUE e) out body env k =
    (case body e (kernelEnterIrq k) of None \<Rightarrow> None | Some (r, out, k) \<Rightarrow> exit_with r out env k)"
  using assms handle_parts [of OBJECT_MSGQUEUE e]
  by (auto simp: mq_section_def Let_def Event_Index_Invalid_def Event_Type_Invalid_def exit_with_def split: option.splits)

lemma spec_send_inv: "mq_state T k e (snd (spec_send p m f s)) \<Longrightarrow> mq_inv s \<Longrightarrow> mq_inv (snd (spec_send p m f s))"
  using mq_inv_len [of T k e "snd (spec_send p m f s)"] by (auto simp: mq_inv_def spec_send_def split: list.splits)

section \<open>Sending and receiving\<close>

text \<open>
  C12: A send that does not wait, with any priority, on a queue in the state \<open>s\<close> does what the abstract
  queue does: the first waiting receiver gets the message (cut to its buffer when it agreed to that)
  and becomes ready, or refuses it and the send starts again; without receivers the message goes
  behind those of its priority, or the priority is refused, or the queue is full. What happened is
  what the call reports, and a queue in order stays in order.
\<close>

theorem msgqueue_send_refines:
  assumes "mq_state T k e s" and "e < LW_CFG_MAX_EVENTS" and "len \<noteq> 0" and "unat len \<le> length buf" and "unat len \<le> qs_size s"
  shows "\<exists>k1 r s'. spec_send p (take (unat len) buf) (\<lambda>t. accepts len (K_tcb k t)) s = (r, s') \<and> mq_state T k1 e s' \<and> (mq_inv s \<longrightarrow> mq_inv s') \<and>
    (case qs_read s of t # _ \<Rightarrow> served buf len t k k1 | [] \<Rightarrow> K_tcb k1 = K_tcb k) \<and>
    mq_send (Some buf) len p (handle OBJECT_MSGQUEUE e) LW_OPTION_NOT_WAIT env k =
      (case r of
         Sent \<Rightarrow> map_option (\<lambda>(_, env, k). (ERROR_NONE, env, k)) (kernelExitIrq env k1)
       | Resend \<Rightarrow> Option.bind (kernelExit env k1) (\<lambda>(_, env, k). mq_send (Some buf) len p (handle OBJECT_MSGQUEUE e) LW_OPTION_NOT_WAIT env k)
       | Bad_Prio \<Rightarrow> drop_out (exit_with ERROR_MSGQUEUE_OPTION () env k1)
       | Full \<Rightarrow> drop_out (exit_with ERROR_MSGQUEUE_FULL () env k1))"
proof -
  let ?k = "kernelEnterIrq k" and ?x = "spec_send p (take (unat len) buf) (\<lambda>t. accepts len (K_tcb k t)) s"
  have S: "mq_state T ?k e s" by (rule mq_state_enter [OF assms(1)])
  from mq_try_send_refines [OF S assms(4,5), of p] obtain k1 where K: "mq_try_send buf len p e ?k = (fst ?x, k1)" "mq_state T k1 e (snd ?x)"
    "case qs_read s of t # _ \<Rightarrow> served buf len t ?k k1 | [] \<Rightarrow> K_tcb k1 = K_tcb ?k" by auto
  have sv: "case qs_read s of t # _ \<Rightarrow> served buf len t k k1 | [] \<Rightarrow> K_tcb k1 = K_tcb k"
    using K(3) by (simp add: served_def split: list.splits)
  have z: "\<not> MSGQUEUE_stMaxBytes (mq_of ?k e) < len" using assms(5) mq_stateD(3) [OF S] by (simp add: word_less_nat_alt)
  have t: "EVENT_ucType (K_eventBuffer k e) = LW_TYPE_EVENT_MSGQUEUE" by (rule mq_stateD(6) [OF assms(1)])
  obtain r s' where x: "?x = (r, s')" by (cases ?x)
  have "mq_send (Some buf) len p (handle OBJECT_MSGQUEUE e) LW_OPTION_NOT_WAIT env k =
      (case r of
         Sent \<Rightarrow> map_option (\<lambda>(_, env, k). (ERROR_NONE, env, k)) (kernelExitIrq env k1)
       | Resend \<Rightarrow> Option.bind (kernelExit env k1) (\<lambda>(_, env, k). mq_send (Some buf) len p (handle OBJECT_MSGQUEUE e) LW_OPTION_NOT_WAIT env k)
       | Bad_Prio \<Rightarrow> drop_out (exit_with ERROR_MSGQUEUE_OPTION () env k1)
       | Full \<Rightarrow> drop_out (exit_with ERROR_MSGQUEUE_FULL () env k1))"
    using K(1) assms(2,3) z t handle_parts [of OBJECT_MSGQUEUE e]
    by (subst mq_send.simps) (auto simp: x Let_def Event_Index_Invalid_def Event_Type_Invalid_def exit_with_def drop_out_def map_option_case
        option.case_eq_if split_beta Option.bind_eq_None_conv split: sent.split option.splits)
  then show ?thesis using K(2) sv spec_send_inv [OF K(2)] x by (intro exI [of _ k1] exI [of _ r] exI [of _ s']) simp
qed

theorem msgqueue_send_refines_witness:
  "\<exists>k1. mq_state {0, 1, 2, 3} k1 4 ((mq_empty 2 8)\<lparr>qs_msgs := pq_put 7 [1, 2, 3] (\<lambda>_. [])\<rparr>) \<and>
    mq_send (Some [1, 2, 3]) 3 7 (handle OBJECT_MSGQUEUE 4) LW_OPTION_NOT_WAIT [] demo_mq =
      map_option (\<lambda>(_, env, k). (ERROR_NONE, env, k)) (kernelExitIrq [] k1)"
proof -
  have "spec_send 7 (take (unat (3 :: ulong)) [1, 2, 3]) (\<lambda>t. accepts 3 (K_tcb demo_mq t)) (mq_empty 2 8) =
      (Sent, (mq_empty 2 8)\<lparr>qs_msgs := pq_put 7 [1, 2, 3] (\<lambda>_. [])\<rparr>)" by (simp add: spec_send_def)
  with msgqueue_send_refines [OF demo_mq_state, of 3 "[1, 2, 3]" 7 "[]"] show ?thesis by auto
qed

text \<open>
  C13: A receive that does not wait takes the oldest message of the most urgent priority: the caller's
  buffer holds the message cut to its size, followed by what it held before, and the length says how
  much; the first waiting sender becomes ready and goes on. Without a message nothing happens and
  the call reports it.
\<close>

theorem msgqueue_receive_refines:
  assumes "mq_state T k e s" and "e < LW_CFG_MAX_EVENTS"
  shows "case spec_take s of
      None \<Rightarrow> MsgQueueTryReceive (handle OBJECT_MSGQUEUE e) (Some buf) sz len env k = exit_with ERROR_THREAD_WAIT_TIMEOUT (Some buf, len) env (kernelEnterIrq k)
    | Some (m, s') \<Rightarrow> \<exists>k1. MsgQueueTryReceive (handle OBJECT_MSGQUEUE e) (Some buf) sz len env k =
          exit_with ERROR_NONE (Some (take (unat sz) m @ drop (min (unat sz) (length m)) buf), min sz (of_nat (length m))) env k1 \<and>
        mq_state T k1 e s' \<and> (mq_inv s \<longrightarrow> mq_inv s') \<and>
        (\<forall>u. TCB_usStatus (K_tcb k1 u) = (if head_of (qs_send s) = Some u then rdy_bits k u else TCB_usStatus (K_tcb k u)))"
proof -
  let ?k = "kernelEnterIrq k"
  have S: "mq_state T ?k e s" by (rule mq_state_enter [OF assms(1)])
  note X = mq_section_eq [OF assms(2) mq_stateD(6) [OF assms(1)]]
  have c: "EVENT_ulCounter (K_eventBuffer k e) = 0 \<longleftrightarrow> spec_take s = None"
    using mq_state_num(3) [OF S] by (simp add: spec_take_def pq_get_all)
  show ?thesis
  proof (cases "spec_take s")
    case None
    then show ?thesis using c by (simp add: MsgQueueTryReceive_def X)
  next
    case (Some y)
    obtain m s' where y: "y = (m, s')" by (cases y)
    have G: "spec_take s = Some (m, s')" using Some y by simp
    have n: "EVENT_ulCounter (K_eventBuffer k e) \<noteq> 0" using c G by simp
    have i: "mq_inv s'" if "mq_inv s" "mq_state T k1 e s'" for k1
      using that G mq_inv_len [OF that(2)] by (auto simp: mq_inv_def spec_take_def dest: pq_get_tl)
    show ?thesis
    proof (rule mq_take_ok [OF S G, of sz buf len])
      fix k1 assume K: "mq_take sz buf len e ?k = ((take (unat sz) m @ drop (min (unat sz) (length m)) buf, min sz (of_nat (length m))), k1)" "mq_state T k1 e s'"
        and U: "\<And>u. TCB_usStatus (K_tcb k1 u) = (if head_of (qs_send s) = Some u
          then (TCB_usStatus (K_tcb ?k u) AND NOT LW_THREAD_STATUS_DELAY) AND NOT LW_THREAD_STATUS_MSGQUEUE else TCB_usStatus (K_tcb ?k u))"
      have "MsgQueueTryReceive (handle OBJECT_MSGQUEUE e) (Some buf) sz len env k =
          exit_with ERROR_NONE (Some (take (unat sz) m @ drop (min (unat sz) (length m)) buf), min sz (of_nat (length m))) env k1"
        using n by (simp add: MsgQueueTryReceive_def X K(1))
      moreover have "TCB_usStatus (K_tcb k1 u) = (if head_of (qs_send s) = Some u then rdy_bits k u else TCB_usStatus (K_tcb k u))" for u
        unfolding U rdy_bits_def by simp
      ultimately show ?thesis using K(2) i [OF _ K(2)] unfolding G by auto
    qed
  qed
qed

theorem msgqueue_receive_refines_witness:
  "\<exists>k1. MsgQueueTryReceive (handle OBJECT_MSGQUEUE 4) (Some [9, 9, 9]) 2 0 [] demo_msg = exit_with ERROR_NONE (Some [1, 2, 9], 2) [] k1 \<and>
    mq_state {0, 1, 2, 3} k1 4 ((mq_empty 2 8)\<lparr>qs_msgs := (\<lambda>_. [])(7 := [])\<rparr>)"
proof -
  have "pq_first (pq_put 7 [1, 2, 3 :: u8] (\<lambda>_. [])) = Some 7" by (simp add: pq_first_Some) (simp add: pq_put_def)
  then have "spec_take ((mq_empty 2 8)\<lparr>qs_msgs := pq_put 7 [1, 2, 3] (\<lambda>_. [])\<rparr>) = Some ([1, 2, 3], (mq_empty 2 8)\<lparr>qs_msgs := (\<lambda>_. [])(7 := [])\<rparr>)"
    by (simp add: spec_take_def pq_get_def) (simp add: pq_put_def mq_empty_def)
  with msgqueue_receive_refines [OF demo_msg_state, of "[9, 9, 9]" 2 0 "[]"] show ?thesis
    by (auto simp: min_def)
qed
lemma remove1_single: "remove1 c ws = [] \<Longrightarrow> c \<in> set ws \<Longrightarrow> ws = [c]"
  by (cases ws) (auto split: if_splits)

lemma mq_recv_block_state:
  assumes S: "mq_state T k e s" and c: "running T k c" and n: "qs_read s = []"
  shows "mq_state T (mq_recv_block c sz buf n to e k) e (s\<lparr>qs_read := [c]\<rparr>)"
    "TCB_usStatus (K_tcb (mq_recv_block c sz buf n to e k) c) =
       (if to = LW_OPTION_WAIT_INFINITE \<or> to = 0 then LW_THREAD_STATUS_MSGQUEUE else LW_THREAD_STATUS_MSGQUEUE OR LW_THREAD_STATUS_DELAY)"
    "mview (K_tcb (mq_recv_block c sz buf n to e k) c) = (buf, sz, n, TCB_ulRecvOption (K_tcb k c))"
    "\<not> LW_THREAD_IS_READY (mq_recv_block c sz buf n to e k) c"
proof -
  let ?k0 = "tcb_upd c (\<lambda>b. b\<lparr>TCB_pstMsgByteSize := n, TCB_stMaxByteSize := sz, TCB_pvMsgQueueMessage := buf\<rparr>) k"
  note V = mq_recv_vars_ok [OF S c, where len = n and sz = sz and buf = buf]
  define k1 where "k1 = ev_block e EVENT_MSG_Q_R LW_THREAD_STATUS_MSGQUEUE to ?k0"
  have E: "mq_recv_block c sz buf n to e k = k1" by (simp add: mq_recv_block_def k1_def)
  note B = mq_block_ok [OF V, where q = EVENT_MSG_Q_R and to = to, folded k1_def]
  have r: "waiters k1 e EVENT_MSG_Q_R = [c]"
    by (rule remove1_single [OF _ B(3)]) (unfold B(2) mq_stateD(4) [OF V(1), symmetric], rule n)
  have "waiters k1 e EVENT_MSG_Q_S = waiters ?k0 e EVENT_MSG_Q_S" by (rule B(4)) simp
  then have sS: "waiters k1 e EVENT_MSG_Q_S = qs_send s" unfolding mq_stateD(5) [OF V(1)] .
  show "mq_state T (mq_recv_block c sz buf n to e k) e (s\<lparr>qs_read := [c]\<rparr>)" using B(1) unfolding E r sS by (cases s) simp
  show "TCB_usStatus (K_tcb (mq_recv_block c sz buf n to e k) c) =
       (if to = LW_OPTION_WAIT_INFINITE \<or> to = 0 then LW_THREAD_STATUS_MSGQUEUE else LW_THREAD_STATUS_MSGQUEUE OR LW_THREAD_STATUS_DELAY)"
    unfolding E k1_def by (rule ev_block_spec(3) [OF mq_state_sys(2) [OF V(1)] runningD [OF V(2)]]) simp_all
  show "mview (K_tcb (mq_recv_block c sz buf n to e k) c) = (buf, sz, n, TCB_ulRecvOption (K_tcb k c))"
    using B(6) [of c] by (simp add: E mview_def)
  show "\<not> LW_THREAD_IS_READY (mq_recv_block c sz buf n to e k) c" unfolding E by (rule B(5))
qed

text \<open>Thread 2 waits for a message of at most eight bytes.\<close>

definition demo_reader :: kernel where
  "demo_reader = mq_recv_block 2 8 [9, 9, 9, 9] 0 10 4 demo_mq"

lemmas demo_reader_state = mq_recv_block_state [OF demo_mq_state demo_mq_running, where sz = 8 and buf = "[9, 9, 9, 9]" and n = 0 and to = 10, folded demo_reader_def]

lemma demo_reader_nesting: "CpuGetNesting demo_reader = 0"
proof -
  have "CpuGetNesting (ev_block e q ty to k) = CpuGetNesting k" for e q ty to k by (simp add: CpuGetNesting_def ev_block_cpu)
  then have "CpuGetNesting demo_reader = CpuGetNesting demo_mq" by (simp add: demo_reader_def mq_recv_block_def Let_def) (simp add: CpuGetNesting_def)
  then show ?thesis using demo_sem_nesting by (simp add: demo_mq_def mq_setup_def Let_def CpuGetNesting_def)
qed



text \<open>
  C26: A broadcast ends: every waiting receiver gets the message on its own terms and becomes ready, no
  other thread is touched, and the buffered messages and the waiting senders stay as they are.
\<close>

theorem msgqueue_broadcast:
  assumes "mq_state T k e s" and "e < LW_CFG_MAX_EVENTS" and "len \<noteq> 0" and "unat len \<le> qs_size s"
    and "ulOption \<noteq> LW_OPTION_DEFAULT" and "ulOption AND LW_OPTION_URGENT = 0" and "ulOption AND LW_OPTION_BROADCAST \<noteq> 0"
  shows "\<exists>k1. MsgQueueSendEx2 (handle OBJECT_MSGQUEUE e) (Some buf) len to ulOption env k = drop_out (exit_with ERROR_NONE () env k1) \<and>
    mq_state T k1 e (s\<lparr>qs_read := []\<rparr>) \<and>
    (\<forall>u. TCB_usStatus (K_tcb k1 u) = (if u \<in> set (qs_read s) then rdy_bits k u else TCB_usStatus (K_tcb k u)) \<and>
         mview (K_tcb k1 u) = (if u \<in> set (qs_read s) then delivered buf len (K_tcb k u) else mview (K_tcb k u)))"
proof -
  let ?k = "kernelEnterIrq k"
  have S: "mq_state T ?k e s" by (rule mq_state_enter [OF assms(1)])
  have z: "\<not> MSGQUEUE_stMaxBytes (mq_of ?k e) < len" using assms(4) mq_stateD(3) [OF S] by (simp add: word_less_nat_alt)
  obtain k1 where K: "mq_broadcast buf len e ?k = Some k1" "mq_state T k1 e (s\<lparr>qs_read := []\<rparr>)"
    "\<And>u. u \<in> set (qs_read s) \<Longrightarrow> TCB_usStatus (K_tcb k1 u) = rdy_bits ?k u \<and> mview (K_tcb k1 u) = delivered buf len (K_tcb ?k u)"
    "\<And>u. u \<notin> set (qs_read s) \<Longrightarrow> TCB_usStatus (K_tcb k1 u) = TCB_usStatus (K_tcb ?k u) \<and> mview (K_tcb k1 u) = mview (K_tcb ?k u)"
    using mq_broadcast_ok [OF S, of buf len] by metis
  have "mq_sendEx_other buf len ulOption e ?k = Some (ERROR_NONE, (), k1)"
    using K(1) z assms(7) by (simp add: mq_sendEx_other_def)
  then have "MsgQueueSendEx2 (handle OBJECT_MSGQUEUE e) (Some buf) len to ulOption env k = drop_out (exit_with ERROR_NONE () env k1)"
    using assms(3,5,6) by (simp add: MsgQueueSendEx2_def mq_section_eq [OF assms(2) mq_stateD(6) [OF assms(1)]])
  then show ?thesis using K(2-4) by (intro exI [of _ k1]) (simp add: rdy_bits_def)
qed

theorem msgqueue_broadcast_witness:
  "\<exists>k1. MsgQueueSendEx2 (handle OBJECT_MSGQUEUE 4) (Some [1, 2, 3]) 3 0 LW_OPTION_BROADCAST [] demo_reader = drop_out (exit_with ERROR_NONE () [] k1) \<and>
    mq_state {0, 1, 2, 3} k1 4 (mq_empty 2 8) \<and> TCB_usStatus (K_tcb k1 2) = 0 \<and> recv_vars 2 k1 = ([1, 2, 3, 9], 3)"
proof -
  have "delivered [1, 2, 3] 3 (K_tcb demo_reader 2) = ([1, 2, 3, 9], 8, 3, TCB_ulRecvOption (K_tcb demo_mq 2))" "rdy_bits demo_reader 2 = 0"
    using demo_reader_state(2,3) by (simp_all add: delivered_def accepts_def mview_def memcpy_def rdy_bits_def)
  moreover obtain k1 where "MsgQueueSendEx2 (handle OBJECT_MSGQUEUE 4) (Some [1, 2, 3]) 3 0 LW_OPTION_BROADCAST [] demo_reader = drop_out (exit_with ERROR_NONE () [] k1)"
    "mq_state {0, 1, 2, 3} k1 4 (mq_empty 2 8)" "TCB_usStatus (K_tcb k1 2) = rdy_bits demo_reader 2" "mview (K_tcb k1 2) = delivered [1, 2, 3] 3 (K_tcb demo_reader 2)"
    using msgqueue_broadcast [OF demo_reader_state(1), of 3 LW_OPTION_BROADCAST "[1, 2, 3]" 0 "[]"] by (auto simp: mq_empty_def)
  ultimately show ?thesis by (intro exI [of _ k1]) (simp add: recv_vars_def mview_def)
qed

text \<open>
  C25: Deleting a queue ends: every thread that waits to receive or to send becomes ready and its call
  reports the deletion, no other thread is touched, both wait queues are empty, the event block and the
  control block of the queue go to the end of their free lists, the handle is cleared and the address
  of the buffer is the one given back to the heap; a later receive with the old handle reports a wrong
  type; the invariant of the system is kept.
\<close>

theorem msgqueue_delete:
  assumes "mq_state T k e s" and "e < LW_CFG_MAX_EVENTS" and "CpuGetNesting k = 0"
  shows "\<exists>k1. MsgQueueDelete (handle OBJECT_MSGQUEUE e) env k = exit_with ERROR_NONE (0, Some (MSGQUEUE_pvBuffer (mq_of k e))) env k1 \<and> sys_ok T k1 \<and>
    waiters k1 e EVENT_MSG_Q_R = [] \<and> waiters k1 e EVENT_MSG_Q_S = [] \<and>
    RESRC_free (K_resrcEvent k1) = RESRC_free (K_resrcEvent k) @ [e] \<and>
    RESRC_free (K_resrcMsgQueue k1) = RESRC_free (K_resrcMsgQueue k) @ [mq_idx k e] \<and>
    (\<forall>u. TCB_usStatus (K_tcb k1 u) = (if u \<in> set (qs_read s) \<union> set (qs_send s) then rdy_bits k u else TCB_usStatus (K_tcb k u)) \<and>
         TCB_ucIsEventDelete (K_tcb k1 u) = (if u \<in> set (qs_read s) \<union> set (qs_send s) then LW_EVENT_DELETE else TCB_ucIsEventDelete (K_tcb k u))) \<and>
    (\<forall>len buf env'. MsgQueueTryReceive (handle OBJECT_MSGQUEUE e) (Some buf) len 0 env' k1 = exit_with ERROR_MSGQUEUE_TYPE (Some buf, 0) env' (kernelEnterIrq k1))"
proof -
  let ?k = "kernelEnterIrq k"
  note D = mq_stateD [OF assms(1)]
  obtain k1 where K: "mq_delete e ?k = Some (ERROR_NONE, (0, Some (MSGQUEUE_pvBuffer (mq_of ?k e))), k1)" "sys_ok T k1"
    "EVENT_ucType (K_eventBuffer k1 e) = LW_TYPE_EVENT_UNUSED" "mq_released e ?k k1"
    "RESRC_free (K_resrcEvent k1) = RESRC_free (K_resrcEvent ?k) @ [e]" "RESRC_free (K_resrcMsgQueue k1) = RESRC_free (K_resrcMsgQueue ?k) @ [mq_idx ?k e]"
    by (rule mq_delete_ok [OF sys_ok_enter(1) [OF mq_state_sys(1) [OF assms(1)]]])
  have R: "rdy_bits ?k u = rdy_bits k u" for u by (simp add: rdy_bits_def)
  have M: "mq_of ?k e = mq_of k e" "mq_idx ?k e = mq_idx k e" "K_resrcEvent ?k = K_resrcEvent k" "K_resrcMsgQueue ?k = K_resrcMsgQueue k"
    by (simp_all add: mq_of_def mq_idx_def kernelEnterIrq_def)
  note X = K(4) [unfolded mq_released_def R enter_view D(4,5) [symmetric]]
  have "MsgQueueDelete (handle OBJECT_MSGQUEUE e) env k = exit_with ERROR_NONE (0, Some (MSGQUEUE_pvBuffer (mq_of k e))) env k1"
    using assms(3) K(1) by (simp add: MsgQueueDelete_def mq_section_eq [OF assms(2) D(6)] M)
  moreover have "MsgQueueTryReceive (handle OBJECT_MSGQUEUE e) (Some buf) len 0 env' k1 = exit_with ERROR_MSGQUEUE_TYPE (Some buf, 0) env' (kernelEnterIrq k1)" for buf len env'
    using assms(2) handle_parts [of OBJECT_MSGQUEUE e] K(3)
    by (simp add: MsgQueueTryReceive_def mq_section_def Let_def Event_Index_Invalid_def Event_Type_Invalid_def exit_with_def option.case_eq_if map_option_case split_beta)
  moreover have "waiters k1 e EVENT_MSG_Q_R = []" "waiters k1 e EVENT_MSG_Q_S = []" using X by simp_all
  ultimately show ?thesis using K(2) K(5,6) [unfolded M] X by blast
qed

theorem msgqueue_delete_witness:
  "\<exists>k1. MsgQueueDelete (handle OBJECT_MSGQUEUE 4) [] demo_reader = exit_with ERROR_NONE (0, Some (MSGQUEUE_pvBuffer (mq_of demo_reader 4))) [] k1 \<and>
    sys_ok {0, 1, 2, 3} k1 \<and> waiters k1 4 EVENT_MSG_Q_R = [] \<and> TCB_usStatus (K_tcb k1 2) = 0 \<and> TCB_ucIsEventDelete (K_tcb k1 2) = LW_EVENT_DELETE \<and>
    RESRC_free (K_resrcEvent k1) = RESRC_free (K_resrcEvent demo_reader) @ [4]"
proof -
  have "rdy_bits demo_reader 2 = 0" using demo_reader_state(2) by (simp add: rdy_bits_def)
  moreover obtain k1 where "MsgQueueDelete (handle OBJECT_MSGQUEUE 4) [] demo_reader = exit_with ERROR_NONE (0, Some (MSGQUEUE_pvBuffer (mq_of demo_reader 4))) [] k1"
    "sys_ok {0, 1, 2, 3} k1" "waiters k1 4 EVENT_MSG_Q_R = []" "RESRC_free (K_resrcEvent k1) = RESRC_free (K_resrcEvent demo_reader) @ [4]"
    "\<And>u. TCB_usStatus (K_tcb k1 u) = (if u = 2 then rdy_bits demo_reader u else TCB_usStatus (K_tcb demo_reader u)) \<and>
         TCB_ucIsEventDelete (K_tcb k1 u) = (if u = 2 then LW_EVENT_DELETE else TCB_ucIsEventDelete (K_tcb demo_reader u))"
    using msgqueue_delete [OF demo_reader_state(1) _ demo_reader_nesting, of "[]"] by (auto simp: mq_empty_def)
  ultimately show ?thesis by (intro exI [of _ k1]) simp
qed

text \<open>
  C11: The whole life of a queue. A queue is set up in a block without waiters, and then threads send,
  receive, wait, broadcast, clear and flush in any order, mixed with any other steps of the system.
  Of each priority, what was buffered so far is what was received so far, in the same order and each cut
  to the receiver's size, followed by what is left: no message is lost, doubled or overtaken by a
  later one of its priority, and a receiver gets the most urgent one. The counter is the number of
  messages left and never passes the maximum, and no receiver waits while there are messages.
\<close>

theorem msgqueue_fifo:
  assumes "sys_ok T k" and "fresh_event (K_eventBuffer k e)" and "i < LW_CFG_MAX_MSGQUEUES"
    and "unat n * unat (sizeof_MSGNODE + ROUND_UP sz sizeof_size_t) \<le> 2 ^ 64" and "sizeof_MSGNODE + ROUND_UP sz sizeof_size_t \<noteq> 0"
    and "(mq_step T e)\<^sup>*\<^sup>* ((\<lambda>_. [], \<lambda>_. []), mq_setup name n sz opt addr i e k) ((buffered, received), k')"
  shows "\<exists>left. (\<forall>p. \<exists>ms. buffered p = ms @ left p \<and> list_all2 (\<lambda>(sz, r) m. r = take (unat sz) m) (received p) ms) \<and>
    unat (EVENT_ulCounter (K_eventBuffer k' e)) = length (pq_all left) \<and> EVENT_ulCounter (K_eventBuffer k' e) \<le> EVENT_ulMaxCounter (K_eventBuffer k' e) \<and>
    (EVENT_ulCounter (K_eventBuffer k' e) \<noteq> 0 \<longrightarrow> waiters k' e EVENT_MSG_Q_R = []) \<and> sys_ok T k'"
proof -
  have "mq_inv (mq_empty n sz)" by (simp add: mq_inv_def)
  then have "mq_good T e ((\<lambda>_. [], \<lambda>_. []), mq_setup name n sz opt addr i e k)"
    by (rule mq_goodI [OF mq_setup_state [OF assms(1-5)]]) (simp add: mq_logged_def)
  from mq_steps_good [OF assms(6) this] obtain s where S: "mq_state T k' e s" "mq_inv s" "mq_logged (buffered, received) (qs_msgs s)" by (auto simp: mq_good_def)
  have "EVENT_ulCounter (K_eventBuffer k' e) \<noteq> 0 \<longrightarrow> waiters k' e EVENT_MSG_Q_R = []"
    using S(2) mq_state_num(3) [OF S(1)] mq_stateD(4) [OF S(1)] by (auto simp: mq_inv_def)
  moreover have "EVENT_ulCounter (K_eventBuffer k' e) \<le> EVENT_ulMaxCounter (K_eventBuffer k' e)"
    using mq_inv_len [OF S(1)] mq_stateD(2,8) [OF S(1)] by (simp add: word_le_nat_alt)
  ultimately show ?thesis using S(3) mq_stateD(2) [OF S(1)] mq_state_sys(1) [OF S(1)]
    by (intro exI [of _ "qs_msgs s"]) (simp add: mq_logged_def)
qed

theorem msgqueue_fifo_witness:
  "(mq_step {0, 1, 2, 3} 4)\<^sup>*\<^sup>* ((\<lambda>_. [], \<lambda>_. []), demo_mq) (log_in 7 [1, 2, 3] (\<lambda>_. [], \<lambda>_. []), demo_msg) \<and>
    EVENT_ulCounter (K_eventBuffer demo_msg 4) \<le> EVENT_ulMaxCounter (K_eventBuffer demo_msg 4)"
proof -
  have z: "(3 :: ulong) \<le> MSGQUEUE_stMaxBytes (mq_of demo_mq 4)" using mq_stateD(3) [OF demo_mq_state] by (simp add: word_le_nat_alt)
  have "spec_send 7 (take (unat (3 :: ulong)) [1, 2, 3]) (\<lambda>t. accepts 3 (K_tcb demo_mq t)) (mq_empty 2 8) =
      (Sent, (mq_empty 2 8)\<lparr>qs_msgs := pq_put 7 [1, 2, 3] (\<lambda>_. [])\<rparr>)" by (simp add: spec_send_def)
  with mq_try_send_refines [OF demo_mq_state, of 3 "[1, 2, 3]" 7] have E: "mq_try_send [1, 2, 3] 3 7 4 demo_mq = (Sent, demo_msg)"
    by (auto simp: demo_msg_def)
  have "EventWaitNum EVENT_MSG_Q_R 4 demo_mq = 0" using mq_state_num(1) [OF demo_mq_state] by simp
  then have "mq_step {0, 1, 2, 3} 4 ((\<lambda>_. [], \<lambda>_. []), demo_mq) (log_in 7 [1, 2, 3] (\<lambda>_. [], \<lambda>_. []), demo_msg)"
    using mq_step.Send [OF _ z E, of "{0, 1, 2, 3}" "(\<lambda>_. [], \<lambda>_. [])"] by simp
  then have s: "(mq_step {0, 1, 2, 3} 4)\<^sup>*\<^sup>* ((\<lambda>_. [], \<lambda>_. []), demo_mq) (log_in 7 [1, 2, 3] (\<lambda>_. [], \<lambda>_. []), demo_msg)" ..
  have "fresh_event (K_eventBuffer demo_sem 4)" by (simp add: demo_sem_def demo_kernel fresh_empty)
  from msgqueue_fifo [OF demo_sem_sys this _ _ _ s [unfolded demo_mq_def log_in_def]] s show ?thesis by (auto simp: ROUND_UP_def)
qed

text \<open>Put the messages of a list one after the other, and get as many as told.\<close>

fun mq_put_all :: "(nat \<times> u8 list) list \<Rightarrow> msgqueue \<Rightarrow> msgqueue option" where
  "mq_put_all [] mq = Some mq"
| "mq_put_all ((p, m) # xs) mq = Option.bind (mq_put p m mq) (mq_put_all xs)"

fun mq_get_all :: "ulong \<Rightarrow> nat \<Rightarrow> msgqueue \<Rightarrow> u8 list list option" where
  "mq_get_all sz 0 mq = Some []"
| "mq_get_all sz (Suc n) mq = Option.bind (mq_get sz mq) (\<lambda>(m, mq). map_option ((#) m) (mq_get_all sz n mq))"

lemma mq_put_all_eq: "mqbuf.put_all xs mq = mq_put_all xs mq"
proof (induction xs arbitrary: mq)
  case (Cons x xs)
  then show ?case by (cases x; cases "mq_put (fst x) (snd x) mq") simp_all
qed simp

lemma mq_get_all_eq: "mqbuf.get_all sz n mq = mq_get_all sz n mq"
proof (induction n arbitrary: mq)
  case (Suc n)
  then show ?case by (cases "mq_get sz mq") (auto simp: map_option_case split: option.splits)
qed simp

text \<open>
  C23: The buffer of a queue, on the level of its nodes and links: after the buffer is cleared for \<open>n\<close>
  nodes that lie in memory without overlapping, putting up to \<open>n\<close> messages and then getting as many
  returns exactly these messages, the priorities in their order and within a priority first in, first out.
\<close>

theorem msgqueue_buffer_roundtrip:
  assumes "mq_fits n mq" and "length xs \<le> unat n" and "\<forall>(p, m) \<in> set xs. p < EVENT_MSG_Q_PRIO \<and> length m \<le> unat (MSGQUEUE_stMaxBytes mq)"
  shows "\<exists>mq'. mq_put_all xs (MsgQueueClear n mq) = Some mq' \<and>
    mq_get_all (MSGQUEUE_stMaxBytes mq) (length xs) mq' = Some (concat (map (\<lambda>p. map snd (filter (\<lambda>x. fst x = p) xs)) [0..<EVENT_MSG_Q_PRIO]))"
proof -
  note C = MsgQueueClear_rep [OF assms(1)]
  have "mq_rep (unat n) (MsgQueueClear n mq) (\<lambda>_. []) \<and> MSGQUEUE_stMaxBytes (MsgQueueClear n mq) = MSGQUEUE_stMaxBytes mq" using C by simp
  from mqbuf.drain [OF this assms(2,3)] show ?thesis unfolding mq_put_all_eq mq_get_all_eq .
qed

theorem msgqueue_buffer_roundtrip_witness:
  "\<exists>mq'. mq_put_all [(7, [1]), (0, [2, 3]), (7, [4])] (MsgQueueClear 3 (msgqueue0\<lparr>MSGQUEUE_stMaxBytes := 8\<rparr>)) = Some mq' \<and>
    mq_get_all 8 3 mq' = Some [[2, 3], [1], [4]]"
  unfolding numeral_3_eq_3
  using msgqueue_buffer_roundtrip [of 3 "msgqueue0\<lparr>MSGQUEUE_stMaxBytes := 8\<rparr>" "[(7, [1]), (0, [2, 3]), (7, [4])]"]
  by (simp add: mq_fits_def ROUND_UP_def upt_rec del: mq_put_all.simps mq_get_all.simps)

section \<open>The memory of a queue\<close>

text \<open>The bytes that \<open>n\<close> nodes with messages of up to \<open>sz\<close> bytes need.\<close>

definition mq_need :: "ulong \<Rightarrow> ulong \<Rightarrow> nat" where
  "mq_need n sz = unat n * (8 * ((unat sz + 7) div 8) + 16)"

lemma round_nat: "(a mod 2 ^ 64) div 8 * 8 = (8 * (a div 8)) mod (2 ^ 64 :: nat)"
proof -
  have m: "(2 ^ 64 :: nat) = 8 * 2 ^ 61" by simp
  have "(a mod (8 * 2 ^ 61)) div 8 = a div 8 mod 2 ^ 61" unfolding mod_mult2_eq [of a 8 "2 ^ 61"] by simp
  then show ?thesis unfolding m mod_mult_mult1 by simp
qed

lemma unat_ROUND_UP: "unat (ROUND_UP sz 8) = (8 * ((unat sz + 7) div 8)) mod 2 ^ 64"
proof -
  have m: "(7 :: ulong) = mask 3" by (simp add: mask_eq_exp_minus_1)
  have "x AND NOT (7 :: ulong) = push_bit 3 (drop_bit 3 x)" for x :: ulong
    unfolding m by (rule bit_word_eqI) (auto simp: bit_simps not_le)
  then have "unat (ROUND_UP sz 8) = unat (push_bit 3 (drop_bit 3 (sz + 7)))" by (simp add: ROUND_UP_def)
  also have "\<dots> = unat (sz + 7) div 8 * 8"
  proof -
    have "unat (sz + 7) < 2 ^ 64" using unsigned_less [of "sz + 7"] by simp
    then have "unat (sz + 7) div 8 * 8 < 2 ^ 64" by (meson div_times_less_eq_dividend le_less_trans)
    then show ?thesis by (simp add: push_bit_eq_mult unat_word_ariths unat_drop_bit_eq drop_bit_eq_div mult.commute)
  qed
  also have "unat (sz + 7) = (unat sz + 7) mod 2 ^ 64" by (simp add: unat_word_ariths)
  finally show ?thesis unfolding round_nat .
qed

lemma mq_heap_bytes_nat: "unat (mq_heap_bytes n sz) = mq_need n sz mod 2 ^ 64"
proof -
  have "unat (ROUND_UP sz 8 + 16) = (8 * ((unat sz + 7) div 8) + 16) mod 2 ^ 64"
    by (simp add: unat_word_ariths unat_ROUND_UP mod_add_left_eq)
  then show ?thesis by (simp add: mq_heap_bytes_def mq_need_def unat_word_ariths mod_mult_right_eq)
qed

text \<open>
  C24: The size that \<^verbatim>\<open>API_MsgQueueCreate\<close> asks the kernel heap for is the size the nodes need modulo
  \<open>2 ^ 64\<close>: it is enough exactly when the need is a machine word. The product is not checked, so a call
  with a counter that is large enough gets a block that is too small; with 768614336404564651 messages of
  eight bytes it asks for eight bytes, less than one node of 24.
\<close>

theorem msgqueue_heap_bytes:
  "unat (mq_heap_bytes n sz) = mq_need n sz mod 2 ^ 64 \<and> (mq_need n sz \<le> unat (mq_heap_bytes n sz) \<longleftrightarrow> mq_need n sz < 2 ^ 64) \<and>
   mq_heap_bytes 768614336404564651 8 = 8 \<and> mq_need 1 8 = 24"
proof -
  have "mq_need n sz \<le> mq_need n sz mod 2 ^ 64 \<longleftrightarrow> mq_need n sz < 2 ^ 64"
    using mod_less_divisor [of "2 ^ 64" "mq_need n sz"] by (auto simp del: mod_less_divisor)
  then show ?thesis unfolding mq_heap_bytes_nat by (simp add: mq_heap_bytes_def ROUND_UP_def mq_need_def)
qed

text \<open>
  \<^verbatim>\<open>API_MsgQueueCreate\<close>: with a control block of a queue, a control block of an event without waiters and
  memory from the heap, and when the nodes need less than \<open>2 ^ 64\<close> bytes, the call returns the handle
  of the event, and the queue is empty and in order with the capacity asked for.
\<close>

theorem msgqueue_create:
  assumes "CpuGetNesting k = 0" and "n \<noteq> 0" and "sz \<noteq> 0" and "\<not> Object_Name_Invalid name"
    and "kernel_mode_proc Allocate_MsgQueue_Object env k = Some (Some i, env1, k1)" and "i < LW_CFG_MAX_MSGQUEUES"
    and "kernel_mode_proc Allocate_Event_Object env1 k1 = Some (Some e, env2, k2)" and "sys_ok T k2" and "fresh_event (K_eventBuffer k2 e)"
    and "EVENT_usIndex (K_eventBuffer k2 e) = of_nat e" and "kheap_alloc (mq_heap_bytes n sz) = Some addr" and "mq_need n sz < 2 ^ 64"
  shows "\<exists>k3. MsgQueueCreate kheap_alloc name n sz opt env k = Some (handle OBJECT_MSGQUEUE e, env2, k3) \<and> mq_state T k3 e (mq_empty n sz)"
proof -
  let ?k = "mq_setup name n sz opt addr i e k2" and ?c = "8 * ((unat sz + 7) div 8) + 16"
  have n: "unat n > 0" using assms(2) by (simp add: unat_gt_0)
  have "?c \<le> mq_need n sz" unfolding mq_need_def using n by simp
  with assms(12) have c: "?c < 2 ^ 64" by linarith
  then have "8 * ((unat sz + 7) div 8) < 2 ^ 64" by linarith
  then have r: "unat (ROUND_UP sz 8) = 8 * ((unat sz + 7) div 8)" unfolding unat_ROUND_UP by (rule mod_less)
  have "unat (16 + ROUND_UP sz 8) = (16 + 8 * ((unat sz + 7) div 8)) mod 2 ^ 64" unfolding unat_word_ariths(1) r by simp
  also have "\<dots> = ?c" unfolding add.commute [of 16] by (rule mod_less [OF c])
  finally have u: "unat (16 + ROUND_UP sz 8) = ?c" .
  have f: "unat n * unat (16 + ROUND_UP sz 8) \<le> 2 ^ 64" using assms(12) unfolding u mq_need_def by (rule less_imp_le)
  have g: "16 + ROUND_UP sz 8 \<noteq> 0"
  proof
    assume "16 + ROUND_UP sz 8 = 0"
    with u have "?c = 0" by simp
    then show False by linarith
  qed
  have S: "mq_state T ?k e (mq_empty n sz)" by (rule mq_setup_state [OF assms(8,9,6) f g])
  have h: "EVENT_usIndex (K_eventBuffer ?k e) = of_nat e" using assms(10) by (simp add: mq_setup_def Let_def)
  have "MsgQueueCreate kheap_alloc name n sz opt env k = Some (handle OBJECT_MSGQUEUE e, env2, ?k)"
    unfolding MsgQueueCreate_def assms(5) handle_def using assms(1-4,7,11) h by simp
  then show ?thesis using S by blast
qed

text \<open>Inside an outer section, a section that only takes a control block is that step.\<close>

lemma proc_nested:
  assumes "CPU_iKernelCounter (K_cpu k (K_curcpu k)) = Suc n"
  shows "kernel_mode_proc Allocate_Event_Object env k = Some (fst (Allocate_Event_Object k), env, snd (Allocate_Event_Object k))"
    "kernel_mode_proc Allocate_MsgQueue_Object env k = Some (fst (Allocate_MsgQueue_Object k), env, snd (Allocate_MsgQueue_Object k))"
  using assms by (simp_all add: kernel_mode_proc_def Allocate_Event_Object_def Allocate_MsgQueue_Object_def kernelEnter_def kernelExit_def cpu_upd_def
      Let_def fun_upd_idem split: list.split)

definition demo_mqpool :: kernel where
  "demo_mqpool = cpu_upd 0 (\<lambda>p. p\<lparr>CPU_iKernelCounter := 1\<rparr>)
     ((event_upd 4 (\<lambda>v. v\<lparr>EVENT_usIndex := 4\<rparr>) demo_sem)\<lparr>K_resrcEvent := \<lparr>RESRC_free = [4], RESRC_uiUsed = 2, RESRC_uiMaxUsed = 2\<rparr>,
        K_resrcMsgQueue := \<lparr>RESRC_free = [0, 1], RESRC_uiUsed = 0, RESRC_uiMaxUsed = 0\<rparr>\<rparr>)"

theorem msgqueue_create_witness:
  "\<exists>k3. MsgQueueCreate (\<lambda>n. if n \<le> 100 then Some 4096 else None) (Some ''queue'') 2 8 0 [] demo_mqpool = Some (handle OBJECT_MSGQUEUE 4, [], k3) \<and>
    mq_state {0, 1, 2, 3} k3 4 (mq_empty 2 8)"
proof -
  have c: "K_curcpu demo_sem = 0" "K_eventBuffer demo_sem 4 = event0" by (simp_all add: demo_sem_def demo_kernel)
  define k1 where "k1 = snd (Allocate_MsgQueue_Object demo_mqpool)"
  define k2 where "k2 = snd (Allocate_Event_Object k1)"
  have K: "CPU_iKernelCounter (K_cpu demo_mqpool (K_curcpu demo_mqpool)) = Suc 0" by (simp add: demo_mqpool_def c)
  have a1: "Allocate_MsgQueue_Object demo_mqpool = (Some 0, k1)" by (simp add: k1_def Allocate_MsgQueue_Object_def demo_mqpool_def Let_def)
  have f: "RESRC_free (K_resrcEvent k1) = [4]" "K_cpu k1 = K_cpu demo_mqpool" "K_curcpu k1 = K_curcpu demo_mqpool" "K_eventBuffer k1 4 = event0\<lparr>EVENT_usIndex := 4\<rparr>"
    by (simp_all add: k1_def Allocate_MsgQueue_Object_def demo_mqpool_def Let_def c)
  have a2: "Allocate_Event_Object k1 = (Some 4, k2)" by (simp add: k2_def Allocate_Event_Object_def f Let_def)
  have ev: "K_eventBuffer k2 4 = event0\<lparr>EVENT_usIndex := 4\<rparr>" by (simp add: k2_def Allocate_Event_Object_def f Let_def)
  have fr: "fresh_event (event0\<lparr>EVENT_usIndex := 4\<rparr>)" using fresh_empty by (simp add: fresh_event_def)
  have "sys_ok {0, 1, 2, 3} (event_upd 4 (\<lambda>v. v\<lparr>EVENT_usIndex := 4\<rparr>) demo_sem)" by (rule sys_ok_event [OF demo_sem_sys]) simp_all
  then have "sys_ok {0, 1, 2, 3} demo_mqpool" unfolding demo_mqpool_def by (intro sys_ok_cpu sys_ok_pool) simp_all
  then have "sys_ok {0, 1, 2, 3} k1" by (simp add: k1_def Allocate_MsgQueue_Object_def Let_def sys_ok_pool split: list.split)
  then have ok: "sys_ok {0, 1, 2, 3} k2" by (simp add: k2_def Allocate_Event_Object_def Let_def sys_ok_pool split: list.split)
  have p1: "kernel_mode_proc Allocate_MsgQueue_Object [] demo_mqpool = Some (Some 0, [], k1)" using proc_nested(2) [OF K, of "[]"] a1 by simp
  have p2: "kernel_mode_proc Allocate_Event_Object [] k1 = Some (Some 4, [], k2)" using proc_nested(1) [of k1 0 "[]"] K f(2,3) a2 by simp
  have n: "CpuGetNesting demo_mqpool = 0" using demo_sem_nesting by (simp add: demo_mqpool_def CpuGetNesting_def c)
  show ?thesis
    by (rule msgqueue_create [OF n _ _ _ p1 _ p2 ok])
      (simp_all add: ev fr Object_Name_Invalid_def mq_heap_bytes_def ROUND_UP_def mq_need_def)
qed

end
