(* ===== verification/SemRW.thy ===== *)
theory SemRW
  imports Mutex
begin

text \<open>
  Read-write semaphores (\<^verbatim>\<open>kernel/interface/SemaphoreRW*.c\<close>) and the calls on any semaphore that serve
  them too (\<^verbatim>\<open>SemaphorePost.c\<close>, \<^verbatim>\<open>SemaphoreDelete.c\<close>, \<^verbatim>\<open>SemaphoreGetName.c\<close>, \<^verbatim>\<open>SemaphorePostPend.c\<close>). The event
  counts the readers inside, or is one for the writer; \<open>EVENT_iStatus\<close> tells which, \<open>EVENT_pvTcbOwn\<close> is the
  writer and \<open>EVENT_pvPtr\<close> how often it has entered again. Readers and writers wait in two queues.
\<close>

abbreviation EVENT_RW_Q_R :: nat where "EVENT_RW_Q_R \<equiv> 0"
abbreviation EVENT_RW_Q_W :: nat where "EVENT_RW_Q_W \<equiv> 1"
abbreviation EVENT_RW_STATUS_R :: nat where "EVENT_RW_STATUS_R \<equiv> 0"
abbreviation EVENT_RW_STATUS_W :: nat where "EVENT_RW_STATUS_W \<equiv> 1"
abbreviation LW_TYPE_EVENT_SEMRW :: u8 where "LW_TYPE_EVENT_SEMRW \<equiv> 1"
abbreviation OBJECT_SEM_RW :: u8 where "OBJECT_SEM_RW \<equiv> 6"
abbreviation LW_OPTION_RW_PREFER_WRITER :: ulong where "LW_OPTION_RW_PREFER_WRITER \<equiv> 0x00400000"

section \<open>Entering\<close>

definition semRW_safe :: "nat \<Rightarrow> tid \<Rightarrow> kernel \<Rightarrow> kernel" where
  "semRW_safe pevent ptcb k =
     (if EVENT_ulOption (K_eventBuffer k pevent) AND LW_OPTION_DELETE_SAFE \<noteq> 0 then ThreadSafeInKern ptcb k else k)"

text \<open>The parts of the two calls that do not wait; no result means that the thread has to.\<close>

definition semRW_tryR :: "nat \<Rightarrow> tid \<Rightarrow> ulong \<Rightarrow> kernel \<Rightarrow> (ulong \<times> kernel) option" where
  "semRW_tryR pevent ptcbCur ulTimeout k =
     (if EVENT_iStatus (K_eventBuffer k pevent) = EVENT_RW_STATUS_R \<and> EventWaitNum EVENT_RW_Q_W pevent k = 0 then
        let k = set_counter pevent (EVENT_ulCounter (K_eventBuffer k pevent) + 1) k
        in Some (ERROR_NONE, semRW_safe pevent ptcbCur k)
      else if ulTimeout = LW_OPTION_NOT_WAIT then Some (ERROR_THREAD_WAIT_TIMEOUT, k)
      else None)"

definition semRW_tryW :: "nat \<Rightarrow> tid \<Rightarrow> ulong \<Rightarrow> kernel \<Rightarrow> (ulong \<times> kernel) option" where
  "semRW_tryW pevent ptcbCur ulTimeout k =
     (if EVENT_ulCounter (K_eventBuffer k pevent) = 0 then
        let k = event_upd pevent (\<lambda>v. v\<lparr>EVENT_ulCounter := EVENT_ulCounter v + 1, EVENT_iStatus := EVENT_RW_STATUS_W,
                  EVENT_pvTcbOwn := Some ptcbCur\<rparr>) k
        in Some (ERROR_NONE, semRW_safe pevent ptcbCur k)
      else if EVENT_pvTcbOwn (K_eventBuffer k pevent) = Some ptcbCur then
        Some (ERROR_NONE, event_upd pevent (\<lambda>v. v\<lparr>EVENT_pvPtr := EVENT_pvPtr v + 1\<rparr>) k)
      else if ulTimeout = LW_OPTION_NOT_WAIT then Some (ERROR_THREAD_WAIT_TIMEOUT, k)
      else None)"

text \<open>
  The loop from \<^verbatim>\<open>__wait_again\<close>, which the two calls share but for what is tried and the queue; each
  round uses up an absence of the thread.
\<close>

function semRW_pend ::
  "(nat \<Rightarrow> tid \<Rightarrow> ulong \<Rightarrow> kernel \<Rightarrow> (ulong \<times> kernel) option) \<Rightarrow> nat \<Rightarrow> ulong \<Rightarrow> tid \<Rightarrow> ulong \<Rightarrow> env \<Rightarrow> kernel \<Rightarrow> (ulong \<times> env \<times> kernel) option" where
  "semRW_pend attempt iQ ulId ptcbCur ulTimeout env k =
     (let usIndex = unat (ObjectGetIndex ulId) in
      if \<not> ObjectClassOK ulId OBJECT_SEM_RW then Some (ERROR_KERNEL_HANDLE_NULL, env, ErrorHandle ERROR_KERNEL_HANDLE_NULL k)
      else if Event_Index_Invalid usIndex then Some (ERROR_KERNEL_HANDLE_NULL, env, ErrorHandle ERROR_KERNEL_HANDLE_NULL k)
      else if K_ucSysStatus k \<noteq> LW_SYS_STATUS_RUNNING then Some (ERROR_NONE, env, k)
      else
        let k = kernelEnter k in
        if Event_Type_Invalid usIndex LW_TYPE_EVENT_SEMRW k then
          map_option (\<lambda>(_, env, k). (ERROR_EVENT_TYPE, env, ErrorHandle ERROR_EVENT_TYPE k)) (kernelExit env k)
        else
          (case attempt usIndex ptcbCur ulTimeout k of
             Some (ulError, k) \<Rightarrow> map_option (\<lambda>(_, env, k). (ulError, env, ErrorHandle ulError k)) (kernelExit env k)
           | None \<Rightarrow>
               let ulTimeSave = K_i64KernelTime k;
                   k = ev_block usIndex iQ LW_THREAD_STATUS_SEM ulTimeout k;
                   ulEventOption = EVENT_ulOption (K_eventBuffer k usIndex)
               in (case kernelExit env k of
                     None \<Rightarrow> None
                   | Some (iSchedRet, env', k) \<Rightarrow>
                       if iSchedRet \<noteq> 0 then
                         if iSchedRet = LW_SIGNAL_EINTR \<and> ulEventOption AND LW_OPTION_SIGNAL_INTER \<noteq> 0 then
                           Some (EINTR, env', ErrorHandle EINTR k)
                         else
                           let ulTimeout = sigTimeoutRecalc ulTimeSave ulTimeout k in
                           if ulTimeout = LW_OPTION_NOT_WAIT then
                             Some (ERROR_THREAD_WAIT_TIMEOUT, env', ErrorHandle ERROR_THREAD_WAIT_TIMEOUT k)
                           else if length env' < length env then semRW_pend attempt iQ ulId ptcbCur ulTimeout env' k
                           else None
                       else
                         let ulError = pend_result ptcbCur k
                         in Some (ulError, env', ErrorHandle ulError k))))"
  by pat_completeness auto
termination by (relation "measure (\<lambda>(_, _, _, _, _, env, _). length env)") auto

declare semRW_pend.simps [simp del]

definition SemaphoreRWPendR :: "ulong \<Rightarrow> ulong \<Rightarrow> env \<Rightarrow> kernel \<Rightarrow> (ulong \<times> env \<times> kernel) option" where
  "SemaphoreRWPendR ulId ulTimeout env k =
     (if CpuGetNesting k \<noteq> 0 then Some (ERROR_KERNEL_IN_ISR, env, ErrorHandle ERROR_KERNEL_IN_ISR k)
      else semRW_pend semRW_tryR EVENT_RW_Q_R ulId (LW_TCB_GET_CUR k) ulTimeout env k)"

definition SemaphoreRWPendW :: "ulong \<Rightarrow> ulong \<Rightarrow> env \<Rightarrow> kernel \<Rightarrow> (ulong \<times> env \<times> kernel) option" where
  "SemaphoreRWPendW ulId ulTimeout env k =
     (if CpuGetNesting k \<noteq> 0 then Some (ERROR_KERNEL_IN_ISR, env, ErrorHandle ERROR_KERNEL_IN_ISR k)
      else semRW_pend semRW_tryW EVENT_RW_Q_W ulId (LW_TCB_GET_CUR k) ulTimeout env k)"

section \<open>Leaving\<close>

text \<open>One round of the loop that lets the readers in.\<close>

definition semRW_wake_reader :: "nat \<Rightarrow> kernel \<Rightarrow> kernel" where
  "semRW_wake_reader pevent k =
     (case ev_ready_low pevent EVENT_RW_Q_R 0 k of
        (None, k) \<Rightarrow> k
      | (Some ptcb, k) \<Rightarrow>
          let k = set_counter pevent (EVENT_ulCounter (K_eventBuffer k pevent) + 1) k;
              k = EventReadyHighLevel ptcb LW_THREAD_STATUS_SEM LW_SCHED_ACT_OTHER k
          in semRW_safe pevent ptcb k)"

partial_function (option) semRW_wake_readers :: "nat \<Rightarrow> kernel \<Rightarrow> kernel option" where
  [code]: "semRW_wake_readers pevent k =
     (if EventWaitNum EVENT_RW_Q_R pevent k = 0 then Some k else semRW_wake_readers pevent (semRW_wake_reader pevent k))"

text \<open>The part from \<^verbatim>\<open>__release_pend\<close>: the first writer, or all readers, or nobody.\<close>

definition semRW_release :: "nat \<Rightarrow> bool \<Rightarrow> kernel \<Rightarrow> kernel option" where
  "semRW_release pevent bIgnWrite k =
     (if EventWaitNum EVENT_RW_Q_W pevent k \<noteq> 0 \<and> \<not> bIgnWrite then
        (case ev_ready_low pevent EVENT_RW_Q_W 0 k of
           (None, k) \<Rightarrow> Some k
         | (Some ptcb, k) \<Rightarrow>
             let k = EventReadyHighLevel ptcb LW_THREAD_STATUS_SEM LW_SCHED_ACT_INTERRUPT k;
                 k = event_upd pevent (\<lambda>v. v\<lparr>EVENT_pvTcbOwn := Some ptcb, EVENT_iStatus := EVENT_RW_STATUS_W\<rparr>) k
             in Some (semRW_safe pevent ptcb k))
      else if EventWaitNum EVENT_RW_Q_R pevent k \<noteq> 0 then
        let k = set_counter pevent (EVENT_ulCounter (K_eventBuffer k pevent) - 1) k
        in map_option (event_upd pevent (\<lambda>v. v\<lparr>EVENT_pvTcbOwn := None, EVENT_iStatus := EVENT_RW_STATUS_R\<rparr>)) (semRW_wake_readers pevent k)
      else Some (event_upd pevent (\<lambda>v. v\<lparr>EVENT_ulCounter := EVENT_ulCounter v - 1, EVENT_pvTcbOwn := None,
                   EVENT_iStatus := EVENT_RW_STATUS_R\<rparr>) k))"

text \<open>
  The body of \<^verbatim>\<open>API_SemaphoreRWPost\<close>: the error code, whether the caller has let go of the semaphore (and
  leaves the safe mode after the kernel), and the kernel.
\<close>

definition semRW_post :: "nat \<Rightarrow> tid \<Rightarrow> kernel \<Rightarrow> (ulong \<times> bool \<times> kernel) option" where
  "semRW_post pevent ptcbCur k =
     (if EVENT_ulCounter (K_eventBuffer k pevent) = 0 then Some (ERROR_EVENT_NOT_OWN, False, k)
      else if EVENT_iStatus (K_eventBuffer k pevent) = EVENT_RW_STATUS_R then
        if EVENT_ulCounter (K_eventBuffer k pevent) > 1 then
          Some (ERROR_NONE, True, set_counter pevent (EVENT_ulCounter (K_eventBuffer k pevent) - 1) k)
        else
          let bIgnWrite = (EVENT_ulOption (K_eventBuffer k pevent) AND LW_OPTION_RW_PREFER_WRITER = 0 \<and> EventWaitNum EVENT_RW_Q_R pevent k \<noteq> 0)
          in map_option (\<lambda>k. (ERROR_NONE, True, k)) (semRW_release pevent bIgnWrite k)
      else if EVENT_pvTcbOwn (K_eventBuffer k pevent) \<noteq> Some ptcbCur then Some (ERROR_EVENT_NOT_OWN, False, k)
      else if EVENT_pvPtr (K_eventBuffer k pevent) \<noteq> 0 then
        Some (ERROR_NONE, False, event_upd pevent (\<lambda>v. v\<lparr>EVENT_pvPtr := EVENT_pvPtr v - 1\<rparr>) k)
      else map_option (\<lambda>k. (ERROR_NONE, True, k)) (semRW_release pevent False k))"

definition SemaphoreRWPost :: "ulong \<Rightarrow> env \<Rightarrow> kernel \<Rightarrow> (ulong \<times> unsafe_next \<times> env \<times> kernel) option" where
  "SemaphoreRWPost ulId env k =
     (let usIndex = unat (ObjectGetIndex ulId); ptcbCur = LW_TCB_GET_CUR k in
      if CpuGetNesting k \<noteq> 0 then Some (ERROR_KERNEL_IN_ISR, Unsafe_Done, env, ErrorHandle ERROR_KERNEL_IN_ISR k)
      else if \<not> ObjectClassOK ulId OBJECT_SEM_RW then Some (ERROR_KERNEL_HANDLE_NULL, Unsafe_Done, env, ErrorHandle ERROR_KERNEL_HANDLE_NULL k)
      else if Event_Index_Invalid usIndex then Some (ERROR_KERNEL_HANDLE_NULL, Unsafe_Done, env, ErrorHandle ERROR_KERNEL_HANDLE_NULL k)
      else if K_ucSysStatus k \<noteq> LW_SYS_STATUS_RUNNING then Some (ERROR_NONE, Unsafe_Done, env, k)
      else
        let k = kernelEnter k in
        (case (if Event_Type_Invalid usIndex LW_TYPE_EVENT_SEMRW k then Some (ERROR_EVENT_TYPE, False, k) else semRW_post usIndex ptcbCur k) of
           None \<Rightarrow> None
         | Some (ulError, released, k) \<Rightarrow>
             (case kernelExit env k of
                None \<Rightarrow> None
              | Some (_, env, k) \<Rightarrow>
                  if released \<and> EVENT_ulOption (K_eventBuffer k usIndex) AND LW_OPTION_DELETE_SAFE \<noteq> 0
                  then map_option (\<lambda>(n, env, k). (ERROR_NONE, n, env, k)) (ThreadUnsafeInternal env k)
                  else Some (ulError, Unsafe_Done, env, ErrorHandle ulError k))))"

section \<open>Creating, deleting and asking\<close>

text \<open>The body of \<^verbatim>\<open>API_SemaphoreRWDelete\<close>; its result is the writer, if there is one that still exists.\<close>

definition semRW_delete :: "nat \<Rightarrow> kernel \<Rightarrow> (tid option \<times> kernel) option" where
  "semRW_delete pevent k = do {
     let k = event_upd pevent (\<lambda>e. e\<lparr>EVENT_ucType := LW_TYPE_EVENT_UNUSED\<rparr>) k;
     k \<leftarrow> ev_wake_all pevent EVENT_RW_Q_R True LW_THREAD_STATUS_SEM LW_SCHED_ACT_OTHER k;
     k \<leftarrow> ev_wake_all pevent EVENT_RW_Q_W True LW_THREAD_STATUS_SEM LW_SCHED_ACT_OTHER k;
     let own = EVENT_pvTcbOwn (K_eventBuffer k pevent);
     let k = event_upd pevent (\<lambda>e. e\<lparr>EVENT_pvTcbOwn := None\<rparr>) k;
     let own = (case own of None \<Rightarrow> None
                | Some ptcb \<Rightarrow> if K_ptcbTCBIdTable k (unat (TCB_usIndex (K_tcb k ptcb))) = Some ptcb then Some ptcb else None);
     Some (own, Free_Event_Object pevent k) }"

definition SemaphoreRWDelete :: "ulong \<Rightarrow> env \<Rightarrow> kernel \<Rightarrow> (ulong \<times> ulong \<times> unsafe_next \<times> env \<times> kernel) option" where
  "SemaphoreRWDelete pulId env k =
     (let usIndex = unat (ObjectGetIndex pulId) in
      if CpuGetNesting k \<noteq> 0 then Some (ERROR_KERNEL_IN_ISR, pulId, Unsafe_Done, env, ErrorHandle ERROR_KERNEL_IN_ISR k)
      else if \<not> ObjectClassOK pulId OBJECT_SEM_RW then Some (ERROR_KERNEL_HANDLE_NULL, pulId, Unsafe_Done, env, ErrorHandle ERROR_KERNEL_HANDLE_NULL k)
      else if Event_Index_Invalid usIndex then Some (ERROR_KERNEL_HANDLE_NULL, pulId, Unsafe_Done, env, ErrorHandle ERROR_KERNEL_HANDLE_NULL k)
      else
        let k = kernelEnterIrq k in
        if Event_Type_Invalid usIndex LW_TYPE_EVENT_SEMRW k then
          map_option (\<lambda>(_, env, k). (ERROR_EVENT_TYPE, pulId, Unsafe_Done, env, ErrorHandle ERROR_EVENT_TYPE k)) (kernelExitIrq env k)
        else
          (case semRW_delete usIndex k of
             None \<Rightarrow> None
           | Some (own, k) \<Rightarrow>
               let ulOptionTemp = EVENT_ulOption (K_eventBuffer k usIndex) in
               (case kernelExitIrq env k of
                  None \<Rightarrow> None
                | Some (_, env, k) \<Rightarrow>
                    (case own of
                       Some ptcb \<Rightarrow>
                         if ulOptionTemp AND LW_OPTION_DELETE_SAFE \<noteq> 0
                         then map_option (\<lambda>(n, env, k). (ERROR_NONE, 0, n, env, k)) (ThreadUnsafeInternalEx ptcb env k)
                         else Some (ERROR_NONE, 0, Unsafe_Done, env, k)
                     | None \<Rightarrow> Some (ERROR_NONE, 0, Unsafe_Done, env, k)))))"

text \<open>The count, the waiting readers and writers, the options and the handle of the writer.\<close>

definition SemaphoreRWStatus :: "ulong \<Rightarrow> env \<Rightarrow> kernel \<Rightarrow> (ulong \<times> (ulong \<times> ulong \<times> ulong \<times> ulong \<times> ulong) option \<times> env \<times> kernel) option" where
  "SemaphoreRWStatus ulId = event_section OBJECT_SEM_RW LW_TYPE_EVENT_SEMRW ulId None
     (\<lambda>e k. let v = K_eventBuffer k e;
               own = (if EVENT_iStatus v = EVENT_RW_STATUS_W then map_option (\<lambda>t. TCB_ulId (K_tcb k t)) (EVENT_pvTcbOwn v) else Some 0)
           in case own of
                None \<Rightarrow> Some (ERROR_NONE, None, bug k)
              | Some ulOwnerId \<Rightarrow> Some (ERROR_NONE, Some (EVENT_ulCounter v, ucast (EventWaitNum EVENT_RW_Q_R e k),
                  ucast (EventWaitNum EVENT_RW_Q_W e k), EVENT_ulOption v, ulOwnerId), k))"

definition SemaphoreRWCreate :: "string option \<Rightarrow> ulong \<Rightarrow> env \<Rightarrow> kernel \<Rightarrow> (ulong \<times> env \<times> kernel) option" where
  "SemaphoreRWCreate pcName ulOption env k =
     (if CpuGetNesting k \<noteq> 0 then Some (LW_OBJECT_HANDLE_INVALID, env, ErrorHandle ERROR_KERNEL_IN_ISR k)
      else event_create OBJECT_SEM_RW pcName
        (\<lambda>v. v\<lparr>EVENT_ucType := LW_TYPE_EVENT_SEMRW, EVENT_ulCounter := 0, EVENT_ulMaxCounter := 0, EVENT_ulOption := ulOption,
           EVENT_iStatus := EVENT_RW_STATUS_R\<rparr>) env k)"

section \<open>Calls on any semaphore\<close>

definition SemaphorePost :: "ulong \<Rightarrow> env \<Rightarrow> kernel \<Rightarrow> (ulong \<times> unsafe_next \<times> env \<times> kernel) option" where
  "SemaphorePost ulId env k =
     (let ulObjectClass = ObjectGetClass ulId; done = map_option (\<lambda>(r, env, k). (r, Unsafe_Done, env, k)) in
      if ulObjectClass = ucast OBJECT_SEM_B then done (SemaphoreBPost ulId env k)
      else if ulObjectClass = ucast OBJECT_SEM_C then done (SemaphoreCPost ulId env k)
      else if ulObjectClass = ucast OBJECT_SEM_M then SemaphoreMPost ulId env k
      else if ulObjectClass = ucast OBJECT_SEM_RW then SemaphoreRWPost ulId env k
      else Some (ERROR_KERNEL_HANDLE_NULL, Unsafe_Done, env, ErrorHandle ERROR_KERNEL_HANDLE_NULL k))"

definition SemaphoreDelete :: "ulong \<Rightarrow> env \<Rightarrow> kernel \<Rightarrow> (ulong \<times> ulong \<times> unsafe_next \<times> env \<times> kernel) option" where
  "SemaphoreDelete pulId env k =
     (let ulObjectClass = ObjectGetClass pulId; done = map_option (\<lambda>(r, h, env, k). (r, h, Unsafe_Done, env, k)) in
      if ulObjectClass = ucast OBJECT_SEM_B then done (SemaphoreBDelete pulId env k)
      else if ulObjectClass = ucast OBJECT_SEM_C then done (SemaphoreCDelete pulId env k)
      else if ulObjectClass = ucast OBJECT_SEM_M then SemaphoreMDelete pulId env k
      else if ulObjectClass = ucast OBJECT_SEM_RW then SemaphoreRWDelete pulId env k
      else Some (ERROR_KERNEL_HANDLE_NULL, pulId, Unsafe_Done, env, ErrorHandle ERROR_KERNEL_HANDLE_NULL k))"

definition SemaphoreGetName :: "ulong \<Rightarrow> bool \<Rightarrow> env \<Rightarrow> kernel \<Rightarrow> (ulong \<times> string option \<times> env \<times> kernel) option" where
  "SemaphoreGetName ulId pcName env k =
     (let usIndex = unat (ObjectGetIndex ulId) in
      if CpuGetNesting k \<noteq> 0 then Some (ERROR_KERNEL_IN_ISR, None, env, ErrorHandle ERROR_KERNEL_IN_ISR k)
      else if \<not> pcName then Some (ERROR_KERNEL_PNAME_NULL, None, env, ErrorHandle ERROR_KERNEL_PNAME_NULL k)
      else if Event_Index_Invalid usIndex then Some (ERROR_KERNEL_HANDLE_NULL, None, env, ErrorHandle ERROR_KERNEL_HANDLE_NULL k)
      else
        let k = kernelEnter k in
        if EVENT_ucType (K_eventBuffer k usIndex) \<notin> {LW_TYPE_EVENT_SEMC, LW_TYPE_EVENT_SEMB, LW_TYPE_EVENT_SEMRW, LW_TYPE_EVENT_MUTEX} then
          map_option (\<lambda>(_, env, k). (ERROR_EVENT_TYPE, None, env, ErrorHandle ERROR_EVENT_TYPE k)) (kernelExit env k)
        else
          let name = EVENT_cEventName (K_eventBuffer k usIndex)
          in map_option (\<lambda>(_, env, k). (ERROR_NONE, Some name, env, k)) (kernelExit env k))"

text \<open>
  \<^verbatim>\<open>API_SemaphorePostBPend\<close> and \<^verbatim>\<open>API_SemaphorePostCPend\<close> give one semaphore and wait for another in one section, so that
  nobody comes in between; \<open>use\<close> is what a unit does to the count. The loop from \<^verbatim>\<open>__wait_again\<close> is
  entered inside the section. When giving a mutex makes the thread carry out a deletion or a restart
  (not part of the model), the rest of the call is left open.
\<close>

function sem_post_wait ::
  "u8 \<Rightarrow> u8 \<Rightarrow> (ulong \<Rightarrow> ulong) \<Rightarrow> ulong \<Rightarrow> tid \<Rightarrow> ulong \<Rightarrow> env \<Rightarrow> kernel \<Rightarrow> (ulong \<times> env \<times> kernel) option" where
  "sem_post_wait cls ucType use ulId ptcbCur ulTimeout env k =
     (let usIndex = unat (ObjectGetIndex ulId);
          wait_over = (\<lambda>ulError. map_option (\<lambda>(_, env, k). (ulError, env, ErrorHandle ulError k))) in
      if \<not> ObjectClassOK ulId cls then wait_over ERROR_KERNEL_HANDLE_NULL (kernelExit env k)
      else if Event_Index_Invalid usIndex then wait_over ERROR_KERNEL_HANDLE_NULL (kernelExit env k)
      else if Event_Type_Invalid usIndex ucType k then wait_over ERROR_EVENT_TYPE (kernelExitIrq env k)
      else if EVENT_ulCounter (K_eventBuffer k usIndex) \<noteq> 0 then
        wait_over ERROR_NONE (kernelExitIrq env (set_counter usIndex (use (EVENT_ulCounter (K_eventBuffer k usIndex))) k))
      else if ulTimeout = LW_OPTION_NOT_WAIT then wait_over ERROR_THREAD_WAIT_TIMEOUT (kernelExitIrq env k)
      else
        let ulTimeSave = K_i64KernelTime k;
            k = ev_block usIndex EVENT_SEM_Q LW_THREAD_STATUS_SEM ulTimeout k;
            ulEventOption = EVENT_ulOption (K_eventBuffer k usIndex)
        in (case kernelExit env k of
              None \<Rightarrow> None
            | Some (iSchedRet, env', k) \<Rightarrow>
                if iSchedRet \<noteq> 0 then
                  if iSchedRet = LW_SIGNAL_EINTR \<and> ulEventOption AND LW_OPTION_SIGNAL_INTER \<noteq> 0 then
                    Some (EINTR, env', ErrorHandle EINTR k)
                  else
                    let ulTimeout = sigTimeoutRecalc ulTimeSave ulTimeout k in
                    if ulTimeout = LW_OPTION_NOT_WAIT then
                      Some (ERROR_THREAD_WAIT_TIMEOUT, env', ErrorHandle ERROR_THREAD_WAIT_TIMEOUT k)
                    else if length env' < length env then sem_post_wait cls ucType use ulId ptcbCur ulTimeout env' (kernelEnter k)
                    else None
                else
                  let ulError = pend_result ptcbCur k
                  in Some (ulError, env', ErrorHandle ulError k)))"
  by pat_completeness auto
termination by (relation "measure (\<lambda>(_, _, _, _, _, _, env, _). length env)") auto

declare sem_post_wait.simps [simp del]

definition sem_post_pend ::
  "u8 \<Rightarrow> u8 \<Rightarrow> (ulong \<Rightarrow> ulong) \<Rightarrow> ulong \<Rightarrow> ulong \<Rightarrow> ulong \<Rightarrow> env \<Rightarrow> kernel \<Rightarrow> (ulong \<times> unsafe_next \<times> env \<times> kernel) option" where
  "sem_post_pend cls ucType use ulIdPost ulId ulTimeout env k =
     (let ptcbCur = LW_TCB_GET_CUR k; ulObjectClass = ObjectGetClass ulIdPost in
      if CpuGetNesting k \<noteq> 0 then Some (ERROR_KERNEL_IN_ISR, Unsafe_Done, env, ErrorHandle ERROR_KERNEL_IN_ISR k)
      else if ulObjectClass \<noteq> ucast OBJECT_SEM_B \<and> ulObjectClass \<noteq> ucast OBJECT_SEM_C \<and> ulObjectClass \<noteq> ucast OBJECT_SEM_M then
        Some (ERROR_KERNEL_HANDLE_NULL, Unsafe_Done, env, ErrorHandle ERROR_KERNEL_HANDLE_NULL k)
      else if Event_Index_Invalid (unat (ObjectGetIndex ulIdPost)) then
        Some (ERROR_KERNEL_HANDLE_NULL, Unsafe_Done, env, ErrorHandle ERROR_KERNEL_HANDLE_NULL k)
      else
        (case SemaphorePost ulIdPost env (kernelEnter k) of
           None \<Rightarrow> None
         | Some (ulError, n, env, k) \<Rightarrow>
             if ulError \<noteq> 0 then map_option (\<lambda>(_, env, k). (ulError, n, env, k)) (kernelExit env k)
             else if n \<noteq> Unsafe_Done then Some (ERROR_NONE, n, env, k)
             else map_option (\<lambda>(r, env, k). (r, Unsafe_Done, env, k)) (sem_post_wait cls ucType use ulId ptcbCur ulTimeout env k)))"

definition SemaphorePostBPend :: "ulong \<Rightarrow> ulong \<Rightarrow> ulong \<Rightarrow> env \<Rightarrow> kernel \<Rightarrow> (ulong \<times> unsafe_next \<times> env \<times> kernel) option" where
  "SemaphorePostBPend = sem_post_pend OBJECT_SEM_B LW_TYPE_EVENT_SEMB (\<lambda>_. 0)"

definition SemaphorePostCPend :: "ulong \<Rightarrow> ulong \<Rightarrow> ulong \<Rightarrow> env \<Rightarrow> kernel \<Rightarrow> (ulong \<times> unsafe_next \<times> env \<times> kernel) option" where
  "SemaphorePostCPend = sem_post_pend OBJECT_SEM_C LW_TYPE_EVENT_SEMC (\<lambda>c. c - 1)"


end
