(* ===== verification/SemRWInv.thy ===== *)
theory SemRWInv
  imports SemRW MutexInv WakeLoop
begin

text \<open>
  Read-write semaphores keep the invariant of the system and implement the abstract semaphore: readers
  or one writer inside, two queues of waiting threads, and on leaving the first writer or all readers.
\<close>

section \<open>Waking with a change of the event\<close>

text \<open>The fields of an event that a change of a wait queue leaves alone.\<close>

definition rwview :: "event \<Rightarrow> u8 \<times> tid option \<times> ulong \<times> nat \<times> ulong \<times> ulong" where
  "rwview v = (EVENT_ucType v, EVENT_pvTcbOwn v, EVENT_ulCounter v, EVENT_iStatus v, EVENT_ulOption v, EVENT_pvPtr v)"

lemma rwview_wq [simp]: "rwview (K_eventBuffer (ev_wq_upd e q f k) e') = rwview (K_eventBuffer k e')"
  by (simp add: ev_wq_upd_def rwview_def)

lemma rwviewD:
  assumes "rwview v' = rwview v"
  shows "EVENT_ucType v' = EVENT_ucType v" "EVENT_pvTcbOwn v' = EVENT_pvTcbOwn v" "EVENT_ulCounter v' = EVENT_ulCounter v"
    "EVENT_iStatus v' = EVENT_iStatus v" "EVENT_ulOption v' = EVENT_ulOption v" "EVENT_pvPtr v' = EVENT_pvPtr v"
  using assms by (simp_all add: rwview_def)

definition sem_rdy :: "kernel \<Rightarrow> tid \<Rightarrow> u16" where
  "sem_rdy k t = (TCB_usStatus (K_tcb k t) AND NOT LW_THREAD_STATUS_DELAY) AND NOT LW_THREAD_STATUS_SEM"

text \<open>What decides the result of a wait that has ended.\<close>

definition rview_wait :: "tcb \<Rightarrow> u8 \<times> u8" where
  "rview_wait b = (TCB_ucWaitTimeout b, TCB_ucIsEventDelete b)"

text \<open>The first thread of the queue has been woken, and the event has changed by \<open>f\<close>.\<close>

definition rw_woken :: "tid set \<Rightarrow> tid \<Rightarrow> nat \<Rightarrow> nat \<Rightarrow> (event \<Rightarrow> event) \<Rightarrow> kernel \<Rightarrow> kernel \<Rightarrow> bool" where
  "rw_woken T t e q f k k' \<longleftrightarrow> sys_ok T k' \<and> t \<in> T \<and>
     (\<forall>e' q'. waiters k' e' q' = (if e' = e \<and> q' = q then tl (waiters k e q) else waiters k e' q')) \<and>
     (\<forall>u. TCB_usStatus (K_tcb k' u) = (if u = t then sem_rdy k t else TCB_usStatus (K_tcb k u)) \<and> rview_wait (K_tcb k' u) = rview_wait (K_tcb k u)) \<and>
     (\<forall>e'. rwview (K_eventBuffer k' e') = rwview (if e' = e then f (K_eventBuffer k e) else K_eventBuffer k e')) \<and>
     K_ncpus k' = K_ncpus k \<and> LW_TCB_GET_CUR k' = LW_TCB_GET_CUR k"

definition ev_only :: "(event \<Rightarrow> event) \<Rightarrow> bool" where
  "ev_only f \<longleftrightarrow> (\<forall>v. EVENT_ulOption (f v) = EVENT_ulOption v \<and> EVENT_wqWaitQ (f v) = EVENT_wqWaitQ v) \<and>
     (\<forall>v v'. rwview v = rwview v' \<longrightarrow> rwview (f v) = rwview (f v'))"

lemma leave_wait [simp]: "rview_wait (K_tcb (leave_wakeup_line t k) u) = rview_wait (K_tcb k u)"
  by (simp add: leave_wakeup_line_def rview_wait_def DEL_FROM_WAKEUP_LINE_def Let_def split: prod.split)

lemma High_wait:
  "TCB_ucWaitTimeout (K_tcb k t) = 0 \<Longrightarrow> rview_wait (K_tcb (EventReadyHighLevel t ty a k) u) = rview_wait (K_tcb k u)"
  using erase_tcb_fields(22) [OF High_tcb, of t ty a k u] erase_tcb_fields(23) [OF High_tcb, of t ty a k u]
  by (cases "u = t") (simp_all add: rview_wait_def)

lemma rw_wake_ok:
  assumes ok: "sys_ok T k" and w: "waiters k e q = t # ts"
  obtains k1 where "ev_ready_low e q 0 k = (Some t, k1)" "\<And>e'. rwview (K_eventBuffer k1 e') = rwview (K_eventBuffer k e')"
    "\<And>f a. ev_only f \<Longrightarrow> rw_woken T t e q f k (EventReadyHighLevel t LW_THREAD_STATUS_SEM a (event_upd e f k1))"
proof -
  obtain k1 where L: "ev_ready_low e q 0 k = (Some t, k1)" "sys_ok T (off t k1)"
    "\<And>e' q'. waiters k1 e' q' = (if e' = e \<and> q' = q then ts else waiters k e' q')"
    "TCB_usStatus (K_tcb k1 t) = TCB_usStatus (K_tcb k t) AND NOT LW_THREAD_STATUS_DELAY"
    "\<And>u. u \<noteq> t \<Longrightarrow> TCB_usStatus (K_tcb k1 u) = TCB_usStatus (K_tcb k u)" "\<not> LW_THREAD_IS_READY k1 t" "t \<in> T"
    "TCB_ucWaitTimeout (K_tcb k1 t) = 0" "K_eventBuffer k1 = K_eventBuffer (ev_wq_upd e q (wq_del_at (first_index k e q) t) k)"
    "K_ncpus k1 = K_ncpus k" "oview (K_tcb k1 t) = None" "LW_TCB_GET_CUR k1 = LW_TCB_GET_CUR k"
    using low_half [OF ok w, of 0] by metis
  have i: "ipc_ok T k" using ok by (simp add: sys_ok_def)
  have K1: "k1 = leave_wakeup_line t (tcb_upd t (\<lambda>b. b\<lparr>TCB_pvMsgBoxMessage := 0\<rparr>) (ev_wq_upd e q (wq_del_at (first_index k e q) t) k))"
    using L(1) by (simp add: ev_ready_low_eq [OF ipc_okD(3) [OF i] w])
  have rv: "rview_wait (K_tcb k1 u) = rview_wait (K_tcb k u)" for u by (simp add: K1) (simp add: rview_wait_def)
  have ev: "rwview (K_eventBuffer k1 e') = rwview (K_eventBuffer k e')" for e' by (simp add: L(9))
  have "rw_woken T t e q f k (EventReadyHighLevel t LW_THREAD_STATUS_SEM a (event_upd e f k1))" if f: "ev_only f" for f a
  proof -
    define k2 where "k2 = event_upd e f k1"
    define k' where "k' = EventReadyHighLevel t LW_THREAD_STATUS_SEM a k2"
    have fk: "EVENT_ulOption (f v) = EVENT_ulOption v" "EVENT_wqWaitQ (f v) = EVENT_wqWaitQ v" for v using f by (simp_all add: ev_only_def)
    have S2: "sys_ok T (off t k2)" unfolding k2_def by (rule half_event [OF L(2) fk])
    have w2: "waiters k2 = waiters k1" unfolding k2_def by (rule event_upd_queues [OF fk])
    have z: "TCB_ucWaitTimeout (K_tcb k2 t) = 0" "\<not> LW_THREAD_IS_READY k2 t" "oview (K_tcb k2 t) = None" "K_tcb k2 = K_tcb k1"
      using L(6,8,11) by (simp_all add: k2_def LW_THREAD_IS_READY_def)
    have "sys_ok T k'" unfolding k'_def by (rule half_ready [OF S2 L(7) z(2,1,3)]) simp_all
    moreover have "waiters k' e' q' = (if e' = e \<and> q' = q then tl (waiters k e q) else waiters k e' q')" for e' q'
    proof -
      have "waiters k' = waiters k2" by (simp add: k'_def waiters_def fun_eq_iff)
      then show ?thesis by (simp add: w2 L(3) w)
    qed
    moreover have "TCB_usStatus (K_tcb k' u) = (if u = t then sem_rdy k t else TCB_usStatus (K_tcb k u))" for u
      unfolding k'_def High_status [OF z(1)] sem_rdy_def z(4) L(4) by (simp add: L(5))
    moreover have "rview_wait (K_tcb k' u) = rview_wait (K_tcb k u)" for u
      unfolding k'_def High_wait [OF z(1)] z(4) by (rule rv)
    moreover have "rwview (K_eventBuffer k' e') = rwview (if e' = e then f (K_eventBuffer k e) else K_eventBuffer k e')" for e'
    proof -
      have "rwview (f (K_eventBuffer k1 e)) = rwview (f (K_eventBuffer k e))" using f ev [of e] unfolding ev_only_def by blast
      then show ?thesis using ev [of e'] by (simp add: k'_def k2_def)
    qed
    ultimately show ?thesis using L(7,10,12) by (simp add: rw_woken_def k'_def k2_def LW_TCB_GET_CUR_def)
  qed
  then show thesis by (rule that [OF L(1) ev])
qed
section \<open>The readers that are let in\<close>

lemma rw_wokenD:
  assumes "rw_woken T t e q f k k'"
  shows "sys_ok T k'" "t \<in> T" "waiters k' e' q' = (if e' = e \<and> q' = q then tl (waiters k e q) else waiters k e' q')"
    "TCB_usStatus (K_tcb k' u) = (if u = t then sem_rdy k t else TCB_usStatus (K_tcb k u))" "rview_wait (K_tcb k' u) = rview_wait (K_tcb k u)"
    "rwview (K_eventBuffer k' e') = rwview (if e' = e then f (K_eventBuffer k e) else K_eventBuffer k e')"
    "K_ncpus k' = K_ncpus k" "LW_TCB_GET_CUR k' = LW_TCB_GET_CUR k"
  using assms unfolding rw_woken_def by blast+

lemma safe_wait [simp]: "rview_wait (K_tcb (ThreadSafeInKern t k) u) = rview_wait (K_tcb k u)"
  by (simp add: rview_wait_def)

lemma semRW_safe_sel [simp]:
  "K_eventBuffer (semRW_safe e t k) = K_eventBuffer k" "K_ncpus (semRW_safe e t k) = K_ncpus k" "waiters (semRW_safe e t k) = waiters k"
  "TCB_usStatus (K_tcb (semRW_safe e t k) u) = TCB_usStatus (K_tcb k u)" "rview_wait (K_tcb (semRW_safe e t k) u) = rview_wait (K_tcb k u)"
  "LW_TCB_GET_CUR (semRW_safe e t k) = LW_TCB_GET_CUR k" "sys_ok T k \<Longrightarrow> sys_ok T (semRW_safe e t k)"
  by (simp_all add: semRW_safe_def sys_ok_safe)

lemma rw_woken_safe: "rw_woken T t e q f k k' \<Longrightarrow> rw_woken T t e q f k (semRW_safe e' t' k')"
  by (simp add: rw_woken_def)

lemma rw_wake_reader_ok:
  assumes ok: "sys_ok T k" and w: "waiters k e EVENT_RW_Q_R = t # ts"
  shows "rw_woken T t e EVENT_RW_Q_R (\<lambda>v. v\<lparr>EVENT_ulCounter := EVENT_ulCounter (K_eventBuffer k e) + 1\<rparr>) k (semRW_wake_reader e k)"
proof -
  let ?f = "\<lambda>v. v\<lparr>EVENT_ulCounter := EVENT_ulCounter (K_eventBuffer k e) + 1\<rparr>"
  obtain k1 where L: "ev_ready_low e EVENT_RW_Q_R 0 k = (Some t, k1)" "\<And>e'. rwview (K_eventBuffer k1 e') = rwview (K_eventBuffer k e')"
    "\<And>f a. ev_only f \<Longrightarrow> rw_woken T t e EVENT_RW_Q_R f k (EventReadyHighLevel t LW_THREAD_STATUS_SEM a (event_upd e f k1))"
    using rw_wake_ok [OF ok w] by blast
  have f: "ev_only ?f" by (simp add: ev_only_def rwview_def)
  have c: "EVENT_ulCounter (K_eventBuffer k1 e) = EVENT_ulCounter (K_eventBuffer k e)" by (rule rwviewD(3) [OF L(2)])
  have "semRW_wake_reader e k = semRW_safe e t (EventReadyHighLevel t LW_THREAD_STATUS_SEM LW_SCHED_ACT_OTHER (event_upd e ?f k1))"
    unfolding semRW_wake_reader_def L(1) by (simp add: c set_counter_def)
  then show ?thesis using rw_woken_safe [OF L(3) [OF f]] by simp
qed

definition rw_keeps :: "tid set \<Rightarrow> nat \<Rightarrow> kernel \<Rightarrow> kernel \<Rightarrow> bool" where
  "rw_keeps T e k0 k \<longleftrightarrow> sys_ok T k \<and> (\<forall>e' q'. (e', q') \<noteq> (e, EVENT_RW_Q_R) \<longrightarrow> waiters k e' q' = waiters k0 e' q') \<and>
     (\<forall>e'. e' \<noteq> e \<longrightarrow> rwview (K_eventBuffer k e') = rwview (K_eventBuffer k0 e')) \<and>
     rwview (K_eventBuffer k e) = rwview ((K_eventBuffer k0 e)\<lparr>EVENT_ulCounter := EVENT_ulCounter (K_eventBuffer k0 e) +
       of_nat (length (waiters k0 e EVENT_RW_Q_R)) - of_nat (length (waiters k e EVENT_RW_Q_R))\<rparr>) \<and>
     K_ncpus k = K_ncpus k0 \<and> LW_TCB_GET_CUR k = LW_TCB_GET_CUR k0"

lemma rw_keeps_refl: "sys_ok T k \<Longrightarrow> rw_keeps T e k k"
  by (simp add: rw_keeps_def)

lemma rw_keeps_queue:
  assumes "sys_ok T k"
  shows "EventWaitNum q e k \<noteq> 0 \<longleftrightarrow> waiters k e q \<noteq> []" "distinct (waiters k e q)"
proof -
  have i: "ipc_ok T k" using assms by (simp add: sys_ok_def)
  show "EventWaitNum q e k \<noteq> 0 \<longleftrightarrow> waiters k e q \<noteq> []" using wait_num [OF i] by simp
  show "distinct (waiters k e q)" by (rule wait_okD(5) [OF ipc_okD(3) [OF i]])
qed

lemma rw_keeps_woken:
  assumes K: "rw_keeps T e k0 k" and w: "waiters k e EVENT_RW_Q_R = t # ts"
    and R: "rw_woken T t e EVENT_RW_Q_R (\<lambda>v. v\<lparr>EVENT_ulCounter := EVENT_ulCounter (K_eventBuffer k e) + 1\<rparr>) k k'"
  shows "rw_keeps T e k0 k'"
proof -
  note W = rw_wokenD [OF R]
  have ts: "waiters k' e EVENT_RW_Q_R = ts" unfolding W(3) w by simp
  have v: "rwview (K_eventBuffer k e) = rwview ((K_eventBuffer k0 e)\<lparr>EVENT_ulCounter := EVENT_ulCounter (K_eventBuffer k0 e) +
       of_nat (length (waiters k0 e EVENT_RW_Q_R)) - of_nat (length (t # ts))\<rparr>)" using K w unfolding rw_keeps_def by simp
  have "rwview (K_eventBuffer k' e) = rwview ((K_eventBuffer k e)\<lparr>EVENT_ulCounter := EVENT_ulCounter (K_eventBuffer k e) + 1\<rparr>)" using W(6) [of e] by simp
  also have "\<dots> = rwview ((K_eventBuffer k0 e)\<lparr>EVENT_ulCounter := EVENT_ulCounter (K_eventBuffer k0 e) +
       of_nat (length (waiters k0 e EVENT_RW_Q_R)) - of_nat (length ts)\<rparr>)" using v by (simp add: rwview_def)
  finally have c: "rwview (K_eventBuffer k' e) = rwview ((K_eventBuffer k0 e)\<lparr>EVENT_ulCounter := EVENT_ulCounter (K_eventBuffer k0 e) +
       of_nat (length (waiters k0 e EVENT_RW_Q_R)) - of_nat (length ts)\<rparr>)" .
  show ?thesis unfolding rw_keeps_def ts
  proof (intro conjI allI impI)
    show "waiters k' e' q' = waiters k0 e' q'" if "(e', q') \<noteq> (e, EVENT_RW_Q_R)" for e' q'
      using W(3) [of e' q'] K that unfolding rw_keeps_def by auto
    show "rwview (K_eventBuffer k' e') = rwview (K_eventBuffer k0 e')" if "e' \<noteq> e" for e' using W(6) [of e'] K that unfolding rw_keeps_def by simp
    show "K_ncpus k' = K_ncpus k0" "LW_TCB_GET_CUR k' = LW_TCB_GET_CUR k0" using W(7,8) K unfolding rw_keeps_def by simp_all
  qed (use W(1) c in simp_all)
qed

interpretation rdrs: wake_loop "rw_keeps T e k0" "\<lambda>k. waiters k e EVENT_RW_Q_R" "\<lambda>k. EventWaitNum EVENT_RW_Q_R e k \<noteq> 0"
  "semRW_wake_reader e" "semRW_wake_readers e"
  "\<lambda>k t. (TCB_usStatus (K_tcb k t), rview_wait (K_tcb k t))" "\<lambda>k t. (sem_rdy k t, rview_wait (K_tcb k t))"
  for T e k0
proof unfold_locales
  fix k :: kernel and t u :: tid and ts
  show "semRW_wake_readers e k = (if EventWaitNum EVENT_RW_Q_R e k \<noteq> 0 then semRW_wake_readers e (semRW_wake_reader e k) else Some k)"
    by (subst semRW_wake_readers.simps) simp
  assume K: "rw_keeps T e k0 k"
  have ok: "sys_ok T k" using K by (simp add: rw_keeps_def)
  show "(EventWaitNum EVENT_RW_Q_R e k \<noteq> 0) = (waiters k e EVENT_RW_Q_R \<noteq> [])" "distinct (waiters k e EVENT_RW_Q_R)" by (rule rw_keeps_queue [OF ok])+
  assume w: "waiters k e EVENT_RW_Q_R = t # ts"
  note R = rw_wake_reader_ok [OF ok w]
  note W = rw_wokenD [OF R]
  have "waiters (semRW_wake_reader e k) e EVENT_RW_Q_R = ts" unfolding W(3) w by simp
  then show "rw_keeps T e k0 (semRW_wake_reader e k) \<and> waiters (semRW_wake_reader e k) e EVENT_RW_Q_R = ts" using rw_keeps_woken [OF K w R] by blast
  show "(TCB_usStatus (K_tcb (semRW_wake_reader e k) u), rview_wait (K_tcb (semRW_wake_reader e k) u)) =
      (if u = t then (sem_rdy k t, rview_wait (K_tcb k t)) else (TCB_usStatus (K_tcb k u), rview_wait (K_tcb k u)))"
    unfolding W(4,5) by simp
  assume "u \<noteq> t"
  then show "(sem_rdy (semRW_wake_reader e k) u, rview_wait (K_tcb (semRW_wake_reader e k) u)) = (sem_rdy k u, rview_wait (K_tcb k u))"
    unfolding sem_rdy_def W(4,5) by simp
qed

section \<open>The abstract semaphore\<close>

record rw_spec =
  rw_writing :: bool
  rw_count :: ulong
  rw_own :: "tid option"
  rw_depth :: ulong
  rw_readq :: "tid list"
  rw_writeq :: "tid list"

definition rw_abs :: "kernel \<Rightarrow> nat \<Rightarrow> rw_spec" where
  "rw_abs k e = \<lparr>rw_writing = (EVENT_iStatus (K_eventBuffer k e) \<noteq> EVENT_RW_STATUS_R), rw_count = EVENT_ulCounter (K_eventBuffer k e),
     rw_own = EVENT_pvTcbOwn (K_eventBuffer k e), rw_depth = EVENT_pvPtr (K_eventBuffer k e),
     rw_readq = waiters k e EVENT_RW_Q_R, rw_writeq = waiters k e EVENT_RW_Q_W\<rparr>"

text \<open>The last one leaves: the first writer comes in (unless writers are passed over), or all readers do.\<close>

definition spec_rw_release :: "bool \<Rightarrow> rw_spec \<Rightarrow> rw_spec" where
  "spec_rw_release ign s =
     (if rw_writeq s \<noteq> [] \<and> \<not> ign then s\<lparr>rw_writing := True, rw_own := Some (hd (rw_writeq s)), rw_writeq := tl (rw_writeq s)\<rparr>
      else s\<lparr>rw_writing := False, rw_own := None, rw_count := rw_count s - 1 + of_nat (length (rw_readq s)), rw_readq := []\<rparr>)"

definition spec_rw_in :: "bool \<Rightarrow> rw_spec \<Rightarrow> tid set" where
  "spec_rw_in ign s = (if rw_writeq s \<noteq> [] \<and> \<not> ign then {hd (rw_writeq s)} else set (rw_readq s))"

text \<open>Leaving: the error code, whether the caller is out, who comes in, the semaphore; \<open>pw\<close> is the preference of writers.\<close>

definition spec_rw_post :: "bool \<Rightarrow> tid \<Rightarrow> rw_spec \<Rightarrow> ulong \<times> bool \<times> tid set \<times> rw_spec" where
  "spec_rw_post pw c s =
     (if rw_count s = 0 then (ERROR_EVENT_NOT_OWN, False, {}, s)
      else if \<not> rw_writing s then
        if rw_count s > 1 then (ERROR_NONE, True, {}, s\<lparr>rw_count := rw_count s - 1\<rparr>)
        else let ign = (\<not> pw \<and> rw_readq s \<noteq> []) in (ERROR_NONE, True, spec_rw_in ign s, spec_rw_release ign s)
      else if rw_own s \<noteq> Some c then (ERROR_EVENT_NOT_OWN, False, {}, s)
      else if rw_depth s \<noteq> 0 then (ERROR_NONE, False, {}, s\<lparr>rw_depth := rw_depth s - 1\<rparr>)
      else (ERROR_NONE, True, spec_rw_in False s, spec_rw_release False s))"

definition spec_rw_read :: "ulong \<Rightarrow> rw_spec \<Rightarrow> (ulong \<times> rw_spec) option" where
  "spec_rw_read to s = (if \<not> rw_writing s \<and> rw_writeq s = [] then Some (ERROR_NONE, s\<lparr>rw_count := rw_count s + 1\<rparr>)
     else if to = LW_OPTION_NOT_WAIT then Some (ERROR_THREAD_WAIT_TIMEOUT, s) else None)"

definition spec_rw_write :: "tid \<Rightarrow> ulong \<Rightarrow> rw_spec \<Rightarrow> (ulong \<times> rw_spec) option" where
  "spec_rw_write c to s = (if rw_count s = 0 then Some (ERROR_NONE, s\<lparr>rw_writing := True, rw_own := Some c, rw_count := 1\<rparr>)
     else if rw_own s = Some c then Some (ERROR_NONE, s\<lparr>rw_depth := rw_depth s + 1\<rparr>)
     else if to = LW_OPTION_NOT_WAIT then Some (ERROR_THREAD_WAIT_TIMEOUT, s) else None)"

text \<open>Exactly the threads of \<open>A\<close> have been woken.\<close>

definition rw_let_in :: "tid set \<Rightarrow> kernel \<Rightarrow> kernel \<Rightarrow> bool" where
  "rw_let_in A k k' \<longleftrightarrow> (\<forall>u. TCB_usStatus (K_tcb k' u) = (if u \<in> A then sem_rdy k u else TCB_usStatus (K_tcb k u)) \<and> rview_wait (K_tcb k' u) = rview_wait (K_tcb k u))"

lemma event_upd_waiters [simp]:
  "waiters (event_upd e (\<lambda>v. v\<lparr>EVENT_pvTcbOwn := x, EVENT_iStatus := y\<rparr>) k) = waiters k"
  "waiters (event_upd e (\<lambda>v. v\<lparr>EVENT_ulCounter := g v, EVENT_pvTcbOwn := x, EVENT_iStatus := y\<rparr>) k) = waiters k"
  "waiters (event_upd e (\<lambda>v. v\<lparr>EVENT_ulCounter := g v, EVENT_iStatus := y, EVENT_pvTcbOwn := x\<rparr>) k) = waiters k"
  "waiters (event_upd e (\<lambda>v. v\<lparr>EVENT_pvPtr := g v\<rparr>) k) = waiters k"
  by (rule event_upd_queues; simp)+

definition rw_frame :: "nat \<Rightarrow> kernel \<Rightarrow> kernel \<Rightarrow> bool" where
  "rw_frame e k k' \<longleftrightarrow> EVENT_ucType (K_eventBuffer k' e) = EVENT_ucType (K_eventBuffer k e) \<and> EVENT_ulOption (K_eventBuffer k' e) = EVENT_ulOption (K_eventBuffer k e) \<and>
     K_ncpus k' = K_ncpus k \<and> LW_TCB_GET_CUR k' = LW_TCB_GET_CUR k"

lemma release_writer:
  assumes ok: "sys_ok T k" and w: "waiters k e EVENT_RW_Q_W = t # ts"
  shows "\<exists>k'. semRW_release e False k = Some k' \<and> sys_ok T k' \<and> rw_abs k' e = spec_rw_release False (rw_abs k e) \<and> rw_let_in {t} k k' \<and> rw_frame e k k'"
proof -
  obtain k1 where L: "ev_ready_low e EVENT_RW_Q_W 0 k = (Some t, k1)" "\<And>e'. rwview (K_eventBuffer k1 e') = rwview (K_eventBuffer k e')"
    "\<And>f a. ev_only f \<Longrightarrow> rw_woken T t e EVENT_RW_Q_W f k (EventReadyHighLevel t LW_THREAD_STATUS_SEM a (event_upd e f k1))"
    using rw_wake_ok [OF ok w] by blast
  have id: "ev_only (\<lambda>v. v)" by (simp add: ev_only_def)
  define k2 where "k2 = EventReadyHighLevel t LW_THREAD_STATUS_SEM LW_SCHED_ACT_INTERRUPT k1"
  have i: "event_upd e (\<lambda>v. v) k1 = k1" by (simp add: event_upd_def)
  have R: "rw_woken T t e EVENT_RW_Q_W (\<lambda>v. v) k k2" using L(3) [OF id, of LW_SCHED_ACT_INTERRUPT] unfolding i k2_def .
  note W = rw_wokenD [OF R]
  let ?k = "event_upd e (\<lambda>v. v\<lparr>EVENT_pvTcbOwn := Some t, EVENT_iStatus := EVENT_RW_STATUS_W\<rparr>) k2"
  have n: "EventWaitNum EVENT_RW_Q_W e k \<noteq> 0" using rw_keeps_queue(1) [OF ok, of EVENT_RW_Q_W e, unfolded w] by simp
  have E: "semRW_release e False k = Some (semRW_safe e t ?k)" unfolding semRW_release_def L(1) using n by (simp add: k2_def)
  have ok': "sys_ok T (semRW_safe e t ?k)" by (rule semRW_safe_sel(7), rule sys_ok_event [OF W(1)]) simp_all
  have v: "rwview (K_eventBuffer k2 e) = rwview (K_eventBuffer k e)" using W(6) [of e] by simp
  have q: "waiters k2 e EVENT_RW_Q_R = waiters k e EVENT_RW_Q_R" "waiters k2 e EVENT_RW_Q_W = ts" unfolding W(3) w by simp_all
  have A: "rw_abs (semRW_safe e t ?k) e = spec_rw_release False (rw_abs k e)"
    unfolding rw_abs_def spec_rw_release_def semRW_safe_sel event_upd_waiters q w using rwviewD [OF v] by simp
  have B: "rw_let_in {t} k (semRW_safe e t ?k)" using W(4,5) by (simp add: rw_let_in_def)
  have "LW_TCB_GET_CUR ?k = LW_TCB_GET_CUR k" using W(8) by (simp add: LW_TCB_GET_CUR_def)
  then have F: "rw_frame e k (semRW_safe e t ?k)" using rwviewD [OF v] W(7) by (simp add: rw_frame_def)
  show ?thesis using E ok' A B F by blast
qed

lemma release_readers:
  assumes ok: "sys_ok T k" and n: "EventWaitNum EVENT_RW_Q_W e k = 0 \<or> ign"
  shows "\<exists>k'. semRW_release e ign k = Some k' \<and> sys_ok T k' \<and> rw_abs k' e = spec_rw_release ign (rw_abs k e) \<and>
    rw_let_in (set (waiters k e EVENT_RW_Q_R)) k k' \<and> rw_frame e k k'"
proof -
  have nw: "rw_writeq (rw_abs k e) = [] \<or> ign" using n rw_keeps_queue(1) [OF ok, of EVENT_RW_Q_W e] by (auto simp: rw_abs_def)
  have qR: "EventWaitNum EVENT_RW_Q_R e k \<noteq> 0 \<longleftrightarrow> waiters k e EVENT_RW_Q_R \<noteq> []" by (rule rw_keeps_queue(1) [OF ok])
  show ?thesis
  proof (cases "waiters k e EVENT_RW_Q_R = []")
    case True
    let ?k = "event_upd e (\<lambda>v. v\<lparr>EVENT_ulCounter := EVENT_ulCounter v - 1, EVENT_pvTcbOwn := None, EVENT_iStatus := EVENT_RW_STATUS_R\<rparr>) k"
    have E: "semRW_release e ign k = Some ?k" unfolding semRW_release_def using n qR True by auto
    have ok': "sys_ok T ?k" by (rule sys_ok_event [OF ok]) simp_all
    have A: "rw_abs ?k e = spec_rw_release ign (rw_abs k e)" using nw True unfolding rw_abs_def spec_rw_release_def event_upd_waiters by auto
    show ?thesis using E ok' A True by (simp add: rw_let_in_def rw_frame_def LW_TCB_GET_CUR_def)
  next
    case False
    let ?k1 = "set_counter e (EVENT_ulCounter (K_eventBuffer k e) - 1) k"
    have ok1: "sys_ok T ?k1" by (rule sys_ok_counter [OF ok])
    have w1: "waiters ?k1 = waiters k" unfolding set_counter_def by (rule event_upd_queues) simp_all
    have t1: "K_tcb ?k1 = K_tcb k" "K_ncpus ?k1 = K_ncpus k" "LW_TCB_GET_CUR ?k1 = LW_TCB_GET_CUR k" by (simp_all add: set_counter_def LW_TCB_GET_CUR_def)
    have e1: "K_eventBuffer ?k1 e = (K_eventBuffer k e)\<lparr>EVENT_ulCounter := EVENT_ulCounter (K_eventBuffer k e) - 1\<rparr>" by (simp add: set_counter_def)
    from rdrs.loop_spec [OF rw_keeps_refl [OF ok1, of e]]
    obtain k2 where K: "semRW_wake_readers e ?k1 = Some k2" "rw_keeps T e ?k1 k2" "waiters k2 e EVENT_RW_Q_R = []"
      "\<And>u. (TCB_usStatus (K_tcb k2 u), rview_wait (K_tcb k2 u)) =
        (if u \<in> set (waiters ?k1 e EVENT_RW_Q_R) then (sem_rdy ?k1 u, rview_wait (K_tcb ?k1 u)) else (TCB_usStatus (K_tcb ?k1 u), rview_wait (K_tcb ?k1 u)))" by blast
    let ?k = "event_upd e (\<lambda>v. v\<lparr>EVENT_pvTcbOwn := None, EVENT_iStatus := EVENT_RW_STATUS_R\<rparr>) k2"
    have E: "semRW_release e ign k = Some ?k" unfolding semRW_release_def Let_def K(1) using n qR False by auto
    have ok2: "sys_ok T k2" "K_ncpus k2 = K_ncpus k" "LW_TCB_GET_CUR k2 = LW_TCB_GET_CUR k" using K(2) t1 unfolding rw_keeps_def by simp_all
    have ok': "sys_ok T ?k" by (rule sys_ok_event [OF ok2(1)]) simp_all
    have "waiters k2 e EVENT_RW_Q_W = waiters ?k1 e EVENT_RW_Q_W" using K(2) unfolding rw_keeps_def by simp
    then have qW: "waiters k2 e EVENT_RW_Q_W = waiters k e EVENT_RW_Q_W" unfolding w1 .
    have v: "rwview (K_eventBuffer k2 e) = rwview ((K_eventBuffer k e)\<lparr>EVENT_ulCounter := EVENT_ulCounter (K_eventBuffer k e) - 1 +
        of_nat (length (waiters k e EVENT_RW_Q_R))\<rparr>)" using K(2) unfolding rw_keeps_def K(3) w1 e1 by (simp add: rwview_def)
    have A: "rw_abs ?k e = spec_rw_release ign (rw_abs k e)" using nw rwviewD [OF v] unfolding rw_abs_def spec_rw_release_def event_upd_waiters qW K(3) by auto
    have B: "rw_let_in (set (waiters k e EVENT_RW_Q_R)) k ?k" unfolding rw_let_in_def
    proof
      fix u
      have "sem_rdy ?k1 u = sem_rdy k u" by (simp add: sem_rdy_def t1)
      then show "TCB_usStatus (K_tcb ?k u) = (if u \<in> set (waiters k e EVENT_RW_Q_R) then sem_rdy k u else TCB_usStatus (K_tcb k u)) \<and> rview_wait (K_tcb ?k u) = rview_wait (K_tcb k u)"
        using K(4) [of u] unfolding w1 t1 by (simp split: if_splits)
    qed
    have F: "rw_frame e k ?k" using rwviewD [OF v] ok2(2,3) by (simp add: rw_frame_def LW_TCB_GET_CUR_def)
    show ?thesis using E ok' A B F by blast
  qed
qed

lemma semRW_release_ok:
  assumes ok: "sys_ok T k"
  shows "\<exists>k'. semRW_release e ign k = Some k' \<and> sys_ok T k' \<and> rw_abs k' e = spec_rw_release ign (rw_abs k e) \<and>
    rw_let_in (spec_rw_in ign (rw_abs k e)) k k' \<and> rw_frame e k k'"
proof (cases "waiters k e EVENT_RW_Q_W \<noteq> [] \<and> \<not> ign")
  case True
  then obtain t ts where w: "waiters k e EVENT_RW_Q_W = t # ts" and i: "ign = False" by (cases "waiters k e EVENT_RW_Q_W") auto
  have "spec_rw_in ign (rw_abs k e) = {t}" by (simp add: spec_rw_in_def rw_abs_def i w del: One_nat_def)
  then show ?thesis using release_writer [OF ok w] unfolding i by simp
next
  case False
  then have n: "EventWaitNum EVENT_RW_Q_W e k = 0 \<or> ign" using rw_keeps_queue(1) [OF ok, of EVENT_RW_Q_W e] by blast
  have "spec_rw_in ign (rw_abs k e) = set (waiters k e EVENT_RW_Q_R)" using False unfolding spec_rw_in_def rw_abs_def by auto
  then show ?thesis using release_readers [OF ok n] by simp
qed

lemma rw_counter:
  assumes "sys_ok T k"
  shows "sys_ok T (set_counter e v k)" "rw_abs (set_counter e v k) e = (rw_abs k e)\<lparr>rw_count := v\<rparr>" "rw_let_in {} k (set_counter e v k)" "rw_frame e k (set_counter e v k)"
proof -
  have w: "waiters (set_counter e v k) = waiters k" unfolding set_counter_def by (rule event_upd_queues) simp_all
  show "sys_ok T (set_counter e v k)" by (rule sys_ok_counter [OF assms])
  show "rw_abs (set_counter e v k) e = (rw_abs k e)\<lparr>rw_count := v\<rparr>" unfolding rw_abs_def w by (simp add: set_counter_def)
  show "rw_let_in {} k (set_counter e v k)" "rw_frame e k (set_counter e v k)" by (simp_all add: rw_let_in_def rw_frame_def set_counter_def LW_TCB_GET_CUR_def)
qed

lemma rw_depth_upd:
  assumes "sys_ok T k"
  shows "sys_ok T (event_upd e (\<lambda>v. v\<lparr>EVENT_pvPtr := g v\<rparr>) k)" "rw_abs (event_upd e (\<lambda>v. v\<lparr>EVENT_pvPtr := g v\<rparr>) k) e = (rw_abs k e)\<lparr>rw_depth := g (K_eventBuffer k e)\<rparr>"
    "rw_let_in {} k (event_upd e (\<lambda>v. v\<lparr>EVENT_pvPtr := g v\<rparr>) k)" "rw_frame e k (event_upd e (\<lambda>v. v\<lparr>EVENT_pvPtr := g v\<rparr>) k)"
proof -
  show "sys_ok T (event_upd e (\<lambda>v. v\<lparr>EVENT_pvPtr := g v\<rparr>) k)" by (rule sys_ok_event [OF assms]) simp_all
  show "rw_abs (event_upd e (\<lambda>v. v\<lparr>EVENT_pvPtr := g v\<rparr>) k) e = (rw_abs k e)\<lparr>rw_depth := g (K_eventBuffer k e)\<rparr>"
    unfolding rw_abs_def event_upd_waiters by simp
  show "rw_let_in {} k (event_upd e (\<lambda>v. v\<lparr>EVENT_pvPtr := g v\<rparr>) k)" "rw_frame e k (event_upd e (\<lambda>v. v\<lparr>EVENT_pvPtr := g v\<rparr>) k)"
    by (simp_all add: rw_let_in_def rw_frame_def LW_TCB_GET_CUR_def)
qed

lemma rw_same: "rw_let_in {} k k" "rw_frame e k k"
  by (simp_all add: rw_let_in_def rw_frame_def)

text \<open>Leaving implements the abstract operation, on every branch and whoever calls it.\<close>

lemma semRW_post_ok:
  assumes ok: "sys_ok T k"
  shows "\<exists>r rel A s k'. spec_rw_post (EVENT_ulOption (K_eventBuffer k e) AND LW_OPTION_RW_PREFER_WRITER \<noteq> 0) c (rw_abs k e) = (r, rel, A, s) \<and>
    semRW_post e c k = Some (r, rel, k') \<and> sys_ok T k' \<and> rw_abs k' e = s \<and> rw_let_in A k k' \<and> rw_frame e k k'"
proof -
  let ?s = "rw_abs k e" and ?v = "K_eventBuffer k e"
  have f: "rw_count ?s = EVENT_ulCounter ?v" "rw_writing ?s \<longleftrightarrow> EVENT_iStatus ?v \<noteq> EVENT_RW_STATUS_R" "rw_own ?s = EVENT_pvTcbOwn ?v"
    "rw_depth ?s = EVENT_pvPtr ?v" "rw_readq ?s \<noteq> [] \<longleftrightarrow> EventWaitNum EVENT_RW_Q_R e k \<noteq> 0"
    using rw_keeps_queue(1) [OF ok, of EVENT_RW_Q_R e] by (simp_all add: rw_abs_def)
  note D = spec_rw_post_def semRW_post_def f
  consider "EVENT_ulCounter ?v = 0" | "EVENT_ulCounter ?v \<noteq> 0" "EVENT_iStatus ?v = EVENT_RW_STATUS_R" "EVENT_ulCounter ?v > 1"
    | "EVENT_ulCounter ?v \<noteq> 0" "EVENT_iStatus ?v = EVENT_RW_STATUS_R" "\<not> EVENT_ulCounter ?v > 1"
    | "EVENT_ulCounter ?v \<noteq> 0" "EVENT_iStatus ?v \<noteq> EVENT_RW_STATUS_R" "EVENT_pvTcbOwn ?v \<noteq> Some c"
    | "EVENT_ulCounter ?v \<noteq> 0" "EVENT_iStatus ?v \<noteq> EVENT_RW_STATUS_R" "EVENT_pvTcbOwn ?v = Some c" "EVENT_pvPtr ?v \<noteq> 0"
    | "EVENT_ulCounter ?v \<noteq> 0" "EVENT_iStatus ?v \<noteq> EVENT_RW_STATUS_R" "EVENT_pvTcbOwn ?v = Some c" "EVENT_pvPtr ?v = 0" by blast
  then show ?thesis
  proof cases
    case 1
    then show ?thesis using ok rw_same by (simp add: D) blast
  next
    case 2
    then show ?thesis using rw_counter [OF ok, of e "EVENT_ulCounter ?v - 1"] by (simp add: D) blast
  next
    case 3
    let ?i = "EVENT_ulOption ?v AND LW_OPTION_RW_PREFER_WRITER = 0 \<and> EventWaitNum EVENT_RW_Q_R e k \<noteq> 0"
    from semRW_release_ok [OF ok, of e ?i] obtain k' where "semRW_release e ?i k = Some k'" "sys_ok T k'" "rw_abs k' e = spec_rw_release ?i ?s"
      "rw_let_in (spec_rw_in ?i ?s) k k'" "rw_frame e k k'" by blast
    then show ?thesis using 3 by (simp add: D Let_def) blast
  next
    case 4
    then show ?thesis using ok rw_same by (simp add: D) blast
  next
    case 5
    then show ?thesis using rw_depth_upd [OF ok, of e "\<lambda>v. EVENT_pvPtr v - 1"] by (simp add: D) blast
  next
    case 6
    from semRW_release_ok [OF ok, of e False] obtain k' where "semRW_release e False k = Some k'" "sys_ok T k'" "rw_abs k' e = spec_rw_release False ?s"
      "rw_let_in (spec_rw_in False ?s) k k'" "rw_frame e k k'" by blast
    then show ?thesis using 6 by (simp add: D) blast
  qed
qed

section \<open>Entering\<close>

lemma semRW_safe_abs [simp]: "rw_abs (semRW_safe e' t k) e = rw_abs k e" "rw_frame e k (semRW_safe e' t k') = rw_frame e k k'"
  by (simp_all add: rw_abs_def rw_frame_def)

lemma semRW_tryR_ok:
  assumes ok: "sys_ok T k"
  shows "map_option (\<lambda>(r, k'). (r, rw_abs k' e)) (semRW_tryR e c to k) = spec_rw_read to (rw_abs k e)"
    "semRW_tryR e c to k = Some (r, k') \<Longrightarrow> sys_ok T k' \<and> rw_frame e k k'"
proof -
  have q: "EventWaitNum EVENT_RW_Q_W e k = 0 \<longleftrightarrow> rw_writeq (rw_abs k e) = []" using rw_keeps_queue(1) [OF ok, of EVENT_RW_Q_W e] by (simp add: rw_abs_def)
  have f: "rw_writing (rw_abs k e) \<longleftrightarrow> EVENT_iStatus (K_eventBuffer k e) \<noteq> EVENT_RW_STATUS_R" "rw_count (rw_abs k e) = EVENT_ulCounter (K_eventBuffer k e)"
    by (simp_all add: rw_abs_def)
  note C = rw_counter [OF ok, of e "EVENT_ulCounter (K_eventBuffer k e) + 1"]
  show "map_option (\<lambda>(r, k'). (r, rw_abs k' e)) (semRW_tryR e c to k) = spec_rw_read to (rw_abs k e)"
    unfolding semRW_tryR_def spec_rw_read_def q f Let_def by (simp add: C(2))
  show "semRW_tryR e c to k = Some (r, k') \<Longrightarrow> sys_ok T k' \<and> rw_frame e k k'"
    unfolding semRW_tryR_def q Let_def using ok C rw_same(2) by (auto split: if_splits)
qed

lemma semRW_tryW_ok:
  assumes ok: "sys_ok T k"
  shows "map_option (\<lambda>(r, k'). (r, rw_abs k' e)) (semRW_tryW e c to k) = spec_rw_write c to (rw_abs k e)"
    "semRW_tryW e c to k = Some (r, k') \<Longrightarrow> sys_ok T k' \<and> rw_frame e k k'"
proof -
  let ?k = "event_upd e (\<lambda>v. v\<lparr>EVENT_ulCounter := EVENT_ulCounter v + 1, EVENT_iStatus := EVENT_RW_STATUS_W, EVENT_pvTcbOwn := Some c\<rparr>) k"
  have a: "sys_ok T ?k" by (rule sys_ok_event [OF ok]) simp_all
  have b: "rw_abs ?k e = (rw_abs k e)\<lparr>rw_writing := True, rw_own := Some c, rw_count := EVENT_ulCounter (K_eventBuffer k e) + 1\<rparr>"
    unfolding rw_abs_def event_upd_waiters by simp
  have d: "rw_frame e k ?k" by (simp add: rw_frame_def LW_TCB_GET_CUR_def)
  have f: "rw_own (rw_abs k e) = EVENT_pvTcbOwn (K_eventBuffer k e)" "rw_count (rw_abs k e) = EVENT_ulCounter (K_eventBuffer k e)"
    "rw_depth (rw_abs k e) = EVENT_pvPtr (K_eventBuffer k e)" by (simp_all add: rw_abs_def)
  note C = rw_depth_upd [OF ok, of e "\<lambda>v. EVENT_pvPtr v + 1"]
  show "map_option (\<lambda>(r, k'). (r, rw_abs k' e)) (semRW_tryW e c to k) = spec_rw_write c to (rw_abs k e)"
    unfolding semRW_tryW_def spec_rw_write_def f Let_def by (simp only: semRW_safe_abs b C(2) map_option_case option.case split_conv split: if_split) (simp add: f)
  show "semRW_tryW e c to k = Some (r, k') \<Longrightarrow> sys_ok T k' \<and> rw_frame e k k'"
    unfolding semRW_tryW_def Let_def using ok a d C rw_same(2) by (auto split: if_splits)
qed

text \<open>Waiting.\<close>

lemma semRW_block_ok:
  fixes e q :: nat and to :: ulong
  assumes ok: "sys_ok T k" and c: "running T k c"
  defines "k' \<equiv> ev_block e q LW_THREAD_STATUS_SEM to k"
  shows "sys_ok T k'" "rwview (K_eventBuffer k' e) = rwview (K_eventBuffer k e)" "set (waiters k' e q) = insert c (set (waiters k e q))"
    "q' \<noteq> q \<Longrightarrow> waiters k' e q' = waiters k e q'" "\<not> LW_THREAD_IS_READY k' c" "K_ncpus k' = K_ncpus k"
proof -
  note C = runningD [OF c]
  have i: "ipc_ok T k" using ok by (simp add: sys_ok_def)
  note E = ev_block_spec [OF i C(1-4), where ty = LW_THREAD_STATUS_SEM and e = e and q = q and to = to, simplified, folded k'_def]
  show "sys_ok T k'" unfolding k'_def by (rule ev_block_sys [OF ok C(1-4)]) simp_all
  show "rwview (K_eventBuffer k' e) = rwview (K_eventBuffer k e)" by (simp add: E(6))
  have n: "c \<notin> set (wq_order (by_prio k e) (wq k e q))"
    using wait_okD(2) [OF ipc_okD(3) [OF i], of c e q] wait_okD(4) [OF ipc_okD(3) [OF i], of c e] C(4) pending_not_ready by (auto simp: waiters_def waits_in_def)
  have "remove1 c (waiters k' e q) = waiters k e q" using enq_mem(2) [OF n, of "prio k"] by (simp add: E(2)) (simp add: waiters_def)
  moreover have "c \<in> set (waiters k' e q)" using wait_okD(2) [OF ipc_okD(3) [OF E(1)], of c e q] E(5) by simp
  moreover have "distinct (waiters k' e q)" by (rule wait_okD(5) [OF ipc_okD(3) [OF E(1)]])
  ultimately show "set (waiters k' e q) = insert c (set (waiters k e q))" using set_remove1_eq [of "waiters k' e q" c] by auto
  show "q' \<noteq> q \<Longrightarrow> waiters k' e q' = waiters k e q'" by (simp add: E(2))
  show "\<not> LW_THREAD_IS_READY k' c" by (simp add: LW_THREAD_IS_READY_def E(3))
  show "K_ncpus k' = K_ncpus k" by (rule E(9))
qed


end
