(* ===== verification/MutexClaims.thy ===== *)
theory MutexClaims
  imports MutexInv SysClaims
begin

text \<open>
  The properties of mutexes: at most one owner, handing over in the order of the queue, and the
  priority of the owner; the types of handles; and what a change of priority does to a wait queue;
  each with a configuration at which its hypotheses hold.
\<close>

section \<open>Configurations\<close>

text \<open>Event 2 is a free mutex with priority inheritance, and the same mutex held by thread 3 at priority 200.\<close>

definition demo_mutex :: kernel where
  "demo_mutex = event_upd 2 (\<lambda>v. v\<lparr>EVENT_ucType := LW_TYPE_EVENT_MUTEX, EVENT_ulCounter := 1, EVENT_ulMaxCounter := 255\<rparr>) demo_sem"

definition demo_held :: kernel where
  "demo_held = event_upd 3 (\<lambda>v. v\<lparr>EVENT_ucType := LW_TYPE_EVENT_MUTEX, EVENT_ulMaxCounter := 200, EVENT_pvTcbOwn := Some 3\<rparr>)
     (event_upd 3 (\<lambda>v. v\<lparr>EVENT_ulOption := LW_OPTION_INHERIT_PRIORITY\<rparr>) (SchedSetPrio 3 200 demo_sem))"

text \<open>Thread 2 waits for it, and thread 3 runs.\<close>

definition demo_queue :: kernel where
  "demo_queue = cpu_upd 0 (\<lambda>p. p\<lparr>CPU_ptcbTCBCur := Some 3\<rparr>) (semM_block 3 2 10 demo_held)"

lemma demo_mutex_ok: "sys_ok {0, 1, 2, 3} demo_mutex" "mutex_ok {0, 1, 2, 3} demo_mutex 2" "running {0, 1, 2, 3} demo_mutex 2"
proof -
  show "sys_ok {0, 1, 2, 3} demo_mutex" unfolding demo_mutex_def by (rule sys_ok_event [OF demo_sem_sys]) simp_all
  have "waiters demo_mutex = waiters demo_sem" unfolding demo_mutex_def by (rule event_upd_queues) simp_all
  then show "mutex_ok {0, 1, 2, 3} demo_mutex 2" by (simp add: mutex_ok_def demo_sem_events)
    (simp add: demo_mutex_def demo_sem_def demo_kernel event0_def)
  show "running {0, 1, 2, 3} demo_mutex 2" using demo_running by (simp add: demo_mutex_def running_def LW_TCB_GET_CUR_def LW_THREAD_IS_READY_def)
qed

lemma sys_ok_option:
  assumes ok: "sys_ok T k" and o: "opt AND LW_OPTION_WAIT_PRIORITY = EVENT_ulOption (K_eventBuffer k e) AND LW_OPTION_WAIT_PRIORITY"
  shows "sys_ok T (event_upd e (\<lambda>v. v\<lparr>EVENT_ulOption := opt\<rparr>) k)" (is "sys_ok T ?k") "waiters (event_upd e (\<lambda>v. v\<lparr>EVENT_ulOption := opt\<rparr>) k) = waiters k"
proof -
  have "by_prio ?k x = by_prio k x" for x unfolding by_prio_def using o by (cases "x = e") (simp_all only: event_upd_def, simp_all)
  then have q: "by_prio ?k = by_prio k" by (rule ext)
  have w: "wq ?k = wq k" by (rule ext, rule ext) (simp add: wq_def)
  show "waiters ?k = waiters k" by (rule ext, rule ext) (simp add: waiters_def q w)
  show "sys_ok T ?k"
  proof (rule sys_ok_thread [OF ok])
    assume b: "base_ok T k"
    then have "wait_ok T k" by (simp add: base_ok_def ipc_ok_def)
    then have "wait_ok T ?k" by (rule wait_ok_cong) (simp_all add: q w)
    then show "base_ok T ?k" using b req_ok_cong [of T k ?k] by (simp add: base_ok_def ipc_ok_def)
  qed (simp add: okern_def dline_def)
qed

lemma demo_held_ok: "sys_ok {0, 1, 2, 3} demo_held" "mutex_ok {0, 1, 2, 3} demo_held 3" "running {0, 1, 2, 3} demo_held 2"
    "waiters demo_held 3 EVENT_SEM_Q = []"
proof -
  have "sys_ok {0, 1, 2, 3} (SchedSetPrio 3 200 demo_sem)" by (rule SchedSetPrio_sys [OF demo_sem_sys]) (simp_all add: demo_sem_tcb)
  moreover have "LW_OPTION_INHERIT_PRIORITY AND LW_OPTION_WAIT_PRIORITY = EVENT_ulOption (K_eventBuffer (SchedSetPrio 3 200 demo_sem) 3) AND LW_OPTION_WAIT_PRIORITY"
    by (simp add: demo_sem_def demo_kernel event0_def)
  ultimately have O: "sys_ok {0, 1, 2, 3} (event_upd 3 (\<lambda>v. v\<lparr>EVENT_ulOption := LW_OPTION_INHERIT_PRIORITY\<rparr>) (SchedSetPrio 3 200 demo_sem))"
    "waiters (event_upd 3 (\<lambda>v. v\<lparr>EVENT_ulOption := LW_OPTION_INHERIT_PRIORITY\<rparr>) (SchedSetPrio 3 200 demo_sem)) = waiters (SchedSetPrio 3 200 demo_sem)"
    by (rule sys_ok_option)+
  show "sys_ok {0, 1, 2, 3} demo_held" unfolding demo_held_def by (rule sys_ok_event [OF O(1)]) simp_all
  have "waiters demo_held 3 EVENT_SEM_Q = waiters (SchedSetPrio 3 200 demo_sem) 3 EVENT_SEM_Q"
    unfolding demo_held_def O(2) [symmetric] by (subst event_upd_queues) simp_all
  then show w: "waiters demo_held 3 EVENT_SEM_Q = []" by (simp add: demo_sem_events)
  then show "mutex_ok {0, 1, 2, 3} demo_held 3" by (simp add: mutex_ok_def)
    (simp add: demo_held_def demo_sem_def demo_kernel event0_def)
  show "running {0, 1, 2, 3} demo_held 2" using demo_running by (simp add: demo_held_def running_def LW_TCB_GET_CUR_def LW_THREAD_IS_READY_def)
qed

lemma demo_held_facts:
  "EVENT_pvTcbOwn (K_eventBuffer demo_held 3) = Some 3" "EVENT_pvPtr (K_eventBuffer demo_held 3) = 0" "EVENT_ucType (K_eventBuffer demo_held 3) = LW_TYPE_EVENT_MUTEX"
  "EVENT_ulMaxCounter (K_eventBuffer demo_held 3) = 200" "EVENT_ulOption (K_eventBuffer demo_held 3) = LW_OPTION_INHERIT_PRIORITY"
  "prio demo_held 2 = 100" "prio demo_held 3 = 200" "TCB_iDeleteProcStatus (K_tcb demo_held 3) = 0"
proof -
  note E = erase_tcbD [OF demo_erase]
  show "prio demo_held 2 = 100" using E(20) [of 2] by (simp add: demo_held_def demo_sem_def prio_def [of demo] demo_boot_def demo_tcb_def tcb0_def) 
  show "TCB_iDeleteProcStatus (K_tcb demo_held 3) = 0" using E(25) [of 3] by (simp add: demo_held_def demo_sem_def demo_boot_def demo_tcb_def tcb0_def)
qed (simp_all add: demo_held_def demo_sem_def demo_kernel event0_def)

lemma demo_status: "K_ucSysStatus demo_sem = LW_SYS_STATUS_RUNNING"
proof -
  have "K_ucSysStatus (erase demo) = K_ucSysStatus (erase demo_boot)" by (simp add: demo_erase)
  then show ?thesis by (simp add: demo_sem_def erase_def demo_boot_def kernel0_def)
qed

section \<open>Mutual exclusion\<close>

text \<open>
  The threads that use one mutex, with anything else that leaves the mutex alone in between. The
  count of a thread is how often it was granted the mutex and has not given it back: by a call that
  did not wait, or by the post that woke it. A thread takes the mutex less than \<open>2 ^ 64\<close> times in a row.
\<close>

definition mutex_kept :: "nat \<Rightarrow> kernel \<Rightarrow> kernel \<Rightarrow> bool" where
  "mutex_kept e k k' \<longleftrightarrow> EVENT_pvTcbOwn (K_eventBuffer k' e) = EVENT_pvTcbOwn (K_eventBuffer k e) \<and>
     EVENT_pvPtr (K_eventBuffer k' e) = EVENT_pvPtr (K_eventBuffer k e) \<and> EVENT_ulCounter (K_eventBuffer k' e) = EVENT_ulCounter (K_eventBuffer k e) \<and>
     set (waiters k' e EVENT_SEM_Q) \<subseteq> set (waiters k e EVENT_SEM_Q) \<and> K_ncpus k' = K_ncpus k"

definition granted :: "tid option \<Rightarrow> (tid \<Rightarrow> nat) \<Rightarrow> tid \<Rightarrow> nat" where
  "granted w h = (case w of None \<Rightarrow> h | Some t \<Rightarrow> h(t := h t + 1))"

inductive mx_step :: "tid set \<Rightarrow> nat \<Rightarrow> (tid \<Rightarrow> nat) \<times> kernel \<Rightarrow> (tid \<Rightarrow> nat) \<times> kernel \<Rightarrow> bool" for T :: "tid set" and e :: nat where
  Take: "running T k c \<Longrightarrow> h c < 2 ^ 64 \<Longrightarrow> semM_try e c to k = Some (r, k') \<Longrightarrow>
    mx_step T e (h, k) (if r = ERROR_NONE then granted (Some c) h else h, k')"
| Wait: "running T k c \<Longrightarrow> semM_try e c to k = None \<Longrightarrow> mx_step T e (h, k) (h, semM_block e c to k)"
| Give: "running T k c \<Longrightarrow> semM_post e c k = (r, released, k') \<Longrightarrow>
    mx_step T e (h, k) (if r \<noteq> ERROR_NONE then h
      else granted (if released then EVENT_pvTcbOwn (K_eventBuffer k' e) else None) (h(c := h c - 1)), k')"
| Other: "sys_step T k k' \<Longrightarrow> mutex_kept e k k' \<Longrightarrow> mx_step T e (h, k) (h, k')"

inductive_cases mx_stepE: "mx_step T e (h, k) (h', k')"

definition mx_inv :: "tid set \<Rightarrow> nat \<Rightarrow> (tid \<Rightarrow> nat) \<times> kernel \<Rightarrow> bool" where
  "mx_inv T e s \<longleftrightarrow> sys_ok T (snd s) \<and> mutex_ok T (snd s) e \<and>
     (\<forall>c. fst s c = (if mx_own (mutex_abs (snd s) e) = Some c then unat (mx_depth (mutex_abs (snd s) e)) + 1 else 0))"

lemma mx_give:
  assumes h: "\<And>c. h c = (if mx_own m = Some c then unat (mx_depth m) + 1 else 0)" and S: "spec_unlock c m = (r, m')"
    and d: "mx_own m = Some c \<Longrightarrow> released \<longleftrightarrow> mx_depth m = 0"
  shows "(if r \<noteq> ERROR_NONE then h else granted (if released then mx_own m' else None) (h(c := h c - 1))) u =
    (if mx_own m' = Some u then unat (mx_depth m') + 1 else 0)"
proof (cases "mx_own m = Some c \<and> mx_depth m \<noteq> 0")
  case True
  then have "unat (mx_depth m - 1) + 1 = unat (mx_depth m)" by (simp add: unat_minus_one unat_gt_0)
  then show ?thesis using True S d by (auto simp: spec_unlock_def granted_def h)
next
  case False
  then show ?thesis using S d by (auto simp: spec_unlock_def granted_def h split: if_splits list.splits)
qed

lemma released_iff: "semM_post e c k = (r, released, k') \<Longrightarrow> EVENT_pvTcbOwn (K_eventBuffer k e) = Some c \<Longrightarrow> EVENT_ulCounter (K_eventBuffer k e) = 0 \<Longrightarrow>
    released \<longleftrightarrow> EVENT_pvPtr (K_eventBuffer k e) = 0"
  by (auto simp: semM_post_def Let_def split: if_splits prod.splits option.splits)

lemma mx_take:
  assumes h: "\<And>c. h c = (if mx_own m = Some c then unat (mx_depth m) + 1 else 0)" and S: "spec_lock opt c to m = Some (r, m')"
    and d: "h c < 2 ^ 64" "mx_own m = None \<Longrightarrow> mx_depth m = 0"
  shows "(if r = ERROR_NONE then granted (Some c) h else h) u = (if mx_own m' = Some u then unat (mx_depth m') + 1 else 0)"
proof (cases "mx_own m = Some c")
  case True
  then have "unat (mx_depth m) + 1 < 2 ^ 64" using h [of c] d(1) by simp
  then have "unat (mx_depth m + 1) = unat (mx_depth m) + 1" by (simp add: unat_word_ariths)
  then show ?thesis using S True by (auto simp: spec_lock_def granted_def h split: if_splits)
next
  case False
  then show ?thesis using S d(2) by (auto simp: spec_lock_def granted_def h split: if_splits option.splits)
qed

lemma mx_step_inv: "mx_step T e s s' \<Longrightarrow> mx_inv T e s \<Longrightarrow> mx_inv T e s'"
proof (induction rule: mx_step.induct)
  case (Take k c h to r k')
  then have I: "sys_ok T k" "mutex_ok T k e" "\<And>c. h c = (if mx_own (mutex_abs k e) = Some c then unat (mx_depth (mutex_abs k e)) + 1 else 0)"
    by (simp_all add: mx_inv_def)
  note C = runningD [OF Take.hyps(1)]
  have S: "spec_lock (EVENT_ulOption (K_eventBuffer k e)) c to (mutex_abs k e) = Some (r, mutex_abs k' e)"
    using semM_try_ok(1) [OF I(1,2) C(2,3), of to] Take.hyps(3) by simp
  show ?case using semM_try_ok(2) [OF I(1,2) C(2,3) Take.hyps(3)] mx_take [OF I(3) S Take.hyps(2)] mutex_okD(6) [OF I(2)]
    by (simp add: mx_inv_def)
next
  case (Wait k c to h)
  then have I: "sys_ok T k" "mutex_ok T k e" by (simp_all add: mx_inv_def)
  from Wait.hyps(2) have "EVENT_ulCounter (K_eventBuffer k e) = 0" by (auto simp: semM_try_def Let_def split: if_splits)
  from mutex_okD(7) [OF I(2) this] obtain w where w: "EVENT_pvTcbOwn (K_eventBuffer k e) = Some w" ..
  show ?case using semM_block_ok [OF I Wait.hyps(1) w, of to] Wait.prems w by (simp add: mx_inv_def)
next
  case (Give k c r released k' h)
  then have I: "sys_ok T k" "mutex_ok T k e" "\<And>c. h c = (if mx_own (mutex_abs k e) = Some c then unat (mx_depth (mutex_abs k e)) + 1 else 0)"
    by (simp_all add: mx_inv_def)
  note P = semM_post_ok [OF I(1,2) Give.hyps(2)]
  have d: "mx_own (mutex_abs k e) = Some c \<Longrightarrow> released \<longleftrightarrow> mx_depth (mutex_abs k e) = 0"
    using released_iff [OF Give.hyps(2)] mutex_okD(3) [OF I(2)] by simp
  note G = mx_give [OF I(3) P(3) d]
  show ?case unfolding mx_inv_def fst_conv snd_conv using P(1,2) G by auto
next
  case (Other k k' h)
  then have I: "sys_ok T k'" "mutex_ok T k e" by (simp_all add: mx_inv_def sys_step_ok)
  have "mutex_ok T k' e" using I(2) Other.hyps(2) by (auto simp: mutex_ok_def mutex_kept_def)
  then show ?case using I(1) Other by (simp add: mx_inv_def mutex_kept_def)
qed

lemma mx_steps_inv: "(mx_step T e)\<^sup>*\<^sup>* s s' \<Longrightarrow> mx_inv T e s \<Longrightarrow> mx_inv T e s'"
  by (induction rule: rtranclp_induct) (auto intro: mx_step_inv)

text \<open>
  C5: Mutual exclusion. Threads take, wait for and give back a mutex that is free at first, in any
  order and with any other steps of the system in between: at every moment at most one thread holds
  it, the holder is the owner in the control block, it holds it once more than the block counts
  nested takings, and while nobody holds it nobody waits for it. The invariant of the system is kept.
\<close>

theorem mutex_exclusion:
  assumes "sys_ok T k" and "mutex_ok T k e" and "EVENT_pvTcbOwn (K_eventBuffer k e) = None" and "(mx_step T e)\<^sup>*\<^sup>* (\<lambda>_. 0, k) (h, k')"
  shows "(\<forall>c d. 0 < h c \<and> 0 < h d \<longrightarrow> c = d) \<and> (\<forall>c. 0 < h c \<longleftrightarrow> EVENT_pvTcbOwn (K_eventBuffer k' e) = Some c) \<and>
    (\<forall>c. 0 < h c \<longrightarrow> h c = unat (EVENT_pvPtr (K_eventBuffer k' e)) + 1) \<and>
    ((\<forall>c. h c = 0) \<longrightarrow> waiters k' e EVENT_SEM_Q = [] \<and> EVENT_ulCounter (K_eventBuffer k' e) \<noteq> 0) \<and> sys_ok T k'"
proof -
  have "mx_inv T e (\<lambda>_. 0, k)" using assms(1-3) by (simp add: mx_inv_def)
  then have I: "sys_ok T k'" "mutex_ok T k' e" "\<And>c. h c = (if EVENT_pvTcbOwn (K_eventBuffer k' e) = Some c then unat (EVENT_pvPtr (K_eventBuffer k' e)) + 1 else 0)"
    using mx_steps_inv [OF assms(4)] by (simp_all add: mx_inv_def)
  have "EVENT_pvTcbOwn (K_eventBuffer k' e) = None" if "\<forall>c. h c = 0"
    using that I(3) by (cases "EVENT_pvTcbOwn (K_eventBuffer k' e)") (auto split: if_splits)
  then show ?thesis using I mutex_okD(6,7) [OF I(2)] by auto
qed

theorem mutex_exclusion_witness:
  "\<exists>k'. (mx_step {0, 1, 2, 3} 2)\<^sup>*\<^sup>* (\<lambda>_. 0, demo_mutex) ((\<lambda>_. 0)(2 := 1), k') \<and> EVENT_pvTcbOwn (K_eventBuffer k' 2) = Some 2 \<and> sys_ok {0, 1, 2, 3} k'"
proof -
  have "EVENT_ulCounter (K_eventBuffer demo_mutex 2) \<noteq> 0" by (simp add: demo_mutex_def)
  then obtain k' where t: "semM_try 2 2 0 demo_mutex = Some (ERROR_NONE, k')" by (simp add: semM_try_def Let_def)
  have "mx_step {0, 1, 2, 3} 2 (\<lambda>_. 0, demo_mutex) ((\<lambda>_. 0)(2 := 1), k')"
    using mx_step.Take [OF demo_mutex_ok(3) _ t, of "\<lambda>_. 0"] by (simp add: granted_def)
  then have s: "(mx_step {0, 1, 2, 3} 2)\<^sup>*\<^sup>* (\<lambda>_. 0, demo_mutex) ((\<lambda>_. 0)(2 := 1), k')" by blast
  have "EVENT_pvTcbOwn (K_eventBuffer demo_mutex 2) = None" by (simp add: demo_mutex_def demo_sem_def demo_kernel event0_def)
  note X = mutex_exclusion [OF demo_mutex_ok(1,2) this s]
  have o: "EVENT_pvTcbOwn (K_eventBuffer k' 2) = Some 2" using conjunct1 [OF conjunct2 [OF X], THEN spec, of 2] by simp
  show ?thesis by (intro exI [of _ k'] conjI s o) (use X in blast)
qed
section \<open>Giving back\<close>

lemma enter_eq: "kernelEnter = kernelEnterIrq"
  by (simp add: kernelEnter_def kernelEnterIrq_def fun_eq_iff)

lemma enter_mutex [simp]: "mutex_abs (kernelEnterIrq k) e = mutex_abs k e" "mutex_ok T (kernelEnterIrq k) e = mutex_ok T k e"
  by (simp_all add: mutex_abs_def mutex_ok_def)

lemma SemaphoreMPost_eq:
  assumes "e < LW_CFG_MAX_EVENTS" and "EVENT_ucType (K_eventBuffer k e) = LW_TYPE_EVENT_MUTEX" and "CpuGetNesting k = 0"
    and "K_ucSysStatus k = LW_SYS_STATUS_RUNNING" and "semM_post e (LW_TCB_GET_CUR k) (kernelEnterIrq k) = (r, released, k1)"
  shows "SemaphoreMPost (handle OBJECT_SEM_M e) env k = (case kernelExit env k1 of None \<Rightarrow> None | Some (_, env, k2) \<Rightarrow>
     if released \<and> EVENT_ulOption (K_eventBuffer k2 e) AND LW_OPTION_DELETE_SAFE \<noteq> 0
     then map_option (\<lambda>(n, env, k). (ERROR_NONE, n, env, k)) (ThreadUnsafeInternal env k2)
     else Some (r, Unsafe_Done, env, ErrorHandle r k2))"
  using assms handle_parts [of OBJECT_SEM_M e] by (simp add: SemaphoreMPost_def Let_def Event_Index_Invalid_def Event_Type_Invalid_def enter_eq)

text \<open>
  C6: \<^verbatim>\<open>API_SemaphoreMPost\<close> implements the abstract mutex: a thread that is not the owner gets
  \<^verbatim>\<open>ERROR_EVENT_NOT_OWN\<close> and changes nothing, a nested taking is undone, and otherwise the first waiter in
  the order of service becomes the owner, or the mutex becomes free. At a handing over the new
  owner stops waiting, with success as the result of its call, the old owner gets the priority back
  that the mutex kept, no other priority and no other queue changes, and the mutex keeps the priority of the new owner. The invariants of
  the system and of the mutex are kept; the kernel is then left, and a delete-safe mutex ends the safe mode.
\<close>

theorem mutex_post_refines:
  assumes "sys_ok T k" and "mutex_ok T k e" and "LW_TCB_GET_CUR k = c" and "CpuGetNesting k = 0" and "e < LW_CFG_MAX_EVENTS"
    and "EVENT_ucType (K_eventBuffer k e) = LW_TYPE_EVENT_MUTEX" and "K_ucSysStatus k = LW_SYS_STATUS_RUNNING"
  shows "\<exists>r released k1. sys_ok T k1 \<and> mutex_ok T k1 e \<and> spec_unlock c (mutex_abs k e) = (r, mutex_abs k1 e) \<and>
    (released \<longleftrightarrow> EVENT_pvTcbOwn (K_eventBuffer k e) = Some c \<and> EVENT_pvPtr (K_eventBuffer k e) = 0) \<and>
    (\<forall>t ts. released \<and> waiters k e EVENT_SEM_Q = t # ts \<longrightarrow>
       TCB_usStatus (K_tcb k1 t) = (TCB_usStatus (K_tcb k t) AND NOT LW_THREAD_STATUS_DELAY) AND NOT LW_THREAD_STATUS_SEM \<and>
       (TCB_ucIsEventDelete (K_tcb k t) = LW_EVENT_EXIST \<longrightarrow> pend_result t k1 = ERROR_NONE) \<and>
       prio k1 c = ucast (EVENT_ulMaxCounter (K_eventBuffer k e)) \<and> (\<forall>u. u \<noteq> c \<longrightarrow> prio k1 u = prio k u) \<and>
       EVENT_ulMaxCounter (K_eventBuffer k1 e) = ucast (prio k1 t) \<and>
       (\<forall>e' q'. (e', q') \<noteq> (e, EVENT_SEM_Q) \<longrightarrow> waiters k1 e' q' = waiters k e' q')) \<and>
    SemaphoreMPost (handle OBJECT_SEM_M e) env k = (case kernelExit env k1 of None \<Rightarrow> None | Some (_, env, k2) \<Rightarrow>
      if released \<and> EVENT_ulOption (K_eventBuffer k2 e) AND LW_OPTION_DELETE_SAFE \<noteq> 0
      then map_option (\<lambda>(n, env, k). (ERROR_NONE, n, env, k)) (ThreadUnsafeInternal env k2)
      else Some (r, Unsafe_Done, env, ErrorHandle r k2))"
proof -
  let ?k = "kernelEnterIrq k"
  have S: "sys_ok T ?k" "mutex_ok T ?k e" using sys_ok_enter(1) [OF assms(1)] assms(2) by simp_all
  obtain r released k1 where P: "semM_post e c ?k = (r, released, k1)" by (metis prod_cases3)
  note O = semM_post_ok [OF S P]
  have rel: "released \<longleftrightarrow> EVENT_pvTcbOwn (K_eventBuffer k e) = Some c \<and> EVENT_pvPtr (K_eventBuffer k e) = 0"
    using released_iff [OF P] mutex_okD(3) [OF assms(2), of c] P by (cases "EVENT_pvTcbOwn (K_eventBuffer k e) = Some c") (auto simp: semM_post_def)
  have H: "handed e c t ?k k1" if "released" "waiters k e EVENT_SEM_Q = t # ts" for t ts
    using post_hands_over [OF S, of c t ts] that rel P by (metis enter_view(2,6) prod.inject)
  have "SemaphoreMPost (handle OBJECT_SEM_M e) env k = (case kernelExit env k1 of None \<Rightarrow> None | Some (_, env, k2) \<Rightarrow>
      if released \<and> EVENT_ulOption (K_eventBuffer k2 e) AND LW_OPTION_DELETE_SAFE \<noteq> 0
      then map_option (\<lambda>(n, env, k). (ERROR_NONE, n, env, k)) (ThreadUnsafeInternal env k2)
      else Some (r, Unsafe_Done, env, ErrorHandle r k2))"
    by (rule SemaphoreMPost_eq [OF assms(5,6,4,7)]) (simp add: assms(3) P)
  then show ?thesis using O(1-3) rel H by (intro exI [of _ r] exI [of _ released] exI [of _ k1]) (auto simp: handed_def pend_result_def)
qed

lemma distinct_single: "distinct xs \<Longrightarrow> set xs = {x} \<Longrightarrow> xs = [x]"
  by (cases xs) (auto simp: insert_eq_iff subset_singleton_iff dest: equalityD1)

lemma demo_queue_ok: "sys_ok {0, 1, 2, 3} demo_queue" "mutex_ok {0, 1, 2, 3} demo_queue 3" "LW_TCB_GET_CUR demo_queue = 3"
    "waiters demo_queue 3 EVENT_SEM_Q = [2]" "EVENT_pvTcbOwn (K_eventBuffer demo_queue 3) = Some 3" "EVENT_pvPtr (K_eventBuffer demo_queue 3) = 0"
    "prio demo_queue 3 = 100" "EVENT_ulMaxCounter (K_eventBuffer demo_queue 3) = 200"
proof -
  note B = semM_block_ok [OF demo_held_ok(1-3) demo_held_facts(1), of 10]
  have f: "K_eventBuffer demo_queue = K_eventBuffer (semM_block 3 2 10 demo_held)" "waiters demo_queue = waiters (semM_block 3 2 10 demo_held)"
    "prio demo_queue = prio (semM_block 3 2 10 demo_held)" "K_ncpus demo_queue = K_ncpus (semM_block 3 2 10 demo_held)"
    by (simp_all add: demo_queue_def prio_def fun_eq_iff)
  show s: "sys_ok {0, 1, 2, 3} demo_queue" unfolding demo_queue_def by (rule sys_ok_cpu [OF B(1)]) simp_all
  show "mutex_ok {0, 1, 2, 3} demo_queue 3" using B(2) by (simp add: mutex_ok_def f)
  have "K_curcpu demo_queue = 0" by (simp add: demo_queue_def semM_block_def ev_block_cpu Boost_eq [OF demo_held_facts(1)])
    (simp add: demo_held_def demo_sem_tcb)
  then show "LW_TCB_GET_CUR demo_queue = 3" by (simp add: LW_TCB_GET_CUR_def) (simp add: demo_queue_def)
  have d: "distinct (waiters demo_queue 3 EVENT_SEM_Q)" using wait_okD(5) [OF ipc_okD(3)] s unfolding sys_ok_def by blast
  moreover have "set (waiters demo_queue 3 EVENT_SEM_Q) = {2}" using B(3) by (simp add: f demo_held_ok(4))
  ultimately show "waiters demo_queue 3 EVENT_SEM_Q = [2]" by (rule distinct_single)
  show "EVENT_pvTcbOwn (K_eventBuffer demo_queue 3) = Some 3" "EVENT_pvPtr (K_eventBuffer demo_queue 3) = 0" "EVENT_ulMaxCounter (K_eventBuffer demo_queue 3) = 200"
    unfolding f using B(4,5,8) demo_held_facts by simp_all
  show "prio demo_queue 3 = 100" unfolding f using B(6) [of 3] by (simp add: boosted_def demo_held_facts)
qed
lemma status_erase: "erase k' = erase k \<Longrightarrow> K_ucSysStatus k' = K_ucSysStatus k"
proof -
  have "K_ucSysStatus (erase x) = K_ucSysStatus x" for x by (simp add: erase_def)
  then show "erase k' = erase k \<Longrightarrow> K_ucSysStatus k' = K_ucSysStatus k" by metis
qed

lemma status_keeps [simp]:
  "K_ucSysStatus (ev_block e q ty to k) = K_ucSysStatus k" "K_ucSysStatus (SchedSetPrio t p k) = K_ucSysStatus k"
  by (simp_all add: ev_block_eq [OF refl] status_erase [OF erase_DEL] status_erase [OF erase_ADD] SchedSetPrio_def Let_def set_rot_def
      ADD_TO_WAKEUP_LINE_def put_delay_def ev_wq_upd_def split: prod.split)

lemma demo_queue_api: "CpuGetNesting demo_queue = 0" "EVENT_ucType (K_eventBuffer demo_queue 3) = LW_TYPE_EVENT_MUTEX" "K_ucSysStatus demo_queue = LW_SYS_STATUS_RUNNING"
proof -
  have p: "K_curcpu demo_queue = 0" "CPU_ulInterNesting (K_cpu demo_queue 0) = CPU_ulInterNesting (K_cpu demo_sem 0)"
    by (simp_all add: demo_queue_def semM_block_def Boost_eq [OF demo_held_facts(1)] ev_block_cpu) (simp_all add: demo_held_def demo_sem_tcb)
  then show "CpuGetNesting demo_queue = 0" using demo_sem_nesting by (simp add: CpuGetNesting_def demo_sem_tcb)
  show "K_ucSysStatus demo_queue = LW_SYS_STATUS_RUNNING"
    by (simp add: demo_queue_def semM_block_def Boost_eq [OF demo_held_facts(1)]) (simp add: demo_held_def demo_status)
  show "EVENT_ucType (K_eventBuffer demo_queue 3) = LW_TYPE_EVENT_MUTEX"
    by (simp add: demo_queue_def semM_block_def Boost_eq [OF demo_held_facts(1)] ev_block_eq [OF refl] demo_held_facts)
qed

theorem mutex_post_refines_witness:
  "\<exists>k1. sys_ok {0, 1, 2, 3} k1 \<and> EVENT_pvTcbOwn (K_eventBuffer k1 3) = Some 2 \<and> prio demo_queue 3 = 100 \<and> prio k1 3 = 200"
proof -
  have "spec_unlock 3 (mutex_abs demo_queue 3) = (0, \<lparr>mx_own = Some 2, mx_depth = 0, mx_wait = []\<rparr>)"
    by (simp add: spec_unlock_def mutex_abs_def demo_queue_ok(4-6))
  moreover from mutex_post_refines [OF demo_queue_ok(1-3) demo_queue_api(1) _ demo_queue_api(2,3), of "[]"]
  obtain r k1 where "sys_ok {0, 1, 2, 3} k1" "spec_unlock 3 (mutex_abs demo_queue 3) = (r, mutex_abs k1 3)"
    "prio k1 3 = ucast (EVENT_ulMaxCounter (K_eventBuffer demo_queue 3))" by (auto simp: demo_queue_ok(4-6))
  ultimately show ?thesis using demo_queue_ok(7,8) by (auto simp: mutex_abs_def)
qed
section \<open>Waiting and the priority of the owner\<close>

lemma semM_block_cpu:
  assumes "EVENT_pvTcbOwn (K_eventBuffer k e) = Some w"
  shows "K_curcpu (semM_block e c to k) = K_curcpu k" "K_ncpus (semM_block e c to k) = K_ncpus k"
    "CPU_bActive (K_cpu (semM_block e c to k) i) = CPU_bActive (K_cpu k i)" "CPU_ulInterNesting (K_cpu (semM_block e c to k) i) = CPU_ulInterNesting (K_cpu k i)"
    "CPU_iKernelCounter (K_cpu (semM_block e c to k) i) = CPU_iKernelCounter (K_cpu k i)" "LW_TCB_GET_CUR (semM_block e c to k) = LW_TCB_GET_CUR k"
    "TCB_plineStatusReqHeader (K_tcb (semM_block e c to k) u) = TCB_plineStatusReqHeader (K_tcb k u)"
proof -
  have "rview (K_tcb (ev_block e' q LW_THREAD_STATUS_SEM to k') u) = rview (K_tcb k' u)" for e' q k' unfolding ev_block_eq [OF refl] by (simp add: or_bits)
  then have "TCB_plineStatusReqHeader (K_tcb (ev_block e' q LW_THREAD_STATUS_SEM to k') u) = TCB_plineStatusReqHeader (K_tcb k' u)" for e' q k'
    by (simp add: rview_def)
  then show "TCB_plineStatusReqHeader (K_tcb (semM_block e c to k) u) = TCB_plineStatusReqHeader (K_tcb k u)" by (simp add: semM_block_def Boost_eq [OF assms])
qed (simp_all add: semM_block_def Boost_eq [OF assms] ev_block_cpu)

lemma semM_pend_wait:
  assumes "e < LW_CFG_MAX_EVENTS" and "EVENT_ucType (K_eventBuffer k e) = LW_TYPE_EVENT_MUTEX" and "K_ucSysStatus k = LW_SYS_STATUS_RUNNING"
    and "semM_try e c to (kernelEnterIrq k) = None"
    and "\<And>r env' k2. kernelExit env (semM_block e c to (kernelEnterIrq k)) = Some (r, env', k2) \<Longrightarrow> r = 0"
  shows "semM_pend (handle OBJECT_SEM_M e) c to env k = (case kernelExit env (semM_block e c to (kernelEnterIrq k)) of None \<Rightarrow> None
      | Some (_, env', k2) \<Rightarrow> Some (pend_result c k2, env', ErrorHandle (pend_result c k2) k2))"
  using assms handle_parts [of OBJECT_SEM_M e]
  by (subst semM_pend.simps) (auto simp: Let_def enter_eq Event_Index_Invalid_def Event_Type_Invalid_def split: option.splits)

text \<open>
  C7: A thread that waits in \<^verbatim>\<open>API_SemaphoreMPend\<close> for a mutex another thread owns enters its queue and gives up its
  processor to a ready thread before the call can return, and the priority of the owner
  (unless it is being deleted) is from then on at least that of the waiter when the mutex inherits
  priorities, and is raised to the ceiling of the mutex otherwise; no other priority changes. The call does not
  return while the thread stays away, and without a signal it returns what the thread finds.
\<close>

theorem mutex_pend_inherits:
  assumes "sys_ok T k" and "in_thread T k c" and "mutex_ok T k e" and "e < LW_CFG_MAX_EVENTS"
    and "EVENT_ucType (K_eventBuffer k e) = LW_TYPE_EVENT_MUTEX" and "K_ucSysStatus k = LW_SYS_STATUS_RUNNING"
    and "EVENT_pvTcbOwn (K_eventBuffer k e) = Some w" and "w \<noteq> c" and "to \<noteq> LW_OPTION_NOT_WAIT"
  shows "\<exists>k3. sys_ok T k3 \<and> mutex_ok T k3 e \<and> c \<in> set (waiters k3 e EVENT_SEM_Q) \<and> EVENT_pvTcbOwn (K_eventBuffer k3 e) = Some w \<and>
    (\<exists>t. CPU_ptcbTCBCur (K_cpu k3 (K_curcpu k)) = Some t \<and> t \<noteq> c \<and> LW_THREAD_IS_READY k3 t) \<and>
    (TCB_iDeleteProcStatus (K_tcb k w) = 0 \<longrightarrow> prio k3 w =
      (if EVENT_ulOption (K_eventBuffer k e) AND LW_OPTION_INHERIT_PRIORITY \<noteq> 0 then min (prio k c) (prio k w)
       else if prio k c < prio k w then min (EVENT_ucCeilingPriority (K_eventBuffer k e)) (prio k w) else prio k w)) \<and>
    (\<forall>u. u \<noteq> w \<longrightarrow> prio k3 u = prio k u) \<and>
    SemaphoreMPend (handle OBJECT_SEM_M e) to [] k = None \<and>
    (\<forall>f env. LW_TCB_GET_CUR (f k3) = c \<and> TCB_iSchedRet (K_tcb (f k3) c) = 0 \<longrightarrow>
      (\<exists>k4. SemaphoreMPend (handle OBJECT_SEM_M e) to (f # env) k = Some (pend_result c (f k3), env, k4)))"
proof -
  let ?k = "kernelEnterIrq k" and ?h = "handle OBJECT_SEM_M e"
  let ?b = "semM_block e c to ?k"
  have I: "running T k c" "K_curcpu k < K_ncpus k" "CPU_bActive (K_cpu k (K_curcpu k))" "CpuGetNesting k = 0"
    "CPU_iKernelCounter (K_cpu k (K_curcpu k)) = 0" "TCB_plineStatusReqHeader (K_tcb k c) = []" using assms(2) by (simp_all add: in_thread_def)
  have w: "EVENT_pvTcbOwn (K_eventBuffer ?k e) = Some w" using assms(7) by simp
  have r: "running T ?k c" using I(1) by (simp add: running_def)
  note C = semM_block_cpu [OF w, of c to] and B = semM_block_ok [OF sys_ok_enter(1) [OF assms(1)] _ r w, of to, simplified, OF assms(3)]
  have n: "semM_try e c to ?k = None" using assms(7-9) mutex_okD(3) [OF assms(3,7)] by (simp add: semM_try_def Let_def)
  have sb: "in_section ?b" unfolding in_section_def C using I by (simp add: kernelEnterIrq_def CpuGetNesting_def)
  have "LW_TCB_GET_CUR ?b = c" "TCB_plineStatusReqHeader (K_tcb ?b c) = []" using runningD(1) [OF r] I(6) by (simp_all add: C)
  from blocked_leaves [OF B(1) sb this(1) B(7) this(2)] obtain k3 where A: "away T c ?b k3" "kernelExit [] ?b = None"
    and X: "\<And>f env. kernelExit (f # env) ?b = Some (TCB_iSchedRet (K_tcb (f k3) (LW_TCB_GET_CUR (f k3))), env,
       tcb_upd (LW_TCB_GET_CUR (f k3)) (\<lambda>b. b\<lparr>TCB_iSchedRet := 0\<rparr>) (f k3))" by metis
  have P: "SemaphoreMPend ?h to env k = semM_pend ?h c to env k" for env using I(4) runningD(1) [OF I(1)] by (simp add: SemaphoreMPend_def)
  note L = semM_pend_wait [OF assms(4-6) n]
  have V: "waiters k3 = waiters ?b" "K_eventBuffer k3 = K_eventBuffer ?b" "K_ncpus k3 = K_ncpus ?b"
    using A(1) by (simp_all add: away_def waiters_def wq_def by_prio_def fun_eq_iff)
  have p: "prio k3 u = (if u = w then boosted e c w ?k else prio k u)" for u using A(1) B(6) [of u] by (simp add: away_def)
  show ?thesis
  proof (rule exI [of _ k3], intro conjI allI impI)
    show "sys_ok T k3" "\<exists>t. CPU_ptcbTCBCur (K_cpu k3 (K_curcpu k)) = Some t \<and> t \<noteq> c \<and> LW_THREAD_IS_READY k3 t"
      using A(1) by (simp_all add: away_def C)
    show "mutex_ok T k3 e" using B(2) by (simp add: mutex_ok_def V)
    show "c \<in> set (waiters k3 e EVENT_SEM_Q)" "EVENT_pvTcbOwn (K_eventBuffer k3 e) = Some w" using B(3,4) by (simp_all add: V)
    show "SemaphoreMPend ?h to [] k = None" unfolding P using L [of "[]"] A(2) by simp
    show "prio k3 u = prio k u" if "u \<noteq> w" for u using that by (simp add: p)
    show "prio k3 w = (if EVENT_ulOption (K_eventBuffer k e) AND LW_OPTION_INHERIT_PRIORITY \<noteq> 0 then min (prio k c) (prio k w)
       else if prio k c < prio k w then min (EVENT_ucCeilingPriority (K_eventBuffer k e)) (prio k w) else prio k w)"
      if "TCB_iDeleteProcStatus (K_tcb k w) = 0" using that by (simp add: p boosted_def)
    show "\<exists>k4. SemaphoreMPend ?h to (f # env) k = Some (pend_result c (f k3), env, k4)"
      if "LW_TCB_GET_CUR (f k3) = c \<and> TCB_iSchedRet (K_tcb (f k3) c) = 0" for f env
    proof -
      have "pend_result c (tcb_upd c (\<lambda>b. b\<lparr>TCB_iSchedRet := 0\<rparr>) (f k3)) = pend_result c (f k3)" by (simp add: pend_result_def)
      then show ?thesis unfolding P using L [of "f # env"] X [of f env] that by simp
    qed
  qed
qed

lemma demo_held_thread: "in_thread {0, 1, 2, 3} demo_held 2" "K_ucSysStatus demo_held = LW_SYS_STATUS_RUNNING"
  using demo_sem_thread demo_held_ok(3) by (simp_all add: in_thread_def CpuGetNesting_def) (simp_all add: demo_held_def demo_status)

theorem mutex_pend_inherits_witness:
  "\<exists>k3. sys_ok {0, 1, 2, 3} k3 \<and> 2 \<in> set (waiters k3 3 EVENT_SEM_Q) \<and> prio demo_held 3 = 200 \<and> prio k3 3 = 100 \<and>
     SemaphoreMPend (handle OBJECT_SEM_M 3) 10 [] demo_held = None"
  using mutex_pend_inherits [OF demo_held_ok(1) demo_held_thread(1) demo_held_ok(2) _ demo_held_facts(3) demo_held_thread(2) demo_held_facts(1), of 10]
  by (auto simp: demo_held_facts)
section \<open>A waiter that gives up\<close>

lemma unpend_event:
  assumes "wait_ok T k" and "oth_ok T k"
  shows "EVENT_pvTcbOwn (K_eventBuffer (unpend t k) e) = EVENT_pvTcbOwn (K_eventBuffer k e)" "EVENT_pvPtr (K_eventBuffer (unpend t k) e) = EVENT_pvPtr (K_eventBuffer k e)"
    "EVENT_ulCounter (K_eventBuffer (unpend t k) e) = EVENT_ulCounter (K_eventBuffer k e)" "prio (unpend t k) u = prio k u"
proof -
  note U = unpend_eq [OF assms]
  have "\<exists>e' q i. K_eventBuffer (unpend t k) = K_eventBuffer (ev_wq_upd e' q (wq_del_at i t) k) \<or> K_eventBuffer (unpend t k) = K_eventBuffer k"
    using U(10,11) by (cases "TCB_peventPtr (K_tcb k t)") blast+
  then show "EVENT_pvTcbOwn (K_eventBuffer (unpend t k) e) = EVENT_pvTcbOwn (K_eventBuffer k e)" "EVENT_pvPtr (K_eventBuffer (unpend t k) e) = EVENT_pvPtr (K_eventBuffer k e)"
    "EVENT_ulCounter (K_eventBuffer (unpend t k) e) = EVENT_ulCounter (K_eventBuffer k e)" by auto
  show "prio (unpend t k) u = prio k u" by (simp add: prio_def U unpend_tcb_def)
qed

lemma expire_event:
  assumes ok: "sys_ok T k" and d: "delayed k t"
  shows "EVENT_pvTcbOwn (K_eventBuffer (expire t k) e) = EVENT_pvTcbOwn (K_eventBuffer k e)" "EVENT_pvPtr (K_eventBuffer (expire t k) e) = EVENT_pvPtr (K_eventBuffer k e)"
    "EVENT_ulCounter (K_eventBuffer (expire t k) e) = EVENT_ulCounter (K_eventBuffer k e)" "prio (expire t k) u = prio k u"
proof -
  have i: "wait_ok T k" "req_ok T k" "oth_ok T k" "delay_ok k" using ok by (simp_all add: sys_ok_def ipc_ok_def)
  note K = WAKEUP_DEL_keeps [OF i d] and E = unpend_event [OF K(1,3), of t]
  have m: "K_eventBuffer (make_ready s a k') = K_eventBuffer k'" "prio (make_ready s a k') u = prio k' u" for s a k'
    by (simp_all add: make_ready_def Let_def prio_def)
  show "EVENT_pvTcbOwn (K_eventBuffer (expire t k) e) = EVENT_pvTcbOwn (K_eventBuffer k e)" "EVENT_pvPtr (K_eventBuffer (expire t k) e) = EVENT_pvPtr (K_eventBuffer k e)"
    "EVENT_ulCounter (K_eventBuffer (expire t k) e) = EVENT_ulCounter (K_eventBuffer k e)" "prio (expire t k) u = prio k u"
    by (simp_all add: expire_def Let_def m E) (simp_all add: prio_def)
qed

text \<open>
  C38: A thread waits for a mutex with priority inheritance for a limited time, and the time ends before the
  owner gives the mutex back. The owner was raised to the priority of the waiter. Its post finds
  nobody waiting and frees the mutex without restoring the priority the mutex kept, so the thread goes
  on at the priority of the waiter although it owns nothing.
\<close>

theorem mutex_boost_sticks:
  assumes "sys_ok T k" and "mutex_ok T k e" and "running T k c" and "EVENT_pvTcbOwn (K_eventBuffer k e) = Some w" and "w \<noteq> c"
    and "EVENT_pvPtr (K_eventBuffer k e) = 0" and "waiters k e EVENT_SEM_Q = []" and "EVENT_ulMaxCounter (K_eventBuffer k e) = ucast (prio k w)"
    and "EVENT_ulOption (K_eventBuffer k e) AND LW_OPTION_INHERIT_PRIORITY \<noteq> 0" and "TCB_iDeleteProcStatus (K_tcb k w) = 0"
    and "prio k c < prio k w" and "to \<noteq> LW_OPTION_NOT_WAIT" and "to \<noteq> LW_OPTION_WAIT_INFINITE"
  shows "\<exists>k'. semM_post e w (expire c (semM_block e c to k)) = (ERROR_NONE, True, k') \<and>
    EVENT_pvTcbOwn (K_eventBuffer k' e) = None \<and> waiters k' e EVENT_SEM_Q = [] \<and> prio k' w = prio k c \<and> prio k' w < prio k w"
proof -
  note B = semM_block_ok [OF assms(1-4), of to]
  let ?b = "semM_block e c to k"
  have d: "delayed ?b c"
  proof -
    let ?k = "EventPrioTryBoost e c k"
    have "sys_ok T ?k" using SchedSetPrio_sys [OF assms(1) mutex_okD(1,2) [OF assms(2,4)]] assms(1) by (simp add: Boost_eq [OF assms(4)])
    moreover have "LW_TCB_GET_CUR ?k = c" "K_ncpus ?k \<le> c" "LW_THREAD_IS_READY ?k c" "c \<in> T"
      using runningD [OF assms(3)] by (simp_all add: Boost_eq [OF assms(4)])
    ultimately show ?thesis using ev_block_spec(7) [of T ?k c LW_THREAD_STATUS_SEM to e EVENT_SEM_Q] assms(12,13) by (simp add: semM_block_def sys_ok_def)
  qed
  note E = expire_event [OF B(1) d] and X = expire_ok [OF B(1) d]
  let ?x = "expire c ?b"
  have "waiters ?x e EVENT_SEM_Q = remove1 c (waiters ?b e EVENT_SEM_Q)" using X(2) by (simp add: ended_def)
  moreover have "distinct (waiters ?b e EVENT_SEM_Q)" using wait_okD(5) [OF ipc_okD(3)] B(1) unfolding sys_ok_def by blast
  ultimately have w: "waiters ?x e EVENT_SEM_Q = []" using B(3) assms(7) by (simp flip: set_empty)
  have n: "EventWaitNum EVENT_SEM_Q e ?x = 0" using wait_num [of T ?x EVENT_SEM_Q e] X(1) w by (simp add: sys_ok_def)
  have c0: "EVENT_ulCounter (K_eventBuffer ?b e) = 0" by (rule mutex_okD(3) [OF B(2,4)])
  let ?f = "\<lambda>v. v\<lparr>EVENT_ulCounter := 1, EVENT_ulMaxCounter := ucast LW_PRIO_LOWEST, EVENT_pvTcbOwn := None\<rparr>"
  have R: "semM_post e w ?x = (ERROR_NONE, True, event_upd e ?f ?x)" using B(4,5) assms(6) n c0 by (simp add: semM_post_def E)
  have "waiters (event_upd e ?f ?x) = waiters ?x" by (rule event_upd_queues) simp_all
  moreover have "prio ?x w = prio k c" using B(6) [of w] assms(9-11) by (simp add: E boosted_def)
  ultimately show ?thesis using R w assms(11) by simp
qed

theorem mutex_boost_sticks_witness:
  "\<exists>k'. semM_post 3 3 (expire 2 (semM_block 3 2 10 demo_held)) = (ERROR_NONE, True, k') \<and> prio demo_held 3 = 200 \<and> prio k' 3 = 100"
  using mutex_boost_sticks [OF demo_held_ok(1-3) demo_held_facts(1), of 10] demo_held_ok(4) by (auto simp: demo_held_facts)
section \<open>Types of handles\<close>

lemma handle_class:
  assumes "cls < 64" and "e < LW_CFG_MAX_EVENTS"
  shows "ObjectGetClass (handle cls e) = ucast cls"
  using MakeObjectId_parts [OF assms(1), of LW_CFG_PROCESSOR_NUMBER "of_nat e"] by (simp add: handle_def)

lemma ucast_class: "(ucast (x :: u8) :: ulong) = ucast y \<longleftrightarrow> x = y"
proof
  assume "(ucast x :: ulong) = ucast y"
  then have "unat (ucast x :: ulong) = unat (ucast y :: ulong)" by simp
  moreover have "unat (ucast z :: ulong) = unat z" for z :: u8
  proof -
    have "unat z < 2 ^ LENGTH(8)" by (rule unsigned_less)
    then have "unat z < 2 ^ 64" by (rule order.strict_trans) simp
    then show ?thesis by (simp add: unsigned_ucast_eq take_bit_eq_mod)
  qed
  ultimately show "x = y" by (simp add: word_unat_eq_iff)
qed simp

text \<open>
  A call that is refused before it enters the kernel, and one that finds the wrong control block
  inside: the error code is reported, the kernel is entered and left, and no part of the body runs.
\<close>

definition refused :: "ulong \<Rightarrow> 'a \<Rightarrow> env \<Rightarrow> kernel \<Rightarrow> (ulong \<times> 'a \<times> env \<times> kernel) option" where
  "refused r out env k = Some (r, out, env, ErrorHandle r k)"

definition refused_inside :: "ulong \<Rightarrow> 'a \<Rightarrow> env \<Rightarrow> kernel \<Rightarrow> (ulong \<times> 'a \<times> env \<times> kernel) option" where
  "refused_inside r out env k = map_option (\<lambda>(_, env, k). (r, out, env, ErrorHandle r k)) (kernelExit env (kernelEnter k))"

lemma drop_refused [simp]:
  "drop_out (refused r out env k) = Some (r, env, ErrorHandle r k)"
  "drop_out (refused_inside r out env k) = map_option (\<lambda>(_, env, k). (r, env, ErrorHandle r k)) (kernelExit env (kernelEnter k))"
  by (simp add: drop_out_def refused_def) (cases "kernelExit env (kernelEnter k)", auto simp: drop_out_def refused_inside_def)

lemma semM_typed:
  assumes "e < LW_CFG_MAX_EVENTS" and "CpuGetNesting k = 0" and "K_ucSysStatus k = LW_SYS_STATUS_RUNNING" and "EVENT_ucType (K_eventBuffer k e) \<noteq> LW_TYPE_EVENT_MUTEX"
  shows "SemaphoreMPost (handle OBJECT_SEM_M e) env k = refused_inside ERROR_EVENT_TYPE Unsafe_Done env k"
    "SemaphoreMPend (handle OBJECT_SEM_M e) to env k = drop_out (refused_inside ERROR_EVENT_TYPE () env k)"
  unfolding drop_refused unfolding refused_inside_def using assms handle_parts [of OBJECT_SEM_M e]
  by (simp_all add: SemaphoreMPost_def SemaphoreMPend_def semM_pend.simps [of "handle OBJECT_SEM_M e"] Let_def
    Event_Index_Invalid_def Event_Type_Invalid_def enter_eq split: option.split)

lemma event_section_type:
  assumes "cls < 64" and "e < LW_CFG_MAX_EVENTS" and "EVENT_ucType (K_eventBuffer k e) \<noteq> ty"
  shows "event_section cls ty (handle cls e) out body env k = refused_inside ERROR_EVENT_TYPE out env k"
  using event_section_eq [OF assms(1,2), of ty out body env k] assms(3) by (simp add: exit_with_def refused_inside_def enter_eq kernelExitIrq_eq)

lemma sem_pend_typed:
  assumes "e < LW_CFG_MAX_EVENTS" and "CpuGetNesting k = 0" and "cls < 64" and "SK_class sk < 64"
  shows "cls \<noteq> SK_class sk \<Longrightarrow> sem_pend_api sk (handle cls e) to env k = refused ERROR_KERNEL_HANDLE_NULL None env k"
    "EVENT_ucType (K_eventBuffer k e) \<noteq> SK_type sk \<Longrightarrow>
       sem_pend_api sk (handle (SK_class sk) e) to env k = refused_inside ERROR_EVENT_TYPE None env k"
  using assms handle_parts [OF assms(3,1)] handle_parts [OF assms(4,1)]
  by (simp_all add: sem_pend_api_def sem_pend.simps [of sk "handle cls e"] sem_pend.simps [of sk "handle (SK_class sk) e"] Let_def refused_def
      refused_inside_def Event_Index_Invalid_def Event_Type_Invalid_def enter_eq kernelExitIrq_eq)

text \<open>
  C37: A handle has a type and no call mistakes it for another. Posting to and pending on counting
  and binary semaphores and mutexes, and setting an event set: with a handle of another class each
  call reports \<^verbatim>\<open>ERROR_KERNEL_HANDLE_NULL\<close> and changes nothing but the error code; with a handle of its
  own class whose control block has become something else each reports \<^verbatim>\<open>ERROR_EVENT_TYPE\<close>
  (\<^verbatim>\<open>ERROR_EVENTSET_TYPE\<close>), enters and leaves the kernel, and runs no part of its body.
\<close>

theorem handles_typed:
  assumes "cls < 64" and "e < LW_CFG_MAX_EVENTS" and "s < LW_CFG_MAX_EVENTSETS" and "CpuGetNesting k = 0" and "K_ucSysStatus k = LW_SYS_STATUS_RUNNING"
  shows "(cls \<noteq> OBJECT_SEM_C \<longrightarrow> SemaphoreCPost (handle cls e) env k = drop_out (refused ERROR_KERNEL_HANDLE_NULL () env k) \<and>
       SemaphoreCPend (handle cls e) to env k = drop_out (refused ERROR_KERNEL_HANDLE_NULL () env k)) \<and>
    (cls \<noteq> OBJECT_SEM_B \<longrightarrow> SemaphoreBPost (handle cls e) env k = drop_out (refused ERROR_KERNEL_HANDLE_NULL () env k) \<and>
       SemaphoreBPend (handle cls e) to env k = drop_out (refused ERROR_KERNEL_HANDLE_NULL () env k)) \<and>
    (cls \<noteq> OBJECT_SEM_M \<longrightarrow> SemaphoreMPost (handle cls e) env k = refused ERROR_KERNEL_HANDLE_NULL Unsafe_Done env k \<and>
       SemaphoreMPend (handle cls e) to env k = drop_out (refused ERROR_KERNEL_HANDLE_NULL () env k)) \<and>
    (cls \<noteq> OBJECT_EVENT_SET \<longrightarrow> EventSetSet (handle cls e) ev opt env k = refused ERROR_KERNEL_HANDLE_NULL () env k) \<and>
    (EVENT_ucType (K_eventBuffer k e) \<noteq> LW_TYPE_EVENT_SEMC \<longrightarrow>
       SemaphoreCPost (handle OBJECT_SEM_C e) env k = drop_out (refused_inside ERROR_EVENT_TYPE () env k) \<and>
       SemaphoreCPend (handle OBJECT_SEM_C e) to env k = drop_out (refused_inside ERROR_EVENT_TYPE () env k)) \<and>
    (EVENT_ucType (K_eventBuffer k e) \<noteq> LW_TYPE_EVENT_SEMB \<longrightarrow>
       SemaphoreBPost (handle OBJECT_SEM_B e) env k = drop_out (refused_inside ERROR_EVENT_TYPE () env k) \<and>
       SemaphoreBPend (handle OBJECT_SEM_B e) to env k = drop_out (refused_inside ERROR_EVENT_TYPE () env k)) \<and>
    (EVENT_ucType (K_eventBuffer k e) \<noteq> LW_TYPE_EVENT_MUTEX \<longrightarrow>
       SemaphoreMPost (handle OBJECT_SEM_M e) env k = refused_inside ERROR_EVENT_TYPE Unsafe_Done env k \<and>
       SemaphoreMPend (handle OBJECT_SEM_M e) to env k = drop_out (refused_inside ERROR_EVENT_TYPE () env k)) \<and>
    (EVENTSET_ucType (K_esBuffer k s) \<noteq> LW_TYPE_EVENT_EVENTSET \<longrightarrow>
       EventSetSet (handle OBJECT_EVENT_SET s) ev opt env k = refused_inside ERROR_EVENTSET_TYPE () env k)"
proof -
  note H = handle_parts [OF assms(1,2)]
  have D: "SemaphoreCPend h to env k = drop_out (sem_pend_api semC h to env k)" "SemaphoreBPend h to env k = drop_out (sem_pend_api semB h to env k)" for h
    by (simp_all only: SemaphoreCPend_def SemaphoreBPend_def drop_out_def)
  note P = sem_pend_typed [OF assms(2,4,1)]
  show ?thesis
  proof (intro conjI impI)
    show "SemaphoreCPost (handle cls e) env k = drop_out (refused ERROR_KERNEL_HANDLE_NULL () env k)"
      "SemaphoreCPend (handle cls e) to env k = drop_out (refused ERROR_KERNEL_HANDLE_NULL () env k)" if "cls \<noteq> OBJECT_SEM_C"
      using that P(1) [of semC to env] by (simp_all add: SemaphoreCPost_def D event_section_bad H drop_out_def refused_def semC_def)
    show "SemaphoreBPost (handle cls e) env k = drop_out (refused ERROR_KERNEL_HANDLE_NULL () env k)"
      "SemaphoreBPend (handle cls e) to env k = drop_out (refused ERROR_KERNEL_HANDLE_NULL () env k)" if "cls \<noteq> OBJECT_SEM_B"
      using that P(1) [of semB to env] by (simp_all add: SemaphoreBPost_def D event_section_bad H drop_out_def refused_def semB_def)
    show "SemaphoreMPost (handle cls e) env k = refused ERROR_KERNEL_HANDLE_NULL Unsafe_Done env k"
      "SemaphoreMPend (handle cls e) to env k = drop_out (refused ERROR_KERNEL_HANDLE_NULL () env k)" if "cls \<noteq> OBJECT_SEM_M"
      using that assms(4) by (simp_all add: SemaphoreMPost_def SemaphoreMPend_def semM_pend.simps [of "handle cls e"] Let_def H refused_def drop_out_def)
    show "EventSetSet (handle cls e) ev opt env k = refused ERROR_KERNEL_HANDLE_NULL () env k" if "cls \<noteq> OBJECT_EVENT_SET"
      using that by (simp add: EventSetSet_def es_section_def Let_def H refused_def)
    show "SemaphoreCPost (handle OBJECT_SEM_C e) env k = drop_out (refused_inside ERROR_EVENT_TYPE () env k)"
      "SemaphoreCPend (handle OBJECT_SEM_C e) to env k = drop_out (refused_inside ERROR_EVENT_TYPE () env k)" if "EVENT_ucType (K_eventBuffer k e) \<noteq> LW_TYPE_EVENT_SEMC"
      using that assms(2) P(2) [of semC to env] by (simp_all add: SemaphoreCPost_def event_section_type D semC_def)
    show "SemaphoreBPost (handle OBJECT_SEM_B e) env k = drop_out (refused_inside ERROR_EVENT_TYPE () env k)"
      "SemaphoreBPend (handle OBJECT_SEM_B e) to env k = drop_out (refused_inside ERROR_EVENT_TYPE () env k)" if "EVENT_ucType (K_eventBuffer k e) \<noteq> LW_TYPE_EVENT_SEMB"
      using that assms(2) P(2) [of semB to env] by (simp_all add: SemaphoreBPost_def event_section_type D semB_def)
    show "SemaphoreMPost (handle OBJECT_SEM_M e) env k = refused_inside ERROR_EVENT_TYPE Unsafe_Done env k"
      "SemaphoreMPend (handle OBJECT_SEM_M e) to env k = drop_out (refused_inside ERROR_EVENT_TYPE () env k)" if "EVENT_ucType (K_eventBuffer k e) \<noteq> LW_TYPE_EVENT_MUTEX"
      using semM_typed [OF assms(2,4,5) that] by simp_all
    show "EventSetSet (handle OBJECT_EVENT_SET s) ev opt env k = refused_inside ERROR_EVENTSET_TYPE () env k" if "EVENTSET_ucType (K_esBuffer k s) \<noteq> LW_TYPE_EVENT_EVENTSET"
      using that by (simp add: EventSetSet_def es_section_eq [OF assms(3)] exit_with_def refused_inside_def enter_eq kernelExitIrq_eq)
  qed
qed

text \<open>Event 0 is a counting semaphore, also for a caller whose handle says it is a mutex or a binary one.\<close>

theorem handles_typed_witness:
  "SemaphoreMPost (handle OBJECT_SEM_C 0) [] demo_sem = refused ERROR_KERNEL_HANDLE_NULL Unsafe_Done [] demo_sem \<and>
   SemaphoreMPend (handle OBJECT_SEM_M 0) 0 [] demo_sem = drop_out (refused_inside ERROR_EVENT_TYPE () [] demo_sem) \<and>
   SemaphoreBPost (handle OBJECT_SEM_B 0) [] demo_sem = drop_out (refused_inside ERROR_EVENT_TYPE () [] demo_sem)"
  using handles_typed [OF _ _ _ demo_sem_nesting demo_status, of OBJECT_SEM_C 0 0 "[]" 0 0 0] by (simp add: demo_sem_events)

section \<open>Priorities and wait queues\<close>

text \<open>
  C36: \<^verbatim>\<open>_SchedSetPrio\<close> does not move a waiting thread in a queue that is served by priority. A thread
  \<open>t\<close> that waits behind \<open>u\<close> is given a priority above that of \<open>u\<close>: it does not become ready, no wait
  queue and no status changes, the invariant of the system is kept, and the next wake of the queue
  still serves \<open>u\<close>, which now has the lower priority, while \<open>t\<close> goes on waiting. (The order of
  \<^verbatim>\<open>LW_OPTION_WAIT_PRIORITY\<close> is that of the priorities at the time of blocking.)
\<close>

theorem set_prio_order_stale:
  assumes "sys_ok T k" and "by_prio k e" and "waiters k e q = u # us" and "t \<in> set us" and "K_ncpus k \<le> t" and "p < prio k u"
  shows "sys_ok T (SchedSetPrio t p k) \<and> \<not> LW_THREAD_IS_READY (SchedSetPrio t p k) t \<and> waiters (SchedSetPrio t p k) = waiters k \<and>
    (\<forall>x. TCB_usStatus (K_tcb (SchedSetPrio t p k) x) = TCB_usStatus (K_tcb k x)) \<and>
    prio (SchedSetPrio t p k) t < prio (SchedSetPrio t p k) u \<and>
    (\<exists>k'. ev_wake e q msg d LW_THREAD_STATUS_SEM a (SchedSetPrio t p k) = (Some u, k') \<and> sys_ok T k' \<and>
       waiters k' e q = us \<and> \<not> LW_THREAD_IS_READY k' t \<and> prio k' t < prio k' u)"
proof -
  let ?k = "SchedSetPrio t p k"
  have w: "wait_ok T k" using assms(1) by (simp add: sys_ok_def ipc_ok_def)
  have tw: "waits_in k t e q" using wait_okD(2) [OF w, of t e q] assms(3,4) by simp
  then have P: "pending k t" "t \<in> T" using wait_okD(4) [OF w, of t e] by (auto simp: waits_in_def)
  have tu: "t \<noteq> u"
    using wait_okD(5) [OF w, of e q] assms(3,4) by auto
  have nr: "\<not> LW_THREAD_IS_READY k t" by (rule pending_not_ready [OF P(1)])
  have k: "?k = tcb_upd t (\<lambda>b. b\<lparr>TCB_ucPriority := p\<rparr>) k" using nr by (simp add: SchedSetPrio_def Let_def)
  have ok: "sys_ok T ?k" by (rule SchedSetPrio_sys [OF assms(1) P(2) assms(5)])
  have q: "waiters ?k = waiters k" "TCB_usStatus (K_tcb ?k x) = TCB_usStatus (K_tcb k x)" for x by (simp_all add: k)
  have p: "prio ?k t < prio ?k u" using assms(6) tu by (simp add: k prio_def)
  have i: "ipc_ok T ?k" using ok by (simp add: sys_ok_def)
  from ev_wake_spec [OF i, of e q u us msg d LW_THREAD_STATUS_SEM a] assms(3) q(1) obtain k' where
    W: "ev_wake e q msg d LW_THREAD_STATUS_SEM a ?k = (Some u, k')" "waiters k' e q = us"
      "\<And>x. x \<noteq> u \<Longrightarrow> TCB_usStatus (K_tcb k' x) = TCB_usStatus (K_tcb ?k x)" "\<And>x. TCB_ucPriority (K_tcb k' x) = TCB_ucPriority (K_tcb ?k x)" by metis
  have "sys_ok T k'" using ev_wake_sys [OF ok, of e q u us LW_THREAD_STATUS_SEM msg d a] assms(3) q(1) W(1) by simp
  moreover have "\<not> LW_THREAD_IS_READY k' t" "\<not> LW_THREAD_IS_READY ?k t" using nr W(3) [OF tu] q(2) by (simp_all add: LW_THREAD_IS_READY_def)
  moreover have "prio k' t < prio k' u" using p W(4) by (simp add: prio_def)
  ultimately show ?thesis using ok q p W(1,2) by blast
qed

text \<open>Threads 2 and 3 wait, in this order, for event 1, which serves by priority; both have the priority 100.\<close>

definition demo_two :: kernel where
  "demo_two = ev_block 1 EVENT_SEM_Q LW_THREAD_STATUS_SEM 0 (cpu_upd 0 (\<lambda>p. p\<lparr>CPU_ptcbTCBCur := Some 3\<rparr>)
     (ev_block 1 EVENT_SEM_Q LW_THREAD_STATUS_SEM 0 demo_sem))"

lemma demo_two: "sys_ok {0, 1, 2, 3} demo_two" "waiters demo_two 1 EVENT_SEM_Q = [2, 3]" "by_prio demo_two 1" "K_ncpus demo_two = 2" "prio demo_two u = prio demo u"
proof -
  let ?k1 = "ev_block 1 EVENT_SEM_Q LW_THREAD_STATUS_SEM 0 demo_sem"
  let ?k2 = "cpu_upd 0 (\<lambda>p. p\<lparr>CPU_ptcbTCBCur := Some 3\<rparr>) ?k1"
  note A = ev_block_spec [OF demo_sem_ok demo_sem_cur, where e = 1 and q = EVENT_SEM_Q and ty = LW_THREAD_STATUS_SEM and to = 0]
  have b0: "by_prio demo_sem 1" "prio_ok (prio demo_sem) (wq demo_sem 1 EVENT_SEM_Q)"
    by (simp_all add: by_prio_def prio_ok_def wq_def demo_sem_def demo_kernel event0_def)
  have pr: "prio demo_sem v = prio demo v" "prio demo 2 = 100" "prio demo 3 = 100" for v
    using erase_tcbD [OF demo_erase, of 2] erase_tcbD [OF demo_erase, of 3] by (simp_all add: demo_sem_def prio_def demo_boot_def demo_tcb_def tcb0_def)
  have s1: "sys_ok {0, 1, 2, 3} ?k1" by (rule ev_block_sys [OF demo_sem_sys demo_sem_cur]) simp_all
  have s2: "sys_ok {0, 1, 2, 3} ?k2" by (rule sys_ok_cpu [OF s1]) simp_all
  have c: "LW_TCB_GET_CUR ?k2 = 3" "K_ncpus ?k2 \<le> 3" "LW_THREAD_IS_READY ?k2 3"
    using A(4) [of 3] A(9) by (simp_all add: LW_TCB_GET_CUR_def ev_block_cpu demo_sem_tcb LW_THREAD_IS_READY_def demo_tcb_status)
  have w1: "wq ?k1 1 EVENT_SEM_Q = prio_enq (prio demo_sem) 2 (wq demo_sem 1 EVENT_SEM_Q)"
    using A(6) b0(1) by (simp add: wq_def ev_wq_upd_def enq_def)
  have l1: "waiters ?k1 1 EVENT_SEM_Q = [2]" using A(2) [of 1 EVENT_SEM_Q] b0 prio_enq_order [OF b0(2), of 2] demo_sem_events(1) [of 1 EVENT_SEM_Q]
    by (simp add: enq_def waiters_def)
  have b1: "by_prio ?k1 1" using A(6) b0(1) by (simp add: by_prio_def ev_wq_upd_def)
  have q2: "by_prio ?k2 1" "wq ?k2 1 EVENT_SEM_Q = wq ?k1 1 EVENT_SEM_Q" "waiters ?k2 1 EVENT_SEM_Q = [2]" "prio ?k2 v = prio demo v" for v
    using b1 l1 by (simp_all add: by_prio_def wq_def waiters_def ev_block_prio pr)
  have p2: "prio_ok (prio ?k2) (wq ?k2 1 EVENT_SEM_Q)"
  proof -
    have "prio ?k2 = prio demo_sem" by (rule ext) (simp only: q2(4) pr(1))
    then show ?thesis unfolding q2(2) w1 by (simp only:) (rule prio_ok_enq [OF b0(2)])
  qed
  have i2: "ipc_ok {0, 1, 2, 3} ?k2" using s2 by (simp add: sys_ok_def)
  note B = ev_block_spec [OF i2 c(1) _ c(2,3), where e = 1 and q = EVENT_SEM_Q and ty = LW_THREAD_STATUS_SEM and to = 0, folded demo_two_def]
  show "sys_ok {0, 1, 2, 3} demo_two" unfolding demo_two_def by (rule ev_block_sys [OF s2 c(1) _ c(2,3)]) simp_all
  show "waiters demo_two 1 EVENT_SEM_Q = [2, 3]" using B(2) [of 1 EVENT_SEM_Q] q2 prio_enq_order [OF p2, of 3]
    by (simp add: enq_def waiters_def pr)
  show "by_prio demo_two 1" using B(6) q2(1) by (simp add: by_prio_def ev_wq_upd_def)
  show "K_ncpus demo_two = 2" using B(9) A(9) by (simp add: demo_sem_tcb)
  show "prio demo_two u = prio demo u" unfolding demo_two_def ev_block_prio q2(4) ..
qed

theorem set_prio_order_stale_witness:
  "prio (SchedSetPrio 3 7 demo_two) 3 < prio (SchedSetPrio 3 7 demo_two) 2 \<and>
   (\<exists>k'. ev_wake 1 EVENT_SEM_Q 0 False LW_THREAD_STATUS_SEM LW_SCHED_ACT_OTHER (SchedSetPrio 3 7 demo_two) = (Some 2, k') \<and>
      waiters k' 1 EVENT_SEM_Q = [3] \<and> \<not> LW_THREAD_IS_READY k' 3)"
proof -
  have "prio demo 2 = 100" using erase_tcbD [OF demo_erase, of 2] by (simp add: prio_def demo_boot_def demo_tcb_def tcb0_def)
  then have "(7 :: u8) < prio demo_two 2" by (simp add: demo_two(5))
  from set_prio_order_stale [OF demo_two(1,3,2) _ _ this, of 3 0 False LW_SCHED_ACT_OTHER] show ?thesis by (auto simp: demo_two(4))
qed

end
