(* ===== verification/SemRWClaims.thy ===== *)
theory SemRWClaims
  imports SemRWInv MutexClaims
begin

text \<open>
  The properties of read-write semaphores: readers or one writer at a time, who comes in when the last
  one leaves, and what a writer that gives up leaves behind.
\<close>

section \<open>Who holds the semaphore\<close>

text \<open>
  The holders as ghost counts, of reading and of writing. A thread that has left a wait queue because
  somebody left the semaphore has been let in.
\<close>

type_synonym rw_ghost = "(tid \<Rightarrow> nat) \<times> (tid \<Rightarrow> nat)"

definition rw_inv :: "tid set \<Rightarrow> rw_ghost \<Rightarrow> rw_spec \<Rightarrow> bool" where
  "rw_inv T g s \<longleftrightarrow>
     (if rw_writing s then rw_count s = 1 \<and> (\<exists>w. rw_own s = Some w \<and> snd g = (\<lambda>c. if c = w then unat (rw_depth s) + 1 else 0)) \<and> fst g = (\<lambda>_. 0)
      else rw_own s = None \<and> rw_depth s = 0 \<and> snd g = (\<lambda>_. 0) \<and> (\<Sum>c\<in>T. fst g c) = unat (rw_count s) \<and> (\<forall>c. c \<notin> T \<longrightarrow> fst g c = 0)) \<and>
     (rw_count s = 0 \<longrightarrow> rw_readq s = [] \<and> rw_writeq s = [])"

definition rw_queues :: "tid set \<Rightarrow> rw_spec \<Rightarrow> bool" where
  "rw_queues T s \<longleftrightarrow> finite T \<and> card T < 2 ^ 64 \<and> distinct (rw_readq s) \<and> distinct (rw_writeq s) \<and> set (rw_readq s) \<subseteq> T"

definition ghost_post :: "tid \<Rightarrow> rw_spec \<Rightarrow> rw_spec \<Rightarrow> rw_ghost \<Rightarrow> rw_ghost" where
  "ghost_post c s s' g =
     (\<lambda>u. (if \<not> rw_writing s \<and> u = c then fst g u - 1 else fst g u) + (if u \<in> set (rw_readq s) - set (rw_readq s') then 1 else 0),
      \<lambda>u. (if rw_writing s \<and> u = c then snd g u - 1 else snd g u) + (if u \<in> set (rw_writeq s) - set (rw_writeq s') then 1 else 0))"

lemma sum_one:
  assumes "finite T" and "(\<Sum>c\<in>T. (f c :: nat)) = 1" and "0 < f c" and "\<forall>c. c \<notin> T \<longrightarrow> f c = 0"
  shows "f u = (if u = c then 1 else 0)"
proof -
  have c: "c \<in> T" using assms(3,4) by (metis less_numeral_extra(3))
  have "(\<Sum>c\<in>T. f c) = f c + (\<Sum>c\<in>T - {c}. f c)" by (rule sum.remove [OF assms(1) c])
  then have z: "f c = 1" "(\<Sum>c\<in>T - {c}. f c) = 0" using assms(2,3) by linarith+
  then show ?thesis using assms(1,4) by (cases "u = c"; cases "u \<in> T") (auto simp: sum_eq_0_iff)
qed

lemma sum_indicator: "finite T \<Longrightarrow> set xs \<subseteq> T \<Longrightarrow> distinct xs \<Longrightarrow> (\<Sum>u\<in>T. if u \<in> set xs then 1 else 0 :: nat) = length xs"
  by (simp add: sum.If_cases Int_absorb1 distinct_card)

text \<open>The last one leaves: whoever comes in, readers and writers stay apart.\<close>

lemma rw_inv_release:
  assumes Q: "rw_queues T s" and one: "rw_count s = 1" and d: "rw_depth s = 0" and i: "ign \<longrightarrow> rw_readq s \<noteq> []"
  shows "rw_inv T (\<lambda>u. if u \<in> set (rw_readq s) - set (rw_readq (spec_rw_release ign s)) then 1 else 0,
      \<lambda>u. if u \<in> set (rw_writeq s) - set (rw_writeq (spec_rw_release ign s)) then 1 else 0) (spec_rw_release ign s)"
proof (cases "rw_writeq s \<noteq> [] \<and> \<not> ign")
  case True
  then obtain w ws where w: "rw_writeq s = w # ws" by (cases "rw_writeq s") auto
  have n: "w \<notin> set ws" using Q w by (simp add: rw_queues_def)
  have r: "spec_rw_release ign s = s\<lparr>rw_writing := True, rw_own := Some w, rw_writeq := ws\<rparr>" using True by (simp add: spec_rw_release_def w)
  have "set (w # ws) - set ws = {w}" using n by auto
  then show ?thesis unfolding r using one d w by (simp add: rw_inv_def cong: if_cong)
next
  case False
  have T: "finite T" "set (rw_readq s) \<subseteq> T" "distinct (rw_readq s)" "card T < 2 ^ 64" using Q by (simp_all add: rw_queues_def)
  have "length (rw_readq s) \<le> card T" using card_mono [OF T(1,2)] T(3) by (simp add: distinct_card)
  with T(4) have "length (rw_readq s) < 2 ^ 64" by linarith
  then have u: "unat (of_nat (length (rw_readq s)) :: ulong) = length (rw_readq s)" by (simp add: unat_of_nat)
  then have z: "(of_nat (length (rw_readq s)) :: ulong) = 0 \<Longrightarrow> rw_readq s = []" by (metis length_0_conv unat_0)
  have r: "spec_rw_release ign s = s\<lparr>rw_writing := False, rw_own := None, rw_count := of_nat (length (rw_readq s)), rw_readq := []\<rparr>"
    using False one by (auto simp: spec_rw_release_def)
  have e: "(of_nat (length (rw_readq s)) :: ulong) = 0 \<Longrightarrow> rw_writeq s = []" using z False i by auto
  have o: "c \<notin> T \<Longrightarrow> c \<notin> set (rw_readq s)" for c using T(2) by auto
  show ?thesis unfolding r rw_inv_def using d u e o sum_indicator [OF T(1-3)] by simp
qed

lemma rw_inv_post:
  assumes I: "rw_inv T g s" and Q: "rw_queues T s" and P: "spec_rw_post pw c s = (r, rel, A, s')" and h: "\<not> rw_writing s \<longrightarrow> rw_count s \<noteq> 0 \<longrightarrow> 0 < fst g c"
  shows "rw_inv T (if r = ERROR_NONE then ghost_post c s s' g else g) s'"
proof -
  have T: "finite T" using Q by (simp add: rw_queues_def)
  consider "rw_count s = 0" | "rw_count s \<noteq> 0" "\<not> rw_writing s" "rw_count s > 1" | "rw_count s = 1" "\<not> rw_writing s"
    | "rw_writing s" "rw_own s \<noteq> Some c" | "rw_writing s" "rw_own s = Some c" "rw_depth s \<noteq> 0" | "rw_writing s" "rw_own s = Some c" "rw_depth s = 0"
  proof -
    have "rw_count s = 0 \<or> rw_count s = 1 \<or> rw_count s > 1" by (metis word_coorder.not_eq_extremum word_gt_0 word_less_1 linorder_neqE)
    then show ?thesis using that by blast
  qed
  then show ?thesis
  proof cases
    case 1
    then show ?thesis using P I by (simp add: spec_rw_post_def)
  next
    case 2
    have g: "0 < fst g c" "(\<Sum>u\<in>T. fst g u) = unat (rw_count s)" "\<forall>u. u \<notin> T \<longrightarrow> fst g u = 0" using h I 2 by (simp_all add: rw_inv_def)
    have c: "c \<in> T" using g(1,3) by (metis less_numeral_extra(3))
    have "(\<Sum>u\<in>T. if u = c then fst g u - 1 else fst g u) = (fst g c - 1) + (\<Sum>u\<in>T - {c}. fst g u)"
      unfolding sum.remove [OF T c, of "\<lambda>u. if u = c then fst g u - 1 else fst g u"] by simp
    also have "\<dots> = (\<Sum>u\<in>T. fst g u) - 1" using sum.remove [OF T c, of "fst g"] g(1) by linarith
    also have "\<dots> = unat (rw_count s - 1)" using 2(1) g(2) by (simp add: unat_minus_one)
    finally have "(\<Sum>u\<in>T. if u = c then fst g u - 1 else fst g u) = unat (rw_count s - 1)" .
    moreover have "rw_count s - 1 \<noteq> 0" using 2(3) by auto
    ultimately show ?thesis using P I 2 by (auto simp: spec_rw_post_def rw_inv_def ghost_post_def)
  next
    case 3
    have g: "0 < fst g c" "(\<Sum>u\<in>T. fst g u) = 1" "\<forall>u. u \<notin> T \<longrightarrow> fst g u = 0" "snd g = (\<lambda>_. 0)" "rw_depth s = 0" using h I 3 by (simp_all add: rw_inv_def)
    have z: "(if u = c then fst g u - 1 else fst g u) = 0" for u using sum_one [OF T g(2,1,3), of u] by (simp split: if_splits)
    from P 3 have s': "s' = spec_rw_release (\<not> pw \<and> rw_readq s \<noteq> []) s" "r = ERROR_NONE" by (auto simp: spec_rw_post_def Let_def)
    have "ghost_post c s s' g = (\<lambda>u. if u \<in> set (rw_readq s) - set (rw_readq s') then 1 else 0, \<lambda>u. if u \<in> set (rw_writeq s) - set (rw_writeq s') then 1 else 0)"
      using z 3(2) g(4) by (simp add: ghost_post_def fun_eq_iff)
    then show ?thesis unfolding s' using rw_inv_release [OF Q 3(1) g(5), of "\<not> pw \<and> rw_readq s \<noteq> []"] by simp
  next
    case 4
    then show ?thesis using P I by (auto simp: spec_rw_post_def rw_inv_def)
  next
    case 5
    then have "unat (rw_depth s - 1) + 1 = unat (rw_depth s)" by (simp add: unat_minus_one unat_gt_0)
    moreover have "rw_count s = 1" using I 5 by (simp add: rw_inv_def)
    ultimately show ?thesis using P I 5 by (auto simp: spec_rw_post_def rw_inv_def ghost_post_def fun_eq_iff)
  next
    case 6
    have g: "rw_count s = 1" "snd g = (\<lambda>u. if u = c then 1 else 0)" "fst g = (\<lambda>_. 0)" using I 6 by (auto simp: rw_inv_def)
    from P 6 g(1) have s': "s' = spec_rw_release False s" "r = ERROR_NONE" by (auto simp: spec_rw_post_def)
    have "ghost_post c s s' g = (\<lambda>u. if u \<in> set (rw_readq s) - set (rw_readq s') then 1 else 0, \<lambda>u. if u \<in> set (rw_writeq s) - set (rw_writeq s') then 1 else 0)"
      using 6(1) g by (simp add: ghost_post_def fun_eq_iff)
    then show ?thesis unfolding s' using rw_inv_release [OF Q g(1) 6(3), of False] by simp
  qed
qed
lemma rw_queues_ok:
  assumes "sys_ok T k"
  shows "rw_queues T (rw_abs k e)"
proof -
  have i: "ipc_ok T k" using assms by (simp add: sys_ok_def)
  then have t: "T \<subseteq> {..<LW_CFG_MAX_THREADS}" by (simp add: ipc_ok_def)
  note w = ipc_okD(3) [OF i]
  have "set (waiters k e q) \<subseteq> T" for q
    using wait_okD(2) [OF w, of _ e q] wait_okD(4) [OF w, of _ e] by (auto simp: waits_in_def)
  moreover have "finite T" "card T \<le> LW_CFG_MAX_THREADS" using finite_subset [OF t] card_mono [OF _ t] by simp_all
  ultimately show ?thesis using wait_okD(5) [OF w] unfolding rw_queues_def rw_abs_def by simp
qed

text \<open>
  The threads that use one semaphore, with anything else that leaves it alone in between; a waiting
  thread may give up meanwhile. A thread that leaves while the semaphore is read has come in as a
  reader, which the code takes for granted; there are less than \<open>2 ^ 64\<close> readers and nested writes.
\<close>

definition rw_kept :: "nat \<Rightarrow> kernel \<Rightarrow> kernel \<Rightarrow> bool" where
  "rw_kept e k k' \<longleftrightarrow> EVENT_pvTcbOwn (K_eventBuffer k' e) = EVENT_pvTcbOwn (K_eventBuffer k e) \<and>
     EVENT_pvPtr (K_eventBuffer k' e) = EVENT_pvPtr (K_eventBuffer k e) \<and> EVENT_ulCounter (K_eventBuffer k' e) = EVENT_ulCounter (K_eventBuffer k e) \<and>
     EVENT_iStatus (K_eventBuffer k' e) = EVENT_iStatus (K_eventBuffer k e) \<and> set (waiters k' e EVENT_RW_Q_R) \<subseteq> set (waiters k e EVENT_RW_Q_R) \<and>
     set (waiters k' e EVENT_RW_Q_W) \<subseteq> set (waiters k e EVENT_RW_Q_W)"

definition ghost_read :: "tid \<Rightarrow> rw_ghost \<Rightarrow> rw_ghost" where
  "ghost_read c g = ((fst g)(c := fst g c + 1), snd g)"

definition ghost_write :: "tid \<Rightarrow> rw_ghost \<Rightarrow> rw_ghost" where
  "ghost_write c g = (fst g, (snd g)(c := snd g c + 1))"

inductive rw_step :: "tid set \<Rightarrow> nat \<Rightarrow> rw_ghost \<times> kernel \<Rightarrow> rw_ghost \<times> kernel \<Rightarrow> bool" for T :: "tid set" and e :: nat where
  TakeR: "running T k c \<Longrightarrow> EVENT_ulCounter (K_eventBuffer k e) + 1 \<noteq> 0 \<Longrightarrow> semRW_tryR e c to k = Some (r, k') \<Longrightarrow>
    rw_step T e (g, k) (if r = ERROR_NONE then ghost_read c g else g, k')"
| TakeW: "running T k c \<Longrightarrow> snd g c < 2 ^ 64 \<Longrightarrow> semRW_tryW e c to k = Some (r, k') \<Longrightarrow>
    rw_step T e (g, k) (if r = ERROR_NONE then ghost_write c g else g, k')"
| WaitR: "running T k c \<Longrightarrow> semRW_tryR e c to k = None \<Longrightarrow> rw_step T e (g, k) (g, ev_block e EVENT_RW_Q_R LW_THREAD_STATUS_SEM to k)"
| WaitW: "running T k c \<Longrightarrow> semRW_tryW e c to k = None \<Longrightarrow> rw_step T e (g, k) (g, ev_block e EVENT_RW_Q_W LW_THREAD_STATUS_SEM to k)"
| Give: "running T k c \<Longrightarrow> (EVENT_iStatus (K_eventBuffer k e) = EVENT_RW_STATUS_R \<longrightarrow> EVENT_ulCounter (K_eventBuffer k e) \<noteq> 0 \<longrightarrow> 0 < fst g c) \<Longrightarrow>
    semRW_post e c k = Some (r, released, k') \<Longrightarrow>
    rw_step T e (g, k) (if r = ERROR_NONE then ghost_post c (rw_abs k e) (rw_abs k' e) g else g, k')"
| Other: "sys_step T k k' \<Longrightarrow> rw_kept e k k' \<Longrightarrow> rw_step T e (g, k) (g, k')"

lemma rw_inv_read:
  assumes I: "rw_inv T g s" and T: "finite T" "c \<in> T" and n: "rw_count s + 1 \<noteq> 0" and S: "spec_rw_read to s = Some (r, s')"
  shows "rw_inv T (if r = ERROR_NONE then ghost_read c g else g) s'"
proof (cases "\<not> rw_writing s \<and> rw_writeq s = []")
  case True
  have g: "(\<Sum>u\<in>T. fst g u) = unat (rw_count s)" "\<forall>u. u \<notin> T \<longrightarrow> fst g u = 0" "snd g = (\<lambda>_. 0)" "rw_own s = None" "rw_depth s = 0"
    using I True by (simp_all add: rw_inv_def)
  have "(\<Sum>u\<in>T. ((fst g)(c := fst g c + 1)) u) = (\<Sum>u\<in>T. fst g u) + 1"
    unfolding sum.remove [OF T, of "fst g"] sum.remove [OF T, of "(fst g)(c := fst g c + 1)"] by simp
  moreover have "unat (rw_count s + 1) = unat (rw_count s) + 1" using n by (metis Suc_eq_plus1 add.commute unatSuc)
  ultimately show ?thesis using S True g T(2) n by (auto simp: spec_rw_read_def rw_inv_def ghost_read_def)
next
  case False
  then show ?thesis using S I by (auto simp: spec_rw_read_def split: if_splits)
qed

lemma rw_inv_write:
  assumes I: "rw_inv T g s" and T: "finite T" and n: "snd g c < 2 ^ 64" and S: "spec_rw_write c to s = Some (r, s')"
  shows "rw_inv T (if r = ERROR_NONE then ghost_write c g else g) s'"
proof -
  consider "rw_count s = 0" | "rw_count s \<noteq> 0" "rw_own s = Some c" | "rw_count s \<noteq> 0" "rw_own s \<noteq> Some c" by blast
  then show ?thesis
  proof cases
    case 1
    then have g: "\<not> rw_writing s" using I by (auto simp: rw_inv_def)
    then have h: "snd g = (\<lambda>_. 0)" "rw_depth s = 0" "(\<Sum>u\<in>T. fst g u) = 0" "\<forall>u. u \<notin> T \<longrightarrow> fst g u = 0" using I 1 by (simp_all add: rw_inv_def)
    have z: "fst g = (\<lambda>_. 0)"
    proof
      show "fst g u = 0" for u using h(3,4) T by (cases "u \<in> T") simp_all
    qed
    show ?thesis using S 1 h(1,2) z by (auto simp: spec_rw_write_def rw_inv_def ghost_write_def fun_eq_iff)
  next
    case 2
    then have w: "rw_writing s" using I by (auto simp: rw_inv_def split: if_splits)
    then have h: "rw_count s = 1" "snd g = (\<lambda>u. if u = c then unat (rw_depth s) + 1 else 0)" "fst g = (\<lambda>_. 0)" using I 2 by (auto simp: rw_inv_def)
    then have "unat (rw_depth s) + 1 < 2 ^ 64" using n by simp
    then have "unat (rw_depth s + 1) = unat (rw_depth s) + 1" by (simp add: unat_word_ariths)
    then show ?thesis using S 2 w h by (auto simp: spec_rw_write_def rw_inv_def ghost_write_def fun_eq_iff)
  next
    case 3
    then show ?thesis using S I by (auto simp: spec_rw_write_def split: if_splits)
  qed
qed

text \<open>Nobody waits unless somebody holds the semaphore; changes of the queues keep the rest.\<close>

lemma rw_inv_queue:
  assumes "rw_inv T g s" and "rw_count s \<noteq> 0 \<or> rw_readq s' = [] \<and> rw_writeq s' = []"
    and "rw_writing s' = rw_writing s" "rw_count s' = rw_count s" "rw_own s' = rw_own s" "rw_depth s' = rw_depth s"
  shows "rw_inv T g s'"
  using assms by (auto simp: rw_inv_def cong: if_cong)

lemma rw_inv_busy:
  assumes "rw_inv T g s"
  shows "rw_writing s \<Longrightarrow> rw_count s \<noteq> 0" "rw_writeq s \<noteq> [] \<Longrightarrow> rw_count s \<noteq> 0"
  using assms by (auto simp: rw_inv_def)

lemma rw_block_inv:
  assumes ok: "sys_ok T k" and c: "running T k c" and I: "rw_inv T g (rw_abs k e)" and n: "rw_count (rw_abs k e) \<noteq> 0"
  shows "rw_inv T g (rw_abs (ev_block e q LW_THREAD_STATUS_SEM to k) e)"
  by (rule rw_inv_queue [OF I]) (use n rwviewD [OF semRW_block_ok(2) [OF ok c, where q = q and e = e and to = to]] in \<open>simp_all add: rw_abs_def\<close>)

lemma rw_step_inv: "rw_step T e s s' \<Longrightarrow> sys_ok T (snd s) \<and> rw_inv T (fst s) (rw_abs (snd s) e) \<Longrightarrow> sys_ok T (snd s') \<and> rw_inv T (fst s') (rw_abs (snd s') e)"
proof (induction rule: rw_step.induct)
  case (TakeR k c to r k' g)
  then have I: "sys_ok T k" "rw_inv T g (rw_abs k e)" by simp_all
  have S: "spec_rw_read to (rw_abs k e) = Some (r, rw_abs k' e)" using semRW_tryR_ok(1) [OF I(1), of e c to] TakeR.hyps(3) by simp
  have T: "finite T" "c \<in> T" using rw_queues_ok [OF I(1), of e] runningD [OF TakeR.hyps(1)] by (simp_all add: rw_queues_def)
  have n: "rw_count (rw_abs k e) + 1 \<noteq> 0" using TakeR.hyps(2) by (simp add: rw_abs_def)
  show ?case using semRW_tryR_ok(2) [OF I(1) TakeR.hyps(3)] rw_inv_read [OF I(2) T n S] by simp
next
  case (TakeW k c g to r k')
  then have I: "sys_ok T k" "rw_inv T g (rw_abs k e)" by simp_all
  have S: "spec_rw_write c to (rw_abs k e) = Some (r, rw_abs k' e)" using semRW_tryW_ok(1) [OF I(1), of e c to] TakeW.hyps(3) by simp
  have T: "finite T" using rw_queues_ok [OF I(1), of e] by (simp add: rw_queues_def)
  show ?case using semRW_tryW_ok(2) [OF I(1) TakeW.hyps(3)] rw_inv_write [OF I(2) T TakeW.hyps(2) S] by simp
next
  case (WaitR k c to g)
  then have I: "sys_ok T k" "rw_inv T g (rw_abs k e)" by simp_all
  have "spec_rw_read to (rw_abs k e) = None" using semRW_tryR_ok(1) [OF I(1), of e c to] WaitR.hyps(2) by simp
  then have n: "rw_count (rw_abs k e) \<noteq> 0" using rw_inv_busy [OF I(2)] by (auto simp: spec_rw_read_def split: if_splits)
  show ?case using semRW_block_ok(1) [OF I(1) WaitR.hyps(1)] rw_block_inv [OF I(1) WaitR.hyps(1) I(2) n] by simp
next
  case (WaitW k c to g)
  then have I: "sys_ok T k" "rw_inv T g (rw_abs k e)" by simp_all
  have "spec_rw_write c to (rw_abs k e) = None" using semRW_tryW_ok(1) [OF I(1), of e c to] WaitW.hyps(2) by simp
  then have n: "rw_count (rw_abs k e) \<noteq> 0" by (auto simp: spec_rw_write_def split: if_splits)
  show ?case unfolding fst_conv snd_conv
    using semRW_block_ok(1) [OF I(1) WaitW.hyps(1), where q = EVENT_RW_Q_W] rw_block_inv [OF I(1) WaitW.hyps(1) I(2) n] by blast
next
  case (Give k c g r released k')
  then have I: "sys_ok T k" "rw_inv T g (rw_abs k e)" by simp_all
  from semRW_post_ok [OF I(1), of e c] Give.hyps(3) obtain A where
    P: "spec_rw_post (EVENT_ulOption (K_eventBuffer k e) AND LW_OPTION_RW_PREFER_WRITER \<noteq> 0) c (rw_abs k e) = (r, released, A, rw_abs k' e)" "sys_ok T k'" by auto
  have h: "\<not> rw_writing (rw_abs k e) \<longrightarrow> rw_count (rw_abs k e) \<noteq> 0 \<longrightarrow> 0 < fst g c" using Give.hyps(2) by (simp add: rw_abs_def)
  show ?case using P(2) rw_inv_post [OF I(2) rw_queues_ok [OF I(1)] P(1) h] by simp
next
  case (Other k k' g)
  then have I: "sys_ok T k" "rw_inv T g (rw_abs k e)" by simp_all
  have q: "waiters k' e EVENT_RW_Q_R = []" "waiters k' e EVENT_RW_Q_W = []" if "EVENT_ulCounter (K_eventBuffer k e) = 0"
    using I(2) Other.hyps(2) that unfolding rw_inv_def rw_kept_def rw_abs_def by auto
  have "rw_inv T g (rw_abs k' e)" by (rule rw_inv_queue [OF I(2)]) (use Other.hyps(2) q in \<open>auto simp only: rw_abs_def rw_kept_def rw_spec.simps\<close>)
  then show ?case using sys_step_ok [OF Other.hyps(1)] I(1) by simp
qed

lemma rw_steps_inv: "(rw_step T e)\<^sup>*\<^sup>* s s' \<Longrightarrow> sys_ok T (snd s) \<and> rw_inv T (fst s) (rw_abs (snd s) e) \<Longrightarrow> sys_ok T (snd s') \<and> rw_inv T (fst s') (rw_abs (snd s') e)"
proof (induction rule: rtranclp_induct)
  case (step y z)
  then show ?case using rw_step_inv [OF step.hyps(2)] by blast
qed

text \<open>A semaphore that nobody holds and nobody waits for, as it is created.\<close>

definition rw_free :: "kernel \<Rightarrow> nat \<Rightarrow> bool" where
  "rw_free k e \<longleftrightarrow> rw_abs k e = \<lparr>rw_writing = False, rw_count = 0, rw_own = None, rw_depth = 0, rw_readq = [], rw_writeq = []\<rparr>"

text \<open>
  C8: Readers or one writer. Threads read, write, wait for and leave a read-write semaphore that is free at
  first, in any order, waiting threads give up, and any other steps of the system happen in between: at every
  moment at most one thread writes, then nobody reads, and the writer is the owner in the control
  block and has come in once more than the block counts nested entries; otherwise the block counts the
  readers; while nobody is inside, nobody waits. Threads come in by a call that does not wait or by the
  call of another thread that leaves. The invariant of the system is kept.
\<close>

theorem rw_exclusion:
  assumes "sys_ok T k" and "rw_free k e" and "(rw_step T e)\<^sup>*\<^sup>* ((\<lambda>_. 0, \<lambda>_. 0), k) ((rd, wr), k')"
  shows "(\<forall>c d. 0 < wr c \<and> 0 < wr d \<longrightarrow> c = d) \<and> (\<forall>c d. 0 < wr c \<longrightarrow> rd d = 0) \<and>
    (\<forall>c. 0 < wr c \<longrightarrow> EVENT_pvTcbOwn (K_eventBuffer k' e) = Some c \<and> wr c = unat (EVENT_pvPtr (K_eventBuffer k' e)) + 1) \<and>
    ((\<forall>c. wr c = 0) \<longrightarrow> unat (EVENT_ulCounter (K_eventBuffer k' e)) = (\<Sum>c\<in>T. rd c) \<and> EVENT_iStatus (K_eventBuffer k' e) = EVENT_RW_STATUS_R) \<and>
    ((\<forall>c. rd c = 0 \<and> wr c = 0) \<longrightarrow> waiters k' e EVENT_RW_Q_R = [] \<and> waiters k' e EVENT_RW_Q_W = []) \<and> sys_ok T k'"
proof -
  have "rw_inv T (\<lambda>_. 0, \<lambda>_. 0) (rw_abs k e)" using assms(2) by (simp add: rw_inv_def rw_free_def)
  then have I: "sys_ok T k'" "rw_inv T (rd, wr) (rw_abs k' e)" using rw_steps_inv [OF assms(3)] assms(1) by simp_all
  show ?thesis
  proof (cases "rw_writing (rw_abs k' e)")
    case True
    then obtain w where "rw_own (rw_abs k' e) = Some w" "wr = (\<lambda>c. if c = w then unat (rw_depth (rw_abs k' e)) + 1 else 0)" "rd = (\<lambda>_. 0)"
      using I(2) by (auto simp: rw_inv_def)
    then have "EVENT_pvTcbOwn (K_eventBuffer k' e) = Some w" "wr = (\<lambda>c. if c = w then unat (EVENT_pvPtr (K_eventBuffer k' e)) + 1 else 0)" "rd = (\<lambda>_. 0)"
      by (simp_all add: rw_abs_def cong: if_cong)
    then show ?thesis using I(1) by auto
  next
    case False
    then have W: "wr = (\<lambda>_. 0)" "(\<Sum>c\<in>T. rd c) = unat (EVENT_ulCounter (K_eventBuffer k' e))" "EVENT_iStatus (K_eventBuffer k' e) = EVENT_RW_STATUS_R"
      "EVENT_ulCounter (K_eventBuffer k' e) = 0 \<Longrightarrow> waiters k' e EVENT_RW_Q_R = [] \<and> waiters k' e EVENT_RW_Q_W = []"
      using I(2) unfolding rw_inv_def rw_abs_def by auto
    have z: "EVENT_ulCounter (K_eventBuffer k' e) = 0" if "\<forall>c. rd c = 0" using W(2) that by (simp add: unat_eq_zero)
    show ?thesis using I(1) W z by simp
  qed
qed

text \<open>Event 5 is a free read-write semaphore.\<close>

definition demo_rw :: kernel where
  "demo_rw = event_upd 5 (\<lambda>v. v\<lparr>EVENT_ucType := LW_TYPE_EVENT_SEMRW\<rparr>) demo_sem"

lemma demo_rw_ok: "sys_ok {0, 1, 2, 3} demo_rw" "running {0, 1, 2, 3} demo_rw 2" "waiters demo_rw e q = []" "rw_free demo_rw 5"
    "EVENT_ulOption (K_eventBuffer demo_rw 5) = 0"
proof -
  show "sys_ok {0, 1, 2, 3} demo_rw" unfolding demo_rw_def by (rule sys_ok_event [OF demo_sem_sys]) simp_all
  show "running {0, 1, 2, 3} demo_rw 2" using demo_running by (simp add: demo_rw_def running_def LW_TCB_GET_CUR_def LW_THREAD_IS_READY_def)
  have "waiters demo_rw = waiters demo_sem" unfolding demo_rw_def by (rule event_upd_queues) simp_all
  then show w: "waiters demo_rw e q = []" for e q by (simp add: demo_sem_events)
  have "EVENT_iStatus (K_eventBuffer demo_rw 5) = 0" "EVENT_ulCounter (K_eventBuffer demo_rw 5) = 0" "EVENT_pvTcbOwn (K_eventBuffer demo_rw 5) = None"
    "EVENT_pvPtr (K_eventBuffer demo_rw 5) = 0" by (simp_all add: demo_rw_def demo_sem_def demo_kernel event0_def)
  then show "rw_free demo_rw 5" unfolding rw_free_def rw_abs_def w by simp
  show "EVENT_ulOption (K_eventBuffer demo_rw 5) = 0" by (simp add: demo_rw_def demo_sem_def demo_kernel event0_def)
qed

theorem rw_exclusion_witness:
  "\<exists>k'. (rw_step {0, 1, 2, 3} 5)\<^sup>*\<^sup>* ((\<lambda>_. 0, \<lambda>_. 0), demo_rw) ((\<lambda>_. 0, (\<lambda>_. 0)(2 := 1)), k') \<and> EVENT_pvTcbOwn (K_eventBuffer k' 5) = Some 2 \<and> sys_ok {0, 1, 2, 3} k'"
proof -
  have "EVENT_ulCounter (K_eventBuffer demo_rw 5) = 0" using demo_rw_ok(4) by (simp add: rw_free_def rw_abs_def)
  then obtain k' where t: "semRW_tryW 5 2 0 demo_rw = Some (ERROR_NONE, k')" by (simp add: semRW_tryW_def Let_def)
  have "rw_step {0, 1, 2, 3} 5 ((\<lambda>_. 0, \<lambda>_. 0), demo_rw) ((\<lambda>_. 0, (\<lambda>_. 0)(2 := 1)), k')"
    using rw_step.TakeW [OF demo_rw_ok(2) _ t, of "(\<lambda>_. 0, \<lambda>_. 0)"] by (simp add: ghost_write_def)
  then have s: "(rw_step {0, 1, 2, 3} 5)\<^sup>*\<^sup>* ((\<lambda>_. 0, \<lambda>_. 0), demo_rw) ((\<lambda>_. 0, (\<lambda>_. 0)(2 := 1)), k')" by blast
  note X = rw_exclusion [OF demo_rw_ok(1,4) s]
  have o: "EVENT_pvTcbOwn (K_eventBuffer k' 5) = Some 2" using conjunct1 [OF conjunct2 [OF conjunct2 [OF X]], THEN spec, of 2] by simp
  show ?thesis by (intro exI [of _ k'] conjI s o) (use X in blast)
qed

section \<open>Leaving\<close>

lemma SemaphoreRWPost_eq:
  assumes "e < LW_CFG_MAX_EVENTS" and "EVENT_ucType (K_eventBuffer k e) = LW_TYPE_EVENT_SEMRW" and "CpuGetNesting k = 0"
    and "K_ucSysStatus k = LW_SYS_STATUS_RUNNING" and "semRW_post e (LW_TCB_GET_CUR k) (kernelEnterIrq k) = Some (r, released, k1)"
  shows "SemaphoreRWPost (handle OBJECT_SEM_RW e) env k = (case kernelExit env k1 of None \<Rightarrow> None | Some (_, env, k2) \<Rightarrow>
     if released \<and> EVENT_ulOption (K_eventBuffer k2 e) AND LW_OPTION_DELETE_SAFE \<noteq> 0
     then map_option (\<lambda>(n, env, k). (ERROR_NONE, n, env, k)) (ThreadUnsafeInternal env k2)
     else Some (r, Unsafe_Done, env, ErrorHandle r k2))"
  using assms handle_parts [of OBJECT_SEM_RW e] by (simp add: SemaphoreRWPost_def Let_def Event_Index_Invalid_def Event_Type_Invalid_def enter_eq)

lemma enter_rw [simp]: "rw_abs (kernelEnterIrq k) e = rw_abs k e" "rw_let_in A (kernelEnterIrq k) k' = rw_let_in A k k'"
  by (simp_all add: rw_abs_def rw_let_in_def sem_rdy_def)

lemma rw_in_waiting:
  assumes ok: "sys_ok T k" and S: "spec_rw_post pw c (rw_abs k e) = (r, rel, A, s)" and t: "t \<in> A"
  shows "TCB_ucWaitTimeout (K_tcb k t) = 0"
proof -
  have i: "wait_ok T k" using ok by (simp add: sys_ok_def ipc_ok_def)
  have "t \<in> set (rw_readq (rw_abs k e)) \<or> t \<in> set (rw_writeq (rw_abs k e))"
    using S t by (auto simp: spec_rw_post_def spec_rw_in_def Let_def split: if_splits)
  then have "t \<in> set (waiters k e EVENT_RW_Q_R) \<or> t \<in> set (waiters k e EVENT_RW_Q_W)" by (simp only: rw_abs_def rw_spec.simps)
  then have "TCB_peventPtr (K_tcb k t) = Some e" using wait_okD(2) [OF i, of t e] by (auto simp: waits_in_def)
  then show ?thesis using wait_okD(4) [OF i] by blast
qed

text \<open>
  C9: \<^verbatim>\<open>API_SemaphoreRWPost\<close> implements the abstract semaphore. A thread that holds nothing, or is not the writer, gets
  \<^verbatim>\<open>ERROR_EVENT_NOT_OWN\<close> and changes nothing; a nested entry of the writer and a reader that is not the last one are
  counted down. When the last one leaves, the first waiting writer comes in or all waiting readers do:
  after a writer the writer has precedence, after a reader only when the semaphore prefers writers or
  no reader waits. Exactly the threads that come in are woken, and their calls end with success. The
  invariant of the system is kept, the loop over the readers ends, the kernel is then left, and a
  delete-safe semaphore ends the safe mode of the caller.
\<close>

theorem rw_post_refines:
  assumes "sys_ok T k" and "LW_TCB_GET_CUR k = c" and "CpuGetNesting k = 0" and "e < LW_CFG_MAX_EVENTS"
    and "EVENT_ucType (K_eventBuffer k e) = LW_TYPE_EVENT_SEMRW" and "K_ucSysStatus k = LW_SYS_STATUS_RUNNING"
  shows "\<exists>r released A k1. sys_ok T k1 \<and>
    spec_rw_post (EVENT_ulOption (K_eventBuffer k e) AND LW_OPTION_RW_PREFER_WRITER \<noteq> 0) c (rw_abs k e) = (r, released, A, rw_abs k1 e) \<and>
    rw_let_in A k k1 \<and> (\<forall>t \<in> A. TCB_ucIsEventDelete (K_tcb k t) = LW_EVENT_EXIST \<longrightarrow> pend_result t k1 = ERROR_NONE) \<and>
    SemaphoreRWPost (handle OBJECT_SEM_RW e) env k = (case kernelExit env k1 of None \<Rightarrow> None | Some (_, env, k2) \<Rightarrow>
      if released \<and> EVENT_ulOption (K_eventBuffer k2 e) AND LW_OPTION_DELETE_SAFE \<noteq> 0
      then map_option (\<lambda>(n, env, k). (ERROR_NONE, n, env, k)) (ThreadUnsafeInternal env k2)
      else Some (r, Unsafe_Done, env, ErrorHandle r k2))"
proof -
  let ?k = "kernelEnterIrq k"
  have S: "sys_ok T ?k" using sys_ok_enter(1) [OF assms(1)] .
  from semRW_post_ok [OF S, of e c] obtain r rel A k1 where
    P: "spec_rw_post (EVENT_ulOption (K_eventBuffer k e) AND LW_OPTION_RW_PREFER_WRITER \<noteq> 0) c (rw_abs k e) = (r, rel, A, rw_abs k1 e)"
      "semRW_post e c ?k = Some (r, rel, k1)" "sys_ok T k1" "rw_let_in A k k1" by auto
  have w: "\<forall>t \<in> A. TCB_ucIsEventDelete (K_tcb k t) = LW_EVENT_EXIST \<longrightarrow> pend_result t k1 = ERROR_NONE"
    using rw_in_waiting [OF assms(1) P(1)] P(4) by (simp add: rw_let_in_def rview_wait_def pend_result_def)
  have "SemaphoreRWPost (handle OBJECT_SEM_RW e) env k = (case kernelExit env k1 of None \<Rightarrow> None | Some (_, env, k2) \<Rightarrow>
      if rel \<and> EVENT_ulOption (K_eventBuffer k2 e) AND LW_OPTION_DELETE_SAFE \<noteq> 0
      then map_option (\<lambda>(n, env, k). (ERROR_NONE, n, env, k)) (ThreadUnsafeInternal env k2)
      else Some (r, Unsafe_Done, env, ErrorHandle r k2))"
    by (rule SemaphoreRWPost_eq [OF assms(4,5,3,6)]) (simp add: assms(2) P(2))
  then show ?thesis using P(1,3,4) w by blast
qed

text \<open>One reader is inside, thread 2 waits to write for ten ticks, and thread 3 runs.\<close>

definition demo_reading :: kernel where
  "demo_reading = set_counter 5 1 demo_rw"

definition demo_rwq :: kernel where
  "demo_rwq = cpu_upd 0 (\<lambda>p. p\<lparr>CPU_ptcbTCBCur := Some 3\<rparr>) (ev_block 5 EVENT_RW_Q_W LW_THREAD_STATUS_SEM 10 demo_reading)"

lemma demo_reading_ok: "sys_ok {0, 1, 2, 3} demo_reading" "running {0, 1, 2, 3} demo_reading 2" "waiters demo_reading e q = []"
proof -
  show "sys_ok {0, 1, 2, 3} demo_reading" unfolding demo_reading_def by (rule rw_counter(1) [OF demo_rw_ok(1)])
  show "running {0, 1, 2, 3} demo_reading 2" using demo_rw_ok(2) by (simp add: demo_reading_def set_counter_def running_def LW_TCB_GET_CUR_def LW_THREAD_IS_READY_def)
  have "waiters demo_reading = waiters demo_rw" unfolding demo_reading_def set_counter_def by (rule event_upd_queues) simp_all
  then show "waiters demo_reading e q = []" by (simp add: demo_rw_ok)
qed

lemmas demo_rwq_block = semRW_block_ok [OF demo_reading_ok(1,2), where e = 5 and q = EVENT_RW_Q_W and to = 10]

lemma demo_rwq_ok: "sys_ok {0, 1, 2, 3} demo_rwq" "LW_TCB_GET_CUR demo_rwq = 3" "running {0, 1, 2, 3} demo_rwq 3" "delayed demo_rwq 2"
    "rw_abs demo_rwq 5 = \<lparr>rw_writing = False, rw_count = 1, rw_own = None, rw_depth = 0, rw_readq = [], rw_writeq = [2]\<rparr>"
proof -
  let ?b = "ev_block 5 EVENT_RW_Q_W LW_THREAD_STATUS_SEM 10 demo_reading"
  note C = runningD [OF demo_reading_ok(2)]
  have i: "ipc_ok {0, 1, 2, 3} demo_reading" using demo_reading_ok(1) by (simp add: sys_ok_def)
  note E = ev_block_spec [OF i C, where ty = LW_THREAD_STATUS_SEM and e = 5 and q = EVENT_RW_Q_W and to = 10, simplified]
  have f: "K_eventBuffer demo_rwq = K_eventBuffer ?b" "waiters demo_rwq = waiters ?b" "K_tcb demo_rwq = K_tcb ?b" "K_ncpus demo_rwq = K_ncpus ?b"
    by (simp_all add: demo_rwq_def fun_eq_iff)
  show s: "sys_ok {0, 1, 2, 3} demo_rwq" unfolding demo_rwq_def by (rule sys_ok_cpu [OF demo_rwq_block(1)]) simp_all
  have p: "K_curcpu demo_rwq = 0" by (simp add: demo_rwq_def ev_block_cpu) (simp add: demo_reading_def set_counter_def demo_rw_def demo_sem_tcb)
  then show c: "LW_TCB_GET_CUR demo_rwq = 3" by (simp add: LW_TCB_GET_CUR_def) (simp add: demo_rwq_def)
  have n: "K_ncpus demo_rwq = 2" by (simp add: f ev_block_cpu) (simp add: demo_reading_def set_counter_def demo_rw_def demo_sem_tcb)
  have "TCB_usStatus (K_tcb demo_rwq 3) = TCB_usStatus (K_tcb demo 3)"
    using E(4) [of 3] by (simp add: f) (simp add: demo_reading_def set_counter_def demo_rw_def demo_sem_tcb)
  also have "\<dots> = 0" unfolding erase_tcbD [OF demo_erase, of 3] by (simp add: demo_boot_def demo_tcb_def tcb0_def)
  finally have "LW_THREAD_IS_READY demo_rwq 3" by (simp add: LW_THREAD_IS_READY_def)
  then show "running {0, 1, 2, 3} demo_rwq 3" using c n by (simp add: running_def)
  show "delayed demo_rwq 2" using E(7) by (simp add: delayed_def f)
  have d: "distinct (waiters demo_rwq 5 EVENT_RW_Q_W)" using wait_okD(5) [OF ipc_okD(3)] s unfolding sys_ok_def by blast
  have "set (waiters demo_rwq 5 EVENT_RW_Q_W) = {2}" using demo_rwq_block(3) unfolding f demo_reading_ok by simp
  with d have w: "waiters demo_rwq 5 EVENT_RW_Q_W = [2]" by (rule distinct_single)
  have r: "waiters demo_rwq 5 EVENT_RW_Q_R = []" using demo_rwq_block(4) [of EVENT_RW_Q_R] unfolding f demo_reading_ok by simp
  have v: "EVENT_iStatus (K_eventBuffer demo_reading 5) = EVENT_RW_STATUS_R" "EVENT_pvTcbOwn (K_eventBuffer demo_reading 5) = None"
    "EVENT_pvPtr (K_eventBuffer demo_reading 5) = 0" "EVENT_ulCounter (K_eventBuffer demo_reading 5) = 1"
    using demo_rw_ok(4) by (simp_all add: demo_reading_def set_counter_def rw_free_def rw_abs_def)
  show "rw_abs demo_rwq 5 = \<lparr>rw_writing = False, rw_count = 1, rw_own = None, rw_depth = 0, rw_readq = [], rw_writeq = [2]\<rparr>"
    unfolding rw_abs_def r w f(1) using rwviewD [OF demo_rwq_block(2)] v by simp
qed

lemma demo_rwq_api: "CpuGetNesting demo_rwq = 0" "EVENT_ucType (K_eventBuffer demo_rwq 5) = LW_TYPE_EVENT_SEMRW" "K_ucSysStatus demo_rwq = LW_SYS_STATUS_RUNNING"
proof -
  have "K_curcpu demo_rwq = 0" "CPU_ulInterNesting (K_cpu demo_rwq 0) = CPU_ulInterNesting (K_cpu demo_sem 0)"
    by (simp_all add: demo_rwq_def ev_block_cpu) (simp_all add: demo_reading_def set_counter_def demo_rw_def demo_sem_tcb)
  then show "CpuGetNesting demo_rwq = 0" using demo_sem_nesting by (simp add: CpuGetNesting_def demo_sem_tcb)
  show "K_ucSysStatus demo_rwq = LW_SYS_STATUS_RUNNING" by (simp add: demo_rwq_def) (simp add: demo_reading_def set_counter_def demo_rw_def demo_status)
  have "EVENT_ucType (K_eventBuffer demo_rwq 5) = EVENT_ucType (K_eventBuffer demo_reading 5)" using rwviewD(1) [OF demo_rwq_block(2)] by (simp add: demo_rwq_def)
  then show "EVENT_ucType (K_eventBuffer demo_rwq 5) = LW_TYPE_EVENT_SEMRW" by (simp add: demo_reading_def set_counter_def demo_rw_def)
qed

theorem rw_post_refines_witness:
  "\<exists>k1. sys_ok {0, 1, 2, 3} k1 \<and> rw_let_in {2} demo_rwq k1 \<and>
    rw_abs k1 5 = \<lparr>rw_writing = True, rw_count = 1, rw_own = Some 2, rw_depth = 0, rw_readq = [], rw_writeq = []\<rparr>"
proof -
  from rw_post_refines [OF demo_rwq_ok(1,2) demo_rwq_api(1) _ demo_rwq_api(2,3), of "[]"]
  obtain r rel A k1 where P: "sys_ok {0, 1, 2, 3} k1" "rw_let_in A demo_rwq k1"
    "spec_rw_post (EVENT_ulOption (K_eventBuffer demo_rwq 5) AND LW_OPTION_RW_PREFER_WRITER \<noteq> 0) 3 (rw_abs demo_rwq 5) = (r, rel, A, rw_abs k1 5)" by auto
  have "A = {2}" "rw_abs k1 5 = \<lparr>rw_writing = True, rw_count = 1, rw_own = Some 2, rw_depth = 0, rw_readq = [], rw_writeq = []\<rparr>"
    using P(3) unfolding demo_rwq_ok(5) by (auto simp: spec_rw_post_def spec_rw_release_def spec_rw_in_def)
  then show ?thesis using P(1,2) by blast
qed

section \<open>Coming in\<close>

lemma semRW_pend_eq:
  assumes "e < LW_CFG_MAX_EVENTS" and "EVENT_ucType (K_eventBuffer k e) = LW_TYPE_EVENT_SEMRW" and "K_ucSysStatus k = LW_SYS_STATUS_RUNNING"
  shows "attempt e c to (kernelEnterIrq k) = Some (r, k1) \<Longrightarrow>
      semRW_pend attempt q (handle OBJECT_SEM_RW e) c to env k = map_option (\<lambda>(_, env, k). (r, env, ErrorHandle r k)) (kernelExit env k1)"
    "attempt e c to (kernelEnterIrq k) = None \<Longrightarrow> kernelExit env (ev_block e q LW_THREAD_STATUS_SEM to (kernelEnterIrq k)) = Some (0, env', k2) \<Longrightarrow>
      semRW_pend attempt q (handle OBJECT_SEM_RW e) c to env k = Some (pend_result c k2, env', ErrorHandle (pend_result c k2) k2)"
  using assms handle_parts [of OBJECT_SEM_RW e]
  by (simp_all add: semRW_pend.simps [of attempt q] Let_def Event_Index_Invalid_def Event_Type_Invalid_def enter_eq)

text \<open>
  C10: \<^verbatim>\<open>API_SemaphoreRWPendR\<close> and \<^verbatim>\<open>API_SemaphoreRWPendW\<close> implement the abstract semaphore. A reader comes in when nobody
  writes and nobody waits to write; a writer comes in when nobody is inside, and again when it writes
  already; a call that does not wait reports a timeout otherwise. These calls keep the invariant of the
  system. Any other call puts the caller into the queue of its kind, and when it runs again without a
  signal, how the wait ended is its result.
\<close>

theorem rw_pend_refines:
  assumes "sys_ok T k" and "LW_TCB_GET_CUR k = c" and "CpuGetNesting k = 0" and "e < LW_CFG_MAX_EVENTS"
    and "EVENT_ucType (K_eventBuffer k e) = LW_TYPE_EVENT_SEMRW" and "K_ucSysStatus k = LW_SYS_STATUS_RUNNING"
  shows "(\<forall>r s. spec_rw_read to (rw_abs k e) = Some (r, s) \<longrightarrow> (\<exists>k1. sys_ok T k1 \<and> rw_abs k1 e = s \<and>
      SemaphoreRWPendR (handle OBJECT_SEM_RW e) to env k = map_option (\<lambda>(_, env, k). (r, env, ErrorHandle r k)) (kernelExit env k1))) \<and>
    (\<forall>r s. spec_rw_write c to (rw_abs k e) = Some (r, s) \<longrightarrow> (\<exists>k1. sys_ok T k1 \<and> rw_abs k1 e = s \<and>
      SemaphoreRWPendW (handle OBJECT_SEM_RW e) to env k = map_option (\<lambda>(_, env, k). (r, env, ErrorHandle r k)) (kernelExit env k1))) \<and>
    (\<forall>env' k2. spec_rw_read to (rw_abs k e) = None \<longrightarrow> kernelExit env (ev_block e EVENT_RW_Q_R LW_THREAD_STATUS_SEM to (kernelEnterIrq k)) = Some (0, env', k2) \<longrightarrow>
      SemaphoreRWPendR (handle OBJECT_SEM_RW e) to env k = Some (pend_result c k2, env', ErrorHandle (pend_result c k2) k2)) \<and>
    (\<forall>env' k2. spec_rw_write c to (rw_abs k e) = None \<longrightarrow> kernelExit env (ev_block e EVENT_RW_Q_W LW_THREAD_STATUS_SEM to (kernelEnterIrq k)) = Some (0, env', k2) \<longrightarrow>
      SemaphoreRWPendW (handle OBJECT_SEM_RW e) to env k = Some (pend_result c k2, env', ErrorHandle (pend_result c k2) k2))"
proof -
  let ?k = "kernelEnterIrq k" and ?h = "handle OBJECT_SEM_RW e"
  have S: "sys_ok T ?k" using sys_ok_enter(1) [OF assms(1)] .
  have D: "SemaphoreRWPendR ?h to env k = semRW_pend semRW_tryR EVENT_RW_Q_R ?h c to env k" "SemaphoreRWPendW ?h to env k = semRW_pend semRW_tryW EVENT_RW_Q_W ?h c to env k"
    unfolding SemaphoreRWPendR_def SemaphoreRWPendW_def assms(2,3) by simp_all
  note E = semRW_pend_eq [OF assms(4-6)] and R = semRW_tryR_ok [OF S, of e c to] and W = semRW_tryW_ok [OF S, of e c to]
  show ?thesis unfolding D
  proof (intro conjI allI impI)
    fix r s assume "spec_rw_read to (rw_abs k e) = Some (r, s)"
    then obtain k1 where t: "semRW_tryR e c to ?k = Some (r, k1)" and "rw_abs k1 e = s" using R(1) by auto
    then show "\<exists>k1. sys_ok T k1 \<and> rw_abs k1 e = s \<and>
        semRW_pend semRW_tryR EVENT_RW_Q_R ?h c to env k = map_option (\<lambda>(_, env, k). (r, env, ErrorHandle r k)) (kernelExit env k1)"
      using R(2) [OF t] E(1) [where attempt = semRW_tryR, OF t] by blast
  next
    fix r s assume "spec_rw_write c to (rw_abs k e) = Some (r, s)"
    then obtain k1 where t: "semRW_tryW e c to ?k = Some (r, k1)" and "rw_abs k1 e = s" using W(1) by auto
    then show "\<exists>k1. sys_ok T k1 \<and> rw_abs k1 e = s \<and>
        semRW_pend semRW_tryW EVENT_RW_Q_W ?h c to env k = map_option (\<lambda>(_, env, k). (r, env, ErrorHandle r k)) (kernelExit env k1)"
      using W(2) [OF t] E(1) [where attempt = semRW_tryW, OF t] by blast
  next
    fix env' k2 assume "spec_rw_read to (rw_abs k e) = None" and x: "kernelExit env (ev_block e EVENT_RW_Q_R LW_THREAD_STATUS_SEM to ?k) = Some (0, env', k2)"
    then have "semRW_tryR e c to ?k = None" using R(1) by simp
    then show "semRW_pend semRW_tryR EVENT_RW_Q_R ?h c to env k = Some (pend_result c k2, env', ErrorHandle (pend_result c k2) k2)" using x by (rule E(2))
  next
    fix env' k2 assume "spec_rw_write c to (rw_abs k e) = None" and x: "kernelExit env (ev_block e EVENT_RW_Q_W LW_THREAD_STATUS_SEM to ?k) = Some (0, env', k2)"
    then have "semRW_tryW e c to ?k = None" using W(1) by simp
    then show "semRW_pend semRW_tryW EVENT_RW_Q_W ?h c to env k = Some (pend_result c k2, env', ErrorHandle (pend_result c k2) k2)" using x by (rule E(2))
  qed
qed

theorem rw_pend_refines_witness:
  "\<exists>k1. sys_ok {0, 1, 2, 3} k1 \<and> rw_abs k1 5 = rw_abs demo_rwq 5 \<and>
    SemaphoreRWPendR (handle OBJECT_SEM_RW 5) LW_OPTION_NOT_WAIT [] demo_rwq =
      map_option (\<lambda>(_, env, k). (ERROR_THREAD_WAIT_TIMEOUT, env, ErrorHandle ERROR_THREAD_WAIT_TIMEOUT k)) (kernelExit [] k1)"
proof -
  have "spec_rw_read LW_OPTION_NOT_WAIT (rw_abs demo_rwq 5) = Some (ERROR_THREAD_WAIT_TIMEOUT, rw_abs demo_rwq 5)"
    unfolding demo_rwq_ok(5) by (simp add: spec_rw_read_def)
  then show ?thesis using rw_pend_refines [OF demo_rwq_ok(1,2) demo_rwq_api(1) _ demo_rwq_api(2,3), of LW_OPTION_NOT_WAIT "[]"] by auto
qed

section \<open>A writer gives up\<close>

lemma expire_rwview:
  assumes ok: "sys_ok T k" and d: "delayed k t"
  shows "rwview (K_eventBuffer (expire t k) e) = rwview (K_eventBuffer k e)"
proof -
  have i: "wait_ok T k" "req_ok T k" "oth_ok T k" "delay_ok k" using ok by (simp_all add: sys_ok_def ipc_ok_def)
  note K = WAKEUP_DEL_keeps [OF i d]
  note U = unpend_eq [OF K(1,3), of t]
  have "\<exists>e' q i. K_eventBuffer (unpend t (DEL_FROM_WAKEUP_LINE t k)) = K_eventBuffer (ev_wq_upd e' q (wq_del_at i t) (DEL_FROM_WAKEUP_LINE t k)) \<or>
      K_eventBuffer (unpend t (DEL_FROM_WAKEUP_LINE t k)) = K_eventBuffer (DEL_FROM_WAKEUP_LINE t k)"
    using U(10,11) by (cases "TCB_peventPtr (K_tcb (DEL_FROM_WAKEUP_LINE t k) t)") blast+
  then have "rwview (K_eventBuffer (unpend t (DEL_FROM_WAKEUP_LINE t k)) e) = rwview (K_eventBuffer (DEL_FROM_WAKEUP_LINE t k) e)" by auto
  moreover have "K_eventBuffer (make_ready s a k') = K_eventBuffer k'" for s a k' by (simp add: make_ready_def Let_def)
  ultimately show ?thesis by (simp add: expire_def Let_def)
qed

text \<open>
  C39: A reader comes while others read and one thread waits to write for a limited time, so it has to wait
  (\<^verbatim>\<open>API_SemaphoreRWPendR\<close> lets nobody pass a waiting writer). When the time of the writer ends, nobody wakes the
  reader: it keeps waiting for the last of the other readers to leave although the semaphore is
  read, nobody waits to write, and any other reader that comes now is let in at once.
\<close>

theorem rw_reader_stranded:
  assumes "sys_ok T k" and "running T k r" and "to \<noteq> LW_OPTION_NOT_WAIT" and "delayed k w"
    and "\<not> rw_writing (rw_abs k e)" and "rw_readq (rw_abs k e) = []" and "rw_writeq (rw_abs k e) = [w]"
  shows "semRW_tryR e r to k = None \<and> (let k' = expire w (ev_block e EVENT_RW_Q_R LW_THREAD_STATUS_SEM to k) in
    sys_ok T k' \<and> \<not> LW_THREAD_IS_READY k' r \<and> rw_abs k' e = (rw_abs k e)\<lparr>rw_readq := [r], rw_writeq := []\<rparr> \<and>
    (\<forall>c to'. \<exists>k2. semRW_tryR e c to' k' = Some (ERROR_NONE, k2)))"
proof -
  let ?b = "ev_block e EVENT_RW_Q_R LW_THREAD_STATUS_SEM to k"
  let ?x = "expire w ?b"
  note C = runningD [OF assms(2)]
  note B = semRW_block_ok [OF assms(1,2), where e = e and q = EVENT_RW_Q_R and to = to]
  have i: "ipc_ok T k" using assms(1) by (simp add: sys_ok_def)
  note E = ev_block_spec [OF i C, where ty = LW_THREAD_STATUS_SEM and e = e and q = EVENT_RW_Q_R and to = to, simplified]
  have n: "semRW_tryR e r to k = None" using semRW_tryR_ok(1) [OF assms(1), of e r to] assms(3,5,7) by (simp add: spec_rw_read_def)
  have rw: "w \<noteq> r" using assms(4) C(4) delayed_not_ready by blast
  have d: "delayed ?b w" using assms(4) E(4) [OF rw] by (simp add: delayed_def)
  note X = expire_ok [OF B(1) d] and V = expire_rwview [OF B(1) d, of e]
  have q: "waiters ?x e' q' = remove1 w (waiters ?b e' q')" for e' q' using X(2) by (simp add: ended_def)
  have W: "waiters ?b e EVENT_RW_Q_W = [w]" "set (waiters ?b e EVENT_RW_Q_R) = {r}" using B(3) B(4) [of EVENT_RW_Q_W] assms(6,7) unfolding rw_abs_def by simp_all
  have "waiters ?b e EVENT_RW_Q_R = [r]" by (rule distinct_single [OF rw_keeps_queue(2) [OF B(1)] W(2)])
  then have R: "waiters ?x e EVENT_RW_Q_R = [r]" "waiters ?x e EVENT_RW_Q_W = []" unfolding q W(1) using rw by simp_all
  have A: "rw_abs ?x e = (rw_abs k e)\<lparr>rw_readq := [r], rw_writeq := []\<rparr>" unfolding rw_abs_def R using rwviewD [OF V] rwviewD [OF B(2)] by simp
  have s: "TCB_usStatus (K_tcb ?x r) = TCB_usStatus (K_tcb ?b r)" using X(2) rw by (simp add: ended_def)
  have "\<not> LW_THREAD_IS_READY ?x r" using B(5) by (simp add: LW_THREAD_IS_READY_def s)
  moreover have "\<exists>k2. semRW_tryR e c to' ?x = Some (ERROR_NONE, k2)" for c to'
    using semRW_tryR_ok(1) [OF X(1), of e c to'] A assms(5) by (auto simp: spec_rw_read_def)
  ultimately show ?thesis using n X(1) A by (simp add: Let_def)
qed

theorem rw_reader_stranded_witness:
  "\<exists>k'. sys_ok {0, 1, 2, 3} k' \<and> rw_abs k' 5 = \<lparr>rw_writing = False, rw_count = 1, rw_own = None, rw_depth = 0, rw_readq = [3], rw_writeq = []\<rparr> \<and> \<not> LW_THREAD_IS_READY k' 3"
  using rw_reader_stranded [OF demo_rwq_ok(1,3) _ demo_rwq_ok(4), of LW_OPTION_WAIT_INFINITE 5] unfolding demo_rwq_ok(5) by (auto simp: Let_def)


end
