(* ===== verification/Partition.thy ===== *)
theory Partition
  imports MsgQueue
begin

text \<open>
  Partitions of fixed-size memory blocks (\<^verbatim>\<open>kernel/core/_PartitionLib.c\<close>, \<^verbatim>\<open>_PartitionInit.c\<close>,
  \<^verbatim>\<open>kernel/list/listPartition.c\<close>, \<^verbatim>\<open>kernel/interface/Partition*.c\<close>). A free block holds the address of the next
  one; the blocks are the caller's memory, addressed by words, with zero as the null pointer. The
  spin lock of a partition is the atomicity of its section.
\<close>

abbreviation OBJECT_PARTITION :: u8 where "OBJECT_PARTITION \<equiv> 16"
abbreviation LW_PARTITION_UNUSED :: u8 where "LW_PARTITION_UNUSED \<equiv> 0"
abbreviation LW_PARTITION_USED :: u8 where "LW_PARTITION_USED \<equiv> 0xff"
abbreviation LW_CFG_MAX_PARTITIONS :: nat where "LW_CFG_MAX_PARTITIONS \<equiv> 50"
abbreviation ERROR_KERNEL_MEMORY :: ulong where "ERROR_KERNEL_MEMORY \<equiv> 314"
abbreviation ERROR_PARTITION_FULL :: ulong where "ERROR_PARTITION_FULL \<equiv> 3500"
abbreviation ERROR_PARTITION_NULL :: ulong where "ERROR_PARTITION_NULL \<equiv> 3501"
abbreviation ERROR_PARTITION_BLOCK_COUNTER :: ulong where "ERROR_PARTITION_BLOCK_COUNTER \<equiv> 3502"
abbreviation ERROR_PARTITION_BLOCK_SIZE :: ulong where "ERROR_PARTITION_BLOCK_SIZE \<equiv> 3503"
abbreviation ERROR_PARTITION_BLOCK_USED :: ulong where "ERROR_PARTITION_BLOCK_USED \<equiv> 3504"

section \<open>The control blocks\<close>

definition parts_upd :: "(parts \<Rightarrow> parts) \<Rightarrow> kernel \<Rightarrow> kernel" where
  "parts_upd f k = k\<lparr>K_parts := f (K_parts k)\<rparr>"

definition part_of :: "kernel \<Rightarrow> nat \<Rightarrow> partition" where
  "part_of k i = K_partBuffer (K_parts k) i"

definition part_upd :: "nat \<Rightarrow> (partition \<Rightarrow> partition) \<Rightarrow> kernel \<Rightarrow> kernel" where
  "part_upd i f = parts_upd (\<lambda>p. p\<lparr>K_partBuffer := (K_partBuffer p)(i := f (K_partBuffer p i))\<rparr>)"

definition Allocate_Partition_Object :: "kernel \<Rightarrow> nat option \<times> kernel" where
  "Allocate_Partition_Object k =
     (case RESRC_free (K_resrcPart (K_parts k)) of
        [] \<Rightarrow> (None, k)
      | p_partFree # pmonoFree \<Rightarrow>
          let r = (K_resrcPart (K_parts k))\<lparr>RESRC_free := pmonoFree, RESRC_uiUsed := RESRC_uiUsed (K_resrcPart (K_parts k)) + 1\<rparr>;
              r = (if RESRC_uiUsed r > RESRC_uiMaxUsed r then r\<lparr>RESRC_uiMaxUsed := RESRC_uiUsed r\<rparr> else r)
          in (Some p_partFree, parts_upd (\<lambda>p. p\<lparr>K_resrcPart := r\<rparr>) k))"

definition Free_Partition_Object :: "nat \<Rightarrow> kernel \<Rightarrow> kernel" where
  "Free_Partition_Object p_partFree = parts_upd (\<lambda>p. p\<lparr>K_resrcPart := (K_resrcPart p)\<lparr>RESRC_free := RESRC_free (K_resrcPart p) @ [p_partFree],
     RESRC_uiUsed := RESRC_uiUsed (K_resrcPart p) - 1\<rparr>\<rparr>)"

definition PartitionInit :: "kernel \<Rightarrow> kernel" where
  "PartitionInit = parts_upd (\<lambda>p. p\<lparr>
     K_partBuffer := (\<lambda>i. if i < LW_CFG_MAX_PARTITIONS then (K_partBuffer p i)\<lparr>PARTITION_ucType := LW_PARTITION_UNUSED, PARTITION_usIndex := of_nat i\<rparr>
       else K_partBuffer p i),
     K_resrcPart := \<lparr>RESRC_free = [0..<LW_CFG_MAX_PARTITIONS], RESRC_uiUsed = 0, RESRC_uiMaxUsed = 0\<rparr>\<rparr>)"

definition Partition_Index_Invalid :: "nat \<Rightarrow> bool" where
  "Partition_Index_Invalid usIndex \<longleftrightarrow> usIndex \<ge> LW_CFG_MAX_PARTITIONS"

definition Partition_BlockSize_Invalid :: "ulong \<Rightarrow> bool" where
  "Partition_BlockSize_Invalid stBlockSize \<longleftrightarrow> stBlockSize < 8 \<or> stBlockSize AND (8 - 1) \<noteq> 0"

definition Partition_Type_Invalid :: "nat \<Rightarrow> kernel \<Rightarrow> bool" where
  "Partition_Type_Invalid usIndex k \<longleftrightarrow> PARTITION_ucType (part_of k usIndex) = LW_PARTITION_UNUSED"

definition Addresses_Is_Aligned :: "ulong \<Rightarrow> bool" where
  "Addresses_Is_Aligned pvAddress \<longleftrightarrow> pvAddress AND (8 - 1) = 0"

section \<open>Blocks\<close>

text \<open>The pointer stored in a link.\<close>

definition ptr :: "ulong \<Rightarrow> ulong option" where
  "ptr a = (if a = 0 then None else Some a)"

definition PartitionAllocate :: "nat \<Rightarrow> kernel \<Rightarrow> ulong \<times> kernel" where
  "PartitionAllocate p_part k =
     (case list_mono_allocate (PARTITION_pmonoFreeBlockList (part_of k p_part)) (PART_link (K_parts k)) of
        None \<Rightarrow> (0, k)
      | Some (pmonoAllocate, phead) \<Rightarrow>
          let k = part_upd p_part (\<lambda>p. p\<lparr>PARTITION_pmonoFreeBlockList := phead\<rparr>) k
          in (pmonoAllocate, part_upd p_part (\<lambda>p. p\<lparr>PARTITION_ulFreeBlockCounter := PARTITION_ulFreeBlockCounter p - 1\<rparr>) k))"

definition PartitionFree :: "nat \<Rightarrow> ulong \<Rightarrow> kernel \<Rightarrow> kernel" where
  "PartitionFree p_part pvFree k =
     (let (phead, m) = list_mono_free (PARTITION_pmonoFreeBlockList (part_of k p_part)) pvFree (PART_link (K_parts k));
          k = part_upd p_part (\<lambda>p. p\<lparr>PARTITION_pmonoFreeBlockList := phead\<rparr>) (parts_upd (\<lambda>p. p\<lparr>PART_link := m\<rparr>) k)
      in part_upd p_part (\<lambda>p. p\<lparr>PARTITION_ulFreeBlockCounter := PARTITION_ulFreeBlockCounter p + 1\<rparr>) k)"

text \<open>The loop that links the blocks of a new partition, and the end of the chain.\<close>

fun part_chain :: "nat \<Rightarrow> ulong \<Rightarrow> ulong \<Rightarrow> ulong \<Rightarrow> ulong mono_mem \<Rightarrow> ulong mono_mem" where
  "part_chain 0 pmonoTemp1 pmonoTemp2 stBlockByteSize m = m(pmonoTemp1 := None)"
| "part_chain (Suc n) pmonoTemp1 pmonoTemp2 stBlockByteSize m =
     part_chain n (pmonoTemp1 + stBlockByteSize) (pmonoTemp2 + stBlockByteSize) stBlockByteSize (m(pmonoTemp1 := ptr pmonoTemp2))"

definition part_setup :: "string option \<Rightarrow> ulong \<Rightarrow> ulong \<Rightarrow> ulong \<Rightarrow> nat \<Rightarrow> kernel \<Rightarrow> kernel" where
  "part_setup pcName pvLowAddr ulBlockCounter stBlockByteSize p_part k =
     (let k = part_upd p_part (\<lambda>p. p\<lparr>PARTITION_cPatitionName := (case pcName of Some s \<Rightarrow> s | None \<Rightarrow> [])\<rparr>) k;
          k = part_upd p_part (\<lambda>p. p\<lparr>PARTITION_ucType := LW_PARTITION_USED, PARTITION_pmonoFreeBlockList := ptr pvLowAddr,
                PARTITION_stBlockByteSize := stBlockByteSize, PARTITION_ulBlockCounter := ulBlockCounter,
                PARTITION_ulFreeBlockCounter := ulBlockCounter\<rparr>) k
      in parts_upd (\<lambda>p. p\<lparr>PART_link := part_chain (unat (ulBlockCounter - 1)) pvLowAddr (pvLowAddr + stBlockByteSize) stBlockByteSize (PART_link p)\<rparr>) k)"

section \<open>The calls\<close>

definition PartitionCreate :: "string option \<Rightarrow> ulong \<Rightarrow> ulong \<Rightarrow> ulong \<Rightarrow> env \<Rightarrow> kernel \<Rightarrow> (ulong \<times> env \<times> kernel) option" where
  "PartitionCreate pcName pvLowAddr ulBlockCounter stBlockByteSize env k =
     (if CpuGetNesting k \<noteq> 0 then Some (LW_OBJECT_HANDLE_INVALID, env, ErrorHandle ERROR_KERNEL_IN_ISR k)
      else if pvLowAddr = 0 then Some (LW_OBJECT_HANDLE_INVALID, env, ErrorHandle ERROR_PARTITION_NULL k)
      else if \<not> Addresses_Is_Aligned pvLowAddr then Some (LW_OBJECT_HANDLE_INVALID, env, ErrorHandle ERROR_KERNEL_MEMORY k)
      else if ulBlockCounter = 0 then Some (LW_OBJECT_HANDLE_INVALID, env, ErrorHandle ERROR_PARTITION_BLOCK_COUNTER k)
      else if Partition_BlockSize_Invalid stBlockByteSize then Some (LW_OBJECT_HANDLE_INVALID, env, ErrorHandle ERROR_PARTITION_BLOCK_SIZE k)
      else if Object_Name_Invalid pcName then Some (LW_OBJECT_HANDLE_INVALID, env, ErrorHandle ERROR_KERNEL_PNAME_TOO_LONG k)
      else do {
        (p_part, env, k) \<leftarrow> kernel_mode_proc Allocate_Partition_Object env k;
        (case p_part of
           None \<Rightarrow> Some (LW_OBJECT_HANDLE_INVALID, env, ErrorHandle ERROR_PARTITION_FULL k)
         | Some p_part \<Rightarrow>
             let k = part_setup pcName pvLowAddr ulBlockCounter stBlockByteSize p_part k
             in Some (MakeObjectId OBJECT_PARTITION LW_CFG_PROCESSOR_NUMBER (PARTITION_usIndex (part_of k p_part)), env, k)) })"

definition PartitionGet :: "ulong \<Rightarrow> kernel \<Rightarrow> ulong \<times> kernel" where
  "PartitionGet ulId k =
     (let usIndex = unat (ObjectGetIndex ulId) in
      if \<not> ObjectClassOK ulId OBJECT_PARTITION then (0, ErrorHandle ERROR_KERNEL_HANDLE_NULL k)
      else if Partition_Index_Invalid usIndex then (0, ErrorHandle ERROR_KERNEL_HANDLE_NULL k)
      else if Partition_Type_Invalid usIndex k then (0, ErrorHandle ERROR_PARTITION_NULL k)
      else
        let (pvRet, k) = PartitionAllocate usIndex k
        in (pvRet, if pvRet = 0 then ErrorHandle ERROR_PARTITION_NULL k else k))"

definition PartitionPut :: "ulong \<Rightarrow> ulong \<Rightarrow> kernel \<Rightarrow> ulong \<times> kernel" where
  "PartitionPut ulId pvBlock k =
     (let usIndex = unat (ObjectGetIndex ulId) in
      if pvBlock = 0 then (pvBlock, ErrorHandle ERROR_PARTITION_NULL k)
      else if \<not> ObjectClassOK ulId OBJECT_PARTITION then (pvBlock, ErrorHandle ERROR_KERNEL_HANDLE_NULL k)
      else if Partition_Index_Invalid usIndex then (pvBlock, ErrorHandle ERROR_KERNEL_HANDLE_NULL k)
      else if Partition_Type_Invalid usIndex k then (pvBlock, ErrorHandle ERROR_PARTITION_NULL k)
      else (0, PartitionFree usIndex pvBlock k))"

definition PartitionDeleteEx :: "ulong \<Rightarrow> bool \<Rightarrow> env \<Rightarrow> kernel \<Rightarrow> (ulong \<times> ulong \<times> env \<times> kernel) option" where
  "PartitionDeleteEx pulId bForce env k =
     (let usIndex = unat (ObjectGetIndex pulId) in
      if CpuGetNesting k \<noteq> 0 then Some (ERROR_KERNEL_IN_ISR, pulId, env, ErrorHandle ERROR_KERNEL_IN_ISR k)
      else if \<not> ObjectClassOK pulId OBJECT_PARTITION then Some (ERROR_KERNEL_HANDLE_NULL, pulId, env, ErrorHandle ERROR_KERNEL_HANDLE_NULL k)
      else if Partition_Index_Invalid usIndex then Some (ERROR_KERNEL_HANDLE_NULL, pulId, env, ErrorHandle ERROR_KERNEL_HANDLE_NULL k)
      else if Partition_Type_Invalid usIndex k then Some (ERROR_PARTITION_NULL, pulId, env, ErrorHandle ERROR_PARTITION_NULL k)
      else if \<not> bForce \<and> PARTITION_ulBlockCounter (part_of k usIndex) \<noteq> PARTITION_ulFreeBlockCounter (part_of k usIndex) then
        Some (ERROR_PARTITION_BLOCK_USED, pulId, env, ErrorHandle ERROR_PARTITION_BLOCK_USED k)
      else do {
        let k = part_upd usIndex (\<lambda>p. p\<lparr>PARTITION_ucType := LW_PARTITION_UNUSED\<rparr>) k;
        (_, env, k) \<leftarrow> kernel_mode_proc (\<lambda>k. ((), Free_Partition_Object usIndex k)) env k;
        Some (ERROR_NONE, 0, env, k) })"

definition PartitionDelete :: "ulong \<Rightarrow> env \<Rightarrow> kernel \<Rightarrow> (ulong \<times> ulong \<times> env \<times> kernel) option" where
  "PartitionDelete pulId = PartitionDeleteEx pulId False"

text \<open>The number of blocks, of free blocks, and the size of a block.\<close>

definition PartitionStatus :: "ulong \<Rightarrow> kernel \<Rightarrow> ulong \<times> (ulong \<times> ulong \<times> ulong) option \<times> kernel" where
  "PartitionStatus ulId k =
     (let usIndex = unat (ObjectGetIndex ulId) in
      if \<not> ObjectClassOK ulId OBJECT_PARTITION then (ERROR_KERNEL_HANDLE_NULL, None, ErrorHandle ERROR_KERNEL_HANDLE_NULL k)
      else if Partition_Index_Invalid usIndex then (ERROR_KERNEL_HANDLE_NULL, None, ErrorHandle ERROR_KERNEL_HANDLE_NULL k)
      else if Partition_Type_Invalid usIndex k then (ERROR_PARTITION_NULL, None, ErrorHandle ERROR_PARTITION_NULL k)
      else
        let p = part_of k usIndex
        in (ERROR_NONE, Some (PARTITION_ulBlockCounter p, PARTITION_ulFreeBlockCounter p, PARTITION_stBlockByteSize p), k))"

definition PartitionGetName :: "ulong \<Rightarrow> bool \<Rightarrow> env \<Rightarrow> kernel \<Rightarrow> (ulong \<times> string option \<times> env \<times> kernel) option" where
  "PartitionGetName ulId pcName env k =
     (let usIndex = unat (ObjectGetIndex ulId) in
      if CpuGetNesting k \<noteq> 0 then Some (ERROR_KERNEL_IN_ISR, None, env, ErrorHandle ERROR_KERNEL_IN_ISR k)
      else if \<not> pcName then Some (ERROR_KERNEL_PNAME_NULL, None, env, ErrorHandle ERROR_KERNEL_PNAME_NULL k)
      else if \<not> ObjectClassOK ulId OBJECT_PARTITION then Some (ERROR_KERNEL_HANDLE_NULL, None, env, ErrorHandle ERROR_KERNEL_HANDLE_NULL k)
      else if Partition_Index_Invalid usIndex then Some (ERROR_KERNEL_HANDLE_NULL, None, env, ErrorHandle ERROR_KERNEL_HANDLE_NULL k)
      else
        let k = kernelEnter k in
        if Partition_Type_Invalid usIndex k then
          map_option (\<lambda>(_, env, k). (ERROR_PARTITION_NULL, None, env, ErrorHandle ERROR_PARTITION_NULL k)) (kernelExit env k)
        else
          let name = PARTITION_cPatitionName (part_of k usIndex)
          in map_option (\<lambda>(_, env, k). (ERROR_NONE, Some name, env, k)) (kernelExit env k))"

end
