(* ===== verification/PartitionClaims.thy ===== *)
theory PartitionClaims
  imports Partition SysClaims
begin

text \<open>
  Partitions: the chain of free blocks refines a set, and over the life of a partition no two users
  ever hold overlapping blocks.
\<close>

section \<open>The chain of a new partition\<close>

definition block_list :: "nat \<Rightarrow> ulong \<Rightarrow> ulong \<Rightarrow> ulong list" where
  "block_list n low sz = map (\<lambda>j. low + of_nat j * sz) [0..<n]"

lemma block_list_Suc: "block_list (Suc n) low sz = low # block_list n (low + sz) sz"
  unfolding block_list_def upt_conv_Cons [OF zero_less_Suc] map_Suc_upt [symmetric] by (simp add: algebra_simps)

lemma part_chain_rep:
  assumes "distinct (block_list (Suc n) low sz)" and "0 \<notin> set (block_list (Suc n) low sz)"
  shows "mono_seg (part_chain n low (low + sz) sz m) (ptr low) (block_list (Suc n) low sz)"
    "a \<notin> set (block_list (Suc n) low sz) \<Longrightarrow> part_chain n low (low + sz) sz m a = m a"
  using assms
proof (induction n arbitrary: low m a)
  case 0
  { case 1 then show ?case by (simp add: block_list_def ptr_def) }
  { case 2 then show ?case by (simp add: block_list_def) }
next
  case (Suc n)
  { case 1
    have d: "distinct (block_list (Suc n) (low + sz) sz)" "0 \<notin> set (block_list (Suc n) (low + sz) sz)"
      "low \<notin> set (block_list (Suc n) (low + sz) sz)" "low \<noteq> 0" using 1 by (simp_all add: block_list_Suc [of "Suc n"])
    show ?case using Suc.IH(1) [OF d(1,2)] Suc.IH(2) [OF d(3,1,2)] d(4) by (simp add: block_list_Suc [of "Suc n"] ptr_def) }
  { case 2
    then have d: "a \<notin> set (block_list (Suc n) (low + sz) sz)" "distinct (block_list (Suc n) (low + sz) sz)"
      "0 \<notin> set (block_list (Suc n) (low + sz) sz)" "a \<noteq> low" by (simp_all add: block_list_Suc [of "Suc n"])
    show ?case unfolding part_chain.simps Suc.IH(2) [OF d(1-3)] using d(4) by (rule fun_upd_other) }
qed

text \<open>The memory of the blocks lies within the address space.\<close>

definition part_fits :: "ulong \<Rightarrow> ulong \<Rightarrow> ulong \<Rightarrow> bool" where
  "part_fits low n sz \<longleftrightarrow> low \<noteq> 0 \<and> n \<noteq> 0 \<and> \<not> Partition_BlockSize_Invalid sz \<and> unat low + unat n * unat sz \<le> 2 ^ 64"

definition blocks :: "ulong \<Rightarrow> ulong \<Rightarrow> ulong \<Rightarrow> ulong set" where
  "blocks low n sz = set (block_list (unat n) low sz)"

lemma block_addr:
  assumes "part_fits low n sz" and "j < unat n"
  shows "unat (low + of_nat j * sz) = unat low + j * unat sz"
proof -
  have s: "0 < unat sz" using assms(1) by (auto simp: part_fits_def Partition_BlockSize_Invalid_def unat_gt_0)
  have "j * unat sz < unat n * unat sz" using assms(2) s by simp
  moreover have "unat low + unat n * unat sz \<le> 2 ^ 64" using assms(1) by (simp add: part_fits_def)
  ultimately have "unat low + j * unat sz < 2 ^ 64" by linarith
  then have "unat low + j * unat sz < 2 ^ LENGTH(64)" by simp
  moreover have "low + of_nat j * sz = of_nat (unat low + j * unat sz)" by simp
  ultimately show ?thesis by (simp only: unat_of_nat mod_less)
qed

lemma blocks_apart:
  assumes f: "part_fits low n sz" and b: "b \<in> blocks low n sz" and c: "c \<in> blocks low n sz"
  shows "unat low \<le> unat b" "unat b + unat sz \<le> unat low + unat n * unat sz" "b \<noteq> 0"
    "b \<noteq> c \<Longrightarrow> unat b + unat sz \<le> unat c \<or> unat c + unat sz \<le> unat b"
proof -
  obtain i j where i: "i < unat n" "b = low + of_nat i * sz" and j: "j < unat n" "c = low + of_nat j * sz"
    using b c by (auto simp: blocks_def block_list_def)
  have ub: "unat b = unat low + i * unat sz" and uc: "unat c = unat low + j * unat sz" using block_addr [OF f] i j by simp_all
  show "unat low \<le> unat b" by (simp add: ub)
  have "Suc i * unat sz \<le> unat n * unat sz" using i(1) by (intro mult_le_mono1) simp
  then show "unat b + unat sz \<le> unat low + unat n * unat sz" by (simp add: ub)
  have "0 < unat low" using f by (simp add: part_fits_def unat_gt_0)
  then show "b \<noteq> 0" using ub by auto
  assume "b \<noteq> c"
  then have "Suc i \<le> j \<or> Suc j \<le> i" using i j by (cases i j rule: linorder_cases) auto
  then have "Suc i * unat sz \<le> j * unat sz \<or> Suc j * unat sz \<le> i * unat sz" using mult_le_mono1 by blast
  then show "unat b + unat sz \<le> unat c \<or> unat c + unat sz \<le> unat b" by (auto simp: ub uc)
qed

lemma block_list_distinct:
  assumes "part_fits low n sz"
  shows "distinct (block_list (unat n) low sz)" "card (blocks low n sz) = unat n" "0 \<notin> blocks low n sz"
proof -
  have s: "0 < unat sz" using assms by (auto simp: part_fits_def Partition_BlockSize_Invalid_def unat_gt_0)
  have "inj_on (\<lambda>j. low + of_nat j * sz) {0..<unat n}"
  proof (rule inj_onI)
    fix i j assume "i \<in> {0..<unat n}" "j \<in> {0..<unat n}" "low + of_nat i * sz = low + of_nat j * sz"
    then have "unat low + i * unat sz = unat low + j * unat sz" using block_addr [OF assms] by (metis atLeastLessThan_iff)
    then show "i = j" using s by simp
  qed
  then show d: "distinct (block_list (unat n) low sz)" by (simp add: block_list_def distinct_map)
  show "card (blocks low n sz) = unat n" unfolding blocks_def distinct_card [OF d] by (simp add: block_list_def)
  show "0 \<notin> blocks low n sz" using blocks_apart(3) [OF assms] by blast
qed

section \<open>The state of a partition\<close>

text \<open>\<open>out\<close> are the blocks that are in use; the others are in the chain, once each.\<close>

definition part_state :: "kernel \<Rightarrow> nat \<Rightarrow> ulong \<Rightarrow> ulong \<Rightarrow> ulong \<Rightarrow> ulong set \<Rightarrow> bool" where
  "part_state k i low n sz out \<longleftrightarrow> PARTITION_ucType (part_of k i) = LW_PARTITION_USED \<and> PARTITION_ulBlockCounter (part_of k i) = n \<and>
     PARTITION_stBlockByteSize (part_of k i) = sz \<and> (\<exists>xs. mono_rep (PART_link (K_parts k)) (PARTITION_pmonoFreeBlockList (part_of k i)) xs \<and>
       PARTITION_ulFreeBlockCounter (part_of k i) = of_nat (length xs) \<and> set xs \<inter> out = {} \<and> set xs \<union> out = blocks low n sz)"

lemma parts_upd_sel [simp]: "K_parts (parts_upd f k) = f (K_parts k)" "K_parts (ErrorHandle e k) = K_parts k" "K_parts (kernelEnter k) = K_parts k"
  "part_of (part_upd i g k) j = (if j = i then g (part_of k i) else part_of k j)" "PART_link (K_parts (part_upd i g k)) = PART_link (K_parts k)"
  "K_resrcPart (K_parts (part_upd i g k)) = K_resrcPart (K_parts k)"
  by (simp_all add: parts_upd_def part_upd_def part_of_def ErrorHandle_def kernelEnter_def cpu_upd_def tcb_upd_def Let_def split: option.split)

lemma part_of_simps [simp]: "part_of (ErrorHandle e k) = part_of k" "part_of (kernelEnter k) = part_of k" "part_of (parts_upd (\<lambda>p. p\<lparr>PART_link := h p\<rparr>) k) = part_of k"
  "part_of (parts_upd (\<lambda>p. p\<lparr>K_resrcPart := r p\<rparr>) k) = part_of k"
  by (simp_all add: part_of_def fun_eq_iff)

lemma part_state_error [simp]: "part_state (ErrorHandle e k) i low n sz out = part_state k i low n sz out"
  by (simp add: part_state_def)

lemma part_setup_state:
  assumes f: "part_fits low n sz"
  shows "part_state (part_setup nm low n sz i k) i low n sz {}"
proof -
  have n: "Suc (unat (n - 1)) = unat n" using f by (simp add: part_fits_def unat_minus_one unat_gt_0)
  note D = block_list_distinct [OF f]
  have "mono_seg (part_chain (unat (n - 1)) low (low + sz) sz m) (ptr low) (block_list (unat n) low sz)" for m
    using part_chain_rep(1) [of "unat (n - 1)" low sz m] D(1,3) unfolding n by (simp add: blocks_def)
  then show ?thesis using D(1) unfolding part_state_def
    by (auto simp: part_setup_def Let_def mono_rep_def blocks_def block_list_def intro!: exI [of _ "block_list (unat n) low sz"])
qed

text \<open>The number of free blocks.\<close>

lemma part_free:
  assumes f: "part_fits low n sz" and s: "part_state k i low n sz out"
  shows "out \<subseteq> blocks low n sz" "card out \<le> unat n" "PARTITION_ulFreeBlockCounter (part_of k i) = n - of_nat (card out)"
proof -
  obtain xs where x: "distinct xs" "PARTITION_ulFreeBlockCounter (part_of k i) = of_nat (length xs)" "set xs \<inter> out = {}" "set xs \<union> out = blocks low n sz"
    using s by (auto simp: part_state_def mono_rep_def)
  show "out \<subseteq> blocks low n sz" using x(4) by blast
  have fin: "finite out" using x(4) by (metis blocks_def finite_Un finite_set)
  have "card (set xs) + card out = card (blocks low n sz)" using card_Un_disjoint [OF _ fin x(3)] x(4) by simp
  then have c: "length xs + card out = unat n" using distinct_card [OF x(1)] block_list_distinct(2) [OF f] by simp
  then show "card out \<le> unat n" by simp
  have "of_nat (length xs) + of_nat (card out) = n" using arg_cong [OF c, of "of_nat :: nat \<Rightarrow> ulong"] by simp
  then show "PARTITION_ulFreeBlockCounter (part_of k i) = n - of_nat (card out)" using x(2) by (simp add: eq_diff_eq)
qed
section \<open>Getting and putting back\<close>

lemma part_handle:
  assumes "i < LW_CFG_MAX_PARTITIONS"
  shows "unat (ObjectGetIndex (handle OBJECT_PARTITION i)) = i" "ObjectClassOK (handle OBJECT_PARTITION i) OBJECT_PARTITION" "\<not> Partition_Index_Invalid i"
  using assms handle_parts [of OBJECT_PARTITION i] by (simp_all add: Partition_Index_Invalid_def)

lemma part_used: "part_state k i low n sz out \<Longrightarrow> \<not> Partition_Type_Invalid i k"
  by (simp add: part_state_def Partition_Type_Invalid_def)

lemma part_get:
  assumes i: "i < LW_CFG_MAX_PARTITIONS" and f: "part_fits low n sz" and s: "part_state k i low n sz out" and g: "PartitionGet (handle OBJECT_PARTITION i) k = (b, k')"
  shows "if out = blocks low n sz then b = 0 \<and> part_state k' i low n sz out else b \<in> blocks low n sz - out \<and> b \<noteq> 0 \<and> part_state k' i low n sz (insert b out)"
proof -
  let ?p = "part_of k i" and ?m = "PART_link (K_parts k)"
  obtain xs where x: "mono_rep ?m (PARTITION_pmonoFreeBlockList ?p) xs" "PARTITION_ulFreeBlockCounter ?p = of_nat (length xs)" "set xs \<inter> out = {}" "set xs \<union> out = blocks low n sz"
    using s by (auto simp: part_state_def)
  have G: "PartitionGet (handle OBJECT_PARTITION i) k = (let (r, k) = PartitionAllocate i k in (r, if r = 0 then ErrorHandle ERROR_PARTITION_NULL k else k))"
    using part_handle [OF i] part_used [OF s] by (simp add: PartitionGet_def Let_def)
  show ?thesis
  proof (cases xs)
    case Nil
    have "PartitionAllocate i k = (0, k)" using list_mono_allocate_rep [OF x(1)] Nil by (simp add: PartitionAllocate_def)
    then show ?thesis using g G x(4) Nil s by auto
  next
    case (Cons a ys)
    have a: "a \<in> blocks low n sz" "a \<notin> out" "a \<noteq> 0" using Cons x(3,4) block_list_distinct(3) [OF f] by auto
    have m: "mono_rep ?m (head_of ys) ys" "a \<notin> set ys" using x(1) Cons by (simp_all add: mono_rep_Cons)
    define k1 where "k1 = part_upd i (\<lambda>p. p\<lparr>PARTITION_ulFreeBlockCounter := PARTITION_ulFreeBlockCounter p - 1\<rparr>) (part_upd i (\<lambda>p. p\<lparr>PARTITION_pmonoFreeBlockList := head_of ys\<rparr>) k)"
    have "PartitionAllocate i k = (a, k1)" using list_mono_allocate_rep [OF x(1)] Cons by (simp add: PartitionAllocate_def k1_def)
    then have r: "b = a" "k' = k1" using g G a(3) by simp_all
    have "set ys \<inter> insert a out = {}" "set ys \<union> insert a out = blocks low n sz" using x(3,4) m(2) Cons by auto
    then have "part_state k1 i low n sz (insert a out)" using s m(1) x(2) Cons unfolding part_state_def by (auto simp: k1_def)
    moreover have "out \<noteq> blocks low n sz" using a by blast
    ultimately show ?thesis using r a by simp
  qed
qed

lemma part_put:
  assumes i: "i < LW_CFG_MAX_PARTITIONS" and f: "part_fits low n sz" and s: "part_state k i low n sz out" and b: "b \<in> out" and g: "PartitionPut (handle OBJECT_PARTITION i) b k = (r, k')"
  shows "r = 0" "part_state k' i low n sz (out - {b})"
proof -
  let ?p = "part_of k i" and ?m = "PART_link (K_parts k)"
  obtain xs where x: "mono_rep ?m (PARTITION_pmonoFreeBlockList ?p) xs" "PARTITION_ulFreeBlockCounter ?p = of_nat (length xs)" "set xs \<inter> out = {}" "set xs \<union> out = blocks low n sz"
    using s by (auto simp: part_state_def)
  have n: "b \<notin> set xs" "b \<in> blocks low n sz" using x(3,4) b by auto
  have z: "b \<noteq> 0" using blocks_apart(3) [OF f n(2,2)] .
  define k1 where "k1 = PartitionFree i b k"
  have "PartitionPut (handle OBJECT_PARTITION i) b k = (0, k1)" using part_handle [OF i] part_used [OF s] z by (simp add: PartitionPut_def Let_def k1_def)
  then have r: "r = 0" "k' = k1" using g by simp_all
  show "r = 0" by (rule r(1))
  obtain h m where L: "list_mono_free (PARTITION_pmonoFreeBlockList ?p) b ?m = (h, m)" by (cases "list_mono_free (PARTITION_pmonoFreeBlockList ?p) b ?m")
  then have M: "mono_rep m h (b # xs)" using list_mono_free_rep [OF x(1) n(1)] by auto
  have "set (b # xs) \<inter> (out - {b}) = {}" "set (b # xs) \<union> (out - {b}) = blocks low n sz" using x(3,4) b by auto
  then show "part_state k' i low n sz (out - {b})" unfolding r(2) part_state_def using s M x(2)
    by (auto simp: k1_def PartitionFree_def L part_state_def intro!: exI [of _ "b # xs"])
qed

text \<open>
  The users of one partition: a thread gets a block, puts back one that it has, or anything else
  happens that leaves the control block and the free blocks alone; the blocks in use may be written.
\<close>

inductive part_step :: "nat \<Rightarrow> ulong \<Rightarrow> ulong \<Rightarrow> ulong \<Rightarrow> ulong set \<times> kernel \<Rightarrow> ulong set \<times> kernel \<Rightarrow> bool" for i :: nat and low n sz :: ulong where
  Get: "PartitionGet (handle OBJECT_PARTITION i) k = (b, k') \<Longrightarrow> part_step i low n sz (out, k) (if b = 0 then out else insert b out, k')"
| Put: "b \<in> out \<Longrightarrow> PartitionPut (handle OBJECT_PARTITION i) b k = (r, k') \<Longrightarrow> part_step i low n sz (out, k) (out - {b}, k')"
| Other: "part_of k' i = part_of k i \<Longrightarrow> (\<And>b. b \<in> blocks low n sz - out \<Longrightarrow> PART_link (K_parts k') b = PART_link (K_parts k) b) \<Longrightarrow>
    part_step i low n sz (out, k) (out, k')"

lemma part_step_state:
  assumes i: "i < LW_CFG_MAX_PARTITIONS" and f: "part_fits low n sz"
  shows "part_step i low n sz s s' \<Longrightarrow> part_state (snd s) i low n sz (fst s) \<Longrightarrow> part_state (snd s') i low n sz (fst s')"
proof (induction rule: part_step.induct)
  case (Get k b k' out)
  then have S: "part_state k i low n sz out" by simp
  show ?case using part_get [OF i f S Get.hyps] by (auto split: if_splits)
next
  case (Put b out k r k')
  then show ?case using part_put(2) [OF i f _ Put.hyps] by simp
next
  case (Other k' k out)
  from Other.prems obtain xs where x: "mono_rep (PART_link (K_parts k)) (PARTITION_pmonoFreeBlockList (part_of k i)) xs"
    "PARTITION_ulFreeBlockCounter (part_of k i) = of_nat (length xs)" "set xs \<inter> out = {}" "set xs \<union> out = blocks low n sz" by (auto simp: part_state_def)
  have "PART_link (K_parts k') b = PART_link (K_parts k) b" if "b \<in> set xs" for b using Other.hyps(2) [of b] that x(3,4) by auto
  then have "mono_rep (PART_link (K_parts k')) (PARTITION_pmonoFreeBlockList (part_of k i)) xs"
    using x(1) mono_seg_cong [of xs "PART_link (K_parts k')" "PART_link (K_parts k)"] by (simp add: mono_rep_def)
  then show ?case using Other.prems x unfolding part_state_def fst_conv snd_conv Other.hyps(1) by blast
qed

lemma part_steps_state:
  assumes "i < LW_CFG_MAX_PARTITIONS" and "part_fits low n sz" and "(part_step i low n sz)\<^sup>*\<^sup>* s s'" and "part_state (snd s) i low n sz (fst s)"
  shows "part_state (snd s') i low n sz (fst s')"
  using assms(3,4) by (induction rule: rtranclp_induct) (auto intro: part_step_state [OF assms(1,2)])

section \<open>The life of a partition\<close>

lemma PartitionCreate_eq:
  assumes "CpuGetNesting k = 0" and "Addresses_Is_Aligned low" and "part_fits low n sz" and "\<not> Object_Name_Invalid nm"
    and "kernel_mode_proc Allocate_Partition_Object env k = Some (Some i, env', k1)" and "PARTITION_usIndex (part_of k1 i) = of_nat i"
  shows "PartitionCreate nm low n sz env k = Some (handle OBJECT_PARTITION i, env', part_setup nm low n sz i k1)"
  using assms by (simp add: PartitionCreate_def part_fits_def handle_def part_setup_def Let_def)

text \<open>
  C27: The whole life of a partition. \<^verbatim>\<open>API_PartitionCreate\<close> with a free control block and memory for \<open>n\<close> blocks returns its
  handle, and from then on threads get blocks, put back blocks they have, write into blocks they have
  and do anything else that leaves the partition alone, in any order. At every moment the blocks in
  use lie within the memory of the partition and do not overlap, the status reports the blocks that
  are left, and the next \<^verbatim>\<open>API_PartitionGet\<close> returns a block that is not in use, or null exactly when all are.
\<close>

theorem partition_blocks:
  assumes "CpuGetNesting k = 0" and "Addresses_Is_Aligned low" and "part_fits low n sz" and "\<not> Object_Name_Invalid nm"
    and "kernel_mode_proc Allocate_Partition_Object env k = Some (Some i, env', k1)" and "PARTITION_usIndex (part_of k1 i) = of_nat i" and "i < LW_CFG_MAX_PARTITIONS"
  shows "\<exists>k0. PartitionCreate nm low n sz env k = Some (handle OBJECT_PARTITION i, env', k0) \<and>
    (\<forall>out k'. (part_step i low n sz)\<^sup>*\<^sup>* ({}, k0) (out, k') \<longrightarrow>
      (\<forall>b \<in> out. unat low \<le> unat b \<and> unat b + unat sz \<le> unat low + unat n * unat sz) \<and>
      (\<forall>b \<in> out. \<forall>c \<in> out. b \<noteq> c \<longrightarrow> unat b + unat sz \<le> unat c \<or> unat c + unat sz \<le> unat b) \<and>
      PartitionStatus (handle OBJECT_PARTITION i) k' = (ERROR_NONE, Some (n, n - of_nat (card out), sz), k') \<and> card out \<le> unat n \<and>
      fst (PartitionGet (handle OBJECT_PARTITION i) k') \<notin> out \<and> (fst (PartitionGet (handle OBJECT_PARTITION i) k') = 0 \<longleftrightarrow> card out = unat n))"
proof (intro exI conjI allI impI)
  show "PartitionCreate nm low n sz env k = Some (handle OBJECT_PARTITION i, env', part_setup nm low n sz i k1)" by (rule PartitionCreate_eq [OF assms(1-6)])
  fix out k' assume "(part_step i low n sz)\<^sup>*\<^sup>* ({}, part_setup nm low n sz i k1) (out, k')"
  then have S: "part_state k' i low n sz out" using part_steps_state [OF assms(7,3)] part_setup_state [OF assms(3)] by fastforce
  note F = part_free [OF assms(3) S] and A = blocks_apart [OF assms(3)]
  show "\<forall>b \<in> out. unat low \<le> unat b \<and> unat b + unat sz \<le> unat low + unat n * unat sz" using A(1,2) F(1) by blast
  show "\<forall>b \<in> out. \<forall>c \<in> out. b \<noteq> c \<longrightarrow> unat b + unat sz \<le> unat c \<or> unat c + unat sz \<le> unat b" using A(4) F(1) by blast
  show "PartitionStatus (handle OBJECT_PARTITION i) k' = (ERROR_NONE, Some (n, n - of_nat (card out), sz), k')"
    using part_handle [OF assms(7)] part_used [OF S] S F(3) by (simp add: PartitionStatus_def Let_def part_state_def)
  show "card out \<le> unat n" by (rule F(2))
  obtain b k2 where G: "PartitionGet (handle OBJECT_PARTITION i) k' = (b, k2)" by fastforce
  have c: "out = blocks low n sz \<longleftrightarrow> card out = unat n" using card_subset_eq [OF _ F(1)] block_list_distinct(2) [OF assms(3)] by (auto simp: blocks_def)
  have z: "0 \<notin> out" using F(1) block_list_distinct(3) [OF assms(3)] by blast
  show "fst (PartitionGet (handle OBJECT_PARTITION i) k') \<notin> out" "fst (PartitionGet (handle OBJECT_PARTITION i) k') = 0 \<longleftrightarrow> card out = unat n"
    using part_get [OF assms(7,3) S G] G z c by (auto split: if_splits)
qed

text \<open>A kernel with one free control block, number 3; the caller is inside the kernel, so nothing else runs.\<close>

definition demo_part :: kernel where
  "demo_part = (cpu_upd 0 (\<lambda>p. p\<lparr>CPU_iKernelCounter := 1\<rparr>) demo_sem)\<lparr>K_parts := parts0\<lparr>K_resrcPart := \<lparr>RESRC_free = [3], RESRC_uiUsed = 0, RESRC_uiMaxUsed = 0\<rparr>\<rparr>\<rparr>"

lemma demo_part_facts:
  "CpuGetNesting demo_part = 0" "kernel_mode_proc Allocate_Partition_Object [] demo_part = Some (Some 3, [], snd (Allocate_Partition_Object demo_part))"
  "part_of (snd (Allocate_Partition_Object demo_part)) 3 = K_partBuffer parts0 3" "part_fits 4096 2 16"
proof -
  have c: "K_curcpu demo_part = 0" "CPU_ulInterNesting (K_cpu demo_part 0) = CPU_ulInterNesting (K_cpu demo_sem 0)" "CPU_iKernelCounter (K_cpu demo_part 0) = 1"
    by (simp_all add: demo_part_def demo_sem_tcb)
  then show "CpuGetNesting demo_part = 0" using demo_sem_nesting by (simp add: CpuGetNesting_def demo_sem_tcb)
  have r: "RESRC_free (K_resrcPart (K_parts demo_part)) = [3]" by (simp add: demo_part_def)
  have e: "Allocate_Partition_Object (kernelEnter demo_part) = (Some 3, kernelEnter (snd (Allocate_Partition_Object demo_part)))"
    using r by (simp add: Allocate_Partition_Object_def Let_def) (simp add: parts_upd_def kernelEnter_def cpu_upd_def)
  have x: "kernelExit [] (kernelEnter k) = Some (0, [], k)" if "CPU_iKernelCounter (K_cpu k (K_curcpu k)) = 1" for k
    using that by (simp add: kernelExit_def kernelEnter_def cpu_upd_def Let_def fun_upd_idem)
  have "CPU_iKernelCounter (K_cpu (snd (Allocate_Partition_Object demo_part)) (K_curcpu (snd (Allocate_Partition_Object demo_part)))) = 1"
    using r c by (simp add: Allocate_Partition_Object_def Let_def) (simp add: parts_upd_def)
  then show "kernel_mode_proc Allocate_Partition_Object [] demo_part = Some (Some 3, [], snd (Allocate_Partition_Object demo_part))"
    using x by (simp add: kernel_mode_proc_def e)
  show "part_of (snd (Allocate_Partition_Object demo_part)) 3 = K_partBuffer parts0 3"
    using r by (simp add: Allocate_Partition_Object_def Let_def) (simp add: part_of_def demo_part_def)
  show "part_fits 4096 2 16" by (simp add: part_fits_def Partition_BlockSize_Invalid_def)
qed

theorem partition_blocks_witness:
  "\<exists>k0. PartitionCreate (Some ''part'') 4096 2 16 [] demo_part = Some (handle OBJECT_PARTITION 3, [], k0) \<and>
    PartitionStatus (handle OBJECT_PARTITION 3) k0 = (ERROR_NONE, Some (2, 2, 16), k0) \<and> fst (PartitionGet (handle OBJECT_PARTITION 3) k0) \<noteq> 0"
proof -
  have a: "Addresses_Is_Aligned 4096" "\<not> Object_Name_Invalid (Some ''part'')" by (simp_all add: Addresses_Is_Aligned_def Object_Name_Invalid_def)
  have u: "PARTITION_usIndex (part_of (snd (Allocate_Partition_Object demo_part)) 3) = of_nat 3" by (simp add: demo_part_facts(3) parts0_def)
  from partition_blocks [OF demo_part_facts(1) a(1) demo_part_facts(4) a(2) demo_part_facts(2) u]
  obtain k0 where C: "PartitionCreate (Some ''part'') 4096 2 16 [] demo_part = Some (handle OBJECT_PARTITION 3, [], k0)"
    and S: "\<forall>out k'. (part_step 3 4096 2 16)\<^sup>*\<^sup>* ({}, k0) (out, k') \<longrightarrow>
      PartitionStatus (handle OBJECT_PARTITION 3) k' = (ERROR_NONE, Some (2, 2 - of_nat (card out), 16), k') \<and>
      (fst (PartitionGet (handle OBJECT_PARTITION 3) k') = 0 \<longleftrightarrow> card out = unat (2 :: ulong))" by auto
  have "(part_step 3 4096 2 16)\<^sup>*\<^sup>* ({}, k0) ({}, k0)" by simp
  from S [THEN spec, THEN spec, THEN mp, OF this] show ?thesis using C by simp
qed

text \<open>
  C28: \<^verbatim>\<open>API_PartitionDelete\<close> refuses a partition of which a block is in use and changes nothing but the error
  number; otherwise the control block goes to the end of the free pool, the handle becomes zero, and
  the old handle gets no more blocks.
\<close>

theorem partition_delete:
  assumes "part_state k i low n sz out" and "part_fits low n sz" and "i < LW_CFG_MAX_PARTITIONS" and "CpuGetNesting k = 0"
  shows "if out \<noteq> {} then PartitionDelete (handle OBJECT_PARTITION i) env k =
      Some (ERROR_PARTITION_BLOCK_USED, handle OBJECT_PARTITION i, env, ErrorHandle ERROR_PARTITION_BLOCK_USED k)
    else \<exists>k1. PartitionDelete (handle OBJECT_PARTITION i) env k = map_option (\<lambda>(_, env, k). (ERROR_NONE, 0, env, k)) (kernelExit env k1) \<and>
      RESRC_free (K_resrcPart (K_parts k1)) = RESRC_free (K_resrcPart (K_parts k)) @ [i] \<and>
      PartitionGet (handle OBJECT_PARTITION i) k1 = (0, ErrorHandle ERROR_PARTITION_NULL k1)"
proof -
  note F = part_free [OF assms(2,1)] and H = part_handle [OF assms(3)]
  have fin: "finite out" by (rule finite_subset [OF F(1)]) (simp add: blocks_def)
  have n: "PARTITION_ulBlockCounter (part_of k i) = n" using assms(1) by (simp add: part_state_def)
  have "unat n < 2 ^ LENGTH(64)" by (rule unsigned_less)
  then have u: "unat (of_nat (card out) :: ulong) = card out" using F(2) by (simp add: unat_of_nat)
  have e: "n = n - of_nat (card out) \<longleftrightarrow> out = {}"
  proof -
    have "n = n - of_nat (card out) \<longleftrightarrow> (of_nat (card out) :: ulong) = 0" by (simp add: eq_diff_eq)
    also have "\<dots> \<longleftrightarrow> card out = 0" using u by (cases "card out") auto
    finally show ?thesis using fin by simp
  qed
  show ?thesis
  proof (cases "out = {}")
    case True
    let ?k0 = "part_upd i (\<lambda>p. p\<lparr>PARTITION_ucType := LW_PARTITION_UNUSED\<rparr>) k"
    let ?k1 = "Free_Partition_Object i (kernelEnter ?k0)"
    have D: "Option.bind (kernel_mode_proc (\<lambda>k. ((), Free_Partition_Object i k)) env ?k0) (\<lambda>(_, env, k). Some (ERROR_NONE, 0, env, k)) =
        map_option (\<lambda>(_, env, k). (ERROR_NONE, 0 :: ulong, env, k)) (kernelExit env ?k1)"
      unfolding kernel_mode_proc_def by (cases "kernelExit env ?k1") (simp_all add: split_beta)
    have "PartitionDelete (handle OBJECT_PARTITION i) env k = map_option (\<lambda>(_, env, k). (ERROR_NONE, 0, env, k)) (kernelExit env ?k1)"
      using H part_used [OF assms(1)] assms(4) n F(3) True D
      by (simp add: PartitionDelete_def PartitionDeleteEx_def Let_def)
    moreover have "PARTITION_ucType (part_of ?k1 i) = LW_PARTITION_UNUSED" by (simp add: Free_Partition_Object_def)
    then have "PartitionGet (handle OBJECT_PARTITION i) ?k1 = (0, ErrorHandle ERROR_PARTITION_NULL ?k1)" using H by (simp add: PartitionGet_def Let_def Partition_Type_Invalid_def)
    moreover have "RESRC_free (K_resrcPart (K_parts ?k1)) = RESRC_free (K_resrcPart (K_parts k)) @ [i]" by (simp add: Free_Partition_Object_def)
    ultimately show ?thesis using True by auto
  next
    case False
    then show ?thesis using H part_used [OF assms(1)] assms(4) n F(3) e by (simp add: PartitionDelete_def PartitionDeleteEx_def Let_def)
  qed
qed


theorem partition_delete_witness:
  "\<exists>k1. PartitionDelete (handle OBJECT_PARTITION 3) [] (part_setup None 4096 2 16 3 demo_part) = map_option (\<lambda>(_, env, k). (ERROR_NONE, 0, env, k)) (kernelExit [] k1) \<and>
    RESRC_free (K_resrcPart (K_parts k1)) = [3, 3]"
proof -
  let ?k = "part_setup None 4096 2 16 3 demo_part"
  have n: "CpuGetNesting ?k = 0" using demo_part_facts(1) by (simp add: part_setup_def Let_def part_upd_def parts_upd_def CpuGetNesting_def)
  have r: "RESRC_free (K_resrcPart (K_parts ?k)) = [3]" by (simp add: part_setup_def Let_def) (simp add: demo_part_def)
  show ?thesis using partition_delete [OF part_setup_state [OF demo_part_facts(4)] demo_part_facts(4) _ n, of "[]"] r by auto
qed

end
