(* ===== verification/Spec2Isabelle.thy ===== *)
theory Spec2Isabelle
  imports SchedProps MsgQueueClaims SemRWClaims PartitionClaims
begin

text \<open>
  \<^bold>\<open>A verification library for the core of the SylixOS kernel\<close>

  SylixOS (\<^verbatim>\<open>src/SylixOS\<close>) is a multi-core real-time operating system written in C. This development
  models the core of its kernel (\<^verbatim>\<open>kernel/core\<close>, \<^verbatim>\<open>kernel/list\<close>, \<^verbatim>\<open>kernel/vutex\<close> and the calls of
  \<^verbatim>\<open>kernel/interface\<close> built on them) and proves it correct: who runs, who waits, who is woken, and when.

  \<^bold>\<open>The parts and how they interact.\<close> Every thread has a control block (TCB). A ready thread is
  either the \<^emph>\<open>candidate\<close> of one processor or stands in the ring of its priority in a ready table,
  global or of one processor; a two-level bitmap per table finds the highest priority. A thread that
  cannot go on leaves the tables and enters a wait queue: of an event control block (semaphores),
  of an event set, of a vutex bucket, or the list of requests of another thread; with a timeout it
  also enters the delay line, a line of relative delays that the clock tick shortens. Waking undoes
  this. On leaving the kernel a processor updates its candidate and switches to it.

  \<^bold>\<open>Theories and sources.\<close>
  \<^item> \<open>Prelude\<close>: machine types, fact collections, lemmas on words, lists and functions.
  \<^item> \<open>ListLink\<close>: rings, lines and resource chains on the level of pointers (\<^verbatim>\<open>kernel/list/listLink.c\<close>,
    \<^verbatim>\<open>listOp.h\<close>), refined to lists; locale \<open>ring_ops\<close>.
  \<^item> \<open>Bitmap\<close>: \<^verbatim>\<open>_BitmapLib.c\<close> and \<^verbatim>\<open>archFindLsb\<close> (\<^verbatim>\<open>arch/arm/common/armLib.c\<close>); locale \<open>prio_table\<close>.
  \<^item> \<open>Wakeup\<close>: \<^verbatim>\<open>_WakeupLine.c\<close>; locale \<open>deadline_queue\<close>.
  \<^item> \<open>KernelState\<close>: the records of \<^verbatim>\<open>k_class.h\<close>, \<^verbatim>\<open>k_cpu.h\<close>, \<^verbatim>\<open>k_globalvar.h\<close>, object handles
    (\<^verbatim>\<open>inlObject.h\<close>), error codes.
  \<^item> \<open>CandTable\<close>, \<open>CandUpdate\<close>: \<^verbatim>\<open>_ReadyRing.c\<close>, \<^verbatim>\<open>_ReadyTableLib.c\<close>, \<^verbatim>\<open>_CandTable.c\<close>.
  \<^item> \<open>Sched\<close>, \<open>SchedInv\<close>, \<open>SchedProps\<close>: \<^verbatim>\<open>_SchedCand.c\<close>, \<^verbatim>\<open>_Sched.c\<close>, \<^verbatim>\<open>_SmpIpi.c\<close>, \<^verbatim>\<open>_KernelStatus.c\<close>,
    \<^verbatim>\<open>_ThreadStatus.c\<close>, \<^verbatim>\<open>_ThreadSafeLib.c\<close>, \<^verbatim>\<open>_ThreadMiscLib.c\<close>; \<open>Frame\<close> says what the tables
    leave alone.
  \<^item> \<open>Delay\<close>: \<^verbatim>\<open>k_scanlink.h\<close>, \<^verbatim>\<open>TimeSleep.c\<close>, \<^verbatim>\<open>_sigTimeoutRecalc\<close> (\<^verbatim>\<open>signalLib.c\<close>).
  \<^item> \<open>EventQueue\<close>, \<open>WaitQueue\<close>, \<open>EventInv\<close>, \<open>EventOps\<close>, \<open>EventProps\<close>: \<^verbatim>\<open>_EventQueue.c\<close>, \<^verbatim>\<open>_EventHighLevel.c\<close>,
    \<^verbatim>\<open>inlSearchEventQueue.h\<close>; locale \<open>wait_queue\<close>, interpreted for both orders of service.
  \<^item> \<open>EventPool\<close>, \<open>Sem\<close>, \<open>SemInv\<close>, \<open>SemProps\<close>, \<open>Section\<close>, \<open>SemClaims\<close>: \<^verbatim>\<open>listEvent.c\<close>, \<^verbatim>\<open>_EventInit.c\<close>,
    \<^verbatim>\<open>SemaphoreB*.c\<close>, \<^verbatim>\<open>SemaphoreC*.c\<close>.
  \<^item> \<open>EventSet\<close>, \<open>EventSetInv\<close>: \<^verbatim>\<open>_EventSet*.c\<close>, \<^verbatim>\<open>listEventSet.c\<close>, \<^verbatim>\<open>EventSet*.c\<close>.
  \<^item> \<open>Vutex\<close>, \<open>VutexInv\<close>: \<^verbatim>\<open>kernel/vutex/vutex.c\<close>, \<^verbatim>\<open>vutexLib.c\<close>.
  \<^item> \<open>Mutex\<close>, \<open>MutexInv\<close>, \<open>MutexClaims\<close>: \<^verbatim>\<open>SemaphoreM*.c\<close>, the safe mode (\<^verbatim>\<open>_ThreadSafeLib.c\<close>, \<^verbatim>\<open>ThreadSafe.c\<close>,
    \<^verbatim>\<open>ThreadUnsafe.c\<close>, \<^verbatim>\<open>ThreadIsSafe.c\<close>) and the calls on any semaphore; \<open>mx_step\<close> interleaves the users of a mutex with
    the rest of the system, with a ghost count of who holds it.
  \<^item> \<open>MsgBuffer\<close>, \<open>MsgQueue\<close>, \<open>MsgQueueInv\<close>, \<open>MsgQueueOps\<close>, \<open>MsgQueueClaims\<close>: the buffer of a message queue on the
    level of nodes and links (\<^verbatim>\<open>_MsgQueueLib.c\<close>; locale \<open>msg_buffer\<close>, interpreted as \<open>mqbuf\<close>), the control blocks
    and the calls (\<^verbatim>\<open>listMsgQueue.c\<close>, \<^verbatim>\<open>_MsgQueueInit.c\<close>, \<^verbatim>\<open>MsgQueue*.c\<close>) and the abstract queue; \<open>mq_step\<close> is the life
    of one queue with a ghost log of what was sent and received.
  \<^item> \<open>SemRW\<close>, \<open>SemRWInv\<close>, \<open>SemRWClaims\<close>: \<^verbatim>\<open>SemaphoreRW*.c\<close> and the calls on any semaphore that serve them
    (\<^verbatim>\<open>SemaphorePost.c\<close>, \<^verbatim>\<open>SemaphoreDelete.c\<close>, \<^verbatim>\<open>SemaphoreGetName.c\<close>, \<^verbatim>\<open>SemaphorePostPend.c\<close>); \<open>rw_spec\<close> is the
    abstract semaphore, \<open>rw_step\<close> interleaves its users with the rest of the system, with ghost counts of readers and writers.
  \<^item> \<open>Partition\<close>, \<open>PartitionClaims\<close>: partitions of fixed-size blocks (\<^verbatim>\<open>_PartitionLib.c\<close>, \<^verbatim>\<open>_PartitionInit.c\<close>, \<^verbatim>\<open>listPartition.c\<close>,
    \<^verbatim>\<open>Partition*.c\<close>); \<open>part_step\<close> is the life of one partition with the ghost set of the blocks in use.
  \<^item> \<open>WakeLoop\<close>: the locale \<open>wake_loop\<close> of the loops that wake every waiter, interpreted for broadcast, flush, clear
    and deletion of message queues and for the readers that are let in.
  \<^item> \<open>Threads\<close>, \<open>ThreadCalls\<close>: \<^verbatim>\<open>ThreadSuspend.c\<close>, \<^verbatim>\<open>ThreadResume.c\<close>, \<^verbatim>\<open>ThreadForceResume.c\<close>,
    \<^verbatim>\<open>ThreadWakeup.c\<close>, \<^verbatim>\<open>ThreadSetPriority.c\<close>, \<^verbatim>\<open>ThreadYield.c\<close> and their neighbours.
  \<^item> \<open>Tick\<close>: \<^verbatim>\<open>_ThreadTick\<close> (\<^verbatim>\<open>_TimeTick.c\<close>).
  \<^item> \<open>Ready\<close>, \<open>OtherWait\<close>, \<open>Requests\<close>, \<open>Waiting\<close>, \<open>SysOps\<close>, \<open>Sweep\<close>: the invariant \<open>sys_ok\<close> of the whole
    system and that the building blocks keep it; \<open>Sweep\<close> has the locale \<open>wake_sweep\<close> of the loops
    that walk over a list of waiters and wake some of them, interpreted for setting an event set,
    deleting one and waking a vutex bucket.
  \<^item> \<open>Steps\<close>, \<open>Blocking\<close>, \<open>SysClaims\<close>: the step relation \<open>sys_step\<close> of the interleaved system, reachable
    states, and the properties that span components.
  \<^item> \<open>Demo\<close>, \<open>DemoIpc\<close>: configurations at which the properties are exercised.

  \<^bold>\<open>State and effects.\<close> The state is one record \<open>kernel\<close>: threads, processors, events and event
  sets are functions from their index, rings and lists are lists of threads in the order of
  the pointers. An operation takes the state and returns the new one, with the result of the C
  function first; failures are the error codes of the source, and a stop of the kernel
  (\<^verbatim>\<open>_BugHandle\<close>) is the flag \<open>K_bug\<close>, which the invariants show is never set. The
  section of the kernel between \<^verbatim>\<open>__KERNEL_ENTER\<close> and \<^verbatim>\<open>__KERNEL_EXIT\<close> is atomic up to a context
  switch. A switch takes the processor from the caller: the argument \<open>env\<close> lists what the rest of the
  system does during each absence of the caller, \<open>None\<close> is a call that never returns, and \<open>rely\<close> says that
  what happens meanwhile keeps the invariant. \<open>sys_step\<close> gives the rest of the system a concrete form.

  \<^bold>\<open>Bounds.\<close> The loops of \<^verbatim>\<open>API_Semaphore*Pend\<close> (mutexes and read-write semaphores included), \<^verbatim>\<open>API_MsgQueue*\<close>, \<^verbatim>\<open>API_EventSetGetEx\<close> and \<^verbatim>\<open>API_VutexPendEx\<close> restart after a
  signal; each round uses one entry of \<open>env\<close>, so recursion over \<open>env\<close> never cuts them short. The loops of the tick and
  of waking are declared by \<^theory_text>\<open>partial_function\<close> and proved to return. Words have the widths of the 64-bit configuration.
  The configuration is: several processors, no hyper-threading, no processor
  shutdown, argument checks on. Translation of user addresses in the vutex
  calls is the parameter \<open>vtop\<close>, the kernel heap in the creation of a message queue the parameter \<open>kheap_alloc\<close>; the
  deletion of one returns the address it gives back to the heap.

  \<^bold>\<open>What is shown.\<close> Invariants: in every reachable state no kernel stop, tables, queues and
  delay line consistent with the control blocks. Scheduling: a candidate that is
  updated has the highest eligible priority, the exit from an interrupt runs the candidate, round robin within a
  priority. Waiting: order of service, exact timeouts, no lost or doubled
  unit of a semaphore, exactly the satisfied waiters of event sets and vutexes are
  woken, a blocked thread gives up its processor, deletion releases all. Mutexes: one holder at a time,
  handing over in the order of service, inheritance of priorities (and that a waiter which gives up leaves the
  owner at the raised priority for good). Read-write semaphores: readers or one writer, who comes in when the last one
  leaves, and that a reader can be left waiting by a writer that gives up. Message queues: over the life of a queue no message is lost, doubled
  or overtaken within its priority, a waiting receiver gets the message itself, deletion releases everybody, and the
  memory asked for is enough exactly when an unchecked product does not overflow. Partitions: blocks in use never overlap.
  Handles are typed. A change of priority does not move a waiting thread in its queue. Foundations: the pointer lists, bitmap,
  wakeup lines (driven by ticks or by kernel time) and handles refine lists, sets, deadlines and triples. The error branches of the calls are stated too.

  \<^bold>\<open>Not modelled.\<close> Spinlocks and interrupt windows inside a section; monitor events,
  debug messages and hooks; the watchdog line and timers (user call-backs); time-of-day and
  processor-usage accounting; signals other than their effect on waits; thread creation and deletion
  (stack set-up of the architecture); memory, I/O, file systems, network, shell, loader, POSIX layer and
  architecture ports, which are separate programs over the kernel.
  A thread that leaves the safe mode may have to delete or restart itself: the model tells which call follows.
\<close>

end
